(* ===== verification/Sde_Prelude.thy ===== *)
theory Sde_Prelude
  imports Main "HOL-Library.Word" "HOL-Library.Monad_Syntax"
begin

section \<open>Shared vocabulary of the display driver development\<close>

text \<open>
  What every component theory uses: the C integer types, the errno values, the way calls that
  leave the modelled code are represented, and generic lemmas on lists and traces.

  \<^bold>\<open>Calls that leave the model.\<close> The driver calls the kernel (clock framework, bus scaling,
  regulators, DRM core) and function pointers that are handed to it. Such a call is a value of a
  component's call datatype. Its return code is given by an environment \<open>env\<close>, an arbitrary
  function of the calls made so far and of the call itself, so nothing is assumed about the
  callee unless a theorem says so. Every call is recorded with its return code in a trace, oldest
  call first; the trace is what the driver does to the outside world.

  \<^bold>\<open>Undefined behaviour.\<close> A function that can dereference a null or dangling pointer or index
  an array out of its bounds returns an option, and \<open>None\<close> is that event. Error codes are
  ordinary results: a negative \<open>int\<close>, as in C.
\<close>

unbundle bit_operations_syntax

type_synonym u8 = "8 word"
type_synonym u16 = "16 word"
type_synonym u32 = "32 word"
type_synonym u64 = "64 word"

text \<open>The errno values the modelled code returns.\<close>

abbreviation EAGAIN :: int where "EAGAIN \<equiv> 11"
abbreviation ENOMEM :: int where "ENOMEM \<equiv> 12"
abbreviation EFAULT :: int where "EFAULT \<equiv> 14"
abbreviation EBUSY :: int where "EBUSY \<equiv> 16"
abbreviation EINVAL :: int where "EINVAL \<equiv> 22"
abbreviation ERANGE :: int where "ERANGE \<equiv> 34"
abbreviation ETIMEDOUT :: int where "ETIMEDOUT \<equiv> 110"

named_theorems trace_simps
  \<open>how the sums over a trace change along an operation\<close>

named_theorems safe_intros
  \<open>decompose the proof that an operation has no undefined behaviour\<close>

subsection \<open>Traces of calls\<close>

type_synonym 'c trace = "('c \<times> int) list"
type_synonym 'c env = "'c trace \<Rightarrow> 'c \<Rightarrow> int"

text \<open>A call with a return code, and a call to a function returning void.\<close>

definition ext :: "'c env \<Rightarrow> 'c \<Rightarrow> 'c trace \<Rightarrow> int \<times> 'c trace" where
  "ext env c w = (env w c, w @ [(c, env w c)])"

definition vcall :: "'c \<Rightarrow> 'c trace \<Rightarrow> 'c trace" where
  "vcall c w = w @ [(c, 0)]"

text \<open>The sum of a per-call weight over a trace: reference counts of outside objects.\<close>

definition trace_sum :: "('c \<times> int \<Rightarrow> int) \<Rightarrow> 'c trace \<Rightarrow> int" where
  "trace_sum f w = sum_list (map f w)"

lemma trace_sum_Nil [simp]: "trace_sum f [] = 0"
  by (simp add: trace_sum_def)

lemma trace_sum_append [simp]: "trace_sum f (u @ v) = trace_sum f u + trace_sum f v"
  by (simp add: trace_sum_def)

lemma trace_sum_Cons [simp]: "trace_sum f (x # v) = f x + trace_sum f v"
  by (simp add: trace_sum_def)

lemma trace_sum_vcall [trace_simps]: "trace_sum f (vcall c w) = trace_sum f w + f (c, 0)"
  by (simp add: vcall_def)

lemma ext_sum: "ext env c w = (rc, w') \<Longrightarrow> trace_sum f w' = trace_sum f w + f (c, rc)"
  by (auto simp: ext_def)

subsection \<open>Arrays\<close>

text \<open>An array read: outside the bounds there is no value.\<close>

definition nth_opt :: "'a list \<Rightarrow> nat \<Rightarrow> 'a option" where
  "nth_opt xs i = (if i < length xs then Some (xs ! i) else None)"

lemma nth_opt_Some_iff: "nth_opt xs i = Some x \<longleftrightarrow> i < length xs \<and> xs ! i = x"
  by (simp add: nth_opt_def)

lemma nth_opt_in [simp]: "i < length xs \<Longrightarrow> nth_opt xs i = Some (xs ! i)"
  by (simp add: nth_opt_def)

text \<open>Indices below a 32-bit count, and the last index as a signed number.\<close>

lemma unat_word_of_nat [simp]:
  fixes n :: u32
  assumes "j < unat n"
  shows "unat (word_of_nat j :: u32) = j"
proof -
  have "unat n < 2 ^ LENGTH(32)" by (rule unsigned_less)
  with assms show ?thesis by (simp add: unsigned_of_nat take_bit_nat_eq_self)
qed

lemma u32_of_nat_eq_iff:
  assumes "a < 2 ^ 32" and "b < 2 ^ 32"
  shows "(word_of_nat a :: u32) = word_of_nat b \<longleftrightarrow> a = b"
proof -
  have "unat (word_of_nat x :: u32) = x" if "x < 2 ^ 32" for x
    using that by (simp add: unsigned_of_nat take_bit_nat_eq_self)
  with assms show ?thesis by metis
qed

lemma sint_last:
  fixes n :: u32
  assumes "0 < unat n" and "unat n < 2 ^ 31"
  shows "sint (n - 1) = int (unat n) - 1"
proof -
  have "unat (n - 1) = unat n - 1"
    using assms(1) by (intro unat_minus_one) auto
  then have "int (unat (n - 1)) = int (unat n) - 1"
    using assms(1) by linarith
  then have eq: "uint (n - 1) = int (unat n) - 1"
    by (simp only: uint_nat)
  moreover have "0 \<le> uint (n - 1)" by simp
  moreover have "int (unat n) < int (2 ^ 31)"
    using assms(2) by (simp only: of_nat_less_iff)
  then have "uint (n - 1) < 2 ^ 31" unfolding eq by simp
  ultimately show ?thesis by (simp add: sint_uint signed_take_bit_int_eq_self)
qed

text \<open>Exact arithmetic on 64-bit values that stay in range.\<close>

lemma u32_bound: "uint (b :: u32) < 2 ^ 32"
  using uint_lt2p [of b] by simp

lemma uint_ucast_u32 [simp]: "uint (ucast (b :: u32) :: u64) = uint b"
  using u32_bound [of b] by (simp add: unsigned_ucast_eq take_bit_int_eq_self)

lemma uint_mult_u64: "uint (a :: u64) * uint b < 2 ^ 64 \<Longrightarrow> uint (a * b) = uint a * uint b"
  by (simp add: uint_word_ariths)

lemma sint_u64: "x \<in> {- (2 ^ 63)..< 2 ^ 63} \<Longrightarrow> sint (word_of_int x :: u64) = x"
  by (simp add: signed_of_int signed_take_bit_int_eq_self)

lemma max_zero_word:
  assumes "x \<in> {- (2 ^ 63)..< 2 ^ 63}" and "t = (word_of_int x :: u64)"
  shows "uint (if sint t < 0 then 0 else t) = max 0 x"
  using assms by (auto simp: sint_u64 max_def uint_word_of_int)

lemma div_between: "0 \<le> a \<Longrightarrow> 0 < b \<Longrightarrow> a div b \<in> {0..a}" for a b :: int
  using zdiv_mono2 [of a 1 b] by (simp add: pos_imp_zdiv_nonneg_iff)

lemma uint_pos: "(b :: u32) \<noteq> 0 \<Longrightarrow> 0 < uint b"
  by (metis uint_0_iff uint_ge_0 order_le_less)

lemma map_update_same: "f y = f (xs ! k) \<Longrightarrow> map f (xs[k := y]) = map f xs"
  by (simp add: map_update) (metis list_update_id map_update)

lemma sum_list_upd:
  fixes xs :: "int list"
  assumes "k < length xs"
  shows "sum_list (xs[k := x]) = sum_list xs + x - xs ! k"
  using assms
proof (induction xs arbitrary: k)
  case (Cons y ys)
  then show ?case by (cases k) simp_all
qed simp

subsection \<open>Absence of undefined behaviour\<close>

definition defined :: "'a option \<Rightarrow> bool" where
  "defined x \<longleftrightarrow> x \<noteq> None"

lemma defined_Some [simp, safe_intros]: "defined (Some x)"
  by (simp add: defined_def)

lemma defined_bind [safe_intros]:
  "defined x \<Longrightarrow> (\<And>y. x = Some y \<Longrightarrow> defined (f y)) \<Longrightarrow> defined (x \<bind> f)"
  by (cases x) (auto simp: defined_def)

lemma defined_if [safe_intros]:
  "(b \<Longrightarrow> defined x) \<Longrightarrow> (\<not> b \<Longrightarrow> defined y) \<Longrightarrow> defined (if b then x else y)"
  by simp

lemma defined_prod [safe_intros]:
  "(\<And>a b. p = (a, b) \<Longrightarrow> defined (f a b)) \<Longrightarrow> defined (case p of (a, b) \<Rightarrow> f a b)"
  by (cases p) simp

lemma defined_let [safe_intros]: "defined (f t) \<Longrightarrow> defined (let x = t in f x)"
  by (simp add: Let_def)

lemma defined_option [safe_intros]:
  "(x = None \<Longrightarrow> defined a) \<Longrightarrow> (\<And>y. x = Some y \<Longrightarrow> defined (f y)) \<Longrightarrow>
     defined (case x of None \<Rightarrow> a | Some y \<Rightarrow> f y)"
  by (cases x) simp_all

lemma defined_sum [safe_intros]:
  "(\<And>a. x = Inl a \<Longrightarrow> defined (f a)) \<Longrightarrow> (\<And>b. x = Inr b \<Longrightarrow> defined (g b)) \<Longrightarrow>
     defined (case x of Inl a \<Rightarrow> f a | Inr b \<Rightarrow> g b)"
  by (cases x) simp_all

lemma defined_map_option [simp]: "defined (map_option f x) = defined x"
  by (simp add: defined_def)

lemma defined_nth_opt [simp]: "defined (nth_opt xs i) \<longleftrightarrow> i < length xs"
  by (simp add: defined_def nth_opt_def)

lemma defined_ex: "defined x \<Longrightarrow> \<exists>y. x = Some y"
  by (simp add: defined_def)

subsection \<open>Arbitration of votes\<close>

text \<open>
  Several parts of the driver collect the votes of clients and act on the strongest one. The
  contract: the outcome is at least every vote, and it is one of the votes or the idle value.
\<close>

locale vote_arbiter =
  fixes arb :: "'v::linorder list \<Rightarrow> 'v"
    and idle :: 'v
  assumes arb_ge: "v \<in> set vs \<Longrightarrow> v \<le> arb vs"
    and arb_in: "arb vs = idle \<or> arb vs \<in> set vs"
    and idle_least: "idle \<le> v"
begin

lemma arb_Max: "arb vs = Max (insert idle (set vs))"
proof (rule antisym)
  show "arb vs \<le> Max (insert idle (set vs))"
    using arb_in [of vs] by (auto intro: Max_ge)
  show "Max (insert idle (set vs)) \<le> arb vs"
    by (auto intro: arb_ge idle_least)
qed

text \<open>The order in which clients are visited is irrelevant.\<close>

lemma arb_set_cong: "set us = set vs \<Longrightarrow> arb us = arb vs"
  by (simp add: arb_Max)

lemma arb_mono: "set us \<subseteq> set vs \<Longrightarrow> arb us \<le> arb vs"
  by (auto simp: arb_Max intro!: Max_mono)

text \<open>Idle votes do not count, and the outcome is idle exactly when nobody votes.\<close>

lemma arb_idle_vote: "set us - {idle} = set vs - {idle} \<Longrightarrow> arb us = arb vs"
  by (simp add: arb_Max) (metis insert_Diff_single)

lemma arb_idle_iff: "arb vs = idle \<longleftrightarrow> (\<forall>v \<in> set vs. v = idle)"
  using arb_ge [of _ vs] arb_in [of vs] idle_least by (auto intro: antisym)

end

subsection \<open>Reference counted switches\<close>

text \<open>
  Clocks, power and interrupts are shared by counting requests: a resource is on while somebody
  asked for it. \<open>level\<close> is the count after a sequence of requests and releases, a release of an
  idle resource being ignored.
\<close>

primrec level :: "nat \<Rightarrow> bool list \<Rightarrow> nat" where
  "level n [] = n"
| "level n (b # bs) = level (if b then Suc n else n - 1) bs"

lemma level_append: "level n (bs @ cs) = level (level n bs) cs"
  by (induction bs arbitrary: n) simp_all

lemma level_le: "level n bs \<le> n + length bs"
proof (induction bs arbitrary: n)
  case (Cons b bs)
  have "level (if b then Suc n else n - 1) bs \<le> (if b then Suc n else n - 1) + length bs"
    by (rule Cons)
  then show ?case by (simp split: if_splits)
qed simp

locale ref_switch =
  fixes request :: "bool \<Rightarrow> 's \<Rightarrow> 's" and count :: "'s \<Rightarrow> nat" and on :: "'s \<Rightarrow> bool"
    and ok :: "'s \<Rightarrow> bool" and top :: nat
  assumes on_iff: "ok s \<Longrightarrow> on s \<longleftrightarrow> count s > 0"
    and get_count: "ok s \<Longrightarrow> count s < top \<Longrightarrow> ok (request True s) \<and> count (request True s) = Suc (count s)"
    and put_count: "ok s \<Longrightarrow> ok (request False s) \<and> count (request False s) = count s - 1"
begin

lemma requests:
  "ok s \<Longrightarrow> count s + length bs \<le> top \<Longrightarrow>
     ok (fold request bs s) \<and> count (fold request bs s) = level (count s) bs"
proof (induction bs arbitrary: s)
  case (Cons b bs)
  have "ok (request b s) \<and> count (request b s) = (if b then Suc (count s) else count s - 1)"
    using Cons.prems get_count put_count by (cases b) auto
  with Cons.IH [of "request b s"] Cons.prems(2) show ?case by (simp split: if_splits)
qed simp

lemma requests_on:
  "ok s \<Longrightarrow> count s + length bs \<le> top \<Longrightarrow> on (fold request bs s) \<longleftrightarrow> level (count s) bs > 0"
  using requests [of s bs] on_iff [of "fold request bs s"] by simp

lemma bracket: "ok s \<Longrightarrow> count s < top \<Longrightarrow> on (request False (request True s)) \<longleftrightarrow> on s"
  using get_count [of s] put_count [of "request True s"] on_iff by simp

end

text \<open>
  A bank of such switches, numbered by \<open>'i\<close>, where a release needs an earlier request: the
  contract of counters that may become negative otherwise. \<open>bank_level\<close> follows one of them
  through a sequence of requests to all of them.
\<close>

primrec bank_level :: "'i \<Rightarrow> nat \<Rightarrow> ('i \<times> bool) list \<Rightarrow> nat" where
  "bank_level i n [] = n"
| "bank_level i n (x # xs) = bank_level i (if fst x \<noteq> i then n else if snd x then Suc n else n - 1) xs"

primrec paired :: "('i \<Rightarrow> nat) \<Rightarrow> ('i \<times> bool) list \<Rightarrow> bool" where
  "paired n [] \<longleftrightarrow> True"
| "paired n (x # xs) \<longleftrightarrow> (snd x \<or> n (fst x) > 0) \<and>
     paired (n(fst x := if snd x then Suc (n (fst x)) else n (fst x) - 1)) xs"

locale switch_bank =
  fixes request :: "'i \<times> bool \<Rightarrow> 's \<Rightarrow> 's" and count :: "'s \<Rightarrow> 'i \<Rightarrow> nat" and on :: "'s \<Rightarrow> 'i \<Rightarrow> bool"
    and ok :: "'s \<Rightarrow> bool" and index :: "'s \<Rightarrow> 'i \<Rightarrow> bool" and wired :: "'s \<Rightarrow> 'i \<Rightarrow> bool"
  assumes on_iff: "ok s \<Longrightarrow> wired s i \<Longrightarrow> on s i \<longleftrightarrow> count s i > 0"
    and step: "ok s \<Longrightarrow> index s (fst x) \<Longrightarrow> snd x \<or> count s (fst x) > 0 \<Longrightarrow>
      ok (request x s) \<and> index (request x s) = index s \<and> wired (request x s) = wired s \<and>
      count (request x s) = (count s)(fst x := if snd x then Suc (count s (fst x)) else count s (fst x) - 1)"
begin

lemma bank_requests:
  "ok s \<Longrightarrow> (\<And>x. x \<in> set xs \<Longrightarrow> index s (fst x)) \<Longrightarrow> paired (count s) xs \<Longrightarrow>
     ok (fold request xs s) \<and> wired (fold request xs s) = wired s \<and>
     count (fold request xs s) i = bank_level i (count s i) xs"
proof (induction xs arbitrary: s)
  case (Cons x xs)
  have x: "index s (fst x)" "snd x \<or> count s (fst x) > 0" using Cons.prems(2,3) by simp_all
  have st: "ok (request x s)" "index (request x s) = index s" "wired (request x s) = wired s"
    and c: "count (request x s) = (count s)(fst x := if snd x then Suc (count s (fst x)) else count s (fst x) - 1)"
    using step [OF Cons.prems(1) x] by simp_all
  have "paired (count (request x s)) xs" unfolding c using Cons.prems(3) by simp
  then have "ok (fold request xs (request x s)) \<and> wired (fold request xs (request x s)) = wired (request x s) \<and>
      count (fold request xs (request x s)) i = bank_level i (count (request x s) i) xs"
    using Cons.IH [of "request x s"] Cons.prems(2) st by simp
  then show ?case using st(3) by (simp add: c)
qed simp

lemma bank_requests_on:
  "ok s \<Longrightarrow> (\<And>x. x \<in> set xs \<Longrightarrow> index s (fst x)) \<Longrightarrow> paired (count s) xs \<Longrightarrow> wired s i \<Longrightarrow>
     on (fold request xs s) i \<longleftrightarrow> bank_level i (count s i) xs > 0"
  using bank_requests [of s xs i] on_iff [of "fold request xs s" i] by simp

end

subsection \<open>Sequences of operations\<close>

text \<open>
  An operation gives a return code and the next state, or has undefined behaviour. \<open>ok\<close> is what the
  caller of an operation sees to in the state where it calls it.
\<close>

fun steps_ok :: "('s \<Rightarrow> 'p \<Rightarrow> bool) \<Rightarrow> ('s \<Rightarrow> 'p \<Rightarrow> (int \<times> 's) option) \<Rightarrow> 's \<Rightarrow> 'p list \<Rightarrow> bool" where
  "steps_ok ok step s [] = True"
| "steps_ok ok step s (p # ps) = (ok s p \<and> (case step s p of None \<Rightarrow> True | Some (ret, s') \<Rightarrow> steps_ok ok step s' ps))"

fun run_steps :: "('s \<Rightarrow> 'p \<Rightarrow> (int \<times> 's) option) \<Rightarrow> 's \<Rightarrow> 'p list \<Rightarrow> 's option" where
  "run_steps step s [] = Some s"
| "run_steps step s (p # ps) = do { (ret, s) \<leftarrow> step s p; run_steps step s ps }"

lemma steps_invariant:
  assumes step: "\<And>s p. I s \<Longrightarrow> ok s p \<Longrightarrow> \<exists>ret s'. step s p = Some (ret, s') \<and> I s'"
    and "I s" and "steps_ok ok step s ps"
  shows "\<exists>s'. run_steps step s ps = Some s' \<and> I s'"
  using assms(2,3)
proof (induction ps arbitrary: s)
  case (Cons p ps)
  then obtain ret s1 where s1: "step s p = Some (ret, s1)" "I s1" using step [of s p] by auto
  then show ?case using Cons.IH [OF s1(2)] Cons.prems(2) by simp
qed simp

end
