(* ===== verification/Dsi_Clk_Hw.thy ===== *)
theory Dsi_Clk_Hw
  imports Sde_Prelude
begin

section \<open>DSI clock manager: switching the clocks of one display\<close>

text \<open>
  The lower half of \<^verbatim>\<open>msm/dsi/dsi_clk_manager.c\<close>: the core and link clock sets of a DSI
  controller, how they are rated, prepared, enabled and stopped with their error unwinding, and
  the loops over the controllers of a split display, master first. A clock handle is a number,
  \<open>None\<close> being the null pointer. What the kernel's clock, bus and power interfaces answer comes
  from the environment. A function taking an array of controllers is \<open>None\<close> where the C code
  indexes beyond it.
\<close>

type_synonym clk = "nat option"

subsection \<open>Clock states, ordered by how much is running\<close>

datatype dsi_clk_state = DSI_CLK_OFF | DSI_CLK_ON | DSI_CLK_EARLY_GATE

text \<open>
  The enumeration values order the states differently; the arbitration of the manager follows
  the order \<open>OFF < EARLY_GATE < ON\<close>, which is the one declared here.
\<close>

primrec clk_level :: "dsi_clk_state \<Rightarrow> nat" where
  "clk_level DSI_CLK_OFF = 0"
| "clk_level DSI_CLK_EARLY_GATE = 1"
| "clk_level DSI_CLK_ON = 2"

lemma clk_level_inject: "clk_level a = clk_level b \<longleftrightarrow> a = b"
  by (cases a; cases b) simp_all

instantiation dsi_clk_state :: linorder
begin

definition less_eq_dsi_clk_state :: "dsi_clk_state \<Rightarrow> dsi_clk_state \<Rightarrow> bool" where
  "less_eq_dsi_clk_state a b \<longleftrightarrow> clk_level a \<le> clk_level b"

definition less_dsi_clk_state :: "dsi_clk_state \<Rightarrow> dsi_clk_state \<Rightarrow> bool" where
  "less_dsi_clk_state a b \<longleftrightarrow> clk_level a < clk_level b"

instance
  by standard
    (auto simp: less_eq_dsi_clk_state_def less_dsi_clk_state_def clk_level_inject)

end

lemma DSI_CLK_ON_greatest [simp]: "s \<le> DSI_CLK_ON"
  by (cases s) (simp_all add: less_eq_dsi_clk_state_def)

lemma DSI_CLK_OFF_least [simp]: "DSI_CLK_OFF \<le> s"
  by (simp add: less_eq_dsi_clk_state_def)

subsection \<open>The clock sets\<close>

definition MAX_DSI_CTRL :: nat where
  "MAX_DSI_CTRL = 2"

definition DSI_CORE_CLK :: u32 where "DSI_CORE_CLK = 1"
definition DSI_LINK_CLK :: u32 where "DSI_LINK_CLK = 2"

definition DSI_LINK_NONE :: u32 where "DSI_LINK_NONE = 0"
definition DSI_LINK_LP_CLK :: u32 where "DSI_LINK_LP_CLK = 1"
definition DSI_LINK_HS_CLK :: u32 where "DSI_LINK_HS_CLK = 2"

definition DSI_LINK_CLK_SET_RATE :: u32 where "DSI_LINK_CLK_SET_RATE = 1"
definition DSI_LINK_CLK_PREPARE :: u32 where "DSI_LINK_CLK_PREPARE = 2"
definition DSI_LINK_CLK_ENABLE :: u32 where "DSI_LINK_CLK_ENABLE = 4"
definition DSI_LINK_CLK_START :: u32 where "DSI_LINK_CLK_START = 1 OR 2 OR 4"

lemmas dsi_flag_defs = DSI_CORE_CLK_def DSI_LINK_CLK_def DSI_LINK_NONE_def DSI_LINK_LP_CLK_def
  DSI_LINK_HS_CLK_def DSI_LINK_CLK_SET_RATE_def DSI_LINK_CLK_PREPARE_def
  DSI_LINK_CLK_ENABLE_def DSI_LINK_CLK_START_def

record dsi_core_clk_info =
  mdp_core_clk :: clk
  iface_clk :: clk
  core_mmss_clk :: clk
  bus_clk :: clk
  mnoc_clk :: clk
  dsi_core_client :: nat
  phandle :: nat

record dsi_core_clks =
  clks :: dsi_core_clk_info
  bus_handle :: u32

record dsi_link_hs_clk_info =
  byte_clk :: clk
  pixel_clk :: clk
  byte_intf_clk :: clk

record dsi_link_lp_clk_info =
  esc_clk :: clk

record link_clk_freq =
  byte_clk_rate :: u32
  byte_intf_clk_rate :: u32
  pix_clk_rate :: u32
  esc_clk_rate :: u32

record dsi_link_clks =
  hs_clks :: dsi_link_hs_clk_info
  lp_clks :: dsi_link_lp_clk_info
  freq :: link_clk_freq

record dsi_clk_link_set =
  src_byte_clk :: clk
  src_pixel_clk :: clk

subsection \<open>Calls to the kernel and to the display's callbacks\<close>

datatype dsi_call =
    Clk_prepare clk
  | Clk_unprepare clk
  | Clk_enable clk
  | Clk_disable clk
  | Clk_prepare_enable clk
  | Clk_disable_unprepare clk
  | Clk_set_rate clk u64
  | Clk_set_parent clk clk
  | Bus_request u32 nat
  | Power_enable nat nat bool
  | Pre_clkon u32 u32 dsi_clk_state
  | Post_clkon u32 u32 dsi_clk_state
  | Pre_clkoff u32 u32 dsi_clk_state
  | Post_clkoff u32 u32 dsi_clk_state

type_synonym dsi_trace = "dsi_call trace"
type_synonym dsi_env = "dsi_call env"

text \<open>\<^verbatim>\<open>if (clk) rc = op(clk)\<close> and \<^verbatim>\<open>if (clk) op(clk)\<close>.\<close>

definition opt_call :: "dsi_env \<Rightarrow> (clk \<Rightarrow> dsi_call) \<Rightarrow> clk \<Rightarrow> dsi_trace \<Rightarrow> int \<times> dsi_trace" where
  "opt_call env f c w = (if c = None then (0, w) else ext env (f c) w)"

definition opt_vcall :: "(clk \<Rightarrow> dsi_call) \<Rightarrow> clk \<Rightarrow> dsi_trace \<Rightarrow> dsi_trace" where
  "opt_vcall f c w = (if c = None then w else vcall (f c) w)"

subsection \<open>Source clocks\<close>

definition dsi_clk_update_parent ::
    "dsi_env \<Rightarrow> dsi_clk_link_set \<Rightarrow> dsi_clk_link_set \<Rightarrow> dsi_trace \<Rightarrow> int \<times> dsi_trace" where
  "dsi_clk_update_parent env parent child w =
     (let (rc, w) = ext env (Clk_set_parent (src_byte_clk child) (src_byte_clk parent)) w in
      if rc \<noteq> 0 then (rc, w)
      else ext env (Clk_set_parent (src_pixel_clk child) (src_pixel_clk parent)) w)"

definition dsi_clk_prepare_enable ::
    "dsi_env \<Rightarrow> dsi_clk_link_set \<Rightarrow> dsi_trace \<Rightarrow> int \<times> dsi_trace" where
  "dsi_clk_prepare_enable env c w =
     (let (rc, w) = ext env (Clk_prepare_enable (src_byte_clk c)) w in
      if rc \<noteq> 0 then (rc, w)
      else let (rc, w) = ext env (Clk_prepare_enable (src_pixel_clk c)) w in
      if rc \<noteq> 0 then (rc, w)
      else (0, w))"

definition dsi_clk_disable_unprepare :: "dsi_clk_link_set \<Rightarrow> dsi_trace \<Rightarrow> dsi_trace" where
  "dsi_clk_disable_unprepare c w =
     vcall (Clk_disable_unprepare (src_byte_clk c))
       (vcall (Clk_disable_unprepare (src_pixel_clk c)) w)"

subsection \<open>Core clocks\<close>

text \<open>The unwinding labels of the start routine; each falls through to the next.\<close>

definition error_disable_core_clk :: "dsi_core_clks \<Rightarrow> dsi_trace \<Rightarrow> dsi_trace" where
  "error_disable_core_clk c w = opt_vcall Clk_disable_unprepare (mdp_core_clk (clks c)) w"

definition error_disable_mnoc_clk :: "dsi_core_clks \<Rightarrow> dsi_trace \<Rightarrow> dsi_trace" where
  "error_disable_mnoc_clk c w =
     error_disable_core_clk c (opt_vcall Clk_disable_unprepare (mnoc_clk (clks c)) w)"

definition error_disable_iface_clk :: "dsi_core_clks \<Rightarrow> dsi_trace \<Rightarrow> dsi_trace" where
  "error_disable_iface_clk c w =
     error_disable_mnoc_clk c (opt_vcall Clk_disable_unprepare (iface_clk (clks c)) w)"

definition error_disable_bus_clk :: "dsi_core_clks \<Rightarrow> dsi_trace \<Rightarrow> dsi_trace" where
  "error_disable_bus_clk c w =
     error_disable_iface_clk c (opt_vcall Clk_disable_unprepare (bus_clk (clks c)) w)"

definition error_disable_mmss_clk :: "dsi_core_clks \<Rightarrow> dsi_trace \<Rightarrow> dsi_trace" where
  "error_disable_mmss_clk c w =
     error_disable_bus_clk c (opt_vcall Clk_disable_unprepare (core_mmss_clk (clks c)) w)"

definition dsi_core_clk_start ::
    "dsi_env \<Rightarrow> dsi_core_clks \<Rightarrow> dsi_trace \<Rightarrow> int \<times> dsi_trace" where
  "dsi_core_clk_start env c w =
     (let (rc, w) = opt_call env Clk_prepare_enable (mdp_core_clk (clks c)) w in
      if rc \<noteq> 0 then (rc, w)
      else let (rc, w) = opt_call env Clk_prepare_enable (mnoc_clk (clks c)) w in
      if rc \<noteq> 0 then (rc, error_disable_core_clk c w)
      else let (rc, w) = opt_call env Clk_prepare_enable (iface_clk (clks c)) w in
      if rc \<noteq> 0 then (rc, error_disable_mnoc_clk c w)
      else let (rc, w) = opt_call env Clk_prepare_enable (bus_clk (clks c)) w in
      if rc \<noteq> 0 then (rc, error_disable_iface_clk c w)
      else let (rc, w) = opt_call env Clk_prepare_enable (core_mmss_clk (clks c)) w in
      if rc \<noteq> 0 then (rc, error_disable_bus_clk c w)
      else let (rc, w) = (if bus_handle c \<noteq> 0 then ext env (Bus_request (bus_handle c) 1) w
                          else (rc, w)) in
      if rc \<noteq> 0 then (rc, error_disable_mmss_clk c w)
      else (rc, w))"

definition dsi_core_clk_stop ::
    "dsi_env \<Rightarrow> dsi_core_clks \<Rightarrow> dsi_trace \<Rightarrow> int \<times> dsi_trace" where
  "dsi_core_clk_stop env c w =
     (let (rc, w) = (if bus_handle c \<noteq> 0 then ext env (Bus_request (bus_handle c) 0) w
                     else (0, w)) in
      if rc \<noteq> 0 then (rc, w)
      else (rc, opt_vcall Clk_disable_unprepare (mdp_core_clk (clks c))
                 (opt_vcall Clk_disable_unprepare (mnoc_clk (clks c))
                  (opt_vcall Clk_disable_unprepare (iface_clk (clks c))
                   (opt_vcall Clk_disable_unprepare (bus_clk (clks c))
                    (opt_vcall Clk_disable_unprepare (core_mmss_clk (clks c)) w))))))"

subsection \<open>Link clocks\<close>

text \<open>
  The C routines get the enclosing \<^verbatim>\<open>struct dsi_link_clks\<close> and the manager from the clock
  set's address; here the enclosing structure and the manager's splash flag are arguments.
\<close>

definition dsi_link_hs_clk_set_rate ::
    "dsi_env \<Rightarrow> bool \<Rightarrow> dsi_link_clks \<Rightarrow> nat \<Rightarrow> dsi_trace \<Rightarrow> int \<times> dsi_trace" where
  "dsi_link_hs_clk_set_rate env splash l index w =
     (if index \<ge> MAX_DSI_CTRL then (- EINVAL, w)
      else if splash then (0, w)
      else let (rc, w) = ext env (Clk_set_rate (byte_clk (hs_clks l))
                                    (ucast (byte_clk_rate (freq l)))) w in
      if rc \<noteq> 0 then (rc, w)
      else let (rc, w) = ext env (Clk_set_rate (pixel_clk (hs_clks l))
                                    (ucast (pix_clk_rate (freq l)))) w in
      if rc \<noteq> 0 then (rc, w)
      else opt_call env (\<lambda>c. Clk_set_rate c (ucast (byte_intf_clk_rate (freq l))))
             (byte_intf_clk (hs_clks l)) w)"

definition dsi_link_hs_clk_prepare ::
    "dsi_env \<Rightarrow> dsi_link_hs_clk_info \<Rightarrow> dsi_trace \<Rightarrow> int \<times> dsi_trace" where
  "dsi_link_hs_clk_prepare env h w =
     (let (rc, w) = ext env (Clk_prepare (byte_clk h)) w in
      if rc \<noteq> 0 then (rc, w)
      else let (rc, w) = ext env (Clk_prepare (pixel_clk h)) w in
      if rc \<noteq> 0 then (rc, vcall (Clk_unprepare (byte_clk h)) w)
      else let (rc, w) = opt_call env Clk_prepare (byte_intf_clk h) w in
      if rc \<noteq> 0 then (rc, vcall (Clk_unprepare (byte_clk h))
                              (vcall (Clk_unprepare (pixel_clk h)) w))
      else (rc, w))"

definition dsi_link_hs_clk_unprepare :: "dsi_link_hs_clk_info \<Rightarrow> dsi_trace \<Rightarrow> dsi_trace" where
  "dsi_link_hs_clk_unprepare h w =
     vcall (Clk_unprepare (byte_clk h))
       (vcall (Clk_unprepare (pixel_clk h))
         (opt_vcall Clk_unprepare (byte_intf_clk h) w))"

definition dsi_link_hs_clk_enable ::
    "dsi_env \<Rightarrow> dsi_link_hs_clk_info \<Rightarrow> dsi_trace \<Rightarrow> int \<times> dsi_trace" where
  "dsi_link_hs_clk_enable env h w =
     (let (rc, w) = ext env (Clk_enable (byte_clk h)) w in
      if rc \<noteq> 0 then (rc, w)
      else let (rc, w) = ext env (Clk_enable (pixel_clk h)) w in
      if rc \<noteq> 0 then (rc, vcall (Clk_disable (byte_clk h)) w)
      else let (rc, w) = opt_call env Clk_enable (byte_intf_clk h) w in
      if rc \<noteq> 0 then (rc, vcall (Clk_disable (byte_clk h))
                              (vcall (Clk_disable (pixel_clk h)) w))
      else (rc, w))"

definition dsi_link_hs_clk_disable :: "dsi_link_hs_clk_info \<Rightarrow> dsi_trace \<Rightarrow> dsi_trace" where
  "dsi_link_hs_clk_disable h w =
     vcall (Clk_disable (byte_clk h))
       (vcall (Clk_disable (pixel_clk h))
         (opt_vcall Clk_disable (byte_intf_clk h) w))"

definition dsi_link_hs_clk_start ::
    "dsi_env \<Rightarrow> bool \<Rightarrow> dsi_link_clks \<Rightarrow> u32 \<Rightarrow> nat \<Rightarrow> dsi_trace \<Rightarrow> int \<times> dsi_trace" where
  "dsi_link_hs_clk_start env splash l op_type index w =
     (if index \<ge> MAX_DSI_CTRL then (- EINVAL, w)
      else let (rc, w) = (if op_type AND DSI_LINK_CLK_SET_RATE \<noteq> 0
                          then dsi_link_hs_clk_set_rate env splash l index w else (0, w)) in
      if rc \<noteq> 0 then (rc, w)
      else let (rc, w) = (if op_type AND DSI_LINK_CLK_PREPARE \<noteq> 0
                          then dsi_link_hs_clk_prepare env (hs_clks l) w else (rc, w)) in
      if rc \<noteq> 0 then (rc, w)
      else let (rc, w) = (if op_type AND DSI_LINK_CLK_ENABLE \<noteq> 0
                          then dsi_link_hs_clk_enable env (hs_clks l) w else (rc, w)) in
      if rc \<noteq> 0 then (rc, dsi_link_hs_clk_unprepare (hs_clks l) w)
      else (rc, w))"

definition dsi_link_hs_clk_stop :: "dsi_link_clks \<Rightarrow> dsi_trace \<Rightarrow> int \<times> dsi_trace" where
  "dsi_link_hs_clk_stop l w =
     (0, dsi_link_hs_clk_unprepare (hs_clks l) (dsi_link_hs_clk_disable (hs_clks l) w))"

definition dsi_link_lp_clk_start ::
    "dsi_env \<Rightarrow> bool \<Rightarrow> dsi_link_clks \<Rightarrow> nat \<Rightarrow> dsi_trace \<Rightarrow> int \<times> dsi_trace" where
  "dsi_link_lp_clk_start env splash l index w =
     (if index \<ge> MAX_DSI_CTRL then (- EINVAL, w)
      else let (rc, w) = (if splash then (0, w)
                          else ext env (Clk_set_rate (esc_clk (lp_clks l))
                                          (ucast (esc_clk_rate (freq l)))) w) in
      if rc \<noteq> 0 then (rc, w)
      else let (rc, w) = ext env (Clk_prepare_enable (esc_clk (lp_clks l))) w in
      if rc \<noteq> 0 then (rc, vcall (Clk_unprepare (esc_clk (lp_clks l))) w)
      else (rc, w))"

definition dsi_link_lp_clk_stop :: "dsi_link_clks \<Rightarrow> dsi_trace \<Rightarrow> int \<times> dsi_trace" where
  "dsi_link_lp_clk_stop l w = (0, vcall (Clk_disable_unprepare (esc_clk (lp_clks l))) w)"

subsection \<open>All controllers of a display\<close>

text \<open>
  The loops over the controllers visit the indices below the controller count and skip the
  master: the comparison \<^verbatim>\<open>clk == m_clks\<close> of pointers into one array is a comparison of
  indices. \<open>slave_loop\<close> is the common shape: it stops at the first error, and a non-zero return
  code is the jump to the label that stops the master again.
\<close>

fun slave_loop ::
    "(nat \<Rightarrow> 'w \<Rightarrow> (int \<times> 'w) option) \<Rightarrow> nat \<Rightarrow> nat list \<Rightarrow> 'w \<Rightarrow> (int \<times> 'w) option" where
  "slave_loop f m [] w = Some (0, w)"
| "slave_loop f m (i # is) w =
     (if i = m then slave_loop f m is w
      else do {
        (rc, w) \<leftarrow> f i w;
        if rc \<noteq> 0 then Some (rc, w) else slave_loop f m is w
      })"

text \<open>\<^verbatim>\<open>sde_power_resource_enable\<close> on the power client of a controller.\<close>

definition power_request ::
    "dsi_env \<Rightarrow> dsi_core_clks \<Rightarrow> bool \<Rightarrow> dsi_trace \<Rightarrow> int \<times> dsi_trace" where
  "power_request env c on w =
     ext env (Power_enable (phandle (clks c)) (dsi_core_client (clks c)) on) w"

definition core_clk_enable_one ::
    "dsi_env \<Rightarrow> dsi_core_clks \<Rightarrow> dsi_trace \<Rightarrow> int \<times> dsi_trace" where
  "core_clk_enable_one env c w =
     (let (rc, w) = power_request env c True w in
      if rc \<noteq> 0 then (rc, w)
      else let (rc, w) = dsi_core_clk_start env c w in
      if rc \<noteq> 0 then (rc, snd (power_request env c False w))
      else (rc, w))"

definition dsi_display_core_clk_enable ::
    "dsi_env \<Rightarrow> dsi_core_clks list \<Rightarrow> nat \<Rightarrow> nat \<Rightarrow> dsi_trace \<Rightarrow> (int \<times> dsi_trace) option" where
  "dsi_display_core_clk_enable env cs ctrl_count master_ndx w = do {
     m \<leftarrow> nth_opt cs master_ndx;
     let (rc, w) = core_clk_enable_one env m w;
     if rc \<noteq> 0 then Some (rc, w)
     else do {
       (rc, w) \<leftarrow> slave_loop (\<lambda>i w. map_option (\<lambda>c. core_clk_enable_one env c w) (nth_opt cs i))
                    master_ndx [0..<ctrl_count] w;
       if rc \<noteq> 0 then
         (let w = snd (dsi_core_clk_stop env m w) in
          Some (rc, snd (power_request env m False w)))
       else Some (rc, w)
     }
   }"

definition core_clk_disable_one ::
    "dsi_env \<Rightarrow> dsi_core_clks \<Rightarrow> dsi_trace \<Rightarrow> int \<times> dsi_trace" where
  "core_clk_disable_one env c w =
     (let (rc, w) = dsi_core_clk_stop env c w in
      if rc \<noteq> 0 then (rc, w) else power_request env c False w)"

definition dsi_display_core_clk_disable ::
    "dsi_env \<Rightarrow> dsi_core_clks list \<Rightarrow> nat \<Rightarrow> nat \<Rightarrow> dsi_trace \<Rightarrow> (int \<times> dsi_trace) option" where
  "dsi_display_core_clk_disable env cs ctrl_count master_ndx w = do {
     m \<leftarrow> nth_opt cs master_ndx;
     (rc, w) \<leftarrow> slave_loop (\<lambda>i w. map_option (\<lambda>c. core_clk_disable_one env c w) (nth_opt cs i))
                  master_ndx [0..<ctrl_count] w;
     if rc \<noteq> 0 then Some (rc, w)
     else Some (core_clk_disable_one env m w)
   }"

text \<open>Starting the link clocks selected by \<open>l_type\<close> of one controller, low power first.\<close>

definition link_clk_start_one ::
    "dsi_env \<Rightarrow> bool \<Rightarrow> u32 \<Rightarrow> nat \<Rightarrow> dsi_link_clks \<Rightarrow> dsi_trace \<Rightarrow> int \<times> dsi_trace" where
  "link_clk_start_one env splash l_type i l w =
     (let (rc, w) = (if l_type AND DSI_LINK_LP_CLK \<noteq> 0
                     then dsi_link_lp_clk_start env splash l i w else (0, w)) in
      if rc \<noteq> 0 then (rc, w)
      else if l_type AND DSI_LINK_HS_CLK \<noteq> 0
      then dsi_link_hs_clk_start env splash l DSI_LINK_CLK_START i w
      else (rc, w))"

definition dsi_display_link_clk_enable ::
    "dsi_env \<Rightarrow> bool \<Rightarrow> dsi_link_clks list \<Rightarrow> u32 \<Rightarrow> nat \<Rightarrow> nat \<Rightarrow> dsi_trace \<Rightarrow>
     (int \<times> dsi_trace) option" where
  "dsi_display_link_clk_enable env splash ls l_type ctrl_count master_ndx w = do {
     m \<leftarrow> nth_opt ls master_ndx;
     let (rc, w) = link_clk_start_one env splash l_type master_ndx m w;
     if rc \<noteq> 0 then Some (rc, w)
     else do {
       (rc, w) \<leftarrow> slave_loop
                    (\<lambda>i w. map_option (\<lambda>l. link_clk_start_one env splash l_type i l w) (nth_opt ls i))
                    master_ndx [0..<ctrl_count] w;
       if rc \<noteq> 0 then
         Some (rc, if l_type = DSI_LINK_LP_CLK then snd (dsi_link_lp_clk_stop m w)
                   else if l_type = DSI_LINK_HS_CLK then snd (dsi_link_hs_clk_stop m w)
                   else w)
       else Some (rc, w)
     }
   }"

text \<open>
  Stopping them. The stop routines of the link clocks cannot fail, and the loop does not stop at
  an error; its return code is the one of the last routine called.
\<close>

definition link_clk_stop_one :: "u32 \<Rightarrow> int \<Rightarrow> dsi_link_clks \<Rightarrow> dsi_trace \<Rightarrow> int \<times> dsi_trace" where
  "link_clk_stop_one l_type rc l w =
     (let (rc, w) = (if l_type AND DSI_LINK_LP_CLK \<noteq> 0 then dsi_link_lp_clk_stop l w
                     else (rc, w)) in
      if l_type AND DSI_LINK_HS_CLK \<noteq> 0 then dsi_link_hs_clk_stop l w else (rc, w))"

fun link_clk_disable_loop ::
    "dsi_link_clks list \<Rightarrow> u32 \<Rightarrow> nat \<Rightarrow> nat list \<Rightarrow> int \<Rightarrow> dsi_trace \<Rightarrow> (int \<times> dsi_trace) option" where
  "link_clk_disable_loop ls l_type m [] rc w = Some (rc, w)"
| "link_clk_disable_loop ls l_type m (i # is) rc w =
     (if i = m then link_clk_disable_loop ls l_type m is rc w
      else do {
        l \<leftarrow> nth_opt ls i;
        let (rc, w) = link_clk_stop_one l_type rc l w;
        link_clk_disable_loop ls l_type m is rc w
      })"

definition dsi_display_link_clk_disable ::
    "dsi_link_clks list \<Rightarrow> u32 \<Rightarrow> nat \<Rightarrow> nat \<Rightarrow> dsi_trace \<Rightarrow> (int \<times> dsi_trace) option" where
  "dsi_display_link_clk_disable ls l_type ctrl_count master_ndx w = do {
     m \<leftarrow> nth_opt ls master_ndx;
     (rc, w) \<leftarrow> link_clk_disable_loop ls l_type master_ndx [0..<ctrl_count] 0 w;
     Some (link_clk_stop_one l_type rc m w)
   }"

end
