(* ===== verification/Dsi_Clk_Mngr.thy ===== *)
theory Dsi_Clk_Mngr
  imports Dsi_Clk_Hw
begin

section \<open>DSI clock manager: clients, arbitration and state changes\<close>

text \<open>
  The upper half of \<^verbatim>\<open>msm/dsi/dsi_clk_manager.c\<close>. Clients of the manager vote for a core and a
  link clock state; the manager takes the strongest vote and moves the clocks there, calling the
  display's callbacks around every change. The state of the manager is a record with the C
  structure's fields. A client is known by its address; the list of the registered clients is kept
  in list order, newest first. The mutex and the log messages have no counterpart, and the private
  pointer that every callback receives is left out of the callback's arguments.
\<close>

record dsi_clk_client_info =
  cl_name :: string
  core_refcount :: u32
  link_refcount :: u32
  cl_core_clk_state :: dsi_clk_state
  cl_link_clk_state :: dsi_clk_state

record dsi_clk_mngr =
  mngr_name :: string
  client_list :: "(nat \<times> dsi_clk_client_info) list"
  dsi_ctrl_count :: nat
  master_ndx :: nat
  core_clks :: "dsi_core_clks list"
  link_clks :: "dsi_link_clks list"
  ctrl_index :: "u32 list"
  core_clk_state :: dsi_clk_state
  link_clk_state :: dsi_clk_state
  pre_clkoff_cb :: bool
  post_clkoff_cb :: bool
  post_clkon_cb :: bool
  pre_clkon_cb :: bool
  is_cont_splash_enabled :: bool

record dsi_clk_info =
  info_name :: string
  c_clks :: "dsi_core_clk_info list"
  l_lp_clks :: "dsi_link_lp_clk_info list"
  l_hs_clks :: "dsi_link_hs_clk_info list"
  info_bus_handle :: "u32 list"
  info_ctrl_index :: "u32 list"
  info_pre_clkoff_cb :: bool
  info_post_clkoff_cb :: bool
  info_post_clkon_cb :: bool
  info_pre_clkon_cb :: bool
  info_master_ndx :: nat
  info_dsi_ctrl_count :: nat

text \<open>\<^verbatim>\<open>if (cb) rc = cb(...)\<close>: the previous return code stays where there is no callback.\<close>

definition opt_cb :: "dsi_env \<Rightarrow> bool \<Rightarrow> dsi_call \<Rightarrow> int \<Rightarrow> dsi_trace \<Rightarrow> int \<times> dsi_trace" where
  "opt_cb env present c rc w = (if present then ext env c w else (rc, w))"

subsection \<open>Frequencies\<close>

text \<open>The search loop; \<open>None\<close> is its \<^verbatim>\<open>-EINVAL\<close>.\<close>

fun get_clk_mngr_index :: "u32 list \<Rightarrow> u32 \<Rightarrow> nat list \<Rightarrow> nat option" where
  "get_clk_mngr_index idx d [] = None"
| "get_clk_mngr_index idx d (i # js) = (if idx ! i = d then Some i else get_clk_mngr_index idx d js)"

text \<open>A field of an element of the link clock array is written.\<close>

definition upd_freq :: "nat \<Rightarrow> (link_clk_freq \<Rightarrow> link_clk_freq) \<Rightarrow> dsi_clk_mngr \<Rightarrow> dsi_clk_mngr" where
  "upd_freq i f m = m\<lparr>link_clks := (link_clks m)[i := (link_clks m ! i)\<lparr>freq := f (freq (link_clks m ! i))\<rparr>]\<rparr>"

definition dsi_clk_set_link_frequencies ::
    "dsi_clk_mngr \<Rightarrow> nat option \<Rightarrow> link_clk_freq \<Rightarrow> u32 \<Rightarrow> int \<times> dsi_clk_mngr" where
  "dsi_clk_set_link_frequencies m client f index =
     (if client = None then (- EINVAL, m)
      else case get_clk_mngr_index (ctrl_index m) index [0..<dsi_ctrl_count m] of
        None \<Rightarrow> (- EINVAL, m)
      | Some i \<Rightarrow> (0, upd_freq i (\<lambda>_. f) m))"

text \<open>
  Setting one rate uses the client pointer and the index as they are given. The 64-bit rate is
  stored in a 32-bit field.
\<close>

definition dsi_clk_set_pixel_clk_rate ::
    "dsi_env \<Rightarrow> dsi_clk_mngr \<Rightarrow> nat option \<Rightarrow> u64 \<Rightarrow> nat \<Rightarrow> dsi_trace \<Rightarrow>
     (int \<times> dsi_clk_mngr \<times> dsi_trace) option" where
  "dsi_clk_set_pixel_clk_rate env m client rate i w = do {
     c \<leftarrow> client;
     l \<leftarrow> nth_opt (link_clks m) i;
     let (rc, w) = ext env (Clk_set_rate (pixel_clk (hs_clks l)) rate) w;
     Some (rc, if rc \<noteq> 0 then m else upd_freq i (\<lambda>f. f\<lparr>pix_clk_rate := ucast rate\<rparr>) m, w)
   }"

definition dsi_clk_set_byte_clk_rate ::
    "dsi_env \<Rightarrow> dsi_clk_mngr \<Rightarrow> nat option \<Rightarrow> u64 \<Rightarrow> u64 \<Rightarrow> nat \<Rightarrow> dsi_trace \<Rightarrow>
     (int \<times> dsi_clk_mngr \<times> dsi_trace) option" where
  "dsi_clk_set_byte_clk_rate env m client rate intf_rate i w = do {
     c \<leftarrow> client;
     l \<leftarrow> nth_opt (link_clks m) i;
     let (rc, w) = ext env (Clk_set_rate (byte_clk (hs_clks l)) rate) w;
     let m = (if rc \<noteq> 0 then m else upd_freq i (\<lambda>f. f\<lparr>byte_clk_rate := ucast rate\<rparr>) m);
     if byte_intf_clk (hs_clks l) \<noteq> None then do {
       let (rc, w) = ext env (Clk_set_rate (byte_intf_clk (hs_clks l)) intf_rate) w;
       Some (rc, if rc \<noteq> 0 then m
                 else upd_freq i (\<lambda>f. f\<lparr>byte_intf_clk_rate := ucast intf_rate\<rparr>) m, w)
     } else Some (rc, m, w)
   }"

subsection \<open>Moving the clocks\<close>

text \<open>One kind of link clocks is turned on or off between its callbacks.\<close>

definition dsi_clk_update_link_clk_state ::
    "dsi_env \<Rightarrow> dsi_clk_mngr \<Rightarrow> dsi_link_clks list \<Rightarrow> u32 \<Rightarrow> dsi_clk_state \<Rightarrow> bool \<Rightarrow> dsi_trace \<Rightarrow>
     (int \<times> dsi_trace) option" where
  "dsi_clk_update_link_clk_state env m ls l_type l_state enable w =
     (if enable then do {
        let (rc, w) = opt_cb env (pre_clkon_cb m) (Pre_clkon DSI_LINK_CLK l_type l_state) 0 w;
        if rc \<noteq> 0 then Some (rc, w)
        else do {
          (rc, w) \<leftarrow> dsi_display_link_clk_enable env (is_cont_splash_enabled m) ls l_type
                       (dsi_ctrl_count m) (master_ndx m) w;
          if rc \<noteq> 0 then Some (rc, w)
          else Some (opt_cb env (post_clkon_cb m) (Post_clkon DSI_LINK_CLK l_type l_state) rc w)
        }
      }
      else do {
        let (rc, w) = opt_cb env (pre_clkoff_cb m) (Pre_clkoff DSI_LINK_CLK l_type l_state) 0 w;
        (rc, w) \<leftarrow> dsi_display_link_clk_disable ls l_type (dsi_ctrl_count m) (master_ndx m) w;
        if rc \<noteq> 0 then Some (rc, w)
        else Some (opt_cb env (post_clkoff_cb m) (Post_clkoff DSI_LINK_CLK l_type l_state) rc w)
      })"

text \<open>
  The state update, in the three steps of the C function. A step ends with \<open>Inl\<close> where the code
  jumps to the label \<^verbatim>\<open>error\<close> and with \<open>Inr\<close> where it goes on; the return code of a step that
  goes on can be non-zero (a failed callback that is only logged). The flag is the local variable
  \<^verbatim>\<open>l_c_on\<close>.
\<close>

type_synonym upd_result = "(int \<times> dsi_clk_mngr \<times> dsi_trace) + (int \<times> bool \<times> dsi_clk_mngr \<times> dsi_trace)"

definition upd_core_on ::
    "dsi_env \<Rightarrow> dsi_clk_mngr \<Rightarrow> dsi_core_clks list option \<Rightarrow> dsi_clk_state \<Rightarrow> dsi_trace \<Rightarrow>
     upd_result option" where
  "upd_core_on env m cs c_state w =
     (case cs of
        Some cs \<Rightarrow>
          if c_state = DSI_CLK_ON then do {
            (rc, w) \<leftarrow> (if core_clk_state m = DSI_CLK_OFF
                        then if pre_clkon_cb m
                             then Some (ext env (Pre_clkon DSI_CORE_CLK DSI_LINK_NONE DSI_CLK_ON) w)
                             else None
                        else Some (0, w));
            if rc \<noteq> 0 then Some (Inl (rc, m, w))
            else do {
              (rc, w) \<leftarrow> dsi_display_core_clk_enable env cs (dsi_ctrl_count m) (master_ndx m) w;
              if rc \<noteq> 0 then Some (Inl (rc, m, w))
              else do {
                let (rc, w) = opt_cb env (post_clkon_cb m)
                                (Post_clkon DSI_CORE_CLK DSI_LINK_NONE DSI_CLK_ON) rc w;
                Some (Inr (rc, False, m\<lparr>core_clk_state := DSI_CLK_ON\<rparr>, w))
              }
            }
          } else Some (Inr (0, False, m, w))
      | None \<Rightarrow> Some (Inr (0, False, m, w)))"

definition upd_link_on ::
    "dsi_env \<Rightarrow> dsi_clk_mngr \<Rightarrow> dsi_link_clks list \<Rightarrow> dsi_clk_state \<Rightarrow> dsi_trace \<Rightarrow> upd_result option" where
  "upd_link_on env m ls l_state w = do {
     (rc, w) \<leftarrow> dsi_clk_update_link_clk_state env m ls DSI_LINK_LP_CLK l_state True w;
     if rc \<noteq> 0 then Some (Inl (rc, m, w))
     else do {
       (rc, w) \<leftarrow> dsi_clk_update_link_clk_state env m ls DSI_LINK_HS_CLK l_state True w;
       if rc \<noteq> 0 then Some (Inl (rc, m, w))
       else Some (Inr (rc, False, m, w))
     }
   }"

text \<open>
  Turning the link clocks off. When they are gated and the core clocks are not on, the core clocks
  and the link clocks selected by \<^verbatim>\<open>DSI_LINK_LP_CLK & DSI_LINK_HS_CLK\<close> are started first.
\<close>

definition link_regate ::
    "dsi_env \<Rightarrow> dsi_clk_mngr \<Rightarrow> dsi_link_clks list \<Rightarrow> dsi_clk_state \<Rightarrow> dsi_trace \<Rightarrow> upd_result option" where
  "link_regate env m ls l_state w =
     (if l_state = DSI_CLK_OFF \<and> link_clk_state m = DSI_CLK_EARLY_GATE \<and> core_clk_state m \<noteq> DSI_CLK_ON
      then do {
        (rc, w) \<leftarrow> dsi_display_core_clk_enable env (core_clks m) (dsi_ctrl_count m) (master_ndx m) w;
        if rc \<noteq> 0 then Some (Inl (rc, m, w))
        else do {
          (rc, w) \<leftarrow> dsi_display_link_clk_enable env (is_cont_splash_enabled m) ls
                       (DSI_LINK_LP_CLK AND DSI_LINK_HS_CLK) (dsi_ctrl_count m) (master_ndx m) w;
          if rc \<noteq> 0 then Some (Inl (rc, m, w)) else Some (Inr (rc, True, m, w))
        }
      } else Some (Inr (0, False, m, w)))"

definition link_core_release ::
    "dsi_env \<Rightarrow> dsi_clk_mngr \<Rightarrow> dsi_core_clks list option \<Rightarrow> dsi_clk_state \<Rightarrow> int \<Rightarrow> bool \<Rightarrow> dsi_trace \<Rightarrow>
     upd_result option" where
  "link_core_release env m cs c_state rc l_c_on w =
     (if l_c_on \<and> \<not> (cs \<noteq> None \<and> c_state = DSI_CLK_OFF \<and> core_clk_state m = DSI_CLK_EARLY_GATE)
      then do {
        (rc, w) \<leftarrow> dsi_display_core_clk_disable env (core_clks m) (dsi_ctrl_count m) (master_ndx m) w;
        if rc \<noteq> 0 then Some (Inl (rc, m, w)) else Some (Inr (rc, False, m, w))
      } else Some (Inr (rc, l_c_on, m, w)))"

definition upd_link_off ::
    "dsi_env \<Rightarrow> dsi_clk_mngr \<Rightarrow> dsi_core_clks list option \<Rightarrow> dsi_clk_state \<Rightarrow> dsi_link_clks list \<Rightarrow>
     dsi_clk_state \<Rightarrow> dsi_trace \<Rightarrow> upd_result option" where
  "upd_link_off env m cs c_state ls l_state w = do {
     r \<leftarrow> link_regate env m ls l_state w;
     case r of Inl e \<Rightarrow> Some (Inl e)
     | Inr (rc, l_c_on, m, w) \<Rightarrow> do {
         (rc, w) \<leftarrow> dsi_clk_update_link_clk_state env m ls DSI_LINK_HS_CLK l_state False w;
         if rc \<noteq> 0 then Some (Inl (rc, m, w))
         else do {
           (rc, w) \<leftarrow> dsi_clk_update_link_clk_state env m ls DSI_LINK_LP_CLK l_state False w;
           if rc \<noteq> 0 then Some (Inl (rc, m, w))
           else link_core_release env m cs c_state rc l_c_on w
         }
       }
   }"

definition upd_link ::
    "dsi_env \<Rightarrow> dsi_clk_mngr \<Rightarrow> dsi_core_clks list option \<Rightarrow> dsi_clk_state \<Rightarrow>
     dsi_link_clks list option \<Rightarrow> dsi_clk_state \<Rightarrow> int \<Rightarrow> dsi_trace \<Rightarrow> upd_result option" where
  "upd_link env m cs c_state ls l_state rc w =
     (case ls of
        None \<Rightarrow> Some (Inr (rc, False, m, w))
      | Some ls \<Rightarrow> do {
          r \<leftarrow> (if l_state = DSI_CLK_ON then upd_link_on env m ls l_state w
                else upd_link_off env m cs c_state ls l_state w);
          case r of Inl e \<Rightarrow> Some (Inl e)
          | Inr (rc, l_c_on, m, w) \<Rightarrow> Some (Inr (rc, l_c_on, m\<lparr>link_clk_state := l_state\<rparr>, w))
        })"

definition upd_core_off ::
    "dsi_env \<Rightarrow> dsi_clk_mngr \<Rightarrow> dsi_core_clks list option \<Rightarrow> dsi_clk_state \<Rightarrow> int \<Rightarrow> bool \<Rightarrow> dsi_trace \<Rightarrow>
     (int \<times> dsi_clk_mngr \<times> dsi_trace) option" where
  "upd_core_off env m cs c_state rc l_c_on w =
     (case cs of
        None \<Rightarrow> Some (rc, m, w)
      | Some cs \<Rightarrow>
          if c_state = DSI_CLK_ON then Some (rc, m, w)
          else do {
            (rc, w) \<leftarrow> (if c_state = DSI_CLK_OFF \<and> core_clk_state m = DSI_CLK_EARLY_GATE \<and> \<not> l_c_on
                        then dsi_display_core_clk_enable env (core_clks m) (dsi_ctrl_count m)
                               (master_ndx m) w
                        else Some (0, w));
            if rc \<noteq> 0 then Some (rc, m, w)
            else do {
              let (rc, w) = opt_cb env (pre_clkoff_cb m)
                              (Pre_clkoff DSI_CORE_CLK DSI_LINK_NONE c_state) rc w;
              (rc, w) \<leftarrow> dsi_display_core_clk_disable env cs (dsi_ctrl_count m) (master_ndx m) w;
              if rc \<noteq> 0 then Some (rc, m, w)
              else do {
                let (rc, w) = opt_cb env (c_state = DSI_CLK_OFF \<and> post_clkoff_cb m)
                                (Post_clkoff DSI_CORE_CLK DSI_LINK_NONE DSI_CLK_OFF) rc w;
                Some (rc, m\<lparr>core_clk_state := c_state\<rparr>, w)
              }
            }
          })"

definition dsi_update_clk_state ::
    "dsi_env \<Rightarrow> dsi_clk_mngr \<Rightarrow> dsi_core_clks list option \<Rightarrow> dsi_clk_state \<Rightarrow>
     dsi_link_clks list option \<Rightarrow> dsi_clk_state \<Rightarrow> dsi_trace \<Rightarrow>
     (int \<times> dsi_clk_mngr \<times> dsi_trace) option" where
  "dsi_update_clk_state env m cs c_state ls l_state w = do {
     r \<leftarrow> upd_core_on env m cs c_state w;
     case r of Inl e \<Rightarrow> Some e
     | Inr (rc, _, m, w) \<Rightarrow> do {
         r \<leftarrow> upd_link env m cs c_state ls l_state rc w;
         case r of Inl e \<Rightarrow> Some e
         | Inr (rc, l_c_on, m, w) \<Rightarrow> upd_core_off env m cs c_state rc l_c_on w
       }
   }"

subsection \<open>Arbitration\<close>

text \<open>The loop over the clients: stops at the first \<open>ON\<close>, remembers an \<open>EARLY_GATE\<close>.\<close>

fun strongest_vote :: "dsi_clk_state \<Rightarrow> dsi_clk_state list \<Rightarrow> dsi_clk_state" where
  "strongest_vote new [] = new"
| "strongest_vote new (s # ss) =
     (if s = DSI_CLK_ON then DSI_CLK_ON
      else if s = DSI_CLK_EARLY_GATE then strongest_vote DSI_CLK_EARLY_GATE ss
      else strongest_vote new ss)"

definition new_core_clk_state :: "dsi_clk_mngr \<Rightarrow> dsi_clk_state" where
  "new_core_clk_state m = strongest_vote DSI_CLK_OFF (map (cl_core_clk_state \<circ> snd) (client_list m))"

definition new_link_clk_state :: "dsi_clk_mngr \<Rightarrow> dsi_clk_state" where
  "new_link_clk_state m = strongest_vote DSI_CLK_OFF (map (cl_link_clk_state \<circ> snd) (client_list m))"

definition dsi_recheck_clk_state ::
    "dsi_env \<Rightarrow> dsi_clk_mngr \<Rightarrow> dsi_trace \<Rightarrow> (int \<times> dsi_clk_mngr \<times> dsi_trace) option" where
  "dsi_recheck_clk_state env m w =
     (let cs = (if new_core_clk_state m \<noteq> core_clk_state m then Some (core_clks m) else None);
          ls = (if new_link_clk_state m \<noteq> link_clk_state m then Some (link_clks m) else None) in
      if cs \<noteq> None \<or> ls \<noteq> None
      then dsi_update_clk_state env m cs (new_core_clk_state m) ls (new_link_clk_state m) w
      else Some (0, m, w))"

subsection \<open>Requests of the clients\<close>

text \<open>
  One clock (core or link) of a client, as its reference count and its state, and whether the
  request changed the state.
\<close>

definition req_on :: "u32 \<Rightarrow> dsi_clk_state \<Rightarrow> u32 \<times> dsi_clk_state \<times> bool" where
  "req_on refcount cs =
     (if cs \<noteq> DSI_CLK_ON then (refcount + 1, DSI_CLK_ON, True) else (refcount + 1, cs, False))"

definition req_off :: "dsi_clk_state \<Rightarrow> u32 \<Rightarrow> dsi_clk_state \<Rightarrow> u32 \<times> dsi_clk_state \<times> bool" where
  "req_off st refcount cs =
     (if refcount = 0
      then if cs = DSI_CLK_EARLY_GATE \<and> st = DSI_CLK_OFF then (refcount, DSI_CLK_OFF, True)
           else (refcount, cs, False)
      else let refcount = refcount - 1 in
           if refcount = 0 then (refcount, st, True) else (refcount, cs, False))"

definition req_one :: "dsi_clk_state \<Rightarrow> u32 \<Rightarrow> dsi_clk_state \<Rightarrow> u32 \<times> dsi_clk_state \<times> bool" where
  "req_one st refcount cs = (if st = DSI_CLK_ON then req_on refcount cs else req_off st refcount cs)"

definition req_client :: "u32 \<Rightarrow> dsi_clk_state \<Rightarrow> dsi_clk_client_info \<Rightarrow> dsi_clk_client_info \<times> bool" where
  "req_client clk st c =
     (let (c, ch1) =
        (if clk AND DSI_CORE_CLK \<noteq> 0
         then let (r, s, ch) = req_one st (core_refcount c) (cl_core_clk_state c)
              in (c\<lparr>core_refcount := r, cl_core_clk_state := s\<rparr>, ch)
         else (c, False));
        (c, ch2) =
        (if clk AND DSI_LINK_CLK \<noteq> 0
         then let (r, s, ch) = req_one st (link_refcount c) (cl_link_clk_state c)
              in (c\<lparr>link_refcount := r, cl_link_clk_state := s\<rparr>, ch)
         else (c, False))
      in (c, ch1 \<or> ch2))"

text \<open>The client at an address, and the client list with that client replaced.\<close>

definition get_client :: "dsi_clk_mngr \<Rightarrow> nat \<Rightarrow> dsi_clk_client_info option" where
  "get_client m h = map_of (client_list m) h"

definition put_client :: "dsi_clk_mngr \<Rightarrow> nat \<Rightarrow> dsi_clk_client_info \<Rightarrow> dsi_clk_mngr" where
  "put_client m h c =
     m\<lparr>client_list := map (\<lambda>(h', c'). if h' = h then (h', c) else (h', c')) (client_list m)\<rparr>"

text \<open>The enumeration values a caller passes.\<close>

definition clk_state_of :: "u32 \<Rightarrow> dsi_clk_state option" where
  "clk_state_of v = (if v = 0 then Some DSI_CLK_OFF else if v = 1 then Some DSI_CLK_ON
     else if v = 2 then Some DSI_CLK_EARLY_GATE else None)"

definition dsi_clk_req_state ::
    "dsi_env \<Rightarrow> dsi_clk_mngr \<Rightarrow> nat option \<Rightarrow> u32 \<Rightarrow> u32 \<Rightarrow> dsi_trace \<Rightarrow>
     (int \<times> dsi_clk_mngr \<times> dsi_trace) option" where
  "dsi_clk_req_state env m client clk state w =
     (case (client, clk_state_of state) of
        (Some h, Some st) \<Rightarrow>
          if clk = 0 \<or> clk > DSI_CORE_CLK OR DSI_LINK_CLK then Some (- EINVAL, m, w)
          else do {
            c \<leftarrow> get_client m h;
            let (c, changed) = req_client clk st c;
            let m = put_client m h c;
            if changed then dsi_recheck_clk_state env m w else Some (0, m, w)
          }
      | _ \<Rightarrow> Some (- EINVAL, m, w))"

definition dsi_display_link_clk_force_update ::
    "dsi_env \<Rightarrow> dsi_clk_mngr \<Rightarrow> nat option \<Rightarrow> dsi_trace \<Rightarrow> (int \<times> dsi_clk_mngr \<times> dsi_trace) option" where
  "dsi_display_link_clk_force_update env m client w = do {
     c \<leftarrow> client;
     if link_clk_state m = DSI_CLK_OFF then Some (- EAGAIN, m, w)
     else do {
       (rc, w) \<leftarrow> dsi_clk_update_link_clk_state env m (link_clks m)
                    (DSI_LINK_LP_CLK OR DSI_LINK_HS_CLK) DSI_CLK_OFF False w;
       if rc \<noteq> 0 then Some (rc, m, w)
       else do {
         (rc, w) \<leftarrow> dsi_clk_update_link_clk_state env m (link_clks m)
                      (DSI_LINK_LP_CLK OR DSI_LINK_HS_CLK) DSI_CLK_ON True w;
         Some (rc, m, w)
       }
     }
   }"

subsection \<open>Registration\<close>

text \<open>
  The new client structure is zeroed memory at the address \<open>alloc\<close>, or none. The first result is
  the handle or the error pointer. The name is cut to \<^verbatim>\<open>MAX_STRING_LEN\<close> - 1 characters.
\<close>

definition new_client :: "string \<Rightarrow> dsi_clk_client_info" where
  "new_client name = \<lparr>cl_name = take 31 name, core_refcount = 0, link_refcount = 0,
     cl_core_clk_state = DSI_CLK_OFF, cl_link_clk_state = DSI_CLK_OFF\<rparr>"

definition dsi_register_clk_handle ::
    "dsi_clk_mngr \<Rightarrow> string \<Rightarrow> nat option \<Rightarrow> (int + nat) \<times> dsi_clk_mngr" where
  "dsi_register_clk_handle m name alloc =
     (case alloc of
        None \<Rightarrow> (Inl (- ENOMEM), m)
      | Some h \<Rightarrow> (Inr h, m\<lparr>client_list := (h, new_client name) # client_list m\<rparr>))"

fun list_del_client :: "nat \<Rightarrow> (nat \<times> dsi_clk_client_info) list \<Rightarrow> (nat \<times> dsi_clk_client_info) list" where
  "list_del_client h [] = []"
| "list_del_client h ((h', c) # cs) = (if h' = h then cs else (h', c) # list_del_client h cs)"

definition dsi_deregister_clk_handle ::
    "dsi_env \<Rightarrow> dsi_clk_mngr \<Rightarrow> nat option \<Rightarrow> dsi_trace \<Rightarrow> (int \<times> dsi_clk_mngr \<times> dsi_trace) option" where
  "dsi_deregister_clk_handle env m client w =
     (case client of
        None \<Rightarrow> Some (- EINVAL, m, w)
      | Some h \<Rightarrow> do {
          c \<leftarrow> get_client m h;
          let m = put_client m h
                    (c\<lparr>cl_core_clk_state := DSI_CLK_OFF, cl_link_clk_state := DSI_CLK_OFF\<rparr>);
          (rc, m, w) \<leftarrow> dsi_recheck_clk_state env m w;
          if rc \<noteq> 0 then Some (rc, m, w)
          else Some (rc, m\<lparr>client_list := list_del_client h (client_list m)\<rparr>, w)
        })"

definition dsi_display_clk_mngr_update_splash_status :: "dsi_clk_mngr \<Rightarrow> bool \<Rightarrow> dsi_clk_mngr" where
  "dsi_display_clk_mngr_update_splash_status m status = m\<lparr>is_cont_splash_enabled := status\<rparr>"

text \<open>
  The structure is zeroed memory: a controller beyond the count has null clock handles, no bus
  handle and zero rates. \<open>alloc_ok\<close> is whether the allocation succeeds.
\<close>

definition zero_core_clks :: dsi_core_clks where
  "zero_core_clks = \<lparr>clks = \<lparr>mdp_core_clk = None, iface_clk = None, core_mmss_clk = None,
     bus_clk = None, mnoc_clk = None, dsi_core_client = 0, phandle = 0\<rparr>, bus_handle = 0\<rparr>"

definition zero_freq :: link_clk_freq where
  "zero_freq = \<lparr>byte_clk_rate = 0, byte_intf_clk_rate = 0, pix_clk_rate = 0, esc_clk_rate = 0\<rparr>"

definition zero_link_clks :: dsi_link_clks where
  "zero_link_clks = \<lparr>hs_clks = \<lparr>byte_clk = None, pixel_clk = None, byte_intf_clk = None\<rparr>,
     lp_clks = \<lparr>esc_clk = None\<rparr>, freq = zero_freq\<rparr>"

definition dsi_display_clk_mngr_register :: "dsi_clk_info option \<Rightarrow> bool \<Rightarrow> int + dsi_clk_mngr" where
  "dsi_display_clk_mngr_register info alloc_ok =
     (case info of
        None \<Rightarrow> Inl (- EINVAL)
      | Some info \<Rightarrow>
          if \<not> alloc_ok then Inl (- ENOMEM)
          else if info_dsi_ctrl_count info > MAX_DSI_CTRL then Inl (- EINVAL)
          else let n = info_dsi_ctrl_count info in
            Inr \<lparr>mngr_name = info_name info, client_list = [], dsi_ctrl_count = n,
              master_ndx = info_master_ndx info,
              core_clks = map (\<lambda>i. if i < n then \<lparr>clks = c_clks info ! i, bus_handle = info_bus_handle info ! i\<rparr>
                                   else zero_core_clks) [0..<MAX_DSI_CTRL],
              link_clks = map (\<lambda>i. if i < n then \<lparr>hs_clks = l_hs_clks info ! i, lp_clks = l_lp_clks info ! i,
                                     freq = zero_freq\<rparr> else zero_link_clks) [0..<MAX_DSI_CTRL],
              ctrl_index = map (\<lambda>i. if i < n then info_ctrl_index info ! i else 0) [0..<MAX_DSI_CTRL],
              core_clk_state = DSI_CLK_OFF, link_clk_state = DSI_CLK_OFF,
              pre_clkoff_cb = info_pre_clkoff_cb info, post_clkoff_cb = info_post_clkoff_cb info,
              post_clkon_cb = info_post_clkon_cb info, pre_clkon_cb = info_pre_clkon_cb info,
              is_cont_splash_enabled = False\<rparr>)"

text \<open>All clients are dropped and the clocks are turned off; the manager is freed.\<close>

definition dsi_display_clk_mngr_deregister ::
    "dsi_env \<Rightarrow> dsi_clk_mngr option \<Rightarrow> dsi_trace \<Rightarrow> (int \<times> dsi_trace) option" where
  "dsi_display_clk_mngr_deregister env m w =
     (case m of
        None \<Rightarrow> Some (- EINVAL, w)
      | Some m \<Rightarrow> do {
          (rc, m, w) \<leftarrow> dsi_recheck_clk_state env (m\<lparr>client_list := []\<rparr>) w;
          Some (rc, w)
        })"

end
