(* ===== verification/Dsi_Clk_Balance.thy ===== *)
theory Dsi_Clk_Balance
  imports Dsi_Clk_Hw
begin

section \<open>DSI clocks: reference counts of the clocks a display switches\<close>

text \<open>
  The clock framework counts, for every clock, the prepares and the enables in effect. The counts
  are read off the trace: a successful request adds one, a release takes one away. The locale
  \<open>clk_switch\<close> states what a start and a stop routine promise about one such count; it is
  interpreted on the core, high-speed and low-power routines, and the loops over the
  controllers are treated once for all of them.
\<close>

fun en_delta :: "nat \<Rightarrow> dsi_call \<times> int \<Rightarrow> int" where
  "en_delta k (Clk_enable c, rc) = (if c = Some k \<and> rc = 0 then 1 else 0)"
| "en_delta k (Clk_prepare_enable c, rc) = (if c = Some k \<and> rc = 0 then 1 else 0)"
| "en_delta k (Clk_disable c, rc) = (if c = Some k then - 1 else 0)"
| "en_delta k (Clk_disable_unprepare c, rc) = (if c = Some k then - 1 else 0)"
| "en_delta k _ = 0"

fun prep_delta :: "nat \<Rightarrow> dsi_call \<times> int \<Rightarrow> int" where
  "prep_delta k (Clk_prepare c, rc) = (if c = Some k \<and> rc = 0 then 1 else 0)"
| "prep_delta k (Clk_prepare_enable c, rc) = (if c = Some k \<and> rc = 0 then 1 else 0)"
| "prep_delta k (Clk_unprepare c, rc) = (if c = Some k then - 1 else 0)"
| "prep_delta k (Clk_disable_unprepare c, rc) = (if c = Some k then - 1 else 0)"
| "prep_delta k _ = 0"

text \<open>How often a clock set names the clock \<open>k\<close>.\<close>

definition occ :: "clk \<Rightarrow> nat \<Rightarrow> int" where
  "occ c k = (if c = Some k then 1 else 0)"

definition core_load :: "nat \<Rightarrow> dsi_core_clks \<Rightarrow> int" where
  "core_load k c = occ (mdp_core_clk (clks c)) k + occ (mnoc_clk (clks c)) k
     + occ (iface_clk (clks c)) k + occ (bus_clk (clks c)) k + occ (core_mmss_clk (clks c)) k"

definition hs_load :: "nat \<Rightarrow> dsi_link_clks \<Rightarrow> int" where
  "hs_load k l = occ (byte_clk (hs_clks l)) k + occ (pixel_clk (hs_clks l)) k
     + occ (byte_intf_clk (hs_clks l)) k"

definition lp_load :: "nat \<Rightarrow> dsi_link_clks \<Rightarrow> int" where
  "lp_load k l = occ (esc_clk (lp_clks l)) k"

subsection \<open>Optional calls\<close>

lemma opt_call_sum:
  "opt_call env f c w = (rc, w') \<Longrightarrow>
     trace_sum g w' = trace_sum g w + (if c = None then 0 else g (f c, rc))"
  by (auto simp: opt_call_def dest: ext_sum split: if_splits)

lemma opt_call_None: "opt_call env f None w = (0, w)"
  by (simp add: opt_call_def)

lemma opt_vcall_sum [trace_simps]:
  "trace_sum g (opt_vcall f c w) = trace_sum g w + (if c = None then 0 else g (f c, 0))"
  by (simp add: opt_vcall_def trace_simps)

lemma en_opt_disable [simp]:
  "(if c = None then 0 else en_delta k (Clk_disable_unprepare c, rc)) = - occ c k"
  by (auto simp: occ_def)

lemma prep_opt_disable [simp]:
  "(if c = None then 0 else prep_delta k (Clk_disable_unprepare c, rc)) = - occ c k"
  by (auto simp: occ_def)

subsection \<open>The contract of a start and a stop routine\<close>

text \<open>
  Start and stop take the index of the controller and its clock set. The first locale says what a
  successful start does; the loops over the controllers other than the master follow from it.
\<close>

locale clk_start =
  fixes start :: "nat \<Rightarrow> 'a \<Rightarrow> dsi_trace \<Rightarrow> int \<times> dsi_trace"
    and weight :: "dsi_call \<times> int \<Rightarrow> int"
    and load :: "'a \<Rightarrow> int"
  assumes start_ok: "start i a w = (0, w') \<Longrightarrow> trace_sum weight w' = trace_sum weight w + load a"
begin

lemma slave_loop_start:
  "slave_loop (\<lambda>i w. map_option (\<lambda>a. start i a w) (nth_opt xs i)) m js w = Some (rc, w') \<Longrightarrow>
     rc = 0 \<Longrightarrow>
     trace_sum weight w' = trace_sum weight w + (\<Sum>i\<leftarrow>filter (\<lambda>i. i \<noteq> m) js. load (xs ! i))"
  by (induction js arbitrary: w)
    (auto simp: nth_opt_Some_iff split: prod.splits if_splits bind_splits dest!: start_ok)

end

text \<open>In addition, a failed start has undone whatever it had started, and a stop releases it.\<close>

locale clk_switch = clk_start start weight load
  for start :: "nat \<Rightarrow> 'a \<Rightarrow> dsi_trace \<Rightarrow> int \<times> dsi_trace"
    and weight :: "dsi_call \<times> int \<Rightarrow> int"
    and load :: "'a \<Rightarrow> int" +
  fixes stop :: "'a \<Rightarrow> dsi_trace \<Rightarrow> int \<times> dsi_trace"
  assumes start_fail: "start i a w = (rc, w') \<Longrightarrow> rc \<noteq> 0 \<Longrightarrow> trace_sum weight w' = trace_sum weight w"
    and stop_ok: "stop a w = (0, w') \<Longrightarrow> trace_sum weight w' = trace_sum weight w - load a"
begin

text \<open>A start that is followed by a successful stop leaves no count behind.\<close>

lemma start_stop_sum:
  assumes "start i a w = (0, w')" and "stop a w' = (0, w'')"
  shows "trace_sum weight w'' = trace_sum weight w"
  using start_ok [OF assms(1)] stop_ok [OF assms(2)] by simp

lemma slave_loop_start_fail:
  "slave_loop (\<lambda>i w. map_option (\<lambda>a. start i a w) (nth_opt xs i)) m js w = Some (rc, w') \<Longrightarrow>
     rc \<noteq> 0 \<Longrightarrow> length (filter (\<lambda>i. i \<noteq> m) js) \<le> 1 \<Longrightarrow> trace_sum weight w' = trace_sum weight w"
proof (induction js arbitrary: w)
  case (Cons j js)
  show ?case
  proof (cases "j = m")
    case True
    with Cons show ?thesis by simp
  next
    case False
    with Cons.prems have "filter (\<lambda>i. i \<noteq> m) js = []" by simp
    then have none: "slave_loop f m js v = Some (0, v)" for f and v :: dsi_trace
      by (induction js) (auto split: if_splits)
    from False Cons.prems(1,2) show ?thesis
      by (auto simp: none nth_opt_Some_iff split: prod.splits if_splits bind_splits dest!: start_fail)
  qed
qed simp

lemma slave_loop_stop:
  "slave_loop (\<lambda>i w. map_option (\<lambda>a. stop a w) (nth_opt xs i)) m js w = Some (rc, w') \<Longrightarrow>
     rc = 0 \<Longrightarrow>
     trace_sum weight w' = trace_sum weight w - (\<Sum>i\<leftarrow>filter (\<lambda>i. i \<noteq> m) js. load (xs ! i))"
  by (induction js arbitrary: w)
    (auto simp: nth_opt_Some_iff split: prod.splits if_splits bind_splits dest!: stop_ok)

end

subsection \<open>Core clocks\<close>

text \<open>
  Both counts of a clock move together on the core clocks, so the lemmas are stated for a
  weight that treats a successful enable and a release as the two counts do.
\<close>

definition pe_weight :: "nat \<Rightarrow> (dsi_call \<times> int \<Rightarrow> int) \<Rightarrow> bool" where
  "pe_weight k g \<longleftrightarrow> g \<in> {en_delta k, prep_delta k}"

lemma pe_weight_cases:
  assumes "pe_weight k g"
  shows "g (Clk_prepare_enable c, rc) = (if rc = 0 then occ c k else 0)"
    and "g (Clk_disable_unprepare c, rc) = - occ c k"
    and "g (Bus_request h v, rc) = 0"
    and "g (Power_enable p q b, rc) = 0"
  using assms by (auto simp: pe_weight_def occ_def)

lemma occ_None [simp]: "occ None k = 0"
  by (simp add: occ_def)

lemma opt_enable_sum:
  assumes "opt_call env Clk_prepare_enable c w = (rc, w')" and "pe_weight k g"
  shows "trace_sum g w' = trace_sum g w + (if rc = 0 then occ c k else 0)"
  using opt_call_sum [OF assms(1), of g] by (auto simp: pe_weight_cases [OF assms(2)])

lemma opt_disable_sum:
  "pe_weight k g \<Longrightarrow>
     trace_sum g (opt_vcall Clk_disable_unprepare c w) = trace_sum g w - occ c k"
  by (auto simp: opt_vcall_sum pe_weight_cases)

lemmas core_unwind_defs = error_disable_core_clk_def error_disable_mnoc_clk_def
  error_disable_iface_clk_def error_disable_bus_clk_def error_disable_mmss_clk_def

lemma dsi_core_clk_start_sum:
  assumes "dsi_core_clk_start env c w = (rc, w')" and "pe_weight k g"
  shows "trace_sum g w' = trace_sum g w + (if rc = 0 then core_load k c else 0)"
  using assms(1) unfolding dsi_core_clk_start_def core_load_def core_unwind_defs
  by (auto simp: Let_def opt_disable_sum [OF assms(2)] pe_weight_cases [OF assms(2)]
      dest!: opt_enable_sum [OF _ assms(2)] ext_sum [where f = g]
      split: prod.splits if_splits)

lemma dsi_core_clk_stop_sum:
  assumes "dsi_core_clk_stop env c w = (rc, w')" and "pe_weight k g"
  shows "trace_sum g w' = trace_sum g w - (if rc = 0 then core_load k c else 0)"
  using assms(1) unfolding dsi_core_clk_stop_def core_load_def
  by (auto simp: Let_def opt_disable_sum [OF assms(2)] pe_weight_cases [OF assms(2)]
      dest!: ext_sum [where f = g] split: prod.splits if_splits)

text \<open>Power requests do not touch the clock counts.\<close>

lemma power_request_sum:
  assumes "pe_weight k g"
  shows "trace_sum g (snd (power_request env c on w)) = trace_sum g w"
  by (simp add: power_request_def ext_def pe_weight_cases [OF assms])

lemma core_clk_enable_one_sum:
  assumes "core_clk_enable_one env c w = (rc, w')" and "pe_weight k g"
  shows "trace_sum g w' = trace_sum g w + (if rc = 0 then core_load k c else 0)"
  using assms(1) unfolding core_clk_enable_one_def
  by (auto simp: power_request_sum [OF assms(2)] Let_def
      dest!: dsi_core_clk_start_sum [OF _ assms(2)]
      split: prod.splits if_splits)
    (metis power_request_sum [OF assms(2)] snd_conv)+

lemma core_clk_disable_one_sum:
  assumes "core_clk_disable_one env c w = (0, w')" and "pe_weight k g"
  shows "trace_sum g w' = trace_sum g w - core_load k c"
  using assms(1) unfolding core_clk_disable_one_def
  by (auto simp: Let_def dest!: dsi_core_clk_stop_sum [OF _ assms(2)]
      split: prod.splits if_splits)
    (metis power_request_sum [OF assms(2)] snd_conv)

interpretation core_en: clk_switch "\<lambda>_. core_clk_enable_one env" "en_delta k" "core_load k"
    "core_clk_disable_one env" for env k
  by unfold_locales
    (auto simp: pe_weight_def dest: core_clk_enable_one_sum [where k = k] core_clk_disable_one_sum [where k = k])

interpretation core_prep: clk_switch "\<lambda>_. core_clk_enable_one env" "prep_delta k" "core_load k"
    "core_clk_disable_one env" for env k
  by unfold_locales
    (auto simp: pe_weight_def dest: core_clk_enable_one_sum [where k = k] core_clk_disable_one_sum [where k = k])

subsection \<open>High-speed link clocks\<close>

lemma hs_set_rate_sum:
  assumes "dsi_link_hs_clk_set_rate env splash l i w = (rc, w')"
    and "\<And>c r rc. g (Clk_set_rate c r, rc) = 0"
  shows "trace_sum g w' = trace_sum g w"
  using assms(1) unfolding dsi_link_hs_clk_set_rate_def
  by (auto simp: Let_def assms(2) dest!: ext_sum [where f = g] opt_call_sum [where g = g]
      split: prod.splits if_splits)

text \<open>
  The prepare and the enable routines have the same shape, and so have their inverses; \<open>a\<close> is 1
  for the count the routine changes and 0 for the other.
\<close>

lemma hs_prepare_sum:
  assumes "dsi_link_hs_clk_prepare env (hs_clks l) w = (rc, w')"
    and "\<And>c rc. g (Clk_prepare c, rc) = (if rc = 0 then a * occ c k else 0)"
    and "\<And>c rc. g (Clk_unprepare c, rc) = - (a * occ c k)"
  shows "trace_sum g w' = trace_sum g w + (if rc = 0 then a * hs_load k l else 0)"
  using assms(1) unfolding dsi_link_hs_clk_prepare_def hs_load_def
  by (auto simp: Let_def trace_simps assms(2,3) algebra_simps
      dest!: ext_sum [where f = g] opt_call_sum [where g = g] split: prod.splits if_splits)

lemma hs_enable_sum:
  assumes "dsi_link_hs_clk_enable env (hs_clks l) w = (rc, w')"
    and "\<And>c rc. g (Clk_enable c, rc) = (if rc = 0 then a * occ c k else 0)"
    and "\<And>c rc. g (Clk_disable c, rc) = - (a * occ c k)"
  shows "trace_sum g w' = trace_sum g w + (if rc = 0 then a * hs_load k l else 0)"
  using assms(1) unfolding dsi_link_hs_clk_enable_def hs_load_def
  by (auto simp: Let_def trace_simps assms(2,3) algebra_simps
      dest!: ext_sum [where f = g] opt_call_sum [where g = g] split: prod.splits if_splits)

lemma hs_stop_parts_sum [trace_simps]:
  "trace_sum (en_delta k) (dsi_link_hs_clk_disable (hs_clks l) w) = trace_sum (en_delta k) w - hs_load k l"
  "trace_sum (prep_delta k) (dsi_link_hs_clk_disable (hs_clks l) w) = trace_sum (prep_delta k) w"
  "trace_sum (prep_delta k) (dsi_link_hs_clk_unprepare (hs_clks l) w) = trace_sum (prep_delta k) w - hs_load k l"
  "trace_sum (en_delta k) (dsi_link_hs_clk_unprepare (hs_clks l) w) = trace_sum (en_delta k) w"
  by (auto simp: dsi_link_hs_clk_disable_def dsi_link_hs_clk_unprepare_def hs_load_def occ_def
      trace_simps)

lemma hs_start_flags [simp]:
  "DSI_LINK_CLK_START AND DSI_LINK_CLK_SET_RATE \<noteq> 0"
  "DSI_LINK_CLK_START AND DSI_LINK_CLK_PREPARE \<noteq> 0"
  "DSI_LINK_CLK_START AND DSI_LINK_CLK_ENABLE \<noteq> 0"
  by (simp_all add: dsi_flag_defs)

lemma hs_start_en:
  assumes "dsi_link_hs_clk_start env splash l DSI_LINK_CLK_START i w = (rc, w')"
  shows "trace_sum (en_delta k) w' = trace_sum (en_delta k) w + (if rc = 0 then hs_load k l else 0)"
  using assms unfolding dsi_link_hs_clk_start_def
  by (auto simp: Let_def trace_simps occ_def split: prod.splits if_splits
      dest!: hs_set_rate_sum [where g = "en_delta k"]
        hs_prepare_sum [where g = "en_delta k" and a = 0]
        hs_enable_sum [where g = "en_delta k" and a = 1 and k = k])

lemma hs_start_prep:
  assumes "dsi_link_hs_clk_start env splash l DSI_LINK_CLK_START i w = (rc, w')"
  shows "trace_sum (prep_delta k) w' = trace_sum (prep_delta k) w + (if rc = 0 then hs_load k l else 0)"
  using assms unfolding dsi_link_hs_clk_start_def
  by (auto simp: Let_def trace_simps occ_def split: prod.splits if_splits
      dest!: hs_set_rate_sum [where g = "prep_delta k"]
        hs_prepare_sum [where g = "prep_delta k" and a = 1 and k = k]
        hs_enable_sum [where g = "prep_delta k" and a = 0])

lemma lp_start_en:
  assumes "dsi_link_lp_clk_start env splash l i w = (rc, w')"
  shows "trace_sum (en_delta k) w' = trace_sum (en_delta k) w + (if rc = 0 then lp_load k l else 0)"
  using assms unfolding dsi_link_lp_clk_start_def lp_load_def
  by (auto simp: Let_def trace_simps occ_def dest!: ext_sum [where f = "en_delta k"]
      split: prod.splits if_splits)

subsection \<open>The link clocks of one kind as switches\<close>

lemma link_type_flags [simp]:
  "DSI_LINK_LP_CLK \<noteq> 0" "DSI_LINK_LP_CLK AND DSI_LINK_HS_CLK = 0"
  "DSI_LINK_HS_CLK \<noteq> 0" "DSI_LINK_HS_CLK AND DSI_LINK_LP_CLK = 0"
  "DSI_LINK_HS_CLK \<noteq> DSI_LINK_LP_CLK"
  by (simp_all add: dsi_flag_defs)

interpretation hs_en: clk_switch "link_clk_start_one env splash DSI_LINK_HS_CLK"
    "en_delta k" "hs_load k"
    "link_clk_stop_one DSI_LINK_HS_CLK 0" for env splash k
  by unfold_locales
    (auto simp: link_clk_start_one_def link_clk_stop_one_def dsi_link_hs_clk_stop_def trace_simps
      dest: hs_start_en)

interpretation hs_prep: clk_switch "link_clk_start_one env splash DSI_LINK_HS_CLK"
    "prep_delta k" "hs_load k"
    "link_clk_stop_one DSI_LINK_HS_CLK 0" for env splash k
  by unfold_locales
    (auto simp: link_clk_start_one_def link_clk_stop_one_def dsi_link_hs_clk_stop_def trace_simps
      dest: hs_start_prep)

text \<open>
  The low-power clock meets the contract for its enable count only: its start routine calls
  \<^verbatim>\<open>clk_unprepare\<close> after a failed \<^verbatim>\<open>clk_prepare_enable\<close>, which has left nothing prepared.
\<close>

interpretation lp_en: clk_switch "link_clk_start_one env splash DSI_LINK_LP_CLK"
    "en_delta k" "lp_load k"
    "link_clk_stop_one DSI_LINK_LP_CLK 0" for env splash k
  by unfold_locales
    (auto simp: link_clk_start_one_def link_clk_stop_one_def dsi_link_lp_clk_stop_def lp_load_def
      occ_def trace_simps split: prod.splits if_splits dest!: lp_start_en [of _ _ _ _ _ _ _ k])

subsection \<open>All clocks of a display\<close>

text \<open>The load of the clock sets that the display routines visit: the master and the others.\<close>

definition visit :: "nat \<Rightarrow> nat \<Rightarrow> nat list" where
  "visit n m = m # filter (\<lambda>i. i \<noteq> m) [0..<n]"

definition ctrl_total :: "('a \<Rightarrow> int) \<Rightarrow> 'a list \<Rightarrow> nat \<Rightarrow> nat \<Rightarrow> int" where
  "ctrl_total load xs n m = (\<Sum>i\<leftarrow>visit n m. load (xs ! i))"

lemma total_Cons: "ctrl_total load xs n m =
    load (xs ! m) + (\<Sum>i\<leftarrow>filter (\<lambda>i. i \<noteq> m) [0..<n]. load (xs ! i))"
  by (simp add: ctrl_total_def visit_def)

lemma two_ctrl_slaves: "n \<le> MAX_DSI_CTRL \<Longrightarrow> m < n \<Longrightarrow> length (filter (\<lambda>i. i \<noteq> m) [0..<n]) \<le> 1"
  by (cases "n = 1"; cases "n = 2") (auto simp: MAX_DSI_CTRL_def upt_rec less_Suc_eq numeral_2_eq_2)

context clk_start
begin

text \<open>
  The display routines start the master, then the others; if one of these fails the master is
  stopped again by a routine \<open>undo\<close>.
\<close>

lemma display_start_ok:
  assumes "do { a \<leftarrow> nth_opt xs m; let (rc, w) = start m a w;
        if rc \<noteq> 0 then Some (rc, w)
        else do { (rc, w) \<leftarrow> slave_loop (\<lambda>i w. map_option (\<lambda>a. start i a w) (nth_opt xs i)) m [0..<n] w;
                  if rc \<noteq> 0 then Some (rc, undo a w) else Some (rc, w) } } = Some (0, w')"
  shows "trace_sum weight w' = trace_sum weight w + ctrl_total load xs n m"
  using assms
  by (auto simp: total_Cons nth_opt_Some_iff split: prod.splits if_splits bind_splits
      dest!: start_ok slave_loop_start)

end

context clk_switch
begin

text \<open>With two controllers a failure restores all counts.\<close>

lemma display_start_fail:
  assumes "do { a \<leftarrow> nth_opt xs m; let (rc, w) = start m a w;
        if rc \<noteq> 0 then Some (rc, w)
        else do { (rc, w) \<leftarrow> slave_loop (\<lambda>i w. map_option (\<lambda>a. start i a w) (nth_opt xs i)) m [0..<n] w;
                  if rc \<noteq> 0 then Some (rc, undo a w) else Some (rc, w) } } = Some (rc, w')"
    and "rc \<noteq> 0" and "n \<le> MAX_DSI_CTRL" and "m < n"
    and undo: "\<And>a v. trace_sum weight (undo a v) = trace_sum weight v - load a"
  shows "trace_sum weight w' = trace_sum weight w"
  using assms(1,2) two_ctrl_slaves [OF assms(3,4)]
  by (auto simp: undo nth_opt_Some_iff split: prod.splits if_splits bind_splits
      dest!: start_ok start_fail slave_loop_start_fail)

end

text \<open>The environment never refuses to release a bus vote.\<close>

definition bus_release_ok :: "dsi_env \<Rightarrow> bool" where
  "bus_release_ok env \<longleftrightarrow> (\<forall>w h. env w (Bus_request h 0) = 0)"

lemma core_stop_released:
  "bus_release_ok env \<Longrightarrow> dsi_core_clk_stop env c w = (0, snd (dsi_core_clk_stop env c w))"
  by (auto simp: dsi_core_clk_stop_def bus_release_ok_def ext_def Let_def split: prod.splits)

lemma core_undo_sum:
  assumes "bus_release_ok env" and "pe_weight k g"
  shows "trace_sum g (snd (power_request env c False (snd (dsi_core_clk_stop env c w))))
    = trace_sum g w - core_load k c"
  using dsi_core_clk_stop_sum [OF core_stop_released [OF assms(1)] assms(2)]
  by (simp add: power_request_sum [OF assms(2)])

lemma display_core_enable_sum:
  assumes "dsi_display_core_clk_enable env cs n m w = Some (rc, w')" and "pe_weight k g"
  shows "rc = 0 \<Longrightarrow> trace_sum g w' = trace_sum g w + ctrl_total (core_load k) cs n m"
    and "rc \<noteq> 0 \<Longrightarrow> n \<le> MAX_DSI_CTRL \<Longrightarrow> m < n \<Longrightarrow> bus_release_ok env \<Longrightarrow>
      trace_sum g w' = trace_sum g w"
proof -
  note eq = assms(1) [unfolded dsi_display_core_clk_enable_def Let_def [of "snd _"]]
  have g: "g = en_delta k \<or> g = prep_delta k"
    using assms(2) by (simp add: pe_weight_def)
  show "trace_sum g w' = trace_sum g w + ctrl_total (core_load k) cs n m" if "rc = 0"
    using g core_en.display_start_ok [OF eq [unfolded that]] core_prep.display_start_ok [OF eq [unfolded that]]
    by blast
  show "trace_sum g w' = trace_sum g w"
    if "rc \<noteq> 0" "n \<le> MAX_DSI_CTRL" "m < n" "bus_release_ok env"
    using g core_en.display_start_fail [OF eq that(1-3) core_undo_sum [OF that(4)]]
      core_prep.display_start_fail [OF eq that(1-3) core_undo_sum [OF that(4)]]
    by (auto simp: pe_weight_def)
qed

lemma display_core_disable_sum:
  assumes "dsi_display_core_clk_disable env cs n m w = Some (0, w')" and "pe_weight k g"
  shows "trace_sum g w' = trace_sum g w - ctrl_total (core_load k) cs n m"
proof -
  obtain v where loop: "slave_loop
        (\<lambda>i w. map_option (\<lambda>c. core_clk_disable_one env c w) (nth_opt cs i)) m [0..<n] w = Some (0, v)"
    and last: "core_clk_disable_one env (cs ! m) v = (0, w')"
    using assms(1) unfolding dsi_display_core_clk_disable_def
    by (auto simp: nth_opt_Some_iff split: bind_splits if_splits prod.splits)
  have "trace_sum g v = trace_sum g w
      - (\<Sum>i\<leftarrow>filter (\<lambda>i. i \<noteq> m) [0..<n]. core_load k (cs ! i))"
    using core_en.slave_loop_stop [OF loop refl, of k] core_prep.slave_loop_stop [OF loop refl, of k]
      assms(2) by (auto simp: pe_weight_def)
  with core_clk_disable_one_sum [OF last assms(2)] show ?thesis
    by (simp add: total_Cons)
qed

text \<open>
  The link clocks of one display. For a single kind of clock a failed start leaves the counts as
  they were.
\<close>

lemma display_link_enable_hs_fail:
  assumes "dsi_display_link_clk_enable env splash ls DSI_LINK_HS_CLK n m w = Some (rc, w')"
    and "rc \<noteq> 0" and "n \<le> MAX_DSI_CTRL" and "m < n"
  shows "trace_sum (en_delta k) w' = trace_sum (en_delta k) w"
  using assms(1)
  by (intro hs_en.display_start_fail [where undo = "\<lambda>l w. snd (dsi_link_hs_clk_stop l w)",
        OF _ assms(2-4)])
    (auto simp: dsi_display_link_clk_enable_def dsi_link_hs_clk_stop_def trace_simps cong: if_cong)

lemma display_link_enable_lp_fail:
  assumes "dsi_display_link_clk_enable env splash ls DSI_LINK_LP_CLK n m w = Some (rc, w')"
    and "rc \<noteq> 0" and "n \<le> MAX_DSI_CTRL" and "m < n"
  shows "trace_sum (en_delta k) w' = trace_sum (en_delta k) w"
  using assms(1)
  by (intro lp_en.display_start_fail [where undo = "\<lambda>l w. snd (dsi_link_lp_clk_stop l w)",
        OF _ assms(2-4)])
    (auto simp: dsi_display_link_clk_enable_def dsi_link_lp_clk_stop_def trace_simps lp_load_def
      occ_def cong: if_cong)

text \<open>A successful start of any combination of kinds adds the loads of these kinds.\<close>

definition link_load :: "u32 \<Rightarrow> nat \<Rightarrow> dsi_link_clks \<Rightarrow> int" where
  "link_load l_type k l = (if l_type AND DSI_LINK_LP_CLK \<noteq> 0 then lp_load k l else 0)
     + (if l_type AND DSI_LINK_HS_CLK \<noteq> 0 then hs_load k l else 0)"

interpretation link_en: clk_start "link_clk_start_one env splash l_type" "en_delta k"
    "link_load l_type k" for env splash l_type k
  by unfold_locales
    (auto simp: link_clk_start_one_def link_load_def Let_def split: prod.splits if_splits
      dest!: lp_start_en [of _ _ _ _ _ _ _ k] hs_start_en [of _ _ _ _ _ _ _ k])

lemma display_link_enable_ok:
  assumes "dsi_display_link_clk_enable env splash ls l_type n m w = Some (0, w')"
  shows "trace_sum (en_delta k) w' = trace_sum (en_delta k) w + ctrl_total (link_load l_type k) ls n m"
  using assms unfolding dsi_display_link_clk_enable_def
  by (rule link_en.display_start_ok)

text \<open>The stop loop over the link clocks of any kind never fails.\<close>

lemma link_stop_one:
  "fst (link_clk_stop_one l_type 0 l w) = 0"
  "trace_sum (en_delta k) (snd (link_clk_stop_one l_type rc l w))
     = trace_sum (en_delta k) w - link_load l_type k l"
  by (auto simp: link_clk_stop_one_def dsi_link_lp_clk_stop_def dsi_link_hs_clk_stop_def
      link_load_def lp_load_def occ_def trace_simps)

lemma link_disable_loop_sum:
  "link_clk_disable_loop ls l_type m js 0 w = Some (rc, w') \<Longrightarrow> rc = 0 \<and>
     trace_sum (en_delta k) w' = trace_sum (en_delta k) w
       - (\<Sum>i\<leftarrow>filter (\<lambda>i. i \<noteq> m) js. link_load l_type k (ls ! i))"
proof (induction js arbitrary: w)
  case (Cons j js)
  show ?case
  proof (cases "j = m")
    case True
    with Cons show ?thesis by simp
  next
    case False
    let ?v = "snd (link_clk_stop_one l_type 0 (ls ! j) w)"
    from False Cons.prems have "link_clk_disable_loop ls l_type m js 0 ?v = Some (rc, w')"
      using link_stop_one(1) [of l_type "ls ! j" w]
      by (auto simp: nth_opt_Some_iff split: bind_splits prod.splits)
    from Cons.IH [OF this] False show ?thesis
      by (simp add: link_stop_one(2))
  qed
qed simp

lemma display_link_disable_sum:
  assumes "dsi_display_link_clk_disable ls l_type n m w = Some (rc, w')"
  shows "rc = 0"
    and "trace_sum (en_delta k) w' = trace_sum (en_delta k) w - ctrl_total (link_load l_type k) ls n m"
proof -
  obtain r v where loop: "link_clk_disable_loop ls l_type m [0..<n] 0 w = Some (r, v)"
    and last: "link_clk_stop_one l_type r (ls ! m) v = (rc, w')"
    using assms by (auto simp: dsi_display_link_clk_disable_def nth_opt_Some_iff split: bind_splits)
  note sum = link_disable_loop_sum [OF loop, of k]
  show "rc = 0"
    using sum last link_stop_one(1) [of l_type "ls ! m" v] by simp
  show "trace_sum (en_delta k) w' = trace_sum (en_delta k) w - ctrl_total (link_load l_type k) ls n m"
    using sum link_stop_one(2) [of k l_type r "ls ! m" v] last by (simp add: total_Cons)
qed

end
