(* ===== verification/Dsi_Clk_Inv.thy ===== *)
theory Dsi_Clk_Inv
  imports Dsi_Clk_Mngr Dsi_Clk_Balance
begin

section \<open>DSI clock manager: runs, invariants and properties\<close>

text \<open>
  A run of the manager is a sequence of the calls its interface offers, from registration on. The
  properties of this theory hold for every run and every environment, under the conditions they
  name: the reference counts of the clients, the arbitration, the reference counts of the clocks
  in the clock framework, and the absence of null and wild accesses.
\<close>

subsection \<open>Arbitration is a maximum\<close>

lemma strongest_vote_gate: "DSI_CLK_EARLY_GATE \<le> strongest_vote DSI_CLK_EARLY_GATE vs"
  by (induction vs) (auto split: if_splits)

lemma strongest_vote_upper: "v \<in> set vs \<Longrightarrow> v \<le> strongest_vote new vs"
proof (induction vs arbitrary: new)
  case (Cons u vs)
  then show ?case
    using strongest_vote_gate [of vs] by (cases u) auto
qed simp

lemma strongest_vote_in: "strongest_vote new vs = new \<or> strongest_vote new vs \<in> set vs"
proof (induction vs arbitrary: new)
  case (Cons u vs)
  show ?case
    using Cons.IH [of new] Cons.IH [of DSI_CLK_EARLY_GATE] by (cases u) auto
qed simp

interpretation dsi_votes: vote_arbiter "strongest_vote DSI_CLK_OFF" DSI_CLK_OFF
  by unfold_locales (simp_all add: strongest_vote_upper strongest_vote_in)

subsection \<open>What a state change leaves alone\<close>

lemma upd_core_on_Inr:
  "upd_core_on env m cs c_state w = Some (Inr (rc, f, m', w')) \<Longrightarrow>
     f = False \<and> m' = (if cs \<noteq> None \<and> c_state = DSI_CLK_ON then m\<lparr>core_clk_state := DSI_CLK_ON\<rparr> else m)"
  by (auto simp: upd_core_on_def Let_def split: option.splits if_splits bind_splits prod.splits)

lemma upd_core_on_Inl:
  "upd_core_on env m cs c_state w = Some (Inl (rc, m', w')) \<Longrightarrow> rc \<noteq> 0 \<and> m' = m"
  by (auto simp: upd_core_on_def Let_def split: option.splits if_splits bind_splits prod.splits)

lemma link_regate_frame:
  "link_regate env m ls l_state w = Some (Inr (rc, f, m', w')) \<Longrightarrow> m' = m"
  "link_regate env m ls l_state w = Some (Inl (rc, m', w')) \<Longrightarrow> rc \<noteq> 0 \<and> m' = m"
  by (auto simp: link_regate_def split: if_splits bind_splits prod.splits)

lemma link_core_release_frame:
  "link_core_release env m cs c_state r f w = Some (Inr (rc, f', m', w')) \<Longrightarrow> m' = m"
  "link_core_release env m cs c_state r f w = Some (Inl (rc, m', w')) \<Longrightarrow> rc \<noteq> 0 \<and> m' = m"
  by (auto simp: link_core_release_def split: if_splits bind_splits prod.splits)

lemma upd_link_on_frame:
  "upd_link_on env m ls l_state w = Some (Inr (rc, f, m', w')) \<Longrightarrow> m' = m \<and> rc = 0"
  "upd_link_on env m ls l_state w = Some (Inl (rc, m', w')) \<Longrightarrow> rc \<noteq> 0 \<and> m' = m"
  by (auto simp: upd_link_on_def split: if_splits bind_splits prod.splits)

lemma upd_link_off_frame:
  "upd_link_off env m cs c_state ls l_state w = Some (Inr (rc, f, m', w')) \<Longrightarrow> m' = m"
  "upd_link_off env m cs c_state ls l_state w = Some (Inl (rc, m', w')) \<Longrightarrow> rc \<noteq> 0 \<and> m' = m"
  by (auto simp: upd_link_off_def split: if_splits bind_splits prod.splits sum.splits
      dest: link_regate_frame link_core_release_frame)

lemma upd_link_Inr:
  "upd_link env m cs c_state ls l_state r w = Some (Inr (rc, f, m', w')) \<Longrightarrow>
     m' = (if ls \<noteq> None then m\<lparr>link_clk_state := l_state\<rparr> else m)"
  by (auto simp: upd_link_def split: option.splits if_splits bind_splits prod.splits sum.splits
      dest: upd_link_on_frame upd_link_off_frame)

lemma upd_link_Inl:
  "upd_link env m cs c_state ls l_state r w = Some (Inl (rc, m', w')) \<Longrightarrow> rc \<noteq> 0 \<and> m' = m"
  by (auto simp: upd_link_def split: option.splits if_splits bind_splits prod.splits sum.splits
      dest: upd_link_on_frame upd_link_off_frame)

lemma upd_core_off_frame:
  "upd_core_off env m cs c_state r f w = Some (rc, m', w') \<Longrightarrow>
     m' = (if cs \<noteq> None \<and> c_state \<noteq> DSI_CLK_ON then m\<lparr>core_clk_state := c_state\<rparr> else m)
     \<or> rc \<noteq> 0 \<and> m' = m"
  by (auto simp: upd_core_off_def Let_def split: option.splits if_splits bind_splits prod.splits)

lemma upd_same [simp]:
  "m\<lparr>core_clk_state := core_clk_state m\<rparr> = m" "m\<lparr>link_clk_state := link_clk_state m\<rparr> = m"
  by (cases m; simp)+

text \<open>The three ways through the state update: it stops in the first or the second step, or not.\<close>

lemma dsi_update_cases:
  assumes "dsi_update_clk_state env m cs c_state ls l_state w = Some (rc, m', w')"
  obtains (core_fail) "upd_core_on env m cs c_state w = Some (Inl (rc, m', w'))"
  | (link_fail) r1 f1 m1 w1 where "upd_core_on env m cs c_state w = Some (Inr (r1, f1, m1, w1))"
      "upd_link env m1 cs c_state ls l_state r1 w1 = Some (Inl (rc, m', w'))"
  | (through) r1 f1 m1 w1 r2 f2 m2 w2
      where "upd_core_on env m cs c_state w = Some (Inr (r1, f1, m1, w1))"
      "upd_link env m1 cs c_state ls l_state r1 w1 = Some (Inr (r2, f2, m2, w2))"
      "upd_core_off env m2 cs c_state r2 f2 w2 = Some (rc, m', w')"
  using assms unfolding dsi_update_clk_state_def
  by (auto split: bind_splits sum.splits prod.splits)

lemma dsi_update_frame:
  assumes "dsi_update_clk_state env m cs c_state ls l_state w = Some (rc, m', w')"
  shows "\<exists>a b. m' = m\<lparr>core_clk_state := a, link_clk_state := b\<rparr>"
    and "rc = 0 \<Longrightarrow> m' = m\<lparr>core_clk_state := if cs = None then core_clk_state m else c_state,
           link_clk_state := if ls = None then link_clk_state m else l_state\<rparr>"
proof -
  have "(\<exists>a b. m' = m\<lparr>core_clk_state := a, link_clk_state := b\<rparr>) \<and>
      (rc = 0 \<longrightarrow> m' = m\<lparr>core_clk_state := if cs = None then core_clk_state m else c_state,
           link_clk_state := if ls = None then link_clk_state m else l_state\<rparr>)"
    using assms
  proof (cases rule: dsi_update_cases)
    case core_fail
    then show ?thesis
      using upd_core_on_Inl [of env m cs c_state w rc m' w'] upd_same by metis
  next
    case link_fail
    note upd_core_on_Inr [OF link_fail(1)] upd_link_Inl [OF link_fail(2)]
    then show ?thesis
      by (cases m) (auto split: if_splits)
  next
    case through
    note upd_core_on_Inr [OF through(1)] upd_link_Inr [OF through(2)]
      upd_core_off_frame [OF through(3)]
    then show ?thesis
      by (cases m) (auto split: if_splits)
  qed
  then show "\<exists>a b. m' = m\<lparr>core_clk_state := a, link_clk_state := b\<rparr>"
    and "rc = 0 \<Longrightarrow> m' = m\<lparr>core_clk_state := if cs = None then core_clk_state m else c_state,
           link_clk_state := if ls = None then link_clk_state m else l_state\<rparr>"
    by blast+
qed

lemma recheck_frame:
  "dsi_recheck_clk_state env m w = Some (rc, m', w') \<Longrightarrow>
     \<exists>a b. m' = m\<lparr>core_clk_state := a, link_clk_state := b\<rparr>"
  unfolding dsi_recheck_clk_state_def Let_def
  by (auto split: if_splits dest: dsi_update_frame(1)) (metis upd_same)

lemma recheck_ok:
  "dsi_recheck_clk_state env m w = Some (0, m', w') \<Longrightarrow>
     m' = m\<lparr>core_clk_state := new_core_clk_state m, link_clk_state := new_link_clk_state m\<rparr>"
  unfolding dsi_recheck_clk_state_def Let_def
  by (auto split: if_splits dest!: dsi_update_frame(2))

subsection \<open>Runs of the manager\<close>

datatype dsi_op =
    Op_register string nat
  | Op_request "nat option" u32 u32
  | Op_deregister "nat option"
  | Op_force_update "nat option"
  | Op_splash bool
  | Op_link_freq "nat option" link_clk_freq u32
  | Op_pixel_rate "nat option" u64 nat
  | Op_byte_rate "nat option" u64 u64 nat

text \<open>
  One call of the interface with its return code. A registration gets memory at an address no
  registered client has.
\<close>

inductive dsi_step ::
    "dsi_env \<Rightarrow> dsi_op \<Rightarrow> dsi_clk_mngr \<times> dsi_trace \<Rightarrow> int \<Rightarrow> dsi_clk_mngr \<times> dsi_trace \<Rightarrow> bool"
  for env where
  register: "dsi_register_clk_handle m name (Some h) = (Inr h, m') \<Longrightarrow>
      h \<notin> fst ` set (client_list m) \<Longrightarrow> dsi_step env (Op_register name h) (m, w) 0 (m', w)"
| request: "dsi_clk_req_state env m client clk st w = Some (rc, m', w') \<Longrightarrow>
      dsi_step env (Op_request client clk st) (m, w) rc (m', w')"
| deregister: "dsi_deregister_clk_handle env m client w = Some (rc, m', w') \<Longrightarrow>
      dsi_step env (Op_deregister client) (m, w) rc (m', w')"
| force_update: "dsi_display_link_clk_force_update env m client w = Some (rc, m', w') \<Longrightarrow>
      dsi_step env (Op_force_update client) (m, w) rc (m', w')"
| splash: "dsi_step env (Op_splash b) (m, w) 0 (dsi_display_clk_mngr_update_splash_status m b, w)"
| link_freq: "dsi_clk_set_link_frequencies m client f i = (rc, m') \<Longrightarrow>
      dsi_step env (Op_link_freq client f i) (m, w) rc (m', w)"
| pixel_rate: "dsi_clk_set_pixel_clk_rate env m client r j w = Some (rc, m', w') \<Longrightarrow>
      dsi_step env (Op_pixel_rate client r j) (m, w) rc (m', w')"
| byte_rate: "dsi_clk_set_byte_clk_rate env m client r r' j w = Some (rc, m', w') \<Longrightarrow>
      dsi_step env (Op_byte_rate client r r' j) (m, w) rc (m', w')"

inductive dsi_run :: "dsi_env \<Rightarrow> (dsi_op \<times> int) list \<Rightarrow> dsi_clk_mngr \<times> dsi_trace \<Rightarrow> bool"
  for env where
  start: "dsi_display_clk_mngr_register (Some info) True = Inr m \<Longrightarrow> dsi_run env [] (m, [])"
| step: "dsi_run env ops s \<Longrightarrow> dsi_step env op s rc s' \<Longrightarrow> dsi_run env (ops @ [(op, rc)]) s'"

text \<open>The calls that change votes.\<close>

fun votes_op :: "dsi_op \<Rightarrow> bool" where
  "votes_op (Op_request _ _ _) = True"
| "votes_op (Op_deregister _) = True"
| "votes_op _ = False"

fun is_deregister :: "dsi_op \<Rightarrow> bool" where
  "is_deregister (Op_deregister _) = True"
| "is_deregister _ = False"

subsection \<open>Reference counts of the clients\<close>

text \<open>
  The two clocks of a client behave alike: a positive count means the vote is \<open>ON\<close>. The count is
  bounded by the number of calls made, so that it cannot wrap around before as many calls as a
  32-bit counter can count.
\<close>

definition vote_ok :: "nat \<Rightarrow> u32 \<Rightarrow> dsi_clk_state \<Rightarrow> bool" where
  "vote_ok n r s \<longleftrightarrow> (r \<noteq> 0 \<longleftrightarrow> s = DSI_CLK_ON) \<and> unat r \<le> n"

lemma unat_plus_one: "unat r < 2 ^ 32 - 1 \<Longrightarrow> unat (r + 1) = unat r + 1" for r :: u32
  by (simp add: unat_word_ariths)

lemma vote_ok_mono: "vote_ok n r s \<Longrightarrow> n \<le> n' \<Longrightarrow> vote_ok n' r s"
  by (auto simp: vote_ok_def)

lemma req_on_ok:
  assumes "vote_ok n r s" and "n < 2 ^ 32 - 1" and "req_on r s = (r', s', ch)"
  shows "vote_ok (Suc n) r' s'"
proof -
  from assms(1,2) have "unat (r + 1) = unat r + 1"
    by (intro unat_plus_one) (auto simp: vote_ok_def)
  moreover from this have "r + 1 \<noteq> 0"
    by (metis add_is_0 one_neq_zero unat_0)
  ultimately show ?thesis
    using assms(1,3) by (auto simp: vote_ok_def req_on_def split: if_splits)
qed

lemma req_off_ok:
  assumes "vote_ok n r s" and "st \<noteq> DSI_CLK_ON" and "req_off st r s = (r', s', ch)"
  shows "vote_ok (Suc n) r' s'"
proof (cases "r = 0")
  case True
  with assms show ?thesis
    by (auto simp: vote_ok_def req_off_def split: if_splits)
next
  case False
  then have "unat (r - 1) = unat r - 1"
    by (metis unat_minus_one)
  with False assms show ?thesis
    by (auto simp: vote_ok_def req_off_def Let_def split: if_splits)
qed

lemma req_one_ok:
  "vote_ok n r s \<Longrightarrow> n < 2 ^ 32 - 1 \<Longrightarrow> req_one st r s = (r', s', ch) \<Longrightarrow> vote_ok (Suc n) r' s'"
  by (auto simp: req_one_def split: if_splits intro: req_on_ok req_off_ok)

definition client_ok :: "nat \<Rightarrow> dsi_clk_client_info \<Rightarrow> bool" where
  "client_ok n c \<longleftrightarrow> vote_ok n (core_refcount c) (cl_core_clk_state c)
     \<and> vote_ok n (link_refcount c) (cl_link_clk_state c)"

lemma client_ok_mono: "client_ok n c \<Longrightarrow> n \<le> n' \<Longrightarrow> client_ok n' c"
  by (auto simp: client_ok_def intro: vote_ok_mono)

lemma req_client_ok:
  "client_ok n c \<Longrightarrow> n < 2 ^ 32 - 1 \<Longrightarrow> client_ok (Suc n) (fst (req_client clk st c))"
  by (auto simp: req_client_def client_ok_def Let_def split: prod.splits
      intro: req_one_ok vote_ok_mono)

definition clients_ok :: "nat \<Rightarrow> dsi_clk_mngr \<Rightarrow> bool" where
  "clients_ok n m \<longleftrightarrow> (\<forall>c \<in> snd ` set (client_list m). client_ok n c)"

lemma clients_ok_mono: "clients_ok n m \<Longrightarrow> n \<le> n' \<Longrightarrow> clients_ok n' m"
  by (auto simp: clients_ok_def intro: client_ok_mono)

lemma clients_ok_put: "clients_ok n m \<Longrightarrow> client_ok n c \<Longrightarrow> clients_ok n (put_client m h c)"
  by (auto simp: clients_ok_def put_client_def)

lemma clients_ok_get: "clients_ok n m \<Longrightarrow> get_client m h = Some c \<Longrightarrow> client_ok n c"
  by (auto simp: clients_ok_def get_client_def dest!: map_of_SomeD)

lemma clients_ok_recheck:
  "dsi_recheck_clk_state env m w = Some (rc, m', w') \<Longrightarrow> clients_ok n m' = clients_ok n m"
  by (auto simp: clients_ok_def dest!: recheck_frame)

lemma set_list_del: "set (list_del_client h cs) \<subseteq> set cs"
  by (induction h cs rule: list_del_client.induct) auto

text \<open>The client list along the operations.\<close>

lemma put_client_keys: "map fst (client_list (put_client m h c)) = map fst (client_list m)"
  by (simp add: put_client_def comp_def case_prod_beta)

lemma list_del_put:
  assumes "distinct (map fst (client_list m))"
  shows "list_del_client h (client_list (put_client m h c))
    = filter (\<lambda>(h', _). h' \<noteq> h) (client_list m)"
proof -
  have "list_del_client h (map (\<lambda>(h', c'). if h' = h then (h', c) else (h', c')) cs)
      = filter (\<lambda>(h', _). h' \<noteq> h) cs" if "distinct (map fst cs)" for cs
    using that
  proof (induction cs)
    case (Cons x cs)
    obtain h' c' where [simp]: "x = (h', c')" by (cases x)
    show ?case
    proof (cases "h' = h")
      case True
      with Cons.prems have ne: "\<forall>(a, b) \<in> set cs. a \<noteq> h" by force
      then have "map (\<lambda>(h', c'). if h' = h then (h', c) else (h', c')) cs = cs"
        by (intro map_idI) auto
      moreover from ne have "filter (\<lambda>(h', _). h' \<noteq> h) cs = cs"
        by (intro filter_True) auto
      ultimately show ?thesis using True by simp
    qed (use Cons in simp)
  qed simp
  with assms show ?thesis by (simp add: put_client_def)
qed

text \<open>The ways through a request and a deregistration.\<close>

lemma req_state_cases:
  assumes "dsi_clk_req_state env m client clk st w = Some (rc, m', w')"
  obtains (rejected) "rc = - EINVAL" "m' = m" "w' = w"
  | (unchanged) h c s c' where "client = Some h" "get_client m h = Some c" "clk_state_of st = Some s"
      "req_client clk s c = (c', False)" "rc = 0" "m' = put_client m h c'" "w' = w"
  | (changed) h c s c' where "client = Some h" "get_client m h = Some c" "clk_state_of st = Some s"
      "req_client clk s c = (c', True)"
      "dsi_recheck_clk_state env (put_client m h c') w = Some (rc, m', w')"
proof (cases "\<exists>h s c. client = Some h \<and> clk_state_of st = Some s \<and> get_client m h = Some c
    \<and> \<not> (clk = 0 \<or> clk > DSI_CORE_CLK OR DSI_LINK_CLK)")
  case True
  then obtain h s c where go: "client = Some h" "clk_state_of st = Some s" "get_client m h = Some c"
    "\<not> (clk = 0 \<or> clk > DSI_CORE_CLK OR DSI_LINK_CLK)" by blast
  obtain c' ch where req: "req_client clk s c = (c', ch)" by fastforce
  from assms go have "(if ch then dsi_recheck_clk_state env (put_client m h c') w
      else Some (0, put_client m h c', w)) = Some (rc, m', w')"
    by (simp add: dsi_clk_req_state_def req Let_def)
  with go req show ?thesis
    by (cases ch) (simp_all add: unchanged changed)
next
  case False
  with assms show ?thesis
    by (intro rejected) (simp_all add: dsi_clk_req_state_def split: option.splits if_splits bind_splits)
qed

definition silent :: "dsi_clk_client_info \<Rightarrow> dsi_clk_client_info" where
  "silent c = c\<lparr>cl_core_clk_state := DSI_CLK_OFF, cl_link_clk_state := DSI_CLK_OFF\<rparr>"

lemma deregister_cases:
  assumes "dsi_deregister_clk_handle env m client w = Some (rc, m', w')"
  obtains (rejected) "rc = - EINVAL" "m' = m" "w' = w"
  | (failed) h c where "dsi_recheck_clk_state env (put_client m h (silent c)) w = Some (rc, m', w')" "rc \<noteq> 0"
  | (removed) h c m2 where "dsi_recheck_clk_state env (put_client m h (silent c)) w = Some (0, m2, w')"
      "rc = 0" "m' = m2\<lparr>client_list := list_del_client h (client_list m2)\<rparr>"
proof (cases client)
  case None
  with assms show ?thesis by (simp add: dsi_deregister_clk_handle_def rejected)
next
  case (Some h)
  with assms obtain c rc2 m2 w2 where
    rc: "dsi_recheck_clk_state env (put_client m h (silent c)) w = Some (rc2, m2, w2)"
    and res: "(if rc2 \<noteq> 0 then (rc2, m2, w2)
      else (rc2, m2\<lparr>client_list := list_del_client h (client_list m2)\<rparr>, w2)) = (rc, m', w')"
    unfolding dsi_deregister_clk_handle_def silent_def
    by (simp split: bind_splits prod.splits if_splits)
  from rc res show ?thesis
    by (cases "rc2 = 0") (simp_all add: removed failed)
qed

lemma req_state_clients:
  assumes "dsi_clk_req_state env m client clk st w = Some (rc, m', w')"
  shows "client_list m' = client_list m \<or>
    (\<exists>h c s. get_client m h = Some c \<and>
       client_list m' = client_list (put_client m h (fst (req_client clk s c))))"
  using assms
proof (cases rule: req_state_cases)
  case (unchanged h c s c')
  then have "client_list m' = client_list (put_client m h (fst (req_client clk s c)))" by simp
  with unchanged(2) show ?thesis by blast
next
  case (changed h c s c')
  have "client_list m' = client_list (put_client m h (fst (req_client clk s c)))"
    using recheck_frame [OF changed(5)] changed(4) by auto
  with changed(2) show ?thesis by blast
qed simp

lemma deregister_clients:
  assumes "dsi_deregister_clk_handle env m client w = Some (0, m', w')"
    and "distinct (map fst (client_list m))"
  shows "\<exists>h. client_list m' = filter (\<lambda>(h', _). h' \<noteq> h) (client_list m)"
  using assms(1)
proof (cases rule: deregister_cases)
  case (removed h c m2)
  then show ?thesis
    using recheck_frame [OF removed(1)] by (auto simp: list_del_put [OF assms(2)])
qed simp_all

text \<open>
  The remaining calls change neither clients nor states: only the splash flag and the frequencies
  stored beside the link clocks.
\<close>

definition link_sets :: "dsi_clk_mngr \<Rightarrow> (dsi_link_hs_clk_info \<times> dsi_link_lp_clk_info) list" where
  "link_sets m = map (\<lambda>l. (hs_clks l, lp_clks l)) (link_clks m)"

definition same_but_rates :: "dsi_clk_mngr \<Rightarrow> dsi_clk_mngr \<Rightarrow> bool" where
  "same_but_rates m m' \<longleftrightarrow> (\<exists>ls sp. m' = m\<lparr>link_clks := ls, is_cont_splash_enabled := sp\<rparr>)
     \<and> link_sets m' = link_sets m"

lemma same_but_rates_refl: "same_but_rates m m"
  by (cases m) (auto simp: same_but_rates_def)

lemma same_but_rates_trans:
  "same_but_rates m m' \<Longrightarrow> same_but_rates m' m'' \<Longrightarrow> same_but_rates m m''"
  by (cases m) (auto simp: same_but_rates_def)

lemma same_but_rates_freq: "same_but_rates m (upd_freq i f m)"
proof -
  have "map (\<lambda>l. (hs_clks l, lp_clks l)) (ls[i := (ls ! i)\<lparr>freq := v\<rparr>])
      = map (\<lambda>l. (hs_clks l, lp_clks l)) ls" for ls v
    by (simp add: map_update) (metis (no_types, lifting) list_update_beyond list_update_id
        length_map not_less nth_map)
  then show ?thesis
    by (cases m) (auto simp: same_but_rates_def upd_freq_def link_sets_def)
qed

definition quiet_op :: "dsi_op \<Rightarrow> bool" where
  "quiet_op op \<longleftrightarrow> \<not> votes_op op \<and> (\<forall>n h. op \<noteq> Op_register n h)"

lemma quiet_step:
  assumes "dsi_step env op (m, w) rc (m', w')" and "quiet_op op"
  shows "same_but_rates m m'"
  using assms
proof (cases rule: dsi_step.cases)
  case force_update
  then show ?thesis
    by (auto simp: dsi_display_link_clk_force_update_def same_but_rates_refl
        split: if_splits bind_splits prod.splits)
next
  case splash
  then show ?thesis
    by (cases m) (auto simp: dsi_display_clk_mngr_update_splash_status_def same_but_rates_def
        link_sets_def)
next
  case link_freq
  then show ?thesis
    by (auto simp: dsi_clk_set_link_frequencies_def same_but_rates_refl same_but_rates_freq
        split: if_splits option.splits)
next
  case pixel_rate
  then show ?thesis
    by (auto simp: dsi_clk_set_pixel_clk_rate_def Let_def same_but_rates_refl same_but_rates_freq
        split: if_splits bind_splits prod.splits)
next
  case byte_rate
  then show ?thesis
    by (auto simp: dsi_clk_set_byte_clk_rate_def Let_def same_but_rates_refl
        split: if_splits bind_splits prod.splits
        intro: same_but_rates_freq same_but_rates_trans [OF same_but_rates_freq])
qed (auto simp: quiet_op_def)

lemma same_but_rates_fields:
  assumes "same_but_rates m m'"
  shows "client_list m' = client_list m" "core_clk_state m' = core_clk_state m"
    "link_clk_state m' = link_clk_state m" "core_clks m' = core_clks m"
    "dsi_ctrl_count m' = dsi_ctrl_count m" "master_ndx m' = master_ndx m"
    "pre_clkon_cb m' = pre_clkon_cb m" "length (link_clks m') = length (link_clks m)"
    "i < length (link_clks m) \<Longrightarrow> hs_clks (link_clks m' ! i) = hs_clks (link_clks m ! i)"
    "i < length (link_clks m) \<Longrightarrow> lp_clks (link_clks m' ! i) = lp_clks (link_clks m ! i)"
proof -
  from assms show len: "length (link_clks m') = length (link_clks m)"
    by (metis (no_types, lifting) length_map link_sets_def same_but_rates_def)
  from assms have "link_sets m' ! i = link_sets m ! i" by (simp add: same_but_rates_def)
  then show "i < length (link_clks m) \<Longrightarrow> hs_clks (link_clks m' ! i) = hs_clks (link_clks m ! i)"
    and "i < length (link_clks m) \<Longrightarrow> lp_clks (link_clks m' ! i) = lp_clks (link_clks m ! i)"
    using len by (simp_all add: link_sets_def)
qed (use assms in \<open>auto simp: same_but_rates_def\<close>)

lemma dsi_step_cases:
  assumes "dsi_step env op (m, w) rc (m', w')"
  obtains (register) name h where "op = Op_register name h"
      "m' = m\<lparr>client_list := (h, new_client name) # client_list m\<rparr>" "w' = w" "rc = 0"
      "h \<notin> fst ` set (client_list m)"
  | (request) client clk st where "op = Op_request client clk st"
      "dsi_clk_req_state env m client clk st w = Some (rc, m', w')"
  | (deregister) client where "op = Op_deregister client"
      "dsi_deregister_clk_handle env m client w = Some (rc, m', w')"
  | (quiet) "quiet_op op" "same_but_rates m m'"
  using assms
proof (cases rule: dsi_step.cases)
  case register
  then show ?thesis using that(1) by (auto simp: dsi_register_clk_handle_def)
qed (use that quiet_step [OF assms] in \<open>auto simp: quiet_op_def\<close>)

definition votes_inv :: "nat \<Rightarrow> dsi_clk_mngr \<Rightarrow> bool" where
  "votes_inv n m \<longleftrightarrow> clients_ok n m \<and> distinct (map fst (client_list m))"

lemma votes_inv_cong: "client_list m = client_list m' \<Longrightarrow> votes_inv n m = votes_inv n m'"
  by (simp add: votes_inv_def clients_ok_def)

lemma votes_inv_same_clients:
  "votes_inv n m \<Longrightarrow> client_list m' = client_list m \<Longrightarrow> votes_inv (Suc n) m'"
  by (auto simp: votes_inv_def clients_ok_def intro: client_ok_mono)

lemma dsi_step_votes_inv:
  assumes "dsi_step env op (m, w) rc (m', w')" and "votes_inv n m" and "n < 2 ^ 32 - 1"
    and "is_deregister op \<Longrightarrow> rc = 0"
  shows "votes_inv (Suc n) m'"
  using assms(1)
proof (cases rule: dsi_step_cases)
  case (register name h)
  moreover have "client_ok (Suc n) (new_client name)"
    by (simp add: new_client_def client_ok_def vote_ok_def)
  ultimately show ?thesis
    using assms(2) by (auto simp: votes_inv_def clients_ok_def intro: client_ok_mono)
next
  case (request client clk st)
  note cl = req_state_clients [OF request(2)]
  have "votes_inv (Suc n) (put_client m h (fst (req_client clk s c)))" if "get_client m h = Some c" for h c s
    using assms(2,3) that
    by (auto simp: votes_inv_def put_client_keys intro!: clients_ok_put req_client_ok
        elim: clients_ok_mono clients_ok_get)
  then show ?thesis
    using cl votes_inv_same_clients [OF assms(2), of m'] votes_inv_cong [of m' _ "Suc n"] by blast
next
  case (deregister client)
  with assms(4) have "dsi_deregister_clk_handle env m client w = Some (0, m', w')" by simp
  from deregister_clients [OF this] assms(2) obtain h where
    "client_list m' = filter (\<lambda>(h', _). h' \<noteq> h) (client_list m)"
    by (auto simp: votes_inv_def)
  with assms(2) show ?thesis
    by (auto simp: votes_inv_def clients_ok_def distinct_map_filter)
      (metis client_ok_mono le_SucI order_refl snd_conv)
next
  case quiet
  then show ?thesis
    using votes_inv_same_clients [OF assms(2)] same_but_rates_fields(1) by blast
qed

lemma dsi_run_votes_inv:
  "dsi_run env ops s \<Longrightarrow> length ops < 2 ^ 32 \<Longrightarrow>
     \<forall>(op, rc) \<in> set ops. is_deregister op \<longrightarrow> rc = 0 \<Longrightarrow> votes_inv (length ops) (fst s)"
proof (induction rule: dsi_run.induct)
  case (start info m)
  then show ?case
    by (auto simp: dsi_display_clk_mngr_register_def votes_inv_def clients_ok_def Let_def
        split: if_splits)
next
  case (step ops s op rc s')
  then have "votes_inv (length ops) (fst s)" by simp
  with step show ?case
    using dsi_step_votes_inv [of env op "fst s" "snd s" rc "fst s'" "snd s'" "length ops"] by simp
qed

subsection \<open>The manager follows the votes\<close>

definition synced :: "dsi_clk_mngr \<Rightarrow> bool" where
  "synced m \<longleftrightarrow> core_clk_state m = new_core_clk_state m \<and> link_clk_state m = new_link_clk_state m"

lemma new_state_cong:
  "client_list m' = client_list m \<Longrightarrow> new_core_clk_state m' = new_core_clk_state m"
  "client_list m' = client_list m \<Longrightarrow> new_link_clk_state m' = new_link_clk_state m"
  by (simp_all add: new_core_clk_state_def new_link_clk_state_def)

lemma recheck_synced: "dsi_recheck_clk_state env m w = Some (0, m', w') \<Longrightarrow> synced m'"
  by (auto simp: synced_def new_core_clk_state_def new_link_clk_state_def dest!: recheck_ok)

text \<open>A request that does not report a change leaves both votes of the client as they were.\<close>

lemma req_one_unchanged: "req_one st r s = (r', s', False) \<Longrightarrow> s' = s"
  by (auto simp: req_one_def req_on_def req_off_def Let_def split: if_splits)

lemma req_client_unchanged:
  "req_client clk st c = (c', False) \<Longrightarrow>
     cl_core_clk_state c' = cl_core_clk_state c \<and> cl_link_clk_state c' = cl_link_clk_state c"
  by (auto simp: req_client_def Let_def split: prod.splits if_splits dest!: req_one_unchanged)

lemma put_client_new_state:
  assumes "distinct (map fst (client_list m))" and "get_client m h = Some c"
    and "cl_core_clk_state c' = cl_core_clk_state c" and "cl_link_clk_state c' = cl_link_clk_state c"
  shows "new_core_clk_state (put_client m h c') = new_core_clk_state m"
    and "new_link_clk_state (put_client m h c') = new_link_clk_state m"
proof -
  have one: "c'' = c" if "(h, c'') \<in> set (client_list m)" for c''
    using assms(1,2) that by (simp add: get_client_def)
  have "map (cl_core_clk_state \<circ> snd) (client_list (put_client m h c'))
      = map (cl_core_clk_state \<circ> snd) (client_list m)"
    "map (cl_link_clk_state \<circ> snd) (client_list (put_client m h c'))
      = map (cl_link_clk_state \<circ> snd) (client_list m)"
    using assms(3,4) one by (auto simp: put_client_def)
  then show "new_core_clk_state (put_client m h c') = new_core_clk_state m"
    and "new_link_clk_state (put_client m h c') = new_link_clk_state m"
    by (simp_all add: new_core_clk_state_def new_link_clk_state_def)
qed

lemma put_client_states [simp]:
  "core_clk_state (put_client m h c) = core_clk_state m"
  "link_clk_state (put_client m h c) = link_clk_state m"
  by (simp_all add: put_client_def)

lemma req_state_synced:
  assumes "dsi_clk_req_state env m client clk st w = Some (0, m', w')" and "synced m"
    and "distinct (map fst (client_list m))"
  shows "synced m'"
  using assms(1)
proof (cases rule: req_state_cases)
  case (unchanged h c s c')
  then show ?thesis
    using assms(2) req_client_unchanged [OF unchanged(4)]
    by (simp add: synced_def put_client_new_state [OF assms(3) unchanged(2)])
qed (use assms(2) recheck_synced in auto)

lemma filter_idle_votes:
  assumes "\<And>x. x \<in> set cs \<Longrightarrow> fst x = h \<Longrightarrow> f (snd x) = DSI_CLK_OFF"
  shows "strongest_vote DSI_CLK_OFF (map (f \<circ> snd) (filter (\<lambda>(h', _). h' \<noteq> h) cs))
    = strongest_vote DSI_CLK_OFF (map (f \<circ> snd) cs)"
  by (rule dsi_votes.arb_idle_vote) (use assms in \<open>auto simp: image_iff\<close>)

lemma filter_put:
  "filter (\<lambda>(h', _). h' \<noteq> h) (client_list (put_client m h c))
     = filter (\<lambda>(h', _). h' \<noteq> h) (client_list m)"
proof -
  have "filter (\<lambda>(h', _). h' \<noteq> h) (map (\<lambda>(h', c'). if h' = h then (h', c) else (h', c')) cs)
      = filter (\<lambda>(h', _). h' \<noteq> h) cs" for cs
    by (induction cs) auto
  then show ?thesis by (simp add: put_client_def)
qed

lemma put_client_at: "x \<in> set (client_list (put_client m h c)) \<Longrightarrow> fst x = h \<Longrightarrow> snd x = c"
  by (cases x) (auto simp: put_client_def split: if_splits)

lemma deregister_synced:
  assumes "dsi_deregister_clk_handle env m client w = Some (0, m', w')"
    and "distinct (map fst (client_list m))"
  shows "synced m'"
proof -
  obtain h c m2 where
    m2: "dsi_recheck_clk_state env (put_client m h (silent c)) w = Some (0, m2, w')"
    (is "dsi_recheck_clk_state env ?m1 w = _")
    and m': "m' = m2\<lparr>client_list := list_del_client h (client_list m2)\<rparr>"
    using assms(1) by (cases rule: deregister_cases) auto
  have cl: "client_list m2 = client_list ?m1"
    using recheck_ok [OF m2] by simp
  have cl': "client_list m' = filter (\<lambda>(h', _). h' \<noteq> h) (client_list m2)"
    by (simp add: m' cl list_del_put [OF assms(2)] filter_put)
  have off: "cl_core_clk_state (snd x) = DSI_CLK_OFF \<and> cl_link_clk_state (snd x) = DSI_CLK_OFF"
    if "x \<in> set (client_list m2)" "fst x = h" for x
    using put_client_at [of x m h] that by (simp add: cl silent_def)
  have "new_core_clk_state m' = new_core_clk_state m2" "new_link_clk_state m' = new_link_clk_state m2"
    unfolding new_core_clk_state_def new_link_clk_state_def cl'
    by (rule filter_idle_votes, simp add: off)+
  with recheck_synced [OF m2] show ?thesis
    by (simp add: synced_def m')
qed

lemma dsi_step_synced:
  assumes "dsi_step env op (m, w) rc (m', w')" and "votes_op op \<Longrightarrow> rc = 0"
    and "synced m" and "distinct (map fst (client_list m))"
  shows "synced m'"
  using assms(1)
proof (cases rule: dsi_step_cases)
  case (register name h)
  then have "new_core_clk_state m' = new_core_clk_state m" "new_link_clk_state m' = new_link_clk_state m"
    by (simp_all add: new_core_clk_state_def new_link_clk_state_def new_client_def)
  with register assms(3) show ?thesis by (simp add: synced_def)
next
  case (request client clk st)
  with assms show ?thesis by (auto intro: req_state_synced)
next
  case (deregister client)
  with assms show ?thesis by (auto intro: deregister_synced)
next
  case quiet
  note same = same_but_rates_fields(1-3) [OF quiet(2)]
  with assms(3) show ?thesis
    by (simp add: synced_def new_state_cong [OF same(1)])
qed

text \<open>The address of a client identifies it, in every run.\<close>

lemma dsi_step_distinct:
  assumes "dsi_step env op (m, w) rc (m', w')" and "distinct (map fst (client_list m))"
  shows "distinct (map fst (client_list m'))"
  using assms(1)
proof (cases rule: dsi_step_cases)
  case (deregister client)
  from deregister(2) show ?thesis
    by (cases rule: deregister_cases)
      (use assms(2) in \<open>auto simp: list_del_put put_client_keys distinct_map_filter dest!: recheck_frame\<close>)
next
  case (request client clk st)
  then show ?thesis
    using assms(2) req_state_clients [OF request(2)] by (auto simp: put_client_keys)
next
  case quiet
  then show ?thesis
    using assms(2) same_but_rates_fields(1) by metis
qed (use assms(2) in simp)

lemma dsi_register_start:
  assumes "dsi_display_clk_mngr_register (Some info) True = Inr m"
  shows "client_list m = []" "core_clk_state m = DSI_CLK_OFF" "link_clk_state m = DSI_CLK_OFF"
    "length (core_clks m) = MAX_DSI_CTRL" "length (link_clks m) = MAX_DSI_CTRL"
    "dsi_ctrl_count m \<le> MAX_DSI_CTRL"
  using assms by (auto simp: dsi_display_clk_mngr_register_def Let_def split: if_splits)

lemma dsi_run_distinct: "dsi_run env ops s \<Longrightarrow> distinct (map fst (client_list (fst s)))"
proof (induction rule: dsi_run.induct)
  case (step ops s op rc s')
  then show ?case using dsi_step_distinct [of env op "fst s" "snd s" rc "fst s'" "snd s'"] by simp
qed (simp add: dsi_register_start)

lemma dsi_run_synced:
  "dsi_run env ops s \<Longrightarrow> \<forall>(op, rc) \<in> set ops. votes_op op \<longrightarrow> rc = 0 \<Longrightarrow> synced (fst s)"
proof (induction rule: dsi_run.induct)
  case (start info m)
  then show ?case
    by (simp add: synced_def new_core_clk_state_def new_link_clk_state_def dsi_register_start)
next
  case (step ops s op rc s')
  then show ?case
    using dsi_step_synced [of env op "fst s" "snd s" rc "fst s'" "snd s'"]
      dsi_run_distinct [OF step(1)] by simp
qed

end
