(* ===== verification/Dsi_Clk_Counts.thy ===== *)
theory Dsi_Clk_Counts
  imports Dsi_Clk_Inv
begin

section \<open>DSI clock manager: clock counts follow the manager's state\<close>

text \<open>
  While every request succeeds, the enable count of each clock in the clock framework is what the
  core and link state of the manager say: the load of the core sets while the core state is \<open>ON\<close>
  plus the load of the link sets while the link state is \<open>ON\<close>. The gated link state is the
  exception: leaving it towards \<open>OFF\<close> releases the link clocks although they are not running.
\<close>

definition core_total :: "nat \<Rightarrow> dsi_clk_mngr \<Rightarrow> int" where
  "core_total k m = ctrl_total (core_load k) (core_clks m) (dsi_ctrl_count m) (master_ndx m)"

definition link_total :: "nat \<Rightarrow> dsi_clk_mngr \<Rightarrow> int" where
  "link_total k m = ctrl_total (\<lambda>l. lp_load k l + hs_load k l) (link_clks m) (dsi_ctrl_count m) (master_ndx m)"

definition counts_ok :: "nat \<Rightarrow> dsi_clk_mngr \<Rightarrow> dsi_trace \<Rightarrow> bool" where
  "counts_ok k m w \<longleftrightarrow> trace_sum (en_delta k) w
     = (if core_clk_state m = DSI_CLK_ON then core_total k m else 0)
     + (if link_clk_state m = DSI_CLK_ON then link_total k m else 0)"

subsection \<open>Sums along the steps of a state change\<close>

lemma total_add:
  "ctrl_total f xs n m + ctrl_total g xs n m = ctrl_total (\<lambda>x. f x + g x) xs n m"
  by (simp add: ctrl_total_def sum_list_addf)

lemma total_split:
  "ctrl_total (link_load DSI_LINK_LP_CLK k) ls n m + ctrl_total (link_load DSI_LINK_HS_CLK k) ls n m
     = ctrl_total (\<lambda>l. lp_load k l + hs_load k l) ls n m"
  by (simp add: total_add link_load_def)

lemma total_none [simp]: "ctrl_total (link_load 0 k) ls n m = 0"
  by (simp add: ctrl_total_def link_load_def)

lemma total_both:
  "ctrl_total (link_load (DSI_LINK_LP_CLK OR DSI_LINK_HS_CLK) k) ls n m
     = ctrl_total (\<lambda>l. lp_load k l + hs_load k l) ls n m"
  by (simp add: link_load_def dsi_flag_defs ctrl_total_def)

lemma opt_cb_sum:
  "opt_cb env b c rc w = (rc', w') \<Longrightarrow> (\<And>r. g (c, r) = 0) \<Longrightarrow> trace_sum g w' = trace_sum g w"
  by (auto simp: opt_cb_def dest: ext_sum [where f = g] split: if_splits)

lemma link_state_on_sum:
  assumes "dsi_clk_update_link_clk_state env m ls t st True w = Some (0, w')"
  shows "trace_sum (en_delta k) w' = trace_sum (en_delta k) w
    + ctrl_total (link_load t k) ls (dsi_ctrl_count m) (master_ndx m)"
  using assms unfolding dsi_clk_update_link_clk_state_def
  by (auto simp: Let_def split: prod.splits if_splits bind_splits
      dest!: opt_cb_sum [where g = "en_delta k"] display_link_enable_ok [where k = k])

lemma link_state_off_sum:
  assumes "dsi_clk_update_link_clk_state env m ls t st False w = Some (0, w')"
  shows "trace_sum (en_delta k) w' = trace_sum (en_delta k) w
    - ctrl_total (link_load t k) ls (dsi_ctrl_count m) (master_ndx m)"
  using assms unfolding dsi_clk_update_link_clk_state_def
  by (auto simp: Let_def split: prod.splits if_splits bind_splits
      dest!: opt_cb_sum [where g = "en_delta k"] display_link_disable_sum(2) [where k = k])

lemma en_pe_weight: "pe_weight k (en_delta k)"
  by (simp add: pe_weight_def)

lemmas core_enable_en = display_core_enable_sum(1) [OF _ en_pe_weight]
lemmas core_disable_en = display_core_disable_sum [OF _ en_pe_weight]

lemma upd_core_on_sum:
  assumes "upd_core_on env m cs c_state w = Some (Inr (rc, f, m', w'))"
    and "cs \<noteq> None \<Longrightarrow> cs = Some (core_clks m)"
  shows "trace_sum (en_delta k) w' = trace_sum (en_delta k) w
    + (if cs \<noteq> None \<and> c_state = DSI_CLK_ON then core_total k m else 0)"
  using assms unfolding upd_core_on_def
  by (auto simp: Let_def core_total_def split: option.splits prod.splits if_splits bind_splits
      dest!: opt_cb_sum [where g = "en_delta k"] core_enable_en [where k = k]
        ext_sum [where f = "en_delta k"])

lemma upd_link_on_sum:
  assumes "upd_link_on env m ls l_state w = Some (Inr (rc, f, m', w'))"
  shows "trace_sum (en_delta k) w' = trace_sum (en_delta k) w
    + ctrl_total (\<lambda>l. lp_load k l + hs_load k l) ls (dsi_ctrl_count m) (master_ndx m) \<and> \<not> f"
  using assms unfolding upd_link_on_def total_split [symmetric]
  by (auto split: prod.splits if_splits bind_splits dest!: link_state_on_sum [where k = k])

lemma link_regate_sum:
  assumes "link_regate env m ls l_state w = Some (Inr (rc, f, m', w'))"
  shows "trace_sum (en_delta k) w' = trace_sum (en_delta k) w + (if f then core_total k m else 0)"
    and "f \<Longrightarrow> core_clk_state m \<noteq> DSI_CLK_ON \<and> link_clk_state m = DSI_CLK_EARLY_GATE \<and> l_state = DSI_CLK_OFF"
  using assms unfolding link_regate_def
  by (auto simp: core_total_def split: prod.splits if_splits bind_splits
      dest!: display_link_enable_ok [where k = k] core_enable_en [where k = k])

lemma link_core_release_sum:
  assumes "link_core_release env m cs c_state r f w = Some (Inr (rc, f', m', w'))"
  shows "trace_sum (en_delta k) w' + (if f then core_total k m else 0)
      = trace_sum (en_delta k) w + (if f' then core_total k m else 0)"
    and "f' \<Longrightarrow> f \<and> cs \<noteq> None \<and> c_state = DSI_CLK_OFF \<and> core_clk_state m = DSI_CLK_EARLY_GATE"
  using assms unfolding link_core_release_def
  by (auto simp: core_total_def split: prod.splits if_splits bind_splits
      dest!: core_disable_en [where k = k])

lemma upd_link_off_sum:
  assumes "upd_link_off env m cs c_state ls l_state w = Some (Inr (rc, f, m', w'))"
  shows "trace_sum (en_delta k) w' = trace_sum (en_delta k) w
      - ctrl_total (\<lambda>l. lp_load k l + hs_load k l) ls (dsi_ctrl_count m) (master_ndx m)
      + (if f then core_total k m else 0)"
    and "f \<Longrightarrow> cs \<noteq> None \<and> c_state = DSI_CLK_OFF \<and> core_clk_state m = DSI_CLK_EARLY_GATE"
proof -
  obtain r1 f1 w1 w2 w3 where
    regate: "link_regate env m ls l_state w = Some (Inr (r1, f1, m, w1))"
    and hs: "dsi_clk_update_link_clk_state env m ls DSI_LINK_HS_CLK l_state False w1 = Some (0, w2)"
    and lp: "dsi_clk_update_link_clk_state env m ls DSI_LINK_LP_CLK l_state False w2 = Some (0, w3)"
    and rel: "link_core_release env m cs c_state 0 f1 w3 = Some (Inr (rc, f, m', w'))"
    using assms unfolding upd_link_off_def
    by (auto split: prod.splits if_splits bind_splits sum.splits dest: link_regate_frame(1))
  show "trace_sum (en_delta k) w' = trace_sum (en_delta k) w
      - ctrl_total (\<lambda>l. lp_load k l + hs_load k l) ls (dsi_ctrl_count m) (master_ndx m)
      + (if f then core_total k m else 0)"
    using link_regate_sum(1) [OF regate, of k] link_state_off_sum [OF hs, of k]
      link_state_off_sum [OF lp, of k] link_core_release_sum(1) [OF rel, of k]
    by (simp add: total_split [symmetric])
  show "f \<Longrightarrow> cs \<noteq> None \<and> c_state = DSI_CLK_OFF \<and> core_clk_state m = DSI_CLK_EARLY_GATE"
    using link_core_release_sum(2) [OF rel] by blast
qed

lemma upd_core_off_sum:
  assumes "upd_core_off env m cs c_state r f w = Some (0, m', w')"
    and "cs \<noteq> None \<Longrightarrow> cs = Some (core_clks m)"
  shows "trace_sum (en_delta k) w' = trace_sum (en_delta k) w
    + (if cs \<noteq> None \<and> c_state = DSI_CLK_OFF \<and> core_clk_state m = DSI_CLK_EARLY_GATE \<and> \<not> f
       then core_total k m else 0)
    - (if cs \<noteq> None \<and> c_state \<noteq> DSI_CLK_ON then core_total k m else 0)"
  using assms unfolding upd_core_off_def
  by (auto simp: Let_def core_total_def split: option.splits prod.splits if_splits bind_splits
      dest!: opt_cb_sum [where g = "en_delta k"] core_enable_en [where k = k]
        core_disable_en [where k = k])

subsection \<open>A state change keeps the counts right\<close>

lemma totals_upd [simp]:
  "core_total k (m\<lparr>core_clk_state := a\<rparr>) = core_total k m"
  "core_total k (m\<lparr>link_clk_state := a\<rparr>) = core_total k m"
  "core_total k (m\<lparr>client_list := x\<rparr>) = core_total k m"
  "link_total k (m\<lparr>core_clk_state := a\<rparr>) = link_total k m"
  "link_total k (m\<lparr>link_clk_state := a\<rparr>) = link_total k m"
  "link_total k (m\<lparr>client_list := x\<rparr>) = link_total k m"
  by (simp_all add: core_total_def link_total_def)

lemma upd_link_sum:
  assumes "upd_link env m cs c_state ls l_state r w = Some (Inr (rc, f, m', w'))"
    and "ls \<noteq> None \<Longrightarrow> ls = Some (link_clks m)"
  shows "trace_sum (en_delta k) w' = trace_sum (en_delta k) w
      + (if ls = None then 0 else if l_state = DSI_CLK_ON then link_total k m else - link_total k m)
      + (if f then core_total k m else 0)"
    and "f \<Longrightarrow> cs \<noteq> None \<and> c_state = DSI_CLK_OFF \<and> core_clk_state m = DSI_CLK_EARLY_GATE"
  using assms unfolding upd_link_def link_total_def
  by (auto split: option.splits if_splits bind_splits prod.splits sum.splits
      dest: upd_link_on_sum [where k = k] upd_link_off_sum(1) [where k = k] upd_link_off_sum(2))

text \<open>
  The core state never goes from \<open>OFF\<close> to \<open>EARLY_GATE\<close> in a run, and the link state does not
  take part in gating unless the clock is in no link set.
\<close>

lemma dsi_update_counts:
  assumes upd: "dsi_update_clk_state env m cs c_state ls l_state w = Some (0, m', w')"
    and cs: "cs = (if c_state \<noteq> core_clk_state m then Some (core_clks m) else None)"
    and ls: "ls = (if l_state \<noteq> link_clk_state m then Some (link_clks m) else None)"
    and core: "\<not> (core_clk_state m = DSI_CLK_OFF \<and> c_state = DSI_CLK_EARLY_GATE)"
    and link: "link_total k m = 0 \<or>
      link_clk_state m \<noteq> DSI_CLK_EARLY_GATE \<and> l_state \<noteq> DSI_CLK_EARLY_GATE"
    and bal: "counts_ok k m w"
  shows "counts_ok k m' w'"
  using upd
proof (cases rule: dsi_update_cases)
  case core_fail
  then show ?thesis using upd_core_on_Inl by blast
next
  case link_fail
  then show ?thesis using upd_link_Inl by blast
next
  case (through r1 f1 m1 w1 r2 f2 m2 w2)
  have m1: "m1 = (if cs \<noteq> None \<and> c_state = DSI_CLK_ON then m\<lparr>core_clk_state := DSI_CLK_ON\<rparr> else m)"
    using upd_core_on_Inr [OF through(1)] by simp
  have m2: "m2 = (if ls \<noteq> None then m1\<lparr>link_clk_state := l_state\<rparr> else m1)"
    by (rule upd_link_Inr [OF through(2)])
  have m': "m' = m\<lparr>core_clk_state := if cs = None then core_clk_state m else c_state,
      link_clk_state := if ls = None then link_clk_state m else l_state\<rparr>"
    by (rule dsi_update_frame(2) [OF upd refl])
  have s1: "trace_sum (en_delta k) w1 = trace_sum (en_delta k) w
      + (if cs \<noteq> None \<and> c_state = DSI_CLK_ON then core_total k m else 0)"
    by (rule upd_core_on_sum [OF through(1)]) (simp add: cs split: if_splits)
  have ls1: "ls \<noteq> None \<Longrightarrow> ls = Some (link_clks m1)" by (simp add: ls m1 split: if_splits)
  note s2 = upd_link_sum(1) [OF through(2) ls1, of k]
  have f2: "f2 \<longrightarrow> cs \<noteq> None \<and> c_state = DSI_CLK_OFF \<and> core_clk_state m1 = DSI_CLK_EARLY_GATE"
    using upd_link_sum(2) [OF through(2) ls1] by blast
  have cs2: "cs \<noteq> None \<Longrightarrow> cs = Some (core_clks m2)" by (auto simp: cs m2 m1 split: if_splits)
  note s3 = upd_core_off_sum [OF through(3) cs2, of k]
  have tot: "core_total k m1 = core_total k m" "link_total k m1 = link_total k m"
    "core_total k m2 = core_total k m" "core_clk_state m2 = core_clk_state m1"
    by (simp_all add: m1 m2)
  have c1: "core_clk_state m1 = (if cs \<noteq> None \<and> c_state = DSI_CLK_ON then DSI_CLK_ON else core_clk_state m)"
    by (simp add: m1)
  have core_part: "core_clk_state m' = c_state" "link_clk_state m' = l_state"
    "core_total k m' = core_total k m" "link_total k m' = link_total k m"
    by (auto simp: m' cs ls)
  define C L where "C = core_total k m" and "L = link_total k m"
  have core_delta: "(if cs \<noteq> None \<and> c_state = DSI_CLK_ON then C else 0) + (if f2 then C else 0)
      + (if cs \<noteq> None \<and> c_state = DSI_CLK_OFF \<and> core_clk_state m1 = DSI_CLK_EARLY_GATE \<and> \<not> f2
         then C else 0) - (if cs \<noteq> None \<and> c_state \<noteq> DSI_CLK_ON then C else 0)
    = (if c_state = DSI_CLK_ON then C else 0) - (if core_clk_state m = DSI_CLK_ON then C else 0)"
    using f2 core unfolding c1 cs
    by (cases f2; cases "core_clk_state m"; cases c_state) simp_all
  have link_delta: "(if ls = None then 0 else if l_state = DSI_CLK_ON then L else - L)
    = (if l_state = DSI_CLK_ON then L else 0) - (if link_clk_state m = DSI_CLK_ON then L else 0)"
    using link unfolding ls L_def [symmetric]
    by (cases "link_clk_state m"; cases l_state) simp_all
  have "trace_sum (en_delta k) w = (if core_clk_state m = DSI_CLK_ON then C else 0)
      + (if link_clk_state m = DSI_CLK_ON then L else 0)"
    using bal by (simp only: counts_ok_def C_def L_def)
  with s1 s2 s3 core_delta link_delta show ?thesis
    unfolding counts_ok_def tot core_part C_def [symmetric] L_def [symmetric] by linarith
qed

lemma recheck_counts:
  assumes "dsi_recheck_clk_state env m w = Some (0, m', w')"
    and "\<not> (core_clk_state m = DSI_CLK_OFF \<and> new_core_clk_state m = DSI_CLK_EARLY_GATE)"
    and "link_total k m = 0 \<or>
      link_clk_state m \<noteq> DSI_CLK_EARLY_GATE \<and> new_link_clk_state m \<noteq> DSI_CLK_EARLY_GATE"
    and "counts_ok k m w"
  shows "counts_ok k m' w'"
  using assms(1,4) dsi_update_counts [OF _ refl refl assms(2,3,4)]
  unfolding dsi_recheck_clk_state_def Let_def by (auto split: if_splits)

subsection \<open>Gating in the votes\<close>

text \<open>Calls that do not ask for a gated link clock.\<close>

fun gate_free :: "dsi_op \<Rightarrow> bool" where
  "gate_free (Op_request _ clk st) = (\<not> (clk AND DSI_LINK_CLK \<noteq> 0 \<and> clk_state_of st = Some DSI_CLK_EARLY_GATE))"
| "gate_free _ = True"

definition link_ungated :: "dsi_clk_mngr \<Rightarrow> bool" where
  "link_ungated m \<longleftrightarrow> (\<forall>x \<in> set (client_list m). cl_link_clk_state (snd x) \<noteq> DSI_CLK_EARLY_GATE)"

definition core_off :: "dsi_clk_mngr \<Rightarrow> bool" where
  "core_off m \<longleftrightarrow> (\<forall>x \<in> set (client_list m). cl_core_clk_state (snd x) = DSI_CLK_OFF)"

lemma new_link_ungated: "link_ungated m \<Longrightarrow> new_link_clk_state m \<noteq> DSI_CLK_EARLY_GATE"
  using dsi_votes.arb_in [of "map (cl_link_clk_state \<circ> snd) (client_list m)"]
  by (auto simp: link_ungated_def new_link_clk_state_def)

lemma new_core_ungated:
  "\<forall>x \<in> set (client_list m). cl_core_clk_state (snd x) \<noteq> DSI_CLK_EARLY_GATE \<Longrightarrow>
     new_core_clk_state m \<noteq> DSI_CLK_EARLY_GATE"
  using dsi_votes.arb_in [of "map (cl_core_clk_state \<circ> snd) (client_list m)"]
  by (auto simp: new_core_clk_state_def)

lemma synced_core_off: "synced m \<Longrightarrow> core_clk_state m = DSI_CLK_OFF \<Longrightarrow> core_off m"
  using dsi_votes.arb_idle_iff [of "map (cl_core_clk_state \<circ> snd) (client_list m)"]
  by (simp add: synced_def new_core_clk_state_def core_off_def)

text \<open>A vote that is \<open>OFF\<close> can only become \<open>ON\<close>.\<close>

lemma req_one_from_off:
  "vote_ok n r DSI_CLK_OFF \<Longrightarrow> req_one st r DSI_CLK_OFF = (r', s', ch) \<Longrightarrow> s' \<noteq> DSI_CLK_EARLY_GATE"
  by (auto simp: vote_ok_def req_one_def req_on_def req_off_def split: if_splits)

lemma req_one_ungated:
  "s \<noteq> DSI_CLK_EARLY_GATE \<Longrightarrow> st \<noteq> DSI_CLK_EARLY_GATE \<Longrightarrow> req_one st r s = (r', s', ch) \<Longrightarrow>
     s' \<noteq> DSI_CLK_EARLY_GATE"
  by (auto simp: req_one_def req_on_def req_off_def Let_def split: if_splits)

lemma req_client_core_from_off:
  "client_ok n c \<Longrightarrow> cl_core_clk_state c = DSI_CLK_OFF \<Longrightarrow>
     cl_core_clk_state (fst (req_client clk st c)) \<noteq> DSI_CLK_EARLY_GATE"
  by (auto simp: req_client_def client_ok_def Let_def split: prod.splits dest: req_one_from_off)

lemma req_client_link_ungated:
  "cl_link_clk_state c \<noteq> DSI_CLK_EARLY_GATE \<Longrightarrow>
     \<not> (clk AND DSI_LINK_CLK \<noteq> 0 \<and> st = DSI_CLK_EARLY_GATE) \<Longrightarrow>
     cl_link_clk_state (fst (req_client clk st c)) \<noteq> DSI_CLK_EARLY_GATE"
  by (auto simp: req_client_def Let_def split: prod.splits dest: req_one_ungated)

lemma put_client_all:
  "(\<forall>x \<in> set (client_list m). P (snd x)) \<Longrightarrow> P c \<Longrightarrow> \<forall>x \<in> set (client_list (put_client m h c)). P (snd x)"
  by (auto simp: put_client_def)

lemma link_ungated_put:
  "link_ungated m \<Longrightarrow> cl_link_clk_state c \<noteq> DSI_CLK_EARLY_GATE \<Longrightarrow> link_ungated (put_client m h c)"
  unfolding link_ungated_def by (rule put_client_all)

lemma get_client_all: "\<forall>x \<in> set (client_list m). P (snd x) \<Longrightarrow> get_client m h = Some c \<Longrightarrow> P c"
  by (auto simp: get_client_def dest!: map_of_SomeD)

subsection \<open>Steps and runs\<close>

lemma totals_put [simp]:
  "core_total k (put_client m h c) = core_total k m" "link_total k (put_client m h c) = link_total k m"
  by (simp_all add: put_client_def)

lemma counts_put [simp]: "counts_ok k (put_client m h c) w = counts_ok k m w"
  by (simp add: counts_ok_def)

lemma req_state_counts:
  assumes "dsi_clk_req_state env m client clk st w = Some (0, m', w')"
    and "synced m" and "votes_inv n m"
    and "link_total k m = 0 \<or> link_ungated m \<and> gate_free (Op_request client clk st)"
    and "counts_ok k m w"
  shows "counts_ok k m' w'"
proof -
  obtain h s c where
    step: "get_client m h = Some c" "clk_state_of st = Some s"
      "dsi_recheck_clk_state env (put_client m h (fst (req_client clk s c))) w = Some (0, m', w')
       \<or> m' = put_client m h (fst (req_client clk s c)) \<and> w' = w"
    using assms(1)
  proof (cases rule: req_state_cases)
    case (unchanged h c s c')
    then show ?thesis using that [of h c s] by simp
  next
    case (changed h c s c')
    then show ?thesis using that [of h c s] by simp
  qed simp
  let ?m1 = "put_client m h (fst (req_client clk s c))"
  have "core_clk_state m = DSI_CLK_OFF \<Longrightarrow> new_core_clk_state ?m1 \<noteq> DSI_CLK_EARLY_GATE"
  proof (rule new_core_ungated, rule put_client_all)
    assume "core_clk_state m = DSI_CLK_OFF"
    then have off: "core_off m" by (rule synced_core_off [OF assms(2)])
    then show "\<forall>x \<in> set (client_list m). cl_core_clk_state (snd x) \<noteq> DSI_CLK_EARLY_GATE"
      by (simp add: core_off_def)
    show "cl_core_clk_state (fst (req_client clk s c)) \<noteq> DSI_CLK_EARLY_GATE"
    proof (rule req_client_core_from_off)
      show "client_ok n c"
        using assms(3) step(1) by (auto simp: votes_inv_def elim: clients_ok_get)
      show "cl_core_clk_state c = DSI_CLK_OFF"
        using off step(1) by (auto simp: core_off_def intro: get_client_all)
    qed
  qed
  moreover have "link_clk_state m \<noteq> DSI_CLK_EARLY_GATE \<and> new_link_clk_state ?m1 \<noteq> DSI_CLK_EARLY_GATE"
    if "link_total k m \<noteq> 0"
  proof
    from that assms(4) have ug: "link_ungated m" and gf: "gate_free (Op_request client clk st)" by auto
    show "link_clk_state m \<noteq> DSI_CLK_EARLY_GATE"
      using assms(2) new_link_ungated [OF ug] by (simp add: synced_def)
    have "cl_link_clk_state c \<noteq> DSI_CLK_EARLY_GATE"
      using ug step(1) unfolding link_ungated_def by (rule get_client_all)
    then have "cl_link_clk_state (fst (req_client clk s c)) \<noteq> DSI_CLK_EARLY_GATE"
      using gf step(2) by (intro req_client_link_ungated) auto
    then show "new_link_clk_state ?m1 \<noteq> DSI_CLK_EARLY_GATE"
      using ug by (intro new_link_ungated link_ungated_put) simp_all
  qed
  ultimately show ?thesis
    using step(3) assms(5) recheck_counts [of env ?m1 w m' w' k] by (auto split: if_splits)
qed

lemma deregister_counts:
  assumes "dsi_deregister_clk_handle env m client w = Some (0, m', w')"
    and "synced m" and "link_total k m = 0 \<or> link_ungated m" and "counts_ok k m w"
  shows "counts_ok k m' w'"
proof -
  obtain h c m2 where
    rc: "dsi_recheck_clk_state env (put_client m h (silent c)) w = Some (0, m2, w')"
    (is "dsi_recheck_clk_state env ?m1 w = _")
    and m': "m' = m2\<lparr>client_list := list_del_client h (client_list m2)\<rparr>"
    using assms(1) by (cases rule: deregister_cases) auto
  have "core_clk_state m = DSI_CLK_OFF \<Longrightarrow> new_core_clk_state ?m1 \<noteq> DSI_CLK_EARLY_GATE"
    using synced_core_off [OF assms(2)]
    by (intro new_core_ungated put_client_all) (auto simp: core_off_def silent_def)
  moreover have "link_clk_state m \<noteq> DSI_CLK_EARLY_GATE \<and> new_link_clk_state ?m1 \<noteq> DSI_CLK_EARLY_GATE"
    if ug: "link_ungated m"
  proof
    show "link_clk_state m \<noteq> DSI_CLK_EARLY_GATE"
      using assms(2) new_link_ungated [OF ug] by (simp add: synced_def)
    show "new_link_clk_state ?m1 \<noteq> DSI_CLK_EARLY_GATE"
      using ug by (intro new_link_ungated link_ungated_put) (simp_all add: silent_def)
  qed
  ultimately have "counts_ok k m2 w'"
    using assms(3,4) by (intro recheck_counts [OF rc]) auto
  then show ?thesis by (simp add: counts_ok_def m')
qed

lemma force_update_counts:
  assumes "dsi_display_link_clk_force_update env m client w = Some (0, m', w')"
  shows "trace_sum (en_delta k) w' = trace_sum (en_delta k) w"
  using assms unfolding dsi_display_link_clk_force_update_def
  by (auto split: if_splits bind_splits prod.splits
      dest!: link_state_on_sum [where k = k] link_state_off_sum [where k = k])

lemma rate_ops_counts:
  "dsi_clk_set_pixel_clk_rate env m client r j w = Some (rc, m', w') \<Longrightarrow>
     trace_sum (en_delta k) w' = trace_sum (en_delta k) w"
  "dsi_clk_set_byte_clk_rate env m client r r' j w = Some (rc, m', w') \<Longrightarrow>
     trace_sum (en_delta k) w' = trace_sum (en_delta k) w"
  by (auto simp: dsi_clk_set_pixel_clk_rate_def dsi_clk_set_byte_clk_rate_def Let_def
      split: if_splits bind_splits prod.splits dest!: ext_sum [where f = "en_delta k"])

text \<open>The calls whose failure can leave clocks and state apart.\<close>

fun clocks_op :: "dsi_op \<Rightarrow> bool" where
  "clocks_op (Op_force_update _) = True"
| "clocks_op op = votes_op op"

lemma quiet_counts:
  assumes "dsi_step env op (m, w) rc (m', w')" and "quiet_op op" and "clocks_op op \<Longrightarrow> rc = 0"
  shows "trace_sum (en_delta k) w' = trace_sum (en_delta k) w"
  using assms by (cases rule: dsi_step.cases)
    (auto simp: quiet_op_def dest: force_update_counts [where k = k] rate_ops_counts [where k = k])

text \<open>The arrays have their full length, and the loads of a manager never change.\<close>

definition shape_ok :: "dsi_clk_mngr \<Rightarrow> bool" where
  "shape_ok m \<longleftrightarrow> length (core_clks m) = MAX_DSI_CTRL \<and> length (link_clks m) = MAX_DSI_CTRL
     \<and> dsi_ctrl_count m \<le> MAX_DSI_CTRL"

lemma same_rates_totals:
  assumes "same_but_rates m m'" and "shape_ok m" and "master_ndx m < dsi_ctrl_count m"
  shows "core_total k m' = core_total k m" "link_total k m' = link_total k m"
proof -
  have same: "hs_clks (link_clks m' ! i) = hs_clks (link_clks m ! i)
      \<and> lp_clks (link_clks m' ! i) = lp_clks (link_clks m ! i)"
    if "i \<in> set (visit (dsi_ctrl_count m) (master_ndx m))" for i
    using that assms(2,3) same_but_rates_fields(9,10) [OF assms(1), of i]
    by (auto simp: visit_def shape_ok_def)
  then show "link_total k m' = link_total k m"
    unfolding link_total_def ctrl_total_def same_but_rates_fields(5,6) [OF assms(1)]
    by (intro arg_cong [where f = sum_list] map_cong refl) (simp add: lp_load_def hs_load_def same)
  show "core_total k m' = core_total k m"
    by (simp add: core_total_def same_but_rates_fields [OF assms(1)])
qed

lemma update_static:
  assumes "dsi_recheck_clk_state env m w = Some (rc, m', w')"
  shows "core_total k m' = core_total k m" "link_total k m' = link_total k m"
    "shape_ok m' = shape_ok m" "master_ndx m' = master_ndx m" "dsi_ctrl_count m' = dsi_ctrl_count m"
    "pre_clkon_cb m' = pre_clkon_cb m"
  using recheck_frame [OF assms] by (auto simp: shape_ok_def)

lemma put_static:
  "shape_ok (put_client m h c) = shape_ok m" "master_ndx (put_client m h c) = master_ndx m"
  "dsi_ctrl_count (put_client m h c) = dsi_ctrl_count m"
  "pre_clkon_cb (put_client m h c) = pre_clkon_cb m"
  by (simp_all add: put_client_def shape_ok_def)

definition static_eq :: "dsi_clk_mngr \<Rightarrow> dsi_clk_mngr \<Rightarrow> bool" where
  "static_eq m m' \<longleftrightarrow> (shape_ok m' = shape_ok m) \<and> master_ndx m' = master_ndx m
     \<and> dsi_ctrl_count m' = dsi_ctrl_count m \<and> pre_clkon_cb m' = pre_clkon_cb m
     \<and> (shape_ok m \<longrightarrow> master_ndx m < dsi_ctrl_count m \<longrightarrow>
         (\<forall>k. core_total k m' = core_total k m \<and> link_total k m' = link_total k m))"

lemma shape_ok_client_list [simp]: "shape_ok (m\<lparr>client_list := x\<rparr>) = shape_ok m"
  by (simp add: shape_ok_def)

lemma static_eq_simps [simp]:
  "static_eq m m" "static_eq m (m\<lparr>client_list := x\<rparr>)" "static_eq m (put_client m h c)"
  by (simp_all add: static_eq_def put_static)

lemma recheck_static:
  "dsi_recheck_clk_state env (put_client m h c) w = Some (rc, m', w') \<Longrightarrow>
     static_eq m m' \<and> static_eq m (m'\<lparr>client_list := x\<rparr>)"
  using update_static [of env "put_client m h c" w rc m' w']
  by (simp add: static_eq_def put_static)

lemma dsi_step_static:
  assumes "dsi_step env op (m, w) rc (m', w')"
  shows "static_eq m m'"
  using assms
proof (cases rule: dsi_step_cases)
  case (request client clk st)
  from request(2) show ?thesis
    by (cases rule: req_state_cases) (auto dest: recheck_static)
next
  case (deregister client)
  from deregister(2) show ?thesis
    by (cases rule: deregister_cases) (auto dest: recheck_static)
next
  case quiet
  note f = same_but_rates_fields [OF quiet(2)]
  have "shape_ok m' = shape_ok m" by (simp add: shape_ok_def f)
  with same_rates_totals [OF quiet(2)] show ?thesis
    by (simp add: static_eq_def f)
qed simp

lemma dsi_run_shape: "dsi_run env ops s \<Longrightarrow> shape_ok (fst s)"
proof (induction rule: dsi_run.induct)
  case (step ops s op rc s')
  then show ?case
    using dsi_step_static [of env op "fst s" "snd s" rc "fst s'" "snd s'"] by (simp add: static_eq_def)
qed (simp add: shape_ok_def dsi_register_start)

lemma dsi_step_ungated:
  assumes "dsi_step env op (m, w) rc (m', w')" and "gate_free op" and "link_ungated m"
  shows "link_ungated m'"
  using assms(1)
proof (cases rule: dsi_step_cases)
  case (register name h)
  with assms(3) show ?thesis by (simp add: link_ungated_def new_client_def)
next
  case (request client clk st)
  have put: "link_ungated (put_client m h c')"
    if "get_client m h = Some c" "clk_state_of st = Some s" "req_client clk s c = (c', ch)" for h c s c' ch
    using assms(2) that request(1) get_client_all [OF assms(3) [unfolded link_ungated_def] that(1)]
      req_client_link_ungated [of c clk s]
    by (intro link_ungated_put [OF assms(3)]) auto
  from request(2) show ?thesis
  proof (cases rule: req_state_cases)
    case (unchanged h c s c')
    then show ?thesis using put [OF unchanged(2-4)] by simp
  next
    case (changed h c s c')
    then show ?thesis
      using put [OF changed(2-4)] recheck_frame [OF changed(5)] by (auto simp: link_ungated_def)
  qed (use assms(3) in simp)
next
  case (deregister client)
  have put: "link_ungated (put_client m h (silent c))" for h c
    by (rule link_ungated_put [OF assms(3)]) (simp add: silent_def)
  from deregister(2) show ?thesis
  proof (cases rule: deregister_cases)
    case (failed h c)
    then show ?thesis
      using put [of h c] recheck_frame [OF failed(1)] by (auto simp: link_ungated_def)
  next
    case (removed h c m2)
    have "client_list m2 = client_list (put_client m h (silent c))"
      using recheck_ok [OF removed(1)] by simp
    then have "link_ungated m2" using put [of h c] by (simp add: link_ungated_def)
    with removed(3) show ?thesis
      using set_list_del [of h "client_list m2"] unfolding link_ungated_def by force
  qed (use assms(3) in simp)
next
  case quiet
  with assms(3) show ?thesis by (simp add: link_ungated_def same_but_rates_fields(1) [OF quiet(2)])
qed

text \<open>One step, and then a run: the counts follow the state of the manager.\<close>

lemma dsi_step_counts:
  assumes step: "dsi_step env op (m, w) rc (m', w')" and rc: "clocks_op op \<Longrightarrow> rc = 0"
    and inv: "synced m" "votes_inv n m" "shape_ok m" "master_ndx m < dsi_ctrl_count m"
    and gate: "link_total k m = 0 \<or> link_ungated m \<and> gate_free op" and "counts_ok k m w"
  shows "counts_ok k m' w'"
  using step
proof (cases rule: dsi_step_cases)
  case (register name h)
  with assms(8) show ?thesis by (simp add: counts_ok_def)
next
  case (request client clk st)
  with rc have "dsi_clk_req_state env m client clk st w = Some (0, m', w')" by simp
  from req_state_counts [OF this inv(1,2) _ assms(8)] gate request(1) show ?thesis by simp
next
  case (deregister client)
  with rc have "dsi_deregister_clk_handle env m client w = Some (0, m', w')" by simp
  from deregister_counts [OF this inv(1) _ assms(8)] gate show ?thesis by blast
next
  case quiet
  have "trace_sum (en_delta k) w' = trace_sum (en_delta k) w"
    by (rule quiet_counts [OF step quiet(1) rc])
  moreover have "core_total k m' = core_total k m" "link_total k m' = link_total k m"
    using same_rates_totals [OF quiet(2) inv(3,4)] by auto
  ultimately show ?thesis
    using assms(8) by (simp add: counts_ok_def same_but_rates_fields [OF quiet(2)])
qed

lemma clocks_votes: "votes_op op \<Longrightarrow> clocks_op op" "is_deregister op \<Longrightarrow> clocks_op op"
  by (cases op; simp)+

lemma dsi_run_ungated:
  "dsi_run env ops s \<Longrightarrow> \<forall>(op, rc) \<in> set ops. gate_free op \<Longrightarrow> link_ungated (fst s)"
proof (induction rule: dsi_run.induct)
  case (step ops s op rc s')
  then show ?case
    using dsi_step_ungated [of env op "fst s" "snd s" rc "fst s'" "snd s'"] by simp
qed (simp add: link_ungated_def dsi_register_start)

lemma dsi_run_counts:
  "dsi_run env ops s \<Longrightarrow> length ops < 2 ^ 32 \<Longrightarrow>
     \<forall>(op, rc) \<in> set ops. clocks_op op \<longrightarrow> rc = 0 \<Longrightarrow>
     master_ndx (fst s) < dsi_ctrl_count (fst s) \<Longrightarrow>
     link_total k (fst s) = 0 \<or> (\<forall>(op, rc) \<in> set ops. gate_free op) \<Longrightarrow>
     counts_ok k (fst s) (snd s)"
proof (induction rule: dsi_run.induct)
  case (start info m)
  then show ?case by (simp add: counts_ok_def dsi_register_start)
next
  case (step ops s op rc s')
  have st: "static_eq (fst s) (fst s')"
    using dsi_step_static [of env op "fst s" "snd s" rc "fst s'" "snd s'"] step.hyps(2) by simp
  have sh: "shape_ok (fst s)" by (rule dsi_run_shape [OF step.hyps(1)])
  with st step.prems(3) have master: "master_ndx (fst s) < dsi_ctrl_count (fst s)"
    and total: "link_total k (fst s') = link_total k (fst s)"
    by (auto simp: static_eq_def)
  have ok: "\<forall>(op, rc) \<in> set ops. clocks_op op \<longrightarrow> rc = 0" "clocks_op op \<Longrightarrow> rc = 0"
    using step.prems(2) by auto
  have gate: "link_total k (fst s) = 0 \<or> (\<forall>(op, rc) \<in> set ops. gate_free op) \<and> gate_free op"
    using step.prems(4) total by auto
  show ?case
  proof (rule dsi_step_counts)
    show "dsi_step env op (fst s, snd s) rc (fst s', snd s')" using step.hyps(2) by simp
    show "clocks_op op \<Longrightarrow> rc = 0" by (rule ok(2))
    show "synced (fst s)"
      using dsi_run_synced [OF step.hyps(1)] ok(1) clocks_votes(1) by blast
    show "votes_inv (length ops) (fst s)"
      using dsi_run_votes_inv [OF step.hyps(1)] ok(1) clocks_votes(2) step.prems(1) by fastforce
    show "counts_ok k (fst s) (snd s)"
      using step.IH step.prems(1) ok(1) master gate by auto
    show "link_total k (fst s) = 0 \<or> link_ungated (fst s) \<and> gate_free op"
      using gate dsi_run_ungated [OF step.hyps(1)] by auto
  qed (use sh master in auto)
qed

end
