(* ===== verification/Dsi_Clk_Refs.thy ===== *)
theory Dsi_Clk_Refs
  imports Dsi_Clk_Counts
begin

section \<open>DSI clock manager: what the reference counts count\<close>

text \<open>
  The reference count of a client is the number of its requests that are outstanding. The reference:
  \<open>outstanding flag h ops\<close> follows the requests of client \<open>h\<close> for the clocks \<open>flag\<close> through a history of
  calls, a release of an idle clock being ignored.
\<close>

definition request_level :: "dsi_clk_state \<Rightarrow> nat \<Rightarrow> nat" where
  "request_level s n = (if s = DSI_CLK_ON then Suc n else n - 1)"

fun count_op :: "u32 \<Rightarrow> nat \<Rightarrow> dsi_op \<Rightarrow> nat \<Rightarrow> nat" where
  "count_op flag h (Op_register name h') n = (if h' = h then 0 else n)"
| "count_op flag h (Op_request client clk st) n =
     (case clk_state_of st of
        Some s \<Rightarrow> if client = Some h \<and> clk \<noteq> 0 \<and> clk \<le> DSI_CORE_CLK OR DSI_LINK_CLK \<and> clk AND flag \<noteq> 0
                 then request_level s n else n
      | None \<Rightarrow> n)"
| "count_op flag h _ n = n"

definition outstanding :: "u32 \<Rightarrow> nat \<Rightarrow> dsi_op list \<Rightarrow> nat" where
  "outstanding flag h ops = fold (count_op flag h) ops 0"

lemma outstanding_snoc: "outstanding flag h (ops @ [op]) = count_op flag h op (outstanding flag h ops)"
  by (simp add: outstanding_def)

definition counted :: "dsi_op list \<Rightarrow> dsi_clk_mngr \<Rightarrow> bool" where
  "counted ops m \<longleftrightarrow> (\<forall>h c. get_client m h = Some c \<longrightarrow>
     unat (core_refcount c) = outstanding DSI_CORE_CLK h ops \<and> unat (link_refcount c) = outstanding DSI_LINK_CLK h ops)"

lemma req_one_level:
  assumes "unat r < 2 ^ 32 - 1" "req_one s r cs = (r', cs', ch)"
  shows "unat r' = request_level s (unat r)"
proof (cases "s = DSI_CLK_ON")
  case True
  then show ?thesis using assms unat_plus_one [OF assms(1)]
    by (auto simp: req_one_def req_on_def request_level_def split: if_splits)
next
  case False
  have "unat (r - 1) = unat r - 1" if "r \<noteq> 0" using that by (metis unat_minus_one)
  with False show ?thesis using assms(2)
    by (auto simp: req_one_def req_off_def request_level_def Let_def split: if_splits)
qed

lemma req_client_level:
  assumes "unat (core_refcount c) < 2 ^ 32 - 1" "unat (link_refcount c) < 2 ^ 32 - 1"
  shows "unat (core_refcount (fst (req_client clk s c))) =
      (if clk AND DSI_CORE_CLK \<noteq> 0 then request_level s (unat (core_refcount c)) else unat (core_refcount c))"
    and "unat (link_refcount (fst (req_client clk s c))) =
      (if clk AND DSI_LINK_CLK \<noteq> 0 then request_level s (unat (link_refcount c)) else unat (link_refcount c))"
  using assms by (auto simp: req_client_def Let_def req_one_level split: prod.splits)

lemma get_put_client: "get_client (put_client m h c) h' = (if h' = h \<and> get_client m h \<noteq> None then Some c else get_client m h')"
proof -
  have "map_of (map (\<lambda>(a, b). if a = h then (a, c) else (a, b)) cs) h' =
      (if h' = h \<and> map_of cs h \<noteq> None then Some c else map_of cs h')" for cs
    by (induction cs) auto
  then show ?thesis by (simp add: get_client_def put_client_def)
qed

lemma get_client_cong: "client_list m' = client_list m \<Longrightarrow> get_client m' = get_client m"
  by (simp add: get_client_def fun_eq_iff)

text \<open>A request that is accepted is counted, for its client only.\<close>

lemma request_counted:
  assumes run: "dsi_clk_req_state env m client clk st w = Some (rc, m', w')"
    and c: "counted ops m" and ok: "clients_ok n m" "n < 2 ^ 32 - 1"
  shows "counted (ops @ [Op_request client clk st]) m'"
proof (cases "\<exists>h s. client = Some h \<and> clk_state_of st = Some s \<and> \<not> (clk = 0 \<or> clk > DSI_CORE_CLK OR DSI_LINK_CLK)")
  case True
  then obtain h s where go: "client = Some h" "clk_state_of st = Some s" "clk \<noteq> 0" "clk \<le> DSI_CORE_CLK OR DSI_LINK_CLK"
    "\<not> clk > DSI_CORE_CLK OR DSI_LINK_CLK"
    by (auto simp: not_less)
  then obtain c0 where c0: "get_client m h = Some c0" using run
    by (auto simp: dsi_clk_req_state_def split: bind_splits)
  have cl: "get_client m' = get_client (put_client m h (fst (req_client clk s c0)))"
    using run go c0 recheck_frame
    by (auto simp: dsi_clk_req_state_def Let_def split: prod.splits if_splits intro!: get_client_cong dest: recheck_frame)
  have "client_ok n c0" using clients_ok_get [OF ok(1) c0] .
  then have "unat (core_refcount c0) < 2 ^ 32 - 1" "unat (link_refcount c0) < 2 ^ 32 - 1"
    using ok(2) by (auto simp: client_ok_def vote_ok_def)
  note lv = req_client_level [OF this]
  show ?thesis
    unfolding counted_def outstanding_snoc cl
    using c go c0 lv by (auto simp: counted_def get_put_client)
next
  case False
  have same: "m' = m" using run False
    by (auto simp: dsi_clk_req_state_def split: option.splits if_splits)
  have "count_op flag h (Op_request client clk st) k = k" for flag h k
    using False by (auto simp: not_less split: option.splits)
  with c same show ?thesis by (simp add: counted_def outstanding_snoc del: count_op.simps)
qed

lemma dsi_step_counted:
  assumes st: "dsi_step env op (m, w) rc (m', w')" and c: "counted ops m" and inv: "votes_inv n m" "n < 2 ^ 32 - 1"
    and "is_deregister op \<Longrightarrow> rc = 0"
  shows "counted (ops @ [op]) m'"
  using st
proof (cases rule: dsi_step_cases)
  case (register name h)
  then show ?thesis using c by (auto simp: counted_def outstanding_snoc get_client_def new_client_def)
next
  case (request client clk st)
  show ?thesis unfolding request(1)
    by (rule request_counted [OF request(2) c]) (use inv in \<open>simp_all add: votes_inv_def\<close>)
next
  case (deregister client)
  with assms(5) have "dsi_deregister_clk_handle env m client w = Some (0, m', w')" by simp
  from deregister_clients [OF this] inv(1) obtain h where
    cl: "client_list m' = filter (\<lambda>(h', _). h' \<noteq> h) (client_list m)" by (auto simp: votes_inv_def)
  have "map_of (filter (\<lambda>(h', _). h' \<noteq> h) cs) a = Some b \<Longrightarrow> map_of cs a = Some b" for cs a b
    by (induction cs) (auto split: if_splits dest: map_of_SomeD)
  then have "get_client m a = Some b" if "get_client m' a = Some b" for a b
    using that cl by (simp add: get_client_def)
  with c deregister(1) show ?thesis by (simp add: counted_def outstanding_snoc)
next
  case quiet
  then have "get_client m' = get_client m" using same_but_rates_fields(1) get_client_cong by blast
  moreover have "count_op flag h op k = k" for flag h k using quiet(1) by (cases op) (auto simp: quiet_op_def)
  ultimately show ?thesis using c by (simp add: counted_def outstanding_snoc)
qed

lemma dsi_run_counted:
  "dsi_run env ops s \<Longrightarrow> length ops < 2 ^ 32 \<Longrightarrow>
     \<forall>(op, rc) \<in> set ops. is_deregister op \<longrightarrow> rc = 0 \<Longrightarrow> counted (map fst ops) (fst s)"
proof (induction rule: dsi_run.induct)
  case (start info m)
  then have "client_list m = []" by (auto simp: dsi_display_clk_mngr_register_def Let_def split: if_splits)
  then show ?case by (simp add: counted_def get_client_def)
next
  case (step ops s op rc s')
  have "votes_inv (length ops) (fst s)" by (rule dsi_run_votes_inv [OF step(1)]) (use step in auto)
  moreover have "counted (map fst ops) (fst s)" using step by simp
  ultimately show ?case
    using dsi_step_counted [of env op "fst s" "snd s" rc "fst s'" "snd s'" "map fst ops" "length ops"] step by simp
qed

end
