(* ===== verification/Dsi_Clk_Props.thy ===== *)
theory Dsi_Clk_Props
  imports Dsi_Clk_Refs
begin

section \<open>DSI clock manager: what its users rely on\<close>

text \<open>
  The properties of \<^verbatim>\<open>msm/dsi/dsi_clk_manager.c\<close>, over runs of the manager from its registration.
  The first part shows that a well-formed manager never runs into undefined behaviour, the second
  one executes runs on a two-controller display, on which the properties are instantiated.
\<close>

subsection \<open>Absence of undefined behaviour\<close>

lemma slave_loop_defined:
  "(\<And>i w. i \<in> set js \<Longrightarrow> defined (f i w)) \<Longrightarrow> defined (slave_loop f m js w)"
  by (induction js arbitrary: w) (auto intro!: safe_intros)

lemma disable_loop_defined:
  "\<forall>i \<in> set js. i < length ls \<Longrightarrow> defined (link_clk_disable_loop ls t m js rc w)"
  by (induction js arbitrary: rc w) (auto intro!: safe_intros split: prod.splits)

lemma display_core_defined:
  assumes "n \<le> length cs" and "m < length cs"
  shows "defined (dsi_display_core_clk_enable env cs n m w)"
    and "defined (dsi_display_core_clk_disable env cs n m w)"
  unfolding dsi_display_core_clk_enable_def dsi_display_core_clk_disable_def
  by (intro safe_intros slave_loop_defined; use assms in simp)+

lemma display_link_defined:
  assumes "n \<le> length ls" and "m < length ls"
  shows "defined (dsi_display_link_clk_enable env sp ls t n m w)"
    and "defined (dsi_display_link_clk_disable ls t n m w)"
  unfolding dsi_display_link_clk_enable_def dsi_display_link_clk_disable_def
  by (intro safe_intros slave_loop_defined disable_loop_defined; use assms in simp)+

definition mngr_safe :: "dsi_clk_mngr \<Rightarrow> bool" where
  "mngr_safe m \<longleftrightarrow> shape_ok m \<and> master_ndx m < dsi_ctrl_count m \<and> pre_clkon_cb m"

lemma mngr_safe_arrays:
  assumes "mngr_safe m"
  shows "dsi_ctrl_count m \<le> length (core_clks m)" "master_ndx m < length (core_clks m)"
    "dsi_ctrl_count m \<le> length (link_clks m)" "master_ndx m < length (link_clks m)" "pre_clkon_cb m"
  using assms by (auto simp: mngr_safe_def shape_ok_def)

lemma mngr_safe_upd [simp]:
  "mngr_safe (m\<lparr>core_clk_state := a\<rparr>) = mngr_safe m" "mngr_safe (m\<lparr>link_clk_state := b\<rparr>) = mngr_safe m"
  "mngr_safe (m\<lparr>client_list := x\<rparr>) = mngr_safe m" "mngr_safe (put_client m h c) = mngr_safe m"
  by (simp_all add: mngr_safe_def shape_ok_def put_client_def)

lemma mngr_defined:
  assumes "mngr_safe m"
  shows "defined (dsi_display_core_clk_enable env (core_clks m) (dsi_ctrl_count m) (master_ndx m) w)"
    and "defined (dsi_display_core_clk_disable env (core_clks m) (dsi_ctrl_count m) (master_ndx m) w)"
    and "defined (dsi_display_link_clk_enable env sp (link_clks m) t (dsi_ctrl_count m) (master_ndx m) w)"
    and "defined (dsi_display_link_clk_disable (link_clks m) t (dsi_ctrl_count m) (master_ndx m) w)"
  using mngr_safe_arrays [OF assms] by (simp_all add: display_core_defined display_link_defined)

lemma link_state_defined:
  "mngr_safe m \<Longrightarrow> defined (dsi_clk_update_link_clk_state env m (link_clks m) t st en w)"
  unfolding dsi_clk_update_link_clk_state_def
  by (intro safe_intros mngr_defined)

lemma upd_core_on_defined:
  assumes "mngr_safe m" and "cs = None \<or> cs = Some (core_clks m)"
  shows "defined (upd_core_on env m cs c w)"
  using assms(2) mngr_safe_arrays(5) [OF assms(1)] mngr_defined(1) [OF assms(1)]
  unfolding upd_core_on_def by (auto intro!: safe_intros)

lemma upd_core_off_defined:
  assumes "mngr_safe m" and "cs = None \<or> cs = Some (core_clks m)"
  shows "defined (upd_core_off env m cs c r f w)"
  using assms(2) mngr_defined(1,2) [OF assms(1)]
  unfolding upd_core_off_def by (auto intro!: safe_intros)

lemma upd_link_off_defined:
  assumes "mngr_safe m"
  shows "defined (upd_link_off env m cs c (link_clks m) l w)"
proof -
  have "defined (link_regate env m (link_clks m) l w)"
    unfolding link_regate_def by (intro safe_intros mngr_defined assms)
  moreover have "defined (link_core_release env m cs c r f v)" for r f v
    unfolding link_core_release_def by (intro safe_intros mngr_defined assms)
  ultimately show ?thesis
    unfolding upd_link_off_def using link_state_defined [OF assms]
    by (auto intro!: safe_intros dest!: link_regate_frame(1))
qed

lemma upd_link_defined:
  assumes "mngr_safe m" and "ls = None \<or> ls = Some (link_clks m)"
  shows "defined (upd_link env m cs c ls l r w)"
proof -
  have "defined (upd_link_on env m (link_clks m) l v)" for v
    unfolding upd_link_on_def by (intro safe_intros link_state_defined assms)
  with assms(2) upd_link_off_defined [OF assms(1)] show ?thesis
    unfolding upd_link_def by (auto intro!: safe_intros)
qed

lemma recheck_defined:
  assumes "mngr_safe m"
  shows "defined (dsi_recheck_clk_state env m w)"
proof -
  define cs ls where "cs = (if new_core_clk_state m \<noteq> core_clk_state m then Some (core_clks m) else None)"
    and "ls = (if new_link_clk_state m \<noteq> link_clk_state m then Some (link_clks m) else None)"
  have "defined (dsi_update_clk_state env m cs (new_core_clk_state m) ls (new_link_clk_state m) w)"
    unfolding dsi_update_clk_state_def
  proof (intro safe_intros)
    show "defined (upd_core_on env m cs (new_core_clk_state m) w)"
      by (rule upd_core_on_defined [OF assms]) (simp add: cs_def)
  next
    fix r x rc y f z m1 w1
    assume "upd_core_on env m cs (new_core_clk_state m) w = Some r" "r = Inr x" "x = (rc, y)"
      "y = (f, z)" "z = (m1, w1)"
    then have m1: "m1 = m \<or> m1 = m\<lparr>core_clk_state := DSI_CLK_ON\<rparr>"
      using upd_core_on_Inr [of env m cs "new_core_clk_state m" w rc f m1 w1] by auto
    then show "defined (upd_link env m1 cs (new_core_clk_state m) ls (new_link_clk_state m) rc w1)"
      using assms by (intro upd_link_defined) (auto simp: ls_def)
    fix r2 x2 rc2 y2 f2 z2 m2 w2
    assume "upd_link env m1 cs (new_core_clk_state m) ls (new_link_clk_state m) rc w1 = Some r2"
      "r2 = Inr x2" "x2 = (rc2, y2)" "y2 = (f2, z2)" "z2 = (m2, w2)"
    then have "m2 = m1 \<or> m2 = m1\<lparr>link_clk_state := new_link_clk_state m\<rparr>"
      using upd_link_Inr [of env m1 cs "new_core_clk_state m" ls "new_link_clk_state m" rc w1 rc2 f2 m2 w2] by auto
    then show "defined (upd_core_off env m2 cs (new_core_clk_state m) rc2 f2 w2)"
      using assms m1 by (intro upd_core_off_defined) (auto simp: cs_def)
  qed
  then show ?thesis
    unfolding dsi_recheck_clk_state_def Let_def cs_def [symmetric] ls_def [symmetric]
    by (intro safe_intros)
qed

lemma dsi_run_safe:
  assumes "dsi_run env ops (m, w)" and "master_ndx m < dsi_ctrl_count m" and "pre_clkon_cb m"
  shows "mngr_safe m"
  using dsi_run_shape [OF assms(1)] assms(2,3) by (simp add: mngr_safe_def)

subsection \<open>Executing runs\<close>

type_synonym dsi_state = "dsi_clk_mngr \<times> dsi_trace"

text \<open>The step relation as a function; it is deterministic.\<close>

fun dsi_exec :: "dsi_env \<Rightarrow> dsi_op \<Rightarrow> dsi_state \<Rightarrow> (int \<times> dsi_state) option" where
  "dsi_exec env (Op_register name h) (m, w) =
     (if h \<in> set (map fst (client_list m)) then None
      else Some (0, snd (dsi_register_clk_handle m name (Some h)), w))"
| "dsi_exec env (Op_request client clk st) (m, w) = dsi_clk_req_state env m client clk st w"
| "dsi_exec env (Op_deregister client) (m, w) = dsi_deregister_clk_handle env m client w"
| "dsi_exec env (Op_force_update client) (m, w) = dsi_display_link_clk_force_update env m client w"
| "dsi_exec env (Op_splash b) (m, w) = Some (0, dsi_display_clk_mngr_update_splash_status m b, w)"
| "dsi_exec env (Op_link_freq client f i) (m, w) =
     (let (rc, m) = dsi_clk_set_link_frequencies m client f i in Some (rc, m, w))"
| "dsi_exec env (Op_pixel_rate client r j) (m, w) = dsi_clk_set_pixel_clk_rate env m client r j w"
| "dsi_exec env (Op_byte_rate client r r' j) (m, w) = dsi_clk_set_byte_clk_rate env m client r r' j w"

lemma dsi_exec_step: "dsi_exec env op s = Some (rc, s') \<Longrightarrow> dsi_step env op s rc s'"
  by (cases s'; cases "(env, op, s)" rule: dsi_exec.cases)
    (auto simp: Let_def dsi_register_clk_handle_def split: if_splits prod.splits
      intro!: dsi_step.intros)

lemma dsi_step_exec: "dsi_step env op s rc s' \<Longrightarrow> dsi_exec env op s = Some (rc, s')"
  by (cases rule: dsi_step.cases) (auto simp: dsi_register_clk_handle_def)

primrec dsi_execs :: "dsi_env \<Rightarrow> dsi_op list \<Rightarrow> (dsi_op \<times> int) list \<times> dsi_state \<Rightarrow>
    ((dsi_op \<times> int) list \<times> dsi_state) option" where
  "dsi_execs env [] x = Some x"
| "dsi_execs env (op # ops) x =
     (case dsi_exec env op (snd x) of
        None \<Rightarrow> None
      | Some (rc, s) \<Rightarrow> dsi_execs env ops (fst x @ [(op, rc)], s))"

lemma dsi_execs_run:
  "dsi_execs env ops x = Some y \<Longrightarrow> dsi_run env (fst x) (snd x) \<Longrightarrow> dsi_run env (fst y) (snd y)"
proof (induction ops arbitrary: x)
  case (Cons op ops)
  then obtain rc s where ex: "dsi_exec env op (snd x) = Some (rc, s)"
    and "dsi_execs env ops (fst x @ [(op, rc)], s) = Some y"
    by (auto split: option.splits)
  moreover have "dsi_run env (fst x @ [(op, rc)]) s"
    using Cons.prems(2) dsi_exec_step [OF ex] by (rule dsi_run.step)
  ultimately show ?case using Cons.IH by simp
qed simp

text \<open>A display with two controllers, controller 1 being the master; all callbacks are installed.\<close>

definition demo_core :: "nat \<Rightarrow> dsi_core_clk_info" where
  "demo_core b = \<lparr>mdp_core_clk = Some 1, iface_clk = Some 2, core_mmss_clk = None, bus_clk = Some 3,
     mnoc_clk = None, dsi_core_client = b, phandle = 7\<rparr>"

definition demo_info :: dsi_clk_info where
  "demo_info = \<lparr>info_name = ''disp'', c_clks = [demo_core 0, demo_core 1],
     l_lp_clks = [\<lparr>esc_clk = Some 10\<rparr>, \<lparr>esc_clk = Some 20\<rparr>],
     l_hs_clks = [\<lparr>byte_clk = Some 11, pixel_clk = Some 12, byte_intf_clk = None\<rparr>,
       \<lparr>byte_clk = Some 21, pixel_clk = Some 22, byte_intf_clk = Some 23\<rparr>],
     info_bus_handle = [0, 5], info_ctrl_index = [4, 6], info_pre_clkoff_cb = True,
     info_post_clkoff_cb = True, info_post_clkon_cb = True, info_pre_clkon_cb = True,
     info_master_ndx = 1, info_dsi_ctrl_count = 2\<rparr>"

definition demo_mngr :: dsi_clk_mngr where
  "demo_mngr = (case dsi_display_clk_mngr_register (Some demo_info) True of Inr m \<Rightarrow> m)"

definition all_ok :: dsi_env where
  "all_ok w c = 0"

text \<open>Two clients; at the end the first votes for everything, the second one has gated its core vote.\<close>

definition demo_ops :: "dsi_op list" where
  "demo_ops = [Op_register ''mdp'' 100, Op_register ''cmd'' 200, Op_request (Some 100) 3 1,
     Op_request (Some 200) 1 1, Op_splash True, Op_request (Some 200) 1 2, Op_force_update (Some 100)]"

definition demo_end :: "(dsi_op \<times> int) list \<times> dsi_state" where
  "demo_end = the (dsi_execs all_ok demo_ops ([], demo_mngr, []))"

lemma demo_run: "dsi_run all_ok (fst demo_end) (snd demo_end)"
proof (rule dsi_execs_run)
  show "dsi_execs all_ok demo_ops ([], demo_mngr, []) = Some demo_end" by code_simp
  have "dsi_display_clk_mngr_register (Some demo_info) True = Inr demo_mngr" by code_simp
  then show "dsi_run all_ok (fst ([], demo_mngr, [])) (snd ([], demo_mngr, []))"
    by (auto intro: dsi_run.start)
qed

lemma demo_ops_ok:
  "\<forall>(op, rc) \<in> set (fst demo_end). votes_op op \<longrightarrow> rc = 0"
  "\<forall>(op, rc) \<in> set (fst demo_end). clocks_op op \<longrightarrow> rc = 0"
  "\<forall>(op, rc) \<in> set (fst demo_end). is_deregister op \<longrightarrow> rc = 0"
  "\<forall>(op, rc) \<in> set (fst demo_end). gate_free op"
  by code_simp+

lemma demo_length: "length (fst demo_end) < 2 ^ 32"
proof -
  have "length (fst demo_end) = 7" by code_simp
  then show ?thesis by simp
qed

lemma demo_static:
  "master_ndx (fst (snd demo_end)) < dsi_ctrl_count (fst (snd demo_end))"
  "pre_clkon_cb (fst (snd demo_end))"
  by code_simp+

subsection \<open>The properties\<close>

text \<open>
  C1. Client votes are reference counted. In every run of fewer than 2^32 calls in which each
  deregistration succeeded (one that fails leaves a client that votes \<open>OFF\<close> with its counts), the core (link) reference count of every registered client is the number
  of its requests for the core (link) clocks that are outstanding since its registration, without
  wrap-around; the client votes \<open>ON\<close> for the clocks exactly while its count is positive; and no two
  clients share a handle.
\<close>

theorem dsi_client_refcounts:
  assumes "dsi_run env ops (m, w)" and "length ops < 2 ^ 32"
    and "\<forall>(op, rc) \<in> set ops. is_deregister op \<longrightarrow> rc = 0"
    and "get_client m h = Some c"
  shows "(core_refcount c \<noteq> 0 \<longleftrightarrow> cl_core_clk_state c = DSI_CLK_ON)
    \<and> (link_refcount c \<noteq> 0 \<longleftrightarrow> cl_link_clk_state c = DSI_CLK_ON)
    \<and> unat (core_refcount c) = outstanding DSI_CORE_CLK h (map fst ops)
    \<and> unat (link_refcount c) = outstanding DSI_LINK_CLK h (map fst ops)
    \<and> distinct (map fst (client_list m))"
proof -
  have inv: "votes_inv (length ops) m"
    using dsi_run_votes_inv [OF assms(1-3)] by simp
  then have "client_ok (length ops) c"
    using assms(4) by (auto simp: votes_inv_def elim: clients_ok_get)
  moreover have "counted (map fst ops) m" using dsi_run_counted [OF assms(1-3)] by simp
  ultimately show ?thesis using inv assms(4) by (auto simp: client_ok_def vote_ok_def votes_inv_def counted_def)
qed

theorem dsi_client_refcounts_witness:
  "(case get_client (fst (snd demo_end)) 200 of None \<Rightarrow> False
    | Some c \<Rightarrow> core_refcount c = 0 \<and> cl_core_clk_state c = DSI_CLK_EARLY_GATE
        \<and> unat (link_refcount c) = outstanding DSI_LINK_CLK 200 (map fst (fst demo_end)))"
proof -
  obtain c where c: "get_client (fst (snd demo_end)) 200 = Some c"
    "core_refcount c = 0 \<and> cl_core_clk_state c = DSI_CLK_EARLY_GATE"
  proof -
    have "case get_client (fst (snd demo_end)) 200 of None \<Rightarrow> False
      | Some c \<Rightarrow> core_refcount c = 0 \<and> cl_core_clk_state c = DSI_CLK_EARLY_GATE" by code_simp
    then show ?thesis using that by (auto split: option.splits)
  qed
  have "dsi_run all_ok (fst demo_end) (fst (snd demo_end), snd (snd demo_end))"
    using demo_run by simp
  from dsi_client_refcounts [OF this demo_length demo_ops_ok(3) c(1)] c show ?thesis by simp
qed

text \<open>
  C2. The manager follows the strongest vote. In every run whose requests and deregistrations all
  returned 0, the core and the link state of the manager are the maxima of the clients' votes in
  the order \<open>OFF < EARLY_GATE < ON\<close>, and \<open>OFF\<close> without clients.
\<close>

theorem dsi_state_is_strongest_vote:
  assumes "dsi_run env ops (m, w)" and "\<forall>(op, rc) \<in> set ops. votes_op op \<longrightarrow> rc = 0"
  shows "core_clk_state m = Max (insert DSI_CLK_OFF ((cl_core_clk_state \<circ> snd) ` set (client_list m)))
    \<and> link_clk_state m = Max (insert DSI_CLK_OFF ((cl_link_clk_state \<circ> snd) ` set (client_list m)))"
  using dsi_run_synced [OF assms] dsi_votes.arb_Max
  by (simp add: synced_def new_core_clk_state_def new_link_clk_state_def)

theorem dsi_state_is_strongest_vote_witness:
  "core_clk_state (fst (snd demo_end)) = DSI_CLK_ON \<and> link_clk_state (fst (snd demo_end))
     = Max (insert DSI_CLK_OFF ((cl_link_clk_state \<circ> snd) ` set (client_list (fst (snd demo_end)))))"
proof -
  have "dsi_run all_ok (fst demo_end) (fst (snd demo_end), snd (snd demo_end))"
    using demo_run by simp
  from dsi_state_is_strongest_vote [OF this demo_ops_ok(1)]
  have "link_clk_state (fst (snd demo_end))
     = Max (insert DSI_CLK_OFF ((cl_link_clk_state \<circ> snd) ` set (client_list (fst (snd demo_end)))))"
    by blast
  moreover have "core_clk_state (fst (snd demo_end)) = DSI_CLK_ON" by code_simp
  ultimately show ?thesis by blast
qed

text \<open>
  C3. Clock enables are balanced. In every run of fewer than 2^32 calls in which every request,
  deregistration and forced update succeeded and no client asked for gated link clocks, on a manager
  whose master index is below its number of controllers, the enable count of each clock is the number of its occurrences in the core sets if the core state is \<open>ON\<close>, plus that in the
  link sets if the link state is \<open>ON\<close>; in particular it is 0 when both states are \<open>OFF\<close>.
\<close>

theorem dsi_clock_counts:
  assumes "dsi_run env ops (m, w)" and "length ops < 2 ^ 32"
    and "\<forall>(op, rc) \<in> set ops. clocks_op op \<longrightarrow> rc = 0"
    and "\<forall>(op, rc) \<in> set ops. gate_free op"
    and "master_ndx m < dsi_ctrl_count m"
  shows "trace_sum (en_delta k) w = (if core_clk_state m = DSI_CLK_ON then core_total k m else 0)
    + (if link_clk_state m = DSI_CLK_ON then link_total k m else 0)"
  using dsi_run_counts [OF assms(1-3), of k] assms(4,5) by (simp add: counts_ok_def)

theorem dsi_clock_counts_witness:
  "trace_sum (en_delta 1) (snd (snd demo_end)) = 2 \<and> trace_sum (en_delta 23) (snd (snd demo_end)) = 1"
proof -
  have "dsi_run all_ok (fst demo_end) (fst (snd demo_end), snd (snd demo_end))"
    using demo_run by simp
  note counts = dsi_clock_counts [OF this demo_length demo_ops_ok(2,4) demo_static(1)]
  have "core_clk_state (fst (snd demo_end)) = DSI_CLK_ON" "link_clk_state (fst (snd demo_end)) = DSI_CLK_ON"
    "core_total 1 (fst (snd demo_end)) = 2" "link_total 1 (fst (snd demo_end)) = 0"
    "core_total 23 (fst (snd demo_end)) = 0" "link_total 23 (fst (snd demo_end)) = 1"
    by code_simp+
  then show ?thesis by (simp add: counts)
qed

text \<open>
  The same for a clock that is in no link set, with link gating allowed: its enable count is
  the number of its occurrences in the core sets while the core state is \<open>ON\<close> and 0 otherwise.
\<close>

theorem dsi_core_clock_counts:
  assumes "dsi_run env ops (m, w)" and "length ops < 2 ^ 32"
    and "\<forall>(op, rc) \<in> set ops. clocks_op op \<longrightarrow> rc = 0"
    and "master_ndx m < dsi_ctrl_count m" and "link_total k m = 0"
  shows "trace_sum (en_delta k) w = (if core_clk_state m = DSI_CLK_ON then core_total k m else 0)"
  using dsi_run_counts [OF assms(1-3), of k] assms(4,5) by (simp add: counts_ok_def)

theorem dsi_core_clock_counts_witness:
  "trace_sum (en_delta 3) (snd (snd demo_end)) = 2"
proof -
  have run: "dsi_run all_ok (fst demo_end) (fst (snd demo_end), snd (snd demo_end))"
    using demo_run by simp
  have "core_clk_state (fst (snd demo_end)) = DSI_CLK_ON" "core_total 3 (fst (snd demo_end)) = 2"
    and no_link: "link_total 3 (fst (snd demo_end)) = 0"
    by code_simp+
  then show ?thesis
    using dsi_core_clock_counts [OF run demo_length demo_ops_ok(2) demo_static(1) no_link] by simp
qed

text \<open>
  C5. Enabling the core clocks is all or nothing. If it fails for a display with at most two
  controllers, then for every clock the enable count and the prepare count are what they were,
  provided a bus vote can always be released (the undo path stops at a release that fails) and the
  index of the master is below the number of controllers.
\<close>

theorem dsi_core_enable_atomic:
  assumes "dsi_display_core_clk_enable env cs n m w = Some (rc, w')" and "rc \<noteq> 0"
    and "n \<le> MAX_DSI_CTRL" and "m < n" and "bus_release_ok env"
  shows "trace_sum (en_delta k) w' = trace_sum (en_delta k) w
    \<and> trace_sum (prep_delta k) w' = trace_sum (prep_delta k) w"
  using display_core_enable_sum(2) [OF assms(1), of k] assms(2-5) by (simp add: pe_weight_def)

text \<open>An environment in which the second request for the bus clock 3 fails.\<close>

definition second_bus_fails :: dsi_env where
  "second_bus_fails w c =
     (if c = Clk_prepare_enable (Some 3) \<and> (c, 0) \<in> set w then - ENOMEM else 0)"

theorem dsi_core_enable_atomic_witness:
  "case dsi_display_core_clk_enable second_bus_fails (core_clks demo_mngr) 2 1 [] of
     None \<Rightarrow> False
   | Some (rc, w') \<Rightarrow> rc = - ENOMEM \<and> trace_sum (en_delta 1) w' = 0 \<and> trace_sum (prep_delta 3) w' = 0
       \<and> (Clk_prepare_enable (Some 3), 0) \<in> set w'"
proof -
  have ok: "bus_release_ok second_bus_fails" by (simp add: bus_release_ok_def second_bus_fails_def)
  have "case dsi_display_core_clk_enable second_bus_fails (core_clks demo_mngr) 2 1 [] of
     None \<Rightarrow> False | Some (rc, w') \<Rightarrow> rc = - ENOMEM \<and> (Clk_prepare_enable (Some 3), 0) \<in> set w'"
    by code_simp
  then obtain w' where w':
    "dsi_display_core_clk_enable second_bus_fails (core_clks demo_mngr) 2 1 [] = Some (- ENOMEM, w')"
    "(Clk_prepare_enable (Some 3), 0) \<in> set w'"
    by (auto split: option.splits)
  from w' show ?thesis
    using dsi_core_enable_atomic [OF w'(1) _ _ _ ok, of 1] dsi_core_enable_atomic [OF w'(1) _ _ _ ok, of 3]
    by (simp add: MAX_DSI_CTRL_def)
qed

text \<open>
  Enabling one kind of link clocks is all or nothing: if starting the high-speed or the
  low-power clocks of a display with at most two controllers fails, every enable count is what it
  was.
\<close>

theorem dsi_link_enable_atomic:
  assumes "dsi_display_link_clk_enable env splash ls l_type n m w = Some (rc, w')" and "rc \<noteq> 0"
    and "l_type = DSI_LINK_HS_CLK \<or> l_type = DSI_LINK_LP_CLK" and "n \<le> MAX_DSI_CTRL" and "m < n"
  shows "trace_sum (en_delta k) w' = trace_sum (en_delta k) w"
  using display_link_enable_hs_fail [of env splash ls n m w rc w' k]
    display_link_enable_lp_fail [of env splash ls n m w rc w' k] assms by blast

definition pixel_fails :: dsi_env where
  "pixel_fails w c = (if c = Clk_enable (Some 12) then - EINVAL else 0)"

theorem dsi_link_enable_atomic_witness:
  "case dsi_display_link_clk_enable pixel_fails True (link_clks demo_mngr) DSI_LINK_HS_CLK 2 1 [] of
     None \<Rightarrow> False
   | Some (rc, w') \<Rightarrow> rc = - EINVAL \<and> trace_sum (en_delta 21) w' = 0 \<and> (Clk_enable (Some 21), 0) \<in> set w'"
proof -
  have "case dsi_display_link_clk_enable pixel_fails True (link_clks demo_mngr) DSI_LINK_HS_CLK 2 1 [] of
     None \<Rightarrow> False | Some (rc, w') \<Rightarrow> rc = - EINVAL \<and> (Clk_enable (Some 21), 0) \<in> set w'"
    by code_simp
  then obtain w' where w':
    "dsi_display_link_clk_enable pixel_fails True (link_clks demo_mngr) DSI_LINK_HS_CLK 2 1 []
       = Some (- EINVAL, w')" "(Clk_enable (Some 21), 0) \<in> set w'"
    by (auto split: option.splits)
  from w' show ?thesis
    using dsi_link_enable_atomic [OF w'(1), of 21] by (simp add: MAX_DSI_CTRL_def)
qed

text \<open>
  C7. No undefined behaviour. In every run of a manager whose master index is below the controller
  count and which has a \<^verbatim>\<open>pre_clkon_cb\<close> (the one callback that the code calls without asking whether
  it is there; the other callbacks may be missing), requests and deregistrations of a registered client, a
  forced update and the deregistration of the manager return; none of them reads outside an array
  or calls a null pointer.
\<close>

theorem dsi_no_undefined_behaviour:
  assumes "dsi_run env ops (m, w)" and "master_ndx m < dsi_ctrl_count m" and "pre_clkon_cb m"
    and "get_client m h = Some c"
  shows "(\<exists>r. dsi_clk_req_state env m (Some h) clk st w = Some r)
    \<and> (\<exists>r. dsi_deregister_clk_handle env m (Some h) w = Some r)
    \<and> (\<exists>r. dsi_display_link_clk_force_update env m (Some h) w = Some r)
    \<and> (\<exists>r. dsi_display_clk_mngr_deregister env (Some m) w = Some r)"
proof -
  note safe = dsi_run_safe [OF assms(1-3)]
  have "defined (dsi_clk_req_state env m (Some h) clk st w)"
    "defined (dsi_deregister_clk_handle env m (Some h) w)"
    "defined (dsi_display_link_clk_force_update env m (Some h) w)"
    "defined (dsi_display_clk_mngr_deregister env (Some m) w)"
    unfolding dsi_clk_req_state_def dsi_deregister_clk_handle_def
      dsi_display_link_clk_force_update_def dsi_display_clk_mngr_deregister_def
    using safe assms(4)
    by (auto intro!: safe_intros recheck_defined link_state_defined)
  then show ?thesis by (blast dest: defined_ex)
qed

theorem dsi_no_undefined_behaviour_witness:
  "\<exists>r. dsi_clk_req_state all_ok (fst (snd demo_end)) (Some 100) 3 0 (snd (snd demo_end)) = Some r"
proof -
  have run: "dsi_run all_ok (fst demo_end) (fst (snd demo_end), snd (snd demo_end))"
    using demo_run by simp
  have "get_client (fst (snd demo_end)) 100 \<noteq> None" by code_simp
  then show ?thesis
    using dsi_no_undefined_behaviour [OF run demo_static] by blast
qed

text \<open>
  The gated link state and the enable counts. When the link clocks go from \<open>ON\<close> to
  \<open>EARLY_GATE\<close> and from there to \<open>OFF\<close>, both steps release them: afterwards every link clock has
  lost twice the enables it had gained when it was turned on. The core state does not matter; the
  clocks that the second step is meant to turn on first are selected by
  \<^verbatim>\<open>DSI_LINK_LP_CLK & DSI_LINK_HS_CLK\<close>, which is zero.
\<close>

theorem dsi_gate_then_off_releases_twice:
  assumes gate: "dsi_update_clk_state env m None c (Some (link_clks m)) DSI_CLK_EARLY_GATE w = Some (0, m1, w1)"
    and off: "dsi_update_clk_state env m1 None c (Some (link_clks m1)) DSI_CLK_OFF w1 = Some (0, m2, w2)"
  shows "trace_sum (en_delta k) w2 = trace_sum (en_delta k) w - 2 * link_total k m"
proof -
  have one: "trace_sum (en_delta k) w' = trace_sum (en_delta k) w - link_total k m"
    if upd: "dsi_update_clk_state env m None c (Some (link_clks m)) l w = Some (0, m', w')"
      and l: "l \<noteq> DSI_CLK_ON" for m l w m' w'
    using upd
  proof (cases rule: dsi_update_cases)
    case core_fail
    then show ?thesis using upd_core_on_Inl by blast
  next
    case link_fail
    then show ?thesis using upd_link_Inl by blast
  next
    case (through r1 f1 m1 w1 r2 f2 m2 w2)
    from through(1) have "m1 = m" "w1 = w" by (simp_all add: upd_core_on_def)
    moreover from this have "\<not> f2" using upd_link_sum(2) [OF through(2)] by auto
    ultimately show ?thesis
      using upd_link_sum(1) [OF through(2), of k] l through(3) by (simp add: upd_core_off_def)
  qed
  have m1: "m1 = m\<lparr>link_clk_state := DSI_CLK_EARLY_GATE\<rparr>"
    using dsi_update_frame(2) [OF gate refl] by simp
  from one [OF gate] one [OF off] show ?thesis by (simp add: m1)
qed

text \<open>The state of the example after its link clocks are gated, and after they are turned off.\<close>

definition demo_gate :: "int \<times> dsi_state" where
  "demo_gate = (let (m, w) = snd demo_end in
     the (dsi_update_clk_state all_ok m None DSI_CLK_ON (Some (link_clks m)) DSI_CLK_EARLY_GATE w))"

definition demo_off :: "int \<times> dsi_state" where
  "demo_off = (let (m, w) = snd demo_gate in
     the (dsi_update_clk_state all_ok m None DSI_CLK_ON (Some (link_clks m)) DSI_CLK_OFF w))"

theorem dsi_gate_then_off_releases_twice_witness:
  "link_clk_state (fst (snd demo_off)) = DSI_CLK_OFF \<and> trace_sum (en_delta 21) (snd (snd demo_off)) = - 1"
proof -
  have "dsi_update_clk_state all_ok (fst (snd demo_end)) None DSI_CLK_ON
        (Some (link_clks (fst (snd demo_end)))) DSI_CLK_EARLY_GATE (snd (snd demo_end))
      = Some (0, fst (snd demo_gate), snd (snd demo_gate))"
    "dsi_update_clk_state all_ok (fst (snd demo_gate)) None DSI_CLK_ON
        (Some (link_clks (fst (snd demo_gate)))) DSI_CLK_OFF (snd (snd demo_gate))
      = Some (0, fst (snd demo_off), snd (snd demo_off))"
    by code_simp+
  moreover have "trace_sum (en_delta 21) (snd (snd demo_end)) = 1" "link_total 21 (fst (snd demo_end)) = 1"
    "link_clk_state (fst (snd demo_off)) = DSI_CLK_OFF"
    by code_simp+
  ultimately show ?thesis
    using dsi_gate_then_off_releases_twice [of all_ok _ DSI_CLK_ON _ _ _ _ _ 21] by fastforce
qed

end
