(* ===== verification/Msm_Prop.thy ===== *)
theory Msm_Prop
  imports Sde_Prelude
begin

section \<open>Property helper: model\<close>

text \<open>
  \<^verbatim>\<open>msm/msm_prop.c\<close> and the inline functions of \<^verbatim>\<open>msm/msm_prop.h\<close>: custom properties of a DRM
  object. An info structure holds the property objects and their defaults; a state holds the value,
  the blob and the dirty mark of every property; properties that were set are queued until they are
  popped. A pointer argument that the code compares with \<^verbatim>\<open>NULL\<close> is an option. The intrusive kernel
  list is the sequence of the indices linked into it, together with the mark in each node that
  \<^verbatim>\<open>list_empty\<close> reads. The DRM core is a parameter: what it returns comes from the record
  \<open>drm\<close>, a function of the calls made so far. Log messages and the mutex are left out.
\<close>

definition MSM_PROP_STATE_CACHE_SIZE :: nat where
  "MSM_PROP_STATE_CACHE_SIZE = 2"

text \<open>The property flags of the DRM interface the code uses.\<close>

definition DRM_MODE_PROP_IMMUTABLE :: u32 where "DRM_MODE_PROP_IMMUTABLE = 4"
definition DRM_MODE_PROP_ENUM :: u32 where "DRM_MODE_PROP_ENUM = 8"
definition DRM_MODE_PROP_BLOB :: u32 where "DRM_MODE_PROP_BLOB = 16"
definition DRM_MODE_PROP_BITMASK :: u32 where "DRM_MODE_PROP_BITMASK = 32"

record msm_property_data =
  default_value :: u64
  force_dirty :: bool

record msm_property_value =
  "value" :: u64
  blob :: "nat option"
  dirty_node :: bool

record msm_property_info =
  base :: nat
  dev :: nat
  property_array :: "nat option list"
  property_data :: "msm_property_data list"
  property_count :: u32
  blob_count :: u32
  install_request :: u32
  install_count :: u32
  recent_idx :: int
  is_active :: bool
  state_cache :: "nat list"
  state_size :: u32

record msm_property_state =
  ps_property_count :: u32
  "values" :: "msm_property_value list option"
  dirty_list :: "nat list"

text \<open>
  The stored prefix of the array \<^verbatim>\<open>state_cache\<close> is a list, so its length is the field
  \<^verbatim>\<open>state_cache_size\<close>.
\<close>

subsection \<open>Calls to the DRM core and the allocator\<close>

datatype prop_call =
    Create_range nat u32 string u64 u64 "nat option"
  | Create_bitmask nat u32 string "(u64 \<times> string) list" "nat option"
  | Create_enum nat u32 string "(u64 \<times> string) list" "nat option"
  | Create_blob_prop nat u32 string "nat option"
  | Attach nat nat u64
  | Blob_put nat
  | Blob_get nat
  | Blob_lookup u32 "nat option"
  | Blob_create nat "int + nat"
  | Set_value nat "nat option" u64 int
  | Kmalloc u32 "nat option"
  | Kfree nat

type_synonym prop_trace = "prop_call list"

record drm =
  create_prop :: "prop_trace \<Rightarrow> nat option"
  prop_flags :: "nat \<Rightarrow> u32"
  lookup_blob :: "prop_trace \<Rightarrow> u32 \<Rightarrow> nat option"
  blob_base_id :: "nat \<Rightarrow> u32"
  blob_length :: "nat \<Rightarrow> nat"
  create_blob :: "prop_trace \<Rightarrow> nat \<Rightarrow> int + nat"
  set_value :: "prop_trace \<Rightarrow> int"
  kmalloc :: "prop_trace \<Rightarrow> nat option"

subsection \<open>Set-up\<close>

text \<open>
  The first four arguments are pointers; \<open>info\<close> is the structure filled in. The property data
  array is cleared.
\<close>

definition msm_property_init ::
    "msm_property_info option \<Rightarrow> nat option \<Rightarrow> nat option \<Rightarrow> nat option list option \<Rightarrow>
     msm_property_data list option \<Rightarrow> u32 \<Rightarrow> u32 \<Rightarrow> u32 \<Rightarrow> msm_property_info option" where
  "msm_property_init info b0 d0 pa0 pd0 pcount bcount ssize =
     (case (b0, d0, pa0, pd0) of
        (Some b, Some d, Some pa, Some pd) \<Rightarrow>
          (let bcount = (if bcount > pcount then pcount else bcount) in
           case info of
             None \<Rightarrow> None
           | Some i \<Rightarrow> Some \<lparr>base = b, dev = d, property_array = pa,
               property_data = replicate (unat pcount) \<lparr>default_value = 0, force_dirty = False\<rparr>
                 @ drop (unat pcount) pd,
               property_count = pcount, blob_count = bcount,
               install_request = 0, install_count = 0, recent_idx = 0, is_active = False,
               state_cache = [], state_size = ssize\<rparr>)
      | _ \<Rightarrow> info)"

text \<open>The cached states are freed, last one first.\<close>

definition msm_property_destroy ::
    "msm_property_info option \<Rightarrow> prop_trace \<Rightarrow> msm_property_info option \<times> prop_trace" where
  "msm_property_destroy info w =
     (case info of
        None \<Rightarrow> (None, w)
      | Some i \<Rightarrow> (Some (i\<lparr>state_cache := []\<rparr>), w @ map Kfree (rev (state_cache i))))"

subsection \<open>The queue of dirty properties\<close>

definition msm_property_pop_dirty ::
    "msm_property_info option \<Rightarrow> msm_property_state option \<Rightarrow> int \<times> msm_property_state option" where
  "msm_property_pop_dirty info ps =
     (case (info, ps) of
        (Some i, Some s) \<Rightarrow>
          (case values s of
             None \<Rightarrow> (- EINVAL, ps)
           | Some vs \<Rightarrow>
               (case dirty_list s of
                  [] \<Rightarrow> (- EAGAIN, ps)
                | item # rest \<Rightarrow>
                    (int item, Some (s\<lparr>values := Some (vs[item := (vs ! item)\<lparr>dirty_node := False\<rparr>]),
                                       dirty_list := rest\<rparr>))))
      | _ \<Rightarrow> (- EINVAL, ps))"

definition msm_property_set_dirty_no_lock ::
    "msm_property_info option \<Rightarrow> msm_property_state option \<Rightarrow> u32 \<Rightarrow> msm_property_state option option" where
  "msm_property_set_dirty_no_lock info ps idx =
     (case (info, ps) of
        (Some i, Some s) \<Rightarrow>
          (case values s of
             None \<Rightarrow> Some ps
           | Some vs \<Rightarrow>
               if idx \<ge> property_count i then Some ps
               else do {
                 v \<leftarrow> nth_opt vs (unat idx);
                 if dirty_node v then Some ps
                 else Some (Some (s\<lparr>values := Some (vs[unat idx := v\<lparr>dirty_node := True\<rparr>]),
                                    dirty_list := dirty_list s @ [unat idx]\<rparr>))
               })
      | _ \<Rightarrow> Some ps)"

definition msm_property_is_dirty ::
    "msm_property_info option \<Rightarrow> msm_property_state option \<Rightarrow> u32 \<Rightarrow> bool option" where
  "msm_property_is_dirty info ps idx =
     (case (info, ps) of
        (Some i, Some s) \<Rightarrow>
          (case values s of
             None \<Rightarrow> Some False
           | Some vs \<Rightarrow>
               if idx \<ge> property_count i then Some False
               else do { v \<leftarrow> nth_opt vs (unat idx); Some (dirty_node v) })
      | _ \<Rightarrow> Some False)"

definition msm_property_set_dirty ::
    "msm_property_info option \<Rightarrow> msm_property_state option \<Rightarrow> u32 \<Rightarrow>
     (int \<times> msm_property_state option) option" where
  "msm_property_set_dirty info ps idx =
     (if info = None \<or> ps = None \<or> map_option values ps = Some None then Some (- EINVAL, ps)
      else do {
        ps \<leftarrow> msm_property_set_dirty_no_lock info ps idx;
        Some (0, ps)
      })"

subsection \<open>Installing properties\<close>

text \<open>
  The common part of the installers: \<open>create\<close> is the call of the DRM core that makes the property
  object, used when there is none yet; then the defaults are saved, the property is attached with
  the value \<open>att\<close> if there is one, and counted.
\<close>

definition install_prop ::
    "drm \<Rightarrow> (nat option \<Rightarrow> prop_call) \<Rightarrow> u64 \<Rightarrow> bool \<Rightarrow> u64 \<Rightarrow> nat \<Rightarrow> msm_property_info \<Rightarrow>
     prop_trace \<Rightarrow> (msm_property_info \<times> prop_trace) option" where
  "install_prop d create init force att idx i w = do {
     p \<leftarrow> nth_opt (property_array i) idx;
     dat \<leftarrow> nth_opt (property_data i) idx;
     let (p, w) = (case p of Some x \<Rightarrow> (Some x, w)
                   | None \<Rightarrow> let r = create_prop d w in (r, w @ [create r]));
     let i = i\<lparr>property_array := (property_array i)[idx := p],
               property_data := (property_data i)[idx := dat\<lparr>default_value := init, force_dirty := force\<rparr>]\<rparr>;
     (case p of
        None \<Rightarrow> Some (i, w)
      | Some x \<Rightarrow> Some (i\<lparr>install_count := install_count i + 1\<rparr>, w @ [Attach (base i) x att]))
   }"

definition msm_property_install_integer ::
    "drm \<Rightarrow> msm_property_info option \<Rightarrow> string option \<Rightarrow> u32 \<Rightarrow> u64 \<Rightarrow> u64 \<Rightarrow> u64 \<Rightarrow> u32 \<Rightarrow> bool \<Rightarrow>
     prop_trace \<Rightarrow> (msm_property_info option \<times> prop_trace) option" where
  "msm_property_install_integer d info name flags mn mx init idx force w =
     (case info of
        None \<Rightarrow> Some (None, w)
      | Some i \<Rightarrow>
          (let i = i\<lparr>install_request := install_request i + 1\<rparr> in
           case name of
             None \<Rightarrow> Some (Some i, w)
           | Some n \<Rightarrow>
               if idx \<ge> property_count i then Some (Some i, w)
               else do {
                 (i, w) \<leftarrow> install_prop d (Create_range (dev i) flags n mn mx) init force init (unat idx) i w;
                 Some (Some i, w)
               }))"

definition msm_property_install_range ::
    "drm \<Rightarrow> msm_property_info option \<Rightarrow> string option \<Rightarrow> u32 \<Rightarrow> u64 \<Rightarrow> u64 \<Rightarrow> u64 \<Rightarrow> u32 \<Rightarrow>
     prop_trace \<Rightarrow> (msm_property_info option \<times> prop_trace) option" where
  "msm_property_install_range d info name flags mn mx init idx w =
     msm_property_install_integer d info name flags mn mx init idx False w"

definition msm_property_install_volatile_range ::
    "drm \<Rightarrow> msm_property_info option \<Rightarrow> string option \<Rightarrow> u32 \<Rightarrow> u64 \<Rightarrow> u64 \<Rightarrow> u64 \<Rightarrow> u32 \<Rightarrow>
     prop_trace \<Rightarrow> (msm_property_info option \<times> prop_trace) option" where
  "msm_property_install_volatile_range d info name flags mn mx init idx w =
     msm_property_install_integer d info name flags mn mx init idx True w"

text \<open>The values of an enumeration come as an array with its length; the first gives the default.\<close>

definition msm_property_install_enum ::
    "drm \<Rightarrow> msm_property_info option \<Rightarrow> string option \<Rightarrow> u32 \<Rightarrow> bool \<Rightarrow> (u64 \<times> string) list option \<Rightarrow> u32 \<Rightarrow>
     prop_trace \<Rightarrow> (msm_property_info option \<times> prop_trace) option" where
  "msm_property_install_enum d info name flags is_bitmask enum_values idx w =
     (case info of
        None \<Rightarrow> Some (None, w)
      | Some i \<Rightarrow>
          (let i = i\<lparr>install_request := install_request i + 1\<rparr> in
           case (name, enum_values) of
             (Some n, Some (v # vs)) \<Rightarrow>
               if idx \<ge> property_count i then Some (Some i, w)
               else (let create = (if is_bitmask
                                   then Create_bitmask (dev i) (DRM_MODE_PROP_BITMASK OR flags) n (v # vs)
                                   else Create_enum (dev i) (DRM_MODE_PROP_ENUM OR flags) n (v # vs));
                         init = (if is_bitmask then 0 else fst v) in
                     do {
                       (i, w) \<leftarrow> install_prop d create init False init (unat idx) i w;
                       Some (Some i, w)
                     })
           | _ \<Rightarrow> Some (Some i, w)))"

definition msm_property_install_blob ::
    "drm \<Rightarrow> msm_property_info option \<Rightarrow> string option \<Rightarrow> u32 \<Rightarrow> u32 \<Rightarrow> prop_trace \<Rightarrow>
     (msm_property_info option \<times> prop_trace) option" where
  "msm_property_install_blob d info name flags idx w =
     (case info of
        None \<Rightarrow> Some (None, w)
      | Some i \<Rightarrow>
          (let i = i\<lparr>install_request := install_request i + 1\<rparr> in
           case name of
             None \<Rightarrow> Some (Some i, w)
           | Some n \<Rightarrow>
               if idx \<ge> blob_count i then Some (Some i, w)
               else do {
                 (i, w) \<leftarrow> install_prop d (Create_blob_prop (dev i) (DRM_MODE_PROP_BLOB OR flags) n)
                             0 True (- 1) (unat idx) i w;
                 Some (Some i, w)
               }))"

definition msm_property_install_get_status :: "msm_property_info option \<Rightarrow> int" where
  "msm_property_install_get_status info =
     (case info of None \<Rightarrow> - ENOMEM
      | Some i \<Rightarrow> if install_request i = install_count i then 0 else - ENOMEM)"

subsection \<open>Finding a property\<close>

text \<open>
  The search starts at the index found last and walks down, from 0 to the last index, for as many
  steps as there are properties. The index is a signed 32-bit integer; \<open>None\<close> is an access outside
  the array, \<open>Some None\<close> the end of the search.
\<close>

definition nth_int :: "'a list \<Rightarrow> int \<Rightarrow> 'a option" where
  "nth_int xs i = (if 0 \<le> i then nth_opt xs (nat i) else None)"

fun index_loop :: "nat option list \<Rightarrow> u32 \<Rightarrow> nat \<Rightarrow> nat \<Rightarrow> int \<Rightarrow> int option option" where
  "index_loop arr n p 0 idx = Some None"
| "index_loop arr n p (Suc count) idx = do {
     x \<leftarrow> nth_int arr idx;
     if x = Some p then Some (Some idx)
     else index_loop arr n p count (if idx - 1 < 0 then sint (n - 1) else idx - 1)
   }"

definition msm_property_index ::
    "msm_property_info option \<Rightarrow> nat option \<Rightarrow> (int \<times> msm_property_info option) option" where
  "msm_property_index info property =
     (case (info, property) of
        (Some i, Some p) \<Rightarrow> do {
          r \<leftarrow> index_loop (property_array i) (property_count i) p (unat (property_count i)) (recent_idx i);
          (case r of
             None \<Rightarrow> Some (- EINVAL, Some i)
           | Some idx \<Rightarrow> Some (idx, Some (i\<lparr>recent_idx := idx\<rparr>)))
        }
      | _ \<Rightarrow> Some (- EINVAL, info))"

subsection \<open>Setting and reading values\<close>

text \<open>
  The blob part of a set: the reference to the previous blob is dropped, the new one is looked up,
  which takes a reference, and stored; an identifier that is not found is replaced by 0.
\<close>

definition atomic_set_blob ::
    "drm \<Rightarrow> nat \<Rightarrow> msm_property_value list \<Rightarrow> u64 \<Rightarrow> prop_trace \<Rightarrow>
     (u64 \<times> msm_property_value list \<times> prop_trace) option" where
  "atomic_set_blob d idx vs val w = do {
     v \<leftarrow> nth_opt vs idx;
     let w = (case blob v of None \<Rightarrow> w | Some b \<Rightarrow> w @ [Blob_put b]);
     let r = lookup_blob d w (ucast val);
     let w = w @ [Blob_lookup (ucast val) r];
     if val \<noteq> 0 \<and> r = None then Some (0, vs, w)
     else Some (case r of None \<Rightarrow> val | Some b \<Rightarrow> ucast (blob_base_id d b), vs[idx := v\<lparr>blob := r\<rparr>], w)
   }"

definition msm_property_atomic_set ::
    "drm \<Rightarrow> msm_property_info option \<Rightarrow> msm_property_state option \<Rightarrow> nat option \<Rightarrow> u64 \<Rightarrow> prop_trace \<Rightarrow>
     (int \<times> msm_property_info option \<times> msm_property_state option \<times> prop_trace) option" where
  "msm_property_atomic_set d info ps property val w =
     (case (info, ps) of
        (Some i, Some s) \<Rightarrow> do {
          (idx, info) \<leftarrow> msm_property_index info property;
          (case (values s, property) of
             (Some vs, Some p) \<Rightarrow>
               if idx = - EINVAL then Some (- EINVAL, info, ps, w)
               else do {
                 (val, vs, w) \<leftarrow>
                   (if prop_flags d p AND DRM_MODE_PROP_BLOB \<noteq> 0 \<and> word_of_int idx < blob_count i
                    then atomic_set_blob d (nat idx) vs val w else Some (val, vs, w));
                 v \<leftarrow> nth_int vs idx;
                 changed \<leftarrow> (if value v \<noteq> val then Some True
                            else map_option force_dirty (nth_int (property_data i) idx));
                 let s = s\<lparr>values := Some vs\<rparr>;
                 if changed then do {
                   let s = s\<lparr>values := Some (vs[nat idx := v\<lparr>value := val\<rparr>])\<rparr>;
                   ps \<leftarrow> msm_property_set_dirty_no_lock info (Some s) (word_of_int idx);
                   Some (0, info, ps, w)
                 } else Some (0, info, Some s, w)
               }
           | _ \<Rightarrow> Some (- EINVAL, info, ps, w))
        }
      | _ \<Rightarrow> Some (- EINVAL, info, ps, w))"

text \<open>The value read is the second result; \<open>val\<close> tells whether the out pointer is valid.\<close>

definition msm_property_atomic_get ::
    "msm_property_info option \<Rightarrow> msm_property_state option \<Rightarrow> nat option \<Rightarrow> bool \<Rightarrow>
     (int \<times> u64 option \<times> msm_property_info option) option" where
  "msm_property_atomic_get info ps property val = do {
     (idx, info) \<leftarrow> msm_property_index info property;
     if info = None \<or> idx = - EINVAL then Some (- EINVAL, None, info)
     else do {
       s \<leftarrow> ps;
       (case values s of
          None \<Rightarrow> Some (- EINVAL, None, info)
        | Some vs \<Rightarrow>
            if \<not> val then Some (- EINVAL, None, info)
            else do { v \<leftarrow> nth_int vs idx; Some (0, Some (value v), info) })
     }
   }"

subsection \<open>State objects\<close>

definition msm_property_alloc_state ::
    "drm \<Rightarrow> msm_property_info option \<Rightarrow> prop_trace \<Rightarrow>
     nat option \<times> msm_property_info option \<times> prop_trace" where
  "msm_property_alloc_state d info w =
     (case info of
        None \<Rightarrow> (None, None, w)
      | Some i \<Rightarrow>
          if state_cache i \<noteq> []
          then (Some (last (state_cache i)), Some (i\<lparr>state_cache := butlast (state_cache i)\<rparr>), w)
          else if state_size i \<noteq> 0
          then let r = kmalloc d w in (r, Some i, w @ [Kmalloc (state_size i) r])
          else (None, Some i, w))"

definition msm_property_free_state ::
    "msm_property_info option \<Rightarrow> nat option \<Rightarrow> prop_trace \<Rightarrow> msm_property_info option \<times> prop_trace" where
  "msm_property_free_state info st w =
     (case (info, st) of
        (Some i, Some p) \<Rightarrow>
          if length (state_cache i) < MSM_PROP_STATE_CACHE_SIZE
          then (Some (i\<lparr>state_cache := state_cache i @ [p]\<rparr>), w)
          else (Some i, w @ [Kfree p])
      | _ \<Rightarrow> (info, w))"

text \<open>
  The loops over the values. The array has \<^verbatim>\<open>property_count\<close> elements; \<open>None\<close> where it, or the
  array of defaults, is shorter.
\<close>

definition reset_value :: "msm_property_data \<Rightarrow> msm_property_value" where
  "reset_value dat = \<lparr>value = default_value dat, blob = None, dirty_node = False\<rparr>"

definition msm_property_reset_state ::
    "msm_property_info option \<Rightarrow> msm_property_state option \<Rightarrow> msm_property_value list option \<Rightarrow>
     (msm_property_state option \<times> msm_property_value list option) option" where
  "msm_property_reset_state info ps vals =
     (case info of
        None \<Rightarrow> Some (ps, vals)
      | Some i \<Rightarrow> do {
          vals \<leftarrow> (case vals of
             None \<Rightarrow> Some None
           | Some vs \<Rightarrow>
               let n = unat (property_count i) in
               if n \<le> length vs \<and> n \<le> length (property_data i)
               then Some (Some (map reset_value (take n (property_data i)) @ drop n vs)) else None);
          Some (map_option (\<lambda>s. s\<lparr>ps_property_count := property_count i, values := vals,
                                  dirty_list := []\<rparr>) ps, vals)
        })"

text \<open>
  Duplication. The state objects embed their property state and their values: the copy of the bytes
  of \<open>old_state\<close> puts the old values into the array of the new state, and \<open>vals\<close> is that array.
\<close>

fun dup_values :: "nat \<Rightarrow> msm_property_value list \<Rightarrow> prop_trace \<Rightarrow>
    (msm_property_value list \<times> prop_trace) option" where
  "dup_values 0 vs w = Some (vs, w)"
| "dup_values (Suc n) [] w = None"
| "dup_values (Suc n) (v # vs) w = do {
     let w = (case blob v of None \<Rightarrow> w | Some b \<Rightarrow> w @ [Blob_get b]);
     (vs, w) \<leftarrow> dup_values n vs w;
     Some (v\<lparr>dirty_node := False\<rparr> # vs, w)
   }"

definition msm_property_duplicate_state ::
    "msm_property_info option \<Rightarrow> bool \<Rightarrow> bool \<Rightarrow> msm_property_state option \<Rightarrow>
     msm_property_value list option \<Rightarrow> prop_trace \<Rightarrow> (msm_property_state option \<times> prop_trace) option" where
  "msm_property_duplicate_state info old_state state ps vals w =
     (case info of
        None \<Rightarrow> Some (ps, w)
      | Some i \<Rightarrow>
          if \<not> old_state \<or> \<not> state then Some (ps, w)
          else (case ps of
             None \<Rightarrow> Some (None, w)
           | Some s \<Rightarrow>
               (case vals of
                  None \<Rightarrow> Some (Some (s\<lparr>dirty_list := [], values := None\<rparr>), w)
                | Some vs \<Rightarrow> do {
                    (vs, w) \<leftarrow> dup_values (unat (property_count i)) vs w;
                    Some (Some (s\<lparr>dirty_list := [], values := Some vs\<rparr>), w)
                  })))"

fun put_values :: "nat \<Rightarrow> msm_property_value list \<Rightarrow> prop_trace \<Rightarrow>
    (msm_property_value list \<times> prop_trace) option" where
  "put_values 0 vs w = Some (vs, w)"
| "put_values (Suc n) [] w = None"
| "put_values (Suc n) (v # vs) w = do {
     let w = (case blob v of None \<Rightarrow> w | Some b \<Rightarrow> w @ [Blob_put b]);
     (vs, w) \<leftarrow> put_values n vs w;
     Some (v\<lparr>blob := None\<rparr> # vs, w)
   }"

definition msm_property_destroy_state ::
    "msm_property_info option \<Rightarrow> nat option \<Rightarrow> msm_property_state option \<Rightarrow> prop_trace \<Rightarrow>
     (msm_property_info option \<times> msm_property_state option \<times> prop_trace) option" where
  "msm_property_destroy_state info state ps w =
     (case (info, state) of
        (Some i, Some st) \<Rightarrow> do {
          (ps, w) \<leftarrow> (case ps of
             None \<Rightarrow> Some (None, w)
           | Some s \<Rightarrow>
               (case values s of
                  None \<Rightarrow> Some (Some s, w)
                | Some vs \<Rightarrow> do {
                    (vs, w) \<leftarrow> put_values (unat (property_count i)) vs w;
                    Some (Some (s\<lparr>values := Some vs\<rparr>), w)
                  }));
          let (info, w) = msm_property_free_state info state w;
          Some (info, ps, w)
        }
      | _ \<Rightarrow> Some (info, ps, w))"

subsection \<open>Blobs and immutable properties\<close>

text \<open>The data of a blob is its address; the second result is \<^verbatim>\<open>*byte_len\<close>.\<close>

definition msm_property_get_blob ::
    "drm \<Rightarrow> msm_property_info option \<Rightarrow> msm_property_state option \<Rightarrow> u32 \<Rightarrow> (nat option \<times> nat) option" where
  "msm_property_get_blob d info ps idx =
     (case (info, ps) of
        (Some i, Some s) \<Rightarrow>
          (case values s of
             None \<Rightarrow> Some (None, 0)
           | Some vs \<Rightarrow>
               if idx \<ge> blob_count i then Some (None, 0)
               else do {
                 v \<leftarrow> nth_opt vs (unat idx);
                 Some (case blob v of None \<Rightarrow> (None, 0) | Some b \<Rightarrow> (Some b, blob_length d b))
               })
      | _ \<Rightarrow> Some (None, 0))"

text \<open>
  \<open>blob_reference\<close> is the pointer to the caller's blob pointer; \<open>has_data\<close> is whether the data
  pointer is valid. The DRM core creates a blob (\<open>Inr\<close>) or gives an error pointer (\<open>Inl\<close>).
\<close>

definition msm_property_set_blob ::
    "drm \<Rightarrow> msm_property_info option \<Rightarrow> nat option option \<Rightarrow> bool \<Rightarrow> nat \<Rightarrow> u32 \<Rightarrow> prop_trace \<Rightarrow>
     (int \<times> nat option option \<times> prop_trace) option" where
  "msm_property_set_blob d info blob_reference has_data byte_len idx w =
     (case (info, blob_reference) of
        (Some i, Some ref) \<Rightarrow>
          if idx \<ge> blob_count i then Some (- EINVAL, blob_reference, w)
          else do {
            let (r, w) = (if has_data \<and> byte_len \<noteq> 0
                          then let r = create_blob d w byte_len in
                               (case r of Inl e \<Rightarrow> Inl e | Inr b \<Rightarrow> Inr (Some b), w @ [Blob_create byte_len r])
                          else (Inr None, w));
            (case r of
               Inl e \<Rightarrow> Some (e, blob_reference, w)
             | Inr new \<Rightarrow> do {
                 p \<leftarrow> nth_opt (property_array i) (unat idx);
                 let rc = set_value d w;
                 let w = w @ [Set_value (base i) p
                                (case new of None \<Rightarrow> 0 | Some b \<Rightarrow> ucast (blob_base_id d b)) rc];
                 if rc \<noteq> 0
                 then Some (rc, blob_reference, w @ (case new of None \<Rightarrow> [] | Some b \<Rightarrow> [Blob_put b]))
                 else Some (rc, Some new, w @ (case ref of None \<Rightarrow> [] | Some b \<Rightarrow> [Blob_put b]))
               })
          }
      | _ \<Rightarrow> Some (- EINVAL, blob_reference, w))"

definition msm_property_set_property ::
    "drm \<Rightarrow> msm_property_info option \<Rightarrow> msm_property_state option \<Rightarrow> u32 \<Rightarrow> u64 \<Rightarrow> prop_trace \<Rightarrow>
     (int \<times> msm_property_info option \<times> msm_property_state option \<times> prop_trace) option" where
  "msm_property_set_property d info ps idx val w =
     (case (info, ps) of
        (Some i, Some s) \<Rightarrow>
          (case values s of
             None \<Rightarrow> Some (- EINVAL, info, ps, w)
           | Some vs \<Rightarrow>
               if idx \<ge> property_count i \<or> idx < blob_count i then Some (- EINVAL, info, ps, w)
               else do {
                 v \<leftarrow> nth_opt vs (unat idx);
                 p \<leftarrow> nth_opt (property_array i) (unat idx);
                 prop \<leftarrow> p;
                 i \<leftarrow> (if prop_flags d prop AND DRM_MODE_PROP_IMMUTABLE \<noteq> 0
                      then do {
                        dat \<leftarrow> nth_opt (property_data i) (unat idx);
                        Some (i\<lparr>property_data :=
                                (property_data i)[unat idx := dat\<lparr>default_value := val\<rparr>]\<rparr>)
                      } else Some i);
                 let rc = set_value d w;
                 Some (rc, Some i, Some (s\<lparr>values := Some (vs[unat idx := v\<lparr>value := val\<rparr>])\<rparr>),
                       w @ [Set_value (base i) (Some prop) val rc])
               })
      | _ \<Rightarrow> Some (- EINVAL, info, ps, w))"

subsection \<open>Inline helpers of the header\<close>

definition msm_property_index_to_drm_property ::
    "msm_property_info option \<Rightarrow> u32 \<Rightarrow> nat option option" where
  "msm_property_index_to_drm_property info idx =
     (case info of
        None \<Rightarrow> Some None
      | Some i \<Rightarrow> if idx \<ge> property_count i then Some None else nth_opt (property_array i) (unat idx))"

definition msm_property_get_default :: "msm_property_info option \<Rightarrow> u32 \<Rightarrow> u64 option" where
  "msm_property_get_default info idx =
     (case info of
        None \<Rightarrow> Some 0
      | Some i \<Rightarrow> if idx < property_count i
                  then map_option default_value (nth_opt (property_data i) (unat idx)) else Some 0)"

definition msm_property_set_is_active ::
    "msm_property_info option \<Rightarrow> bool \<Rightarrow> msm_property_info option" where
  "msm_property_set_is_active info active = map_option (\<lambda>i. i\<lparr>is_active := active\<rparr>) info"

definition msm_property_get_is_active :: "msm_property_info option \<Rightarrow> bool" where
  "msm_property_get_is_active info = (case info of None \<Rightarrow> False | Some i \<Rightarrow> is_active i)"

end
