(* ===== verification/Msm_Prop_Inv.thy ===== *)
theory Msm_Prop_Inv
  imports Msm_Prop
begin

section \<open>Property helper: invariants\<close>

text \<open>
  The search for a property, the queue of dirty properties as an instance of a queue without
  repetitions, and the references to blobs that the states hold.
\<close>

subsection \<open>Well-formed info structures and the search\<close>

definition info_ok :: "msm_property_info \<Rightarrow> bool" where
  "info_ok i \<longleftrightarrow> length (property_array i) = unat (property_count i)
     \<and> length (property_data i) = unat (property_count i) \<and> unat (property_count i) < 2 ^ 31
     \<and> 0 \<le> recent_idx i \<and> (property_count i = 0 \<or> nat (recent_idx i) < unat (property_count i))
     \<and> blob_count i \<le> property_count i \<and> length (state_cache i) \<le> MSM_PROP_STATE_CACHE_SIZE"

lemma mod_step_down:
  fixes idx k N :: int
  assumes "0 \<le> idx" "idx < N"
  shows "((if idx - 1 < 0 then N - 1 else idx - 1) - k) mod N = (idx - (k + 1)) mod N"
proof (cases "idx - 1 < 0")
  case True
  with assms have "idx = 0" by simp
  moreover have "(N - 1 - k) mod N = (N + (- (k + 1))) mod N" by (simp add: algebra_simps)
  ultimately show ?thesis by (simp add: minus_mod_self1 del: minus_add_distrib)
qed (simp add: algebra_simps)

text \<open>
  From index \<open>idx\<close> the search looks at \<open>idx\<close>, \<open>idx - 1\<close>, and so on, modulo the number of
  properties; it stays inside the array and ends.
\<close>

lemma index_loop_spec:
  assumes "length arr = N" and "N < 2 ^ 31" and "unat n = N" and "0 \<le> idx" and "idx < int N"
  shows "(index_loop arr n p count idx = Some None \<and>
      (\<forall>k < count. arr ! nat ((idx - int k) mod int N) \<noteq> Some p))
    \<or> (\<exists>j. index_loop arr n p count idx = Some (Some j) \<and> 0 \<le> j \<and> j < int N \<and> arr ! nat j = Some p)"
  using assms(4,5)
proof (induction count arbitrary: idx)
  case 0
  then show ?case by simp
next
  case (Suc count)
  let ?next = "if idx - 1 < 0 then sint (n - 1) else idx - 1"
  have last: "sint (n - 1) = int N - 1"
    using Suc.prems assms(2) sint_last [of n] assms(3) by simp
  have acc: "nth_int arr idx = Some (arr ! nat idx)"
    using Suc.prems assms(1) by (simp add: nth_int_def nat_less_iff)
  show ?case
  proof (cases "arr ! nat idx = Some p")
    case True
    with Suc.prems acc show ?thesis by simp
  next
    case False
    have range: "0 \<le> ?next" "?next < int N" using Suc.prems last by auto
    have shift: "(?next - int k) mod int N = (idx - int (Suc k)) mod int N" for k
      by (simp only: last mod_step_down [OF Suc.prems] of_nat_Suc add.commute)
    have here: "arr ! nat (idx mod int N) \<noteq> Some p"
      using False Suc.prems by simp
    have eq: "index_loop arr n p (Suc count) idx = index_loop arr n p count ?next"
      using acc False by simp
    show ?thesis
      unfolding eq using Suc.IH [OF range, unfolded shift] here
      by (auto simp: less_Suc_eq_0_disj)
  qed
qed

lemma all_indices_visited:
  assumes "0 < N" and "j < N"
  shows "\<exists>k < N. nat ((idx - int k) mod int N) = j"
proof -
  let ?k = "nat ((idx - int j) mod int N)"
  have "(idx - int ?k) mod int N = (idx - (idx - int j) mod int N) mod int N"
    using assms by simp
  also have "\<dots> = int j" using assms by (simp add: mod_diff_right_eq)
  finally have "nat ((idx - int ?k) mod int N) = j" by simp
  moreover have "?k < N"
    using assms by (simp add: nat_less_iff)
  ultimately show ?thesis by blast
qed

lemma property_index_cases:
  assumes "info_ok i"
  obtains (found) j where "msm_property_index (Some i) (Some p) = Some (int j, Some (i\<lparr>recent_idx := int j\<rparr>))"
      "j < unat (property_count i)" "property_array i ! j = Some p"
  | (missing) "msm_property_index (Some i) (Some p) = Some (- EINVAL, Some i)"
      "Some p \<notin> set (property_array i)"
proof (cases "property_count i = 0")
  case True
  with assms have "property_array i = []" by (simp add: info_ok_def)
  with True show ?thesis by (intro missing) (simp_all add: msm_property_index_def)
next
  case False
  let ?n = "property_count i"
  have pos: "0 < unat ?n" using False unat_gt_0 by blast
  have ok: "length (property_array i) = unat ?n" "unat ?n < 2 ^ 31" "unat ?n = unat ?n" "0 \<le> recent_idx i"
    "recent_idx i < int (unat ?n)"
    using assms False unfolding info_ok_def by linarith+
  from index_loop_spec [OF ok, of p "unat ?n"] show ?thesis
  proof (elim disjE conjE exE)
    assume loop: "index_loop (property_array i) ?n p (unat ?n) (recent_idx i) = Some None"
      and none: "\<forall>k < unat ?n. property_array i ! nat ((recent_idx i - int k) mod int (unat ?n)) \<noteq> Some p"
    have "property_array i ! j \<noteq> Some p" if "j < unat ?n" for j
      using all_indices_visited [OF pos that, of "recent_idx i"] none by blast
    with loop ok(1) show ?thesis
      by (intro missing) (auto simp: msm_property_index_def in_set_conv_nth)
  next
    fix j
    assume "index_loop (property_array i) ?n p (unat ?n) (recent_idx i) = Some (Some j)"
      "0 \<le> j" "j < int (unat ?n)" "property_array i ! nat j = Some p"
    then show ?thesis
      by (intro found [of "nat j"]) (simp_all add: msm_property_index_def nat_less_iff)
  qed
qed

lemma info_ok_recent: "info_ok i \<Longrightarrow> j < unat (property_count i) \<Longrightarrow> info_ok (i\<lparr>recent_idx := int j\<rparr>)"
  by (simp add: info_ok_def)

subsection \<open>A queue without repetitions\<close>

text \<open>
  What the users of the dirty list rely on: pushing an element that is queued does nothing,
  pushing another one appends it, popping takes the oldest one, and the mark of an element says
  whether it is queued.
\<close>

primrec pops :: "('s \<Rightarrow> (nat \<times> 's) option) \<Rightarrow> nat \<Rightarrow> 's \<Rightarrow> nat list \<times> 's" where
  "pops pop 0 s = ([], s)"
| "pops pop (Suc n) s =
     (case pop s of None \<Rightarrow> ([], s) | Some (x, s') \<Rightarrow> (let (xs, s'') = pops pop n s' in (x # xs, s'')))"

locale uniq_queue =
  fixes ok :: "'s \<Rightarrow> bool" and valid :: "'s \<Rightarrow> nat \<Rightarrow> bool" and queue :: "'s \<Rightarrow> nat list"
    and marked :: "'s \<Rightarrow> nat \<Rightarrow> bool" and push :: "nat \<Rightarrow> 's \<Rightarrow> 's" and pop :: "'s \<Rightarrow> (nat \<times> 's) option"
  assumes push_ok: "ok s \<Longrightarrow> valid s x \<Longrightarrow> ok (push x s)"
    and push_queue: "ok s \<Longrightarrow> valid s x \<Longrightarrow>
      queue (push x s) = (if x \<in> set (queue s) then queue s else queue s @ [x])"
    and pop_empty: "ok s \<Longrightarrow> queue s = [] \<Longrightarrow> pop s = None"
    and pop_queue: "ok s \<Longrightarrow> queue s = x # xs \<Longrightarrow> \<exists>s'. pop s = Some (x, s') \<and> queue s' = xs \<and> ok s'"
    and marked_queue: "ok s \<Longrightarrow> valid s x \<Longrightarrow> marked s x \<longleftrightarrow> x \<in> set (queue s)"
    and queue_distinct: "ok s \<Longrightarrow> distinct (queue s)"
begin

lemma pops_queue:
  "ok s \<Longrightarrow> length (queue s) \<le> n \<Longrightarrow>
     \<exists>s'. pops pop n s = (queue s, s') \<and> queue s' = [] \<and> ok s'"
proof (induction n arbitrary: s)
  case 0
  then show ?case by simp
next
  case (Suc n)
  show ?case
  proof (cases "queue s")
    case Nil
    with Suc.prems show ?thesis by (simp add: pop_empty)
  next
    case (Cons x xs)
    from pop_queue [OF Suc.prems(1) Cons] obtain s' where
      s': "pop s = Some (x, s')" "queue s' = xs" "ok s'" by blast
    with Suc.IH [of s'] Suc.prems(2) Cons show ?thesis by auto
  qed
qed

lemma push_idem: "ok s \<Longrightarrow> valid s x \<Longrightarrow> valid (push x s) x \<Longrightarrow> queue (push x (push x s)) = queue (push x s)"
  by (simp add: push_queue push_ok)

lemma push_marked: "ok s \<Longrightarrow> valid s x \<Longrightarrow> valid (push x s) x \<Longrightarrow> marked (push x s) x"
  by (simp add: marked_queue push_ok push_queue)

end

text \<open>Well-formed property states.\<close>

definition state_ok :: "msm_property_info \<Rightarrow> msm_property_state \<Rightarrow> bool" where
  "state_ok i s \<longleftrightarrow> (case values s of None \<Rightarrow> False
     | Some vs \<Rightarrow> length vs = unat (property_count i) \<and> distinct (dirty_list s)
         \<and> set (dirty_list s) \<subseteq> {..<length vs}
         \<and> (\<forall>j < length vs. dirty_node (vs ! j) \<longleftrightarrow> j \<in> set (dirty_list s)))"

lemma state_okE:
  assumes "state_ok i s"
  obtains vs where "values s = Some vs" "length vs = unat (property_count i)" "distinct (dirty_list s)"
    "set (dirty_list s) \<subseteq> {..<length vs}"
    "\<And>j. j < length vs \<Longrightarrow> dirty_node (vs ! j) \<longleftrightarrow> j \<in> set (dirty_list s)"
  using assms by (auto simp: state_ok_def split: option.splits)

lemma state_ok_static:
  "property_count i' = property_count i \<Longrightarrow> state_ok i' s = state_ok i s"
  by (simp add: state_ok_def split: option.split)

text \<open>Writing the value or the blob of a property keeps the queue.\<close>

lemma state_ok_write:
  assumes "state_ok i s" and "values s = Some vs" and "k < length vs"
    and "dirty_node v = dirty_node (vs ! k)"
  shows "state_ok i (s\<lparr>values := Some (vs[k := v])\<rparr>)"
  using assms by (auto simp: state_ok_def nth_list_update)

definition mark_dirty :: "msm_property_info \<Rightarrow> nat \<Rightarrow> msm_property_state \<Rightarrow> msm_property_state" where
  "mark_dirty i j s = the (the (msm_property_set_dirty_no_lock (Some i) (Some s) (word_of_nat j)))"

lemma set_dirty_no_lock:
  assumes "state_ok i s" and "j < unat (property_count i)"
  shows "msm_property_set_dirty_no_lock (Some i) (Some s) (word_of_nat j) = Some (Some (mark_dirty i j s))"
    and "dirty_list (mark_dirty i j s) = (if j \<in> set (dirty_list s) then dirty_list s else dirty_list s @ [j])"
    and "state_ok i (mark_dirty i j s)"
    and "map_option (map value) (values (mark_dirty i j s)) = map_option (map value) (values s)"
    and "map_option (map blob) (values (mark_dirty i j s)) = map_option (map blob) (values s)"
proof -
  from assms(1) obtain vs where vs: "values s = Some vs" "length vs = unat (property_count i)"
    "distinct (dirty_list s)" "set (dirty_list s) \<subseteq> {..<length vs}"
    "\<And>j. j < length vs \<Longrightarrow> dirty_node (vs ! j) \<longleftrightarrow> j \<in> set (dirty_list s)"
    by (rule state_okE) blast
  have j: "unat (word_of_nat j :: u32) = j"
    using assms(2) by (rule unat_word_of_nat)
  have lt: "\<not> property_count i \<le> word_of_nat j"
    using assms(2) j by (simp add: word_le_nat_alt)
  have eq: "msm_property_set_dirty_no_lock (Some i) (Some s) (word_of_nat j)
      = Some (Some (if j \<in> set (dirty_list s) then s
          else s\<lparr>values := Some (vs[j := (vs ! j)\<lparr>dirty_node := True\<rparr>]), dirty_list := dirty_list s @ [j]\<rparr>))"
    using vs(1,2) assms(2) j lt vs(5) [of j] by (simp add: msm_property_set_dirty_no_lock_def)
  then have md: "mark_dirty i j s = (if j \<in> set (dirty_list s) then s
      else s\<lparr>values := Some (vs[j := (vs ! j)\<lparr>dirty_node := True\<rparr>]), dirty_list := dirty_list s @ [j]\<rparr>)"
    by (simp add: mark_dirty_def)
  show "msm_property_set_dirty_no_lock (Some i) (Some s) (word_of_nat j) = Some (Some (mark_dirty i j s))"
    by (simp add: eq md)
  show "dirty_list (mark_dirty i j s) = (if j \<in> set (dirty_list s) then dirty_list s else dirty_list s @ [j])"
    by (simp add: md)
  show "state_ok i (mark_dirty i j s)"
    using vs assms(1,2) by (auto simp: md state_ok_def nth_list_update)
  show "map_option (map value) (values (mark_dirty i j s)) = map_option (map value) (values s)"
    "map_option (map blob) (values (mark_dirty i j s)) = map_option (map blob) (values s)"
    by (simp_all add: md vs(1) map_update_same)
qed

text \<open>A pop, as the option of the oldest index and the state without it.\<close>

definition pop_dirty :: "msm_property_info \<Rightarrow> msm_property_state \<Rightarrow> (nat \<times> msm_property_state) option" where
  "pop_dirty i s = (case msm_property_pop_dirty (Some i) (Some s) of (rc, ps) \<Rightarrow>
     if rc < 0 then None else Some (nat rc, the ps))"

lemma pop_dirty_ok:
  assumes "state_ok i s" and "dirty_list s = x # xs"
  shows "\<exists>s'. msm_property_pop_dirty (Some i) (Some s) = (int x, Some s') \<and> dirty_list s' = xs \<and> state_ok i s'
    \<and> map_option (map value) (values s') = map_option (map value) (values s)
    \<and> map_option (map blob) (values s') = map_option (map blob) (values s)"
proof -
  from assms(1) obtain vs where vs: "values s = Some vs" "length vs = unat (property_count i)"
    "distinct (dirty_list s)" "set (dirty_list s) \<subseteq> {..<length vs}"
    "\<And>j. j < length vs \<Longrightarrow> dirty_node (vs ! j) \<longleftrightarrow> j \<in> set (dirty_list s)"
    by (rule state_okE) blast
  have x: "x < length vs" "x \<notin> set xs" "distinct xs" "set xs \<subseteq> {..<length vs}"
    using vs(3,4) assms(2) by auto
  let ?s' = "s\<lparr>values := Some (vs[x := (vs ! x)\<lparr>dirty_node := False\<rparr>]), dirty_list := xs\<rparr>"
  have "state_ok i ?s'"
    using vs x assms(2) by (auto simp: state_ok_def nth_list_update)
  moreover have "msm_property_pop_dirty (Some i) (Some s) = (int x, Some ?s')"
    using vs(1) assms(2) by (simp add: msm_property_pop_dirty_def)
  moreover have "map value (vs[x := (vs ! x)\<lparr>dirty_node := False\<rparr>]) = map value vs"
    "map blob (vs[x := (vs ! x)\<lparr>dirty_node := False\<rparr>]) = map blob vs"
    by (simp_all add: map_update_same)
  ultimately show ?thesis using vs(1) by auto
qed

interpretation dirty: uniq_queue "state_ok i" "\<lambda>_ j. j < unat (property_count i)" dirty_list
    "\<lambda>s j. msm_property_is_dirty (Some i) (Some s) (word_of_nat j) = Some True" "mark_dirty i" "pop_dirty i" for i
proof unfold_locales
  fix s x assume ok: "state_ok i s" and x: "x < unat (property_count i)"
  from ok obtain vs where vs: "values s = Some vs" "length vs = unat (property_count i)"
    "\<And>j. j < length vs \<Longrightarrow> dirty_node (vs ! j) \<longleftrightarrow> j \<in> set (dirty_list s)"
    by (rule state_okE) blast
  have j: "unat (word_of_nat x :: u32) = x"
    using x by (rule unat_word_of_nat)
  show "msm_property_is_dirty (Some i) (Some s) (word_of_nat x) = Some True \<longleftrightarrow> x \<in> set (dirty_list s)"
    using vs x j by (simp add: msm_property_is_dirty_def word_le_nat_alt)
next
  fix s assume "state_ok i s" "dirty_list s = []"
  then show "pop_dirty i s = None"
    by (auto simp: pop_dirty_def msm_property_pop_dirty_def state_ok_def split: option.splits)
next
  fix s x xs assume "state_ok i s" "dirty_list s = x # xs"
  from pop_dirty_ok [OF this] show "\<exists>s'. pop_dirty i s = Some (x, s') \<and> dirty_list s' = xs \<and> state_ok i s'"
    by (auto simp: pop_dirty_def)
qed (auto simp: set_dirty_no_lock elim: state_okE)

subsection \<open>Setting a property\<close>

definition put_ev :: "msm_property_value \<Rightarrow> prop_trace" where
  "put_ev v = (case blob v of None \<Rightarrow> [] | Some b \<Rightarrow> [Blob_put b])"

lemma atomic_set_blob_eq:
  assumes "j < length vs" and "r = lookup_blob d (w @ put_ev (vs ! j)) (ucast val)"
  shows "atomic_set_blob d j vs val w = Some (
    if val \<noteq> 0 \<and> r = None then 0 else case r of None \<Rightarrow> val | Some b \<Rightarrow> ucast (blob_base_id d b),
    if val \<noteq> 0 \<and> r = None then vs else vs[j := (vs ! j)\<lparr>blob := r\<rparr>],
    w @ put_ev (vs ! j) @ [Blob_lookup (ucast val) r])"
  using assms by (simp add: atomic_set_blob_def Let_def put_ev_def split: option.splits)

text \<open>What the blob part hands on to the rest of a set.\<close>

definition set_part ::
    "drm \<Rightarrow> msm_property_info \<Rightarrow> nat \<Rightarrow> nat \<Rightarrow> msm_property_value list \<Rightarrow> u64 \<Rightarrow> prop_trace \<Rightarrow>
     (u64 \<times> msm_property_value list \<times> prop_trace) option" where
  "set_part d i p j vs val w =
     (if prop_flags d p AND DRM_MODE_PROP_BLOB \<noteq> 0 \<and> (word_of_nat j :: u32) < blob_count i
      then atomic_set_blob d j vs val w else Some (val, vs, w))"

lemma set_part_ok:
  assumes "j < length vs"
  obtains val' vs' w' where "set_part d i p j vs val w = Some (val', vs', w')"
    "length vs' = length vs" "map value vs' = map value vs" "map dirty_node vs' = map dirty_node vs"
proof (cases "prop_flags d p AND DRM_MODE_PROP_BLOB \<noteq> 0 \<and> (word_of_nat j :: u32) < blob_count i")
  case True
  then have "set_part d i p j vs val w = atomic_set_blob d j vs val w"
    by (simp add: set_part_def)
  from that [OF this [unfolded atomic_set_blob_eq [OF assms refl]]] show ?thesis
    by (simp add: map_update_same)
next
  case False
  then have "set_part d i p j vs val w = Some (val, vs, w)"
    by (auto simp: set_part_def)
  from that [OF this] show ?thesis by simp
qed

lemma atomic_set_cases:
  assumes "info_ok i" and "state_ok i s" and "values s = Some vs"
  obtains (missing) "Some p \<notin> set (property_array i)"
      "msm_property_atomic_set d (Some i) (Some s) (Some p) val w = Some (- EINVAL, Some i, Some s, w)"
      "msm_property_index (Some i) (Some p) = Some (- EINVAL, Some i)"
  | (updated) j val' vs' w' s' where
      "j < unat (property_count i)" "property_array i ! j = Some p"
      "set_part d i p j vs val w = Some (val', vs', w')"
      "msm_property_atomic_set d (Some i) (Some s) (Some p) val w
         = Some (0, Some (i\<lparr>recent_idx := int j\<rparr>), Some s', w')"
      "state_ok i s'"
      "map_option (map value) (values s') = Some ((map value vs)[j := val'])"
      "map_option (map blob) (values s') = Some (map blob vs')"
      "dirty_list s' = (if (value (vs ! j) \<noteq> val' \<or> force_dirty (property_data i ! j))
           \<and> j \<notin> set (dirty_list s) then dirty_list s @ [j] else dirty_list s)"
      "msm_property_index (Some i) (Some p) = Some (int j, Some (i\<lparr>recent_idx := int j\<rparr>))"
  using assms(1)
proof (cases rule: property_index_cases [where p = p])
  case missing
  then show ?thesis
    using assms by (intro that(1)) (simp_all add: msm_property_atomic_set_def)
next
  case (found j)
  let ?i = "i\<lparr>recent_idx := int j\<rparr>"
  have len: "length vs = unat (property_count i)"
    using assms(2,3) by (auto elim: state_okE)
  with found have j: "j < length vs" by simp
  obtain val' vs' w' where part: "set_part d i p j vs val w = Some (val', vs', w')"
    and vs': "length vs' = length vs" "map value vs' = map value vs" "map dirty_node vs' = map dirty_node vs"
    by (rule set_part_ok [OF j])
  let ?v = "vs' ! j"
  have same: "value ?v = value (vs ! j)" "dirty_node (vs' ! k) = dirty_node (vs ! k)" if "k < length vs" for k
    using vs' j that by (metis nth_map)+
  have dat: "j < length (property_data i)" using assms(1) found(2) by (simp add: info_ok_def)
  let ?s1 = "s\<lparr>values := Some vs'\<rparr>" and ?s2 = "s\<lparr>values := Some (vs'[j := ?v\<lparr>value := val'\<rparr>])\<rparr>"
  have ok1: "state_ok ?i ?s1"
    using assms(2,3) vs'(1) same by (auto simp: state_ok_def)
  have ok2: "state_ok ?i ?s2"
    using state_ok_write [OF ok1, of vs' j "?v\<lparr>value := val'\<rparr>"] vs'(1) j by simp
  have dn: "j < unat (property_count ?i)" using found(2) by simp
  define changed where "changed \<longleftrightarrow> value (vs ! j) \<noteq> val' \<or> force_dirty (property_data i ! j)"
  define s' where "s' = (if changed then mark_dirty ?i j ?s2 else ?s1)"
  have "msm_property_atomic_set d (Some i) (Some s) (Some p) val w = do {
      (val, vs, w) \<leftarrow> set_part d i p j vs val w;
      v \<leftarrow> nth_int vs (int j);
      changed \<leftarrow> (if value v \<noteq> val then Some True else map_option force_dirty (nth_int (property_data i) (int j)));
      if changed then do {
        ps \<leftarrow> msm_property_set_dirty_no_lock (Some ?i)
                (Some (s\<lparr>values := Some (vs[j := v\<lparr>value := val\<rparr>])\<rparr>)) (word_of_nat j);
        Some (0, Some ?i, ps, w)
      } else Some (0, Some ?i, Some (s\<lparr>values := Some vs\<rparr>), w)
    }"
    using found(1) assms(3) by (simp add: msm_property_atomic_set_def set_part_def Let_def cong: if_cong)
  then have res: "msm_property_atomic_set d (Some i) (Some s) (Some p) val w = Some (0, Some ?i, Some s', w')"
    using part j vs'(1) dat set_dirty_no_lock(1) [OF ok2 dn] same(1) [OF j]
    by (simp add: nth_int_def s'_def changed_def)
  have "state_ok ?i s'"
    using ok1 set_dirty_no_lock(3) [OF ok2 dn] by (simp add: s'_def)
  then have "state_ok i s'" using state_ok_static [of ?i i s'] by simp
  moreover have "map_option (map value) (values s') = Some ((map value vs)[j := val'])"
    using set_dirty_no_lock(4) [OF ok2 dn] vs'(2) j
    by (auto simp: s'_def changed_def map_update) (metis list_update_id nth_map)
  moreover have "map_option (map blob) (values s') = Some (map blob vs')"
    using set_dirty_no_lock(5) [OF ok2 dn] by (simp add: s'_def map_update_same)
  moreover have "dirty_list s' = (if (value (vs ! j) \<noteq> val' \<or> force_dirty (property_data i ! j))
      \<and> j \<notin> set (dirty_list s) then dirty_list s @ [j] else dirty_list s)"
    using set_dirty_no_lock(2) [OF ok2 dn] by (simp add: s'_def changed_def)
  ultimately show ?thesis
    using found part res by (intro that(2))
qed

subsection \<open>References to blobs\<close>

text \<open>
  The DRM core counts the references to a blob: a lookup, a get and a creation take one, a put
  drops one. A state holds one reference for each of its properties that has the blob.
\<close>

fun ref_delta :: "nat \<Rightarrow> prop_call \<Rightarrow> int" where
  "ref_delta b (Blob_put c) = (if c = b then - 1 else 0)"
| "ref_delta b (Blob_get c) = (if c = b then 1 else 0)"
| "ref_delta b (Blob_lookup _ r) = (if r = Some b then 1 else 0)"
| "ref_delta b (Blob_create _ r) = (if r = Inr b then 1 else 0)"
| "ref_delta b _ = 0"

definition refs :: "nat \<Rightarrow> prop_trace \<Rightarrow> int" where
  "refs b w = (\<Sum>c\<leftarrow>w. ref_delta b c)"

lemma refs_simps [simp]:
  "refs b [] = 0" "refs b (u @ w) = refs b u + refs b w" "refs b (c # w) = ref_delta b c + refs b w"
  by (simp_all add: refs_def)

definition has_blob :: "nat \<Rightarrow> nat option \<Rightarrow> int" where
  "has_blob b x = (if x = Some b then 1 else 0)"

definition blob_refs :: "nat \<Rightarrow> nat option list \<Rightarrow> int" where
  "blob_refs b xs = (\<Sum>x\<leftarrow>xs. has_blob b x)"

lemma blob_refs_simps [simp]:
  "blob_refs b [] = 0" "blob_refs b (x # xs) = has_blob b x + blob_refs b xs"
  by (simp_all add: blob_refs_def)

definition held :: "nat \<Rightarrow> msm_property_state \<Rightarrow> int" where
  "held b s = (case values s of None \<Rightarrow> 0 | Some vs \<Rightarrow> blob_refs b (map blob vs))"

lemma held_same:
  "map_option (map blob) (values s') = map_option (map blob) (values s) \<Longrightarrow> held b s' = held b s"
  by (auto simp: held_def split: option.splits)

lemma blob_refs_none [simp]: "blob_refs b (map (\<lambda>_. None) xs) = 0"
  by (induction xs) (auto simp: has_blob_def)

lemma held_cong:
  "map_option (map blob) (values s) = Some (map blob vs) \<Longrightarrow> held b s = blob_refs b (map blob vs)"
  by (auto simp: held_def)

lemma held_upd:
  assumes "j < length vs"
  shows "blob_refs b (map blob (vs[j := v]))
    = blob_refs b (map blob vs) + has_blob b (blob v) - has_blob b (blob (vs ! j))"
  using sum_list_upd [of j "map (has_blob b) (map blob vs)" "has_blob b (blob v)"] assms
  by (simp add: map_update blob_refs_def)

lemma refs_put_ev [simp]: "refs b (put_ev v) = - has_blob b (blob v)"
  by (simp add: put_ev_def has_blob_def split: option.split)

text \<open>A set gives the reference of the old blob for that of the new one, if the lookup finds it.\<close>

definition lookup_ok :: "u64 \<Rightarrow> prop_trace \<Rightarrow> bool" where
  "lookup_ok val u \<longleftrightarrow> val = 0 \<or> (\<forall>c \<in> set u. case c of Blob_lookup _ r \<Rightarrow> r \<noteq> None | _ \<Rightarrow> True)"

lemma set_part_refs:
  assumes "set_part d i p j vs val w = Some (val', vs', w')" and "j < length vs"
    and "lookup_ok val (drop (length w) w')"
  shows "refs b w' - refs b w = blob_refs b (map blob vs') - blob_refs b (map blob vs)"
proof (cases "prop_flags d p AND DRM_MODE_PROP_BLOB \<noteq> 0 \<and> (word_of_nat j :: u32) < blob_count i")
  case True
  let ?r = "lookup_blob d (w @ put_ev (vs ! j)) (ucast val)"
  from True assms(1) have w': "w' = w @ put_ev (vs ! j) @ [Blob_lookup (ucast val) ?r]"
    and vs': "vs' = (if val \<noteq> 0 \<and> ?r = None then vs else vs[j := (vs ! j)\<lparr>blob := ?r\<rparr>])"
    by (simp_all add: set_part_def atomic_set_blob_eq [OF assms(2) refl] split: if_splits)
  have "\<not> (val \<noteq> 0 \<and> ?r = None)"
    using assms(3) unfolding w' by (auto simp: lookup_ok_def)
  then have "vs' = vs[j := (vs ! j)\<lparr>blob := ?r\<rparr>]" unfolding vs' by (rule if_not_P)
  then show ?thesis
    using held_upd [OF assms(2), of b "(vs ! j)\<lparr>blob := ?r\<rparr>"] by (simp add: w' has_blob_def)
next
  case False
  with assms(1) show ?thesis by (auto simp: set_part_def)
qed

lemma dup_values_eq:
  "\<exists>u. dup_values (length vs) vs w = Some (map (\<lambda>v. v\<lparr>dirty_node := False\<rparr>) vs, w @ u)
     \<and> refs b u = blob_refs b (map blob vs)"
proof (induction vs arbitrary: w)
  case (Cons v vs)
  define g where "g = (case blob v of None \<Rightarrow> [] | Some b \<Rightarrow> [Blob_get b])"
  from Cons [of "w @ g"] obtain u where
    "dup_values (length vs) vs (w @ g) = Some (map (\<lambda>v. v\<lparr>dirty_node := False\<rparr>) vs, (w @ g) @ u)"
    "refs b u = blob_refs b (map blob vs)" by blast
  then show ?case
    by (intro exI [of _ "g @ u"]) (auto simp: g_def has_blob_def split: option.splits)
qed simp

lemma put_values_eq:
  "\<exists>u. put_values (length vs) vs w = Some (map (\<lambda>v. v\<lparr>blob := None\<rparr>) vs, w @ u)
     \<and> refs b u = - blob_refs b (map blob vs)"
proof (induction vs arbitrary: w)
  case (Cons v vs)
  from Cons [of "w @ put_ev v"] obtain u where
    "put_values (length vs) vs (w @ put_ev v) = Some (map (\<lambda>v. v\<lparr>blob := None\<rparr>) vs, (w @ put_ev v) @ u)"
    "refs b u = - blob_refs b (map blob vs)" by blast
  then show ?case
    by (intro exI [of _ "put_ev v @ u"]) (auto simp: put_ev_def has_blob_def split: option.splits)
qed simp

text \<open>
  Runs over several states of one object: a state is reset, duplicated, changed, popped and
  destroyed. The run keeps the list of all states that ever existed; a destroyed one holds no
  blob. Sets are those whose blob, if they name one, is found.
\<close>

inductive prop_step :: "drm \<Rightarrow> msm_property_info \<times> msm_property_state list \<times> prop_trace \<Rightarrow>
    msm_property_info \<times> msm_property_state list \<times> prop_trace \<Rightarrow> bool" for d where
  reset: "msm_property_reset_state (Some i) (Some s) (Some vs) = Some (Some s', vs') \<Longrightarrow>
      length vs = unat (property_count i) \<Longrightarrow> prop_step d (i, ss, w) (i, ss @ [s'], w)"
| set: "k < length ss \<Longrightarrow>
      msm_property_atomic_set d (Some i) (Some (ss ! k)) (Some p) val w = Some (rc, Some i', Some s', w') \<Longrightarrow>
      lookup_ok val (drop (length w) w') \<Longrightarrow> prop_step d (i, ss, w) (i', ss[k := s'], w')"
| set_property: "k < length ss \<Longrightarrow>
      msm_property_set_property d (Some i) (Some (ss ! k)) idx val w = Some (rc, Some i', Some s', w') \<Longrightarrow>
      prop_step d (i, ss, w) (i', ss[k := s'], w')"
| pop: "k < length ss \<Longrightarrow> msm_property_pop_dirty (Some i) (Some (ss ! k)) = (rc, Some s') \<Longrightarrow>
      prop_step d (i, ss, w) (i, ss[k := s'], w)"
| set_dirty: "k < length ss \<Longrightarrow> msm_property_set_dirty (Some i) (Some (ss ! k)) idx = Some (rc, Some s') \<Longrightarrow>
      prop_step d (i, ss, w) (i, ss[k := s'], w)"
| duplicate: "k < length ss \<Longrightarrow>
      msm_property_duplicate_state (Some i) True True (Some (ss ! k)) (values (ss ! k)) w = Some (Some s', w') \<Longrightarrow>
      prop_step d (i, ss, w) (i, ss @ [s'], w')"
| destroy: "k < length ss \<Longrightarrow>
      msm_property_destroy_state (Some i) (Some st) (Some (ss ! k)) w = Some (Some i', Some s', w') \<Longrightarrow>
      prop_step d (i, ss, w) (i', ss[k := s'], w')"

inductive prop_run :: "drm \<Rightarrow> msm_property_info \<Rightarrow> msm_property_info \<times> msm_property_state list \<times> prop_trace \<Rightarrow> bool"
  for d i0 where
  start: "prop_run d i0 (i0, [], [])"
| step: "prop_run d i0 x \<Longrightarrow> prop_step d x y \<Longrightarrow> prop_run d i0 y"

definition held_total :: "nat \<Rightarrow> msm_property_state list \<Rightarrow> int" where
  "held_total b ss = (\<Sum>s\<leftarrow>ss. held b s)"

lemma held_total_simps [simp]:
  "held_total b [] = 0" "held_total b (ss @ [s]) = held_total b ss + held b s"
  by (simp_all add: held_total_def)

lemma held_total_upd:
  "k < length ss \<Longrightarrow> held_total b (ss[k := s]) = held_total b ss + held b s - held b (ss ! k)"
  using sum_list_upd [of k "map (held b) ss" "held b s"] by (simp add: held_total_def map_update)

definition world_ok :: "msm_property_info \<times> msm_property_state list \<times> prop_trace \<Rightarrow> bool" where
  "world_ok x \<longleftrightarrow> (case x of (i, ss, w) \<Rightarrow> info_ok i \<and> (\<forall>s \<in> set ss. state_ok i s)
     \<and> (\<forall>b. refs b w = held_total b ss))"

text \<open>Each operation on one state: what it does to the state and to the references.\<close>

lemma reset_ok:
  assumes "msm_property_reset_state (Some i) (Some s) (Some vs) = Some (Some s', vs')"
    and "length vs = unat (property_count i)"
  shows "state_ok i s' \<and> held b s' = 0"
  using assms
  by (auto simp: msm_property_reset_state_def Let_def state_ok_def held_def reset_value_def has_blob_def
      o_def split: if_splits)

lemma atomic_set_ok:
  assumes "info_ok i" and "state_ok i s"
    and set: "msm_property_atomic_set d (Some i) (Some s) (Some p) val w = Some (rc, Some i', Some s', w')"
    and "lookup_ok val (drop (length w) w')"
  shows "info_ok i' \<and> property_count i' = property_count i \<and> state_ok i s'
    \<and> refs b w' - refs b w = held b s' - held b s"
proof -
  from assms(2) obtain vs where vs: "values s = Some vs" "length vs = unat (property_count i)"
    by (rule state_okE) blast
  show ?thesis
    using assms(1,2) vs(1)
  proof (cases rule: atomic_set_cases [where p = p and d = d and val = val and w = w])
    case missing
    with assms set show ?thesis by auto
  next
    case (updated j val' vs' w2 s2)
    then have eq: "i' = i\<lparr>recent_idx := int j\<rparr>" "s' = s2" "w' = w2" using set by auto
    have "refs b w' - refs b w = blob_refs b (map blob vs') - blob_refs b (map blob vs)"
      using set_part_refs [OF updated(3)] assms(4) updated(1) vs(2) eq by simp
    moreover have "held b s' = blob_refs b (map blob vs')"
      using updated(7) eq by (intro held_cong) simp
    moreover have "held b s = blob_refs b (map blob vs)"
      using vs(1) by (simp add: held_def)
    ultimately show ?thesis
      using updated(1,5) eq info_ok_recent [OF assms(1) updated(1)] by simp
  qed
qed

lemma set_property_ok:
  assumes "info_ok i" and "state_ok i s"
    and "msm_property_set_property d (Some i) (Some s) idx val w = Some (rc, Some i', Some s', w')"
  shows "info_ok i' \<and> property_count i' = property_count i \<and> state_ok i s' \<and> refs b w' = refs b w \<and> held b s' = held b s"
proof -
  from assms(2) obtain vs where vs: "values s = Some vs" "length vs = unat (property_count i)"
    by (rule state_okE) blast
  have keep: "map blob (vs[k := (vs ! k)\<lparr>value := val\<rparr>]) = map blob vs" for k
    by (rule map_update_same) simp
  from assms(3) vs show ?thesis
    using assms(1,2) state_ok_write [OF assms(2) vs(1)] keep
    by (auto simp: msm_property_set_property_def Let_def nth_opt_Some_iff held_def info_ok_def
        split: if_splits bind_splits)
qed

lemma pop_ok:
  assumes "state_ok i s" and "msm_property_pop_dirty (Some i) (Some s) = (rc, Some s')"
  shows "state_ok i s' \<and> held b s' = held b s"
proof (cases "dirty_list s")
  case Nil
  with assms show ?thesis
    by (auto simp: msm_property_pop_dirty_def split: option.splits)
next
  case (Cons x xs)
  from pop_dirty_ok [OF assms(1) Cons] assms(2) have "state_ok i s'"
    "map_option (map blob) (values s') = map_option (map blob) (values s)" by auto
  then show ?thesis by (blast intro: held_same)
qed

lemma set_dirty_ok:
  assumes "state_ok i s" and "msm_property_set_dirty (Some i) (Some s) idx = Some (rc, Some s')"
  shows "state_ok i s' \<and> held b s' = held b s"
proof -
  from assms(1) obtain vs where vs: "values s = Some vs" "length vs = unat (property_count i)"
    by (rule state_okE) blast
  show ?thesis
  proof (cases "idx < property_count i")
    case True
    then have "unat idx < unat (property_count i)" by (simp add: word_less_nat_alt)
    note m = set_dirty_no_lock [OF assms(1) this]
    from m(1) assms(2) vs(1) have "s' = mark_dirty i (unat idx) s"
      by (auto simp: msm_property_set_dirty_def split: bind_splits if_splits)
    with m(3,5) show ?thesis by (blast intro: held_same)
  next
    case False
    with assms vs(1) show ?thesis
      by (auto simp: msm_property_set_dirty_def msm_property_set_dirty_no_lock_def not_less
          split: bind_splits)
  qed
qed

lemma duplicate_ok:
  assumes "state_ok i s"
    and "msm_property_duplicate_state (Some i) True True (Some s) (values s) w = Some (Some s', w')"
  shows "state_ok i s' \<and> dirty_list s' = [] \<and> refs b w' = refs b w + held b s' \<and> held b s' = held b s
    \<and> map_option (map value) (values s') = map_option (map value) (values s)"
proof -
  from assms(1) obtain vs where vs: "values s = Some vs" "length vs = unat (property_count i)"
    by (rule state_okE) blast
  from dup_values_eq [of vs w b] obtain u where
    "dup_values (length vs) vs w = Some (map (\<lambda>v. v\<lparr>dirty_node := False\<rparr>) vs, w @ u)"
    "refs b u = blob_refs b (map blob vs)" by blast
  with assms(2) vs show ?thesis
    by (auto simp: msm_property_duplicate_state_def state_ok_def held_def o_def)
qed

lemma destroy_ok:
  assumes "info_ok i" and "state_ok i s"
    and "msm_property_destroy_state (Some i) (Some st) (Some s) w = Some (Some i', Some s', w')"
  shows "info_ok i' \<and> property_count i' = property_count i \<and> state_ok i s'
    \<and> refs b w' = refs b w - held b s \<and> held b s' = 0"
proof -
  from assms(2) obtain vs where vs: "values s = Some vs" "length vs = unat (property_count i)"
    by (rule state_okE) blast
  from put_values_eq [of vs w b] obtain u where
    "put_values (length vs) vs w = Some (map (\<lambda>v. v\<lparr>blob := None\<rparr>) vs, w @ u)"
    "refs b u = - blob_refs b (map blob vs)" by blast
  with assms vs show ?thesis
    by (auto simp: msm_property_destroy_state_def msm_property_free_state_def state_ok_def held_def
        o_def has_blob_def info_ok_def split: if_splits)
qed

lemma world_upd:
  assumes "world_ok (i, ss, w)" and "k < length ss" and "info_ok i'"
    and "property_count i' = property_count i" and "state_ok i s'"
    and "\<And>b. refs b w' - refs b w = held b s' - held b (ss ! k)"
  shows "world_ok (i', ss[k := s'], w')"
proof -
  have "state_ok i' s" if "s \<in> set (ss[k := s'])" for s
    using that assms(1,4,5) set_update_subset_insert [of ss k s'] state_ok_static [OF assms(4)]
    by (auto simp: world_ok_def)
  moreover have "refs b w' = held_total b (ss[k := s'])" for b
    using assms(1) assms(6) [of b] held_total_upd [OF assms(2), of b s'] by (simp add: world_ok_def)
  ultimately show ?thesis using assms(3) by (simp add: world_ok_def)
qed

lemma world_add:
  assumes "world_ok (i, ss, w)" and "state_ok i s'" and "\<And>b. refs b w' = refs b w + held b s'"
  shows "world_ok (i, ss @ [s'], w')"
  using assms by (auto simp: world_ok_def)

lemma prop_step_world:
  assumes "prop_step d x y" and "world_ok x"
  shows "world_ok y"
  using assms
proof (cases rule: prop_step.cases)
  case (reset i s vs s' vs' ss w)
  with assms(2) reset_ok [OF reset(3,4)] show ?thesis by (auto intro!: world_add)
next
  case (set k ss i p val w rc i' s' w')
  then have "info_ok i" "state_ok i (ss ! k)" using assms(2) by (auto simp: world_ok_def)
  from atomic_set_ok [OF this set(4,5)] set assms(2) show ?thesis by (auto intro!: world_upd)
next
  case (set_property k ss i idx val w rc i' s' w')
  then have "info_ok i" "state_ok i (ss ! k)" using assms(2) by (auto simp: world_ok_def)
  from set_property_ok [OF this set_property(4)] set_property assms(2) show ?thesis
    by (auto intro!: world_upd)
next
  case (pop k ss i rc s' w)
  then have "info_ok i" "state_ok i (ss ! k)" using assms(2) by (auto simp: world_ok_def)
  with pop_ok [OF this(2) pop(4)] pop assms(2) show ?thesis by (auto intro!: world_upd)
next
  case (set_dirty k ss i idx rc s' w)
  then have "info_ok i" "state_ok i (ss ! k)" using assms(2) by (auto simp: world_ok_def)
  with set_dirty_ok [OF this(2) set_dirty(4)] set_dirty assms(2) show ?thesis
    by (auto intro!: world_upd)
next
  case (duplicate k ss i w s' w')
  then have "state_ok i (ss ! k)" using assms(2) by (auto simp: world_ok_def)
  from duplicate_ok [OF this duplicate(4)] duplicate assms(2) show ?thesis
    by (auto intro!: world_add)
next
  case (destroy k ss i st w i' s' w')
  then have "info_ok i" "state_ok i (ss ! k)" using assms(2) by (auto simp: world_ok_def)
  from destroy_ok [OF this destroy(4)] destroy assms(2) show ?thesis by (auto intro!: world_upd)
qed

lemma prop_run_world: "prop_run d i0 x \<Longrightarrow> info_ok i0 \<Longrightarrow> world_ok x"
proof (induction rule: prop_run.induct)
  case start
  then show ?case by (simp add: world_ok_def)
qed (blast intro: prop_step_world)

end
