(* ===== verification/Msm_Prop_Props.thy ===== *)
theory Msm_Prop_Props
  imports Msm_Prop_Inv
begin

section \<open>Property helper: what its users rely on\<close>

text \<open>
  The properties of \<^verbatim>\<open>msm/msm_prop.c\<close>, with an example of two properties, the first one a blob.
\<close>

subsection \<open>An example object\<close>

definition demo_drm :: drm where
  "demo_drm = \<lparr>create_prop = (\<lambda>w. Some (50 + length w)), prop_flags = (\<lambda>p. if p = 50 then 16 else 0),
     lookup_blob = (\<lambda>w id. if id = 0 \<or> id > 100 then None else Some (1000 + unat id)),
     blob_base_id = (\<lambda>b. word_of_nat (b - 1000)), blob_length = (\<lambda>b. 4), create_blob = (\<lambda>w n. Inr 2000),
     set_value = (\<lambda>w. 0), kmalloc = (\<lambda>w. Some (300 + length w))\<rparr>"

definition demo_info0 :: msm_property_info where
  "demo_info0 = \<lparr>base = 0, dev = 0, property_array = [], property_data = [], property_count = 0,
     blob_count = 0, install_request = 0, install_count = 0, recent_idx = 0, is_active = False,
     state_cache = [], state_size = 0\<rparr>"

definition demo_installed :: "msm_property_info \<times> prop_trace" where
  "demo_installed = the (do {
     let i = the (msm_property_init (Some demo_info0) (Some 1) (Some 2) (Some [None, None])
                    (Some [\<lparr>default_value = 9, force_dirty = True\<rparr>, \<lparr>default_value = 9, force_dirty = True\<rparr>])
                    2 1 64);
     (i, w) \<leftarrow> msm_property_install_blob demo_drm (Some i) (Some ''lut'') 0 0 [];
     (i, w) \<leftarrow> msm_property_install_range demo_drm i (Some ''zpos'') 0 0 255 7 1 w;
     Some (the i, w)
   })"

definition demo_i :: msm_property_info where
  "demo_i = fst demo_installed"

definition demo_s :: msm_property_state where
  "demo_s = the (fst (the (msm_property_reset_state (Some demo_i)
     (Some \<lparr>ps_property_count = 0, values = None, dirty_list = []\<rparr>)
     (Some (replicate 2 \<lparr>value = 0, blob = None, dirty_node = False\<rparr>)))))"

lemma demo_i_ok: "info_ok demo_i"
proof -
  have "length (property_array demo_i) = 2" "length (property_data demo_i) = 2" "property_count demo_i = 2"
    "recent_idx demo_i = 0" "blob_count demo_i = 1" "state_cache demo_i = []"
    by code_simp+
  then show ?thesis by (simp add: info_ok_def)
qed

lemma demo_s_ok: "state_ok demo_i demo_s"
proof -
  have "values demo_s = Some [\<lparr>value = 0, blob = None, dirty_node = False\<rparr>, \<lparr>value = 7, blob = None, dirty_node = False\<rparr>]"
    "dirty_list demo_s = []" "unat (property_count demo_i) = 2"
    by code_simp+
  then show ?thesis by (auto simp: state_ok_def nth_Cons' split: if_splits)
qed

subsection \<open>The properties\<close>

text \<open>
  C9. The search finds every installed property. For a well-formed info structure
  \<^verbatim>\<open>msm_property_index\<close> returns and stays inside the property array; it returns an index at which
  the property is, and remembers it, if the property is in the array, and \<^verbatim>\<open>-EINVAL\<close> with nothing
  changed if it is not. Where the search starts does not matter.
\<close>

theorem property_index_correct:
  assumes "info_ok i"
  shows "if Some p \<in> set (property_array i)
    then \<exists>j < unat (property_count i). property_array i ! j = Some p \<and>
      msm_property_index (Some i) (Some p) = Some (int j, Some (i\<lparr>recent_idx := int j\<rparr>))
      \<and> info_ok (i\<lparr>recent_idx := int j\<rparr>)
    else msm_property_index (Some i) (Some p) = Some (- EINVAL, Some i)"
  using assms
proof (cases rule: property_index_cases [where p = p])
  case (found j)
  moreover have "Some p \<in> set (property_array i)"
    using found assms by (auto simp: info_ok_def in_set_conv_nth)
  ultimately show ?thesis using info_ok_recent [OF assms found(2)] by auto
qed simp

theorem property_index_correct_witness:
  "\<exists>j < unat (property_count demo_i). property_array demo_i ! j = Some 52 \<and>
     msm_property_index (Some demo_i) (Some 52) = Some (int j, Some (demo_i\<lparr>recent_idx := int j\<rparr>))
     \<and> info_ok (demo_i\<lparr>recent_idx := int j\<rparr>)"
proof -
  have "property_array demo_i = [Some 50, Some 52]" by code_simp
  with property_index_correct [OF demo_i_ok, of 52] show ?thesis by simp
qed

lemma dirty_list_length: "state_ok i s \<Longrightarrow> length (dirty_list s) \<le> unat (property_count i)"
  by (erule state_okE) (metis card_lessThan card_mono distinct_card finite_lessThan)

lemma not_dirty:
  "state_ok i s \<Longrightarrow> k < unat (property_count i) \<Longrightarrow> dirty_list s = [] \<Longrightarrow>
     msm_property_is_dirty (Some i) (Some s) (word_of_nat k) = Some False"
  by (erule state_okE) (simp add: msm_property_is_dirty_def word_le_nat_alt)

text \<open>
  C10. The dirty properties form a queue without repetitions. Marking property \<open>j\<close> dirty appends
  it to the queue unless it is queued; popping as often as there are properties then gives exactly
  the queued properties, oldest first, after which the queue reports \<^verbatim>\<open>-EAGAIN\<close> and no property is
  dirty.
\<close>

theorem dirty_properties_queue:
  assumes "state_ok i s" and "j < unat (property_count i)"
  shows "\<exists>s' s''. msm_property_set_dirty (Some i) (Some s) (word_of_nat j) = Some (0, Some s')
    \<and> state_ok i s'
    \<and> pops (pop_dirty i) (unat (property_count i)) s'
        = (if j \<in> set (dirty_list s) then dirty_list s else dirty_list s @ [j], s'')
    \<and> msm_property_pop_dirty (Some i) (Some s'') = (- EAGAIN, Some s'')
    \<and> (\<forall>k < unat (property_count i). msm_property_is_dirty (Some i) (Some s'') (word_of_nat k) = Some False)"
proof -
  from assms(1) obtain vs where vs: "values s = Some vs" by (rule state_okE) blast
  let ?s' = "mark_dirty i j s"
  have set: "msm_property_set_dirty (Some i) (Some s) (word_of_nat j) = Some (0, Some ?s')"
    using vs by (simp add: msm_property_set_dirty_def set_dirty_no_lock(1) [OF assms])
  have ok: "state_ok i ?s'" by (rule dirty.push_ok [OF assms])
  obtain s'' where pops: "pops (pop_dirty i) (unat (property_count i)) ?s' = (dirty_list ?s', s'')"
    and s'': "dirty_list s'' = []" "state_ok i s''"
    using dirty.pops_queue [OF ok dirty_list_length [OF ok]] by blast
  have "msm_property_pop_dirty (Some i) (Some s'') = (- EAGAIN, Some s'')"
    using s'' by (auto simp: msm_property_pop_dirty_def elim: state_okE)
  then show ?thesis
    using set ok pops not_dirty [OF s''(2) _ s''(1)] dirty.push_queue [OF assms] by auto
qed

theorem dirty_properties_queue_witness:
  "\<exists>s'. msm_property_set_dirty (Some demo_i) (Some demo_s) (word_of_nat 1) = Some (0, Some s')
     \<and> fst (pops (pop_dirty demo_i) (unat (property_count demo_i)) s') = [1]"
proof -
  have "unat (property_count demo_i) = 2" "dirty_list demo_s = []" by code_simp+
  with dirty_properties_queue [OF demo_s_ok, of 1] show ?thesis by auto
qed

text \<open>
  C11. What was set is what is read. Setting an installed property that is not a blob returns 0,
  changes the value of that property only, queues it exactly if the value changed or the property
  is volatile, and a following get returns the value.
\<close>

theorem property_set_get:
  assumes "info_ok i" and "state_ok i s" and "values s = Some vs"
    and "Some p \<in> set (property_array i)" and "prop_flags d p AND DRM_MODE_PROP_BLOB = 0"
  shows "\<exists>j s'. j < unat (property_count i) \<and> property_array i ! j = Some p
    \<and> msm_property_atomic_set d (Some i) (Some s) (Some p) val w
        = Some (0, Some (i\<lparr>recent_idx := int j\<rparr>), Some s', w)
    \<and> map_option (map value) (values s') = Some ((map value vs)[j := val])
    \<and> dirty_list s' = (if (value (vs ! j) \<noteq> val \<or> force_dirty (property_data i ! j))
         \<and> j \<notin> set (dirty_list s) then dirty_list s @ [j] else dirty_list s)
    \<and> msm_property_atomic_get (Some (i\<lparr>recent_idx := int j\<rparr>)) (Some s') (Some p) True
        = Some (0, Some val, Some (i\<lparr>recent_idx := int j\<rparr>))"
  using assms(1-3)
proof (cases rule: atomic_set_cases [where p = p and d = d and val = val and w = w])
  case missing
  with assms(4) show ?thesis by simp
next
  case (updated j val' vs' w' s')
  let ?i = "i\<lparr>recent_idx := int j\<rparr>"
  have same: "val' = val" "w' = w" using updated(3) assms(5) by (simp_all add: set_part_def)
  obtain n where n: "unat (property_count i) = Suc n" using updated(1) by (cases "unat (property_count i)") auto
  have len: "j < length (property_array i)" using updated(1) assms(1) by (simp add: info_ok_def)
  have "msm_property_index (Some ?i) (Some p) = Some (int j, Some ?i)"
    using updated(2) len by (simp add: msm_property_index_def n nth_int_def)
  moreover obtain vs2 where vs2: "values s' = Some vs2" "map value vs2 = (map value vs)[j := val]"
    using updated(6) same by auto
  moreover have "length vs = unat (property_count i)" using assms(2,3) by (auto elim: state_okE)
  then have "j < length vs2" "value (vs2 ! j) = val"
    using vs2(2) updated(1) by (metis length_list_update length_map nth_list_update_eq nth_map)+
  ultimately have "msm_property_atomic_get (Some ?i) (Some s') (Some p) True = Some (0, Some val, Some ?i)"
    by (simp add: msm_property_atomic_get_def nth_int_def)
  with updated same show ?thesis by blast
qed

theorem property_set_get_witness:
  "\<exists>j s'. msm_property_atomic_set demo_drm (Some demo_i) (Some demo_s) (Some 52) 33 []
       = Some (0, Some (demo_i\<lparr>recent_idx := int j\<rparr>), Some s', [])
     \<and> msm_property_atomic_get (Some (demo_i\<lparr>recent_idx := int j\<rparr>)) (Some s') (Some 52) True
       = Some (0, Some 33, Some (demo_i\<lparr>recent_idx := int j\<rparr>))"
proof -
  have "Some 52 \<in> set (property_array demo_i)" "prop_flags demo_drm 52 AND DRM_MODE_PROP_BLOB = 0"
    and "values demo_s \<noteq> None"
    by code_simp+
  then show ?thesis
    using property_set_get [OF demo_i_ok demo_s_ok, of _ 52 demo_drm 33 "[]"] by blast
qed

text \<open>
  C12. Blob references are balanced. In every run of resets, sets whose blob is found, direct
  sets, pops, duplications and destructions over the states of an object, the references taken on
  a blob and not yet dropped are as many as the properties of all states that hold the blob, and
  all states keep a well-formed dirty queue. So destroying all states drops every reference.
\<close>

theorem blob_references_balanced:
  assumes "prop_run d i0 (i, ss, w)" and "info_ok i0"
  shows "refs b w = held_total b ss \<and> info_ok i \<and> (\<forall>s \<in> set ss. state_ok i s)"
  using prop_run_world [OF assms] by (simp add: world_ok_def)

definition demo_set :: "msm_property_info \<times> msm_property_state \<times> prop_trace" where
  "demo_set = (case msm_property_atomic_set demo_drm (Some demo_i) (Some demo_s) (Some 50) 5 [] of
     Some (_, Some i, Some s, w) \<Rightarrow> (i, s, w))"

definition demo_dup :: "msm_property_state \<times> prop_trace" where
  "demo_dup = (case demo_set of (i, s, w) \<Rightarrow>
     (case msm_property_duplicate_state (Some i) True True (Some s) (values s) w of
        Some (Some s', w') \<Rightarrow> (s', w')))"

lemma demo_prop_run:
  "prop_run demo_drm demo_i (fst demo_set, [fst (snd demo_set), fst demo_dup], snd demo_dup)"
proof -
  let ?i = "fst demo_set" and ?s = "fst (snd demo_set)" and ?w = "snd (snd demo_set)"
  have "msm_property_reset_state (Some demo_i) (Some \<lparr>ps_property_count = 0, values = None, dirty_list = []\<rparr>)
      (Some (replicate 2 \<lparr>value = 0, blob = None, dirty_node = False\<rparr>)) = Some (Some demo_s, values demo_s)"
    "length (replicate 2 \<lparr>value = 0, blob = None, dirty_node = False\<rparr>) = unat (property_count demo_i)"
    by code_simp+
  then have 1: "prop_run demo_drm demo_i (demo_i, [demo_s], [])"
    using prop_run.step [OF prop_run.start prop_step.reset, of demo_i] by fastforce
  have "msm_property_atomic_set demo_drm (Some demo_i) (Some ([demo_s] ! 0)) (Some 50) 5 []
      = Some (0, Some ?i, Some ?s, ?w)" "lookup_ok 5 (drop (length ([] :: prop_trace)) ?w)"
    by code_simp+
  then have 2: "prop_run demo_drm demo_i (?i, [?s], ?w)"
    using prop_run.step [OF 1 prop_step.set, of 0 50 5 0 ?i ?s ?w] by simp
  have "msm_property_duplicate_state (Some ?i) True True (Some ([?s] ! 0)) (values ([?s] ! 0)) ?w
      = Some (Some (fst demo_dup), snd demo_dup)"
    by code_simp
  then show ?thesis
    using prop_run.step [OF 2 prop_step.duplicate, of 0 "fst demo_dup" "snd demo_dup"] by simp
qed

theorem blob_references_balanced_witness:
  "refs 1005 (snd demo_dup) = 2"
proof -
  have "held_total 1005 [fst (snd demo_set), fst demo_dup] = 2" by code_simp
  with blob_references_balanced [OF demo_prop_run demo_i_ok, of 1005] show ?thesis by simp
qed

text \<open>
  A set that names an unknown blob loses a reference. When a blob property that holds blob
  \<open>b\<close> is set to a non-zero identifier that the lookup does not find, the set returns 0, the state
  still holds \<open>b\<close>, and the reference it held has been dropped; dropping the state later drops it a
  second time.
\<close>

theorem failed_lookup_loses_reference:
  assumes "info_ok i" and "state_ok i s" and "values s = Some vs"
    and "msm_property_index (Some i) (Some p) = Some (int j, Some i1)" and "j < unat (blob_count i)"
    and "prop_flags d p AND DRM_MODE_PROP_BLOB \<noteq> 0" and "blob (vs ! j) = Some b"
    and "val \<noteq> 0" and "lookup_blob d (w @ [Blob_put b]) (ucast val) = None"
  shows "\<exists>s' w'. msm_property_atomic_set d (Some i) (Some s) (Some p) val w = Some (0, Some i1, Some s', w')
    \<and> held b s' = held b s \<and> refs b w' = refs b w - 1"
  using assms(1-3)
proof (cases rule: atomic_set_cases [where p = p and d = d and val = val and w = w])
  case missing
  with assms(4) show ?thesis by simp
next
  case (updated k val' vs' w' s')
  have i1: "i1 = i\<lparr>recent_idx := int k\<rparr> \<and> k = j"
    using assms(4) updated(9) by auto
  have len: "length vs = unat (property_count i)" using assms(2,3) by (auto elim: state_okE)
  have "put_ev (vs ! j) = [Blob_put b]" using assms(7) by (simp add: put_ev_def)
  moreover have "(word_of_nat j :: u32) < blob_count i"
    using assms(5) by (simp add: word_less_nat_alt)
  ultimately have "vs' = vs" "w' = w @ [Blob_put b, Blob_lookup (ucast val) None]"
    using updated(1,3) i1 len assms(6,8,9) by (simp_all add: set_part_def atomic_set_blob_eq [OF _ refl])
  with updated i1 assms(3) show ?thesis
    using held_cong [of s' vs b] by (auto simp: held_def)
qed

theorem failed_lookup_loses_reference_witness:
  "\<exists>s' w'. msm_property_atomic_set demo_drm (Some (fst demo_set)) (Some (fst (snd demo_set))) (Some 50) 777
       (snd (snd demo_set)) = Some (0, Some (fst demo_set), Some s', w')
     \<and> held 1005 s' = 1 \<and> refs 1005 w' = 0"
proof -
  let ?i = "fst demo_set" and ?s = "fst (snd demo_set)" and ?w = "snd (snd demo_set)"
  have run: "world_ok (fst demo_set, [?s, fst demo_dup], snd demo_dup)"
    by (rule prop_run_world [OF demo_prop_run demo_i_ok])
  have vs: "values ?s = Some [\<lparr>value = 5, blob = Some 1005, dirty_node = True\<rparr>,
      \<lparr>value = 7, blob = None, dirty_node = False\<rparr>]"
    and facts: "msm_property_index (Some ?i) (Some 50) = Some (int 0, Some ?i)"
      "0 < unat (blob_count ?i)" "prop_flags demo_drm 50 AND DRM_MODE_PROP_BLOB \<noteq> 0"
      "lookup_blob demo_drm (?w @ [Blob_put 1005]) (ucast (777 :: u64)) = None"
    and refs: "refs 1005 ?w = 1" "held 1005 ?s = 1"
    by code_simp+
  have "info_ok ?i" "state_ok ?i ?s" using run by (simp_all add: world_ok_def)
  from failed_lookup_loses_reference [OF this vs facts(1,2,3) _ _ facts(4)] refs show ?thesis by simp
qed

text \<open>
  A state object has one owner. If the live states and the cached ones are distinct and the
  allocator returns fresh memory, an allocation returns a state that is not live and leaves live
  and cached states distinct; freeing a live state keeps them distinct and puts the state into the
  cache or frees it. The cache never exceeds its two entries.
\<close>

theorem state_objects_exclusive:
  assumes "info_ok i" and "distinct (live @ state_cache i)"
    and "\<And>q. kmalloc d w = Some q \<Longrightarrow> q \<notin> set live"
  shows "(\<forall>p i' w'. msm_property_alloc_state d (Some i) w = (Some p, Some i', w') \<longrightarrow>
      info_ok i' \<and> p \<notin> set live \<and> distinct ((p # live) @ state_cache i'))
    \<and> (\<forall>p i' w'. p \<in> set live \<longrightarrow> msm_property_free_state (Some i) (Some p) w = (Some i', w') \<longrightarrow>
      info_ok i' \<and> distinct (remove1 p live @ state_cache i') \<and> (p \<in> set (state_cache i') \<or> Kfree p \<in> set w'))"
proof (intro conjI allI impI)
  fix p i' w'
  assume alloc: "msm_property_alloc_state d (Some i) w = (Some p, Some i', w')"
  show "info_ok i'" "p \<notin> set live" "distinct ((p # live) @ state_cache i')"
    using alloc assms
    by (cases "state_cache i" rule: rev_cases;
        auto simp: msm_property_alloc_state_def info_ok_def Let_def split: if_splits)+
next
  fix p i' w'
  assume "p \<in> set live" and "msm_property_free_state (Some i) (Some p) w = (Some i', w')"
  then show "info_ok i'" "distinct (remove1 p live @ state_cache i')"
      "p \<in> set (state_cache i') \<or> Kfree p \<in> set w'"
    using assms(1,2)
    by (auto simp: msm_property_free_state_def info_ok_def distinct_remove1 split: if_splits
        dest: notin_set_remove1)
qed

theorem state_objects_exclusive_witness:
  "msm_property_alloc_state demo_drm (Some (demo_i\<lparr>state_cache := [300]\<rparr>)) []
       = (Some 300, Some (demo_i\<lparr>state_cache := []\<rparr>), []) \<and> distinct ([300, 400] @ state_cache demo_i)"
proof -
  have eq: "msm_property_alloc_state demo_drm (Some (demo_i\<lparr>state_cache := [300]\<rparr>)) []
      = (Some 300, Some (demo_i\<lparr>state_cache := []\<rparr>), [])"
    and cache: "state_cache demo_i = []" and kmalloc: "kmalloc demo_drm [] = Some 300"
    by code_simp+
  have ok: "info_ok (demo_i\<lparr>state_cache := [300]\<rparr>)"
    using demo_i_ok by (simp add: info_ok_def MSM_PROP_STATE_CACHE_SIZE_def)
  have "distinct ([400] @ state_cache (demo_i\<lparr>state_cache := [300]\<rparr>))"
    "\<And>q. kmalloc demo_drm [] = Some q \<Longrightarrow> q \<notin> set [400]"
    using kmalloc by simp_all
  note state_objects_exclusive [OF ok this, THEN conjunct1, rule_format, OF _ eq]
  then show ?thesis using eq cache by simp
qed

subsection \<open>Installation\<close>

datatype install =
    Range "string option" u32 u64 u64 u64 u32
  | Volatile_range "string option" u32 u64 u64 u64 u32
  | Enum "string option" u32 bool "(u64 \<times> string) list option" u32
  | Blob "string option" u32 u32

fun install_one :: "drm \<Rightarrow> install \<Rightarrow> msm_property_info option \<Rightarrow> prop_trace \<Rightarrow>
    (msm_property_info option \<times> prop_trace) option" where
  "install_one d (Range n f mn mx init idx) i w = msm_property_install_range d i n f mn mx init idx w"
| "install_one d (Volatile_range n f mn mx init idx) i w =
     msm_property_install_volatile_range d i n f mn mx init idx w"
| "install_one d (Enum n f bm vs idx) i w = msm_property_install_enum d i n f bm vs idx w"
| "install_one d (Blob n f idx) i w = msm_property_install_blob d i n f idx w"

primrec install_all :: "drm \<Rightarrow> install list \<Rightarrow> msm_property_info option \<Rightarrow> prop_trace \<Rightarrow>
    (msm_property_info option \<times> prop_trace) option" where
  "install_all d [] i w = Some (i, w)"
| "install_all d (x # xs) i w = do { (i, w) \<leftarrow> install_one d x i w; install_all d xs i w }"

fun is_attach :: "prop_call \<Rightarrow> bool" where
  "is_attach (Attach _ _ _) = True"
| "is_attach _ = False"

definition attaches :: "prop_trace \<Rightarrow> nat" where
  "attaches w = length (filter is_attach w)"

lemmas install_defs = msm_property_install_range_def msm_property_install_volatile_range_def
  msm_property_install_integer_def msm_property_install_enum_def msm_property_install_blob_def

definition sizes_ok :: "msm_property_info \<Rightarrow> bool" where
  "sizes_ok i \<longleftrightarrow> length (property_array i) = unat (property_count i)
     \<and> length (property_data i) = unat (property_count i) \<and> blob_count i \<le> property_count i"

text \<open>One installation counts a request, and counts as installed exactly if it attaches.\<close>

definition counted :: "msm_property_info \<Rightarrow> prop_trace \<Rightarrow> msm_property_info \<Rightarrow> prop_trace \<Rightarrow> bool" where
  "counted i w i' w' \<longleftrightarrow> sizes_ok i' \<and> install_request i' = install_request i + 1 \<and>
     (install_count i' = install_count i + 1 \<and> attaches w' = attaches w + 1
      \<or> install_count i' = install_count i \<and> attaches w' = attaches w)"

lemma install_prop_counted:
  assumes "sizes_ok i" and "idx < unat (property_count i)" and "\<And>r. \<not> is_attach (create r)"
  shows "\<exists>i' w'. install_prop d create init force att idx (i\<lparr>install_request := install_request i + 1\<rparr>) w
      = Some (i', w') \<and> counted i w i' w'"
  using assms
  by (auto simp: install_prop_def sizes_ok_def counted_def attaches_def Let_def split: option.splits)

lemma install_one_counted:
  assumes "sizes_ok i"
  shows "\<exists>i' w'. install_one d x (Some i) w = Some (Some i', w') \<and> counted i w i' w'"
proof -
  have refused: "counted i w (i\<lparr>install_request := install_request i + 1\<rparr>) w"
    using assms by (simp add: counted_def sizes_ok_def)
  have idx: "unat k < unat (property_count i)" if "\<not> property_count i \<le> k" for k
    using that by (simp add: word_le_nat_alt)
  have bidx: "unat k < unat (property_count i)" if "\<not> blob_count i \<le> k" for k
    using that assms by (simp add: word_le_nat_alt sizes_ok_def)
  note install = install_prop_counted [OF assms]
  show ?thesis
  proof (cases x)
    case (Range n f mn mx init k)
    then show ?thesis
      using refused install [OF idx, of k "Create_range (dev i) f (the n) mn mx" d init False init w]
      by (auto simp: install_defs Let_def split: option.splits)
  next
    case (Volatile_range n f mn mx init k)
    then show ?thesis
      using refused install [OF idx, of k "Create_range (dev i) f (the n) mn mx" d init True init w]
      by (auto simp: install_defs Let_def split: option.splits)
  next
    case (Enum n f bm vs k)
    then show ?thesis
      using refused
        install [OF idx, of k "Create_bitmask (dev i) (DRM_MODE_PROP_BITMASK OR f) (the n) (the vs)" d 0 False 0 w]
        install [OF idx, of k "Create_enum (dev i) (DRM_MODE_PROP_ENUM OR f) (the n) (the vs)" d
          "fst (hd (the vs))" False "fst (hd (the vs))" w]
      by (auto simp: install_defs Let_def split: option.splits list.splits)
  next
    case (Blob n f k)
    then show ?thesis
      using refused install [OF bidx, of k "Create_blob_prop (dev i) (DRM_MODE_PROP_BLOB OR f) (the n)" d 0 True "- 1" w]
      by (auto simp: install_defs Let_def split: option.splits)
  qed
qed

lemma install_all_counted:
  assumes "sizes_ok i" and "install_request i = word_of_nat n" and "install_count i = word_of_nat m" and "m \<le> n"
  shows "\<exists>i' w' m'. install_all d xs (Some i) w = Some (Some i', w') \<and> m' \<le> n + length xs \<and>
    install_request i' = word_of_nat (n + length xs) \<and> install_count i' = word_of_nat m' \<and>
    attaches w' + m = attaches w + m'"
  using assms
proof (induction xs arbitrary: i w n m)
  case Nil
  then show ?case by auto
next
  case (Cons x xs)
  from install_one_counted [OF Cons.prems(1), of d x w] obtain i1 w1 where
    one: "install_one d x (Some i) w = Some (Some i1, w1)" "counted i w i1 w1" by blast
  then obtain m1 where m1: "install_count i1 = word_of_nat m1" "m1 \<le> Suc n" "attaches w1 + m = attaches w + m1"
    "install_request i1 = word_of_nat (Suc n)" "sizes_ok i1"
    using Cons.prems by (auto simp: counted_def) (metis Suc_le_mono add.commute add_Suc_right of_nat_Suc)
  from Cons.IH [OF m1(5,4,1,2), of w1] one(1) m1(3) show ?case by fastforce
qed

text \<open>
  The installation status is exact. After fewer than 2^32 installations on a freshly
  initialized info structure, which never leave its arrays, \<^verbatim>\<open>msm_property_install_get_status\<close> is
  0 exactly if every installation attached a property to the object.
\<close>

theorem install_status_exact:
  assumes "sizes_ok i" and "install_request i = 0" and "install_count i = 0" and "length xs < 2 ^ 32"
  shows "\<exists>i' w'. install_all d xs (Some i) [] = Some (Some i', w')
    \<and> (msm_property_install_get_status (Some i') = 0 \<longleftrightarrow> attaches w' = length xs)"
proof -
  obtain i' w' m' where run: "install_all d xs (Some i) [] = Some (Some i', w')" "m' \<le> length xs"
    "install_request i' = word_of_nat (length xs)" "install_count i' = word_of_nat m'" "attaches w' = m'"
    using install_all_counted [OF assms(1), of 0 0 d xs "[]"] assms(2,3) by (auto simp: attaches_def)
  have "(word_of_nat (length xs) :: u32) = word_of_nat m' \<longleftrightarrow> length xs = m'"
    using run(2) assms(4) by (intro u32_of_nat_eq_iff) auto
  then show ?thesis
    using run by (auto simp: msm_property_install_get_status_def)
qed

theorem install_status_exact_witness:
  "\<exists>i' w'. install_all demo_drm [Range (Some ''a'') 0 0 9 1 0, Blob (Some ''b'') 0 1, Enum None 0 False None 0]
      (Some (demo_i\<lparr>install_request := 0, install_count := 0\<rparr>)) [] = Some (Some i', w')
    \<and> (msm_property_install_get_status (Some i') = 0 \<longleftrightarrow> attaches w' = 3)"
proof -
  have "sizes_ok (demo_i\<lparr>install_request := 0, install_count := 0\<rparr>)"
    using demo_i_ok by (simp add: info_ok_def sizes_ok_def)
  from install_status_exact [OF this,
      of "[Range (Some ''a'') 0 0 9 1 0, Blob (Some ''b'') 0 1, Enum None 0 False None 0]" demo_drm]
  show ?thesis by (simp del: install_all.simps add: numeral_3_eq_3)
qed

end
