(* ===== verification/Sde_Rsc.thy ===== *)
theory Sde_Rsc
  imports Sde_Prelude
begin

section \<open>Display resource state coordinator: model\<close>

text \<open>
  \<^verbatim>\<open>msm/sde_rsc.c\<close>: clients of the resource state coordinator ask for the idle, clock, command or
  video state; the driver decides the state of the hardware, votes for the coordinator's clocks
  while it is not idle, programs its timers and forwards bandwidth votes. Both versions of the
  state switches are modelled; which of them a coordinator uses is fixed when it is probed.

  A client is known by its address and lives in a heap; a coordinator's list holds addresses,
  newest first. \<open>None\<close> is the dereference of an address that is not in the heap. The hardware
  operations are function pointers: the record \<open>hw_ops\<close> says which are set, and what they return
  comes from the environment. Fields that only the hardware layer (\<^verbatim>\<open>sde_rsc_hw.c\<close>,
  \<^verbatim>\<open>sde_rsc_hw_v3.c\<close>) uses, log messages and the mutex are left out. The output parameter
  \<^verbatim>\<open>wait_vblank_crtc_id\<close> is an option of a crtc id, \<open>None\<close> being the null pointer; in a crtc id,
  \<open>None\<close> is the value \<^verbatim>\<open>SDE_RSC_INVALID_CRTC_ID\<close>. The constants of the kernel header \<^verbatim>\<open>linux/sde_rsc.h\<close>
  that matter are arguments: the index of the default coordinator and the length of a name. The
  power client is the one created when the coordinator is probed, so it is never null.
\<close>

datatype sde_rsc_state = SDE_RSC_IDLE_STATE | SDE_RSC_CLK_STATE | SDE_RSC_CMD_STATE | SDE_RSC_VID_STATE

datatype sde_rsc_client_type =
  SDE_RSC_PRIMARY_DISP_CLIENT | SDE_RSC_EXTERNAL_DISP_CLIENT | SDE_RSC_CLK_CLIENT

datatype rsc_vsync_req = VSYNC_READ | VSYNC_READ_VSYNC0 | VSYNC_ENABLE | VSYNC_DISABLE

record sde_rsc_client =
  rc_name :: string
  rc_state :: sde_rsc_state
  crtc_id :: "int option"
  rsc_index :: nat
  rc_id :: int
  client_type :: sde_rsc_client_type

record sde_rsc_cmd_config =
  fps :: u32
  jitter_numer :: u32
  jitter_denom :: u32
  prefill_lines :: u32
  vtotal :: u32

record sde_rsc_timer_config =
  static_wakeup_time_ns :: u32
  rsc_backoff_time_ns :: u32
  pdc_backoff_time_ns :: u32
  rsc_mode_threshold_time_ns :: u32
  rsc_time_slot_0_ns :: u32
  rsc_time_slot_1_ns :: u32
  rsc_time_slot_2_ns :: u32
  min_threshold_time_ns :: u32
  bwi_threshold_time_ns :: u32

record sde_rsc_bw_config =
  ab_vote :: "u64 list"
  ib_vote :: "u64 list"
  new_ab_vote :: "u64 list"
  new_ib_vote :: "u64 list"

record sde_rsc_hw_ops =
  op_init :: bool
  op_timer_update :: bool
  op_tcs_wait :: bool
  op_hw_vsync :: bool
  op_tcs_use_ok :: bool
  op_bwi_status :: bool
  op_state_update :: bool

text \<open>
  The power client of the coordinator: its reference count is a 16-bit integer. The use case
  indices are \<^verbatim>\<open>VOTE_INDEX_DISABLE\<close> = 0 and \<^verbatim>\<open>VOTE_INDEX_LOW\<close> = 1.
\<close>

record rsc_power =
  refcount :: "16 word"
  usecase_ndx :: nat
  current_usecase_ndx :: nat

record sde_rsc_priv =
  rev3 :: bool
  power :: rsc_power
  need_hwinit :: bool
  client_list :: "nat list"
  event_list :: "(nat \<times> u32) list"
  timer_config :: sde_rsc_timer_config
  cmd_config :: sde_rsc_cmd_config
  current_state :: sde_rsc_state
  vsync_source :: u32
  hw_ops :: sde_rsc_hw_ops
  primary_client :: "nat option"
  backoff_time_ns :: u32
  mode_threshold_time_ns :: u32
  time_slot_0_ns :: u32
  master_drm :: bool
  rsc_vsync_wait :: int
  bw_config :: sde_rsc_bw_config

type_synonym rsc_heap = "nat \<Rightarrow> sde_rsc_client option"

record rsc_world =
  rsc_prv_list :: "sde_rsc_priv option list"
  heap :: rsc_heap
  next_id :: int
  default_index :: nat

datatype rsc_call =
    Enable_vreg bool
  | Enable_clk bool
  | Regulator_enable
  | Hw_init sde_rsc_timer_config
  | Hw_timer_update sde_rsc_timer_config
  | Hw_state_update sde_rsc_state
  | Hw_vsync rsc_vsync_req
  | Mode_solver_set bool
  | Msleep
  | Wait_event_timeout
  | Wake_up_all
  | Tcs_wait
  | Tcs_use_ok
  | Bwi_status bool
  | Rpmh_invalidate
  | Rpmh_flush
  | Bus_quota nat u64 u64

type_synonym rsc_trace = "rsc_call trace"
type_synonym rsc_env = "rsc_call env"

definition MAX_RSC_COUNT :: nat where "MAX_RSC_COUNT = 5"
definition SDE_POWER_HANDLE_DBUS_ID_MAX :: nat where "SDE_POWER_HANDLE_DBUS_ID_MAX = 3"

definition CMD_MODE_SWITCH_SUCCESS :: int where "CMD_MODE_SWITCH_SUCCESS = 0xFFFF"
definition VID_MODE_SWITCH_SUCCESS :: int where "VID_MODE_SWITCH_SUCCESS = 0xFFFE"
definition CLK_MODE_SWITCH_SUCCESS :: int where "CLK_MODE_SWITCH_SUCCESS = 0xFFFD"
definition STATE_UPDATE_NOT_ALLOWED :: int where "STATE_UPDATE_NOT_ALLOWED = 0xFFFC"

lemmas rsc_code_defs = CMD_MODE_SWITCH_SUCCESS_def VID_MODE_SWITCH_SUCCESS_def
  CLK_MODE_SWITCH_SUCCESS_def STATE_UPDATE_NOT_ALLOWED_def

subsection \<open>The clock vote of the coordinator\<close>

text \<open>
  Regulators and clocks are switched when the use case changes. The count changes even if
  switching fails.
\<close>

definition sde_rsc_clk_enable ::
    "rsc_env \<Rightarrow> rsc_power \<Rightarrow> bool \<Rightarrow> rsc_trace \<Rightarrow> int \<times> rsc_power \<times> rsc_trace" where
  "sde_rsc_clk_enable env p enable w =
     (let p = p\<lparr>refcount := if enable then refcount p + 1
                           else if refcount p \<noteq> 0 then refcount p - 1 else refcount p\<rparr>;
          p = p\<lparr>usecase_ndx := if refcount p \<noteq> 0 then 1 else 0\<rparr> in
      if current_usecase_ndx p = usecase_ndx p then (0, p, w)
      else let (rc, w) =
          (if enable then
             let (rc, w) = ext env (Enable_vreg True) w in
             if rc \<noteq> 0 then (rc, w)
             else let (rc, w) = ext env (Enable_clk True) w in
             if rc \<noteq> 0 then (rc, snd (ext env (Enable_vreg False) w))
             else (rc, w)
           else
             let w = snd (ext env (Enable_clk False) w) in
             ext env (Enable_vreg False) w) in
      if rc \<noteq> 0 then (rc, p, w)
      else (rc, p\<lparr>current_usecase_ndx := usecase_ndx p\<rparr>, w))"

definition rsc_clk ::
    "rsc_env \<Rightarrow> sde_rsc_priv \<Rightarrow> bool \<Rightarrow> rsc_trace \<Rightarrow> int \<times> sde_rsc_priv \<times> rsc_trace" where
  "rsc_clk env r enable w =
     (let (rc, p, w) = sde_rsc_clk_enable env (power r) enable w in (rc, r\<lparr>power := p\<rparr>, w))"

subsection \<open>Timers\<close>

text \<open>The defaults and limits applied to the panel configuration.\<close>

definition fix_config :: "sde_rsc_cmd_config \<Rightarrow> sde_rsc_cmd_config" where
  "fix_config c =
     (let c = (if fps c = 0 then c\<lparr>fps := 60\<rparr> else c);
          c = (if jitter_numer c = 0 then c\<lparr>jitter_numer := 2\<rparr> else c);
          c = (if jitter_denom c = 0 then c\<lparr>jitter_denom := 1\<rparr> else c);
          c = (if vtotal c = 0 then c\<lparr>vtotal := 505\<rparr> else c);
          c = (if prefill_lines c = 0 then c\<lparr>prefill_lines := 25\<rparr> else c);
          c = (if prefill_lines c > 108 then c\<lparr>prefill_lines := 108\<rparr> else c) in
      if prefill_lines c < 35 then c\<lparr>prefill_lines := 35\<rparr> else c)"

definition div_u64 :: "u64 \<Rightarrow> u32 \<Rightarrow> u64" where
  "div_u64 a b = a div ucast b"

text \<open>
  All intermediate values are unsigned 64-bit; \<open>total\<close> is read as a signed one for the comparison
  with 0.
\<close>

definition static_wakeup :: "sde_rsc_cmd_config \<Rightarrow> sde_rsc_state \<Rightarrow> u64" where
  "static_wakeup c state =
     (let frame_time = div_u64 1000000000 (fps c);
          frame_jitter = div_u64 (div_u64 (frame_time * ucast (jitter_numer c)) (jitter_denom c)) 100;
          line_time = div_u64 frame_time (vtotal c);
          prefill_time = line_time * ucast (prefill_lines c);
          total = (if state = SDE_RSC_CMD_STATE then frame_time - frame_jitter - prefill_time
                   else frame_time - prefill_time);
          total = (if sint total < 0 then 0 else total) in
      div_u64 total 52)"

definition rsc_timers :: "sde_rsc_priv \<Rightarrow> sde_rsc_state \<Rightarrow> sde_rsc_timer_config" where
  "rsc_timers r state =
     (let frame_time = div_u64 1000000000 (fps (cmd_config r));
          slot_0 = ucast (div_u64 (ucast (time_slot_0_ns r)) 52) in
      \<lparr>static_wakeup_time_ns = ucast (static_wakeup (cmd_config r) state),
       rsc_backoff_time_ns = ucast (div_u64 (ucast (backoff_time_ns r)) 52),
       pdc_backoff_time_ns = ucast (div_u64 (ucast (backoff_time_ns r) * 20) 100),
       rsc_mode_threshold_time_ns = ucast (div_u64 (ucast (mode_threshold_time_ns r)) 52),
       rsc_time_slot_0_ns = slot_0,
       rsc_time_slot_1_ns = ucast (div_u64 frame_time 52),
       rsc_time_slot_2_ns = 0xFFFFFFFF,
       min_threshold_time_ns = 18,
       bwi_threshold_time_ns = slot_0\<rparr>)"

definition sde_rsc_timer_calculate ::
    "rsc_env \<Rightarrow> sde_rsc_priv \<Rightarrow> sde_rsc_cmd_config option \<Rightarrow> sde_rsc_state \<Rightarrow> rsc_trace \<Rightarrow>
     int \<times> sde_rsc_priv \<times> rsc_trace" where
  "sde_rsc_timer_calculate env r config state w =
     (let r = (case config of None \<Rightarrow> r | Some c \<Rightarrow> r\<lparr>cmd_config := c\<rparr>);
          r = r\<lparr>cmd_config := fix_config (cmd_config r)\<rparr>;
          r = r\<lparr>timer_config := rsc_timers r state\<rparr> in
      if config \<noteq> None \<and> op_timer_update (hw_ops r)
      then let (rc, w) = ext env (Hw_timer_update (timer_config r)) w in (rc, r, w)
      else if op_init (hw_ops r)
      then let (rc, w) = ext env (Hw_init (timer_config r)) w in (rc, r, w)
      else (0, r, w))"

text \<open>\<^verbatim>\<open>if (config) sde_rsc_timer_calculate(...)\<close>, the result being ignored.\<close>

definition timer_if ::
    "rsc_env \<Rightarrow> sde_rsc_priv \<Rightarrow> sde_rsc_cmd_config option \<Rightarrow> sde_rsc_state \<Rightarrow> rsc_trace \<Rightarrow>
     sde_rsc_priv \<times> rsc_trace" where
  "timer_if env r config state w =
     (if config \<noteq> None then snd (sde_rsc_timer_calculate env r config state w) else (r, w))"

subsection \<open>Parts of the state switches\<close>

text \<open>Asking the hardware for a state and setting the mode of the solver if it agrees.\<close>

definition hw_switch ::
    "rsc_env \<Rightarrow> sde_rsc_priv \<Rightarrow> sde_rsc_state \<Rightarrow> bool \<Rightarrow> int \<Rightarrow> rsc_trace \<Rightarrow> int \<times> rsc_trace" where
  "hw_switch env r state solver rc w =
     (if op_state_update (hw_ops r)
      then let (rc, w) = ext env (Hw_state_update state) w in
           if rc = 0 then (rc, snd (ext env (Mode_solver_set solver) w)) else (rc, w)
      else (rc, w))"

text \<open>
  The wait for a vsync is asked for by giving the primary crtc back; without an output pointer
  the code sleeps. \<open>None\<close> if the primary client does not exist any more: its crtc is read, and the
  message about the missing pointer names the caller, which is the primary client where the wait
  is not counted.
\<close>

definition vsync_request ::
    "rsc_env \<Rightarrow> rsc_heap \<Rightarrow> sde_rsc_priv \<Rightarrow> int option option \<Rightarrow> bool \<Rightarrow> rsc_trace \<Rightarrow>
     (sde_rsc_priv \<times> int option option \<times> rsc_trace) option" where
  "vsync_request env h r wait count w = do {
     let w = (if op_hw_vsync (hw_ops r) then snd (ext env (Hw_vsync VSYNC_ENABLE) w) else w);
     if wait = None \<and> count then Some (r, wait, vcall Msleep w)
     else do {
       p \<leftarrow> primary_client r;
       c \<leftarrow> h p;
       if wait = None then Some (r, wait, vcall Msleep w)
       else Some (if count then r\<lparr>rsc_vsync_wait := rsc_vsync_wait r + 1\<rparr> else r, Some (crtc_id c), w)
     }
   }"

text \<open>
  The wait for the vsync counter to become zero. The callee returns 0 at a timeout; otherwise the
  awaited condition holds. Concurrent changes of the counter are represented by this outcome only.
\<close>

definition vsync_wait_zero ::
    "rsc_env \<Rightarrow> sde_rsc_priv \<Rightarrow> rsc_trace \<Rightarrow> int \<times> sde_rsc_priv \<times> rsc_trace" where
  "vsync_wait_zero env r w =
     (let (rc, w) = ext env Wait_event_timeout w in
      if rc = 0 then (- ETIMEDOUT, r, w) else (0, r\<lparr>rsc_vsync_wait := 0\<rparr>, w))"

definition clients_of :: "rsc_heap \<Rightarrow> sde_rsc_priv \<Rightarrow> sde_rsc_client list option" where
  "clients_of h r = those (map h (client_list r))"

type_synonym switch_result = "(int \<times> sde_rsc_priv \<times> int option option \<times> rsc_trace) option"

subsection \<open>Switching to the command and video states\<close>

definition external_clk :: "sde_rsc_client \<Rightarrow> bool" where
  "external_clk c \<longleftrightarrow> rc_state c = SDE_RSC_CLK_STATE \<and> client_type c = SDE_RSC_EXTERNAL_DISP_CLIENT"

text \<open>
  The command switch of both versions and the video switch of version 3 share their shape: the
  state asked for, the solver mode and the clients that block the switch differ.
\<close>

definition switch_primary ::
    "rsc_env \<Rightarrow> rsc_heap \<Rightarrow> sde_rsc_priv \<Rightarrow> sde_rsc_state \<Rightarrow> bool \<Rightarrow> (sde_rsc_client \<Rightarrow> bool) \<Rightarrow>
     sde_rsc_cmd_config option \<Rightarrow> nat option \<Rightarrow> int option option \<Rightarrow> rsc_trace \<Rightarrow> switch_result" where
  "switch_primary env h r target solver blocks config caller wait w =
     (if primary_client r = None then Some (- EINVAL, r, wait, w)
      else if caller \<noteq> primary_client r then do {
        p \<leftarrow> primary_client r;
        c \<leftarrow> h p;
        Some (- EINVAL, r, wait, w)
      }
      else do {
        let (r, w) = timer_if env r config target w;
        if current_state r = target \<and> config = None then Some (0, r, wait, w)
        else do {
          (rc, w) \<leftarrow>
            (if current_state r = target then Some (0, w)
             else do {
               cs \<leftarrow> clients_of h r;
               if \<exists>c \<in> set cs. blocks c then Some (STATE_UPDATE_NOT_ALLOWED, w)
               else Some (hw_switch env r target solver STATE_UPDATE_NOT_ALLOWED w)
             });
          if rc = 0 \<and> (current_state r = SDE_RSC_VID_STATE \<or> current_state r = SDE_RSC_CMD_STATE)
          then do {
            (r, wait, w) \<leftarrow> vsync_request env h r wait False w;
            Some (rc, r, wait, w)
          } else Some (rc, r, wait, w)
        }
      })"

definition sde_rsc_switch_to_cmd_v3 ::
    "rsc_env \<Rightarrow> rsc_heap \<Rightarrow> sde_rsc_priv \<Rightarrow> sde_rsc_cmd_config option \<Rightarrow> nat option \<Rightarrow>
     int option option \<Rightarrow> rsc_trace \<Rightarrow> switch_result" where
  "sde_rsc_switch_to_cmd_v3 env h r config caller wait w =
     switch_primary env h r SDE_RSC_CMD_STATE True external_clk config caller wait w"

definition sde_rsc_switch_to_cmd_v2 ::
    "rsc_env \<Rightarrow> rsc_heap \<Rightarrow> sde_rsc_priv \<Rightarrow> sde_rsc_cmd_config option \<Rightarrow> nat option \<Rightarrow>
     int option option \<Rightarrow> rsc_trace \<Rightarrow> switch_result" where
  "sde_rsc_switch_to_cmd_v2 env h r config caller wait w =
     switch_primary env h r SDE_RSC_CMD_STATE True (\<lambda>c. rc_state c = SDE_RSC_VID_STATE) config caller wait w"

definition sde_rsc_switch_to_vid_v3 ::
    "rsc_env \<Rightarrow> rsc_heap \<Rightarrow> sde_rsc_priv \<Rightarrow> sde_rsc_cmd_config option \<Rightarrow> nat option \<Rightarrow>
     int option option \<Rightarrow> rsc_trace \<Rightarrow> switch_result" where
  "sde_rsc_switch_to_vid_v3 env h r config caller wait w =
     switch_primary env h r SDE_RSC_VID_STATE (rev3 r) external_clk config caller wait w"

text \<open>
  The end of the other switches: if the hardware agreed and the coordinator was in one of the
  states \<open>from\<close>, a vsync wait is requested and counted; otherwise a pending one is waited for.
\<close>

definition switch_vsync ::
    "rsc_env \<Rightarrow> rsc_heap \<Rightarrow> sde_rsc_priv \<Rightarrow> sde_rsc_state list \<Rightarrow> int \<Rightarrow> int option option \<Rightarrow> rsc_trace \<Rightarrow>
     switch_result" where
  "switch_vsync env h r from rc wait w =
     (if rc = 0 \<and> primary_client r \<noteq> None \<and> current_state r \<in> set from then do {
        (r, wait, w) \<leftarrow> vsync_request env h r wait True w;
        Some (rc, r, wait, w)
      }
      else if rsc_vsync_wait r \<noteq> 0 then
        (let (rc, r, w) = vsync_wait_zero env r w in Some (rc, r, wait, w))
      else Some (rc, r, wait, w))"

definition sde_rsc_switch_to_vid_v2 ::
    "rsc_env \<Rightarrow> rsc_heap \<Rightarrow> sde_rsc_priv \<Rightarrow> sde_rsc_cmd_config option \<Rightarrow> nat option \<Rightarrow>
     int option option \<Rightarrow> rsc_trace \<Rightarrow> switch_result" where
  "sde_rsc_switch_to_vid_v2 env h r config caller wait w =
     (let (r, w) = (if caller = primary_client r then timer_if env r config SDE_RSC_VID_STATE w
                    else (r, w)) in
      if current_state r = SDE_RSC_VID_STATE then Some (0, r, wait, w)
      else let (rc, w) = hw_switch env r SDE_RSC_VID_STATE False 0 w in
           switch_vsync env h r [SDE_RSC_CMD_STATE] rc wait w)"

subsection \<open>Switching to the clock and idle states\<close>

definition sde_rsc_switch_to_clk_v3 ::
    "rsc_env \<Rightarrow> rsc_heap \<Rightarrow> sde_rsc_priv \<Rightarrow> int option option \<Rightarrow> rsc_trace \<Rightarrow> switch_result" where
  "sde_rsc_switch_to_clk_v3 env h r wait w = do {
     cs \<leftarrow> clients_of h r;
     let multi_display_active = (\<exists>c \<in> set cs. external_clk c);
     let vid_display_active = (\<exists>c \<in> set cs. rc_state c = SDE_RSC_VID_STATE);
     let cmd_display_active = (\<exists>c \<in> set cs. rc_state c = SDE_RSC_CMD_STATE);
     if \<not> multi_display_active \<and> (vid_display_active \<or> cmd_display_active)
     then Some (STATE_UPDATE_NOT_ALLOWED, r, wait, w)
     else let (rc, w) = hw_switch env r SDE_RSC_CLK_STATE False STATE_UPDATE_NOT_ALLOWED w in
          switch_vsync env h r [SDE_RSC_CMD_STATE, SDE_RSC_VID_STATE] rc wait w
   }"

definition sde_rsc_switch_to_clk_v2 ::
    "rsc_env \<Rightarrow> rsc_heap \<Rightarrow> sde_rsc_priv \<Rightarrow> int option option \<Rightarrow> rsc_trace \<Rightarrow> switch_result" where
  "sde_rsc_switch_to_clk_v2 env h r wait w = do {
     cs \<leftarrow> clients_of h r;
     if \<exists>c \<in> set cs. rc_state c = SDE_RSC_VID_STATE \<or> rc_state c = SDE_RSC_CMD_STATE
     then Some (STATE_UPDATE_NOT_ALLOWED, r, wait, w)
     else let (rc, w) = hw_switch env r SDE_RSC_CLK_STATE False STATE_UPDATE_NOT_ALLOWED w in
          switch_vsync env h r [SDE_RSC_CMD_STATE] rc wait w
   }"

text \<open>\<^verbatim>\<open>if (!rc) rc = code\<close> after another switch.\<close>

definition succeed_with :: "int \<Rightarrow> switch_result \<Rightarrow> switch_result" where
  "succeed_with code x = do {
     (rc, r, wait, w) \<leftarrow> x;
     Some (if rc = 0 then code else rc, r, wait, w)
   }"

definition sde_rsc_switch_to_idle_v3 ::
    "rsc_env \<Rightarrow> rsc_heap \<Rightarrow> sde_rsc_priv \<Rightarrow> int option option \<Rightarrow> rsc_trace \<Rightarrow> switch_result" where
  "sde_rsc_switch_to_idle_v3 env h r wait w = do {
     cs \<leftarrow> clients_of h r;
     let multi_display_active = (\<exists>c \<in> set cs. external_clk c);
     let clk_client_active = (\<exists>c \<in> set cs. rc_state c = SDE_RSC_CLK_STATE \<and> client_type c = SDE_RSC_CLK_CLIENT);
     let vid_display_active = (\<exists>c \<in> set cs. rc_state c = SDE_RSC_VID_STATE);
     let cmd_display_active = (\<exists>c \<in> set cs. rc_state c = SDE_RSC_CMD_STATE);
     if vid_display_active \<and> \<not> multi_display_active
     then succeed_with VID_MODE_SWITCH_SUCCESS
            (sde_rsc_switch_to_vid_v3 env h r None (primary_client r) wait w)
     else if cmd_display_active \<and> \<not> multi_display_active
     then succeed_with CMD_MODE_SWITCH_SUCCESS
            (sde_rsc_switch_to_cmd_v3 env h r None (primary_client r) wait w)
     else if clk_client_active
     then succeed_with CLK_MODE_SWITCH_SUCCESS (sde_rsc_switch_to_clk_v3 env h r wait w)
     else let (rc, w) = hw_switch env r SDE_RSC_IDLE_STATE True STATE_UPDATE_NOT_ALLOWED w in
          Some (rc, r, wait, w)
   }"

definition sde_rsc_switch_to_idle_v2 ::
    "rsc_env \<Rightarrow> rsc_heap \<Rightarrow> sde_rsc_priv \<Rightarrow> int option option \<Rightarrow> rsc_trace \<Rightarrow> switch_result" where
  "sde_rsc_switch_to_idle_v2 env h r wait w = do {
     cs \<leftarrow> clients_of h r;
     let clk_client_active = (\<exists>c \<in> set cs. rc_state c = SDE_RSC_CLK_STATE \<and> client_type c = SDE_RSC_CLK_CLIENT);
     let vid_display_active = (\<exists>c \<in> set cs. rc_state c = SDE_RSC_VID_STATE);
     let cmd_display_active = (\<exists>c \<in> set cs. rc_state c = SDE_RSC_CMD_STATE);
     if vid_display_active then Some (STATE_UPDATE_NOT_ALLOWED, r, wait, w)
     else if cmd_display_active
     then succeed_with CMD_MODE_SWITCH_SUCCESS
            (sde_rsc_switch_to_cmd_v2 env h r None (primary_client r) wait w)
     else if clk_client_active
     then succeed_with CLK_MODE_SWITCH_SUCCESS (sde_rsc_switch_to_clk_v2 env h r wait w)
     else let (rc, w) = hw_switch env r SDE_RSC_IDLE_STATE True STATE_UPDATE_NOT_ALLOWED w in
          Some (rc, r, wait, w)
   }"

subsection \<open>Requests of clients\<close>

text \<open>\<^verbatim>\<open>rsc_prv_list[index]\<close>: the array has \<^verbatim>\<open>MAX_RSC_COUNT\<close> entries, unprobed ones being null.\<close>

definition get_rsc :: "rsc_world \<Rightarrow> nat \<Rightarrow> sde_rsc_priv option" where
  "get_rsc g i = rsc_prv_list g ! i"

definition put_rsc :: "rsc_world \<Rightarrow> nat \<Rightarrow> sde_rsc_priv \<Rightarrow> rsc_world" where
  "put_rsc g i r = g\<lparr>rsc_prv_list := (rsc_prv_list g)[i := Some r]\<rparr>"

definition sde_rsc_hw_init :: "rsc_env \<Rightarrow> sde_rsc_priv \<Rightarrow> rsc_trace \<Rightarrow> int \<times> sde_rsc_priv \<times> rsc_trace" where
  "sde_rsc_hw_init env r w =
     (let (rc, w) = ext env Regulator_enable w in
      if rc \<noteq> 0 then (rc, r, w)
      else let (rc, r, w) = rsc_clk env r True w in
      if rc \<noteq> 0 then (rc, r, w)
      else let (rc, r, w) = sde_rsc_timer_calculate env r None SDE_RSC_IDLE_STATE w in
      if rc \<noteq> 0 then (rc, r, w)
      else let (_, r, w) = rsc_clk env r False w in (rc, r, w))"

text \<open>
  The switch statement of the state update with the switches of the coordinator's version, and the
  state that the coordinator is in if it succeeds.
\<close>

definition switch_state ::
    "rsc_env \<Rightarrow> rsc_heap \<Rightarrow> sde_rsc_priv \<Rightarrow> sde_rsc_state \<Rightarrow> sde_rsc_cmd_config option \<Rightarrow> nat \<Rightarrow>
     int option option \<Rightarrow> rsc_trace \<Rightarrow> (int \<times> sde_rsc_state \<times> sde_rsc_priv \<times> int option option \<times> rsc_trace) option" where
  "switch_state env h r state config caller wait w =
     (case state of
        SDE_RSC_IDLE_STATE \<Rightarrow> do {
          (rc, r, wait, w) \<leftarrow> (if rev3 r then sde_rsc_switch_to_idle_v3 env h r wait w
                              else sde_rsc_switch_to_idle_v2 env h r wait w);
          Some (if rc = CMD_MODE_SWITCH_SUCCESS then (0, SDE_RSC_CMD_STATE, r, wait, w)
                else if rc = VID_MODE_SWITCH_SUCCESS then (0, SDE_RSC_VID_STATE, r, wait, w)
                else if rc = CLK_MODE_SWITCH_SUCCESS then (0, SDE_RSC_CLK_STATE, r, wait, w)
                else (rc, state, r, wait, w))
        }
      | SDE_RSC_CMD_STATE \<Rightarrow> do {
          (rc, r, wait, w) \<leftarrow> (if rev3 r then sde_rsc_switch_to_cmd_v3 env h r config (Some caller) wait w
                              else sde_rsc_switch_to_cmd_v2 env h r config (Some caller) wait w);
          Some (rc, state, r, wait, w)
        }
      | SDE_RSC_VID_STATE \<Rightarrow> do {
          (rc, r, wait, w) \<leftarrow> (if rev3 r then sde_rsc_switch_to_vid_v3 env h r config (Some caller) wait w
                              else sde_rsc_switch_to_vid_v2 env h r config (Some caller) wait w);
          Some (rc, state, r, wait, w)
        }
      | SDE_RSC_CLK_STATE \<Rightarrow> do {
          (rc, r, wait, w) \<leftarrow> (if rev3 r then sde_rsc_switch_to_clk_v3 env h r wait w
                              else sde_rsc_switch_to_clk_v2 env h r wait w);
          Some (rc, state, r, wait, w)
        })"

text \<open>The part between the early exits and the unlock.\<close>

definition rsc_update ::
    "rsc_env \<Rightarrow> rsc_heap \<Rightarrow> sde_rsc_priv \<Rightarrow> sde_rsc_state \<Rightarrow> sde_rsc_cmd_config option \<Rightarrow> nat \<Rightarrow>
     int option option \<Rightarrow> rsc_trace \<Rightarrow> switch_result" where
  "rsc_update env h r state config caller wait w = do {
     let (r, w) = (if need_hwinit r \<and> state \<noteq> SDE_RSC_IDLE_STATE
                   then let (_, r, w) = sde_rsc_hw_init env r w in (r\<lparr>need_hwinit := False\<rparr>, w)
                   else (r, w));
     let (r, w) = (if current_state r = SDE_RSC_IDLE_STATE then snd (rsc_clk env r True w) else (r, w));
     (rc, new, r, wait, w) \<leftarrow> switch_state env h r state config caller wait w;
     let r = (if rc = 0 then r\<lparr>current_state := new\<rparr> else r);
     let rc = (if rc = STATE_UPDATE_NOT_ALLOWED then 0 else rc);
     let (r, w) = (if current_state r = SDE_RSC_IDLE_STATE then snd (rsc_clk env r False w) else (r, w));
     Some (rc, r, wait, w)
   }"

definition sde_rsc_client_state_update ::
    "rsc_env \<Rightarrow> rsc_world \<Rightarrow> nat option \<Rightarrow> sde_rsc_state \<Rightarrow> sde_rsc_cmd_config option \<Rightarrow> int option \<Rightarrow> bool \<Rightarrow>
     rsc_trace \<Rightarrow> (int \<times> rsc_world \<times> int option option \<times> rsc_trace) option" where
  "sde_rsc_client_state_update env g caller state config crtc has_wait w =
     (let wait = (if has_wait then Some None else None) in
      case caller of
        None \<Rightarrow> Some (- EINVAL, g, wait, w)
      | Some a \<Rightarrow> do {
          c \<leftarrow> heap g a;
          if rsc_index c \<ge> MAX_RSC_COUNT then Some (- EINVAL, g, wait, w)
          else (case get_rsc g (rsc_index c) of
             None \<Rightarrow> Some (- EINVAL, g, wait, w)
           | Some r \<Rightarrow>
               (let g = g\<lparr>heap := (heap g)(a := Some (c\<lparr>crtc_id := crtc, rc_state := state\<rparr>))\<rparr> in
                if \<not> master_drm r then Some (- EINVAL, g, wait, w)
                else if current_state r = state \<and> config = None then Some (0, g, wait, w)
                else do {
                  (rc, r, wait, w) \<leftarrow> rsc_update env (heap g) r state config a wait w;
                  Some (rc, put_rsc g (rsc_index c) r, wait, w)
                }))
        })"

subsection \<open>Creating and destroying clients, events\<close>

text \<open>
  The result is an error pointer (\<open>Inl\<close>), the null pointer or the new client. The name is cut to
  \<open>name_len\<close> - 1 characters. \<open>alloc\<close> is the address of the new, zeroed memory.
\<close>

definition sde_rsc_client_create ::
    "nat \<Rightarrow> rsc_world \<Rightarrow> nat \<Rightarrow> string option \<Rightarrow> sde_rsc_client_type \<Rightarrow> u32 \<Rightarrow> nat option \<Rightarrow>
     (int + nat option) \<times> rsc_world" where
  "sde_rsc_client_create name_len g index name ctype vsync alloc =
     (case name of
        None \<Rightarrow> (Inl (- EINVAL), g)
      | Some n \<Rightarrow>
          if index \<ge> MAX_RSC_COUNT then (Inl (- EINVAL), g)
          else (case get_rsc g index of
             None \<Rightarrow> (Inr None, g)
           | Some r \<Rightarrow>
               (case alloc of
                  None \<Rightarrow> (Inl (- ENOMEM), g)
                | Some a \<Rightarrow>
                    (let c = \<lparr>rc_name = take (name_len - 1) n, rc_state = SDE_RSC_IDLE_STATE, crtc_id = Some 0,
                              rsc_index = index, rc_id = next_id g, client_type = ctype\<rparr>;
                         r = (if ctype = SDE_RSC_PRIMARY_DISP_CLIENT
                              then r\<lparr>primary_client := Some a, vsync_source := vsync\<rparr> else r);
                         r = r\<lparr>client_list := a # client_list r\<rparr> in
                     (Inr (Some a),
                      (put_rsc g index r)\<lparr>heap := (heap g)(a := Some c), next_id := next_id g + 1\<rparr>)))))"

definition sde_rsc_client_destroy ::
    "rsc_env \<Rightarrow> rsc_world \<Rightarrow> nat option \<Rightarrow> rsc_trace \<Rightarrow> (rsc_world \<times> rsc_trace) option" where
  "sde_rsc_client_destroy env g client w =
     (case client of
        None \<Rightarrow> Some (g, w)
      | Some a \<Rightarrow> do {
          c \<leftarrow> heap g a;
          if rsc_index c \<ge> MAX_RSC_COUNT then Some (g, w)
          else (case get_rsc g (rsc_index c) of
             None \<Rightarrow> Some (g, w)
           | Some _ \<Rightarrow> do {
               (g, w) \<leftarrow>
                 (if rc_state c \<noteq> SDE_RSC_IDLE_STATE then do {
                    (rc, g, wait, w) \<leftarrow>
                      sde_rsc_client_state_update env g (Some a) SDE_RSC_IDLE_STATE None None True w;
                    Some (g, if wait \<noteq> Some None then vcall Msleep w else w)
                  } else Some (g, w));
               r \<leftarrow> get_rsc g (rsc_index c);
               let r = r\<lparr>client_list := removeAll a (client_list r)\<rparr>;
               Some ((put_rsc g (rsc_index c) r)\<lparr>heap := (heap g)(a := None)\<rparr>, w)
             })
        })"

text \<open>An event is known by its address; the callback and its argument are not represented.\<close>

definition sde_rsc_register_event ::
    "rsc_world \<Rightarrow> nat \<Rightarrow> u32 \<Rightarrow> bool \<Rightarrow> nat option \<Rightarrow> (int + nat) \<times> rsc_world" where
  "sde_rsc_register_event g index event_type has_cb alloc =
     (if index \<ge> MAX_RSC_COUNT then (Inl (- EINVAL), g)
      else (case get_rsc g index of
         None \<Rightarrow> (Inl (- EINVAL), g)
       | Some r \<Rightarrow>
           if \<not> has_cb \<or> event_type = 0 then (Inl (- EINVAL), g)
           else (case alloc of
              None \<Rightarrow> (Inl (- ENOMEM), g)
            | Some a \<Rightarrow>
                (Inr a, put_rsc g index (r\<lparr>event_list := (a, event_type) # event_list r\<rparr>)))))"

definition sde_rsc_unregister_event :: "rsc_world \<Rightarrow> (nat \<times> nat) option \<Rightarrow> rsc_world" where
  "sde_rsc_unregister_event g event =
     (case event of
        None \<Rightarrow> g
      | Some (a, index) \<Rightarrow>
          if index \<ge> MAX_RSC_COUNT then g
          else (case get_rsc g index of
             None \<Rightarrow> g
           | Some r \<Rightarrow> put_rsc g index (r\<lparr>event_list := filter (\<lambda>(b, _). b \<noteq> a) (event_list r)\<rparr>)))"

subsection \<open>Queries\<close>

definition is_sde_rsc_available :: "rsc_world \<Rightarrow> nat \<Rightarrow> bool" where
  "is_sde_rsc_available g index \<longleftrightarrow> index < MAX_RSC_COUNT \<and> get_rsc g index \<noteq> None"

definition get_sde_rsc_primary_crtc :: "rsc_world \<Rightarrow> nat \<Rightarrow> int option option" where
  "get_sde_rsc_primary_crtc g index =
     (if index \<ge> MAX_RSC_COUNT then Some (Some 0)
      else (case get_rsc g index of
         None \<Rightarrow> Some (Some 0)
       | Some r \<Rightarrow> (case primary_client r of None \<Rightarrow> Some (Some 0) | Some p \<Rightarrow> map_option crtc_id (heap g p))))"

definition get_sde_rsc_current_state :: "rsc_world \<Rightarrow> nat \<Rightarrow> sde_rsc_state" where
  "get_sde_rsc_current_state g index =
     (if index \<ge> MAX_RSC_COUNT then SDE_RSC_IDLE_STATE
      else (case get_rsc g index of None \<Rightarrow> SDE_RSC_IDLE_STATE | Some r \<Rightarrow> current_state r))"

text \<open>The coordinator of a client; \<open>Inl\<close> is the value returned where there is none.\<close>

definition client_rsc :: "rsc_world \<Rightarrow> nat option \<Rightarrow> 'a \<Rightarrow> 'a \<Rightarrow> ('a + nat \<times> sde_rsc_priv) option" where
  "client_rsc g client bad absent =
     (case client of
        None \<Rightarrow> Some (Inl bad)
      | Some a \<Rightarrow> do {
          c \<leftarrow> heap g a;
          if rsc_index c \<ge> MAX_RSC_COUNT then Some (Inl bad)
          else (case get_rsc g (rsc_index c) of
             None \<Rightarrow> Some (Inl absent) | Some r \<Rightarrow> Some (Inr (rsc_index c, r)))
        })"

definition sde_rsc_client_get_vsync_refcount :: "rsc_world \<Rightarrow> nat option \<Rightarrow> int option" where
  "sde_rsc_client_get_vsync_refcount g client = do {
     x \<leftarrow> client_rsc g client (- EINVAL) 0;
     Some (case x of Inl v \<Rightarrow> v | Inr (_, r) \<Rightarrow> rsc_vsync_wait r)
   }"

text \<open>\<^verbatim>\<open>atomic_add_unless(&v, -1, 0)\<close> returns whether it changed the counter.\<close>

definition sde_rsc_client_reset_vsync_refcount ::
    "rsc_world \<Rightarrow> nat option \<Rightarrow> rsc_trace \<Rightarrow> (int \<times> rsc_world \<times> rsc_trace) option" where
  "sde_rsc_client_reset_vsync_refcount g client w = do {
     x \<leftarrow> client_rsc g client (- EINVAL) 0;
     (case x of
        Inl v \<Rightarrow> Some (v, g, w)
      | Inr (i, r) \<Rightarrow>
          if rsc_vsync_wait r \<noteq> 0
          then Some (1, put_rsc g i (r\<lparr>rsc_vsync_wait := rsc_vsync_wait r - 1\<rparr>), vcall Wake_up_all w)
          else Some (0, g, vcall Wake_up_all w))
   }"

definition sde_rsc_client_is_state_update_complete ::
    "rsc_env \<Rightarrow> rsc_world \<Rightarrow> nat option \<Rightarrow> rsc_trace \<Rightarrow> (bool \<times> rsc_trace) option" where
  "sde_rsc_client_is_state_update_complete env g client w = do {
     x \<leftarrow> client_rsc g client False False;
     (case x of
        Inl v \<Rightarrow> Some (v, w)
      | Inr (_, r) \<Rightarrow>
          if op_hw_vsync (hw_ops r)
          then let (t, w) = ext env (Hw_vsync VSYNC_READ_VSYNC0) w in Some (t \<noteq> 0, w)
          else Some (False, w))
   }"

subsection \<open>Bandwidth votes\<close>

definition vote_rsc :: "rsc_world \<Rightarrow> nat option \<Rightarrow> (int + nat \<times> sde_rsc_priv) option" where
  "vote_rsc g client = do {
     i \<leftarrow> (case client of None \<Rightarrow> Some (default_index g) | Some a \<Rightarrow> map_option rsc_index (heap g a));
     if client \<noteq> None \<and> i \<ge> MAX_RSC_COUNT then Some (Inl (- EINVAL))
     else (case get_rsc g i of None \<Rightarrow> Some (Inl (- EINVAL)) | Some r \<Rightarrow> Some (Inr (i, r)))
   }"

definition sde_rsc_client_vote ::
    "rsc_world \<Rightarrow> nat option \<Rightarrow> nat \<Rightarrow> u64 \<Rightarrow> u64 \<Rightarrow> (int \<times> rsc_world) option" where
  "sde_rsc_client_vote g client bus ab ib = do {
     x \<leftarrow> vote_rsc g client;
     (case x of
        Inl e \<Rightarrow> Some (e, g)
      | Inr (i, r) \<Rightarrow>
          if bus \<ge> SDE_POWER_HANDLE_DBUS_ID_MAX then Some (- EINVAL, g)
          else (let b = bw_config r in
             Some (0, put_rsc g i (r\<lparr>bw_config := b\<lparr>new_ab_vote := (new_ab_vote b)[bus := ab],
                                                  new_ib_vote := (new_ib_vote b)[bus := ib]\<rparr>\<rparr>))))
   }"

definition bw_increases :: "sde_rsc_bw_config \<Rightarrow> bool" where
  "bw_increases b \<longleftrightarrow> (\<exists>i \<in> set [0..<SDE_POWER_HANDLE_DBUS_ID_MAX].
     new_ab_vote b ! i > ab_vote b ! i \<or> new_ib_vote b ! i > ib_vote b ! i)"

definition commit_votes :: "sde_rsc_bw_config \<Rightarrow> sde_rsc_bw_config" where
  "commit_votes b = b\<lparr>ab_vote := new_ab_vote b, ib_vote := new_ib_vote b\<rparr>"

text \<open>The three data buses get their votes.\<close>

primrec set_quotas :: "sde_rsc_bw_config \<Rightarrow> nat list \<Rightarrow> rsc_env \<Rightarrow> rsc_trace \<Rightarrow> rsc_trace" where
  "set_quotas b [] env w = w"
| "set_quotas b (i # js) env w =
     set_quotas b js env (snd (ext env (Bus_quota i (ab_vote b ! i) (ib_vote b ! i)) w))"

definition trigger_status :: "rsc_env \<Rightarrow> sde_rsc_priv \<Rightarrow> bool \<Rightarrow> rsc_trace \<Rightarrow> rsc_trace" where
  "trigger_status env r bw_increase w =
     (if op_bwi_status (hw_ops r) \<and> (current_state r = SDE_RSC_CMD_STATE \<or> current_state r = SDE_RSC_VID_STATE)
      then snd (ext env (Bwi_status bw_increase) w)
      else if op_tcs_use_ok (hw_ops r) then snd (ext env Tcs_use_ok w) else w)"

definition trigger_vote ::
    "rsc_env \<Rightarrow> sde_rsc_priv \<Rightarrow> bool \<Rightarrow> rsc_trace \<Rightarrow> int \<times> sde_rsc_priv \<times> rsc_trace" where
  "trigger_vote env r delta_vote w =
     (let bw_increase = (delta_vote \<and> bw_increases (bw_config r));
          r = (if delta_vote then r\<lparr>bw_config := commit_votes (bw_config r)\<rparr> else r);
          (rc, r, w) = rsc_clk env r True w in
      if rc \<noteq> 0 then (rc, r, w)
      else let (rc, w) =
          (if delta_vote then
             let (rc, w) = (if op_tcs_wait (hw_ops r) then ext env Tcs_wait w else (rc, w)) in
             if rc \<noteq> 0 then (rc, if op_tcs_use_ok (hw_ops r) then snd (ext env Tcs_use_ok w) else w)
             else let w = snd (ext env Rpmh_invalidate w);
                      w = set_quotas (bw_config r) [0..<SDE_POWER_HANDLE_DBUS_ID_MAX] env w;
                      w = snd (ext env Rpmh_flush w) in
                  (rc, trigger_status env r bw_increase w)
           else (rc, trigger_status env r bw_increase w));
          (_, r, w) = rsc_clk env r False w in
      (rc, r, w))"

definition sde_rsc_client_trigger_vote ::
    "rsc_env \<Rightarrow> rsc_world \<Rightarrow> nat option \<Rightarrow> bool \<Rightarrow> rsc_trace \<Rightarrow> (int \<times> rsc_world \<times> rsc_trace) option" where
  "sde_rsc_client_trigger_vote env g client delta_vote w = do {
     x \<leftarrow> vote_rsc g client;
     (case x of
        Inl e \<Rightarrow> Some (e, g, w)
      | Inr (i, r) \<Rightarrow> let (rc, r, w) = trigger_vote env r delta_vote w in Some (rc, put_rsc g i r, w))
   }"

end
