(* ===== verification/Sde_Rsc_Inv.thy ===== *)
theory Sde_Rsc_Inv
  imports Sde_Rsc
begin

section \<open>Display resource state coordinator: invariants\<close>

text \<open>
  The clock vote as a reference counted switch, what the state switches leave alone, the order of
  the states by which idle requests are arbitrated, and runs of a world of coordinators.
\<close>

subsection \<open>The clock vote\<close>

text \<open>An environment in which regulators and clocks always switch.\<close>

definition switches_ok :: "rsc_env \<Rightarrow> bool" where
  "switches_ok env \<longleftrightarrow> (\<forall>w b. env w (Enable_vreg b) = 0 \<and> env w (Enable_clk b) = 0)"

fun clk_delta :: "rsc_call \<times> int \<Rightarrow> int" where
  "clk_delta (Enable_clk b, rc) = (if rc \<noteq> 0 then 0 else if b then 1 else - 1)"
| "clk_delta _ = 0"

fun vreg_delta :: "rsc_call \<times> int \<Rightarrow> int" where
  "vreg_delta (Enable_vreg b, rc) = (if rc \<noteq> 0 then 0 else if b then 1 else - 1)"
| "vreg_delta _ = 0"

definition rsc_request :: "rsc_env \<Rightarrow> bool \<Rightarrow> rsc_power \<times> rsc_trace \<Rightarrow> rsc_power \<times> rsc_trace" where
  "rsc_request env b s = snd (sde_rsc_clk_enable env (fst s) b (snd s))"

definition power_on :: "rsc_power \<times> rsc_trace \<Rightarrow> bool" where
  "power_on s \<longleftrightarrow> trace_sum clk_delta (snd s) = 1 \<and> trace_sum vreg_delta (snd s) = 1"

definition power_ok :: "rsc_env \<Rightarrow> rsc_power \<times> rsc_trace \<Rightarrow> bool" where
  "power_ok env s \<longleftrightarrow> switches_ok env \<and>
     current_usecase_ndx (fst s) = (if refcount (fst s) \<noteq> 0 then 1 else 0) \<and>
     trace_sum clk_delta (snd s) = (if refcount (fst s) \<noteq> 0 then 1 else 0) \<and>
     trace_sum vreg_delta (snd s) = (if refcount (fst s) \<noteq> 0 then 1 else 0)"

lemma clk_enable_refcount:
  assumes "sde_rsc_clk_enable env p b w = (rc, p', w')"
  shows "refcount p' = (if b then refcount p + 1 else if refcount p \<noteq> 0 then refcount p - 1 else 0)"
  using assms unfolding sde_rsc_clk_enable_def Let_def
  by (auto split: if_splits prod.splits)

lemma clk_enable_sums:
  assumes "switches_ok env" and "sde_rsc_clk_enable env p b w = (rc, p', w')"
  shows "rc = 0" and "current_usecase_ndx p' = (if refcount p' \<noteq> 0 then 1 else 0)"
    and "trace_sum clk_delta w' = trace_sum clk_delta w
      + (if current_usecase_ndx p = current_usecase_ndx p' then 0 else if b then 1 else - 1)"
    and "trace_sum vreg_delta w' = trace_sum vreg_delta w
      + (if current_usecase_ndx p = current_usecase_ndx p' then 0 else if b then 1 else - 1)"
  using assms unfolding sde_rsc_clk_enable_def Let_def
  by (auto simp: switches_ok_def ext_def split: if_splits)

lemma unat16_plus_one: "unat r < 2 ^ 16 - 1 \<Longrightarrow> unat (r + 1) = Suc (unat r)" for r :: "16 word"
  by (simp add: unat_word_ariths)

interpretation rsc_clocks: ref_switch "rsc_request env" "\<lambda>s. unat (refcount (fst s))" power_on "power_ok env"
    "2 ^ 16 - 1" for env
proof
  fix s :: "rsc_power \<times> rsc_trace"
  assume ok: "power_ok env s"
  then show "power_on s \<longleftrightarrow> unat (refcount (fst s)) > 0"
    by (auto simp: power_ok_def power_on_def unat_gt_0)
  obtain p w where s: "s = (p, w)" by fastforce
  obtain rc p' w' where put: "sde_rsc_clk_enable env p False w = (rc, p', w')" by (metis prod_cases3)
  note f = clk_enable_sums [OF _ put] clk_enable_refcount [OF put]
  have "refcount p \<noteq> 0 \<Longrightarrow> unat (refcount p - 1) = unat (refcount p) - 1"
    by (rule unat_minus_one)
  then show "power_ok env (rsc_request env False s) \<and>
      unat (refcount (fst (rsc_request env False s))) = unat (refcount (fst s)) - 1"
    using ok f by (auto simp: s rsc_request_def put power_ok_def split: if_splits)
  assume lt: "unat (refcount (fst s)) < 2 ^ 16 - 1"
  obtain rc2 p2 w2 where get: "sde_rsc_clk_enable env p True w = (rc2, p2, w2)" by (metis prod_cases3)
  note g = clk_enable_sums [OF _ get] clk_enable_refcount [OF get]
  have inc: "unat (refcount p + 1) = Suc (unat (refcount p))"
    using lt by (intro unat16_plus_one) (simp add: s)
  then have "refcount p + 1 \<noteq> 0" by (metis nat.distinct(1) unat_0)
  then show "power_ok env (rsc_request env True s) \<and>
      unat (refcount (fst (rsc_request env True s))) = Suc (unat (refcount (fst s)))"
    using ok g inc by (auto simp: s rsc_request_def get power_ok_def split: if_splits)
qed

subsection \<open>What a state switch leaves alone\<close>

definition rsc_same :: "sde_rsc_priv \<Rightarrow> sde_rsc_priv \<Rightarrow> bool" where
  "rsc_same r r' \<longleftrightarrow> (\<exists>cc tc v. r' = r\<lparr>cmd_config := cc, timer_config := tc, rsc_vsync_wait := v\<rparr>)"

lemma rsc_same_refl [simp]: "rsc_same r r"
  by (cases r) (auto simp: rsc_same_def)

lemma rsc_same_trans: "rsc_same r r' \<Longrightarrow> rsc_same r' r'' \<Longrightarrow> rsc_same r r''"
  by (cases r) (auto simp: rsc_same_def)

lemma rsc_same_fields:
  assumes "rsc_same r r'"
  shows "power r' = power r" "current_state r' = current_state r" "client_list r' = client_list r"
    "primary_client r' = primary_client r" "need_hwinit r' = need_hwinit r" "rev3 r' = rev3 r"
    "hw_ops r' = hw_ops r" "master_drm r' = master_drm r" "bw_config r' = bw_config r"
  using assms by (auto simp: rsc_same_def)

lemma timer_same: "sde_rsc_timer_calculate env r config st w = (rc, r', w') \<Longrightarrow> rsc_same r r'"
  by (cases r; cases config)
    (auto simp: sde_rsc_timer_calculate_def rsc_same_def Let_def split: if_splits prod.splits)

lemma timer_if_same: "timer_if env r config st w = (r', w') \<Longrightarrow> rsc_same r r'"
  by (cases "sde_rsc_timer_calculate env r config st w")
    (auto simp: timer_if_def dest: timer_same split: if_splits)

lemma vsync_request_same: "vsync_request env h r wait b w = Some (r', wait', w') \<Longrightarrow> rsc_same r r'"
  by (cases r) (auto simp: vsync_request_def rsc_same_def Let_def split: if_splits bind_splits)

lemma wait_zero_same: "vsync_wait_zero env r w = (rc, r', w') \<Longrightarrow> rsc_same r r'"
  by (cases r) (auto simp: vsync_wait_zero_def rsc_same_def split: if_splits prod.splits)

lemma switch_primary_same:
  "switch_primary env h r st sol bl config caller wait w = Some (rc, r', wait', w') \<Longrightarrow> rsc_same r r'"
  unfolding switch_primary_def
  by (auto split: if_splits bind_splits prod.splits dest!: timer_if_same vsync_request_same
      intro: rsc_same_trans)

lemma switch_vsync_same: "switch_vsync env h r from rc wait w = Some (rc', r', wait', w') \<Longrightarrow> rsc_same r r'"
  unfolding switch_vsync_def
  by (auto split: if_splits bind_splits prod.splits dest: vsync_request_same wait_zero_same)

lemma switch_vid_v2_same:
  "sde_rsc_switch_to_vid_v2 env h r config caller wait w = Some (rc, r', wait', w') \<Longrightarrow> rsc_same r r'"
  unfolding sde_rsc_switch_to_vid_v2_def
  by (auto split: if_splits prod.splits dest!: timer_if_same switch_vsync_same intro: rsc_same_trans)

lemma switch_clk_same:
  "sde_rsc_switch_to_clk_v3 env h r wait w = Some (rc, r', wait', w') \<Longrightarrow> rsc_same r r'"
  "sde_rsc_switch_to_clk_v2 env h r wait w = Some (rc, r', wait', w') \<Longrightarrow> rsc_same r r'"
  unfolding sde_rsc_switch_to_clk_v3_def sde_rsc_switch_to_clk_v2_def
  by (auto simp: Let_def split: if_splits prod.splits bind_splits dest: switch_vsync_same)

lemmas switch_cmd_vid_defs = sde_rsc_switch_to_cmd_v3_def sde_rsc_switch_to_cmd_v2_def
  sde_rsc_switch_to_vid_v3_def

lemma succeed_with_Some:
  "succeed_with code x = Some (rc, r, wait, w) \<longleftrightarrow>
     (\<exists>rc0. x = Some (rc0, r, wait, w) \<and> rc = (if rc0 = 0 then code else rc0))"
  by (auto simp: succeed_with_def split: bind_splits)

lemma switch_idle_same:
  "sde_rsc_switch_to_idle_v3 env h r wait w = Some (rc, r', wait', w') \<Longrightarrow> rsc_same r r'"
  "sde_rsc_switch_to_idle_v2 env h r wait w = Some (rc, r', wait', w') \<Longrightarrow> rsc_same r r'"
  unfolding sde_rsc_switch_to_idle_v3_def sde_rsc_switch_to_idle_v2_def switch_cmd_vid_defs
  by (auto simp: Let_def succeed_with_Some split: if_splits prod.splits bind_splits
      dest: switch_primary_same switch_clk_same)

lemma switch_state_same:
  assumes "switch_state env h r st config caller wait w = Some (rc, new, r', wait', w')"
  shows "rsc_same r r'"
  using assms unfolding switch_state_def switch_cmd_vid_defs
  by (auto split: sde_rsc_state.splits if_splits bind_splits
      dest: switch_primary_same switch_clk_same switch_idle_same switch_vid_v2_same)

subsection \<open>The clock vote follows the state\<close>

definition vote_ok :: "sde_rsc_priv \<Rightarrow> bool" where
  "vote_ok r \<longleftrightarrow> refcount (power r) = (if current_state r = SDE_RSC_IDLE_STATE then 0 else 1)"

lemma rsc_clk_frame:
  assumes "rsc_clk env r b w = (rc, r', w')"
  shows "\<exists>p. r' = r\<lparr>power := p\<rparr> \<and> refcount p =
    (if b then refcount (power r) + 1 else if refcount (power r) \<noteq> 0 then refcount (power r) - 1 else 0)"
  using assms clk_enable_refcount [of env "power r" b w]
  by (cases "sde_rsc_clk_enable env (power r) b w") (auto simp: rsc_clk_def)

text \<open>The fields a state update may change.\<close>

definition rsc_upd :: "sde_rsc_priv \<Rightarrow> sde_rsc_priv \<Rightarrow> bool" where
  "rsc_upd r r' \<longleftrightarrow> (\<exists>p s b r2. rsc_same r r2 \<and> r' = r2\<lparr>power := p, current_state := s, need_hwinit := b\<rparr>)"

lemma rsc_updI:
  "rsc_same r r0 \<Longrightarrow> rsc_upd r (r0\<lparr>power := p, current_state := s\<rparr>)"
  "rsc_same r r0 \<Longrightarrow> rsc_upd r (r0\<lparr>current_state := s, power := p\<rparr>)"
proof -
  have eq: "r0\<lparr>current_state := s, power := p\<rparr> = r0\<lparr>power := p, current_state := s\<rparr>"
    by (cases r0) simp
  show "rsc_same r r0 \<Longrightarrow> rsc_upd r (r0\<lparr>power := p, current_state := s\<rparr>)"
    "rsc_same r r0 \<Longrightarrow> rsc_upd r (r0\<lparr>current_state := s, power := p\<rparr>)"
    unfolding rsc_upd_def eq
    by (rule exI [of _ p], rule exI [of _ s], rule exI [of _ "need_hwinit r0"], rule exI [of _ r0], simp)+
qed

lemma rsc_upd_fields:
  assumes "rsc_upd r r'"
  shows "client_list r' = client_list r" "primary_client r' = primary_client r"
    "rev3 r' = rev3 r" "hw_ops r' = hw_ops r"
    "master_drm r' = master_drm r" "bw_config r' = bw_config r"
  using assms by (auto simp: rsc_upd_def dest: rsc_same_fields)

lemma rsc_upd_trans:
  assumes "rsc_same r r0" and "rsc_upd (r0\<lparr>power := p, need_hwinit := b\<rparr>) r'"
  shows "rsc_upd r r'"
proof -
  from assms obtain q s c cc tc v where
    "r' = r\<lparr>cmd_config := cc, timer_config := tc, rsc_vsync_wait := v, power := q, current_state := s, need_hwinit := c\<rparr>"
    by (cases r) (auto simp: rsc_upd_def rsc_same_def)
  then show ?thesis unfolding rsc_upd_def rsc_same_def by blast
qed

text \<open>The initialisation of the hardware succeeds; then it leaves the vote as it was.\<close>

definition init_ok :: "rsc_env \<Rightarrow> bool" where
  "init_ok env \<longleftrightarrow> (\<forall>w t. env w (Hw_init t) = 0)"

lemma hw_init_frame:
  assumes "switches_ok env" and "init_ok env" and "refcount (power r) + 1 \<noteq> 0"
    and "sde_rsc_hw_init env r w = (rc, r', w')"
  shows "\<exists>r0 p. rsc_same r r0 \<and> r' = r0\<lparr>power := p\<rparr> \<and> refcount p = refcount (power r)"
proof (cases "env w Regulator_enable = 0")
  case False
  with assms(4) have "r' = r" by (simp add: sde_rsc_hw_init_def ext_def)
  then show ?thesis
    by (intro exI [of _ r] exI [of _ "power r"]) simp
next
  case True
  define w0 where "w0 = w @ [(Regulator_enable, 0 :: int)]"
  obtain rc1 r1 w1 where on: "rsc_clk env r True w0 = (rc1, r1, w1)" by (metis prod_cases3)
  then have rc1: "rc1 = 0"
    using clk_enable_sums(1) [OF assms(1)] by (auto simp: rsc_clk_def split: prod.splits)
  obtain rc2 r2 w2 where tm: "sde_rsc_timer_calculate env r1 None SDE_RSC_IDLE_STATE w1 = (rc2, r2, w2)"
    by (metis prod_cases3)
  then have rc2: "rc2 = 0"
    using assms(2) by (auto simp: sde_rsc_timer_calculate_def init_ok_def ext_def Let_def split: if_splits)
  obtain rc3 r3 w3 where off: "rsc_clk env r2 False w2 = (rc3, r3, w3)" by (metis prod_cases3)
  have "r' = r3"
    using assms(4) True on rc1 tm rc2 off by (simp add: sde_rsc_hw_init_def ext_def w0_def)
  moreover obtain p where p: "r1 = r\<lparr>power := p\<rparr>" "refcount p = refcount (power r) + 1"
    using rsc_clk_frame [OF on] by auto
  moreover obtain cc tc v where r2: "r2 = r1\<lparr>cmd_config := cc, timer_config := tc, rsc_vsync_wait := v\<rparr>"
    using timer_same [OF tm] by (auto simp: rsc_same_def)
  moreover obtain q where "r3 = r2\<lparr>power := q\<rparr>" "refcount q = refcount (power r)"
    using rsc_clk_frame [OF off] assms(3) p by (auto simp: r2)
  ultimately have "r' = r\<lparr>cmd_config := cc, timer_config := tc, rsc_vsync_wait := v\<rparr>\<lparr>power := q\<rparr>"
    "refcount q = refcount (power r)" by auto
  moreover have "rsc_same r (r\<lparr>cmd_config := cc, timer_config := tc, rsc_vsync_wait := v\<rparr>)"
    unfolding rsc_same_def by blast
  ultimately show ?thesis by blast
qed

lemma rsc_update_cases:
  assumes "rsc_update env h r st config caller wait w = Some (rc, r', wait', w')"
    and "\<not> (need_hwinit r \<and> st \<noteq> SDE_RSC_IDLE_STATE)"
  obtains r1 w1 rc0 new r2 w2 where
    "(r1, w1) = (if current_state r = SDE_RSC_IDLE_STATE then snd (rsc_clk env r True w) else (r, w))"
    "switch_state env h r1 st config caller wait w1 = Some (rc0, new, r2, wait', w2)"
    "rc = (if rc0 = STATE_UPDATE_NOT_ALLOWED then 0 else rc0)"
    "(r', w') = (let r3 = if rc0 = 0 then r2\<lparr>current_state := new\<rparr> else r2 in
       if current_state r3 = SDE_RSC_IDLE_STATE then snd (rsc_clk env r3 False w2) else (r3, w2))"
  using assms unfolding rsc_update_def
  by (auto simp: Let_def split: prod.splits bind_splits if_splits)

lemma rsc_update_ready:
  assumes "rsc_update env h r st config caller wait w = Some (rc, r', wait', w')"
    and "\<not> (need_hwinit r \<and> st \<noteq> SDE_RSC_IDLE_STATE)" and "vote_ok r"
  shows "vote_ok r' \<and> rsc_upd r r'"
  using assms(1,2)
proof (cases rule: rsc_update_cases)
  case (1 r1 w1 rc0 new r2 w2)
  have "\<exists>p. r1 = r\<lparr>power := p\<rparr> \<and> refcount p = 1"
  proof (cases "current_state r = SDE_RSC_IDLE_STATE")
    case True
    then show ?thesis
      using 1(1) assms(3) rsc_clk_frame [of env r True w]
      by (cases "rsc_clk env r True w") (auto simp: vote_ok_def)
  next
    case False
    then show ?thesis
      using 1(1) assms(3) by (cases r) (auto simp: vote_ok_def)
  qed
  then obtain p where r1: "r1 = r\<lparr>power := p\<rparr>" "refcount p = 1" by blast
  define r3 where "r3 = (if rc0 = 0 then r2\<lparr>current_state := new\<rparr> else r2)"
  note same = switch_state_same [OF 1(2)]
  obtain cc tc v where r2: "r2 = r1\<lparr>cmd_config := cc, timer_config := tc, rsc_vsync_wait := v\<rparr>"
    using same by (auto simp: rsc_same_def)
  define r0 where "r0 = r\<lparr>cmd_config := cc, timer_config := tc, rsc_vsync_wait := v\<rparr>"
  have r0: "rsc_same r r0" by (auto simp: rsc_same_def r0_def)
  have r3: "\<exists>s. r3 = r0\<lparr>power := p, current_state := s\<rparr>"
    by (cases r) (auto simp: r3_def r2 r1 r0_def)
  show ?thesis
  proof (cases "current_state r3 = SDE_RSC_IDLE_STATE")
    case True
    obtain rcx rx wx where off: "rsc_clk env r3 False w2 = (rcx, rx, wx)" by (metis prod_cases3)
    with 1(4) True have "r' = rx" by (simp add: r3_def [symmetric] Let_def)
    with rsc_clk_frame [OF off] r3 r1(2) True r0 show ?thesis
      by (auto simp: vote_ok_def intro: rsc_updI)
  next
    case False
    with 1(4) have "r' = r3" by (simp add: r3_def [symmetric] Let_def)
    with r3 r1(2) False r0 show ?thesis
      by (auto simp: vote_ok_def intro: rsc_updI)
  qed
qed

lemma rsc_update_ok:
  assumes "rsc_update env h r st config caller wait w = Some (rc, r', wait', w')"
    and "switches_ok env" and "init_ok env" and "vote_ok r"
  shows "vote_ok r' \<and> rsc_upd r r'"
proof (cases "need_hwinit r \<and> st \<noteq> SDE_RSC_IDLE_STATE")
  case False
  with rsc_update_ready [OF assms(1) _ assms(4)] show ?thesis by simp
next
  case True
  obtain rc1 r1 w1 where hw: "sde_rsc_hw_init env r w = (rc1, r1, w1)" by (metis prod_cases3)
  have "refcount (power r) + 1 \<noteq> 0" using assms(4) by (simp add: vote_ok_def split: if_splits)
  from hw_init_frame [OF assms(2,3) this hw] obtain r0 p where
    r0: "rsc_same r r0" "r1 = r0\<lparr>power := p\<rparr>" "refcount p = refcount (power r)" by blast
  have upd: "rsc_update env h (r1\<lparr>need_hwinit := False\<rparr>) st config caller wait w1 = Some (rc, r', wait', w')"
    using assms(1) True hw by (simp add: rsc_update_def)
  have "vote_ok (r1\<lparr>need_hwinit := False\<rparr>)"
    using assms(4) r0 by (auto simp: vote_ok_def rsc_same_fields)
  from rsc_update_ready [OF upd _ this] rsc_upd_trans [OF r0(1)] r0(2) show ?thesis by auto
qed

lemma trigger_vote_cases:
  assumes "trigger_vote env r d w = (rc, r', w')" and "switches_ok env"
  obtains r1 w1 w2 rcx where
    "rsc_clk env (if d then r\<lparr>bw_config := commit_votes (bw_config r)\<rparr> else r) True w = (0, r1, w1)"
    "rsc_clk env r1 False w2 = (rcx, r', w')"
proof -
  let ?r0 = "if d then r\<lparr>bw_config := commit_votes (bw_config r)\<rparr> else r"
  obtain rc1 r1 w1 where on: "rsc_clk env ?r0 True w = (rc1, r1, w1)" by (metis prod_cases3)
  have "rc1 = 0"
    using on clk_enable_sums(1) [OF assms(2)] by (auto simp: rsc_clk_def split: prod.splits)
  with on assms(1) that show ?thesis
    by (auto simp: trigger_vote_def Let_def split: prod.splits)
qed

lemma trigger_vote_ok:
  assumes "trigger_vote env r d w = (rc, r', w')" and "switches_ok env" and "vote_ok r"
  shows "vote_ok r' \<and> (\<exists>p. r' = r\<lparr>power := p, bw_config := if d then commit_votes (bw_config r) else bw_config r\<rparr>)"
  using assms(1,2)
proof (cases rule: trigger_vote_cases)
  case (1 r1 w1 w2 rcx)
  have one: "refcount (power r) + 1 \<noteq> 0" using assms(3) by (simp add: vote_ok_def split: if_splits)
  from rsc_clk_frame [OF 1(1)] obtain p where
    "r1 = (if d then r\<lparr>bw_config := commit_votes (bw_config r)\<rparr> else r)\<lparr>power := p\<rparr>"
    "refcount p = refcount (power r) + 1" by (auto split: if_splits)
  with rsc_clk_frame [OF 1(2)] one assms(3) show ?thesis
    by (cases r) (auto simp: vote_ok_def split: if_splits)
qed

subsection \<open>Runs\<close>

text \<open>
  The calls of the interface. A new client gets memory at a free address, and destroying a client
  removes it from the heap.
\<close>

inductive rsc_step :: "nat \<Rightarrow> rsc_env \<Rightarrow> rsc_world \<times> rsc_trace \<Rightarrow> rsc_world \<times> rsc_trace \<Rightarrow> bool"
  for len env where
  create: "sde_rsc_client_create len g index name ctype vsync (Some a) = (res, g') \<Longrightarrow> heap g a = None \<Longrightarrow>
      rsc_step len env (g, w) (g', w)"
| update: "sde_rsc_client_state_update env g client state config crtc has_wait w = Some (rc, g', wait, w') \<Longrightarrow>
      rsc_step len env (g, w) (g', w')"
| destroy: "sde_rsc_client_destroy env g client w = Some (g', w') \<Longrightarrow> rsc_step len env (g, w) (g', w')"
| vote: "sde_rsc_client_vote g client bus ab ib = Some (rc, g') \<Longrightarrow> rsc_step len env (g, w) (g', w)"
| trigger: "sde_rsc_client_trigger_vote env g client d w = Some (rc, g', w') \<Longrightarrow> rsc_step len env (g, w) (g', w')"
| reset_vsync: "sde_rsc_client_reset_vsync_refcount g client w = Some (rc, g', w') \<Longrightarrow>
      rsc_step len env (g, w) (g', w')"

inductive rsc_run :: "nat \<Rightarrow> rsc_env \<Rightarrow> rsc_world \<times> rsc_trace \<Rightarrow> rsc_world \<times> rsc_trace \<Rightarrow> bool"
  for len env x where
  start: "rsc_run len env x x"
| step: "rsc_run len env x y \<Longrightarrow> rsc_step len env y z \<Longrightarrow> rsc_run len env x z"

definition rsc_ok :: "rsc_heap \<Rightarrow> nat \<Rightarrow> sde_rsc_priv \<Rightarrow> bool" where
  "rsc_ok h i r \<longleftrightarrow> vote_ok r \<and> distinct (client_list r)
     \<and> (\<forall>a \<in> set (client_list r). \<exists>c. h a = Some c \<and> rsc_index c = i)"

definition world_ok :: "rsc_world \<Rightarrow> bool" where
  "world_ok g \<longleftrightarrow> length (rsc_prv_list g) = MAX_RSC_COUNT \<and> default_index g < MAX_RSC_COUNT
     \<and> (\<forall>i < MAX_RSC_COUNT. \<forall>r. get_rsc g i = Some r \<longrightarrow> rsc_ok (heap g) i r)"

lemma world_put:
  assumes "world_ok g" and "i < MAX_RSC_COUNT" and "rsc_ok h i r"
    and "\<And>b c. heap g b = Some c \<Longrightarrow> rsc_index c \<noteq> i \<Longrightarrow> \<exists>c'. h b = Some c' \<and> rsc_index c' = rsc_index c"
  shows "world_ok ((put_rsc g i r)\<lparr>heap := h\<rparr>)" "world_ok ((put_rsc g i r)\<lparr>heap := h, next_id := n\<rparr>)"
proof -
  have "rsc_ok h j r'" if "j < MAX_RSC_COUNT" "get_rsc (put_rsc g i r) j = Some r'" for j r'
  proof (cases "j = i")
    case True
    with that assms(1,2,3) show ?thesis by (simp add: get_rsc_def put_rsc_def world_ok_def)
  next
    case False
    with that assms(1) have "rsc_ok (heap g) j r'"
      by (auto simp: get_rsc_def put_rsc_def world_ok_def)
    with assms(4) False show ?thesis unfolding rsc_ok_def by metis
  qed
  with assms(1) show "world_ok ((put_rsc g i r)\<lparr>heap := h\<rparr>)" "world_ok ((put_rsc g i r)\<lparr>heap := h, next_id := n\<rparr>)"
    by (auto simp: world_ok_def put_rsc_def get_rsc_def)
qed

lemma world_put_same_heap:
  assumes "world_ok g" and "i < MAX_RSC_COUNT" and "rsc_ok (heap g) i r"
  shows "world_ok (put_rsc g i r)"
proof -
  have "put_rsc g i r = (put_rsc g i r)\<lparr>heap := heap g\<rparr>" by (simp add: put_rsc_def)
  with world_put(1) [OF assms] show ?thesis by simp
qed

lemma world_heap:
  assumes "world_ok g" and "heap g a = Some c" and "rsc_index c' = rsc_index c"
  shows "world_ok (g\<lparr>heap := (heap g)(a := Some c')\<rparr>)"
  using assms by (auto simp: world_ok_def rsc_ok_def get_rsc_def) (metis option.inject)+

lemma rsc_ok_upd:
  assumes "rsc_ok h i r" and "vote_ok r'" and "client_list r' = client_list r"
  shows "rsc_ok h i r'"
  using assms by (simp add: rsc_ok_def)

lemma world_get: "world_ok g \<Longrightarrow> i < MAX_RSC_COUNT \<Longrightarrow> get_rsc g i = Some r \<Longrightarrow> rsc_ok (heap g) i r"
  by (simp add: world_ok_def)

lemma create_world:
  assumes "sde_rsc_client_create len g index name ctype vsync (Some a) = (res, g')"
    and "world_ok g" and "heap g a = None"
  shows "world_ok g'"
proof (cases "name = None \<or> index \<ge> MAX_RSC_COUNT \<or> get_rsc g index = None")
  case True
  with assms(1,2) show ?thesis
    by (auto simp: sde_rsc_client_create_def split: option.splits if_splits)
next
  case False
  then obtain n r where go: "name = Some n" "index < MAX_RSC_COUNT" "get_rsc g index = Some r" by auto
  note ok = world_get [OF assms(2) go(2,3)]
  have fresh: "a \<notin> set (client_list r)" using ok assms(3) by (auto simp: rsc_ok_def)
  let ?c = "\<lparr>rc_name = take (len - 1) n, rc_state = SDE_RSC_IDLE_STATE, crtc_id = Some 0,
      rsc_index = index, rc_id = next_id g, client_type = ctype\<rparr>"
  let ?r = "(if ctype = SDE_RSC_PRIMARY_DISP_CLIENT then r\<lparr>primary_client := Some a, vsync_source := vsync\<rparr> else r)
      \<lparr>client_list := a # client_list r\<rparr>"
  have "rsc_ok ((heap g)(a := Some ?c)) index ?r"
    using ok fresh by (auto simp: rsc_ok_def vote_ok_def)
  then have "world_ok ((put_rsc g index ?r)\<lparr>heap := (heap g)(a := Some ?c), next_id := next_id g + 1\<rparr>)"
    using assms(3) by (intro world_put(2) [OF assms(2) go(2)]) auto
  moreover have "g' = (put_rsc g index ?r)\<lparr>heap := (heap g)(a := Some ?c), next_id := next_id g + 1\<rparr>"
    using assms(1) go by (auto simp: sde_rsc_client_create_def Let_def)
  ultimately show ?thesis by simp
qed

lemma state_update_cases:
  assumes "sde_rsc_client_state_update env g client st config crtc hw w = Some (rc, g', wait, w')"
  obtains (refused) "g' = g" "rc = - EINVAL" "w' = w"
  | (early) a c where "client = Some a" "heap g a = Some c" "w' = w"
      "g' = g\<lparr>heap := (heap g)(a := Some (c\<lparr>crtc_id := crtc, rc_state := st\<rparr>))\<rparr>"
  | (updated) a c r r' where "client = Some a" "heap g a = Some c" "rsc_index c < MAX_RSC_COUNT"
      "get_rsc g (rsc_index c) = Some r"
      "rsc_update env ((heap g)(a := Some (c\<lparr>crtc_id := crtc, rc_state := st\<rparr>))) r st config a
         (if hw then Some None else None) w = Some (rc, r', wait, w')"
      "g' = put_rsc (g\<lparr>heap := (heap g)(a := Some (c\<lparr>crtc_id := crtc, rc_state := st\<rparr>))\<rparr>) (rsc_index c) r'"
proof (cases client)
  case None
  with assms refused show ?thesis by (simp add: sde_rsc_client_state_update_def)
next
  case (Some a)
  with assms obtain c where c: "heap g a = Some c"
    by (auto simp: sde_rsc_client_state_update_def Let_def split: bind_splits)
  show ?thesis
  proof (cases "rsc_index c \<ge> MAX_RSC_COUNT \<or> get_rsc g (rsc_index c) = None")
    case True
    with assms Some c show ?thesis
      by (intro refused) (auto simp: sde_rsc_client_state_update_def Let_def split: option.splits)
  next
    case False
    then obtain r where r: "rsc_index c < MAX_RSC_COUNT" "get_rsc g (rsc_index c) = Some r" by auto
    show ?thesis
    proof (cases "\<not> master_drm r \<or> current_state r = st \<and> config = None")
      case True
      with assms Some c r show ?thesis
        by (intro early [of a c]) (auto simp: sde_rsc_client_state_update_def Let_def split: if_splits)
    next
      case False
      with assms Some c r show ?thesis
        by (auto simp: sde_rsc_client_state_update_def Let_def split: bind_splits if_splits
            intro!: updated [of a c])
    qed
  qed
qed

lemma update_world:
  assumes "sde_rsc_client_state_update env g client st config crtc hw w = Some (rc, g', wait, w')"
    and "world_ok g" and "switches_ok env" and "init_ok env"
  shows "world_ok g'"
  using assms(1)
proof (cases rule: state_update_cases)
  case (early a c)
  with assms(2) show ?thesis by (auto intro: world_heap)
next
  case (updated a c r r')
  let ?g = "g\<lparr>heap := (heap g)(a := Some (c\<lparr>crtc_id := crtc, rc_state := st\<rparr>))\<rparr>"
  have ok: "world_ok ?g" using assms(2) updated(2) by (auto intro: world_heap)
  have r: "get_rsc ?g (rsc_index c) = Some r" using updated(4) by (simp add: get_rsc_def)
  note rok = world_get [OF ok updated(3) r]
  then have "vote_ok r" by (simp add: rsc_ok_def)
  then have v: "vote_ok r'" and u: "rsc_upd r r'" using rsc_update_ok [OF updated(5) assms(3,4)] by auto
  from rsc_ok_upd [OF rok v rsc_upd_fields(1) [OF u]] have "rsc_ok (heap ?g) (rsc_index c) r'" .
  then show ?thesis
    unfolding updated(6) by (rule world_put_same_heap [OF ok updated(3)])
qed (use assms(2) in simp)

lemma update_keeps_client:
  assumes "sde_rsc_client_state_update env g client st config crtc hw w = Some (rc, g', wait, w')"
    and "heap g b = Some d"
  shows "\<exists>d'. heap g' b = Some d' \<and> rsc_index d' = rsc_index d"
  using assms(1)
proof (cases rule: state_update_cases)
  case (early a c)
  with assms(2) show ?thesis by auto
next
  case (updated a c r r')
  with assms(2) show ?thesis by (auto simp: put_rsc_def)
qed (use assms(2) in simp)

lemma destroy_world:
  assumes "sde_rsc_client_destroy env g client w = Some (g', w')" and "world_ok g" and "switches_ok env" and "init_ok env"
  shows "world_ok g'"
proof (cases client)
  case None
  with assms show ?thesis by (simp add: sde_rsc_client_destroy_def)
next
  case (Some a)
  with assms(1) obtain c where c: "heap g a = Some c"
    by (auto simp: sde_rsc_client_destroy_def split: bind_splits)
  show ?thesis
  proof (cases "rsc_index c \<ge> MAX_RSC_COUNT \<or> get_rsc g (rsc_index c) = None")
    case True
    with assms Some c show ?thesis
      by (auto simp: sde_rsc_client_destroy_def split: option.splits)
  next
    case False
    then have i: "rsc_index c < MAX_RSC_COUNT" by simp
    obtain g1 w1 where g1: "world_ok g1" "\<exists>c'. heap g1 a = Some c' \<and> rsc_index c' = rsc_index c"
      and rest: "do { r \<leftarrow> get_rsc g1 (rsc_index c);
          Some ((put_rsc g1 (rsc_index c) (r\<lparr>client_list := removeAll a (client_list r)\<rparr>))
            \<lparr>heap := (heap g1)(a := None)\<rparr>, w1) } = Some (g', w')"
    proof (cases "rc_state c = SDE_RSC_IDLE_STATE")
      case True
      with assms False Some c show ?thesis
        by (intro that [of g w]) (auto simp: sde_rsc_client_destroy_def)
    next
      case active: False
      with assms(1) False Some c obtain rc g1 wait w1 where
        upd: "sde_rsc_client_state_update env g (Some a) SDE_RSC_IDLE_STATE None None True w = Some (rc, g1, wait, w1)"
        and rest: "do { r \<leftarrow> get_rsc g1 (rsc_index c);
          Some ((put_rsc g1 (rsc_index c) (r\<lparr>client_list := removeAll a (client_list r)\<rparr>))
            \<lparr>heap := (heap g1)(a := None)\<rparr>, if wait \<noteq> Some None then vcall Msleep w1 else w1) } = Some (g', w')"
        by (auto simp: sde_rsc_client_destroy_def split: bind_splits)
      from that [OF update_world [OF upd assms(2,3,4)] update_keeps_client [OF upd c] rest] show ?thesis .
    qed
    from rest obtain r where r: "get_rsc g1 (rsc_index c) = Some r"
      and g': "g' = (put_rsc g1 (rsc_index c) (r\<lparr>client_list := removeAll a (client_list r)\<rparr>))
            \<lparr>heap := (heap g1)(a := None)\<rparr>"
      by (auto split: bind_splits)
    have "rsc_ok ((heap g1)(a := None)) (rsc_index c) (r\<lparr>client_list := removeAll a (client_list r)\<rparr>)"
      using world_get [OF g1(1) i r] by (auto simp: rsc_ok_def vote_ok_def distinct_removeAll)
    then show ?thesis
      unfolding g' using g1(2) by (intro world_put(1) [OF g1(1) i]) auto
  qed
qed

lemma vote_rsc_Inr:
  "world_ok g \<Longrightarrow> vote_rsc g client = Some (Inr (i, r)) \<Longrightarrow> i < MAX_RSC_COUNT \<and> get_rsc g i = Some r"
  by (auto simp: vote_rsc_def world_ok_def split: bind_splits option.splits if_splits)

lemma client_rsc_Inr:
  "client_rsc g client x y = Some (Inr (i, r)) \<Longrightarrow> i < MAX_RSC_COUNT \<and> get_rsc g i = Some r"
  by (auto simp: client_rsc_def split: bind_splits option.splits if_splits)

lemma rsc_step_world:
  assumes "rsc_step len env x y" and "world_ok (fst x)" and "switches_ok env" and "init_ok env"
  shows "world_ok (fst y)"
  using assms(1)
proof (cases rule: rsc_step.cases)
  case (create g index name ctype vsync a res g' w)
  with assms(2) create_world show ?thesis by auto
next
  case (update g client state config crtc has_wait w rc g' wait w')
  with assms(2-4) update_world show ?thesis by auto
next
  case (destroy g client w g' w')
  with assms(2-4) destroy_world show ?thesis by auto
next
  case (vote g client bus ab ib rc g' w)
  with assms(2) have ok: "world_ok g" by simp
  have "world_ok (put_rsc g i (r\<lparr>bw_config := b\<rparr>))" if "vote_rsc g client = Some (Inr (i, r))" for i r b
    using vote_rsc_Inr [OF ok that] world_get [OF ok]
    by (intro world_put_same_heap [OF ok]) (auto intro: rsc_ok_upd simp: rsc_ok_def vote_ok_def)
  with vote ok show ?thesis
    by (auto simp: sde_rsc_client_vote_def Let_def split: bind_splits sum.splits if_splits)
next
  case (trigger g client d w rc g' w')
  with assms(2) have ok: "world_ok g" by simp
  have "world_ok (put_rsc g i r')" if "vote_rsc g client = Some (Inr (i, r))" "trigger_vote env r d w = (rcx, r', wx)"
    for i r rcx r' wx
  proof -
    have i: "i < MAX_RSC_COUNT" "rsc_ok (heap g) i r"
      using vote_rsc_Inr [OF ok that(1)] world_get [OF ok] by auto
    then have "vote_ok r" by (simp add: rsc_ok_def)
    from trigger_vote_ok [OF that(2) assms(3) this] i show ?thesis
      by (intro world_put_same_heap [OF ok]) (auto intro: rsc_ok_upd)
  qed
  with trigger ok show ?thesis
    by (auto simp: sde_rsc_client_trigger_vote_def split: bind_splits sum.splits prod.splits)
next
  case (reset_vsync g client w rc g' w')
  with assms(2) have ok: "world_ok g" by simp
  have "world_ok (put_rsc g i (r\<lparr>rsc_vsync_wait := b\<rparr>))"
    if "client_rsc g client (- EINVAL) (0 :: int) = Some (Inr (i, r))" for i r b
    using client_rsc_Inr [OF that] world_get [OF ok]
    by (intro world_put_same_heap [OF ok]) (auto intro: rsc_ok_upd simp: rsc_ok_def vote_ok_def)
  with reset_vsync ok show ?thesis
    by (auto simp: sde_rsc_client_reset_vsync_refcount_def split: bind_splits sum.splits if_splits)
qed

lemma rsc_run_world: "rsc_run len env x y \<Longrightarrow> world_ok (fst x) \<Longrightarrow> switches_ok env \<Longrightarrow> init_ok env \<Longrightarrow> world_ok (fst y)"
  by (induction rule: rsc_run.induct) (auto dest: rsc_step_world)

end
