(* ===== verification/Sde_Rsc_Arb.thy ===== *)
theory Sde_Rsc_Arb
  imports Sde_Rsc_Inv
begin

section \<open>Display resource state coordinator: arbitration\<close>

text \<open>
  The abstract specification of an idle request, as an arbitration between the states that the
  clients have asked for, and the proof that the state switches of both versions implement it when
  the hardware agrees.
\<close>

subsection \<open>The order of the states\<close>

primrec rsc_level :: "sde_rsc_state \<Rightarrow> nat" where
  "rsc_level SDE_RSC_IDLE_STATE = 0"
| "rsc_level SDE_RSC_CLK_STATE = 1"
| "rsc_level SDE_RSC_CMD_STATE = 2"
| "rsc_level SDE_RSC_VID_STATE = 3"

lemma rsc_level_inject: "rsc_level a = rsc_level b \<longleftrightarrow> a = b"
  by (cases a; cases b) simp_all

instantiation sde_rsc_state :: linorder
begin

definition less_eq_sde_rsc_state :: "sde_rsc_state \<Rightarrow> sde_rsc_state \<Rightarrow> bool" where
  "less_eq_sde_rsc_state a b \<longleftrightarrow> rsc_level a \<le> rsc_level b"

definition less_sde_rsc_state :: "sde_rsc_state \<Rightarrow> sde_rsc_state \<Rightarrow> bool" where
  "less_sde_rsc_state a b \<longleftrightarrow> rsc_level a < rsc_level b"

instance
  by standard
    (auto simp: less_eq_sde_rsc_state_def less_sde_rsc_state_def rsc_level_inject)

end

text \<open>The strongest of the given states.\<close>

definition strongest_state :: "sde_rsc_state list \<Rightarrow> sde_rsc_state" where
  "strongest_state vs =
     (if SDE_RSC_VID_STATE \<in> set vs then SDE_RSC_VID_STATE
      else if SDE_RSC_CMD_STATE \<in> set vs then SDE_RSC_CMD_STATE
      else if SDE_RSC_CLK_STATE \<in> set vs then SDE_RSC_CLK_STATE
      else SDE_RSC_IDLE_STATE)"

interpretation rsc_arb: vote_arbiter strongest_state SDE_RSC_IDLE_STATE
proof
  fix v :: sde_rsc_state and vs
  show "v \<in> set vs \<Longrightarrow> v \<le> strongest_state vs"
    by (cases v) (auto simp: strongest_state_def less_eq_sde_rsc_state_def)
qed (auto simp: strongest_state_def less_eq_sde_rsc_state_def)

text \<open>
  What a client's state counts for when the coordinator may go idle: the clock state counts for
  clock clients only, and in version 3 an external display in the clock state silences the
  command and video states.
\<close>

definition idle_vote :: "bool \<Rightarrow> sde_rsc_client \<Rightarrow> sde_rsc_state" where
  "idle_vote external c =
     (case rc_state c of
        SDE_RSC_IDLE_STATE \<Rightarrow> SDE_RSC_IDLE_STATE
      | SDE_RSC_CLK_STATE \<Rightarrow> if client_type c = SDE_RSC_CLK_CLIENT then SDE_RSC_CLK_STATE else SDE_RSC_IDLE_STATE
      | s \<Rightarrow> if external then SDE_RSC_IDLE_STATE else s)"

definition idle_outcome :: "sde_rsc_priv \<Rightarrow> sde_rsc_client list \<Rightarrow> sde_rsc_state" where
  "idle_outcome r cs =
     (if rev3 r then Max (insert SDE_RSC_IDLE_STATE (set (map (idle_vote (\<exists>c \<in> set cs. external_clk c)) cs)))
      else if \<exists>c \<in> set cs. rc_state c = SDE_RSC_VID_STATE then current_state r
      else Max (insert SDE_RSC_IDLE_STATE (set (map (idle_vote False) cs))))"

lemma idle_vote_eq:
  "SDE_RSC_VID_STATE = idle_vote x c \<longleftrightarrow> \<not> x \<and> rc_state c = SDE_RSC_VID_STATE"
  "SDE_RSC_CMD_STATE = idle_vote x c \<longleftrightarrow> \<not> x \<and> rc_state c = SDE_RSC_CMD_STATE"
  "SDE_RSC_CLK_STATE = idle_vote x c \<longleftrightarrow> rc_state c = SDE_RSC_CLK_STATE \<and> client_type c = SDE_RSC_CLK_CLIENT"
  by (cases "rc_state c"; simp add: idle_vote_def)+

text \<open>The arbitration as the code decides it.\<close>

lemma idle_Max:
  "Max (insert SDE_RSC_IDLE_STATE (set (map (idle_vote x) cs))) =
     (if \<not> x \<and> (\<exists>c \<in> set cs. rc_state c = SDE_RSC_VID_STATE) then SDE_RSC_VID_STATE
      else if \<not> x \<and> (\<exists>c \<in> set cs. rc_state c = SDE_RSC_CMD_STATE) then SDE_RSC_CMD_STATE
      else if \<exists>c \<in> set cs. rc_state c = SDE_RSC_CLK_STATE \<and> client_type c = SDE_RSC_CLK_CLIENT then SDE_RSC_CLK_STATE
      else SDE_RSC_IDLE_STATE)"
  unfolding rsc_arb.arb_Max [symmetric] strongest_state_def by (auto simp: image_iff idle_vote_eq)

subsection \<open>The hardware agrees\<close>

definition hw_agrees :: "rsc_env \<Rightarrow> sde_rsc_priv \<Rightarrow> bool" where
  "hw_agrees env r \<longleftrightarrow> op_state_update (hw_ops r)
     \<and> (\<forall>w s. env w (Hw_state_update s) = 0) \<and> (\<forall>w. env w Wait_event_timeout \<noteq> 0)"

definition primary_alive :: "rsc_heap \<Rightarrow> sde_rsc_priv \<Rightarrow> bool" where
  "primary_alive h r \<longleftrightarrow> (\<exists>p c. primary_client r = Some p \<and> h p = Some c)"

definition switched :: "int \<Rightarrow> switch_result \<Rightarrow> bool" where
  "switched rc x \<longleftrightarrow> (\<exists>r wait w. x = Some (rc, r, wait, w))"

lemma hw_switch_agrees: "hw_agrees env r \<Longrightarrow> \<exists>w'. hw_switch env r st b rc w = (0, w')"
  by (simp add: hw_switch_def hw_agrees_def ext_def)

lemma vsync_request_alive:
  "primary_alive h r \<Longrightarrow> \<exists>r' wait' w'. vsync_request env h r wait b w = Some (r', wait', w')"
  by (auto simp: vsync_request_def primary_alive_def Let_def)

lemma vsync_agrees:
  assumes "hw_agrees env r" and "primary_alive h r"
  shows "switched 0 (switch_vsync env h r from 0 wait w)"
  using vsync_request_alive [OF assms(2), of env wait True w] assms(1)
  by (auto simp: switch_vsync_def switched_def vsync_wait_zero_def hw_agrees_def ext_def)

lemma switch_primary_agrees:
  assumes "hw_agrees env r" and "primary_alive h r" and "clients_of h r = Some cs"
    and "\<not> (\<exists>c \<in> set cs. blocks c)"
  shows "switched 0 (switch_primary env h r st b blocks None (primary_client r) wait w)"
proof -
  obtain w1 where hw: "hw_switch env r st b STATE_UPDATE_NOT_ALLOWED w = (0, w1)"
    using hw_switch_agrees [OF assms(1)] by blast
  obtain r2 wait2 w2 where "vsync_request env h r wait False w1 = Some (r2, wait2, w2)"
    using vsync_request_alive [OF assms(2)] by blast
  then show ?thesis
    using assms(2-4) hw
    by (auto simp: switch_primary_def switched_def timer_if_def primary_alive_def)
qed

lemma switch_clk_agrees:
  assumes "hw_agrees env r" and "primary_alive h r" and "clients_of h r = Some cs"
  shows "(\<exists>c \<in> set cs. external_clk c) \<or> (\<forall>c \<in> set cs. rc_state c \<noteq> SDE_RSC_VID_STATE \<and> rc_state c \<noteq> SDE_RSC_CMD_STATE) \<Longrightarrow>
      switched 0 (sde_rsc_switch_to_clk_v3 env h r wait w)"
    and "\<forall>c \<in> set cs. rc_state c \<noteq> SDE_RSC_VID_STATE \<and> rc_state c \<noteq> SDE_RSC_CMD_STATE \<Longrightarrow>
      switched 0 (sde_rsc_switch_to_clk_v2 env h r wait w)"
  using hw_switch_agrees [OF assms(1), of SDE_RSC_CLK_STATE False STATE_UPDATE_NOT_ALLOWED w]
    vsync_agrees [OF assms(1,2)] assms(3)
  by (auto simp: sde_rsc_switch_to_clk_v3_def sde_rsc_switch_to_clk_v2_def Let_def)

lemma succeed_switched: "switched 0 x \<Longrightarrow> switched code (succeed_with code x)"
  by (auto simp: switched_def succeed_with_def)

lemma switched_Some: "switched rc (Some (rc, r, wait, w))"
  by (simp add: switched_def)

text \<open>The code with which an idle request ends, given the state it leads to.\<close>

primrec switch_code :: "sde_rsc_state \<Rightarrow> int" where
  "switch_code SDE_RSC_IDLE_STATE = 0"
| "switch_code SDE_RSC_CLK_STATE = CLK_MODE_SWITCH_SUCCESS"
| "switch_code SDE_RSC_CMD_STATE = CMD_MODE_SWITCH_SUCCESS"
| "switch_code SDE_RSC_VID_STATE = VID_MODE_SWITCH_SUCCESS"

lemma idle_v3_agrees:
  assumes "hw_agrees env r" and "primary_alive h r" and "clients_of h r = Some cs" and "rev3 r"
  shows "switched (switch_code (idle_outcome r cs)) (sde_rsc_switch_to_idle_v3 env h r wait w)"
proof -
  note p = switch_primary_agrees [OF assms(1-3), where blocks = external_clk]
  note c = switch_clk_agrees(1) [OF assms(1-3)]
  obtain w1 where hw: "hw_switch env r SDE_RSC_IDLE_STATE True STATE_UPDATE_NOT_ALLOWED w = (0, w1)"
    using hw_switch_agrees [OF assms(1)] by blast
  have step: "sde_rsc_switch_to_idle_v3 env h r wait w =
     (if (\<exists>c \<in> set cs. rc_state c = SDE_RSC_VID_STATE) \<and> \<not> (\<exists>c \<in> set cs. external_clk c)
      then succeed_with VID_MODE_SWITCH_SUCCESS (sde_rsc_switch_to_vid_v3 env h r None (primary_client r) wait w)
      else if (\<exists>c \<in> set cs. rc_state c = SDE_RSC_CMD_STATE) \<and> \<not> (\<exists>c \<in> set cs. external_clk c)
      then succeed_with CMD_MODE_SWITCH_SUCCESS (sde_rsc_switch_to_cmd_v3 env h r None (primary_client r) wait w)
      else if \<exists>c \<in> set cs. rc_state c = SDE_RSC_CLK_STATE \<and> client_type c = SDE_RSC_CLK_CLIENT
      then succeed_with CLK_MODE_SWITCH_SUCCESS (sde_rsc_switch_to_clk_v3 env h r wait w)
      else Some (0, r, wait, w1))"
    unfolding sde_rsc_switch_to_idle_v3_def Let_def assms(3) bind.bind_lunit hw prod.case by (rule refl)
  show ?thesis
    unfolding step idle_outcome_def idle_Max using assms(4)
    by (simp add: switch_cmd_vid_defs switched_Some)
      (intro conjI impI succeed_switched p c; blast)
qed

lemma idle_v2_agrees:
  assumes "hw_agrees env r" and "primary_alive h r" and "clients_of h r = Some cs" and "\<not> rev3 r"
    and "\<not> (\<exists>c \<in> set cs. rc_state c = SDE_RSC_VID_STATE)"
  shows "switched (switch_code (idle_outcome r cs)) (sde_rsc_switch_to_idle_v2 env h r wait w)"
proof -
  note p = switch_primary_agrees [OF assms(1-3), where blocks = "\<lambda>c. rc_state c = SDE_RSC_VID_STATE"]
  note c = switch_clk_agrees(2) [OF assms(1-3)]
  obtain w1 where hw: "hw_switch env r SDE_RSC_IDLE_STATE True STATE_UPDATE_NOT_ALLOWED w = (0, w1)"
    using hw_switch_agrees [OF assms(1)] by blast
  have step: "sde_rsc_switch_to_idle_v2 env h r wait w =
     (if \<exists>c \<in> set cs. rc_state c = SDE_RSC_CMD_STATE
      then succeed_with CMD_MODE_SWITCH_SUCCESS (sde_rsc_switch_to_cmd_v2 env h r None (primary_client r) wait w)
      else if \<exists>c \<in> set cs. rc_state c = SDE_RSC_CLK_STATE \<and> client_type c = SDE_RSC_CLK_CLIENT
      then succeed_with CLK_MODE_SWITCH_SUCCESS (sde_rsc_switch_to_clk_v2 env h r wait w)
      else Some (0, r, wait, w1))"
    unfolding sde_rsc_switch_to_idle_v2_def Let_def assms(3) bind.bind_lunit hw prod.case if_not_P [OF assms(5)]
    by (rule refl)
  show ?thesis
    unfolding step idle_outcome_def idle_Max using assms(4,5)
    by (simp add: switch_cmd_vid_defs switched_Some)
      (intro conjI impI succeed_switched p c; blast)
qed

text \<open>An idle request that reaches the state switches.\<close>

lemma switch_state_idle:
  assumes "hw_agrees env r" and "primary_alive h r" and "clients_of h r = Some cs"
    and "rev3 r \<or> \<not> (\<exists>c \<in> set cs. rc_state c = SDE_RSC_VID_STATE)"
  shows "\<exists>r' wait' w'. switch_state env h r SDE_RSC_IDLE_STATE None a wait w =
    Some (0, idle_outcome r cs, r', wait', w')"
proof -
  have "switched (switch_code (idle_outcome r cs)) (if rev3 r then sde_rsc_switch_to_idle_v3 env h r wait w
      else sde_rsc_switch_to_idle_v2 env h r wait w)"
    using idle_v3_agrees [OF assms(1-3)] idle_v2_agrees [OF assms(1-3)] assms(4) by auto
  then show ?thesis
    by (cases "idle_outcome r cs") (auto simp: switched_def switch_state_def rsc_code_defs)
qed

lemma rsc_clk_current: "current_state (fst (snd (rsc_clk env r b w))) = current_state r"
  using rsc_clk_frame [of env r b w] by (cases "rsc_clk env r b w") auto

lemma rsc_update_idle:
  assumes "hw_agrees env r" and "primary_alive h r" and "clients_of h r = Some cs"
    and "current_state r \<noteq> SDE_RSC_IDLE_STATE"
  shows "\<exists>r' wait' w'. rsc_update env h r SDE_RSC_IDLE_STATE None a wait w = Some (0, r', wait', w')
    \<and> current_state r' = idle_outcome r cs"
proof (cases "rev3 r \<or> \<not> (\<exists>c \<in> set cs. rc_state c = SDE_RSC_VID_STATE)")
  case True
  from switch_state_idle [OF assms(1-3) True] obtain r2 wait2 w2 where
    "switch_state env h r SDE_RSC_IDLE_STATE None a wait w = Some (0, idle_outcome r cs, r2, wait2, w2)" by blast
  moreover obtain rc3 r3 w3 where "rsc_clk env (r2\<lparr>current_state := idle_outcome r cs\<rparr>) False w2 = (rc3, r3, w3)"
    by (metis prod_cases3)
  ultimately show ?thesis
    using assms(4) rsc_clk_current [of env "r2\<lparr>current_state := idle_outcome r cs\<rparr>" False w2]
    by (cases "idle_outcome r cs = SDE_RSC_IDLE_STATE") (simp_all add: rsc_update_def rsc_code_defs Let_def)
next
  case False
  then have "sde_rsc_switch_to_idle_v2 env h r wait w = Some (STATE_UPDATE_NOT_ALLOWED, r, wait, w)"
    using assms(3) by (simp add: sde_rsc_switch_to_idle_v2_def)
  with False assms(4) show ?thesis
    by (simp add: rsc_update_def switch_state_def rsc_code_defs idle_outcome_def)
qed

text \<open>The clients of a coordinator of a well-formed world exist.\<close>

lemma clients_of_ok:
  assumes "rsc_ok h i r"
  shows "clients_of h r = Some (map (the \<circ> h) (client_list r))"
proof -
  have "those (map h xs) = Some (map (the \<circ> h) xs)" if "\<forall>a \<in> set xs. h a \<noteq> None" for xs
    using that by (induction xs) auto
  from this [of "client_list r"] assms show ?thesis by (auto simp: clients_of_def rsc_ok_def)
qed

text \<open>A request for the command or video state in version 3.\<close>

lemma switch_primary_display:
  assumes "hw_agrees env r" and "primary_alive h r" and "clients_of h r = Some cs" and "current_state r \<noteq> st"
  shows "\<exists>r' wait' w'. switch_primary env h r st b external_clk config (Some a) wait w =
    Some (if primary_client r \<noteq> Some a then - EINVAL
          else if \<exists>c \<in> set cs. external_clk c then STATE_UPDATE_NOT_ALLOWED else 0, r', wait', w')"
proof -
  obtain r1 w1 where t: "timer_if env r config st w = (r1, w1)" by fastforce
  note f = rsc_same_fields [OF timer_if_same [OF t]]
  have agr: "hw_agrees env r1" and alive: "primary_alive h r1" and cs: "clients_of h r1 = Some cs"
    using assms(1-3) f by (simp_all add: hw_agrees_def primary_alive_def clients_of_def)
  obtain w2 where hw: "hw_switch env r1 st b STATE_UPDATE_NOT_ALLOWED w1 = (0, w2)"
    using hw_switch_agrees [OF agr] by blast
  obtain r3 wait3 w3 where v: "vsync_request env h r1 wait False w2 = Some (r3, wait3, w3)"
    using vsync_request_alive [OF alive] by blast
  obtain p c where p: "primary_client r = Some p" "h p = Some c"
    using assms(2) by (auto simp: primary_alive_def)
  show ?thesis
    using t cs hw v p assms(4) f(2,4)
    by (cases "\<exists>c \<in> set cs. external_clk c") (simp_all add: switch_primary_def rsc_code_defs)
qed

lemma display_update:
  assumes "hw_agrees env r" and "primary_alive h r" and "clients_of h r = Some cs"
    and "rev3 r" and "\<not> need_hwinit r"
    and "st = SDE_RSC_CMD_STATE \<or> st = SDE_RSC_VID_STATE" and "current_state r \<noteq> st"
  shows "\<exists>rc r' wait' w'. rsc_update env h r st config a wait w = Some (rc, r', wait', w')
    \<and> (rc, current_state r') =
        (if primary_client r \<noteq> Some a then (- EINVAL, current_state r)
         else if \<exists>c \<in> set cs. external_clk c then (0, current_state r) else (0, st))"
proof -
  define r1w where "r1w = (if current_state r = SDE_RSC_IDLE_STATE then snd (rsc_clk env r True w) else (r, w))"
  obtain r1 w1 where r1: "r1w = (r1, w1)" by fastforce
  have f: "\<exists>p. r1 = r\<lparr>power := p\<rparr>"
  proof (cases "current_state r = SDE_RSC_IDLE_STATE")
    case True
    then show ?thesis using r1 rsc_clk_frame [of env r True w] by (cases "rsc_clk env r True w") (auto simp: r1w_def)
  next
    case False
    then show ?thesis using r1 by (cases r) (auto simp: r1w_def)
  qed
  then have agr: "hw_agrees env r1" and alive: "primary_alive h r1" and cs: "clients_of h r1 = Some cs"
    and cur: "current_state r1 = current_state r" "primary_client r1 = primary_client r" "rev3 r1"
    using assms by (auto simp: hw_agrees_def primary_alive_def clients_of_def)
  let ?rc = "if primary_client r \<noteq> Some a then - EINVAL
          else if \<exists>c \<in> set cs. external_clk c then STATE_UPDATE_NOT_ALLOWED else 0"
  obtain r2 wait2 w2 where
    "switch_primary env h r1 st True external_clk config (Some a) wait w1 = Some (?rc, r2, wait2, w2)"
    using switch_primary_display [OF agr alive cs, of st True config a wait w1] assms(7)
    unfolding cur by blast
  then have sw: "switch_state env h r1 st config a wait w1 = Some (?rc, st, r2, wait2, w2)"
    using assms(6) cur(3) by (elim disjE) (simp_all add: switch_state_def switch_cmd_vid_defs)
  have cur2: "current_state r2 = current_state r"
    using rsc_same_fields(2) [OF switch_state_same [OF sw]] cur by simp
  obtain rc3 r3 w3 where off: "rsc_clk env r2 False w2 = (rc3, r3, w3)" by (metis prod_cases3)
  then have cur3: "current_state r3 = current_state r2" using rsc_clk_current [of env r2 False w2] by simp
  have st: "st \<noteq> SDE_RSC_IDLE_STATE" using assms(6) by auto
  show ?thesis
    using sw r1 cur2 cur3 off assms(5) st
    by (cases "primary_client r = Some a"; cases "\<exists>c \<in> set cs. external_clk c")
      (simp_all add: rsc_update_def r1w_def [symmetric] rsc_code_defs Let_def)
qed

subsection \<open>A refused clock state\<close>

lemma clk_refusal_lost:
  assumes "clients_of h r = Some cs"
    and "\<forall>c \<in> set cs. rc_state c \<noteq> SDE_RSC_VID_STATE \<and> rc_state c \<noteq> SDE_RSC_CMD_STATE"
    and "op_state_update (hw_ops r)" and "\<forall>w. env w (Hw_state_update SDE_RSC_CLK_STATE) \<noteq> 0"
    and "rsc_vsync_wait r \<noteq> 0" and "\<forall>w. env w Wait_event_timeout \<noteq> 0"
  shows "\<exists>r' w'. sde_rsc_switch_to_clk_v3 env h r wait w = Some (0, r', wait, w')"
    and "\<exists>r' w'. sde_rsc_switch_to_clk_v2 env h r wait w = Some (0, r', wait, w')"
proof -
  obtain rc w1 where hw: "hw_switch env r SDE_RSC_CLK_STATE False STATE_UPDATE_NOT_ALLOWED w = (rc, w1)" "rc \<noteq> 0"
    using assms(3,4) by (auto simp: hw_switch_def ext_def)
  then have v: "\<exists>r' w'. switch_vsync env h r from rc wait w1 = Some (0, r', wait, w')" for "from"
    using assms(5,6) by (auto simp: switch_vsync_def vsync_wait_zero_def ext_def)
  show "\<exists>r' w'. sde_rsc_switch_to_clk_v3 env h r wait w = Some (0, r', wait, w')"
    and "\<exists>r' w'. sde_rsc_switch_to_clk_v2 env h r wait w = Some (0, r', wait, w')"
    using v hw assms(1,2) by (auto simp: sde_rsc_switch_to_clk_v3_def sde_rsc_switch_to_clk_v2_def Let_def)
qed

subsection \<open>Destroying a client\<close>

lemma rsc_clk_primary: "primary_client (fst (snd (rsc_clk env r b w))) = primary_client r"
  using rsc_clk_frame [of env r b w] by (cases "rsc_clk env r b w") auto

lemma idle_keeps_primary:
  assumes "rsc_update env h r SDE_RSC_IDLE_STATE config a wait w = Some (rc, r', wait', w')"
  shows "primary_client r' = primary_client r"
proof -
  from assms obtain r1 w1 rc0 new r2 w2 where
    r1: "(r1, w1) = (if current_state r = SDE_RSC_IDLE_STATE then snd (rsc_clk env r True w) else (r, w))"
    and sw: "switch_state env h r1 SDE_RSC_IDLE_STATE config a wait w1 = Some (rc0, new, r2, wait', w2)"
    and r': "(r', w') = (let r3 = if rc0 = 0 then r2\<lparr>current_state := new\<rparr> else r2 in
       if current_state r3 = SDE_RSC_IDLE_STATE then snd (rsc_clk env r3 False w2) else (r3, w2))"
    by (rule rsc_update_cases) auto
  from r1 have "primary_client r1 = primary_client r"
    by (metis rsc_clk_primary fst_conv)
  moreover have "primary_client r2 = primary_client r1"
    using rsc_same_fields(4) [OF switch_state_same [OF sw]] .
  moreover have "primary_client r' = primary_client r2"
  proof -
    define r3 where "r3 = (if rc0 = 0 then r2\<lparr>current_state := new\<rparr> else r2)"
    have "primary_client r' = primary_client r3"
      using r' by (simp add: r3_def [symmetric] Let_def) (metis rsc_clk_primary fst_conv)
    then show ?thesis by (simp add: r3_def)
  qed
  ultimately show ?thesis by simp
qed

lemma destroy_keeps_primary:
  assumes "sde_rsc_client_destroy env g (Some a) w = Some (g', w')" and "heap g a = Some c"
    and "rsc_index c < MAX_RSC_COUNT" and "get_rsc g (rsc_index c) = Some r"
    and "length (rsc_prv_list g) = MAX_RSC_COUNT"
  shows "heap g' a = None \<and> (\<exists>r'. get_rsc g' (rsc_index c) = Some r' \<and> primary_client r' = primary_client r)"
proof -
  have fin: "heap g' a = None \<and> (\<exists>r'. get_rsc g' (rsc_index c) = Some r' \<and> primary_client r' = primary_client r)"
    if "get_rsc g1 (rsc_index c) = Some r1" "primary_client r1 = primary_client r"
      "length (rsc_prv_list g1) = MAX_RSC_COUNT"
      "g' = (put_rsc g1 (rsc_index c) (r1\<lparr>client_list := removeAll a (client_list r1)\<rparr>))\<lparr>heap := (heap g1)(a := None)\<rparr>"
    for g1 r1
    using that assms(3) by (simp add: get_rsc_def put_rsc_def)
  have upd: "\<exists>r1. get_rsc g1 (rsc_index c) = Some r1 \<and> primary_client r1 = primary_client r
      \<and> length (rsc_prv_list g1) = MAX_RSC_COUNT"
    if "sde_rsc_client_state_update env g (Some a) SDE_RSC_IDLE_STATE None None True w = Some (rc, g1, wait, w1)"
    for rc g1 wait w1
    using that
  proof (cases rule: state_update_cases)
    case (updated b d r0 r1)
    then have "primary_client r1 = primary_client r" using idle_keeps_primary [OF updated(5)] assms(2,4) by simp
    with updated assms(2-5) show ?thesis
      by (auto simp: get_rsc_def put_rsc_def)
  qed (use assms(2-5) in \<open>auto simp: get_rsc_def\<close>)
  show ?thesis
  proof (cases "rc_state c = SDE_RSC_IDLE_STATE")
    case True
    with assms show ?thesis by (intro fin [of g r]) (auto simp: sde_rsc_client_destroy_def)
  next
    case False
    with assms(1-4) obtain rc g1 wait w1 r1 where
      u: "sde_rsc_client_state_update env g (Some a) SDE_RSC_IDLE_STATE None None True w = Some (rc, g1, wait, w1)"
      and r1: "get_rsc g1 (rsc_index c) = Some r1"
      and g': "g' = (put_rsc g1 (rsc_index c) (r1\<lparr>client_list := removeAll a (client_list r1)\<rparr>))\<lparr>heap := (heap g1)(a := None)\<rparr>"
      by (auto simp: sde_rsc_client_destroy_def split: bind_splits)
    from upd [OF u] r1 g' show ?thesis by (intro fin) auto
  qed
qed

subsection \<open>No undefined behaviour\<close>

text \<open>The clients in the list exist, and so does the primary client, if there is one.\<close>

definition clients_alive :: "rsc_heap \<Rightarrow> sde_rsc_priv \<Rightarrow> bool" where
  "clients_alive h r \<longleftrightarrow> defined (clients_of h r) \<and> (case primary_client r of None \<Rightarrow> True | Some p \<Rightarrow> h p \<noteq> None)"

lemma clients_alive_cong:
  "client_list r' = client_list r \<Longrightarrow> primary_client r' = primary_client r \<Longrightarrow> clients_alive h r' = clients_alive h r"
  by (simp add: clients_alive_def clients_of_def)

lemma clients_alive_same: "clients_alive h r \<Longrightarrow> rsc_same r r' \<Longrightarrow> clients_alive h r'"
  using clients_alive_cong rsc_same_fields by blast

lemma vsync_request_defined:
  assumes "clients_alive h r" and "primary_client r \<noteq> None"
  shows "defined (vsync_request env h r wait b w)"
  using assms vsync_request_alive [of h r env wait b w]
  by (auto simp: clients_alive_def primary_alive_def defined_def)

lemma clients_of_defined: "clients_alive h r \<Longrightarrow> defined (clients_of h r)"
  by (simp add: clients_alive_def)

lemma primary_defined: "clients_alive h r \<Longrightarrow> primary_client r = Some p \<Longrightarrow> defined (h p)"
  by (simp add: clients_alive_def defined_def)

lemma primary_set: "primary_client r \<noteq> None \<Longrightarrow> defined (primary_client r)"
  by (simp add: defined_def)

lemma switch_primary_defined:
  assumes "clients_alive h r"
  shows "defined (switch_primary env h r st b blocks config caller wait w)"
proof (cases "primary_client r")
  case None
  then show ?thesis by (simp add: switch_primary_def)
next
  case (Some p)
  obtain r1 w1 where t: "timer_if env r config st w = (r1, w1)" by fastforce
  note same = timer_if_same [OF t]
  obtain cs where cs: "clients_of h r1 = Some cs"
    using clients_of_defined [OF clients_alive_same [OF assms same]] defined_ex by blast
  have v: "defined (vsync_request env h r1 wait False w')" for w'
    using vsync_request_defined [OF clients_alive_same [OF assms same]] Some rsc_same_fields(4) [OF same] by simp
  from assms Some obtain c where "h p = Some c" by (auto simp: clients_alive_def)
  with Some t cs show ?thesis
    by (auto simp: switch_primary_def intro!: safe_intros v)
qed

lemma switch_vsync_defined: "clients_alive h r \<Longrightarrow> defined (switch_vsync env h r from rc wait w)"
  unfolding switch_vsync_def by (auto intro!: safe_intros vsync_request_defined simp del: not_None_eq)

lemma switch_vid_v2_defined:
  assumes "clients_alive h r"
  shows "defined (sde_rsc_switch_to_vid_v2 env h r config caller wait w)"
  unfolding sde_rsc_switch_to_vid_v2_def Let_def
  by (auto intro!: safe_intros switch_vsync_defined assms clients_alive_same [OF assms timer_if_same]
      split: if_splits)

lemma switch_clk_defined:
  assumes "clients_alive h r"
  shows "defined (sde_rsc_switch_to_clk_v3 env h r wait w)" "defined (sde_rsc_switch_to_clk_v2 env h r wait w)"
  unfolding sde_rsc_switch_to_clk_v3_def sde_rsc_switch_to_clk_v2_def Let_def
  using assms by (auto intro!: safe_intros switch_vsync_defined clients_of_defined)

lemma succeed_defined: "defined x \<Longrightarrow> defined (succeed_with code x)"
  by (auto simp: succeed_with_def intro!: safe_intros)

lemma switch_idle_defined:
  assumes "clients_alive h r"
  shows "defined (sde_rsc_switch_to_idle_v3 env h r wait w)" "defined (sde_rsc_switch_to_idle_v2 env h r wait w)"
  unfolding sde_rsc_switch_to_idle_v3_def sde_rsc_switch_to_idle_v2_def switch_cmd_vid_defs Let_def
  using assms
  by (auto intro!: safe_intros clients_of_defined succeed_defined switch_primary_defined switch_clk_defined)

lemma switch_state_defined:
  assumes "clients_alive h r"
  shows "defined (switch_state env h r st config a wait w)"
  using assms
  by (cases st; simp add: switch_state_def switch_cmd_vid_defs)
    (auto intro!: safe_intros switch_primary_defined switch_clk_defined switch_idle_defined switch_vid_v2_defined)

lemma hw_init_clients:
  assumes "sde_rsc_hw_init env r w = (rc, r', w')"
  shows "client_list r' = client_list r \<and> primary_client r' = primary_client r"
  using assms unfolding sde_rsc_hw_init_def
  by (auto split: prod.splits if_splits dest!: rsc_clk_frame timer_same simp: rsc_same_fields)

lemma rsc_update_defined:
  assumes "clients_alive h r"
  shows "defined (rsc_update env h r st config a wait w)"
proof -
  have on: "clients_alive h r2" if "clients_alive h r1" "snd (rsc_clk env r1 c w1) = (r2, w2)" for c r1 w1 r2 w2
    using that rsc_clk_frame [of env r1 c w1]
    by (cases "rsc_clk env r1 c w1") (auto simp: clients_alive_def clients_of_def)
  have init: "clients_alive h (fst (let (_, r1, w1) = sde_rsc_hw_init env r w in (r1\<lparr>need_hwinit := False\<rparr>, w1)))"
    using assms hw_init_clients [of env r w]
    by (auto simp: clients_alive_def clients_of_def split: prod.splits)
  show ?thesis
    unfolding rsc_update_def Let_def
    by (intro safe_intros switch_state_defined) (use assms on init in \<open>auto simp: Let_def split: if_splits\<close>)
qed

subsection \<open>Timer arithmetic\<close>

lemma uint_div_u64: "uint (div_u64 a b) = uint a div uint b"
  by (simp add: div_u64_def uint_div_distrib)

lemma static_wakeup_exact:
  assumes "fps c \<noteq> 0" and "jitter_denom c \<noteq> 0" and "vtotal c \<noteq> 0" and "prefill_lines c \<le> 108"
  defines "frame \<equiv> 10 ^ 9 div uint (fps c)"
  defines "jitter \<equiv> frame * uint (jitter_numer c) div uint (jitter_denom c) div 100"
  defines "prefill \<equiv> frame div uint (vtotal c) * uint (prefill_lines c)"
  shows "uint (static_wakeup c st) = max 0 (frame - (if st = SDE_RSC_CMD_STATE then jitter else 0) - prefill) div 52"
proof -
  note pos = assms(1-3) [THEN uint_pos]
  have frame: "frame \<in> {0..10 ^ 9}" unfolding frame_def by (rule div_between) (use pos in auto)
  define ft where "ft = div_u64 1000000000 (fps c)"
  have ft: "uint ft = frame" by (simp add: ft_def frame_def uint_div_u64)
  have "frame * uint (jitter_numer c) \<le> 10 ^ 9 * 2 ^ 32"
    using frame u32_bound [of "jitter_numer c"] by (intro mult_mono) auto
  then have num: "frame * uint (jitter_numer c) \<in> {0..10 ^ 9 * 2 ^ 32}" using frame by simp
  define fj where "fj = div_u64 (div_u64 (ft * ucast (jitter_numer c)) (jitter_denom c)) 100"
  have fj: "uint fj = jitter"
    using num by (simp add: fj_def jitter_def uint_div_u64 uint_mult_u64 ft)
  have j1: "frame * uint (jitter_numer c) div uint (jitter_denom c) \<in> {0..10 ^ 9 * 2 ^ 32}"
    using div_between [of "frame * uint (jitter_numer c)" "uint (jitter_denom c)"] num pos by auto
  have jb: "jitter \<in> {0..10 ^ 9 * 2 ^ 32}"
    using div_between [of "frame * uint (jitter_numer c) div uint (jitter_denom c)" 100] j1 by (auto simp: jitter_def)
  have line: "frame div uint (vtotal c) \<in> {0..10 ^ 9}"
    using div_between [of frame "uint (vtotal c)"] frame pos by auto
  have lines: "uint (prefill_lines c) \<le> 108" using assms(4) by (simp add: word_le_def)
  have "prefill \<le> 10 ^ 9 * 108"
    unfolding prefill_def using line lines by (intro mult_mono) auto
  then have pb: "prefill \<in> {0..10 ^ 9 * 108}" using line by (simp add: prefill_def)
  define pt where "pt = div_u64 ft (vtotal c) * ucast (prefill_lines c)"
  have pt: "uint pt = prefill"
    using pb by (simp add: pt_def prefill_def uint_div_u64 uint_mult_u64 ft)
  define x where "x = frame - (if st = SDE_RSC_CMD_STATE then jitter else 0) - prefill"
  have x: "x \<in> {- (2 ^ 63)..< 2 ^ 63}" using frame jb pb by (auto simp: x_def)
  have eq: "(if st = SDE_RSC_CMD_STATE then ft - fj - pt else ft - pt) = word_of_int x"
    by (simp add: x_def flip: ft fj pt)
  have "static_wakeup c st = div_u64 (if sint (word_of_int x :: u64) < 0 then 0 else word_of_int x) 52"
    by (simp add: static_wakeup_def Let_def ft_def [symmetric] fj_def [symmetric] pt_def [symmetric] flip: eq)
  then show ?thesis
    using max_zero_word [OF x refl] by (simp add: uint_div_u64 x_def)
qed

lemma fix_config_ok:
  "fps (fix_config c) \<noteq> 0" "jitter_denom (fix_config c) \<noteq> 0" "vtotal (fix_config c) \<noteq> 0"
  "35 \<le> prefill_lines (fix_config c)" "prefill_lines (fix_config c) \<le> 108"
  by (auto simp: fix_config_def Let_def)

text \<open>The configuration in use, and the given times in units of 52 ns.\<close>

lemma fix_config_values:
  "fps (fix_config c) = (if fps c = 0 then 60 else fps c)"
  "jitter_numer (fix_config c) = (if jitter_numer c = 0 then 2 else jitter_numer c)"
  "jitter_denom (fix_config c) = (if jitter_denom c = 0 then 1 else jitter_denom c)"
  "vtotal (fix_config c) = (if vtotal c = 0 then 505 else vtotal c)"
  "prefill_lines (fix_config c) = max 35 (min 108 (prefill_lines c))"
  by (auto simp: fix_config_def Let_def max_def min_def)

lemma timer_config_result:
  assumes "sde_rsc_timer_calculate env r config st w = (rc, r', w')"
  shows "cmd_config r' = fix_config (case config of None \<Rightarrow> cmd_config r | Some c \<Rightarrow> c)" "timer_config r' = rsc_timers r' st"
    "backoff_time_ns r' = backoff_time_ns r" "mode_threshold_time_ns r' = mode_threshold_time_ns r" "time_slot_0_ns r' = time_slot_0_ns r"
proof -
  have stable: "rsc_timers (q\<lparr>timer_config := t\<rparr>) st = rsc_timers q st" for q t
    by (simp add: rsc_timers_def)
  show "timer_config r' = rsc_timers r' st" using assms
    by (cases config) (auto simp: sde_rsc_timer_calculate_def Let_def stable split: if_splits prod.splits)
  show "cmd_config r' = fix_config (case config of None \<Rightarrow> cmd_config r | Some c \<Rightarrow> c)" "backoff_time_ns r' = backoff_time_ns r"
    "mode_threshold_time_ns r' = mode_threshold_time_ns r" "time_slot_0_ns r' = time_slot_0_ns r"
    using assms by (cases config; auto simp: sde_rsc_timer_calculate_def Let_def split: if_splits prod.splits)+
qed

lemma uint_units: "uint (ucast (div_u64 (ucast (x :: u32)) 52) :: u32) = uint x div 52"
proof -
  have "uint (div_u64 (ucast x) 52) = uint x div 52" by (simp add: uint_div_u64 unsigned_ucast_eq take_bit_int_eq_self u32_bound)
  moreover have "uint x div 52 < 2 ^ 32" using u32_bound [of x] div_between [of "uint x" 52] by auto
  moreover have "0 \<le> uint x div 52" by (simp add: pos_imp_zdiv_nonneg_iff)
  ultimately show ?thesis by (simp add: unsigned_ucast_eq take_bit_int_eq_self)
qed

lemma timers_by_time:
  assumes "t = rsc_timers r st"
  shows "uint (rsc_backoff_time_ns t) = uint (backoff_time_ns r) div 52"
    "uint (pdc_backoff_time_ns t) = uint (backoff_time_ns r) * 20 div 100"
    "uint (rsc_mode_threshold_time_ns t) = uint (mode_threshold_time_ns r) div 52"
    "uint (rsc_time_slot_0_ns t) = uint (time_slot_0_ns r) div 52"
    "uint (rsc_time_slot_2_ns t) = 2 ^ 32 - 1" "uint (min_threshold_time_ns t) = 18"
    "uint (bwi_threshold_time_ns t) = uint (time_slot_0_ns r) div 52"
proof -
  let ?b = "uint (backoff_time_ns r)"
  have b: "0 \<le> ?b" "?b < 2 ^ 32" using u32_bound by auto
  have "uint (ucast (backoff_time_ns r) * 20 :: u64) = ?b * 20"
    using b uint_mult_u64 [of "ucast (backoff_time_ns r)" 20] by (simp add: unsigned_ucast_eq take_bit_int_eq_self)
  then have d: "uint (div_u64 (ucast (backoff_time_ns r) * 20) 100) = ?b * 20 div 100" by (simp add: uint_div_u64)
  have "0 \<le> ?b * 20 div 100" "?b * 20 div 100 < 2 ^ 32" using b by (simp_all add: pos_imp_zdiv_nonneg_iff)
  then show "uint (pdc_backoff_time_ns t) = ?b * 20 div 100"
    using d by (simp add: assms rsc_timers_def Let_def unsigned_ucast_eq take_bit_int_eq_self)
qed (simp_all add: assms rsc_timers_def Let_def uint_units)

subsection \<open>What triggering the votes sends out\<close>

text \<open>The calls that change the power manager's table, and the bandwidth indication.\<close>

fun table_call :: "rsc_call \<Rightarrow> bool" where
  "table_call Rpmh_invalidate = True"
| "table_call Rpmh_flush = True"
| "table_call (Bus_quota i a b) = True"
| "table_call _ = False"

fun is_bwi :: "rsc_call \<Rightarrow> bool" where
  "is_bwi (Bwi_status x) = True"
| "is_bwi _ = False"

lemma bw_increases_iff:
  "bw_increases b \<longleftrightarrow> (\<exists>k < 3. new_ab_vote b ! k > ab_vote b ! k \<or> new_ib_vote b ! k > ib_vote b ! k)"
  by (auto simp: bw_increases_def SDE_POWER_HANDLE_DBUS_ID_MAX_def)

lemma rsc_clk_trace:
  assumes "rsc_clk env r b w = (rc, r', w')"
  shows "\<exists>u. w' = w @ u \<and> (\<forall>c \<in> set (map fst u). \<not> table_call c \<and> \<not> is_bwi c)"
  using assms
  by (auto simp: rsc_clk_def sde_rsc_clk_enable_def Let_def ext_def split: if_splits)

lemma quiet_filter:
  "\<forall>c \<in> set cs. \<not> table_call c \<and> \<not> is_bwi c \<Longrightarrow> filter table_call cs = [] \<and> filter is_bwi cs = []"
  by simp

lemma set_quotas_trace:
  "\<exists>u. set_quotas b js env w = w @ u \<and> map fst u = map (\<lambda>i. Bus_quota i (ab_vote b ! i) (ib_vote b ! i)) js"
proof (induction js arbitrary: w)
  case (Cons j js)
  let ?c = "Bus_quota j (ab_vote b ! j) (ib_vote b ! j)"
  from Cons [of "w @ [(?c, env w ?c)]"] obtain u where
    "set_quotas b js env (w @ [(?c, env w ?c)]) = (w @ [(?c, env w ?c)]) @ u"
    "map fst u = map (\<lambda>i. Bus_quota i (ab_vote b ! i) (ib_vote b ! i)) js" by blast
  then show ?case by (intro exI [of _ "(?c, env w ?c) # u"]) (simp add: ext_def)
qed simp

lemma trigger_status_trace:
  "\<exists>u. trigger_status env r x w = w @ u \<and> filter table_call (map fst u) = []
    \<and> filter is_bwi (map fst u) =
       (if op_bwi_status (hw_ops r) \<and> current_state r \<in> {SDE_RSC_CMD_STATE, SDE_RSC_VID_STATE}
        then [Bwi_status x] else [])"
  by (auto simp: trigger_status_def ext_def)

lemma trigger_trace:
  assumes "trigger_vote env r True w = (rc, r', w')" and "switches_ok env" and "\<forall>w. env w Tcs_wait = 0"
  defines "b \<equiv> bw_config r"
  shows "\<exists>u. rc = 0 \<and> w' = w @ u \<and> filter table_call (map fst u) =
        [Rpmh_invalidate, Bus_quota 0 (new_ab_vote b ! 0) (new_ib_vote b ! 0),
         Bus_quota 1 (new_ab_vote b ! 1) (new_ib_vote b ! 1),
         Bus_quota 2 (new_ab_vote b ! 2) (new_ib_vote b ! 2), Rpmh_flush]
    \<and> filter is_bwi (map fst u) =
        (if op_bwi_status (hw_ops r) \<and> current_state r \<in> {SDE_RSC_CMD_STATE, SDE_RSC_VID_STATE}
         then [Bwi_status (bw_increases b)] else [])"
proof -
  obtain rc1 r1 w1 where on: "rsc_clk env (r\<lparr>bw_config := commit_votes b\<rparr>) True w = (rc1, r1, w1)"
    by (metis prod_cases3)
  have rc1: "rc1 = 0"
    using on clk_enable_sums(1) [OF assms(2)] by (auto simp: rsc_clk_def split: prod.splits)
  obtain p where r1: "r1 = r\<lparr>bw_config := commit_votes b, power := p\<rparr>" using rsc_clk_frame [OF on] by auto
  obtain u1 where u1: "w1 = w @ u1" "\<forall>c \<in> set (map fst u1). \<not> table_call c \<and> \<not> is_bwi c"
    using rsc_clk_trace [OF on] by blast
  define u2 :: rsc_trace where "u2 = (if op_tcs_wait (hw_ops r) then [(Tcs_wait, 0)] else [])"
  define w3 where "w3 = snd (ext env Rpmh_invalidate (w1 @ u2))"
  obtain u4 where u4: "set_quotas (commit_votes b) [0..<SDE_POWER_HANDLE_DBUS_ID_MAX] env w3 = w3 @ u4"
    "map fst u4 = map (\<lambda>i. Bus_quota i (ab_vote (commit_votes b) ! i) (ib_vote (commit_votes b) ! i))
       [0..<SDE_POWER_HANDLE_DBUS_ID_MAX]" using set_quotas_trace by blast
  define w5 where "w5 = snd (ext env Rpmh_flush (w3 @ u4))"
  obtain u6 where u6: "trigger_status env r1 (bw_increases b) w5 = w5 @ u6" "filter table_call (map fst u6) = []"
    "filter is_bwi (map fst u6) = (if op_bwi_status (hw_ops r1) \<and> current_state r1 \<in> {SDE_RSC_CMD_STATE, SDE_RSC_VID_STATE}
        then [Bwi_status (bw_increases b)] else [])" using trigger_status_trace by blast
  obtain rc7 r7 w7 where off: "rsc_clk env r1 False (w5 @ u6) = (rc7, r7, w7)" by (metis prod_cases3)
  obtain u7 where u7: "w7 = w5 @ u6 @ u7" "\<forall>c \<in> set (map fst u7). \<not> table_call c \<and> \<not> is_bwi c"
    using rsc_clk_trace [OF off] by auto
  have f: "bw_config r1 = commit_votes b" "hw_ops r1 = hw_ops r" by (simp_all add: r1)
  have "(if op_tcs_wait (hw_ops r) then ext env Tcs_wait w1 else (0, w1)) = (0, w1 @ u2)"
    using assms(3) by (simp add: u2_def ext_def)
  then have "(rc, r', w') = (0, r7, w7)"
    using assms(1)
    by (simp add: trigger_vote_def Let_def b_def [symmetric] on rc1 f w3_def [symmetric] u4(1) w5_def [symmetric] u6(1) off)
  then have "rc = 0 \<and> w' = w @ (u1 @ u2 @ [(Rpmh_invalidate, env (w1 @ u2) Rpmh_invalidate)] @ u4 @
      [(Rpmh_flush, env (w3 @ u4) Rpmh_flush)] @ u6 @ u7)"
    by (simp add: u7 w5_def w3_def u1 ext_def)
  moreover have "[0..<SDE_POWER_HANDLE_DBUS_ID_MAX] = [0, 1, 2]" by code_simp
  ultimately show ?thesis
    using quiet_filter [OF u1(2)] quiet_filter [OF u7(2)] u6(2,3) u4(2)
    by (intro exI conjI) (assumption | simp add: r1 u2_def commit_votes_def numeral_2_eq_2)+
qed

end
