(* ===== verification/Sde_Rsc_Props.thy ===== *)
theory Sde_Rsc_Props
  imports Sde_Rsc_Arb
begin

section \<open>Display resource state coordinator: what its clients rely on\<close>

text \<open>
  The properties of \<^verbatim>\<open>msm/sde_rsc.c\<close>, with an example of one coordinator that has a primary
  display (client 10), an external display (client 11) and a clock client (client 12).
\<close>

subsection \<open>An example\<close>

definition demo_hw :: sde_rsc_hw_ops where
  "demo_hw = \<lparr>op_init = True, op_timer_update = True, op_tcs_wait = True, op_hw_vsync = True,
     op_tcs_use_ok = True, op_bwi_status = True, op_state_update = True\<rparr>"

definition demo_rsc :: "bool \<Rightarrow> sde_rsc_priv" where
  "demo_rsc v3 = \<lparr>rev3 = v3, power = \<lparr>refcount = 0, usecase_ndx = 0, current_usecase_ndx = 0\<rparr>,
     need_hwinit = False, client_list = [], event_list = [],
     timer_config = \<lparr>static_wakeup_time_ns = 0, rsc_backoff_time_ns = 0, pdc_backoff_time_ns = 0,
       rsc_mode_threshold_time_ns = 0, rsc_time_slot_0_ns = 0, rsc_time_slot_1_ns = 0,
       rsc_time_slot_2_ns = 0, min_threshold_time_ns = 0, bwi_threshold_time_ns = 0\<rparr>,
     cmd_config = \<lparr>fps = 0, jitter_numer = 0, jitter_denom = 0, prefill_lines = 0, vtotal = 0\<rparr>,
     current_state = SDE_RSC_IDLE_STATE, vsync_source = 0, hw_ops = demo_hw, primary_client = None,
     backoff_time_ns = 1000, mode_threshold_time_ns = 2000, time_slot_0_ns = 3000, master_drm = True,
     rsc_vsync_wait = 0,
     bw_config = \<lparr>ab_vote = [0, 0, 0], ib_vote = [0, 0, 0], new_ab_vote = [0, 0, 0], new_ib_vote = [0, 0, 0]\<rparr>\<rparr>"

definition demo_world0 :: "bool \<Rightarrow> rsc_world" where
  "demo_world0 v3 = \<lparr>rsc_prv_list = [Some (demo_rsc v3), None, None, None, None], heap = Map.empty,
     next_id = 0, default_index = 0\<rparr>"

definition demo_env :: rsc_env where
  "demo_env w c = (case c of Wait_event_timeout \<Rightarrow> 5 | _ \<Rightarrow> 0)"

definition demo_clients :: "bool \<Rightarrow> rsc_world" where
  "demo_clients v3 =
     (let g = demo_world0 v3;
          g = snd (sde_rsc_client_create 80 g 0 (Some ''dp'') SDE_RSC_EXTERNAL_DISP_CLIENT 0 (Some 11));
          g = snd (sde_rsc_client_create 80 g 0 (Some ''rot'') SDE_RSC_CLK_CLIENT 0 (Some 12)) in
      snd (sde_rsc_client_create 80 g 0 (Some ''dsi'') SDE_RSC_PRIMARY_DISP_CLIENT 0 (Some 10)))"

text \<open>A request in the example: the world afterwards.\<close>

definition demo_req :: "nat \<Rightarrow> sde_rsc_state \<Rightarrow> rsc_world \<Rightarrow> rsc_world" where
  "demo_req a s g = fst (snd (the (sde_rsc_client_state_update demo_env g (Some a) s None (Some 3) True [])))"

lemma demo_env_ok [simp]: "switches_ok demo_env" "init_ok demo_env"
  by (simp_all add: switches_ok_def init_ok_def demo_env_def)

lemma demo_agrees: "hw_ops r = demo_hw \<Longrightarrow> hw_agrees demo_env r"
  by (simp add: hw_agrees_def demo_env_def demo_hw_def)

lemma demo_world0_ok: "world_ok (demo_world0 v3)"
  by (auto simp: world_ok_def demo_world0_def get_rsc_def MAX_RSC_COUNT_def rsc_ok_def vote_ok_def
      demo_rsc_def less_Suc_eq numeral_eq_Suc)

lemma demo_clients_ok: "world_ok (demo_clients v3)"
  unfolding demo_clients_def Let_def
  by (rule create_world [OF prod.collapse [symmetric] create_world [OF prod.collapse [symmetric]
      create_world [OF prod.collapse [symmetric] demo_world0_ok]]])
    (simp_all add: sde_rsc_client_create_def demo_world0_def get_rsc_def put_rsc_def Let_def MAX_RSC_COUNT_def)

lemma demo_req_ok:
  assumes "world_ok g" and "sde_rsc_client_state_update demo_env g (Some a) s None (Some 3) True [] \<noteq> None"
  shows "world_ok (demo_req a s g)"
proof -
  from assms(2) obtain rc g' wait w where
    u: "sde_rsc_client_state_update demo_env g (Some a) s None (Some 3) True [] = Some (rc, g', wait, w)" by auto
  from update_world [OF u assms(1)] u show ?thesis by (simp add: demo_req_def)
qed

text \<open>The primary display is in the command state and the clock client in the clock state.\<close>

definition demo_busy :: "bool \<Rightarrow> rsc_world" where
  "demo_busy v3 = demo_req 12 SDE_RSC_CLK_STATE (demo_req 10 SDE_RSC_CMD_STATE (demo_clients v3))"

lemma demo_busy_ok: "world_ok (demo_busy True)"
  unfolding demo_busy_def
  by (intro demo_req_ok demo_clients_ok; code_simp)

lemma demo_busy_state:
  obtains r c10 c11 c12 where "get_rsc (demo_busy True) 0 = Some r"
    "heap (demo_busy True) 10 = Some c10" "rsc_index c10 = 0"
    "heap (demo_busy True) 11 = Some c11" "rc_state c11 = SDE_RSC_IDLE_STATE" "client_type c11 = SDE_RSC_EXTERNAL_DISP_CLIENT"
    "heap (demo_busy True) 12 = Some c12" "rc_state c12 = SDE_RSC_CLK_STATE" "client_type c12 = SDE_RSC_CLK_CLIENT"
    "rsc_index c11 = 0"
    "rev3 r" "master_drm r" "\<not> need_hwinit r" "current_state r = SDE_RSC_CMD_STATE" "primary_client r = Some 10"
    "client_list r = [10, 12, 11]" "hw_ops r = demo_hw"
proof -
  have "map_option rsc_index (heap (demo_busy True) 10) = Some 0"
    "map_option (\<lambda>r. (rev3 r, master_drm r, need_hwinit r, current_state r, primary_client r, client_list r))
       (get_rsc (demo_busy True) 0) = Some (True, True, False, SDE_RSC_CMD_STATE, Some 10, [10, 12, 11])"
    "map_option hw_ops (get_rsc (demo_busy True) 0) = Some demo_hw"
    "map_option (\<lambda>c. (rc_state c, client_type c, rsc_index c)) (heap (demo_busy True) 11) =
       Some (SDE_RSC_IDLE_STATE, SDE_RSC_EXTERNAL_DISP_CLIENT, 0)"
    "map_option (\<lambda>c. (rc_state c, client_type c)) (heap (demo_busy True) 12) = Some (SDE_RSC_CLK_STATE, SDE_RSC_CLK_CLIENT)"
    by code_simp+
  with that show thesis by auto
qed

subsection \<open>The properties\<close>

text \<open>
  C16. In every world reached by the interface from one that has this property
  (as one with idle coordinators without votes and clients has), in whatever order clients are created, destroyed,
  make state requests, vote for bandwidth and reset the vsync counter, each coordinator holds
  exactly one clock vote while its state is not idle and none while it is idle; its client list
  has no duplicates, and every client in it exists and belongs to it. The switches of the clocks and
  regulators and the initialisation of the hardware are assumed to succeed: a vote whose switch fails
  keeps the count that it has increased.
\<close>

theorem rsc_clock_vote_follows_state:
  assumes "rsc_run len env (g, w) (g', w')" and "world_ok g" and "switches_ok env" and "init_ok env"
    and "i < MAX_RSC_COUNT" and "get_rsc g' i = Some r"
  shows "refcount (power r) = (if current_state r = SDE_RSC_IDLE_STATE then 0 else 1)
    \<and> distinct (client_list r)
    \<and> (\<forall>a \<in> set (client_list r). \<exists>c. heap g' a = Some c \<and> rsc_index c = i)"
  using rsc_run_world [OF assms(1) _ assms(3,4)] assms(2) world_get [OF _ assms(5,6)]
  by (simp add: rsc_ok_def vote_ok_def)

lemma demo_rsc_run:
  "\<exists>r w. rsc_run 80 demo_env (demo_clients True, []) (demo_req 10 SDE_RSC_CMD_STATE (demo_clients True), w)
     \<and> get_rsc (demo_req 10 SDE_RSC_CMD_STATE (demo_clients True)) 0 = Some r
     \<and> current_state r = SDE_RSC_CMD_STATE"
proof -
  have "sde_rsc_client_state_update demo_env (demo_clients True) (Some 10) SDE_RSC_CMD_STATE None (Some 3) True [] \<noteq> None"
    by code_simp
  then obtain rc g wait w where
    u: "sde_rsc_client_state_update demo_env (demo_clients True) (Some 10) SDE_RSC_CMD_STATE None (Some 3) True []
      = Some (rc, g, wait, w)" by auto
  have g: "g = demo_req 10 SDE_RSC_CMD_STATE (demo_clients True)" by (simp add: demo_req_def u)
  have "map_option current_state (get_rsc (demo_req 10 SDE_RSC_CMD_STATE (demo_clients True)) 0)
      = Some SDE_RSC_CMD_STATE" by code_simp
  with rsc_run.step [OF rsc_run.start rsc_step.update [OF u]] show ?thesis
    by (auto simp: g)
qed

theorem rsc_clock_vote_follows_state_witness:
  "\<exists>r. get_rsc (demo_req 10 SDE_RSC_CMD_STATE (demo_clients True)) 0 = Some r \<and> refcount (power r) = 1"
proof -
  obtain r w where run: "rsc_run 80 demo_env (demo_clients True, []) (demo_req 10 SDE_RSC_CMD_STATE (demo_clients True), w)"
    and r: "get_rsc (demo_req 10 SDE_RSC_CMD_STATE (demo_clients True)) 0 = Some r" "current_state r = SDE_RSC_CMD_STATE"
    using demo_rsc_run by blast
  from rsc_clock_vote_follows_state [OF run demo_clients_ok demo_env_ok _ r(1)] r show ?thesis
    by (simp add: MAX_RSC_COUNT_def)
qed

text \<open>
  C17. The clocks and the regulator of a coordinator are reference counted: provided no switch of a
  clock or regulator fails, after any sequence of fewer than 65536 requests and releases starting from no vote, the count is the number of
  requests not yet released (a release without a request being ignored), and the clocks and the
  regulator have been switched on once more than off exactly while it is positive.
\<close>

theorem rsc_clocks_reference_counted:
  assumes "switches_ok env" and "length bs < 2 ^ 16"
    and "s = fold (rsc_request env) bs (\<lparr>refcount = 0, usecase_ndx = 0, current_usecase_ndx = 0\<rparr>, [])"
  shows "unat (refcount (fst s)) = level 0 bs
    \<and> trace_sum clk_delta (snd s) = (if level 0 bs > 0 then 1 else 0)
    \<and> trace_sum vreg_delta (snd s) = (if level 0 bs > 0 then 1 else 0)"
proof -
  let ?s = "(\<lparr>refcount = 0, usecase_ndx = 0, current_usecase_ndx = 0\<rparr> :: rsc_power, [] :: rsc_trace)"
  have "power_ok env ?s" using assms(1) by (simp add: power_ok_def)
  then have s: "power_ok env s" "unat (refcount (fst s)) = level 0 bs"
    using rsc_clocks.requests [of env ?s bs] assms(2,3) by simp_all
  from s(2) have "refcount (fst s) \<noteq> 0 \<longleftrightarrow> level 0 bs > 0" by (metis unat_gt_0)
  with s show ?thesis by (simp add: power_ok_def)
qed

theorem rsc_clocks_reference_counted_witness:
  "trace_sum clk_delta (snd (fold (rsc_request demo_env) [True, True, False, False, False, True]
     (\<lparr>refcount = 0, usecase_ndx = 0, current_usecase_ndx = 0\<rparr>, []))) = 1"
  using rsc_clocks_reference_counted [OF demo_env_ok(1) _ refl, of "[True, True, False, False, False, True]"]
  by simp

text \<open>
  C18. An idle request is an arbitration. When a registered client asks for the idle state, the
  coordinator is bound and not idle, its primary client exists, and the hardware agrees (it has the
  operation, accepts every state, and the wait for its event does not time out), the request succeeds and the coordinator goes to the strongest state that the clients
  still ask for, the caller now asking for idle: in version 3 the maximum of the idle state and
  the clients' states in the order idle, clock, command, video, where the clock state counts for
  clock clients only and an external display in the clock state silences the command and video
  states; version 2 knows no external displays, and a client in the video state keeps it as it is.
\<close>

theorem idle_request_arbitrates:
  assumes "world_ok g" and "heap g a = Some c" and "rsc_index c < MAX_RSC_COUNT"
    and "get_rsc g (rsc_index c) = Some r" and "master_drm r" and "current_state r \<noteq> SDE_RSC_IDLE_STATE"
    and "hw_agrees env r" and "primary_client r = Some p" and "heap g p = Some pc"
    and "h = (heap g)(a := Some (c\<lparr>crtc_id := crtc, rc_state := SDE_RSC_IDLE_STATE\<rparr>))"
  shows "\<exists>g' wait w' r'.
      sde_rsc_client_state_update env g (Some a) SDE_RSC_IDLE_STATE None crtc has_wait w = Some (0, g', wait, w')
    \<and> heap g' = h \<and> get_rsc g' (rsc_index c) = Some r'
    \<and> current_state r' = idle_outcome r (map (the \<circ> h) (client_list r))"
proof -
  have ok: "world_ok (g\<lparr>heap := h\<rparr>)"
    unfolding assms(10) using assms(1,2) by (auto intro: world_heap)
  have "get_rsc (g\<lparr>heap := h\<rparr>) (rsc_index c) = Some r" using assms(4) by (simp add: get_rsc_def)
  from world_get [OF ok assms(3) this] have cs: "clients_of h r = Some (map (the \<circ> h) (client_list r))"
    using clients_of_ok by simp
  have "primary_alive h r" using assms(8,9,10) by (auto simp: primary_alive_def)
  from rsc_update_idle [OF assms(7) this cs assms(6)] obtain r' wait w' where
    u: "rsc_update env h r SDE_RSC_IDLE_STATE None a (if has_wait then Some None else None) w = Some (0, r', wait, w')"
    and s: "current_state r' = idle_outcome r (map (the \<circ> h) (client_list r))" by blast
  have "get_rsc (put_rsc (g\<lparr>heap := h\<rparr>) (rsc_index c) r') (rsc_index c) = Some r'"
    using ok assms(3) by (simp add: get_rsc_def put_rsc_def world_ok_def)
  with u s assms(2-6,10) show ?thesis
    by (simp add: sde_rsc_client_state_update_def put_rsc_def)
qed

theorem idle_request_arbitrates_witness:
  "\<exists>g' wait w' r'. sde_rsc_client_state_update demo_env (demo_busy True) (Some 10) SDE_RSC_IDLE_STATE None None True []
       = Some (0, g', wait, w') \<and> get_rsc g' 0 = Some r' \<and> current_state r' = SDE_RSC_CLK_STATE"
proof -
  obtain r c10 c11 c12 where b: "get_rsc (demo_busy True) 0 = Some r"
    "heap (demo_busy True) 10 = Some c10" "rsc_index c10 = 0"
    "heap (demo_busy True) 11 = Some c11" "rc_state c11 = SDE_RSC_IDLE_STATE"
    "heap (demo_busy True) 12 = Some c12" "rc_state c12 = SDE_RSC_CLK_STATE" "client_type c12 = SDE_RSC_CLK_CLIENT"
    "rev3 r" "master_drm r" "current_state r = SDE_RSC_CMD_STATE" "primary_client r = Some 10"
    "client_list r = [10, 12, 11]" "hw_ops r = demo_hw"
    by (rule demo_busy_state)
  show ?thesis
    using idle_request_arbitrates [OF demo_busy_ok b(2) _ _ b(10) _ demo_agrees [OF b(14)] b(12) b(2) refl,
        of None True "[]"] b
    by (auto simp: MAX_RSC_COUNT_def idle_outcome_def idle_vote_def max_def less_eq_sde_rsc_state_def external_clk_def)
qed

text \<open>
  Only the primary display moves a version 3 coordinator to the command or video state.
  A request of another client is refused with \<^verbatim>\<open>-EINVAL\<close> and leaves the state alone; a request of
  the primary client succeeds, but is not carried out while an external display is in the clock
  state; otherwise the coordinator is in the requested state afterwards, if the hardware agrees.
\<close>

theorem display_request_of_primary:
  assumes "world_ok g" and "heap g a = Some c" and "rsc_index c < MAX_RSC_COUNT"
    and "get_rsc g (rsc_index c) = Some r" and "master_drm r" and "rev3 r" and "\<not> need_hwinit r"
    and "st = SDE_RSC_CMD_STATE \<or> st = SDE_RSC_VID_STATE" and "current_state r \<noteq> st"
    and "hw_agrees env r" and "primary_client r = Some p" and "heap g p = Some pc"
    and "h = (heap g)(a := Some (c\<lparr>crtc_id := crtc, rc_state := st\<rparr>))"
  shows "\<exists>rc g' wait w' r'.
      sde_rsc_client_state_update env g (Some a) st config crtc has_wait w = Some (rc, g', wait, w')
    \<and> get_rsc g' (rsc_index c) = Some r'
    \<and> (rc, current_state r') =
        (if a \<noteq> p then (- EINVAL, current_state r)
         else if \<exists>b \<in> set (client_list r). external_clk (the (h b)) then (0, current_state r)
         else (0, st))"
proof -
  have ok: "world_ok (g\<lparr>heap := h\<rparr>)"
    unfolding assms(13) using assms(1,2) by (auto intro: world_heap)
  have "get_rsc (g\<lparr>heap := h\<rparr>) (rsc_index c) = Some r" using assms(4) by (simp add: get_rsc_def)
  from world_get [OF ok assms(3) this] have cs: "clients_of h r = Some (map (the \<circ> h) (client_list r))"
    using clients_of_ok by simp
  have alive: "primary_alive h r" using assms(11-13) by (auto simp: primary_alive_def)
  let ?wait = "if has_wait then Some None else None"
  from display_update [OF assms(10) alive cs assms(6-9), of config a ?wait w] obtain rc r' wait w' where
    u: "rsc_update env h r st config a ?wait w = Some (rc, r', wait, w')"
    and s: "(rc, current_state r') =
        (if primary_client r \<noteq> Some a then (- EINVAL, current_state r)
         else if \<exists>c \<in> set (map (the \<circ> h) (client_list r)). external_clk c then (0, current_state r)
         else (0, st))" by blast
  have "get_rsc (put_rsc (g\<lparr>heap := h\<rparr>) (rsc_index c) r') (rsc_index c) = Some r'"
    using ok assms(3) by (simp add: get_rsc_def put_rsc_def world_ok_def)
  with u assms(2-5,9,13) have
    "sde_rsc_client_state_update env g (Some a) st config crtc has_wait w =
       Some (rc, put_rsc (g\<lparr>heap := h\<rparr>) (rsc_index c) r', wait, w')"
    by (simp add: sde_rsc_client_state_update_def)
  moreover note \<open>get_rsc (put_rsc (g\<lparr>heap := h\<rparr>) (rsc_index c) r') (rsc_index c) = Some r'\<close>
  moreover have "(rc, current_state r') =
        (if a \<noteq> p then (- EINVAL, current_state r)
         else if \<exists>b \<in> set (client_list r). external_clk (the (h b)) then (0, current_state r)
         else (0, st))"
    using s assms(11) by (auto split: if_splits)
  ultimately show ?thesis by blast
qed

theorem display_request_of_primary_witness:
  "\<exists>rc g' wait w' r'. sde_rsc_client_state_update demo_env (demo_busy True) (Some 11) SDE_RSC_VID_STATE None None True []
       = Some (- EINVAL, g', wait, w') \<and> get_rsc g' 0 = Some r' \<and> current_state r' = SDE_RSC_CMD_STATE"
proof -
  obtain r c10 c11 where b: "get_rsc (demo_busy True) 0 = Some r"
    "heap (demo_busy True) 10 = Some c10" "heap (demo_busy True) 11 = Some c11" "rsc_index c11 = 0"
    "rev3 r" "master_drm r" "\<not> need_hwinit r" "current_state r = SDE_RSC_CMD_STATE" "primary_client r = Some 10"
    "hw_ops r = demo_hw"
    by (rule demo_busy_state)
  show ?thesis
    using display_request_of_primary [OF demo_busy_ok b(3) _ _ b(6,5,7) disjI2 [OF refl] _ demo_agrees [OF b(10)] b(9,2) refl,
        of None None True "[]"] b
    by (auto simp: MAX_RSC_COUNT_def)
qed

text \<open>
  A state request has no undefined behaviour: if the world is well formed and the primary
  client of the coordinator, if it has one, still exists, then a request of an existing client
  for any state, with any configuration and any behaviour of the hardware, runs to completion.
\<close>

theorem state_update_defined:
  assumes "world_ok g" and "heap g a = Some c"
    and "\<forall>r p. get_rsc g (rsc_index c) = Some r \<longrightarrow> primary_client r = Some p \<longrightarrow> heap g p \<noteq> None"
  shows "\<exists>rc g' wait w'. sde_rsc_client_state_update env g (Some a) st config crtc has_wait w = Some (rc, g', wait, w')"
proof -
  let ?h = "(heap g)(a := Some (c\<lparr>crtc_id := crtc, rc_state := st\<rparr>))"
  have alive: "clients_alive ?h r" if "rsc_index c < MAX_RSC_COUNT" "get_rsc g (rsc_index c) = Some r" for r
  proof -
    have "world_ok (g\<lparr>heap := ?h\<rparr>)" using assms(1,2) by (auto intro: world_heap)
    moreover have "get_rsc (g\<lparr>heap := ?h\<rparr>) (rsc_index c) = Some r" using that by (simp add: get_rsc_def)
    ultimately have "rsc_ok ?h (rsc_index c) r" using world_get that(1) by fastforce
    from clients_of_ok [OF this] show ?thesis
      using assms(3) that by (auto simp: clients_alive_def split: option.splits)
  qed
  have "defined (sde_rsc_client_state_update env g (Some a) st config crtc has_wait w)"
    using assms(2) alive
    by (auto simp: sde_rsc_client_state_update_def intro!: safe_intros rsc_update_defined)
  then show ?thesis using defined_ex by fastforce
qed

theorem state_update_defined_witness:
  "\<exists>rc g' wait w'. sde_rsc_client_state_update (\<lambda>w c. - 5) (demo_busy True) (Some 11) SDE_RSC_CLK_STATE None None False []
     = Some (rc, g', wait, w')"
proof -
  obtain r c10 c11 where b: "get_rsc (demo_busy True) 0 = Some r" "heap (demo_busy True) 10 = Some c10"
    "heap (demo_busy True) 11 = Some c11" "rsc_index c11 = 0" "primary_client r = Some 10"
    by (rule demo_busy_state)
  show ?thesis by (rule state_update_defined [OF demo_busy_ok b(3)]) (use b in auto)
qed

text \<open>
  A refusal of the hardware can be lost: when a client asks for the clock state, no client is
  in the command or video state, the hardware refuses the state with any error, and an earlier
  vsync wait is pending and ends in time, then the request reports success and the coordinator
  believes it is in the clock state, because the result of the wait overwrites the error.
\<close>

theorem hw_refusal_is_lost:
  assumes "world_ok g" and "heap g a = Some c" and "rsc_index c < MAX_RSC_COUNT"
    and "get_rsc g (rsc_index c) = Some r" and "master_drm r" and "\<not> need_hwinit r"
    and "current_state r \<noteq> SDE_RSC_CLK_STATE" and "current_state r \<noteq> SDE_RSC_IDLE_STATE"
    and "\<forall>b \<in> set (client_list r). b \<noteq> a \<longrightarrow> rc_state (the (heap g b)) \<in> {SDE_RSC_IDLE_STATE, SDE_RSC_CLK_STATE}"
    and "op_state_update (hw_ops r)" and "\<forall>w. env w (Hw_state_update SDE_RSC_CLK_STATE) \<noteq> 0"
    and "rsc_vsync_wait r \<noteq> 0" and "\<forall>w. env w Wait_event_timeout \<noteq> 0"
  shows "\<exists>g' wait w' r'.
      sde_rsc_client_state_update env g (Some a) SDE_RSC_CLK_STATE None crtc has_wait w = Some (0, g', wait, w')
    \<and> get_rsc g' (rsc_index c) = Some r' \<and> current_state r' = SDE_RSC_CLK_STATE"
proof -
  define h where "h = (heap g)(a := Some (c\<lparr>crtc_id := crtc, rc_state := SDE_RSC_CLK_STATE\<rparr>))"
  have ok: "world_ok (g\<lparr>heap := h\<rparr>)"
    unfolding h_def using assms(1,2) by (auto intro: world_heap)
  have "get_rsc (g\<lparr>heap := h\<rparr>) (rsc_index c) = Some r" using assms(4) by (simp add: get_rsc_def)
  from world_get [OF ok assms(3) this] have cs: "clients_of h r = Some (map (the \<circ> h) (client_list r))"
    using clients_of_ok by simp
  have quiet: "\<forall>d \<in> set (map (the \<circ> h) (client_list r)). rc_state d \<noteq> SDE_RSC_VID_STATE \<and> rc_state d \<noteq> SDE_RSC_CMD_STATE"
    using assms(9) by (auto simp: h_def)
  have "\<exists>r' w'. switch_state env h r SDE_RSC_CLK_STATE None a wait w = Some (0, SDE_RSC_CLK_STATE, r', wait, w')" for wait
    using clk_refusal_lost(1) [OF cs quiet assms(10-13), of wait w]
      clk_refusal_lost(2) [OF cs quiet assms(10-13), of wait w]
    by (auto simp: switch_state_def)
  then obtain r' w' where sw: "switch_state env h r SDE_RSC_CLK_STATE None a (if has_wait then Some None else None) w
      = Some (0, SDE_RSC_CLK_STATE, r', if has_wait then Some None else None, w')" by blast
  have "get_rsc (put_rsc (g\<lparr>heap := h\<rparr>) (rsc_index c) (r'\<lparr>current_state := SDE_RSC_CLK_STATE\<rparr>)) (rsc_index c)
      = Some (r'\<lparr>current_state := SDE_RSC_CLK_STATE\<rparr>)"
    using ok assms(3) by (simp add: get_rsc_def put_rsc_def world_ok_def)
  with sw assms(2-8) show ?thesis
    by (simp add: sde_rsc_client_state_update_def rsc_update_def rsc_code_defs h_def [symmetric])
qed

text \<open>
  The example: the external display was in the clock state for a while, which left a vsync wait
  pending. Then the primary display asks for the clock state, and the hardware refuses.
\<close>

definition demo_waiting :: rsc_world where
  "demo_waiting = demo_req 11 SDE_RSC_IDLE_STATE
     (demo_req 11 SDE_RSC_CLK_STATE (demo_req 10 SDE_RSC_CMD_STATE (demo_clients True)))"

definition demo_refuse :: rsc_env where
  "demo_refuse w c = (case c of Wait_event_timeout \<Rightarrow> 5 | Hw_state_update s \<Rightarrow> - 5 | _ \<Rightarrow> 0)"

theorem hw_refusal_is_lost_witness:
  "\<exists>g' wait w' r'. sde_rsc_client_state_update demo_refuse demo_waiting (Some 10) SDE_RSC_CLK_STATE None None True []
       = Some (0, g', wait, w') \<and> get_rsc g' 0 = Some r' \<and> current_state r' = SDE_RSC_CLK_STATE"
proof -
  have ok: "world_ok demo_waiting"
    unfolding demo_waiting_def by (intro demo_req_ok demo_clients_ok; code_simp)
  have "map_option rsc_index (heap demo_waiting 10) = Some 0"
    "map_option (\<lambda>r. (master_drm r, need_hwinit r, current_state r, rsc_vsync_wait r, client_list r))
       (get_rsc demo_waiting 0) = Some (True, False, SDE_RSC_CMD_STATE, 1, [10, 12, 11])"
    "map_option hw_ops (get_rsc demo_waiting 0) = Some demo_hw"
    "map_option rc_state (heap demo_waiting 11) = Some SDE_RSC_IDLE_STATE"
    "map_option rc_state (heap demo_waiting 12) = Some SDE_RSC_IDLE_STATE"
    by code_simp+
  then obtain c r where f: "heap demo_waiting 10 = Some c" "rsc_index c = 0" "get_rsc demo_waiting 0 = Some r"
    "master_drm r" "\<not> need_hwinit r" "current_state r = SDE_RSC_CMD_STATE" "rsc_vsync_wait r = 1"
    "client_list r = [10, 12, 11]" "hw_ops r = demo_hw"
    "rc_state (the (heap demo_waiting 11)) = SDE_RSC_IDLE_STATE"
    "rc_state (the (heap demo_waiting 12)) = SDE_RSC_IDLE_STATE"
    by auto
  from hw_refusal_is_lost [OF ok f(1), of r demo_refuse None True "[]"] f show ?thesis
    by (simp add: MAX_RSC_COUNT_def demo_refuse_def demo_hw_def)
qed

text \<open>
  Destroying the primary client leaves the coordinator with the address of freed memory:
  afterwards asking for the crtc of the primary client reads it.
\<close>

theorem destroyed_primary_is_dangling:
  assumes "world_ok g" and "heap g a = Some c" and "rsc_index c < MAX_RSC_COUNT"
    and "get_rsc g (rsc_index c) = Some r" and "primary_client r = Some a"
    and "sde_rsc_client_destroy env g (Some a) w = Some (g', w')"
  shows "get_sde_rsc_primary_crtc g' (rsc_index c) = None"
  using destroy_keeps_primary [OF assms(6,2-4)] assms(1,3,5)
  by (auto simp: get_sde_rsc_primary_crtc_def world_ok_def)

theorem destroyed_primary_is_dangling_witness:
  "map_option (\<lambda>(g, w). get_sde_rsc_primary_crtc g 0) (sde_rsc_client_destroy demo_env (demo_busy True) (Some 10) [])
     = Some None"
proof -
  obtain r c10 where b: "get_rsc (demo_busy True) 0 = Some r" "heap (demo_busy True) 10 = Some c10"
    "rsc_index c10 = 0" "primary_client r = Some 10"
    by (rule demo_busy_state)
  have "sde_rsc_client_destroy demo_env (demo_busy True) (Some 10) [] \<noteq> None" by code_simp
  then obtain g w where d: "sde_rsc_client_destroy demo_env (demo_busy True) (Some 10) [] = Some (g, w)" by auto
  from destroyed_primary_is_dangling [OF demo_busy_ok b(2) _ _ b(4) d] b d show ?thesis
    by (simp add: MAX_RSC_COUNT_def)
qed



text \<open>
  Triggering the bandwidth votes applies them: the votes that clients have set become the
  current ones, the three data buses are given exactly these votes, in order, between the
  invalidation and the flush of the power manager's table, nothing else is sent to it, the
  hardware is told of an increase exactly if a vote has become larger (in the command and video
  states), and the clock vote of the coordinator is what it was.
\<close>

theorem trigger_applies_votes:
  assumes "vote_rsc g client = Some (Inr (i, r))" and "world_ok g" and "switches_ok env"
    and "\<forall>w. env w Tcs_wait = 0" and "b = bw_config r"
  shows "\<exists>g' u r'. sde_rsc_client_trigger_vote env g client True w = Some (0, g', w @ u)
    \<and> get_rsc g' i = Some r' \<and> bw_config r' = commit_votes b \<and> refcount (power r') = refcount (power r)
    \<and> filter table_call (map fst u) =
        [Rpmh_invalidate, Bus_quota 0 (new_ab_vote b ! 0) (new_ib_vote b ! 0),
         Bus_quota 1 (new_ab_vote b ! 1) (new_ib_vote b ! 1),
         Bus_quota 2 (new_ab_vote b ! 2) (new_ib_vote b ! 2), Rpmh_flush]
    \<and> filter is_bwi (map fst u) =
        (if op_bwi_status (hw_ops r) \<and> current_state r \<in> {SDE_RSC_CMD_STATE, SDE_RSC_VID_STATE}
         then [Bwi_status (\<exists>k < 3. new_ab_vote b ! k > ab_vote b ! k \<or> new_ib_vote b ! k > ib_vote b ! k)] else [])"
proof -
  have i: "i < MAX_RSC_COUNT" "get_rsc g i = Some r" using vote_rsc_Inr [OF assms(2,1)] by auto
  have "vote_ok r" using world_get [OF assms(2) i] by (simp add: rsc_ok_def)
  obtain rc r' w' where t: "trigger_vote env r True w = (rc, r', w')" by (metis prod_cases3)
  note ended = trigger_vote_ok [OF t assms(3) \<open>vote_ok r\<close>]
  from trigger_trace [OF t assms(3,4)] obtain u where u: "rc = 0" "w' = w @ u"
    "filter table_call (map fst u) = [Rpmh_invalidate, Bus_quota 0 (new_ab_vote b ! 0) (new_ib_vote b ! 0),
         Bus_quota 1 (new_ab_vote b ! 1) (new_ib_vote b ! 1),
         Bus_quota 2 (new_ab_vote b ! 2) (new_ib_vote b ! 2), Rpmh_flush]"
    "filter is_bwi (map fst u) = (if op_bwi_status (hw_ops r) \<and> current_state r \<in> {SDE_RSC_CMD_STATE, SDE_RSC_VID_STATE}
         then [Bwi_status (bw_increases b)] else [])"
    unfolding assms(5) by blast
  have "get_rsc (put_rsc g i r') i = Some r'"
    using assms(2) i by (simp add: get_rsc_def put_rsc_def world_ok_def)
  moreover have "sde_rsc_client_trigger_vote env g client True w = Some (0, put_rsc g i r', w @ u)"
    using assms(1) t u(1,2) by (simp add: sde_rsc_client_trigger_vote_def)
  moreover have "bw_config r' = commit_votes b" using ended by (auto simp: assms(5))
  moreover have "refcount (power r') = refcount (power r)"
    using ended \<open>vote_ok r\<close> by (auto simp: vote_ok_def)
  moreover note u(3) u(4) [unfolded bw_increases_iff]
  ultimately show ?thesis by blast
qed

theorem trigger_applies_votes_witness:
  "\<exists>u g'. sde_rsc_client_trigger_vote demo_env
       (snd (the (sde_rsc_client_vote (demo_busy True) (Some 10) 1 700 900))) (Some 10) True [] = Some (0, g', u)
     \<and> filter table_call (map fst u) = [Rpmh_invalidate, Bus_quota 0 0 0, Bus_quota 1 700 900, Bus_quota 2 0 0, Rpmh_flush]
     \<and> filter is_bwi (map fst u) = [Bwi_status True]"
proof -
  define g where "g = snd (the (sde_rsc_client_vote (demo_busy True) (Some 10) 1 700 900))"
  have "sde_rsc_client_vote (demo_busy True) (Some 10) 1 700 900 \<noteq> None" by code_simp
  then obtain rc where "sde_rsc_client_vote (demo_busy True) (Some 10) 1 700 900 = Some (rc, g)"
    by (auto simp: g_def)
  from rsc_step_world [OF rsc_step.vote [OF this, of 80 demo_env "[]"]] have ok: "world_ok g"
    by (simp add: demo_busy_ok)
  have "map_option (\<lambda>x. case x of Inl e \<Rightarrow> None | Inr (i, r) \<Rightarrow> Some (i, bw_config r, op_bwi_status (hw_ops r), current_state r))
      (vote_rsc g (Some 10)) = Some (Some (0, \<lparr>ab_vote = [0, 0, 0], ib_vote = [0, 0, 0],
        new_ab_vote = [0, 700, 0], new_ib_vote = [0, 900, 0]\<rparr>, True, SDE_RSC_CMD_STATE))"
    unfolding g_def by code_simp
  then obtain x where "vote_rsc g (Some 10) = Some x" "(case x of Inl e \<Rightarrow> None
      | Inr (i, r) \<Rightarrow> Some (i, bw_config r, op_bwi_status (hw_ops r), current_state r)) = Some (0, \<lparr>ab_vote = [0, 0, 0],
        ib_vote = [0, 0, 0], new_ab_vote = [0, 700, 0], new_ib_vote = [0, 900, 0]\<rparr>, True, SDE_RSC_CMD_STATE)" by blast
  then obtain r where v: "vote_rsc g (Some 10) = Some (Inr (0, r))" and b: "bw_config r = \<lparr>ab_vote = [0, 0, 0],
      ib_vote = [0, 0, 0], new_ab_vote = [0, 700, 0], new_ib_vote = [0, 900, 0]\<rparr>"
    "op_bwi_status (hw_ops r)" "current_state r = SDE_RSC_CMD_STATE"
    by (cases x) auto
  have "\<exists>k < 3. [0, 700, 0 :: u64] ! k > [0, 0, 0] ! k"
    by (intro exI [of _ 1]) simp
  with trigger_applies_votes [OF v ok demo_env_ok(1) _ refl, of "[]"] b show ?thesis
    unfolding g_def [symmetric] by (fastforce simp: demo_env_def numeral_2_eq_2)
qed

end
