(* ===== verification/Sde_Fence.thy ===== *)
theory Sde_Fence
  imports Sde_Prelude
begin

section \<open>Fence timelines: model\<close>

text \<open>
  \<^verbatim>\<open>msm/sde/sde_fence.c\<close>: a timeline counts the commits of a display object and the commits that
  are done, and signals the fences that it handed out when the counter of done commits reaches the
  value of the fence. Counters are 32-bit and compared by the sign of their difference.

  The timeline (\<open>sde_fence_context\<close>) and its fences are objects of a world: \<open>timeline\<close> is \<open>None\<close> once
  the timeline has been freed, \<open>fences\<close> maps addresses to fences, and an access to a freed object is
  \<open>None\<close>. The list of a timeline holds the addresses of its pending fences in list order. Spinlocks
  and log messages are left out; operations run one after the other.

  The kernel's side is a parameter. Whether \<^verbatim>\<open>dma_fence_put\<close> drops the last reference, in which case
  the kernel calls the fence's release operation, comes from the environment, as do file
  descriptors, the allocation of a sync file and the time. \<^verbatim>\<open>dma_fence_is_signaled_locked\<close> is a
  function of the fence's signalled bit and of what the fence's \<^verbatim>\<open>signaled\<close> operation says; it gives
  the result and the new bit.
\<close>

record sde_fence =
  seqno :: u32
  sf_name :: string
  sf_fd :: int
  sf_error :: int
  sf_timestamp :: int
  signaled_bit :: bool

record sde_fence_context =
  commit_count :: u32
  done_count :: u32
  drm_id :: u32
  kref :: nat
  dma_context :: u64
  fence_list :: "nat list"
  ctx_name :: string

record fence_world =
  timeline :: "sde_fence_context option"
  fences :: "nat \<Rightarrow> sde_fence option"

datatype sde_fence_event = SDE_FENCE_SIGNAL | SDE_FENCE_RESET_TIMELINE | SDE_FENCE_SIGNAL_ERROR

datatype fence_call =
    Get_unused_fd
  | Put_unused_fd int
  | Sync_file_create nat
  | Fd_install int
  | Ktime_get
  | Dma_fence_put nat

type_synonym fence_trace = "fence_call trace"
type_synonym fence_env = "fence_call env"
type_synonym is_signaled_locked = "bool \<Rightarrow> bool \<Rightarrow> bool \<times> bool"

definition SDE_FENCE_NAME_SIZE :: nat where "SDE_FENCE_NAME_SIZE = 24"

subsection \<open>Reference counts\<close>

text \<open>\<^verbatim>\<open>kref_put(&ctx->kref, sde_fence_destroy)\<close>: the last reference frees the timeline.\<close>

definition kref_put_ctx :: "fence_world \<Rightarrow> fence_world option" where
  "kref_put_ctx g = do {
     c \<leftarrow> timeline g;
     Some (g\<lparr>timeline := if kref c = 1 then None else Some (c\<lparr>kref := kref c - 1\<rparr>)\<rparr>)
   }"

definition sde_fence_release :: "fence_world \<Rightarrow> nat \<Rightarrow> fence_world option" where
  "sde_fence_release g a = do {
     f \<leftarrow> fences g a;
     g \<leftarrow> kref_put_ctx g;
     Some (g\<lparr>fences := (fences g)(a := None)\<rparr>)
   }"

definition dma_fence_put ::
    "fence_env \<Rightarrow> fence_world \<Rightarrow> nat \<Rightarrow> fence_trace \<Rightarrow> (fence_world \<times> fence_trace) option" where
  "dma_fence_put env g a w = do {
     f \<leftarrow> fences g a;
     let (last, w) = ext env (Dma_fence_put a) w;
     if last \<noteq> 0 then do { g \<leftarrow> sde_fence_release g a; Some (g, w) } else Some (g, w)
   }"

subsection \<open>Names\<close>

text \<open>\<^verbatim>\<open>%u\<close>: decimal digits.\<close>

fun decimal :: "nat \<Rightarrow> string" where
  "decimal n = (if n < 10 then [char_of (48 + n)] else decimal (n div 10) @ [char_of (48 + n mod 10)])"

declare decimal.simps [simp del]

definition fence_name :: "string \<Rightarrow> u32 \<Rightarrow> string" where
  "fence_name ctx val = take (SDE_FENCE_NAME_SIZE - 1) (''sde_fence:'' @ ctx @ '':'' @ decimal (unat val))"

text \<open>
  The first four characters of a name, as far as they exist, in big-endian order. Plain \<^verbatim>\<open>char\<close> is
  unsigned on the driver's targets.
\<close>

fun name_prefix :: "u32 \<Rightarrow> nat \<Rightarrow> string \<Rightarrow> u32" where
  "name_prefix prefix n [] = prefix"
| "name_prefix prefix 0 (c # cs) = prefix"
| "name_prefix prefix (Suc n) (c # cs) = name_prefix ((push_bit 8 prefix) OR of_char c) n cs"

definition sde_sync_get_name_prefix :: "string option option \<Rightarrow> u32" where
  "sde_sync_get_name_prefix fence =
     (case fence of None \<Rightarrow> 0 | Some None \<Rightarrow> 0 | Some (Some name) \<Rightarrow> name_prefix 0 4 name)"

subsection \<open>Waiting for a fence of any driver\<close>

text \<open>
  A file descriptor is looked up if its low 32 bits, read as a signed number, are not negative.
  The result of the wait is cut to 32 bits.
\<close>

definition sde_sync_get :: "(int \<Rightarrow> 'f option) \<Rightarrow> u64 \<Rightarrow> 'f option" where
  "sde_sync_get get_fence fd = (if sint (ucast fd :: u32) \<ge> 0 then get_fence (sint (ucast fd :: u32)) else None)"

definition sde_sync_wait ::
    "(int \<Rightarrow> int) \<Rightarrow> ('f \<Rightarrow> bool) \<Rightarrow> ('f \<Rightarrow> int \<Rightarrow> int) \<Rightarrow> 'f option \<Rightarrow> int \<Rightarrow> int" where
  "sde_sync_wait msecs_to_jiffies is_signaled wait_timeout fence timeout_ms =
     (case fence of
        None \<Rightarrow> - EINVAL
      | Some f \<Rightarrow>
          if is_signaled f then (if timeout_ms \<noteq> 0 then msecs_to_jiffies timeout_ms else 1)
          else sint (word_of_int (wait_timeout f (msecs_to_jiffies timeout_ms)) :: u32))"

subsection \<open>The timeline\<close>

definition sde_fence_signaled :: "sde_fence_context \<Rightarrow> sde_fence \<Rightarrow> bool" where
  "sde_fence_signaled c f \<longleftrightarrow> sint (seqno f - done_count c) \<le> 0"

definition sde_fence_init ::
    "string option \<Rightarrow> u32 \<Rightarrow> u64 \<Rightarrow> bool \<Rightarrow> int + sde_fence_context" where
  "sde_fence_init name drm context_id memory =
     (case name of
        None \<Rightarrow> Inl (- EINVAL)
      | Some n \<Rightarrow>
          if \<not> memory then Inl (- ENOMEM)
          else Inr \<lparr>commit_count = 0, done_count = 0, drm_id = drm, kref = 1, dma_context = context_id,
                    fence_list = [], ctx_name = take (SDE_FENCE_NAME_SIZE - 1) n\<rparr>)"

text \<open>The operations take whether the caller's pointer to the timeline is null.\<close>

definition sde_fence_deinit :: "fence_world \<Rightarrow> bool \<Rightarrow> fence_world option" where
  "sde_fence_deinit g null = (if null then Some g else kref_put_ctx g)"

definition sde_fence_prepare :: "fence_world \<Rightarrow> bool \<Rightarrow> fence_world option" where
  "sde_fence_prepare g null =
     (if null then Some g
      else do {
        c \<leftarrow> timeline g;
        Some (g\<lparr>timeline := Some (c\<lparr>commit_count := commit_count c + 1\<rparr>)\<rparr>)
      })"

text \<open>
  One pending fence: its error and time stamp are set, and if it is signalled now, the driver's
  reference is dropped; otherwise it goes back to the front of the timeline's list.
\<close>

definition trigger_fence ::
    "is_signaled_locked \<Rightarrow> fence_env \<Rightarrow> int \<Rightarrow> bool \<Rightarrow> nat \<Rightarrow> fence_world \<times> fence_trace \<Rightarrow>
     (fence_world \<times> fence_trace) option" where
  "trigger_fence islk env ts error a s = do {
     let (g, w) = s;
     c \<leftarrow> timeline g;
     f \<leftarrow> fences g a;
     let (is_signaled, bit) = islk (signaled_bit f) (sde_fence_signaled c f);
     let g = g\<lparr>fences := (fences g)(a := Some (f\<lparr>sf_error := if error then - EBUSY else 0, sf_timestamp := ts,
                                                  signaled_bit := bit\<rparr>))\<rparr>;
     if is_signaled then dma_fence_put env g a w
     else Some (g\<lparr>timeline := Some (c\<lparr>fence_list := a # fence_list c\<rparr>)\<rparr>, w)
   }"

primrec trigger_list ::
    "is_signaled_locked \<Rightarrow> fence_env \<Rightarrow> int \<Rightarrow> bool \<Rightarrow> nat list \<Rightarrow> fence_world \<times> fence_trace \<Rightarrow>
     (fence_world \<times> fence_trace) option" where
  "trigger_list islk env ts error [] s = Some s"
| "trigger_list islk env ts error (a # rest) s =
     trigger_fence islk env ts error a s \<bind> trigger_list islk env ts error rest"

text \<open>Moving the fences one by one to the front of the local list reverses them.\<close>

definition sde_fence_trigger ::
    "is_signaled_locked \<Rightarrow> fence_env \<Rightarrow> fence_world \<Rightarrow> int \<Rightarrow> bool \<Rightarrow> fence_trace \<Rightarrow>
     (fence_world \<times> fence_trace) option" where
  "sde_fence_trigger islk env g ts error w = do {
     c \<leftarrow> timeline g;
     if fence_list c = [] then Some (g, w)
     else do {
       let local_list = fold (#) (fence_list c) [];
       let g = g\<lparr>timeline := Some (c\<lparr>fence_list := []\<rparr>)\<rparr>;
       trigger_list islk env ts error local_list (g, w)
     }
   }"

definition sde_fence_create_fd ::
    "fence_env \<Rightarrow> fence_world \<Rightarrow> u32 \<Rightarrow> nat option \<Rightarrow> fence_trace \<Rightarrow> (int \<times> fence_world \<times> fence_trace) option" where
  "sde_fence_create_fd env g val alloc w =
     (case alloc of
        None \<Rightarrow> Some (- ENOMEM, g, w)
      | Some a \<Rightarrow> do {
          c \<leftarrow> timeline g;
          let f = \<lparr>seqno = val, sf_name = fence_name (ctx_name c) val, sf_fd = 0, sf_error = 0,
                   sf_timestamp = 0, signaled_bit = False\<rparr>;
          let g = g\<lparr>fences := (fences g)(a := Some f), timeline := Some (c\<lparr>kref := kref c + 1\<rparr>)\<rparr>;
          let (fd, w) = ext env Get_unused_fd w;
          if fd < 0 then do { (g, w) \<leftarrow> dma_fence_put env g a w; Some (fd, g, w) }
          else do {
            let (file, w) = ext env (Sync_file_create a) w;
            if file = 0 then do {
              let w = vcall (Put_unused_fd fd) w;
              (g, w) \<leftarrow> dma_fence_put env g a w;
              Some (- EINVAL, g, w)
            } else do {
              let w = vcall (Fd_install fd) w;
              c \<leftarrow> timeline g;
              Some (fd, g\<lparr>fences := (fences g)(a := Some (f\<lparr>sf_fd := fd\<rparr>)),
                          timeline := Some (c\<lparr>fence_list := fence_list c @ [a]\<rparr>)\<rparr>, w)
            }
          }
        })"

text \<open>The result, the descriptor written to the caller (if anything is written), the world.\<close>

definition sde_fence_create ::
    "is_signaled_locked \<Rightarrow> fence_env \<Rightarrow> fence_world \<Rightarrow> bool \<Rightarrow> bool \<Rightarrow> u32 \<Rightarrow> nat option \<Rightarrow> fence_trace \<Rightarrow>
     (int \<times> u64 option \<times> fence_world \<times> fence_trace) option" where
  "sde_fence_create islk env g null null_val offset alloc w =
     (if null \<or> null_val then Some (- EINVAL, None, g, w)
      else do {
        c \<leftarrow> timeline g;
        let trigger_value = commit_count c + offset;
        (fd, g, w) \<leftarrow> sde_fence_create_fd env g trigger_value alloc w;
        if fd \<ge> 0 then do {
          let (ts, w) = ext env Ktime_get w;
          (g, w) \<leftarrow> sde_fence_trigger islk env g ts False w;
          Some (0, Some (word_of_int fd), g, w)
        } else Some (fd, Some (word_of_int fd), g, w)
      })"

definition sde_fence_signal ::
    "is_signaled_locked \<Rightarrow> fence_env \<Rightarrow> fence_world \<Rightarrow> bool \<Rightarrow> int \<Rightarrow> sde_fence_event \<Rightarrow> fence_trace \<Rightarrow>
     (fence_world \<times> fence_trace) option" where
  "sde_fence_signal islk env g null ts event w =
     (if null then Some (g, w)
      else do {
        c \<leftarrow> timeline g;
        if sint (done_count c - commit_count c) \<ge> 0 then Some (g, w)
        else do {
          let c = (if event = SDE_FENCE_RESET_TIMELINE then c\<lparr>done_count := commit_count c\<rparr>
                   else c\<lparr>done_count := done_count c + 1\<rparr>);
          sde_fence_trigger islk env (g\<lparr>timeline := Some c\<rparr>) ts (event = SDE_FENCE_SIGNAL_ERROR) w
        }
      })"

end
