(* ===== verification/Sde_Fence_Inv.thy ===== *)
theory Sde_Fence_Inv
  imports Sde_Fence
begin

section \<open>Fence timelines: invariants and refinement\<close>

text \<open>
  The reference count of a timeline, the effect of triggering on the pending fences, and a
  timeline with unbounded counters that the 32-bit one implements.
\<close>

text \<open>
  What \<^verbatim>\<open>dma_fence_is_signaled_locked\<close> documents: a fence is signalled if it was already, or if its
  driver says so, and then its bit is set.
\<close>

definition dma_contract :: "is_signaled_locked \<Rightarrow> bool" where
  "dma_contract islk \<longleftrightarrow> (\<forall>b s. islk b s = (b \<or> s, b \<or> s))"

subsection \<open>The invariant\<close>

text \<open>
  The timeline is referenced by its owner, until it is deinitialised, and by every live fence; it
  is freed with the last reference. The pending fences are live and listed once.
\<close>

definition fence_ok :: "bool \<Rightarrow> fence_world \<Rightarrow> bool" where
  "fence_ok owned g \<longleftrightarrow> finite (dom (fences g)) \<and>
     (case timeline g of
        None \<Rightarrow> \<not> owned \<and> dom (fences g) = {}
      | Some c \<Rightarrow> kref c = (if owned then 1 else 0) + card (dom (fences g)) \<and> 0 < kref c
          \<and> distinct (fence_list c) \<and> set (fence_list c) \<subseteq> dom (fences g))"

lemma fence_ok_owned:
  assumes "fence_ok True g"
  obtains c where "timeline g = Some c" "finite (dom (fences g))" "kref c = Suc (card (dom (fences g)))"
    "distinct (fence_list c)" "set (fence_list c) \<subseteq> dom (fences g)"
  using assms by (auto simp: fence_ok_def split: option.splits)

lemma fence_okI:
  "timeline g = Some c \<Longrightarrow> finite (dom (fences g)) \<Longrightarrow> kref c = Suc (card (dom (fences g))) \<Longrightarrow>
     distinct (fence_list c) \<Longrightarrow> set (fence_list c) \<subseteq> dom (fences g) \<Longrightarrow> fence_ok True g"
  by (simp add: fence_ok_def)

text \<open>Releasing a fence that is not pending any more.\<close>

lemma release_ok:
  assumes "fence_ok owned g" and "fences g a = Some f"
    and "\<And>c. timeline g = Some c \<Longrightarrow> a \<notin> set (fence_list c)"
  shows "\<exists>g'. sde_fence_release g a = Some g' \<and> fence_ok owned g'"
proof -
  have dom: "a \<in> dom (fences g)" using assms(2) by auto
  from assms(1) dom obtain c where c: "timeline g = Some c"
    and k: "kref c = (if owned then 1 else 0) + card (dom (fences g))" "finite (dom (fences g))"
      "distinct (fence_list c)" "set (fence_list c) \<subseteq> dom (fences g)"
    by (auto simp: fence_ok_def split: option.splits)
  have card: "card (dom (fences g)) = Suc (card (dom (fences g) - {a}))"
    using k(2) dom by (rule card.remove)
  show ?thesis
    using c k card assms(2) assms(3) [OF c]
    by (auto simp: sde_fence_release_def kref_put_ctx_def fence_ok_def card_gt_0_iff)
qed

subsection \<open>Triggering\<close>

definition due :: "u32 \<Rightarrow> sde_fence \<Rightarrow> bool" where
  "due d f \<longleftrightarrow> signaled_bit f \<or> sint (seqno f - d) \<le> 0"

definition stamped :: "int \<Rightarrow> bool \<Rightarrow> u32 \<Rightarrow> sde_fence \<Rightarrow> sde_fence" where
  "stamped ts error d f = f\<lparr>sf_error := if error then - EBUSY else 0, sf_timestamp := ts, signaled_bit := due d f\<rparr>"

text \<open>The state in the middle of a trigger: some fences are on the local list.\<close>

definition mid_ok :: "nat list \<Rightarrow> fence_world \<Rightarrow> sde_fence_context \<Rightarrow> bool" where
  "mid_ok local_list g c \<longleftrightarrow> timeline g = Some c \<and> finite (dom (fences g))
     \<and> kref c = Suc (card (dom (fences g)))
     \<and> distinct (local_list @ fence_list c) \<and> set local_list \<union> set (fence_list c) \<subseteq> dom (fences g)"

lemma mid_ok_upd:
  assumes "mid_ok l g c" and "fences g a = Some f"
  shows "mid_ok l (g\<lparr>fences := (fences g)(a := Some f')\<rparr>) c"
proof -
  have "dom ((fences g)(a := Some f')) = dom (fences g)" using assms(2) by auto
  then show ?thesis using assms(1) unfolding mid_ok_def by simp
qed

lemma mid_ok_keep:
  assumes "mid_ok (a # rest) g c"
  shows "mid_ok rest (g\<lparr>timeline := Some (c\<lparr>fence_list := a # fence_list c\<rparr>)\<rparr>) (c\<lparr>fence_list := a # fence_list c\<rparr>)"
    and "mid_ok rest g c"
  using assms by (auto simp: mid_ok_def)

lemma mid_ok_release:
  assumes "mid_ok (a # rest) g c"
  shows "sde_fence_release g a = Some (g\<lparr>fences := (fences g)(a := None), timeline := Some (c\<lparr>kref := kref c - 1\<rparr>)\<rparr>)"
    and "mid_ok rest (g\<lparr>fences := (fences g)(a := None), timeline := Some (c\<lparr>kref := kref c - 1\<rparr>)\<rparr>) (c\<lparr>kref := kref c - 1\<rparr>)"
proof -
  have c: "timeline g = Some c" "finite (dom (fences g))" "kref c = Suc (card (dom (fences g)))" "a \<in> dom (fences g)"
    using assms by (auto simp: mid_ok_def)
  have card: "card (dom (fences g)) = Suc (card (dom (fences g) - {a}))"
    using c(2,4) by (rule card.remove)
  then show "sde_fence_release g a = Some (g\<lparr>fences := (fences g)(a := None), timeline := Some (c\<lparr>kref := kref c - 1\<rparr>)\<rparr>)"
    using c by (auto simp: sde_fence_release_def kref_put_ctx_def)
  show "mid_ok rest (g\<lparr>fences := (fences g)(a := None), timeline := Some (c\<lparr>kref := kref c - 1\<rparr>)\<rparr>) (c\<lparr>kref := kref c - 1\<rparr>)"
  proof -
    have dom: "dom ((fences g)(a := None)) = dom (fences g) - {a}" by simp
    have "distinct (rest @ fence_list c)" "set rest \<union> set (fence_list c) \<subseteq> dom (fences g) - {a}"
      using assms by (auto simp: mid_ok_def)
    moreover have "kref c - 1 = Suc (card (dom ((fences g)(a := None))))"
      unfolding dom card [symmetric] using c(3) by simp
    ultimately show ?thesis using c(2) unfolding mid_ok_def by simp
  qed
qed

text \<open>What happens to one fence \<open>f\<close> at \<open>a\<close>.\<close>

definition triggered ::
    "int \<Rightarrow> bool \<Rightarrow> u32 \<Rightarrow> sde_fence \<Rightarrow> sde_fence option \<Rightarrow> bool" where
  "triggered ts err d f r \<longleftrightarrow> r = Some (stamped ts err d f) \<or> due d f \<and> r = None"

lemma trigger_fence_step:
  assumes "dma_contract islk" and "mid_ok (a # rest) g c" and "fences g a = Some f"
  obtains g' k u where "trigger_fence islk env ts err a (g, w) = Some (g', w @ u)"
    "mid_ok rest g' (c\<lparr>kref := k, fence_list := if due (done_count c) f then fence_list c else a # fence_list c\<rparr>)"
    "\<forall>b. b \<noteq> a \<longrightarrow> fences g' b = fences g b"
    "triggered ts err (done_count c) f (fences g' a)"
    "map fst u = (if due (done_count c) f then [Dma_fence_put a] else [])"
proof -
  have islk: "islk (signaled_bit f) (sde_fence_signaled c f) = (due (done_count c) f, due (done_count c) f)"
    using assms(1) by (simp add: dma_contract_def due_def sde_fence_signaled_def)
  have c: "timeline g = Some c" using assms(2) by (simp add: mid_ok_def)
  define g1 where "g1 = g\<lparr>fences := (fences g)(a := Some (stamped ts err (done_count c) f))\<rparr>"
  have ok: "mid_ok (a # rest) g1 c" unfolding g1_def by (rule mid_ok_upd [OF assms(2,3)])
  have f: "fences g1 a = Some (stamped ts err (done_count c) f)" "\<forall>b. b \<noteq> a \<longrightarrow> fences g1 b = fences g b"
    by (simp_all add: g1_def)
  show thesis
  proof (cases "due (done_count c) f")
    case False
    have "trigger_fence islk env ts err a (g, w) = Some (g1\<lparr>timeline := Some (c\<lparr>fence_list := a # fence_list c\<rparr>)\<rparr>, w @ [])"
      using False islk c assms(3) by (simp add: trigger_fence_def g1_def stamped_def)
    from that [OF this, of "kref c"] mid_ok_keep(1) [OF ok] f False show thesis
      by (simp add: triggered_def)
  next
    case True
    have run: "trigger_fence islk env ts err a (g, w) = dma_fence_put env g1 a w"
      using assms(3) islk c True by (simp add: trigger_fence_def g1_def stamped_def)
    define u where "u = [(Dma_fence_put a, env w (Dma_fence_put a))]"
    show thesis
    proof (cases "env w (Dma_fence_put a) = 0")
      case keep: True
      then have "dma_fence_put env g1 a w = Some (g1, w @ u)"
        using f by (simp add: dma_fence_put_def ext_def u_def)
      from that [OF run [THEN trans, OF this], of "kref c"] mid_ok_keep(2) [OF ok] f True show thesis
        by (simp add: triggered_def u_def)
    next
      case False
      then have "dma_fence_put env g1 a w =
          Some (g1\<lparr>fences := (fences g1)(a := None), timeline := Some (c\<lparr>kref := kref c - 1\<rparr>)\<rparr>, w @ u)"
        using f mid_ok_release(1) [OF ok] by (simp add: dma_fence_put_def ext_def u_def)
      from that [OF run [THEN trans, OF this], of "kref c - 1"] mid_ok_release(2) [OF ok] f True show thesis
        by (simp add: triggered_def u_def)
    qed
  qed
qed

definition is_due :: "fence_world \<Rightarrow> u32 \<Rightarrow> nat \<Rightarrow> bool" where
  "is_due g d a \<longleftrightarrow> due d (the (fences g a))"

lemma is_due_cong: "\<forall>b. b \<noteq> a \<longrightarrow> fences g' b = fences g b \<Longrightarrow> a \<notin> set bs \<Longrightarrow>
    filter (is_due g' d) bs = filter (is_due g d) bs \<and> filter (\<lambda>b. \<not> is_due g' d b) bs = filter (\<lambda>b. \<not> is_due g d b) bs"
  by (auto simp: is_due_def intro!: filter_cong)

lemma trigger_list_spec:
  assumes "dma_contract islk" and "mid_ok rest g c"
  obtains g' k u where "trigger_list islk env ts err rest (g, w) = Some (g', w @ u)"
    "mid_ok [] g' (c\<lparr>kref := k, fence_list := rev (filter (\<lambda>a. \<not> is_due g (done_count c) a) rest) @ fence_list c\<rparr>)"
    "\<forall>b. b \<notin> set rest \<longrightarrow> fences g' b = fences g b"
    "\<forall>a \<in> set rest. triggered ts err (done_count c) (the (fences g a)) (fences g' a)"
    "map fst u = map Dma_fence_put (filter (is_due g (done_count c)) rest)"
  using assms(2)
proof (induction rest arbitrary: g c w thesis)
  case Nil
  from Nil.prems(1) [of g "[]" "kref c"] Nil.prems(2) show ?case by simp
next
  case (Cons a rest)
  have a: "a \<notin> set rest" and "a \<in> dom (fences g)" using Cons.prems(2) by (auto simp: mid_ok_def)
  then obtain f where f: "fences g a = Some f" by blast
  obtain g1 k1 u1 where
    s1: "trigger_fence islk env ts err a (g, w) = Some (g1, w @ u1)"
    and ok1: "mid_ok rest g1 (c\<lparr>kref := k1, fence_list := if due (done_count c) f then fence_list c else a # fence_list c\<rparr>)"
    and fr1: "\<forall>b. b \<noteq> a \<longrightarrow> fences g1 b = fences g b"
    and t1: "triggered ts err (done_count c) f (fences g1 a)"
    and u1: "map fst u1 = (if due (done_count c) f then [Dma_fence_put a] else [])"
    by (rule trigger_fence_step [OF assms(1) Cons.prems(2) f, of env ts err w])
  obtain g2 k2 u2 where
    s2: "trigger_list islk env ts err rest (g1, w @ u1) = Some (g2, (w @ u1) @ u2)"
    and ok2: "mid_ok [] g2 (c\<lparr>kref := k1, fence_list := if due (done_count c) f then fence_list c else a # fence_list c,
        kref := k2, fence_list := rev (filter (\<lambda>b. \<not> is_due g1 (done_count c) b) rest) @
          (if due (done_count c) f then fence_list c else a # fence_list c)\<rparr>)"
    and fr2: "\<forall>b. b \<notin> set rest \<longrightarrow> fences g2 b = fences g1 b"
    and t2: "\<forall>b \<in> set rest. triggered ts err (done_count c) (the (fences g1 b)) (fences g2 b)"
    and u2: "map fst u2 = map Dma_fence_put (filter (is_due g1 (done_count c)) rest)"
    by (rule Cons.IH [where w = "w @ u1", OF _ ok1]) simp
  note flt = is_due_cong [OF fr1 a, of "done_count c"]
  show ?case
  proof (rule Cons.prems(1) [of g2 "u1 @ u2" k2])
    show "trigger_list islk env ts err (a # rest) (g, w) = Some (g2, w @ u1 @ u2)"
      using s1 s2 by simp
    show "mid_ok [] g2 (c\<lparr>kref := k2,
        fence_list := rev (filter (\<lambda>a. \<not> is_due g (done_count c) a) (a # rest)) @ fence_list c\<rparr>)"
      using ok2 flt f by (cases "due (done_count c) f") (simp_all add: is_due_def [of g "done_count c" a])
    show "\<forall>b. b \<notin> set (a # rest) \<longrightarrow> fences g2 b = fences g b" using fr1 fr2 by auto
    show "\<forall>b \<in> set (a # rest). triggered ts err (done_count c) (the (fences g b)) (fences g2 b)"
      using t1 t2 fr1 fr2 f a by (metis set_ConsD option.sel)
    show "map fst (u1 @ u2) = map Dma_fence_put (filter (is_due g (done_count c)) (a # rest))"
      using u1 u2 flt f by (simp add: is_due_def [of g "done_count c" a])
  qed
qed

lemma mid_ok_Nil: "mid_ok [] g c \<Longrightarrow> fence_ok True g" "mid_ok [] g c \<Longrightarrow> timeline g = Some c"
  by (auto simp: mid_ok_def intro!: fence_okI)

text \<open>
  The effect of a trigger: due fences leave the list, the others stay in their order, and the
  driver's reference to each due fence is dropped once, newest fence first.
\<close>

lemma trigger_spec:
  assumes "dma_contract islk" and "fence_ok True g" and "timeline g = Some c"
  obtains g' k u where "sde_fence_trigger islk env g ts err w = Some (g', w @ u)" "fence_ok True g'"
    "timeline g' = Some (c\<lparr>kref := k, fence_list := filter (\<lambda>a. \<not> is_due g (done_count c) a) (fence_list c)\<rparr>)"
    "\<forall>b. b \<notin> set (fence_list c) \<longrightarrow> fences g' b = fences g b"
    "\<forall>a \<in> set (fence_list c). triggered ts err (done_count c) (the (fences g a)) (fences g' a)"
    "map fst u = map Dma_fence_put (rev (filter (is_due g (done_count c)) (fence_list c)))"
proof (cases "fence_list c = []")
  case True
  then have "sde_fence_trigger islk env g ts err w = Some (g, w @ [])"
    using assms(3) by (simp add: sde_fence_trigger_def)
  from that [OF this assms(2), of "kref c"] assms(3) True show thesis by simp
next
  case False
  let ?g = "g\<lparr>timeline := Some (c\<lparr>fence_list := []\<rparr>)\<rparr>"
  have mid: "mid_ok (rev (fence_list c)) ?g (c\<lparr>fence_list := []\<rparr>)"
    using assms(2,3) by (auto simp: mid_ok_def fence_ok_def)
  obtain g' k u where
    r: "trigger_list islk env ts err (rev (fence_list c)) (?g, w) = Some (g', w @ u)"
    "mid_ok [] g' (c\<lparr>fence_list := [], kref := k, fence_list := rev (filter (\<lambda>a. \<not> is_due ?g (done_count c) a) (rev (fence_list c)))\<rparr>)"
    "\<forall>b. b \<notin> set (fence_list c) \<longrightarrow> fences g' b = fences g b"
    "\<forall>a \<in> set (fence_list c). triggered ts err (done_count c) (the (fences g a)) (fences g' a)"
    "map fst u = map Dma_fence_put (filter (is_due ?g (done_count c)) (rev (fence_list c)))"
    by (rule trigger_list_spec [OF assms(1) mid, of env ts err w]) simp
  have d: "is_due ?g = is_due g" by (simp add: is_due_def fun_eq_iff)
  have "sde_fence_trigger islk env g ts err w = Some (g', w @ u)"
    using r(1) False assms(3) by (simp add: sde_fence_trigger_def fold_Cons_rev)
  from that [OF this mid_ok_Nil(1) [OF r(2)] _ r(3,4), of k] r(5) mid_ok_Nil(2) [OF r(2)] show thesis
    by (simp add: d rev_filter)
qed

subsection \<open>The operations keep the invariant\<close>

lemma prepare_ok:
  assumes "fence_ok True g"
  shows "\<exists>g'. sde_fence_prepare g null = Some g' \<and> fence_ok True g'"
proof -
  obtain c where "timeline g = Some c" using assms by (auto simp: fence_ok_def split: option.splits)
  with assms show ?thesis by (simp add: sde_fence_prepare_def fence_ok_def)
qed

lemma trigger_ok:
  assumes "dma_contract islk" and "fence_ok True g"
  shows "\<exists>g' w'. sde_fence_trigger islk env g ts err w = Some (g', w') \<and> fence_ok True g'"
proof -
  obtain c where c: "timeline g = Some c" using assms(2) by (auto simp: fence_ok_def split: option.splits)
  show ?thesis by (rule trigger_spec [OF assms c, of env ts err w]) blast
qed

lemma signal_ok:
  assumes "dma_contract islk" and "fence_ok True g"
  shows "\<exists>g' w'. sde_fence_signal islk env g null ts ev w = Some (g', w') \<and> fence_ok True g'"
proof -
  obtain c where c: "timeline g = Some c" using assms(2) by (auto simp: fence_ok_def split: option.splits)
  define d where "d = (if ev = SDE_FENCE_RESET_TIMELINE then commit_count c else done_count c + 1)"
  let ?g = "g\<lparr>timeline := Some (c\<lparr>done_count := d\<rparr>)\<rparr>"
  have "fence_ok True ?g" using assms(2) c by (simp add: fence_ok_def)
  from trigger_ok [OF assms(1) this] obtain g' w' where
    "sde_fence_trigger islk env ?g ts (ev = SDE_FENCE_SIGNAL_ERROR) w = Some (g', w')" "fence_ok True g'" by blast
  then show ?thesis using c assms(2) by (auto simp: sde_fence_signal_def d_def)
qed

text \<open>A new fence that is live but not listed yet.\<close>

lemma new_fence_ok:
  fixes f :: sde_fence
  assumes "fence_ok True g" and "timeline g = Some c" and "fences g a = None"
  defines "g1 \<equiv> g\<lparr>fences := (fences g)(a := Some f), timeline := Some (c\<lparr>kref := kref c + 1\<rparr>)\<rparr>"
  shows "fence_ok True g1" and "a \<notin> set (fence_list c)"
proof -
  have a: "a \<notin> dom (fences g)" using assms(3) by auto
  with assms(1,2) show "fence_ok True g1" by (auto simp: fence_ok_def g1_def)
  from a assms(1,2) show "a \<notin> set (fence_list c)" by (auto simp: fence_ok_def)
qed

lemma put_unlisted_ok:
  assumes "fence_ok True g" and "fences g a = Some f" and "timeline g = Some c" and "a \<notin> set (fence_list c)"
  shows "\<exists>g' w' k. dma_fence_put env g a w = Some (g', w') \<and> fence_ok True g'
    \<and> timeline g' = Some (c\<lparr>kref := k\<rparr>) \<and> (\<forall>b. b \<noteq> a \<longrightarrow> fences g' b = fences g b)"
proof (cases "env w (Dma_fence_put a) = 0")
  case True
  then show ?thesis using assms
    by (intro exI [of _ g] exI [of _ "w @ [(Dma_fence_put a, 0)]"] exI [of _ "kref c"])
      (simp add: dma_fence_put_def ext_def)
next
  case False
  obtain g' where g': "sde_fence_release g a = Some g'" "fence_ok True g'"
    using release_ok [OF assms(1,2)] assms(3,4) by auto
  then have "timeline g' = Some (c\<lparr>kref := kref c - 1\<rparr>) \<and> (\<forall>b. b \<noteq> a \<longrightarrow> fences g' b = fences g b)"
    using assms(2,3) by (auto simp: sde_fence_release_def kref_put_ctx_def fence_ok_def)
  with False g' assms(2) show ?thesis by (auto simp: dma_fence_put_def ext_def)
qed

text \<open>A descriptor is handed out and the fence is listed, or nothing is left of it in the list.\<close>

lemma create_fd_cases:
  assumes "fence_ok True g" and "timeline g = Some c" and "\<forall>a. alloc = Some a \<longrightarrow> fences g a = None"
  obtains (failed) fd g' w' k where "sde_fence_create_fd env g val alloc w = Some (fd, g', w')" "fd < 0"
      "fence_ok True g'" "timeline g' = Some (c\<lparr>kref := k\<rparr>)"
      "\<forall>b. alloc \<noteq> Some b \<longrightarrow> fences g' b = fences g b"
  | (created) a fd f g' w' where "alloc = Some a" "sde_fence_create_fd env g val alloc w = Some (fd, g', w')" "0 \<le> fd"
      "g' = g\<lparr>fences := (fences g)(a := Some f), timeline := Some (c\<lparr>kref := kref c + 1, fence_list := fence_list c @ [a]\<rparr>)\<rparr>"
      "seqno f = val" "\<not> signaled_bit f" "fence_ok True g'"
proof (cases alloc)
  case None
  then have "sde_fence_create_fd env g val alloc w = Some (- ENOMEM, g, w)" by (simp add: sde_fence_create_fd_def)
  from failed [OF this, of "kref c"] assms(1,2) show thesis by simp
next
  case (Some a)
  define f where "f = \<lparr>seqno = val, sf_name = fence_name (ctx_name c) val, sf_fd = 0, sf_error = 0,
                   sf_timestamp = 0, signaled_bit = False\<rparr>"
  define g1 where "g1 = g\<lparr>fences := (fences g)(a := Some f), timeline := Some (c\<lparr>kref := kref c + 1\<rparr>)\<rparr>"
  have ok1: "fence_ok True g1" and na: "a \<notin> set (fence_list c)"
    unfolding g1_def using new_fence_ok [OF assms(1,2)] assms(3) Some by auto
  define fd where "fd = env w Get_unused_fd"
  define w1 where "w1 = w @ [(Get_unused_fd, fd)]"
  define sfile where "sfile = env w1 (Sync_file_create a)"
  define w2 where "w2 = w1 @ [(Sync_file_create a, sfile)]"
  define w3 where "w3 = vcall (Put_unused_fd fd) w2"
  have put: "\<exists>g' w' k. dma_fence_put env g1 a u = Some (g', w') \<and> fence_ok True g'
      \<and> timeline g' = Some (c\<lparr>kref := k\<rparr>) \<and> (\<forall>b. b \<noteq> a \<longrightarrow> fences g' b = fences g1 b)" for u
    using put_unlisted_ok [OF ok1, of a f "c\<lparr>kref := kref c + 1\<rparr>" env u] na by (auto simp: g1_def)
  have run: "sde_fence_create_fd env g val alloc w =
      (if fd < 0 then do { (g, w) \<leftarrow> dma_fence_put env g1 a w1; Some (fd, g, w) }
       else if sfile = 0 then do { (g, w) \<leftarrow> dma_fence_put env g1 a w3; Some (- EINVAL, g, w) }
       else Some (fd, g1\<lparr>fences := (fences g1)(a := Some (f\<lparr>sf_fd := fd\<rparr>)),
          timeline := Some (c\<lparr>kref := kref c + 1, fence_list := fence_list c @ [a]\<rparr>)\<rparr>, vcall (Fd_install fd) w2))"
    using assms(2) Some
    by (simp add: sde_fence_create_fd_def Let_def ext_def f_def [symmetric] g1_def [symmetric] fd_def [symmetric]
        w1_def [symmetric] sfile_def [symmetric] w2_def [symmetric] w3_def [symmetric]) (simp add: g1_def)
  consider "fd < 0" | "\<not> fd < 0" "sfile = 0" | "\<not> fd < 0" "sfile \<noteq> 0" by blast
  then show thesis
  proof cases
    case 1
    obtain g' w' k where "dma_fence_put env g1 a w1 = Some (g', w')" "fence_ok True g'"
      "timeline g' = Some (c\<lparr>kref := k\<rparr>)" "\<forall>b. b \<noteq> a \<longrightarrow> fences g' b = fences g1 b" using put by blast
    then show thesis using failed [of fd g' w' k] run 1 Some by (auto simp: g1_def)
  next
    case 2
    obtain g' w' k where "dma_fence_put env g1 a w3 = Some (g', w')" "fence_ok True g'"
      "timeline g' = Some (c\<lparr>kref := k\<rparr>)" "\<forall>b. b \<noteq> a \<longrightarrow> fences g' b = fences g1 b" using put by blast
    then show thesis using failed [of "- EINVAL" g' w' k] run 2 Some by (auto simp: g1_def)
  next
    case 3
    let ?c = "c\<lparr>kref := kref c + 1, fence_list := fence_list c @ [a]\<rparr>"
    let ?g = "g\<lparr>fences := (fences g)(a := Some (f\<lparr>sf_fd := fd\<rparr>)), timeline := Some ?c\<rparr>"
    have "sde_fence_create_fd env g val alloc w = Some (fd, ?g, vcall (Fd_install fd) w2)"
      using run 3 by (simp add: g1_def)
    moreover have "fence_ok True ?g"
      using ok1 na by (auto simp: fence_ok_def g1_def)
    ultimately show thesis using 3 Some by (intro created) (auto simp: f_def)
  qed
qed

end
