(* ===== verification/Sde_Fence_Sim.thy ===== *)
theory Sde_Fence_Sim
  imports Sde_Fence_Inv
begin

section \<open>Fence timelines: runs and the unbounded timeline\<close>

text \<open>
  Runs of the timeline's operations, interleaved with user space closing descriptors, and the
  specification: a timeline whose counters are natural numbers. The 32-bit timeline implements it
  as long as fewer than $2^{31}$ commits separate its counters.
\<close>

subsection \<open>Runs\<close>

datatype fence_op = Prepare | Create u32 | Signal int sde_fence_event | Close nat

datatype abs_op = A_prepare | A_create nat nat | A_signal bool | A_skip

text \<open>
  One operation of the driver, or the kernel releasing a fence after user space closed its
  descriptor: that can only happen to a live fence of which the driver has dropped its own
  reference, so to one that is not pending. \<open>alloc\<close> finds memory for a new fence. The first
  component of the result says what the operation means to the specification.
\<close>

definition fence_exec ::
    "is_signaled_locked \<Rightarrow> fence_env \<Rightarrow> (fence_world \<Rightarrow> nat option) \<Rightarrow> fence_op \<Rightarrow>
     fence_world \<times> fence_trace \<Rightarrow> (abs_op \<times> fence_world \<times> fence_trace) option" where
  "fence_exec islk env alloc op s =
     (let (g, w) = s in
      case op of
        Prepare \<Rightarrow> do { g \<leftarrow> sde_fence_prepare g False; Some (A_prepare, g, w) }
      | Create offset \<Rightarrow> do {
          (rc, val, g', w) \<leftarrow> sde_fence_create islk env g False False offset (alloc g) w;
          Some (if rc = 0 then A_create (the (alloc g)) (unat offset) else A_skip, g', w)
        }
      | Signal ts ev \<Rightarrow> do {
          (g, w) \<leftarrow> sde_fence_signal islk env g False ts ev w;
          Some (A_signal (ev = SDE_FENCE_RESET_TIMELINE), g, w)
        }
      | Close a \<Rightarrow> do {
          c \<leftarrow> timeline g;
          if fences g a \<noteq> None \<and> a \<notin> set (fence_list c)
          then do { g \<leftarrow> sde_fence_release g a; Some (A_skip, g, w) } else Some (A_skip, g, w)
        })"

primrec fence_runs ::
    "is_signaled_locked \<Rightarrow> fence_env \<Rightarrow> (fence_world \<Rightarrow> nat option) \<Rightarrow> fence_op list \<Rightarrow>
     fence_world \<times> fence_trace \<Rightarrow> (abs_op list \<times> fence_world \<times> fence_trace) option" where
  "fence_runs islk env alloc [] s = Some ([], s)"
| "fence_runs islk env alloc (op # ops) s = do {
     (l, s) \<leftarrow> fence_exec islk env alloc op s;
     (ls, s) \<leftarrow> fence_runs islk env alloc ops s;
     Some (l # ls, s)
   }"

definition fresh :: "(fence_world \<Rightarrow> nat option) \<Rightarrow> bool" where
  "fresh alloc \<longleftrightarrow> (\<forall>g a. alloc g = Some a \<longrightarrow> fences g a = None)"

lemma create_ok:
  assumes "dma_contract islk" and "fence_ok True g" and "\<forall>a. alloc = Some a \<longrightarrow> fences g a = None"
  shows "\<exists>rc val g' w'. sde_fence_create islk env g null nv offset alloc w = Some (rc, val, g', w') \<and> fence_ok True g'"
proof (cases "null \<or> nv")
  case True
  then show ?thesis using assms(2) by (simp add: sde_fence_create_def)
next
  case False
  obtain c where c: "timeline g = Some c" using assms(2) by (auto simp: fence_ok_def split: option.splits)
  from assms(2) c assms(3) show ?thesis
  proof (cases rule: create_fd_cases [where env = env and val = "commit_count c + offset" and w = w and alloc = alloc])
    case (failed fd g' w' k)
    then show ?thesis using False c by (simp add: sde_fence_create_def)
  next
    case (created a fd f g' w')
    obtain g2 w2 where "sde_fence_trigger islk env g' (env w' Ktime_get) False (w' @ [(Ktime_get, env w' Ktime_get)])
        = Some (g2, w2)" "fence_ok True g2"
      using trigger_ok [OF assms(1) created(7)] by blast
    with created(2,3) False c show ?thesis by (simp add: sde_fence_create_def ext_def)
  qed
qed

lemma fence_exec_ok:
  assumes "dma_contract islk" and "fresh alloc" and "fence_ok True g"
  shows "\<exists>l g' w'. fence_exec islk env alloc op (g, w) = Some (l, g', w') \<and> fence_ok True g'"
proof (cases op)
  case Prepare
  with prepare_ok [OF assms(3), of False] show ?thesis by (force simp: fence_exec_def)
next
  case (Create offset)
  have "\<forall>a. alloc g = Some a \<longrightarrow> fences g a = None" using assms(2) by (simp add: fresh_def)
  from create_ok [OF assms(1,3) this, of env False False offset w] Create show ?thesis
    by (force simp: fence_exec_def)
next
  case (Signal ts ev)
  from signal_ok [OF assms(1,3), of env False ts ev w] Signal show ?thesis by (force simp: fence_exec_def)
next
  case (Close a)
  obtain c where c: "timeline g = Some c" using assms(3) by (auto simp: fence_ok_def split: option.splits)
  with Close assms(3) release_ok [OF assms(3), of a] show ?thesis by (force simp: fence_exec_def)
qed

lemma fence_runs_ok:
  assumes "dma_contract islk" and "fresh alloc"
  shows "fence_ok True g \<Longrightarrow> \<exists>ls g' w'. fence_runs islk env alloc ops (g, w) = Some (ls, g', w') \<and> fence_ok True g'"
proof (induction ops arbitrary: g w)
  case (Cons op ops)
  obtain l g1 w1 where s1: "fence_exec islk env alloc op (g, w) = Some (l, g1, w1)" and ok1: "fence_ok True g1"
    using fence_exec_ok [OF assms Cons.prems] by blast
  obtain ls g2 w2 where s2: "fence_runs islk env alloc ops (g1, w1) = Some (ls, g2, w2)" "fence_ok True g2"
    using Cons.IH [OF ok1] by blast
  with s1 show ?case by simp
qed simp

subsection \<open>No fence is leaked\<close>

text \<open>
  The puts that the kernel answers with the last reference; and what a run allocates, less what user space
  releases by closing descriptors.
\<close>

fun last_put :: "fence_call \<times> int \<Rightarrow> int" where
  "last_put (Dma_fence_put a, r) = (if r \<noteq> 0 then 1 else 0)"
| "last_put _ = 0"

definition fence_births :: "(fence_world \<Rightarrow> nat option) \<Rightarrow> fence_op \<Rightarrow> fence_world \<Rightarrow> int" where
  "fence_births alloc op g =
     (case op of
        Create offset \<Rightarrow> (if alloc g = None then 0 else 1)
      | Close a \<Rightarrow> (if fences g a \<noteq> None \<and> a \<notin> set (fence_list (the (timeline g))) then - 1 else 0)
      | _ \<Rightarrow> 0)"

primrec runs_births ::
    "is_signaled_locked \<Rightarrow> fence_env \<Rightarrow> (fence_world \<Rightarrow> nat option) \<Rightarrow> fence_op list \<Rightarrow> fence_world \<times> fence_trace \<Rightarrow> int" where
  "runs_births islk env alloc [] s = 0"
| "runs_births islk env alloc (op # ops) s =
     fence_births alloc op (fst s) +
     (case fence_exec islk env alloc op s of None \<Rightarrow> 0 | Some (l, s') \<Rightarrow> runs_births islk env alloc ops s')"

text \<open>The live fences and the last puts so far: only allocating and closing changes their sum.\<close>

definition live_sum :: "fence_world \<times> fence_trace \<Rightarrow> int" where
  "live_sum s = int (card (dom (fences (fst s)))) + trace_sum last_put (snd s)"

definition finite_fences :: "fence_world \<Rightarrow> bool" where
  "finite_fences g \<longleftrightarrow> finite (dom (fences g))"

lemma fence_ok_finite: "fence_ok owned g \<Longrightarrow> finite_fences g"
  by (simp add: fence_ok_def finite_fences_def)

lemma release_live:
  assumes "sde_fence_release g a = Some g'" "finite_fences g"
  shows "finite_fences g' \<and> int (card (dom (fences g'))) = int (card (dom (fences g))) - 1"
proof -
  have a: "a \<in> dom (fences g)" and g': "fences g' = (fences g)(a := None)"
    using assms(1) by (auto simp: sde_fence_release_def kref_put_ctx_def split: bind_splits)
  then show ?thesis using card.remove [OF assms(2) [unfolded finite_fences_def] a] assms(2) by (simp add: finite_fences_def)
qed

lemma put_live:
  assumes "dma_fence_put env g a w = Some (g', w')" "finite_fences g"
  shows "finite_fences g' \<and> live_sum (g', w') = live_sum (g, w)"
  using assms release_live [of g a]
  by (auto simp: dma_fence_put_def live_sum_def ext_def trace_simps split: bind_splits if_splits)

lemma trigger_fence_live:
  assumes "trigger_fence islk env ts err a (g, w) = Some (g', w')" "finite_fences g"
  shows "finite_fences g' \<and> live_sum (g', w') = live_sum (g, w)"
proof -
  obtain c f where c: "timeline g = Some c" "fences g a = Some f" using assms(1) by (auto simp: trigger_fence_def split: bind_splits)
  obtain b bit where i: "islk (signaled_bit f) (sde_fence_signaled c f) = (b, bit)" by (metis prod.exhaust)
  define g1 where "g1 = g\<lparr>fences := (fences g)(a := Some (f\<lparr>sf_error := if err then - EBUSY else 0, sf_timestamp := ts, signaled_bit := bit\<rparr>))\<rparr>"
  have "dom (fences g1) = dom (fences g)" using c(2) by (auto simp: g1_def)
  then have 1: "finite_fences g1" "live_sum (g1, w) = live_sum (g, w)" using assms(2) by (simp_all add: finite_fences_def live_sum_def)
  have "trigger_fence islk env ts err a (g, w) =
      (if b then dma_fence_put env g1 a w else Some (g1\<lparr>timeline := Some (c\<lparr>fence_list := a # fence_list c\<rparr>)\<rparr>, w))"
    using c i by (simp add: trigger_fence_def g1_def)
  then show ?thesis using assms(1) put_live [of env g1 a w g' w'] 1 by (cases b) (simp_all, auto simp: live_sum_def finite_fences_def)
qed

lemma trigger_list_live:
  "trigger_list islk env ts err as (g, w) = Some (g', w') \<Longrightarrow> finite_fences g \<Longrightarrow> finite_fences g' \<and> live_sum (g', w') = live_sum (g, w)"
proof (induction as arbitrary: g w)
  case (Cons a as)
  obtain g1 w1 where s: "trigger_fence islk env ts err a (g, w) = Some (g1, w1)" "trigger_list islk env ts err as (g1, w1) = Some (g', w')"
    using Cons.prems(1) by (auto split: bind_splits)
  show ?case using Cons.IH [OF s(2)] trigger_fence_live [OF s(1) Cons.prems(2)] by simp
qed simp

lemma trigger_live:
  assumes "sde_fence_trigger islk env g ts err w = Some (g', w')" "finite_fences g"
  shows "finite_fences g' \<and> live_sum (g', w') = live_sum (g, w)"
  using assms trigger_list_live [of islk env ts err _ _ w g' w']
  by (auto simp: sde_fence_trigger_def live_sum_def finite_fences_def split: bind_splits if_splits)

lemma signal_live:
  assumes "sde_fence_signal islk env g null ts ev w = Some (g', w')" "finite_fences g"
  shows "finite_fences g' \<and> live_sum (g', w') = live_sum (g, w)"
  using assms
  by (auto simp: sde_fence_signal_def live_sum_def finite_fences_def split: bind_splits if_splits dest!: trigger_live)

lemma create_fd_live:
  assumes "sde_fence_create_fd env g val alloc w = Some (fd, g', w')" "finite_fences g" "\<forall>a. alloc = Some a \<longrightarrow> fences g a = None"
  shows "finite_fences g' \<and> live_sum (g', w') = live_sum (g, w) + (if alloc = None then 0 else 1)"
proof (cases alloc)
  case None
  then show ?thesis using assms by (simp add: sde_fence_create_fd_def)
next
  case (Some a)
  define f where "f = \<lparr>seqno = val, sf_name = fence_name (ctx_name (the (timeline g))) val, sf_fd = 0, sf_error = 0,
    sf_timestamp = 0, signaled_bit = False\<rparr>"
  define g1 where "g1 = g\<lparr>fences := (fences g)(a := Some f), timeline := Some ((the (timeline g))\<lparr>kref := kref (the (timeline g)) + 1\<rparr>)\<rparr>"
  have new: "finite (insert a (dom (fences g)))" "card (insert a (dom (fences g))) = Suc (card (dom (fences g)))"
    using assms(2,3) Some by (auto simp: finite_fences_def domIff)
  then have that_live: "live_sum (g1, v) = live_sum (g, w) + 1" if "trace_sum last_put v = trace_sum last_put w" for v
    using that by (simp add: g1_def live_sum_def)
  have fin: "finite_fences g1" using new by (simp add: g1_def finite_fences_def)
  obtain c where c: "timeline g = Some c" using assms(1) Some by (auto simp: sde_fence_create_fd_def split: bind_splits)
  define fd' where "fd' = env w Get_unused_fd"
  define w1 where "w1 = w @ [(Get_unused_fd, fd')]"
  define sfile where "sfile = env w1 (Sync_file_create a)"
  define w2 where "w2 = w1 @ [(Sync_file_create a, sfile)]"
  define g2 where "g2 = g1\<lparr>fences := (fences g1)(a := Some (f\<lparr>sf_fd := fd'\<rparr>)), timeline := Some (c\<lparr>kref := kref c + 1, fence_list := fence_list c @ [a]\<rparr>)\<rparr>"
  have run: "sde_fence_create_fd env g val alloc w =
      (if fd' < 0 then do { (g, w) \<leftarrow> dma_fence_put env g1 a w1; Some (fd', g, w) }
       else if sfile = 0 then do { (g, w) \<leftarrow> dma_fence_put env g1 a (vcall (Put_unused_fd fd') w2); Some (- EINVAL, g, w) }
       else Some (fd', g2, vcall (Fd_install fd') w2))"
    using c Some
    by (simp add: sde_fence_create_fd_def Let_def ext_def f_def g1_def g2_def fd'_def w1_def sfile_def w2_def)
  have w: "trace_sum last_put w1 = trace_sum last_put w" "trace_sum last_put (vcall (Put_unused_fd fd') w2) = trace_sum last_put w"
    "trace_sum last_put (vcall (Fd_install fd') w2) = trace_sum last_put w"
    by (simp_all add: w1_def w2_def trace_simps)
  have fin2: "finite_fences g2" "live_sum (g2, v) = live_sum (g1, v)" for v
    using new by (simp_all add: g2_def g1_def finite_fences_def live_sum_def)
  consider "fd' < 0" | "\<not> fd' < 0" "sfile = 0" | "\<not> fd' < 0" "sfile \<noteq> 0" by blast
  then show ?thesis
  proof cases
    case 1
    then have "dma_fence_put env g1 a w1 = Some (g', w')" using run assms(1) by (auto split: bind_splits)
    from put_live [OF this fin] show ?thesis using w Some that_live by simp
  next
    case 2
    then have "dma_fence_put env g1 a (vcall (Put_unused_fd fd') w2) = Some (g', w')" using run assms(1) by (auto split: bind_splits)
    from put_live [OF this fin] show ?thesis using w Some that_live by simp
  next
    case 3
    then have "g' = g2" "w' = vcall (Fd_install fd') w2" using run assms(1) by simp_all
    then show ?thesis using w Some that_live fin2 by simp
  qed
qed

lemma fence_exec_live:
  assumes "fence_exec islk env alloc op (g, w) = Some (l, g', w')" "finite_fences g" "fresh alloc"
  shows "finite_fences g' \<and> live_sum (g', w') = live_sum (g, w) + fence_births alloc op g"
proof (cases op)
  case Prepare
  then show ?thesis using assms
    by (auto simp: fence_exec_def fence_births_def sde_fence_prepare_def finite_fences_def live_sum_def split: bind_splits)
next
  case (Create offset)
  then obtain rc val where c: "sde_fence_create islk env g False False offset (alloc g) w = Some (rc, val, g', w')"
    using assms(1) by (auto simp: fence_exec_def split: bind_splits)
  then obtain c where tl: "timeline g = Some c" by (auto simp: sde_fence_create_def split: bind_splits)
  obtain fd g1 w1 where f: "sde_fence_create_fd env g (commit_count c + offset) (alloc g) w = Some (fd, g1, w1)"
    using c tl by (auto simp: sde_fence_create_def split: bind_splits)
  have "\<forall>a. alloc g = Some a \<longrightarrow> fences g a = None" using assms(3) by (simp add: fresh_def)
  from create_fd_live [OF f assms(2) this] have 1: "finite_fences g1" "live_sum (g1, w1) = live_sum (g, w) + fence_births alloc op g"
    by (auto simp: Create fence_births_def)
  have "finite_fences g' \<and> live_sum (g', w') = live_sum (g1, w1)"
    using c tl f 1(1) trigger_live [of islk env g1 _ False "w1 @ [(Ktime_get, env w1 Ktime_get)]" g' w']
    by (auto simp: sde_fence_create_def ext_def live_sum_def trace_simps split: bind_splits if_splits)
  then show ?thesis using 1 by simp
next
  case (Signal ts ev)
  then show ?thesis using assms by (auto simp: fence_exec_def fence_births_def split: bind_splits dest: signal_live)
next
  case (Close a)
  then show ?thesis using assms(1,2)
    by (auto simp: fence_exec_def fence_births_def live_sum_def split: bind_splits if_splits dest!: release_live)
qed

lemma fence_runs_live:
  "fence_runs islk env alloc ops (g, w) = Some (ls, g', w') \<Longrightarrow> finite_fences g \<Longrightarrow> fresh alloc \<Longrightarrow>
     live_sum (g', w') = live_sum (g, w) + runs_births islk env alloc ops (g, w)"
proof (induction ops arbitrary: g w ls)
  case (Cons op ops)
  obtain l g1 w1 ls' where s: "fence_exec islk env alloc op (g, w) = Some (l, g1, w1)" "fence_runs islk env alloc ops (g1, w1) = Some (ls', g', w')"
    using Cons.prems(1) by (auto split: bind_splits)
  show ?case using Cons.IH [OF s(2)] fence_exec_live [OF s(1) Cons.prems(2,3)] s(1) Cons.prems(3) by simp
qed simp

subsection \<open>The specification\<close>

record abs_timeline =
  commits :: nat
  completed :: nat
  pending :: "(nat \<times> nat) list"

definition abs_trigger :: "abs_timeline \<Rightarrow> abs_timeline" where
  "abs_trigger t = t\<lparr>pending := filter (\<lambda>(a, v). completed t < v) (pending t)\<rparr>"

fun abs_step :: "abs_op \<Rightarrow> abs_timeline \<Rightarrow> abs_timeline" where
  "abs_step A_prepare t = t\<lparr>commits := commits t + 1\<rparr>"
| "abs_step (A_create a offset) t = abs_trigger (t\<lparr>pending := pending t @ [(a, commits t + offset)]\<rparr>)"
| "abs_step (A_signal reset) t =
     (if completed t = commits t then t
      else abs_trigger (t\<lparr>completed := if reset then commits t else completed t + 1\<rparr>))"
| "abs_step A_skip t = t"

text \<open>Commits and pending fences are less than $2^{31}$ ahead.\<close>

definition window :: "abs_timeline \<Rightarrow> bool" where
  "window t \<longleftrightarrow> completed t \<le> commits t \<and> commits t - completed t < 2 ^ 31
     \<and> (\<forall>(a, v) \<in> set (pending t). completed t < v \<and> v - completed t < 2 ^ 31)"

definition timeline_rel :: "fence_world \<Rightarrow> abs_timeline \<Rightarrow> bool" where
  "timeline_rel g t \<longleftrightarrow> fence_ok True g \<and> (\<exists>c. timeline g = Some c
     \<and> commit_count c = word_of_nat (commits t) \<and> done_count c = word_of_nat (completed t)
     \<and> fence_list c = map fst (pending t)
     \<and> (\<forall>(a, v) \<in> set (pending t). \<exists>f. fences g a = Some f \<and> seqno f = word_of_nat v \<and> \<not> signaled_bit f))"

lemma sint_diff:
  assumes "int a - int b \<in> {- (2 ^ 31)..<2 ^ 31}"
  shows "sint (word_of_nat a - word_of_nat b :: u32) = int a - int b"
proof -
  have "(word_of_nat a - word_of_nat b :: u32) = word_of_int (int a - int b)" by simp
  then show ?thesis using assms by (simp only: signed_of_int) (simp add: signed_take_bit_int_eq_self)
qed

lemma trigger_refines:
  assumes "dma_contract islk" and "timeline_rel g t"
    and near: "\<forall>(a, v) \<in> set (pending t). int v - int (completed t) \<in> {- (2 ^ 31)..<2 ^ 31}"
  shows "\<exists>g' w'. sde_fence_trigger islk env g ts err w = Some (g', w') \<and> timeline_rel g' (abs_trigger t)"
proof -
  obtain c where ok: "fence_ok True g" and c: "timeline g = Some c"
    and cnt: "commit_count c = word_of_nat (commits t)" "done_count c = word_of_nat (completed t)"
    and lst: "fence_list c = map fst (pending t)"
    and fs: "\<forall>(a, v) \<in> set (pending t). \<exists>f. fences g a = Some f \<and> seqno f = word_of_nat v \<and> \<not> signaled_bit f"
    using assms(2) by (auto simp: timeline_rel_def)
  have due: "is_due g (done_count c) a \<longleftrightarrow> v \<le> completed t" if "(a, v) \<in> set (pending t)" for a v
    using that fs near by (fastforce simp: is_due_def due_def cnt sint_diff)
  have keep: "filter (\<lambda>a. \<not> is_due g (done_count c) a) (fence_list c) = map fst (pending (abs_trigger t))"
    unfolding lst filter_map abs_trigger_def
    using due by (auto simp: comp_def intro!: arg_cong [where f = "map fst"] filter_cong)
  obtain g' k u where run: "sde_fence_trigger islk env g ts err w = Some (g', w @ u)" "fence_ok True g'"
    "timeline g' = Some (c\<lparr>kref := k, fence_list := filter (\<lambda>a. \<not> is_due g (done_count c) a) (fence_list c)\<rparr>)"
    and trig: "\<forall>a \<in> set (fence_list c). triggered ts err (done_count c) (the (fences g a)) (fences g' a)"
    by (rule trigger_spec [OF assms(1) ok c, of env ts err w])
  have "\<exists>f. fences g' a = Some f \<and> seqno f = word_of_nat v \<and> \<not> signaled_bit f"
    if av: "(a, v) \<in> set (pending (abs_trigger t))" for a v
  proof -
    have p: "(a, v) \<in> set (pending t)" "completed t < v" using av by (auto simp: abs_trigger_def)
    from p(1) fs obtain f where f: "fences g a = Some f" "seqno f = word_of_nat v" "\<not> signaled_bit f" by blast
    have nd: "\<not> due (done_count c) f" using due [OF p(1)] p(2) f(1) by (simp add: is_due_def)
    have "a \<in> set (fence_list c)" using p(1) lst by force
    with trig f(1) have "triggered ts err (done_count c) f (fences g' a)" by force
    with nd have "fences g' a = Some (stamped ts err (done_count c) f)" by (simp add: triggered_def)
    with nd f(2) show ?thesis by (simp add: stamped_def)
  qed
  with run keep cnt have "timeline_rel g' (abs_trigger t)"
    by (auto simp: timeline_rel_def abs_trigger_def)
  with run(1) show ?thesis by blast
qed

lemma create_refines:
  assumes "dma_contract islk" and "timeline_rel g t" and "window t" and "fresh alloc"
    and "sde_fence_create islk env g False False offset (alloc g) w = Some (rc, val, g', w')"
    and "rc = 0 \<Longrightarrow> commits t + unat offset - completed t < 2 ^ 31"
  shows "timeline_rel g' (abs_step (if rc = 0 then A_create (the (alloc g)) (unat offset) else A_skip) t)"
proof -
  obtain c where ok: "fence_ok True g" and c: "timeline g = Some c"
    and cnt: "commit_count c = word_of_nat (commits t)" "done_count c = word_of_nat (completed t)"
    and lst: "fence_list c = map fst (pending t)"
    and fs: "\<forall>(a, v) \<in> set (pending t). \<exists>f. fences g a = Some f \<and> seqno f = word_of_nat v \<and> \<not> signaled_bit f"
    using assms(2) by (auto simp: timeline_rel_def)
  have fr: "\<forall>a. alloc g = Some a \<longrightarrow> fences g a = None" using assms(4) by (simp add: fresh_def)
  from ok c fr show ?thesis
  proof (cases rule: create_fd_cases [where env = env and val = "commit_count c + offset" and w = w])
    case (failed fd g1 w1 k)
    then have eq: "rc = fd" "g' = g1" using assms(5) c by (simp_all add: sde_fence_create_def)
    have "fences g1 a = fences g a" if "(a, v) \<in> set (pending t)" for a v
      using failed(5) fr fs that by (cases "alloc g = Some a") auto
    with failed cnt lst fs eq show ?thesis by (fastforce simp: timeline_rel_def)
  next
    case (created a fd f g1 w1)
    define t1 where "t1 = t\<lparr>pending := pending t @ [(a, commits t + unat offset)]\<rparr>"
    let ?ts = "env w1 Ktime_get"
    have rc: "rc = 0" "sde_fence_trigger islk env g1 ?ts False (w1 @ [(Ktime_get, ?ts)]) = Some (g', w')"
      using assms(5) c created(2,3) by (auto simp: sde_fence_create_def ext_def split: bind_splits)
    have fresh_a: "fences g a = None" using fr created(1) by simp
    have val: "commit_count c + offset = word_of_nat (commits t + unat offset)" by (simp add: cnt)
    have "timeline_rel g1 t1"
      using created(4-7) cnt lst fs fresh_a val by (fastforce simp: timeline_rel_def t1_def)
    moreover have "int (commits t + k) - int (completed t) \<in> {- (2 ^ 31)..<2 ^ 31}"
      if "commits t + k - completed t < 2 ^ 31" for k
      using assms(3) that by (auto simp: window_def)
    from this [OF assms(6) [OF rc(1)]]
    have "\<forall>(b, v) \<in> set (pending t1). int v - int (completed t1) \<in> {- (2 ^ 31)..<2 ^ 31}"
      using assms(3) by (auto simp: window_def t1_def)
    ultimately have "timeline_rel g' (abs_trigger t1)"
      using trigger_refines [OF assms(1), of g1 t1 env ?ts False "w1 @ [(Ktime_get, ?ts)]"] rc(2) by auto
    then show ?thesis using rc(1) created(1) by (simp add: t1_def)
  qed
qed

lemma signal_refines:
  assumes "dma_contract islk" and "timeline_rel g t" and "window t"
    and "sde_fence_signal islk env g False ts ev w = Some (g', w')"
  shows "timeline_rel g' (abs_step (A_signal (ev = SDE_FENCE_RESET_TIMELINE)) t)"
proof -
  obtain c where ok: "fence_ok True g" and c: "timeline g = Some c"
    and cnt: "commit_count c = word_of_nat (commits t)" "done_count c = word_of_nat (completed t)"
    using assms(2) by (auto simp: timeline_rel_def)
  have "int (completed t) - int (commits t) \<in> {- (2 ^ 31)..<2 ^ 31}" using assms(3) by (auto simp: window_def)
  then have late: "sint (done_count c - commit_count c) \<ge> 0 \<longleftrightarrow> completed t = commits t"
    using assms(3) by (auto simp: cnt sint_diff window_def)
  show ?thesis
  proof (cases "completed t = commits t")
    case True
    then show ?thesis using assms(2,4) c late by (simp add: sde_fence_signal_def)
  next
    case False
    define d where "d = (if ev = SDE_FENCE_RESET_TIMELINE then commits t else completed t + 1)"
    define t1 where "t1 = t\<lparr>completed := d\<rparr>"
    let ?g = "g\<lparr>timeline := Some (c\<lparr>done_count := word_of_nat d\<rparr>)\<rparr>"
    have trig: "sde_fence_trigger islk env ?g ts (ev = SDE_FENCE_SIGNAL_ERROR) w = Some (g', w')"
      using assms(4) c late False cnt by (simp add: sde_fence_signal_def d_def add.commute split: if_splits)
    have "timeline_rel ?g t1"
      using assms(2) c by (auto simp: timeline_rel_def t1_def fence_ok_def)
    moreover have "\<forall>(b, v) \<in> set (pending t1). int v - int (completed t1) \<in> {- (2 ^ 31)..<2 ^ 31}"
      using assms(3) False by (auto simp: window_def t1_def d_def split: if_splits)
    ultimately have "timeline_rel g' (abs_trigger t1)"
      using trigger_refines [OF assms(1), of ?g t1 env ts "ev = SDE_FENCE_SIGNAL_ERROR" w] trig by auto
    then show ?thesis using False by (simp add: t1_def d_def)
  qed
qed

lemma fence_exec_refines:
  assumes "dma_contract islk" and "fresh alloc" and "timeline_rel g t" and "window t"
    and "fence_exec islk env alloc op (g, w) = Some (l, g', w')" and "window (abs_step l t)"
  shows "timeline_rel g' (abs_step l t)"
proof (cases op)
  case Prepare
  with assms(3,5) show ?thesis
    by (auto simp: fence_exec_def sde_fence_prepare_def timeline_rel_def fence_ok_def add.commute split: bind_splits)
next
  case (Create offset)
  with assms(5) obtain rc val where cr: "sde_fence_create islk env g False False offset (alloc g) w = Some (rc, val, g', w')"
    and l: "l = (if rc = 0 then A_create (the (alloc g)) (unat offset) else A_skip)"
    by (auto simp: fence_exec_def split: bind_splits)
  have "commits t + unat offset - completed t < 2 ^ 31" if "rc = 0"
    using assms(6) that l
    by (cases "completed t < commits t + unat offset") (auto simp: window_def abs_trigger_def)
  from create_refines [OF assms(1,3,4,2) cr this] l show ?thesis by simp
next
  case (Signal ts ev)
  with assms(5) have "sde_fence_signal islk env g False ts ev w = Some (g', w')"
    and l: "l = A_signal (ev = SDE_FENCE_RESET_TIMELINE)" by (auto simp: fence_exec_def split: bind_splits)
  from signal_refines [OF assms(1,3,4) this(1)] l show ?thesis by simp
next
  case (Close a)
  obtain c where ok: "fence_ok True g" and c: "timeline g = Some c" using assms(3) by (auto simp: timeline_rel_def)
  show ?thesis
  proof (cases "fences g a \<noteq> None \<and> a \<notin> set (fence_list c)")
    case True
    then obtain f where f: "fences g a = Some f" and na: "a \<notin> set (fence_list c)" by auto
    from release_ok [OF ok f] na c obtain g1 where g1: "sde_fence_release g a = Some g1" "fence_ok True g1" by auto
    with Close assms(5) c True have eq: "l = A_skip" "g' = g1" by (auto simp: fence_exec_def)
    have "timeline g1 = Some (c\<lparr>kref := kref c - 1\<rparr>)" "fences g1 = (fences g)(a := None)"
      using g1 f c by (auto simp: sde_fence_release_def kref_put_ctx_def fence_ok_def)
    with assms(3) c na g1(2) eq show ?thesis by (force simp: timeline_rel_def)
  next
    case False
    with Close assms(3,5) c show ?thesis by (auto simp: fence_exec_def)
  qed
qed

primrec abs_run :: "abs_op list \<Rightarrow> abs_timeline \<Rightarrow> abs_timeline" where
  "abs_run [] t = t"
| "abs_run (l # ls) t = abs_run ls (abs_step l t)"

primrec in_window :: "abs_op list \<Rightarrow> abs_timeline \<Rightarrow> bool" where
  "in_window [] t \<longleftrightarrow> window t"
| "in_window (l # ls) t \<longleftrightarrow> window t \<and> in_window ls (abs_step l t)"

lemma in_window_now: "in_window ls t \<Longrightarrow> window t"
  by (cases ls) simp_all

lemma fence_runs_refine:
  assumes "dma_contract islk" and "fresh alloc"
  shows "timeline_rel g t \<Longrightarrow> fence_runs islk env alloc ops (g, w) = Some (ls, g', w') \<Longrightarrow> in_window ls t \<Longrightarrow>
    timeline_rel g' (abs_run ls t)"
proof (induction ops arbitrary: g w t ls)
  case (Cons op ops)
  then obtain l g1 w1 rest where s1: "fence_exec islk env alloc op (g, w) = Some (l, g1, w1)"
    and s2: "fence_runs islk env alloc ops (g1, w1) = Some (rest, g', w')" and ls: "ls = l # rest"
    by (auto split: bind_splits)
  from Cons.prems(3) ls have win: "window t" "in_window rest (abs_step l t)" by auto
  from fence_exec_refines [OF assms Cons.prems(1) win(1) s1 in_window_now [OF win(2)]]
  have "timeline_rel g1 (abs_step l t)" .
  from Cons.IH [OF this s2 win(2)] ls show ?case by simp
qed simp

lemma init_rel:
  assumes "sde_fence_init name drm context_id mem = Inr c"
  shows "timeline_rel \<lparr>timeline = Some c, fences = Map.empty\<rparr> \<lparr>commits = 0, completed = 0, pending = []\<rparr>"
    and "fence_ok True \<lparr>timeline = Some c, fences = Map.empty\<rparr>"
  using assms by (auto simp: sde_fence_init_def timeline_rel_def fence_ok_def split: option.splits if_splits)

subsection \<open>Signals complete commits one by one\<close>

lemma abs_trigger_window: "window t \<Longrightarrow> abs_trigger t = t"
  by (cases t) (auto simp: abs_trigger_def window_def intro!: filter_id_conv [THEN iffD2])

lemma abs_signal_window:
  assumes "window t"
  shows "window (abs_step (A_signal reset) t)"
  using assms by (auto simp: window_def abs_trigger_def split: if_splits)

lemma signals_in_window: "window t \<Longrightarrow> in_window (replicate m (A_signal reset)) t"
  by (induction m arbitrary: t) (simp_all add: abs_signal_window del: abs_step.simps)

lemma abs_signals:
  assumes "window t"
  shows "abs_run (replicate m (A_signal False)) t =
    abs_trigger (t\<lparr>completed := min (commits t) (completed t + m)\<rparr>)"
  using assms
proof (induction m arbitrary: t)
  case 0
  then show ?case using abs_trigger_window [OF 0] by (simp add: window_def)
next
  case (Suc m)
  have le: "completed t \<le> commits t" using Suc.prems by (simp add: window_def)
  have eq: "abs_run (replicate (Suc m) (A_signal False)) t =
      abs_trigger ((abs_step (A_signal False) t)\<lparr>completed := min (commits t) (completed (abs_step (A_signal False) t) + m)\<rparr>)"
    using Suc.IH [OF abs_signal_window [OF Suc.prems, of False]]
    by (simp add: abs_trigger_def)
  show ?case
  proof (cases "completed t = commits t")
    case True
    then show ?thesis using eq by simp
  next
    case False
    have "filter (\<lambda>(a, v). min (commits t) (Suc (completed t) + m) < v) (filter (\<lambda>(a, v). Suc (completed t) < v) (pending t))
        = filter (\<lambda>(a, v). min (commits t) (Suc (completed t) + m) < v) (pending t)"
      using False le by (auto simp: filter_filter intro!: filter_cong)
    then show ?thesis using False unfolding eq by (simp add: abs_trigger_def)
  qed
qed

lemma signal_runs:
  assumes "dma_contract islk" and "fence_ok True g"
  shows "\<exists>g' w'. fence_runs islk env alloc (map (\<lambda>ts. Signal ts SDE_FENCE_SIGNAL) tss) (g, w)
    = Some (replicate (length tss) (A_signal False), g', w')"
  using assms(2)
proof (induction tss arbitrary: g w)
  case (Cons ts tss)
  obtain g1 w1 where "sde_fence_signal islk env g False ts SDE_FENCE_SIGNAL w = Some (g1, w1)" "fence_ok True g1"
    using signal_ok [OF assms(1) Cons.prems] by blast
  with Cons.IH [of g1 w1] show ?case by (auto simp: fence_exec_def)
qed simp

end
