(* ===== verification/Sde_Fence_Props.thy ===== *)
theory Sde_Fence_Props
  imports Sde_Fence_Sim
begin

section \<open>Fence timelines: what their users rely on\<close>

text \<open>
  The properties of \<^verbatim>\<open>msm/sde/sde_fence.c\<close>, with an example timeline. In the example the kernel
  behaves as documented, file descriptors are 40 and up, and user space keeps its descriptors.
\<close>

subsection \<open>An example\<close>

definition demo_islk :: is_signaled_locked where
  "demo_islk b s = (b \<or> s, b \<or> s)"

definition demo_kernel :: fence_env where
  "demo_kernel w c = (case c of Get_unused_fd \<Rightarrow> 40 + int (length w) | Sync_file_create a \<Rightarrow> 1 | Ktime_get \<Rightarrow> 7 | _ \<Rightarrow> 0)"

text \<open>The first free address, in a memory of 64 fences.\<close>

definition demo_alloc :: "fence_world \<Rightarrow> nat option" where
  "demo_alloc g = List.find (\<lambda>a. fences g a = None) [0..<64]"

definition demo_ctx :: sde_fence_context where
  "demo_ctx = \<lparr>commit_count = 0, done_count = 0, drm_id = 3, kref = 1, dma_context = 9, fence_list = [],
     ctx_name = ''crtc''\<rparr>"

lemma demo_contract: "dma_contract demo_islk"
  by (simp add: dma_contract_def demo_islk_def)

lemma demo_fresh: "fresh demo_alloc"
  by (auto simp: fresh_def demo_alloc_def find_Some_iff)

lemma demo_init: "sde_fence_init (Some ''crtc'') 3 9 True = Inr demo_ctx"
  by (simp add: sde_fence_init_def demo_ctx_def SDE_FENCE_NAME_SIZE_def)

text \<open>Two commits with a fence for the current and one for the next commit each; the first is done.\<close>

definition demo_pending :: fence_world where
  "demo_pending = fst (snd (the (fence_runs demo_islk demo_kernel demo_alloc
     [Prepare, Create 0, Create 1, Prepare, Create 0, Create 1, Signal 5 SDE_FENCE_SIGNAL]
     (\<lparr>timeline = Some demo_ctx, fences = Map.empty\<rparr>, []))))"

definition demo_labels :: "abs_op list" where
  "demo_labels = [A_prepare, A_create 0 0, A_create 1 1, A_prepare, A_create 2 0, A_create 3 1, A_signal False]"

lemma demo_pending_run:
  "\<exists>w. fence_runs demo_islk demo_kernel demo_alloc
     [Prepare, Create 0, Create 1, Prepare, Create 0, Create 1, Signal 5 SDE_FENCE_SIGNAL]
     (\<lparr>timeline = Some demo_ctx, fences = Map.empty\<rparr>, []) = Some (demo_labels, demo_pending, w)"
proof -
  let ?r = "fence_runs demo_islk demo_kernel demo_alloc
     [Prepare, Create 0, Create 1, Prepare, Create 0, Create 1, Signal 5 SDE_FENCE_SIGNAL]
     (\<lparr>timeline = Some demo_ctx, fences = Map.empty\<rparr>, [])"
  have "map_option fst ?r = Some demo_labels" by code_simp
  then show ?thesis unfolding demo_pending_def by (cases ?r) auto
qed

lemma demo_pending_ok: "fence_ok True demo_pending"
  using fence_runs_ok [OF demo_contract demo_fresh init_rel(2) [OF demo_init], of demo_kernel
      "[Prepare, Create 0, Create 1, Prepare, Create 0, Create 1, Signal 5 SDE_FENCE_SIGNAL]" "[]"]
    demo_pending_run by auto

lemma demo_pending_rel:
  "timeline_rel demo_pending \<lparr>commits = 2, completed = 1, pending = [(1, 2), (2, 2), (3, 3)]\<rparr>"
proof -
  have "in_window demo_labels \<lparr>commits = 0, completed = 0, pending = []\<rparr>"
    "abs_run demo_labels \<lparr>commits = 0, completed = 0, pending = []\<rparr> =
       \<lparr>commits = 2, completed = 1, pending = [(1, 2), (2, 2), (3, 3)]\<rparr>"
    by (simp_all add: demo_labels_def window_def abs_trigger_def)
  with fence_runs_refine [OF demo_contract demo_fresh init_rel(1) [OF demo_init]] demo_pending_run show ?thesis
    by fastforce
qed

subsection \<open>The properties\<close>

text \<open>
  C25. A timeline is memory safe and leaks nothing: from a new timeline, with an allocator that gives free
  memory and a kernel that sees a fence as signalled as it documents, in every run of the operations,
  interleaved with user space closing descriptors of fences that are not pending, no operation touches freed
  memory, the reference count of the timeline is one more than the number of live fences, and the pending
  fences are live and listed once. A fence is freed when its last reference goes: the live fences are those
  allocated, less the puts that the kernel answers with the last reference, less the descriptors closed.
  After the owner has let go of the timeline it is freed at once exactly if no fence is alive.
\<close>

theorem fence_timeline_memory_safe:
  assumes "dma_contract islk" and "fresh alloc" and "sde_fence_init name drm context_id mem = Inr c0"
  shows "\<exists>ls g w c g'. fence_runs islk env alloc ops (\<lparr>timeline = Some c0, fences = Map.empty\<rparr>, []) = Some (ls, g, w)
    \<and> timeline g = Some c \<and> kref c = 1 + card (dom (fences g))
    \<and> distinct (fence_list c) \<and> set (fence_list c) \<subseteq> dom (fences g)
    \<and> int (card (dom (fences g))) =
        runs_births islk env alloc ops (\<lparr>timeline = Some c0, fences = Map.empty\<rparr>, []) - trace_sum last_put w
    \<and> sde_fence_deinit g False = Some g' \<and> (timeline g' = None \<longleftrightarrow> dom (fences g') = {})"
proof -
  obtain ls g w where run: "fence_runs islk env alloc ops (\<lparr>timeline = Some c0, fences = Map.empty\<rparr>, []) = Some (ls, g, w)"
    and ok: "fence_ok True g"
    using fence_runs_ok [OF assms(1,2) init_rel(2) [OF assms(3)]] by blast
  obtain c where c: "timeline g = Some c" "finite (dom (fences g))" "kref c = Suc (card (dom (fences g)))"
    "distinct (fence_list c)" "set (fence_list c) \<subseteq> dom (fences g)"
    by (rule fence_ok_owned [OF ok])
  have "sde_fence_deinit g False = Some (g\<lparr>timeline := if kref c = 1 then None else Some (c\<lparr>kref := kref c - 1\<rparr>)\<rparr>)"
    using c(1) by (simp add: sde_fence_deinit_def kref_put_ctx_def)
  moreover have "kref c = 1 \<longleftrightarrow> dom (fences g) = {}" using c(2,3) by (metis One_nat_def card_0_eq diff_Suc_1)
  moreover have "int (card (dom (fences g))) =
      runs_births islk env alloc ops (\<lparr>timeline = Some c0, fences = Map.empty\<rparr>, []) - trace_sum last_put w"
    using fence_runs_live [OF run _ assms(2)] by (simp add: finite_fences_def live_sum_def)
  ultimately show ?thesis using run c by auto
qed

definition demo_open_close :: "fence_op list" where
  "demo_open_close = [Prepare, Create 0, Create 1, Signal 5 SDE_FENCE_SIGNAL, Close 0, Prepare, Create 0]"

theorem fence_timeline_memory_safe_witness:
  "\<exists>ls g w c g'. fence_runs demo_islk demo_kernel demo_alloc demo_open_close (\<lparr>timeline = Some demo_ctx, fences = Map.empty\<rparr>, []) = Some (ls, g, w)
    \<and> timeline g = Some c \<and> kref c = 1 + card (dom (fences g))
    \<and> distinct (fence_list c) \<and> set (fence_list c) \<subseteq> dom (fences g)
    \<and> int (card (dom (fences g))) =
        runs_births demo_islk demo_kernel demo_alloc demo_open_close (\<lparr>timeline = Some demo_ctx, fences = Map.empty\<rparr>, []) - trace_sum last_put w
    \<and> sde_fence_deinit g False = Some g' \<and> (timeline g' = None \<longleftrightarrow> dom (fences g') = {})"
  by (rule fence_timeline_memory_safe [OF demo_contract demo_fresh demo_init])

text \<open>
  C26. A signal does what it says, and nothing else, on a well-formed timeline and with a kernel that sees a
  fence as signalled as it documents. While a commit is outstanding, it completes one commit (a reset
  completes all); the fences that are due leave the list of pending fences and keep the order of the rest.
  Each pending fence gets the time given and the error \<^verbatim>\<open>-EBUSY\<close> for an error event, none otherwise, and is
  marked signalled exactly if it is due; its driver's reference is dropped once if it is due. It stays alive
  if it is not due, and fences are freed by puts of the last reference only, one by each. All other fences are as
  before. Without an outstanding commit a signal changes nothing.
\<close>

theorem fence_signal_exact:
  assumes "dma_contract islk" and "fence_ok True g" and "timeline g = Some c"
    and "d = (if ev = SDE_FENCE_RESET_TIMELINE then commit_count c else done_count c + 1)"
    and "outstanding = (sint (done_count c - commit_count c) < 0)"
  shows "\<exists>g' c' u. sde_fence_signal islk env g False ts ev w = Some (g', w @ u) \<and> timeline g' = Some c'
    \<and> (\<not> outstanding \<longrightarrow> g' = g \<and> u = [])
    \<and> (outstanding \<longrightarrow> done_count c' = d \<and> commit_count c' = commit_count c
       \<and> fence_list c' = filter (\<lambda>a. \<not> is_due g d a) (fence_list c)
       \<and> map fst u = map Dma_fence_put (rev (filter (is_due g d) (fence_list c)))
       \<and> (\<forall>a \<in> set (fence_list c). \<forall>f'. fences g' a = Some f' \<longrightarrow> f' = (the (fences g a))
            \<lparr>sf_error := if ev = SDE_FENCE_SIGNAL_ERROR then - EBUSY else 0, sf_timestamp := ts, signaled_bit := is_due g d a\<rparr>)
       \<and> (\<forall>a \<in> set (fence_list c). \<not> is_due g d a \<longrightarrow> fences g' a \<noteq> None)
       \<and> int (card (dom (fences g'))) = int (card (dom (fences g))) - trace_sum last_put u
       \<and> (\<forall>a. a \<notin> set (fence_list c) \<longrightarrow> fences g' a = fences g a))"
proof (cases outstanding)
  case False
  then show ?thesis using assms(3,5) by (auto simp: sde_fence_signal_def)
next
  case True
  let ?g = "g\<lparr>timeline := Some (c\<lparr>done_count := d\<rparr>)\<rparr>"
  have run: "sde_fence_signal islk env g False ts ev w = sde_fence_trigger islk env ?g ts (ev = SDE_FENCE_SIGNAL_ERROR) w"
    using True assms(3-5) by (simp add: sde_fence_signal_def)
  have "fence_ok True ?g" using assms(2,3) by (simp add: fence_ok_def)
  then obtain g' k u where t: "sde_fence_trigger islk env ?g ts (ev = SDE_FENCE_SIGNAL_ERROR) w = Some (g', w @ u)"
    "timeline g' = Some (c\<lparr>done_count := d, kref := k, fence_list := filter (\<lambda>a. \<not> is_due ?g d a) (fence_list c)\<rparr>)"
    "\<forall>b. b \<notin> set (fence_list c) \<longrightarrow> fences g' b = fences g b"
    "\<forall>a \<in> set (fence_list c). triggered ts (ev = SDE_FENCE_SIGNAL_ERROR) d (the (fences g a)) (fences g' a)"
    "map fst u = map Dma_fence_put (rev (filter (is_due ?g d) (fence_list c)))"
    by (rule trigger_spec [OF assms(1), where c = "c\<lparr>done_count := d\<rparr>" and env = env and ts = ts
          and err = "ev = SDE_FENCE_SIGNAL_ERROR" and w = w]) auto
  have due: "is_due ?g = is_due g" by (simp add: is_due_def fun_eq_iff)
  have "f' = (the (fences g a))\<lparr>sf_error := if ev = SDE_FENCE_SIGNAL_ERROR then - EBUSY else 0, sf_timestamp := ts, signaled_bit := is_due g d a\<rparr>"
    if "a \<in> set (fence_list c)" "fences g' a = Some f'" for a f'
    using bspec [OF t(4) that(1)] that(2) by (auto simp: triggered_def stamped_def is_due_def)
  moreover have "fences g' a \<noteq> None" if "a \<in> set (fence_list c)" "\<not> is_due g d a" for a
    using bspec [OF t(4) that(1)] that(2) by (auto simp: triggered_def is_due_def)
  moreover have "int (card (dom (fences g'))) = int (card (dom (fences g))) - trace_sum last_put u"
    using trigger_live [OF t(1)] fence_ok_finite [OF assms(2)] by (simp add: finite_fences_def live_sum_def)
  ultimately show ?thesis using True run t by (simp add: due)
qed

theorem fence_signal_exact_witness:
  "\<exists>g' c' u. sde_fence_signal demo_islk demo_kernel demo_pending False 8 SDE_FENCE_SIGNAL_ERROR [] = Some (g', u)
     \<and> timeline g' = Some c' \<and> done_count c' = 2 \<and> fence_list c' = [3]
     \<and> map fst u = [Dma_fence_put 2, Dma_fence_put 1]"
proof -
  have "map_option (\<lambda>c. (commit_count c, done_count c, fence_list c)) (timeline demo_pending) = Some (2, 1, [1, 2, 3])"
    "map_option (\<lambda>f. (seqno f, signaled_bit f)) (fences demo_pending 1) = Some (2, False)"
    "map_option (\<lambda>f. (seqno f, signaled_bit f)) (fences demo_pending 2) = Some (2, False)"
    "map_option (\<lambda>f. (seqno f, signaled_bit f)) (fences demo_pending 3) = Some (3, False)"
    by code_simp+
  then obtain c where c: "timeline demo_pending = Some c" "commit_count c = 2" "done_count c = 1" "fence_list c = [1, 2, 3]"
    and f: "is_due demo_pending 2 1" "is_due demo_pending 2 2" "\<not> is_due demo_pending 2 3"
    by (auto simp: is_due_def due_def)
  show ?thesis
    using fence_signal_exact [OF demo_contract demo_pending_ok c(1) refl refl,
        of demo_kernel 8 SDE_FENCE_SIGNAL_ERROR "[]"] c f by auto
qed

text \<open>
  C27. Wrap-around is harmless: the timeline with 32-bit counters implements the timeline with
  unbounded counters. In every run, if fewer than $2^{31}$ commits separate the counters, and the
  pending fences from the counter of done commits, then the list of pending fences is the list of
  the unbounded timeline, in the same order, and the counters agree modulo $2^{32}$.
\<close>

theorem fence_timeline_refines_unbounded:
  assumes "dma_contract islk" and "fresh alloc" and "timeline_rel g t" and "in_window ls t"
    and "fence_runs islk env alloc ops (g, w) = Some (ls, g', w')"
  shows "\<exists>c. timeline g' = Some c \<and> fence_list c = map fst (pending (abs_run ls t))
    \<and> commit_count c = word_of_nat (commits (abs_run ls t)) \<and> done_count c = word_of_nat (completed (abs_run ls t))
    \<and> (\<forall>(a, v) \<in> set (pending (abs_run ls t)). completed (abs_run ls t) < v
         \<and> (\<exists>f. fences g' a = Some f \<and> seqno f = word_of_nat v \<and> \<not> signaled_bit f))"
proof -
  have "window (abs_run ls t)" using assms(4) by (induction ls arbitrary: t) auto
  with fence_runs_refine [OF assms(1-3,5,4)] show ?thesis
    unfolding timeline_rel_def window_def by fastforce
qed

text \<open>The example: a timeline that has almost wrapped around.\<close>

definition demo_late :: fence_world where
  "demo_late = \<lparr>timeline = Some (demo_ctx\<lparr>commit_count := - 1, done_count := - 1\<rparr>), fences = Map.empty\<rparr>"

definition demo_late_abs :: abs_timeline where
  "demo_late_abs = \<lparr>commits = 4294967295, completed = 4294967295, pending = []\<rparr>"

theorem fence_timeline_refines_unbounded_witness:
  "\<exists>ls g' w' c. fence_runs demo_islk demo_kernel demo_alloc [Prepare, Create 0, Prepare, Create 0, Signal 5 SDE_FENCE_SIGNAL]
       (demo_late, []) = Some (ls, g', w')
     \<and> timeline g' = Some c \<and> done_count c = 0 \<and> commit_count c = 1 \<and> fence_list c = [1]"
proof -
  let ?ops = "[Prepare, Create 0, Prepare, Create 0, Signal 5 SDE_FENCE_SIGNAL]"
  let ?ls = "[A_prepare, A_create 0 0, A_prepare, A_create 1 0, A_signal False]"
  have "map_option fst (fence_runs demo_islk demo_kernel demo_alloc ?ops (demo_late, [])) = Some ?ls" by code_simp
  then obtain g' w' where run: "fence_runs demo_islk demo_kernel demo_alloc ?ops (demo_late, []) = Some (?ls, g', w')"
    by auto
  have rel: "timeline_rel demo_late demo_late_abs"
    by (simp add: timeline_rel_def demo_late_def demo_late_abs_def fence_ok_def demo_ctx_def)
  have win: "in_window ?ls demo_late_abs" "abs_run ?ls demo_late_abs = \<lparr>commits = 4294967297, completed = 4294967296, pending = [(1, 4294967297)]\<rparr>"
    by (simp_all add: window_def demo_late_abs_def abs_trigger_def)
  from fence_timeline_refines_unbounded [OF demo_contract demo_fresh rel win(1) run] run win(2) show ?thesis by auto
qed

text \<open>
  C28. Fences of a commit are signalled by the completion of that commit: a fence whose value is
  at most the number of commits so far is pending for exactly as many signals as separate it from
  the counter of done commits, however the counters wrap around, and signals always return.
\<close>

theorem fence_signalled_in_time:
  assumes "dma_contract islk" and "fresh alloc" and "timeline_rel g t" and "window t"
    and "(a, v) \<in> set (pending t)" and "v \<le> commits t"
  shows "\<exists>ls g' w' c. fence_runs islk env alloc (map (\<lambda>ts. Signal ts SDE_FENCE_SIGNAL) tss) (g, w) = Some (ls, g', w')
    \<and> timeline g' = Some c \<and> (a \<in> set (fence_list c) \<longleftrightarrow> length tss < v - completed t)"
proof -
  have ok: "fence_ok True g" and "distinct (map fst (pending t))"
    using assms(3) by (auto simp: timeline_rel_def fence_ok_def)
  then have uniq: "v' = v" if "(a, v') \<in> set (pending t)" for v'
    using eq_key_imp_eq_value [OF _ that assms(5)] by simp
  define m where "m = length tss"
  define t' where "t' = abs_run (replicate m (A_signal False)) t"
  obtain g' w' where run: "fence_runs islk env alloc (map (\<lambda>ts. Signal ts SDE_FENCE_SIGNAL) tss) (g, w)
      = Some (replicate m (A_signal False), g', w')"
    using signal_runs [OF assms(1) ok] unfolding m_def by blast
  from fence_runs_refine [OF assms(1-3) run signals_in_window [OF assms(4)]] obtain c where
    c: "timeline g' = Some c" "fence_list c = map fst (pending t')"
    by (auto simp: timeline_rel_def t'_def)
  define d where "d = min (commits t) (completed t + m)"
  have p: "pending t' = filter (\<lambda>(a, v). d < v) (pending t)"
    by (simp add: t'_def abs_signals [OF assms(4)] abs_trigger_def d_def)
  have "a \<in> set (fence_list c) \<longleftrightarrow> (\<exists>v'. (a, v') \<in> set (pending t) \<and> d < v')"
    unfolding c(2) p by force
  also have "\<dots> \<longleftrightarrow> d < v" using uniq assms(5) by blast
  also have "\<dots> \<longleftrightarrow> m < v - completed t" using assms(6) by (auto simp: d_def)
  finally show ?thesis using run c(1) m_def by blast
qed

theorem fence_signalled_in_time_witness:
  "\<exists>ls g' w' c. fence_runs demo_islk demo_kernel demo_alloc [Signal 6 SDE_FENCE_SIGNAL] (demo_pending, []) = Some (ls, g', w')
     \<and> timeline g' = Some c \<and> 2 \<notin> set (fence_list c)"
  using fence_signalled_in_time [OF demo_contract demo_fresh demo_pending_rel, of 2 2 demo_kernel "[6]" "[]"]
  by (auto simp: window_def)

end
