(* ===== verification/Sde_Irq_Map.thy ===== *)
theory Sde_Irq_Map
  imports Sde_Prelude
begin

section \<open>The table of interrupts\<close>

text \<open>
  \<^verbatim>\<open>sde_irq_map\<close> of \<^verbatim>\<open>msm/sde/sde_hw_interrupts.c\<close>: for each interrupt index the kind of interrupt, the
  hardware instance it belongs to, its bit in the status register, and the position of that
  register among those of the target, \<open>-1\<close> until it is known. Each block of 32 indices belongs to one
  interrupt register, in the order of \<^verbatim>\<open>enum sde_intr_enum\<close>. Instance numbers are the values of the
  enumerations of \<^verbatim>\<open>sde_hw_mdss.h\<close>; \<open>BIT n\<close> is the value of the \<^verbatim>\<open>SDE_INTR_\<close> macro of the entry.
\<close>

datatype sde_intr_type =
    SDE_IRQ_TYPE_WB_ROT_COMP | SDE_IRQ_TYPE_WB_WFD_COMP | SDE_IRQ_TYPE_PING_PONG_COMP
  | SDE_IRQ_TYPE_PING_PONG_RD_PTR | SDE_IRQ_TYPE_PING_PONG_WR_PTR | SDE_IRQ_TYPE_PING_PONG_AUTO_REF
  | SDE_IRQ_TYPE_PING_PONG_TEAR_CHECK | SDE_IRQ_TYPE_PING_PONG_TE_CHECK | SDE_IRQ_TYPE_INTF_UNDER_RUN
  | SDE_IRQ_TYPE_INTF_VSYNC | SDE_IRQ_TYPE_CWB_OVERFLOW | SDE_IRQ_TYPE_HIST_VIG_DONE
  | SDE_IRQ_TYPE_HIST_VIG_RSTSEQ | SDE_IRQ_TYPE_HIST_DSPP_DONE | SDE_IRQ_TYPE_HIST_DSPP_RSTSEQ
  | SDE_IRQ_TYPE_WD_TIMER | SDE_IRQ_TYPE_SFI_VIDEO_IN | SDE_IRQ_TYPE_SFI_VIDEO_OUT
  | SDE_IRQ_TYPE_SFI_CMD_0_IN | SDE_IRQ_TYPE_SFI_CMD_0_OUT | SDE_IRQ_TYPE_SFI_CMD_1_IN
  | SDE_IRQ_TYPE_SFI_CMD_1_OUT | SDE_IRQ_TYPE_SFI_CMD_2_IN | SDE_IRQ_TYPE_SFI_CMD_2_OUT
  | SDE_IRQ_TYPE_PROG_LINE | SDE_IRQ_TYPE_AD4_BL_DONE | SDE_IRQ_TYPE_CTL_START
  | SDE_IRQ_TYPE_INTF_TEAR_RD_PTR | SDE_IRQ_TYPE_INTF_TEAR_WR_PTR | SDE_IRQ_TYPE_INTF_TEAR_AUTO_REF
  | SDE_IRQ_TYPE_INTF_TEAR_TEAR_CHECK | SDE_IRQ_TYPE_INTF_TEAR_TE_CHECK | SDE_IRQ_TYPE_ROI_MISR
  | SDE_IRQ_TYPE_RESERVED

record sde_irq_type =
  intr_type :: sde_intr_type
  instance_idx :: u32
  irq_mask :: u32
  reg_idx :: int

abbreviation WB_0 :: u32 where "WB_0 \<equiv> 1"
abbreviation WB_1 :: u32 where "WB_1 \<equiv> 2"
abbreviation WD_TIMER_0 :: u32 where "WD_TIMER_0 \<equiv> 1"
abbreviation WD_TIMER_1 :: u32 where "WD_TIMER_1 \<equiv> 2"
abbreviation WB_2 :: u32 where "WB_2 \<equiv> 3"
abbreviation WD_TIMER_2 :: u32 where "WD_TIMER_2 \<equiv> 3"
abbreviation WD_TIMER_3 :: u32 where "WD_TIMER_3 \<equiv> 4"
abbreviation WD_TIMER_4 :: u32 where "WD_TIMER_4 \<equiv> 5"
abbreviation PINGPONG_0 :: u32 where "PINGPONG_0 \<equiv> 1"
abbreviation PINGPONG_1 :: u32 where "PINGPONG_1 \<equiv> 2"
abbreviation PINGPONG_2 :: u32 where "PINGPONG_2 \<equiv> 3"
abbreviation PINGPONG_3 :: u32 where "PINGPONG_3 \<equiv> 4"
abbreviation INTF_4 :: u32 where "INTF_4 \<equiv> 5"
abbreviation INTF_5 :: u32 where "INTF_5 \<equiv> 6"
abbreviation INTF_0 :: u32 where "INTF_0 \<equiv> 1"
abbreviation INTF_1 :: u32 where "INTF_1 \<equiv> 2"
abbreviation INTF_2 :: u32 where "INTF_2 \<equiv> 3"
abbreviation INTF_3 :: u32 where "INTF_3 \<equiv> 4"
abbreviation PINGPONG_S0 :: u32 where "PINGPONG_S0 \<equiv> 7"
abbreviation CWB_1 :: u32 where "CWB_1 \<equiv> 2"
abbreviation CTL_0 :: u32 where "CTL_0 \<equiv> 1"
abbreviation CTL_1 :: u32 where "CTL_1 \<equiv> 2"
abbreviation CTL_2 :: u32 where "CTL_2 \<equiv> 3"
abbreviation CTL_3 :: u32 where "CTL_3 \<equiv> 4"
abbreviation CTL_4 :: u32 where "CTL_4 \<equiv> 5"
abbreviation CTL_5 :: u32 where "CTL_5 \<equiv> 6"
abbreviation CWB_2 :: u32 where "CWB_2 \<equiv> 3"
abbreviation CWB_3 :: u32 where "CWB_3 \<equiv> 4"
abbreviation CWB_4 :: u32 where "CWB_4 \<equiv> 5"
abbreviation CWB_5 :: u32 where "CWB_5 \<equiv> 6"
abbreviation PINGPONG_4 :: u32 where "PINGPONG_4 \<equiv> 5"
abbreviation PINGPONG_5 :: u32 where "PINGPONG_5 \<equiv> 6"
abbreviation SSPP_VIG0 :: u32 where "SSPP_VIG0 \<equiv> 1"
abbreviation SSPP_VIG1 :: u32 where "SSPP_VIG1 \<equiv> 2"
abbreviation SSPP_VIG2 :: u32 where "SSPP_VIG2 \<equiv> 3"
abbreviation SSPP_VIG3 :: u32 where "SSPP_VIG3 \<equiv> 4"
abbreviation DSPP_0 :: u32 where "DSPP_0 \<equiv> 1"
abbreviation DSPP_1 :: u32 where "DSPP_1 \<equiv> 2"
abbreviation DSPP_2 :: u32 where "DSPP_2 \<equiv> 3"
abbreviation DSPP_3 :: u32 where "DSPP_3 \<equiv> 4"
abbreviation ROI_MISR_0 :: u32 where "ROI_MISR_0 \<equiv> 1"
abbreviation ROI_MISR_1 :: u32 where "ROI_MISR_1 \<equiv> 2"
abbreviation ROI_MISR_2 :: u32 where "ROI_MISR_2 \<equiv> 3"
abbreviation ROI_MISR_3 :: u32 where "ROI_MISR_3 \<equiv> 4"
abbreviation ROI_MISR_4 :: u32 where "ROI_MISR_4 \<equiv> 5"
abbreviation ROI_MISR_5 :: u32 where "ROI_MISR_5 \<equiv> 6"

definition BIT :: "nat \<Rightarrow> u32" where
  "BIT n = push_bit n 1"

definition irq :: "sde_intr_type \<Rightarrow> u32 \<Rightarrow> u32 \<Rightarrow> int \<Rightarrow> sde_irq_type" where
  "irq t i m r = \<lparr>intr_type = t, instance_idx = i, irq_mask = m, reg_idx = r\<rparr>"

definition reserved :: "nat \<Rightarrow> sde_irq_type list" where
  "reserved n = replicate n (irq SDE_IRQ_TYPE_RESERVED 0 0 (- 1))"

definition irq_map_intr :: "sde_irq_type list" where
  "irq_map_intr =
     [irq SDE_IRQ_TYPE_WB_ROT_COMP WB_0 (BIT 0) (- 1),
      irq SDE_IRQ_TYPE_WB_ROT_COMP WB_1 (BIT 1) 0,
      irq SDE_IRQ_TYPE_WD_TIMER WD_TIMER_0 (BIT 2) (- 1),
      irq SDE_IRQ_TYPE_WD_TIMER WD_TIMER_1 (BIT 3) (- 1),
      irq SDE_IRQ_TYPE_WB_WFD_COMP WB_2 (BIT 4) (- 1),
      irq SDE_IRQ_TYPE_WD_TIMER WD_TIMER_2 (BIT 5) (- 1),
      irq SDE_IRQ_TYPE_WD_TIMER WD_TIMER_3 (BIT 6) (- 1),
      irq SDE_IRQ_TYPE_WD_TIMER WD_TIMER_4 (BIT 7) (- 1),
      irq SDE_IRQ_TYPE_PING_PONG_COMP PINGPONG_0 (BIT 8) (- 1),
      irq SDE_IRQ_TYPE_PING_PONG_COMP PINGPONG_1 (BIT 9) (- 1),
      irq SDE_IRQ_TYPE_PING_PONG_COMP PINGPONG_2 (BIT 10) (- 1),
      irq SDE_IRQ_TYPE_PING_PONG_COMP PINGPONG_3 (BIT 11) (- 1)] @
     reserved 8 @
     [irq SDE_IRQ_TYPE_INTF_UNDER_RUN INTF_4 (BIT 20) (- 1),
      irq SDE_IRQ_TYPE_INTF_VSYNC INTF_4 (BIT 21) (- 1),
      irq SDE_IRQ_TYPE_INTF_UNDER_RUN INTF_5 (BIT 22) (- 1),
      irq SDE_IRQ_TYPE_INTF_VSYNC INTF_5 (BIT 23) (- 1),
      irq SDE_IRQ_TYPE_INTF_UNDER_RUN INTF_0 (BIT 24) (- 1),
      irq SDE_IRQ_TYPE_INTF_VSYNC INTF_0 (BIT 25) (- 1),
      irq SDE_IRQ_TYPE_INTF_UNDER_RUN INTF_1 (BIT 26) (- 1),
      irq SDE_IRQ_TYPE_INTF_VSYNC INTF_1 (BIT 27) (- 1),
      irq SDE_IRQ_TYPE_INTF_UNDER_RUN INTF_2 (BIT 28) (- 1),
      irq SDE_IRQ_TYPE_INTF_VSYNC INTF_2 (BIT 29) (- 1),
      irq SDE_IRQ_TYPE_INTF_UNDER_RUN INTF_3 (BIT 30) (- 1),
      irq SDE_IRQ_TYPE_INTF_VSYNC INTF_3 (BIT 31) (- 1)]"

definition irq_map_intr2 :: "sde_irq_type list" where
  "irq_map_intr2 =
     [irq SDE_IRQ_TYPE_PING_PONG_AUTO_REF PINGPONG_S0 (BIT 0) (- 1)] @
     reserved 3 @
     [irq SDE_IRQ_TYPE_PING_PONG_WR_PTR PINGPONG_S0 (BIT 4) (- 1)] @
     reserved 2 @
     [irq SDE_IRQ_TYPE_CWB_OVERFLOW CWB_1 (BIT 8) (- 1),
      irq SDE_IRQ_TYPE_PING_PONG_RD_PTR PINGPONG_S0 (BIT 8) (- 1),
      irq SDE_IRQ_TYPE_CTL_START CTL_0 (BIT 9) (- 1),
      irq SDE_IRQ_TYPE_CTL_START CTL_1 (BIT 10) (- 1),
      irq SDE_IRQ_TYPE_CTL_START CTL_2 (BIT 11) (- 1),
      irq SDE_IRQ_TYPE_CTL_START CTL_3 (BIT 12) (- 1),
      irq SDE_IRQ_TYPE_CTL_START CTL_4 (BIT 13) (- 1),
      irq SDE_IRQ_TYPE_CTL_START CTL_5 (BIT 23) (- 1),
      irq SDE_IRQ_TYPE_CWB_OVERFLOW CWB_2 (BIT 14) (- 1),
      irq SDE_IRQ_TYPE_CWB_OVERFLOW CWB_3 (BIT 15) (- 1),
      irq SDE_IRQ_TYPE_PING_PONG_TEAR_CHECK PINGPONG_0 (BIT 16) (- 1),
      irq SDE_IRQ_TYPE_PING_PONG_TEAR_CHECK PINGPONG_1 (BIT 17) (- 1),
      irq SDE_IRQ_TYPE_PING_PONG_TEAR_CHECK PINGPONG_2 (BIT 18) (- 1),
      irq SDE_IRQ_TYPE_PING_PONG_TEAR_CHECK PINGPONG_3 (BIT 19) (- 1),
      irq SDE_IRQ_TYPE_CWB_OVERFLOW CWB_4 (BIT 20) (- 1),
      irq SDE_IRQ_TYPE_CWB_OVERFLOW CWB_5 (BIT 21) (- 1),
      irq SDE_IRQ_TYPE_PING_PONG_TEAR_CHECK PINGPONG_S0 (BIT 22) (- 1),
      irq SDE_IRQ_TYPE_PING_PONG_TE_CHECK PINGPONG_0 (BIT 24) (- 1),
      irq SDE_IRQ_TYPE_PING_PONG_TE_CHECK PINGPONG_1 (BIT 25) (- 1),
      irq SDE_IRQ_TYPE_PING_PONG_TE_CHECK PINGPONG_2 (BIT 26) (- 1),
      irq SDE_IRQ_TYPE_PING_PONG_TE_CHECK PINGPONG_3 (BIT 27) (- 1),
      irq SDE_IRQ_TYPE_PING_PONG_TE_CHECK PINGPONG_S0 (BIT 28) (- 1)] @
     reserved 1 @
     [irq SDE_IRQ_TYPE_PING_PONG_COMP PINGPONG_4 (BIT 30) (- 1),
      irq SDE_IRQ_TYPE_PING_PONG_COMP PINGPONG_5 (BIT 31) (- 1)]"

definition irq_map_hist :: "sde_irq_type list" where
  "irq_map_hist =
     [irq SDE_IRQ_TYPE_HIST_VIG_DONE SSPP_VIG0 (BIT 0) (- 1),
      irq SDE_IRQ_TYPE_HIST_VIG_RSTSEQ SSPP_VIG0 (BIT 1) (- 1)] @
     reserved 2 @
     [irq SDE_IRQ_TYPE_HIST_VIG_DONE SSPP_VIG1 (BIT 4) (- 1),
      irq SDE_IRQ_TYPE_HIST_VIG_RSTSEQ SSPP_VIG1 (BIT 5) (- 1)] @
     reserved 2 @
     [irq SDE_IRQ_TYPE_HIST_VIG_DONE SSPP_VIG2 (BIT 8) (- 1),
      irq SDE_IRQ_TYPE_HIST_VIG_RSTSEQ SSPP_VIG2 (BIT 9) (- 1),
      irq SDE_IRQ_TYPE_HIST_VIG_DONE SSPP_VIG3 (BIT 10) (- 1),
      irq SDE_IRQ_TYPE_HIST_VIG_RSTSEQ SSPP_VIG3 (BIT 11) (- 1),
      irq SDE_IRQ_TYPE_HIST_DSPP_DONE DSPP_0 (BIT 12) (- 1),
      irq SDE_IRQ_TYPE_HIST_DSPP_RSTSEQ DSPP_0 (BIT 13) (- 1)] @
     reserved 2 @
     [irq SDE_IRQ_TYPE_HIST_DSPP_DONE DSPP_1 (BIT 16) (- 1),
      irq SDE_IRQ_TYPE_HIST_DSPP_RSTSEQ DSPP_1 (BIT 17) (- 1)] @
     reserved 2 @
     [irq SDE_IRQ_TYPE_HIST_DSPP_DONE DSPP_2 (BIT 20) (- 1),
      irq SDE_IRQ_TYPE_HIST_DSPP_RSTSEQ DSPP_2 (BIT 21) (- 1),
      irq SDE_IRQ_TYPE_HIST_DSPP_DONE DSPP_3 (BIT 22) (- 1),
      irq SDE_IRQ_TYPE_HIST_DSPP_RSTSEQ DSPP_3 (BIT 23) (- 1)] @
     reserved 8"

definition irq_map_intf_0 :: "sde_irq_type list" where
  "irq_map_intf_0 =
     [irq SDE_IRQ_TYPE_SFI_VIDEO_IN INTF_0 (BIT 0) (- 1),
      irq SDE_IRQ_TYPE_SFI_VIDEO_OUT INTF_0 (BIT 1) (- 1),
      irq SDE_IRQ_TYPE_SFI_CMD_0_IN INTF_0 (BIT 2) (- 1),
      irq SDE_IRQ_TYPE_SFI_CMD_0_OUT INTF_0 (BIT 3) (- 1),
      irq SDE_IRQ_TYPE_SFI_CMD_1_IN INTF_0 (BIT 4) (- 1),
      irq SDE_IRQ_TYPE_SFI_CMD_1_OUT INTF_0 (BIT 5) (- 1),
      irq SDE_IRQ_TYPE_SFI_CMD_2_IN INTF_0 (BIT 6) (- 1),
      irq SDE_IRQ_TYPE_SFI_CMD_2_OUT INTF_0 (BIT 7) (- 1),
      irq SDE_IRQ_TYPE_PROG_LINE INTF_0 (BIT 8) (- 1)] @
     reserved 23"

definition irq_map_intf_1 :: "sde_irq_type list" where
  "irq_map_intf_1 =
     [irq SDE_IRQ_TYPE_SFI_VIDEO_IN INTF_1 (BIT 0) (- 1),
      irq SDE_IRQ_TYPE_SFI_VIDEO_OUT INTF_1 (BIT 1) (- 1),
      irq SDE_IRQ_TYPE_SFI_CMD_0_IN INTF_1 (BIT 2) (- 1),
      irq SDE_IRQ_TYPE_SFI_CMD_0_OUT INTF_1 (BIT 3) (- 1),
      irq SDE_IRQ_TYPE_SFI_CMD_1_IN INTF_1 (BIT 4) (- 1),
      irq SDE_IRQ_TYPE_SFI_CMD_1_OUT INTF_1 (BIT 5) (- 1),
      irq SDE_IRQ_TYPE_SFI_CMD_2_IN INTF_1 (BIT 6) (- 1),
      irq SDE_IRQ_TYPE_SFI_CMD_2_OUT INTF_1 (BIT 7) (- 1),
      irq SDE_IRQ_TYPE_PROG_LINE INTF_1 (BIT 8) (- 1)] @
     reserved 23"

definition irq_map_intf_2 :: "sde_irq_type list" where
  "irq_map_intf_2 =
     [irq SDE_IRQ_TYPE_SFI_VIDEO_IN INTF_2 (BIT 0) (- 1),
      irq SDE_IRQ_TYPE_SFI_VIDEO_OUT INTF_2 (BIT 1) (- 1),
      irq SDE_IRQ_TYPE_SFI_CMD_0_IN INTF_2 (BIT 2) (- 1),
      irq SDE_IRQ_TYPE_SFI_CMD_0_OUT INTF_2 (BIT 3) (- 1),
      irq SDE_IRQ_TYPE_SFI_CMD_1_IN INTF_2 (BIT 4) (- 1),
      irq SDE_IRQ_TYPE_SFI_CMD_1_OUT INTF_2 (BIT 5) (- 1),
      irq SDE_IRQ_TYPE_SFI_CMD_2_IN INTF_2 (BIT 6) (- 1),
      irq SDE_IRQ_TYPE_SFI_CMD_2_OUT INTF_2 (BIT 7) (- 1),
      irq SDE_IRQ_TYPE_PROG_LINE INTF_2 (BIT 8) (- 1)] @
     reserved 23"

definition irq_map_intf_3 :: "sde_irq_type list" where
  "irq_map_intf_3 =
     [irq SDE_IRQ_TYPE_SFI_VIDEO_IN INTF_3 (BIT 0) (- 1),
      irq SDE_IRQ_TYPE_SFI_VIDEO_OUT INTF_3 (BIT 1) (- 1),
      irq SDE_IRQ_TYPE_SFI_CMD_0_IN INTF_3 (BIT 2) (- 1),
      irq SDE_IRQ_TYPE_SFI_CMD_0_OUT INTF_3 (BIT 3) (- 1),
      irq SDE_IRQ_TYPE_SFI_CMD_1_IN INTF_3 (BIT 4) (- 1),
      irq SDE_IRQ_TYPE_SFI_CMD_1_OUT INTF_3 (BIT 5) (- 1),
      irq SDE_IRQ_TYPE_SFI_CMD_2_IN INTF_3 (BIT 6) (- 1),
      irq SDE_IRQ_TYPE_SFI_CMD_2_OUT INTF_3 (BIT 7) (- 1),
      irq SDE_IRQ_TYPE_PROG_LINE INTF_3 (BIT 8) (- 1)] @
     reserved 23"

definition irq_map_intf_4 :: "sde_irq_type list" where
  "irq_map_intf_4 =
     [irq SDE_IRQ_TYPE_SFI_VIDEO_IN INTF_4 (BIT 0) (- 1),
      irq SDE_IRQ_TYPE_SFI_VIDEO_OUT INTF_4 (BIT 1) (- 1),
      irq SDE_IRQ_TYPE_SFI_CMD_0_IN INTF_4 (BIT 2) (- 1),
      irq SDE_IRQ_TYPE_SFI_CMD_0_OUT INTF_4 (BIT 3) (- 1),
      irq SDE_IRQ_TYPE_SFI_CMD_1_IN INTF_4 (BIT 4) (- 1),
      irq SDE_IRQ_TYPE_SFI_CMD_1_OUT INTF_4 (BIT 5) (- 1),
      irq SDE_IRQ_TYPE_SFI_CMD_2_IN INTF_4 (BIT 6) (- 1),
      irq SDE_IRQ_TYPE_SFI_CMD_2_OUT INTF_4 (BIT 7) (- 1),
      irq SDE_IRQ_TYPE_PROG_LINE INTF_4 (BIT 8) (- 1)] @
     reserved 23"

definition irq_map_ad4_0 :: "sde_irq_type list" where
  "irq_map_ad4_0 =
     [irq SDE_IRQ_TYPE_AD4_BL_DONE DSPP_0 (BIT 0) (- 1)] @
     reserved 31"

definition irq_map_ad4_1 :: "sde_irq_type list" where
  "irq_map_ad4_1 =
     [irq SDE_IRQ_TYPE_AD4_BL_DONE DSPP_1 (BIT 0) (- 1)] @
     reserved 31"

definition irq_map_intf_tear_1 :: "sde_irq_type list" where
  "irq_map_intf_tear_1 =
     [irq SDE_IRQ_TYPE_INTF_TEAR_AUTO_REF INTF_1 (BIT 0) (- 1),
      irq SDE_IRQ_TYPE_INTF_TEAR_WR_PTR INTF_1 (BIT 1) (- 1),
      irq SDE_IRQ_TYPE_INTF_TEAR_RD_PTR INTF_1 (BIT 2) (- 1),
      irq SDE_IRQ_TYPE_INTF_TEAR_TEAR_CHECK INTF_1 (BIT 4) (- 1)] @
     reserved 28"

definition irq_map_intf_tear_2 :: "sde_irq_type list" where
  "irq_map_intf_tear_2 =
     [irq SDE_IRQ_TYPE_INTF_TEAR_AUTO_REF INTF_2 (BIT 0) (- 1),
      irq SDE_IRQ_TYPE_INTF_TEAR_WR_PTR INTF_2 (BIT 1) (- 1),
      irq SDE_IRQ_TYPE_INTF_TEAR_RD_PTR INTF_2 (BIT 2) (- 1),
      irq SDE_IRQ_TYPE_INTF_TEAR_TEAR_CHECK INTF_2 (BIT 4) (- 1)] @
     reserved 28"

definition irq_map_roi_misr_0 :: "sde_irq_type list" where
  "irq_map_roi_misr_0 =
     [irq SDE_IRQ_TYPE_ROI_MISR ROI_MISR_0 (BIT 0) (- 1),
      irq SDE_IRQ_TYPE_ROI_MISR ROI_MISR_0 (BIT 1) (- 1),
      irq SDE_IRQ_TYPE_ROI_MISR ROI_MISR_0 (BIT 2) (- 1),
      irq SDE_IRQ_TYPE_ROI_MISR ROI_MISR_0 (BIT 3) (- 1)] @
     reserved 28"

definition irq_map_roi_misr_1 :: "sde_irq_type list" where
  "irq_map_roi_misr_1 =
     [irq SDE_IRQ_TYPE_ROI_MISR ROI_MISR_1 (BIT 0) (- 1),
      irq SDE_IRQ_TYPE_ROI_MISR ROI_MISR_1 (BIT 1) (- 1),
      irq SDE_IRQ_TYPE_ROI_MISR ROI_MISR_1 (BIT 2) (- 1),
      irq SDE_IRQ_TYPE_ROI_MISR ROI_MISR_1 (BIT 3) (- 1)] @
     reserved 28"

definition irq_map_roi_misr_2 :: "sde_irq_type list" where
  "irq_map_roi_misr_2 =
     [irq SDE_IRQ_TYPE_ROI_MISR ROI_MISR_2 (BIT 0) (- 1),
      irq SDE_IRQ_TYPE_ROI_MISR ROI_MISR_2 (BIT 1) (- 1),
      irq SDE_IRQ_TYPE_ROI_MISR ROI_MISR_2 (BIT 2) (- 1),
      irq SDE_IRQ_TYPE_ROI_MISR ROI_MISR_2 (BIT 3) (- 1)] @
     reserved 28"

definition irq_map_roi_misr_3 :: "sde_irq_type list" where
  "irq_map_roi_misr_3 =
     [irq SDE_IRQ_TYPE_ROI_MISR ROI_MISR_3 (BIT 0) (- 1),
      irq SDE_IRQ_TYPE_ROI_MISR ROI_MISR_3 (BIT 1) (- 1),
      irq SDE_IRQ_TYPE_ROI_MISR ROI_MISR_3 (BIT 2) (- 1),
      irq SDE_IRQ_TYPE_ROI_MISR ROI_MISR_3 (BIT 3) (- 1)] @
     reserved 28"

definition irq_map_roi_misr_4 :: "sde_irq_type list" where
  "irq_map_roi_misr_4 =
     [irq SDE_IRQ_TYPE_ROI_MISR ROI_MISR_4 (BIT 0) (- 1),
      irq SDE_IRQ_TYPE_ROI_MISR ROI_MISR_4 (BIT 1) (- 1),
      irq SDE_IRQ_TYPE_ROI_MISR ROI_MISR_4 (BIT 2) (- 1),
      irq SDE_IRQ_TYPE_ROI_MISR ROI_MISR_4 (BIT 3) (- 1)] @
     reserved 28"

definition irq_map_roi_misr_5 :: "sde_irq_type list" where
  "irq_map_roi_misr_5 =
     [irq SDE_IRQ_TYPE_ROI_MISR ROI_MISR_5 (BIT 0) (- 1),
      irq SDE_IRQ_TYPE_ROI_MISR ROI_MISR_5 (BIT 1) (- 1),
      irq SDE_IRQ_TYPE_ROI_MISR ROI_MISR_5 (BIT 2) (- 1),
      irq SDE_IRQ_TYPE_ROI_MISR ROI_MISR_5 (BIT 3) (- 1)] @
     reserved 28"

definition sde_irq_map :: "sde_irq_type list" where
  "sde_irq_map = irq_map_intr @ irq_map_intr2 @ irq_map_hist @ irq_map_intf_0 @ irq_map_intf_1 @ irq_map_intf_2 @
     irq_map_intf_3 @ irq_map_intf_4 @ irq_map_ad4_0 @ irq_map_ad4_1 @ irq_map_intf_tear_1 @ irq_map_intf_tear_2 @
     irq_map_roi_misr_0 @ irq_map_roi_misr_1 @ irq_map_roi_misr_2 @ irq_map_roi_misr_3 @ irq_map_roi_misr_4 @ irq_map_roi_misr_5"

lemmas irq_map_defs = irq_map_intr_def irq_map_intr2_def irq_map_hist_def irq_map_intf_0_def irq_map_intf_1_def irq_map_intf_2_def irq_map_intf_3_def irq_map_intf_4_def irq_map_ad4_0_def irq_map_ad4_1_def irq_map_intf_tear_1_def irq_map_intf_tear_2_def irq_map_roi_misr_0_def irq_map_roi_misr_1_def irq_map_roi_misr_2_def irq_map_roi_misr_3_def irq_map_roi_misr_4_def irq_map_roi_misr_5_def

end
