(* ===== verification/Sde_Hw_Intr.thy ===== *)
theory Sde_Hw_Intr
  imports Sde_Irq_Map
begin

section \<open>Interrupt registers: model\<close>

text \<open>
  \<^verbatim>\<open>msm/sde/sde_hw_interrupts.c\<close>: the driver's access to the interrupt registers. Registers are
  read and written through their offset; what a read returns comes from the environment, and both
  kinds of access are recorded, as are the callbacks of interrupts. Memory barriers, the spinlock
  and messages have no counterpart. The table \<^verbatim>\<open>sde_irq_map\<close> is a global variable that
  initialisation changes, so the operations take it as an argument. A null handle is \<open>None\<close>, and the
  outer option is \<open>None\<close> where an array is accessed at an index that may be out of its bounds. The
  loops over all registers run over arrays that were allocated with \<^verbatim>\<open>sde_irq_size\<close> elements.
\<close>

datatype irq_call =
    Reg_write u32 u32
  | Reg_read u32
  | Callback nat int
  | Power_resource_enable bool

type_synonym irq_trace = "irq_call trace"
type_synonym irq_env = "irq_call env"

record sde_intr_reg =
  clr_off :: u32
  en_off :: u32
  status_off :: u32
  sde_irq_idx :: int

record sde_hw_intr =
  cache_irq_mask :: "u32 list"
  save_irq_status :: "u32 list"
  irq_idx_tbl_size :: nat
  sde_irq_size :: nat
  sde_irq_tbl :: "sde_intr_reg list"

definition reg_write :: "u32 \<Rightarrow> u32 \<Rightarrow> irq_trace \<Rightarrow> irq_trace" where
  "reg_write off val w = vcall (Reg_write off val) w"

definition reg_read :: "irq_env \<Rightarrow> u32 \<Rightarrow> irq_trace \<Rightarrow> u32 \<times> irq_trace" where
  "reg_read env off w = (let (v, w) = ext env (Reg_read off) w in (word_of_int v, w))"

subsection \<open>Looking up an interrupt\<close>

fun irqidx_loop :: "sde_irq_type list \<Rightarrow> sde_intr_type \<Rightarrow> u32 \<Rightarrow> int \<Rightarrow> int" where
  "irqidx_loop [] t inst i = - EINVAL"
| "irqidx_loop (e # es) t inst i =
     (if t = intr_type e \<and> inst = instance_idx e then i else irqidx_loop es t inst (i + 1))"

definition sde_hw_intr_irqidx_lookup :: "sde_irq_type list \<Rightarrow> sde_intr_type \<Rightarrow> u32 \<Rightarrow> int" where
  "sde_hw_intr_irqidx_lookup im t inst = irqidx_loop im t inst 0"

subsection \<open>Enabling and disabling an interrupt\<close>

definition sde_hw_intr_set_mask :: "sde_hw_intr option \<Rightarrow> u32 \<Rightarrow> u32 \<Rightarrow> irq_trace \<Rightarrow> irq_trace" where
  "sde_hw_intr_set_mask intr off m w = (if intr = None then w else reg_write off m w)"

text \<open>
  The checks that the operations share: the index must be in the table, and the register position
  must be between 0 and the number of registers, inclusively.
\<close>

definition irq_entry :: "sde_irq_type list \<Rightarrow> sde_hw_intr \<Rightarrow> int \<Rightarrow> sde_irq_type option" where
  "irq_entry im d irq_idx =
     (if irq_idx < 0 \<or> irq_idx \<ge> int (length im) then None
      else let e = im ! nat irq_idx in
           if reg_idx e < 0 \<or> reg_idx e > int (sde_irq_size d) then None else Some e)"

definition sde_hw_intr_enable_irq ::
    "sde_irq_type list \<Rightarrow> sde_hw_intr option \<Rightarrow> int \<Rightarrow> irq_trace \<Rightarrow> (int \<times> sde_hw_intr option \<times> irq_trace) option" where
  "sde_hw_intr_enable_irq im intr irq_idx w =
     (case intr of
        None \<Rightarrow> Some (- EINVAL, intr, w)
      | Some d \<Rightarrow>
          (case irq_entry im d irq_idx of
             None \<Rightarrow> Some (- EINVAL, intr, w)
           | Some e \<Rightarrow> do {
               let r = nat (reg_idx e);
               reg \<leftarrow> nth_opt (sde_irq_tbl d) r;
               cache \<leftarrow> nth_opt (cache_irq_mask d) r;
               if cache AND irq_mask e \<noteq> 0 then Some (0, intr, w)
               else do {
                 let cache = cache OR irq_mask e;
                 let w = reg_write (clr_off reg) (irq_mask e) w;
                 let w = reg_write (en_off reg) cache w;
                 Some (0, Some (d\<lparr>cache_irq_mask := (cache_irq_mask d)[r := cache]\<rparr>), w)
               }
             }))"

definition sde_hw_intr_disable_irq_nolock ::
    "sde_irq_type list \<Rightarrow> sde_hw_intr option \<Rightarrow> int \<Rightarrow> irq_trace \<Rightarrow> (int \<times> sde_hw_intr option \<times> irq_trace) option" where
  "sde_hw_intr_disable_irq_nolock im intr irq_idx w =
     (case intr of
        None \<Rightarrow> Some (- EINVAL, intr, w)
      | Some d \<Rightarrow>
          (case irq_entry im d irq_idx of
             None \<Rightarrow> Some (- EINVAL, intr, w)
           | Some e \<Rightarrow> do {
               let r = nat (reg_idx e);
               reg \<leftarrow> nth_opt (sde_irq_tbl d) r;
               cache \<leftarrow> nth_opt (cache_irq_mask d) r;
               if cache AND irq_mask e = 0 then Some (0, intr, w)
               else do {
                 let cache = cache AND NOT (irq_mask e);
                 let w = reg_write (en_off reg) cache w;
                 let w = reg_write (clr_off reg) (irq_mask e) w;
                 Some (0, Some (d\<lparr>cache_irq_mask := (cache_irq_mask d)[r := cache]\<rparr>), w)
               }
             }))"

definition sde_hw_intr_disable_irq ::
    "sde_irq_type list \<Rightarrow> sde_hw_intr option \<Rightarrow> int \<Rightarrow> irq_trace \<Rightarrow> (int \<times> sde_hw_intr option \<times> irq_trace) option" where
  "sde_hw_intr_disable_irq im intr irq_idx w =
     (if intr = None \<or> irq_idx < 0 \<or> irq_idx \<ge> int (length im) then Some (- EINVAL, intr, w)
      else do {
        (rc, intr, w) \<leftarrow> sde_hw_intr_disable_irq_nolock im intr irq_idx w;
        Some (0, intr, w)
      })"

text \<open>Loops over the registers of the target.\<close>

definition sde_hw_intr_clear_irqs :: "sde_hw_intr option \<Rightarrow> irq_trace \<Rightarrow> int \<times> irq_trace" where
  "sde_hw_intr_clear_irqs intr w =
     (case intr of
        None \<Rightarrow> (- EINVAL, w)
      | Some d \<Rightarrow> (0, fold (\<lambda>reg. reg_write (clr_off reg) 0xffffffff) (take (sde_irq_size d) (sde_irq_tbl d)) w))"

definition sde_hw_intr_disable_irqs :: "sde_hw_intr option \<Rightarrow> irq_trace \<Rightarrow> int \<times> irq_trace" where
  "sde_hw_intr_disable_irqs intr w =
     (case intr of
        None \<Rightarrow> (- EINVAL, w)
      | Some d \<Rightarrow> (0, fold (\<lambda>reg. reg_write (en_off reg) 0) (take (sde_irq_size d) (sde_irq_tbl d)) w))"

definition sde_hw_intr_get_valid_interrupts :: "sde_hw_intr option \<Rightarrow> bool \<Rightarrow> int \<times> u32 option" where
  "sde_hw_intr_get_valid_interrupts intr null_mask =
     (if intr = None \<or> null_mask then (- EINVAL, None)
      else (0, Some (BIT 0 OR BIT 4 OR BIT 5 OR BIT 8 OR BIT 12)))"

definition sde_hw_intr_get_interrupt_sources ::
    "irq_env \<Rightarrow> sde_hw_intr option \<Rightarrow> bool \<Rightarrow> irq_trace \<Rightarrow> int \<times> u32 option \<times> irq_trace" where
  "sde_hw_intr_get_interrupt_sources env intr null_sources w =
     (if intr = None \<or> null_sources then (- EINVAL, None, w)
      else let (v, w) = reg_read env 0x10 w in (0, Some v, w))"

subsection \<open>Reading the status registers\<close>

text \<open>One register: its status is saved, acknowledged, and restricted to the enabled interrupts.\<close>

definition read_status :: "irq_env \<Rightarrow> sde_intr_reg \<Rightarrow> irq_trace \<Rightarrow> u32 \<times> irq_trace" where
  "read_status env reg w =
     (let (status, w) = reg_read env (status_off reg) w;
          (enable_mask, w) = reg_read env (en_off reg) w;
          w = (if status \<noteq> 0 then reg_write (clr_off reg) status w else w) in
      (status AND enable_mask, w))"

fun statuses_loop :: "irq_env \<Rightarrow> sde_intr_reg list \<Rightarrow> irq_trace \<Rightarrow> u32 list \<times> irq_trace" where
  "statuses_loop env [] w = ([], w)"
| "statuses_loop env (reg # regs) w =
     (let (s, w) = read_status env reg w; (ss, w) = statuses_loop env regs w in (s # ss, w))"

definition sde_hw_intr_get_interrupt_statuses ::
    "irq_env \<Rightarrow> sde_hw_intr option \<Rightarrow> irq_trace \<Rightarrow> sde_hw_intr option \<times> irq_trace" where
  "sde_hw_intr_get_interrupt_statuses env intr w =
     (case intr of
        None \<Rightarrow> (None, w)
      | Some d \<Rightarrow> let (ss, w) = statuses_loop env (take (sde_irq_size d) (sde_irq_tbl d)) w in
                 (Some (d\<lparr>save_irq_status := ss @ drop (sde_irq_size d) (save_irq_status d)\<rparr>), w))"

text \<open>Clearing the status of one interrupt, with its own or with another mask.\<close>

definition sde_hw_intr_clear_intr_status_force_mask ::
    "sde_irq_type list \<Rightarrow> sde_hw_intr option \<Rightarrow> int \<Rightarrow> u32 \<Rightarrow> irq_trace \<Rightarrow> irq_trace option" where
  "sde_hw_intr_clear_intr_status_force_mask im intr irq_idx m w =
     (case intr of
        None \<Rightarrow> Some w
      | Some d \<Rightarrow>
          (case irq_entry im d irq_idx of
             None \<Rightarrow> Some w
           | Some e \<Rightarrow> do {
               reg \<leftarrow> nth_opt (sde_irq_tbl d) (nat (reg_idx e));
               Some (reg_write (clr_off reg) m w)
             }))"

text \<open>Without a check of the index, which must be in the table.\<close>

definition sde_hw_intr_clear_intr_status_nolock ::
    "sde_irq_type list \<Rightarrow> sde_hw_intr option \<Rightarrow> int \<Rightarrow> irq_trace \<Rightarrow> irq_trace option" where
  "sde_hw_intr_clear_intr_status_nolock im intr irq_idx w =
     (case intr of
        None \<Rightarrow> Some w
      | Some d \<Rightarrow>
          if irq_idx < 0 \<or> irq_idx \<ge> int (length im) then None
          else (case irq_entry im d irq_idx of
             None \<Rightarrow> Some w
           | Some e \<Rightarrow> do {
               reg \<leftarrow> nth_opt (sde_irq_tbl d) (nat (reg_idx e));
               Some (reg_write (clr_off reg) (irq_mask e) w)
             }))"

definition sde_hw_intr_clear_interrupt_status ::
    "sde_irq_type list \<Rightarrow> sde_hw_intr option \<Rightarrow> int \<Rightarrow> irq_trace \<Rightarrow> irq_trace option" where
  "sde_hw_intr_clear_interrupt_status im intr irq_idx w =
     (if intr = None then Some w else sde_hw_intr_clear_intr_status_nolock im intr irq_idx w)"

definition sde_hw_intr_get_intr_status_nolock ::
    "sde_irq_type list \<Rightarrow> irq_env \<Rightarrow> sde_hw_intr option \<Rightarrow> int \<Rightarrow> bool \<Rightarrow> irq_trace \<Rightarrow> (u32 \<times> irq_trace) option" where
  "sde_hw_intr_get_intr_status_nolock im env intr irq_idx clear w =
     (case intr of
        None \<Rightarrow> Some (0, w)
      | Some d \<Rightarrow>
          (case irq_entry im d irq_idx of
             None \<Rightarrow> Some (0, w)
           | Some e \<Rightarrow> do {
               reg \<leftarrow> nth_opt (sde_irq_tbl d) (nat (reg_idx e));
               let (v, w) = reg_read env (status_off reg) w;
               let s = v AND irq_mask e;
               Some (s, if s \<noteq> 0 \<and> clear then reg_write (clr_off reg) s w else w)
             }))"

definition sde_hw_intr_get_interrupt_status ::
    "sde_irq_type list \<Rightarrow> irq_env \<Rightarrow> sde_hw_intr option \<Rightarrow> int \<Rightarrow> bool \<Rightarrow> irq_trace \<Rightarrow> (u32 \<times> irq_trace) option" where
  "sde_hw_intr_get_interrupt_status im env intr irq_idx clear w =
     sde_hw_intr_get_intr_status_nolock im env intr irq_idx clear w"

definition sde_hw_intr_get_intr_status_nomask ::
    "sde_irq_type list \<Rightarrow> irq_env \<Rightarrow> sde_hw_intr option \<Rightarrow> int \<Rightarrow> irq_trace \<Rightarrow> (u32 \<times> irq_trace) option" where
  "sde_hw_intr_get_intr_status_nomask im env intr irq_idx w =
     (case intr of
        None \<Rightarrow> Some (0, w)
      | Some d \<Rightarrow>
          (case irq_entry im d irq_idx of
             None \<Rightarrow> Some (0, w)
           | Some e \<Rightarrow> do {
               reg \<leftarrow> nth_opt (sde_irq_tbl d) (nat (reg_idx e));
               Some (reg_read env (status_off reg) w)
             }))"

subsection \<open>Dispatching\<close>

text \<open>
  The indices \<open>i\<close>, \<open>i + 1\<close>, ... of the entries of one register. A match calls the callback, which
  changes a state of its own, and removes the mask from the remaining status; the search stops
  when no status bit is left. (With a null callback, which the driver does not use, the code
  clears the status instead: \<open>cb\<close> is then that operation.)
\<close>

fun dispatch_reg ::
    "int \<Rightarrow> (int \<Rightarrow> 's \<Rightarrow> 's option) \<Rightarrow> sde_irq_type list \<Rightarrow> int \<Rightarrow> u32 \<Rightarrow> 's \<Rightarrow> 's option" where
  "dispatch_reg r cb [] i status s = Some s"
| "dispatch_reg r cb (e # es) i status s =
     (if status = 0 then Some s
      else if status AND irq_mask e \<noteq> 0 \<and> reg_idx e = r
      then cb i s \<bind> dispatch_reg r cb es (i + 1) (status AND NOT (irq_mask e))
      else dispatch_reg r cb es (i + 1) status s)"

text \<open>The registers from position \<open>r\<close> on, with their saved status.\<close>

fun dispatch_regs ::
    "sde_irq_type list \<Rightarrow> (int \<Rightarrow> 's \<Rightarrow> 's option) \<Rightarrow> (sde_intr_reg \<times> u32) list \<Rightarrow> int \<Rightarrow> 's \<Rightarrow> 's option" where
  "dispatch_regs im cb [] r s = Some s"
| "dispatch_regs im cb ((reg, status) # rest) r s =
     (if sde_irq_idx reg < 0 \<or> sde_irq_idx reg * 32 \<ge> int (length im) \<or> sde_irq_idx reg * 32 + 32 > int (length im)
      then dispatch_regs im cb rest (r + 1) s
      else dispatch_reg r cb (take 32 (drop (nat (sde_irq_idx reg * 32)) im)) (sde_irq_idx reg * 32) status s
             \<bind> dispatch_regs im cb rest (r + 1))"

definition sde_hw_intr_dispatch_irq ::
    "sde_irq_type list \<Rightarrow> sde_hw_intr option \<Rightarrow> (int \<Rightarrow> 's \<Rightarrow> 's option) \<Rightarrow> 's \<Rightarrow> 's option" where
  "sde_hw_intr_dispatch_irq im intr cb s =
     (case intr of
        None \<Rightarrow> Some s
      | Some d \<Rightarrow> dispatch_regs im cb (take (sde_irq_size d) (zip (sde_irq_tbl d) (save_irq_status d))) 0 s)"

subsection \<open>Initialisation\<close>

text \<open>
  The supported interrupt registers of the target are a bitmap over \<^verbatim>\<open>enum sde_intr_enum\<close>. Each gets
  the next position; its 32 table entries and the table of registers are set accordingly.
\<close>

definition MDSS_INTR_MAX :: nat where "MDSS_INTR_MAX = 18"

definition set_reg_idx :: "nat \<Rightarrow> nat \<Rightarrow> sde_irq_type list \<Rightarrow> sde_irq_type list" where
  "set_reg_idx idx r im = take (32 * idx) im @
     map (\<lambda>e. e\<lparr>reg_idx := int r\<rparr>) (take 32 (drop (32 * idx) im)) @ drop (32 * idx + 32) im"

text \<open>The loop over the registers: the result code, the table and the registers found.\<close>

fun init_loop :: "(nat \<Rightarrow> bool) \<Rightarrow> nat list \<Rightarrow> nat \<Rightarrow> sde_irq_type list \<Rightarrow> sde_intr_reg list \<Rightarrow>
    (int \<times> sde_irq_type list \<times> sde_intr_reg list) option" where
  "init_loop irqs [] r im tbl = Some (0, im, tbl)"
| "init_loop irqs (idx # idxs) r im tbl =
     (if \<not> irqs idx then init_loop irqs idxs r im tbl
      else if 32 * idx + 32 > length im \<or> 32 * idx > length im then Some (- EINVAL, im, tbl)
      else do {
        reg \<leftarrow> nth_opt tbl r;
        init_loop irqs idxs (r + 1) (set_reg_idx idx r im) (tbl[r := reg\<lparr>sde_irq_idx := int idx\<rparr>])
      })"

text \<open>The offsets of the clear, enable and status registers.\<close>

definition intr_offsets :: "int \<Rightarrow> (u32 \<times> u32 \<times> u32) option" where
  "intr_offsets idx =
     (if idx = 0 then Some (0x1018, 0x1010, 0x1014)
      else if idx = 1 then Some (0x102c, 0x1008, 0x100c)
      else if idx = 2 then Some (0x1024, 0x101c, 0x1020)
      else if idx = 3 then Some (0x6B1C8, 0x6B1C0, 0x6B1C4)
      else if idx = 4 then Some (0x6B9C8, 0x6B9C0, 0x6B9C4)
      else if idx = 5 then Some (0x6C1C8, 0x6C1C0, 0x6C1C4)
      else if idx = 6 then Some (0x6C9C8, 0x6C9C0, 0x6C9C4)
      else if idx = 7 then Some (0x6D1C8, 0x6D1C0, 0x6D1C4)
      else if idx = 8 then Some (0x7D424, 0x7D41c, 0x7D420)
      else if idx = 9 then Some (0x7E424, 0x7E41c, 0x7E420)
      else if idx = 10 then Some (0x6E808, 0x6E800, 0x6E804)
      else if idx = 11 then Some (0x6E908, 0x6E900, 0x6E904)
      else if idx = 12 then Some (0x8282C, 0x82824, 0x82828)
      else if idx = 13 then Some (0x8288C, 0x82884, 0x82888)
      else if idx = 14 then Some (0x828EC, 0x828E4, 0x828E8)
      else if idx = 15 then Some (0x8294C, 0x82944, 0x82948)
      else if idx = 16 then Some (0x829AC, 0x829A4, 0x829A8)
      else if idx = 17 then Some (0x82A0C, 0x82A04, 0x82A08)
      else None)"

fun init_sde_irq_tbl :: "sde_intr_reg list \<Rightarrow> int \<times> sde_intr_reg list" where
  "init_sde_irq_tbl [] = (0, [])"
| "init_sde_irq_tbl (reg # regs) =
     (case intr_offsets (sde_irq_idx reg) of
        None \<Rightarrow> (- EINVAL, reg # regs)
      | Some (c, e, s) \<Rightarrow>
          let (rc, regs) = init_sde_irq_tbl regs in
          (rc, reg\<lparr>clr_off := c, en_off := e, status_off := s\<rparr> # regs))"

definition init_irq_tables ::
    "(nat \<Rightarrow> bool) \<Rightarrow> sde_irq_type list \<Rightarrow> sde_intr_reg list \<Rightarrow>
     (int \<times> sde_irq_type list \<times> sde_intr_reg list) option" where
  "init_irq_tables irqs im tbl = do {
     (ret, im, tbl) \<leftarrow> init_loop irqs [0..<MDSS_INTR_MAX] 0 im tbl;
     if ret \<noteq> 0 then Some (ret, im, tbl)
     else let (ret, tbl) = init_sde_irq_tbl tbl in Some (ret, im, tbl)
   }"

text \<open>
  The outcome of the four allocations is \<open>mem 0\<close> to \<open>mem 3\<close>; \<open>has_mdp\<close> is whether the catalog has an
  MDP block, whose offset is not represented. The new table is returned also if there is an error.
\<close>

definition sde_hw_intr_init ::
    "(nat \<Rightarrow> bool) \<Rightarrow> bool \<Rightarrow> bool \<Rightarrow> bool \<Rightarrow> (nat \<Rightarrow> bool) \<Rightarrow> sde_irq_type list \<Rightarrow>
     ((int + sde_hw_intr) \<times> sde_irq_type list) option" where
  "sde_hw_intr_init mem null_addr null_m has_mdp irqs im =
     (if null_addr \<or> null_m then Some (Inl (- EINVAL), im)
      else if \<not> mem 0 then Some (Inl (- ENOMEM), im)
      else if \<not> has_mdp then Some (Inl (- EINVAL), im)
      else let count = length (filter irqs [0..<MDSS_INTR_MAX]) in
      if count = 0 \<or> count > MDSS_INTR_MAX then Some (Inl (- EINVAL), im)
      else if \<not> mem 1 then Some (Inl (- ENOMEM), im)
      else do {
        (ret, im, tbl) \<leftarrow> init_irq_tables irqs im
           (replicate count \<lparr>clr_off = 0, en_off = 0, status_off = 0, sde_irq_idx = 0\<rparr>);
        if ret \<noteq> 0 then Some (Inl ret, im)
        else if \<not> mem 2 \<or> \<not> mem 3 then Some (Inl (- ENOMEM), im)
        else Some (Inr \<lparr>cache_irq_mask = replicate count 0, save_irq_status = replicate count 0,
                         irq_idx_tbl_size = length im, sde_irq_size = count, sde_irq_tbl = tbl\<rparr>, im)
      })"

end
