(* ===== verification/Sde_Core_Irq.thy ===== *)
theory Sde_Core_Irq
  imports Sde_Hw_Intr
begin

section \<open>Interrupt core: model\<close>

text \<open>
  \<^verbatim>\<open>msm/sde/sde_core_irq.c\<close>: clients enable and disable interrupts, counted per index, register
  callbacks, and the interrupt handler dispatches to them. The state is the part of \<^verbatim>\<open>struct sde_kms\<close>
  that belongs to interrupts together with the global table: \<open>None\<close> for a null array. A callback is
  known by its address; \<^verbatim>\<open>list_del_init\<close> takes it out of whichever list it is in. The operations of the
  hardware layer are called directly: the function pointers are set to them by
  \<^verbatim>\<open>__setup_intr_ops\<close>. Counters are atomic variables; they are \<open>int\<close>, far from their limits.
  The allocator and \<^verbatim>\<open>sde_power_resource_enable\<close> belong to the environment. Debugfs is left out.
\<close>

record sde_irq =
  total_irqs :: nat
  irq_cb_tbl :: "nat list list option"
  enable_counts :: "int list option"
  irq_counts :: "int list option"

record sde_kms =
  hw_intr :: "sde_hw_intr option"
  irq_obj :: sde_irq
  irq_map :: "sde_irq_type list"
  enabled_mask :: u64
  irq_domain :: "nat option"

text \<open>An array element at an index that comes from a C \<^verbatim>\<open>int\<close>.\<close>

definition array_at :: "'a list option \<Rightarrow> int \<Rightarrow> 'a option" where
  "array_at xs i = do { xs \<leftarrow> xs; if i < 0 then None else nth_opt xs (nat i) }"

subsection \<open>Enabling and disabling\<close>

definition irq_index_bad :: "sde_kms \<Rightarrow> int \<Rightarrow> bool" where
  "irq_index_bad k irq_idx \<longleftrightarrow>
     irq_idx < 0 \<or> irq_idx \<ge> int (case hw_intr k of None \<Rightarrow> 0 | Some d \<Rightarrow> irq_idx_tbl_size d)"

definition set_count :: "sde_kms \<Rightarrow> int \<Rightarrow> int \<Rightarrow> sde_kms" where
  "set_count k irq_idx n = k\<lparr>irq_obj := (irq_obj k)\<lparr>enable_counts :=
     map_option (\<lambda>cs. cs[nat irq_idx := n]) (enable_counts (irq_obj k))\<rparr>\<rparr>"

definition core_irq_enable :: "sde_kms \<Rightarrow> int \<Rightarrow> irq_trace \<Rightarrow> (int \<times> sde_kms \<times> irq_trace) option" where
  "core_irq_enable k irq_idx w =
     (if hw_intr k = None \<or> enable_counts (irq_obj k) = None \<or> irq_counts (irq_obj k) = None
      then Some (- EINVAL, k, w)
      else if irq_index_bad k irq_idx then Some (- EINVAL, k, w)
      else do {
        n \<leftarrow> array_at (enable_counts (irq_obj k)) irq_idx;
        let k = set_count k irq_idx (n + 1);
        if n + 1 = 1 then do {
          (ret, intr, w) \<leftarrow> sde_hw_intr_enable_irq (irq_map k) (hw_intr k) irq_idx w;
          cbs \<leftarrow> array_at (irq_cb_tbl (irq_obj k)) irq_idx;
          Some (ret, k\<lparr>hw_intr := intr\<rparr>, w)
        } else Some (0, k, w)
      })"

fun irq_loop ::
    "(sde_kms \<Rightarrow> int \<Rightarrow> irq_trace \<Rightarrow> (int \<times> sde_kms \<times> irq_trace) option) \<Rightarrow> int list \<Rightarrow> sde_kms \<Rightarrow> irq_trace \<Rightarrow>
     (int \<times> sde_kms \<times> irq_trace) option" where
  "irq_loop f [] k w = Some (0, k, w)"
| "irq_loop f (i # is) k w = do {
     (ret, k, w) \<leftarrow> f k i w;
     if ret = 0 then irq_loop f is k w else Some (ret, k, w)
   }"

text \<open>
  The list of indices is \<open>None\<close> for a null pointer. The count of the first index is read for a debug
  message before the index has been checked.
\<close>

definition sde_core_irq_enable ::
    "sde_kms option \<Rightarrow> int list option \<Rightarrow> irq_trace \<Rightarrow> (int \<times> sde_kms option \<times> irq_trace) option" where
  "sde_core_irq_enable kms idxs w =
     (case (kms, idxs) of
        (Some k, Some (i # is)) \<Rightarrow> do {
          counts \<leftarrow> array_at (enable_counts (irq_obj k)) i;
          (ret, k, w) \<leftarrow> irq_loop core_irq_enable (i # is) k w;
          Some (ret, Some k, w)
        }
      | _ \<Rightarrow> Some (- EINVAL, kms, w))"

definition core_irq_disable ::
    "(sde_irq_type list \<Rightarrow> sde_hw_intr option \<Rightarrow> int \<Rightarrow> irq_trace \<Rightarrow> (int \<times> sde_hw_intr option \<times> irq_trace) option) \<Rightarrow>
     sde_kms \<Rightarrow> int \<Rightarrow> irq_trace \<Rightarrow> (int \<times> sde_kms \<times> irq_trace) option" where
  "core_irq_disable hw_disable k irq_idx w =
     (if hw_intr k = None \<or> enable_counts (irq_obj k) = None then Some (- EINVAL, k, w)
      else if irq_index_bad k irq_idx then Some (- EINVAL, k, w)
      else do {
        n \<leftarrow> array_at (enable_counts (irq_obj k)) irq_idx;
        let k = set_count k irq_idx (n - 1);
        if n - 1 = 0 then do {
          (ret, intr, w) \<leftarrow> hw_disable (irq_map k) (hw_intr k) irq_idx w;
          Some (ret, k\<lparr>hw_intr := intr\<rparr>, w)
        } else Some (0, k, w)
      })"

definition sde_core_irq_disable ::
    "sde_kms option \<Rightarrow> int list option \<Rightarrow> irq_trace \<Rightarrow> (int \<times> sde_kms option \<times> irq_trace) option" where
  "sde_core_irq_disable kms idxs w =
     (case (kms, idxs) of
        (Some k, Some (i # is)) \<Rightarrow> do {
          counts \<leftarrow> array_at (enable_counts (irq_obj k)) i;
          (ret, k, w) \<leftarrow> irq_loop (core_irq_disable sde_hw_intr_disable_irq) (i # is) k w;
          Some (ret, Some k, w)
        }
      | _ \<Rightarrow> Some (- EINVAL, kms, w))"

definition sde_core_irq_disable_nolock ::
    "sde_kms option \<Rightarrow> int \<Rightarrow> irq_trace \<Rightarrow> (int \<times> sde_kms option \<times> irq_trace) option" where
  "sde_core_irq_disable_nolock kms irq_idx w =
     (case kms of
        None \<Rightarrow> Some (- EINVAL, kms, w)
      | Some k \<Rightarrow> do {
          (ret, k, w) \<leftarrow> core_irq_disable sde_hw_intr_disable_irq_nolock k irq_idx w;
          Some (ret, Some k, w)
        })"

subsection \<open>Queries\<close>

definition sde_core_irq_idx_lookup :: "sde_kms option \<Rightarrow> sde_intr_type \<Rightarrow> u32 \<Rightarrow> int" where
  "sde_core_irq_idx_lookup kms t inst =
     (case kms of
        None \<Rightarrow> - EINVAL
      | Some k \<Rightarrow> if hw_intr k = None then - EINVAL else sde_hw_intr_irqidx_lookup (irq_map k) t inst)"

definition sde_core_irq_read_nolock ::
    "irq_env \<Rightarrow> sde_kms option \<Rightarrow> int \<Rightarrow> bool \<Rightarrow> irq_trace \<Rightarrow> (u32 \<times> irq_trace) option" where
  "sde_core_irq_read_nolock env kms irq_idx clear w =
     (case kms of
        None \<Rightarrow> Some (0, w)
      | Some k \<Rightarrow> if hw_intr k = None \<or> irq_idx < 0 then Some (0, w)
                 else sde_hw_intr_get_intr_status_nolock (irq_map k) env (hw_intr k) irq_idx clear w)"

definition sde_core_irq_read ::
    "irq_env \<Rightarrow> sde_kms option \<Rightarrow> int \<Rightarrow> bool \<Rightarrow> irq_trace \<Rightarrow> (u32 \<times> irq_trace) option" where
  "sde_core_irq_read env kms irq_idx clear w =
     (case kms of
        None \<Rightarrow> Some (0, w)
      | Some k \<Rightarrow> if hw_intr k = None \<or> irq_idx < 0 then Some (0, w)
                 else sde_hw_intr_get_interrupt_status (irq_map k) env (hw_intr k) irq_idx clear w)"

subsection \<open>Callbacks\<close>

text \<open>
  A callback argument is \<open>None\<close> for a null pointer, and otherwise its address and whether its
  function is set. The code reads the table size through a handle that it does not check.
\<close>

definition sde_core_irq_register_callback ::
    "sde_kms option \<Rightarrow> int \<Rightarrow> (nat \<times> bool) option \<Rightarrow> (int \<times> sde_kms option) option" where
  "sde_core_irq_register_callback kms irq_idx cb =
     (case (kms, cb) of
        (Some k, Some (a, True)) \<Rightarrow>
          (case irq_cb_tbl (irq_obj k) of
             None \<Rightarrow> Some (- EINVAL, kms)
           | Some tbl \<Rightarrow> do {
               d \<leftarrow> hw_intr k;
               if irq_index_bad k irq_idx then Some (- EINVAL, kms)
               else do {
                 let tbl = map (removeAll a) tbl;
                 cbs \<leftarrow> nth_opt tbl (nat irq_idx);
                 Some (0, Some (k\<lparr>irq_obj := (irq_obj k)\<lparr>irq_cb_tbl := Some (tbl[nat irq_idx := cbs @ [a]])\<rparr>\<rparr>))
               }
             })
      | _ \<Rightarrow> Some (- EINVAL, kms))"

definition sde_core_irq_unregister_callback ::
    "sde_kms option \<Rightarrow> int \<Rightarrow> (nat \<times> bool) option \<Rightarrow> (int \<times> sde_kms option) option" where
  "sde_core_irq_unregister_callback kms irq_idx cb =
     (case (kms, cb) of
        (Some k, Some (a, True)) \<Rightarrow>
          (case irq_cb_tbl (irq_obj k) of
             None \<Rightarrow> Some (- EINVAL, kms)
           | Some tbl \<Rightarrow> do {
               d \<leftarrow> hw_intr k;
               if irq_index_bad k irq_idx then Some (- EINVAL, kms)
               else do {
                 let tbl = map (removeAll a) tbl;
                 cbs \<leftarrow> nth_opt tbl (nat irq_idx);
                 n \<leftarrow> (if cbs = [] then array_at (enable_counts (irq_obj k)) irq_idx else Some 0);
                 Some (0, Some (k\<lparr>irq_obj := (irq_obj k)\<lparr>irq_cb_tbl := Some tbl\<rparr>\<rparr>))
               }
             })
      | _ \<Rightarrow> Some (- EINVAL, kms))"

text \<open>
  The handler of one interrupt: its counter is increased, the callbacks are called in the order of
  registration, and its status is cleared.
\<close>

definition sde_core_irq_callback_handler ::
    "int \<Rightarrow> sde_kms \<times> irq_trace \<Rightarrow> (sde_kms \<times> irq_trace) option" where
  "sde_core_irq_callback_handler irq_idx s = do {
     let (k, w) = s;
     cbs \<leftarrow> array_at (irq_cb_tbl (irq_obj k)) irq_idx;
     n \<leftarrow> (if cbs = [] then array_at (enable_counts (irq_obj k)) irq_idx else Some 0);
     counts \<leftarrow> irq_counts (irq_obj k);
     c \<leftarrow> array_at (Some counts) irq_idx;
     let k = k\<lparr>irq_obj := (irq_obj k)\<lparr>irq_counts := Some (counts[nat irq_idx := c + 1])\<rparr>\<rparr>;
     let w = fold (\<lambda>a. vcall (Callback a irq_idx)) cbs w;
     d \<leftarrow> hw_intr k;
     w \<leftarrow> sde_hw_intr_clear_intr_status_nolock (irq_map k) (Some d) irq_idx w;
     Some (k, w)
   }"

definition sde_core_irq :: "irq_env \<Rightarrow> sde_kms \<Rightarrow> irq_trace \<Rightarrow> (sde_kms \<times> irq_trace) option" where
  "sde_core_irq env k w = do {
     d \<leftarrow> hw_intr k;
     let (intr, w) = sde_hw_intr_get_interrupt_statuses env (Some d) w;
     sde_hw_intr_dispatch_irq (irq_map k) intr sde_core_irq_callback_handler (k\<lparr>hw_intr := intr\<rparr>, w)
   }"

subsection \<open>Installation\<close>

definition sde_clear_all_irqs :: "sde_kms option \<Rightarrow> irq_trace \<Rightarrow> irq_trace" where
  "sde_clear_all_irqs kms w =
     (case kms of None \<Rightarrow> w | Some k \<Rightarrow> if hw_intr k = None then w else snd (sde_hw_intr_clear_irqs (hw_intr k) w))"

definition sde_disable_all_irqs :: "sde_kms option \<Rightarrow> irq_trace \<Rightarrow> irq_trace" where
  "sde_disable_all_irqs kms w =
     (case kms of None \<Rightarrow> w | Some k \<Rightarrow> if hw_intr k = None then w else snd (sde_hw_intr_disable_irqs (hw_intr k) w))"

text \<open>
  \<open>dev_ok\<close> is whether the drm device and its private data exist; \<open>mem\<close> gives the three allocations.
  If one of them fails, the heads of the callback lists are left uninitialised: the table then has
  no usable list.
\<close>

definition sde_core_irq_preinstall ::
    "irq_env \<Rightarrow> (nat \<Rightarrow> bool) \<Rightarrow> sde_kms option \<Rightarrow> bool \<Rightarrow> irq_trace \<Rightarrow> (sde_kms option \<times> irq_trace) option" where
  "sde_core_irq_preinstall env mem kms dev_ok w =
     (case kms of
        None \<Rightarrow> Some (kms, w)
      | Some k \<Rightarrow>
          if \<not> dev_ok then Some (kms, w)
          else do {
            let (rc, w) = ext env (Power_resource_enable True) w;
            if rc \<noteq> 0 then Some (kms, w)
            else do {
              let w = sde_clear_all_irqs kms w;
              let w = sde_disable_all_irqs kms w;
              let w = snd (ext env (Power_resource_enable False) w);
              d \<leftarrow> hw_intr k;
              let n = irq_idx_tbl_size d;
              Some (Some (k\<lparr>irq_obj := \<lparr>total_irqs = n,
                 irq_cb_tbl = (if mem 0 then Some (if mem 1 \<and> mem 2 then replicate n [] else []) else None),
                 enable_counts = (if mem 1 then Some (replicate n 0) else None),
                 irq_counts = (if mem 2 then Some (replicate n 0) else None)\<rparr>\<rparr>), w)
            }
          })"

definition sde_core_irq_uninstall ::
    "irq_env \<Rightarrow> sde_kms option \<Rightarrow> bool \<Rightarrow> irq_trace \<Rightarrow> (sde_kms option \<times> irq_trace) option" where
  "sde_core_irq_uninstall env kms dev_ok w =
     (case kms of
        None \<Rightarrow> Some (kms, w)
      | Some k \<Rightarrow>
          if \<not> dev_ok then Some (kms, w)
          else do {
            let (rc, w) = ext env (Power_resource_enable True) w;
            if rc \<noteq> 0 then Some (kms, w)
            else do {
              _ \<leftarrow> those (map (\<lambda>i. do { n \<leftarrow> array_at (enable_counts (irq_obj k)) (int i);
                  if n \<noteq> 0 then Some () else do { cbs \<leftarrow> array_at (irq_cb_tbl (irq_obj k)) (int i); Some () } })
                [0..<total_irqs (irq_obj k)]);
              let w = sde_clear_all_irqs kms w;
              let w = sde_disable_all_irqs kms w;
              let w = snd (ext env (Power_resource_enable False) w);
              Some (Some (k\<lparr>irq_obj := \<lparr>total_irqs = 0, irq_cb_tbl = None, enable_counts = None, irq_counts = None\<rparr>\<rparr>), w)
            }
          })"

subsection \<open>The interrupt domain\<close>

text \<open>\<^verbatim>\<open>clear_bit\<close> and \<^verbatim>\<open>set_bit\<close> on the 64-bit mask of enabled interrupts of the domain.\<close>

definition sde_core_irq_mask :: "sde_kms \<Rightarrow> nat \<Rightarrow> sde_kms" where
  "sde_core_irq_mask k hwirq = k\<lparr>enabled_mask := unset_bit hwirq (enabled_mask k)\<rparr>"

definition sde_core_irq_unmask :: "sde_kms \<Rightarrow> nat \<Rightarrow> sde_kms" where
  "sde_core_irq_unmask k hwirq = k\<lparr>enabled_mask := set_bit hwirq (enabled_mask k)\<rparr>"

definition sde_core_irq_domain_add :: "sde_kms \<Rightarrow> bool \<Rightarrow> nat option \<Rightarrow> int \<times> sde_kms" where
  "sde_core_irq_domain_add k dev_ok domain =
     (if \<not> dev_ok then (- EINVAL, k)
      else if domain = None then (- EINVAL, k)
      else (0, k\<lparr>enabled_mask := 0, irq_domain := domain\<rparr>))"

definition sde_core_irq_domain_fini :: "sde_kms \<Rightarrow> int \<times> sde_kms" where
  "sde_core_irq_domain_fini k = (0, k\<lparr>irq_domain := None\<rparr>)"

end
