(* ===== verification/Sde_Irq_Inv.thy ===== *)
theory Sde_Irq_Inv
  imports Sde_Core_Irq
begin

section \<open>Interrupt core: invariant\<close>

text \<open>
  The enable registers of the hardware, the driver's copy of them and the counters of the interrupts
  stay consistent. The value of a register is what was last written to it. Two interrupts that share
  a bit of a register cannot be told apart by the hardware: the statements about one interrupt are
  for an index with a bit of its own.
\<close>

definition reg_value :: "irq_trace \<Rightarrow> u32 \<Rightarrow> u32 option" where
  "reg_value w off = fold (\<lambda>x v. case fst x of Reg_write a u \<Rightarrow> if a = off then Some u else v | _ \<Rightarrow> v) w None"

lemma reg_value_write [simp]: "reg_value (reg_write a u w) off = (if a = off then Some u else reg_value w off)"
  by (simp add: reg_value_def reg_write_def vcall_def)

lemma reg_value_other:
  "reg_value (w @ [(Reg_read a, v)]) off = reg_value w off"
  "reg_value (w @ [(Callback c i, v)]) off = reg_value w off"
  "reg_value (w @ [(Power_resource_enable b, v)]) off = reg_value w off"
  by (simp_all add: reg_value_def)

definition own_bit :: "sde_irq_type list \<Rightarrow> nat \<Rightarrow> bool" where
  "own_bit im i \<longleftrightarrow> i < length im \<and> 0 \<le> reg_idx (im ! i) \<and> irq_mask (im ! i) \<noteq> 0 \<and>
     (\<forall>j < length im. j \<noteq> i \<longrightarrow> reg_idx (im ! j) = reg_idx (im ! i) \<longrightarrow> irq_mask (im ! j) AND irq_mask (im ! i) = 0)"

definition intr_ok :: "sde_irq_type list \<Rightarrow> sde_hw_intr \<Rightarrow> bool" where
  "intr_ok im d \<longleftrightarrow> irq_idx_tbl_size d = length im \<and> length (sde_irq_tbl d) = sde_irq_size d \<and>
     length (cache_irq_mask d) = sde_irq_size d \<and> length (save_irq_status d) = sde_irq_size d \<and>
     (\<forall>e \<in> set im. reg_idx e < int (sde_irq_size d)) \<and>
     distinct (map en_off (sde_irq_tbl d)) \<and> en_off ` set (sde_irq_tbl d) \<inter> clr_off ` set (sde_irq_tbl d) = {}"

definition synced :: "sde_hw_intr \<Rightarrow> irq_trace \<Rightarrow> bool" where
  "synced d w \<longleftrightarrow> (\<forall>r < sde_irq_size d. reg_value w (en_off (sde_irq_tbl d ! r)) = Some (cache_irq_mask d ! r))"

definition cached :: "sde_irq_type list \<Rightarrow> sde_hw_intr \<Rightarrow> nat \<Rightarrow> bool" where
  "cached im d i \<longleftrightarrow> cache_irq_mask d ! nat (reg_idx (im ! i)) AND irq_mask (im ! i) \<noteq> 0"

text \<open>Bits of a word that are not touched.\<close>

lemma and_or_other: "m AND k = 0 \<Longrightarrow> (c OR m) AND k = c AND (k :: 'a :: len word)"
  by (metis and.commute bit.conj_disj_distrib or.right_neutral)

lemma and_not_other:
  fixes c :: "'a :: len word"
  assumes "m AND k = 0"
  shows "(c AND NOT m) AND k = c AND k"
proof (rule bit_word_eqI)
  fix n assume "n < LENGTH('a)"
  have "\<not> (bit m n \<and> bit k n)" using arg_cong [OF assms, of "\<lambda>x. bit x n"] by (simp add: bit_and_iff)
  then show "bit ((c AND NOT m) AND k) n = bit (c AND k) n"
    using \<open>n < LENGTH('a)\<close> by (auto simp: bit_and_iff bit_not_iff)
qed

lemma or_and_self: "m \<noteq> 0 \<Longrightarrow> (c OR m) AND m \<noteq> (0 :: 'a :: len word)"
  by (metis and.commute word_ao_absorbs(1) or.commute)

lemma and_not_self: "(c AND NOT m) AND m = (0 :: 'a :: len word)"
  by (simp add: and.assoc)

lemma intr_ok_reg:
  assumes "intr_ok im d" "i < length im" "0 \<le> reg_idx (im ! i)"
  shows "nat (reg_idx (im ! i)) < sde_irq_size d"
proof -
  have "im ! i \<in> set im" using assms(2) by simp
  then have "reg_idx (im ! i) < int (sde_irq_size d)" using assms(1) by (simp add: intr_ok_def)
  with assms(3) show ?thesis by linarith
qed

text \<open>Changing one cached word and writing it to its register.\<close>

definition set_cache :: "sde_hw_intr \<Rightarrow> nat \<Rightarrow> u32 \<Rightarrow> sde_hw_intr" where
  "set_cache d r c = d\<lparr>cache_irq_mask := (cache_irq_mask d)[r := c]\<rparr>"

lemma set_cache_ok: "intr_ok im d \<Longrightarrow> intr_ok im (set_cache d r c)"
  by (simp add: intr_ok_def set_cache_def)

lemma intr_ok_offsets:
  assumes "intr_ok im d" "a < sde_irq_size d" "b < sde_irq_size d"
  shows "en_off (sde_irq_tbl d ! a) = en_off (sde_irq_tbl d ! b) \<longleftrightarrow> a = b"
    and "clr_off (sde_irq_tbl d ! a) \<noteq> en_off (sde_irq_tbl d ! b)"
proof -
  have l: "length (sde_irq_tbl d) = sde_irq_size d" and dis: "distinct (map en_off (sde_irq_tbl d))"
    and sep: "en_off ` set (sde_irq_tbl d) \<inter> clr_off ` set (sde_irq_tbl d) = {}"
    using assms(1) by (simp_all add: intr_ok_def)
  show "en_off (sde_irq_tbl d ! a) = en_off (sde_irq_tbl d ! b) \<longleftrightarrow> a = b"
    using nth_eq_iff_index_eq [OF dis, of a b] assms(2,3) l by simp
  have "en_off (sde_irq_tbl d ! b) \<in> en_off ` set (sde_irq_tbl d)"
    "clr_off (sde_irq_tbl d ! a) \<in> clr_off ` set (sde_irq_tbl d)"
    using assms(2,3) l by simp_all
  with sep show "clr_off (sde_irq_tbl d ! a) \<noteq> en_off (sde_irq_tbl d ! b)" by (metis IntI empty_iff)
qed

lemma set_cache_synced:
  assumes "intr_ok im d" "synced d w" "r < sde_irq_size d"
  shows "synced (set_cache d r c) (reg_write (en_off (sde_irq_tbl d ! r)) c (reg_write (clr_off (sde_irq_tbl d ! r)) m w))"
    and "synced (set_cache d r c) (reg_write (clr_off (sde_irq_tbl d ! r)) m (reg_write (en_off (sde_irq_tbl d ! r)) c w))"
proof -
  have l: "length (cache_irq_mask d) = sde_irq_size d" using assms(1) by (simp add: intr_ok_def)
  show "synced (set_cache d r c) (reg_write (en_off (sde_irq_tbl d ! r)) c (reg_write (clr_off (sde_irq_tbl d ! r)) m w))"
    using assms(2,3) l
    by (simp add: synced_def set_cache_def intr_ok_offsets [OF assms(1)] nth_list_update)
  show "synced (set_cache d r c) (reg_write (clr_off (sde_irq_tbl d ! r)) m (reg_write (en_off (sde_irq_tbl d ! r)) c w))"
    using assms(2,3) l
    by (simp add: synced_def set_cache_def intr_ok_offsets [OF assms(1)] nth_list_update)
qed

lemma set_cache_cached:
  assumes "intr_ok im d" and i: "own_bit im i"
  shows "cached im (set_cache d r c) i \<longleftrightarrow> (if nat (reg_idx (im ! i)) = r then c AND irq_mask (im ! i) \<noteq> 0 else cached im d i)"
proof -
  have "nat (reg_idx (im ! i)) < length (cache_irq_mask d)"
    using intr_ok_reg [OF assms(1), of i] assms by (simp add: own_bit_def intr_ok_def)
  then show ?thesis by (simp add: cached_def set_cache_def nth_list_update)
qed

lemma own_bit_other:
  "own_bit im j \<Longrightarrow> i < length im \<Longrightarrow> i \<noteq> j \<Longrightarrow> 0 \<le> reg_idx (im ! i) \<Longrightarrow>
     nat (reg_idx (im ! j)) = nat (reg_idx (im ! i)) \<Longrightarrow> irq_mask (im ! i) AND irq_mask (im ! j) = 0"
  by (simp add: own_bit_def nat_eq_iff)

subsection \<open>The hardware layer\<close>

text \<open>
  What enabling or disabling one interrupt promises: it is defined, it keeps the driver's copy and
  the registers in step, and it changes the state of no other interrupt.
\<close>

definition switched :: "sde_irq_type list \<Rightarrow> nat \<Rightarrow> bool \<Rightarrow> sde_hw_intr \<Rightarrow> sde_hw_intr \<Rightarrow> irq_trace \<Rightarrow> bool" where
  "switched im i b d d' w \<longleftrightarrow> intr_ok im d' \<and> synced d' w \<and> sde_irq_tbl d' = sde_irq_tbl d \<and>
     (\<forall>j. own_bit im j \<longrightarrow> (cached im d' j \<longleftrightarrow> (if j = i then b else cached im d j)))"

lemma switched_tbl: "switched im i b d d' w \<Longrightarrow> sde_irq_tbl d' = sde_irq_tbl d"
  by (simp add: switched_def)

lemma irq_entry_unsupported: "i < length im \<Longrightarrow> reg_idx (im ! i) < 0 \<Longrightarrow> irq_entry im d (int i) = None"
  by (simp add: irq_entry_def)

lemma irq_entry_supported:
  "intr_ok im d \<Longrightarrow> i < length im \<Longrightarrow> 0 \<le> reg_idx (im ! i) \<Longrightarrow> irq_entry im d (int i) = Some (im ! i)"
  using intr_ok_reg [of im d i] by (simp add: irq_entry_def Let_def nat_less_iff)

lemma switched_unsupported:
  "intr_ok im d \<Longrightarrow> synced d w \<Longrightarrow> reg_idx (im ! i) < 0 \<Longrightarrow> switched im i b d d w"
  by (auto simp: switched_def own_bit_def)

lemma switched_already:
  "intr_ok im d \<Longrightarrow> synced d w \<Longrightarrow> cached im d i = b \<Longrightarrow> switched im i b d d w"
  by (simp add: switched_def)

lemma switched_set_cache:
  assumes ok: "intr_ok im d" "synced d w" and i: "i < length im" "0 \<le> reg_idx (im ! i)" "r = nat (reg_idx (im ! i))"
    and w': "w' = reg_write (en_off (sde_irq_tbl d ! r)) c (reg_write (clr_off (sde_irq_tbl d ! r)) m w) \<or>
             w' = reg_write (clr_off (sde_irq_tbl d ! r)) m (reg_write (en_off (sde_irq_tbl d ! r)) c w)"
    and self: "irq_mask (im ! i) \<noteq> 0 \<Longrightarrow> c AND irq_mask (im ! i) \<noteq> 0 \<longleftrightarrow> b"
    and other: "\<And>k. irq_mask (im ! i) AND k = 0 \<Longrightarrow> c AND k = cache_irq_mask d ! r AND k"
  shows "switched im i b d (set_cache d r c) w'"
proof -
  have r: "r < sde_irq_size d" using intr_ok_reg [OF ok(1)] i by simp
  have "cached im (set_cache d r c) j \<longleftrightarrow> (if j = i then b else cached im d j)" if j: "own_bit im j" for j
  proof (cases "j = i")
    case True
    with j self i(3) show ?thesis by (simp add: set_cache_cached [OF ok(1)] own_bit_def)
  next
    case False
    have "c AND irq_mask (im ! j) = cache_irq_mask d ! r AND irq_mask (im ! j)" if "nat (reg_idx (im ! j)) = r"
      by (rule other, rule own_bit_other [OF j i(1)]) (use False i(2,3) that in simp_all)
    then show ?thesis using False unfolding set_cache_cached [OF ok(1) j] by (simp add: cached_def)
  qed
  with set_cache_ok [OF ok(1)] set_cache_synced [OF ok r] w' show ?thesis
    by (auto simp: switched_def set_cache_def)
qed

lemma enable_irq_switched:
  assumes "intr_ok im d" "synced d w" "i < length im"
  obtains d' w' where "sde_hw_intr_enable_irq im (Some d) (int i) w =
      Some (if reg_idx (im ! i) < 0 then - EINVAL else 0, Some d', w')" and "switched im i True d d' w'"
proof (cases "reg_idx (im ! i) < 0")
  case True
  show ?thesis
    by (rule that [of d w]) (use assms True in \<open>simp_all add: sde_hw_intr_enable_irq_def irq_entry_unsupported switched_unsupported\<close>)
next
  case False
  define r m where "r = nat (reg_idx (im ! i))" and "m = irq_mask (im ! i)"
  have r: "r < sde_irq_size d" "length (sde_irq_tbl d) = sde_irq_size d" "length (cache_irq_mask d) = sde_irq_size d"
    using intr_ok_reg [OF assms(1,3)] False assms(1) by (simp_all add: r_def intr_ok_def)
  have e: "irq_entry im d (int i) = Some (im ! i)" using irq_entry_supported assms False by simp
  show ?thesis
  proof (cases "cached im d i")
    case True
    show ?thesis
      by (rule that [of d w]) (use assms True False r e in
        \<open>simp_all add: sde_hw_intr_enable_irq_def switched_already cached_def r_def\<close>)
  next
    case off: False
    show ?thesis
    proof (rule that)
      show "sde_hw_intr_enable_irq im (Some d) (int i) w =
        Some (if reg_idx (im ! i) < 0 then - EINVAL else 0, Some (set_cache d r (cache_irq_mask d ! r OR m)),
          reg_write (en_off (sde_irq_tbl d ! r)) (cache_irq_mask d ! r OR m) (reg_write (clr_off (sde_irq_tbl d ! r)) m w))"
        using r off False by (simp add: sde_hw_intr_enable_irq_def e cached_def set_cache_def Let_def r_def [symmetric] m_def [symmetric])
      show "switched im i True d (set_cache d r (cache_irq_mask d ! r OR m))
         (reg_write (en_off (sde_irq_tbl d ! r)) (cache_irq_mask d ! r OR m) (reg_write (clr_off (sde_irq_tbl d ! r)) m w))"
        by (rule switched_set_cache [where m = m, OF assms _ r_def]) (use False in \<open>simp_all add: m_def or_and_self and_or_other\<close>)
    qed
  qed
qed

lemma disable_irq_switched:
  assumes "intr_ok im d" "synced d w" "i < length im"
  obtains d' w' where "sde_hw_intr_disable_irq_nolock im (Some d) (int i) w =
      Some (if reg_idx (im ! i) < 0 then - EINVAL else 0, Some d', w')" and "switched im i False d d' w'"
proof (cases "reg_idx (im ! i) < 0")
  case True
  show ?thesis
    by (rule that [of d w]) (use assms True in \<open>simp_all add: sde_hw_intr_disable_irq_nolock_def irq_entry_unsupported switched_unsupported\<close>)
next
  case False
  define r m where "r = nat (reg_idx (im ! i))" and "m = irq_mask (im ! i)"
  have r: "r < sde_irq_size d" "length (sde_irq_tbl d) = sde_irq_size d" "length (cache_irq_mask d) = sde_irq_size d"
    using intr_ok_reg [OF assms(1,3)] False assms(1) by (simp_all add: r_def intr_ok_def)
  have e: "irq_entry im d (int i) = Some (im ! i)" using irq_entry_supported assms False by simp
  show ?thesis
  proof (cases "cached im d i")
    case off: False
    show ?thesis
      by (rule that [of d w]) (use assms off False r e in
        \<open>simp_all add: sde_hw_intr_disable_irq_nolock_def switched_already cached_def r_def\<close>)
  next
    case True
    show ?thesis
    proof (rule that)
      show "sde_hw_intr_disable_irq_nolock im (Some d) (int i) w =
        Some (if reg_idx (im ! i) < 0 then - EINVAL else 0, Some (set_cache d r (cache_irq_mask d ! r AND NOT m)),
          reg_write (clr_off (sde_irq_tbl d ! r)) m (reg_write (en_off (sde_irq_tbl d ! r)) (cache_irq_mask d ! r AND NOT m) w))"
        using r True False by (simp add: sde_hw_intr_disable_irq_nolock_def e cached_def set_cache_def Let_def r_def [symmetric] m_def [symmetric])
      show "switched im i False d (set_cache d r (cache_irq_mask d ! r AND NOT m))
         (reg_write (clr_off (sde_irq_tbl d ! r)) m (reg_write (en_off (sde_irq_tbl d ! r)) (cache_irq_mask d ! r AND NOT m) w))"
        by (rule switched_set_cache [where m = m, OF assms _ r_def]) (use False in \<open>simp_all add: m_def and_not_self and_not_other\<close>)
    qed
  qed
qed

subsection \<open>The core layer\<close>

definition counts_ok :: "sde_irq_type list \<Rightarrow> sde_hw_intr \<Rightarrow> int list \<Rightarrow> bool" where
  "counts_ok im d cs \<longleftrightarrow> length cs = length im \<and> (\<forall>c \<in> set cs. 0 \<le> c) \<and>
     (\<forall>i. own_bit im i \<longrightarrow> (cached im d i \<longleftrightarrow> cs ! i > 0))"

definition core_ok :: "sde_hw_intr \<Rightarrow> int list \<Rightarrow> sde_kms \<times> irq_trace \<Rightarrow> bool" where
  "core_ok d cs s \<longleftrightarrow> hw_intr (fst s) = Some d \<and> enable_counts (irq_obj (fst s)) = Some cs \<and>
     map_option length (irq_counts (irq_obj (fst s))) = Some (length cs) \<and>
     map_option length (irq_cb_tbl (irq_obj (fst s))) = Some (length cs) \<and>
     intr_ok (irq_map (fst s)) d \<and> synced d (snd s) \<and> counts_ok (irq_map (fst s)) d cs"

definition irq_ok :: "sde_kms \<times> irq_trace \<Rightarrow> bool" where
  "irq_ok s \<longleftrightarrow> (\<exists>d cs. core_ok d cs s)"

lemma counts_ok_upd:
  assumes "counts_ok im d cs" "0 \<le> n" "i < length im"
    and "\<And>j. own_bit im j \<Longrightarrow> cached im d' j \<longleftrightarrow> (if j = i then n > 0 else cached im d j)"
  shows "counts_ok im d' (cs[i := n])"
proof -
  have l: "length cs = length im" and nn: "\<forall>c \<in> set cs. 0 \<le> c"
    and c: "\<And>j. own_bit im j \<Longrightarrow> cached im d j \<longleftrightarrow> cs ! j > 0"
    using assms(1) by (simp_all add: counts_ok_def)
  have "\<forall>c \<in> set (cs[i := n]). 0 \<le> c"
    using nn assms(2) set_update_subset_insert [of cs i n] by auto
  then show ?thesis using l assms(3,4) c by (simp add: counts_ok_def nth_list_update own_bit_def)
qed

lemma core_ok_count:
  assumes "core_ok d cs (k, w)" "i < length cs" "0 \<le> n" "n > 0 \<longleftrightarrow> cs ! i > 0"
  shows "core_ok d (cs[i := n]) (set_count k (int i) n, w)"
proof -
  have c: "counts_ok (irq_map k) d cs" and l: "length cs = length (irq_map k)"
    using assms(1) by (simp_all add: core_ok_def counts_ok_def)
  have "counts_ok (irq_map k) d (cs[i := n])"
    by (rule counts_ok_upd [OF c assms(3)]) (use assms(2,4) l c in \<open>simp_all add: counts_ok_def\<close>)
  with assms(1) show ?thesis by (simp add: core_ok_def set_count_def)
qed

lemma core_ok_switched:
  assumes "core_ok d cs (k, w)" "i < length cs" "0 \<le> n" "switched (irq_map k) i (n > 0) d d' w'"
  shows "core_ok d' (cs[i := n]) ((set_count k (int i) n)\<lparr>hw_intr := Some d'\<rparr>, w')"
proof -
  have c: "counts_ok (irq_map k) d cs" and l: "length cs = length (irq_map k)"
    using assms(1) by (simp_all add: core_ok_def counts_ok_def)
  have "counts_ok (irq_map k) d' (cs[i := n])"
    by (rule counts_ok_upd [OF c assms(3)]) (use assms(2,4) l in \<open>simp_all add: switched_def\<close>)
  with assms(1,4) show ?thesis by (simp add: core_ok_def set_count_def switched_def)
qed

lemma core_ok_index:
  assumes "core_ok d cs (k, w)" "i < length cs"
  shows "\<not> irq_index_bad k (int i)" "array_at (enable_counts (irq_obj k)) (int i) = Some (cs ! i)" "i < length (irq_map k)"
    and "\<exists>x. array_at (irq_cb_tbl (irq_obj k)) (int i) = Some x" "irq_counts (irq_obj k) \<noteq> None"
    and "0 \<le> cs ! i"
proof -
  have "length cs = length (irq_map k)" "irq_idx_tbl_size d = length (irq_map k)" "hw_intr k = Some d"
    "enable_counts (irq_obj k) = Some cs" "map_option length (irq_counts (irq_obj k)) = Some (length cs)"
    "map_option length (irq_cb_tbl (irq_obj k)) = Some (length cs)" "\<forall>c \<in> set cs. 0 \<le> c"
    using assms(1) by (auto simp: core_ok_def counts_ok_def intr_ok_def)
  then show "\<not> irq_index_bad k (int i)" "array_at (enable_counts (irq_obj k)) (int i) = Some (cs ! i)" "i < length (irq_map k)"
    "\<exists>x. array_at (irq_cb_tbl (irq_obj k)) (int i) = Some x" "irq_counts (irq_obj k) \<noteq> None" "0 \<le> cs ! i"
    using assms(2) by (auto simp: irq_index_bad_def array_at_def)
qed

text \<open>The code of an enable request is an error only if the target has no such register.\<close>

lemma core_irq_enable_ok:
  assumes "core_ok d cs (k, w)" "i < length cs"
  obtains d' k' w' where "core_irq_enable k (int i) w =
        Some (if cs ! i = 0 \<and> reg_idx (irq_map k ! i) < 0 then - EINVAL else 0, k', w')"
    and "core_ok d' (cs[i := cs ! i + 1]) (k', w')" and "irq_map k' = irq_map k" and "sde_irq_tbl d' = sde_irq_tbl d"
proof (cases "cs ! i = 0")
  case False
  have "cs ! i > 0" using False core_ok_index(6) [OF assms] by simp
  then have "core_ok d (cs[i := cs ! i + 1]) (set_count k (int i) (cs ! i + 1), w)"
    by (intro core_ok_count [OF assms]) simp_all
  then show ?thesis
    by (rule that [rotated]) (use False assms core_ok_index [OF assms] in
      \<open>simp_all add: core_irq_enable_def Let_def core_ok_def set_count_def\<close>)
next
  case True
  have k: "hw_intr k = Some d" "intr_ok (irq_map k) d" "synced d w" using assms(1) by (simp_all add: core_ok_def)
  obtain d' w' where e: "sde_hw_intr_enable_irq (irq_map k) (Some d) (int i) w =
      Some (if reg_idx (irq_map k ! i) < 0 then - EINVAL else 0, Some d', w')" "switched (irq_map k) i True d d' w'"
    by (rule enable_irq_switched [OF k(2,3) core_ok_index(3) [OF assms]])
  have c: "core_ok d' (cs[i := cs ! i + 1]) ((set_count k (int i) (cs ! i + 1))\<lparr>hw_intr := Some d'\<rparr>, w')"
    by (rule core_ok_switched [OF assms]) (simp_all add: True e(2))
  obtain x where x: "array_at (irq_cb_tbl (irq_obj k)) (int i) = Some x" using core_ok_index(4) [OF assms] by blast
  show ?thesis
    by (rule that [OF _ c]) (use True k(1) assms(1) core_ok_index [OF assms] e x switched_tbl [OF e(2)] in
      \<open>auto simp: core_irq_enable_def Let_def core_ok_def set_count_def\<close>)
qed

lemma core_irq_disable_ok:
  assumes "core_ok d cs (k, w)" "i < length cs" "cs ! i > 0"
    and hw: "\<And>w rc r. sde_hw_intr_disable_irq_nolock (irq_map k) (Some d) (int i) w = Some (rc, r) \<Longrightarrow>
      \<exists>rc'. hw_disable (irq_map k) (Some d) (int i) w = Some (rc', r)"
  obtains d' k' w' rc where "core_irq_disable hw_disable k (int i) w = Some (rc, k', w')"
    and "core_ok d' (cs[i := cs ! i - 1]) (k', w')" and "irq_map k' = irq_map k" and "sde_irq_tbl d' = sde_irq_tbl d"
proof (cases "cs ! i = 1")
  case False
  then have "core_ok d (cs[i := cs ! i - 1]) (set_count k (int i) (cs ! i - 1), w)"
    using assms(3) by (intro core_ok_count [OF assms(1,2)]) simp_all
  then show ?thesis
    by (rule that [rotated]) (use False assms(1) core_ok_index [OF assms(1,2)] in
      \<open>simp_all add: core_irq_disable_def Let_def core_ok_def set_count_def\<close>)
next
  case True
  have k: "hw_intr k = Some d" "intr_ok (irq_map k) d" "synced d w" using assms(1) by (simp_all add: core_ok_def)
  obtain d' w' where e: "sde_hw_intr_disable_irq_nolock (irq_map k) (Some d) (int i) w =
      Some (if reg_idx (irq_map k ! i) < 0 then - EINVAL else 0, Some d', w')" "switched (irq_map k) i False d d' w'"
    by (rule disable_irq_switched [OF k(2,3) core_ok_index(3) [OF assms(1,2)]])
  obtain rc where h: "hw_disable (irq_map k) (Some d) (int i) w = Some (rc, Some d', w')" using hw [OF e(1)] by blast
  have c: "core_ok d' (cs[i := cs ! i - 1]) ((set_count k (int i) (cs ! i - 1))\<lparr>hw_intr := Some d'\<rparr>, w')"
    by (rule core_ok_switched [OF assms(1,2)]) (simp_all add: True e(2))
  show ?thesis
    by (rule that [OF _ c]) (use True k(1) assms(1) core_ok_index [OF assms(1,2)] h switched_tbl [OF e(2)] in
      \<open>simp_all add: core_irq_disable_def Let_def core_ok_def set_count_def\<close>)
qed

lemma disable_irq_locked:
  "i < length im \<Longrightarrow> sde_hw_intr_disable_irq_nolock im (Some d) (int i) w = Some (rc, r) \<Longrightarrow>
     \<exists>rc'. sde_hw_intr_disable_irq im (Some d) (int i) w = Some (rc', r)"
  by (cases r) (simp add: sde_hw_intr_disable_irq_def)

subsection \<open>The bank of interrupts\<close>

text \<open>
  A request of a client for one interrupt; the state is left alone where the driver would be undefined,
  which the invariant excludes.
\<close>

definition irq_op :: "nat \<times> bool \<Rightarrow> sde_kms \<times> irq_trace \<Rightarrow> (int \<times> sde_kms option \<times> irq_trace) option" where
  "irq_op x s = (if snd x then sde_core_irq_enable else sde_core_irq_disable) (Some (fst s)) (Some [int (fst x)]) (snd s)"

definition irq_request :: "nat \<times> bool \<Rightarrow> sde_kms \<times> irq_trace \<Rightarrow> sde_kms \<times> irq_trace" where
  "irq_request x s = (case irq_op x s of Some (rc, Some k, w) \<Rightarrow> (k, w) | _ \<Rightarrow> s)"

definition irq_count :: "sde_kms \<times> irq_trace \<Rightarrow> nat \<Rightarrow> nat" where
  "irq_count s i = (case enable_counts (irq_obj (fst s)) of None \<Rightarrow> 0 | Some cs \<Rightarrow> if i < length cs then nat (cs ! i) else 0)"

definition irq_unmasked :: "sde_kms \<times> irq_trace \<Rightarrow> nat \<Rightarrow> bool" where
  "irq_unmasked s i =
     (case hw_intr (fst s) of
        None \<Rightarrow> False
      | Some d \<Rightarrow> let e = irq_map (fst s) ! i in
                 case reg_value (snd s) (en_off (sde_irq_tbl d ! nat (reg_idx e))) of
                   None \<Rightarrow> False
                 | Some v \<Rightarrow> v AND irq_mask e \<noteq> 0)"

definition irq_index :: "sde_kms \<times> irq_trace \<Rightarrow> nat \<Rightarrow> bool" where
  "irq_index s i \<longleftrightarrow> i < length (irq_map (fst s))"

definition irq_wired :: "sde_kms \<times> irq_trace \<Rightarrow> nat \<Rightarrow> bool" where
  "irq_wired s i \<longleftrightarrow> own_bit (irq_map (fst s)) i"

lemma irq_unmasked_iff:
  assumes "irq_ok s" "irq_wired s i"
  shows "irq_unmasked s i \<longleftrightarrow> irq_count s i > 0"
proof -
  obtain k w where s: "s = (k, w)" by (cases s)
  obtain d cs where c: "core_ok d cs (k, w)" using assms(1) s by (auto simp: irq_ok_def)
  have i: "own_bit (irq_map k) i" using assms(2) s by (simp add: irq_wired_def)
  have k: "hw_intr k = Some d" "enable_counts (irq_obj k) = Some cs" "intr_ok (irq_map k) d" "synced d w"
    "cached (irq_map k) d i \<longleftrightarrow> cs ! i > 0" "i < length cs"
    using c i by (simp_all add: core_ok_def counts_ok_def own_bit_def)
  have "nat (reg_idx (irq_map k ! i)) < sde_irq_size d"
    using intr_ok_reg [OF k(3)] i by (simp add: own_bit_def)
  with k(4) have "reg_value w (en_off (sde_irq_tbl d ! nat (reg_idx (irq_map k ! i)))) =
      Some (cache_irq_mask d ! nat (reg_idx (irq_map k ! i)))"
    by (simp add: synced_def)
  with k(1,2,5,6) s show ?thesis by (simp add: irq_unmasked_def irq_count_def cached_def Let_def)
qed

lemma irq_op_step:
  assumes "core_ok d cs (k, w)" "i < length cs" "b \<or> cs ! i > 0"
  obtains d' k' w' rc where "irq_op (i, b) (k, w) = Some (rc, Some k', w')"
    and "core_ok d' (cs[i := if b then cs ! i + 1 else cs ! i - 1]) (k', w')" and "irq_map k' = irq_map k" and "sde_irq_tbl d' = sde_irq_tbl d"
proof (cases b)
  case True
  obtain d' k' w' where "core_irq_enable k (int i) w =
      Some (if cs ! i = 0 \<and> reg_idx (irq_map k ! i) < 0 then - EINVAL else 0, k', w')"
    "core_ok d' (cs[i := cs ! i + 1]) (k', w')" "irq_map k' = irq_map k" "sde_irq_tbl d' = sde_irq_tbl d"
    by (rule core_irq_enable_ok [OF assms(1,2)])
  then show ?thesis using True core_ok_index(2) [OF assms(1,2)]
    by (intro that [of "if cs ! i = 0 \<and> reg_idx (irq_map k ! i) < 0 then - EINVAL else 0" k' w' d'])
       (simp_all add: irq_op_def sde_core_irq_enable_def)
next
  case False
  then have pos: "cs ! i > 0" using assms(3) by simp
  have i: "i < length (irq_map k)" by (rule core_ok_index(3) [OF assms(1,2)])
  obtain d' k' w' rc where "core_irq_disable sde_hw_intr_disable_irq k (int i) w = Some (rc, k', w')"
    "core_ok d' (cs[i := cs ! i - 1]) (k', w')" "irq_map k' = irq_map k" "sde_irq_tbl d' = sde_irq_tbl d"
    by (rule core_irq_disable_ok [where hw_disable = sde_hw_intr_disable_irq, OF assms(1,2) pos])
       (use i in \<open>simp_all add: disable_irq_locked\<close>)
  then show ?thesis using False core_ok_index(2) [OF assms(1,2)]
    by (intro that [of rc k' w' d']) (simp_all add: irq_op_def sde_core_irq_disable_def)
qed

lemma irq_request_step:
  assumes "irq_ok s" "irq_index s (fst x)" "snd x \<or> irq_count s (fst x) > 0"
  shows "irq_ok (irq_request x s) \<and> irq_index (irq_request x s) = irq_index s \<and> irq_wired (irq_request x s) = irq_wired s \<and>
    irq_count (irq_request x s) =
      (irq_count s)(fst x := if snd x then Suc (irq_count s (fst x)) else irq_count s (fst x) - 1)"
    and "\<exists>rc. irq_op x s = Some (rc, Some (fst (irq_request x s)), snd (irq_request x s))"
proof -
  obtain k w where s: "s = (k, w)" by (cases s)
  obtain d cs where c: "core_ok d cs (k, w)" using assms(1) s by (auto simp: irq_ok_def)
  obtain i b where x: "x = (i, b)" by (cases x)
  have l: "length cs = length (irq_map k)" and cs: "enable_counts (irq_obj k) = Some cs"
    using c by (simp_all add: core_ok_def counts_ok_def)
  have i: "i < length cs" using assms(2) s x l by (simp add: irq_index_def)
  have pos: "b \<or> cs ! i > 0" using assms(3) s x cs i by (simp add: irq_count_def)
  obtain d' k' w' rc where op: "irq_op (i, b) (k, w) = Some (rc, Some k', w')"
    and c': "core_ok d' (cs[i := if b then cs ! i + 1 else cs ! i - 1]) (k', w')" and m: "irq_map k' = irq_map k"
    by (rule irq_op_step [OF c i pos])
  have r: "irq_request x s = (k', w')" using op s x by (simp add: irq_request_def)
  have cs': "enable_counts (irq_obj k') = Some (cs[i := if b then cs ! i + 1 else cs ! i - 1])" using c' by (simp add: core_ok_def)
  have "irq_count (k', w') = (irq_count s)(i := if b then Suc (irq_count s i) else irq_count s i - 1)"
    using cs cs' s i core_ok_index(6) [OF c i] by (auto simp: irq_count_def nth_list_update fun_eq_iff)
  with c' m show "irq_ok (irq_request x s) \<and> irq_index (irq_request x s) = irq_index s \<and> irq_wired (irq_request x s) = irq_wired s \<and>
    irq_count (irq_request x s) =
      (irq_count s)(fst x := if snd x then Suc (irq_count s (fst x)) else irq_count s (fst x) - 1)"
    unfolding r using s x by (auto simp: irq_ok_def irq_index_def irq_wired_def fun_eq_iff)
  show "\<exists>rc. irq_op x s = Some (rc, Some (fst (irq_request x s)), snd (irq_request x s))"
    unfolding r using op s x by simp
qed

interpretation irq_bank: switch_bank irq_request irq_count irq_unmasked irq_ok irq_index irq_wired
  by unfold_locales (rule irq_unmasked_iff, assumption+, rule irq_request_step(1), assumption+)

text \<open>A sequence of requests, as the driver runs it.\<close>

primrec irq_run :: "(nat \<times> bool) list \<Rightarrow> sde_kms \<times> irq_trace \<Rightarrow> (sde_kms \<times> irq_trace) option" where
  "irq_run [] s = Some s"
| "irq_run (x # xs) s = do {
     (rc, kms, w) \<leftarrow> irq_op x s;
     k \<leftarrow> kms;
     irq_run xs (k, w)
   }"

lemma irq_run_defined:
  "irq_ok s \<Longrightarrow> (\<And>x. x \<in> set xs \<Longrightarrow> irq_index s (fst x)) \<Longrightarrow> paired (irq_count s) xs \<Longrightarrow>
     irq_run xs s = Some (fold irq_request xs s)"
proof (induction xs arbitrary: s)
  case (Cons x xs)
  have x: "irq_index s (fst x)" "snd x \<or> irq_count s (fst x) > 0" using Cons.prems(2,3) by simp_all
  note st = irq_request_step [OF Cons.prems(1) x]
  have p: "paired (irq_count (irq_request x s)) xs" using Cons.prems(3) st(1) by (simp only: paired.simps)
  have "irq_run xs (irq_request x s) = Some (fold irq_request xs (irq_request x s))"
    by (rule Cons.IH [OF _ _ p]) (use Cons.prems(2) st(1) in \<open>simp_all\<close>)
  with st(2) show ?case by auto
qed simp

end
