(* ===== verification/Sde_Irq_Boot.thy ===== *)
theory Sde_Irq_Boot
  imports Sde_Irq_Inv
begin

section \<open>Interrupt core: the state after initialisation\<close>

text \<open>
  Initialisation gives every supported register the next position, the entries of its block that
  position, and the offsets of its registers. \<open>placed\<close> says so of a list of registers.
\<close>

lemma set_reg_idx_nth:
  assumes "32 * idx + 32 \<le> length im" "j < length im"
  shows "set_reg_idx idx r im ! j = (if j div 32 = idx then (im ! j)\<lparr>reg_idx := int r\<rparr> else im ! j)"
proof -
  consider "j < 32 * idx" | "32 * idx \<le> j" "j < 32 * idx + 32" | "32 * idx + 32 \<le> j" by linarith
  then show ?thesis
  proof cases
    case 1
    then have "j div 32 \<noteq> idx" by auto
    with 1 assms show ?thesis by (simp add: set_reg_idx_def nth_append)
  next
    case 2
    then have "j div 32 = idx" by linarith
    with 2 assms show ?thesis by (simp add: set_reg_idx_def nth_append)
  next
    case 3
    then have "j div 32 \<noteq> idx" by linarith
    with 3 assms show ?thesis by (simp add: set_reg_idx_def nth_append min_def)
  qed
qed

lemma set_reg_idx_length [simp]: "32 * idx + 32 \<le> length im \<Longrightarrow> length (set_reg_idx idx r im) = length im"
  by (simp add: set_reg_idx_def)

lemma first_pos_less: "x \<in> set xs \<Longrightarrow> length (takeWhile (\<lambda>b. b \<noteq> x) xs) < length xs"
  by (induction xs) auto

lemma first_pos_inj:
  assumes "x \<in> set xs" "y \<in> set xs" "length (takeWhile (\<lambda>b. b \<noteq> x) xs) = length (takeWhile (\<lambda>b. b \<noteq> y) xs)"
  shows "x = y"
  using nth_length_takeWhile [OF first_pos_less [OF assms(1)]] nth_length_takeWhile [OF first_pos_less [OF assms(2)]] assms(3)
  by simp

definition placed :: "nat list \<Rightarrow> nat \<Rightarrow> sde_irq_type list \<Rightarrow> sde_irq_type list \<Rightarrow> bool" where
  "placed bs r im im' \<longleftrightarrow> length im' = length im \<and>
     (\<forall>j < length im. im' ! j = (if j div 32 \<in> set bs
        then (im ! j)\<lparr>reg_idx := int (r + length (takeWhile (\<lambda>b. b \<noteq> j div 32) bs))\<rparr> else im ! j))"

lemma init_loop_result:
  assumes "\<And>b. b \<in> set idxs \<Longrightarrow> 32 * b + 32 \<le> length im" "distinct idxs" "r + length (filter irqs idxs) \<le> length tbl"
  shows "\<exists>im' tbl'. init_loop irqs idxs r im tbl = Some (0, im', tbl') \<and> placed (filter irqs idxs) r im im' \<and>
    length tbl' = length tbl \<and> (\<forall>q < r. tbl' ! q = tbl ! q) \<and>
    (\<forall>q < length (filter irqs idxs). sde_irq_idx (tbl' ! (r + q)) = int (filter irqs idxs ! q))"
  using assms
proof (induction idxs arbitrary: r im tbl)
  case Nil
  then show ?case by (simp add: placed_def)
next
  case (Cons b idxs)
  show ?case
  proof (cases "irqs b")
    case False
    with Cons show ?thesis by simp
  next
    case True
    define im1 where "im1 = set_reg_idx b r im"
    define tbl1 where "tbl1 = tbl[r := (tbl ! r)\<lparr>sde_irq_idx := int b\<rparr>]"
    have len: "32 * b + 32 \<le> length im" "length im1 = length im" "r < length tbl"
      using Cons.prems True by (simp_all add: im1_def)
    obtain im' tbl' where IH: "init_loop irqs idxs (Suc r) im1 tbl1 = Some (0, im', tbl')"
      "placed (filter irqs idxs) (Suc r) im1 im'" "length tbl' = length tbl1" "\<forall>q < Suc r. tbl' ! q = tbl1 ! q"
      "\<forall>q < length (filter irqs idxs). sde_irq_idx (tbl' ! (Suc r + q)) = int (filter irqs idxs ! q)"
      using Cons.IH [of im1 "Suc r" tbl1] Cons.prems True by (auto simp: im1_def tbl1_def)
    have step: "init_loop irqs (b # idxs) r im tbl = Some (0, im', tbl')"
      using IH(1) len True by (simp add: im1_def tbl1_def)
    have pl: "placed (filter irqs (b # idxs)) r im im'"
      unfolding placed_def
    proof (intro conjI allI impI)
      show "length im' = length im" using IH(2) len by (simp add: placed_def)
      fix j assume j: "j < length im"
      show "im' ! j = (if j div 32 \<in> set (filter irqs (b # idxs))
        then (im ! j)\<lparr>reg_idx := int (r + length (takeWhile (\<lambda>c. c \<noteq> j div 32) (filter irqs (b # idxs))))\<rparr> else im ! j)"
        using IH(2) len j True Cons.prems(2)
        by (cases "j div 32 = b") (simp_all add: placed_def im1_def set_reg_idx_nth)
    qed
    have t: "tbl' ! q = tbl ! q" if "q < r" for q using IH(4) that by (simp add: tbl1_def)
    have "sde_irq_idx (tbl' ! (r + q)) = int (filter irqs (b # idxs) ! q)" if "q < length (filter irqs (b # idxs))" for q
      using that IH(4,5) True len by (cases q) (simp_all add: tbl1_def)
    with step pl t IH(3) show ?thesis by (simp add: tbl1_def)
  qed
qed

text \<open>The offsets, as functions of the number of the register.\<close>

definition offsets :: "int \<Rightarrow> u32 \<times> u32 \<times> u32" where
  "offsets b = the (intr_offsets b)"

lemma init_sde_irq_tbl_result:
  "(\<forall>reg \<in> set tbl. intr_offsets (sde_irq_idx reg) \<noteq> None) \<Longrightarrow>
     init_sde_irq_tbl tbl = (0, map (\<lambda>reg. let (c, e, s) = offsets (sde_irq_idx reg) in
       reg\<lparr>clr_off := c, en_off := e, status_off := s\<rparr>) tbl)"
  by (induction tbl) (auto simp: offsets_def split: option.splits prod.splits)

lemma offsets_apart:
  "distinct (map (\<lambda>b. fst (snd (offsets (int b)))) [0..<18])"
  "(\<lambda>b. fst (snd (offsets (int b)))) ` set [0..<18] \<inter> (\<lambda>b. fst (offsets (int b))) ` set [0..<18] = {}"
  "list_all (\<lambda>b. intr_offsets (int b) \<noteq> None) [0..<18]"
  by code_simp+

text \<open>The table itself: its size, its initial positions and the bits of each block.\<close>

lemma sde_irq_map_length [simp]: "length sde_irq_map = 576"
  by (simp add: sde_irq_map_def irq_map_defs reserved_def)

lemma sde_irq_map_reg_idx: "\<forall>e \<in> set sde_irq_map. reg_idx e \<le> 0"
  by (simp add: sde_irq_map_def irq_map_defs reserved_def irq_def)

lemma sde_irq_map_reg_idx_unset: "\<forall>e \<in> set (drop 32 sde_irq_map). reg_idx e = - 1"
  by (simp add: sde_irq_map_def irq_map_defs reserved_def irq_def)

text \<open>What a successful initialisation returns.\<close>

definition booted :: "(nat \<Rightarrow> bool) \<Rightarrow> sde_irq_type list \<Rightarrow> sde_hw_intr \<Rightarrow> bool" where
  "booted irqs im d \<longleftrightarrow> intr_ok im d \<and> placed (filter irqs [0..<18]) 0 sde_irq_map im \<and>
     sde_irq_size d = length (filter irqs [0..<18]) \<and>
     map sde_irq_idx (sde_irq_tbl d) = map int (filter irqs [0..<18]) \<and>
     map (\<lambda>reg. (clr_off reg, en_off reg, status_off reg)) (sde_irq_tbl d) = map (\<lambda>b. offsets (int b)) (filter irqs [0..<18])"

lemma placed_reg_idx:
  assumes "placed bs 0 sde_irq_map im" "e \<in> set im" "0 < length bs"
  shows "reg_idx e < int (length bs)"
proof -
  obtain j where j: "j < 576" "e = im ! j" "length im = 576"
    using assms(1,2) by (auto simp: placed_def in_set_conv_nth)
  show ?thesis
  proof (cases "j div 32 \<in> set bs")
    case True
    then have "length (takeWhile (\<lambda>b. b \<noteq> j div 32) bs) < length bs"
      by (rule first_pos_less)
    with True j assms(1) show ?thesis by (simp add: placed_def)
  next
    case False
    then have "e = sde_irq_map ! j" using j assms(1) by (simp add: placed_def)
    moreover have "sde_irq_map ! j \<in> set sde_irq_map" using j by simp
    ultimately have "reg_idx e \<le> 0" using sde_irq_map_reg_idx by blast
    with assms(3) show ?thesis by linarith
  qed
qed

lemma init_irq_tables_result:
  assumes bs: "bs = filter irqs [0..<18]" "bs \<noteq> []"
  obtains im tbl where "init_irq_tables irqs sde_irq_map (replicate (length bs) reg) = Some (0, im, tbl)"
    and "placed bs 0 sde_irq_map im" and "map sde_irq_idx tbl = map int bs" and "length tbl = length bs"
    and "map en_off tbl = map (\<lambda>b. fst (snd (offsets (int b)))) bs" and "map clr_off tbl = map (\<lambda>b. fst (offsets (int b))) bs"
    and "map (\<lambda>reg. (clr_off reg, en_off reg, status_off reg)) tbl = map (\<lambda>b. offsets (int b)) bs"
proof -
  define tbl0 where "tbl0 = replicate (length bs) reg"
  obtain im tbl where l: "init_loop irqs [0..<18] 0 sde_irq_map tbl0 = Some (0, im, tbl)"
    "placed bs 0 sde_irq_map im" "length tbl = length bs"
    "\<forall>q < length bs. sde_irq_idx (tbl ! q) = int (bs ! q)"
    using init_loop_result [of "[0..<18]" sde_irq_map 0 irqs tbl0] bs by (auto simp: tbl0_def)
  have ids: "map sde_irq_idx tbl = map int bs" using l(3,4) by (simp add: list_eq_iff_nth_eq)
  have off: "sde_irq_idx ` set tbl \<subseteq> int ` set [0..<18]"
    using arg_cong [OF ids, of set] bs by auto
  have "\<forall>reg \<in> set tbl. intr_offsets (sde_irq_idx reg) \<noteq> None"
    using off offsets_apart(3) by (fastforce simp: list_all_iff)
  note tbl1 = init_sde_irq_tbl_result [OF this]
  define tbl1 where "tbl1 = map (\<lambda>reg. let (c, e, s) = offsets (sde_irq_idx reg) in
       reg\<lparr>clr_off := c, en_off := e, status_off := s\<rparr>) tbl"
  have res: "init_irq_tables irqs sde_irq_map (replicate (length bs) reg) = Some (0, im, tbl1)"
    using tbl1 l(1) by (simp add: init_irq_tables_def MDSS_INTR_MAX_def tbl1_def tbl0_def)
  have f: "map (\<lambda>reg. f (sde_irq_idx reg)) tbl = map (\<lambda>b. f (int b)) bs" for f :: "int \<Rightarrow> u32"
    using arg_cong [OF ids, of "map f"] by (simp add: comp_def)
  have "map (\<lambda>reg. offsets (sde_irq_idx reg)) tbl = map (\<lambda>b. offsets (int b)) bs"
    using arg_cong [OF ids, of "map offsets"] by (simp add: comp_def)
  then show ?thesis
    by (intro that [OF res l(2)]) (use l(3) ids f in \<open>simp_all add: tbl1_def case_prod_unfold Let_def comp_def\<close>)
qed

lemma offsets_apart_filter:
  "distinct (map (\<lambda>b. fst (snd (offsets (int b)))) (filter P [0..<18]))"
  "(\<lambda>b. fst (snd (offsets (int b)))) ` set (filter P [0..<18]) \<inter> (\<lambda>b. fst (offsets (int b))) ` set (filter P [0..<18]) = {}"
proof -
  show "distinct (map (\<lambda>b. fst (snd (offsets (int b)))) (filter P [0..<18]))"
    by (rule distinct_map_filter [OF offsets_apart(1)])
  have "set (filter P [0..<18]) \<subseteq> set [0..<18]" by (rule filter_is_subset)
  then show "(\<lambda>b. fst (snd (offsets (int b)))) ` set (filter P [0..<18]) \<inter> (\<lambda>b. fst (offsets (int b))) ` set (filter P [0..<18]) = {}"
    using offsets_apart(2) by blast
qed

lemma sde_hw_intr_init_result:
  assumes "sde_hw_intr_init mem null_addr null_m has_mdp irqs sde_irq_map = Some (Inr d, im)"
  shows "booted irqs im d" "cache_irq_mask d = replicate (sde_irq_size d) 0"
proof -
  define bs where "bs = filter irqs [0..<18]"
  have "length bs \<noteq> 0" using assms by (auto simp: sde_hw_intr_init_def MDSS_INTR_MAX_def bs_def split: if_splits)
  then have bs: "bs \<noteq> []" by simp
  obtain im' tbl where t: "init_irq_tables irqs sde_irq_map
        (replicate (length bs) \<lparr>clr_off = 0, en_off = 0, status_off = 0, sde_irq_idx = 0\<rparr>) = Some (0, im', tbl)"
    "placed bs 0 sde_irq_map im'" "map sde_irq_idx tbl = map int bs" "length tbl = length bs"
    "map en_off tbl = map (\<lambda>b. fst (snd (offsets (int b)))) bs" "map clr_off tbl = map (\<lambda>b. fst (offsets (int b))) bs"
    "map (\<lambda>reg. (clr_off reg, en_off reg, status_off reg)) tbl = map (\<lambda>b. offsets (int b)) bs"
    by (rule init_irq_tables_result [OF bs_def bs])
  have d: "im' = im" "d = \<lparr>cache_irq_mask = replicate (length bs) 0, save_irq_status = replicate (length bs) 0,
      irq_idx_tbl_size = length im', sde_irq_size = length bs, sde_irq_tbl = tbl\<rparr>"
    using assms t(1) by (auto simp: sde_hw_intr_init_def MDSS_INTR_MAX_def bs_def [symmetric] Let_def split: if_splits)
  have im: "\<forall>e \<in> set im. reg_idx e < int (length bs)" using placed_reg_idx [OF t(2)] bs d(1) by simp
  have "distinct (map en_off tbl)" "en_off ` set tbl \<inter> clr_off ` set tbl = {}"
    using offsets_apart_filter [of irqs] t(5,6) by (simp_all add: bs_def [symmetric] flip: set_map)
  with im t d show "booted irqs im d" by (simp add: booted_def intr_ok_def bs_def)
  show "cache_irq_mask d = replicate (sde_irq_size d) 0" using d by simp
qed

subsection \<open>Which interrupts have a bit of their own\<close>

text \<open>
  Masks are collected one after the other; no mask meets those before it.
\<close>

primrec apart :: "u32 \<Rightarrow> u32 list \<Rightarrow> bool" where
  "apart acc [] \<longleftrightarrow> True"
| "apart acc (m # ms) \<longleftrightarrow> acc AND m = 0 \<and> apart (acc OR m) ms"

lemma and_or_zero: "(a OR b) AND m = 0 \<longleftrightarrow> a AND m = 0 \<and> b AND m = (0 :: 'a :: len word)"
  by (auto simp: bit_eq_iff bit_and_iff bit_or_iff)

lemma apart_acc: "apart acc ms \<Longrightarrow> m \<in> set ms \<Longrightarrow> acc AND m = 0"
proof (induction ms arbitrary: acc)
  case (Cons a ms)
  have "(acc OR a) AND m = 0" if "m \<in> set ms" using Cons that by simp
  then show ?case using Cons.prems by (auto simp: and_or_zero)
qed simp

lemma apart_nth: "apart acc ms \<Longrightarrow> i < j \<Longrightarrow> j < length ms \<Longrightarrow> ms ! i AND ms ! j = 0"
proof (induction ms arbitrary: acc i j)
  case (Cons m ms)
  obtain j' where j: "j = Suc j'" "j' < length ms" using Cons.prems by (cases j) auto
  show ?case
  proof (cases i)
    case 0
    have "(acc OR m) AND ms ! j' = 0" using Cons.prems(1) j by (intro apart_acc [of _ ms]) auto
    with 0 j show ?thesis by (simp add: and_or_zero)
  next
    case (Suc i')
    with Cons.prems j show ?thesis using Cons.IH [of "acc OR m" i' j'] by simp
  qed
qed simp

text \<open>Indices 39 and 40 share a bit; without them every block has distinct bits.\<close>

definition own_blocks :: "u32 list list" where
  "own_blocks = map (map irq_mask)
     [irq_map_intr, irq_map_intr2[7 := irq SDE_IRQ_TYPE_RESERVED 0 0 0, 8 := irq SDE_IRQ_TYPE_RESERVED 0 0 0],
      irq_map_hist, irq_map_intf_0, irq_map_intf_1, irq_map_intf_2, irq_map_intf_3, irq_map_intf_4,
      irq_map_ad4_0, irq_map_ad4_1, irq_map_intf_tear_1, irq_map_intf_tear_2,
      irq_map_roi_misr_0, irq_map_roi_misr_1, irq_map_roi_misr_2, irq_map_roi_misr_3, irq_map_roi_misr_4, irq_map_roi_misr_5]"

lemma own_blocks_apart: "list_all (apart 0) own_blocks"
  by code_simp

lemma own_blocks_length: "list_all (\<lambda>b. length b = 32) own_blocks" "length own_blocks = 18"
  by code_simp+

lemma irq_map_intr_length [simp]: "length irq_map_intr = 32" "length irq_map_intr2 = 32"
  by (simp_all add: irq_map_defs reserved_def)

lemma own_blocks_concat:
  "map irq_mask (sde_irq_map[39 := irq SDE_IRQ_TYPE_RESERVED 0 0 0, 40 := irq SDE_IRQ_TYPE_RESERVED 0 0 0]) = concat own_blocks"
  by (simp add: own_blocks_def sde_irq_map_def list_update_append)

lemma concat_block:
  "(\<forall>b \<in> set bs. length b = n) \<Longrightarrow> 0 < n \<Longrightarrow> j < n * length bs \<Longrightarrow> concat bs ! j = bs ! (j div n) ! (j mod n)"
proof (induction bs arbitrary: j)
  case (Cons b bs)
  show ?case
  proof (cases "j < n")
    case False
    then have "j div n = Suc ((j - n) div n)" "(j - n) mod n = j mod n"
      using Cons.prems by (simp_all add: le_div_geq le_mod_geq)
    with False Cons show ?thesis by (simp add: nth_append)
  qed (use Cons.prems in \<open>simp add: nth_append\<close>)
qed simp

lemma own_blocks_nth:
  assumes "j < 576"
  shows "own_blocks ! (j div 32) ! (j mod 32) = (if j \<in> {39, 40} then 0 else irq_mask (sde_irq_map ! j))"
proof -
  have "concat own_blocks ! j = own_blocks ! (j div 32) ! (j mod 32)"
    using own_blocks_length assms by (intro concat_block) (simp_all add: list_all_iff)
  then show ?thesis using assms unfolding own_blocks_concat [symmetric]
    by (auto simp: nth_list_update irq_def)
qed

lemma sde_irq_map_masks:
  assumes "i < 576" "j < 576" "i \<noteq> j" "i div 32 = j div 32" "i \<notin> {39, 40}"
  shows "irq_mask (sde_irq_map ! i) AND irq_mask (sde_irq_map ! j) = 0"
proof (cases "j \<in> {39, 40}")
  case True
  have "list_all (\<lambda>m. m AND BIT 8 = 0) (own_blocks ! 1)" by code_simp
  moreover have "i div 32 = 1" using True assms(4) by auto
  moreover have "length (own_blocks ! 1) = 32" using own_blocks_length by (simp add: list_all_length)
  ultimately have "irq_mask (sde_irq_map ! i) AND BIT 8 = 0"
    using own_blocks_nth [OF assms(1)] assms(5)
    by (simp add: list_all_length) (metis mod_less_divisor zero_less_numeral)
  moreover have "irq_mask (sde_irq_map ! 39) = BIT 8" "irq_mask (sde_irq_map ! 40) = BIT 8"
    by (simp_all add: sde_irq_map_def nth_append) (simp_all add: irq_map_intr2_def reserved_def nth_append irq_def)
  ultimately show ?thesis using True by auto
next
  case False
  let ?b = "own_blocks ! (i div 32)"
  have "?b \<in> set own_blocks" using assms(1) own_blocks_length(2) by simp
  then have b: "apart 0 ?b" "length ?b = 32" using own_blocks_apart own_blocks_length(1) by (simp_all add: list_all_iff)
  have "i mod 32 \<noteq> j mod 32" using assms(3,4) by (metis div_mult_mod_eq)
  then have "?b ! (i mod 32) AND ?b ! (j mod 32) = 0"
    using apart_nth [OF b(1), of "i mod 32" "j mod 32"] apart_nth [OF b(1), of "j mod 32" "i mod 32"] b(2)
    by (cases "i mod 32 < j mod 32") (simp_all add: and.commute)
  then show ?thesis
    using own_blocks_nth [OF assms(1)] own_blocks_nth [OF assms(2)] assms(4,5) False by simp
qed

text \<open>
  After initialisation, on a target with the first interrupt register (whose entry 1 has a position
  from the start), every real interrupt of a supported register other than these two has its own bit.
\<close>

definition real_irq :: "(nat \<Rightarrow> bool) \<Rightarrow> nat \<Rightarrow> bool" where
  "real_irq irqs i \<longleftrightarrow> i < 576 \<and> irqs (i div 32) \<and> irq_mask (sde_irq_map ! i) \<noteq> 0"

lemma booted_entry:
  assumes "booted irqs im d" "i < 576"
  shows "irq_mask (im ! i) = irq_mask (sde_irq_map ! i)"
    and "irqs (i div 32) \<Longrightarrow> reg_idx (im ! i) = int (length (takeWhile (\<lambda>b. b \<noteq> i div 32) (filter irqs [0..<18])))"
    and "\<not> irqs (i div 32) \<Longrightarrow> im ! i = sde_irq_map ! i"
proof -
  have p: "placed (filter irqs [0..<18]) 0 sde_irq_map im" using assms(1) by (simp add: booted_def)
  show "irq_mask (im ! i) = irq_mask (sde_irq_map ! i)" using p assms(2) by (simp add: placed_def)
  have "i div 32 < 18" using assms(2) by linarith
  then show "irqs (i div 32) \<Longrightarrow> reg_idx (im ! i) = int (length (takeWhile (\<lambda>b. b \<noteq> i div 32) (filter irqs [0..<18])))"
    using p assms(2) by (simp add: placed_def)
  show "\<not> irqs (i div 32) \<Longrightarrow> im ! i = sde_irq_map ! i"
    using p assms(2) by (simp add: placed_def)
qed

lemma booted_length: "booted irqs im d \<Longrightarrow> length im = 576"
  by (simp add: booted_def placed_def)

lemma own_bit_booted:
  assumes b: "booted irqs im d" and "irqs 0" "real_irq irqs i" "i \<notin> {39, 40}"
  shows "own_bit im i"
  unfolding own_bit_def
proof (intro conjI allI impI)
  have i: "i < 576" "irqs (i div 32)" using assms(3) by (simp_all add: real_irq_def)
  show "i < length im" using i booted_length [OF b] by simp
  show "0 \<le> reg_idx (im ! i)" using booted_entry(2) [OF b i] by simp
  show "irq_mask (im ! i) \<noteq> 0" using booted_entry(1) [OF b i(1)] assms(3) by (simp add: real_irq_def)
  fix j assume j: "j < length im" "j \<noteq> i" "reg_idx (im ! j) = reg_idx (im ! i)"
  then have "j < 576" using booted_length [OF b] by simp
  have "irqs (j div 32)"
  proof (rule ccontr)
    assume no: "\<not> irqs (j div 32)"
    then have "32 \<le> j" using assms(2) by (metis div_less not_le)
    then have "sde_irq_map ! j \<in> set (drop 32 sde_irq_map)"
      using \<open>j < 576\<close> nth_mem [of "j - 32" "drop 32 sde_irq_map"] by simp
    then have "reg_idx (im ! j) = - 1" using booted_entry(3) [OF b \<open>j < 576\<close> no] sde_irq_map_reg_idx_unset by simp
    with j(3) \<open>0 \<le> reg_idx (im ! i)\<close> show False by simp
  qed
  moreover have "i div 32 < 18" "j div 32 < 18" using i \<open>j < 576\<close> by linarith+
  ultimately have "i div 32 = j div 32"
    using booted_entry(2) [OF b i] booted_entry(2) [OF b \<open>j < 576\<close>] j(3) i(2)
    by (intro first_pos_inj [of "i div 32" "filter irqs [0..<18]" "j div 32"]) (simp_all only: set_filter set_upt mem_Collect_eq atLeastLessThan_iff of_nat_eq_iff simp_thms le0)
  then have "irq_mask (sde_irq_map ! i) AND irq_mask (sde_irq_map ! j) = 0"
    using sde_irq_map_masks [OF i(1) \<open>j < 576\<close>] j(2) assms(4) by auto
  then show "irq_mask (im ! j) AND irq_mask (im ! i) = 0"
    using booted_entry(1) [OF b] i(1) \<open>j < 576\<close> by (simp add: and.commute)
qed

subsection \<open>Installation\<close>

lemma reg_value_fold_write:
  "reg_value (fold (\<lambda>reg. reg_write (f reg) v) regs w) off =
     (if off \<in> f ` set regs then Some v else reg_value w off)"
  by (induction regs arbitrary: w) auto

lemma synced_disabled:
  assumes "intr_ok im d" "cache_irq_mask d = replicate (sde_irq_size d) 0"
  shows "synced d (snd (sde_hw_intr_disable_irqs (Some d) w) @ [(Power_resource_enable b, rc)])"
  using assms by (simp add: synced_def sde_hw_intr_disable_irqs_def reg_value_other reg_value_fold_write intr_ok_def)

lemma preinstall_ok:
  assumes b: "booted irqs im d" "cache_irq_mask d = replicate (sde_irq_size d) 0" and k: "hw_intr k = Some d" "irq_map k = im"
    and pre: "sde_core_irq_preinstall env mem (Some k) True w = Some (Some k', w')"
    and "env w (Power_resource_enable True) = 0" "\<And>i. mem i"
  shows "irq_ok (k', w')" "irq_map k' = im" "hw_intr k' = Some d" "irq_count (k', w') = (\<lambda>_. 0)"
proof -
  have ok: "intr_ok im d" and l: "length im = 576" using b(1) booted_length by (auto simp: booted_def)
  have k': "k' = k\<lparr>irq_obj := \<lparr>total_irqs = 576, irq_cb_tbl = Some (replicate 576 []),
      enable_counts = Some (replicate 576 0), irq_counts = Some (replicate 576 0)\<rparr>\<rparr>"
    using pre k assms(6,7) ok l by (auto simp: sde_core_irq_preinstall_def ext_def Let_def intr_ok_def)
  have "synced d w'"
    using pre k assms(6,7) synced_disabled [OF ok b(2)]
    by (auto simp: sde_core_irq_preinstall_def ext_def Let_def sde_disable_all_irqs_def)
  moreover have "counts_ok im d (replicate 576 0)"
  proof -
    have "\<not> cached im d i" if "own_bit im i" for i
      using intr_ok_reg [OF ok, of i] that b(2) by (simp add: cached_def booted_def own_bit_def)
    then show ?thesis using l by (auto simp: counts_ok_def own_bit_def)
  qed
  ultimately have "core_ok d (replicate 576 0) (k', w')" using k ok by (simp add: core_ok_def k')
  then show "irq_ok (k', w')" by (auto simp: irq_ok_def)
  show "irq_map k' = im" "hw_intr k' = Some d" "irq_count (k', w') = (\<lambda>_. 0)" using k by (auto simp: k' irq_count_def)
qed

end
