(* ===== verification/Sde_Irq_Dispatch.thy ===== *)
theory Sde_Irq_Dispatch
  imports Sde_Irq_Boot
begin

section \<open>Interrupt core: dispatching\<close>

text \<open>
  The search through the table that the interrupt handler makes is equal to calling the handler for
  a list of indices: those whose bit is set in the saved status of their register and whose bit no
  earlier entry of the same register uses.
\<close>

primrec iter :: "('i \<Rightarrow> 's \<Rightarrow> 's option) \<Rightarrow> 'i list \<Rightarrow> 's \<Rightarrow> 's option" where
  "iter f [] s = Some s"
| "iter f (x # xs) s = f x s \<bind> iter f xs"

lemma iter_append: "iter f (xs @ ys) s = iter f xs s \<bind> iter f ys"
proof (induction xs arbitrary: s)
  case (Cons x xs)
  then show ?case by (cases "f x s") simp_all
qed simp

subsection \<open>One register\<close>

text \<open>
  \<open>nested acc ms\<close>: each mask is either apart from the masks before it or covered by them;
  \<open>fresh_masks acc ms\<close> says which masks are apart.
\<close>

primrec nested :: "u32 \<Rightarrow> u32 list \<Rightarrow> bool" where
  "nested acc [] \<longleftrightarrow> True"
| "nested acc (m # ms) \<longleftrightarrow> (acc AND m = 0 \<or> acc AND m = m) \<and> nested (acc OR m) ms"

primrec fresh_masks :: "u32 \<Rightarrow> u32 list \<Rightarrow> bool list" where
  "fresh_masks acc [] = []"
| "fresh_masks acc (m # ms) = (acc AND m = 0) # fresh_masks (acc OR m) ms"

lemma fresh_length [simp]: "length (fresh_masks acc ms) = length ms"
  by (induction ms arbitrary: acc) simp_all

fun found :: "u32 \<Rightarrow> u32 list \<Rightarrow> bool list \<Rightarrow> int \<Rightarrow> int list" where
  "found status (m # ms) (b # bs) i = (if b \<and> status AND m \<noteq> 0 then [i] else []) @ found status ms bs (i + 1)"
| "found status _ _ i = []"

lemma dispatch_zero: "dispatch_reg r cb es i 0 s = Some s"
  by (cases es) simp_all

lemma dispatch_cons:
  "dispatch_reg r cb (e # es) i status s =
     (if status AND irq_mask e \<noteq> 0 \<and> reg_idx e = r
      then cb i s \<bind> dispatch_reg r cb es (i + 1) (status AND NOT (irq_mask e))
      else dispatch_reg r cb es (i + 1) status s)"
  by (cases "status = 0") (simp_all add: dispatch_zero)

lemma not_or_bits: "status AND NOT (a OR m) = (status AND NOT a) AND NOT (m :: u32)"
  by (simp add: bit.de_Morgan_disj and.assoc)

lemma left_apart: "a AND m = 0 \<Longrightarrow> (status AND NOT a) AND m = status AND (m :: u32)"
  by (rule and_not_other)

lemma left_covered:
  fixes m :: u32
  assumes "a AND m = m"
  shows "(status AND NOT a) AND m = 0"
proof -
  have "(status AND NOT a) AND m = status AND (NOT a AND (a AND m))" unfolding assms by (simp add: and.assoc)
  then show ?thesis by (simp add: and.assoc [symmetric])
qed

lemma covered_or: "a AND m = m \<Longrightarrow> a OR m = (a :: u32)"
  by (metis and.commute or.commute word_ao_absorbs(6))

lemma and_zero_not:
  fixes x m :: u32
  assumes "x AND m = 0"
  shows "x AND NOT m = x"
proof -
  have "x = x AND (m OR NOT m)" by simp
  also have "\<dots> = x AND NOT m" unfolding bit.conj_disj_distrib assms by simp
  finally show ?thesis by simp
qed

lemma dispatch_reg_found:
  assumes "nested acc (map irq_mask es)" "\<And>e. e \<in> set es \<Longrightarrow> reg_idx e = r"
  shows "dispatch_reg r cb es i (status AND NOT acc) s =
    iter cb (found status (map irq_mask es) (fresh_masks acc (map irq_mask es)) i) s"
  using assms
proof (induction es arbitrary: acc i s)
  case (Cons e es)
  define m st where "m = irq_mask e" and "st = status AND NOT acc"
  have IH: "dispatch_reg r cb es (i + 1) (st AND NOT m) =
      iter cb (found status (map irq_mask es) (fresh_masks (acc OR m) (map irq_mask es)) (i + 1))"
    unfolding st_def not_or_bits [symmetric] by (rule HOL.ext, rule Cons.IH) (use Cons.prems in \<open>simp_all add: m_def\<close>)
  have e: "reg_idx e = r" using Cons.prems(2) by simp
  have "acc AND m = 0 \<or> acc AND m = m" using Cons.prems(1) by (simp add: m_def)
  then consider "acc AND m = 0" | "acc AND m \<noteq> 0" "acc AND m = m" by blast
  then have "dispatch_reg r cb (e # es) i st s =
    iter cb (found status (m # map irq_mask es) (fresh_masks acc (m # map irq_mask es)) i) s"
  proof cases
    case 1
    then have "st AND m = status AND m" by (simp only: st_def left_apart)
    with 1 e IH and_zero_not [of st m] show ?thesis
      by (cases "status AND m = 0") (simp_all add: dispatch_cons m_def del: dispatch_reg.simps)
  next
    case 2
    then have st: "st AND m = 0" by (simp only: st_def left_covered)
    with 2 IH and_zero_not [OF st] show ?thesis by (simp add: dispatch_cons m_def del: dispatch_reg.simps)
  qed
  then show ?case by (simp add: m_def st_def del: dispatch_reg.simps)
qed simp

lemma found_filter:
  "length bs = length ms \<Longrightarrow>
     found status ms bs i = map (\<lambda>q. i + int q) (filter (\<lambda>q. bs ! q \<and> status AND ms ! q \<noteq> 0) [0..<length ms])"
proof (induction ms arbitrary: bs i)
  case (Cons m ms)
  then obtain b bs' where bs: "bs = b # bs'" "length bs' = length ms" by (cases bs) auto
  have "found status (m # ms) bs i = (if b \<and> status AND m \<noteq> 0 then [i] else []) @
      map (\<lambda>q. i + 1 + int q) (filter (\<lambda>q. bs' ! q \<and> status AND ms ! q \<noteq> 0) [0..<length ms])"
    using Cons.IH [OF bs(2)] bs(1) by simp
  moreover have "[0..<length (m # ms)] = 0 # map Suc [0..<length ms]"
    by (simp add: upt_conv_Cons map_Suc_upt del: upt_Suc)
  ultimately show ?case by (simp add: bs(1) filter_map comp_def algebra_simps del: upt_Suc)
qed simp

subsection \<open>All registers\<close>

text \<open>The masks of the table by block.\<close>

definition full_blocks :: "u32 list list" where
  "full_blocks = map (map irq_mask)
     [irq_map_intr, irq_map_intr2, irq_map_hist, irq_map_intf_0, irq_map_intf_1, irq_map_intf_2, irq_map_intf_3,
      irq_map_intf_4, irq_map_ad4_0, irq_map_ad4_1, irq_map_intf_tear_1, irq_map_intf_tear_2,
      irq_map_roi_misr_0, irq_map_roi_misr_1, irq_map_roi_misr_2, irq_map_roi_misr_3, irq_map_roi_misr_4, irq_map_roi_misr_5]"

lemma full_blocks_nested: "list_all (nested 0) full_blocks"
  by code_simp

lemma full_blocks_length: "list_all (\<lambda>b. length b = 32) full_blocks" "length full_blocks = 18"
  by code_simp+

lemma full_blocks_concat: "concat full_blocks = map irq_mask sde_irq_map"
  by (simp add: full_blocks_def sde_irq_map_def)

lemma full_blocks_nth: "j < 576 \<Longrightarrow> full_blocks ! (j div 32) ! (j mod 32) = irq_mask (sde_irq_map ! j)"
  using concat_block [of full_blocks 32 j] full_blocks_length full_blocks_concat
  by (simp add: list_all_iff)

text \<open>The first entry of its block with its bits.\<close>

definition first_with_bit :: "nat \<Rightarrow> bool" where
  "first_with_bit i \<longleftrightarrow> (\<forall>j \<in> {32 * (i div 32)..<i}. irq_mask (sde_irq_map ! j) AND irq_mask (sde_irq_map ! i) = 0)"

lemma fresh_masks_nth: "q < length ms \<Longrightarrow> fresh_masks acc ms ! q \<longleftrightarrow> acc AND ms ! q = 0 \<and> (\<forall>p < q. ms ! p AND ms ! q = 0)"
proof (induction ms arbitrary: acc q)
  case (Cons m ms)
  show ?case
  proof (cases q)
    case (Suc q')
    then show ?thesis using Cons.IH [of q' "acc OR m"] Cons.prems by (auto simp: and_or_zero less_Suc_eq_0_disj)
  qed simp
qed simp

lemma fresh_nth:
  assumes "b < 18" "q < 32"
  shows "fresh_masks 0 (full_blocks ! b) ! q \<longleftrightarrow> first_with_bit (32 * b + q)"
proof -
  have l: "length (full_blocks ! b) = 32" using full_blocks_length assms(1) by (simp add: list_all_length)
  have m: "full_blocks ! b ! p = irq_mask (sde_irq_map ! (32 * b + p))" if "p < 32" for p
    using full_blocks_nth [of "32 * b + p"] assms(1) that by simp
  have "{32 * b..<32 * b + q} = (\<lambda>p. 32 * b + p) ` {..<q}"
    using image_add_atLeastLessThan [of "32 * b" 0 q] by (simp add: lessThan_atLeast0 add.commute)
  then have "first_with_bit (32 * b + q) \<longleftrightarrow> (\<forall>p < q. full_blocks ! b ! p AND full_blocks ! b ! q = 0)"
    using assms(2) m by (auto simp: first_with_bit_def)
  then show ?thesis using fresh_masks_nth [of q "full_blocks ! b" 0] l assms(2) by simp
qed

lemma not_first_40: "\<not> first_with_bit 40"
proof -
  have "irq_mask (sde_irq_map ! 39) AND irq_mask (sde_irq_map ! 40) \<noteq> 0"
    by (simp add: sde_irq_map_def nth_append) (simp add: irq_map_intr2_def reserved_def nth_append irq_def BIT_def)
  moreover have "(39 :: nat) \<in> {32 * (40 div 32)..<40}" by simp
  ultimately show ?thesis unfolding first_with_bit_def by blast
qed

text \<open>The block of a register in the table of a booted driver.\<close>

lemma booted_block:
  assumes "booted irqs im d" "b < 18"
  shows "map irq_mask (take 32 (drop (32 * b) im)) = full_blocks ! b"
proof (rule nth_equalityI)
  have l: "length (full_blocks ! b) = 32" using full_blocks_length assms(2) by (simp add: list_all_length)
  show "length (map irq_mask (take 32 (drop (32 * b) im))) = length (full_blocks ! b)"
    using booted_length [OF assms(1)] assms(2) l by simp
  fix q assume "q < length (map irq_mask (take 32 (drop (32 * b) im)))"
  then have q: "q < 32" "32 * b + q < 576" using assms(2) by simp_all
  have "(32 * b + q) div 32 = b" "(32 * b + q) mod 32 = q" using q by simp_all
  then have "full_blocks ! b ! q = irq_mask (sde_irq_map ! (32 * b + q))"
    using full_blocks_nth [OF q(2)] by simp
  then show "map irq_mask (take 32 (drop (32 * b) im)) ! q = full_blocks ! b ! q"
    using booted_entry(1) [OF assms(1) q(2)] booted_length [OF assms(1)] q assms(2) by simp
qed

lemma dispatch_regs_iter:
  assumes "\<And>q. q < length xs \<Longrightarrow> 0 \<le> sde_irq_idx (fst (xs ! q)) \<and> sde_irq_idx (fst (xs ! q)) * 32 + 32 \<le> int (length im)"
    and "\<And>q s. q < length xs \<Longrightarrow> dispatch_reg (int (r + q)) cb (take 32 (drop (nat (sde_irq_idx (fst (xs ! q)) * 32)) im))
      (sde_irq_idx (fst (xs ! q)) * 32) (snd (xs ! q)) s = iter cb (f (r + q)) s"
  shows "dispatch_regs im cb xs (int r) s = iter cb (concat (map f [r..<r + length xs])) s"
  using assms
proof (induction xs arbitrary: r s)
  case (Cons x xs)
  obtain reg status where x: "x = (reg, status)" by (cases x)
  have "dispatch_regs im cb xs (int (Suc r)) s = iter cb (concat (map f [Suc r..<Suc r + length xs])) s" for s
    by (rule Cons.IH) (use Cons.prems(1,2) [of "Suc _"] in simp_all)
  then have IH: "dispatch_regs im cb xs (int r + 1) = iter cb (concat (map f [Suc r..<Suc r + length xs]))"
    by (simp add: fun_eq_iff add.commute del: upt_Suc)
  have "[r..<r + length (x # xs)] = r # [Suc r..<Suc r + length xs]" by (simp add: upt_conv_Cons del: upt_Suc)
  then show ?case
    using Cons.prems(1) [of 0] Cons.prems(2) [of 0] IH x by (simp add: iter_append del: upt_Suc)
qed simp

lemma block_div: "32 * b \<le> x \<Longrightarrow> x < 32 * b + 32 \<Longrightarrow> x div 32 = (b :: nat)"
  by linarith

lemma blocks_upt: "concat (map (\<lambda>b. [32 * b..<32 * b + 32]) [0..<n]) = [0..<32 * n]"
proof (induction n)
  case (Suc n)
  then show ?case using upt_add_eq_append [of 0 "32 * n" 32] by (simp add: algebra_simps)
qed simp

lemma concat_filter_empty: "(\<And>b. \<not> P b \<Longrightarrow> f b = []) \<Longrightarrow> concat (map f (filter P bs)) = concat (map f bs)"
  by (induction bs) auto

text \<open>
  The interrupts that are found in the saved status words \<open>ss\<close>: those of a supported register whose
  bit is set and that are the first in their block with the bit.
\<close>

definition position :: "(nat \<Rightarrow> bool) \<Rightarrow> nat \<Rightarrow> nat" where
  "position irqs b = length (filter irqs [0..<b])"

definition pending_in :: "(nat \<Rightarrow> bool) \<Rightarrow> u32 list \<Rightarrow> nat list" where
  "pending_in irqs ss = filter (\<lambda>i. irqs (i div 32) \<and> ss ! position irqs (i div 32) AND irq_mask (sde_irq_map ! i) \<noteq> 0 \<and> first_with_bit i) [0..<576]"

lemma takeWhile_position: "b < n \<Longrightarrow> irqs b \<Longrightarrow> length (takeWhile (\<lambda>c. c \<noteq> b) (filter irqs [0..<n])) = position irqs b"
proof -
  assume b: "b < n" "irqs b"
  then have "[0..<n] = [0..<b] @ b # [Suc b..<n]"
    using upt_add_eq_append [of 0 b "n - b"] by (simp add: upt_conv_Cons)
  then have "takeWhile (\<lambda>c. c \<noteq> b) (filter irqs [0..<n]) = filter irqs [0..<b]"
    using b by (auto simp: takeWhile_append)
  then show ?thesis by (simp add: position_def)
qed

lemma position_nth:
  assumes "r < length (filter irqs [0..<n])"
  shows "position irqs (filter irqs [0..<n] ! r) = r"
proof -
  let ?bs = "filter irqs [0..<n]"
  have mem: "?bs ! r < n" "irqs (?bs ! r)" using nth_mem [OF assms] by simp_all
  have "takeWhile (\<lambda>c. c \<noteq> ?bs ! r) ?bs = take r ?bs"
    by (rule takeWhile_eq_take_P_nth) (use assms in \<open>auto simp: nth_eq_iff_index_eq\<close>)
  then show ?thesis using takeWhile_position [of "?bs ! r" n irqs] mem assms by simp
qed

lemma dispatch_booted:
  assumes b: "booted irqs im d" and ss: "length ss = sde_irq_size d"
  shows "dispatch_regs im cb (zip (sde_irq_tbl d) ss) 0 s = iter cb (map int (pending_in irqs ss)) s"
proof -
  let ?bs = "filter irqs [0..<18]"
  let ?P = "\<lambda>i. irqs (i div 32) \<and> ss ! position irqs (i div 32) AND irq_mask (sde_irq_map ! i) \<noteq> 0 \<and> first_with_bit i"
  let ?L = "\<lambda>b. map int (filter ?P [32 * b..<32 * b + 32])"
  have n: "length (sde_irq_tbl d) = length ?bs" "length ss = length ?bs" "length (zip (sde_irq_tbl d) ss) = length ?bs"
    using b ss by (simp_all add: booted_def intr_ok_def)
  have idx: "sde_irq_idx (sde_irq_tbl d ! q) = int (?bs ! q)" if "q < length ?bs" for q
    using b that n(1) arg_cong [of _ _ "\<lambda>xs. xs ! q"] by (simp add: booted_def) (metis nth_map)
  have bs: "?bs ! q < 18" "irqs (?bs ! q)" if "q < length ?bs" for q using nth_mem [OF that] by simp_all
  have bs': "?bs ! q \<le> 17" if "q < length ?bs" for q using bs(1) [OF that] by simp
  have reg: "dispatch_reg (int q) cb (take 32 (drop (32 * (?bs ! q)) im)) (int (32 * (?bs ! q))) (ss ! q) s = iter cb (?L (?bs ! q)) s"
    if q: "q < length ?bs" for q s
  proof -
    define c where "c = ?bs ! q"
    have c: "c < 18" "irqs c" "position irqs c = q" using bs [OF q] position_nth [OF q] by (simp_all add: c_def)
    have es: "map irq_mask (take 32 (drop (32 * c) im)) = full_blocks ! c" by (rule booted_block [OF b c(1)])
    have l: "length (full_blocks ! c) = 32" "length (fresh_masks 0 (full_blocks ! c)) = 32"
      using full_blocks_length c(1) arg_cong [OF es, of length] booted_length [OF b] by (simp_all add: list_all_length)
    have "reg_idx e = int q" if e: "e \<in> set (take 32 (drop (32 * c) im))" for e
    proof -
      obtain p where p': "p < length (take 32 (drop (32 * c) im))" "e = take 32 (drop (32 * c) im) ! p"
        using e unfolding in_set_conv_nth by blast
      then have p: "p < 32" "e = im ! (32 * c + p)" using booted_length [OF b] c(1) by simp_all
      then have "32 * c + p < 576" "(32 * c + p) div 32 = c" using c(1) by simp_all
      then show ?thesis using booted_entry(2) [OF b] p(2) c takeWhile_position [of c 18 irqs] by simp
    qed
    moreover have "nested 0 (full_blocks ! c)" using full_blocks_nested full_blocks_length(2) c(1) by (simp add: list_all_length)
    ultimately have "dispatch_reg (int q) cb (take 32 (drop (32 * c) im)) (int (32 * c)) (ss ! q) s =
        iter cb (found (ss ! q) (full_blocks ! c) (fresh_masks 0 (full_blocks ! c)) (int (32 * c))) s"
      using dispatch_reg_found [of 0 "take 32 (drop (32 * c) im)" "int q" cb "int (32 * c)" "ss ! q" s] es by simp
    moreover have "found (ss ! q) (full_blocks ! c) (fresh_masks 0 (full_blocks ! c)) (int (32 * c)) = ?L c"
    proof -
      have "(fresh_masks 0 (full_blocks ! c) ! p \<and> ss ! q AND full_blocks ! c ! p \<noteq> 0) = ?P (32 * c + p)" if "p < 32" for p
        using that c fresh_nth [of c p] full_blocks_nth [of "32 * c + p"] by auto
      then have "filter (\<lambda>p. fresh_masks 0 (full_blocks ! c) ! p \<and> ss ! q AND full_blocks ! c ! p \<noteq> 0) [0..<32] =
          filter (\<lambda>p. ?P (32 * c + p)) [0..<32]"
        by (intro filter_cong) auto
      moreover have "[32 * c..<32 * c + 32] = map (\<lambda>p. 32 * c + p) [0..<32]"
        using map_add_upt [of "32 * c" 32] by (simp add: add.commute)
      ultimately show ?thesis using l by (simp add: found_filter filter_map comp_def)
    qed
    ultimately show ?thesis by (simp add: c_def)
  qed
  have "dispatch_regs im cb (zip (sde_irq_tbl d) ss) (int 0) s =
      iter cb (concat (map (\<lambda>q. ?L (?bs ! q)) [0..<0 + length (zip (sde_irq_tbl d) ss)])) s"
    by (rule dispatch_regs_iter) (use n idx bs' reg booted_length [OF b] in \<open>simp_all add: mult.commute nat_mult_distrib\<close>)
  also have "map (\<lambda>q. ?L (?bs ! q)) [0..<0 + length (zip (sde_irq_tbl d) ss)] = map ?L ?bs"
    using n(3) by (intro nth_equalityI) simp_all
  also have "concat (map ?L ?bs) = concat (map ?L [0..<18])"
    by (rule concat_filter_empty) (auto simp: filter_empty_conv dest: block_div)
  also have "\<dots> = map int (filter ?P (concat (map (\<lambda>b. [32 * b..<32 * b + 32]) [0..<18])))"
    by (simp only: map_concat filter_concat map_map comp_def)
  also have "\<dots> = map int (pending_in irqs ss)" unfolding blocks_upt by (simp add: pending_in_def)
  finally show ?thesis by simp
qed

subsection \<open>The handler of one interrupt\<close>

text \<open>The callbacks that a trace contains.\<close>

definition callbacks :: "irq_trace \<Rightarrow> (nat \<times> int) list" where
  "callbacks w = concat (map (\<lambda>x. case fst x of Callback a i \<Rightarrow> [(a, i)] | _ \<Rightarrow> []) w)"

lemma callbacks_simps [simp]:
  "callbacks (reg_write a v w) = callbacks w"
  "callbacks (w @ [(Reg_read a, rv)]) = callbacks w"
  "callbacks (vcall (Callback c i) w) = callbacks w @ [(c, i)]"
  by (simp_all add: callbacks_def reg_write_def vcall_def)

lemma callbacks_fold: "callbacks (fold (\<lambda>a. vcall (Callback a i)) cbs w) = callbacks w @ map (\<lambda>a. (a, i)) cbs"
  by (induction cbs arbitrary: w) simp_all

lemma reg_value_callbacks: "reg_value (fold (\<lambda>a. vcall (Callback a i)) cbs w) off = reg_value w off"
  by (induction cbs arbitrary: w) (simp_all add: vcall_def reg_value_other)

text \<open>What dispatching leaves alone, and the callback lists and counters of a state.\<close>

definition same_core :: "sde_kms \<Rightarrow> sde_kms \<Rightarrow> bool" where
  "same_core k k' \<longleftrightarrow> hw_intr k' = hw_intr k \<and> irq_map k' = irq_map k \<and>
     irq_cb_tbl (irq_obj k') = irq_cb_tbl (irq_obj k) \<and> enable_counts (irq_obj k') = enable_counts (irq_obj k)"

definition irq_hits :: "sde_kms \<Rightarrow> nat \<Rightarrow> int" where
  "irq_hits k i = (case irq_counts (irq_obj k) of None \<Rightarrow> 0 | Some cs \<Rightarrow> if i < length cs then cs ! i else 0)"

definition registered :: "sde_kms \<Rightarrow> nat \<Rightarrow> nat list" where
  "registered k i = (case irq_cb_tbl (irq_obj k) of None \<Rightarrow> [] | Some t \<Rightarrow> if i < length t then t ! i else [])"

lemma synced_clear:
  assumes "intr_ok im d" "synced d w" "r < sde_irq_size d"
  shows "synced d (reg_write (clr_off (sde_irq_tbl d ! r)) v w)"
  using assms(2,3) by (simp add: synced_def intr_ok_offsets [OF assms(1)])

lemma clear_status_ok:
  assumes "intr_ok im d" "synced d w" "i < length im"
  obtains w' where "sde_hw_intr_clear_intr_status_nolock im (Some d) (int i) w = Some w'"
    and "synced d w'" and "callbacks w' = callbacks w"
proof (cases "reg_idx (im ! i) < 0")
  case True
  show ?thesis
    by (rule that [of w]) (use assms True in \<open>simp_all add: sde_hw_intr_clear_intr_status_nolock_def irq_entry_unsupported\<close>)
next
  case False
  have r: "nat (reg_idx (im ! i)) < sde_irq_size d" "length (sde_irq_tbl d) = sde_irq_size d"
    using intr_ok_reg [OF assms(1,3)] False assms(1) by (simp_all add: intr_ok_def)
  have "sde_hw_intr_clear_intr_status_nolock im (Some d) (int i) w =
      Some (reg_write (clr_off (sde_irq_tbl d ! nat (reg_idx (im ! i)))) (irq_mask (im ! i)) w)"
    using assms(1,3) False r by (simp add: sde_hw_intr_clear_intr_status_nolock_def irq_entry_supported)
  then show ?thesis by (rule that [OF _ synced_clear [OF assms(1,2) r(1)]]) simp
qed

lemma handler_ok:
  assumes ok: "core_ok d cs (k, w)" and i: "i < length cs"
  obtains k' w' where "sde_core_irq_callback_handler (int i) (k, w) = Some (k', w')" and "core_ok d cs (k', w')"
    and "same_core k k'" and "callbacks w' = callbacks w @ map (\<lambda>a. (a, int i)) (registered k i)"
    and "\<forall>j. irq_hits k' j = irq_hits k j + (if j = i then 1 else 0)"
proof -
  obtain cnt where cnt: "irq_counts (irq_obj k) = Some cnt" "length cnt = length cs"
    using ok unfolding core_ok_def by fastforce
  obtain tbl where tbl: "irq_cb_tbl (irq_obj k) = Some tbl" "length tbl = length cs"
    using ok unfolding core_ok_def by fastforce
  have k: "hw_intr k = Some d" "enable_counts (irq_obj k) = Some cs" "intr_ok (irq_map k) d" "synced d w"
    "counts_ok (irq_map k) d cs" using ok by (simp_all add: core_ok_def)
  define w1 where "w1 = fold (\<lambda>a. vcall (Callback a (int i))) (tbl ! i) w"
  have s1: "synced d w1" using k(4) by (simp add: synced_def w1_def reg_value_callbacks)
  have i': "i < length (irq_map k)" using i k(5) by (simp add: counts_ok_def)
  obtain w' where w': "sde_hw_intr_clear_intr_status_nolock (irq_map k) (Some d) (int i) w1 = Some w'"
    "synced d w'" "callbacks w' = callbacks w1"
    by (rule clear_status_ok [OF k(3) s1 i'])
  define k' where "k' = k\<lparr>irq_obj := (irq_obj k)\<lparr>irq_counts := Some (cnt[i := cnt ! i + 1])\<rparr>\<rparr>"
  have "sde_core_irq_callback_handler (int i) (k, w) = Some (k', w')"
    using k cnt tbl i w'(1) by (simp add: sde_core_irq_callback_handler_def array_at_def k'_def w1_def Let_def)
  moreover have "core_ok d cs (k', w')" using k cnt tbl w'(2) by (simp add: core_ok_def k'_def)
  moreover have "same_core k k'" by (simp add: same_core_def k'_def)
  moreover have "callbacks w' = callbacks w @ map (\<lambda>a. (a, int i)) (registered k i)"
    using w'(3) tbl i by (simp add: w1_def callbacks_fold registered_def)
  moreover have "\<forall>j. irq_hits k' j = irq_hits k j + (if j = i then 1 else 0)"
    using cnt i by (simp add: irq_hits_def k'_def nth_list_update)
  ultimately show ?thesis by (rule that)
qed

lemma same_core_trans: "same_core a b \<Longrightarrow> same_core b c \<Longrightarrow> same_core a c"
  by (simp add: same_core_def)

lemma same_core_registered: "same_core k k' \<Longrightarrow> registered k' = registered k"
  by (simp add: same_core_def registered_def fun_eq_iff)

lemma handlers_ok:
  assumes "core_ok d cs (k, w)" "\<forall>i \<in> set is. i < length cs"
  shows "\<exists>k' w'. iter sde_core_irq_callback_handler (map int is) (k, w) = Some (k', w') \<and> core_ok d cs (k', w') \<and> same_core k k' \<and>
    callbacks w' = callbacks w @ concat (map (\<lambda>i. map (\<lambda>a. (a, int i)) (registered k i)) is) \<and>
    (\<forall>j. irq_hits k' j = irq_hits k j + int (count_list is j))"
  using assms
proof (induction "is" arbitrary: k w)
  case Nil
  then show ?case by (simp add: same_core_def)
next
  case (Cons i "is")
  then have i: "i < length cs" by simp
  obtain k1 w1 where 1: "sde_core_irq_callback_handler (int i) (k, w) = Some (k1, w1)" "core_ok d cs (k1, w1)"
    "same_core k k1" "callbacks w1 = callbacks w @ map (\<lambda>a. (a, int i)) (registered k i)"
    "\<forall>j. irq_hits k1 j = irq_hits k j + (if j = i then 1 else 0)"
    by (rule handler_ok [OF Cons.prems(1) i])
  obtain k' w' where "iter sde_core_irq_callback_handler (map int is) (k1, w1) = Some (k', w')" "core_ok d cs (k', w')" "same_core k1 k'"
    "callbacks w' = callbacks w1 @ concat (map (\<lambda>i. map (\<lambda>a. (a, int i)) (registered k1 i)) is)"
    "\<forall>j. irq_hits k' j = irq_hits k1 j + int (count_list is j)"
    using Cons.IH [OF 1(2)] Cons.prems(2) by auto
  then show ?case using 1 same_core_trans [OF 1(3)] same_core_registered [OF 1(3)] by simp
qed

end
