(* ===== verification/Sde_Irq_Reach.thy ===== *)
theory Sde_Irq_Reach
  imports Sde_Irq_Dispatch
begin

section \<open>Interrupt core: reachable states\<close>

text \<open>
  The states of the interrupt core that initialisation, installation, balanced requests, the
  registration of callbacks and interrupts lead to, on a target with the interrupt registers \<open>irqs\<close>,
  with an invariant of all of them.
\<close>

inductive irq_reach :: "irq_env \<Rightarrow> (nat \<Rightarrow> bool) \<Rightarrow> sde_kms \<times> irq_trace \<Rightarrow> bool" for env irqs where
  install: "sde_hw_intr_init mem False False True irqs sde_irq_map = Some (Inr d, im) \<Longrightarrow>
    hw_intr k = Some d \<Longrightarrow> irq_map k = im \<Longrightarrow> (\<forall>i. mem' i) \<Longrightarrow> env w (Power_resource_enable True) = 0 \<Longrightarrow>
    sde_core_irq_preinstall env mem' (Some k) True w = Some (Some k', w') \<Longrightarrow> irq_reach env irqs (k', w')"
| request: "irq_reach env irqs (k, w) \<Longrightarrow> fst x < 576 \<Longrightarrow> snd x \<or> irq_count (k, w) (fst x) > 0 \<Longrightarrow>
    irq_op x (k, w) = Some (rc, Some k', w') \<Longrightarrow> irq_reach env irqs (k', w')"
| register: "irq_reach env irqs (k, w) \<Longrightarrow>
    sde_core_irq_register_callback (Some k) i cb = Some (rc, Some k') \<Longrightarrow> irq_reach env irqs (k', w)"
| unregister: "irq_reach env irqs (k, w) \<Longrightarrow>
    sde_core_irq_unregister_callback (Some k) i cb = Some (rc, Some k') \<Longrightarrow> irq_reach env irqs (k', w)"
| interrupt: "irq_reach env irqs (k, w) \<Longrightarrow> sde_core_irq env k w = Some (k', w') \<Longrightarrow> irq_reach env irqs (k', w')"

definition irq_inv :: "(nat \<Rightarrow> bool) \<Rightarrow> sde_hw_intr \<Rightarrow> int list \<Rightarrow> sde_kms \<times> irq_trace \<Rightarrow> bool" where
  "irq_inv irqs d cs s \<longleftrightarrow> core_ok d cs s \<and> booted irqs (irq_map (fst s)) d"

lemma booted_same_tbl:
  "booted irqs im d \<Longrightarrow> intr_ok im d' \<Longrightarrow> sde_irq_tbl d' = sde_irq_tbl d \<Longrightarrow> booted irqs im d'"
  by (auto simp: booted_def intr_ok_def)

lemma irq_inv_length: "irq_inv irqs d cs (k, w) \<Longrightarrow> length cs = 576 \<and> length (irq_map k) = 576"
  using booted_length by (auto simp: irq_inv_def core_ok_def counts_ok_def)

subsection \<open>Requests and callbacks\<close>

lemma irq_inv_request:
  assumes "irq_inv irqs d cs (k, w)" "i < 576" "b \<or> cs ! i > 0"
  obtains d' k' w' rc where "irq_op (i, b) (k, w) = Some (rc, Some k', w')"
    and "irq_inv irqs d' (cs[i := if b then cs ! i + 1 else cs ! i - 1]) (k', w')"
proof -
  have i: "i < length cs" using irq_inv_length [OF assms(1)] assms(2) by simp
  have c: "core_ok d cs (k, w)" and b: "booted irqs (irq_map k) d" using assms(1) by (simp_all add: irq_inv_def)
  obtain d' k' w' rc where "irq_op (i, b) (k, w) = Some (rc, Some k', w')"
    "core_ok d' (cs[i := if b then cs ! i + 1 else cs ! i - 1]) (k', w')" "irq_map k' = irq_map k" "sde_irq_tbl d' = sde_irq_tbl d"
    by (rule irq_op_step [OF c i assms(3)])
  moreover from this have "booted irqs (irq_map k') d'"
    using booted_same_tbl [OF b] by (simp add: core_ok_def)
  ultimately show ?thesis by (intro that [of rc k' w' d']) (simp_all only: irq_inv_def fst_conv)
qed

definition with_callbacks :: "sde_kms \<Rightarrow> nat list list \<Rightarrow> sde_kms" where
  "with_callbacks k t = k\<lparr>irq_obj := (irq_obj k)\<lparr>irq_cb_tbl := Some t\<rparr>\<rparr>"

lemma irq_inv_with_callbacks:
  "irq_inv irqs d cs (k, w) \<Longrightarrow> length t = length cs \<Longrightarrow> irq_inv irqs d cs (with_callbacks k t, w)"
  by (simp add: irq_inv_def core_ok_def with_callbacks_def)

lemma core_ok_callbacks:
  assumes "core_ok d cs (k, w)"
  obtains t where "irq_cb_tbl (irq_obj k) = Some t" "length t = length cs"
  using assms unfolding core_ok_def by fastforce

lemma irq_index_cases:
  assumes "core_ok d cs (k, w)" "\<not> irq_index_bad k i"
  obtains j where "i = int j" "j < length cs"
proof -
  have "0 \<le> i" "i < int (length cs)"
    using assms by (simp_all add: irq_index_bad_def core_ok_def intr_ok_def counts_ok_def)
  then show ?thesis by (intro that [of "nat i"]) auto
qed

text \<open>Registering and unregistering are defined and keep the invariant, whatever their arguments.\<close>

lemma register_result:
  assumes inv: "irq_inv irqs d cs (k, w)"
  obtains rc k' where "sde_core_irq_register_callback (Some k) i cb = Some (rc, Some k')" and "irq_inv irqs d cs (k', w)"
proof -
  have c: "core_ok d cs (k, w)" using inv by (simp add: irq_inv_def)
  obtain t where t: "irq_cb_tbl (irq_obj k) = Some t" "length t = length cs" by (rule core_ok_callbacks [OF c])
  have hw: "hw_intr k = Some d" using c by (simp add: core_ok_def)
  consider a where "cb = Some (a, True)" "\<not> irq_index_bad k i"
    | "cb = None \<or> (\<exists>a. cb = Some (a, False)) \<or> irq_index_bad k i" by (cases cb) auto
  then show ?thesis
  proof cases
    case 1
    obtain j where j: "i = int j" "j < length cs" by (rule irq_index_cases [OF c 1(2)])
    show ?thesis
      by (rule that [OF _ irq_inv_with_callbacks [OF inv, of "(map (removeAll a) t)[j := map (removeAll a) t ! j @ [a]]"]])
         (use 1 t hw j in \<open>simp_all add: sde_core_irq_register_callback_def with_callbacks_def Let_def\<close>)
  next
    case 2
    then show ?thesis
      by (intro that [OF _ inv, of "- EINVAL"])
         (auto simp: sde_core_irq_register_callback_def t hw split: option.splits prod.splits bool.splits)
  qed
qed

lemma unregister_result:
  assumes inv: "irq_inv irqs d cs (k, w)"
  obtains rc k' where "sde_core_irq_unregister_callback (Some k) i cb = Some (rc, Some k')" and "irq_inv irqs d cs (k', w)"
proof -
  have c: "core_ok d cs (k, w)" using inv by (simp add: irq_inv_def)
  obtain t where t: "irq_cb_tbl (irq_obj k) = Some t" "length t = length cs" by (rule core_ok_callbacks [OF c])
  have hw: "hw_intr k = Some d" "enable_counts (irq_obj k) = Some cs" using c by (simp_all add: core_ok_def)
  consider a where "cb = Some (a, True)" "\<not> irq_index_bad k i"
    | "cb = None \<or> (\<exists>a. cb = Some (a, False)) \<or> irq_index_bad k i" by (cases cb) auto
  then show ?thesis
  proof cases
    case 1
    obtain j where j: "i = int j" "j < length cs" by (rule irq_index_cases [OF c 1(2)])
    show ?thesis
      by (rule that [OF _ irq_inv_with_callbacks [OF inv, of "map (removeAll a) t"]])
         (use 1 t hw j in \<open>simp_all add: sde_core_irq_unregister_callback_def with_callbacks_def array_at_def Let_def\<close>)
  next
    case 2
    then show ?thesis
      by (intro that [OF _ inv, of "- EINVAL"])
         (auto simp: sde_core_irq_unregister_callback_def t hw split: option.splits prod.splits bool.splits)
  qed
qed

subsection \<open>Interrupts\<close>

lemma read_status_ok:
  assumes "intr_ok im d" "synced d w" "reg \<in> set (sde_irq_tbl d)"
  shows "synced d (snd (read_status env reg w))" "callbacks (snd (read_status env reg w)) = callbacks w"
proof -
  obtain r where r: "reg = sde_irq_tbl d ! r" "r < sde_irq_size d"
    using assms(1,3) by (metis in_set_conv_nth intr_ok_def)
  have rd: "synced d (snd (reg_read env off w))" "callbacks (snd (reg_read env off w)) = callbacks w"
    if "synced d w" for off w
    using that by (simp_all add: reg_read_def ext_def synced_def reg_value_other)
  show "synced d (snd (read_status env reg w))" "callbacks (snd (read_status env reg w)) = callbacks w"
    using assms(2) rd synced_clear [OF assms(1) _ r(2)] r(1)
    by (simp_all add: read_status_def Let_def case_prod_unfold)
qed

lemma statuses_loop_ok:
  assumes "intr_ok im d" "synced d w" "set regs \<subseteq> set (sde_irq_tbl d)"
  shows "length (fst (statuses_loop env regs w)) = length regs \<and> synced d (snd (statuses_loop env regs w)) \<and>
    callbacks (snd (statuses_loop env regs w)) = callbacks w"
  using assms(2,3)
proof (induction regs arbitrary: w)
  case (Cons reg regs)
  then show ?case
    using read_status_ok [OF assms(1) Cons.prems(1), of reg env] Cons.IH [of "snd (read_status env reg w)"]
    by (simp add: case_prod_unfold Let_def)
qed simp

text \<open>
  What the handler does first, by the numbers \<open>b\<close> of the registers: it reads the status \<open>st b\<close> and the enable
  register \<open>en b\<close>, and acknowledges the status unless it is 0. The environment answers the reads.
\<close>

definition status_calls :: "(nat \<Rightarrow> int) \<Rightarrow> (nat \<Rightarrow> int) \<Rightarrow> nat \<Rightarrow> irq_trace" where
  "status_calls st en b = (case offsets (int b) of (clr, enb, sts) \<Rightarrow>
     [(Reg_read sts, st b), (Reg_read enb, en b)] @
     (if (word_of_int (st b) :: u32) \<noteq> 0 then [(Reg_write clr (word_of_int (st b)), 0)] else []))"

definition answered :: "irq_env \<Rightarrow> irq_trace \<Rightarrow> irq_trace \<Rightarrow> bool" where
  "answered env w u \<longleftrightarrow> (\<forall>i < length u. \<forall>a. fst (u ! i) = Reg_read a \<longrightarrow> snd (u ! i) = env (w @ take i u) (Reg_read a))"

text \<open>
  The interrupts that a handler must find: those of a supported register whose bit is set in the status and
  enabled, the first one if several entries of the register have the bit.
\<close>

definition pending :: "(nat \<Rightarrow> bool) \<Rightarrow> (nat \<Rightarrow> int) \<Rightarrow> (nat \<Rightarrow> int) \<Rightarrow> nat list" where
  "pending irqs st en = filter (\<lambda>i. irqs (i div 32) \<and>
     (word_of_int (st (i div 32)) AND word_of_int (en (i div 32))) AND irq_mask (sde_irq_map ! i) \<noteq> 0 \<and> first_with_bit i) [0..<576]"

lemma answered_append: "answered env w u \<Longrightarrow> answered env (w @ u) v \<Longrightarrow> answered env w (u @ v)"
  by (auto simp: answered_def nth_append)

lemma statuses_loop_calls:
  "\<exists>xs. length xs = length regs \<and> fst (statuses_loop env regs w) = map (\<lambda>(s, e). word_of_int s AND word_of_int e) xs \<and>
     (\<exists>u. snd (statuses_loop env regs w) = w @ u \<and> answered env w u \<and>
        u = concat (map (\<lambda>(reg, s, e). [(Reg_read (status_off reg), s), (Reg_read (en_off reg), e)] @
          (if (word_of_int s :: u32) \<noteq> 0 then [(Reg_write (clr_off reg) (word_of_int s), 0)] else [])) (zip regs xs)))"
proof (induction regs arbitrary: w)
  case Nil
  then show ?case by (simp add: answered_def)
next
  case (Cons reg regs)
  define s where "s = env w (Reg_read (status_off reg))"
  define e where "e = env (w @ [(Reg_read (status_off reg), s)]) (Reg_read (en_off reg))"
  define u where "u = [(Reg_read (status_off reg), s), (Reg_read (en_off reg), e)] @
    (if (word_of_int s :: u32) \<noteq> 0 then [(Reg_write (clr_off reg) (word_of_int s), 0)] else [])"
  have r: "read_status env reg w = (word_of_int s AND word_of_int e, w @ u)"
    by (simp add: read_status_def reg_read_def reg_write_def vcall_def ext_def Let_def s_def e_def u_def)
  have a: "answered env w u" by (auto simp: answered_def u_def s_def e_def less_Suc_eq nth_Cons')
  obtain xs v where IH: "length xs = length regs" "fst (statuses_loop env regs (w @ u)) = map (\<lambda>(s, e). word_of_int s AND word_of_int e) xs"
    "snd (statuses_loop env regs (w @ u)) = (w @ u) @ v" "answered env (w @ u) v"
    "v = concat (map (\<lambda>(reg, s, e). [(Reg_read (status_off reg), s), (Reg_read (en_off reg), e)] @
      (if (word_of_int s :: u32) \<noteq> 0 then [(Reg_write (clr_off reg) (word_of_int s), 0)] else [])) (zip regs xs))"
    using Cons.IH [of "w @ u"] by blast
  have l: "statuses_loop env (reg # regs) w = ((word_of_int s AND word_of_int e) # fst (statuses_loop env regs (w @ u)), (w @ u) @ v)"
    using r IH(3) by (simp add: case_prod_unfold Let_def)
  show ?case
    by (rule exI [of _ "(s, e) # xs"], intro conjI exI [of _ "u @ v"])
       (use l IH(1,2,5) answered_append [OF a IH(4)] in \<open>simp_all add: u_def\<close>)
qed

text \<open>By the numbers of the registers, after initialisation.\<close>

lemma booted_statuses:
  assumes b: "booted irqs im d"
  obtains st en u where "snd (statuses_loop env (sde_irq_tbl d) w) = w @ u" "answered env w u"
    "u = concat (map (status_calls st en) (filter irqs [0..<18]))"
    "pending_in irqs (fst (statuses_loop env (sde_irq_tbl d) w)) = pending irqs st en"
proof -
  let ?bs = "filter irqs [0..<18]"
  obtain xs u where x: "length xs = length (sde_irq_tbl d)" "fst (statuses_loop env (sde_irq_tbl d) w) = map (\<lambda>(s, e). word_of_int s AND word_of_int e) xs"
    "snd (statuses_loop env (sde_irq_tbl d) w) = w @ u" "answered env w u"
    "u = concat (map (\<lambda>(reg, s, e). [(Reg_read (status_off reg), s), (Reg_read (en_off reg), e)] @
      (if (word_of_int s :: u32) \<noteq> 0 then [(Reg_write (clr_off reg) (word_of_int s), 0)] else [])) (zip (sde_irq_tbl d) xs))"
    using statuses_loop_calls [of "sde_irq_tbl d" env w] by blast
  have n: "length (sde_irq_tbl d) = length ?bs" using b by (simp add: booted_def intr_ok_def)
  have off: "(clr_off (sde_irq_tbl d ! q), en_off (sde_irq_tbl d ! q), status_off (sde_irq_tbl d ! q)) = offsets (int (?bs ! q))"
    if "q < length ?bs" for q
  proof -
    have "map (\<lambda>reg. (clr_off reg, en_off reg, status_off reg)) (sde_irq_tbl d) ! q = map (\<lambda>b. offsets (int b)) ?bs ! q"
      using b by (simp only: booted_def)
    then show ?thesis using that n by simp
  qed
  define st where "st c = fst (xs ! position irqs c)" for c
  define en where "en c = snd (xs ! position irqs c)" for c
  have pos: "position irqs (?bs ! q) = q" if "q < length ?bs" for q by (rule position_nth [OF that])
  have "map (\<lambda>(reg, s, e). [(Reg_read (status_off reg), s), (Reg_read (en_off reg), e)] @
      (if (word_of_int s :: u32) \<noteq> 0 then [(Reg_write (clr_off reg) (word_of_int s), 0)] else [])) (zip (sde_irq_tbl d) xs) =
    map (status_calls st en) ?bs"
  proof (rule nth_equalityI)
    fix q assume "q < length (map (\<lambda>(reg, s, e). [(Reg_read (status_off reg), s), (Reg_read (en_off reg), e)] @
      (if (word_of_int s :: u32) \<noteq> 0 then [(Reg_write (clr_off reg) (word_of_int s), 0)] else [])) (zip (sde_irq_tbl d) xs))"
    then have q: "q < length ?bs" using n x(1) by simp
    show "map (\<lambda>(reg, s, e). [(Reg_read (status_off reg), s), (Reg_read (en_off reg), e)] @
      (if (word_of_int s :: u32) \<noteq> 0 then [(Reg_write (clr_off reg) (word_of_int s), 0)] else [])) (zip (sde_irq_tbl d) xs) ! q =
      map (status_calls st en) ?bs ! q"
      using q n x(1) pos [OF q] off [OF q, symmetric] by (simp add: status_calls_def st_def en_def case_prod_unfold)
  qed (use n x(1) in simp)
  then have u: "u = concat (map (status_calls st en) ?bs)" using x(5) by simp
  have "position irqs c < length xs" if "c < 18" "irqs c" for c
    using takeWhile_position [where b = c and irqs = irqs and n = 18, OF that] first_pos_less [of c ?bs] that n x(1) by simp
  then have "map (\<lambda>(s, e). word_of_int s AND word_of_int e) xs ! position irqs c = (word_of_int (st c) AND word_of_int (en c) :: u32)"
    if "c < 18" "irqs c" for c
    using that by (simp add: st_def en_def case_prod_unfold)
  then have "pending_in irqs (fst (statuses_loop env (sde_irq_tbl d) w)) = pending irqs st en"
    unfolding pending_in_def pending_def x(2) by (intro filter_cong) auto
  with x(3,4) u show ?thesis by (rule that)
qed

lemma count_list_distinct: "distinct xs \<Longrightarrow> count_list xs j = (if j \<in> set xs then 1 else 0)"
  by (induction xs) auto

lemma callbacks_trace: "\<exists>v. fold (\<lambda>a. vcall (Callback a i)) cbs w = w @ v"
proof (induction cbs arbitrary: w)
  case (Cons a cbs)
  then show ?case using Cons.IH [of "vcall (Callback a i) w"] by (auto simp: vcall_def)
qed simp

lemma clear_trace: "sde_hw_intr_clear_intr_status_nolock im intr i w = Some w' \<Longrightarrow> \<exists>v. w' = w @ v"
  by (auto simp: sde_hw_intr_clear_intr_status_nolock_def reg_write_def vcall_def split: option.splits if_splits bind_splits)

lemma handler_trace:
  assumes "sde_core_irq_callback_handler i (k, w) = Some (k', w')"
  shows "\<exists>v. w' = w @ v"
proof -
  obtain cbs w1 where "w1 = fold (\<lambda>a. vcall (Callback a i)) cbs w" "sde_hw_intr_clear_intr_status_nolock (irq_map k) (hw_intr k) i w1 = Some w'"
    using assms by (auto simp: sde_core_irq_callback_handler_def Let_def split: bind_splits option.splits)
  then show ?thesis using callbacks_trace [of i cbs w] clear_trace by fastforce
qed

lemma handlers_trace: "iter sde_core_irq_callback_handler is (k, w) = Some (k', w') \<Longrightarrow> \<exists>v. w' = w @ v"
proof (induction "is" arbitrary: k w)
  case (Cons i "is")
  obtain k1 w1 where s: "sde_core_irq_callback_handler i (k, w) = Some (k1, w1)" "iter sde_core_irq_callback_handler is (k1, w1) = Some (k', w')"
    using Cons.prems by (auto split: bind_splits)
  then show ?case using Cons.IH [OF s(2)] handler_trace [OF s(1)] by auto
qed simp

lemma interrupt_result:
  assumes inv: "irq_inv irqs d cs (k, w)"
  obtains d' k' w' where "sde_core_irq env k w = Some (k', w')" and "irq_inv irqs d' cs (k', w')"
    and "\<exists>v. w' = snd (statuses_loop env (sde_irq_tbl d) w) @ v"
    and "registered k' = registered k" and "save_irq_status d' = fst (statuses_loop env (sde_irq_tbl d) w)"
    and "callbacks w' = callbacks w @ concat (map (\<lambda>i. map (\<lambda>a. (a, int i)) (registered k i)) (pending_in irqs (save_irq_status d')))"
    and "\<forall>j. irq_hits k' j = irq_hits k j + (if j \<in> set (pending_in irqs (save_irq_status d')) then 1 else 0)"
proof -
  have c: "core_ok d cs (k, w)" and b: "booted irqs (irq_map k) d" using inv by (simp_all add: irq_inv_def)
  have hw: "hw_intr k = Some d" "intr_ok (irq_map k) d" "synced d w" using c by (simp_all add: core_ok_def)
  have l: "length (sde_irq_tbl d) = sde_irq_size d" "length (save_irq_status d) = sde_irq_size d"
    using hw(2) by (simp_all add: intr_ok_def)
  obtain ss w1 where st: "statuses_loop env (sde_irq_tbl d) w = (ss, w1)" by (cases "statuses_loop env (sde_irq_tbl d) w")
  have ss: "length ss = sde_irq_size d" "synced d w1" "callbacks w1 = callbacks w"
    using statuses_loop_ok [OF hw(2,3), of "sde_irq_tbl d" env] st l by simp_all
  define d' where "d' = d\<lparr>save_irq_status := ss\<rparr>"
  define k1 where "k1 = k\<lparr>hw_intr := Some d'\<rparr>"
  have ok': "intr_ok (irq_map k) d'" "sde_irq_tbl d' = sde_irq_tbl d" "sde_irq_size d' = sde_irq_size d" "synced d' w1"
    using hw(2) ss(1,2) by (simp_all add: d'_def intr_ok_def synced_def)
  have "counts_ok (irq_map k) d' cs" using c by (simp add: core_ok_def counts_ok_def cached_def d'_def)
  then have c1: "core_ok d' cs (k1, w1)" using c ok' by (simp add: core_ok_def k1_def)
  have b': "booted irqs (irq_map k) d'" by (rule booted_same_tbl [OF b ok'(1,2)])
  have run: "sde_core_irq env k w = iter sde_core_irq_callback_handler (map int (pending_in irqs ss)) (k1, w1)"
    using hw(1) l st ss(1) dispatch_booted [OF b', of ss sde_core_irq_callback_handler "(k1, w1)"]
    by (simp add: sde_core_irq_def sde_hw_intr_get_interrupt_statuses_def sde_hw_intr_dispatch_irq_def d'_def k1_def Let_def)
  have "\<forall>i \<in> set (pending_in irqs ss). i < length cs" using irq_inv_length [OF inv] by (auto simp: pending_in_def)
  from handlers_ok [OF c1 this] obtain k' w' where h:
    "iter sde_core_irq_callback_handler (map int (pending_in irqs ss)) (k1, w1) = Some (k', w')" "core_ok d' cs (k', w')" "same_core k1 k'"
    "callbacks w' = callbacks w1 @ concat (map (\<lambda>i. map (\<lambda>a. (a, int i)) (registered k1 i)) (pending_in irqs ss))"
    "\<forall>j. irq_hits k' j = irq_hits k1 j + int (count_list (pending_in irqs ss) j)" by blast
  have k1: "registered k1 = registered k" "irq_hits k1 = irq_hits k" "irq_map k1 = irq_map k"
    by (simp_all add: k1_def registered_def irq_hits_def fun_eq_iff)
  have "distinct (pending_in irqs ss)" by (simp add: pending_in_def)
  then have cl: "count_list (pending_in irqs ss) j = (if j \<in> set (pending_in irqs ss) then 1 else 0)" for j
    by (simp add: count_list_distinct)
  have "irq_inv irqs d' cs (k', w')" using h(2,3) b' k1(3) by (simp add: irq_inv_def same_core_def)
  moreover have "registered k' = registered k" using same_core_registered [OF h(3)] k1(1) by simp
  moreover have "sde_core_irq env k w = Some (k', w')" using run h(1) by simp
  moreover have "\<exists>v. w' = snd (statuses_loop env (sde_irq_tbl d) w) @ v" using handlers_trace [OF h(1)] st by simp
  ultimately show ?thesis
    by (intro that [of k' w' d']) (use h k1 cl ss(3) st in \<open>simp_all add: d'_def\<close>)
qed

subsection \<open>The invariant\<close>

lemma irq_count_inv:
  assumes "irq_inv irqs d cs (k, w)" "i < 576"
  shows "irq_count (k, w) i = nat (cs ! i)"
proof -
  have "enable_counts (irq_obj k) = Some cs" using assms(1) by (simp add: irq_inv_def core_ok_def)
  moreover have "i < length cs" using irq_inv_length [OF assms(1)] assms(2) by simp
  ultimately show ?thesis by (simp add: irq_count_def)
qed

lemma irq_inv_ok: "irq_inv irqs d cs s \<Longrightarrow> irq_ok s"
  by (auto simp: irq_inv_def irq_ok_def)

lemma irq_reach_inv: "irq_reach env irqs s \<Longrightarrow> \<exists>d cs. irq_inv irqs d cs s"
proof (induction rule: irq_reach.induct)
  case (install mem d im k mem' w k' w')
  note b = sde_hw_intr_init_result [OF install(1)]
  have mem: "\<And>i. mem' i" using install(4) by simp
  note p = preinstall_ok [OF b install(2,3,6,5) mem]
  then obtain d' cs where c: "core_ok d' cs (k', w')" by (auto simp: irq_ok_def)
  then have "d' = d" using p(3) by (simp add: core_ok_def)
  with c b(1) p(2) show ?case by (auto simp: irq_inv_def)
next
  case (request k w x rc k' w')
  then obtain d cs where inv: "irq_inv irqs d cs (k, w)" by blast
  have pos: "snd x \<or> cs ! fst x > 0" using request(2,3) irq_count_inv [OF inv request(2)] by auto
  obtain d' k'' w'' rc' where r: "irq_op (fst x, snd x) (k, w) = Some (rc', Some k'', w'')"
    "irq_inv irqs d' (cs[fst x := if snd x then cs ! fst x + 1 else cs ! fst x - 1]) (k'', w'')"
    by (rule irq_inv_request [OF inv request(2) pos])
  have "k'' = k'" "w'' = w'" using r(1) request(4) by simp_all
  with r(2) show ?case by blast
next
  case (register k w i cb rc k')
  then obtain d cs where inv: "irq_inv irqs d cs (k, w)" by blast
  obtain rc' k'' where r: "sde_core_irq_register_callback (Some k) i cb = Some (rc', Some k'')" "irq_inv irqs d cs (k'', w)"
    by (rule register_result [OF inv])
  have "k'' = k'" using r(1) register(2) by simp
  with r(2) show ?case by blast
next
  case (unregister k w i cb rc k')
  then obtain d cs where inv: "irq_inv irqs d cs (k, w)" by blast
  obtain rc' k'' where r: "sde_core_irq_unregister_callback (Some k) i cb = Some (rc', Some k'')" "irq_inv irqs d cs (k'', w)"
    by (rule unregister_result [OF inv])
  have "k'' = k'" using r(1) unregister(2) by simp
  with r(2) show ?case by blast
next
  case (interrupt k w k' w')
  then obtain d cs where inv: "irq_inv irqs d cs (k, w)" by blast
  obtain d' k'' w'' where r: "sde_core_irq env k w = Some (k'', w'')" "irq_inv irqs d' cs (k'', w'')"
    by (rule interrupt_result [OF inv])
  have "k'' = k'" "w'' = w'" using r(1) interrupt(2) by simp_all
  with r(2) show ?case by blast
qed

lemma irq_reach_obtain:
  assumes "irq_reach env irqs (k, w)"
  obtains d cs where "irq_inv irqs d cs (k, w)"
  using irq_reach_inv [OF assms] by blast

subsection \<open>Enabling any list of indices\<close>

lemma enable_any:
  assumes c: "core_ok d cs (k, w)"
  obtains rc d' cs' k' w' where "core_irq_enable k i w = Some (rc, k', w')" and "core_ok d' cs' (k', w')"
proof (cases "irq_index_bad k i")
  case True
  then show ?thesis by (intro that [of "- EINVAL" k w d cs]) (simp_all add: core_irq_enable_def c)
next
  case False
  obtain j where j: "i = int j" "j < length cs" by (rule irq_index_cases [OF c False])
  show ?thesis by (rule core_irq_enable_ok [OF c j(2)]) (use j(1) in \<open>simp add: that\<close>)
qed

lemma enable_loop_defined: "core_ok d cs (k, w) \<Longrightarrow> irq_loop core_irq_enable is k w \<noteq> None"
proof (induction "is" arbitrary: d cs k w)
  case (Cons i "is")
  obtain rc d' cs' k' w' where r: "core_irq_enable k i w = Some (rc, k', w')" "core_ok d' cs' (k', w')"
    by (rule enable_any [OF Cons.prems])
  then show ?case using Cons.IH [OF r(2)] by simp
qed simp

lemma enable_defined_iff:
  assumes inv: "irq_inv irqs d cs (k, w)"
  shows "sde_core_irq_enable (Some k) (Some (i # is)) w = None \<longleftrightarrow> i < 0 \<or> i \<ge> 576"
proof -
  have c: "core_ok d cs (k, w)" and l: "length cs = 576" using inv irq_inv_length [OF inv] by (simp_all add: irq_inv_def)
  have cs: "enable_counts (irq_obj k) = Some cs" using c by (simp add: core_ok_def)
  have a: "array_at (enable_counts (irq_obj k)) i = None \<longleftrightarrow> i < 0 \<or> i \<ge> 576"
    unfolding cs using l by (auto simp: array_at_def nth_opt_def)
  obtain r where r: "irq_loop core_irq_enable (i # is) k w = Some r" using enable_loop_defined [OF c] by blast
  show ?thesis
    using a r by (cases "array_at (enable_counts (irq_obj k)) i") (auto simp: sde_core_irq_enable_def simp del: irq_loop.simps split: prod.splits)
qed

subsection \<open>Initialisation succeeds\<close>

lemma init_success:
  assumes "\<And>i. mem i" "b < 18" "irqs b"
  obtains d im where "sde_hw_intr_init mem False False True irqs sde_irq_map = Some (Inr d, im)"
proof -
  define bs where "bs = filter irqs [0..<18]"
  have "b \<in> set bs" using assms(2,3) by (simp add: bs_def)
  then have ne: "bs \<noteq> []" "length bs \<noteq> 0" by auto
  have le: "length bs \<le> 18" using length_filter_le [of irqs "[0..<18]"] by (simp add: bs_def)
  obtain im tbl where "init_irq_tables irqs sde_irq_map
        (replicate (length bs) \<lparr>clr_off = 0, en_off = 0, status_off = 0, sde_irq_idx = 0\<rparr>) = Some (0, im, tbl)"
    by (rule init_irq_tables_result [OF bs_def ne(1)])
  then show ?thesis
    using assms(1) ne(2) le
    by (intro that) (simp add: sde_hw_intr_init_def MDSS_INTR_MAX_def bs_def [symmetric] Let_def)
qed

text \<open>The registers of a booted driver.\<close>

lemma booted_register:
  assumes b: "booted irqs im d" and i: "i < 576" "irqs (i div 32)"
  shows "reg_idx (im ! i) = int (position irqs (i div 32))" "position irqs (i div 32) < sde_irq_size d"
    "sde_irq_idx (sde_irq_tbl d ! position irqs (i div 32)) = int (i div 32)"
proof -
  let ?bs = "filter irqs [0..<18]" and ?c = "i div 32"
  have c: "?c < 18" using i(1) by linarith
  then have m: "?c \<in> set ?bs" using i(2) by simp
  have p: "length (takeWhile (\<lambda>a. a \<noteq> ?c) ?bs) = position irqs ?c" by (rule takeWhile_position [where b = ?c and irqs = irqs and n = 18, OF c i(2)])
  show "reg_idx (im ! i) = int (position irqs ?c)" using booted_entry(2) [OF b i] p by simp
  have lt: "position irqs ?c < length ?bs" using first_pos_less [OF m] p by simp
  have tbl: "map sde_irq_idx (sde_irq_tbl d) = map int ?bs" "sde_irq_size d = length ?bs" "length (sde_irq_tbl d) = sde_irq_size d"
    using b by (simp_all add: booted_def intr_ok_def)
  show "position irqs ?c < sde_irq_size d" using lt tbl(2) by simp
  have "?bs ! position irqs ?c = ?c" using nth_length_takeWhile [OF first_pos_less [OF m]] p by simp
  then show "sde_irq_idx (sde_irq_tbl d ! position irqs ?c) = int ?c"
    using arg_cong [OF tbl(1), of "\<lambda>xs. xs ! position irqs ?c"] lt tbl(2,3) by simp
qed

subsection \<open>Looking up an interrupt\<close>

text \<open>The reference: the first index of the table with the given kind and instance.\<close>

definition first_index :: "sde_irq_type list \<Rightarrow> sde_intr_type \<Rightarrow> u32 \<Rightarrow> int" where
  "first_index im t inst =
     (case filter (\<lambda>i. intr_type (im ! i) = t \<and> instance_idx (im ! i) = inst) [0..<length im] of
        [] \<Rightarrow> - EINVAL
      | i # _ \<Rightarrow> int i)"

lemma filter_upt_Cons:
  "filter P [0..<Suc n] = (if P 0 then [0] else []) @ map Suc (filter (\<lambda>i. P (Suc i)) [0..<n])"
proof -
  have "[0..<Suc n] = 0 # map Suc [0..<n]" by (simp add: upt_conv_Cons map_Suc_upt del: upt_Suc)
  then show ?thesis by (simp add: filter_map comp_def del: upt_Suc)
qed

lemma irqidx_loop_first:
  "irqidx_loop im t inst j =
     (case filter (\<lambda>i. intr_type (im ! i) = t \<and> instance_idx (im ! i) = inst) [0..<length im] of
        [] \<Rightarrow> - EINVAL | i # _ \<Rightarrow> j + int i)"
proof (induction im arbitrary: j)
  case (Cons e im)
  then show ?case
    by (auto simp: filter_upt_Cons simp del: upt_Suc split: list.splits)
qed simp

lemma irqidx_lookup_first: "sde_hw_intr_irqidx_lookup im t inst = first_index im t inst"
  by (simp add: sde_hw_intr_irqidx_lookup_def first_index_def irqidx_loop_first split: list.split)

text \<open>An index is not the first one if an earlier entry has its kind and instance.\<close>

lemma first_index_not:
  assumes "a < b" "b < length im" "intr_type (im ! a) = intr_type (im ! b)" "instance_idx (im ! a) = instance_idx (im ! b)"
  shows "first_index im t inst \<noteq> int b"
proof
  let ?P = "\<lambda>i. intr_type (im ! i) = t \<and> instance_idx (im ! i) = inst"
  assume "first_index im t inst = int b"
  then obtain xs where f: "filter ?P [0..<length im] = b # xs"
    by (auto simp: first_index_def split: list.splits)
  then have "b \<in> set (filter ?P [0..<length im])" by simp
  then have "?P b" by simp
  with assms have "a \<in> set (filter ?P [0..<length im])" by simp
  moreover have "sorted (filter ?P [0..<length im])" by (simp add: sorted_wrt_filter)
  ultimately have "b \<le> a" unfolding f by auto
  with assms(1) show False by simp
qed

lemma roi_misr_entries:
  "map (\<lambda>i. (intr_type (sde_irq_map ! i), instance_idx (sde_irq_map ! i))) [384, 385, 386, 387] =
     replicate 4 (SDE_IRQ_TYPE_ROI_MISR, ROI_MISR_0)"
  by code_simp

lemma roi_misr_shadowed: "first_index sde_irq_map t inst \<notin> {385, 386, 387}"
  using first_index_not [of 384 385 sde_irq_map t inst] first_index_not [of 384 386 sde_irq_map t inst]
    first_index_not [of 384 387 sde_irq_map t inst] roi_misr_entries
  by (simp add: numeral_eq_Suc)

end
