(* ===== verification/Sde_Irq_Props.thy ===== *)
theory Sde_Irq_Props
  imports Sde_Irq_Reach
begin

section \<open>Interrupt core: what its clients rely on\<close>

text \<open>
  The properties of \<^verbatim>\<open>msm/sde/sde_hw_interrupts.c\<close> and \<^verbatim>\<open>msm/sde/sde_core_irq.c\<close>, with an example target
  that has the first two interrupt registers.
\<close>

subsection \<open>An example\<close>

definition irq_demo_env :: irq_env where
  "irq_demo_env w c = (case c of Reg_read a \<Rightarrow> if a = 0x100c \<or> a = 0x1008 then 0x100 else 0 | _ \<Rightarrow> 0)"

definition irq_demo_regs :: "nat \<Rightarrow> bool" where
  "irq_demo_regs b \<longleftrightarrow> b < 2"

definition irq_demo_boot :: "(int + sde_hw_intr) \<times> sde_irq_type list" where
  "irq_demo_boot = (case sde_hw_intr_init (\<lambda>_. True) False False True irq_demo_regs sde_irq_map of
     Some r \<Rightarrow> r | None \<Rightarrow> (Inl 0, []))"

definition irq_demo_kms :: sde_kms where
  "irq_demo_kms = \<lparr>hw_intr = (case fst irq_demo_boot of Inl e \<Rightarrow> None | Inr d \<Rightarrow> Some d),
     irq_obj = \<lparr>total_irqs = 0, irq_cb_tbl = None, enable_counts = None, irq_counts = None\<rparr>,
     irq_map = snd irq_demo_boot, enabled_mask = 0, irq_domain = None\<rparr>"

definition irq_demo_state :: "sde_kms \<times> irq_trace" where
  "irq_demo_state = (case sde_core_irq_preinstall irq_demo_env (\<lambda>_. True) (Some irq_demo_kms) True [] of
     Some (Some k, w) \<Rightarrow> (k, w) | _ \<Rightarrow> (irq_demo_kms, []))"

lemma irq_demo_reach: "irq_reach irq_demo_env irq_demo_regs irq_demo_state"
  and irq_demo_counts: "irq_count irq_demo_state = (\<lambda>_. 0)"
  and irq_demo_hw: "\<exists>d. hw_intr (fst irq_demo_state) = Some d"
proof -
  obtain d im where b: "sde_hw_intr_init (\<lambda>_. True) False False True irq_demo_regs sde_irq_map = Some (Inr d, im)"
    by (rule init_success [of "\<lambda>_. True" 0 irq_demo_regs]) (simp_all add: irq_demo_regs_def)
  have k: "hw_intr irq_demo_kms = Some d" "irq_map irq_demo_kms = im"
    by (simp_all add: irq_demo_kms_def irq_demo_boot_def b)
  have e: "irq_demo_env w (Power_resource_enable p) = 0" for w p by (simp add: irq_demo_env_def)
  obtain k' w' where p: "sde_core_irq_preinstall irq_demo_env (\<lambda>_. True) (Some irq_demo_kms) True [] = Some (Some k', w')"
    by (simp add: sde_core_irq_preinstall_def ext_def e Let_def k)
  have s: "irq_demo_state = (k', w')" by (simp add: irq_demo_state_def p)
  show "irq_reach irq_demo_env irq_demo_regs irq_demo_state"
    unfolding s by (rule irq_reach.install [OF b k _ e p]) simp
  note ok = preinstall_ok [OF sde_hw_intr_init_result [OF b] k p e]
  show "irq_count irq_demo_state = (\<lambda>_. 0)" "\<exists>d. hw_intr (fst irq_demo_state) = Some d"
    unfolding s using ok(3,4) by simp_all
qed

lemma irq_demo_pair:
  obtains k w d where "irq_demo_state = (k, w)" "irq_reach irq_demo_env irq_demo_regs (k, w)"
    "irq_count (k, w) = (\<lambda>_. 0)" "hw_intr k = Some d"
proof -
  obtain k w where s: "irq_demo_state = (k, w)" by (cases irq_demo_state)
  obtain d where "hw_intr k = Some d" using irq_demo_hw unfolding s by auto
  with irq_demo_reach irq_demo_counts show ?thesis unfolding s by (intro that [OF s])
qed

text \<open>The vertical-sync interrupt of the first interface is bit 25 of the first register.\<close>

lemma irq_demo_real: "real_irq irq_demo_regs 25"
  by (simp add: real_irq_def irq_demo_regs_def sde_irq_map_def nth_append)
     (simp add: irq_map_intr_def reserved_def nth_append irq_def BIT_def)

subsection \<open>Reference counting in hardware\<close>

text \<open>
  C29. Requests for interrupts are reference counted per index and reach the hardware, on a target that has
  the first interrupt register. From every state that initialisation, requests, callback registration and
  interrupts lead to, any sequence of requests for indices of the table, in which no interrupt is disabled
  more often than it was enabled, runs without undefined behaviour, and afterwards the enable register of the
  hardware has the bit of an interrupt set exactly if its requests are still outstanding. This holds for
  every real interrupt of a supported register other than the two indices 39 and 40, which share a bit (see
  below). Requests for any index of the table may be interleaved, including those of unsupported registers,
  which are refused.
\<close>

theorem irq_requests_reach_hardware:
  assumes "irq_reach env irqs (k, w)" and "irqs 0"
    and "\<forall>x \<in> set xs. fst x < 576" and "paired (irq_count (k, w)) xs"
    and "real_irq irqs i" and "i \<notin> {39, 40}"
  shows "\<exists>s'. irq_run xs (k, w) = Some s' \<and> (irq_unmasked s' i \<longleftrightarrow> bank_level i (irq_count (k, w) i) xs > 0)"
proof -
  obtain d cs where inv: "irq_inv irqs d cs (k, w)" by (rule irq_reach_obtain [OF assms(1)])
  have ok: "irq_ok (k, w)" by (rule irq_inv_ok [OF inv])
  have idx: "\<And>x. x \<in> set xs \<Longrightarrow> irq_index (k, w) (fst x)"
    using assms(3) irq_inv_length [OF inv] by (simp add: irq_index_def)
  have "booted irqs (irq_map k) d" using inv by (simp add: irq_inv_def)
  then have "irq_wired (k, w) i" using own_bit_booted [OF _ assms(2,5,6)] by (simp add: irq_wired_def)
  then show ?thesis
    using irq_run_defined [OF ok idx assms(4)] irq_bank.bank_requests_on [OF ok idx assms(4)] by simp
qed

theorem irq_requests_reach_hardware_witness:
  "\<exists>s'. irq_run [(25, True), (40, True), (25, True), (25, False)] irq_demo_state = Some s' \<and> irq_unmasked s' 25"
proof -
  obtain k w d where s: "irq_demo_state = (k, w)" "irq_reach irq_demo_env irq_demo_regs (k, w)" "irq_count (k, w) = (\<lambda>_. 0)"
    by (rule irq_demo_pair)
  have "irq_demo_regs 0" by (simp add: irq_demo_regs_def)
  from irq_requests_reach_hardware [OF s(2) this _ _ irq_demo_real, of "[(25, True), (40, True), (25, True), (25, False)]"]
  show ?thesis using s(1,3) by simp
qed

subsection \<open>Dispatching\<close>

text \<open>
  C30. The interrupt handler is exact. In every state that initialisation, requests, callback registration
  and interrupts lead to, it reads the status and the enable register of each supported register in order,
  gets the answers \<open>st\<close> and \<open>en\<close> of the hardware, and acknowledges each status that is not 0. Then it calls, in
  the order of the table, exactly the callbacks registered for the pending interrupts, once each and in the
  order of registration, and increases exactly their counters. Pending are the interrupts whose bit is set in
  the status and in the enable register, the first one of the table where several entries of a register have
  the bit. Nothing in it is undefined, and it leaves the registered callbacks as they are.
\<close>

theorem interrupt_dispatch_exact:
  assumes "irq_reach env irqs (k, w)"
  shows "\<exists>k' st en u v. sde_core_irq env k w = Some (k', w @ u @ v) \<and>
    u = concat (map (status_calls st en) (filter irqs [0..<18])) \<and> answered env w u \<and> registered k' = registered k \<and>
    callbacks (w @ u @ v) = callbacks w @ concat (map (\<lambda>i. map (\<lambda>a. (a, int i)) (registered k i)) (pending irqs st en)) \<and>
    (\<forall>j. irq_hits k' j = irq_hits k j + (if j \<in> set (pending irqs st en) then 1 else 0))"
proof -
  obtain d cs where inv: "irq_inv irqs d cs (k, w)" by (rule irq_reach_obtain [OF assms])
  obtain d' :: sde_hw_intr and k' w' where r: "sde_core_irq env k w = Some (k', w')"
    "\<exists>v. w' = snd (statuses_loop env (sde_irq_tbl d) w) @ v" "registered k' = registered k"
    "save_irq_status d' = fst (statuses_loop env (sde_irq_tbl d) w)"
    "callbacks w' = callbacks w @ concat (map (\<lambda>i. map (\<lambda>a. (a, int i)) (registered k i)) (pending_in irqs (save_irq_status d')))"
    "\<forall>j. irq_hits k' j = irq_hits k j + (if j \<in> set (pending_in irqs (save_irq_status d')) then 1 else 0)"
    by (rule interrupt_result [where env = env, OF inv])
  have "booted irqs (irq_map k) d" using inv by (simp add: irq_inv_def)
  from booted_statuses [OF this, of env w] obtain st en u where b: "snd (statuses_loop env (sde_irq_tbl d) w) = w @ u" "answered env w u"
    "u = concat (map (status_calls st en) (filter irqs [0..<18]))"
    "pending_in irqs (fst (statuses_loop env (sde_irq_tbl d) w)) = pending irqs st en" .
  from r(2) b(1) obtain v where v: "w' = w @ u @ v" by auto
  have p: "pending_in irqs (save_irq_status d') = pending irqs st en" unfolding r(4) by (rule b(4))
  from r(1,3,5,6) [unfolded p v] b(2,3) show ?thesis by blast
qed

theorem interrupt_dispatch_exact_witness:
  "\<exists>k' st en u v. sde_core_irq irq_demo_env (fst irq_demo_state) (snd irq_demo_state) = Some (k', snd irq_demo_state @ u @ v) \<and>
    u = concat (map (status_calls st en) (filter irq_demo_regs [0..<18])) \<and> answered irq_demo_env (snd irq_demo_state) u \<and>
    registered k' = registered (fst irq_demo_state) \<and>
    callbacks (snd irq_demo_state @ u @ v) =
      callbacks (snd irq_demo_state) @ concat (map (\<lambda>i. map (\<lambda>a. (a, int i)) (registered (fst irq_demo_state) i)) (pending irq_demo_regs st en)) \<and>
    (\<forall>j. irq_hits k' j = irq_hits (fst irq_demo_state) j + (if j \<in> set (pending irq_demo_regs st en) then 1 else 0))"
  by (rule interrupt_dispatch_exact) (simp add: irq_demo_reach)

text \<open>
  The two entries of the table with the same bit, the overflow interrupt of the concurrent
  writeback (39) and the read pointer interrupt of the split ping-pong block (40), are not told apart:
  the handler never dispatches index 40. In every reachable state an interrupt leaves the counter of
  index 40 unchanged and calls none of its callbacks, although index 40 can be enabled and callbacks
  can be registered for it.
\<close>

theorem shared_bit_never_dispatched:
  assumes "irq_reach env irqs (k, w)" and "sde_core_irq env k w = Some (k', w')"
  shows "irq_hits k' 40 = irq_hits k 40 \<and> filter (\<lambda>c. snd c = 40) (callbacks w') = filter (\<lambda>c. snd c = 40) (callbacks w)"
proof -
  obtain d cs where inv: "irq_inv irqs d cs (k, w)" by (rule irq_reach_obtain [OF assms(1)])
  obtain d' :: sde_hw_intr and k2 w2 where r: "sde_core_irq env k w = Some (k2, w2)"
    "callbacks w2 = callbacks w @ concat (map (\<lambda>i. map (\<lambda>a. (a, int i)) (registered k i)) (pending_in irqs (save_irq_status d')))"
    "\<forall>j. irq_hits k2 j = irq_hits k j + (if j \<in> set (pending_in irqs (save_irq_status d')) then 1 else 0)"
    by (rule interrupt_result [where env = env, OF inv])
  have eq: "k2 = k'" "w2 = w'" using r(1) assms(2) by simp_all
  have no: "40 \<notin> set (pending_in irqs ss)" for ss using not_first_40 by (simp add: pending_in_def)
  have "filter (\<lambda>c. snd c = 40) (concat (map (\<lambda>i. map (\<lambda>a. (a, int i)) (registered k i)) is)) = []"
    if "40 \<notin> set is" for "is"
    using that by (auto simp: filter_empty_conv)
  with no r(2,3) eq show ?thesis by simp
qed

theorem shared_bit_never_dispatched_witness:
  "\<exists>k' w'. sde_core_irq irq_demo_env (fst irq_demo_state) (snd irq_demo_state) = Some (k', w') \<and>
     irq_hits k' 40 = irq_hits (fst irq_demo_state) 40"
proof -
  obtain k w d where s: "irq_demo_state = (k, w)" "irq_reach irq_demo_env irq_demo_regs (k, w)" "irq_count (k, w) = (\<lambda>_. 0)"
    "hw_intr k = Some d" by (rule irq_demo_pair)
  obtain d0 cs where inv: "irq_inv irq_demo_regs d0 cs (k, w)" by (rule irq_reach_obtain [OF s(2)])
  obtain d' k' w' where r: "sde_core_irq irq_demo_env k w = Some (k', w')" by (rule interrupt_result [where env = irq_demo_env, OF inv])
  from shared_bit_never_dispatched [OF s(2) r] r show ?thesis unfolding s(1) by auto
qed

subsection \<open>Undefined behaviour, lookup and initialisation\<close>

text \<open>
  Enabling a list of interrupts is defined for every list whose first index is in the table, and
  only then: later invalid indices are refused with an error code, but the counter of the first index is
  read, for a message, before any index has been checked, so that a first index outside the table is an
  access outside the array.
\<close>

theorem irq_enable_defined_exactly:
  assumes "irq_reach env irqs (k, w)"
  shows "sde_core_irq_enable (Some k) (Some (i # is)) w = None \<longleftrightarrow> i < 0 \<or> i \<ge> 576"
proof -
  obtain d cs where inv: "irq_inv irqs d cs (k, w)" by (rule irq_reach_obtain [OF assms])
  then show ?thesis by (rule enable_defined_iff)
qed

theorem irq_enable_defined_exactly_witness:
  "sde_core_irq_enable (Some (fst irq_demo_state)) (Some [- 1]) (snd irq_demo_state) = None \<and>
   sde_core_irq_enable (Some (fst irq_demo_state)) (Some [25, 600]) (snd irq_demo_state) \<noteq> None"
proof -
  obtain k w d where s: "irq_demo_state = (k, w)" "irq_reach irq_demo_env irq_demo_regs (k, w)" by (rule irq_demo_pair)
  from irq_enable_defined_exactly [OF s(2), of "- 1" "[]"] irq_enable_defined_exactly [OF s(2), of 25 "[600]"]
  show ?thesis unfolding s(1) by simp
qed

text \<open>
  The search for an interrupt index returns the first entry of the table with the given kind and
  instance, or an error if there is none. In the driver's table the further entries of the region of
  interest signatures, which have the kind and instance of the entry before them, are never returned.
\<close>

theorem irq_lookup_first:
  "sde_hw_intr_irqidx_lookup im t inst = first_index im t inst \<and>
   sde_hw_intr_irqidx_lookup sde_irq_map t inst \<notin> {385, 386, 387}"
  using roi_misr_shadowed [of t inst] by (simp add: irqidx_lookup_first)

text \<open>
  C34. Initialisation on any target with at least one interrupt register succeeds when memory is
  available, and its tables are consistent: every entry of a supported block has the position of its
  register, that position is inside the table of registers, and the register there is the one of the
  block; all positions in the table, also those of unsupported blocks, are below the number of
  registers, so that the upper bound that the operations check, which admits one value too many, is never
  reached; the enable registers are pairwise different and different from every clear register.
\<close>

theorem irq_tables_consistent:
  assumes "\<forall>i. mem i" and "b < 18" and "irqs b"
  shows "\<exists>d im. sde_hw_intr_init mem False False True irqs sde_irq_map = Some (Inr d, im) \<and> intr_ok im d \<and>
    (\<forall>i. i < 576 \<and> irqs (i div 32) \<longrightarrow>
       reg_idx (im ! i) = int (position irqs (i div 32)) \<and> position irqs (i div 32) < sde_irq_size d \<and>
       sde_irq_idx (sde_irq_tbl d ! position irqs (i div 32)) = int (i div 32))"
proof -
  obtain d im where i: "sde_hw_intr_init mem False False True irqs sde_irq_map = Some (Inr d, im)"
    by (rule init_success [of mem b irqs]) (use assms in simp_all)
  have bt: "booted irqs im d" by (rule sde_hw_intr_init_result [OF i])
  then have "intr_ok im d" by (simp add: booted_def)
  with i booted_register [OF bt] show ?thesis by blast
qed

theorem irq_tables_consistent_witness:
  "\<exists>d im. sde_hw_intr_init (\<lambda>_. True) False False True irq_demo_regs sde_irq_map = Some (Inr d, im) \<and>
     reg_idx (im ! 40) = 1 \<and> sde_irq_idx (sde_irq_tbl d ! 1) = 1"
proof -
  obtain d im where r: "sde_hw_intr_init (\<lambda>_. True) False False True irq_demo_regs sde_irq_map = Some (Inr d, im)"
    "\<And>i. i < 576 \<and> irq_demo_regs (i div 32) \<Longrightarrow> reg_idx (im ! i) = int (position irq_demo_regs (i div 32)) \<and>
       sde_irq_idx (sde_irq_tbl d ! position irq_demo_regs (i div 32)) = int (i div 32)"
    using irq_tables_consistent [of "\<lambda>_. True" 0 irq_demo_regs] by (auto simp: irq_demo_regs_def)
  have "position irq_demo_regs 1 = 1" by (simp add: position_def irq_demo_regs_def)
  with r(1) r(2) [of 40] show ?thesis by (auto simp: irq_demo_regs_def)
qed

end
