(* ===== verification/Sde_Encoder_Rc.thy ===== *)
theory Sde_Encoder_Rc
  imports Sde_Rsc
begin

section \<open>Encoder resource control: model\<close>

text \<open>
  The resource control of \<^verbatim>\<open>msm/sde/sde_encoder.c\<close>: the state machine that switches the clocks, the
  interrupts, the cpu latency request and the coordinator vote of a display with the events of its
  commits, of its idle timer and of mode changes. The record has the fields of \<^verbatim>\<open>struct
  sde_encoder_virt\<close> that this code uses, with the capabilities of the display and of the target as
  flags. A physical encoder is \<open>None\<close> for a null pointer and otherwise its address and which of its
  operations are set; the master is a position in the list. The bitmap of busy encoders is one word.

  Everything the code calls is a call of the environment: power, connector clocks, the operations of
  the physical encoders, work items and timers, the crtc, the connector and the coordinator. What a
  call returns besides an \<open>int\<close> is asked of the environment record: the timing of the mode, and the
  crtc to wait for that the coordinator returns, \<open>None\<close> for the invalid one. The encoder, its device and
  its private data exist, and the mutex has no counterpart. \<open>None\<close> as a result is a null pointer access.
\<close>

datatype sde_enc_rc_events =
    SDE_ENC_RC_EVENT_KICKOFF | SDE_ENC_RC_EVENT_FRAME_DONE | SDE_ENC_RC_EVENT_PRE_STOP | SDE_ENC_RC_EVENT_STOP
  | SDE_ENC_RC_EVENT_PRE_MODESET | SDE_ENC_RC_EVENT_POST_MODESET | SDE_ENC_RC_EVENT_ENTER_IDLE
  | SDE_ENC_RC_EVENT_EARLY_WAKEUP

datatype sde_enc_rc_states =
    SDE_ENC_RC_STATE_OFF | SDE_ENC_RC_STATE_PRE_OFF | SDE_ENC_RC_STATE_ON | SDE_ENC_RC_STATE_MODESET
  | SDE_ENC_RC_STATE_IDLE

datatype msm_event_wait = MSM_ENC_COMMIT_DONE | MSM_ENC_TX_COMPLETE | MSM_ENC_VBLANK | MSM_ENC_ACTIVE_REGION

datatype enc_call =
    Core_power bool
  | Connector_clk_ctrl bool
  | Irq_control nat bool
  | Control_vblank_irq nat bool
  | Pm_qos bool
  | Phys_wait nat msm_event_wait
  | Rsc_state_update sde_rsc_state "sde_rsc_cmd_config option" int
  | Rsc_get_vsync_refcount
  | Rsc_state_update_complete
  | Rsc_reset_vsync_refcount
  | Get_qsync_mode
  | Get_inline_prefill
  | Find_crtc int
  | Primary_crtc_live
  | Wait_one_vblank
  | Rsc_msleep
  | Watchdog_vsync
  | Cancel_off_work
  | Mod_off_work nat
  | Cancel_vsync_work
  | Del_vsync_timer
  | Frame_pending
  | Autorefresh nat
  | Get_lp
  | Frame_event_cb u32

type_synonym enc_trace = "enc_call trace"

record mode_timing =
  mt_frame_rate :: u32
  mt_vtotal :: u32
  mt_prefill_lines :: u32
  mt_jitter_numer :: u32
  mt_jitter_denom :: u32

record enc_env =
  answer :: "enc_call env"
  mode_info :: "enc_trace \<Rightarrow> int + mode_timing"
  wait_crtc :: "enc_trace \<Rightarrow> int option"

record sde_encoder_phys =
  ph_addr :: nat
  op_irq_control :: bool
  op_control_vblank_irq :: bool
  op_wait :: "msm_event_wait \<Rightarrow> bool"
  op_is_autorefresh :: bool

record sde_encoder_virt =
  phys_encs :: "sde_encoder_phys option list"
  cur_master :: "nat option"
  enc_crtc :: "(int \<times> nat) option"
  rc_state :: sde_enc_rc_states
  idle_pc_enabled :: bool
  frame_busy_mask :: u64
  vblank_enabled :: bool
  elevated_ahb_vote :: bool
  has_rsc_client :: bool
  rsc_state_init :: bool
  rsc_config :: sde_rsc_cmd_config
  cap_vid :: bool
  cap_cmd :: bool
  is_primary :: bool
  is_dsi :: bool
  clone_mode :: bool
  frame_cb_set :: bool
  rev_620 :: bool
  cpu_mask_set :: bool

type_synonym enc_state = "sde_encoder_virt \<times> enc_trace"

definition MAX_CRTCS :: nat where "MAX_CRTCS = 16"
definition MAX_RSC_WAIT :: nat where "MAX_RSC_WAIT = 5"

abbreviation EWOULDBLOCK :: int where "EWOULDBLOCK \<equiv> 11"

definition ask :: "enc_env \<Rightarrow> enc_call \<Rightarrow> enc_trace \<Rightarrow> int \<times> enc_trace" where
  "ask env c w = ext (answer env) c w"

subsection \<open>The physical encoders\<close>

text \<open>A call of one operation for every encoder that has it, with its position.\<close>

definition for_phys :: "(sde_encoder_phys \<Rightarrow> bool) \<Rightarrow> (nat \<Rightarrow> enc_call) \<Rightarrow> sde_encoder_virt \<Rightarrow> enc_trace \<Rightarrow> enc_trace" where
  "for_phys has op enc w =
     fold (\<lambda>i. case phys_encs enc ! i of None \<Rightarrow> (\<lambda>w. w) | Some p \<Rightarrow> if has p then vcall (op i) else (\<lambda>w. w))
       [0..<length (phys_encs enc)] w"

definition sde_encoder_irq_control :: "sde_encoder_virt \<Rightarrow> bool \<Rightarrow> enc_trace \<Rightarrow> enc_trace" where
  "sde_encoder_irq_control enc enable w = for_phys op_irq_control (\<lambda>i. Irq_control i enable) enc w"

definition sde_encoder_modeset_helper_locked :: "sde_encoder_virt \<Rightarrow> sde_enc_rc_events \<Rightarrow> enc_trace \<Rightarrow> enc_trace" where
  "sde_encoder_modeset_helper_locked enc ev w =
     (if \<not> vblank_enabled enc then w
      else if ev = SDE_ENC_RC_EVENT_PRE_MODESET
      then for_phys op_control_vblank_irq (\<lambda>i. Control_vblank_irq i False) enc w
      else if ev = SDE_ENC_RC_EVENT_POST_MODESET
      then for_phys op_control_vblank_irq (\<lambda>i. Control_vblank_irq i True) enc w
      else w)"

text \<open>The operation is read through the pointer before the pointer is checked.\<close>

fun wait_loop :: "enc_env \<Rightarrow> msm_event_wait \<Rightarrow> sde_encoder_phys option list \<Rightarrow> nat \<Rightarrow> enc_trace \<Rightarrow> (int \<times> enc_trace) option" where
  "wait_loop env ev [] i w = Some (0, w)"
| "wait_loop env ev (None # ps) i w = None"
| "wait_loop env ev (Some p # ps) i w =
     (if op_wait p ev
      then let (ret, w) = ask env (Phys_wait i ev) w in
           if ret \<noteq> 0 then Some (ret, w) else wait_loop env ev ps (i + 1) w
      else wait_loop env ev ps (i + 1) w)"

definition sde_encoder_wait_for_event ::
    "enc_env \<Rightarrow> sde_encoder_virt \<Rightarrow> msm_event_wait \<Rightarrow> enc_trace \<Rightarrow> (int \<times> enc_trace) option" where
  "sde_encoder_wait_for_event env enc ev w = wait_loop env ev (phys_encs enc) 0 w"

subsection \<open>The cpu latency request\<close>

definition sde_encoder_pm_qos_add_request :: "sde_encoder_virt \<Rightarrow> enc_trace \<Rightarrow> enc_trace" where
  "sde_encoder_pm_qos_add_request enc w = (if cpu_mask_set enc then vcall (Pm_qos True) w else w)"

definition sde_encoder_pm_qos_remove_request :: "sde_encoder_virt \<Rightarrow> enc_trace \<Rightarrow> enc_trace" where
  "sde_encoder_pm_qos_remove_request enc w = (if cpu_mask_set enc then vcall (Pm_qos False) w else w)"

subsection \<open>The coordinator\<close>

text \<open>The state that an encoder asks for.\<close>

definition rsc_target :: "sde_encoder_virt \<Rightarrow> bool \<Rightarrow> bool \<Rightarrow> sde_rsc_state" where
  "rsc_target enc qsync enable =
     (let st = (if \<not> enable then SDE_RSC_IDLE_STATE
        else if rev_620 enc then
          (if clone_mode enc \<or> \<not> is_primary enc \<or> (is_primary enc \<and> qsync) then SDE_RSC_CLK_STATE
           else if cap_cmd enc then SDE_RSC_CMD_STATE
           else if cap_vid enc then SDE_RSC_VID_STATE
           else SDE_RSC_IDLE_STATE)
        else if clone_mode enc then SDE_RSC_CLK_STATE
        else if cap_cmd enc \<and> is_primary enc \<and> \<not> qsync then SDE_RSC_CMD_STATE
        else SDE_RSC_VID_STATE) in
      if rev_620 enc \<and> st = SDE_RSC_VID_STATE then SDE_RSC_CLK_STATE else st)"

text \<open>The timing is compared with the one last given to the coordinator.\<close>

definition update_rsc_config :: "mode_timing \<Rightarrow> u32 \<Rightarrow> sde_encoder_virt \<Rightarrow> sde_encoder_virt" where
  "update_rsc_config mt prefill enc =
     (let c = rsc_config enc in
      if fps c \<noteq> mt_frame_rate mt \<or> vtotal c \<noteq> mt_vtotal mt \<or> prefill_lines c \<noteq> prefill \<or>
         jitter_numer c \<noteq> mt_jitter_numer mt \<or> jitter_denom c \<noteq> mt_jitter_denom mt
      then enc\<lparr>rsc_config := c\<lparr>fps := mt_frame_rate mt, vtotal := mt_vtotal mt, prefill_lines := prefill,
                 jitter_numer := mt_jitter_numer mt, jitter_denom := mt_jitter_denom mt\<rparr>,
               rsc_state_init := False\<rparr>
      else enc)"

text \<open>
  The wait for the transition, with the number of attempts left; \<open>own\<close> is whether the awaited crtc is
  the one of the encoder. The result of an earlier wait is kept where no wait returns one.
\<close>

fun rsc_wait_loop ::
    "enc_env \<Rightarrow> sde_encoder_virt \<Rightarrow> bool \<Rightarrow> nat \<Rightarrow> int \<Rightarrow> enc_trace \<Rightarrow> (int \<times> enc_trace) option" where
  "rsc_wait_loop env enc own 0 ret w = Some (ret, w)"
| "rsc_wait_loop env enc own (Suc n) ret w = do {
     let (complete, w) = ask env Rsc_state_update_complete w;
     if complete \<noteq> 0 then Some (ret, w)
     else do {
       (ret, w) \<leftarrow> (if own then sde_encoder_wait_for_event env enc MSM_ENC_VBLANK w
                   else let (live, w) = ask env Primary_crtc_live w in
                        if live \<noteq> 0 then Some (ret, vcall Wait_one_vblank w)
                        else Some (ret, vcall Rsc_msleep w));
       let w = (if ret \<noteq> 0 \<and> own then vcall Watchdog_vsync w else w);
       rsc_wait_loop env enc own n ret w
     }
   }"

definition rsc_finish ::
    "enc_env \<Rightarrow> sde_encoder_virt \<Rightarrow> int \<Rightarrow> int \<Rightarrow> enc_trace \<Rightarrow> (int \<times> enc_trace) option" where
  "rsc_finish env enc cid wait_id w = do {
     let (refcount, w) = (if wait_id \<noteq> 0 then ask env Rsc_get_vsync_refcount w else (0, w));
     let (found, w) = (if cid \<noteq> wait_id then ask env (Find_crtc wait_id) w else (1, w));
     if cid \<noteq> wait_id \<and> found = 0 then Some (- EINVAL, w)
     else do {
       (ret, w) \<leftarrow> rsc_wait_loop env enc (cid = wait_id) MAX_RSC_WAIT 0 w;
       Some (ret, if refcount \<noteq> 0 then vcall Rsc_reset_vsync_refcount w else w)
     }
   }"

text \<open>\<open>config\<close> is the additional prefill of inline rotation, if any.\<close>

definition sde_encoder_update_rsc_client ::
    "enc_env \<Rightarrow> sde_encoder_virt \<Rightarrow> u32 option \<Rightarrow> bool \<Rightarrow> enc_trace \<Rightarrow> (int \<times> enc_state) option" where
  "sde_encoder_update_rsc_client env enc config enable w =
     (case enc_crtc enc of
        None \<Rightarrow> Some (- EINVAL, enc, w)
      | Some (cid, _) \<Rightarrow>
          if \<not> has_rsc_client enc then Some (0, enc, w)
          else (case mode_info env w of
             Inl rc \<Rightarrow> Some (0, enc, w)
           | Inr mt \<Rightarrow> do {
               let (qsync, w) = (if cur_master enc \<noteq> None then ask env Get_qsync_mode w else (0, w));
               let st = rsc_target enc (qsync \<noteq> 0) enable;
               let prefill = (case config of None \<Rightarrow> mt_prefill_lines mt | Some p \<Rightarrow> mt_prefill_lines mt + p);
               let enc = update_rsc_config mt prefill enc;
               let first = st \<noteq> SDE_RSC_IDLE_STATE \<and> \<not> rsc_state_init enc \<and> is_primary enc;
               let cfg = (if first then Some (rsc_config enc) else None);
               let enc = (if first then enc\<lparr>rsc_state_init := True\<rparr> else enc);
               let (ret, w) = ask env (Rsc_state_update st cfg cid) w;
               if ret \<noteq> 0 then Some (ret, enc, w)
               else (case wait_crtc env w of
                  None \<Rightarrow> Some (ret, enc, w)
                | Some wait_id \<Rightarrow> do {
                    (ret, w) \<leftarrow> rsc_finish env enc cid wait_id w;
                    Some (ret, enc, w)
                  })
             }))"

definition sde_encoder_resource_control_rsc_update ::
    "enc_env \<Rightarrow> sde_encoder_virt \<Rightarrow> bool \<Rightarrow> enc_trace \<Rightarrow> enc_state option" where
  "sde_encoder_resource_control_rsc_update env enc enable w =
     (if enc_crtc enc = None then Some (enc, w)
      else if enable
      then let (prefill, w) = ask env Get_inline_prefill w in
           map_option snd (sde_encoder_update_rsc_client env enc (Some (word_of_int prefill)) True w)
      else map_option snd (sde_encoder_update_rsc_client env enc None False w))"

subsection \<open>Clocks and interrupts\<close>

definition sde_encoder_resource_control_helper ::
    "enc_env \<Rightarrow> sde_encoder_virt \<Rightarrow> bool \<Rightarrow> enc_trace \<Rightarrow> int \<times> enc_state" where
  "sde_encoder_resource_control_helper env enc enable w =
     (if cur_master enc = None then (- EINVAL, enc, w)
      else if enable
      then let (rc, w) = ask env (Core_power True) w in
           if rc \<noteq> 0 then (rc, enc, w)
           else let enc = enc\<lparr>elevated_ahb_vote := True\<rparr>;
                    (rc, w) = ask env (Connector_clk_ctrl True) w in
           if rc \<noteq> 0 then (rc, enc, snd (ask env (Core_power False) w))
           else let w = sde_encoder_irq_control enc True w;
                    w = (if cap_cmd enc then sde_encoder_pm_qos_add_request enc w else w) in
           (0, enc, w)
      else let w = (if cap_cmd enc then sde_encoder_pm_qos_remove_request enc w else w);
               w = sde_encoder_irq_control enc False w;
               w = snd (ask env (Connector_clk_ctrl False) w);
               w = snd (ask env (Core_power False) w) in
           (0, enc, w))"

subsection \<open>The events\<close>

text \<open>Enabling everything and telling the coordinator, with the error of the former.\<close>

definition rc_enable_all :: "enc_env \<Rightarrow> sde_encoder_virt \<Rightarrow> enc_trace \<Rightarrow> (int \<times> enc_state) option" where
  "rc_enable_all env enc w =
     (let (ret, enc, w) = sde_encoder_resource_control_helper env enc True w in
      if ret \<noteq> 0 then Some (ret, enc, w)
      else map_option (Pair 0) (sde_encoder_resource_control_rsc_update env enc True w))"

definition rc_kickoff :: "enc_env \<Rightarrow> sde_encoder_virt \<Rightarrow> enc_trace \<Rightarrow> (int \<times> enc_state) option" where
  "rc_kickoff env enc w =
     (let w = snd (ask env Cancel_off_work w) in
      if rc_state enc = SDE_ENC_RC_STATE_ON then Some (0, enc, w)
      else if rc_state enc \<noteq> SDE_ENC_RC_STATE_OFF \<and> rc_state enc \<noteq> SDE_ENC_RC_STATE_IDLE
      then Some (- EINVAL, enc, w)
      else if cap_vid enc \<and> rc_state enc = SDE_ENC_RC_STATE_IDLE
      then Some (0, enc\<lparr>rc_state := SDE_ENC_RC_STATE_ON\<rparr>, sde_encoder_irq_control enc True w)
      else do {
        (ret, enc, w) \<leftarrow> rc_enable_all env enc w;
        if ret \<noteq> 0 then Some (ret, enc, w)
        else Some (0, enc\<lparr>rc_state := SDE_ENC_RC_STATE_ON\<rparr>, w)
      })"

definition autorefresh :: "enc_env \<Rightarrow> sde_encoder_virt \<Rightarrow> enc_trace \<Rightarrow> (bool \<times> enc_trace) option" where
  "autorefresh env enc w =
     (case cur_master enc of
        None \<Rightarrow> Some (False, w)
      | Some i \<Rightarrow> do {
          p \<leftarrow> nth_opt (phys_encs enc) i;
          ph \<leftarrow> p;
          if op_is_autorefresh ph then let (r, w) = ask env (Autorefresh i) w in Some (r \<noteq> 0, w)
          else Some (False, w)
        })"

text \<open>\<open>Get_lp\<close> is nonzero for the second low power mode.\<close>

definition rc_frame_done :: "enc_env \<Rightarrow> sde_encoder_virt \<Rightarrow> enc_trace \<Rightarrow> (int \<times> enc_state) option" where
  "rc_frame_done env enc w =
     (case enc_crtc enc of
        None \<Rightarrow> Some (- EINVAL, enc, w)
      | Some (cid, index) \<Rightarrow>
          if index \<ge> MAX_CRTCS then Some (- EINVAL, enc, w)
          else if rc_state enc \<noteq> SDE_ENC_RC_STATE_ON then Some (- EINVAL, enc, w)
          else do {
            let (pending, w) = ask env Frame_pending w;
            if pending > 1 then Some (0, enc, w)
            else do {
              (auto_on, w) \<leftarrow> autorefresh env enc w;
              let (lp2, w) = (if cur_master enc \<noteq> None then ask env Get_lp w else (0, w));
              Some (0, enc, if \<not> auto_on then vcall (Mod_off_work (if lp2 \<noteq> 0 then 1 else 58)) w else w)
            }
          })"

definition rc_pre_stop :: "enc_env \<Rightarrow> sde_encoder_virt \<Rightarrow> enc_trace \<Rightarrow> (int \<times> enc_state) option" where
  "rc_pre_stop env enc w =
     (let w = snd (ask env Cancel_off_work w) in
      if \<not> (cap_vid enc \<and> rc_state enc = SDE_ENC_RC_STATE_IDLE) \<and>
         (rc_state enc = SDE_ENC_RC_STATE_OFF \<or> rc_state enc = SDE_ENC_RC_STATE_IDLE)
      then Some (0, enc, w)
      else do {
        let w = (if cap_vid enc \<and> rc_state enc = SDE_ENC_RC_STATE_IDLE then sde_encoder_irq_control enc True w else w);
        (enc, w) \<leftarrow> sde_encoder_resource_control_rsc_update env enc False w;
        Some (0, enc\<lparr>rc_state := SDE_ENC_RC_STATE_PRE_OFF\<rparr>, w)
      })"

definition rc_stop :: "enc_env \<Rightarrow> sde_encoder_virt \<Rightarrow> enc_trace \<Rightarrow> (int \<times> enc_state) option" where
  "rc_stop env enc w =
     (let w = vcall Cancel_vsync_work w;
          w = (if is_dsi enc then vcall Del_vsync_timer w else w) in
      if rc_state enc = SDE_ENC_RC_STATE_OFF then Some (0, enc, w)
      else if rc_state enc = SDE_ENC_RC_STATE_ON \<or> rc_state enc = SDE_ENC_RC_STATE_MODESET then Some (- EINVAL, enc, w)
      else let (enc, w) = (if rc_state enc = SDE_ENC_RC_STATE_PRE_OFF
                           then snd (sde_encoder_resource_control_helper env enc False w) else (enc, w)) in
           Some (0, enc\<lparr>rc_state := SDE_ENC_RC_STATE_OFF\<rparr>, w))"

definition rc_pre_modeset :: "enc_env \<Rightarrow> sde_encoder_virt \<Rightarrow> enc_trace \<Rightarrow> (int \<times> enc_state) option" where
  "rc_pre_modeset env enc w = do {
     let w = snd (ask env Cancel_off_work w);
     if rc_state enc = SDE_ENC_RC_STATE_OFF then Some (0, enc, w)
     else do {
       (ret, enc, w) \<leftarrow> (if rc_state enc \<noteq> SDE_ENC_RC_STATE_ON then rc_enable_all env enc w else Some (0, enc, w));
       if ret \<noteq> 0 then Some (ret, enc, w)
       else do {
         let enc = enc\<lparr>rc_state := SDE_ENC_RC_STATE_ON\<rparr>;
         (ret, w) \<leftarrow> sde_encoder_wait_for_event env enc MSM_ENC_TX_COMPLETE w;
         if ret \<noteq> 0 \<and> ret \<noteq> - EWOULDBLOCK then Some (- EINVAL, enc, w)
         else do {
           let w = sde_encoder_irq_control enc False w;
           let w = sde_encoder_modeset_helper_locked enc SDE_ENC_RC_EVENT_PRE_MODESET w;
           Some (0, enc\<lparr>rc_state := SDE_ENC_RC_STATE_MODESET\<rparr>, w)
         }
       }
     }
   }"

definition rc_post_modeset :: "enc_env \<Rightarrow> sde_encoder_virt \<Rightarrow> enc_trace \<Rightarrow> (int \<times> enc_state) option" where
  "rc_post_modeset env enc w =
     (if rc_state enc = SDE_ENC_RC_STATE_OFF then Some (0, enc, w)
      else if rc_state enc \<noteq> SDE_ENC_RC_STATE_MODESET then Some (- EINVAL, enc, w)
      else do {
        let w = sde_encoder_modeset_helper_locked enc SDE_ENC_RC_EVENT_POST_MODESET w;
        let w = sde_encoder_irq_control enc True w;
        (rc, enc, w) \<leftarrow> sde_encoder_update_rsc_client env enc None True w;
        Some (0, enc\<lparr>rc_state := SDE_ENC_RC_STATE_ON\<rparr>, w)
      })"

definition rc_enter_idle :: "enc_env \<Rightarrow> sde_encoder_virt \<Rightarrow> enc_trace \<Rightarrow> (int \<times> enc_state) option" where
  "rc_enter_idle env enc w =
     (if rc_state enc \<noteq> SDE_ENC_RC_STATE_ON then Some (0, enc, w)
      else if frame_busy_mask enc \<noteq> 0 then Some (0, enc, w)
      else do {
        (enc, w) \<leftarrow> (if cap_vid enc then Some (enc, sde_encoder_irq_control enc False w)
                    else do {
                      (enc, w) \<leftarrow> sde_encoder_resource_control_rsc_update env enc False w;
                      Some (snd (sde_encoder_resource_control_helper env enc False w))
                    });
        Some (0, enc\<lparr>rc_state := SDE_ENC_RC_STATE_IDLE\<rparr>, w)
      })"

definition rc_early_wakeup :: "enc_env \<Rightarrow> sde_encoder_virt \<Rightarrow> enc_trace \<Rightarrow> (int \<times> enc_state) option" where
  "rc_early_wakeup env enc w =
     (case enc_crtc enc of
        None \<Rightarrow> Some (- EINVAL, enc, w)
      | Some (cid, index) \<Rightarrow>
          if index \<ge> MAX_CRTCS then Some (- EINVAL, enc, w)
          else if rc_state enc = SDE_ENC_RC_STATE_ON then do {
            (auto_on, w) \<leftarrow> autorefresh env enc w;
            if auto_on then Some (0, enc, w)
            else let (pending, w) = ask env Frame_pending w in
                 Some (0, enc, if pending = 0 then vcall (Mod_off_work 58) w else w)
          }
          else if rc_state enc = SDE_ENC_RC_STATE_IDLE then do {
            (ret, enc, w) \<leftarrow> rc_enable_all env enc w;
            if ret \<noteq> 0 then Some (ret, enc, w)
            else Some (0, enc\<lparr>rc_state := SDE_ENC_RC_STATE_ON\<rparr>, vcall (Mod_off_work 192) w)
          }
          else Some (0, enc, w))"

definition always_handled :: "sde_enc_rc_events \<Rightarrow> bool" where
  "always_handled ev \<longleftrightarrow> ev \<in> {SDE_ENC_RC_EVENT_KICKOFF, SDE_ENC_RC_EVENT_PRE_MODESET, SDE_ENC_RC_EVENT_POST_MODESET,
     SDE_ENC_RC_EVENT_STOP, SDE_ENC_RC_EVENT_PRE_STOP}"

definition sde_encoder_resource_control ::
    "enc_env \<Rightarrow> sde_encoder_virt \<Rightarrow> sde_enc_rc_events \<Rightarrow> enc_trace \<Rightarrow> (int \<times> enc_state) option" where
  "sde_encoder_resource_control env enc ev w =
     (if \<not> idle_pc_enabled enc \<and> \<not> always_handled ev then Some (0, enc, w)
      else case ev of
        SDE_ENC_RC_EVENT_KICKOFF \<Rightarrow> rc_kickoff env enc w
      | SDE_ENC_RC_EVENT_FRAME_DONE \<Rightarrow> rc_frame_done env enc w
      | SDE_ENC_RC_EVENT_PRE_STOP \<Rightarrow> rc_pre_stop env enc w
      | SDE_ENC_RC_EVENT_STOP \<Rightarrow> rc_stop env enc w
      | SDE_ENC_RC_EVENT_PRE_MODESET \<Rightarrow> rc_pre_modeset env enc w
      | SDE_ENC_RC_EVENT_POST_MODESET \<Rightarrow> rc_post_modeset env enc w
      | SDE_ENC_RC_EVENT_ENTER_IDLE \<Rightarrow> rc_enter_idle env enc w
      | SDE_ENC_RC_EVENT_EARLY_WAKEUP \<Rightarrow> rc_early_wakeup env enc w)"

subsection \<open>Callers\<close>

definition sde_encoder_control_idle_pc :: "sde_encoder_virt \<Rightarrow> bool \<Rightarrow> sde_encoder_virt" where
  "sde_encoder_control_idle_pc enc enable =
     (if idle_pc_enabled enc = enable then enc else enc\<lparr>idle_pc_enabled := enable\<rparr>)"

definition sde_encoder_idle_request :: "enc_env \<Rightarrow> sde_encoder_virt \<Rightarrow> enc_trace \<Rightarrow> (int \<times> enc_state) option" where
  "sde_encoder_idle_request env enc w =
     map_option (\<lambda>r. (0, snd r)) (sde_encoder_resource_control env enc SDE_ENC_RC_EVENT_ENTER_IDLE w)"

definition sde_encoder_off_work :: "enc_env \<Rightarrow> sde_encoder_virt \<Rightarrow> enc_trace \<Rightarrow> enc_state option" where
  "sde_encoder_off_work env enc w = map_option snd (sde_encoder_idle_request env enc w)"

definition sde_encoder_input_event_work_handler :: "enc_env \<Rightarrow> sde_encoder_virt \<Rightarrow> enc_trace \<Rightarrow> enc_state option" where
  "sde_encoder_input_event_work_handler env enc w =
     map_option snd (sde_encoder_resource_control env enc SDE_ENC_RC_EVENT_EARLY_WAKEUP w)"

definition sde_encoder_esd_trigger_work_handler :: "enc_env \<Rightarrow> sde_encoder_virt \<Rightarrow> enc_trace \<Rightarrow> enc_state option" where
  "sde_encoder_esd_trigger_work_handler env enc w =
     map_option snd (sde_encoder_resource_control env enc SDE_ENC_RC_EVENT_KICKOFF w)"

text \<open>The bits of the physical encoders with the address of the one that is ready.\<close>

definition clear_busy :: "sde_encoder_phys option list \<Rightarrow> nat \<Rightarrow> u64 \<Rightarrow> u64" where
  "clear_busy ps ready busy =
     fold (\<lambda>i m. if map_option ph_addr (ps ! i) = Some ready then unset_bit i m else m) [0..<length ps] busy"

definition frame_event :: "sde_encoder_virt \<Rightarrow> u32 \<Rightarrow> enc_trace \<Rightarrow> enc_trace" where
  "frame_event enc event w = (if frame_cb_set enc then vcall (Frame_event_cb event) w else w)"

definition sde_encoder_frame_done_callback ::
    "enc_env \<Rightarrow> sde_encoder_virt \<Rightarrow> nat \<Rightarrow> u32 \<Rightarrow> enc_trace \<Rightarrow> enc_state option" where
  "sde_encoder_frame_done_callback env enc ready event w =
     (if cur_master enc = None then Some (enc, w)
      else if event AND 7 \<noteq> 0 then
        if frame_busy_mask enc = 0 then Some (enc, w)
        else do {
          let enc = enc\<lparr>frame_busy_mask := clear_busy (phys_encs enc) ready (frame_busy_mask enc)\<rparr>;
          if frame_busy_mask enc = 0 then do {
            (ret, enc, w) \<leftarrow> sde_encoder_resource_control env enc SDE_ENC_RC_EVENT_FRAME_DONE w;
            Some (enc, frame_event enc event w)
          } else Some (enc, w)
        }
      else Some (enc, frame_event enc event w))"

end
