(* ===== verification/Sde_Encoder_Inv.thy ===== *)
theory Sde_Encoder_Inv
  imports Sde_Encoder_Rc
begin

section \<open>Encoder resource control: the resources held\<close>

text \<open>
  What the calls of a trace leave behind: references to the core power and to the connector clocks that
  successful enables took, latency requests, the interrupts of each physical encoder, and the last state
  asked of the coordinator. The references that a failed enable leaves (the power handle counts one,
  \<^verbatim>\<open>sde_power_handle.c\<close>) are counted apart: \<open>enables\<close> are all enables less the disables, and \<open>failed\<close>
  those enables that failed.
\<close>

record res =
  pw :: int
  cc :: int
  qos :: int
  irqs :: "nat \<Rightarrow> bool"
  vote :: sde_rsc_state

definition res0 :: res where
  "res0 = \<lparr>pw = 0, cc = 0, qos = 0, irqs = (\<lambda>_. False), vote = SDE_RSC_IDLE_STATE\<rparr>"

definition effect :: "enc_call \<times> int \<Rightarrow> res \<Rightarrow> res" where
  "effect x r = (case fst x of
     Core_power b \<Rightarrow> r\<lparr>pw := pw r + (if b then if snd x = 0 then 1 else 0 else - 1)\<rparr>
   | Connector_clk_ctrl b \<Rightarrow> r\<lparr>cc := cc r + (if b then if snd x = 0 then 1 else 0 else - 1)\<rparr>
   | Pm_qos b \<Rightarrow> r\<lparr>qos := qos r + (if b then 1 else - 1)\<rparr>
   | Irq_control i b \<Rightarrow> r\<lparr>irqs := (irqs r)(i := b)\<rparr>
   | Rsc_state_update st c i \<Rightarrow> r\<lparr>vote := st\<rparr>
   | _ \<Rightarrow> r)"

definition res_of :: "enc_trace \<Rightarrow> res" where
  "res_of w = fold effect w res0"

definition enables :: "(bool \<Rightarrow> enc_call) \<Rightarrow> enc_trace \<Rightarrow> int" where
  "enables f w = trace_sum (\<lambda>x. if fst x = f True then 1 else if fst x = f False then - 1 else 0) w"

definition failed :: "(bool \<Rightarrow> enc_call) \<Rightarrow> enc_trace \<Rightarrow> int" where
  "failed f w = trace_sum (\<lambda>x. if fst x = f True \<and> snd x \<noteq> 0 then 1 else 0) w"

lemma res_of_enables: "pw (res_of w) = enables Core_power w - failed Core_power w"
  "cc (res_of w) = enables Connector_clk_ctrl w - failed Connector_clk_ctrl w"
proof (induction w rule: rev_induct)
  case (snoc x w)
  {
    case 1
    then show ?case using snoc.IH
      by (cases "fst x") (auto simp: res_of_def enables_def failed_def effect_def)
  next
    case 2
    then show ?case using snoc.IH
      by (cases "fst x") (auto simp: res_of_def enables_def failed_def effect_def)
  }
qed (simp_all add: res_of_def res0_def enables_def failed_def)

lemma res_of_vcall [simp]: "res_of (vcall c w) = effect (c, 0) (res_of w)"
  by (simp add: res_of_def vcall_def)

lemma res_of_ask [simp]: "res_of (snd (ask env c w)) = effect (c, fst (ask env c w)) (res_of w)"
  by (simp add: res_of_def ask_def ext_def)

definition quiet :: "enc_call \<Rightarrow> bool" where
  "quiet c = (case c of Core_power _ \<Rightarrow> False | Connector_clk_ctrl _ \<Rightarrow> False | Pm_qos _ \<Rightarrow> False | Irq_control _ _ \<Rightarrow> False
     | Rsc_state_update _ _ _ \<Rightarrow> False | _ \<Rightarrow> True)"

lemma effect_quiet [simp]: "quiet c \<Longrightarrow> effect (c, rc) r = r"
  by (cases c) (simp_all add: effect_def quiet_def)

lemma quiet_calls [simp]:
  "quiet (Control_vblank_irq i b)" "quiet (Phys_wait i ev)" "quiet Rsc_get_vsync_refcount" "quiet Rsc_state_update_complete"
  "quiet Rsc_reset_vsync_refcount" "quiet Get_qsync_mode" "quiet Get_inline_prefill" "quiet (Find_crtc a)"
  "quiet Primary_crtc_live" "quiet Wait_one_vblank" "quiet Rsc_msleep" "quiet Watchdog_vsync" "quiet Cancel_off_work"
  "quiet (Mod_off_work n)" "quiet Cancel_vsync_work" "quiet Del_vsync_timer" "quiet Frame_pending" "quiet (Autorefresh i)"
  "quiet Get_lp" "quiet (Frame_event_cb u)"
  by (simp_all add: quiet_def)

subsection \<open>Operations of the physical encoders\<close>

definition has_irq :: "sde_encoder_virt \<Rightarrow> nat \<Rightarrow> bool" where
  "has_irq enc i \<longleftrightarrow> i < length (phys_encs enc) \<and> (case phys_encs enc ! i of None \<Rightarrow> False | Some p \<Rightarrow> op_irq_control p)"

lemma irq_fold:
  "n \<le> length (phys_encs enc) \<Longrightarrow>
     res_of (fold (\<lambda>i. case phys_encs enc ! i of None \<Rightarrow> (\<lambda>w. w)
         | Some p \<Rightarrow> if op_irq_control p then vcall (Irq_control i b) else (\<lambda>w. w)) [0..<n] w) =
     (res_of w)\<lparr>irqs := (\<lambda>i. if i < n \<and> has_irq enc i then b else irqs (res_of w) i)\<rparr>"
proof (induction n)
  case (Suc n)
  then show ?case
    by (auto simp: has_irq_def effect_def fun_eq_iff less_Suc_eq split: option.splits)
qed (simp add: fun_eq_iff)

lemma irq_control_res [simp]:
  "res_of (sde_encoder_irq_control enc b w) = (res_of w)\<lparr>irqs := (\<lambda>i. if has_irq enc i then b else irqs (res_of w) i)\<rparr>"
proof -
  have "(\<lambda>i. if i < length (phys_encs enc) \<and> has_irq enc i then b else irqs (res_of w) i) =
      (\<lambda>i. if has_irq enc i then b else irqs (res_of w) i)"
    by (auto simp: has_irq_def fun_eq_iff)
  with irq_fold [of "length (phys_encs enc)" enc b w] show ?thesis
    by (simp add: sde_encoder_irq_control_def for_phys_def)
qed

lemma vblank_fold:
  "res_of (fold (\<lambda>i. case phys_encs enc ! i of None \<Rightarrow> (\<lambda>w. w)
     | Some p \<Rightarrow> if has p then vcall (Control_vblank_irq i b) else (\<lambda>w. w)) is w) = res_of w"
  by (induction "is" arbitrary: w) (auto split: option.splits)

lemma modeset_helper_res [simp]: "res_of (sde_encoder_modeset_helper_locked enc ev w) = res_of w"
  by (simp add: sde_encoder_modeset_helper_locked_def for_phys_def vblank_fold)

lemma pm_qos_res [simp]:
  "res_of (sde_encoder_pm_qos_add_request enc w) = (res_of w)\<lparr>qos := qos (res_of w) + (if cpu_mask_set enc then 1 else 0)\<rparr>"
  "res_of (sde_encoder_pm_qos_remove_request enc w) = (res_of w)\<lparr>qos := qos (res_of w) - (if cpu_mask_set enc then 1 else 0)\<rparr>"
  by (simp_all add: sde_encoder_pm_qos_add_request_def sde_encoder_pm_qos_remove_request_def effect_def)

text \<open>Waiting is defined if no physical encoder is null, and it changes no resource.\<close>

lemma wait_loop_result:
  assumes "\<forall>p \<in> set ps. p \<noteq> None"
  shows "\<exists>ret w'. wait_loop env ev ps i w = Some (ret, w') \<and> res_of w' = res_of w"
  using assms
proof (induction env ev ps i w rule: wait_loop.induct)
  case (3 env ev p ps i w)
  obtain ret w1 where a: "ask env (Phys_wait i ev) w = (ret, w1)" by (cases "ask env (Phys_wait i ev) w")
  then have "res_of w1 = res_of w" using res_of_ask [of env "Phys_wait i ev" w] by simp
  with 3 a show ?case by (auto simp: Let_def)
qed simp_all

lemma wait_for_event_result:
  assumes "\<forall>p \<in> set (phys_encs enc). p \<noteq> None"
  obtains ret w' where "sde_encoder_wait_for_event env enc ev w = Some (ret, w')" "res_of w' = res_of w"
  using wait_loop_result [OF assms, of env ev 0 w] by (auto simp: sde_encoder_wait_for_event_def)

subsection \<open>The coordinator\<close>

lemma rsc_wait_loop_result:
  assumes "\<forall>p \<in> set (phys_encs enc). p \<noteq> None"
  shows "\<exists>ret' w'. rsc_wait_loop env enc own n ret w = Some (ret', w') \<and> res_of w' = res_of w"
proof (induction n arbitrary: ret w)
  case (Suc n)
  define w1 where "w1 = snd (ask env Rsc_state_update_complete w)"
  have w1: "res_of w1 = res_of w" by (simp add: w1_def)
  obtain r v where v: "sde_encoder_wait_for_event env enc MSM_ENC_VBLANK w1 = Some (r, v)" "res_of v = res_of w1"
    by (rule wait_for_event_result [OF assms])
  show ?case
    using Suc [of r "if r \<noteq> 0 then vcall Watchdog_vsync v else v"] Suc [of ret "vcall Wait_one_vblank (snd (ask env Primary_crtc_live w1))"]
      Suc [of ret "vcall Rsc_msleep (snd (ask env Primary_crtc_live w1))"] v w1
    by (auto simp: w1_def [symmetric] Let_def case_prod_unfold)
qed simp

lemma rsc_finish_result:
  assumes "\<forall>p \<in> set (phys_encs enc). p \<noteq> None"
  obtains ret w' where "rsc_finish env enc c i w = Some (ret, w')" "res_of w' = res_of w"
proof -
  define w1 where "w1 = (if i \<noteq> 0 then snd (ask env Rsc_get_vsync_refcount w) else w)"
  define w2 where "w2 = (if c \<noteq> i then snd (ask env (Find_crtc i) w1) else w1)"
  have w2: "res_of w2 = res_of w" by (simp add: w1_def w2_def)
  obtain r v where "rsc_wait_loop env enc (c = i) MAX_RSC_WAIT 0 w2 = Some (r, v)" "res_of v = res_of w2"
    using rsc_wait_loop_result [OF assms] by blast
  with w2 show ?thesis
    by (intro that [of "fst (the (rsc_finish env enc c i w))" "snd (the (rsc_finish env enc c i w))"])
       (auto simp: rsc_finish_def w1_def w2_def Let_def case_prod_unfold split: if_splits)
qed

text \<open>What the operations leave alone: everything but the state, the clock vote and the timing.\<close>

definition display :: "sde_encoder_virt \<Rightarrow> sde_encoder_virt" where
  "display enc = enc\<lparr>rc_state := SDE_ENC_RC_STATE_OFF, elevated_ahb_vote := False,
     rsc_config := \<lparr>fps = 0, jitter_numer = 0, jitter_denom = 0, prefill_lines = 0, vtotal = 0\<rparr>, rsc_state_init := False\<rparr>"

lemma display_set [simp]:
  "display (enc\<lparr>rc_state := s\<rparr>) = display enc" "display (enc\<lparr>elevated_ahb_vote := e\<rparr>) = display enc"
  "display (enc\<lparr>rsc_config := c\<rparr>) = display enc" "display (enc\<lparr>rsc_state_init := i\<rparr>) = display enc"
  by (simp_all add: display_def)

lemma display_fields:
  assumes "display enc' = display enc"
  shows "phys_encs enc' = phys_encs enc" "cur_master enc' = cur_master enc" "enc_crtc enc' = enc_crtc enc"
    "idle_pc_enabled enc' = idle_pc_enabled enc" "frame_busy_mask enc' = frame_busy_mask enc"
    "has_rsc_client enc' = has_rsc_client enc" "cap_vid enc' = cap_vid enc" "cap_cmd enc' = cap_cmd enc"
    "cpu_mask_set enc' = cpu_mask_set enc" "has_irq enc' = has_irq enc"
proof -
  note f = arg_cong [OF assms]
  show "phys_encs enc' = phys_encs enc" "cur_master enc' = cur_master enc" "enc_crtc enc' = enc_crtc enc"
    "idle_pc_enabled enc' = idle_pc_enabled enc" "frame_busy_mask enc' = frame_busy_mask enc"
    "has_rsc_client enc' = has_rsc_client enc" "cap_vid enc' = cap_vid enc" "cap_cmd enc' = cap_cmd enc"
    "cpu_mask_set enc' = cpu_mask_set enc"
    using f [of phys_encs] f [of cur_master] f [of enc_crtc] f [of idle_pc_enabled] f [of frame_busy_mask]
      f [of has_rsc_client] f [of cap_vid] f [of cap_cmd] f [of cpu_mask_set]
    by (simp_all add: display_def)
  then show "has_irq enc' = has_irq enc" by (simp add: has_irq_def fun_eq_iff)
qed

text \<open>The conditions on a display under which the statements below hold.\<close>

definition disp_ok :: "enc_env \<Rightarrow> sde_encoder_virt \<Rightarrow> bool" where
  "disp_ok env enc \<longleftrightarrow> (\<forall>p \<in> set (phys_encs enc). p \<noteq> None) \<and>
     (\<exists>m < length (phys_encs enc). cur_master enc = Some m) \<and>
     (\<exists>cid idx. enc_crtc enc = Some (cid, idx) \<and> idx < MAX_CRTCS) \<and>
     has_rsc_client enc \<and> (cap_cmd enc \<or> cap_vid enc) \<and> (\<forall>w rc. mode_info env w \<noteq> Inl rc)"

lemma disp_ok_cong: "display enc' = display enc \<Longrightarrow> disp_ok env enc' = disp_ok env enc"
  using display_fields [of enc' enc] by (simp add: disp_ok_def)

lemma rsc_target_idle: "cap_cmd enc \<or> cap_vid enc \<Longrightarrow> rsc_target enc q b = SDE_RSC_IDLE_STATE \<longleftrightarrow> \<not> b"
  by (auto simp: rsc_target_def Let_def)

lemma update_rsc_config_display [simp]: "display (update_rsc_config mt p enc) = display enc"
  by (simp add: update_rsc_config_def Let_def)

lemma update_rsc_config_state [simp]: "rc_state (update_rsc_config mt p enc) = rc_state enc"
  by (simp add: update_rsc_config_def Let_def)

lemma update_rsc_client_result:
  assumes ok: "disp_ok env enc"
  obtains ret enc' w' st where "sde_encoder_update_rsc_client env enc config enable w = Some (ret, enc', w')"
    and "display enc' = display enc" and "rc_state enc' = rc_state enc"
    and "res_of w' = (res_of w)\<lparr>vote := st\<rparr>" and "st = SDE_RSC_IDLE_STATE \<longleftrightarrow> \<not> enable"
proof -
  obtain cid idx where crtc: "enc_crtc enc = Some (cid, idx)" using ok by (auto simp: disp_ok_def)
  obtain mt where mt: "mode_info env w = Inr mt" using ok by (cases "mode_info env w") (auto simp: disp_ok_def)
  define w1 where "w1 = snd (ask env Get_qsync_mode w)"
  define q where "q = (fst (ask env Get_qsync_mode w) \<noteq> 0)"
  define st where "st = rsc_target enc q enable"
  define e1 where "e1 = update_rsc_config mt (case config of None \<Rightarrow> mt_prefill_lines mt | Some p \<Rightarrow> mt_prefill_lines mt + p) enc"
  define first where "first = (st \<noteq> SDE_RSC_IDLE_STATE \<and> \<not> rsc_state_init e1 \<and> is_primary e1)"
  define cfg where "cfg = (if first then Some (rsc_config e1) else None)"
  define e2 where "e2 = (if first then e1\<lparr>rsc_state_init := True\<rparr> else e1)"
  define w2 where "w2 = snd (ask env (Rsc_state_update st cfg cid) w1)"
  have e2: "display e2 = display enc" "rc_state e2 = rc_state enc" by (simp_all add: e2_def e1_def)
  have w2: "res_of w2 = (res_of w)\<lparr>vote := st\<rparr>" by (simp add: w2_def w1_def effect_def)
  have st: "st = SDE_RSC_IDLE_STATE \<longleftrightarrow> \<not> enable"
    using rsc_target_idle ok by (simp add: st_def disp_ok_def)
  have m: "cur_master enc \<noteq> None" "has_rsc_client enc" using ok by (auto simp: disp_ok_def)
  have run: "sde_encoder_update_rsc_client env enc config enable w =
      (if fst (ask env (Rsc_state_update st cfg cid) w1) \<noteq> 0 then Some (fst (ask env (Rsc_state_update st cfg cid) w1), e2, w2)
       else case wait_crtc env w2 of
         None \<Rightarrow> Some (fst (ask env (Rsc_state_update st cfg cid) w1), e2, w2)
       | Some i \<Rightarrow> map_option (\<lambda>r. (fst r, e2, snd r)) (rsc_finish env e2 cid i w2))"
    using m crtc mt
    by (simp add: sde_encoder_update_rsc_client_def Let_def case_prod_unfold w1_def q_def st_def e1_def first_def cfg_def e2_def w2_def
        map_option_case Option.bind_eq_Some_conv split: option.split)
  have "\<forall>p \<in> set (phys_encs e2). p \<noteq> None" using ok display_fields(1) [OF e2(1)] by (simp add: disp_ok_def)
  note fin = rsc_finish_result [OF this]
  consider "sde_encoder_update_rsc_client env enc config enable w = Some (fst (ask env (Rsc_state_update st cfg cid) w1), e2, w2)"
    | ret w3 where "sde_encoder_update_rsc_client env enc config enable w = Some (ret, e2, w3)" "res_of w3 = res_of w2"
  proof (cases "wait_crtc env w2")
    case (Some i)
    obtain ret w3 where "rsc_finish env e2 cid i w2 = Some (ret, w3)" "res_of w3 = res_of w2" by (rule fin)
    then show ?thesis using that run Some by (simp split: if_splits)
  qed (use that run in \<open>simp split: if_splits\<close>)
  then show ?thesis
  proof cases
    case 1
    then show ?thesis by (rule that [OF _ e2 w2 st])
  next
    case (2 ret w3)
    then show ?thesis using w2 by (intro that [OF 2(1) e2 _ st]) simp
  qed
qed

end
