(* ===== verification/Sde_Encoder_Run.thy ===== *)
theory Sde_Encoder_Run
  imports Sde_Encoder_Inv
begin

section \<open>Encoder resource control: runs\<close>

text \<open>
  The resources that belong to each state of the machine, and the proof that every event keeps them
  in step with the state. A video mode display keeps its power while idle.
\<close>

definition holds :: "bool \<Rightarrow> sde_enc_rc_states \<Rightarrow> bool" where
  "holds vid s \<longleftrightarrow> s \<noteq> SDE_ENC_RC_STATE_OFF \<and> (s = SDE_ENC_RC_STATE_IDLE \<longrightarrow> vid)"

definition irq_on :: "sde_enc_rc_states \<Rightarrow> bool" where
  "irq_on s \<longleftrightarrow> s = SDE_ENC_RC_STATE_ON \<or> s = SDE_ENC_RC_STATE_PRE_OFF"

definition voting :: "bool \<Rightarrow> sde_enc_rc_states \<Rightarrow> bool" where
  "voting vid s \<longleftrightarrow> s = SDE_ENC_RC_STATE_ON \<or> s = SDE_ENC_RC_STATE_MODESET \<or> (s = SDE_ENC_RC_STATE_IDLE \<and> vid)"

definition with_res :: "sde_encoder_virt \<Rightarrow> int \<Rightarrow> bool \<Rightarrow> sde_rsc_state \<Rightarrow> res" where
  "with_res enc n irq v = \<lparr>pw = n, cc = n, qos = (if cap_cmd enc \<and> cpu_mask_set enc then n else 0),
     irqs = (\<lambda>i. irq \<and> has_irq enc i), vote = v\<rparr>"

definition matches :: "sde_encoder_virt \<Rightarrow> res \<Rightarrow> bool" where
  "matches enc r \<longleftrightarrow> (\<exists>v. r = with_res enc (if holds (cap_vid enc) (rc_state enc) then 1 else 0) (irq_on (rc_state enc)) v \<and>
     (v = SDE_RSC_IDLE_STATE \<longleftrightarrow> \<not> voting (cap_vid enc) (rc_state enc)))"

lemma with_res_cong: "display enc' = display enc \<Longrightarrow> with_res enc' = with_res enc"
  using display_fields [of enc' enc] by (simp add: with_res_def fun_eq_iff)

lemma with_res_irq [simp]:
  "(with_res enc n q v)\<lparr>irqs := (\<lambda>i. if has_irq enc i then b else irqs (with_res enc n q v) i)\<rparr> = with_res enc n b v"
  by (auto simp: with_res_def fun_eq_iff)

lemma irq_control_with_res:
  assumes "res_of w = with_res enc n q v" "display enc' = display enc"
  shows "res_of (sde_encoder_irq_control enc' b w) = with_res enc n b v"
  using assms display_fields(10) [OF assms(2)] by (auto simp: with_res_def fun_eq_iff)

lemma with_res_vote [simp]: "(with_res enc n q v)\<lparr>vote := v'\<rparr> = with_res enc n q v'"
  by (simp add: with_res_def)

lemma helper_enable:
  assumes ok: "disp_ok env enc" and r: "res_of w = with_res enc n q v"
  obtains rc enc' w' where "sde_encoder_resource_control_helper env enc True w = (rc, enc', w')"
    and "display enc' = display enc" and "rc_state enc' = rc_state enc"
    and "res_of w' = (if rc = 0 then with_res enc (n + 1) True v else res_of w)"
proof -
  define w1 where "w1 = snd (ask env (Core_power True) w)"
  define w2 where "w2 = snd (ask env (Connector_clk_ctrl True) w1)"
  define e1 where "e1 = enc\<lparr>elevated_ahb_vote := True\<rparr>"
  have e1: "display e1 = display enc" "rc_state e1 = rc_state enc" by (simp_all add: e1_def)
  have m: "cur_master enc \<noteq> None" using ok by (auto simp: disp_ok_def)
  consider "fst (ask env (Core_power True) w) \<noteq> 0"
    | "fst (ask env (Core_power True) w) = 0" "fst (ask env (Connector_clk_ctrl True) w1) \<noteq> 0"
    | "fst (ask env (Core_power True) w) = 0" "fst (ask env (Connector_clk_ctrl True) w1) = 0" by blast
  then show ?thesis
  proof cases
    case 1
    then show ?thesis
      by (intro that [of "fst (ask env (Core_power True) w)" enc w1])
         (simp_all add: sde_encoder_resource_control_helper_def m w1_def effect_def case_prod_unfold Let_def)
  next
    case 2
    then show ?thesis
      by (intro that [of "fst (ask env (Connector_clk_ctrl True) w1)" e1 "snd (ask env (Core_power False) w2)"])
         (simp_all add: sde_encoder_resource_control_helper_def m w1_def w2_def e1_def effect_def case_prod_unfold Let_def)
  next
    case 3
    define w3 where "w3 = sde_encoder_irq_control e1 True w2"
    have "res_of (if cap_cmd e1 then sde_encoder_pm_qos_add_request e1 w3 else w3) = with_res enc (n + 1) True v"
      using 3 r by (auto simp: w3_def w2_def w1_def effect_def with_res_def e1_def has_irq_def fun_eq_iff)
    then show ?thesis
      using 3 e1
      by (intro that [of 0 e1 "if cap_cmd e1 then sde_encoder_pm_qos_add_request e1 w3 else w3"])
         (simp_all add: sde_encoder_resource_control_helper_def m w1_def w2_def w3_def e1_def case_prod_unfold Let_def)
  qed
qed

lemma helper_disable:
  assumes ok: "disp_ok env enc" and r: "res_of w = with_res enc n q v"
  obtains w' where "sde_encoder_resource_control_helper env enc False w = (0, enc, w')"
    and "res_of w' = with_res enc (n - 1) False v"
proof -
  have m: "cur_master enc \<noteq> None" using ok by (auto simp: disp_ok_def)
  define w1 where "w1 = sde_encoder_irq_control enc False (if cap_cmd enc then sde_encoder_pm_qos_remove_request enc w else w)"
  define w2 where "w2 = snd (ask env (Core_power False) (snd (ask env (Connector_clk_ctrl False) w1)))"
  have "res_of w2 = with_res enc (n - 1) False v"
    using r by (auto simp: w2_def w1_def effect_def with_res_def fun_eq_iff)
  then show ?thesis
    by (intro that [of w2])
       (simp_all add: sde_encoder_resource_control_helper_def m w1_def w2_def case_prod_unfold Let_def)
qed

lemma rsc_update_result:
  assumes ok: "disp_ok env enc" and r: "res_of w = with_res enc n q v"
  obtains enc' w' v' where "sde_encoder_resource_control_rsc_update env enc b w = Some (enc', w')"
    and "display enc' = display enc" and "rc_state enc' = rc_state enc"
    and "res_of w' = with_res enc n q v'" and "v' = SDE_RSC_IDLE_STATE \<longleftrightarrow> \<not> b"
proof -
  define w1 where "w1 = (if b then snd (ask env Get_inline_prefill w) else w)"
  define cfg where "cfg = (if b then Some (word_of_int (fst (ask env Get_inline_prefill w)) :: u32) else None)"
  have w1: "res_of w1 = res_of w" by (simp add: w1_def)
  obtain x where crtc: "enc_crtc enc = Some x" using ok by (auto simp: disp_ok_def)
  obtain ret enc' w' st where "sde_encoder_update_rsc_client env enc cfg b w1 = Some (ret, enc', w')"
    "display enc' = display enc" "rc_state enc' = rc_state enc"
    "res_of w' = (res_of w1)\<lparr>vote := st\<rparr>" "st = SDE_RSC_IDLE_STATE \<longleftrightarrow> \<not> b"
    by (rule update_rsc_client_result [OF ok])
  then show ?thesis
    using w1 r crtc
    by (intro that [of enc' w' st])
       (cases b, simp_all add: sde_encoder_resource_control_rsc_update_def w1_def cfg_def case_prod_unfold Let_def)
qed

lemma enable_all_result:
  assumes ok: "disp_ok env enc" and r: "res_of w = with_res enc n q v"
  obtains ret enc' w' v' where "rc_enable_all env enc w = Some (ret, enc', w')"
    and "display enc' = display enc" and "rc_state enc' = rc_state enc" and "v' \<noteq> SDE_RSC_IDLE_STATE"
    and "res_of w' = (if ret = 0 then with_res enc (n + 1) True v' else res_of w)"
proof -
  obtain rc e1 w1 where h: "sde_encoder_resource_control_helper env enc True w = (rc, e1, w1)"
    "display e1 = display enc" "rc_state e1 = rc_state enc"
    "res_of w1 = (if rc = 0 then with_res enc (n + 1) True v else res_of w)"
    by (rule helper_enable [OF ok r])
  show ?thesis
  proof (cases "rc = 0")
    case False
    with h show ?thesis by (intro that [of rc e1 w1 SDE_RSC_CLK_STATE]) (simp_all add: rc_enable_all_def)
  next
    case True
    have "disp_ok env e1" using disp_ok_cong [OF h(2)] ok by simp
    moreover have "res_of w1 = with_res e1 (n + 1) True v" using h(4) True with_res_cong [OF h(2)] by simp
    ultimately obtain e2 w2 v' where "sde_encoder_resource_control_rsc_update env e1 True w1 = Some (e2, w2)"
      "display e2 = display e1" "rc_state e2 = rc_state e1" "res_of w2 = with_res e1 (n + 1) True v'"
      "v' = SDE_RSC_IDLE_STATE \<longleftrightarrow> \<not> True"
      by (rule rsc_update_result)
    with h True with_res_cong [OF h(2)] show ?thesis
      by (intro that [of 0 e2 w2 v']) (simp_all add: rc_enable_all_def)
  qed
qed

subsection \<open>The events\<close>

definition keeps :: "sde_encoder_virt \<Rightarrow> (int \<times> enc_state) option \<Rightarrow> bool" where
  "keeps enc r \<longleftrightarrow> (\<exists>ret enc' w'. r = Some (ret, enc', w') \<and> display enc' = display enc \<and> matches enc' (res_of w'))"

lemma keepsI:
  assumes "r = Some (ret, enc', w')" "display enc' = display enc" "res_of w' = with_res enc n q v"
    "n = (if holds (cap_vid enc) (rc_state enc') then 1 else 0)" "q = irq_on (rc_state enc')"
    "v = SDE_RSC_IDLE_STATE \<longleftrightarrow> \<not> voting (cap_vid enc) (rc_state enc')"
  shows "keeps enc r"
  using assms with_res_cong [OF assms(2)] display_fields(7) [OF assms(2)] by (auto simp: keeps_def matches_def)

lemma matchesE:
  assumes "matches enc r"
  obtains v where "r = with_res enc (if holds (cap_vid enc) (rc_state enc) then 1 else 0) (irq_on (rc_state enc)) v"
    and "v = SDE_RSC_IDLE_STATE \<longleftrightarrow> \<not> voting (cap_vid enc) (rc_state enc)"
  using assms by (auto simp: matches_def)

text \<open>Nothing but calls that hold no resource, and no change of state.\<close>

lemma keeps_same:
  assumes "matches enc (res_of w)" "r = Some (ret, enc, w')" "res_of w' = res_of w"
  shows "keeps enc r"
  using assms by (auto simp: keeps_def)

lemmas state_tables = holds_def irq_on_def voting_def

lemma enable_all_keeps:
  assumes ok: "disp_ok env enc" and m: "matches enc (res_of w)"
    and s: "rc_state enc = SDE_ENC_RC_STATE_OFF \<or> (rc_state enc = SDE_ENC_RC_STATE_IDLE \<and> \<not> cap_vid enc)"
    and w': "res_of w1 = res_of w"
  obtains ret enc' w' v' where "rc_enable_all env enc w1 = Some (ret, enc', w')"
    and "display enc' = display enc" and "rc_state enc' = rc_state enc" and "v' \<noteq> SDE_RSC_IDLE_STATE"
    and "res_of w' = (if ret = 0 then with_res enc 1 True v' else res_of w)"
proof -
  obtain v where "res_of w = with_res enc 0 False v"
    using m s by (auto simp: state_tables elim!: matchesE)
  with w' have "res_of w1 = with_res enc 0 False v" by simp
  from enable_all_result [OF ok this] obtain ret enc' w' v' where
    "rc_enable_all env enc w1 = Some (ret, enc', w')" "display enc' = display enc" "rc_state enc' = rc_state enc"
    "v' \<noteq> SDE_RSC_IDLE_STATE" "res_of w' = (if ret = 0 then with_res enc (0 + 1) True v' else res_of w1)" .
  then show ?thesis using w' by (intro that [of ret enc' w' v']) simp_all
qed

lemma kickoff_keeps:
  assumes ok: "disp_ok env enc" and m: "matches enc (res_of w)"
  shows "keeps enc (rc_kickoff env enc w)"
proof -
  define w1 where "w1 = snd (ask env Cancel_off_work w)"
  have w1: "res_of w1 = res_of w" by (simp add: w1_def)
  consider "rc_state enc \<in> {SDE_ENC_RC_STATE_ON, SDE_ENC_RC_STATE_PRE_OFF, SDE_ENC_RC_STATE_MODESET}"
    | "rc_state enc = SDE_ENC_RC_STATE_IDLE" "cap_vid enc"
    | "rc_state enc = SDE_ENC_RC_STATE_OFF \<or> (rc_state enc = SDE_ENC_RC_STATE_IDLE \<and> \<not> cap_vid enc)"
    by (cases "rc_state enc") auto
  then show ?thesis
  proof cases
    case 1
    then obtain ret where "rc_kickoff env enc w = Some (ret, enc, w1)"
      by (auto simp: rc_kickoff_def w1_def)
    then show ?thesis using w1 by (rule keeps_same [OF m])
  next
    case 2
    obtain v where "res_of w = with_res enc 1 False v" "v \<noteq> SDE_RSC_IDLE_STATE"
      by (rule matchesE [OF m]) (rule that, use 2 in \<open>simp_all add: state_tables\<close>)
    with 2 w1 irq_control_with_res [of w1 enc 1 False v enc True] show ?thesis
      by (intro keepsI [where ret = 0 and enc' = "enc\<lparr>rc_state := SDE_ENC_RC_STATE_ON\<rparr>" and w' = "sde_encoder_irq_control enc True w1"
          and n = 1 and q = True and v = v])
         (simp_all add: rc_kickoff_def w1_def state_tables del: irq_control_res)
  next
    case 3
    obtain ret enc' w' v' where e: "rc_enable_all env enc w1 = Some (ret, enc', w')"
      "display enc' = display enc" "rc_state enc' = rc_state enc" "v' \<noteq> SDE_RSC_IDLE_STATE"
      "res_of w' = (if ret = 0 then with_res enc 1 True v' else res_of w)"
      by (rule enable_all_keeps [OF ok m 3 w1])
    have k: "rc_kickoff env enc w = Some (ret, if ret = 0 then enc'\<lparr>rc_state := SDE_ENC_RC_STATE_ON\<rparr> else enc', w')"
      using 3 e(1) by (auto simp: rc_kickoff_def w1_def [symmetric])
    show ?thesis
    proof (cases "ret = 0")
      case True
      with e show ?thesis by (intro keepsI [OF k]) (simp_all add: state_tables)
    next
      case False
      obtain v where "res_of w = with_res enc (if holds (cap_vid enc) (rc_state enc) then 1 else 0) (irq_on (rc_state enc)) v"
        "v = SDE_RSC_IDLE_STATE \<longleftrightarrow> \<not> voting (cap_vid enc) (rc_state enc)" using m by (rule matchesE)
      with False e show ?thesis by (intro keepsI [OF k]) simp_all
    qed
  qed
qed

lemma autorefresh_result:
  assumes "disp_ok env enc"
  obtains a w' where "autorefresh env enc w = Some (a, w')" and "res_of w' = res_of w"
proof -
  obtain i where i: "cur_master enc = Some i" "i < length (phys_encs enc)" using assms by (auto simp: disp_ok_def)
  moreover have "phys_encs enc ! i \<noteq> None" using assms i(2) by (auto simp: disp_ok_def)
  ultimately obtain p where "nth_opt (phys_encs enc) i = Some (Some p)" by (auto simp: nth_opt_def)
  with i(1) show ?thesis
    by (intro that [of "fst (the (autorefresh env enc w))" "snd (the (autorefresh env enc w))"])
       (simp_all add: autorefresh_def case_prod_unfold Let_def)
qed

lemma frame_done_keeps:
  assumes ok: "disp_ok env enc" and m: "matches enc (res_of w)"
  shows "keeps enc (rc_frame_done env enc w)"
proof -
  obtain cid idx where c: "enc_crtc enc = Some (cid, idx)" using ok by (auto simp: disp_ok_def)
  define w1 where "w1 = snd (ask env Frame_pending w)"
  obtain a w2 where a: "autorefresh env enc w1 = Some (a, w2)" "res_of w2 = res_of w1" by (rule autorefresh_result [OF ok])
  have "\<exists>ret w'. rc_frame_done env enc w = Some (ret, enc, w') \<and> res_of w' = res_of w"
    using a by (auto simp: rc_frame_done_def c w1_def case_prod_unfold Let_def)
  then show ?thesis using keeps_same [OF m] by blast
qed

lemma early_wakeup_keeps:
  assumes ok: "disp_ok env enc" and m: "matches enc (res_of w)" and s: "rc_state enc = SDE_ENC_RC_STATE_IDLE \<longrightarrow> \<not> cap_vid enc"
  shows "keeps enc (rc_early_wakeup env enc w)"
proof -
  obtain cid idx where c: "enc_crtc enc = Some (cid, idx)" "idx < MAX_CRTCS" using ok by (auto simp: disp_ok_def)
  show ?thesis
  proof (cases "rc_state enc = SDE_ENC_RC_STATE_IDLE")
    case True
    then have "rc_state enc = SDE_ENC_RC_STATE_OFF \<or> (rc_state enc = SDE_ENC_RC_STATE_IDLE \<and> \<not> cap_vid enc)" using s by simp
    from enable_all_keeps [OF ok m this refl]
    obtain ret enc' w' v' where e: "rc_enable_all env enc w = Some (ret, enc', w')"
      "display enc' = display enc" "rc_state enc' = rc_state enc" "v' \<noteq> SDE_RSC_IDLE_STATE"
      "res_of w' = (if ret = 0 then with_res enc 1 True v' else res_of w)" .
    have k: "rc_early_wakeup env enc w = Some (ret, if ret = 0 then enc'\<lparr>rc_state := SDE_ENC_RC_STATE_ON\<rparr> else enc',
        if ret = 0 then vcall (Mod_off_work 192) w' else w')"
      using True c e(1) by (simp add: rc_early_wakeup_def)
    show ?thesis
    proof (cases "ret = 0")
      case True
      with e show ?thesis by (intro keepsI [OF k]) (simp_all add: state_tables)
    next
      case False
      obtain v where "res_of w = with_res enc (if holds (cap_vid enc) (rc_state enc) then 1 else 0) (irq_on (rc_state enc)) v"
        "v = SDE_RSC_IDLE_STATE \<longleftrightarrow> \<not> voting (cap_vid enc) (rc_state enc)" using m by (rule matchesE)
      with False e show ?thesis by (intro keepsI [OF k]) simp_all
    qed
  next
    case False
    obtain a w2 where a: "autorefresh env enc w = Some (a, w2)" "res_of w2 = res_of w" by (rule autorefresh_result [OF ok])
    have "\<exists>ret w'. rc_early_wakeup env enc w = Some (ret, enc, w') \<and> res_of w' = res_of w"
      using a c False by (auto simp: rc_early_wakeup_def case_prod_unfold Let_def)
    then show ?thesis using keeps_same [OF m] by blast
  qed
qed

lemma pre_stop_keeps:
  assumes ok: "disp_ok env enc" and m: "matches enc (res_of w)" and s: "rc_state enc \<noteq> SDE_ENC_RC_STATE_MODESET"
  shows "keeps enc (rc_pre_stop env enc w)"
proof -
  define w1 where "w1 = snd (ask env Cancel_off_work w)"
  have w1: "res_of w1 = res_of w" by (simp add: w1_def)
  show ?thesis
  proof (cases "holds (cap_vid enc) (rc_state enc)")
    case False
    then have "rc_pre_stop env enc w = Some (0, enc, w1)" by (auto simp: rc_pre_stop_def w1_def holds_def)
    then show ?thesis using w1 by (rule keeps_same [OF m])
  next
    case True
    define w2 where "w2 = (if cap_vid enc \<and> rc_state enc = SDE_ENC_RC_STATE_IDLE then sde_encoder_irq_control enc True w1 else w1)"
    obtain v where v: "res_of w1 = with_res enc 1 (irq_on (rc_state enc)) v" by (rule matchesE [OF m]) (rule that, use w1 True in simp)
    have "irq_on (rc_state enc) \<longleftrightarrow> rc_state enc \<noteq> SDE_ENC_RC_STATE_IDLE"
      using True s by (cases "rc_state enc") (simp_all add: state_tables)
    then have "res_of w2 = with_res enc 1 True v"
      using irq_control_with_res [OF v refl, of True] v True by (auto simp: w2_def holds_def simp del: irq_control_res)
    then obtain enc' w' v' where u: "sde_encoder_resource_control_rsc_update env enc False w2 = Some (enc', w')"
      "display enc' = display enc" "rc_state enc' = rc_state enc" "res_of w' = with_res enc 1 True v'"
      "v' = SDE_RSC_IDLE_STATE \<longleftrightarrow> \<not> False" by (rule rsc_update_result [OF ok])
    have k: "rc_pre_stop env enc w = Some (0, enc'\<lparr>rc_state := SDE_ENC_RC_STATE_PRE_OFF\<rparr>, w')"
      using True u(1) by (auto simp: rc_pre_stop_def w1_def [symmetric] w2_def holds_def Let_def)
    show ?thesis using u by (intro keepsI [OF k]) (simp_all add: state_tables)
  qed
qed

lemma stop_keeps:
  assumes ok: "disp_ok env enc" and m: "matches enc (res_of w)" and s: "rc_state enc = SDE_ENC_RC_STATE_IDLE \<longrightarrow> \<not> cap_vid enc"
  shows "keeps enc (rc_stop env enc w)"
proof -
  define w1 where "w1 = (if is_dsi enc then vcall Del_vsync_timer (vcall Cancel_vsync_work w) else vcall Cancel_vsync_work w)"
  have w1: "res_of w1 = res_of w" by (simp add: w1_def)
  obtain v where v: "res_of w = with_res enc (if holds (cap_vid enc) (rc_state enc) then 1 else 0) (irq_on (rc_state enc)) v"
    "v = SDE_RSC_IDLE_STATE \<longleftrightarrow> \<not> voting (cap_vid enc) (rc_state enc)" using m by (rule matchesE)
  consider "rc_state enc \<in> {SDE_ENC_RC_STATE_OFF, SDE_ENC_RC_STATE_ON, SDE_ENC_RC_STATE_MODESET}"
    | "rc_state enc = SDE_ENC_RC_STATE_IDLE" | "rc_state enc = SDE_ENC_RC_STATE_PRE_OFF"
    by (cases "rc_state enc") auto
  then show ?thesis
  proof cases
    case 1
    then obtain ret where "rc_stop env enc w = Some (ret, enc, w1)" by (auto simp: rc_stop_def w1_def Let_def)
    then show ?thesis using w1 by (rule keeps_same [OF m])
  next
    case 2
    have k: "rc_stop env enc w = Some (0, enc\<lparr>rc_state := SDE_ENC_RC_STATE_OFF\<rparr>, w1)" using 2 by (simp add: rc_stop_def w1_def)
    show ?thesis using 2 s v w1 by (intro keepsI [OF k]) (simp_all add: state_tables)
  next
    case 3
    then have "res_of w1 = with_res enc 1 True v" using v w1 by (simp add: state_tables)
    then obtain w2 where h: "sde_encoder_resource_control_helper env enc False w1 = (0, enc, w2)"
      "res_of w2 = with_res enc (1 - 1) False v" by (rule helper_disable [OF ok])
    have k: "rc_stop env enc w = Some (0, enc\<lparr>rc_state := SDE_ENC_RC_STATE_OFF\<rparr>, w2)"
      using 3 h(1) by (simp add: rc_stop_def w1_def [symmetric])
    show ?thesis using 3 v by (intro keepsI [OF k _ h(2)]) (simp_all add: state_tables)
  qed
qed

text \<open>The second half of the preparation of a mode change, from the on state.\<close>

lemma pre_modeset_on:
  assumes ok: "disp_ok env enc" and r: "res_of w = with_res enc 1 True v" and v: "v \<noteq> SDE_RSC_IDLE_STATE"
    and d: "display enc' = display enc" and s: "rc_state enc' = SDE_ENC_RC_STATE_ON"
  shows "keeps enc (do {
         (ret, w) \<leftarrow> sde_encoder_wait_for_event env enc' MSM_ENC_TX_COMPLETE w;
         if ret \<noteq> 0 \<and> ret \<noteq> - EWOULDBLOCK then Some (- EINVAL, enc', w)
         else do {
           let w = sde_encoder_irq_control enc' False w;
           let w = sde_encoder_modeset_helper_locked enc' SDE_ENC_RC_EVENT_PRE_MODESET w;
           Some (0, enc'\<lparr>rc_state := SDE_ENC_RC_STATE_MODESET\<rparr>, w)
         }
       })" (is "keeps enc ?r")
proof -
  have "\<forall>p \<in> set (phys_encs enc'). p \<noteq> None" using ok display_fields(1) [OF d] by (simp add: disp_ok_def)
  then obtain ret w1 where w1: "sde_encoder_wait_for_event env enc' MSM_ENC_TX_COMPLETE w = Some (ret, w1)" "res_of w1 = res_of w"
    by (rule wait_for_event_result)
  have i: "res_of (sde_encoder_irq_control enc' False w1) = with_res enc 1 False v"
    using w1(2) r by (intro irq_control_with_res [OF _ d]) simp
  show ?thesis
  proof (cases "ret \<noteq> 0 \<and> ret \<noteq> - EWOULDBLOCK")
    case True
    then have k: "?r = Some (- EINVAL, enc', w1)" using w1(1) by simp
    show ?thesis using d s w1(2) r v by (intro keepsI [OF k]) (simp_all add: state_tables)
  next
    case False
    then have k: "?r = Some (0, enc'\<lparr>rc_state := SDE_ENC_RC_STATE_MODESET\<rparr>,
        sde_encoder_modeset_helper_locked enc' SDE_ENC_RC_EVENT_PRE_MODESET (sde_encoder_irq_control enc' False w1))"
      using w1(1) by (simp add: Let_def)
    show ?thesis using d i v by (intro keepsI [OF k]) (simp_all add: state_tables del: irq_control_res)
  qed
qed

lemma pre_modeset_keeps:
  assumes ok: "disp_ok env enc" and m: "matches enc (res_of w)"
    and s: "rc_state enc \<in> {SDE_ENC_RC_STATE_OFF, SDE_ENC_RC_STATE_ON} \<or> (rc_state enc = SDE_ENC_RC_STATE_IDLE \<and> \<not> cap_vid enc)"
  shows "keeps enc (rc_pre_modeset env enc w)"
proof -
  define w1 where "w1 = snd (ask env Cancel_off_work w)"
  have w1: "res_of w1 = res_of w" by (simp add: w1_def)
  consider "rc_state enc = SDE_ENC_RC_STATE_OFF" | "rc_state enc = SDE_ENC_RC_STATE_ON"
    | "rc_state enc = SDE_ENC_RC_STATE_IDLE" "\<not> cap_vid enc" using s by auto
  then show ?thesis
  proof cases
    case 1
    then have "rc_pre_modeset env enc w = Some (0, enc, w1)" by (simp add: rc_pre_modeset_def w1_def)
    then show ?thesis using w1 by (rule keeps_same [OF m])
  next
    case 2
    obtain v where v: "res_of w1 = with_res enc 1 True v" "v \<noteq> SDE_RSC_IDLE_STATE"
      by (rule matchesE [OF m]) (rule that, use 2 w1 in \<open>simp_all add: state_tables\<close>)
    show ?thesis
      using pre_modeset_on [OF ok v, of "enc\<lparr>rc_state := SDE_ENC_RC_STATE_ON\<rparr>"] 2
      by (simp add: rc_pre_modeset_def w1_def [symmetric] Let_def)
  next
    case 3
    then have "rc_state enc = SDE_ENC_RC_STATE_OFF \<or> (rc_state enc = SDE_ENC_RC_STATE_IDLE \<and> \<not> cap_vid enc)" by simp
    then obtain ret enc' w' v' where e: "rc_enable_all env enc w1 = Some (ret, enc', w')"
      "display enc' = display enc" "rc_state enc' = rc_state enc" "v' \<noteq> SDE_RSC_IDLE_STATE"
      "res_of w' = (if ret = 0 then with_res enc 1 True v' else res_of w)"
      by (rule enable_all_keeps [OF ok m _ w1])
    show ?thesis
    proof (cases "ret = 0")
      case True
      then show ?thesis
        using pre_modeset_on [OF ok, of w' v' "enc'\<lparr>rc_state := SDE_ENC_RC_STATE_ON\<rparr>"] e 3
        by (simp add: rc_pre_modeset_def w1_def [symmetric] Let_def)
    next
      case False
      then have k: "rc_pre_modeset env enc w = Some (ret, enc', w')" using e 3 by (simp add: rc_pre_modeset_def w1_def [symmetric])
      obtain v where "res_of w = with_res enc (if holds (cap_vid enc) (rc_state enc) then 1 else 0) (irq_on (rc_state enc)) v"
        "v = SDE_RSC_IDLE_STATE \<longleftrightarrow> \<not> voting (cap_vid enc) (rc_state enc)" using m by (rule matchesE)
      with False e show ?thesis by (intro keepsI [OF k]) simp_all
    qed
  qed
qed

lemma post_modeset_keeps:
  assumes ok: "disp_ok env enc" and m: "matches enc (res_of w)"
  shows "keeps enc (rc_post_modeset env enc w)"
proof (cases "rc_state enc = SDE_ENC_RC_STATE_MODESET")
  case False
  then obtain ret where "rc_post_modeset env enc w = Some (ret, enc, w)" by (cases "rc_state enc") (simp_all add: rc_post_modeset_def)
  then show ?thesis by (rule keeps_same [OF m]) simp
next
  case True
  define w1 where "w1 = sde_encoder_irq_control enc True (sde_encoder_modeset_helper_locked enc SDE_ENC_RC_EVENT_POST_MODESET w)"
  obtain v where "res_of w = with_res enc 1 False v"
    by (rule matchesE [OF m]) (rule that, use True in \<open>simp_all add: state_tables\<close>)
  then have w1: "res_of w1 = with_res enc 1 True v" unfolding w1_def by (intro irq_control_with_res) simp_all
  obtain ret enc' w' st where u: "sde_encoder_update_rsc_client env enc None True w1 = Some (ret, enc', w')"
    "display enc' = display enc" "rc_state enc' = rc_state enc"
    "res_of w' = (res_of w1)\<lparr>vote := st\<rparr>" "st = SDE_RSC_IDLE_STATE \<longleftrightarrow> \<not> True"
    by (rule update_rsc_client_result [OF ok])
  have k: "rc_post_modeset env enc w = Some (0, enc'\<lparr>rc_state := SDE_ENC_RC_STATE_ON\<rparr>, w')"
    using True u(1) by (simp add: rc_post_modeset_def w1_def)
  show ?thesis using u w1 by (intro keepsI [OF k]) (simp_all add: state_tables)
qed

lemma enter_idle_keeps:
  assumes ok: "disp_ok env enc" and m: "matches enc (res_of w)"
  shows "keeps enc (rc_enter_idle env enc w)"
proof (cases "rc_state enc = SDE_ENC_RC_STATE_ON \<and> frame_busy_mask enc = 0")
  case False
  then have "rc_enter_idle env enc w = Some (0, enc, w)" by (auto simp: rc_enter_idle_def)
  then show ?thesis by (rule keeps_same [OF m]) simp
next
  case True
  obtain v where v: "res_of w = with_res enc 1 True v" "v \<noteq> SDE_RSC_IDLE_STATE"
    by (rule matchesE [OF m]) (rule that, use True in \<open>simp_all add: state_tables\<close>)
  show ?thesis
  proof (cases "cap_vid enc")
    case vid: True
    have k: "rc_enter_idle env enc w = Some (0, enc\<lparr>rc_state := SDE_ENC_RC_STATE_IDLE\<rparr>, sde_encoder_irq_control enc False w)"
      using True vid by (simp add: rc_enter_idle_def)
    show ?thesis
      using vid v irq_control_with_res [OF v(1) refl, of False] by (intro keepsI [OF k]) (simp_all add: state_tables del: irq_control_res)
  next
    case cmd: False
    obtain e1 w1 v' where u: "sde_encoder_resource_control_rsc_update env enc False w = Some (e1, w1)"
      "display e1 = display enc" "rc_state e1 = rc_state enc" "res_of w1 = with_res enc 1 True v'"
      "v' = SDE_RSC_IDLE_STATE \<longleftrightarrow> \<not> False" by (rule rsc_update_result [OF ok v(1)])
    have "disp_ok env e1" "res_of w1 = with_res e1 1 True v'"
      using disp_ok_cong [OF u(2)] ok with_res_cong [OF u(2)] u(4) by simp_all
    then obtain w2 where h: "sde_encoder_resource_control_helper env e1 False w1 = (0, e1, w2)"
      "res_of w2 = with_res e1 (1 - 1) False v'" by (rule helper_disable)
    have k: "rc_enter_idle env enc w = Some (0, e1\<lparr>rc_state := SDE_ENC_RC_STATE_IDLE\<rparr>, w2)"
      using True cmd u(1) h(1) by (simp add: rc_enter_idle_def)
    show ?thesis using cmd u h with_res_cong [OF u(2)] by (intro keepsI [OF k]) (simp_all add: state_tables)
  qed
qed

end
