(* ===== verification/Sde_Encoder_Props.thy ===== *)
theory Sde_Encoder_Props
  imports Sde_Encoder_Run
begin

section \<open>Encoder resource control: properties\<close>

text \<open>
  Runs of the state machine under the events of the display, the properties of the manifest, and their
  witnesses.
\<close>

subsection \<open>Runs\<close>

text \<open>
  What happens to an encoder: an event, the work items that raise one, the frame done callback of the
  physical encoders, the switch of the idle power collapse, and the start of a frame, which sets the
  bit of a physical encoder in the busy mask.
\<close>

datatype enc_op = Event sde_enc_rc_events | Off_work | Input_work | Esd_work | Frame_done nat u32 | Idle_pc bool | Start_frame nat

fun enc_step :: "enc_env \<Rightarrow> enc_op \<Rightarrow> enc_state \<Rightarrow> enc_state option" where
  "enc_step env (Event ev) (enc, w) = map_option snd (sde_encoder_resource_control env enc ev w)"
| "enc_step env Off_work (enc, w) = sde_encoder_off_work env enc w"
| "enc_step env Input_work (enc, w) = sde_encoder_input_event_work_handler env enc w"
| "enc_step env Esd_work (enc, w) = sde_encoder_esd_trigger_work_handler env enc w"
| "enc_step env (Frame_done ready event) (enc, w) = sde_encoder_frame_done_callback env enc ready event w"
| "enc_step env (Idle_pc b) (enc, w) = Some (sde_encoder_control_idle_pc enc b, w)"
| "enc_step env (Start_frame i) (enc, w) = Some (enc\<lparr>frame_busy_mask := set_bit i (frame_busy_mask enc)\<rparr>, w)"

text \<open>
  The events that the machine handles without losing a reference, by state: a mode change starts when
  the display is off, on, or idle with its power off; a video mode display that is idle is neither
  woken early nor stopped without its pre-stop; and a mode change is finished before a pre-stop.
\<close>

fun regular_event :: "sde_enc_rc_events \<Rightarrow> sde_encoder_virt \<Rightarrow> bool" where
  "regular_event SDE_ENC_RC_EVENT_PRE_MODESET enc \<longleftrightarrow>
     rc_state enc \<in> {SDE_ENC_RC_STATE_OFF, SDE_ENC_RC_STATE_ON} \<or> (rc_state enc = SDE_ENC_RC_STATE_IDLE \<and> \<not> cap_vid enc)"
| "regular_event SDE_ENC_RC_EVENT_EARLY_WAKEUP enc \<longleftrightarrow> (rc_state enc = SDE_ENC_RC_STATE_IDLE \<longrightarrow> \<not> cap_vid enc)"
| "regular_event SDE_ENC_RC_EVENT_STOP enc \<longleftrightarrow> (rc_state enc = SDE_ENC_RC_STATE_IDLE \<longrightarrow> \<not> cap_vid enc)"
| "regular_event SDE_ENC_RC_EVENT_PRE_STOP enc \<longleftrightarrow> rc_state enc \<noteq> SDE_ENC_RC_STATE_MODESET"
| "regular_event _ enc \<longleftrightarrow> True"

fun regular :: "enc_op \<Rightarrow> sde_encoder_virt \<Rightarrow> bool" where
  "regular (Event ev) enc = regular_event ev enc"
| "regular Input_work enc = regular_event SDE_ENC_RC_EVENT_EARLY_WAKEUP enc"
| "regular _ enc = True"

fun enc_run :: "enc_env \<Rightarrow> enc_op list \<Rightarrow> enc_state \<Rightarrow> enc_state option" where
  "enc_run env [] s = Some s"
| "enc_run env (c # cs) s = Option.bind (enc_step env c s) (enc_run env cs)"

fun regular_run :: "enc_env \<Rightarrow> enc_op list \<Rightarrow> enc_state \<Rightarrow> bool" where
  "regular_run env [] s \<longleftrightarrow> True"
| "regular_run env (c # cs) s \<longleftrightarrow> regular c (fst s) \<and> (case enc_step env c s of None \<Rightarrow> True | Some s' \<Rightarrow> regular_run env cs s')"

subsection \<open>Every regular step keeps the resources in step\<close>

lemma resource_control_keeps:
  assumes "disp_ok env enc" "matches enc (res_of w)" "regular_event ev enc"
  shows "keeps enc (sde_encoder_resource_control env enc ev w)"
proof (cases "\<not> idle_pc_enabled enc \<and> \<not> always_handled ev")
  case True
  then have "sde_encoder_resource_control env enc ev w = Some (0, enc, w)" by (simp add: sde_encoder_resource_control_def)
  then show ?thesis by (rule keeps_same [OF assms(2)]) simp
next
  case False
  show ?thesis
    unfolding sde_encoder_resource_control_def if_not_P [OF False]
    using assms kickoff_keeps frame_done_keeps pre_stop_keeps stop_keeps pre_modeset_keeps post_modeset_keeps
      enter_idle_keeps early_wakeup_keeps
    by (cases ev) simp_all
qed

definition enc_good :: "enc_env \<Rightarrow> sde_encoder_virt \<Rightarrow> enc_state \<Rightarrow> bool" where
  "enc_good env enc0 s \<longleftrightarrow> disp_ok env (fst s) \<and> matches (fst s) (res_of (snd s)) \<and>
     phys_encs (fst s) = phys_encs enc0 \<and> cap_vid (fst s) = cap_vid enc0 \<and> cap_cmd (fst s) = cap_cmd enc0 \<and>
     cpu_mask_set (fst s) = cpu_mask_set enc0"

lemma keeps_good:
  assumes "keeps enc r" "enc_good env enc0 (enc, w)"
  shows "\<exists>s'. map_option snd r = Some s' \<and> enc_good env enc0 s'"
proof -
  obtain ret enc' w' where r: "r = Some (ret, enc', w')" "display enc' = display enc" "matches enc' (res_of w')"
    using assms(1) by (auto simp: keeps_def)
  show ?thesis
    using r assms(2) disp_ok_cong [OF r(2)] display_fields [OF r(2)] by (simp add: enc_good_def)
qed

lemma good_busy [simp]: "enc_good env enc0 (enc\<lparr>frame_busy_mask := m\<rparr>, w) = enc_good env enc0 (enc, w)"
  by (simp add: enc_good_def disp_ok_def matches_def with_res_def has_irq_def)

lemma good_idle_pc [simp]: "enc_good env enc0 (enc\<lparr>idle_pc_enabled := b\<rparr>, w) = enc_good env enc0 (enc, w)"
  by (simp add: enc_good_def disp_ok_def matches_def with_res_def has_irq_def)

lemma good_frame_event [simp]: "enc_good env enc0 (enc, frame_event e x w) = enc_good env enc0 (enc, w)"
  by (simp add: enc_good_def frame_event_def)

lemma event_good:
  assumes "enc_good env enc0 (enc, w)" "regular_event ev enc"
  shows "\<exists>ret enc' w'. sde_encoder_resource_control env enc ev w = Some (ret, enc', w') \<and> enc_good env enc0 (enc', w')"
proof -
  have "keeps enc (sde_encoder_resource_control env enc ev w)"
    using assms by (intro resource_control_keeps) (simp_all add: enc_good_def)
  from keeps_good [OF this assms(1)] show ?thesis by (auto simp: map_option_case split: option.splits)
qed

lemma frame_done_good:
  assumes g: "enc_good env enc0 (enc, w)"
  shows "\<exists>s'. sde_encoder_frame_done_callback env enc ready event w = Some s' \<and> enc_good env enc0 s'"
proof -
  define e1 where "e1 = enc\<lparr>frame_busy_mask := clear_busy (phys_encs enc) ready (frame_busy_mask enc)\<rparr>"
  have "enc_good env enc0 (e1, w)" using g by (simp add: e1_def)
  then obtain ret enc' w' where
    "sde_encoder_resource_control env e1 SDE_ENC_RC_EVENT_FRAME_DONE w = Some (ret, enc', w')" "enc_good env enc0 (enc', w')"
    using event_good [of env enc0 e1 w SDE_ENC_RC_EVENT_FRAME_DONE] by auto
  with g show ?thesis by (simp add: sde_encoder_frame_done_callback_def e1_def [symmetric] Let_def)
      (simp add: e1_def)
qed

lemma step_good:
  assumes "enc_good env enc0 s" "regular c (fst s)"
  shows "\<exists>s'. enc_step env c s = Some s' \<and> enc_good env enc0 s'"
proof (cases s)
  case (Pair enc w)
  with assms have g: "enc_good env enc0 (enc, w)" and r: "regular c enc" by simp_all
  have ev: "\<exists>s'. map_option snd (sde_encoder_resource_control env enc e w) = Some s' \<and> enc_good env enc0 s'"
    if "regular_event e enc" for e
    using event_good [OF g that] by auto
  have idle: "sde_encoder_off_work env enc w = map_option snd (sde_encoder_resource_control env enc SDE_ENC_RC_EVENT_ENTER_IDLE w)"
    by (simp add: sde_encoder_off_work_def sde_encoder_idle_request_def option.map_comp comp_def)
  show ?thesis
    using ev [of SDE_ENC_RC_EVENT_ENTER_IDLE] ev [of SDE_ENC_RC_EVENT_EARLY_WAKEUP] ev [of SDE_ENC_RC_EVENT_KICKOFF]
      ev r frame_done_good [OF g] g unfolding Pair
    by (cases c) (simp_all add: idle sde_encoder_input_event_work_handler_def
        sde_encoder_esd_trigger_work_handler_def sde_encoder_control_idle_pc_def)
qed

lemma run_good:
  assumes "enc_good env enc0 s" "regular_run env cs s"
  shows "\<exists>s'. enc_run env cs s = Some s' \<and> enc_good env enc0 s'"
  using assms
proof (induction cs arbitrary: s)
  case (Cons c cs)
  from Cons.prems obtain s' where "enc_step env c s = Some s'" "enc_good env enc0 s'"
    using step_good [of env enc0 s c] by auto
  with Cons show ?case by simp
qed simp

lemma start_good:
  assumes "disp_ok env enc" "rc_state enc = SDE_ENC_RC_STATE_OFF"
  shows "enc_good env enc (enc, [])"
  using assms by (simp add: enc_good_def matches_def with_res_def res_of_def res0_def state_tables)

subsection \<open>What an irregular event leaves\<close>

lemma pre_modeset_twice:
  assumes ok: "disp_ok env enc" and r: "res_of w = with_res enc n q v"
    and s: "rc_state enc \<noteq> SDE_ENC_RC_STATE_OFF" "rc_state enc \<noteq> SDE_ENC_RC_STATE_ON"
  shows "\<exists>ret enc' w'. rc_pre_modeset env enc w = Some (ret, enc', w') \<and>
    (ret = 0 \<longrightarrow> rc_state enc' = SDE_ENC_RC_STATE_MODESET \<and> pw (res_of w') = n + 1)"
proof -
  define w1 where "w1 = snd (ask env Cancel_off_work w)"
  have "res_of w1 = with_res enc n q v" using r by (simp add: w1_def)
  then obtain ret e1 w2 v' where e: "rc_enable_all env enc w1 = Some (ret, e1, w2)" "display e1 = display enc"
    "rc_state e1 = rc_state enc" "v' \<noteq> SDE_RSC_IDLE_STATE"
    "res_of w2 = (if ret = 0 then with_res enc (n + 1) True v' else res_of w1)"
    by (rule enable_all_result [OF ok])
  define e2 where "e2 = e1\<lparr>rc_state := SDE_ENC_RC_STATE_ON\<rparr>"
  have "\<forall>p \<in> set (phys_encs e2). p \<noteq> None"
    using ok display_fields(1) [OF e(2)] by (simp add: disp_ok_def e2_def)
  then obtain rt w3 where "sde_encoder_wait_for_event env e2 MSM_ENC_TX_COMPLETE w2 = Some (rt, w3)" "res_of w3 = res_of w2"
    by (rule wait_for_event_result)
  then show ?thesis
    using s e(1,5) by (simp add: rc_pre_modeset_def w1_def [symmetric] Let_def e2_def [symmetric] with_res_def)
qed

lemma early_wakeup_idle:
  assumes ok: "disp_ok env enc" and r: "res_of w = with_res enc n q v" and s: "rc_state enc = SDE_ENC_RC_STATE_IDLE"
  shows "\<exists>ret enc' w'. rc_early_wakeup env enc w = Some (ret, enc', w') \<and>
    (ret = 0 \<longrightarrow> rc_state enc' = SDE_ENC_RC_STATE_ON \<and> pw (res_of w') = n + 1)"
proof -
  obtain cid idx where c: "enc_crtc enc = Some (cid, idx)" "idx < MAX_CRTCS" using ok by (auto simp: disp_ok_def)
  from enable_all_result [OF ok r] obtain ret e1 w2 v' where "rc_enable_all env enc w = Some (ret, e1, w2)"
    "res_of w2 = (if ret = 0 then with_res enc (n + 1) True v' else res_of w)" by metis
  then show ?thesis using s c by (simp add: rc_early_wakeup_def with_res_def)
qed

subsection \<open>The transition table\<close>

text \<open>
  The state an event leads to, \<open>None\<close> where it is refused. The arguments are whether idle power collapse
  is enabled, whether the display has video mode, and whether a frame is in flight.
\<close>

fun rc_goal :: "bool \<Rightarrow> bool \<Rightarrow> bool \<Rightarrow> sde_enc_rc_states \<Rightarrow> sde_enc_rc_events \<Rightarrow> sde_enc_rc_states option" where
  "rc_goal idle vid busy s SDE_ENC_RC_EVENT_KICKOFF =
     (if s \<in> {SDE_ENC_RC_STATE_PRE_OFF, SDE_ENC_RC_STATE_MODESET} then None else Some SDE_ENC_RC_STATE_ON)"
| "rc_goal idle vid busy s SDE_ENC_RC_EVENT_FRAME_DONE = (if idle \<and> s \<noteq> SDE_ENC_RC_STATE_ON then None else Some s)"
| "rc_goal idle vid busy s SDE_ENC_RC_EVENT_PRE_STOP = Some (if holds vid s then SDE_ENC_RC_STATE_PRE_OFF else s)"
| "rc_goal idle vid busy s SDE_ENC_RC_EVENT_STOP =
     (if s \<in> {SDE_ENC_RC_STATE_ON, SDE_ENC_RC_STATE_MODESET} then None else Some SDE_ENC_RC_STATE_OFF)"
| "rc_goal idle vid busy s SDE_ENC_RC_EVENT_PRE_MODESET = Some (if s = SDE_ENC_RC_STATE_OFF then s else SDE_ENC_RC_STATE_MODESET)"
| "rc_goal idle vid busy s SDE_ENC_RC_EVENT_POST_MODESET =
     (if s = SDE_ENC_RC_STATE_OFF then Some s else if s = SDE_ENC_RC_STATE_MODESET then Some SDE_ENC_RC_STATE_ON else None)"
| "rc_goal idle vid busy s SDE_ENC_RC_EVENT_ENTER_IDLE =
     Some (if idle \<and> s = SDE_ENC_RC_STATE_ON \<and> \<not> busy then SDE_ENC_RC_STATE_IDLE else s)"
| "rc_goal idle vid busy s SDE_ENC_RC_EVENT_EARLY_WAKEUP =
     Some (if idle \<and> s = SDE_ENC_RC_STATE_IDLE then SDE_ENC_RC_STATE_ON else s)"

text \<open>The events that switch power on or wait for a transfer, which can fail.\<close>

fun may_fail :: "bool \<Rightarrow> bool \<Rightarrow> sde_enc_rc_states \<Rightarrow> sde_enc_rc_events \<Rightarrow> bool" where
  "may_fail idle vid s SDE_ENC_RC_EVENT_KICKOFF \<longleftrightarrow> s = SDE_ENC_RC_STATE_OFF \<or> (s = SDE_ENC_RC_STATE_IDLE \<and> \<not> vid)"
| "may_fail idle vid s SDE_ENC_RC_EVENT_PRE_MODESET \<longleftrightarrow> s \<noteq> SDE_ENC_RC_STATE_OFF"
| "may_fail idle vid s SDE_ENC_RC_EVENT_EARLY_WAKEUP \<longleftrightarrow> idle \<and> s = SDE_ENC_RC_STATE_IDLE"
| "may_fail idle vid s _ \<longleftrightarrow> False"

definition follows :: "sde_encoder_virt \<Rightarrow> sde_enc_rc_events \<Rightarrow> (int \<times> enc_state) option \<Rightarrow> bool" where
  "follows enc ev r \<longleftrightarrow> (\<exists>ret enc' w'. r = Some (ret, enc', w') \<and> display enc' = display enc \<and>
     (case rc_goal (idle_pc_enabled enc) (cap_vid enc) (frame_busy_mask enc \<noteq> 0) (rc_state enc) ev of
        None \<Rightarrow> ret = - EINVAL \<and> rc_state enc' = rc_state enc
      | Some s \<Rightarrow> if ret = 0 then rc_state enc' = s
          else may_fail (idle_pc_enabled enc) (cap_vid enc) (rc_state enc) ev \<and>
            (rc_state enc' = rc_state enc \<or> ev = SDE_ENC_RC_EVENT_PRE_MODESET \<and> rc_state enc' = SDE_ENC_RC_STATE_ON)))"

lemma helper_state:
  "\<exists>rc enc' w'. sde_encoder_resource_control_helper env enc b w = (rc, enc', w') \<and>
     display enc' = display enc \<and> rc_state enc' = rc_state enc"
  by (simp add: sde_encoder_resource_control_helper_def case_prod_unfold Let_def)

lemma rsc_update_state:
  assumes ok: "disp_ok env enc"
  shows "\<exists>enc' w'. sde_encoder_resource_control_rsc_update env enc b w = Some (enc', w') \<and>
     display enc' = display enc \<and> rc_state enc' = rc_state enc"
proof -
  define w1 where "w1 = (if b then snd (ask env Get_inline_prefill w) else w)"
  define cfg where "cfg = (if b then Some (word_of_int (fst (ask env Get_inline_prefill w)) :: u32) else None)"
  obtain x where "enc_crtc enc = Some x" using ok by (auto simp: disp_ok_def)
  moreover obtain ret enc' w' where "sde_encoder_update_rsc_client env enc cfg b w1 = Some (ret, enc', w')"
    "display enc' = display enc" "rc_state enc' = rc_state enc"
    by (rule update_rsc_client_result [OF ok])
  ultimately show ?thesis
    by (cases b) (simp_all add: sde_encoder_resource_control_rsc_update_def w1_def cfg_def case_prod_unfold Let_def)
qed

lemma enable_all_state:
  assumes ok: "disp_ok env enc"
  shows "\<exists>ret enc' w'. rc_enable_all env enc w = Some (ret, enc', w') \<and> display enc' = display enc \<and> rc_state enc' = rc_state enc"
proof -
  obtain rc e1 w1 where h: "sde_encoder_resource_control_helper env enc True w = (rc, e1, w1)"
    "display e1 = display enc" "rc_state e1 = rc_state enc"
    using helper_state [of env enc True w] by (elim exE conjE) (rule that)
  have "disp_ok env e1" using disp_ok_cong [OF h(2)] ok by simp
  obtain e2 w2 where u: "sde_encoder_resource_control_rsc_update env e1 True w1 = Some (e2, w2)"
    "display e2 = display e1" "rc_state e2 = rc_state e1"
    using rsc_update_state [OF \<open>disp_ok env e1\<close>, of True w1] by (elim exE conjE) (rule that)
  show ?thesis using h u by (cases "rc = 0") (simp_all add: rc_enable_all_def)
qed

lemma kickoff_follows:
  assumes ok: "disp_ok env enc"
  shows "follows enc SDE_ENC_RC_EVENT_KICKOFF (rc_kickoff env enc w)"
proof -
  define w1 where "w1 = snd (ask env Cancel_off_work w)"
  obtain ret e1 w2 where "rc_enable_all env enc w1 = Some (ret, e1, w2)" "display e1 = display enc" "rc_state e1 = rc_state enc"
    using enable_all_state [OF ok, of w1] by (elim exE conjE) (rule that)
  then show ?thesis
    by (cases "rc_state enc"; cases "ret = 0") (simp_all add: follows_def rc_kickoff_def w1_def [symmetric])
qed

lemma frame_done_follows:
  assumes ok: "disp_ok env enc" and i: "idle_pc_enabled enc"
  shows "follows enc SDE_ENC_RC_EVENT_FRAME_DONE (rc_frame_done env enc w)"
proof -
  obtain cid idx where c: "enc_crtc enc = Some (cid, idx)" "idx < MAX_CRTCS" using ok by (auto simp: disp_ok_def)
  define w1 where "w1 = snd (ask env Frame_pending w)"
  obtain a w2 where "autorefresh env enc w1 = Some (a, w2)" by (rule autorefresh_result [OF ok])
  then show ?thesis using c i by (simp add: follows_def rc_frame_done_def w1_def case_prod_unfold Let_def)
qed

lemma pre_stop_follows:
  assumes ok: "disp_ok env enc"
  shows "follows enc SDE_ENC_RC_EVENT_PRE_STOP (rc_pre_stop env enc w)"
proof -
  define w1 where "w1 = snd (ask env Cancel_off_work w)"
  define w2 where "w2 = (if cap_vid enc \<and> rc_state enc = SDE_ENC_RC_STATE_IDLE then sde_encoder_irq_control enc True w1 else w1)"
  obtain e1 w3 where "sde_encoder_resource_control_rsc_update env enc False w2 = Some (e1, w3)" "display e1 = display enc"
    using rsc_update_state [OF ok, of False w2] by (elim exE conjE) (rule that)
  then show ?thesis
    by (cases "rc_state enc"; cases "cap_vid enc")
       (simp_all add: follows_def rc_pre_stop_def w1_def [symmetric] w2_def holds_def Let_def)
qed

lemma stop_follows: "follows enc SDE_ENC_RC_EVENT_STOP (rc_stop env enc w)"
proof -
  have "display (fst (snd (sde_encoder_resource_control_helper env enc False v))) = display enc" for v
    using helper_state [of env enc False v] by (elim exE conjE) simp
  then show ?thesis
    by (cases "rc_state enc") (simp_all add: follows_def rc_stop_def case_prod_unfold Let_def)
qed

lemma pre_modeset_follows:
  assumes ok: "disp_ok env enc"
  shows "follows enc SDE_ENC_RC_EVENT_PRE_MODESET (rc_pre_modeset env enc w)"
proof -
  define w1 where "w1 = snd (ask env Cancel_off_work w)"
  obtain ret e1 w2 where e: "(if rc_state enc \<noteq> SDE_ENC_RC_STATE_ON then rc_enable_all env enc w1 else Some (0, enc, w1)) = Some (ret, e1, w2)"
    "display e1 = display enc" "rc_state e1 = rc_state enc"
    using enable_all_state [OF ok, of w1] by (cases "rc_state enc = SDE_ENC_RC_STATE_ON") auto
  define e2 where "e2 = e1\<lparr>rc_state := SDE_ENC_RC_STATE_ON\<rparr>"
  have e2: "display e2 = display enc" "rc_state e2 = SDE_ENC_RC_STATE_ON" using e(2) by (simp_all add: e2_def)
  have "\<forall>p \<in> set (phys_encs e2). p \<noteq> None"
    using ok display_fields(1) [OF e2(1)] by (simp add: disp_ok_def)
  then obtain rt w3 where "sde_encoder_wait_for_event env e2 MSM_ENC_TX_COMPLETE w2 = Some (rt, w3)"
    by (rule wait_for_event_result)
  then show ?thesis
    using e e2
    by (cases "rc_state enc = SDE_ENC_RC_STATE_OFF"; cases "ret = 0"; cases "rt = 0"; cases "rt = - EWOULDBLOCK")
       (simp_all add: follows_def rc_pre_modeset_def w1_def [symmetric] e2_def [symmetric] Let_def)
qed

lemma post_modeset_follows:
  assumes ok: "disp_ok env enc"
  shows "follows enc SDE_ENC_RC_EVENT_POST_MODESET (rc_post_modeset env enc w)"
proof -
  define w1 where "w1 = sde_encoder_irq_control enc True (sde_encoder_modeset_helper_locked enc SDE_ENC_RC_EVENT_POST_MODESET w)"
  obtain ret e1 w2 where "sde_encoder_update_rsc_client env enc None True w1 = Some (ret, e1, w2)" "display e1 = display enc"
    by (rule update_rsc_client_result [OF ok])
  then show ?thesis
    by (cases "rc_state enc") (simp_all add: follows_def rc_post_modeset_def w1_def)
qed

lemma enter_idle_follows:
  assumes ok: "disp_ok env enc" and i: "idle_pc_enabled enc"
  shows "follows enc SDE_ENC_RC_EVENT_ENTER_IDLE (rc_enter_idle env enc w)"
proof -
  obtain e1 w1 where u: "sde_encoder_resource_control_rsc_update env enc False w = Some (e1, w1)" "display e1 = display enc"
    using rsc_update_state [OF ok, of False w] by (elim exE conjE) (rule that)
  obtain rc e2 w2 where "sde_encoder_resource_control_helper env e1 False w1 = (rc, e2, w2)" "display e2 = display e1"
    using helper_state [of env e1 False w1] by (elim exE conjE) (rule that)
  with u i show ?thesis
    by (cases "rc_state enc = SDE_ENC_RC_STATE_ON"; cases "frame_busy_mask enc = 0"; cases "cap_vid enc")
       (simp_all add: follows_def rc_enter_idle_def)
qed

lemma early_wakeup_follows:
  assumes ok: "disp_ok env enc" and i: "idle_pc_enabled enc"
  shows "follows enc SDE_ENC_RC_EVENT_EARLY_WAKEUP (rc_early_wakeup env enc w)"
proof -
  obtain cid idx where c: "enc_crtc enc = Some (cid, idx)" "idx < MAX_CRTCS" using ok by (auto simp: disp_ok_def)
  obtain ret e1 w1 where "rc_enable_all env enc w = Some (ret, e1, w1)" "display e1 = display enc" "rc_state e1 = rc_state enc"
    using enable_all_state [OF ok, of w] by (elim exE conjE) (rule that)
  moreover obtain a w2 where "autorefresh env enc w = Some (a, w2)" by (rule autorefresh_result [OF ok])
  ultimately show ?thesis
    using c i by (cases "rc_state enc"; cases "ret = 0"; cases a)
      (simp_all add: follows_def rc_early_wakeup_def case_prod_unfold Let_def)
qed

lemma resource_control_follows:
  assumes "disp_ok env enc"
  shows "follows enc ev (sde_encoder_resource_control env enc ev w)"
proof (cases "\<not> idle_pc_enabled enc \<and> \<not> always_handled ev")
  case True
  then show ?thesis
    by (cases ev) (simp_all add: sde_encoder_resource_control_def follows_def always_handled_def)
next
  case False
  then have i: "idle_pc_enabled enc \<or> always_handled ev" by simp
  show ?thesis
    unfolding sde_encoder_resource_control_def if_not_P [OF False]
    using assms i kickoff_follows frame_done_follows pre_stop_follows stop_follows pre_modeset_follows post_modeset_follows
      enter_idle_follows early_wakeup_follows
    by (cases ev) (simp_all add: always_handled_def)
qed

subsection \<open>The wait for the coordinator\<close>

text \<open>The answers to the question whether the coordinator has finished its transition.\<close>

definition polls :: "enc_trace \<Rightarrow> int list" where
  "polls w = map snd (filter (\<lambda>x. fst x = Rsc_state_update_complete) w)"

lemma polls_vcall [simp]: "c \<noteq> Rsc_state_update_complete \<Longrightarrow> polls (vcall c w) = polls w"
  by (simp add: polls_def vcall_def)

lemma polls_ask [simp]:
  "polls (snd (ask env c w)) = polls w @ (if c = Rsc_state_update_complete then [fst (ask env c w)] else [])"
  by (simp add: polls_def ask_def ext_def)

lemma wait_loop_polls:
  assumes "\<forall>p \<in> set ps. p \<noteq> None"
  shows "\<exists>ret w'. wait_loop env ev ps i w = Some (ret, w') \<and> polls w' = polls w"
  using assms
proof (induction env ev ps i w rule: wait_loop.induct)
  case (3 env ev p ps i w)
  obtain ret w1 where a: "ask env (Phys_wait i ev) w = (ret, w1)" by (cases "ask env (Phys_wait i ev) w")
  then have "polls w1 = polls w" using polls_ask [of env "Phys_wait i ev" w] by simp
  with 3 a show ?case by (auto simp: Let_def)
qed simp_all

text \<open>At most \<open>n\<close> questions, all but the last answered no, and fewer than \<open>n\<close> only after a yes.\<close>

definition bounded_polls :: "nat \<Rightarrow> int list \<Rightarrow> bool" where
  "bounded_polls n u \<longleftrightarrow> length u \<le> n \<and> (\<forall>r \<in> set (butlast u). r = 0) \<and> (length u = n \<or> (u \<noteq> [] \<and> last u \<noteq> 0))"

lemma rsc_wait_loop_polls:
  assumes "\<forall>p \<in> set (phys_encs enc). p \<noteq> None"
  shows "\<exists>ret' w' u. rsc_wait_loop env enc own n ret w = Some (ret', w') \<and> polls w' = polls w @ u \<and> bounded_polls n u"
proof (induction n arbitrary: ret w)
  case 0
  then show ?case by (simp add: bounded_polls_def)
next
  case (Suc n)
  define r where "r = fst (ask env Rsc_state_update_complete w)"
  define w1 where "w1 = snd (ask env Rsc_state_update_complete w)"
  have w1: "polls w1 = polls w @ [r]" by (simp add: w1_def r_def)
  show ?case
  proof (cases "r = 0")
    case False
    then show ?thesis using w1 by (auto simp: w1_def [symmetric] r_def [symmetric] case_prod_unfold Let_def bounded_polls_def)
  next
    case True
    have pre: "bounded_polls (Suc n) (r # u)" if "bounded_polls n u" for u
      using that True by (auto simp: bounded_polls_def)
    obtain v rv where v: "sde_encoder_wait_for_event env enc MSM_ENC_VBLANK w1 = Some (rv, v)" "polls v = polls w1"
      using wait_loop_polls [OF assms, of env MSM_ENC_VBLANK 0 w1] by (auto simp: sde_encoder_wait_for_event_def)
    define ret2 where "ret2 = (if own then rv else ret)"
    define w2 where "w2 = (if own then if rv \<noteq> 0 then vcall Watchdog_vsync v else v
      else if fst (ask env Primary_crtc_live w1) \<noteq> 0 then vcall Wait_one_vblank (snd (ask env Primary_crtc_live w1))
      else vcall Rsc_msleep (snd (ask env Primary_crtc_live w1)))"
    have "rsc_wait_loop env enc own (Suc n) ret w = rsc_wait_loop env enc own n ret2 w2"
      using True v(1) by (simp add: w1_def [symmetric] r_def [symmetric] ret2_def w2_def case_prod_unfold Let_def)
    moreover have "polls w2 = polls w @ [r]" using w1 v(2) by (simp add: w2_def)
    moreover obtain ret' w' u where "rsc_wait_loop env enc own n ret2 w2 = Some (ret', w')" "polls w' = polls w2 @ u" "bounded_polls n u"
      using Suc [of ret2 w2] by (elim exE conjE) (rule that)
    ultimately show ?thesis using pre [of u] by simp
  qed
qed

lemma rsc_finish_polls:
  assumes "\<forall>p \<in> set (phys_encs enc). p \<noteq> None"
  shows "\<exists>ret w' u. rsc_finish env enc c i w = Some (ret, w') \<and> polls w' = polls w @ u \<and> (u = [] \<or> bounded_polls MAX_RSC_WAIT u)"
proof -
  define w1 where "w1 = (if i \<noteq> 0 then snd (ask env Rsc_get_vsync_refcount w) else w)"
  define w2 where "w2 = (if c \<noteq> i then snd (ask env (Find_crtc i) w1) else w1)"
  have w2: "polls w2 = polls w" by (simp add: w1_def w2_def)
  obtain r v u where "rsc_wait_loop env enc (c = i) MAX_RSC_WAIT 0 w2 = Some (r, v)" "polls v = polls w2 @ u" "bounded_polls MAX_RSC_WAIT u"
    using rsc_wait_loop_polls [OF assms, of env "c = i" MAX_RSC_WAIT 0 w2] by (elim exE conjE) (rule that)
  with w2 show ?thesis
    by (auto simp: rsc_finish_def w1_def w2_def Let_def case_prod_unfold split: if_splits)
qed

lemma update_rsc_client_polls:
  assumes "\<forall>p \<in> set (phys_encs enc). p \<noteq> None"
  shows "\<exists>ret enc' w' u. sde_encoder_update_rsc_client env enc config enable w = Some (ret, enc', w') \<and> rc_state enc' = rc_state enc \<and>
    polls w' = polls w @ u \<and> (u = [] \<or> bounded_polls MAX_RSC_WAIT u)"
proof (cases "enc_crtc enc = None \<or> \<not> has_rsc_client enc \<or> (\<exists>rc. mode_info env w = Inl rc)")
  case True
  then show ?thesis by (auto simp: sde_encoder_update_rsc_client_def split: option.split sum.split)
next
  case False
  then obtain cid idx mt where c: "enc_crtc enc = Some (cid, idx)" and mt: "mode_info env w = Inr mt" and h: "has_rsc_client enc"
    by (cases "mode_info env w") auto
  define w1 where "w1 = (if cur_master enc \<noteq> None then snd (ask env Get_qsync_mode w) else w)"
  define st where "st = rsc_target enc (cur_master enc \<noteq> None \<and> fst (ask env Get_qsync_mode w) \<noteq> 0) enable"
  define e1 where "e1 = update_rsc_config mt (case config of None \<Rightarrow> mt_prefill_lines mt | Some p \<Rightarrow> mt_prefill_lines mt + p) enc"
  define first where "first = (st \<noteq> SDE_RSC_IDLE_STATE \<and> \<not> rsc_state_init e1 \<and> is_primary e1)"
  define cfg where "cfg = (if first then Some (rsc_config e1) else None)"
  define e2 where "e2 = (if first then e1\<lparr>rsc_state_init := True\<rparr> else e1)"
  define w2 where "w2 = snd (ask env (Rsc_state_update st cfg cid) w1)"
  define r where "r = fst (ask env (Rsc_state_update st cfg cid) w1)"
  have e2: "rc_state e2 = rc_state enc" "display e2 = display enc" by (simp_all add: e2_def e1_def)
  have w2: "polls w2 = polls w" by (simp add: w2_def w1_def)
  have run: "sde_encoder_update_rsc_client env enc config enable w =
      (if r \<noteq> 0 then Some (r, e2, w2)
       else case wait_crtc env w2 of None \<Rightarrow> Some (r, e2, w2) | Some i \<Rightarrow> map_option (\<lambda>x. (fst x, e2, snd x)) (rsc_finish env e2 cid i w2))"
    using c mt h
    by (cases "cur_master enc")
       (simp_all add: sde_encoder_update_rsc_client_def Let_def case_prod_unfold w1_def st_def e1_def first_def cfg_def e2_def w2_def r_def
         map_option_case split: option.split)
  have "\<forall>p \<in> set (phys_encs e2). p \<noteq> None" using assms display_fields(1) [OF e2(2)] by simp
  from rsc_finish_polls [OF this] have fin: "\<exists>ret w' u. rsc_finish env e2 cid i w2 = Some (ret, w') \<and> polls w' = polls w2 @ u \<and>
      (u = [] \<or> bounded_polls MAX_RSC_WAIT u)" for i .
  show ?thesis
  proof (cases "wait_crtc env w2")
    case None
    with run e2 w2 show ?thesis by simp
  next
    case (Some i)
    with run e2 w2 fin [of i] show ?thesis by (cases "r = 0") auto
  qed
qed

subsection \<open>Properties\<close>

text \<open>
  C35. The resources of a display follow the state of its resource control. The display is one whose
  physical encoders are all there, with a master among them, bound to a crtc with a valid index, with a
  coordinator client, of command or video mode, and whose mode information is always available
  (\<open>disp_ok\<close>). The run starts in the off state with nothing asked for, and is any sequence of events, work
  items, frame done callbacks, starts of frames and switches of the idle power collapse in which every
  event is regular for the state it meets: no mode change is started in the pre-off or the mode change
  state or in the idle state of a video mode display, such an idle display is neither woken early (by an
  event or by a touch) nor stopped, and no pre-stop comes during a mode change. What the calls answer is
  arbitrary. Then no null pointer is read, and after the run the power has been enabled as many times more than
  disabled as the state needs, which is once, or not at all in the off state and in the idle state of a
  command mode display, and once more for each enable that failed: the helper does not give back the
  reference that the power handle keeps of a failed enable. The connector clocks follow the same rule; the latency requests of
  a command mode display with a processor mask are one or none as the state needs; every physical encoder with an
  interrupt has it enabled exactly in the on and pre-off states; and the last state asked of the
  coordinator is other than idle exactly in the on and mode change states and in the idle state of a
  video mode display.
\<close>

theorem encoder_resources_follow_state:
  assumes "disp_ok env enc" and "rc_state enc = SDE_ENC_RC_STATE_OFF" and "regular_run env cs (enc, [])"
  shows "\<exists>enc' w'. enc_run env cs (enc, []) = Some (enc', w') \<and>
    (let held = (if rc_state enc' = SDE_ENC_RC_STATE_OFF \<or> (rc_state enc' = SDE_ENC_RC_STATE_IDLE \<and> \<not> cap_vid enc) then 0 else 1)
     in enables Core_power w' = held + failed Core_power w' \<and>
        enables Connector_clk_ctrl w' = held + failed Connector_clk_ctrl w' \<and>
        qos (res_of w') = (if cap_cmd enc \<and> cpu_mask_set enc then held else 0)) \<and>
    (\<forall>i. irqs (res_of w') i \<longleftrightarrow> has_irq enc i \<and> rc_state enc' \<in> {SDE_ENC_RC_STATE_ON, SDE_ENC_RC_STATE_PRE_OFF}) \<and>
    (vote (res_of w') \<noteq> SDE_RSC_IDLE_STATE \<longleftrightarrow> rc_state enc' \<in> {SDE_ENC_RC_STATE_ON, SDE_ENC_RC_STATE_MODESET} \<or>
       (rc_state enc' = SDE_ENC_RC_STATE_IDLE \<and> cap_vid enc))"
proof -
  obtain enc' w' where run: "enc_run env cs (enc, []) = Some (enc', w')" and g: "enc_good env enc (enc', w')"
    using run_good [OF start_good [OF assms(1,2)] assms(3)] by auto
  then have f: "cap_vid enc' = cap_vid enc" "cap_cmd enc' = cap_cmd enc" "cpu_mask_set enc' = cpu_mask_set enc" "has_irq enc' = has_irq enc"
    by (simp_all add: enc_good_def has_irq_def fun_eq_iff)
  from g have m: "matches enc' (res_of w')" by (simp add: enc_good_def)
  then obtain v where r: "res_of w' = with_res enc' (if holds (cap_vid enc') (rc_state enc') then 1 else 0) (irq_on (rc_state enc')) v"
    "v = SDE_RSC_IDLE_STATE \<longleftrightarrow> \<not> voting (cap_vid enc') (rc_state enc')"
    by (rule matchesE)
  from r(1) have "enables Core_power w' = (if holds (cap_vid enc') (rc_state enc') then 1 else 0) + failed Core_power w'"
    "enables Connector_clk_ctrl w' = (if holds (cap_vid enc') (rc_state enc') then 1 else 0) + failed Connector_clk_ctrl w'"
    using res_of_enables [of w'] by (simp_all add: with_res_def)
  with run f r show ?thesis by (auto simp: with_res_def state_tables)
qed

definition demo_timing :: mode_timing where
  "demo_timing = \<lparr>mt_frame_rate = 60, mt_vtotal = 2280, mt_prefill_lines = 25, mt_jitter_numer = 2, mt_jitter_denom = 1\<rparr>"

definition demo_enc_env :: enc_env where
  "demo_enc_env = \<lparr>answer = (\<lambda>w c. 0), mode_info = (\<lambda>w. Inr demo_timing), wait_crtc = (\<lambda>w. Some 40)\<rparr>"

definition demo_phys :: sde_encoder_phys where
  "demo_phys = \<lparr>ph_addr = 1, op_irq_control = True, op_control_vblank_irq = True, op_wait = (\<lambda>ev. True), op_is_autorefresh = False\<rparr>"

text \<open>A primary display with one physical encoder, off, in command or video mode.\<close>

definition demo_enc :: "bool \<Rightarrow> sde_encoder_virt" where
  "demo_enc vid = \<lparr>phys_encs = [Some demo_phys], cur_master = Some 0, enc_crtc = Some (40, 0), rc_state = SDE_ENC_RC_STATE_OFF,
     idle_pc_enabled = True, frame_busy_mask = 0, vblank_enabled = True, elevated_ahb_vote = False, has_rsc_client = True,
     rsc_state_init = False, rsc_config = \<lparr>fps = 0, jitter_numer = 0, jitter_denom = 0, prefill_lines = 0, vtotal = 0\<rparr>,
     cap_vid = vid, cap_cmd = (\<not> vid), is_primary = True, is_dsi = True, clone_mode = False, frame_cb_set = True, rev_620 = False,
     cpu_mask_set = True\<rparr>"

lemma demo_enc_ok: "disp_ok demo_enc_env (demo_enc vid)"
  by (cases vid) (simp_all add: disp_ok_def demo_enc_env_def demo_enc_def MAX_CRTCS_def)

text \<open>A commit, the end of its frame, the idle timer, a wake up by touch, and a mode change before the display goes off.\<close>

definition demo_enc_ops :: "enc_op list" where
  "demo_enc_ops = [Event SDE_ENC_RC_EVENT_KICKOFF, Start_frame 0, Frame_done 1 1, Off_work, Input_work,
     Event SDE_ENC_RC_EVENT_PRE_MODESET, Event SDE_ENC_RC_EVENT_POST_MODESET, Event SDE_ENC_RC_EVENT_PRE_STOP]"

theorem encoder_resources_follow_state_witness:
  "\<exists>enc' w'. enc_run demo_enc_env demo_enc_ops (demo_enc False, []) = Some (enc', w') \<and>
     enables Core_power w' = 1 + failed Core_power w' \<and> vote (res_of w') = SDE_RSC_IDLE_STATE"
proof -
  have off: "rc_state (demo_enc False) = SDE_ENC_RC_STATE_OFF" by (simp add: demo_enc_def)
  have reg: "regular_run demo_enc_env demo_enc_ops (demo_enc False, [])" by code_simp
  have st: "map_option (\<lambda>s. rc_state (fst s)) (enc_run demo_enc_env demo_enc_ops (demo_enc False, [])) = Some SDE_ENC_RC_STATE_PRE_OFF"
    by code_simp
  from encoder_resources_follow_state [OF demo_enc_ok off reg] st show ?thesis
    by (elim exE conjE) (simp add: demo_enc_def)
qed

text \<open>
  C36. What an irregular event costs. In the idle state of a video mode display the power is still held,
  but the state machine treats the state as if it were not: a stop there leaves the machine off with the
  power and the connector clocks still referenced and the coordinator's vote in place, and a mode change
  or an early wakeup there that succeeds takes a second reference.
\<close>

theorem video_idle_events_leak:
  assumes "disp_ok env enc" and "cap_vid enc" and "rc_state enc = SDE_ENC_RC_STATE_IDLE" and "matches enc (res_of w)"
    and "idle_pc_enabled enc"
  shows "(\<exists>enc' w'. sde_encoder_resource_control env enc SDE_ENC_RC_EVENT_STOP w = Some (0, enc', w') \<and>
      rc_state enc' = SDE_ENC_RC_STATE_OFF \<and> pw (res_of w') = 1 \<and> cc (res_of w') = 1 \<and> vote (res_of w') \<noteq> SDE_RSC_IDLE_STATE) \<and>
    (\<exists>ret enc' w'. sde_encoder_resource_control env enc SDE_ENC_RC_EVENT_PRE_MODESET w = Some (ret, enc', w') \<and>
      (ret = 0 \<longrightarrow> rc_state enc' = SDE_ENC_RC_STATE_MODESET \<and> pw (res_of w') = 2)) \<and>
    (\<exists>ret enc' w'. sde_encoder_resource_control env enc SDE_ENC_RC_EVENT_EARLY_WAKEUP w = Some (ret, enc', w') \<and>
      (ret = 0 \<longrightarrow> rc_state enc' = SDE_ENC_RC_STATE_ON \<and> pw (res_of w') = 2))"
proof -
  obtain v where v: "res_of w = with_res enc 1 False v" "v \<noteq> SDE_RSC_IDLE_STATE"
    by (rule matchesE [OF assms(4)]) (rule that, use assms(2,3) in \<open>simp_all add: state_tables\<close>)
  have "sde_encoder_resource_control env enc SDE_ENC_RC_EVENT_STOP w = rc_stop env enc w"
    "sde_encoder_resource_control env enc SDE_ENC_RC_EVENT_PRE_MODESET w = rc_pre_modeset env enc w"
    "sde_encoder_resource_control env enc SDE_ENC_RC_EVENT_EARLY_WAKEUP w = rc_early_wakeup env enc w"
    using assms(5) by (simp_all add: sde_encoder_resource_control_def)
  then show ?thesis
    using pre_modeset_twice [OF assms(1) v(1)] early_wakeup_idle [OF assms(1) v(1) assms(3)] v assms(3)
    by (simp add: rc_stop_def Let_def with_res_def)
qed

text \<open>A video mode display after a commit and its idle timer; the mode change succeeds there.\<close>

definition demo_vid_idle :: enc_state where
  "demo_vid_idle = the (enc_run demo_enc_env [Event SDE_ENC_RC_EVENT_KICKOFF, Off_work] (demo_enc True, []))"

theorem video_idle_events_leak_witness:
  "\<exists>enc' w'. sde_encoder_resource_control demo_enc_env (fst demo_vid_idle) SDE_ENC_RC_EVENT_PRE_MODESET (snd demo_vid_idle) = Some (0, enc', w') \<and>
     rc_state enc' = SDE_ENC_RC_STATE_MODESET \<and> pw (res_of w') = 2"
proof -
  have reg: "regular_run demo_enc_env [Event SDE_ENC_RC_EVENT_KICKOFF, Off_work] (demo_enc True, [])" by code_simp
  have off: "rc_state (demo_enc True) = SDE_ENC_RC_STATE_OFF" by (simp add: demo_enc_def)
  obtain s where run: "enc_run demo_enc_env [Event SDE_ENC_RC_EVENT_KICKOFF, Off_work] (demo_enc True, []) = Some s"
    and s: "enc_good demo_enc_env (demo_enc True) s"
    using run_good [OF start_good [OF demo_enc_ok off] reg] by blast
  have "demo_vid_idle = s" unfolding demo_vid_idle_def run by (rule option.sel)
  with s have g: "enc_good demo_enc_env (demo_enc True) demo_vid_idle" by simp
  have st: "rc_state (fst demo_vid_idle) = SDE_ENC_RC_STATE_IDLE" "idle_pc_enabled (fst demo_vid_idle)" "cap_vid (fst demo_vid_idle)"
    by code_simp+
  have ret: "map_option fst (sde_encoder_resource_control demo_enc_env (fst demo_vid_idle) SDE_ENC_RC_EVENT_PRE_MODESET (snd demo_vid_idle)) = Some 0"
    by code_simp
  from video_idle_events_leak [of demo_enc_env "fst demo_vid_idle" "snd demo_vid_idle"] g st ret show ?thesis
    by (auto simp: enc_good_def)
qed

text \<open>
  C37. The state machine follows its transition table. For a display whose physical encoders are all
  there, with a master among them, bound to a crtc with a valid index, with a coordinator client, of
  command or video mode, and whose mode information is always available (\<open>disp_ok\<close>), and whatever the
  calls answer, every event in every state returns; an event that the table refuses returns \<open>-EINVAL\<close> and
  keeps the state; an accepted one that returns 0 leads to the state of the table; and an error of an accepted event comes
  only from the events that power up or wait, and keeps the state or, in the preparation of a mode change,
  leaves the display on. Nothing else of the encoder changes but its timing record and its clock vote.
  The table is that of the code: the comment of the events says that a pre-stop in the idle state does
  nothing, but it takes an idle video mode display to the pre-off state.
\<close>

theorem resource_control_transitions:
  assumes "disp_ok env enc"
  shows "\<exists>ret enc' w'. sde_encoder_resource_control env enc ev w = Some (ret, enc', w') \<and> display enc' = display enc \<and>
    (case rc_goal (idle_pc_enabled enc) (cap_vid enc) (frame_busy_mask enc \<noteq> 0) (rc_state enc) ev of
       None \<Rightarrow> ret = - EINVAL \<and> rc_state enc' = rc_state enc
     | Some s \<Rightarrow> if ret = 0 then rc_state enc' = s
         else may_fail (idle_pc_enabled enc) (cap_vid enc) (rc_state enc) ev \<and>
           (rc_state enc' = rc_state enc \<or> ev = SDE_ENC_RC_EVENT_PRE_MODESET \<and> rc_state enc' = SDE_ENC_RC_STATE_ON))"
  using resource_control_follows [OF assms] by (simp add: follows_def)

theorem resource_control_transitions_witness:
  "\<exists>ret enc' w'. sde_encoder_resource_control demo_enc_env (demo_enc False) SDE_ENC_RC_EVENT_STOP [] = Some (ret, enc', w') \<and>
     ret = 0 \<and> rc_state enc' = SDE_ENC_RC_STATE_OFF"
  using resource_control_transitions [OF demo_enc_ok, of False SDE_ENC_RC_EVENT_STOP "[]"]
  by (auto simp: demo_enc_def split: if_splits)

text \<open>
  C38. Telling the coordinator ends. Whatever the coordinator, the crtc and the physical encoders answer,
  the update of the coordinator's client returns with the state of the resource control unchanged, and it
  asks at most five times whether the transition is complete: it asks again only after a no, and if it
  asks at all it gives up before the fifth no only on a yes.
\<close>

theorem rsc_client_update_ends:
  assumes "\<forall>p \<in> set (phys_encs enc). p \<noteq> None"
  shows "\<exists>ret enc' w' u. sde_encoder_update_rsc_client env enc config enable w = Some (ret, enc', w') \<and> rc_state enc' = rc_state enc \<and>
    polls w' = polls w @ u \<and> length u \<le> 5 \<and> (\<forall>r \<in> set (butlast u). r = 0) \<and> (u = [] \<or> length u = 5 \<or> last u \<noteq> 0)"
  using update_rsc_client_polls [OF assms, of env config enable w]
  by (fastforce simp: bounded_polls_def MAX_RSC_WAIT_def)

theorem rsc_client_update_ends_witness:
  "\<exists>ret enc' w' u. sde_encoder_update_rsc_client demo_enc_env (demo_enc True) None True [] = Some (ret, enc', w') \<and>
     polls w' = u \<and> length u \<le> 5"
  using rsc_client_update_ends [of "demo_enc True" demo_enc_env None True "[]"]
  by (auto simp: demo_enc_def polls_def)

end
