(* ===== verification/Sde_Rm.thy ===== *)
theory Sde_Rm
  imports Sde_Prelude
begin

section \<open>Resource manager: model\<close>

text \<open>
  The display resource manager of \<^verbatim>\<open>msm/sde/sde_rm.c\<close>: which hardware blocks (mixers, control paths,
  pingpongs, compression encoders, interfaces) belong to which display. A reservation is a tag; a block
  points to the tag of its owner and, while a reservation is being made, to the tag of the proposal.

  A tag is an address; the list \<open>rsvps\<close> of addresses and contents is the memory the tags live in, so a
  block that points outside the list has a dangling pointer, and reading through it gives \<open>None\<close>. The
  blocks of a type are a list, and a block is named by its type and position. \<open>hw_caps\<close> has the fields of
  the catalog entries that the manager reads; \<open>None\<close> for an bid is the \<open>MAX\<close> value that says there is no
  such block. Values at or above \<open>SDE_HW_BLK_MAX\<close> are the one constructor of that name. The catalog data
  that the manager reads through the private data of the device are fields of the manager. Locks and log
  messages have no counterpart.
\<close>

abbreviation ENAVAIL :: int where "ENAVAIL \<equiv> 119"
abbreviation ENOENT :: int where "ENOENT \<equiv> 2"

datatype sde_hw_blk_type =
    SDE_HW_BLK_TOP | SDE_HW_BLK_SSPP | SDE_HW_BLK_LM | SDE_HW_BLK_DSPP | SDE_HW_BLK_DS | SDE_HW_BLK_CTL | SDE_HW_BLK_CDM
  | SDE_HW_BLK_PINGPONG | SDE_HW_BLK_INTF | SDE_HW_BLK_WB | SDE_HW_BLK_DSC | SDE_HW_BLK_ROI_MISR | SDE_HW_BLK_ROT
  | SDE_HW_BLK_MERGE_3D | SDE_HW_BLK_QDSS | SDE_HW_BLK_MAX

datatype sde_rm_topology_name =
    SDE_RM_TOPOLOGY_NONE | SDE_RM_TOPOLOGY_SINGLEPIPE | SDE_RM_TOPOLOGY_SINGLEPIPE_DSC | SDE_RM_TOPOLOGY_DUALPIPE
  | SDE_RM_TOPOLOGY_DUALPIPE_DSC | SDE_RM_TOPOLOGY_DUALPIPE_3DMERGE | SDE_RM_TOPOLOGY_DUALPIPE_3DMERGE_DSC
  | SDE_RM_TOPOLOGY_DUALPIPE_DSCMERGE | SDE_RM_TOPOLOGY_PPSPLIT | SDE_RM_TOPOLOGY_TRIPLEPIPE | SDE_RM_TOPOLOGY_TRIPLEPIPE_DSC
  | SDE_RM_TOPOLOGY_QUADPIPE_3DMERGE | SDE_RM_TOPOLOGY_QUADPIPE_DSCMERGE | SDE_RM_TOPOLOGY_QUADPIPE_3DMERGE_DSC
  | SDE_RM_TOPOLOGY_SIXPIPE_3DMERGE | SDE_RM_TOPOLOGY_SIXPIPE_DSCMERGE

definition SDE_RM_TOPOLOGY_MAX :: nat where "SDE_RM_TOPOLOGY_MAX = 16"

text \<open>Bit positions of the topology control property.\<close>

definition SDE_RM_TOPCTL_RESERVE_LOCK :: nat where "SDE_RM_TOPCTL_RESERVE_LOCK = 0"
definition SDE_RM_TOPCTL_RESERVE_CLEAR :: nat where "SDE_RM_TOPCTL_RESERVE_CLEAR = 1"
definition SDE_RM_TOPCTL_DSPP :: nat where "SDE_RM_TOPCTL_DSPP = 2"
definition SDE_RM_TOPCTL_DS :: nat where "SDE_RM_TOPCTL_DS = 3"
definition SDE_RM_TOPCTL_CWB :: nat where "SDE_RM_TOPCTL_CWB = 4"

record sde_rm_topology_def =
  top_name :: sde_rm_topology_name
  num_lm :: nat
  num_comp_enc :: nat
  num_intf :: nat
  num_ctl :: nat
  needs_split_display :: bool

record msm_display_topology =
  mt_num_lm :: nat
  mt_num_enc :: nat
  mt_num_intf :: nat

record hw_caps =
  lm_primary_pref :: bool
  lm_cwb_pref :: bool
  lm_dspp :: "nat option"
  lm_ds :: "nat option"
  lm_pingpong :: "nat option"
  lm_roi_misr :: "nat option"
  lm_pair_mask :: u64
  lm_maxwidth :: u32
  pp_split :: bool
  pp_slave :: bool
  ctl_split_display :: bool
  ctl_pingpong_split :: bool
  ctl_primary_pref :: bool
  dsc_pair_mask :: u64
  cdm_intf_connect :: u64
  cdm_wb_connect :: u64

record sde_rm_rsvp =
  rv_seq :: u32
  rv_enc :: nat
  rv_topology :: sde_rm_topology_name

record sde_rm_hw_blk =
  rsvp :: "nat option"
  rsvp_nxt :: "nat option"
  blk_type :: sde_hw_blk_type
  blk_id :: nat
  caps :: hw_caps

record sde_rm =
  rsvps :: "(nat \<times> sde_rm_rsvp) list"
  hw_blks :: "sde_hw_blk_type \<Rightarrow> sde_rm_hw_blk list"
  hw_mdp :: bool
  lm_max_width :: u32
  rsvp_next_seq :: u32
  topology_tbl :: "sde_rm_topology_def list"
  has_roi_misr :: bool
  qdss_count :: nat
  has_dest_scaler :: bool

record sde_encoder_hw_resources =
  hr_intfs :: "nat list"
  hr_wbs :: "nat list"
  hr_needs_cdm :: bool
  hr_is_primary :: bool
  hr_topology :: msm_display_topology

record sde_rm_requirements =
  top_ctrl :: u64
  rq_topology :: sde_rm_topology_def
  hw_res :: sde_encoder_hw_resources

abbreviation RM_RQ_LOCK :: "sde_rm_requirements \<Rightarrow> bool" where "RM_RQ_LOCK r \<equiv> bit (top_ctrl r) SDE_RM_TOPCTL_RESERVE_LOCK"
abbreviation RM_RQ_CLEAR :: "sde_rm_requirements \<Rightarrow> bool" where "RM_RQ_CLEAR r \<equiv> bit (top_ctrl r) SDE_RM_TOPCTL_RESERVE_CLEAR"
abbreviation RM_RQ_DSPP :: "sde_rm_requirements \<Rightarrow> bool" where "RM_RQ_DSPP r \<equiv> bit (top_ctrl r) SDE_RM_TOPCTL_DSPP"
abbreviation RM_RQ_DS :: "sde_rm_requirements \<Rightarrow> bool" where "RM_RQ_DS r \<equiv> bit (top_ctrl r) SDE_RM_TOPCTL_DS"
abbreviation RM_RQ_CWB :: "sde_rm_requirements \<Rightarrow> bool" where "RM_RQ_CWB r \<equiv> bit (top_ctrl r) SDE_RM_TOPCTL_CWB"

subsection \<open>Topologies\<close>

definition topo :: "sde_rm_topology_name \<Rightarrow> nat \<Rightarrow> nat \<Rightarrow> nat \<Rightarrow> nat \<Rightarrow> bool \<Rightarrow> sde_rm_topology_def" where
  "topo n lm enc intf ctl split = \<lparr>top_name = n, num_lm = lm, num_comp_enc = enc, num_intf = intf, num_ctl = ctl, needs_split_display = split\<rparr>"

definition g_top_table :: "sde_rm_topology_def list" where
  "g_top_table = [
     topo SDE_RM_TOPOLOGY_NONE                 0 0 0 0 False,
     topo SDE_RM_TOPOLOGY_SINGLEPIPE           1 0 1 1 False,
     topo SDE_RM_TOPOLOGY_SINGLEPIPE_DSC       1 1 1 1 False,
     topo SDE_RM_TOPOLOGY_DUALPIPE             2 0 2 2 True,
     topo SDE_RM_TOPOLOGY_DUALPIPE_DSC         2 2 2 2 True,
     topo SDE_RM_TOPOLOGY_DUALPIPE_3DMERGE     2 0 1 1 False,
     topo SDE_RM_TOPOLOGY_DUALPIPE_3DMERGE_DSC 2 1 1 1 False,
     topo SDE_RM_TOPOLOGY_DUALPIPE_DSCMERGE    2 2 1 1 False,
     topo SDE_RM_TOPOLOGY_PPSPLIT              1 0 2 1 True]"

definition g_ctl_ver_1_top_table :: "sde_rm_topology_def list" where
  "g_ctl_ver_1_top_table = [
     topo SDE_RM_TOPOLOGY_NONE                 0 0 0 0 False,
     topo SDE_RM_TOPOLOGY_SINGLEPIPE           1 0 1 1 False,
     topo SDE_RM_TOPOLOGY_SINGLEPIPE_DSC       1 1 1 1 False,
     topo SDE_RM_TOPOLOGY_DUALPIPE             2 0 2 1 False,
     topo SDE_RM_TOPOLOGY_DUALPIPE_DSC         2 2 2 1 False,
     topo SDE_RM_TOPOLOGY_DUALPIPE_3DMERGE     2 0 1 1 False,
     topo SDE_RM_TOPOLOGY_DUALPIPE_3DMERGE_DSC 2 1 1 1 False,
     topo SDE_RM_TOPOLOGY_DUALPIPE_DSCMERGE    2 2 1 1 False,
     topo SDE_RM_TOPOLOGY_PPSPLIT              1 0 2 1 False,
     topo SDE_RM_TOPOLOGY_TRIPLEPIPE           3 0 3 1 False,
     topo SDE_RM_TOPOLOGY_TRIPLEPIPE_DSC       3 3 3 1 False,
     topo SDE_RM_TOPOLOGY_QUADPIPE_3DMERGE     4 0 2 1 False,
     topo SDE_RM_TOPOLOGY_QUADPIPE_3DMERGE_DSC 4 3 2 1 False,
     topo SDE_RM_TOPOLOGY_QUADPIPE_DSCMERGE    4 4 2 1 False,
     topo SDE_RM_TOPOLOGY_SIXPIPE_3DMERGE      6 0 3 1 False,
     topo SDE_RM_TOPOLOGY_SIXPIPE_DSCMERGE     6 6 3 1 False]"

definition RM_IS_TOPOLOGY_MATCH :: "sde_rm_topology_def \<Rightarrow> msm_display_topology \<Rightarrow> bool" where
  "RM_IS_TOPOLOGY_MATCH t r \<longleftrightarrow> num_lm t = mt_num_lm r \<and> num_comp_enc t = mt_num_enc r \<and> num_intf t = mt_num_intf r"

text \<open>The search of the table from position \<open>i\<close>, with \<open>n\<close> positions left: the first hit, if any.\<close>

fun top_loop :: "sde_rm_topology_def list \<Rightarrow> (sde_rm_topology_def \<Rightarrow> bool) \<Rightarrow> nat \<Rightarrow> nat \<Rightarrow> sde_rm_topology_def option option" where
  "top_loop tbl P i 0 = Some None"
| "top_loop tbl P i (Suc n) = do {
     t \<leftarrow> nth_opt tbl i;
     if P t then Some (Some t) else top_loop tbl P (i + 1) n
   }"

definition sde_rm_get_topology_name :: "sde_rm \<Rightarrow> msm_display_topology \<Rightarrow> sde_rm_topology_name option" where
  "sde_rm_get_topology_name rm tp = do {
     r \<leftarrow> top_loop (topology_tbl rm) (\<lambda>t. RM_IS_TOPOLOGY_MATCH t tp) 0 SDE_RM_TOPOLOGY_MAX;
     Some (case r of None \<Rightarrow> SDE_RM_TOPOLOGY_NONE | Some t \<Rightarrow> top_name t)
   }"

definition sde_rm_get_topology_num_encoders :: "sde_rm \<Rightarrow> sde_rm_topology_name \<Rightarrow> nat option" where
  "sde_rm_get_topology_num_encoders rm name = do {
     r \<leftarrow> top_loop (topology_tbl rm) (\<lambda>t. top_name t = name) 0 SDE_RM_TOPOLOGY_MAX;
     Some (case r of None \<Rightarrow> 0 | Some t \<Rightarrow> num_comp_enc t)
   }"

definition sde_rm_is_dscmerge_case :: "sde_rm_topology_name \<Rightarrow> bool" where
  "sde_rm_is_dscmerge_case n \<longleftrightarrow> n = SDE_RM_TOPOLOGY_DUALPIPE_DSCMERGE \<or> n = SDE_RM_TOPOLOGY_QUADPIPE_DSCMERGE \<or>
     n = SDE_RM_TOPOLOGY_SIXPIPE_DSCMERGE"

definition sde_rm_get_roi_misr_num :: "sde_rm \<Rightarrow> sde_rm_topology_name \<Rightarrow> nat option" where
  "sde_rm_get_roi_misr_num rm name = do {
     r \<leftarrow> top_loop (topology_tbl rm) (\<lambda>t. top_name t = name) 0 SDE_RM_TOPOLOGY_MAX;
     Some (case r of None \<Rightarrow> 0 | Some t \<Rightarrow>
       if name = SDE_RM_TOPOLOGY_PPSPLIT then 0
       else if sde_rm_is_dscmerge_case name then num_intf t * 2
       else num_intf t)
   }"

definition sde_rm_is_3dmux_case :: "sde_rm_topology_name \<Rightarrow> bool" where
  "sde_rm_is_3dmux_case n \<longleftrightarrow> n = SDE_RM_TOPOLOGY_DUALPIPE_3DMERGE \<or> n = SDE_RM_TOPOLOGY_DUALPIPE_3DMERGE_DSC \<or>
     n = SDE_RM_TOPOLOGY_QUADPIPE_3DMERGE \<or> n = SDE_RM_TOPOLOGY_QUADPIPE_3DMERGE_DSC \<or> n = SDE_RM_TOPOLOGY_SIXPIPE_3DMERGE"

text \<open>
  The topology for a connector state, \<open>None\<close> as the inner value if the state is null; setting the
  connector property with it is a call of the property helper.
\<close>

definition sde_rm_update_topology :: "(sde_rm_topology_name \<Rightarrow> int) \<Rightarrow> sde_rm \<Rightarrow> bool \<Rightarrow> msm_display_topology option \<Rightarrow> int option" where
  "sde_rm_update_topology set_property rm conn_state topology =
     (if \<not> conn_state then Some (- EINVAL)
      else do {
        name \<leftarrow> (case topology of None \<Rightarrow> Some SDE_RM_TOPOLOGY_NONE | Some tp \<Rightarrow> sde_rm_get_topology_name rm tp);
        Some (set_property name)
      })"

subsection \<open>Blocks and their owners\<close>

definition blk :: "sde_rm \<Rightarrow> sde_hw_blk_type \<Rightarrow> nat \<Rightarrow> sde_rm_hw_blk" where
  "blk rm t i = hw_blks rm t ! i"

text \<open>Whether a block belongs to an encoder other than \<open>e\<close>; reading through a dangling tag has no value.\<close>

definition RESERVED_BY_OTHER :: "sde_rm \<Rightarrow> sde_rm_hw_blk \<Rightarrow> nat \<Rightarrow> bool option" where
  "RESERVED_BY_OTHER rm b e = (case rsvp b of None \<Rightarrow> Some False | Some a \<Rightarrow> map_option (\<lambda>r. rv_enc r \<noteq> e) (map_of (rsvps rm) a))"

text \<open>
  An iterator; the position is \<open>None\<close> before the first block, and the length of the list stands for the
  list head that it rests on after the last.
\<close>

record sde_rm_hw_iter =
  it_hw :: bool
  it_blk :: "nat option"
  it_enc :: nat
  it_type :: sde_hw_blk_type

definition sde_rm_init_hw_iter :: "nat \<Rightarrow> sde_hw_blk_type \<Rightarrow> sde_rm_hw_iter" where
  "sde_rm_init_hw_iter e t = \<lparr>it_hw = False, it_blk = None, it_enc = e, it_type = t\<rparr>"

function get_hw_loop :: "sde_rm \<Rightarrow> sde_rm_hw_iter \<Rightarrow> nat \<Rightarrow> (bool \<times> sde_rm_hw_iter) option" where
  "get_hw_loop rm it i =
     (if i \<ge> length (hw_blks rm (it_type it)) then Some (False, it\<lparr>it_blk := Some (length (hw_blks rm (it_type it)))\<rparr>)
      else if blk_type (blk rm (it_type it) i) \<noteq> it_type it then Some (False, it\<lparr>it_blk := Some i\<rparr>)
      else do {
        hit \<leftarrow> (if it_enc it = 0 then Some True
               else case rsvp (blk rm (it_type it) i) of None \<Rightarrow> Some False
                 | Some a \<Rightarrow> map_option (\<lambda>r. rv_enc r = it_enc it) (map_of (rsvps rm) a));
        if hit then Some (True, it\<lparr>it_hw := True, it_blk := Some i\<rparr>)
        else get_hw_loop rm it (i + 1)
      })"
  by pat_completeness auto
termination by (relation "measure (\<lambda>(rm, it, i). length (hw_blks rm (it_type it)) - i)") auto

definition sde_rm_get_hw_locked :: "sde_rm \<Rightarrow> sde_rm_hw_iter \<Rightarrow> (bool \<times> sde_rm_hw_iter) option" where
  "sde_rm_get_hw_locked rm it =
     (if it_type it = SDE_HW_BLK_MAX then Some (False, it)
      else let it = it\<lparr>it_hw := False\<rparr> in
        if it_blk it = Some (length (hw_blks rm (it_type it))) then Some (False, it)
        else get_hw_loop rm it (case it_blk it of None \<Rightarrow> 0 | Some i \<Rightarrow> i + 1))"

definition sde_rm_get_hw :: "sde_rm \<Rightarrow> sde_rm_hw_iter \<Rightarrow> (bool \<times> sde_rm_hw_iter) option" where
  "sde_rm_get_hw rm it = sde_rm_get_hw_locked rm it"

text \<open>
  The positions that a loop over all encoders visits. The loops below run over this list; the theory of
  the invariant shows that it is what successive calls of the iterator return.
\<close>

definition visited :: "sde_rm \<Rightarrow> sde_hw_blk_type \<Rightarrow> nat list" where
  "visited rm t = (if t = SDE_HW_BLK_MAX then []
     else takeWhile (\<lambda>i. blk_type (blk rm t i) = t) [0..<length (hw_blks rm t)])"

definition find_blk :: "sde_rm \<Rightarrow> sde_hw_blk_type \<Rightarrow> nat \<Rightarrow> nat option" where
  "find_blk rm t bid = List.find (\<lambda>i. blk_id (blk rm t i) = bid) (visited rm t)"

definition sde_rm_request_hw_blk :: "sde_rm \<Rightarrow> sde_hw_blk_type \<Rightarrow> nat \<Rightarrow> nat option" where
  "sde_rm_request_hw_blk rm t bid = find_blk rm t bid"

text \<open>Tagging a block with a proposal.\<close>

definition mark :: "nat \<Rightarrow> sde_hw_blk_type \<Rightarrow> nat \<Rightarrow> sde_rm \<Rightarrow> sde_rm" where
  "mark a t i rm = rm\<lparr>hw_blks := (hw_blks rm)(t := (hw_blks rm t)[i := (blk rm t i)\<lparr>rsvp_nxt := Some a\<rparr>])\<rparr>"

definition mark_opt :: "nat \<Rightarrow> sde_hw_blk_type \<Rightarrow> nat option \<Rightarrow> sde_rm \<Rightarrow> sde_rm" where
  "mark_opt a t i rm = (case i of None \<Rightarrow> rm | Some i \<Rightarrow> mark a t i rm)"

end
