(* ===== verification/Sde_Rm_Reserve.thy ===== *)
theory Sde_Rm_Reserve
  imports Sde_Rm
begin

section \<open>Resource manager: making a reservation\<close>

text \<open>
  The choice of the blocks of a display. A mixer brings the blocks it is wired to: its post processing
  and scaler blocks, its pingpong, its signature block and, with signatures, its compression encoder. The
  loops over blocks recurse over the positions an iterator visits; the arrays of blocks being chosen are
  lists of as many elements as the count of the code says. Ids of mixers and compression encoders are
  below 32, so that the masks of the code are words. \<open>ids\<close> are the ids that the bootloader left in use,
  for a display that shows its splash screen, an array of two; \<open>e\<close> is the encoder of the proposal.
\<close>

record lm_conn =
  c_dspp :: "nat option"
  c_ds :: "nat option"
  c_pp :: nat
  c_roi_misr :: "nat option"
  c_dsc :: "nat option"

type_synonym lm_sel = "(nat \<times> lm_conn) list"

text \<open>What is asked of a mixer: its post processing and scaler blocks, and its support for writeback.\<close>

definition lm_matches :: "sde_rm_requirements \<Rightarrow> hw_caps \<Rightarrow> bool" where
  "lm_matches reqs c =
     (if \<not> lm_primary_pref c
      then let valid_dspp = lm_dspp c \<noteq> None; valid_ds = lm_ds c \<noteq> None;
               ret = (if RM_RQ_DSPP reqs \<and> RM_RQ_DS reqs then valid_dspp \<and> valid_ds
                 else if RM_RQ_DSPP reqs then valid_dspp \<and> \<not> valid_ds
                 else if RM_RQ_DS reqs then \<not> valid_dspp \<and> valid_ds
                 else \<not> (valid_dspp \<or> valid_ds)) in
           ret \<and> \<not> (RM_RQ_CWB reqs \<and> \<not> lm_cwb_pref c)
      else hr_is_primary (hw_res reqs))"

text \<open>The block of a type with an id that a mixer names: whether it can be used, and which it is.\<close>

definition pick :: "sde_rm \<Rightarrow> nat \<Rightarrow> sde_hw_blk_type \<Rightarrow> nat \<Rightarrow> nat option option" where
  "pick rm e t bid = (case find_blk rm t bid of None \<Rightarrow> Some None
     | Some j \<Rightarrow> do { other \<leftarrow> RESERVED_BY_OTHER rm (blk rm t j) e; Some (if other then None else Some j) })"

text \<open>The same for a block that a mixer need not have: \<open>Inl\<close> if it has one that cannot be used.\<close>

definition pick_opt :: "sde_rm \<Rightarrow> nat \<Rightarrow> sde_hw_blk_type \<Rightarrow> nat option \<Rightarrow> (unit + nat option) option" where
  "pick_opt rm e t bid = (case bid of None \<Rightarrow> Some (Inr None)
     | Some bid \<Rightarrow> map_option (\<lambda>r. case r of None \<Rightarrow> Inl () | Some j \<Rightarrow> Inr (Some j)) (pick rm e t bid))"

definition sde_rm_check_lm_and_get_connected_blks ::
    "sde_rm \<Rightarrow> nat \<Rightarrow> sde_rm_requirements \<Rightarrow> nat \<Rightarrow> nat option \<Rightarrow> lm_conn option option" where
  "sde_rm_check_lm_and_get_connected_blks rm e reqs i primary =
     (let lm = blk rm SDE_HW_BLK_LM i; c = caps lm in
      if (case primary of None \<Rightarrow> False | Some p \<Rightarrow> \<not> bit (lm_pair_mask (caps (blk rm SDE_HW_BLK_LM p))) (blk_id lm)) then Some None
      else if \<not> lm_matches reqs c then Some None
      else do {
        other \<leftarrow> RESERVED_BY_OTHER rm lm e;
        if other then Some None
        else do {
          dspp \<leftarrow> pick_opt rm e SDE_HW_BLK_DSPP (lm_dspp c);
          case dspp of Inl _ \<Rightarrow> Some None | Inr dspp \<Rightarrow> do {
          ds \<leftarrow> pick_opt rm e SDE_HW_BLK_DS (lm_ds c);
          case ds of Inl _ \<Rightarrow> Some None | Inr ds \<Rightarrow> do {
          pp \<leftarrow> (case lm_pingpong c of None \<Rightarrow> Some None | Some bid \<Rightarrow> pick rm e SDE_HW_BLK_PINGPONG bid);
          case pp of None \<Rightarrow> Some None | Some pp \<Rightarrow> do {
          roi \<leftarrow> pick_opt rm e SDE_HW_BLK_ROI_MISR (lm_roi_misr c);
          case roi of Inl _ \<Rightarrow> Some None | Inr roi \<Rightarrow> do {
          let roi = (if roi \<noteq> None \<and> primary \<noteq> None \<and> sde_rm_is_3dmux_case (top_name (rq_topology reqs)) then None else roi);
          dsc \<leftarrow> (if num_comp_enc (rq_topology reqs) \<noteq> 0 \<and> has_roi_misr rm
                 then case lm_roi_misr c of None \<Rightarrow> Some (Inl ()) | Some bid \<Rightarrow> pick_opt rm e SDE_HW_BLK_DSC (Some bid)
                 else Some (Inr None));
          case dsc of Inl _ \<Rightarrow> Some None | Inr dsc \<Rightarrow>
            if top_name (rq_topology reqs) = SDE_RM_TOPOLOGY_PPSPLIT \<and> \<not> pp_split (caps (blk rm SDE_HW_BLK_PINGPONG pp)) then Some None
            else Some (Some \<lparr>c_dspp = dspp, c_ds = ds, c_pp = pp, c_roi_misr = roi, c_dsc = dsc\<rparr>)
          }}}}
        }
      })"

subsection \<open>Mixers\<close>

text \<open>Whether a block has the id at position \<open>k\<close> of the array of ids, if there is one.\<close>

definition id_matches :: "nat list option \<Rightarrow> nat \<Rightarrow> nat \<Rightarrow> bool option" where
  "id_matches ids k bid = (case ids of None \<Rightarrow> Some True | Some l \<Rightarrow> map_option (\<lambda>x. x = bid) (nth_opt l k))"

fun lm_peer_loop ::
    "sde_rm \<Rightarrow> nat \<Rightarrow> sde_rm_requirements \<Rightarrow> nat list option \<Rightarrow> nat \<Rightarrow> nat list \<Rightarrow> u32 \<Rightarrow> lm_sel \<Rightarrow> (u32 \<times> lm_sel) option option" where
  "lm_peer_loop rm e reqs ids p [] lm_mask sel = Some None"
| "lm_peer_loop rm e reqs ids p (j # js) lm_mask sel =
     (if bit lm_mask (blk_id (blk rm SDE_HW_BLK_LM j)) then lm_peer_loop rm e reqs ids p js lm_mask sel
      else do {
        r \<leftarrow> sde_rm_check_lm_and_get_connected_blks rm e reqs j (Some p);
        case r of None \<Rightarrow> lm_peer_loop rm e reqs ids p js lm_mask sel
        | Some c \<Rightarrow> do {
            ok \<leftarrow> id_matches ids (length sel) (blk_id (blk rm SDE_HW_BLK_LM j));
            if ok then Some (Some (set_bit (blk_id (blk rm SDE_HW_BLK_LM j)) lm_mask, sel @ [(j, c)]))
            else lm_peer_loop rm e reqs ids p js lm_mask sel
          }
      })"

text \<open>One run over the mixers; a mixer whose peer is not found is given back.\<close>

fun lm_pass :: "sde_rm \<Rightarrow> nat \<Rightarrow> sde_rm_requirements \<Rightarrow> nat list option \<Rightarrow> nat list \<Rightarrow> u32 \<Rightarrow> lm_sel \<Rightarrow> (u32 \<times> lm_sel) option" where
  "lm_pass rm e reqs ids [] lm_mask sel = Some (lm_mask, sel)"
| "lm_pass rm e reqs ids (i # is) lm_mask sel =
     (if length sel = num_lm (rq_topology reqs) then Some (lm_mask, sel)
      else if bit lm_mask (blk_id (blk rm SDE_HW_BLK_LM i)) then lm_pass rm e reqs ids is lm_mask sel
      else do {
        ok \<leftarrow> id_matches ids (length sel) (blk_id (blk rm SDE_HW_BLK_LM i));
        if \<not> ok then lm_pass rm e reqs ids is lm_mask sel
        else do {
          r \<leftarrow> sde_rm_check_lm_and_get_connected_blks rm e reqs i None;
          case r of None \<Rightarrow> lm_pass rm e reqs ids is lm_mask sel
          | Some c \<Rightarrow> do {
              let lm_mask1 = set_bit (blk_id (blk rm SDE_HW_BLK_LM i)) lm_mask;
              let sel1 = sel @ [(i, c)];
              if length sel1 = num_lm (rq_topology reqs) then Some (lm_mask1, sel1)
              else do {
                peer \<leftarrow> lm_peer_loop rm e reqs ids i (visited rm SDE_HW_BLK_LM) lm_mask1 sel1;
                case peer of
                  None \<Rightarrow> lm_pass rm e reqs ids is (unset_bit (blk_id (blk rm SDE_HW_BLK_LM i)) lm_mask1) sel
                | Some (lm_mask2, sel2) \<Rightarrow> lm_pass rm e reqs ids is lm_mask2 sel2
              }
            }
        }
      })"

text \<open>
  Runs until there are enough mixers: first those with neither post processing nor scaler unless asked
  for, then those with the former, then those with both. The chosen ones are kept from run to run.
\<close>

function lm_rounds :: "sde_rm \<Rightarrow> nat \<Rightarrow> sde_rm_requirements \<Rightarrow> nat list option \<Rightarrow> u32 \<Rightarrow> lm_sel \<Rightarrow> lm_sel option" where
  "lm_rounds rm e reqs ids lm_mask sel =
     (case lm_pass rm e reqs ids (visited rm SDE_HW_BLK_LM) lm_mask sel of
        None \<Rightarrow> None
      | Some (lm_mask, sel) \<Rightarrow>
          if length sel = num_lm (rq_topology reqs) then Some sel
          else if \<not> RM_RQ_DSPP reqs then lm_rounds rm e (reqs\<lparr>top_ctrl := set_bit SDE_RM_TOPCTL_DSPP (top_ctrl reqs)\<rparr>) ids lm_mask sel
          else if \<not> RM_RQ_DS reqs then lm_rounds rm e (reqs\<lparr>top_ctrl := set_bit SDE_RM_TOPCTL_DS (top_ctrl reqs)\<rparr>) ids lm_mask sel
          else Some sel)"
  by pat_completeness auto
termination
  by (relation "measure (\<lambda>(rm, e, reqs, ids, m, sel). (if RM_RQ_DSPP reqs then 0 else 1) + (if RM_RQ_DS reqs then 0 else 1 :: nat))")
     (auto simp: bit_set_bit_iff SDE_RM_TOPCTL_DSPP_def SDE_RM_TOPCTL_DS_def)

definition mark_lm :: "nat \<Rightarrow> nat \<times> lm_conn \<Rightarrow> sde_rm \<Rightarrow> sde_rm" where
  "mark_lm a s rm = (case s of (i, c) \<Rightarrow>
     mark_opt a SDE_HW_BLK_DSC (c_dsc c) (mark_opt a SDE_HW_BLK_ROI_MISR (c_roi_misr c) (mark_opt a SDE_HW_BLK_DS (c_ds c)
       (mark_opt a SDE_HW_BLK_DSPP (c_dspp c) (mark a SDE_HW_BLK_PINGPONG (c_pp c) (mark a SDE_HW_BLK_LM i rm))))))"

text \<open>The first block of a list that belongs to no other encoder and satisfies a condition.\<close>

fun free_loop :: "sde_rm \<Rightarrow> nat \<Rightarrow> sde_hw_blk_type \<Rightarrow> (hw_caps \<Rightarrow> bool) \<Rightarrow> nat list \<Rightarrow> nat option option" where
  "free_loop rm e t P [] = Some None"
| "free_loop rm e t P (i # is) = do {
     other \<leftarrow> RESERVED_BY_OTHER rm (blk rm t i) e;
     if \<not> other \<and> P (caps (blk rm t i)) then Some (Some i) else free_loop rm e t P is
   }"

definition sde_rm_reserve_lms ::
    "sde_rm \<Rightarrow> nat \<Rightarrow> nat \<Rightarrow> sde_rm_requirements \<Rightarrow> nat list option \<Rightarrow> (int \<times> sde_rm) option" where
  "sde_rm_reserve_lms rm a e reqs ids =
     (if num_lm (rq_topology reqs) = 0 then Some (0, rm)
      else do {
        sel \<leftarrow> lm_rounds rm e reqs ids 0 [];
        if length sel \<noteq> num_lm (rq_topology reqs) then Some (- ENAVAIL, rm)
        else do {
          let rm = fold (mark_lm a) sel rm;
          if top_name (rq_topology reqs) = SDE_RM_TOPOLOGY_PPSPLIT then do {
            s \<leftarrow> free_loop rm e SDE_HW_BLK_PINGPONG (\<lambda>c. True)
              (filter (\<lambda>i. pp_slave (caps (blk rm SDE_HW_BLK_PINGPONG i))) (visited rm SDE_HW_BLK_PINGPONG));
            Some (if s = None then - ENAVAIL else 0, mark_opt a SDE_HW_BLK_PINGPONG s rm)
          } else Some (0, rm)
        }
      })"

subsection \<open>Control paths, compression encoders, trace and chroma blocks\<close>

definition ctl_matches :: "sde_rm_requirements \<Rightarrow> sde_rm_topology_def \<Rightarrow> hw_caps \<Rightarrow> bool" where
  "ctl_matches reqs tp c =
     (if \<not> ctl_primary_pref c
      then needs_split_display tp = ctl_split_display c \<and> \<not> (top_name tp = SDE_RM_TOPOLOGY_PPSPLIT \<and> \<not> ctl_pingpong_split c)
      else hr_is_primary (hw_res reqs))"

fun ctl_loop ::
    "sde_rm \<Rightarrow> nat \<Rightarrow> sde_rm_requirements \<Rightarrow> sde_rm_topology_def \<Rightarrow> nat list option \<Rightarrow> nat list \<Rightarrow> nat list \<Rightarrow> nat list option" where
  "ctl_loop rm e reqs tp ids [] ctls = Some ctls"
| "ctl_loop rm e reqs tp ids (i # is) ctls = do {
     other \<leftarrow> RESERVED_BY_OTHER rm (blk rm SDE_HW_BLK_CTL i) e;
     if other then ctl_loop rm e reqs tp ids is ctls
     else if ids = None \<and> \<not> ctl_matches reqs tp (caps (blk rm SDE_HW_BLK_CTL i)) then ctl_loop rm e reqs tp ids is ctls
     else do {
       ok \<leftarrow> id_matches ids (length ctls) (blk_id (blk rm SDE_HW_BLK_CTL i));
       if \<not> ok then ctl_loop rm e reqs tp ids is ctls
       else if length ctls + 1 = num_ctl tp then Some (ctls @ [i])
       else ctl_loop rm e reqs tp ids is (ctls @ [i])
     }
   }"

definition sde_rm_reserve_ctls ::
    "sde_rm \<Rightarrow> nat \<Rightarrow> nat \<Rightarrow> sde_rm_requirements \<Rightarrow> sde_rm_topology_def \<Rightarrow> nat list option \<Rightarrow> (int \<times> sde_rm) option" where
  "sde_rm_reserve_ctls rm a e reqs tp ids =
     (if num_ctl tp = 0 then Some (0, rm)
      else do {
        ctls \<leftarrow> ctl_loop rm e reqs tp ids (visited rm SDE_HW_BLK_CTL) [];
        if length ctls \<noteq> num_ctl tp then Some (- ENAVAIL, rm)
        else Some (0, fold (mark a SDE_HW_BLK_CTL) ctls rm)
      })"

definition sde_rm_check_dsc :: "sde_rm \<Rightarrow> nat \<Rightarrow> nat \<Rightarrow> nat option \<Rightarrow> bool option" where
  "sde_rm_check_dsc rm e i mate = do {
     other \<leftarrow> RESERVED_BY_OTHER rm (blk rm SDE_HW_BLK_DSC i) e;
     Some (\<not> other \<and> (case mate of None \<Rightarrow> True
       | Some p \<Rightarrow> bit (dsc_pair_mask (caps (blk rm SDE_HW_BLK_DSC p))) (blk_id (blk rm SDE_HW_BLK_DSC i))))
   }"

fun dsc_peer_loop :: "sde_rm \<Rightarrow> nat \<Rightarrow> nat list option \<Rightarrow> nat \<Rightarrow> nat list \<Rightarrow> u32 \<Rightarrow> nat list \<Rightarrow> (u32 \<times> nat list) option option" where
  "dsc_peer_loop rm e ids p [] reserve_mask sel = Some None"
| "dsc_peer_loop rm e ids p (j # js) reserve_mask sel =
     (if bit reserve_mask (blk_id (blk rm SDE_HW_BLK_DSC j)) then dsc_peer_loop rm e ids p js reserve_mask sel
      else do {
        ok \<leftarrow> id_matches ids (length sel) (blk_id (blk rm SDE_HW_BLK_DSC j));
        if \<not> ok then dsc_peer_loop rm e ids p js reserve_mask sel
        else do {
          ok \<leftarrow> sde_rm_check_dsc rm e j (Some p);
          if ok then Some (Some (set_bit (blk_id (blk rm SDE_HW_BLK_DSC j)) reserve_mask, sel @ [j]))
          else dsc_peer_loop rm e ids p js reserve_mask sel
        }
      })"

fun dsc_loop :: "sde_rm \<Rightarrow> nat \<Rightarrow> nat list option \<Rightarrow> nat \<Rightarrow> nat list \<Rightarrow> u32 \<Rightarrow> nat list \<Rightarrow> nat list option" where
  "dsc_loop rm e ids n [] reserve_mask sel = Some sel"
| "dsc_loop rm e ids n (i # is) reserve_mask sel =
     (if length sel = n then Some sel
      else if bit reserve_mask (blk_id (blk rm SDE_HW_BLK_DSC i)) then dsc_loop rm e ids n is reserve_mask sel
      else do {
        ok \<leftarrow> id_matches ids (length sel) (blk_id (blk rm SDE_HW_BLK_DSC i));
        if \<not> ok then dsc_loop rm e ids n is reserve_mask sel
        else do {
          ok \<leftarrow> sde_rm_check_dsc rm e i None;
          if \<not> ok then dsc_loop rm e ids n is reserve_mask sel
          else do {
            let mask1 = set_bit (blk_id (blk rm SDE_HW_BLK_DSC i)) reserve_mask;
            let sel1 = sel @ [i];
            if length sel1 = n then Some sel1
            else do {
              peer \<leftarrow> dsc_peer_loop rm e ids i (visited rm SDE_HW_BLK_DSC) mask1 sel1;
              case peer of
                None \<Rightarrow> dsc_loop rm e ids n is (unset_bit (blk_id (blk rm SDE_HW_BLK_DSC i)) mask1) sel
              | Some (mask2, sel2) \<Rightarrow> dsc_loop rm e ids n is mask2 sel2
            }
          }
        }
      })"

definition sde_rm_reserve_dsc :: "sde_rm \<Rightarrow> nat \<Rightarrow> nat \<Rightarrow> sde_rm_topology_def \<Rightarrow> nat list option \<Rightarrow> (int \<times> sde_rm) option" where
  "sde_rm_reserve_dsc rm a e tp ids =
     (if num_comp_enc tp = 0 then Some (0, rm)
      else if has_roi_misr rm then Some (0, rm)
      else do {
        sel \<leftarrow> dsc_loop rm e ids (num_comp_enc tp) (visited rm SDE_HW_BLK_DSC) 0 [];
        if length sel \<noteq> num_comp_enc tp then Some (- ENAVAIL, rm)
        else Some (0, fold (mark a SDE_HW_BLK_DSC) sel rm)
      })"

definition sde_rm_reserve_qdss :: "sde_rm \<Rightarrow> nat \<Rightarrow> nat \<Rightarrow> (int \<times> sde_rm) option" where
  "sde_rm_reserve_qdss rm a e = do {
     s \<leftarrow> free_loop rm e SDE_HW_BLK_QDSS (\<lambda>c. True) (visited rm SDE_HW_BLK_QDSS);
     case s of Some i \<Rightarrow> Some (0, mark a SDE_HW_BLK_QDSS i rm)
     | None \<Rightarrow> Some (if qdss_count rm \<noteq> 0 then - ENAVAIL else 0, rm)
   }"

text \<open>The last ids of interfaces and of writeback blocks are not in a connection mask.\<close>

definition INTF_0 :: nat where "INTF_0 = 1"
definition INTF_MAX :: nat where "INTF_MAX = 8"
definition WB_0 :: nat where "WB_0 = 1"
definition WB_MAX :: nat where "WB_MAX = 5"

definition cdm_matches :: "nat \<Rightarrow> sde_hw_blk_type \<Rightarrow> hw_caps \<Rightarrow> bool" where
  "cdm_matches bid t c =
     (if t = SDE_HW_BLK_INTF \<and> bid \<noteq> INTF_MAX then bit (cdm_intf_connect c) bid
      else if t = SDE_HW_BLK_WB \<and> bid \<noteq> WB_MAX then bit (cdm_wb_connect c) bid
      else False)"

definition sde_rm_reserve_cdm :: "sde_rm \<Rightarrow> nat \<Rightarrow> nat \<Rightarrow> nat \<Rightarrow> sde_hw_blk_type \<Rightarrow> (int \<times> sde_rm) option" where
  "sde_rm_reserve_cdm rm a e bid t = do {
     s \<leftarrow> free_loop rm e SDE_HW_BLK_CDM (cdm_matches bid t) (visited rm SDE_HW_BLK_CDM);
     case s of Some i \<Rightarrow> Some (0, mark a SDE_HW_BLK_CDM i rm)
     | None \<Rightarrow> Some (- ENAVAIL, rm)
   }"

definition sde_rm_reserve_intf_or_wb ::
    "sde_rm \<Rightarrow> nat \<Rightarrow> nat \<Rightarrow> nat \<Rightarrow> sde_hw_blk_type \<Rightarrow> bool \<Rightarrow> (int \<times> sde_rm) option" where
  "sde_rm_reserve_intf_or_wb rm a e bid t needs_cdm =
     (case find_blk rm t bid of
        None \<Rightarrow> Some (- EINVAL, rm)
      | Some i \<Rightarrow> do {
          other \<leftarrow> RESERVED_BY_OTHER rm (blk rm t i) e;
          if other then Some (- ENAVAIL, rm)
          else let rm = mark a t i rm in
               if needs_cdm then sde_rm_reserve_cdm rm a e bid t else Some (0, rm)
        })"

text \<open>The interfaces (or writeback blocks) of a list of modes, from id \<open>id\<close>; mode 0 is none.\<close>

fun intf_loop :: "sde_rm \<Rightarrow> nat \<Rightarrow> nat \<Rightarrow> sde_hw_blk_type \<Rightarrow> bool \<Rightarrow> nat \<Rightarrow> nat list \<Rightarrow> (int \<times> sde_rm) option" where
  "intf_loop rm a e t needs_cdm bid [] = Some (0, rm)"
| "intf_loop rm a e t needs_cdm bid (m # ms) =
     (if m = 0 then intf_loop rm a e t needs_cdm (bid + 1) ms
      else do {
        (ret, rm) \<leftarrow> sde_rm_reserve_intf_or_wb rm a e bid t needs_cdm;
        if ret \<noteq> 0 then Some (ret, rm) else intf_loop rm a e t needs_cdm (bid + 1) ms
      })"

definition sde_rm_reserve_intf_related_hw :: "sde_rm \<Rightarrow> nat \<Rightarrow> nat \<Rightarrow> sde_encoder_hw_resources \<Rightarrow> (int \<times> sde_rm) option" where
  "sde_rm_reserve_intf_related_hw rm a e res = do {
     (ret, rm) \<leftarrow> intf_loop rm a e SDE_HW_BLK_INTF (hr_needs_cdm res) INTF_0 (hr_intfs res);
     if ret \<noteq> 0 then Some (ret, rm)
     else intf_loop rm a e SDE_HW_BLK_WB (hr_needs_cdm res) WB_0 (hr_wbs res)
   }"

end
