(* ===== verification/Sde_Rm_Ops.thy ===== *)
theory Sde_Rm_Ops
  imports Sde_Rm_Reserve
begin

section \<open>Resource manager: operations\<close>

text \<open>
  Reserving for a display, releasing, blocks made by other drivers, and setting up and tearing down the
  manager. What a call reads of the display (its properties, its encoder and its splash screen) and the
  address that the allocation returns are a record given with the call; \<open>None\<close> for an address is a
  failed allocation.
\<close>

record sde_splash_display =
  sd_encoder :: "nat option"
  cont_splash_enabled :: bool
  sd_ctl_ids :: "nat list"
  sd_lm_ids :: "nat list"
  sd_dsc_ids :: "nat list"

record rm_request =
  q_enc :: nat
  q_needs_modeset :: bool
  q_splash :: "sde_splash_display list"
  q_top_ctrl :: u64
  q_hw_res :: sde_encoder_hw_resources
  q_dsi_connector :: bool
  q_primary_display :: bool
  q_clone_mode :: bool
  q_num_datapath :: nat
  q_alloc :: "nat option"

definition MAX_DATA_PATH_PER_DSIPLAY :: nat where "MAX_DATA_PATH_PER_DSIPLAY = 2"

subsection \<open>Requirements\<close>

text \<open>The topology for writeback of another display is chosen by the number of mixers that display uses.\<close>

definition sde_rm_populate_requirements :: "sde_rm \<Rightarrow> rm_request \<Rightarrow> (int + sde_rm_requirements) option" where
  "sde_rm_populate_requirements rm q = do {
     t \<leftarrow> top_loop (topology_tbl rm) (\<lambda>t. RM_IS_TOPOLOGY_MATCH t (hr_topology (q_hw_res q))) 0 SDE_RM_TOPOLOGY_MAX;
     case t of
       None \<Rightarrow> Some (Inl (- EINVAL))
     | Some t \<Rightarrow> do {
         let tc = q_top_ctrl q;
         let tc = (if q_dsi_connector q
           then let tc = set_bit SDE_RM_TOPCTL_DSPP tc in
             if \<not> bit tc SDE_RM_TOPCTL_DS \<and> has_dest_scaler rm \<and> q_primary_display q then set_bit SDE_RM_TOPCTL_DS tc else tc
           else tc);
         if \<not> bit tc SDE_RM_TOPCTL_CWB \<and> q_clone_mode q then do {
           let tc = set_bit SDE_RM_TOPCTL_CWB tc;
           t \<leftarrow> nth_opt (topology_tbl rm) (if q_num_datapath q = 1 then 1 else 5);
           Some (Inr \<lparr>top_ctrl = tc, rq_topology = t, hw_res = q_hw_res q\<rparr>)
         }
         else Some (Inr \<lparr>top_ctrl = tc, rq_topology = t, hw_res = q_hw_res q\<rparr>)
       }
   }"

subsection \<open>Reservations\<close>

definition sde_rm_get_rsvp :: "sde_rm \<Rightarrow> nat \<Rightarrow> nat option" where
  "sde_rm_get_rsvp rm e = map_option fst (List.find (\<lambda>p. rv_enc (snd p) = e) (rsvps rm))"

text \<open>The tag is taken off the list and off every block.\<close>

definition untag :: "nat \<Rightarrow> sde_rm_hw_blk \<Rightarrow> sde_rm_hw_blk" where
  "untag a b = (let b = (if rsvp b = Some a then b\<lparr>rsvp := None\<rparr> else b) in
     if rsvp_nxt b = Some a then b\<lparr>rsvp_nxt := None\<rparr> else b)"

definition sde_rm_release_rsvp :: "sde_rm \<Rightarrow> nat option \<Rightarrow> sde_rm" where
  "sde_rm_release_rsvp rm r = (case r of None \<Rightarrow> rm
     | Some a \<Rightarrow> rm\<lparr>rsvps := filter (\<lambda>p. fst p \<noteq> a) (rsvps rm), hw_blks := (\<lambda>t. map (untag a) (hw_blks rm t))\<rparr>)"

definition sde_rm_release :: "sde_rm \<Rightarrow> nat \<Rightarrow> u64 option \<Rightarrow> sde_rm" where
  "sde_rm_release rm e conn_top_ctrl =
     (case sde_rm_get_rsvp rm e of None \<Rightarrow> rm
      | Some a \<Rightarrow> (case conn_top_ctrl of None \<Rightarrow> rm
          | Some tc \<Rightarrow> if bit tc SDE_RM_TOPCTL_RESERVE_LOCK then rm else sde_rm_release_rsvp rm (Some a)))"

definition commit_blk :: "sde_rm_hw_blk \<Rightarrow> sde_rm_hw_blk" where
  "commit_blk b = (if rsvp_nxt b \<noteq> None then b\<lparr>rsvp := rsvp_nxt b, rsvp_nxt := None\<rparr> else b)"

definition sde_rm_commit_rsvp :: "sde_rm \<Rightarrow> int \<times> sde_rm" where
  "sde_rm_commit_rsvp rm = (0, rm\<lparr>hw_blks := (\<lambda>t. map commit_blk (hw_blks rm t))\<rparr>)"

text \<open>The new tag, with the next number, at the end of the list.\<close>

definition add_rsvp :: "nat \<Rightarrow> nat \<Rightarrow> sde_rm_topology_name \<Rightarrow> sde_rm \<Rightarrow> sde_rm" where
  "add_rsvp a e name rm = rm\<lparr>rsvp_next_seq := rsvp_next_seq rm + 1,
     rsvps := rsvps rm @ [(a, \<lparr>rv_seq = rsvp_next_seq rm + 1, rv_enc = e, rv_topology = name\<rparr>)]\<rparr>"

text \<open>Interfaces, compression encoders and trace blocks, after mixers and control paths.\<close>

definition reserve_rest :: "sde_rm \<Rightarrow> nat \<Rightarrow> nat \<Rightarrow> sde_rm_requirements \<Rightarrow> nat list option \<Rightarrow> (int \<times> sde_rm) option" where
  "reserve_rest rm a e reqs dsc_ids = do {
     (ret, rm) \<leftarrow> sde_rm_reserve_intf_related_hw rm a e (hw_res reqs);
     if ret \<noteq> 0 then Some (ret, rm)
     else do {
       (ret, rm) \<leftarrow> sde_rm_reserve_dsc rm a e (rq_topology reqs) dsc_ids;
       if ret \<noteq> 0 then Some (ret, rm) else sde_rm_reserve_qdss rm a e
     }
   }"

text \<open>The result of the search for control paths is dropped; \<open>ret\<close> is that of the search for mixers.\<close>

definition sde_rm_make_next_rsvp :: "sde_rm \<Rightarrow> nat \<Rightarrow> nat \<Rightarrow> sde_rm_requirements \<Rightarrow> (int \<times> sde_rm) option" where
  "sde_rm_make_next_rsvp rm a e reqs = do {
     let rm = add_rsvp a e (top_name (rq_topology reqs)) rm;
     (ret, rm) \<leftarrow> sde_rm_reserve_lms rm a e reqs None;
     if ret \<noteq> 0 then Some (ret, rm)
     else do {
       (_, rm) \<leftarrow> sde_rm_reserve_ctls rm a e reqs (rq_topology reqs) None;
       (_, rm) \<leftarrow> (if ret \<noteq> 0 \<and> \<not> needs_split_display (rq_topology reqs) \<and> num_ctl (rq_topology reqs) > 1
                  then sde_rm_reserve_ctls rm a e reqs ((rq_topology reqs)\<lparr>needs_split_display := True\<rparr>) None
                  else Some (0, rm));
       if ret \<noteq> 0 then Some (ret, rm) else reserve_rest rm a e reqs None
     }
   }"

definition sde_rm_make_next_rsvp_for_cont_splash ::
    "sde_rm \<Rightarrow> nat \<Rightarrow> nat \<Rightarrow> sde_rm_requirements \<Rightarrow> sde_splash_display list \<Rightarrow> (int \<times> sde_rm) option" where
  "sde_rm_make_next_rsvp_for_cont_splash rm a e reqs splash =
     (case List.find (\<lambda>s. sd_encoder s = Some e) (rev splash) of
        None \<Rightarrow> Some (- EINVAL, rm)
      | Some s \<Rightarrow> do {
          let rm = add_rsvp a e (top_name (rq_topology reqs)) rm;
          (ret, rm) \<leftarrow> sde_rm_reserve_lms rm a e reqs (Some (sd_lm_ids s));
          let retry = (ret \<noteq> 0 \<and> \<not> RM_RQ_DSPP reqs);
          let reqs = (if retry then reqs\<lparr>top_ctrl := set_bit SDE_RM_TOPCTL_DSPP (top_ctrl reqs)\<rparr> else reqs);
          (ret, rm) \<leftarrow> (if retry then sde_rm_reserve_lms rm a e reqs (Some (sd_lm_ids s)) else Some (ret, rm));
          if ret \<noteq> 0 then Some (ret, rm)
          else do {
            (_, rm) \<leftarrow> sde_rm_reserve_ctls rm a e reqs (rq_topology reqs) (Some (sd_ctl_ids s));
            (_, rm) \<leftarrow> (if ret \<noteq> 0 \<and> \<not> needs_split_display (rq_topology reqs)
                       then sde_rm_reserve_ctls rm a e reqs ((rq_topology reqs)\<lparr>needs_split_display := True\<rparr>) (Some (sd_ctl_ids s))
                       else Some (0, rm));
            if ret \<noteq> 0 then Some (ret, rm) else reserve_rest rm a e reqs (Some (sd_dsc_ids s))
          }
        })"

definition sde_rm_is_display_in_cont_splash :: "sde_splash_display list \<Rightarrow> nat \<Rightarrow> bool" where
  "sde_rm_is_display_in_cont_splash splash e =
     (case List.find (\<lambda>s. sd_encoder s = Some e) splash of None \<Rightarrow> False | Some s \<Rightarrow> cont_splash_enabled s)"

definition sde_rm_reserve :: "sde_rm \<Rightarrow> rm_request \<Rightarrow> bool \<Rightarrow> (int \<times> sde_rm) option" where
  "sde_rm_reserve rm q test_only =
     (let e = q_enc q; in_splash = sde_rm_is_display_in_cont_splash (q_splash q) e in
      if \<not> in_splash \<and> \<not> q_needs_modeset q then Some (0, rm)
      else do {
        r \<leftarrow> sde_rm_populate_requirements rm q;
        case r of
          Inl ret \<Rightarrow> Some (ret, rm)
        | Inr reqs \<Rightarrow> (case q_alloc q of
            None \<Rightarrow> Some (- ENOMEM, rm)
          | Some a \<Rightarrow> do {
              let cur = sde_rm_get_rsvp rm e;
              let clear = (cur \<noteq> None \<and> test_only \<and> RM_RQ_CLEAR reqs);
              let rm = (if clear then sde_rm_release_rsvp rm cur else rm);
              let cur = (if clear then None else cur);
              (ret, rm) \<leftarrow> (if in_splash then sde_rm_make_next_rsvp_for_cont_splash rm a e reqs (q_splash q)
                          else sde_rm_make_next_rsvp rm a e reqs);
              if ret \<noteq> 0 then Some (ret, sde_rm_release_rsvp rm (Some a))
              else if test_only \<and> \<not> RM_RQ_LOCK reqs then Some (ret, sde_rm_release_rsvp rm (Some a))
              else Some (sde_rm_commit_rsvp (sde_rm_release_rsvp rm cur))
            })
      })"

subsection \<open>Blocks of other drivers\<close>

text \<open>The two allocations are for the tag, if the encoder has none, and for the block.\<close>

definition sde_rm_ext_blk_create_reserve ::
    "sde_rm \<Rightarrow> sde_hw_blk_type \<Rightarrow> nat \<Rightarrow> hw_caps \<Rightarrow> nat \<Rightarrow> nat option \<Rightarrow> bool \<Rightarrow> int \<times> sde_rm" where
  "sde_rm_ext_blk_create_reserve rm t bid c e alloc blk_alloc =
     (if t = SDE_HW_BLK_MAX then (- EINVAL, rm)
      else let r = (case sde_rm_get_rsvp rm e of
          Some a \<Rightarrow> Some (a, rm)
        | None \<Rightarrow> map_option (\<lambda>a. (a, add_rsvp a e SDE_RM_TOPOLOGY_NONE rm)) alloc) in
      case r of None \<Rightarrow> (- ENOMEM, rm)
      | Some (a, rm) \<Rightarrow>
          if \<not> blk_alloc then (- ENOMEM, rm)
          else (0, rm\<lparr>hw_blks := (hw_blks rm)(t := hw_blks rm t @
                 [\<lparr>rsvp = Some a, rsvp_nxt = None, blk_type = t, blk_id = bid, caps = c\<rparr>])\<rparr>))"

definition sde_rm_ext_blk_destroy :: "sde_rm \<Rightarrow> nat \<Rightarrow> int \<times> sde_rm" where
  "sde_rm_ext_blk_destroy rm e =
     (case sde_rm_get_rsvp rm e of None \<Rightarrow> (- ENOENT, rm)
      | Some a \<Rightarrow> (0, rm\<lparr>hw_blks := (\<lambda>t. filter (\<lambda>b. rsvp b \<noteq> Some a) (hw_blks rm t)),
          rsvps := filter (\<lambda>p. fst p \<noteq> a) (rsvps rm)\<rparr>))"

subsection \<open>Setting up\<close>

text \<open>
  The catalog, as lists of ids and capabilities per type of block in the order the manager creates them;
  an interface without a type has \<open>None\<close>. Creating the register access object of a block and allocating
  the block can fail.
\<close>

record sde_mdss_cfg =
  ctl_rev_100 :: bool
  cat_blks :: "sde_hw_blk_type \<Rightarrow> (nat \<times> hw_caps) option list"
  cat_has_roi_misr :: bool
  cat_has_dest_scaler :: bool

datatype create_result = Hw_failed | No_memory | Created

definition managed :: "sde_hw_blk_type \<Rightarrow> bool" where
  "managed t \<longleftrightarrow> t \<in> {SDE_HW_BLK_LM, SDE_HW_BLK_DSPP, SDE_HW_BLK_DS, SDE_HW_BLK_CTL, SDE_HW_BLK_CDM, SDE_HW_BLK_PINGPONG,
     SDE_HW_BLK_INTF, SDE_HW_BLK_WB, SDE_HW_BLK_DSC, SDE_HW_BLK_ROI_MISR, SDE_HW_BLK_ROT, SDE_HW_BLK_QDSS}"

definition sde_rm_hw_blk_create ::
    "(sde_hw_blk_type \<Rightarrow> nat \<Rightarrow> create_result) \<Rightarrow> sde_rm \<Rightarrow> sde_hw_blk_type \<Rightarrow> nat \<Rightarrow> hw_caps \<Rightarrow> int \<times> sde_rm" where
  "sde_rm_hw_blk_create env rm t bid c =
     (if \<not> managed t then (- EINVAL, rm)
      else case env t bid of
        Hw_failed \<Rightarrow> (- EFAULT, rm)
      | No_memory \<Rightarrow> (- ENOMEM, rm)
      | Created \<Rightarrow> (0, rm\<lparr>hw_blks := (hw_blks rm)(t := hw_blks rm t @
          [\<lparr>rsvp = None, rsvp_nxt = None, blk_type = t, blk_id = bid, caps = c\<rparr>])\<rparr>))"

text \<open>Everything is freed, and the type lists are empty.\<close>

definition sde_rm_destroy :: "sde_rm \<Rightarrow> sde_rm" where
  "sde_rm_destroy rm = rm\<lparr>rsvps := [], hw_blks := (\<lambda>t. []), hw_mdp := False\<rparr>"

text \<open>A loop over the catalog entries of a type. The result says whether to go on, with the return code.\<close>

fun create_loop ::
    "(sde_hw_blk_type \<Rightarrow> nat \<Rightarrow> create_result) \<Rightarrow> sde_hw_blk_type \<Rightarrow> (nat \<times> hw_caps) option list \<Rightarrow> int \<times> sde_rm \<Rightarrow> bool \<times> int \<times> sde_rm" where
  "create_loop env t [] (rc, rm) = (True, rc, rm)"
| "create_loop env t (None # cs) (rc, rm) = create_loop env t cs (rc, rm)"
| "create_loop env t (Some (bid, c) # cs) (rc, rm) =
     (if t = SDE_HW_BLK_LM \<and> lm_pingpong c = None then (False, rc, rm)
      else let (rc, rm) = sde_rm_hw_blk_create env rm t bid c in
        if rc \<noteq> 0 then (False, rc, rm)
        else if t = SDE_HW_BLK_LM
        then create_loop env t cs (rc, if lm_max_width rm = 0 then rm\<lparr>lm_max_width := lm_maxwidth c\<rparr>
               else if lm_max_width rm > lm_maxwidth c then rm\<lparr>lm_max_width := lm_maxwidth c\<rparr> else rm)
        else create_loop env t cs (rc, rm))"

fun create_types ::
    "(sde_hw_blk_type \<Rightarrow> nat \<Rightarrow> create_result) \<Rightarrow> sde_mdss_cfg \<Rightarrow> sde_hw_blk_type list \<Rightarrow> int \<times> sde_rm \<Rightarrow> bool \<times> int \<times> sde_rm" where
  "create_types env cat [] s = (True, s)"
| "create_types env cat (t # ts) s =
     (let (ok, s) = create_loop env t (if t = SDE_HW_BLK_DS \<and> \<not> cat_has_dest_scaler cat then [] else cat_blks cat t) s in
      if ok then create_types env cat ts s else (False, s))"

definition empty_rm :: "sde_mdss_cfg \<Rightarrow> sde_rm" where
  "empty_rm cat = \<lparr>rsvps = [], hw_blks = (\<lambda>t. []), hw_mdp = False, lm_max_width = 0, rsvp_next_seq = 0,
     topology_tbl = (if ctl_rev_100 cat then g_ctl_ver_1_top_table else g_top_table), has_roi_misr = cat_has_roi_misr cat,
     qdss_count = length (cat_blks cat SDE_HW_BLK_QDSS), has_dest_scaler = cat_has_dest_scaler cat\<rparr>"

text \<open>\<open>mdp\<close> is the error of creating the top block, if it fails: the error in the pointer, 0 for a null pointer.\<close>

definition sde_rm_init :: "(sde_hw_blk_type \<Rightarrow> nat \<Rightarrow> create_result) \<Rightarrow> int option \<Rightarrow> sde_mdss_cfg \<Rightarrow> int \<times> sde_rm" where
  "sde_rm_init env mdp cat =
     (let rm = empty_rm cat in
      case mdp of Some rc \<Rightarrow> (rc, sde_rm_destroy rm)
      | None \<Rightarrow> case create_types env cat [SDE_HW_BLK_LM, SDE_HW_BLK_DSPP, SDE_HW_BLK_DS, SDE_HW_BLK_PINGPONG, SDE_HW_BLK_DSC,
              SDE_HW_BLK_ROI_MISR, SDE_HW_BLK_INTF, SDE_HW_BLK_WB, SDE_HW_BLK_ROT, SDE_HW_BLK_CTL, SDE_HW_BLK_CDM, SDE_HW_BLK_QDSS]
              (0, rm\<lparr>hw_mdp := True\<rparr>) of
          (ok, rc, rm) \<Rightarrow> if ok then (rc, rm) else (rc, sde_rm_destroy rm))"

end
