(* ===== verification/Sde_Rm_Inv.thy ===== *)
theory Sde_Rm_Inv
  imports Sde_Rm_Ops
begin

section \<open>Resource manager: tags and proposals\<close>

text \<open>
  The invariant of the tags, the state in which a set of blocks carries a proposal, and what committing
  or withdrawing a proposal makes of it. The searches of a reservation do not read proposals.
\<close>

declare get_hw_loop.simps [simp del] lm_rounds.simps [simp del]

subsection \<open>The iterator\<close>

text \<open>Successive calls of an iterator over all encoders return the visited positions in order.\<close>

fun iterate :: "nat \<Rightarrow> sde_rm \<Rightarrow> sde_rm_hw_iter \<Rightarrow> nat list" where
  "iterate 0 rm it = []"
| "iterate (Suc n) rm it = (case sde_rm_get_hw_locked rm it of
     Some (True, it') \<Rightarrow> the (it_blk it') # iterate n rm it'
   | _ \<Rightarrow> [])"

lemma get_hw_loop_all:
  assumes "it_enc it = 0"
  shows "get_hw_loop rm it i =
    (if i < length (hw_blks rm (it_type it)) \<and> blk_type (blk rm (it_type it) i) = it_type it
     then Some (True, it\<lparr>it_hw := True, it_blk := Some i\<rparr>)
     else Some (False, it\<lparr>it_blk := Some (if i < length (hw_blks rm (it_type it)) then i else length (hw_blks rm (it_type it)))\<rparr>))"
  using assms by (subst get_hw_loop.simps) simp

lemma takeWhile_upt:
  "takeWhile P [i..<n] = (if i < n \<and> P i then i # takeWhile P [Suc i..<n] else [])"
  by (cases "i < n") (simp_all add: upt_conv_Cons)

lemma iterate_from:
  assumes "it_enc it = 0" "it_type it \<noteq> SDE_HW_BLK_MAX"
    "it_blk it = (case i of 0 \<Rightarrow> None | Suc j \<Rightarrow> Some j)" "i \<le> length (hw_blks rm (it_type it))"
    "length (hw_blks rm (it_type it)) - i < n"
  shows "iterate n rm it = takeWhile (\<lambda>i. blk_type (blk rm (it_type it) i) = it_type it) [i..<length (hw_blks rm (it_type it))]"
  using assms
proof (induction n arbitrary: i it)
  case (Suc n)
  define it1 where "it1 = it\<lparr>it_hw := False\<rparr>"
  define it2 where "it2 = it1\<lparr>it_hw := True, it_blk := Some i\<rparr>"
  have pos: "(case it_blk it of None \<Rightarrow> 0 | Some i \<Rightarrow> i + 1) = i" using Suc.prems(3) by (cases i) simp_all
  have nl: "it_blk it \<noteq> Some (length (hw_blks rm (it_type it)))"
    using Suc.prems(3,4) by (cases i) auto
  have step: "sde_rm_get_hw_locked rm it = get_hw_loop rm it1 i"
    using Suc.prems(2) nl pos by (simp add: sde_rm_get_hw_locked_def it1_def Let_def)
  show ?case
  proof (cases "i < length (hw_blks rm (it_type it)) \<and> blk_type (blk rm (it_type it) i) = it_type it")
    case True
    then have "get_hw_loop rm it1 i = Some (True, it2)"
      using Suc.prems(1) by (simp add: get_hw_loop_all it1_def it2_def)
    moreover have "iterate n rm it2 = takeWhile (\<lambda>i. blk_type (blk rm (it_type it) i) = it_type it) [Suc i..<length (hw_blks rm (it_type it))]"
      using Suc.IH [of it2 "Suc i"] Suc.prems True [THEN conjunct1] by (simp add: it2_def it1_def)
    ultimately show ?thesis using step True by (subst takeWhile_upt) (simp add: it2_def)
  next
    case False
    then obtain it' where "sde_rm_get_hw_locked rm it = Some (False, it')"
      using step Suc.prems(1) get_hw_loop_all [of it1 rm i] by (auto simp: it1_def)
    with False show ?thesis by (subst takeWhile_upt) auto
  qed
qed simp

lemma iterate_visited:
  assumes "t \<noteq> SDE_HW_BLK_MAX" "length (hw_blks rm t) < n"
  shows "iterate n rm (sde_rm_init_hw_iter 0 t) = visited rm t"
  using iterate_from [of "sde_rm_init_hw_iter 0 t" 0 rm n] assms by (simp add: sde_rm_init_hw_iter_def visited_def)

lemma visited_less: "i \<in> set (visited rm t) \<Longrightarrow> i < length (hw_blks rm t)"
  by (auto simp: visited_def dest: set_takeWhileD split: if_splits)

lemma distinct_visited [simp]: "distinct (visited rm t)"
  by (simp add: visited_def distinct_takeWhile)

lemma find_blk_Some: "find_blk rm t n = Some j \<Longrightarrow> j < length (hw_blks rm t) \<and> blk_id (blk rm t j) = n"
  unfolding find_blk_def by (auto simp: find_Some_iff intro!: visited_less [of _ rm t] nth_mem)

subsection \<open>The invariant\<close>

definition tags :: "sde_rm \<Rightarrow> nat set" where
  "tags rm = fst ` set (rsvps rm)"

definition blk_ok :: "sde_rm \<Rightarrow> sde_hw_blk_type \<Rightarrow> sde_rm_hw_blk \<Rightarrow> bool" where
  "blk_ok rm t b \<longleftrightarrow> (\<forall>a. rsvp b = Some a \<longrightarrow> a \<in> tags rm) \<and> rsvp_nxt b = None \<and> blk_type b = t \<and>
     (t = SDE_HW_BLK_LM \<or> t = SDE_HW_BLK_DSC \<longrightarrow> blk_id b < 32)"

definition rm_inv :: "sde_rm \<Rightarrow> bool" where
  "rm_inv rm \<longleftrightarrow> distinct (map fst (rsvps rm)) \<and> distinct (map (rv_enc \<circ> snd) (rsvps rm)) \<and>
     (\<forall>t. \<forall>b \<in> set (hw_blks rm t). blk_ok rm t b)"

text \<open>The weaker fact that the searches need, which holds while a proposal is made.\<close>

definition live :: "sde_rm \<Rightarrow> bool" where
  "live rm \<longleftrightarrow> (\<forall>t. \<forall>b \<in> set (hw_blks rm t). (\<forall>a. rsvp b = Some a \<longrightarrow> a \<in> tags rm) \<and>
     (t = SDE_HW_BLK_LM \<or> t = SDE_HW_BLK_DSC \<longrightarrow> blk_id b < 32))"

lemma inv_live: "rm_inv rm \<Longrightarrow> live rm"
  by (auto simp: rm_inv_def live_def blk_ok_def)

text \<open>The encoder that a block belongs to, and the blocks of a type that belong to an encoder.\<close>

definition owner :: "sde_rm \<Rightarrow> sde_rm_hw_blk \<Rightarrow> nat option" where
  "owner rm b = (case rsvp b of None \<Rightarrow> None | Some a \<Rightarrow> map_option rv_enc (map_of (rsvps rm) a))"

definition owned :: "sde_rm \<Rightarrow> nat \<Rightarrow> sde_hw_blk_type \<Rightarrow> sde_rm_hw_blk list" where
  "owned rm e t = filter (\<lambda>b. owner rm b = Some e) (hw_blks rm t)"

lemma map_of_tags: "a \<in> tags rm \<longleftrightarrow> (\<exists>r. map_of (rsvps rm) a = Some r)"
  unfolding tags_def dom_map_of_conv_image_fst [symmetric] by auto

lemma reserved_by_other:
  assumes "live rm" "b \<in> set (hw_blks rm t)"
  shows "RESERVED_BY_OTHER rm b e = Some (owner rm b \<noteq> None \<and> owner rm b \<noteq> Some e)"
proof (cases "rsvp b")
  case (Some a)
  then have "a \<in> tags rm" using assms by (auto simp: live_def)
  with Some show ?thesis by (auto simp: RESERVED_BY_OTHER_def owner_def map_of_tags)
qed (simp add: RESERVED_BY_OTHER_def owner_def)

lemma blk_in: "i < length (hw_blks rm t) \<Longrightarrow> blk rm t i \<in> set (hw_blks rm t)"
  by (simp add: blk_def)

text \<open>A position holds a block that is nobody's or the encoder's own.\<close>

definition free :: "sde_rm \<Rightarrow> nat \<Rightarrow> sde_hw_blk_type \<Rightarrow> nat \<Rightarrow> bool" where
  "free rm e t i \<longleftrightarrow> i < length (hw_blks rm t) \<and> (owner rm (blk rm t i) = None \<or> owner rm (blk rm t i) = Some e)"

lemma reserved_free:
  "live rm \<Longrightarrow> i < length (hw_blks rm t) \<Longrightarrow> RESERVED_BY_OTHER rm (blk rm t i) e = Some (\<not> free rm e t i)"
  using reserved_by_other [OF _ blk_in] by (auto simp: free_def)

subsection \<open>Proposals\<close>

text \<open>The manager with the blocks at a set of positions tagged with a proposal.\<close>

definition with_marks :: "nat \<Rightarrow> (sde_hw_blk_type \<times> nat) set \<Rightarrow> sde_rm \<Rightarrow> sde_rm" where
  "with_marks a M rm = rm\<lparr>hw_blks := (\<lambda>t. map (\<lambda>i. if (t, i) \<in> M then (blk rm t i)\<lparr>rsvp_nxt := Some a\<rparr> else blk rm t i)
     [0..<length (hw_blks rm t)])\<rparr>"

lemma with_marks_empty [simp]: "with_marks a {} rm = rm"
  by (simp add: with_marks_def blk_def map_nth)

lemma wm_simps [simp]:
  "rsvps (with_marks a M rm) = rsvps rm" "length (hw_blks (with_marks a M rm) t) = length (hw_blks rm t)"
  "has_roi_misr (with_marks a M rm) = has_roi_misr rm" "qdss_count (with_marks a M rm) = qdss_count rm"
  "topology_tbl (with_marks a M rm) = topology_tbl rm" "has_dest_scaler (with_marks a M rm) = has_dest_scaler rm"
  by (simp_all add: with_marks_def)

lemma wm_blk:
  "i < length (hw_blks rm t) \<Longrightarrow>
     blk (with_marks a M rm) t i = (if (t, i) \<in> M then (blk rm t i)\<lparr>rsvp_nxt := Some a\<rparr> else blk rm t i)"
  by (simp add: with_marks_def blk_def)

lemma wm_blk_fields [simp]:
  assumes "i < length (hw_blks rm t)"
  shows "blk_id (blk (with_marks a M rm) t i) = blk_id (blk rm t i)" "caps (blk (with_marks a M rm) t i) = caps (blk rm t i)"
    "blk_type (blk (with_marks a M rm) t i) = blk_type (blk rm t i)" "rsvp (blk (with_marks a M rm) t i) = rsvp (blk rm t i)"
  using assms by (simp_all add: wm_blk)

lemma visited_wm [simp]: "visited (with_marks a M rm) t = visited rm t"
  unfolding visited_def wm_simps by (auto intro!: takeWhile_cong)

lemma mark_wm:
  assumes "i < length (hw_blks rm t)"
  shows "mark a t i (with_marks a M rm) = with_marks a (insert (t, i) M) rm"
proof -
  have "hw_blks (mark a t i (with_marks a M rm)) u = hw_blks (with_marks a (insert (t, i) M) rm) u" for u
  proof (cases "u = t")
    case True
    with assms show ?thesis
      by (intro nth_equalityI) (auto simp: mark_def with_marks_def blk_def nth_list_update)
  next
    case False
    then show ?thesis by (simp add: mark_def with_marks_def)
  qed
  then have "hw_blks (mark a t i (with_marks a M rm)) = hw_blks (with_marks a (insert (t, i) M) rm)" by (rule HOL.ext)
  then show ?thesis by (simp add: mark_def with_marks_def)
qed

definition opt_pos :: "sde_hw_blk_type \<Rightarrow> nat option \<Rightarrow> (sde_hw_blk_type \<times> nat) set" where
  "opt_pos t i = (case i of None \<Rightarrow> {} | Some i \<Rightarrow> {(t, i)})"

lemma opt_pos_simps [simp]: "opt_pos t None = {}" "opt_pos t (Some i) = {(t, i)}"
  by (simp_all add: opt_pos_def)

lemma mark_opt_wm:
  assumes "\<forall>j. i = Some j \<longrightarrow> j < length (hw_blks rm t)"
  shows "mark_opt a t i (with_marks a M rm) = with_marks a (M \<union> opt_pos t i) rm"
  using assms by (cases i) (simp_all add: mark_opt_def mark_wm)

lemma fold_mark_wm:
  assumes "\<forall>i \<in> set xs. i < length (hw_blks rm t)"
  shows "fold (mark a t) xs (with_marks a M rm) = with_marks a (M \<union> Pair t ` set xs) rm"
  using assms
proof (induction xs arbitrary: M)
  case (Cons x xs)
  then have "fold (mark a t) (x # xs) (with_marks a M rm) = with_marks a (insert (t, x) M \<union> Pair t ` set xs) rm"
    by (simp add: mark_wm)
  then show ?case by simp
qed simp

text \<open>The searches read tags, ids and capabilities, and these are the same with a proposal.\<close>

lemma wm_reserved [simp]:
  "i < length (hw_blks rm t) \<Longrightarrow> RESERVED_BY_OTHER (with_marks a M rm) (blk (with_marks a M rm) t i) e = RESERVED_BY_OTHER rm (blk rm t i) e"
  by (simp add: RESERVED_BY_OTHER_def split: option.split)

lemma wm_owner [simp]: "i < length (hw_blks rm t) \<Longrightarrow> owner (with_marks a M rm) (blk (with_marks a M rm) t i) = owner rm (blk rm t i)"
  by (simp add: owner_def split: option.split)

lemma wm_free [simp]: "free (with_marks a M rm) e t i = free rm e t i"
  by (auto simp: free_def)

lemma find_cong: "(\<And>x. x \<in> set xs \<Longrightarrow> P x = Q x) \<Longrightarrow> List.find P xs = List.find Q xs"
  by (induction xs) auto

lemma find_blk_wm [simp]: "find_blk (with_marks a M rm) t n = find_blk rm t n"
  unfolding find_blk_def by (auto intro!: find_cong dest: visited_less)

end
