(* ===== verification/Sde_Rm_Search.thy ===== *)
theory Sde_Rm_Search
  imports Sde_Rm_Inv
begin

section \<open>Resource manager: what the searches find\<close>

text \<open>
  Every search returns, and what it finds is free for the encoder and wired as the code says. The
  searches give the same result while a proposal is being made.
\<close>

subsection \<open>Searches do not read proposals\<close>

lemma visited_all [simp]: "\<forall>j \<in> set (visited rm t). j < length (hw_blks rm t)"
  by (simp add: visited_less)

lemma pick_wm [simp]: "pick (with_marks a M rm) e t n = pick rm e t n"
  by (auto simp: pick_def dest: find_blk_Some split: option.split)

lemma pick_opt_wm [simp]: "pick_opt (with_marks a M rm) e t n = pick_opt rm e t n"
  by (simp add: pick_opt_def split: option.split)

lemma pick_less: "pick rm e t n = Some (Some j) \<Longrightarrow> j < length (hw_blks rm t)"
  by (auto simp: pick_def dest: find_blk_Some split: option.splits if_splits bind_splits)

lemma check_lm_wm [simp]:
  assumes "i < length (hw_blks rm SDE_HW_BLK_LM)" "\<forall>p. primary = Some p \<longrightarrow> p < length (hw_blks rm SDE_HW_BLK_LM)"
  shows "sde_rm_check_lm_and_get_connected_blks (with_marks a M rm) e reqs i primary =
    sde_rm_check_lm_and_get_connected_blks rm e reqs i primary"
proof -
  have pp: "(case lm_pingpong (caps (blk rm SDE_HW_BLK_LM i)) of None \<Rightarrow> Some None | Some n \<Rightarrow> pick rm e SDE_HW_BLK_PINGPONG n) = Some (Some j)
      \<Longrightarrow> j < length (hw_blks rm SDE_HW_BLK_PINGPONG)" for j
    by (auto split: option.splits dest: pick_less)
  show ?thesis
    unfolding sde_rm_check_lm_and_get_connected_blks_def Let_def
    using assms pp by (auto intro!: Option.bind_cong split: option.split sum.split)
qed

lemma lm_peer_loop_wm [simp]:
  assumes "p < length (hw_blks rm SDE_HW_BLK_LM)" "\<forall>j \<in> set js. j < length (hw_blks rm SDE_HW_BLK_LM)"
  shows "lm_peer_loop (with_marks a M rm) e reqs ids p js m sel = lm_peer_loop rm e reqs ids p js m sel"
  using assms(2)
proof (induction js)
  case (Cons j js)
  then show ?case using assms(1) by (auto intro!: Option.bind_cong split: option.split)
qed simp

lemma lm_pass_wm [simp]:
  assumes "\<forall>j \<in> set js. j < length (hw_blks rm SDE_HW_BLK_LM)"
  shows "lm_pass (with_marks a M rm) e reqs ids js m sel = lm_pass rm e reqs ids js m sel"
  using assms
proof (induction js arbitrary: m sel)
  case (Cons j js)
  then show ?case by (auto intro!: Option.bind_cong simp: Let_def dest: visited_less split: option.split)
qed simp

lemma lm_rounds_wm [simp]: "lm_rounds (with_marks a M rm) e reqs ids m sel = lm_rounds rm e reqs ids m sel"
proof (induction rm e reqs ids m sel rule: lm_rounds.induct)
  case (1 rm e reqs ids m sel)
  have "lm_pass (with_marks a M rm) e reqs ids (visited rm SDE_HW_BLK_LM) m sel = lm_pass rm e reqs ids (visited rm SDE_HW_BLK_LM) m sel"
    by (auto intro!: lm_pass_wm dest: visited_less)
  then show ?case
    by (subst (1 2) lm_rounds.simps) (auto simp: 1 split: option.split prod.split)
qed

lemma free_loop_wm [simp]:
  assumes "\<forall>j \<in> set js. j < length (hw_blks rm t)"
  shows "free_loop (with_marks a M rm) e t P js = free_loop rm e t P js"
  using assms by (induction js) (auto intro!: Option.bind_cong)

lemma ctl_loop_wm [simp]:
  assumes "\<forall>j \<in> set js. j < length (hw_blks rm SDE_HW_BLK_CTL)"
  shows "ctl_loop (with_marks a M rm) e reqs tp ids js ctls = ctl_loop rm e reqs tp ids js ctls"
  using assms by (induction js arbitrary: ctls) (auto intro!: Option.bind_cong)

lemma check_dsc_wm [simp]:
  assumes "i < length (hw_blks rm SDE_HW_BLK_DSC)" "\<forall>p. mate = Some p \<longrightarrow> p < length (hw_blks rm SDE_HW_BLK_DSC)"
  shows "sde_rm_check_dsc (with_marks a M rm) e i mate = sde_rm_check_dsc rm e i mate"
  using assms by (auto simp: sde_rm_check_dsc_def intro!: Option.bind_cong split: option.split)

lemma dsc_peer_loop_wm [simp]:
  assumes "p < length (hw_blks rm SDE_HW_BLK_DSC)" "\<forall>j \<in> set js. j < length (hw_blks rm SDE_HW_BLK_DSC)"
  shows "dsc_peer_loop (with_marks a M rm) e ids p js m sel = dsc_peer_loop rm e ids p js m sel"
  using assms(2) by (induction js) (use assms(1) in \<open>auto intro!: Option.bind_cong\<close>)

lemma dsc_loop_wm [simp]:
  assumes "\<forall>j \<in> set js. j < length (hw_blks rm SDE_HW_BLK_DSC)"
  shows "dsc_loop (with_marks a M rm) e ids n js m sel = dsc_loop rm e ids n js m sel"
  using assms
proof (induction js arbitrary: m sel)
  case (Cons j js)
  then show ?case by (auto intro!: Option.bind_cong simp: Let_def dest: visited_less split: option.split)
qed simp

subsection \<open>Mixers\<close>

text \<open>The block that a mixer names, if it names one, with its position.\<close>

definition picked :: "sde_rm \<Rightarrow> nat \<Rightarrow> sde_hw_blk_type \<Rightarrow> nat option \<Rightarrow> nat option \<Rightarrow> bool" where
  "picked rm e t n j \<longleftrightarrow> (case n of None \<Rightarrow> j = None | Some n \<Rightarrow> \<exists>k. j = Some k \<and> free rm e t k \<and> blk_id (blk rm t k) = n)"

definition wired :: "sde_rm \<Rightarrow> nat \<Rightarrow> sde_rm_topology_def \<Rightarrow> nat \<Rightarrow> lm_conn \<Rightarrow> bool" where
  "wired rm e tp i c \<longleftrightarrow> (let k = caps (blk rm SDE_HW_BLK_LM i) in
     free rm e SDE_HW_BLK_LM i \<and> picked rm e SDE_HW_BLK_DSPP (lm_dspp k) (c_dspp c) \<and> picked rm e SDE_HW_BLK_DS (lm_ds k) (c_ds c) \<and>
     lm_pingpong k \<noteq> None \<and> picked rm e SDE_HW_BLK_PINGPONG (lm_pingpong k) (Some (c_pp c)) \<and>
     (c_roi_misr c = None \<and> sde_rm_is_3dmux_case (top_name tp) \<or> picked rm e SDE_HW_BLK_ROI_MISR (lm_roi_misr k) (c_roi_misr c)) \<and>
     (if num_comp_enc tp \<noteq> 0 \<and> has_roi_misr rm then lm_roi_misr k \<noteq> None \<and> picked rm e SDE_HW_BLK_DSC (lm_roi_misr k) (c_dsc c)
      else c_dsc c = None))"

lemma pick_result:
  assumes "live rm"
  shows "\<exists>r. pick rm e t n = Some r \<and> (\<forall>j. r = Some j \<longrightarrow> free rm e t j \<and> blk_id (blk rm t j) = n)"
  using reserved_free [OF assms] by (auto simp: pick_def dest: find_blk_Some split: option.split)

lemma pick_opt_result:
  assumes "live rm"
  shows "\<exists>r. pick_opt rm e t n = Some r \<and> (\<forall>j. r = Inr j \<longrightarrow> picked rm e t n j)"
proof (cases n)
  case (Some m)
  obtain r where "pick rm e t m = Some r" "\<forall>j. r = Some j \<longrightarrow> free rm e t j \<and> blk_id (blk rm t j) = m"
    using pick_result [OF assms] by blast
  with Some show ?thesis by (cases r) (auto simp: pick_opt_def picked_def)
qed (simp add: pick_opt_def picked_def)

lemma check_lm_result:
  assumes l: "live rm" and i: "i < length (hw_blks rm SDE_HW_BLK_LM)"
  shows "\<exists>r. sde_rm_check_lm_and_get_connected_blks rm e reqs i p = Some r \<and> (\<forall>c. r = Some c \<longrightarrow> wired rm e (rq_topology reqs) i c)"
proof -
  define k where "k = caps (blk rm SDE_HW_BLK_LM i)"
  obtain r1 where r1: "pick_opt rm e SDE_HW_BLK_DSPP (lm_dspp k) = Some r1" "\<forall>j. r1 = Inr j \<longrightarrow> picked rm e SDE_HW_BLK_DSPP (lm_dspp k) j"
    using pick_opt_result [OF l] by blast
  obtain r2 where r2: "pick_opt rm e SDE_HW_BLK_DS (lm_ds k) = Some r2" "\<forall>j. r2 = Inr j \<longrightarrow> picked rm e SDE_HW_BLK_DS (lm_ds k) j"
    using pick_opt_result [OF l] by blast
  obtain r3 where r3: "(case lm_pingpong k of None \<Rightarrow> Some None | Some n \<Rightarrow> pick rm e SDE_HW_BLK_PINGPONG n) = Some r3"
    "\<forall>j. r3 = Some j \<longrightarrow> lm_pingpong k \<noteq> None \<and> picked rm e SDE_HW_BLK_PINGPONG (lm_pingpong k) (Some j)"
    using pick_result [OF l, of e SDE_HW_BLK_PINGPONG] by (cases "lm_pingpong k") (auto simp: picked_def)
  obtain r4 where r4: "pick_opt rm e SDE_HW_BLK_ROI_MISR (lm_roi_misr k) = Some r4"
    "\<forall>j. r4 = Inr j \<longrightarrow> picked rm e SDE_HW_BLK_ROI_MISR (lm_roi_misr k) j"
    using pick_opt_result [OF l] by blast
  obtain r5 where r5: "(case lm_roi_misr k of None \<Rightarrow> Some (Inl ()) | Some n \<Rightarrow> pick_opt rm e SDE_HW_BLK_DSC (Some n)) = Some r5"
    "\<forall>j. r5 = Inr j \<longrightarrow> lm_roi_misr k \<noteq> None \<and> picked rm e SDE_HW_BLK_DSC (lm_roi_misr k) j"
    using pick_opt_result [OF l, of e SDE_HW_BLK_DSC "lm_roi_misr k"] by (cases "lm_roi_misr k") auto
  note w = wired_def Let_def k_def [symmetric]
  show ?thesis
    using r1 r2 r3 r4 r5 reserved_free [OF l i, of e]
    by (cases r1; cases r2; cases r3; cases r4; cases r5)
       (simp_all add: sde_rm_check_lm_and_get_connected_blks_def w, blast)
qed

text \<open>The array of ids, if there is one, has at least \<open>n\<close> elements.\<close>

definition ids_ok :: "nat list option \<Rightarrow> nat \<Rightarrow> bool" where
  "ids_ok ids n \<longleftrightarrow> (\<forall>l. ids = Some l \<longrightarrow> n \<le> length l)"

lemma id_matches_result: "ids_ok ids n \<Longrightarrow> k < n \<Longrightarrow> \<exists>r. id_matches ids k x = Some r"
  by (cases ids) (auto simp: ids_ok_def id_matches_def)

text \<open>The ids of a list of positions, and the mask that has exactly these bits.\<close>

definition ids_of :: "sde_rm \<Rightarrow> sde_hw_blk_type \<Rightarrow> nat list \<Rightarrow> nat list" where
  "ids_of rm t js = map (\<lambda>j. blk_id (blk rm t j)) js"

definition mask_ok :: "sde_rm \<Rightarrow> sde_hw_blk_type \<Rightarrow> u32 \<Rightarrow> nat list \<Rightarrow> bool" where
  "mask_ok rm t m js \<longleftrightarrow> distinct (ids_of rm t js) \<and> (\<forall>n. bit m n \<longleftrightarrow> n \<in> set (ids_of rm t js))"

lemma mask_ok_Nil [simp]: "mask_ok rm t 0 []"
  by (simp add: mask_ok_def ids_of_def)

lemma mask_ok_distinct: "mask_ok rm t m js \<Longrightarrow> distinct js"
  by (auto simp: mask_ok_def ids_of_def distinct_map)

lemma mask_ok_snoc:
  assumes "mask_ok rm t m js" "\<not> bit m (blk_id (blk rm t j))" "blk_id (blk rm t j) < 32"
  shows "mask_ok rm t (set_bit (blk_id (blk rm t j)) m) (js @ [j])"
  using assms by (auto simp: mask_ok_def ids_of_def bit_set_bit_iff)

lemma unset_set_bit: "\<not> bit m n \<Longrightarrow> unset_bit n (set_bit n m) = (m :: u32)"
  by (rule bit_eqI) (auto simp: bit_unset_bit_iff bit_set_bit_iff)

lemma small_id:
  assumes "live rm" "i < length (hw_blks rm t)" "t = SDE_HW_BLK_LM \<or> t = SDE_HW_BLK_DSC"
  shows "blk_id (blk rm t i) < 32"
  using assms blk_in [of i rm t] by (auto simp: live_def)

definition sel_ok :: "sde_rm \<Rightarrow> nat \<Rightarrow> sde_rm_topology_def \<Rightarrow> u32 \<Rightarrow> lm_sel \<Rightarrow> bool" where
  "sel_ok rm e tp m sel \<longleftrightarrow> (\<forall>(i, c) \<in> set sel. wired rm e tp i c) \<and> mask_ok rm SDE_HW_BLK_LM m (map fst sel)"

lemma sel_ok_snoc:
  assumes "live rm" "sel_ok rm e tp m sel" "wired rm e tp i c" "\<not> bit m (blk_id (blk rm SDE_HW_BLK_LM i))"
  shows "sel_ok rm e tp (set_bit (blk_id (blk rm SDE_HW_BLK_LM i)) m) (sel @ [(i, c)])"
proof -
  have "i < length (hw_blks rm SDE_HW_BLK_LM)" using assms(3) by (simp add: wired_def free_def Let_def)
  then have "blk_id (blk rm SDE_HW_BLK_LM i) < 32" using small_id [OF assms(1)] by simp
  then show ?thesis using assms mask_ok_snoc [of rm SDE_HW_BLK_LM m "map fst sel" i] by (auto simp: sel_ok_def)
qed

lemma lm_peer_loop_result:
  assumes l: "live rm" and s: "sel_ok rm e (rq_topology reqs) m sel" and ids: "ids_ok ids n" "length sel < n"
    and js: "\<forall>j \<in> set js. j < length (hw_blks rm SDE_HW_BLK_LM)"
  shows "\<exists>r. lm_peer_loop rm e reqs ids p js m sel = Some r \<and>
    (\<forall>m' s'. r = Some (m', s') \<longrightarrow> sel_ok rm e (rq_topology reqs) m' s' \<and> length s' = length sel + 1)"
  using js
proof (induction js)
  case (Cons j js)
  show ?case
  proof (cases "bit m (blk_id (blk rm SDE_HW_BLK_LM j))")
    case False
    obtain r where r: "sde_rm_check_lm_and_get_connected_blks rm e reqs j (Some p) = Some r"
      "\<forall>c. r = Some c \<longrightarrow> wired rm e (rq_topology reqs) j c"
      using check_lm_result [OF l, of j e reqs "Some p"] Cons.prems by auto
    obtain b where b: "id_matches ids (length sel) (blk_id (blk rm SDE_HW_BLK_LM j)) = Some b"
      using id_matches_result [OF ids] by blast
    show ?thesis
      using Cons False r b sel_ok_snoc [OF l s _ False] by (cases r; cases b) auto
  qed (use Cons in auto)
qed simp

lemma lm_pass_result:
  assumes l: "live rm" and ids: "ids_ok ids (num_lm (rq_topology reqs))"
    and js: "\<forall>j \<in> set js. j < length (hw_blks rm SDE_HW_BLK_LM)"
    and s: "sel_ok rm e (rq_topology reqs) m sel" "length sel \<le> num_lm (rq_topology reqs)"
  shows "\<exists>m' s'. lm_pass rm e reqs ids js m sel = Some (m', s') \<and> sel_ok rm e (rq_topology reqs) m' s' \<and>
    length s' \<le> num_lm (rq_topology reqs)"
  using js s
proof (induction js arbitrary: m sel)
  case (Cons j js)
  define n where "n = num_lm (rq_topology reqs)"
  define x where "x = blk_id (blk rm SDE_HW_BLK_LM j)"
  note IH = Cons.IH [folded n_def]
  have js: "\<forall>j \<in> set js. j < length (hw_blks rm SDE_HW_BLK_LM)" using Cons.prems(1) by simp
  have same: ?case if "lm_pass rm e reqs ids (j # js) m sel = lm_pass rm e reqs ids js m sel"
    using Cons.IH [OF js Cons.prems(2,3)] that by simp
  show ?case
  proof (cases "length sel = n \<or> bit m x")
    case True
    then show ?thesis using Cons.prems same by (cases "length sel = n") (auto simp: n_def x_def)
  next
    case False
    then have lt: "length sel < n" using Cons.prems(3) by (simp add: n_def)
    obtain b where b: "id_matches ids (length sel) x = Some b" using id_matches_result [OF ids] lt by (auto simp: n_def)
    obtain r where r: "sde_rm_check_lm_and_get_connected_blks rm e reqs j None = Some r"
      "\<forall>c. r = Some c \<longrightarrow> wired rm e (rq_topology reqs) j c"
      using check_lm_result [OF l, of j e reqs None] Cons.prems(1) by auto
    show ?thesis
    proof (cases "b \<and> r \<noteq> None")
      case off: False
      then show ?thesis using False b r by (intro same) (auto simp: n_def x_def)
    next
      case True
      then obtain c where c: "r = Some c" by auto
      have s1: "sel_ok rm e (rq_topology reqs) (set_bit x m) (sel @ [(j, c)])"
        using sel_ok_snoc [OF l Cons.prems(2)] r(2) c False by (simp add: x_def)
      show ?thesis
      proof (cases "Suc (length sel) = n")
        case full: True
        then show ?thesis using False True b c r s1 by (simp add: n_def [symmetric] x_def [symmetric])
      next
        case more: False
        have lt1: "length (sel @ [(j, c)]) < num_lm (rq_topology reqs)" using lt more by (simp add: n_def)
        obtain q where q: "lm_peer_loop rm e reqs ids j (visited rm SDE_HW_BLK_LM) (set_bit x m) (sel @ [(j, c)]) = Some q"
          "\<forall>m' s'. q = Some (m', s') \<longrightarrow> sel_ok rm e (rq_topology reqs) m' s' \<and> length s' = length (sel @ [(j, c)]) + 1"
          using lm_peer_loop_result [OF l s1 ids lt1 visited_all, of j] by (elim exE conjE) (rule that)
        have step: "lm_pass rm e reqs ids (j # js) m sel = (case q of
            None \<Rightarrow> lm_pass rm e reqs ids js m sel | Some (m2, s2) \<Rightarrow> lm_pass rm e reqs ids js m2 s2)"
          using False True b c r(1) q(1) more unset_set_bit [of m x]
          by (simp add: n_def [symmetric] x_def [symmetric] Let_def split: option.split)
        show ?thesis
        proof (cases q)
          case None
          then show ?thesis using step same by simp
        next
          case (Some y)
          obtain m2 s2 where y: "y = (m2, s2)" by (cases y)
          then show ?thesis using step Some q(2) Cons.IH [OF js, of m2 s2] lt more by (simp add: n_def)
        qed
      qed
    qed
  qed
qed simp

lemma lm_rounds_result:
  assumes "live rm" "ids_ok ids (num_lm (rq_topology reqs))" "sel_ok rm e (rq_topology reqs) m sel"
    "length sel \<le> num_lm (rq_topology reqs)"
  shows "\<exists>m' s'. lm_rounds rm e reqs ids m sel = Some s' \<and> sel_ok rm e (rq_topology reqs) m' s'"
  using assms
proof (induction rm e reqs ids m sel rule: lm_rounds.induct)
  case (1 rm e reqs ids m sel)
  obtain m' s' where p: "lm_pass rm e reqs ids (visited rm SDE_HW_BLK_LM) m sel = Some (m', s')"
    "sel_ok rm e (rq_topology reqs) m' s'" "length s' \<le> num_lm (rq_topology reqs)"
    using lm_pass_result [OF 1(3,4) visited_all 1(5,6)] by blast
  show ?case
    using p 1(3,4) 1(1) [OF p(1) refl] 1(2) [OF p(1) refl] by (subst lm_rounds.simps) auto
qed

end
