(* ===== verification/Sde_Rm_Propose.thy ===== *)
theory Sde_Rm_Propose
  imports Sde_Rm_Search
begin

section \<open>Resource manager: proposals made by a reservation\<close>

text \<open>
  Every part of a reservation returns, and it does nothing but tag blocks that are free for the encoder;
  where it reports success, the blocks that it was asked for are tagged.
\<close>

subsection \<open>The other searches\<close>

lemma free_loop_result:
  assumes "live rm" "\<forall>j \<in> set js. j < length (hw_blks rm t)"
  shows "\<exists>r. free_loop rm e t P js = Some r \<and> (\<forall>i. r = Some i \<longrightarrow> free rm e t i)"
  using assms(2) by (induction js) (auto simp: reserved_free [OF assms(1)])

lemma ctl_loop_result:
  assumes l: "live rm" and ids: "ids_ok ids (num_ctl tp)"
    and js: "\<forall>j \<in> set js. j < length (hw_blks rm SDE_HW_BLK_CTL)"
    and c: "\<forall>i \<in> set ctls. free rm e SDE_HW_BLK_CTL i" "length ctls < num_ctl tp"
  shows "\<exists>r. ctl_loop rm e reqs tp ids js ctls = Some r \<and> (\<forall>i \<in> set r. free rm e SDE_HW_BLK_CTL i)"
  using js c
proof (induction js arbitrary: ctls)
  case (Cons j js)
  obtain b where b: "id_matches ids (length ctls) (blk_id (blk rm SDE_HW_BLK_CTL j)) = Some b"
    using id_matches_result [OF ids Cons.prems(3)] by blast
  show ?case
    using Cons.prems Cons.IH [of ctls] Cons.IH [of "ctls @ [j]"] b
    by (cases b; cases "Suc (length ctls) = num_ctl tp") (auto simp: reserved_free [OF l])
qed simp

definition dsc_ok :: "sde_rm \<Rightarrow> nat \<Rightarrow> u32 \<Rightarrow> nat list \<Rightarrow> bool" where
  "dsc_ok rm e m sel \<longleftrightarrow> (\<forall>i \<in> set sel. free rm e SDE_HW_BLK_DSC i) \<and> mask_ok rm SDE_HW_BLK_DSC m sel"

lemma dsc_ok_snoc:
  assumes "live rm" "dsc_ok rm e m sel" "free rm e SDE_HW_BLK_DSC i" "\<not> bit m (blk_id (blk rm SDE_HW_BLK_DSC i))"
  shows "dsc_ok rm e (set_bit (blk_id (blk rm SDE_HW_BLK_DSC i)) m) (sel @ [i])"
proof -
  have "blk_id (blk rm SDE_HW_BLK_DSC i) < 32" using small_id [OF assms(1)] assms(3) by (simp add: free_def)
  then show ?thesis using assms mask_ok_snoc [of rm SDE_HW_BLK_DSC m sel i] by (simp add: dsc_ok_def)
qed

lemma check_dsc_result:
  assumes "live rm" "i < length (hw_blks rm SDE_HW_BLK_DSC)"
  shows "\<exists>r. sde_rm_check_dsc rm e i p = Some r \<and> (r \<longrightarrow> free rm e SDE_HW_BLK_DSC i)"
  using reserved_free [OF assms, of e] by (simp add: sde_rm_check_dsc_def)

lemma dsc_peer_loop_result:
  assumes l: "live rm" and s: "dsc_ok rm e m sel" and ids: "ids_ok ids n" "length sel < n"
    and js: "\<forall>j \<in> set js. j < length (hw_blks rm SDE_HW_BLK_DSC)"
  shows "\<exists>r. dsc_peer_loop rm e ids p js m sel = Some r \<and>
    (\<forall>m' s'. r = Some (m', s') \<longrightarrow> dsc_ok rm e m' s' \<and> length s' = length sel + 1)"
  using js
proof (induction js)
  case (Cons j js)
  show ?case
  proof (cases "bit m (blk_id (blk rm SDE_HW_BLK_DSC j))")
    case False
    obtain r where r: "sde_rm_check_dsc rm e j (Some p) = Some r" "r \<longrightarrow> free rm e SDE_HW_BLK_DSC j"
      using check_dsc_result [OF l, of j e "Some p"] Cons.prems by auto
    obtain b where b: "id_matches ids (length sel) (blk_id (blk rm SDE_HW_BLK_DSC j)) = Some b"
      using id_matches_result [OF ids] by blast
    show ?thesis
      using Cons False r b dsc_ok_snoc [OF l s _ False] by (cases r; cases b) auto
  qed (use Cons in auto)
qed simp

lemma dsc_loop_result:
  assumes l: "live rm" and ids: "ids_ok ids n"
    and js: "\<forall>j \<in> set js. j < length (hw_blks rm SDE_HW_BLK_DSC)"
    and s: "dsc_ok rm e m sel" "length sel \<le> n"
  shows "\<exists>m' s'. dsc_loop rm e ids n js m sel = Some s' \<and> dsc_ok rm e m' s'"
  using js s
proof (induction js arbitrary: m sel)
  case (Cons j js)
  define x where "x = blk_id (blk rm SDE_HW_BLK_DSC j)"
  have js: "\<forall>j \<in> set js. j < length (hw_blks rm SDE_HW_BLK_DSC)" using Cons.prems(1) by simp
  have same: ?case if "dsc_loop rm e ids n (j # js) m sel = dsc_loop rm e ids n js m sel"
    using Cons.IH [OF js Cons.prems(2,3)] that by simp
  show ?case
  proof (cases "length sel = n \<or> bit m x")
    case True
    then show ?thesis using Cons.prems same by (cases "length sel = n") (auto simp: x_def)
  next
    case False
    then have lt: "length sel < n" using Cons.prems(3) by simp
    obtain b where b: "id_matches ids (length sel) x = Some b" using id_matches_result [OF ids lt] by blast
    obtain r where r: "sde_rm_check_dsc rm e j None = Some r" "r \<longrightarrow> free rm e SDE_HW_BLK_DSC j"
      using check_dsc_result [OF l, of j e None] Cons.prems(1) by auto
    show ?thesis
    proof (cases "b \<and> r")
      case off: False
      then show ?thesis using False b r by (intro same) (auto simp: x_def)
    next
      case True
      have s1: "dsc_ok rm e (set_bit x m) (sel @ [j])"
        using dsc_ok_snoc [OF l Cons.prems(2)] r(2) True False by (simp add: x_def)
      show ?thesis
      proof (cases "Suc (length sel) = n")
        case full: True
        then show ?thesis using False True b r s1 by (auto simp: x_def [symmetric])
      next
        case more: False
        have lt1: "length (sel @ [j]) < n" using lt more by simp
        obtain q where q: "dsc_peer_loop rm e ids j (visited rm SDE_HW_BLK_DSC) (set_bit x m) (sel @ [j]) = Some q"
          "\<forall>m' s'. q = Some (m', s') \<longrightarrow> dsc_ok rm e m' s' \<and> length s' = length (sel @ [j]) + 1"
          using dsc_peer_loop_result [OF l s1 ids lt1 visited_all, of j] by (elim exE conjE) (rule that)
        have step: "dsc_loop rm e ids n (j # js) m sel = (case q of
            None \<Rightarrow> dsc_loop rm e ids n js m sel | Some (m2, s2) \<Rightarrow> dsc_loop rm e ids n js m2 s2)"
          using False True b r(1) q(1) more unset_set_bit [of m x]
          by (simp add: x_def [symmetric] Let_def split: option.split)
        show ?thesis
        proof (cases q)
          case None
          then show ?thesis using step same by simp
        next
          case (Some y)
          obtain m2 s2 where y: "y = (m2, s2)" by (cases y)
          then show ?thesis using step Some q(2) Cons.IH [OF js, of m2 s2] lt more by simp
        qed
      qed
    qed
  qed
qed auto

subsection \<open>Proposals\<close>

definition grows :: "sde_rm \<Rightarrow> nat \<Rightarrow> sde_hw_blk_type set \<Rightarrow> (sde_hw_blk_type \<times> nat) set \<Rightarrow> (sde_hw_blk_type \<times> nat) set \<Rightarrow> bool" where
  "grows rm e T M N \<longleftrightarrow> M \<subseteq> N \<and> (\<forall>t i. (t, i) \<in> N \<longrightarrow> (t, i) \<notin> M \<longrightarrow> t \<in> T \<and> free rm e t i)"

lemma grows_refl [simp]: "grows rm e T M M"
  by (simp add: grows_def)

lemma grows_trans: "grows rm e T M N \<Longrightarrow> grows rm e T' N K \<Longrightarrow> grows rm e (T \<union> T') M K"
  unfolding grows_def by blast

lemma grows_insert: "free rm e t i \<Longrightarrow> t \<in> T \<Longrightarrow> grows rm e T M (insert (t, i) M)"
  by (auto simp: grows_def)

lemma grows_type: "grows rm e T M N \<Longrightarrow> t \<notin> T \<Longrightarrow> (t, i) \<in> N \<longleftrightarrow> (t, i) \<in> M"
  unfolding grows_def by blast

lemma grows_mem: "grows rm e T M N \<Longrightarrow> x \<in> M \<Longrightarrow> x \<in> N"
  by (auto simp: grows_def)

definition lm_marks :: "nat \<times> lm_conn \<Rightarrow> (sde_hw_blk_type \<times> nat) set" where
  "lm_marks s = (case s of (i, c) \<Rightarrow> {(SDE_HW_BLK_LM, i), (SDE_HW_BLK_PINGPONG, c_pp c)} \<union> opt_pos SDE_HW_BLK_DSPP (c_dspp c) \<union>
     opt_pos SDE_HW_BLK_DS (c_ds c) \<union> opt_pos SDE_HW_BLK_ROI_MISR (c_roi_misr c) \<union> opt_pos SDE_HW_BLK_DSC (c_dsc c))"

abbreviation lm_types :: "sde_hw_blk_type set" where
  "lm_types \<equiv> {SDE_HW_BLK_LM, SDE_HW_BLK_PINGPONG, SDE_HW_BLK_DSPP, SDE_HW_BLK_DS, SDE_HW_BLK_ROI_MISR, SDE_HW_BLK_DSC}"

lemma picked_pos: "picked rm e t n j \<Longrightarrow> (u, i) \<in> opt_pos t j \<Longrightarrow> u = t \<and> free rm e u i"
  by (cases j) (auto simp: picked_def split: option.splits)

lemma lm_marks_free:
  assumes "wired rm e tp i c" "(t, j) \<in> lm_marks (i, c)"
  shows "t \<in> lm_types \<and> free rm e t j"
proof -
  have "picked rm e SDE_HW_BLK_DSC n (c_dsc c)" if "n = (if c_dsc c = None then None else lm_roi_misr (caps (blk rm SDE_HW_BLK_LM i)))" for n
    using assms(1) that by (auto simp: wired_def Let_def picked_def split: if_splits)
  moreover have "picked rm e SDE_HW_BLK_ROI_MISR n (c_roi_misr c)"
    if "n = (if c_roi_misr c = None then None else lm_roi_misr (caps (blk rm SDE_HW_BLK_LM i)))" for n
    using assms(1) that by (auto simp: wired_def Let_def picked_def)
  ultimately show ?thesis
    using assms by (auto simp: lm_marks_def wired_def Let_def dest: picked_pos)
qed

lemma mark_lm_wm:
  assumes "wired rm e tp i c"
  shows "mark_lm a (i, c) (with_marks a M rm) = with_marks a (M \<union> lm_marks (i, c)) rm"
proof -
  have len: "j < length (hw_blks rm t)" if "(t, j) \<in> lm_marks (i, c)" for t j
    using lm_marks_free [OF assms that] by (simp add: free_def)
  have d: "\<forall>j. c_dspp c = Some j \<longrightarrow> j < length (hw_blks rm SDE_HW_BLK_DSPP)" "\<forall>j. c_ds c = Some j \<longrightarrow> j < length (hw_blks rm SDE_HW_BLK_DS)"
    "\<forall>j. c_roi_misr c = Some j \<longrightarrow> j < length (hw_blks rm SDE_HW_BLK_ROI_MISR)" "\<forall>j. c_dsc c = Some j \<longrightarrow> j < length (hw_blks rm SDE_HW_BLK_DSC)"
    using len by (auto simp: lm_marks_def)
  have "i < length (hw_blks rm SDE_HW_BLK_LM)" "c_pp c < length (hw_blks rm SDE_HW_BLK_PINGPONG)"
    using len by (auto simp: lm_marks_def)
  then show ?thesis
    by (simp add: mark_lm_def mark_wm mark_opt_wm d lm_marks_def Un_ac insert_commute)
qed

lemma fold_mark_lm_wm:
  assumes "\<forall>(i, c) \<in> set sel. wired rm e tp i c"
  shows "fold (mark_lm a) sel (with_marks a M rm) = with_marks a (M \<union> \<Union> (lm_marks ` set sel)) rm"
  using assms
proof (induction sel arbitrary: M)
  case (Cons s sel)
  obtain i c where s: "s = (i, c)" by (cases s)
  with Cons show ?case by (simp add: mark_lm_wm [of rm e tp] Un_assoc)
qed simp

lemma reserve_lms_result:
  assumes l: "live rm" and ids: "ids_ok ids (num_lm (rq_topology reqs))"
  shows "\<exists>ret N. sde_rm_reserve_lms (with_marks a M rm) a e reqs ids = Some (ret, with_marks a N rm) \<and> grows rm e lm_types M N \<and>
    (ret = 0 \<longrightarrow> (\<exists>m sel. sel_ok rm e (rq_topology reqs) m sel \<and> length sel = num_lm (rq_topology reqs) \<and>
       M \<union> \<Union> (lm_marks ` set sel) \<subseteq> N \<and> (\<forall>t i. t \<noteq> SDE_HW_BLK_PINGPONG \<longrightarrow> (t, i) \<in> N \<longrightarrow> (t, i) \<in> M \<union> \<Union> (lm_marks ` set sel))))"
proof (cases "num_lm (rq_topology reqs) = 0")
  case True
  then show ?thesis
    by (intro exI [of _ "0::int"] exI [of _ M] conjI impI exI [of _ "0::u32"] exI [of _ "[]"])
       (simp_all add: sde_rm_reserve_lms_def sel_ok_def)
next
  case False
  have "sel_ok rm e (rq_topology reqs) 0 []" by (simp add: sel_ok_def)
  then obtain m sel where sel: "lm_rounds rm e reqs ids 0 [] = Some sel" "sel_ok rm e (rq_topology reqs) m sel"
    using lm_rounds_result [OF l ids, of e 0 "[]"] by auto
  show ?thesis
  proof (cases "length sel = num_lm (rq_topology reqs)")
    case short: False
    then show ?thesis using False sel(1)
      by (intro exI [of _ "- ENAVAIL"] exI [of _ M]) (simp add: sde_rm_reserve_lms_def)
  next
    case True
    define K where "K = M \<union> \<Union> (lm_marks ` set sel)"
    have w: "\<forall>(i, c) \<in> set sel. wired rm e (rq_topology reqs) i c" using sel(2) by (simp add: sel_ok_def)
    have fold: "fold (mark_lm a) sel (with_marks a M rm) = with_marks a K rm"
      using fold_mark_lm_wm [OF w] by (simp add: K_def)
    have g: "grows rm e lm_types M K"
      using w lm_marks_free [of rm e "rq_topology reqs"] by (fastforce simp: grows_def K_def)
    define slaves where "slaves = filter (\<lambda>i. pp_slave (caps (blk rm SDE_HW_BLK_PINGPONG i))) (visited rm SDE_HW_BLK_PINGPONG)"
    have sl: "filter (\<lambda>i. pp_slave (caps (blk (with_marks a K rm) SDE_HW_BLK_PINGPONG i))) (visited rm SDE_HW_BLK_PINGPONG) = slaves"
      unfolding slaves_def by (intro filter_cong) (auto dest: visited_less)
    have sl_len: "\<forall>j \<in> set slaves. j < length (hw_blks rm SDE_HW_BLK_PINGPONG)" by (auto simp: slaves_def dest: visited_less)
    obtain r where r: "free_loop rm e SDE_HW_BLK_PINGPONG (\<lambda>c. True) slaves = Some r" "\<forall>i. r = Some i \<longrightarrow> free rm e SDE_HW_BLK_PINGPONG i"
      using free_loop_result [OF l sl_len] by blast
    have run: "sde_rm_reserve_lms (with_marks a M rm) a e reqs ids =
        (if top_name (rq_topology reqs) = SDE_RM_TOPOLOGY_PPSPLIT
         then Some (if r = None then - ENAVAIL else 0, mark_opt a SDE_HW_BLK_PINGPONG r (with_marks a K rm)) else Some (0, with_marks a K rm))"
      using False True sel(1) r(1) sl_len
      by (simp add: sde_rm_reserve_lms_def fold sl Let_def)
    have mo: "mark_opt a SDE_HW_BLK_PINGPONG r (with_marks a K rm) = with_marks a (K \<union> opt_pos SDE_HW_BLK_PINGPONG r) rm"
      using r(2) by (intro mark_opt_wm) (auto simp: free_def)
    have g2: "grows rm e lm_types M (K \<union> opt_pos SDE_HW_BLK_PINGPONG r)"
      using g r(2) by (cases r) (auto simp: grows_def)
    show ?thesis
      using run mo g g2 sel(2) True
      by (cases "top_name (rq_topology reqs) = SDE_RM_TOPOLOGY_PPSPLIT"; cases r) (auto simp: K_def)
  qed
qed

lemma reserve_ctls_result:
  assumes l: "live rm" and ids: "ids_ok ids (num_ctl tp)"
  shows "\<exists>ret N. sde_rm_reserve_ctls (with_marks a M rm) a e reqs tp ids = Some (ret, with_marks a N rm) \<and> grows rm e {SDE_HW_BLK_CTL} M N"
proof (cases "num_ctl tp = 0")
  case True
  then show ?thesis by (auto simp: sde_rm_reserve_ctls_def intro: exI [of _ M])
next
  case False
  obtain r where r: "ctl_loop rm e reqs tp ids (visited rm SDE_HW_BLK_CTL) [] = Some r" "\<forall>i \<in> set r. free rm e SDE_HW_BLK_CTL i"
    using ctl_loop_result [OF l ids visited_all, of "[]" e reqs] False by auto
  have "fold (mark a SDE_HW_BLK_CTL) r (with_marks a M rm) = with_marks a (M \<union> Pair SDE_HW_BLK_CTL ` set r) rm"
    using r(2) by (intro fold_mark_wm) (simp add: free_def)
  moreover have "grows rm e {SDE_HW_BLK_CTL} M (M \<union> Pair SDE_HW_BLK_CTL ` set r)" using r(2) by (auto simp: grows_def)
  ultimately show ?thesis
    using False r(1) by (cases "length r = num_ctl tp") (auto simp: sde_rm_reserve_ctls_def intro: exI [of _ M])
qed

lemma reserve_dsc_result:
  assumes l: "live rm" and ids: "ids_ok ids (num_comp_enc tp)"
  shows "\<exists>ret N. sde_rm_reserve_dsc (with_marks a M rm) a e tp ids = Some (ret, with_marks a N rm) \<and> grows rm e {SDE_HW_BLK_DSC} M N \<and>
    (ret = 0 \<longrightarrow> num_comp_enc tp \<noteq> 0 \<longrightarrow> \<not> has_roi_misr rm \<longrightarrow>
      (\<exists>S. finite S \<and> card S = num_comp_enc tp \<and> N = M \<union> Pair SDE_HW_BLK_DSC ` S))"
proof (cases "num_comp_enc tp = 0 \<or> has_roi_misr rm")
  case True
  then show ?thesis by (auto simp: sde_rm_reserve_dsc_def intro: exI [of _ M])
next
  case False
  have "dsc_ok rm e 0 []" by (simp add: dsc_ok_def)
  then obtain m r where r: "dsc_loop rm e ids (num_comp_enc tp) (visited rm SDE_HW_BLK_DSC) 0 [] = Some r" "dsc_ok rm e m r"
    using dsc_loop_result [OF l ids visited_all, of e 0 "[]"] by auto
  then have "fold (mark a SDE_HW_BLK_DSC) r (with_marks a M rm) = with_marks a (M \<union> Pair SDE_HW_BLK_DSC ` set r) rm"
    by (intro fold_mark_wm) (simp add: free_def dsc_ok_def)
  moreover have "grows rm e {SDE_HW_BLK_DSC} M (M \<union> Pair SDE_HW_BLK_DSC ` set r)" using r(2) by (auto simp: grows_def dsc_ok_def)
  moreover have "card (set r) = length r" using r(2) mask_ok_distinct by (auto simp: dsc_ok_def distinct_card)
  ultimately show ?thesis
    using False r(1)
    by (cases "length r = num_comp_enc tp") (auto simp: sde_rm_reserve_dsc_def intro: exI [of _ M] exI [of _ "set r"])
qed

lemma reserve_qdss_result:
  assumes l: "live rm"
  shows "\<exists>ret N. sde_rm_reserve_qdss (with_marks a M rm) a e = Some (ret, with_marks a N rm) \<and> grows rm e {SDE_HW_BLK_QDSS} M N"
proof -
  obtain r where r: "free_loop rm e SDE_HW_BLK_QDSS (\<lambda>c. True) (visited rm SDE_HW_BLK_QDSS) = Some r" "\<forall>i. r = Some i \<longrightarrow> free rm e SDE_HW_BLK_QDSS i"
    using free_loop_result [OF l visited_all] by blast
  then show ?thesis
    by (cases r) (auto simp: sde_rm_reserve_qdss_def mark_wm free_def intro: exI [of _ M] intro!: grows_insert)
qed

lemma reserve_cdm_result:
  assumes l: "live rm"
  shows "\<exists>ret N. sde_rm_reserve_cdm (with_marks a M rm) a e n t = Some (ret, with_marks a N rm) \<and> grows rm e {SDE_HW_BLK_CDM} M N"
proof -
  obtain r where r: "free_loop rm e SDE_HW_BLK_CDM (cdm_matches n t) (visited rm SDE_HW_BLK_CDM) = Some r" "\<forall>i. r = Some i \<longrightarrow> free rm e SDE_HW_BLK_CDM i"
    using free_loop_result [OF l visited_all] by blast
  then show ?thesis
    by (cases r) (auto simp: sde_rm_reserve_cdm_def mark_wm free_def intro: exI [of _ M] intro!: grows_insert)
qed

lemma reserve_intf_or_wb_result:
  assumes l: "live rm"
  shows "\<exists>ret N. sde_rm_reserve_intf_or_wb (with_marks a M rm) a e n t cdm = Some (ret, with_marks a N rm) \<and>
    grows rm e {t, SDE_HW_BLK_CDM} M N \<and> (ret = 0 \<longrightarrow> (\<exists>i. (t, i) \<in> N \<and> blk_id (blk rm t i) = n))"
proof (cases "find_blk rm t n")
  case None
  then show ?thesis by (intro exI [of _ "- EINVAL"] exI [of _ M]) (simp add: sde_rm_reserve_intf_or_wb_def)
next
  case (Some i)
  have i: "i < length (hw_blks rm t)" "blk_id (blk rm t i) = n" using find_blk_Some [OF Some] by simp_all
  show ?thesis
  proof (cases "free rm e t i")
    case False
    then show ?thesis
      using Some i reserved_free [OF l i(1)]
      by (intro exI [of _ "- ENAVAIL"] exI [of _ M]) (simp add: sde_rm_reserve_intf_or_wb_def)
  next
    case True
    have g: "grows rm e {t, SDE_HW_BLK_CDM} M (insert (t, i) M)" using True by (intro grows_insert) simp_all
    obtain ret N where c: "sde_rm_reserve_cdm (with_marks a (insert (t, i) M) rm) a e n t = Some (ret, with_marks a N rm)"
      "grows rm e {SDE_HW_BLK_CDM} (insert (t, i) M) N"
      using reserve_cdm_result [OF l] by blast
    have "grows rm e {t, SDE_HW_BLK_CDM} M N" using grows_trans [OF g c(2)] by (simp add: insert_commute)
    moreover have "(t, i) \<in> N" using c(2) by (auto simp: grows_def)
    ultimately show ?thesis
      using Some i True c(1) g reserved_free [OF l i(1), of e]
      by (cases cdm) (auto simp: sde_rm_reserve_intf_or_wb_def mark_wm Let_def)
  qed
qed

lemma intf_loop_result:
  assumes l: "live rm"
  shows "\<exists>ret N. intf_loop (with_marks a M rm) a e t cdm n ms = Some (ret, with_marks a N rm) \<and>
    grows rm e {t, SDE_HW_BLK_CDM} M N \<and>
    (ret = 0 \<longrightarrow> (\<forall>k < length ms. ms ! k \<noteq> 0 \<longrightarrow> (\<exists>i. (t, i) \<in> N \<and> blk_id (blk rm t i) = n + k)))"
proof (induction ms arbitrary: M n)
  case Nil
  then show ?case by (intro exI [of _ "0::int"] exI [of _ M]) simp
next
  case (Cons m ms)
  show ?case
  proof (cases "m = 0")
    case True
    obtain ret N where r: "intf_loop (with_marks a M rm) a e t cdm (n + 1) ms = Some (ret, with_marks a N rm)"
      "grows rm e {t, SDE_HW_BLK_CDM} M N"
      "ret = 0 \<longrightarrow> (\<forall>k < length ms. ms ! k \<noteq> 0 \<longrightarrow> (\<exists>i. (t, i) \<in> N \<and> blk_id (blk rm t i) = n + 1 + k))"
      using Cons.IH [of M "n + 1"] by blast
    then show ?thesis using True by (intro exI [of _ ret] exI [of _ N]) (auto simp: nth_Cons split: nat.split)
  next
    case False
    obtain ret1 K where r1: "sde_rm_reserve_intf_or_wb (with_marks a M rm) a e n t cdm = Some (ret1, with_marks a K rm)"
      "grows rm e {t, SDE_HW_BLK_CDM} M K" "ret1 = 0 \<longrightarrow> (\<exists>i. (t, i) \<in> K \<and> blk_id (blk rm t i) = n)"
      using reserve_intf_or_wb_result [OF l, of a M e n t cdm] by (elim exE conjE) (rule that)
    obtain ret N where r: "intf_loop (with_marks a K rm) a e t cdm (n + 1) ms = Some (ret, with_marks a N rm)"
      "grows rm e {t, SDE_HW_BLK_CDM} K N"
      "ret = 0 \<longrightarrow> (\<forall>k < length ms. ms ! k \<noteq> 0 \<longrightarrow> (\<exists>i. (t, i) \<in> N \<and> blk_id (blk rm t i) = n + 1 + k))"
      using Cons.IH [of K "n + 1"] by blast
    have g: "grows rm e {t, SDE_HW_BLK_CDM} M N" using grows_trans [OF r1(2) r(2)] by (simp add: insert_commute)
    show ?thesis
    proof (cases "ret1 = 0")
      case True
      have "\<exists>i. (t, i) \<in> N \<and> blk_id (blk rm t i) = n + k" if "ret = 0" "k < length (m # ms)" "(m # ms) ! k \<noteq> 0" for k
      proof (cases k)
        case 0
        then show ?thesis using r1(3) True grows_mem [OF r(2)] by auto
      next
        case (Suc k')
        then show ?thesis using r(3) that by auto
      qed
      then show ?thesis using False True r1(1) r(1) g by (intro exI [of _ ret] exI [of _ N]) auto
    next
      case err: False
      then show ?thesis using False r1(1,2) by (intro exI [of _ ret1] exI [of _ K]) simp
    qed
  qed
qed

end
