(* ===== verification/Sde_Rm_Runs.thy ===== *)
theory Sde_Rm_Runs
  imports Sde_Rm_Propose
begin

section \<open>Resource manager: reservations and runs\<close>

text \<open>
  What a whole reservation proposes, what withdrawing or committing it leaves, and that every operation
  keeps the invariant and the blocks of the other encoders.
\<close>

subsection \<open>The proposal of a reservation\<close>

lemma add_rsvp_simps [simp]:
  "hw_blks (add_rsvp a e n rm) = hw_blks rm" "has_roi_misr (add_rsvp a e n rm) = has_roi_misr rm"
  "blk (add_rsvp a e n rm) t i = blk rm t i" "topology_tbl (add_rsvp a e n rm) = topology_tbl rm"
  "tags (add_rsvp a e n rm) = insert a (tags rm)"
  by (simp_all add: add_rsvp_def blk_def tags_def)

lemma add_rsvp_live [simp]: "live rm \<Longrightarrow> live (add_rsvp a e n rm)"
  by (auto simp: live_def)

lemma add_rsvp_owner:
  assumes "rsvp b \<noteq> Some a"
  shows "owner (add_rsvp a e n rm) b = owner rm b"
  using assms by (auto simp: owner_def add_rsvp_def map_add_def split: option.split)

lemma add_rsvp_free:
  assumes "live rm" "a \<notin> tags rm"
  shows "free (add_rsvp a e n rm) f t i = free rm f t i"
proof (cases "i < length (hw_blks rm t)")
  case True
  then have "rsvp (blk rm t i) \<noteq> Some a" using assms blk_in [OF True] by (auto simp: live_def)
  then show ?thesis by (simp add: free_def add_rsvp_owner)
qed (simp add: free_def)

lemma add_rsvp_grows: "live rm \<Longrightarrow> a \<notin> tags rm \<Longrightarrow> grows (add_rsvp a e n rm) f T M N = grows rm f T M N"
  by (simp add: grows_def add_rsvp_free)

lemma add_rsvp_wired:
  assumes "live rm" "a \<notin> tags rm"
  shows "wired (add_rsvp a e n rm) f tp i c = wired rm f tp i c"
  using assms by (simp add: wired_def Let_def picked_def add_rsvp_free split: option.split)

text \<open>The blocks of a display: mixers with what they are wired to, interfaces, writeback and compression.\<close>

definition has_ids :: "sde_rm \<Rightarrow> sde_hw_blk_type \<Rightarrow> nat \<Rightarrow> nat list \<Rightarrow> (sde_hw_blk_type \<times> nat) set \<Rightarrow> bool" where
  "has_ids rm t n ms M \<longleftrightarrow> (\<forall>k < length ms. ms ! k \<noteq> 0 \<longrightarrow> (\<exists>i. (t, i) \<in> M \<and> blk_id (blk rm t i) = n + k))"

definition complete :: "sde_rm \<Rightarrow> nat \<Rightarrow> sde_rm_topology_def \<Rightarrow> sde_encoder_hw_resources \<Rightarrow> (sde_hw_blk_type \<times> nat) set \<Rightarrow> bool" where
  "complete rm e tp res M \<longleftrightarrow>
     (\<exists>sel. (\<forall>(i, c) \<in> set sel. wired rm e tp i c) \<and> distinct (map fst sel) \<and> length sel = num_lm tp \<and>
        {i. (SDE_HW_BLK_LM, i) \<in> M} = fst ` set sel \<and> \<Union> (lm_marks ` set sel) \<subseteq> M) \<and>
     has_ids rm SDE_HW_BLK_INTF INTF_0 (hr_intfs res) M \<and> has_ids rm SDE_HW_BLK_WB WB_0 (hr_wbs res) M \<and>
     (num_comp_enc tp \<noteq> 0 \<longrightarrow> \<not> has_roi_misr rm \<longrightarrow> card {i. (SDE_HW_BLK_DSC, i) \<in> M} = num_comp_enc tp)"

definition rest_done :: "sde_rm \<Rightarrow> sde_rm_requirements \<Rightarrow> (sde_hw_blk_type \<times> nat) set \<Rightarrow> (sde_hw_blk_type \<times> nat) set \<Rightarrow> bool" where
  "rest_done rm reqs M N \<longleftrightarrow> has_ids rm SDE_HW_BLK_INTF INTF_0 (hr_intfs (hw_res reqs)) N \<and>
     has_ids rm SDE_HW_BLK_WB WB_0 (hr_wbs (hw_res reqs)) N \<and>
     (num_comp_enc (rq_topology reqs) \<noteq> 0 \<longrightarrow> \<not> has_roi_misr rm \<longrightarrow>
       (\<exists>S. finite S \<and> card S = num_comp_enc (rq_topology reqs) \<and> (\<forall>i. (SDE_HW_BLK_DSC, i) \<in> N \<longleftrightarrow> (SDE_HW_BLK_DSC, i) \<in> M \<or> i \<in> S)))"

lemma reserve_rest_result:
  assumes l: "live rm" and ids: "ids_ok dsc_ids (num_comp_enc (rq_topology reqs))"
  shows "\<exists>ret N. reserve_rest (with_marks a M rm) a e reqs dsc_ids = Some (ret, with_marks a N rm) \<and>
    grows rm e {SDE_HW_BLK_INTF, SDE_HW_BLK_WB, SDE_HW_BLK_CDM, SDE_HW_BLK_DSC, SDE_HW_BLK_QDSS} M N \<and>
    (ret = 0 \<longrightarrow> rest_done rm reqs M N)"
proof -
  define T where "T = {SDE_HW_BLK_INTF, SDE_HW_BLK_WB, SDE_HW_BLK_CDM, SDE_HW_BLK_DSC, SDE_HW_BLK_QDSS}"
  define cdm where "cdm = hr_needs_cdm (hw_res reqs)"
  have weak: "grows rm e T K L" if "grows rm e T' K L" "T' \<subseteq> T" for K L T'
    using that unfolding grows_def by blast
  have trans: "grows rm e T K P" if "grows rm e T K L" "grows rm e T L P" for K L P
    using grows_trans [OF that] by simp
  obtain r1 N1 where r1: "intf_loop (with_marks a M rm) a e SDE_HW_BLK_INTF cdm INTF_0 (hr_intfs (hw_res reqs)) = Some (r1, with_marks a N1 rm)"
    "grows rm e {SDE_HW_BLK_INTF, SDE_HW_BLK_CDM} M N1"
    "r1 = 0 \<longrightarrow> has_ids rm SDE_HW_BLK_INTF INTF_0 (hr_intfs (hw_res reqs)) N1"
    using intf_loop_result [OF l, of a M e SDE_HW_BLK_INTF cdm INTF_0 "hr_intfs (hw_res reqs)", folded has_ids_def] by (elim exE conjE) (rule that)
  obtain r2 N2 where r2: "intf_loop (with_marks a N1 rm) a e SDE_HW_BLK_WB cdm WB_0 (hr_wbs (hw_res reqs)) = Some (r2, with_marks a N2 rm)"
    "grows rm e {SDE_HW_BLK_WB, SDE_HW_BLK_CDM} N1 N2"
    "r2 = 0 \<longrightarrow> has_ids rm SDE_HW_BLK_WB WB_0 (hr_wbs (hw_res reqs)) N2"
    using intf_loop_result [OF l, of a N1 e SDE_HW_BLK_WB cdm WB_0 "hr_wbs (hw_res reqs)", folded has_ids_def] by (elim exE conjE) (rule that)
  obtain r3 N3 where r3: "sde_rm_reserve_dsc (with_marks a N2 rm) a e (rq_topology reqs) dsc_ids = Some (r3, with_marks a N3 rm)"
    "grows rm e {SDE_HW_BLK_DSC} N2 N3"
    "r3 = 0 \<longrightarrow> num_comp_enc (rq_topology reqs) \<noteq> 0 \<longrightarrow> \<not> has_roi_misr rm \<longrightarrow>
      (\<exists>S. finite S \<and> card S = num_comp_enc (rq_topology reqs) \<and> N3 = N2 \<union> Pair SDE_HW_BLK_DSC ` S)"
    using reserve_dsc_result [OF l ids, of a N2 e] by (elim exE conjE) (rule that)
  obtain r4 N4 where r4: "sde_rm_reserve_qdss (with_marks a N3 rm) a e = Some (r4, with_marks a N4 rm)" "grows rm e {SDE_HW_BLK_QDSS} N3 N4"
    using reserve_qdss_result [OF l, of a N3 e] by (elim exE conjE) (rule that)
  have g: "grows rm e T M N1" "grows rm e T N1 N2" "grows rm e T N2 N3" "grows rm e T N3 N4"
    using weak [OF r1(2)] weak [OF r2(2)] weak [OF r3(2)] weak [OF r4(2)] by (simp_all add: T_def)
  note G = g(1) trans [OF g(1,2)] trans [OF trans [OF g(1,2)] g(3)] trans [OF trans [OF trans [OF g(1,2)] g(3)] g(4)]
  have run: "reserve_rest (with_marks a M rm) a e reqs dsc_ids =
      (if r1 \<noteq> 0 then Some (r1, with_marks a N1 rm) else if r2 \<noteq> 0 then Some (r2, with_marks a N2 rm)
       else if r3 \<noteq> 0 then Some (r3, with_marks a N3 rm) else Some (r4, with_marks a N4 rm))"
    using r1(1) r2(1) r3(1) r4(1)
    by (simp add: reserve_rest_def sde_rm_reserve_intf_related_hw_def cdm_def [symmetric])
  show ?thesis
    unfolding T_def [symmetric]
  proof (cases "r1 = 0 \<and> r2 = 0 \<and> r3 = 0")
    case False
    then show "\<exists>ret N. reserve_rest (with_marks a M rm) a e reqs dsc_ids = Some (ret, with_marks a N rm) \<and> grows rm e T M N \<and>
      (ret = 0 \<longrightarrow> rest_done rm reqs M N)"
      using run G by (cases "r1 = 0"; cases "r2 = 0") auto
  next
    case True
    have i4: "(SDE_HW_BLK_INTF, i) \<in> N4" if "(SDE_HW_BLK_INTF, i) \<in> N1" for i
      using that grows_mem [OF g(2)] grows_mem [OF g(3)] grows_mem [OF g(4)] by blast
    have w4: "(SDE_HW_BLK_WB, i) \<in> N4" if "(SDE_HW_BLK_WB, i) \<in> N2" for i
      using that grows_mem [OF g(3)] grows_mem [OF g(4)] by blast
    have d: "(SDE_HW_BLK_DSC, i) \<in> N4 \<longleftrightarrow> (SDE_HW_BLK_DSC, i) \<in> N3" "(SDE_HW_BLK_DSC, i) \<in> N2 \<longleftrightarrow> (SDE_HW_BLK_DSC, i) \<in> M" for i
      using grows_type [OF r4(2)] grows_type [OF r2(2)] grows_type [OF r1(2)] by simp_all
    have "\<exists>S. finite S \<and> card S = num_comp_enc (rq_topology reqs) \<and> (\<forall>i. (SDE_HW_BLK_DSC, i) \<in> N4 \<longleftrightarrow> (SDE_HW_BLK_DSC, i) \<in> M \<or> i \<in> S)"
      if "num_comp_enc (rq_topology reqs) \<noteq> 0" "\<not> has_roi_misr rm"
    proof -
      obtain S where S: "finite S" "card S = num_comp_enc (rq_topology reqs)" "N3 = N2 \<union> Pair SDE_HW_BLK_DSC ` S"
        using r3(3) True \<open>num_comp_enc (rq_topology reqs) \<noteq> 0\<close> \<open>\<not> has_roi_misr rm\<close> by blast
      have "(SDE_HW_BLK_DSC, i) \<in> N4 \<longleftrightarrow> (SDE_HW_BLK_DSC, i) \<in> M \<or> i \<in> S" for i
        using d S(3) by auto
      with S(1,2) show ?thesis by blast
    qed
    moreover have "has_ids rm SDE_HW_BLK_INTF INTF_0 (hr_intfs (hw_res reqs)) N4"
      using r1(3) True i4 unfolding has_ids_def by blast
    moreover have "has_ids rm SDE_HW_BLK_WB WB_0 (hr_wbs (hw_res reqs)) N4"
      using r2(3) True w4 unfolding has_ids_def by blast
    ultimately show "\<exists>ret N. reserve_rest (with_marks a M rm) a e reqs dsc_ids = Some (ret, with_marks a N rm) \<and> grows rm e T M N \<and>
      (ret = 0 \<longrightarrow> rest_done rm reqs M N)"
      using run G(4) True by (intro exI [of _ r4] exI [of _ N4]) (simp add: rest_done_def)
  qed
qed

lemma complete_from:
  assumes l: "live rm" "a \<notin> tags rm"
    and sel: "sel_ok (add_rsvp a e n rm) e (rq_topology reqs) m sel" "length sel = num_lm (rq_topology reqs)"
    and K: "\<Union> (lm_marks ` set sel) \<subseteq> K" "\<forall>t i. t \<noteq> SDE_HW_BLK_PINGPONG \<longrightarrow> (t, i) \<in> K \<longrightarrow> (t, i) \<in> \<Union> (lm_marks ` set sel)"
    and L: "grows rm e {SDE_HW_BLK_CTL} K L" and N: "grows rm e {SDE_HW_BLK_INTF, SDE_HW_BLK_WB, SDE_HW_BLK_CDM, SDE_HW_BLK_DSC, SDE_HW_BLK_QDSS} L N"
    and fin: "rest_done (add_rsvp a e n rm) reqs L N"
  shows "complete rm e (rq_topology reqs) (hw_res reqs) N"
proof -
  have w: "\<forall>(i, c) \<in> set sel. wired rm e (rq_topology reqs) i c"
    using sel(1) by (auto simp: sel_ok_def add_rsvp_wired [OF l])
  have lm: "{i. (SDE_HW_BLK_LM, i) \<in> N} = fst ` set sel"
  proof -
    have "(SDE_HW_BLK_LM, i) \<in> N \<longleftrightarrow> (SDE_HW_BLK_LM, i) \<in> K" for i
      using grows_type [OF N] grows_type [OF L] by simp
    moreover have "(SDE_HW_BLK_LM, i) \<in> K \<longleftrightarrow> (SDE_HW_BLK_LM, i) \<in> \<Union> (lm_marks ` set sel)" for i
      using K by blast
    moreover have "(SDE_HW_BLK_LM, i) \<in> lm_marks s \<longleftrightarrow> i = fst s" for i s
      by (cases s) (auto simp: lm_marks_def opt_pos_def split: option.splits)
    ultimately show ?thesis by auto
  qed
  have sub: "\<Union> (lm_marks ` set sel) \<subseteq> N"
    using K(1) grows_mem [OF L] grows_mem [OF N] by blast
  have d: "card {i. (SDE_HW_BLK_DSC, i) \<in> N} = num_comp_enc (rq_topology reqs)"
    if nz: "num_comp_enc (rq_topology reqs) \<noteq> 0" "\<not> has_roi_misr rm"
  proof -
    obtain S where S: "finite S" "card S = num_comp_enc (rq_topology reqs)" "\<forall>i. (SDE_HW_BLK_DSC, i) \<in> N \<longleftrightarrow> (SDE_HW_BLK_DSC, i) \<in> L \<or> i \<in> S"
      using fin nz by (auto simp: rest_done_def)
    have none: "(SDE_HW_BLK_DSC, i) \<notin> lm_marks s" if "s \<in> set sel" for i s
      using w that nz(2) by (cases s) (auto simp: lm_marks_def opt_pos_def wired_def Let_def split: option.splits)
    have "(SDE_HW_BLK_DSC, i) \<notin> L" for i
      using grows_type [OF L, of SDE_HW_BLK_DSC i] K(2) [rule_format, of SDE_HW_BLK_DSC i] none by auto
    with S(3) have "{i. (SDE_HW_BLK_DSC, i) \<in> N} = S" by auto
    with S(2) show ?thesis by simp
  qed
  have "distinct (map fst sel)" using sel(1) unfolding sel_ok_def by (blast intro: mask_ok_distinct)
  with w sel(2) lm sub d fin show ?thesis
    by (auto simp: complete_def rest_done_def has_ids_def)
qed

lemma make_next_result:
  assumes l: "live rm" "a \<notin> tags rm"
  shows "\<exists>ret N. sde_rm_make_next_rsvp rm a e reqs = Some (ret, with_marks a N (add_rsvp a e (top_name (rq_topology reqs)) rm)) \<and>
    (\<forall>t i. (t, i) \<in> N \<longrightarrow> free rm e t i) \<and> (ret = 0 \<longrightarrow> complete rm e (rq_topology reqs) (hw_res reqs) N)"
proof -
  define rm1 where "rm1 = add_rsvp a e (top_name (rq_topology reqs)) rm"
  have l1: "live rm1" using l by (simp add: rm1_def)
  have ids: "ids_ok None k" for k by (simp add: ids_ok_def)
  obtain ret K where k: "sde_rm_reserve_lms rm1 a e reqs None = Some (ret, with_marks a K rm1)" "grows rm1 e lm_types {} K"
    "ret = 0 \<longrightarrow> (\<exists>m sel. sel_ok rm1 e (rq_topology reqs) m sel \<and> length sel = num_lm (rq_topology reqs) \<and>
       {} \<union> \<Union> (lm_marks ` set sel) \<subseteq> K \<and> (\<forall>t i. t \<noteq> SDE_HW_BLK_PINGPONG \<longrightarrow> (t, i) \<in> K \<longrightarrow> (t, i) \<in> {} \<union> \<Union> (lm_marks ` set sel)))"
    using reserve_lms_result [OF l1 ids, where M = "{}" and a = a and e = e and reqs = reqs] unfolding with_marks_empty
    by (elim exE conjE) (rule that)
  obtain r1 L where c: "sde_rm_reserve_ctls (with_marks a K rm1) a e reqs (rq_topology reqs) None = Some (r1, with_marks a L rm1)"
    "grows rm1 e {SDE_HW_BLK_CTL} K L"
    using reserve_ctls_result [OF l1 ids, where M = K and a = a and e = e and reqs = reqs and tp = "rq_topology reqs"] by (elim exE conjE) (rule that)
  obtain r2 N where r: "reserve_rest (with_marks a L rm1) a e reqs None = Some (r2, with_marks a N rm1)"
    "grows rm1 e {SDE_HW_BLK_INTF, SDE_HW_BLK_WB, SDE_HW_BLK_CDM, SDE_HW_BLK_DSC, SDE_HW_BLK_QDSS} L N" "r2 = 0 \<longrightarrow> rest_done rm1 reqs L N"
    using reserve_rest_result [OF l1 ids, of a L e reqs] by (elim exE conjE) (rule that)
  have run: "sde_rm_make_next_rsvp rm a e reqs = (if ret \<noteq> 0 then Some (ret, with_marks a K rm1) else Some (r2, with_marks a N rm1))"
    using k(1) c(1) r(1) by (simp add: sde_rm_make_next_rsvp_def rm1_def [symmetric] Let_def)
  have free: "free rm e t i" if "(t, i) \<in> N \<or> (t, i) \<in> K" for t i
  proof -
    have "free rm1 e t i" using that k(2) c(2) r(2) unfolding grows_def by blast
    then show ?thesis by (simp add: rm1_def add_rsvp_free [OF l])
  qed
  show ?thesis
    unfolding rm1_def [symmetric]
  proof (cases "ret = 0")
    case True
    then obtain m sel where s: "sel_ok rm1 e (rq_topology reqs) m sel" "length sel = num_lm (rq_topology reqs)"
      "\<Union> (lm_marks ` set sel) \<subseteq> K" "\<forall>t i. t \<noteq> SDE_HW_BLK_PINGPONG \<longrightarrow> (t, i) \<in> K \<longrightarrow> (t, i) \<in> \<Union> (lm_marks ` set sel)"
      using k(3) by auto
    have "complete rm e (rq_topology reqs) (hw_res reqs) N" if "r2 = 0"
      using complete_from [OF l s(1) [unfolded rm1_def] s(2-4)] c(2) r(2,3) that by (simp add: rm1_def add_rsvp_grows [OF l])
    then show "\<exists>ret N. sde_rm_make_next_rsvp rm a e reqs = Some (ret, with_marks a N rm1) \<and> (\<forall>t i. (t, i) \<in> N \<longrightarrow> free rm e t i) \<and>
        (ret = 0 \<longrightarrow> complete rm e (rq_topology reqs) (hw_res reqs) N)"
      using run True free by (intro exI [of _ r2] exI [of _ N]) simp
  next
    case False
    then show "\<exists>ret N. sde_rm_make_next_rsvp rm a e reqs = Some (ret, with_marks a N rm1) \<and> (\<forall>t i. (t, i) \<in> N \<longrightarrow> free rm e t i) \<and>
        (ret = 0 \<longrightarrow> complete rm e (rq_topology reqs) (hw_res reqs) N)"
      using run free by (intro exI [of _ ret] exI [of _ K]) simp
  qed
qed

text \<open>The arrays of the splash screen are long enough for a topology.\<close>

definition splash_fits :: "sde_rm_topology_def \<Rightarrow> sde_splash_display list \<Rightarrow> bool" where
  "splash_fits tp splash \<longleftrightarrow> (\<forall>s \<in> set splash. num_lm tp \<le> length (sd_lm_ids s) \<and> num_ctl tp \<le> length (sd_ctl_ids s) \<and>
     num_comp_enc tp \<le> length (sd_dsc_ids s))"

lemma make_next_splash_result:
  assumes l: "live rm" "a \<notin> tags rm" and fits: "splash_fits (rq_topology reqs) splash"
  shows "\<exists>ret rm'. sde_rm_make_next_rsvp_for_cont_splash rm a e reqs splash = Some (ret, rm') \<and>
    ((ret \<noteq> 0 \<and> rm' = rm) \<or>
     (\<exists>N. rm' = with_marks a N (add_rsvp a e (top_name (rq_topology reqs)) rm) \<and> (\<forall>t i. (t, i) \<in> N \<longrightarrow> free rm e t i)))"
proof (cases "List.find (\<lambda>s. sd_encoder s = Some e) (rev splash)")
  case None
  then show ?thesis by (simp add: sde_rm_make_next_rsvp_for_cont_splash_def)
next
  case (Some s)
  then obtain i where "i < length (rev splash)" "s = rev splash ! i" by (auto simp: find_Some_iff)
  then have "s \<in> set (rev splash)" by (metis nth_mem)
  then have "s \<in> set splash" by simp
  then have ids: "ids_ok (Some (sd_lm_ids s)) (num_lm (rq_topology reqs))" "ids_ok (Some (sd_ctl_ids s)) (num_ctl (rq_topology reqs))"
    "ids_ok (Some (sd_dsc_ids s)) (num_comp_enc (rq_topology reqs))"
    using fits by (auto simp: splash_fits_def ids_ok_def)
  define rm1 where "rm1 = add_rsvp a e (top_name (rq_topology reqs)) rm"
  have l1: "live rm1" using l by (simp add: rm1_def)
  obtain ret0 K0 where k0: "sde_rm_reserve_lms rm1 a e reqs (Some (sd_lm_ids s)) = Some (ret0, with_marks a K0 rm1)" "grows rm1 e lm_types {} K0"
    using reserve_lms_result [OF l1 ids(1), where M = "{}" and a = a and e = e] unfolding with_marks_empty
    by (elim exE conjE) (rule that)
  define retry where "retry = (ret0 \<noteq> 0 \<and> \<not> RM_RQ_DSPP reqs)"
  define reqs1 where "reqs1 = (if retry then reqs\<lparr>top_ctrl := set_bit SDE_RM_TOPCTL_DSPP (top_ctrl reqs)\<rparr> else reqs)"
  have tp: "rq_topology reqs1 = rq_topology reqs" by (simp add: reqs1_def)
  obtain ret K where k: "(if retry then sde_rm_reserve_lms (with_marks a K0 rm1) a e reqs1 (Some (sd_lm_ids s)) else Some (ret0, with_marks a K0 rm1))
      = Some (ret, with_marks a K rm1)" "grows rm1 e lm_types K0 K"
  proof (cases retry)
    case True
    have "ids_ok (Some (sd_lm_ids s)) (num_lm (rq_topology reqs1))" using ids(1) by (simp add: tp)
    from reserve_lms_result [OF l1 this, where M = K0 and a = a and e = e] True that show ?thesis by (elim exE conjE) simp
  next
    case False
    then show ?thesis using that [of ret0 K0] by simp
  qed
  obtain r1 L where c: "sde_rm_reserve_ctls (with_marks a K rm1) a e reqs1 (rq_topology reqs) (Some (sd_ctl_ids s)) = Some (r1, with_marks a L rm1)"
    "grows rm1 e {SDE_HW_BLK_CTL} K L"
    using reserve_ctls_result [OF l1 ids(2), where M = K and a = a and e = e and reqs = reqs1] by (elim exE conjE) (rule that)
  have ids3: "ids_ok (Some (sd_dsc_ids s)) (num_comp_enc (rq_topology reqs1))" using ids(3) by (simp add: tp)
  obtain r2 N where r: "reserve_rest (with_marks a L rm1) a e reqs1 (Some (sd_dsc_ids s)) = Some (r2, with_marks a N rm1)"
    "grows rm1 e {SDE_HW_BLK_INTF, SDE_HW_BLK_WB, SDE_HW_BLK_CDM, SDE_HW_BLK_DSC, SDE_HW_BLK_QDSS} L N"
    using reserve_rest_result [OF l1 ids3, of a L e] by (elim exE conjE) (rule that)
  have run: "sde_rm_make_next_rsvp_for_cont_splash rm a e reqs splash =
      (if ret \<noteq> 0 then Some (ret, with_marks a K rm1) else Some (r2, with_marks a N rm1))"
    using Some k0(1) k(1) c(1) r(1)
    by (cases retry)
       (auto simp: sde_rm_make_next_rsvp_for_cont_splash_def rm1_def [symmetric] retry_def reqs1_def Let_def)
  have "free rm e t i" if "(t, i) \<in> N \<or> (t, i) \<in> K" for t i
  proof -
    have "free rm1 e t i" using that k0(2) k(2) c(2) r(2) unfolding grows_def by blast
    then show ?thesis by (simp add: rm1_def add_rsvp_free [OF l])
  qed
  then show ?thesis
    unfolding rm1_def [symmetric] run by auto
qed

subsection \<open>Withdrawing and committing\<close>

lemma not_tag:
  assumes "rm_inv rm" "b \<in> set (hw_blks rm t)" "a \<notin> tags rm"
  shows "rsvp b \<noteq> Some a" "rsvp_nxt b = None"
  using assms by (auto simp: rm_inv_def blk_ok_def)

lemma fresh_not_in: "a \<notin> tags rm \<Longrightarrow> filter (\<lambda>p. fst p \<noteq> a) (rsvps rm) = rsvps rm"
  by (intro filter_True) (auto simp: tags_def)

lemma release_fresh:
  assumes "rm_inv rm" "a \<notin> tags rm"
  shows "sde_rm_release_rsvp rm (Some a) = rm"
proof -
  have "map (untag a) (hw_blks rm t) = hw_blks rm t" for t
    using not_tag [OF assms(1) _ assms(2)] by (intro map_idI) (auto simp: untag_def)
  then show ?thesis by (simp add: sde_rm_release_rsvp_def fresh_not_in [OF assms(2)])
qed

text \<open>Withdrawing a proposal leaves the manager as it was but for the count of reservations.\<close>

lemma withdraw:
  assumes "rm_inv rm" "a \<notin> tags rm"
  shows "sde_rm_release_rsvp (with_marks a M (add_rsvp a e n rm)) (Some a) = rm\<lparr>rsvp_next_seq := rsvp_next_seq rm + 1\<rparr>"
proof -
  have "map (untag a) (hw_blks (with_marks a M (add_rsvp a e n rm)) t) = hw_blks rm t" for t
  proof (rule nth_equalityI)
    fix i assume "i < length (map (untag a) (hw_blks (with_marks a M (add_rsvp a e n rm)) t))"
    then have i: "i < length (hw_blks rm t)" by simp
    have "rsvp (blk rm t i) \<noteq> Some a" "rsvp_nxt (blk rm t i) = None" using not_tag [OF assms(1) blk_in [OF i] assms(2)] by simp_all
    then show "map (untag a) (hw_blks (with_marks a M (add_rsvp a e n rm)) t) ! i = hw_blks rm t ! i"
      using i by (simp add: with_marks_def untag_def blk_def Let_def)
  qed simp
  then show ?thesis by (simp add: sde_rm_release_rsvp_def) (simp add: with_marks_def add_rsvp_def fresh_not_in [OF assms(2)])
qed

text \<open>What a block becomes when a proposal replaces the reservation \<open>cur\<close>.\<close>

definition replaced :: "nat \<Rightarrow> nat option \<Rightarrow> bool \<Rightarrow> sde_rm_hw_blk \<Rightarrow> sde_rm_hw_blk" where
  "replaced a cur marked b = (if marked then b\<lparr>rsvp := Some a\<rparr> else if cur \<noteq> None \<and> rsvp b = cur then b\<lparr>rsvp := None\<rparr> else b)"

lemma commit_blks:
  assumes inv: "rm_inv rm" and a: "a \<notin> tags rm" and cur: "\<forall>c. cur = Some c \<longrightarrow> c \<in> tags rm" and i: "i < length (hw_blks rm t)"
  shows "hw_blks (snd (sde_rm_commit_rsvp (sde_rm_release_rsvp (with_marks a M (add_rsvp a e n rm)) cur))) t ! i =
    replaced a cur ((t, i) \<in> M) (blk rm t i)"
proof -
  have b: "rsvp (blk rm t i) \<noteq> Some a" "rsvp_nxt (blk rm t i) = None" using not_tag [OF inv blk_in [OF i] a] by simp_all
  show ?thesis
  proof (cases cur)
    case None
    then show ?thesis using i b
      by (simp add: sde_rm_commit_rsvp_def sde_rm_release_rsvp_def replaced_def commit_blk_def with_marks_def blk_def)
  next
    case (Some c)
    then have "c \<noteq> a" using cur a by auto
    then show ?thesis using i b Some
      by (auto simp: sde_rm_commit_rsvp_def sde_rm_release_rsvp_def replaced_def commit_blk_def with_marks_def untag_def blk_def Let_def)
  qed
qed

lemma commit_rsvps:
  assumes "a \<notin> tags rm" "\<forall>c. cur = Some c \<longrightarrow> c \<in> tags rm"
  shows "rsvps (snd (sde_rm_commit_rsvp (sde_rm_release_rsvp (with_marks a M (add_rsvp a e n rm)) cur))) =
    (case cur of None \<Rightarrow> rsvps rm | Some c \<Rightarrow> filter (\<lambda>p. fst p \<noteq> c) (rsvps rm)) @
      [(a, \<lparr>rv_seq = rsvp_next_seq rm + 1, rv_enc = e, rv_topology = n\<rparr>)]"
  using assms by (cases cur) (auto simp: sde_rm_commit_rsvp_def sde_rm_release_rsvp_def add_rsvp_def)

end
