(* ===== verification/Sde_Rm_Safe.thy ===== *)
theory Sde_Rm_Safe
  imports Sde_Rm_Runs
begin

section \<open>Resource manager: what every operation keeps\<close>

text \<open>
  Owners before and after an operation, the three outcomes of a reservation, and the effect of every
  operation on the invariant and on the blocks of other encoders.
\<close>

subsection \<open>Tags and owners\<close>

lemma get_rsvp_None: "sde_rm_get_rsvp rm e = None \<longleftrightarrow> (\<forall>p \<in> set (rsvps rm). rv_enc (snd p) \<noteq> e)"
  by (simp add: sde_rm_get_rsvp_def find_None_iff Ball_def)

lemma get_rsvp_Some:
  assumes "rm_inv rm"
  shows "sde_rm_get_rsvp rm e = Some c \<longleftrightarrow> (\<exists>r. map_of (rsvps rm) c = Some r \<and> rv_enc r = e)"
proof
  assume "sde_rm_get_rsvp rm e = Some c"
  then obtain p i where p: "List.find (\<lambda>p. rv_enc (snd p) = e) (rsvps rm) = Some p" "fst p = c" by (auto simp: sde_rm_get_rsvp_def)
  then have "p \<in> set (rsvps rm)" "rv_enc (snd p) = e" by (auto simp: find_Some_iff)
  then have "map_of (rsvps rm) (fst p) = Some (snd p)"
    using assms by (intro map_of_is_SomeI) (simp_all add: rm_inv_def)
  then show "\<exists>r. map_of (rsvps rm) c = Some r \<and> rv_enc r = e" using p(2) \<open>rv_enc (snd p) = e\<close> by auto
next
  assume "\<exists>r. map_of (rsvps rm) c = Some r \<and> rv_enc r = e"
  then obtain r where r: "(c, r) \<in> set (rsvps rm)" "rv_enc r = e" by (auto dest: map_of_SomeD)
  then obtain p where p: "List.find (\<lambda>p. rv_enc (snd p) = e) (rsvps rm) = Some p"
    by (cases "List.find (\<lambda>p. rv_enc (snd p) = e) (rsvps rm)") (auto simp: find_None_iff)
  then have "p \<in> set (rsvps rm)" "rv_enc (snd p) = e" by (auto simp: find_Some_iff)
  moreover have "inj_on (rv_enc \<circ> snd) (set (rsvps rm))" using assms by (simp add: rm_inv_def distinct_map)
  ultimately have "p = (c, r)" using r inj_onD [of "rv_enc \<circ> snd" "set (rsvps rm)" p "(c, r)"] by simp
  with p show "sde_rm_get_rsvp rm e = Some c" by (simp add: sde_rm_get_rsvp_def)
qed

lemma get_rsvp_tag: "rm_inv rm \<Longrightarrow> sde_rm_get_rsvp rm e = Some c \<Longrightarrow> c \<in> tags rm"
  by (auto simp: get_rsvp_Some map_of_tags)

lemma owner_iff:
  assumes "rm_inv rm" "b \<in> set (hw_blks rm t)"
  shows "owner rm b = Some e \<longleftrightarrow> rsvp b \<noteq> None \<and> rsvp b = sde_rm_get_rsvp rm e"
proof (cases "rsvp b")
  case (Some x)
  show ?thesis using Some get_rsvp_Some [OF assms(1), of e x] by (auto simp: owner_def)
qed (simp add: owner_def)

lemma owner_None:
  assumes "rm_inv rm" "b \<in> set (hw_blks rm t)"
  shows "owner rm b = None \<longleftrightarrow> rsvp b = None"
  using assms by (auto simp: owner_def rm_inv_def blk_ok_def map_of_tags split: option.split)

lemma filter_pointwise:
  assumes "length xs = length ys" "\<And>i. i < length xs \<Longrightarrow> (P (xs ! i) \<longleftrightarrow> Q (ys ! i)) \<and> (Q (ys ! i) \<longrightarrow> xs ! i = ys ! i)"
  shows "filter P xs = filter Q ys"
  using assms
proof (induction xs ys rule: list_induct2)
  case (Cons x xs y ys)
  from Cons.prems [of 0] have "(P x \<longleftrightarrow> Q y) \<and> (Q y \<longrightarrow> x = y)" by simp
  moreover have "filter P xs = filter Q ys" using Cons.prems [of "Suc i" for i] by (intro Cons.IH) simp
  ultimately show ?case by auto
qed simp

lemma owned_same:
  assumes "length (hw_blks rm' t) = length (hw_blks rm t)"
    "\<And>i. i < length (hw_blks rm t) \<Longrightarrow> (owner rm' (blk rm' t i) = Some f \<longleftrightarrow> owner rm (blk rm t i) = Some f) \<and>
      (owner rm (blk rm t i) = Some f \<longrightarrow> blk rm' t i = blk rm t i)"
  shows "owned rm' f t = owned rm f t"
  unfolding owned_def using assms by (intro filter_pointwise) (simp_all add: blk_def)

subsection \<open>Replacing a reservation\<close>

definition replace_rsvp :: "nat \<Rightarrow> (sde_hw_blk_type \<times> nat) set \<Rightarrow> nat \<Rightarrow> sde_rm_topology_name \<Rightarrow> sde_rm \<Rightarrow> sde_rm" where
  "replace_rsvp a M e n rm = snd (sde_rm_commit_rsvp (sde_rm_release_rsvp (with_marks a M (add_rsvp a e n rm)) (sde_rm_get_rsvp rm e)))"

lemma replace_length [simp]: "length (hw_blks (replace_rsvp a M e n rm) t) = length (hw_blks rm t)"
  by (simp add: replace_rsvp_def sde_rm_commit_rsvp_def sde_rm_release_rsvp_def split: option.split)

lemma cur_tag:
  assumes inv: "rm_inv rm"
  shows "\<forall>c. sde_rm_get_rsvp rm e = Some c \<longrightarrow> c \<in> tags rm"
  using get_rsvp_tag [OF inv] by blast

lemma replace_blk:
  assumes inv: "rm_inv rm" and a: "a \<notin> tags rm"
  shows "i < length (hw_blks rm t) \<Longrightarrow> blk (replace_rsvp a M e n rm) t i = replaced a (sde_rm_get_rsvp rm e) ((t, i) \<in> M) (blk rm t i)"
  using commit_blks [OF inv a cur_tag [OF inv]] by (simp add: replace_rsvp_def blk_def)

lemma replace_rsvps:
  assumes inv: "rm_inv rm" and a: "a \<notin> tags rm"
  shows "rsvps (replace_rsvp a M e n rm) = filter (\<lambda>p. rv_enc (snd p) \<noteq> e) (rsvps rm) @
     [(a, \<lparr>rv_seq = rsvp_next_seq rm + 1, rv_enc = e, rv_topology = n\<rparr>)]"
proof -
  have "(case sde_rm_get_rsvp rm e of None \<Rightarrow> rsvps rm | Some c \<Rightarrow> filter (\<lambda>p. fst p \<noteq> c) (rsvps rm)) =
      filter (\<lambda>p. rv_enc (snd p) \<noteq> e) (rsvps rm)"
  proof (cases "sde_rm_get_rsvp rm e")
    case None
    then have "filter (\<lambda>p. rv_enc (snd p) \<noteq> e) (rsvps rm) = rsvps rm"
      unfolding get_rsvp_None by (simp add: filter_id_conv)
    with None show ?thesis by simp
  next
    case (Some c)
    have "fst p \<noteq> c \<longleftrightarrow> rv_enc (snd p) \<noteq> e" if "p \<in> set (rsvps rm)" for p
    proof -
      have m: "map_of (rsvps rm) (fst p) = Some (snd p)"
        using inv that by (intro map_of_is_SomeI) (simp_all add: rm_inv_def)
      then show ?thesis using Some get_rsvp_Some [OF inv, of e] by (metis option.inject)
    qed
    with Some show ?thesis by (simp cong: filter_cong)
  qed
  then show ?thesis using commit_rsvps [OF a cur_tag [OF inv]] by (simp add: replace_rsvp_def)
qed

lemma replace_tags:
  assumes inv: "rm_inv rm" and a: "a \<notin> tags rm"
  shows "tags (replace_rsvp a M e n rm) = insert a {c \<in> tags rm. sde_rm_get_rsvp rm e \<noteq> Some c}"
proof -
  have "c \<in> fst ` {p \<in> set (rsvps rm). rv_enc (snd p) \<noteq> e} \<longleftrightarrow> c \<in> tags rm \<and> sde_rm_get_rsvp rm e \<noteq> Some c" for c
  proof -
    have "distinct (map fst (rsvps rm))" using inv by (simp add: rm_inv_def)
    then have "(c, r) \<in> set (rsvps rm) \<longleftrightarrow> map_of (rsvps rm) c = Some r" for r by simp
    then show ?thesis unfolding get_rsvp_Some [OF inv] by (force simp: tags_def map_of_tags)
  qed
  then show ?thesis by (auto simp: tags_def [of "replace_rsvp a M e n rm"] replace_rsvps [OF inv a])
qed

lemma replace_owner:
  assumes inv: "rm_inv rm" and a: "a \<notin> tags rm" and i: "i < length (hw_blks rm t)"
  shows "owner (replace_rsvp a M e n rm) (blk (replace_rsvp a M e n rm) t i) =
    (if (t, i) \<in> M then Some e else if owner rm (blk rm t i) = Some e then None else owner rm (blk rm t i))"
proof -
  have na: "map_of (filter (\<lambda>p. rv_enc (snd p) \<noteq> e) (rsvps rm)) a = None"
    using a by (auto simp: map_of_eq_None_iff tags_def)
  have "map_of (filter (\<lambda>p. rv_enc (snd p) \<noteq> e) (rsvps rm)) x = map_of (rsvps rm) x" if "sde_rm_get_rsvp rm e \<noteq> Some x" for x
  proof (cases "map_of (rsvps rm) x")
    case None
    then have "map_of (filter (\<lambda>p. rv_enc (snd p) \<noteq> e) (rsvps rm)) x = None"
      unfolding map_of_eq_None_iff by auto
    with None show ?thesis by simp
  next
    case (Some r)
    then have "rv_enc r \<noteq> e" using that get_rsvp_Some [OF inv] by auto
    then have "(x, r) \<in> set (filter (\<lambda>p. rv_enc (snd p) \<noteq> e) (rsvps rm))" using Some by (auto dest: map_of_SomeD)
    moreover have "distinct (map fst (filter (\<lambda>p. rv_enc (snd p) \<noteq> e) (rsvps rm)))"
      using inv by (simp add: rm_inv_def distinct_map_filter)
    ultimately show ?thesis using Some by (simp add: map_of_is_SomeI)
  qed
  then show ?thesis
    using na not_tag(1) [OF inv blk_in [OF i] a] owner_iff [OF inv blk_in [OF i], of e]
    unfolding replace_blk [OF inv a i] owner_def replace_rsvps [OF inv a]
    by (auto simp: replaced_def map_add_def split: option.split)
qed

lemma replace_inv:
  assumes inv: "rm_inv rm" and a: "a \<notin> tags rm"
  shows "rm_inv (replace_rsvp a M e n rm)"
proof -
  have "blk_ok (replace_rsvp a M e n rm) t b" if b: "b \<in> set (hw_blks (replace_rsvp a M e n rm) t)" for t b
  proof -
    obtain i where i: "i < length (hw_blks rm t)" "b = blk (replace_rsvp a M e n rm) t i"
      using b by (auto simp: in_set_conv_nth blk_def)
    have "blk_ok rm t (blk rm t i)" using inv blk_in [OF i(1)] by (simp add: rm_inv_def)
    then show ?thesis
      unfolding i(2) replace_blk [OF inv a i(1)] by (auto simp: blk_ok_def replaced_def replace_tags [OF inv a])
  qed
  moreover have "distinct (map fst (rsvps (replace_rsvp a M e n rm)))"
    using inv a by (auto simp: replace_rsvps [OF inv a] rm_inv_def distinct_map_filter tags_def)
  moreover have "distinct (map (rv_enc \<circ> snd) (rsvps (replace_rsvp a M e n rm)))"
    using inv by (auto simp: replace_rsvps [OF inv a] rm_inv_def distinct_map_filter)
  ultimately show ?thesis by (simp add: rm_inv_def)
qed

lemma replace_owned:
  assumes inv: "rm_inv rm" and a: "a \<notin> tags rm" and M: "\<forall>t i. (t, i) \<in> M \<longrightarrow> free rm e t i" and f: "f \<noteq> e"
  shows "owned (replace_rsvp a M e n rm) f t = owned rm f t"
proof (rule owned_same)
  fix i assume i: "i < length (hw_blks rm t)"
  have "(t, i) \<notin> M" if "owner rm (blk rm t i) = Some f" using M [rule_format, of t i] f that by (auto simp: free_def)
  then show "(owner (replace_rsvp a M e n rm) (blk (replace_rsvp a M e n rm) t i) = Some f \<longleftrightarrow> owner rm (blk rm t i) = Some f) \<and>
      (owner rm (blk rm t i) = Some f \<longrightarrow> blk (replace_rsvp a M e n rm) t i = blk rm t i)"
    using replace_owner [OF inv a i] f replace_blk [OF inv a i] owner_iff [OF inv blk_in [OF i], of e] by (auto simp: replaced_def)
qed simp

subsection \<open>Releasing\<close>

lemma release_inv_owned:
  assumes inv: "rm_inv rm" and c: "sde_rm_get_rsvp rm e = Some c"
  defines "rm' \<equiv> sde_rm_release_rsvp rm (Some c)"
  shows "rm_inv rm'" "f \<noteq> e \<Longrightarrow> owned rm' f t = owned rm f t" "sde_rm_get_rsvp rm' e = None" "tags rm' \<subseteq> tags rm"
    "topology_tbl rm' = topology_tbl rm" "owned rm' e t = []"
proof -
  have nxt: "rsvp_nxt b = None" "rsvp b = Some x \<Longrightarrow> x \<in> tags rm" "blk_ok rm t b" if "b \<in> set (hw_blks rm t)" for b t x
    using inv that by (auto simp: rm_inv_def blk_ok_def)
  have u: "untag c b = (if rsvp b = Some c then b\<lparr>rsvp := None\<rparr> else b)" if "b \<in> set (hw_blks rm t)" for b t
    using nxt(1) [OF that] by (simp add: untag_def Let_def)
  have tg: "tags rm' = tags rm - {c}" by (auto simp: rm'_def sde_rm_release_rsvp_def tags_def)
  have d: "distinct (map fst (rsvps rm))" "distinct (map (rv_enc \<circ> snd) (rsvps rm))" using inv by (simp_all add: rm_inv_def)
  show inv': "rm_inv rm'"
    unfolding rm_inv_def
  proof (intro conjI allI ballI)
    show "distinct (map fst (rsvps rm'))" "distinct (map (rv_enc \<circ> snd) (rsvps rm'))"
      using d by (simp_all add: rm'_def sde_rm_release_rsvp_def distinct_map_filter)
  next
    fix t b assume "b \<in> set (hw_blks rm' t)"
    then obtain b0 where b0: "b0 \<in> set (hw_blks rm t)" "b = untag c b0" by (auto simp: rm'_def sde_rm_release_rsvp_def)
    then show "blk_ok rm' t b" using nxt(3) [OF b0(1)] by (auto simp: u blk_ok_def tg)
  qed
  show "sde_rm_get_rsvp rm' e = None"
  proof -
    have "rv_enc (snd p) \<noteq> e" if "p \<in> set (rsvps rm)" "fst p \<noteq> c" for p
      using get_rsvp_Some [OF inv, of e "fst p"] c that map_of_is_SomeI [OF d(1), of "fst p" "snd p"] by auto
    then show ?thesis by (auto simp: get_rsvp_None rm'_def sde_rm_release_rsvp_def)
  qed
  then show "owned rm' e t = []"
    using owner_iff [OF inv'] by (auto simp: owned_def filter_empty_conv)
  have len: "length (hw_blks rm' t) = length (hw_blks rm t)" by (simp add: rm'_def sde_rm_release_rsvp_def)
  show "owned rm' f t = owned rm f t" if "f \<noteq> e"
  proof (rule owned_same [OF len])
    fix i assume i: "i < length (hw_blks rm t)"
    have b: "blk rm' t i = (if rsvp (blk rm t i) = Some c then (blk rm t i)\<lparr>rsvp := None\<rparr> else blk rm t i)"
      using i u [OF blk_in [OF i]] by (simp add: rm'_def sde_rm_release_rsvp_def blk_def)
    have m: "map_of (rsvps rm') x = map_of (rsvps rm) x" if "x \<noteq> c" for x
    proof -
      have "map_of (filter (\<lambda>p. fst p \<noteq> c) xs) x = map_of xs x" for xs :: "(nat \<times> sde_rm_rsvp) list"
        using that by (induction xs) auto
      then show ?thesis by (simp add: rm'_def sde_rm_release_rsvp_def)
    qed
    show "(owner rm' (blk rm' t i) = Some f \<longleftrightarrow> owner rm (blk rm t i) = Some f) \<and> (owner rm (blk rm t i) = Some f \<longrightarrow> blk rm' t i = blk rm t i)"
      using b m \<open>f \<noteq> e\<close> c get_rsvp_Some [OF inv, of e c] by (auto simp: owner_def split: option.split)
  qed
  show "tags rm' \<subseteq> tags rm" using tg by auto
  show "topology_tbl rm' = topology_tbl rm" by (simp add: rm'_def sde_rm_release_rsvp_def)
qed

end
