(* ===== verification/Sde_Rm_Step.thy ===== *)
theory Sde_Rm_Step
  imports Sde_Rm_Safe
begin

section \<open>Resource manager: outcomes of operations\<close>

text \<open>
  The outcomes of a reservation, what releasing and the blocks of other drivers do, and the states that
  a sequence of operations reaches from a manager set up by \<^verbatim>\<open>sde_rm_init\<close>.
\<close>

declare top_loop.simps [simp del]

subsection \<open>Requirements\<close>

lemma top_loop_result:
  assumes "i + n \<le> length tbl \<or> (\<exists>k < length tbl. i \<le> k \<and> P (tbl ! k))"
  shows "\<exists>r. top_loop tbl P i n = Some r \<and> (\<forall>t. r = Some t \<longrightarrow> t \<in> set tbl \<and> P t)"
  using assms
proof (induction n arbitrary: i)
  case (Suc n)
  have i: "i < length tbl" using Suc.prems by auto
  show ?case
  proof (cases "P (tbl ! i)")
    case False
    have "i + 1 + n \<le> length tbl \<or> (\<exists>k < length tbl. i + 1 \<le> k \<and> P (tbl ! k))"
      using Suc.prems False by (metis add.assoc add_Suc_right le_neq_implies_less plus_1_eq_Suc Suc_eq_plus1 Suc_leI)
    from Suc.IH [OF this] show ?thesis using i False by (simp add: top_loop.simps)
  qed (use i in \<open>simp add: top_loop.simps\<close>)
qed (simp add: top_loop.simps)

definition topology_ok :: "sde_rm \<Rightarrow> rm_request \<Rightarrow> bool" where
  "topology_ok rm q \<longleftrightarrow> 6 \<le> length (topology_tbl rm) \<and>
     (SDE_RM_TOPOLOGY_MAX \<le> length (topology_tbl rm) \<or> (\<exists>t \<in> set (topology_tbl rm). RM_IS_TOPOLOGY_MATCH t (hr_topology (q_hw_res q))))"

lemma populate_result:
  assumes "topology_ok rm q"
  shows "\<exists>r. sde_rm_populate_requirements rm q = Some r \<and> (\<forall>ret. r = Inl ret \<longrightarrow> ret = - EINVAL) \<and>
    (\<forall>reqs. r = Inr reqs \<longrightarrow> rq_topology reqs \<in> set (topology_tbl rm) \<and> hw_res reqs = q_hw_res q \<and>
       (\<not> q_clone_mode q \<longrightarrow> RM_IS_TOPOLOGY_MATCH (rq_topology reqs) (hr_topology (q_hw_res q))) \<and>
       RM_RQ_LOCK reqs = bit (q_top_ctrl q) SDE_RM_TOPCTL_RESERVE_LOCK \<and>
       RM_RQ_CLEAR reqs = bit (q_top_ctrl q) SDE_RM_TOPCTL_RESERVE_CLEAR)"
proof -
  have "0 + SDE_RM_TOPOLOGY_MAX \<le> length (topology_tbl rm) \<or>
      (\<exists>k < length (topology_tbl rm). 0 \<le> k \<and> RM_IS_TOPOLOGY_MATCH (topology_tbl rm ! k) (hr_topology (q_hw_res q)))"
    using assms unfolding topology_ok_def by (auto simp: in_set_conv_nth)
  note res = top_loop_result [OF this]
  obtain r where r: "top_loop (topology_tbl rm) (\<lambda>t. RM_IS_TOPOLOGY_MATCH t (hr_topology (q_hw_res q))) 0 SDE_RM_TOPOLOGY_MAX = Some r"
    "\<forall>t. r = Some t \<longrightarrow> t \<in> set (topology_tbl rm) \<and> RM_IS_TOPOLOGY_MATCH t (hr_topology (q_hw_res q))"
    using res by (elim exE conjE) (rule that)
  have n: "5 < length (topology_tbl rm)" "1 < length (topology_tbl rm)" using assms by (simp_all add: topology_ok_def)
  show ?thesis
    using r n
    by (cases r) (auto simp: sde_rm_populate_requirements_def Let_def bit_set_bit_iff SDE_RM_TOPCTL_RESERVE_LOCK_def
      SDE_RM_TOPCTL_RESERVE_CLEAR_def SDE_RM_TOPCTL_DSPP_def SDE_RM_TOPCTL_DS_def SDE_RM_TOPCTL_CWB_def)
qed

subsection \<open>Operations keep the invariant and other displays\<close>

definition only_for :: "nat \<Rightarrow> sde_rm \<Rightarrow> sde_rm \<Rightarrow> bool" where
  "only_for e rm rm' \<longleftrightarrow> rm_inv rm' \<and> topology_tbl rm' = topology_tbl rm \<and> (\<forall>f t. f \<noteq> e \<longrightarrow> owned rm' f t = owned rm f t)"

lemma only_forI [intro]:
  "rm_inv rm' \<Longrightarrow> topology_tbl rm' = topology_tbl rm \<Longrightarrow> (\<And>f t. f \<noteq> e \<Longrightarrow> owned rm' f t = owned rm f t) \<Longrightarrow> only_for e rm rm'"
  by (simp add: only_for_def)

lemma only_for_refl [simp]: "rm_inv rm \<Longrightarrow> only_for e rm rm"
  by (simp add: only_for_def)

lemma only_for_trans: "only_for e rm rm1 \<Longrightarrow> only_for e rm1 rm2 \<Longrightarrow> only_for e rm rm2"
  by (simp add: only_for_def)

lemma owner_seq [simp]: "owner (rm\<lparr>rsvp_next_seq := n\<rparr>) = owner rm"
  by (rule HOL.ext) (simp add: owner_def split: option.split)

lemma only_for_seq [simp]:
  assumes "rm_inv rm"
  shows "only_for e rm (rm\<lparr>rsvp_next_seq := n\<rparr>)"
  using assms by (auto simp: only_for_def rm_inv_def blk_ok_def tags_def owned_def)

lemma only_for_release: "rm_inv rm \<Longrightarrow> sde_rm_get_rsvp rm e = Some c \<Longrightarrow> only_for e rm (sde_rm_release_rsvp rm (Some c))"
  using release_inv_owned by (intro only_forI) blast+

lemma replace_topology [simp]: "topology_tbl (replace_rsvp a M e n rm) = topology_tbl rm"
  by (simp add: replace_rsvp_def sde_rm_commit_rsvp_def sde_rm_release_rsvp_def with_marks_def add_rsvp_def split: option.split)

lemma only_for_replace:
  "rm_inv rm \<Longrightarrow> a \<notin> tags rm \<Longrightarrow> (\<forall>t i. (t, i) \<in> M \<longrightarrow> free rm e t i) \<Longrightarrow> only_for e rm (replace_rsvp a M e n rm)"
  using replace_inv replace_owned by (intro only_forI) simp_all

subsection \<open>The outcomes of a reservation\<close>

text \<open>
  What is asked of a call: the address of a new tag is not that of an existing one, the table of topologies
  is long enough or has the topology asked for, and if the display shows its splash screen, the arrays of ids
  of the splash screens are as long as the topology of the request.
\<close>

definition reserve_ok :: "sde_rm \<Rightarrow> rm_request \<Rightarrow> bool" where
  "reserve_ok rm q \<longleftrightarrow> (\<forall>a. q_alloc q = Some a \<longrightarrow> a \<notin> tags rm) \<and> topology_ok rm q \<and>
     (sde_rm_is_display_in_cont_splash (q_splash q) (q_enc q) \<longrightarrow>
        (case sde_rm_populate_requirements rm q of Some (Inr reqs) \<Rightarrow> splash_fits (rq_topology reqs) (q_splash q) | _ \<Rightarrow> True))"

text \<open>The manager that a test with the request to clear starts from.\<close>

definition cleared :: "sde_rm \<Rightarrow> rm_request \<Rightarrow> bool \<Rightarrow> sde_rm" where
  "cleared rm q test_only = (if test_only \<and> bit (q_top_ctrl q) SDE_RM_TOPCTL_RESERVE_CLEAR
     then sde_rm_release_rsvp rm (sde_rm_get_rsvp rm (q_enc q)) else rm)"

definition committed :: "sde_rm \<Rightarrow> rm_request \<Rightarrow> bool \<Rightarrow> sde_rm \<Rightarrow> bool" where
  "committed rm q test_only rm' \<longleftrightarrow> (\<exists>a N reqs base. base = cleared rm q test_only \<and> a \<notin> tags base \<and> (\<forall>t i. (t, i) \<in> N \<longrightarrow> free base (q_enc q) t i) \<and>
     sde_rm_populate_requirements rm q = Some (Inr reqs) \<and>
     rm' = replace_rsvp a N (q_enc q) (top_name (rq_topology reqs)) base \<and>
     (\<not> sde_rm_is_display_in_cont_splash (q_splash q) (q_enc q) \<longrightarrow> complete base (q_enc q) (rq_topology reqs) (hw_res reqs) N))"

lemma release_None [simp]: "sde_rm_release_rsvp rm None = rm"
  by (simp add: sde_rm_release_rsvp_def)

lemma cleared_facts:
  assumes inv: "rm_inv rm"
  shows "only_for (q_enc q) rm (cleared rm q t)" "tags (cleared rm q t) \<subseteq> tags rm"
    "sde_rm_get_rsvp (cleared rm q t) (q_enc q) =
       (if t \<and> bit (q_top_ctrl q) SDE_RM_TOPCTL_RESERVE_CLEAR then None else sde_rm_get_rsvp rm (q_enc q))"
proof -
  consider (same) "cleared rm q t = rm" "t \<and> bit (q_top_ctrl q) SDE_RM_TOPCTL_RESERVE_CLEAR \<longrightarrow> sde_rm_get_rsvp rm (q_enc q) = None"
    | (rel) c where "t \<and> bit (q_top_ctrl q) SDE_RM_TOPCTL_RESERVE_CLEAR" "sde_rm_get_rsvp rm (q_enc q) = Some c"
        "cleared rm q t = sde_rm_release_rsvp rm (Some c)"
    by (cases "t \<and> bit (q_top_ctrl q) SDE_RM_TOPCTL_RESERVE_CLEAR"; cases "sde_rm_get_rsvp rm (q_enc q)") (simp_all add: cleared_def)
  note cs = this
  show "only_for (q_enc q) rm (cleared rm q t)"
    using cs by cases (simp_all add: inv only_for_release [OF inv])
  show "tags (cleared rm q t) \<subseteq> tags rm"
    using cs by cases (simp_all add: release_inv_owned(4) [OF inv])
  show "sde_rm_get_rsvp (cleared rm q t) (q_enc q) =
       (if t \<and> bit (q_top_ctrl q) SDE_RM_TOPCTL_RESERVE_CLEAR then None else sde_rm_get_rsvp rm (q_enc q))"
    using cs by cases (auto simp: release_inv_owned(3) [OF inv])
qed

lemma proposal_result:
  assumes inv: "rm_inv base" and a: "a \<notin> tags base"
    and fits: "sde_rm_is_display_in_cont_splash (q_splash q) (q_enc q) \<longrightarrow> splash_fits (rq_topology reqs) (q_splash q)"
  defines "in_splash \<equiv> sde_rm_is_display_in_cont_splash (q_splash q) (q_enc q)"
  shows "\<exists>ret rm'. (if in_splash then sde_rm_make_next_rsvp_for_cont_splash base a (q_enc q) reqs (q_splash q)
      else sde_rm_make_next_rsvp base a (q_enc q) reqs) = Some (ret, rm') \<and>
    ((ret \<noteq> 0 \<and> rm' = base) \<or>
     (\<exists>N. rm' = with_marks a N (add_rsvp a (q_enc q) (top_name (rq_topology reqs)) base) \<and> (\<forall>t i. (t, i) \<in> N \<longrightarrow> free base (q_enc q) t i) \<and>
        (ret = 0 \<longrightarrow> \<not> in_splash \<longrightarrow> complete base (q_enc q) (rq_topology reqs) (hw_res reqs) N)))"
proof (cases in_splash)
  case True
  then have "splash_fits (rq_topology reqs) (q_splash q)" using fits by (simp add: in_splash_def)
  from make_next_splash_result [OF inv_live [OF inv] a this, of "q_enc q"] True show ?thesis by auto
next
  case False
  from make_next_result [OF inv_live [OF inv] a, of "q_enc q" reqs] False show ?thesis by auto
qed

lemma replace_unfold:
  "cur = sde_rm_get_rsvp base e \<Longrightarrow>
   sde_rm_commit_rsvp (sde_rm_release_rsvp (with_marks a N (add_rsvp a e n base)) cur) = (0, replace_rsvp a N e n base)"
  by (simp add: replace_rsvp_def sde_rm_commit_rsvp_def)

text \<open>
  A call returns. It changes nothing, or it withdraws what it proposed (from a manager without the display's
  own reservation if that was to be cleared), or it commits the proposal.
\<close>

definition withdrawn :: "sde_rm \<Rightarrow> rm_request \<Rightarrow> bool \<Rightarrow> sde_rm \<Rightarrow> bool" where
  "withdrawn rm q test_only rm' \<longleftrightarrow> rm' = cleared rm q test_only \<or>
     rm' = (cleared rm q test_only)\<lparr>rsvp_next_seq := rsvp_next_seq (cleared rm q test_only) + 1\<rparr>"

lemma reserve_cases:
  assumes inv: "rm_inv rm" and ok: "reserve_ok rm q"
  shows "\<exists>ret rm'. sde_rm_reserve rm q test_only = Some (ret, rm') \<and>
    (rm' = rm \<and> (ret = 0 \<longrightarrow> \<not> q_needs_modeset q) \<or>
     withdrawn rm q test_only rm' \<and> (ret \<noteq> 0 \<or> test_only \<and> \<not> bit (q_top_ctrl q) SDE_RM_TOPCTL_RESERVE_LOCK) \<or>
     ret = 0 \<and> committed rm q test_only rm' \<and> (test_only \<longrightarrow> bit (q_top_ctrl q) SDE_RM_TOPCTL_RESERVE_LOCK))"
proof -
  define e where "e = q_enc q"
  define in_splash where "in_splash = sde_rm_is_display_in_cont_splash (q_splash q) e"
  obtain r where r: "sde_rm_populate_requirements rm q = Some r" "\<forall>ret. r = Inl ret \<longrightarrow> ret = - EINVAL"
    "\<forall>reqs. r = Inr reqs \<longrightarrow> rq_topology reqs \<in> set (topology_tbl rm) \<and> hw_res reqs = q_hw_res q \<and>
       (\<not> q_clone_mode q \<longrightarrow> RM_IS_TOPOLOGY_MATCH (rq_topology reqs) (hr_topology (q_hw_res q))) \<and>
       RM_RQ_LOCK reqs = bit (q_top_ctrl q) SDE_RM_TOPCTL_RESERVE_LOCK \<and>
       RM_RQ_CLEAR reqs = bit (q_top_ctrl q) SDE_RM_TOPCTL_RESERVE_CLEAR"
    using populate_result ok unfolding reserve_ok_def by blast
  consider (skip) "\<not> in_splash \<and> \<not> q_needs_modeset q"
    | (bad) ret where "in_splash \<or> q_needs_modeset q" "r = Inl ret"
    | (nomem) reqs where "in_splash \<or> q_needs_modeset q" "r = Inr reqs" "q_alloc q = None"
    | (go) reqs a where "in_splash \<or> q_needs_modeset q" "r = Inr reqs" "q_alloc q = Some a"
    by (cases r; cases "q_alloc q") blast+
  then show ?thesis
  proof cases
    case skip
    then show ?thesis by (auto simp: sde_rm_reserve_def Let_def in_splash_def e_def)
  next
    case bad
    then show ?thesis using r(1,2) by (auto simp: sde_rm_reserve_def Let_def in_splash_def e_def)
  next
    case nomem
    then show ?thesis using r(1) by (auto simp: sde_rm_reserve_def Let_def in_splash_def e_def)
  next
    case go
    define base where "base = cleared rm q test_only"
    define cur where "cur = sde_rm_get_rsvp base e"
    have bits: "RM_RQ_LOCK reqs = bit (q_top_ctrl q) SDE_RM_TOPCTL_RESERVE_LOCK"
      "RM_RQ_CLEAR reqs = bit (q_top_ctrl q) SDE_RM_TOPCTL_RESERVE_CLEAR"
      and tp: "rq_topology reqs \<in> set (topology_tbl rm)" using r(3) go(2) by simp_all
    have a: "a \<notin> tags base" using ok go(3) cleared_facts(2) [OF inv, of q test_only] by (auto simp: reserve_ok_def base_def)
    have binv: "rm_inv base" using cleared_facts(1) [OF inv, of q test_only] by (simp add: only_for_def base_def)
    have fits: "sde_rm_is_display_in_cont_splash (q_splash q) (q_enc q) \<longrightarrow> splash_fits (rq_topology reqs) (q_splash q)"
      using ok r(1) go(2) by (auto simp: reserve_ok_def)
    obtain ret rm1 where m: "(if in_splash then sde_rm_make_next_rsvp_for_cont_splash base a e reqs (q_splash q)
        else sde_rm_make_next_rsvp base a e reqs) = Some (ret, rm1)"
      "(ret \<noteq> 0 \<and> rm1 = base) \<or> (\<exists>N. rm1 = with_marks a N (add_rsvp a e (top_name (rq_topology reqs)) base) \<and>
        (\<forall>t i. (t, i) \<in> N \<longrightarrow> free base e t i) \<and> (ret = 0 \<longrightarrow> \<not> in_splash \<longrightarrow> complete base e (rq_topology reqs) (hw_res reqs) N))"
      using proposal_result [OF binv a fits, folded e_def, folded in_splash_def] by (elim exE conjE) (rule that)
    define clear where "clear = (sde_rm_get_rsvp rm e \<noteq> None \<and> test_only \<and> RM_RQ_CLEAR reqs)"
    have b1: "(if clear then sde_rm_release_rsvp rm (sde_rm_get_rsvp rm e) else rm) = base"
      by (auto simp: base_def cleared_def clear_def bits e_def)
    have b2: "(if clear then None else sde_rm_get_rsvp rm e) = cur"
      using cleared_facts(3) [OF inv, of q test_only] by (auto simp: cur_def base_def clear_def bits e_def)
    have run: "sde_rm_reserve rm q test_only =
        (if ret \<noteq> 0 then Some (ret, sde_rm_release_rsvp rm1 (Some a))
         else if test_only \<and> \<not> RM_RQ_LOCK reqs then Some (ret, sde_rm_release_rsvp rm1 (Some a))
         else Some (sde_rm_commit_rsvp (sde_rm_release_rsvp rm1 cur)))"
    proof -
      have go1: "(\<not> in_splash \<and> \<not> q_needs_modeset q) = False" "sde_rm_populate_requirements rm q = Some (Inr reqs)" "q_alloc q = Some a"
        using go r(1) by auto
      show ?thesis
        unfolding sde_rm_reserve_def Let_def e_def [symmetric] in_splash_def [symmetric] go1 if_False bind.bind_lunit sum.case option.case
          clear_def [symmetric] b1 b2 m(1) prod.case by (rule refl)
    qed
    have undo: "withdrawn rm q test_only (sde_rm_release_rsvp rm1 (Some a))"
      using m(2) withdraw [OF binv a] release_fresh [OF binv a] unfolding withdrawn_def base_def [symmetric] by auto
    show ?thesis
    proof (cases "ret \<noteq> 0 \<or> test_only \<and> \<not> RM_RQ_LOCK reqs")
      case True
      then have "sde_rm_reserve rm q test_only = Some (ret, sde_rm_release_rsvp rm1 (Some a))" using run by auto
      with True undo show ?thesis unfolding bits by (intro exI [of _ ret] exI [of _ "sde_rm_release_rsvp rm1 (Some a)"]) simp
    next
      case False
      then obtain N where N: "rm1 = with_marks a N (add_rsvp a e (top_name (rq_topology reqs)) base)" "\<forall>t i. (t, i) \<in> N \<longrightarrow> free base e t i"
        "\<not> in_splash \<longrightarrow> complete base e (rq_topology reqs) (hw_res reqs) N"
        using m(2) by auto
      have "sde_rm_reserve rm q test_only = Some (0, replace_rsvp a N e (top_name (rq_topology reqs)) base)"
        using run False N(1) replace_unfold [OF cur_def] by auto
      moreover have "committed rm q test_only (replace_rsvp a N e (top_name (rq_topology reqs)) base)"
        unfolding committed_def e_def [symmetric] in_splash_def [symmetric] base_def [symmetric]
        using a N r(1) go(2) by blast
      ultimately show ?thesis using False unfolding bits by auto
    qed
  qed
qed

subsection \<open>The other operations\<close>

lemma release_only_for:
  assumes inv: "rm_inv rm"
  shows "only_for e rm (sde_rm_release rm e tc)"
  using inv only_for_release [OF inv]
  by (auto simp: sde_rm_release_def split: option.split)

lemma add_rsvp_inv:
  assumes inv: "rm_inv rm" and a: "a \<notin> tags rm" and e: "sde_rm_get_rsvp rm e = None"
  shows "only_for e rm (add_rsvp a e n rm)"
proof (rule only_forI)
  have "e \<notin> (rv_enc \<circ> snd) ` set (rsvps rm)" using e by (auto simp: get_rsvp_None)
  moreover have "a \<notin> fst ` set (rsvps rm)" using a by (simp add: tags_def)
  ultimately show "rm_inv (add_rsvp a e n rm)"
    using inv by (auto simp: rm_inv_def blk_ok_def) (simp_all add: add_rsvp_def)
  have "owner (add_rsvp a e n rm) b = owner rm b" if "b \<in> set (hw_blks rm t)" for b t
    using not_tag [OF inv that a] by (simp add: add_rsvp_owner)
  then show "owned (add_rsvp a e n rm) f t = owned rm f t" for f t
    unfolding owned_def by (auto intro!: filter_cong)
qed simp

text \<open>A block appended to its list with a tag of the encoder.\<close>

lemma append_blk_only_for:
  assumes inv: "rm_inv rm" and a: "sde_rm_get_rsvp rm e = Some a"
    and b: "rsvp b = Some a" "rsvp_nxt b = None" "blk_type b = t" "t = SDE_HW_BLK_LM \<or> t = SDE_HW_BLK_DSC \<longrightarrow> blk_id b < 32"
  shows "only_for e rm (rm\<lparr>hw_blks := (hw_blks rm)(t := hw_blks rm t @ [b])\<rparr>)"
proof (rule only_forI)
  show "rm_inv (rm\<lparr>hw_blks := (hw_blks rm)(t := hw_blks rm t @ [b])\<rparr>)"
    using inv get_rsvp_tag [OF inv a] b by (auto simp: rm_inv_def blk_ok_def tags_def)
  have same: "owner (rm\<lparr>hw_blks := h\<rparr>) = owner rm" for h
    by (rule HOL.ext) (simp add: owner_def split: option.split)
  have "owner rm b = Some e"
    using a b(1) by (auto simp: owner_def get_rsvp_Some [OF inv])
  then show "owned (rm\<lparr>hw_blks := (hw_blks rm)(t := hw_blks rm t @ [b])\<rparr>) f u = owned rm f u" if "f \<noteq> e" for f u
    using that by (simp add: owned_def same)
qed simp

lemma get_rsvp_add:
  "sde_rm_get_rsvp rm e = None \<Longrightarrow> sde_rm_get_rsvp (add_rsvp a e n rm) e = Some a"
proof -
  assume none: "sde_rm_get_rsvp rm e = None"
  have "List.find (\<lambda>p. rv_enc (snd p) = e) (xs @ [(a, r)]) = (if rv_enc r = e then Some (a, r) else None)"
    if "\<forall>p \<in> set xs. rv_enc (snd p) \<noteq> e" for r and xs :: "(nat \<times> sde_rm_rsvp) list"
    using that by (induction xs) auto
  from this [OF none [unfolded get_rsvp_None]] show ?thesis by (simp add: sde_rm_get_rsvp_def add_rsvp_def)
qed

lemma ext_create_only_for:
  assumes inv: "rm_inv rm" and a: "\<forall>a. alloc = Some a \<longrightarrow> a \<notin> tags rm" and bid: "t = SDE_HW_BLK_LM \<or> t = SDE_HW_BLK_DSC \<longrightarrow> bid < 32"
  shows "only_for e rm (snd (sde_rm_ext_blk_create_reserve rm t bid c e alloc blk_alloc))"
proof (cases "sde_rm_get_rsvp rm e")
  case (Some x)
  then show ?thesis
    using inv bid by (auto simp: sde_rm_ext_blk_create_reserve_def Let_def intro!: append_blk_only_for)
next
  case None
  show ?thesis
  proof (cases alloc)
    case (Some x)
    then have x: "x \<notin> tags rm" using a by simp
    define rm1 where "rm1 = add_rsvp x e SDE_RM_TOPOLOGY_NONE rm"
    have k: "only_for e rm rm1" unfolding rm1_def by (rule add_rsvp_inv [OF inv x None])
    then have inv1: "rm_inv rm1" by (simp add: only_for_def)
    have g: "sde_rm_get_rsvp rm1 e = Some x" unfolding rm1_def by (rule get_rsvp_add [OF None])
    show ?thesis
      using Some None inv bid only_for_trans [OF k append_blk_only_for [OF inv1 g]] k
      by (simp add: sde_rm_ext_blk_create_reserve_def Let_def rm1_def [symmetric])
  qed (use None inv in \<open>simp add: sde_rm_ext_blk_create_reserve_def Let_def\<close>)
qed

text \<open>Destroying is releasing and taking the blocks, now without owner, off the lists.\<close>

lemma ext_destroy_only_for:
  assumes inv: "rm_inv rm"
  shows "only_for e rm (snd (sde_rm_ext_blk_destroy rm e))"
proof (cases "sde_rm_get_rsvp rm e")
  case (Some c)
  define rm' where "rm' = rm\<lparr>hw_blks := (\<lambda>t. filter (\<lambda>b. rsvp b \<noteq> Some c) (hw_blks rm t)), rsvps := filter (\<lambda>p. fst p \<noteq> c) (rsvps rm)\<rparr>"
  have tg: "tags rm' = tags rm - {c}" by (auto simp: rm'_def tags_def)
  have inv': "rm_inv rm'"
    using inv by (auto simp: rm_inv_def blk_ok_def tg) (auto simp: rm'_def distinct_map_filter)
  have m: "map_of (filter (\<lambda>p. fst p \<noteq> c) xs) x = map_of xs x" if "x \<noteq> c" for x and xs :: "(nat \<times> sde_rm_rsvp) list"
    using that by (induction xs) auto
  have "owned rm' f t = owned rm f t" if "f \<noteq> e" for f t
  proof -
    have "rsvp b \<noteq> Some c \<and> owner rm' b = Some f \<longleftrightarrow> owner rm b = Some f" for b
    proof (cases "rsvp b = Some c")
      case True
      then show ?thesis using Some that by (auto simp: owner_def get_rsvp_Some [OF inv])
    next
      case False
      then have "owner rm' b = owner rm b" using m by (cases "rsvp b") (simp_all add: owner_def rm'_def)
      with False show ?thesis by simp
    qed
    then show ?thesis by (simp add: owned_def rm'_def [THEN arg_cong, of hw_blks])
  qed
  then have "only_for e rm rm'" using inv' by (intro only_forI) (simp_all add: rm'_def)
  with Some show ?thesis by (simp add: sde_rm_ext_blk_destroy_def rm'_def)
qed (simp add: sde_rm_ext_blk_destroy_def inv)

subsection \<open>Reachable managers\<close>

datatype rm_op =
    Rm_reserve rm_request bool
  | Rm_release nat "u64 option"
  | Rm_ext_create sde_hw_blk_type nat hw_caps nat "nat option" bool
  | Rm_ext_destroy nat

definition op_enc :: "rm_op \<Rightarrow> nat" where
  "op_enc p = (case p of Rm_reserve q _ \<Rightarrow> q_enc q | Rm_release e _ \<Rightarrow> e | Rm_ext_create _ _ _ e _ _ \<Rightarrow> e | Rm_ext_destroy e \<Rightarrow> e)"

definition rm_step :: "sde_rm \<Rightarrow> rm_op \<Rightarrow> (int \<times> sde_rm) option" where
  "rm_step rm p = (case p of
       Rm_reserve q test_only \<Rightarrow> sde_rm_reserve rm q test_only
     | Rm_release e tc \<Rightarrow> Some (0, sde_rm_release rm e tc)
     | Rm_ext_create t bid c e alloc blk_alloc \<Rightarrow> Some (sde_rm_ext_blk_create_reserve rm t bid c e alloc blk_alloc)
     | Rm_ext_destroy e \<Rightarrow> Some (sde_rm_ext_blk_destroy rm e))"

text \<open>
  What callers see to: new addresses are new, the display has a known topology, and ids that go into a
  mask of 32 bits are small.
\<close>

definition op_ok :: "sde_rm \<Rightarrow> rm_op \<Rightarrow> bool" where
  "op_ok rm p \<longleftrightarrow> (case p of
       Rm_reserve q test_only \<Rightarrow> reserve_ok rm q
     | Rm_release e tc \<Rightarrow> True
     | Rm_ext_create t bid c e alloc blk_alloc \<Rightarrow> (\<forall>a. alloc = Some a \<longrightarrow> a \<notin> tags rm) \<and> (t = SDE_HW_BLK_LM \<or> t = SDE_HW_BLK_DSC \<longrightarrow> bid < 32)
     | Rm_ext_destroy e \<Rightarrow> True)"

definition catalog_ok :: "sde_mdss_cfg \<Rightarrow> bool" where
  "catalog_ok cat \<longleftrightarrow> (\<forall>t \<in> {SDE_HW_BLK_LM, SDE_HW_BLK_DSC}. \<forall>b c. Some (b, c) \<in> set (cat_blks cat t) \<longrightarrow> b < 32)"

inductive rm_reach :: "sde_rm \<Rightarrow> bool" where
  init: "catalog_ok cat \<Longrightarrow> sde_rm_init env None cat = (0, rm) \<Longrightarrow> rm_reach rm"
| step: "rm_reach rm \<Longrightarrow> op_ok rm p \<Longrightarrow> rm_step rm p = Some (ret, rm') \<Longrightarrow> rm_reach rm'"

lemma step_only_for:
  assumes inv: "rm_inv rm" and ok: "op_ok rm p"
  shows "\<exists>ret rm'. rm_step rm p = Some (ret, rm') \<and> only_for (op_enc p) rm rm'"
proof (cases p)
  case (Rm_reserve q test_only)
  then have ok: "reserve_ok rm q" using ok by (simp add: op_ok_def)
  obtain ret rm' where r: "sde_rm_reserve rm q test_only = Some (ret, rm')"
    "rm' = rm \<or> withdrawn rm q test_only rm' \<or> committed rm q test_only rm'"
    using reserve_cases [OF inv ok, of test_only] by (elim exE conjE) (rule that, auto)
  note base = cleared_facts(1) [OF inv, of q test_only]
  then have binv: "rm_inv (cleared rm q test_only)" by (simp add: only_for_def)
  have "only_for (q_enc q) rm rm'"
    using r(2) inv base only_for_trans [OF base only_for_seq [OF binv]] only_for_trans [OF base only_for_replace [OF binv]]
    unfolding withdrawn_def committed_def by (elim disjE exE conjE) simp_all
  with r(1) Rm_reserve show ?thesis by (simp add: rm_step_def op_enc_def)
next
  case (Rm_release e tc)
  then show ?thesis using release_only_for [OF inv] by (simp add: rm_step_def op_enc_def)
next
  case (Rm_ext_create t bid c e alloc blk_alloc)
  then show ?thesis using ext_create_only_for [OF inv, of alloc t bid e c blk_alloc] ok
    by (cases "sde_rm_ext_blk_create_reserve rm t bid c e alloc blk_alloc") (simp add: rm_step_def op_enc_def op_ok_def)
next
  case (Rm_ext_destroy e)
  then show ?thesis using ext_destroy_only_for [OF inv, of e]
    by (cases "sde_rm_ext_blk_destroy rm e") (simp add: rm_step_def op_enc_def)
qed

text \<open>Blocks made from the catalog have no tag and an id of the catalog.\<close>

definition fresh_blks :: "sde_rm \<Rightarrow> bool" where
  "fresh_blks rm \<longleftrightarrow> rsvps rm = [] \<and> (\<forall>t. \<forall>b \<in> set (hw_blks rm t). rsvp b = None \<and> blk_ok rm t b)"

lemma create_loop_fresh:
  assumes "fresh_blks (snd s)" "\<forall>b c. t = SDE_HW_BLK_LM \<or> t = SDE_HW_BLK_DSC \<longrightarrow> Some (b, c) \<in> set cs \<longrightarrow> b < 32"
  shows "fresh_blks (snd (snd (create_loop env t cs s)))"
  using assms
proof (induction cs arbitrary: s)
  case Nil
  then show ?case by (cases s) simp
next
  case (Cons x cs)
  obtain rc rm where s: "s = (rc, rm)" by (cases s)
  have IH: "fresh_blks (snd (snd (create_loop env t cs s)))" if "fresh_blks (snd s)" for s
    by (rule Cons.IH [OF that]) (use Cons.prems(2) in auto)
  show ?case
  proof (cases x)
    case None
    then show ?thesis using IH [of s] Cons.prems(1) by (simp add: s)
  next
    case (Some p)
    obtain bid c where p: "p = (bid, c)" by (cases p)
    obtain rc1 rm1 where c1: "sde_rm_hw_blk_create env rm t bid c = (rc1, rm1)" by (cases "sde_rm_hw_blk_create env rm t bid c")
    have f: "fresh_blks rm" using Cons.prems(1) by (simp add: s)
    have "t = SDE_HW_BLK_LM \<or> t = SDE_HW_BLK_DSC \<longrightarrow> bid < 32" using Cons.prems(2) by (auto simp: Some p)
    then have f1: "fresh_blks rm1"
      using f c1 by (auto simp: sde_rm_hw_blk_create_def fresh_blks_def blk_ok_def split: create_result.splits if_splits)
    then have "fresh_blks (rm1\<lparr>lm_max_width := w\<rparr>)" for w
      by (simp add: fresh_blks_def blk_ok_def tags_def)
    then show ?thesis
      using f f1 IH c1 by (cases "t = SDE_HW_BLK_LM") (simp_all add: s Some p Let_def)
  qed
qed

lemma create_types_fresh:
  "fresh_blks (snd s) \<Longrightarrow> catalog_ok cat \<Longrightarrow> fresh_blks (snd (snd (create_types env cat ts s)))"
proof (induction env cat ts s rule: create_types.induct)
  case (2 env cat t ts s)
  define cs where "cs = (if t = SDE_HW_BLK_DS \<and> \<not> cat_has_dest_scaler cat then [] else cat_blks cat t)"
  have "fresh_blks (snd (snd (create_loop env t cs s)))"
    using 2(2,3) by (intro create_loop_fresh) (auto simp: cs_def catalog_ok_def)
  then show ?case using 2 by (auto simp: Let_def cs_def [symmetric] split: prod.split)
qed simp

lemma init_inv:
  assumes "catalog_ok cat" "sde_rm_init env None cat = (0, rm)"
  shows "rm_inv rm"
proof -
  have e: "fresh_blks (empty_rm cat\<lparr>hw_mdp := True\<rparr>)" "fresh_blks (sde_rm_destroy rm)" for rm
    by (simp_all add: fresh_blks_def empty_rm_def sde_rm_destroy_def)
  define ts where "ts = [SDE_HW_BLK_LM, SDE_HW_BLK_DSPP, SDE_HW_BLK_DS, SDE_HW_BLK_PINGPONG, SDE_HW_BLK_DSC,
    SDE_HW_BLK_ROI_MISR, SDE_HW_BLK_INTF, SDE_HW_BLK_WB, SDE_HW_BLK_ROT, SDE_HW_BLK_CTL, SDE_HW_BLK_CDM, SDE_HW_BLK_QDSS]"
  obtain ok rc rm1 where c: "create_types env cat ts (0, empty_rm cat\<lparr>hw_mdp := True\<rparr>) = (ok, rc, rm1)"
    by (rule prod_cases3)
  have "fresh_blks rm1" using create_types_fresh [of "(0, empty_rm cat\<lparr>hw_mdp := True\<rparr>)" cat env ts] assms(1) e(1) c by simp
  moreover have "rm = (if ok then rm1 else sde_rm_destroy rm1)"
    using assms(2) unfolding sde_rm_init_def Let_def option.case c [unfolded ts_def] prod.case by (auto split: if_splits)
  ultimately have "fresh_blks rm" using e(2) by simp
  then show ?thesis by (auto simp: fresh_blks_def rm_inv_def)
qed

lemma reach_inv: "rm_reach rm \<Longrightarrow> rm_inv rm"
proof (induction rule: rm_reach.induct)
  case init
  then show ?case by (rule init_inv)
next
  case (step rm p ret rm')
  then show ?case using step_only_for [of rm p] by (auto simp: only_for_def)
qed

subsection \<open>Sequences of operations\<close>

text \<open>
  A pool whose operations each act for one client and leave what the other clients hold alone: \<open>ok\<close> is
  what a caller sees to, \<open>view\<close> what a client holds. What one operation keeps, a sequence keeps.
\<close>

locale isolated_pool =
  fixes inv :: "'s \<Rightarrow> bool" and ok :: "'s \<Rightarrow> 'p \<Rightarrow> bool" and step :: "'s \<Rightarrow> 'p \<Rightarrow> (int \<times> 's) option"
    and actor :: "'p \<Rightarrow> 'a" and view :: "'s \<Rightarrow> 'a \<Rightarrow> 'v"
  assumes step_isolated: "inv s \<Longrightarrow> ok s p \<Longrightarrow>
    \<exists>ret s'. step s p = Some (ret, s') \<and> inv s' \<and> (\<forall>f. f \<noteq> actor p \<longrightarrow> view s' f = view s f)"
begin

lemma run_isolated:
  assumes "inv s" "steps_ok ok step s ps"
  shows "\<exists>s'. run_steps step s ps = Some s' \<and> inv s' \<and> (\<forall>f. f \<notin> actor ` set ps \<longrightarrow> view s' f = view s f)"
  using assms
proof (induction ps arbitrary: s)
  case (Cons p ps)
  then obtain ret s1 where s1: "step s p = Some (ret, s1)" "inv s1" "\<forall>f. f \<noteq> actor p \<longrightarrow> view s1 f = view s f"
    using step_isolated [of s p] by auto
  then show ?case using Cons.IH [OF s1(2)] Cons.prems(2) by auto
qed simp

end

interpretation displays: isolated_pool rm_inv op_ok rm_step op_enc owned
proof
  fix rm p
  assume "rm_inv rm" "op_ok rm p"
  from step_only_for [OF this] show "\<exists>ret rm'. rm_step rm p = Some (ret, rm') \<and> rm_inv rm' \<and> (\<forall>f. f \<noteq> op_enc p \<longrightarrow> owned rm' f = owned rm f)"
    by (auto simp: only_for_def fun_eq_iff)
qed

end
