(* ===== verification/Sde_Rm_Props.thy ===== *)
theory Sde_Rm_Props
  imports Sde_Rm_Step
begin

section \<open>Resource manager: properties\<close>

text \<open>
  The blocks of a display after a committed reservation, and the properties of the manager with a
  concrete device at the end as their witness.
\<close>

subsection \<open>Blocks after a reservation\<close>

lemma replace_owned_mem:
  assumes inv: "rm_inv rm" and a: "a \<notin> tags rm" and M: "\<forall>t i. (t, i) \<in> M \<longrightarrow> free rm e t i" and i: "(t, i) \<in> M"
  shows "\<exists>b \<in> set (owned (replace_rsvp a M e n rm) e t). blk_id b = blk_id (blk rm t i) \<and> caps b = caps (blk rm t i)"
proof -
  have l: "i < length (hw_blks rm t)" using M i by (simp add: free_def)
  have "blk (replace_rsvp a M e n rm) t i \<in> set (owned (replace_rsvp a M e n rm) e t)"
    using i l replace_owner [OF inv a l, of M e n] blk_in [of i "replace_rsvp a M e n rm" t] by (simp add: owned_def)
  then show ?thesis
    using replace_blk [OF inv a l, of M e n] i by (intro bexI) (auto simp: replaced_def)
qed

lemma replace_owned_from:
  assumes inv: "rm_inv rm" and a: "a \<notin> tags rm" and b: "b \<in> set (owned (replace_rsvp a M e n rm) e t)"
  shows "\<exists>i. (t, i) \<in> M \<and> caps b = caps (blk rm t i) \<and> blk_id b = blk_id (blk rm t i)"
proof -
  obtain i where i: "i < length (hw_blks rm t)" "b = blk (replace_rsvp a M e n rm) t i"
    "owner (replace_rsvp a M e n rm) (blk (replace_rsvp a M e n rm) t i) = Some e"
    using b by (auto simp: owned_def in_set_conv_nth blk_def)
  then have "(t, i) \<in> M" using replace_owner [OF inv a i(1), of M e n] by (auto split: if_splits)
  then show ?thesis using i replace_blk [OF inv a i(1), of M e n] by (auto simp: replaced_def)
qed

lemma replace_owned_length:
  assumes inv: "rm_inv rm" and a: "a \<notin> tags rm" and M: "\<forall>t i. (t, i) \<in> M \<longrightarrow> free rm e t i"
  shows "length (owned (replace_rsvp a M e n rm) e t) = card {i. (t, i) \<in> M}"
proof -
  have "{i. i < length (hw_blks rm t) \<and> owner (replace_rsvp a M e n rm) (blk (replace_rsvp a M e n rm) t i) = Some e} = {i. (t, i) \<in> M}"
    using replace_owner [OF inv a, of _ t M e n] M by (auto simp: free_def split: if_splits)
  then show ?thesis by (simp add: owned_def length_filter_conv_card blk_def)
qed

text \<open>What a display has: a block for an id, and the blocks its topology and interfaces ask for.\<close>

definition has_blk :: "sde_rm \<Rightarrow> nat \<Rightarrow> sde_hw_blk_type \<Rightarrow> nat \<Rightarrow> bool" where
  "has_blk rm e t n \<longleftrightarrow> (\<exists>b \<in> set (owned rm e t). blk_id b = n)"

definition opt_has_blk :: "sde_rm \<Rightarrow> nat \<Rightarrow> sde_hw_blk_type \<Rightarrow> nat option \<Rightarrow> bool" where
  "opt_has_blk rm e t n = (case n of None \<Rightarrow> True | Some n \<Rightarrow> has_blk rm e t n)"

definition display_complete :: "sde_rm \<Rightarrow> nat \<Rightarrow> sde_rm_topology_def \<Rightarrow> sde_encoder_hw_resources \<Rightarrow> bool" where
  "display_complete rm e tp res \<longleftrightarrow>
     length (owned rm e SDE_HW_BLK_LM) = num_lm tp \<and>
     (\<forall>b \<in> set (owned rm e SDE_HW_BLK_LM). lm_pingpong (caps b) \<noteq> None \<and>
        opt_has_blk rm e SDE_HW_BLK_PINGPONG (lm_pingpong (caps b)) \<and> opt_has_blk rm e SDE_HW_BLK_DSPP (lm_dspp (caps b)) \<and>
        opt_has_blk rm e SDE_HW_BLK_DS (lm_ds (caps b)) \<and>
        (\<not> sde_rm_is_3dmux_case (top_name tp) \<longrightarrow> opt_has_blk rm e SDE_HW_BLK_ROI_MISR (lm_roi_misr (caps b))) \<and>
        (num_comp_enc tp \<noteq> 0 \<and> has_roi_misr rm \<longrightarrow> lm_roi_misr (caps b) \<noteq> None \<and> opt_has_blk rm e SDE_HW_BLK_DSC (lm_roi_misr (caps b)))) \<and>
     (\<forall>k < length (hr_intfs res). hr_intfs res ! k \<noteq> 0 \<longrightarrow> has_blk rm e SDE_HW_BLK_INTF (INTF_0 + k)) \<and>
     (\<forall>k < length (hr_wbs res). hr_wbs res ! k \<noteq> 0 \<longrightarrow> has_blk rm e SDE_HW_BLK_WB (WB_0 + k)) \<and>
     (num_comp_enc tp \<noteq> 0 \<and> \<not> has_roi_misr rm \<longrightarrow> length (owned rm e SDE_HW_BLK_DSC) = num_comp_enc tp)"

lemma opt_has_picked:
  assumes inv: "rm_inv rm" and a: "a \<notin> tags rm" and M: "\<forall>t i. (t, i) \<in> M \<longrightarrow> free rm e t i"
    and p: "picked rm e t n j" and sub: "opt_pos t j \<subseteq> M"
  shows "opt_has_blk (replace_rsvp a M e x rm) e t n"
proof (cases n)
  case (Some m)
  then obtain k where "j = Some k" "blk_id (blk rm t k) = m" using p by (auto simp: picked_def)
  then show ?thesis
    using Some sub replace_owned_mem [OF inv a M, of t k x] by (auto simp: opt_has_blk_def has_blk_def)
qed (simp add: opt_has_blk_def)

lemma complete_display:
  assumes inv: "rm_inv rm" and a: "a \<notin> tags rm" and M: "\<forall>t i. (t, i) \<in> M \<longrightarrow> free rm e t i"
    and c: "complete rm e tp res M"
  shows "display_complete (replace_rsvp a M e n rm) e tp res"
proof -
  define rm' where "rm' = replace_rsvp a M e n rm"
  obtain sel where sel: "\<forall>(i, c) \<in> set sel. wired rm e tp i c" "distinct (map fst sel)" "length sel = num_lm tp"
    "{i. (SDE_HW_BLK_LM, i) \<in> M} = fst ` set sel" "\<Union> (lm_marks ` set sel) \<subseteq> M"
    using c unfolding complete_def by (elim exE conjE) (rule that)
  have "card (fst ` set sel) = num_lm tp"
    using sel(2,3) distinct_card [of "map fst sel"] by simp
  then have lm: "length (owned rm' e SDE_HW_BLK_LM) = num_lm tp"
    unfolding rm'_def replace_owned_length [OF inv a M] sel(4) .
  have w: "lm_pingpong (caps b) \<noteq> None \<and> opt_has_blk rm' e SDE_HW_BLK_PINGPONG (lm_pingpong (caps b)) \<and>
      opt_has_blk rm' e SDE_HW_BLK_DSPP (lm_dspp (caps b)) \<and> opt_has_blk rm' e SDE_HW_BLK_DS (lm_ds (caps b)) \<and>
      (\<not> sde_rm_is_3dmux_case (top_name tp) \<longrightarrow> opt_has_blk rm' e SDE_HW_BLK_ROI_MISR (lm_roi_misr (caps b))) \<and>
      (num_comp_enc tp \<noteq> 0 \<and> has_roi_misr rm \<longrightarrow> lm_roi_misr (caps b) \<noteq> None \<and> opt_has_blk rm' e SDE_HW_BLK_DSC (lm_roi_misr (caps b)))"
    if mem: "b \<in> set (owned rm' e SDE_HW_BLK_LM)" for b
  proof -
    obtain i where i: "(SDE_HW_BLK_LM, i) \<in> M" "caps b = caps (blk rm SDE_HW_BLK_LM i)"
      using replace_owned_from [OF inv a mem [unfolded rm'_def]] by blast
    then obtain c where s: "(i, c) \<in> set sel" using sel(4) by force
    then have wi: "wired rm e tp i c" using sel(1) by auto
    have "lm_marks (i, c) \<subseteq> M" using sel(5) s by blast
    then have "opt_pos SDE_HW_BLK_PINGPONG (Some (c_pp c)) \<subseteq> M" "opt_pos SDE_HW_BLK_DSPP (c_dspp c) \<subseteq> M" "opt_pos SDE_HW_BLK_DS (c_ds c) \<subseteq> M"
      "opt_pos SDE_HW_BLK_ROI_MISR (c_roi_misr c) \<subseteq> M" "opt_pos SDE_HW_BLK_DSC (c_dsc c) \<subseteq> M"
      by (auto simp: lm_marks_def)
    note sub = this [THEN opt_has_picked [OF inv a M, rotated], of _ n]
    define k where "k = caps (blk rm SDE_HW_BLK_LM i)"
    note wi = wi [unfolded wired_def Let_def, folded k_def]
    have "\<not> sde_rm_is_3dmux_case (top_name tp) \<longrightarrow> opt_has_blk rm' e SDE_HW_BLK_ROI_MISR (lm_roi_misr k)"
      using wi sub(4) unfolding rm'_def by blast
    moreover have "num_comp_enc tp \<noteq> 0 \<and> has_roi_misr rm \<longrightarrow> lm_roi_misr k \<noteq> None \<and> opt_has_blk rm' e SDE_HW_BLK_DSC (lm_roi_misr k)"
      using wi sub(5) unfolding rm'_def by (metis (no_types, lifting))
    moreover have "lm_pingpong k \<noteq> None \<and> opt_has_blk rm' e SDE_HW_BLK_PINGPONG (lm_pingpong k) \<and>
        opt_has_blk rm' e SDE_HW_BLK_DSPP (lm_dspp k) \<and> opt_has_blk rm' e SDE_HW_BLK_DS (lm_ds k)"
      using wi sub(1-3) unfolding rm'_def by blast
    ultimately show ?thesis unfolding i(2) k_def [symmetric] by blast
  qed
  have ids: "\<forall>k < length ms. ms ! k \<noteq> 0 \<longrightarrow> has_blk rm' e t (b0 + k)" if "has_ids rm t b0 ms M" for t b0 ms
    using that replace_owned_mem [OF inv a M] unfolding has_ids_def has_blk_def rm'_def by metis
  have roi: "has_roi_misr rm' = has_roi_misr rm"
    by (simp add: rm'_def replace_rsvp_def sde_rm_commit_rsvp_def sde_rm_release_rsvp_def with_marks_def add_rsvp_def split: option.split)
  have d: "num_comp_enc tp \<noteq> 0 \<and> \<not> has_roi_misr rm \<longrightarrow> length (owned rm' e SDE_HW_BLK_DSC) = num_comp_enc tp"
    using c unfolding complete_def rm'_def replace_owned_length [OF inv a M] by blast
  have h: "has_ids rm SDE_HW_BLK_INTF INTF_0 (hr_intfs res) M" "has_ids rm SDE_HW_BLK_WB WB_0 (hr_wbs res) M"
    using c by (simp_all add: complete_def)
  show ?thesis
    unfolding rm'_def [symmetric] display_complete_def roi
    by (intro conjI ballI lm w d ids [OF h(1)] ids [OF h(2)])
qed

lemma reserve_committed:
  assumes r: "rm_reach rm" and ok: "reserve_ok rm q" and m: "q_needs_modeset q"
    and c: "test_only \<longrightarrow> bit (q_top_ctrl q) SDE_RM_TOPCTL_RESERVE_LOCK"
    and run: "sde_rm_reserve rm q test_only = Some (0, rm')"
  shows "committed rm q test_only rm'"
  using reserve_cases [OF reach_inv [OF r] ok, of test_only] m c run by auto

subsection \<open>A device with two displays and one control path\<close>

definition ex_caps :: hw_caps where
  "ex_caps = \<lparr>lm_primary_pref = False, lm_cwb_pref = False, lm_dspp = None, lm_ds = None, lm_pingpong = None, lm_roi_misr = None,
     lm_pair_mask = 0, lm_maxwidth = 2560, pp_split = False, pp_slave = False, ctl_split_display = False, ctl_pingpong_split = False,
     ctl_primary_pref = False, dsc_pair_mask = 0, cdm_intf_connect = 0, cdm_wb_connect = 0\<rparr>"

definition ex_cat :: sde_mdss_cfg where
  "ex_cat = \<lparr>ctl_rev_100 = True, cat_blks = (\<lambda>t.
       if t = SDE_HW_BLK_LM then [Some (1, ex_caps\<lparr>lm_pingpong := Some 1\<rparr>), Some (2, ex_caps\<lparr>lm_pingpong := Some 2\<rparr>)]
       else if t = SDE_HW_BLK_PINGPONG then [Some (1, ex_caps), Some (2, ex_caps)]
       else if t = SDE_HW_BLK_INTF then [Some (INTF_0, ex_caps), Some (INTF_0 + 1, ex_caps)]
       else if t = SDE_HW_BLK_CTL then [Some (1, ex_caps)]
       else []),
     cat_has_roi_misr = False, cat_has_dest_scaler = False\<rparr>"

text \<open>A request of a display for one mixer and one interface.\<close>

definition ex_req :: "nat \<Rightarrow> nat \<Rightarrow> nat list \<Rightarrow> u64 \<Rightarrow> rm_request" where
  "ex_req e a intfs tc = \<lparr>q_enc = e, q_needs_modeset = True, q_splash = [], q_top_ctrl = tc,
     q_hw_res = \<lparr>hr_intfs = intfs, hr_wbs = [], hr_needs_cdm = False, hr_is_primary = False,
       hr_topology = \<lparr>mt_num_lm = 1, mt_num_enc = 0, mt_num_intf = 1\<rparr>\<rparr>,
     q_dsi_connector = False, q_primary_display = False, q_clone_mode = False, q_num_datapath = 0, q_alloc = Some a\<rparr>"

definition ex_rm0 :: sde_rm where "ex_rm0 = snd (sde_rm_init (\<lambda>t b. Created) None ex_cat)"
definition ex_rm1 :: sde_rm where "ex_rm1 = snd (the (sde_rm_reserve ex_rm0 (ex_req 1 100 [1, 0] 0) False))"
definition ex_rm2 :: sde_rm where "ex_rm2 = snd (the (sde_rm_reserve ex_rm1 (ex_req 2 200 [0, 1] 0) False))"

lemma ex_init: "sde_rm_init (\<lambda>t b. Created) None ex_cat = (0, ex_rm0)"
proof -
  have "fst (sde_rm_init (\<lambda>t b. Created) None ex_cat) = 0" by code_simp
  then show ?thesis by (simp add: ex_rm0_def prod_eq_iff)
qed

lemma ex_step1: "sde_rm_reserve ex_rm0 (ex_req 1 100 [1, 0] 0) False = Some (0, ex_rm1)"
proof -
  have "map_option fst (sde_rm_reserve ex_rm0 (ex_req 1 100 [1, 0] 0) False) = Some 0" by code_simp
  then show ?thesis by (auto simp: ex_rm1_def)
qed

lemma ex_step2: "sde_rm_reserve ex_rm1 (ex_req 2 200 [0, 1] 0) False = Some (0, ex_rm2)"
proof -
  have "map_option fst (sde_rm_reserve ex_rm1 (ex_req 2 200 [0, 1] 0) False) = Some 0" by code_simp
  then show ?thesis by (auto simp: ex_rm2_def)
qed

lemma ex_request_ok:
  assumes "a \<notin> tags rm" "topology_tbl rm = g_ctl_ver_1_top_table"
  shows "reserve_ok rm (ex_req e a i tc)"
  using assms by (simp add: reserve_ok_def ex_req_def topology_ok_def sde_rm_is_display_in_cont_splash_def g_ctl_ver_1_top_table_def SDE_RM_TOPOLOGY_MAX_def)

lemma ex_ok1: "reserve_ok ex_rm0 (ex_req 1 100 [1, 0] tc)"
proof (rule ex_request_ok)
  show "100 \<notin> tags ex_rm0" by code_simp
  show "topology_tbl ex_rm0 = g_ctl_ver_1_top_table" by code_simp
qed

lemma ex_ok2: "reserve_ok ex_rm1 (ex_req 2 200 [0, 1] tc)"
proof (rule ex_request_ok)
  show "200 \<notin> tags ex_rm1" by code_simp
  show "topology_tbl ex_rm1 = g_ctl_ver_1_top_table" by code_simp
qed

lemma ex_reach: "rm_reach ex_rm0" "rm_reach ex_rm1"
proof -
  have "catalog_ok ex_cat" by (auto simp: catalog_ok_def ex_cat_def)
  then show r: "rm_reach ex_rm0" using ex_init by (rule rm_reach.init)
  have "op_ok ex_rm0 (Rm_reserve (ex_req 1 100 [1, 0] 0) False)" unfolding op_ok_def rm_op.case by (rule ex_ok1)
  then show "rm_reach ex_rm1" by (rule rm_reach.step [OF r]) (unfold rm_step_def rm_op.case, rule ex_step1)
qed

subsection \<open>Properties\<close>

text \<open>
  C39. Displays are isolated. From every state that the manager reaches from a successful initialisation, take
  any sequence of reservations, releases, external blocks and their destructions in which the tags that are
  allocated are new, a topology that is asked for is in the table unless the table has an entry for every
  number (the search runs over the end of the short table otherwise), the id arrays of the splash screens are as
  long as the topology of a display that shows one, and the ids of external mixers and compression encoders are
  below 32. Every call returns a value; afterwards every tag on a block is that of a live reservation, no
  proposal is left on a block, no two reservations are for the same encoder, and the blocks of every encoder
  that none of the calls was for are the same as before, with the same contents and in the same order.
\<close>

theorem displays_are_isolated:
  assumes "rm_reach rm" "steps_ok op_ok rm_step rm ps"
  shows "\<exists>rm'. run_steps rm_step rm ps = Some rm' \<and> distinct (map (rv_enc \<circ> snd) (rsvps rm')) \<and>
    (\<forall>t. \<forall>b \<in> set (hw_blks rm' t). rsvp_nxt b = None \<and> (rsvp b = None \<or> owner rm' b \<noteq> None)) \<and>
    (\<forall>f. f \<in> op_enc ` set ps \<or> owned rm' f = owned rm f)"
proof -
  obtain rm' where s: "run_steps rm_step rm ps = Some rm'" "rm_inv rm'" "\<forall>f. f \<notin> op_enc ` set ps \<longrightarrow> owned rm' f = owned rm f"
    using displays.run_isolated [OF reach_inv [OF assms(1)] assms(2)] by blast
  have "rsvp_nxt b = None \<and> (rsvp b = None \<or> owner rm' b \<noteq> None)" if b: "b \<in> set (hw_blks rm' t)" for t b
    using owner_None [OF s(2) b] s(2) b by (auto simp: rm_inv_def blk_ok_def)
  then show ?thesis using s by (auto simp: rm_inv_def)
qed

definition ex_ops :: "rm_op list" where
  "ex_ops = [Rm_reserve (ex_req 1 100 [1, 0] 0) False, Rm_reserve (ex_req 2 200 [0, 1] 0) False]"

lemma displays_are_isolated_witness:
  "\<exists>rm'. run_steps rm_step ex_rm0 ex_ops = Some rm' \<and> distinct (map (rv_enc \<circ> snd) (rsvps rm')) \<and>
    (\<forall>t. \<forall>b \<in> set (hw_blks rm' t). rsvp_nxt b = None \<and> (rsvp b = None \<or> owner rm' b \<noteq> None)) \<and>
    (\<forall>f. f \<in> op_enc ` set ex_ops \<or> owned rm' f = owned ex_rm0 f)"
proof -
  have s: "rm_step ex_rm0 (Rm_reserve (ex_req 1 100 [1, 0] 0) False) = Some (0, ex_rm1)"
    unfolding rm_step_def rm_op.case by (rule ex_step1)
  have ok: "op_ok ex_rm0 (Rm_reserve (ex_req 1 100 [1, 0] 0) False)" "op_ok ex_rm1 (Rm_reserve (ex_req 2 200 [0, 1] 0) False)"
    unfolding op_ok_def rm_op.case by (rule ex_ok1, rule ex_ok2)
  have "steps_ok op_ok rm_step ex_rm0 ex_ops"
    unfolding ex_ops_def steps_ok.simps s option.case prod.case using ok by (auto split: option.split)
  then show ?thesis by (rule displays_are_isolated [OF ex_reach(1)])
qed

text \<open>
  C40. A reservation is a transaction. When a call (under the conditions of C39) fails, or is only a test and does
  not ask to lock the reservation, the manager is as it was but for the counter that numbers reservations; if it
  is a test that asks to clear, it may instead be as it was with the display's own reservation released. No tag
  and no proposal of the call stays. A test that asks to lock is committed, as the code does, and is not covered.
\<close>

theorem reserve_is_a_transaction:
  assumes "rm_reach rm" "reserve_ok rm q" "sde_rm_reserve rm q test_only = Some (ret, rm')"
    and "ret \<noteq> 0 \<or> test_only \<and> \<not> bit (q_top_ctrl q) SDE_RM_TOPCTL_RESERVE_LOCK"
  shows "rm' \<in> {rm, rm\<lparr>rsvp_next_seq := rsvp_next_seq rm + 1\<rparr>} \<or>
    test_only \<and> bit (q_top_ctrl q) SDE_RM_TOPCTL_RESERVE_CLEAR \<and>
      rm' \<in> {sde_rm_release_rsvp rm (sde_rm_get_rsvp rm (q_enc q)),
        (sde_rm_release_rsvp rm (sde_rm_get_rsvp rm (q_enc q)))\<lparr>rsvp_next_seq := rsvp_next_seq rm + 1\<rparr>}"
proof -
  have "rm' = rm \<or> withdrawn rm q test_only rm'"
    using reserve_cases [OF reach_inv [OF assms(1)] assms(2), of test_only] assms(3,4) by auto
  moreover have "rsvp_next_seq (sde_rm_release_rsvp rm c) = rsvp_next_seq rm" for c
    by (simp add: sde_rm_release_rsvp_def split: option.split)
  ultimately show ?thesis unfolding withdrawn_def cleared_def by (auto split: if_splits)
qed

definition ex_test :: sde_rm where "ex_test = snd (the (sde_rm_reserve ex_rm0 (ex_req 1 100 [1, 0] 0) True))"

lemma reserve_is_a_transaction_witness:
  "ex_test \<in> {ex_rm0, ex_rm0\<lparr>rsvp_next_seq := rsvp_next_seq ex_rm0 + 1\<rparr>} \<or>
    True \<and> bit (q_top_ctrl (ex_req 1 100 [1, 0] 0)) SDE_RM_TOPCTL_RESERVE_CLEAR \<and>
      ex_test \<in> {sde_rm_release_rsvp ex_rm0 (sde_rm_get_rsvp ex_rm0 (q_enc (ex_req 1 100 [1, 0] 0))),
        (sde_rm_release_rsvp ex_rm0 (sde_rm_get_rsvp ex_rm0 (q_enc (ex_req 1 100 [1, 0] 0))))\<lparr>rsvp_next_seq := rsvp_next_seq ex_rm0 + 1\<rparr>}"
proof -
  have "map_option fst (sde_rm_reserve ex_rm0 (ex_req 1 100 [1, 0] 0) True) = Some 0" by code_simp
  then have run: "sde_rm_reserve ex_rm0 (ex_req 1 100 [1, 0] 0) True = Some (0, ex_test)" by (auto simp: ex_test_def)
  show ?thesis
    by (rule reserve_is_a_transaction [OF ex_reach(1) ex_ok1 run]) (simp add: ex_req_def)
qed



text \<open>
  C4. A display is reserved without a control path. If the search for the control paths of a display (that does
  not show its splash screen) fails, but the searches for its mixers and for what comes after the control paths
  succeed, then the reservation is committed and returns success: the display has its mixers and no control
  path, although its topology needs one. The result of the search for control paths is dropped.
\<close>

theorem reserve_succeeds_without_control_path:
  assumes r: "rm_reach rm" and ok: "reserve_ok rm q" "q_needs_modeset q" "\<not> sde_rm_is_display_in_cont_splash (q_splash q) (q_enc q)"
    and q: "sde_rm_populate_requirements rm q = Some (Inr reqs)" "q_alloc q = Some a"
    and lms: "sde_rm_reserve_lms (add_rsvp a (q_enc q) (top_name (rq_topology reqs)) rm) a (q_enc q) reqs None = Some (0, rm1)"
    and ctls: "sde_rm_reserve_ctls rm1 a (q_enc q) reqs (rq_topology reqs) None = Some (ret, rm2)" "ret \<noteq> 0"
    and rest: "reserve_rest rm2 a (q_enc q) reqs None = Some (0, rm3)"
  shows "\<exists>rm'. sde_rm_reserve rm q False = Some (0, rm') \<and> num_ctl (rq_topology reqs) \<noteq> 0 \<and>
    length (owned rm' (q_enc q) SDE_HW_BLK_LM) = num_lm (rq_topology reqs) \<and> owned rm' (q_enc q) SDE_HW_BLK_CTL = []"
proof -
  define e where "e = q_enc q"
  define rm0 where "rm0 = add_rsvp a e (top_name (rq_topology reqs)) rm"
  have inv: "rm_inv rm" by (rule reach_inv [OF r])
  have a: "a \<notin> tags rm" using ok(1) q(2) by (simp add: reserve_ok_def)
  have ids: "ids_ok None k" for k by (simp add: ids_ok_def)
  have l: "live rm0" using inv_live [OF inv] by (simp add: rm0_def)
  obtain K where K: "rm1 = with_marks a K rm0" "grows rm0 e lm_types {} K"
    using reserve_lms_result [OF l ids, where M = "{}" and a = a and e = e and reqs = reqs] lms
    unfolding with_marks_empty rm0_def e_def by auto
  have same: "rm2 = rm1" and n: "num_ctl (rq_topology reqs) \<noteq> 0"
    using ctls by (auto simp: sde_rm_reserve_ctls_def Let_def split: if_splits bind_splits)
  obtain N where N: "rm3 = with_marks a N rm0" "grows rm0 e {SDE_HW_BLK_INTF, SDE_HW_BLK_WB, SDE_HW_BLK_CDM, SDE_HW_BLK_DSC, SDE_HW_BLK_QDSS} K N"
    using reserve_rest_result [OF l ids, of a K e reqs] rest unfolding same K(1) e_def by auto
  have "sde_rm_make_next_rsvp rm a e reqs = Some (0, rm3)"
    using lms ctls(1) rest unfolding same rm0_def e_def by (simp add: sde_rm_make_next_rsvp_def)
  then have run: "sde_rm_reserve rm q False = Some (0, replace_rsvp a N e (top_name (rq_topology reqs)) rm)"
    using ok(2,3) q replace_unfold [OF refl, of a N e "top_name (rq_topology reqs)" rm]
    by (simp add: sde_rm_reserve_def N(1) rm0_def e_def)
  have free: "\<forall>t i. (t, i) \<in> N \<longrightarrow> free rm e t i"
  proof (intro allI impI)
    fix t i assume "(t, i) \<in> N"
    then have "free rm0 e t i" using K(2) N(2) unfolding grows_def by blast
    then show "free rm e t i" by (simp add: rm0_def add_rsvp_free [OF inv_live [OF inv] a])
  qed
  have "(SDE_HW_BLK_CTL, i) \<notin> N" for i using grows_type [OF N(2), of SDE_HW_BLK_CTL] grows_type [OF K(2), of SDE_HW_BLK_CTL] by simp
  then have "length (owned (replace_rsvp a N e (top_name (rq_topology reqs)) rm) e SDE_HW_BLK_CTL) = 0"
    unfolding replace_owned_length [OF inv a free] by simp
  moreover obtain b M where "b \<notin> tags rm" "\<forall>t i. (t, i) \<in> M \<longrightarrow> free rm e t i"
    "replace_rsvp a N e (top_name (rq_topology reqs)) rm = replace_rsvp b M e (top_name (rq_topology reqs)) rm"
    "complete rm e (rq_topology reqs) (hw_res reqs) M"
    using reserve_committed [OF r ok(1,2) _ run] ok(3) q(1) unfolding committed_def cleared_def e_def by auto
  note lm = complete_display [OF inv this(1,2,4)] this(3)
  ultimately show ?thesis unfolding e_def [symmetric] using run n lm by (auto simp: display_complete_def)
qed

definition ex_reqs :: sde_rm_requirements where
  "ex_reqs = (case sde_rm_populate_requirements ex_rm1 (ex_req 2 200 [0, 1] 0) of Some (Inr r) \<Rightarrow> r | _ \<Rightarrow> undefined)"

text \<open>The two displays share one control path; the second is told that it was reserved.\<close>

lemma reserve_succeeds_without_control_path_witness:
  "\<exists>rm'. sde_rm_reserve ex_rm1 (ex_req 2 200 [0, 1] 0) False = Some (0, rm') \<and> num_ctl (rq_topology ex_reqs) \<noteq> 0 \<and>
    length (owned rm' (q_enc (ex_req 2 200 [0, 1] 0)) SDE_HW_BLK_LM) = num_lm (rq_topology ex_reqs) \<and>
    owned rm' (q_enc (ex_req 2 200 [0, 1] 0)) SDE_HW_BLK_CTL = []"
proof -
  define q where "q = ex_req 2 200 [0, 1] 0"
  define rm0 where "rm0 = add_rsvp 200 2 (top_name (rq_topology ex_reqs)) ex_rm1"
  define rm1 where "rm1 = snd (the (sde_rm_reserve_lms rm0 200 2 ex_reqs None))"
  define rm2 where "rm2 = snd (the (sde_rm_reserve_ctls rm1 200 2 ex_reqs (rq_topology ex_reqs) None))"
  define rm3 where "rm3 = snd (the (reserve_rest rm2 200 2 ex_reqs None))"
  have p: "map_option isl (sde_rm_populate_requirements ex_rm1 q) = Some False" unfolding q_def by code_simp
  then have p: "sde_rm_populate_requirements ex_rm1 q = Some (Inr ex_reqs)"
    unfolding ex_reqs_def q_def [symmetric] by (auto split: option.splits sum.splits)
  have "map_option fst (sde_rm_reserve_lms rm0 200 2 ex_reqs None) = Some 0" unfolding rm0_def by code_simp
  then have l: "sde_rm_reserve_lms rm0 200 2 ex_reqs None = Some (0, rm1)" by (auto simp: rm1_def)
  have "map_option fst (sde_rm_reserve_ctls rm1 200 2 ex_reqs (rq_topology ex_reqs) None) = Some (- ENAVAIL)" unfolding rm1_def rm0_def by code_simp
  then have c: "sde_rm_reserve_ctls rm1 200 2 ex_reqs (rq_topology ex_reqs) None = Some (- ENAVAIL, rm2)" by (auto simp: rm2_def)
  have "map_option fst (reserve_rest rm2 200 2 ex_reqs None) = Some 0" unfolding rm2_def rm1_def rm0_def by code_simp
  then have s: "reserve_rest rm2 200 2 ex_reqs None = Some (0, rm3)" by (auto simp: rm3_def)
  have e: "q_enc q = 2" "q_alloc q = Some 200" "q_needs_modeset q" "\<not> sde_rm_is_display_in_cont_splash (q_splash q) (q_enc q)"
    by (simp_all add: q_def ex_req_def sde_rm_is_display_in_cont_splash_def)
  note t = reserve_succeeds_without_control_path [OF ex_reach(2) ex_ok2 [of 0, folded q_def] e(3,4) p e(2), unfolded e(1)]
  show ?thesis unfolding q_def [symmetric] e(1) by (rule t [OF l [unfolded rm0_def] c _ s]) simp
qed

end
