(* ===== verification/Sde_Power.thy ===== *)
theory Sde_Power
  imports Sde_Prelude
begin

section \<open>Power handle: model\<close>

text \<open>
  \<^verbatim>\<open>msm/sde_power_handle.c\<close> with the regulator and clock helpers of \<^verbatim>\<open>msm/sde_io_util.c\<close>: clients
  share the regulators, clocks and bus votes of the display through counted requests, and vote for the
  speed of the register bus and for bandwidth.

  A client lives at an address; \<open>clist\<close> is the list of the handle, newest first, and \<open>pheap\<close> the memory.
  Reading a freed client is \<open>None\<close>, as are divisions by zero and accesses outside an array. Regulators,
  clocks, buses, the callbacks of event listeners, the coordinator of the display and the peak current
  driver are calls of the environment; an \<open>Inl\<close> in the handle of a regulator is an error pointer. Log
  messages and the mutex have no counterpart; event listeners are called with the mutex held, so they do
  not call back. Setting up the handle from the device tree and
  tearing it down are not modelled.
\<close>

abbreviation EPERM :: int where "EPERM \<equiv> 1"
abbreviation EOPNOTSUPP :: int where "EOPNOTSUPP \<equiv> 95"

type_synonym vreg_ptr = "int + nat"

datatype power_call =
    Vreg_get_mode vreg_ptr
  | Vreg_is_enabled vreg_ptr
  | Vreg_set_load vreg_ptr int
  | Vreg_enable vreg_ptr
  | Vreg_disable vreg_ptr
  | Usleep nat
  | Clk_prepare_enable nat
  | Clk_disable_unprepare nat
  | Clk_set_rate "nat option" u64
  | Clk_get_rate "nat option"
  | Clk_set_flags nat nat
  | Bus_request u32 u32
  | Power_event nat u32 nat
  | Rsc_create
  | Rsc_update nat bool
  | Cx_ipeak bool

type_synonym power_trace = "power_call trace"
type_synonym power_env = "power_call env"

subsection \<open>Regulators\<close>

record dss_vreg =
  vreg_name :: string
  vreg :: vreg_ptr
  enable_load :: int
  disable_load :: int
  pre_on_sleep :: nat
  post_on_sleep :: nat
  pre_off_sleep :: nat
  post_off_sleep :: nat

text \<open>The value of the kernel's mode for regulators under control of the hardware.\<close>

definition REGULATOR_MODE_FAST :: int where "REGULATOR_MODE_FAST = 1"

definition msm_dss_is_hw_controlled :: "power_env \<Rightarrow> dss_vreg \<Rightarrow> power_trace \<Rightarrow> bool \<times> power_trace" where
  "msm_dss_is_hw_controlled env v w =
     (let (mode, w) = ext env (Vreg_get_mode (vreg v)) w in
      (vreg_name v = ''gdsc'' \<and> mode = REGULATOR_MODE_FAST, w))"

definition sleep_if :: "nat \<Rightarrow> power_trace \<Rightarrow> power_trace" where
  "sleep_if n w = (if n \<noteq> 0 then vcall (Usleep n) w else w)"

definition vreg_off :: "power_env \<Rightarrow> dss_vreg \<Rightarrow> power_trace \<Rightarrow> power_trace" where
  "vreg_off env v w =
     (let w = sleep_if (pre_off_sleep v) w;
          w = snd (ext env (Vreg_set_load (vreg v) (disable_load v)) w);
          w = snd (ext env (Vreg_disable (vreg v)) w) in
      sleep_if (post_off_sleep v) w)"

text \<open>Undoing switches off every regulator before the one that failed, the skipped ones too.\<close>

fun vregs_undo :: "power_env \<Rightarrow> dss_vreg list \<Rightarrow> power_trace \<Rightarrow> power_trace" where
  "vregs_undo env [] w = w"
| "vregs_undo env (v # vs) w = vregs_undo env vs (vreg_off env v w)"

fun vregs_off :: "power_env \<Rightarrow> dss_vreg list \<Rightarrow> power_trace \<Rightarrow> power_trace" where
  "vregs_off env [] w = w"
| "vregs_off env (v # vs) w =
     (let (hw, w) = msm_dss_is_hw_controlled env v w in
      vregs_off env vs (if hw then w else vreg_off env v w))"

text \<open>\<open>prev\<close> are the regulators before, the last one first; \<open>rc\<close> is the code of the last one.\<close>

fun vregs_on :: "power_env \<Rightarrow> dss_vreg list \<Rightarrow> dss_vreg list \<Rightarrow> int \<Rightarrow> power_trace \<Rightarrow> int \<times> power_trace" where
  "vregs_on env prev [] rc w = (rc, w)"
| "vregs_on env prev (v # vs) rc w =
     (case vreg v of
        Inl e \<Rightarrow> (e, vregs_undo env prev w)
      | Inr p \<Rightarrow>
          let (hw, w) = msm_dss_is_hw_controlled env v w in
          if hw then vregs_on env (v # prev) vs 0 w
          else let (on, w) = ext env (Vreg_is_enabled (vreg v)) w;
                   w = (if on = 0 then sleep_if (pre_on_sleep v) w else w);
                   (rc, w) = ext env (Vreg_set_load (vreg v) (enable_load v)) w in
               if rc < 0 then (rc, vregs_undo env prev w)
               else let (rc, w) = ext env (Vreg_enable (vreg v)) w;
                        w = (if on = 0 then sleep_if (post_on_sleep v) w else w) in
                    if rc < 0
                    then (rc, vregs_undo env prev (snd (ext env (Vreg_set_load (vreg v) (disable_load v)) w)))
                    else vregs_on env (v # prev) vs rc w)"

definition msm_dss_enable_vreg :: "power_env \<Rightarrow> dss_vreg list \<Rightarrow> bool \<Rightarrow> power_trace \<Rightarrow> int \<times> power_trace" where
  "msm_dss_enable_vreg env vs enable w = (if enable then vregs_on env [] vs 0 w else (0, vregs_off env (rev vs) w))"

subsection \<open>Clocks\<close>

datatype dss_clk_type = DSS_CLK_AHB | DSS_CLK_PCLK

record dss_clk =
  clk :: "nat option"
  clk_name :: string
  clk_type :: dss_clk_type
  clk_rate :: u64
  clk_max_rate :: u64

fun clks_off :: "power_env \<Rightarrow> dss_clk list \<Rightarrow> power_trace \<Rightarrow> power_trace" where
  "clks_off env [] w = w"
| "clks_off env (c # cs) w =
     clks_off env cs (case clk c of None \<Rightarrow> w | Some p \<Rightarrow> vcall (Clk_disable_unprepare p) w)"

fun clks_on :: "power_env \<Rightarrow> dss_clk list \<Rightarrow> dss_clk list \<Rightarrow> power_trace \<Rightarrow> int \<times> power_trace" where
  "clks_on env prev [] w = (0, w)"
| "clks_on env prev (c # cs) w =
     (let (rc, w) = (case clk c of None \<Rightarrow> (- EPERM, w) | Some p \<Rightarrow> ext env (Clk_prepare_enable p) w) in
      if rc \<noteq> 0 then (rc, clks_off env prev w) else clks_on env (c # prev) cs w)"

definition msm_dss_enable_clk :: "power_env \<Rightarrow> dss_clk list \<Rightarrow> bool \<Rightarrow> power_trace \<Rightarrow> int \<times> power_trace" where
  "msm_dss_enable_clk env cs enable w = (if enable then clks_on env [] cs w else (0, clks_off env (rev cs) w))"

definition msm_dss_single_clk_set_rate :: "power_env \<Rightarrow> dss_clk \<Rightarrow> power_trace \<Rightarrow> int \<times> power_trace" where
  "msm_dss_single_clk_set_rate env c w =
     (if clk_type c \<noteq> DSS_CLK_AHB then ext env (Clk_set_rate (clk c) (clk_rate c)) w else (0, w))"

text \<open>Setting the rates of all clocks, until one fails.\<close>

fun msm_dss_clk_set_rate :: "power_env \<Rightarrow> dss_clk list \<Rightarrow> power_trace \<Rightarrow> int \<times> power_trace" where
  "msm_dss_clk_set_rate env [] w = (0, w)"
| "msm_dss_clk_set_rate env (c # cs) w =
     (if clk c = None then (- EPERM, w)
      else let (rc, w) = msm_dss_single_clk_set_rate env c w in
           if rc \<noteq> 0 then (rc, w) else msm_dss_clk_set_rate env cs w)"

subsection \<open>The handle and its clients\<close>

definition VOTE_INDEX_DISABLE :: u32 where "VOTE_INDEX_DISABLE = 0"
definition VOTE_INDEX_LOW :: u32 where "VOTE_INDEX_LOW = 1"
definition VOTE_INDEX_MAX :: nat where "VOTE_INDEX_MAX = 4"
definition MAX_CLIENT_NAME_LEN :: nat where "MAX_CLIENT_NAME_LEN = 128"
definition DATA_BUS_CLIENT_RT :: nat where "DATA_BUS_CLIENT_RT = 0"
definition DATA_BUS_CLIENT_NRT :: nat where "DATA_BUS_CLIENT_NRT = 1"
definition DATA_BUS_CLIENT_MAX :: nat where "DATA_BUS_CLIENT_MAX = 2"
definition DBUS_ID_MAX :: nat where "DBUS_ID_MAX = 3"
definition ENABLE_BUS_IB_QUOTA :: u64 where "ENABLE_BUS_IB_QUOTA = 400000000"
definition MAX_AXI_PORT_COUNT :: nat where "MAX_AXI_PORT_COUNT = 3"

lemmas power_consts = VOTE_INDEX_DISABLE_def VOTE_INDEX_LOW_def VOTE_INDEX_MAX_def DATA_BUS_CLIENT_RT_def
  DATA_BUS_CLIENT_NRT_def DATA_BUS_CLIENT_MAX_def DBUS_ID_MAX_def ENABLE_BUS_IB_QUOTA_def MAX_AXI_PORT_COUNT_def

definition PRE_DISABLE :: u32 where "PRE_DISABLE = 1"
definition POST_DISABLE :: u32 where "POST_DISABLE = 2"
definition PRE_ENABLE :: u32 where "PRE_ENABLE = 4"
definition POST_ENABLE :: u32 where "POST_ENABLE = 8"

text \<open>The vote and the reference count are 16-bit integers.\<close>

record sde_power_client =
  pc_name :: string
  pc_usecase :: "16 word"
  pc_refcount :: "16 word"
  pc_id :: u32
  pc_ab :: "u64 list"
  pc_ib :: "u64 list"
  pc_active :: bool

record sde_power_event =
  ev_type :: u32
  ev_cb :: nat
  ev_usr :: nat
  ev_active :: bool

text \<open>The table of a bus has, for each use case, the vectors of its paths.\<close>

record sde_power_data_bus_handle =
  bw_table :: "(u64 \<times> u64) list list option"
  data_bus_hdl :: u32
  data_paths_cnt :: u32
  nrt_data_paths_cnt :: u32
  curr_bw_uc_idx :: u32
  ao_bw_uc_idx :: u32
  ab_rt :: u64
  ib_rt :: u64
  ab_nrt :: u64
  ib_nrt :: u64
  bus_enable :: bool

record sde_power_handle =
  mp_clks :: "dss_clk list"
  mp_vregs :: "dss_vreg list"
  clist :: "nat list"
  pheap :: "nat \<Rightarrow> sde_power_client option"
  next_client_id :: u32
  current_usecase :: u32
  reg_bus_hdl :: u32
  data_bus_handle :: "sde_power_data_bus_handle list"
  power_events :: "(nat \<times> sde_power_event) list"
  rsc_client :: "nat option"
  rsc_client_init :: bool
  dss_cx_ipeak :: bool

definition strlcpy :: "string \<Rightarrow> nat \<Rightarrow> string" where
  "strlcpy s n = take (n - 1) s"

text \<open>The address is that of the new client, \<open>None\<close> if the allocation fails; the result is the client or an error.\<close>

definition sde_power_client_create :: "sde_power_handle \<Rightarrow> string option \<Rightarrow> nat option \<Rightarrow> (int + nat) \<times> sde_power_handle" where
  "sde_power_client_create h name alloc =
     (case name of None \<Rightarrow> (Inl (- EINVAL), h)
      | Some name \<Rightarrow> (case alloc of None \<Rightarrow> (Inl (- ENOMEM), h)
        | Some a \<Rightarrow> (Inr a, h\<lparr>
            pheap := (pheap h)(a \<mapsto> \<lparr>pc_name = strlcpy name MAX_CLIENT_NAME_LEN, pc_usecase = ucast VOTE_INDEX_DISABLE, pc_refcount = 0,
              pc_id = next_client_id h, pc_ab = replicate DATA_BUS_CLIENT_MAX 0, pc_ib = replicate DATA_BUS_CLIENT_MAX 0, pc_active = True\<rparr>),
            next_client_id := next_client_id h + 1, clist := a # clist h\<rparr>)))"

definition sde_power_client_destroy :: "sde_power_handle \<Rightarrow> nat option \<Rightarrow> sde_power_handle option" where
  "sde_power_client_destroy h client =
     (case client of None \<Rightarrow> Some h
      | Some a \<Rightarrow> do {
          c \<leftarrow> pheap h a;
          if \<not> pc_active c then Some (h\<lparr>pheap := (pheap h)(a := None)\<rparr>)
          else Some (h\<lparr>clist := filter (\<lambda>x. x \<noteq> a) (clist h), pheap := (pheap h)(a := None)\<rparr>)
        })"

text \<open>The strongest vote, as the comparisons of the code see it: a negative vote passes the first one.\<close>

fun max_usecase :: "sde_power_client list \<Rightarrow> u32 \<Rightarrow> u32" where
  "max_usecase [] m = m"
| "max_usecase (c # cs) m =
     max_usecase cs (if sint (pc_usecase c) < int VOTE_INDEX_MAX \<and> (scast (pc_usecase c) :: u32) > m then scast (pc_usecase c) else m)"

definition power_clients :: "sde_power_handle \<Rightarrow> sde_power_client list option" where
  "power_clients h = those (map (pheap h) (clist h))"

definition sde_power_event_trigger_locked :: "sde_power_handle \<Rightarrow> u32 \<Rightarrow> power_trace \<Rightarrow> power_trace" where
  "sde_power_event_trigger_locked h t w =
     fold (\<lambda>(a, e) w. if ev_type e AND t \<noteq> 0 then vcall (Power_event (ev_cb e) t (ev_usr e)) w else w) (power_events h) w"

definition sde_power_rsc_client_init :: "power_env \<Rightarrow> sde_power_handle \<Rightarrow> power_trace \<Rightarrow> sde_power_handle \<times> power_trace" where
  "sde_power_rsc_client_init env h w =
     (if \<not> rsc_client_init h
      then let (p, w) = ext env Rsc_create w in
           (h\<lparr>rsc_client := if p \<le> 0 then None else Some (nat p), rsc_client_init := True\<rparr>, w)
      else (h, w))"

definition sde_power_rsc_update :: "power_env \<Rightarrow> sde_power_handle \<Rightarrow> bool \<Rightarrow> power_trace \<Rightarrow> int \<times> power_trace" where
  "sde_power_rsc_update env h enable w =
     (case rsc_client h of None \<Rightarrow> (0, w) | Some r \<Rightarrow> ext env (Rsc_update r enable) w)"

definition sde_power_handle_register_event ::
    "sde_power_handle \<Rightarrow> u32 \<Rightarrow> nat option \<Rightarrow> nat \<Rightarrow> nat option \<Rightarrow> (int + nat) \<times> sde_power_handle" where
  "sde_power_handle_register_event h t cb usr alloc =
     (case cb of None \<Rightarrow> (Inl (- EINVAL), h)
      | Some cb \<Rightarrow> if t = 0 then (Inl (- EINVAL), h)
          else (case alloc of None \<Rightarrow> (Inl (- ENOMEM), h)
            | Some a \<Rightarrow> (Inr a, h\<lparr>power_events := (a, \<lparr>ev_type = t, ev_cb = cb, ev_usr = usr, ev_active = True\<rparr>) # power_events h\<rparr>)))"

definition sde_power_handle_unregister_event :: "sde_power_handle \<Rightarrow> nat option \<Rightarrow> sde_power_handle" where
  "sde_power_handle_unregister_event h ev =
     (case ev of None \<Rightarrow> h | Some a \<Rightarrow> h\<lparr>power_events := filter (\<lambda>p. fst p \<noteq> a) (power_events h)\<rparr>)"

subsection \<open>Bandwidth votes\<close>

text \<open>
  The shares of the paths of a bus: the real-time paths first, then the others; without paths of the
  other kind, all share the sum. A division by zero has no value.
\<close>

definition div_opt :: "u64 \<Rightarrow> u32 \<Rightarrow> u64 option" where
  "div_opt a n = (if n = 0 then None else Some (a div ucast n))"

definition path_quotas :: "u32 \<Rightarrow> u32 \<Rightarrow> u64 \<times> u64 \<Rightarrow> u64 \<times> u64 \<Rightarrow> (u64 \<times> u64) list option" where
  "path_quotas paths nrt ab ib =
     (let rt = paths - nrt in
      if nrt \<noteq> 0 then do {
        ab_rt \<leftarrow> div_opt (fst ab) rt;
        ab_nrt \<leftarrow> div_opt (snd ab) nrt;
        ib_rt \<leftarrow> div_opt (fst ib) rt;
        ib_nrt \<leftarrow> div_opt (snd ib) nrt;
        Some (map (\<lambda>i. if word_of_nat i < rt then (ab_rt, ib_rt) else (ab_nrt, ib_nrt)) [0..<unat paths])
      } else do {
        a \<leftarrow> div_opt (fst ab + snd ab) paths;
        i \<leftarrow> div_opt (fst ib + snd ib) paths;
        Some (replicate (unat paths) (a, i))
      })"

text \<open>Writing the vectors of a use case, from path \<open>i\<close>.\<close>

fun write_vectors :: "(u64 \<times> u64) list list \<Rightarrow> nat \<Rightarrow> nat \<Rightarrow> (u64 \<times> u64) list \<Rightarrow> (u64 \<times> u64) list list option" where
  "write_vectors t u i [] = Some t"
| "write_vectors t u i (q # qs) = do {
     vs \<leftarrow> nth_opt t u;
     _ \<leftarrow> nth_opt vs i;
     write_vectors (t[u := vs[i := q]]) u (i + 1) qs
   }"

definition sde_power_data_bus_set_quota_locked ::
    "power_env \<Rightarrow> sde_power_data_bus_handle \<Rightarrow> u64 \<times> u64 \<Rightarrow> u64 \<times> u64 \<Rightarrow> power_trace \<Rightarrow>
     (int \<times> sde_power_data_bus_handle \<times> power_trace) option" where
  "sde_power_data_bus_set_quota_locked env b ab ib w =
     (if data_bus_hdl b < 1 then Some (- EINVAL, b, w)
      else let b = b\<lparr>ab_rt := fst ab, ib_rt := fst ib, ab_nrt := snd ab, ib_nrt := snd ib\<rparr>;
               ib = (if bus_enable b then (max (fst ib) ENABLE_BUS_IB_QUOTA, snd ib) else (0, 0));
               ab = (if bus_enable b then ab else (0, 0)) in
      if fst ab = 0 \<and> snd ab = 0 \<and> fst ib = 0 \<and> snd ib = 0
      then let b = b\<lparr>curr_bw_uc_idx := 0, ao_bw_uc_idx := 0\<rparr>;
               (rc, w) = ext env (Bus_request (data_bus_hdl b) 0) w in Some (rc, b, w)
      else case bw_table b of
          None \<Rightarrow> Some (- EINVAL, b, w)
        | Some t \<Rightarrow>
            if data_paths_cnt b = 0 \<or> unat (data_paths_cnt b) > MAX_AXI_PORT_COUNT then Some (- EINVAL, b, w)
            else do {
              qs \<leftarrow> path_quotas (data_paths_cnt b) (nrt_data_paths_cnt b) ab ib;
              let n = word_of_nat (length t) - 1;
              uc \<leftarrow> (if n = 0 then None else Some ((curr_bw_uc_idx b mod n) + 1));
              t \<leftarrow> write_vectors t (unat uc) 0 qs;
              let b = b\<lparr>bw_table := Some t, curr_bw_uc_idx := uc, ao_bw_uc_idx := uc\<rparr>;
              let (rc, w) = ext env (Bus_request (data_bus_hdl b) uc) w;
              Some (rc, b, w)
            })"

text \<open>The sums (and for the real-time bandwidth the maximum) over the clients.\<close>

definition total_quotas :: "sde_power_client list \<Rightarrow> (u64 \<times> u64) \<times> (u64 \<times> u64)" where
  "total_quotas cs =
     ((sum_list (map (\<lambda>c. pc_ab c ! DATA_BUS_CLIENT_RT) cs), sum_list (map (\<lambda>c. pc_ab c ! DATA_BUS_CLIENT_NRT) cs)),
      (fold (\<lambda>c m. max m (pc_ib c ! DATA_BUS_CLIENT_RT)) cs 0, sum_list (map (\<lambda>c. pc_ib c ! DATA_BUS_CLIENT_NRT) cs)))"

definition sde_power_data_bus_set_quota ::
    "power_env \<Rightarrow> sde_power_handle \<Rightarrow> nat option \<Rightarrow> int \<Rightarrow> u32 \<Rightarrow> u64 \<Rightarrow> u64 \<Rightarrow> power_trace \<Rightarrow> (int \<times> sde_power_handle \<times> power_trace) option" where
  "sde_power_data_bus_set_quota env h client bus_client bus_id ab ib w =
     (case client of None \<Rightarrow> Some (- EINVAL, h, w)
      | Some a \<Rightarrow>
          if bus_client \<ge> int DATA_BUS_CLIENT_MAX \<or> unat bus_id \<ge> DBUS_ID_MAX then Some (- EINVAL, h, w)
          else if bus_client < 0 then None
          else do {
            c \<leftarrow> pheap h a;
            let h = h\<lparr>pheap := (pheap h)(a \<mapsto> c\<lparr>pc_ab := (pc_ab c)[nat bus_client := ab], pc_ib := (pc_ib c)[nat bus_client := ib]\<rparr>)\<rparr>;
            cs \<leftarrow> power_clients h;
            b \<leftarrow> nth_opt (data_bus_handle h) (unat bus_id);
            let (tab, tib) = total_quotas cs;
            if data_bus_hdl b \<noteq> 0 then do {
              (rc, b, w) \<leftarrow> sde_power_data_bus_set_quota_locked env b tab tib w;
              Some (rc, h\<lparr>data_bus_handle := (data_bus_handle h)[unat bus_id := b]\<rparr>, w)
            } else Some (0, h, w)
          })"

definition sde_power_data_bus_state_update :: "sde_power_handle \<Rightarrow> bool \<Rightarrow> int \<times> sde_power_handle" where
  "sde_power_data_bus_state_update h enable =
     (0, h\<lparr>data_bus_handle := map (\<lambda>b. b\<lparr>bus_enable := enable\<rparr>) (data_bus_handle h)\<rparr>)"

definition sde_power_data_bus_update ::
    "power_env \<Rightarrow> sde_power_data_bus_handle \<Rightarrow> bool \<Rightarrow> power_trace \<Rightarrow> (int \<times> sde_power_data_bus_handle \<times> power_trace) option" where
  "sde_power_data_bus_update env b enable w =
     (let b = b\<lparr>bus_enable := enable\<rparr> in
      if data_bus_hdl b \<noteq> 0
      then sde_power_data_bus_set_quota_locked env b (ab_rt b, ab_nrt b) (ib_rt b, ib_nrt b) w
      else Some (0, b, w))"

text \<open>All buses, until one fails if \<open>stop\<close>; the buses after the failing one are left as they are.\<close>

fun data_buses_update ::
    "power_env \<Rightarrow> bool \<Rightarrow> bool \<Rightarrow> sde_power_data_bus_handle list \<Rightarrow> power_trace \<Rightarrow> (int \<times> sde_power_data_bus_handle list \<times> power_trace) option" where
  "data_buses_update env enable stop [] w = Some (0, [], w)"
| "data_buses_update env enable stop (b # bs) w = do {
     (rc, b, w) \<leftarrow> sde_power_data_bus_update env b enable w;
     if stop \<and> rc \<noteq> 0 then Some (rc, b # bs, w)
     else do {
       (rc, bs, w) \<leftarrow> data_buses_update env enable stop bs w;
       Some (rc, b # bs, w)
     }
   }"

subsection \<open>The register bus\<close>

definition sde_power_reg_bus_update :: "power_env \<Rightarrow> u32 \<Rightarrow> u32 \<Rightarrow> power_trace \<Rightarrow> int \<times> power_trace" where
  "sde_power_reg_bus_update env hdl uc w = (if hdl \<noteq> 0 then ext env (Bus_request hdl uc) w else (0, w))"

text \<open>The vote of a client is a 16-bit integer, the argument is cut to it.\<close>

definition sde_power_scale_reg_bus ::
    "power_env \<Rightarrow> sde_power_handle \<Rightarrow> nat \<Rightarrow> u32 \<Rightarrow> bool \<Rightarrow> power_trace \<Rightarrow> (int \<times> sde_power_handle \<times> power_trace) option" where
  "sde_power_scale_reg_bus env h a uc skip_lock w = do {
     c \<leftarrow> pheap h a;
     if \<not> skip_lock \<and> pc_refcount c = 0 then Some (- EINVAL, h, w)
     else do {
       let h = h\<lparr>pheap := (pheap h)(a \<mapsto> c\<lparr>pc_usecase := ucast uc\<rparr>)\<rparr>;
       cs \<leftarrow> power_clients h;
       let (rc, w) = sde_power_reg_bus_update env (reg_bus_hdl h) (max_usecase cs VOTE_INDEX_DISABLE) w;
       Some (rc, h, w)
     }
   }"

subsection \<open>Enabling and disabling\<close>

definition resource_changed :: "u32 \<Rightarrow> u32 \<Rightarrow> bool" where
  "resource_changed current m \<longleftrightarrow> (current \<ge> VOTE_INDEX_LOW \<and> m = VOTE_INDEX_DISABLE) \<or>
     (current = VOTE_INDEX_DISABLE \<and> m \<ge> VOTE_INDEX_LOW)"

text \<open>The count and the vote of the client, and the strongest vote of all.\<close>

definition power_count :: "sde_power_handle \<Rightarrow> nat \<Rightarrow> bool \<Rightarrow> (u32 \<times> sde_power_handle) option" where
  "power_count h a enable = do {
     c \<leftarrow> pheap h a;
     let n = (if enable then pc_refcount c + 1 else if pc_refcount c \<noteq> 0 then pc_refcount c - 1 else pc_refcount c);
     let h = h\<lparr>pheap := (pheap h)(a \<mapsto> c\<lparr>pc_refcount := n, pc_usecase := ucast (if n \<noteq> 0 then VOTE_INDEX_LOW else VOTE_INDEX_DISABLE)\<rparr>)\<rparr>;
     cs \<leftarrow> power_clients h;
     Some (max_usecase cs VOTE_INDEX_DISABLE, h)
   }"

definition set_buses :: "sde_power_handle \<Rightarrow> sde_power_data_bus_handle list \<Rightarrow> sde_power_handle" where
  "set_buses h bs = h\<lparr>data_bus_handle := bs\<rparr>"

text \<open>
  The way on, with the labels of the error path as functions: each undoes its step and goes on with the
  next. The register bus keeps the vote it has, and a failed data bus vote is not taken back.
\<close>

definition data_bus_hdl_err :: "u32 \<Rightarrow> int \<Rightarrow> sde_power_handle \<Rightarrow> power_trace \<Rightarrow> (int \<times> sde_power_handle \<times> power_trace) option" where
  "data_bus_hdl_err prev rc h w = Some (rc, h\<lparr>current_usecase := prev\<rparr>, w)"

definition vreg_err :: "power_env \<Rightarrow> u32 \<Rightarrow> int \<Rightarrow> sde_power_handle \<Rightarrow> power_trace \<Rightarrow> (int \<times> sde_power_handle \<times> power_trace) option" where
  "vreg_err env prev rc h w = do {
     (_, bs, w) \<leftarrow> data_buses_update env False False (data_bus_handle h) w;
     data_bus_hdl_err prev rc (set_buses h bs) w
   }"

definition reg_bus_hdl_err :: "power_env \<Rightarrow> u32 \<Rightarrow> int \<Rightarrow> sde_power_handle \<Rightarrow> power_trace \<Rightarrow> (int \<times> sde_power_handle \<times> power_trace) option" where
  "reg_bus_hdl_err env prev rc h w = vreg_err env prev rc h (snd (msm_dss_enable_vreg env (mp_vregs h) False w))"

definition rsc_err :: "power_env \<Rightarrow> nat \<Rightarrow> u32 \<Rightarrow> u32 \<Rightarrow> int \<Rightarrow> sde_power_handle \<Rightarrow> power_trace \<Rightarrow> (int \<times> sde_power_handle \<times> power_trace) option" where
  "rsc_err env a m prev rc h w = do {
     (_, h, w) \<leftarrow> sde_power_scale_reg_bus env h a m True w;
     reg_bus_hdl_err env prev rc h w
   }"

definition power_up :: "power_env \<Rightarrow> nat \<Rightarrow> u32 \<Rightarrow> u32 \<Rightarrow> sde_power_handle \<Rightarrow> power_trace \<Rightarrow> (int \<times> sde_power_handle \<times> power_trace) option" where
  "power_up env a m prev h w = do {
     let w = sde_power_event_trigger_locked h PRE_ENABLE w;
     (rc, bs, w) \<leftarrow> data_buses_update env True True (data_bus_handle h) w;
     let h = set_buses h bs;
     if rc \<noteq> 0 then data_bus_hdl_err prev rc h w
     else do {
       let (rc, w) = msm_dss_enable_vreg env (mp_vregs h) True w;
       if rc \<noteq> 0 then vreg_err env prev rc h w
       else do {
         (rc, h, w) \<leftarrow> sde_power_scale_reg_bus env h a m True w;
         if rc \<noteq> 0 then reg_bus_hdl_err env prev rc h w
         else do {
           let (rc, w) = sde_power_rsc_update env h True w;
           if rc \<noteq> 0 then rsc_err env a m prev rc h w
           else do {
             let (rc, w) = msm_dss_enable_clk env (mp_clks h) True w;
             if rc \<noteq> 0 then rsc_err env a m prev rc h (snd (sde_power_rsc_update env h False w))
             else Some (rc, h, sde_power_event_trigger_locked h POST_ENABLE w)
           }
         }
       }
     }
   }"

definition power_down :: "power_env \<Rightarrow> nat \<Rightarrow> u32 \<Rightarrow> sde_power_handle \<Rightarrow> power_trace \<Rightarrow> (int \<times> sde_power_handle \<times> power_trace) option" where
  "power_down env a m h w = do {
     let w = sde_power_event_trigger_locked h PRE_DISABLE w;
     let w = snd (sde_power_rsc_update env h False w);
     let w = snd (msm_dss_enable_clk env (mp_clks h) False w);
     (_, h, w) \<leftarrow> sde_power_scale_reg_bus env h a m True w;
     let w = snd (msm_dss_enable_vreg env (mp_vregs h) False w);
     (_, bs, w) \<leftarrow> data_buses_update env False False (data_bus_handle h) w;
     let h = set_buses h bs;
     Some (0, h, sde_power_event_trigger_locked h POST_DISABLE w)
   }"

definition sde_power_resource_enable ::
    "power_env \<Rightarrow> sde_power_handle \<Rightarrow> nat option \<Rightarrow> bool \<Rightarrow> power_trace \<Rightarrow> (int \<times> sde_power_handle \<times> power_trace) option" where
  "sde_power_resource_enable env h client enable w =
     (case client of None \<Rightarrow> Some (- EINVAL, h, w)
      | Some a \<Rightarrow> do {
          (m, h) \<leftarrow> power_count h a enable;
          if \<not> resource_changed (current_usecase h) m then Some (0, h, w)
          else do {
            let prev = current_usecase h;
            let h = h\<lparr>current_usecase := m\<rparr>;
            let (h, w) = sde_power_rsc_client_init env h w;
            if enable then power_up env a m prev h w else power_down env a m h w
          }
        })"

definition sde_power_resource_is_enabled :: "sde_power_handle \<Rightarrow> bool" where
  "sde_power_resource_is_enabled h \<longleftrightarrow> current_usecase h \<noteq> VOTE_INDEX_DISABLE"

subsection \<open>Clock rates\<close>

definition sde_cx_ipeak_vote :: "power_env \<Rightarrow> sde_power_handle \<Rightarrow> dss_clk \<Rightarrow> u64 \<Rightarrow> u64 \<Rightarrow> bool \<Rightarrow> power_trace \<Rightarrow> int \<times> power_trace" where
  "sde_cx_ipeak_vote env h c requested prev enable_vote w =
     (if \<not> dss_cx_ipeak h then (- EOPNOTSUPP, w)
      else if clk_name c \<noteq> ''core_clk'' then (- EOPNOTSUPP, w)
      else if enable_vote \<and> requested = clk_max_rate c \<and> clk_rate c \<noteq> requested then ext env (Cx_ipeak True) w
      else if \<not> enable_vote \<and> requested \<noteq> clk_max_rate c \<and> prev = clk_max_rate c then ext env (Cx_ipeak False) w
      else (0, w))"

definition clk_index :: "sde_power_handle \<Rightarrow> string \<Rightarrow> nat option" where
  "clk_index h name = List.find (\<lambda>i. clk_name (mp_clks h ! i) = name) [0..<length (mp_clks h)]"

definition sde_power_clk_set_rate :: "power_env \<Rightarrow> sde_power_handle \<Rightarrow> string \<Rightarrow> u64 \<Rightarrow> power_trace \<Rightarrow> int \<times> sde_power_handle \<times> power_trace" where
  "sde_power_clk_set_rate env h name rate w =
     (case clk_index h name of None \<Rightarrow> (- EINVAL, h, w)
      | Some i \<Rightarrow>
          let c = mp_clks h ! i;
              rate = (if clk_max_rate c \<noteq> 0 \<and> rate > clk_max_rate c then clk_max_rate c else rate);
              prev = clk_rate c;
              w = snd (sde_cx_ipeak_vote env h c rate prev True w);
              c = c\<lparr>clk_rate := rate\<rparr>;
              h = h\<lparr>mp_clks := (mp_clks h)[i := c]\<rparr>;
              (rc, w) = msm_dss_single_clk_set_rate env c w;
              w = (if rc = 0 then snd (sde_cx_ipeak_vote env h c rate prev False w) else w) in
          (rc, h, w))"

definition sde_power_clk_get_rate :: "power_env \<Rightarrow> sde_power_handle \<Rightarrow> string \<Rightarrow> power_trace \<Rightarrow> int \<times> power_trace" where
  "sde_power_clk_get_rate env h name w =
     (case clk_index h name of None \<Rightarrow> (- EINVAL, w) | Some i \<Rightarrow> ext env (Clk_get_rate (clk (mp_clks h ! i))) w)"

definition sde_power_clk_get_max_rate :: "sde_power_handle \<Rightarrow> string \<Rightarrow> u64" where
  "sde_power_clk_get_max_rate h name = (case clk_index h name of None \<Rightarrow> 0 | Some i \<Rightarrow> clk_max_rate (mp_clks h ! i))"

definition sde_power_clk_get_clk :: "sde_power_handle \<Rightarrow> string \<Rightarrow> nat option" where
  "sde_power_clk_get_clk h name = (case clk_index h name of None \<Rightarrow> None | Some i \<Rightarrow> clk (mp_clks h ! i))"

definition sde_power_clk_set_flags :: "power_env \<Rightarrow> sde_power_handle \<Rightarrow> string option \<Rightarrow> nat \<Rightarrow> power_trace \<Rightarrow> int \<times> power_trace" where
  "sde_power_clk_set_flags env h name flags w =
     (case name of None \<Rightarrow> (- EINVAL, w)
      | Some name \<Rightarrow> (case sde_power_clk_get_clk h name of None \<Rightarrow> (- EINVAL, w) | Some p \<Rightarrow> ext env (Clk_set_flags p flags) w))"

end
