(* ===== verification/Sde_Power_Inv.thy ===== *)
theory Sde_Power_Inv
  imports Sde_Power
begin

section \<open>Power handle: references and votes\<close>

text \<open>
  The references to clocks and regulators that a trace of calls leaves, the strongest vote, and the
  condition on buses under which a bandwidth vote has no undefined behaviour.
\<close>

subsection \<open>References\<close>

text \<open>A successful enable adds one, a disable takes one away.\<close>

fun clk_weight :: "nat \<Rightarrow> power_call \<times> int \<Rightarrow> int" where
  "clk_weight p (Clk_prepare_enable q, rc) = (if q = p \<and> rc = 0 then 1 else 0)"
| "clk_weight p (Clk_disable_unprepare q, rc) = (if q = p then - 1 else 0)"
| "clk_weight p _ = 0"

fun vreg_weight :: "nat \<Rightarrow> power_call \<times> int \<Rightarrow> int" where
  "vreg_weight r (Vreg_enable v, rc) = (if v = Inr r \<and> rc = 0 then 1 else 0)"
| "vreg_weight r (Vreg_disable v, rc) = (if v = Inr r then - 1 else 0)"
| "vreg_weight r _ = 0"

definition clk_load :: "nat \<Rightarrow> dss_clk list \<Rightarrow> int" where
  "clk_load p cs = (\<Sum>c\<leftarrow>cs. if clk c = Some p then 1 else 0)"

text \<open>
  A regulator under control of the hardware, in an environment that does not change its mode. The handle
  does not count it among those that it switches.
\<close>

definition hw_ctl :: "power_env \<Rightarrow> dss_vreg \<Rightarrow> bool" where
  "hw_ctl env v \<longleftrightarrow> vreg_name v = ''gdsc'' \<and> env [] (Vreg_get_mode (vreg v)) = REGULATOR_MODE_FAST"

definition vreg_load :: "power_env \<Rightarrow> nat \<Rightarrow> dss_vreg list \<Rightarrow> int" where
  "vreg_load env r vs = (\<Sum>v\<leftarrow>vs. if vreg v = Inr r \<and> \<not> hw_ctl env v then 1 else 0)"

definition hw_load :: "power_env \<Rightarrow> nat \<Rightarrow> dss_vreg list \<Rightarrow> int" where
  "hw_load env r vs = (\<Sum>v\<leftarrow>vs. if vreg v = Inr r \<and> hw_ctl env v then 1 else 0)"

lemma load_simps [simp]:
  "clk_load p [] = 0" "clk_load p (c # cs) = (if clk c = Some p then 1 else 0) + clk_load p cs"
  "vreg_load env r [] = 0" "vreg_load env r (v # vs) = (if vreg v = Inr r \<and> \<not> hw_ctl env v then 1 else 0) + vreg_load env r vs"
  "hw_load env r [] = 0" "hw_load env r (v # vs) = (if vreg v = Inr r \<and> hw_ctl env v then 1 else 0) + hw_load env r vs"
  by (simp_all add: clk_load_def vreg_load_def hw_load_def)

lemma load_rev [simp]: "clk_load p (rev cs) = clk_load p cs" "vreg_load env r (rev vs) = vreg_load env r vs"
  by (simp_all add: clk_load_def vreg_load_def rev_map [symmetric])

lemma clks_off_sum: "trace_sum (clk_weight p) (clks_off env cs w) = trace_sum (clk_weight p) w - clk_load p cs"
  by (induction cs arbitrary: w) (auto simp: trace_simps split: option.split)

lemma clks_on_sum:
  "clks_on env prev cs w = (rc, w') \<Longrightarrow>
     trace_sum (clk_weight p) w' = trace_sum (clk_weight p) w + (if rc = 0 then clk_load p cs else - clk_load p prev)"
proof (induction cs arbitrary: prev w)
  case (Cons c cs)
  show ?case
  proof (cases "clk c")
    case None
    with Cons.prems show ?thesis by (auto simp: clks_off_sum)
  next
    case (Some q)
    obtain r v where e: "ext env (Clk_prepare_enable q) w = (r, v)" by (cases "ext env (Clk_prepare_enable q) w")
    have s: "trace_sum (clk_weight p) v = trace_sum (clk_weight p) w + clk_weight p (Clk_prepare_enable q, r)" by (rule ext_sum [OF e])
    show ?thesis
    proof (cases "r = 0")
      case True
      then have "clks_on env (c # prev) cs v = (rc, w')" using Cons.prems Some e by simp
      from Cons.IH [OF this] show ?thesis using s Some True by auto
    next
      case False
      then show ?thesis using Cons.prems Some e s by (auto simp: clks_off_sum)
    qed
  qed
qed simp

text \<open>
  Regulators that were got from the kernel, which returns no positive code when it enables one and keeps
  the mode of each.
\<close>

definition vregs_ok :: "dss_vreg list \<Rightarrow> bool" where
  "vregs_ok vs \<longleftrightarrow> (\<forall>v \<in> set vs. \<exists>p. vreg v = Inr p)"

definition regulators_ok :: "power_env \<Rightarrow> bool" where
  "regulators_ok env \<longleftrightarrow> (\<forall>w v. env w (Vreg_enable v) \<le> 0 \<and> env w (Vreg_get_mode v) = env [] (Vreg_get_mode v))"

lemma sleep_sum [simp]: "g (Usleep n, 0) = 0 \<Longrightarrow> trace_sum g (sleep_if n w) = trace_sum g w"
  by (simp add: sleep_if_def trace_simps)

lemma snd_ext_sum [simp]: "trace_sum g (snd (ext env c w)) = trace_sum g w + g (c, env w c)"
  by (simp add: ext_def)

lemma vreg_off_sum: "trace_sum (vreg_weight r) (vreg_off env v w) = trace_sum (vreg_weight r) w - (if vreg v = Inr r then 1 else 0)"
  by (simp add: vreg_off_def Let_def)

lemma vregs_undo_sum:
  "trace_sum (vreg_weight r) (vregs_undo env vs w) = trace_sum (vreg_weight r) w - vreg_load env r vs - hw_load env r vs"
  by (induction vs arbitrary: w) (auto simp: vreg_off_sum)

lemma hw_result:
  assumes "regulators_ok env"
  shows "msm_dss_is_hw_controlled env v w = (hw_ctl env v, w @ [(Vreg_get_mode (vreg v), env [] (Vreg_get_mode (vreg v)))])"
proof -
  have "env w (Vreg_get_mode (vreg v)) = env [] (Vreg_get_mode (vreg v))" using assms by (simp add: regulators_ok_def)
  then show ?thesis by (simp add: msm_dss_is_hw_controlled_def hw_ctl_def ext_def)
qed

lemma vregs_off_sum:
  "regulators_ok env \<Longrightarrow> trace_sum (vreg_weight r) (vregs_off env vs w) = trace_sum (vreg_weight r) w - vreg_load env r vs"
  by (induction vs arbitrary: w) (auto simp: hw_result vreg_off_sum)

text \<open>
  Switching on counts each regulator that the handle switches; when it fails after the first \<open>k\<close> of the rest,
  undoing takes the regulators before away, those under control of the hardware too.
\<close>

lemma vregs_on_sum:
  "vregs_ok vs \<Longrightarrow> regulators_ok env \<Longrightarrow> vregs_on env prev vs rc0 w = (rc, w') \<Longrightarrow> rc0 \<le> 0 \<Longrightarrow>
     (\<exists>k. \<forall>r. trace_sum (vreg_weight r) w' = trace_sum (vreg_weight r) w +
       (if rc = 0 then vreg_load env r vs else - vreg_load env r prev - hw_load env r prev - hw_load env r (take k vs))) \<or> vs = [] \<and> rc = rc0 \<and> w' = w"
proof (induction vs arbitrary: prev rc0 w)
  case (Cons v vs)
  obtain p where p: "vreg v = Inr p" using Cons.prems(1) by (auto simp: vregs_ok_def)
  have vs: "vregs_ok vs" using Cons.prems(1) by (simp add: vregs_ok_def)
  define w1 where "w1 = w @ [(Vreg_get_mode (vreg v), env [] (Vreg_get_mode (vreg v)))]"
  have h: "msm_dss_is_hw_controlled env v w = (hw_ctl env v, w1)" using hw_result [OF Cons.prems(2)] by (simp add: w1_def)
  have s1: "trace_sum (vreg_weight r) w1 = trace_sum (vreg_weight r) w" for r by (simp add: w1_def trace_simps)
  show ?case
  proof (cases "hw_ctl env v")
    case True
    then have run: "vregs_on env (v # prev) vs 0 w1 = (rc, w')" using Cons.prems(3) p h by simp
    from Cons.IH [OF vs Cons.prems(2) run order.refl] show ?thesis
    proof (elim disjE exE)
      fix k assume "\<forall>r. trace_sum (vreg_weight r) w' = trace_sum (vreg_weight r) w1 +
        (if rc = 0 then vreg_load env r vs else - vreg_load env r (v # prev) - hw_load env r (v # prev) - hw_load env r (take k vs))"
      then show ?thesis using True s1 by (intro disjI1 exI [of _ "Suc k"]) auto
    qed (use True s1 in auto)
  next
    case False
    obtain on w2 where o: "ext env (Vreg_is_enabled (vreg v)) w1 = (on, w2)" by (cases "ext env (Vreg_is_enabled (vreg v)) w1")
    define w3 where "w3 = (if on = 0 then sleep_if (pre_on_sleep v) w2 else w2)"
    obtain r1 w4 where l: "ext env (Vreg_set_load (vreg v) (enable_load v)) w3 = (r1, w4)" by (cases "ext env (Vreg_set_load (vreg v) (enable_load v)) w3")
    obtain r2 w5 where e: "ext env (Vreg_enable (vreg v)) w4 = (r2, w5)" by (cases "ext env (Vreg_enable (vreg v)) w4")
    define w6 where "w6 = (if on = 0 then sleep_if (post_on_sleep v) w5 else w5)"
    have s3: "trace_sum (vreg_weight r) w3 = trace_sum (vreg_weight r) w" for r using s1 ext_sum [OF o] by (simp add: w3_def)
    have s4: "trace_sum (vreg_weight r) w4 = trace_sum (vreg_weight r) w" for r using ext_sum [OF l] s3 by simp
    have s6: "trace_sum (vreg_weight r) w6 = trace_sum (vreg_weight r) w + (if p = r \<and> r2 = 0 then 1 else 0)" for r
      using ext_sum [OF e, of "vreg_weight r"] s4 p by (simp add: w6_def)
    have le: "r2 \<le> 0" using e Cons.prems(2) by (auto simp: ext_def regulators_ok_def)
    have run: "vregs_on env prev (v # vs) rc0 w = (if r1 < 0 then (r1, vregs_undo env prev w4)
        else if r2 < 0 then (r2, vregs_undo env prev (snd (ext env (Vreg_set_load (vreg v) (disable_load v)) w6)))
        else vregs_on env (v # prev) vs r2 w6)"
      using p h False o l e by (simp add: w3_def w6_def Let_def)
    consider "r1 < 0 \<or> r2 < 0" | "\<not> r1 < 0" "r2 = 0" using le by linarith
    then show ?thesis
    proof cases
      case 1
      then have "rc \<noteq> 0 \<and> (\<forall>r. trace_sum (vreg_weight r) w' = trace_sum (vreg_weight r) w - vreg_load env r prev - hw_load env r prev)"
        using run Cons.prems(3) s4 s6 by (auto simp: vregs_undo_sum split: if_splits)
      then show ?thesis by (intro disjI1 exI [of _ 0]) simp
    next
      case 2
      then have run: "vregs_on env (v # prev) vs 0 w6 = (rc, w')" using run Cons.prems(3) by simp
      from Cons.IH [OF vs Cons.prems(2) run order.refl] show ?thesis
      proof (elim disjE exE)
        fix k assume "\<forall>r. trace_sum (vreg_weight r) w' = trace_sum (vreg_weight r) w6 +
          (if rc = 0 then vreg_load env r vs else - vreg_load env r (v # prev) - hw_load env r (v # prev) - hw_load env r (take k vs))"
        then show ?thesis using s6 2 p False by (intro disjI1 exI [of _ "Suc k"]) auto
      qed (use s6 2 p False in auto)
    qed
  qed
qed simp

lemma enable_clk_sum:
  "msm_dss_enable_clk env cs b w = (rc, w') \<Longrightarrow>
     trace_sum (clk_weight p) w' = trace_sum (clk_weight p) w + (if \<not> b then - clk_load p cs else if rc = 0 then clk_load p cs else 0)"
  using clks_on_sum [of env "[]" cs w rc w' p] by (auto simp: msm_dss_enable_clk_def clks_off_sum split: if_splits)

lemma enable_vreg_sum:
  assumes "vregs_ok vs" "regulators_ok env" "msm_dss_enable_vreg env vs b w = (rc, w')"
  shows "\<exists>k. \<forall>r. trace_sum (vreg_weight r) w' = trace_sum (vreg_weight r) w +
    (if \<not> b then - vreg_load env r vs else if rc = 0 then vreg_load env r vs else - hw_load env r (take k vs))"
  using vregs_on_sum [of vs env "[]" 0 w rc w'] vregs_off_sum [of env _ "rev vs" w] assms
  by (cases b) (auto simp: msm_dss_enable_vreg_def)

lemma clks_off_vreg: "trace_sum (vreg_weight r) (clks_off env cs w) = trace_sum (vreg_weight r) w"
  by (induction cs arbitrary: w) (auto simp: trace_simps split: option.split)

lemma clks_on_vreg: "clks_on env prev cs w = (rc, w') \<Longrightarrow> trace_sum (vreg_weight r) w' = trace_sum (vreg_weight r) w"
  by (induction cs arbitrary: prev w)
     (auto simp: clks_off_vreg Let_def split: option.splits prod.splits if_splits dest: ext_sum [where f = "vreg_weight r"])

lemma vreg_off_clk [simp]: "trace_sum (clk_weight p) (vreg_off env v w) = trace_sum (clk_weight p) w"
  by (simp add: vreg_off_def Let_def)

lemma vregs_undo_clk [simp]: "trace_sum (clk_weight p) (vregs_undo env vs w) = trace_sum (clk_weight p) w"
  by (induction vs arbitrary: w) simp_all

lemma hw_clk: "msm_dss_is_hw_controlled env v w = (b, w') \<Longrightarrow> trace_sum (clk_weight p) w' = trace_sum (clk_weight p) w"
  by (auto simp: msm_dss_is_hw_controlled_def Let_def dest: ext_sum [where f = "clk_weight p"] split: prod.splits)

lemma vregs_off_clk: "trace_sum (clk_weight p) (vregs_off env vs w) = trace_sum (clk_weight p) w"
  by (induction vs arbitrary: w) (auto simp: Let_def dest!: hw_clk [where p = p] split: prod.split)

lemma vregs_on_clk: "vregs_on env prev vs rc0 w = (rc, w') \<Longrightarrow> trace_sum (clk_weight p) w' = trace_sum (clk_weight p) w"
  by (induction vs arbitrary: prev rc0 w)
     (auto simp: Let_def split: sum.splits prod.splits if_splits dest!: hw_clk [where p = p] ext_sum [where f = "clk_weight p"])

lemma enable_vreg_clk: "msm_dss_enable_vreg env vs b w = (rc, w') \<Longrightarrow> trace_sum (clk_weight p) w' = trace_sum (clk_weight p) w"
  by (auto simp: msm_dss_enable_vreg_def vregs_off_clk dest: vregs_on_clk split: if_splits)

lemma enable_clk_vreg: "msm_dss_enable_clk env cs b w = (rc, w') \<Longrightarrow> trace_sum (vreg_weight r) w' = trace_sum (vreg_weight r) w"
  by (auto simp: msm_dss_enable_clk_def clks_off_vreg dest: clks_on_vreg split: if_splits)

subsection \<open>What the handle relies on\<close>

text \<open>
  A kind of reference, to one clock or to one regulator: what switching the regulators and the clocks of
  the handle adds and takes away, and that no other call of the handle counts.
\<close>

definition quiet :: "(power_call \<times> int \<Rightarrow> int) \<Rightarrow> bool" where
  "quiet g \<longleftrightarrow> (\<forall>rc. (\<forall>h u. g (Bus_request h u, rc) = 0) \<and> (\<forall>f t u. g (Power_event f t u, rc) = 0) \<and>
     g (Rsc_create, rc) = 0 \<and> (\<forall>r b. g (Rsc_update r b, rc) = 0) \<and> (\<forall>c r. g (Clk_set_rate c r, rc) = 0) \<and> (\<forall>b. g (Cx_ipeak b, rc) = 0))"

locale power_refs =
  fixes env :: power_env and weight :: "nat \<Rightarrow> power_call \<times> int \<Rightarrow> int" and vload :: "nat \<Rightarrow> dss_vreg list \<Rightarrow> int"
    and loss :: "nat \<Rightarrow> dss_vreg list \<Rightarrow> int" and cload :: "nat \<Rightarrow> dss_clk list \<Rightarrow> int"
  assumes on_vreg: "regulators_ok env \<Longrightarrow> vregs_ok vs \<Longrightarrow> msm_dss_enable_vreg env vs b w = (rc, w') \<Longrightarrow>
      \<exists>k. \<forall>i. trace_sum (weight i) w' = trace_sum (weight i) w + (if \<not> b then - vload i vs else if rc = 0 then vload i vs else - loss i (take k vs))"
    and no_loss: "loss i [] = 0"
    and on_clk: "msm_dss_enable_clk env cs b w = (rc, w') \<Longrightarrow>
      trace_sum (weight i) w' = trace_sum (weight i) w + (if \<not> b then - cload i cs else if rc = 0 then cload i cs else 0)"
    and quiet: "quiet (weight i)"
begin

lemma vreg_off: "regulators_ok env \<Longrightarrow> vregs_ok vs \<Longrightarrow> msm_dss_enable_vreg env vs False w = (rc, w') \<Longrightarrow>
    trace_sum (weight i) w' = trace_sum (weight i) w - vload i vs"
  using on_vreg [of vs False w rc w'] by auto

lemma event_sum: "trace_sum (weight i) (sde_power_event_trigger_locked h t w) = trace_sum (weight i) w"
proof -
  have "trace_sum (weight i) (fold (\<lambda>(a, e) w. if ev_type e AND t \<noteq> 0 then vcall (Power_event (ev_cb e) t (ev_usr e)) w else w) es w) = trace_sum (weight i) w"
    for es :: "(nat \<times> sde_power_event) list"
    using quiet [of i] by (induction es arbitrary: w) (auto simp: trace_simps quiet_def)
  then show ?thesis by (simp add: sde_power_event_trigger_locked_def)
qed

lemma quota_sum: "sde_power_data_bus_set_quota_locked env b ab ib w = Some (rc, b', w') \<Longrightarrow> trace_sum (weight i) w' = trace_sum (weight i) w"
  using quiet [of i] unfolding sde_power_data_bus_set_quota_locked_def Let_def
  by (auto simp: quiet_def split: if_splits option.splits bind_splits prod.splits dest: ext_sum [where f = "weight i"])

lemma buses_sum: "data_buses_update env e stop bs w = Some (rc, bs', w') \<Longrightarrow> trace_sum (weight i) w' = trace_sum (weight i) w"
  by (induction bs arbitrary: w rc bs')
     (auto simp: sde_power_data_bus_update_def Let_def split: if_splits bind_splits prod.splits dest: quota_sum)

lemma scale_sum: "sde_power_scale_reg_bus env h a m s w = Some (rc, h', w') \<Longrightarrow> trace_sum (weight i) w' = trace_sum (weight i) w"
  using quiet [of i] unfolding sde_power_scale_reg_bus_def sde_power_reg_bus_update_def
  by (auto simp: quiet_def Let_def split: if_splits bind_splits prod.splits dest: ext_sum [where f = "weight i"])

lemma client_quota_sum: "sde_power_data_bus_set_quota env h a bc bid ab ib w = Some (rc, h', w') \<Longrightarrow> trace_sum (weight i) w' = trace_sum (weight i) w"
  unfolding sde_power_data_bus_set_quota_def
  by (auto simp: Let_def split: if_splits option.splits bind_splits prod.splits dest: quota_sum)

lemma set_rate_sum: "sde_power_clk_set_rate env h name rate w = (rc, h', w') \<Longrightarrow> trace_sum (weight i) w' = trace_sum (weight i) w"
proof -
  have v: "trace_sum (weight i) (snd (sde_cx_ipeak_vote env h c r q b v)) = trace_sum (weight i) v" for h c r q b v
    using quiet [of i] by (auto simp: sde_cx_ipeak_vote_def quiet_def ext_def)
  have c: "trace_sum (weight i) (snd (msm_dss_single_clk_set_rate env c v)) = trace_sum (weight i) v" for c v
    using quiet [of i] by (auto simp: msm_dss_single_clk_set_rate_def quiet_def ext_def)
  have "trace_sum (weight i) (snd (snd (sde_power_clk_set_rate env h name rate w))) = trace_sum (weight i) w"
    unfolding sde_power_clk_set_rate_def by (simp add: Let_def v c [unfolded prod.case_eq_if] case_prod_beta split: option.split)
  then show "sde_power_clk_set_rate env h name rate w = (rc, h', w') \<Longrightarrow> trace_sum (weight i) w' = trace_sum (weight i) w" by simp
qed

lemma rsc_sum: "sde_power_rsc_update env h b w = (rc, w') \<Longrightarrow> trace_sum (weight i) w' = trace_sum (weight i) w"
  using quiet [of i] unfolding sde_power_rsc_update_def by (auto simp: quiet_def split: option.splits dest: ext_sum [where f = "weight i"])

text \<open>Switching everything on counts all references, or none if it fails; switching off takes all away.\<close>

lemma vreg_err_sum: "vreg_err env prev rc h w = Some (rc', h', w') \<Longrightarrow> trace_sum (weight i) w' = trace_sum (weight i) w \<and> rc' = rc"
  unfolding vreg_err_def data_bus_hdl_err_def by (auto split: bind_splits prod.splits dest: buses_sum)

lemma reg_bus_hdl_err_sum:
  assumes "reg_bus_hdl_err env prev rc h w = Some (rc', h', w')" "regulators_ok env" "vregs_ok (mp_vregs h)"
  shows "trace_sum (weight i) w' = trace_sum (weight i) w - vload i (mp_vregs h) \<and> rc' = rc"
proof -
  obtain r1 w1 where v: "msm_dss_enable_vreg env (mp_vregs h) False w = (r1, w1)" by (cases "msm_dss_enable_vreg env (mp_vregs h) False w")
  show ?thesis using assms(1) v vreg_off [OF assms(2,3) v] by (auto simp: reg_bus_hdl_err_def dest: vreg_err_sum)
qed

lemma scale_fields: "sde_power_scale_reg_bus env h a m s w = Some (rc, h', w') \<Longrightarrow> mp_vregs h' = mp_vregs h \<and> mp_clks h' = mp_clks h"
  unfolding sde_power_scale_reg_bus_def by (auto simp: Let_def split: if_splits bind_splits prod.splits)

lemma rsc_err_sum:
  assumes "rsc_err env a m prev rc h w = Some (rc', h', w')" "regulators_ok env" "vregs_ok (mp_vregs h)"
  shows "trace_sum (weight i) w' = trace_sum (weight i) w - vload i (mp_vregs h) \<and> rc' = rc"
proof -
  obtain x h1 w1 where s: "sde_power_scale_reg_bus env h a m True w = Some (x, h1, w1)" "reg_bus_hdl_err env prev rc h1 w1 = Some (rc', h', w')"
    using assms(1) by (auto simp: rsc_err_def split: bind_splits prod.splits)
  note f = scale_fields [OF s(1)]
  show ?thesis using reg_bus_hdl_err_sum [OF s(2) assms(2)] assms(3) f scale_sum [OF s(1)] by simp
qed

lemma power_up_sum:
  assumes run: "power_up env a m prev h w = Some (rc, h', w')" and ok: "regulators_ok env" "vregs_ok (mp_vregs h)"
  shows "\<exists>k. \<forall>i. trace_sum (weight i) w' = trace_sum (weight i) w +
    (if rc = 0 then vload i (mp_vregs h) + cload i (mp_clks h) else - loss i (take k (mp_vregs h)))"
proof -
  define w0 where "w0 = sde_power_event_trigger_locked h PRE_ENABLE w"
  obtain r1 bs w1 where b: "data_buses_update env True True (data_bus_handle h) w0 = Some (r1, bs, w1)"
    using run by (auto simp: power_up_def w0_def split: bind_splits)
  define h1 where "h1 = set_buses h bs"
  have h1: "mp_vregs h1 = mp_vregs h" "mp_clks h1 = mp_clks h" by (simp_all add: h1_def set_buses_def)
  have s1: "trace_sum (weight i) w1 = trace_sum (weight i) w" for i using buses_sum [OF b] by (simp add: w0_def event_sum)
  obtain r2 w2 where v: "msm_dss_enable_vreg env (mp_vregs h1) True w1 = (r2, w2)" by (cases "msm_dss_enable_vreg env (mp_vregs h1) True w1")
  obtain k where s2: "\<And>i. trace_sum (weight i) w2 = trace_sum (weight i) w + (if r2 = 0 then vload i (mp_vregs h) else - loss i (take k (mp_vregs h)))"
    using on_vreg [OF ok(1) _ v, unfolded h1, OF ok(2)] s1 by auto
  show ?thesis
  proof (cases "r1 \<noteq> 0 \<or> r2 \<noteq> 0")
    case True
    have "\<forall>i. trace_sum (weight i) w' = trace_sum (weight i) w +
        (if rc = 0 then vload i (mp_vregs h) + cload i (mp_clks h) else - loss i (take (if r1 \<noteq> 0 then 0 else k) (mp_vregs h)))"
      using run b v s1 s2 True
      by (auto simp: power_up_def w0_def [symmetric] h1_def [symmetric] Let_def data_bus_hdl_err_def no_loss dest: vreg_err_sum split: if_splits)
    then show ?thesis by blast
  next
    case False
    obtain r3 h3 w3 where sc: "sde_power_scale_reg_bus env h1 a m True w2 = Some (r3, h3, w3)"
      using run b v False by (auto simp: power_up_def w0_def [symmetric] h1_def [symmetric] Let_def split: bind_splits)
    have h3: "mp_vregs h3 = mp_vregs h" "mp_clks h3 = mp_clks h" using scale_fields [OF sc] h1 by simp_all
    have s3: "trace_sum (weight i) w3 = trace_sum (weight i) w + vload i (mp_vregs h)" for i using scale_sum [OF sc] s2 False by simp
    have v3: "vregs_ok (mp_vregs h3)" using ok(2) h3 by simp
    obtain r4 w4 where rs: "sde_power_rsc_update env h3 True w3 = (r4, w4)" by (cases "sde_power_rsc_update env h3 True w3")
    note s4 = rsc_sum [OF rs]
    obtain r5 w5 where c: "msm_dss_enable_clk env (mp_clks h3) True w4 = (r5, w5)" by (cases "msm_dss_enable_clk env (mp_clks h3) True w4")
    note s5 = on_clk [OF c, unfolded h3]
    obtain r6 w6 where u: "sde_power_rsc_update env h3 False w5 = (r6, w6)" by (cases "sde_power_rsc_update env h3 False w5")
    note s6 = rsc_sum [OF u]
    have eq: "power_up env a m prev h w = (if r3 \<noteq> 0 then reg_bus_hdl_err env prev r3 h3 w3
        else if r4 \<noteq> 0 then rsc_err env a m prev r4 h3 w4
        else if r5 \<noteq> 0 then rsc_err env a m prev r5 h3 w6
        else Some (r5, h3, sde_power_event_trigger_locked h3 POST_ENABLE w5))"
      using b v False sc rs c u by (simp add: power_up_def w0_def [symmetric] h1_def [symmetric] Let_def)
    have "trace_sum (weight i) w' = trace_sum (weight i) w +
        (if rc = 0 then vload i (mp_vregs h) + cload i (mp_clks h) else - loss i (take 0 (mp_vregs h)))" for i
      using run [unfolded eq] s3 [of i] s4 [of i] s5 [of i] s6 [of i] h3
      by (auto simp: event_sum no_loss split: if_splits dest!: reg_bus_hdl_err_sum [OF _ ok(1) v3, of _ _ _ _ _ _ i] rsc_err_sum [OF _ ok(1) v3, of _ _ _ _ _ _ _ _ i])
    then show ?thesis by blast
  qed
qed

lemma power_down_sum:
  assumes run: "power_down env a m h w = Some (rc, h', w')" and ok: "regulators_ok env" "vregs_ok (mp_vregs h)"
  shows "trace_sum (weight i) w' = trace_sum (weight i) w - vload i (mp_vregs h) - cload i (mp_clks h) \<and> rc = 0"
proof -
  define w0 where "w0 = sde_power_event_trigger_locked h PRE_DISABLE w"
  obtain r1 w1 where rs: "sde_power_rsc_update env h False w0 = (r1, w1)" by (cases "sde_power_rsc_update env h False w0")
  obtain r2 w2 where c: "msm_dss_enable_clk env (mp_clks h) False w1 = (r2, w2)" by (cases "msm_dss_enable_clk env (mp_clks h) False w1")
  obtain r3 h3 w3 where sc: "sde_power_scale_reg_bus env h a m True w2 = Some (r3, h3, w3)"
    using run rs c by (auto simp: power_down_def w0_def [symmetric] Let_def split: bind_splits)
  have h3: "mp_vregs h3 = mp_vregs h" using scale_fields [OF sc] by simp
  obtain r4 w4 where v: "msm_dss_enable_vreg env (mp_vregs h3) False w3 = (r4, w4)" by (cases "msm_dss_enable_vreg env (mp_vregs h3) False w3")
  obtain r5 bs w5 where b: "data_buses_update env False False (data_bus_handle h3) w4 = Some (r5, bs, w5)"
    using run rs c sc v by (auto simp: power_down_def w0_def [symmetric] Let_def split: bind_splits)
  have "w' = sde_power_event_trigger_locked (set_buses h3 bs) POST_DISABLE w5 \<and> rc = 0"
    using run rs c sc v b by (auto simp: power_down_def w0_def [symmetric] Let_def)
  then show ?thesis
    using rsc_sum [OF rs] on_clk [OF c] scale_sum [OF sc] vreg_off [OF ok(1) _ v, unfolded h3, OF ok(2)] buses_sum [OF b]
    by (simp add: event_sum w0_def)
qed

end

lemma quiet_weights: "quiet (clk_weight p)" "quiet (vreg_weight r)"
  by (simp_all add: quiet_def)

interpretation clk_refs: power_refs env clk_weight "\<lambda>p vs. 0" "\<lambda>p vs. 0" clk_load for env
  by unfold_locales (auto simp: quiet_weights enable_clk_sum dest: enable_vreg_clk)

interpretation vreg_refs: power_refs env vreg_weight "vreg_load env" "hw_load env" "\<lambda>r cs. 0" for env
proof unfold_locales
  show "\<exists>k. \<forall>i. trace_sum (vreg_weight i) w' = trace_sum (vreg_weight i) w +
      (if \<not> b then - vreg_load env i vs else if rc = 0 then vreg_load env i vs else - hw_load env i (take k vs))"
    if "regulators_ok env" "vregs_ok vs" "msm_dss_enable_vreg env vs b w = (rc, w')" for vs b w rc w'
    by (rule enable_vreg_sum [OF that(2,1,3)])
qed (auto simp: quiet_weights dest: enable_clk_vreg)

end
