(* ===== verification/Sde_Power_Run.thy ===== *)
theory Sde_Power_Run
  imports Sde_Power_Inv
begin

section \<open>Power handle: operations\<close>

text \<open>
  That every operation on a well-formed handle has a result, what it changes, and the relation between
  the votes of the clients, their reference counts and the state of the handle.
\<close>

subsection \<open>Bandwidth votes\<close>

text \<open>
  A registered bus has a table with a use case besides the idle one, vectors for all of its paths, and a
  path for real-time traffic.
\<close>

definition bus_ok :: "sde_power_data_bus_handle \<Rightarrow> bool" where
  "bus_ok b \<longleftrightarrow> (\<forall>t. bw_table b = Some t \<longrightarrow> 2 \<le> length t \<and> length t < 2 ^ 32 \<and>
     (\<forall>vs \<in> set t. unat (data_paths_cnt b) \<le> length vs)) \<and> nrt_data_paths_cnt b < data_paths_cnt b"

lemma write_vectors_result:
  "u < length t \<Longrightarrow> i + length qs \<le> length (t ! u) \<Longrightarrow>
     write_vectors t u i qs = Some (t[u := take i (t ! u) @ qs @ drop (i + length qs) (t ! u)])"
proof (induction qs arbitrary: t i)
  case (Cons q qs)
  have i: "i < length (t ! u)" using Cons.prems by simp
  have "write_vectors (t[u := (t ! u)[i := q]]) u (i + 1) qs =
      Some ((t[u := (t ! u)[i := q]])[u := take (i + 1) ((t ! u)[i := q]) @ qs @ drop (i + 1 + length qs) ((t ! u)[i := q])])"
    using Cons.IH [of "t[u := (t ! u)[i := q]]" "i + 1"] Cons.prems by simp
  moreover have "take (i + 1) ((t ! u)[i := q]) = take i (t ! u) @ [q]"
    using i by (simp add: take_Suc_conv_app_nth)
  ultimately show ?case using Cons.prems i by simp
qed simp

lemma rt_paths: "nrt < (paths :: u32) \<Longrightarrow> paths - nrt \<noteq> 0"
  by auto

lemma path_quotas_result:
  assumes "nrt < paths"
  shows "\<exists>qs. path_quotas paths nrt ab ib = Some qs \<and> length qs = unat paths"
  using assms rt_paths [OF assms] by (auto simp: path_quotas_def div_opt_def Let_def)

text \<open>The next use case goes round the table without its idle entry.\<close>

lemma next_usecase:
  assumes "2 \<le> n" "n < 2 ^ 32"
  defines "m \<equiv> (word_of_nat n :: u32) - 1"
  shows "m \<noteq> 0" "unat (c mod m + 1) = unat c mod (n - 1) + 1" "unat (c mod m + 1) < n"
proof -
  have n: "unat (word_of_nat n :: u32) = n" using assms(2) by (simp add: unsigned_of_nat take_bit_nat_eq_self)
  have "(word_of_nat n :: u32) \<noteq> 0" using n assms(1) by (metis unat_0 not_numeral_le_zero)
  then have m: "unat m = n - 1" unfolding m_def using n by (simp add: unat_minus_one)
  then show "m \<noteq> 0" using assms(1) by auto
  have "unat c mod (n - 1) < n - 1" using assms(1) by simp
  then have lt: "unat (c mod m) + 1 < 2 ^ 32" using m assms(2) by (simp add: unat_mod_distrib)
  then have "unat (c mod m + 1) = unat (c mod m) + 1"
    by (simp add: unat_word_ariths)
  then show "unat (c mod m + 1) = unat c mod (n - 1) + 1" using m by (simp add: unat_mod_distrib)
  with \<open>unat c mod (n - 1) < n - 1\<close> show "unat (c mod m + 1) < n" by simp
qed

lemma set_quota_active:
  fixes ab ib :: "u64 \<times> u64" and b :: sde_power_data_bus_handle and t :: "(u64 \<times> u64) list list"
  assumes ok: "bus_ok b" and t: "bw_table b = Some t"
  defines "ib1 \<equiv> (if bus_enable b then (max (fst ib) ENABLE_BUS_IB_QUOTA, snd ib) else (0, 0))"
    and "ab1 \<equiv> (if bus_enable b then ab else (0, 0))"
  assumes act: "\<not> data_bus_hdl b < 1" "\<not> (fst ab1 = 0 \<and> snd ab1 = 0 \<and> fst ib1 = 0 \<and> snd ib1 = 0)"
    "unat (data_paths_cnt b) \<le> MAX_AXI_PORT_COUNT"
  defines "uc \<equiv> curr_bw_uc_idx b mod (word_of_nat (length t) - 1) + 1"
  shows "\<exists>qs. path_quotas (data_paths_cnt b) (nrt_data_paths_cnt b) ab1 ib1 = Some qs \<and> length qs = unat (data_paths_cnt b) \<and>
    sde_power_data_bus_set_quota_locked env b ab ib w = Some (env w (Bus_request (data_bus_hdl b) uc),
      b\<lparr>ab_rt := fst ab, ib_rt := fst ib, ab_nrt := snd ab, ib_nrt := snd ib,
        bw_table := Some (t[unat uc := qs @ drop (length qs) (t ! unat uc)]), curr_bw_uc_idx := uc, ao_bw_uc_idx := uc\<rparr>,
      w @ [(Bus_request (data_bus_hdl b) uc, env w (Bus_request (data_bus_hdl b) uc))])"
proof -
  have ln: "2 \<le> length t" "length t < 2 ^ 32" "\<forall>vs \<in> set t. unat (data_paths_cnt b) \<le> length vs"
    "nrt_data_paths_cnt b < data_paths_cnt b" using ok t by (simp_all add: bus_ok_def)
  obtain qs where qs: "path_quotas (data_paths_cnt b) (nrt_data_paths_cnt b) ab1 ib1 = Some qs" "length qs = unat (data_paths_cnt b)"
    using path_quotas_result [OF ln(4)] by blast
  define m where "m = (word_of_nat (length t) :: u32) - 1"
  have uc: "uc = curr_bw_uc_idx b mod m + 1" by (simp add: uc_def m_def)
  have u: "m \<noteq> 0" "unat uc < length t" using next_usecase [OF ln(1,2)] by (simp_all add: m_def uc_def)
  define t' where "t' = t[unat uc := take 0 (t ! unat uc) @ qs @ drop (0 + length qs) (t ! unat uc)]"
  have "0 + length qs \<le> length (t ! unat uc)" using ln(3) u(2) qs(2) by simp
  then have wv: "write_vectors t (unat uc) 0 qs = Some t'" using write_vectors_result [OF u(2)] by (simp only: t'_def)
  have p0: "data_paths_cnt b \<noteq> 0" using ln(4) by auto
  define b1 where "b1 = b\<lparr>ab_rt := fst ab, ib_rt := fst ib, ab_nrt := snd ab, ib_nrt := snd ib\<rparr>"
  have "sde_power_data_bus_set_quota_locked env b ab ib w = Some (env w (Bus_request (data_bus_hdl b) uc),
      b1\<lparr>bw_table := Some t', curr_bw_uc_idx := uc, ao_bw_uc_idx := uc\<rparr>,
      w @ [(Bus_request (data_bus_hdl b) uc, env w (Bus_request (data_bus_hdl b) uc))])"
    using act t qs(1) u(1) wv p0
    unfolding sde_power_data_bus_set_quota_locked_def Let_def b1_def [symmetric]
    by (auto simp: b1_def ab1_def [symmetric] ib1_def [symmetric] m_def [symmetric] uc ext_def)
  then show ?thesis using qs by (simp add: b1_def t'_def)
qed

lemma set_quota_defined:
  assumes ok: "bus_ok b"
  shows "\<exists>rc b' w'. sde_power_data_bus_set_quota_locked env b ab ib w = Some (rc, b', w') \<and> bus_ok b' \<and>
    bus_enable b' = bus_enable b \<and> data_bus_hdl b' = data_bus_hdl b"
proof -
  define ib1 where "ib1 = (if bus_enable b then (max (fst ib) ENABLE_BUS_IB_QUOTA, snd ib) else (0, 0))"
  define ab1 where "ab1 = (if bus_enable b then ab else (0, 0))"
  show ?thesis
  proof (cases "data_bus_hdl b < 1 \<or> fst ab1 = 0 \<and> snd ab1 = 0 \<and> fst ib1 = 0 \<and> snd ib1 = 0 \<or> bw_table b = None \<or>
      data_paths_cnt b = 0 \<or> unat (data_paths_cnt b) > MAX_AXI_PORT_COUNT")
    case True
    then show ?thesis using ok
      by (auto simp: sde_power_data_bus_set_quota_locked_def Let_def ab1_def ib1_def bus_ok_def ext_def split: option.split)
  next
    case False
    then obtain t where t: "bw_table b = Some t" by auto
    have act: "\<not> data_bus_hdl b < 1" "\<not> (fst ab1 = 0 \<and> snd ab1 = 0 \<and> fst ib1 = 0 \<and> snd ib1 = 0)"
      "unat (data_paths_cnt b) \<le> MAX_AXI_PORT_COUNT" using False by simp_all
    from set_quota_active [OF ok t, where ab = ab and ib = ib and env = env and w = w, folded ab1_def ib1_def, OF act]
    obtain qs where qs: "length qs = unat (data_paths_cnt b)"
      "sde_power_data_bus_set_quota_locked env b ab ib w = Some (env w (Bus_request (data_bus_hdl b) (curr_bw_uc_idx b mod (word_of_nat (length t) - 1) + 1)),
      b\<lparr>ab_rt := fst ab, ib_rt := fst ib, ab_nrt := snd ab, ib_nrt := snd ib,
        bw_table := Some (t[unat (curr_bw_uc_idx b mod (word_of_nat (length t) - 1) + 1) :=
          qs @ drop (length qs) (t ! unat (curr_bw_uc_idx b mod (word_of_nat (length t) - 1) + 1))]),
        curr_bw_uc_idx := curr_bw_uc_idx b mod (word_of_nat (length t) - 1) + 1, ao_bw_uc_idx := curr_bw_uc_idx b mod (word_of_nat (length t) - 1) + 1\<rparr>,
      w @ [(Bus_request (data_bus_hdl b) (curr_bw_uc_idx b mod (word_of_nat (length t) - 1) + 1),
        env w (Bus_request (data_bus_hdl b) (curr_bw_uc_idx b mod (word_of_nat (length t) - 1) + 1)))])"
      by blast
    have ln: "2 \<le> length t" "length t < 2 ^ 32" "\<forall>vs \<in> set t. unat (data_paths_cnt b) \<le> length vs"
      "nrt_data_paths_cnt b < data_paths_cnt b" using ok t by (simp_all add: bus_ok_def)
    have "\<forall>vs \<in> set (t[u := qs @ drop (length qs) (t ! u)]). unat (data_paths_cnt b) \<le> length vs" for u
      using ln(3) qs(1) by (auto dest!: set_update_subset_insert [THEN subsetD])
    then show ?thesis using qs(2) ln by (simp add: bus_ok_def)
  qed
qed

lemma buses_defined:
  "\<forall>b \<in> set bs. bus_ok b \<Longrightarrow>
   \<exists>rc bs' w'. data_buses_update env e stop bs w = Some (rc, bs', w') \<and> (\<forall>b \<in> set bs'. bus_ok b) \<and> length bs' = length bs"
proof (induction bs arbitrary: w)
  case (Cons b bs)
  have ok: "bus_ok (b\<lparr>bus_enable := e\<rparr>)" using Cons.prems by (simp add: bus_ok_def)
  obtain rc b' w' where b: "sde_power_data_bus_update env b e w = Some (rc, b', w')" "bus_ok b'"
  proof (cases "data_bus_hdl b = 0")
    case True
    then show ?thesis using that [of 0 "b\<lparr>bus_enable := e\<rparr>" w] ok by (simp add: sde_power_data_bus_update_def Let_def)
  next
    case False
    then show ?thesis
      using set_quota_defined [OF ok, of env "(ab_rt b, ab_nrt b)" "(ib_rt b, ib_nrt b)" w] that
      by (auto simp: sde_power_data_bus_update_def Let_def)
  qed
  show ?case
  proof (cases "stop \<and> rc \<noteq> 0")
    case True
    then show ?thesis using b Cons.prems by simp
  next
    case False
    obtain r bs' v where "data_buses_update env e stop bs w' = Some (r, bs', v)" "\<forall>b \<in> set bs'. bus_ok b" "length bs' = length bs"
      using Cons.IH [of w'] Cons.prems by auto
    then show ?thesis using b False by auto
  qed
qed simp

subsection \<open>Clients\<close>

definition handle_ok :: "sde_power_handle \<Rightarrow> bool" where
  "handle_ok h \<longleftrightarrow> distinct (clist h) \<and> (\<forall>a \<in> set (clist h). \<exists>c. pheap h a = Some c \<and> pc_active c) \<and>
     length (data_bus_handle h) = DBUS_ID_MAX \<and> (\<forall>b \<in> set (data_bus_handle h). bus_ok b) \<and> vregs_ok (mp_vregs h)"

lemma those_map: "\<forall>x \<in> set xs. f x \<noteq> None \<Longrightarrow> those (map f xs) = Some (map (the \<circ> f) xs)"
  by (induction xs) auto

lemma clients_result:
  "\<forall>a \<in> set (clist h). \<exists>c. pheap h a = Some c \<Longrightarrow> power_clients h = Some (map (\<lambda>a. the (pheap h a)) (clist h))"
  using those_map [of "clist h" "pheap h"] by (auto simp: power_clients_def comp_def)

text \<open>Which clients hold a reference, and that the votes go with them.\<close>

definition holds :: "sde_power_handle \<Rightarrow> nat \<Rightarrow> bool" where
  "holds h a \<longleftrightarrow> a \<in> set (clist h) \<and> (\<exists>c. pheap h a = Some c \<and> pc_refcount c \<noteq> 0)"

definition votes_ok :: "sde_power_handle \<Rightarrow> bool" where
  "votes_ok h \<longleftrightarrow> (\<forall>a \<in> set (clist h). \<forall>c. pheap h a = Some c \<longrightarrow> pc_usecase c \<le> 3 \<and> (pc_usecase c = 0 \<longleftrightarrow> pc_refcount c = 0))"

lemma small_vote:
  assumes "u \<le> (3 :: 16 word)"
  shows "sint u < int VOTE_INDEX_MAX" "(scast u :: u32) = ucast u" "(ucast u :: u32) \<le> 3" "(ucast u :: u32) = 0 \<longleftrightarrow> u = 0"
proof -
  have "u = 0 \<or> u = 1 \<or> u = 2 \<or> u = 3"
  proof -
    have "unat u \<le> 3" using assms by (simp add: word_le_nat_alt)
    then have "unat u = 0 \<or> unat u = 1 \<or> unat u = 2 \<or> unat u = 3" by linarith
    moreover have "u = word_of_nat (unat u)" by simp
    ultimately show ?thesis by (elim disjE) simp_all
  qed
  then show "sint u < int VOTE_INDEX_MAX" "(scast u :: u32) = ucast u" "(ucast u :: u32) \<le> 3" "(ucast u :: u32) = 0 \<longleftrightarrow> u = 0"
    by (auto simp: VOTE_INDEX_MAX_def)
qed

lemma max_usecase_result:
  "\<forall>c \<in> set cs. pc_usecase c \<le> 3 \<Longrightarrow> m \<le> 3 \<Longrightarrow>
     max_usecase cs m \<le> 3 \<and> (max_usecase cs m \<noteq> 0 \<longleftrightarrow> m \<noteq> 0 \<or> (\<exists>c \<in> set cs. pc_usecase c \<noteq> 0))"
proof (induction cs arbitrary: m)
  case (Cons c cs)
  define m1 where "m1 = (if sint (pc_usecase c) < int VOTE_INDEX_MAX \<and> (scast (pc_usecase c) :: u32) > m then scast (pc_usecase c) else m)"
  note v = small_vote [of "pc_usecase c"]
  have "m1 \<le> 3" "m1 \<noteq> 0 \<longleftrightarrow> m \<noteq> 0 \<or> pc_usecase c \<noteq> 0"
    using Cons.prems v by (auto simp: m1_def word_neq_0_conv)
  then show ?case using Cons.IH [of m1] Cons.prems(1) by (auto simp: m1_def)
qed simp

subsection \<open>What switching changes\<close>

text \<open>Switching changes the buses, the state and the vote of the client that asks.\<close>

definition touched :: "nat \<Rightarrow> u32 \<Rightarrow> sde_power_handle \<Rightarrow> sde_power_handle \<Rightarrow> bool" where
  "touched a m h h' \<longleftrightarrow> (\<exists>bs p cur. h' = h\<lparr>data_bus_handle := bs, pheap := p, current_usecase := cur\<rparr> \<and>
     length bs = DBUS_ID_MAX \<and> (\<forall>b \<in> set bs. bus_ok b) \<and>
     (p = pheap h \<or> (\<exists>c. pheap h a = Some c \<and> p = (pheap h)(a \<mapsto> c\<lparr>pc_usecase := ucast m\<rparr>))))"

lemma touched_refl: "handle_ok h \<Longrightarrow> touched a m h h"
  unfolding touched_def handle_ok_def
  by (intro exI [of _ "data_bus_handle h"] exI [of _ "pheap h"] exI [of _ "current_usecase h"]) simp

lemma touched_trans:
  assumes "touched a m h h1" "touched a m h1 h2"
  shows "touched a m h h2"
proof -
  obtain bs p cur where 1: "h1 = h\<lparr>data_bus_handle := bs, pheap := p, current_usecase := cur\<rparr>"
    "p = pheap h \<or> (\<exists>c. pheap h a = Some c \<and> p = (pheap h)(a \<mapsto> c\<lparr>pc_usecase := ucast m\<rparr>))"
    using assms(1) unfolding touched_def by (elim exE conjE) (rule that)
  obtain bs2 p2 cur2 where 2: "h2 = h1\<lparr>data_bus_handle := bs2, pheap := p2, current_usecase := cur2\<rparr>" "length bs2 = DBUS_ID_MAX" "\<forall>b \<in> set bs2. bus_ok b"
    "p2 = pheap h1 \<or> (\<exists>c. pheap h1 a = Some c \<and> p2 = (pheap h1)(a \<mapsto> c\<lparr>pc_usecase := ucast m\<rparr>))"
    using assms(2) unfolding touched_def by (elim exE conjE) (rule that)
  have "p2 = pheap h \<or> (\<exists>c. pheap h a = Some c \<and> p2 = (pheap h)(a \<mapsto> c\<lparr>pc_usecase := ucast m\<rparr>))"
    using 1 2(4) by auto
  then show ?thesis
    unfolding touched_def using 1(1) 2(1-3) by (intro exI [of _ bs2] exI [of _ p2] exI [of _ cur2]) simp
qed

lemma touched_ok:
  assumes "touched a m h h'" "handle_ok h"
  shows "handle_ok h'" "mp_clks h' = mp_clks h" "mp_vregs h' = mp_vregs h" "clist h' = clist h"
    "pheap h' = pheap h \<or> (\<exists>c. pheap h a = Some c \<and> pheap h' = (pheap h)(a \<mapsto> c\<lparr>pc_usecase := ucast m\<rparr>))"
proof -
  obtain bs p cur where 1: "h' = h\<lparr>data_bus_handle := bs, pheap := p, current_usecase := cur\<rparr>" "length bs = DBUS_ID_MAX" "\<forall>b \<in> set bs. bus_ok b"
    "p = pheap h \<or> (\<exists>c. pheap h a = Some c \<and> p = (pheap h)(a \<mapsto> c\<lparr>pc_usecase := ucast m\<rparr>))"
    using assms(1) unfolding touched_def by (elim exE conjE) (rule that)
  then show "mp_clks h' = mp_clks h" "mp_vregs h' = mp_vregs h" "clist h' = clist h"
    "pheap h' = pheap h \<or> (\<exists>c. pheap h a = Some c \<and> pheap h' = (pheap h)(a \<mapsto> c\<lparr>pc_usecase := ucast m\<rparr>))" by simp_all
  have "\<forall>x \<in> set (clist h). \<exists>c. p x = Some c \<and> pc_active c" using assms(2) 1(4) unfolding handle_ok_def by fastforce
  then show "handle_ok h'" using assms(2) 1(1-3) by (simp add: handle_ok_def)
qed

lemma touched_cur: "touched a m h h' \<Longrightarrow> touched a m h (h'\<lparr>current_usecase := x\<rparr>)"
  unfolding touched_def by (elim exE conjE) auto

lemma touched_buses: "handle_ok h \<Longrightarrow> length bs = DBUS_ID_MAX \<Longrightarrow> \<forall>b \<in> set bs. bus_ok b \<Longrightarrow> touched a m h (set_buses h bs)"
  unfolding touched_def set_buses_def
  by (intro exI [of _ bs] exI [of _ "pheap h"] exI [of _ "current_usecase h"]) simp

lemma buses_touched:
  assumes "handle_ok h"
  shows "\<exists>rc bs w'. data_buses_update env e stop (data_bus_handle h) w = Some (rc, bs, w') \<and> touched a m h (set_buses h bs)"
  using buses_defined [of "data_bus_handle h" env e stop w] assms touched_buses [OF assms]
  by (auto simp: handle_ok_def)

lemma scale_touched:
  assumes ok: "handle_ok h" and a: "a \<in> set (clist h)"
  shows "\<exists>rc h' w'. sde_power_scale_reg_bus env h a m True w = Some (rc, h', w') \<and> touched a m h h' \<and> current_usecase h' = current_usecase h"
proof -
  obtain c where c: "pheap h a = Some c" using ok a by (auto simp: handle_ok_def)
  define h1 where "h1 = h\<lparr>pheap := (pheap h)(a \<mapsto> c\<lparr>pc_usecase := ucast m\<rparr>)\<rparr>"
  have "\<forall>x \<in> set (clist h1). \<exists>c. pheap h1 x = Some c" using ok by (auto simp: h1_def handle_ok_def)
  then have "power_clients h1 = Some (map (\<lambda>a. the (pheap h1 a)) (clist h1))" by (rule clients_result)
  then have "\<exists>rc w'. sde_power_scale_reg_bus env h a m True w = Some (rc, h1, w')"
    using c by (simp add: sde_power_scale_reg_bus_def h1_def [symmetric] Let_def split: prod.split)
  moreover have "touched a m h h1"
    using ok c unfolding touched_def h1_def
    by (intro exI [of _ "data_bus_handle h"] exI [of _ "(pheap h)(a \<mapsto> c\<lparr>pc_usecase := ucast m\<rparr>)"] exI [of _ "current_usecase h"]) (simp add: handle_ok_def)
  ultimately show ?thesis by (auto simp: h1_def)
qed

lemma vreg_err_touched:
  assumes "handle_ok h"
  shows "\<exists>h' w'. vreg_err env prev rc h w = Some (rc, h', w') \<and> touched a m h h' \<and> current_usecase h' = prev"
  using buses_touched [OF assms, of env False False w a m] touched_cur
  by (auto simp: vreg_err_def data_bus_hdl_err_def)

lemma rsc_err_touched:
  assumes "handle_ok h" "a \<in> set (clist h)"
  shows "\<exists>h' w'. rsc_err env a m prev rc h w = Some (rc, h', w') \<and> touched a m h h' \<and> current_usecase h' = prev"
proof -
  obtain r h1 w1 where s: "sde_power_scale_reg_bus env h a m True w = Some (r, h1, w1)" "touched a m h h1"
    using scale_touched [OF assms] by blast
  obtain h2 w2 where e: "vreg_err env prev rc h1 (snd (msm_dss_enable_vreg env (mp_vregs h1) False w1)) = Some (rc, h2, w2)" "touched a m h1 h2"
    "current_usecase h2 = prev"
    using vreg_err_touched [OF touched_ok(1) [OF s(2) assms(1)]] by blast
  then show ?thesis using s(1) touched_trans [OF s(2) e(2)] by (auto simp: rsc_err_def reg_bus_hdl_err_def)
qed

lemma power_up_touched:
  assumes ok: "handle_ok h" and a: "a \<in> set (clist h)"
  shows "\<exists>rc h' w'. power_up env a m prev h w = Some (rc, h', w') \<and> touched a m h h' \<and>
    current_usecase h' = (if rc = 0 then current_usecase h else prev)"
proof -
  define w0 where "w0 = sde_power_event_trigger_locked h PRE_ENABLE w"
  obtain r1 bs w1 where b: "data_buses_update env True True (data_bus_handle h) w0 = Some (r1, bs, w1)" "touched a m h (set_buses h bs)"
    using buses_touched [OF ok] by blast
  define h1 where "h1 = set_buses h bs"
  have t1: "touched a m h h1" using b(2) by (simp add: h1_def)
  have h1: "handle_ok h1" "a \<in> set (clist h1)" "current_usecase h1 = current_usecase h"
    using touched_ok [OF t1 ok] a by (simp_all add: h1_def set_buses_def)
  obtain r2 w2 where v: "msm_dss_enable_vreg env (mp_vregs h1) True w1 = (r2, w2)" by (cases "msm_dss_enable_vreg env (mp_vregs h1) True w1")
  obtain r3 h3 w3 where sc: "sde_power_scale_reg_bus env h1 a m True w2 = Some (r3, h3, w3)" "touched a m h1 h3" "current_usecase h3 = current_usecase h1"
    using scale_touched [OF h1(1,2)] by blast
  have t3: "touched a m h h3" by (rule touched_trans [OF t1 sc(2)])
  have h3: "handle_ok h3" "a \<in> set (clist h3)" using touched_ok [OF t3 ok] a by simp_all
  obtain r4 w4 where rs: "sde_power_rsc_update env h3 True w3 = (r4, w4)" by (cases "sde_power_rsc_update env h3 True w3")
  obtain r5 w5 where c: "msm_dss_enable_clk env (mp_clks h3) True w4 = (r5, w5)" by (cases "msm_dss_enable_clk env (mp_clks h3) True w4")
  have e: "power_up env a m prev h w =
     (if r1 \<noteq> 0 then data_bus_hdl_err prev r1 h1 w1
      else if r2 \<noteq> 0 then vreg_err env prev r2 h1 w2
      else if r3 \<noteq> 0 then vreg_err env prev r3 h3 (snd (msm_dss_enable_vreg env (mp_vregs h3) False w3))
      else if r4 \<noteq> 0 then rsc_err env a m prev r4 h3 w4
      else if r5 \<noteq> 0 then rsc_err env a m prev r5 h3 (snd (sde_power_rsc_update env h3 False w5))
      else Some (r5, h3, sde_power_event_trigger_locked h3 POST_ENABLE w5))"
    using b(1) v sc(1) rs c by (simp add: power_up_def w0_def [symmetric] h1_def [symmetric] Let_def reg_bus_hdl_err_def)
  show ?thesis
  proof (cases "r1 \<noteq> 0 \<or> r2 \<noteq> 0")
    case True
    then show ?thesis
      using vreg_err_touched [OF h1(1), of env prev r2 w2 a m] touched_trans [OF t1] touched_cur [OF t1, of prev]
      by (cases "r1 = 0") (auto simp: e data_bus_hdl_err_def)
  next
    case False
    then show ?thesis
      using vreg_err_touched [OF h3(1), of env prev r3 "snd (msm_dss_enable_vreg env (mp_vregs h3) False w3)" a m]
        rsc_err_touched [OF h3, of env m prev r4 w4] rsc_err_touched [OF h3, of env m prev r5 "snd (sde_power_rsc_update env h3 False w5)"]
        touched_trans [OF t3] t3 sc(3) h1(3)
      by (cases "r3 = 0"; cases "r4 = 0"; cases "r5 = 0") (auto simp: e)
  qed
qed

lemma power_down_touched:
  assumes ok: "handle_ok h" and a: "a \<in> set (clist h)"
  shows "\<exists>h' w'. power_down env a m h w = Some (0, h', w') \<and> touched a m h h' \<and> current_usecase h' = current_usecase h"
proof -
  define w2 where "w2 = snd (msm_dss_enable_clk env (mp_clks h) False (snd (sde_power_rsc_update env h False (sde_power_event_trigger_locked h PRE_DISABLE w))))"
  obtain r3 h3 w3 where sc: "sde_power_scale_reg_bus env h a m True w2 = Some (r3, h3, w3)" "touched a m h h3" "current_usecase h3 = current_usecase h"
    using scale_touched [OF ok a] by blast
  have h3: "handle_ok h3" using touched_ok [OF sc(2) ok] by simp
  obtain r5 bs w5 where b: "data_buses_update env False False (data_bus_handle h3) (snd (msm_dss_enable_vreg env (mp_vregs h3) False w3)) = Some (r5, bs, w5)"
    "touched a m h3 (set_buses h3 bs)"
    using buses_touched [OF h3] by blast
  show ?thesis
    using sc(1,3) b(1) touched_trans [OF sc(2) b(2)]
    by (simp add: power_down_def w2_def [symmetric] Let_def) (simp add: set_buses_def)
qed

end
