(* ===== verification/Sde_Power_Step.thy ===== *)
theory Sde_Power_Step
  imports Sde_Power_Run
begin

section \<open>Power handle: runs\<close>

text \<open>
  The operations of the handle as steps, what its callers see to, and the invariant that regular runs
  keep: the handle is on exactly while a client holds a reference, and then everything is counted once.
\<close>

subsection \<open>Votes\<close>

lemma votes_max:
  assumes "votes_ok h" "handle_ok h"
  defines "m \<equiv> max_usecase (map (\<lambda>a. the (pheap h a)) (clist h)) VOTE_INDEX_DISABLE"
  shows "m \<le> 3" "m \<noteq> 0 \<longleftrightarrow> (\<exists>x. holds h x)"
proof -
  define cs where "cs = map (\<lambda>a. the (pheap h a)) (clist h)"
  have c: "\<exists>c. pheap h x = Some c \<and> pc_usecase c \<le> 3 \<and> (pc_usecase c = 0 \<longleftrightarrow> pc_refcount c = 0)" if "x \<in> set (clist h)" for x
    using assms(1,2) that by (auto simp: votes_ok_def handle_ok_def)
  then have "\<forall>c \<in> set cs. pc_usecase c \<le> 3" by (fastforce simp: cs_def)
  from max_usecase_result [OF this, of 0] have r: "m \<le> 3" "m \<noteq> 0 \<longleftrightarrow> (\<exists>c \<in> set cs. pc_usecase c \<noteq> 0)"
    by (simp_all add: m_def cs_def VOTE_INDEX_DISABLE_def)
  show "m \<le> 3" by (rule r)
  have "(\<exists>c \<in> set cs. pc_usecase c \<noteq> 0) \<longleftrightarrow> (\<exists>x \<in> set (clist h). pc_usecase (the (pheap h x)) \<noteq> 0)" by (simp add: cs_def)
  also have "\<dots> \<longleftrightarrow> (\<exists>x \<in> set (clist h). holds h x)"
  proof (rule bex_cong)
    fix x assume "x \<in> set (clist h)"
    with c [OF this] show "pc_usecase (the (pheap h x)) \<noteq> 0 \<longleftrightarrow> holds h x" by (auto simp: holds_def)
  qed simp
  also have "\<dots> \<longleftrightarrow> (\<exists>x. holds h x)" by (auto simp: holds_def)
  finally show "m \<noteq> 0 \<longleftrightarrow> (\<exists>x. holds h x)" using r(2) by simp
qed

lemma touched_votes:
  assumes t: "touched a m h h'" and ok: "handle_ok h" "votes_ok h" and m: "m \<le> 3" "m \<noteq> 0 \<longleftrightarrow> holds h a" "a \<in> set (clist h)"
  shows "votes_ok h'" "holds h' x \<longleftrightarrow> holds h x"
proof -
  note f = touched_ok [OF t ok(1)]
  have u: "ucast m \<le> (3 :: 16 word)" "(ucast m :: 16 word) = 0 \<longleftrightarrow> m = 0"
  proof -
    have "unat m \<le> 3" using m(1) by (simp add: word_le_nat_alt)
    then have "unat m = 0 \<or> unat m = 1 \<or> unat m = 2 \<or> unat m = 3" by linarith
    moreover have "m = word_of_nat (unat m)" by simp
    ultimately have "m = 0 \<or> m = 1 \<or> m = 2 \<or> m = 3" by (elim disjE) simp_all
    then show "ucast m \<le> (3 :: 16 word)" "(ucast m :: 16 word) = 0 \<longleftrightarrow> m = 0" by auto
  qed
  show "votes_ok h'" using f(4,5) ok(2) u m(2,3) by (auto simp: votes_ok_def holds_def split: if_splits)
  show "holds h' x \<longleftrightarrow> holds h x" using f(4,5) by (auto simp: holds_def split: if_splits)
qed

text \<open>The counting step.\<close>

definition counted :: "sde_power_handle \<Rightarrow> nat \<Rightarrow> bool \<Rightarrow> sde_power_client \<Rightarrow> sde_power_handle" where
  "counted h a enable c =
     (let n = (if enable then pc_refcount c + 1 else if pc_refcount c \<noteq> 0 then pc_refcount c - 1 else pc_refcount c) in
      h\<lparr>pheap := (pheap h)(a \<mapsto> c\<lparr>pc_refcount := n, pc_usecase := ucast (if n \<noteq> 0 then VOTE_INDEX_LOW else VOTE_INDEX_DISABLE)\<rparr>)\<rparr>)"

lemma counted_fields [simp]:
  "clist (counted h a e c) = clist h" "current_usecase (counted h a e c) = current_usecase h" "mp_clks (counted h a e c) = mp_clks h"
  "mp_vregs (counted h a e c) = mp_vregs h" "data_bus_handle (counted h a e c) = data_bus_handle h"
  by (simp_all add: counted_def Let_def)

lemma counted_result:
  assumes ok: "handle_ok h" "votes_ok h" and a: "a \<in> set (clist h)" "pheap h a = Some c"
  shows "handle_ok (counted h a e c)" "votes_ok (counted h a e c)"
    "\<exists>m. power_count h a e = Some (m, counted h a e c) \<and> m \<le> 3 \<and> (m \<noteq> 0 \<longleftrightarrow> (\<exists>x. holds (counted h a e c) x))"
    "x \<noteq> a \<Longrightarrow> holds (counted h a e c) x \<longleftrightarrow> holds h x"
proof -
  let ?h = "counted h a e c"
  show h: "handle_ok ?h" using ok(1) a by (auto simp: handle_ok_def) (auto simp: counted_def Let_def)
  show v: "votes_ok ?h" using ok(2) a by (auto simp: votes_ok_def counted_def Let_def power_consts)
  have "power_clients ?h = Some (map (\<lambda>a. the (pheap ?h a)) (clist ?h))"
    by (rule clients_result) (use h in \<open>auto simp: handle_ok_def\<close>)
  then have "power_count h a e = Some (max_usecase (map (\<lambda>a. the (pheap ?h a)) (clist ?h)) VOTE_INDEX_DISABLE, ?h)"
    using a(2) by (simp add: power_count_def counted_def Let_def)
  then show "\<exists>m. power_count h a e = Some (m, ?h) \<and> m \<le> 3 \<and> (m \<noteq> 0 \<longleftrightarrow> (\<exists>x. holds ?h x))"
    using votes_max [OF v h] by auto
  show "x \<noteq> a \<Longrightarrow> holds ?h x \<longleftrightarrow> holds h x" by (auto simp: holds_def counted_def Let_def)
qed

lemma counted_holds:
  assumes "a \<in> set (clist h)" "pheap h a = Some c"
  shows "holds (counted h a e c) a \<longleftrightarrow> (if e then pc_refcount c + 1 \<noteq> 0 else pc_refcount c \<noteq> 0 \<and> pc_refcount c \<noteq> 1)"
  using assms by (auto simp: holds_def counted_def Let_def)

text \<open>The client of the coordinator is created at the first change.\<close>

lemma client_init_fields:
  assumes "sde_power_rsc_client_init env h w = (h', w')"
  shows "clist h' = clist h" "pheap h' = pheap h" "current_usecase h' = current_usecase h" "mp_clks h' = mp_clks h" "mp_vregs h' = mp_vregs h"
    "handle_ok h' \<longleftrightarrow> handle_ok h" "votes_ok h' \<longleftrightarrow> votes_ok h" "holds h' x \<longleftrightarrow> holds h x"
    "quiet g \<Longrightarrow> trace_sum g w' = trace_sum g w"
  using assms unfolding sde_power_rsc_client_init_def
  by (auto simp: handle_ok_def votes_ok_def holds_def quiet_def ext_def Let_def split: if_splits)

subsection \<open>Enabling and disabling\<close>

text \<open>The state after counting, for a client of the handle.\<close>

lemma enable_unfold:
  assumes "power_count h a e = Some (m, h1)"
  shows "sde_power_resource_enable env h (Some a) e w =
    (if \<not> resource_changed (current_usecase h1) m then Some (0, h1, w)
     else (case sde_power_rsc_client_init env (h1\<lparr>current_usecase := m\<rparr>) w of (h2, w2) \<Rightarrow>
       if e then power_up env a m (current_usecase h1) h2 w2 else power_down env a m h2 w2))"
  using assms by (simp add: sde_power_resource_enable_def Let_def)

lemma resource_changed_iff: "resource_changed c m \<longleftrightarrow> (c = 0) \<noteq> (m = 0)"
  by (auto simp: resource_changed_def power_consts word_le_nat_alt Suc_le_eq unat_gt_0)

text \<open>Switching after counting: all clocks and regulators are counted once, and the handle is well-formed.\<close>

lemma switch_on:
  assumes ok: "handle_ok h" "votes_ok h" "regulators_ok env" and a: "a \<in> set (clist h)" and m: "m \<le> 3" "m \<noteq> 0 \<longleftrightarrow> holds h a"
    and i: "sde_power_rsc_client_init env (h\<lparr>current_usecase := m\<rparr>) w = (h2, w2)"
  shows "\<exists>rc h' w'. power_up env a m prev h2 w2 = Some (rc, h', w') \<and> handle_ok h' \<and> votes_ok h' \<and> (\<forall>x. holds h' x \<longleftrightarrow> holds h x) \<and>
    clist h' = clist h \<and> mp_clks h' = mp_clks h \<and> mp_vregs h' = mp_vregs h \<and> current_usecase h' = (if rc = 0 then m else prev) \<and>
    (pheap h' = pheap h \<or> (\<exists>c. pheap h a = Some c \<and> pheap h' = (pheap h)(a \<mapsto> c\<lparr>pc_usecase := ucast m\<rparr>))) \<and>
    (\<forall>p. trace_sum (clk_weight p) w' = trace_sum (clk_weight p) w + (if rc = 0 then clk_load p (mp_clks h) else 0)) \<and>
    (\<exists>k. \<forall>r. trace_sum (vreg_weight r) w' = trace_sum (vreg_weight r) w +
      (if rc = 0 then vreg_load env r (mp_vregs h) else - hw_load env r (take k (mp_vregs h))))"
proof -
  note f = client_init_fields [OF i]
  have h2: "handle_ok h2" "votes_ok h2" "a \<in> set (clist h2)" "m \<noteq> 0 \<longleftrightarrow> holds h2 a" "\<And>x. holds h2 x \<longleftrightarrow> holds h x"
    using ok a m(2) by (simp_all add: f) (simp_all add: handle_ok_def votes_ok_def holds_def)
  obtain rc h' w' where u: "power_up env a m prev h2 w2 = Some (rc, h', w')" "touched a m h2 h'"
    "current_usecase h' = (if rc = 0 then current_usecase h2 else prev)"
    using power_up_touched [OF h2(1,3), of env m prev w2] by blast
  note t = touched_ok [OF u(2) h2(1)] and v = touched_votes [OF u(2) h2(1,2) m(1) h2(4,3)]
  have "vregs_ok (mp_vregs h2)" using h2(1) by (simp add: handle_ok_def)
  note cs = clk_refs.power_up_sum [OF u(1) ok(3) this]
  have vs: "\<exists>k. \<forall>r. trace_sum (vreg_weight r) w' = trace_sum (vreg_weight r) w +
      (if rc = 0 then vreg_load env r (mp_vregs h) else - hw_load env r (take k (mp_vregs h)))"
    using vreg_refs.power_up_sum [OF u(1) ok(3) \<open>vregs_ok (mp_vregs h2)\<close>] f(9) [OF quiet_weights(2)] by (cases "rc = 0") (simp_all add: f)
  show ?thesis
    using u(1,3) t v h2(5) cs f(9) [OF quiet_weights(1)] vs
    by (intro exI [of _ rc] exI [of _ h'] exI [of _ w'] conjI) (simp_all only: f, simp_all add: f)
qed

lemma switch_off:
  assumes ok: "handle_ok h" "regulators_ok env" and a: "a \<in> set (clist h)"
    and i: "sde_power_rsc_client_init env (h\<lparr>current_usecase := m\<rparr>) w = (h2, w2)"
  shows "\<exists>h' w'. power_down env a m h2 w2 = Some (0, h', w') \<and> handle_ok h' \<and> (\<forall>x. holds h' x \<longleftrightarrow> holds h x) \<and>
    (votes_ok h \<longrightarrow> m \<le> 3 \<longrightarrow> (m \<noteq> 0 \<longleftrightarrow> holds h a) \<longrightarrow> votes_ok h') \<and>
    clist h' = clist h \<and> mp_clks h' = mp_clks h \<and> mp_vregs h' = mp_vregs h \<and> current_usecase h' = m \<and>
    (\<forall>p. trace_sum (clk_weight p) w' = trace_sum (clk_weight p) w - clk_load p (mp_clks h)) \<and>
    (\<forall>r. trace_sum (vreg_weight r) w' = trace_sum (vreg_weight r) w - vreg_load env r (mp_vregs h))"
proof -
  note f = client_init_fields [OF i]
  have h2: "handle_ok h2" "votes_ok h2 \<longleftrightarrow> votes_ok h" "a \<in> set (clist h2)" "\<And>x. holds h2 x \<longleftrightarrow> holds h x"
    using ok a by (simp_all add: f) (simp_all add: handle_ok_def votes_ok_def holds_def)
  obtain h' w' where u: "power_down env a m h2 w2 = Some (0, h', w')" "touched a m h2 h'" "current_usecase h' = current_usecase h2"
    using power_down_touched [OF h2(1,3), of env m w2] by blast
  note t = touched_ok [OF u(2) h2(1)]
  have hold: "holds h' x \<longleftrightarrow> holds h2 x" for x using t(4,5) by (auto simp: holds_def split: if_splits)
  have vt: "votes_ok h \<longrightarrow> m \<le> 3 \<longrightarrow> (m \<noteq> 0 \<longleftrightarrow> holds h a) \<longrightarrow> votes_ok h'"
    using touched_votes(1) [OF u(2) h2(1)] h2(2-4) by blast
  have "vregs_ok (mp_vregs h2)" using h2(1) by (simp add: handle_ok_def)
  note cs = clk_refs.power_down_sum [OF u(1) ok(2) this] and vs = vreg_refs.power_down_sum [OF u(1) ok(2) this]
  show ?thesis
    using u(1,3) t hold vt h2(4) cs vs f(9) [OF quiet_weights(1)] f(9) [OF quiet_weights(2)]
    by (intro exI [of _ h'] exI [of _ w']) (simp add: f)
qed

text \<open>Taking a reference: it is counted on every path; the hardware is switched on if nobody held one.\<close>

lemma enable_on:
  assumes ok: "handle_ok h" "votes_ok h" "regulators_ok env" and a: "a \<in> set (clist h)" "pheap h a = Some c"
    and n: "pc_refcount c + 1 \<noteq> 0"
  shows "\<exists>rc h' w'. sde_power_resource_enable env h (Some a) True w = Some (rc, h', w') \<and> handle_ok h' \<and> votes_ok h' \<and>
    clist h' = clist h \<and> mp_clks h' = mp_clks h \<and> mp_vregs h' = mp_vregs h \<and> (\<forall>x. holds h' x \<longleftrightarrow> x = a \<or> holds h x) \<and>
    (current_usecase h' \<noteq> 0 \<longleftrightarrow> current_usecase h \<noteq> 0 \<or> rc = 0) \<and> (current_usecase h \<noteq> 0 \<longrightarrow> rc = 0) \<and>
    (\<forall>x. x \<noteq> a \<longrightarrow> pheap h' x = pheap h x) \<and> (\<exists>c'. pheap h' a = Some c' \<and> pc_refcount c' = pc_refcount c + 1) \<and>
    (\<forall>p. trace_sum (clk_weight p) w' = trace_sum (clk_weight p) w + (if current_usecase h = 0 \<and> rc = 0 then clk_load p (mp_clks h) else 0)) \<and>
    (\<exists>k. \<forall>r. trace_sum (vreg_weight r) w' = trace_sum (vreg_weight r) w +
      (if current_usecase h \<noteq> 0 then 0 else if rc = 0 then vreg_load env r (mp_vregs h) else - hw_load env r (take k (mp_vregs h))))"
proof -
  define h1 where "h1 = counted h a True c"
  note cr = counted_result [OF ok(1,2) a, where e = True, folded h1_def]
  obtain m where m: "power_count h a True = Some (m, h1)" "m \<le> 3" "m \<noteq> 0 \<longleftrightarrow> (\<exists>x. holds h1 x)" using cr(3) by blast
  have ha: "holds h1 a" using counted_holds [OF a, where e = True] n by (simp add: h1_def)
  have hx: "holds h1 x \<longleftrightarrow> x = a \<or> holds h x" for x using cr(4) [of x] ha by (cases "x = a") simp_all
  have m0: "m \<noteq> 0" using m(3) ha by blast
  have f: "clist h1 = clist h" "current_usecase h1 = current_usecase h" "mp_clks h1 = mp_clks h" "mp_vregs h1 = mp_vregs h"
    by (simp_all add: h1_def)
  have p1: "pheap h1 x = pheap h x" if "x \<noteq> a" for x using that by (simp add: h1_def counted_def Let_def)
  obtain c1 where c1: "pheap h1 a = Some c1" "pc_refcount c1 = pc_refcount c + 1" by (simp add: h1_def counted_def Let_def)
  note e = enable_unfold [OF m(1), of env w]
  show ?thesis
  proof (cases "current_usecase h = 0")
    case False
    then show ?thesis using e m0 f cr(1,2) hx p1 c1 by (simp add: resource_changed_iff)
  next
    case True
    obtain h2 w2 where i: "sde_power_rsc_client_init env (h1\<lparr>current_usecase := m\<rparr>) w = (h2, w2)"
      by (cases "sde_power_rsc_client_init env (h1\<lparr>current_usecase := m\<rparr>) w")
    have a1: "a \<in> set (clist h1)" "m \<noteq> 0 \<longleftrightarrow> holds h1 a" using a(1) f ha m0 by simp_all
    obtain rc h' w' where s: "power_up env a m (current_usecase h1) h2 w2 = Some (rc, h', w')" "handle_ok h'" "votes_ok h'" "\<forall>x. holds h' x \<longleftrightarrow> holds h1 x"
      "clist h' = clist h1" "mp_clks h' = mp_clks h1" "mp_vregs h' = mp_vregs h1" "current_usecase h' = (if rc = 0 then m else current_usecase h1)"
      "pheap h' = pheap h1 \<or> (\<exists>c. pheap h1 a = Some c \<and> pheap h' = (pheap h1)(a \<mapsto> c\<lparr>pc_usecase := ucast m\<rparr>))"
      "\<forall>p. trace_sum (clk_weight p) w' = trace_sum (clk_weight p) w + (if rc = 0 then clk_load p (mp_clks h1) else 0)"
      "\<exists>k. \<forall>r. trace_sum (vreg_weight r) w' = trace_sum (vreg_weight r) w +
        (if rc = 0 then vreg_load env r (mp_vregs h1) else - hw_load env r (take k (mp_vregs h1)))"
      using switch_on [OF cr(1,2) ok(3) a1(1) m(2) a1(2) i, of "current_usecase h1"] by blast
    have en: "sde_power_resource_enable env h (Some a) True w = Some (rc, h', w')"
      using e True m0 f i s(1) by (simp add: resource_changed_iff)
    have x: "\<forall>x. x \<noteq> a \<longrightarrow> pheap h' x = pheap h x" using s(9) p1 by auto
    have c': "\<exists>c'. pheap h' a = Some c' \<and> pc_refcount c' = pc_refcount c + 1" using s(9) c1 by auto
    show ?thesis
      using en s(2-8,10,11) x c' f hx m0 True by (intro exI [of _ rc] exI [of _ h'] exI [of _ w']) (cases "rc = 0"; simp)
  qed
qed

text \<open>
  Releasing a reference, or none: the hardware is switched off whenever the handle is on without a
  reference being left, but also when it is off and somebody holds a reference.
\<close>

lemma enable_off:
  assumes ok: "handle_ok h" "votes_ok h" "regulators_ok env" and a: "a \<in> set (clist h)" "pheap h a = Some c"
  defines "left \<equiv> \<exists>x. if x = a then pc_refcount c \<noteq> 0 \<and> pc_refcount c \<noteq> 1 else holds h x"
  shows "\<exists>h' w'. sde_power_resource_enable env h (Some a) False w = Some (0, h', w') \<and> handle_ok h' \<and>
    clist h' = clist h \<and> mp_clks h' = mp_clks h \<and> mp_vregs h' = mp_vregs h \<and>
    (\<forall>x. holds h' x \<longleftrightarrow> (if x = a then pc_refcount c \<noteq> 0 \<and> pc_refcount c \<noteq> 1 else holds h x)) \<and>
    (current_usecase h' \<noteq> 0 \<longleftrightarrow> left) \<and> (current_usecase h \<noteq> 0 \<or> \<not> left \<longrightarrow> votes_ok h') \<and>
    (\<forall>p. trace_sum (clk_weight p) w' = trace_sum (clk_weight p) w - (if (current_usecase h \<noteq> 0) \<noteq> left then clk_load p (mp_clks h) else 0)) \<and>
    (\<forall>r. trace_sum (vreg_weight r) w' = trace_sum (vreg_weight r) w - (if (current_usecase h \<noteq> 0) \<noteq> left then vreg_load env r (mp_vregs h) else 0))"
proof -
  define h1 where "h1 = counted h a False c"
  note cr = counted_result [OF ok(1,2) a, where e = False, folded h1_def]
  obtain m where m: "power_count h a False = Some (m, h1)" "m \<le> 3" "m \<noteq> 0 \<longleftrightarrow> (\<exists>x. holds h1 x)" using cr(3) by blast
  have ha: "holds h1 a \<longleftrightarrow> pc_refcount c \<noteq> 0 \<and> pc_refcount c \<noteq> 1" using counted_holds [OF a, where e = False] by (simp add: h1_def)
  have hx: "holds h1 x \<longleftrightarrow> (if x = a then pc_refcount c \<noteq> 0 \<and> pc_refcount c \<noteq> 1 else holds h x)" for x using cr(4) [of x] ha by simp
  have m0: "m \<noteq> 0 \<longleftrightarrow> left" using m(3) hx by (simp add: left_def)
  have f: "clist h1 = clist h" "current_usecase h1 = current_usecase h" "mp_clks h1 = mp_clks h" "mp_vregs h1 = mp_vregs h"
    by (simp_all add: h1_def)
  note e = enable_unfold [OF m(1), of env w]
  show ?thesis
  proof (cases "resource_changed (current_usecase h) m")
    case False
    then show ?thesis using e m0 f cr(1,2) hx by (auto simp: resource_changed_iff)
  next
    case True
    obtain h2 w2 where i: "sde_power_rsc_client_init env (h1\<lparr>current_usecase := m\<rparr>) w = (h2, w2)"
      by (cases "sde_power_rsc_client_init env (h1\<lparr>current_usecase := m\<rparr>) w")
    have a1: "a \<in> set (clist h1)" using a(1) f by simp
    obtain h' w' where s: "power_down env a m h2 w2 = Some (0, h', w')" "handle_ok h'" "\<forall>x. holds h' x \<longleftrightarrow> holds h1 x"
      "votes_ok h1 \<longrightarrow> m \<le> 3 \<longrightarrow> (m \<noteq> 0 \<longleftrightarrow> holds h1 a) \<longrightarrow> votes_ok h'"
      "clist h' = clist h1" "mp_clks h' = mp_clks h1" "mp_vregs h' = mp_vregs h1" "current_usecase h' = m"
      "\<forall>p. trace_sum (clk_weight p) w' = trace_sum (clk_weight p) w - clk_load p (mp_clks h1)"
      "\<forall>r. trace_sum (vreg_weight r) w' = trace_sum (vreg_weight r) w - vreg_load env r (mp_vregs h1)"
      using switch_off [OF cr(1) ok(3) a1 i] by (elim exE conjE) (rule that)
    have en: "sde_power_resource_enable env h (Some a) False w = Some (0, h', w')" using e True f i s(1) by simp
    have vt: "current_usecase h \<noteq> 0 \<or> \<not> left \<longrightarrow> votes_ok h'"
      using s(4) cr(2) m(2) m0 m(3) True by (auto simp: resource_changed_iff)
    have "(current_usecase h \<noteq> 0) \<noteq> left" using True m0 by (simp add: resource_changed_iff)
    then show ?thesis
      using en s(2,3,5-10) vt f hx m0 by (intro exI [of _ h'] exI [of _ w']) simp
  qed
qed

subsection \<open>Operations and runs\<close>

datatype power_op =
    Pw_create "string option" "nat option"
  | Pw_destroy "nat option"
  | Pw_enable "nat option" bool
  | Pw_scale nat u32
  | Pw_quota "nat option" int u32 u64 u64
  | Pw_bus_state bool
  | Pw_set_rate string u64
  | Pw_register u32 "nat option" nat "nat option"
  | Pw_unregister "nat option"

type_synonym power_state = "sde_power_handle \<times> power_trace"

definition power_step :: "power_env \<Rightarrow> power_state \<Rightarrow> power_op \<Rightarrow> (int \<times> power_state) option" where
  "power_step env s p = (case s of (h, w) \<Rightarrow>
     case p of
       Pw_create name alloc \<Rightarrow> (case sde_power_client_create h name alloc of (r, h) \<Rightarrow> Some (case r of Inl e \<Rightarrow> e | Inr a \<Rightarrow> 0, h, w))
     | Pw_destroy a \<Rightarrow> map_option (\<lambda>h. (0, h, w)) (sde_power_client_destroy h a)
     | Pw_enable a b \<Rightarrow> sde_power_resource_enable env h a b w
     | Pw_scale a uc \<Rightarrow> sde_power_scale_reg_bus env h a uc False w
     | Pw_quota a bc bid ab ib \<Rightarrow> sde_power_data_bus_set_quota env h a bc bid ab ib w
     | Pw_bus_state b \<Rightarrow> (case sde_power_data_bus_state_update h b of (r, h) \<Rightarrow> Some (r, h, w))
     | Pw_set_rate name rate \<Rightarrow> Some (sde_power_clk_set_rate env h name rate w)
     | Pw_register t cb usr alloc \<Rightarrow> (case sde_power_handle_register_event h t cb usr alloc of (r, h) \<Rightarrow> Some (case r of Inl e \<Rightarrow> e | Inr a \<Rightarrow> 0, h, w))
     | Pw_unregister ev \<Rightarrow> Some (0, sde_power_handle_unregister_event h ev, w))"

text \<open>
  What the callers see to: allocations are fresh, only clients of the handle are used, a client is destroyed
  without references, the 16-bit count does not overflow, votes are those of the enumeration.
\<close>

definition client_of :: "sde_power_handle \<Rightarrow> nat option \<Rightarrow> bool" where
  "client_of h a = (case a of None \<Rightarrow> True | Some a \<Rightarrow> a \<in> set (clist h))"

definition power_pre :: "power_state \<Rightarrow> power_op \<Rightarrow> bool" where
  "power_pre s p = (case s of (h, w) \<Rightarrow>
     case p of
       Pw_create name alloc \<Rightarrow> (case alloc of None \<Rightarrow> True | Some a \<Rightarrow> pheap h a = None)
     | Pw_destroy a \<Rightarrow> client_of h a \<and> (case a of None \<Rightarrow> True | Some a \<Rightarrow> \<not> holds h a)
     | Pw_enable a b \<Rightarrow> client_of h a \<and> (b \<longrightarrow> (case a of None \<Rightarrow> True | Some a \<Rightarrow> case pheap h a of None \<Rightarrow> True | Some c \<Rightarrow> pc_refcount c + 1 \<noteq> 0))
     | Pw_scale a uc \<Rightarrow> a \<in> set (clist h) \<and> uc \<in> {1, 2, 3}
     | Pw_quota a bc bid ab ib \<Rightarrow> client_of h a \<and> 0 \<le> bc
     | _ \<Rightarrow> True)"

text \<open>A regular step moreover does not fail to enable for a client that is there.\<close>

definition power_regular :: "power_env \<Rightarrow> power_state \<Rightarrow> power_op \<Rightarrow> bool" where
  "power_regular env s p = (power_pre s p \<and>
     (case p of Pw_enable (Some a) True \<Rightarrow> (case power_step env s p of None \<Rightarrow> True | Some (ret, s') \<Rightarrow> ret = 0) | _ \<Rightarrow> True))"

text \<open>
  The invariant: well-formed, votes as references, on exactly while somebody holds a reference, and then
  each clock and each regulator is enabled as often as the handle lists it, otherwise not at all.
\<close>

definition power_inv :: "power_env \<Rightarrow> power_state \<Rightarrow> bool" where
  "power_inv env s \<longleftrightarrow> handle_ok (fst s) \<and> votes_ok (fst s) \<and> (current_usecase (fst s) \<noteq> 0 \<longleftrightarrow> (\<exists>x. holds (fst s) x)) \<and>
     (\<forall>p. trace_sum (clk_weight p) (snd s) = (if current_usecase (fst s) \<noteq> 0 then clk_load p (mp_clks (fst s)) else 0)) \<and>
     (\<forall>r. trace_sum (vreg_weight r) (snd s) = (if current_usecase (fst s) \<noteq> 0 then vreg_load env r (mp_vregs (fst s)) else 0))"

text \<open>What an operation that only touches other parts of the handle keeps.\<close>

lemma power_inv_frame:
  assumes "power_inv env (h, w)" "handle_ok h'" "votes_ok h'" "\<And>x. holds h' x \<longleftrightarrow> holds h x" "current_usecase h' = current_usecase h"
    "\<And>p. clk_load p (mp_clks h') = clk_load p (mp_clks h)" "mp_vregs h' = mp_vregs h"
    "\<And>p. trace_sum (clk_weight p) w' = trace_sum (clk_weight p) w" "\<And>r. trace_sum (vreg_weight r) w' = trace_sum (vreg_weight r) w"
  shows "power_inv env (h', w')"
proof -
  have "holds h' = holds h" by (rule HOL.ext) (rule assms(4))
  with assms(1-3) show ?thesis unfolding power_inv_def fst_conv snd_conv assms(5-9) by simp
qed

subsection \<open>Every operation keeps the invariant\<close>

lemma create_inv:
  assumes inv: "power_inv env (h, w)" and pre: "power_pre (h, w) (Pw_create name alloc)"
  shows "power_inv env (snd (sde_power_client_create h name alloc), w)"
proof (cases "name = None \<or> alloc = None")
  case True
  then show ?thesis using inv by (auto simp: sde_power_client_create_def split: option.split)
next
  case False
  then obtain n a where n: "name = Some n" "alloc = Some a" by auto
  then have a: "pheap h a = None" using pre by (simp add: power_pre_def)
  then have new: "a \<notin> set (clist h)" using inv by (auto simp: power_inv_def handle_ok_def)
  show ?thesis
  proof (rule power_inv_frame [OF inv])
    show "handle_ok (snd (sde_power_client_create h name alloc))" "votes_ok (snd (sde_power_client_create h name alloc))"
      using inv new n by (auto simp: power_inv_def handle_ok_def votes_ok_def sde_power_client_create_def power_consts)
    show "holds (snd (sde_power_client_create h name alloc)) x \<longleftrightarrow> holds h x" for x
      using new n by (auto simp: holds_def sde_power_client_create_def)
  qed (use n in \<open>simp_all add: sde_power_client_create_def\<close>)
qed

lemma destroy_inv:
  assumes inv: "power_inv env (h, w)" and pre: "power_pre (h, w) (Pw_destroy a)"
  shows "\<exists>h'. sde_power_client_destroy h a = Some h' \<and> power_inv env (h', w)"
proof (cases a)
  case None
  then show ?thesis using inv by (simp add: sde_power_client_destroy_def)
next
  case (Some x)
  have h: "handle_ok h" "votes_ok h" using inv by (simp_all add: power_inv_def)
  obtain c where c: "x \<in> set (clist h)" "pheap h x = Some c" "pc_active c" "\<not> holds h x"
    using pre Some h by (auto simp: power_pre_def client_of_def handle_ok_def)
  define h' where "h' = h\<lparr>clist := filter (\<lambda>y. y \<noteq> x) (clist h), pheap := (pheap h)(x := None)\<rparr>"
  have "sde_power_client_destroy h a = Some h'" using Some c by (simp add: sde_power_client_destroy_def h'_def)
  moreover have "power_inv env (h', w)"
  proof (rule power_inv_frame [OF inv])
    show "handle_ok h'" "votes_ok h'" using h by (auto simp: handle_ok_def votes_ok_def h'_def)
    show "holds h' y \<longleftrightarrow> holds h y" for y using c(4) by (auto simp: holds_def h'_def)
  qed (simp_all add: h'_def)
  ultimately show ?thesis by blast
qed

lemma enable_inv:
  assumes inv: "power_inv env (h, w)" and reg: "power_regular env (h, w) (Pw_enable a b)" and env: "regulators_ok env"
  shows "\<exists>rc h' w'. sde_power_resource_enable env h a b w = Some (rc, h', w') \<and> power_inv env (h', w')"
proof (cases a)
  case None
  then show ?thesis using inv by (simp add: sde_power_resource_enable_def)
next
  case (Some x)
  have h: "handle_ok h" "votes_ok h" and on: "current_usecase h \<noteq> 0 \<longleftrightarrow> (\<exists>x. holds h x)"
    and s: "\<And>p. trace_sum (clk_weight p) w = (if current_usecase h \<noteq> 0 then clk_load p (mp_clks h) else 0)"
      "\<And>r. trace_sum (vreg_weight r) w = (if current_usecase h \<noteq> 0 then vreg_load env r (mp_vregs h) else 0)"
    using inv by (simp_all add: power_inv_def)
  obtain c where c: "x \<in> set (clist h)" "pheap h x = Some c"
    using reg Some h by (auto simp: power_regular_def power_pre_def client_of_def handle_ok_def)
  show ?thesis
  proof (cases b)
    case True
    then have "pc_refcount c + 1 \<noteq> 0" using reg Some c by (auto simp: power_regular_def power_pre_def)
    from enable_on [OF h env c this, of w] obtain rc h' w' where e: "sde_power_resource_enable env h (Some x) True w = Some (rc, h', w')"
      and r: "handle_ok h'" "votes_ok h'" "mp_clks h' = mp_clks h" "mp_vregs h' = mp_vregs h" "\<forall>y. holds h' y \<longleftrightarrow> y = x \<or> holds h y"
        "current_usecase h' \<noteq> 0 \<longleftrightarrow> current_usecase h \<noteq> 0 \<or> rc = 0"
        "\<forall>p. trace_sum (clk_weight p) w' = trace_sum (clk_weight p) w + (if current_usecase h = 0 \<and> rc = 0 then clk_load p (mp_clks h) else 0)"
        "\<exists>k. \<forall>r. trace_sum (vreg_weight r) w' = trace_sum (vreg_weight r) w +
          (if current_usecase h \<noteq> 0 then 0 else if rc = 0 then vreg_load env r (mp_vregs h) else - hw_load env r (take k (mp_vregs h)))"
      by blast
    have rc: "rc = 0" using reg Some True e by (simp add: power_regular_def power_step_def)
    show ?thesis using e Some True r rc on s by (auto simp: power_inv_def)
  next
    case False
    from enable_off [OF h env c, of w] obtain h' w' where e: "sde_power_resource_enable env h (Some x) False w = Some (0, h', w')"
      and r: "handle_ok h'" "mp_clks h' = mp_clks h" "mp_vregs h' = mp_vregs h"
        "\<forall>y. holds h' y \<longleftrightarrow> (if y = x then pc_refcount c \<noteq> 0 \<and> pc_refcount c \<noteq> 1 else holds h y)"
        "current_usecase h' \<noteq> 0 \<longleftrightarrow> (\<exists>y. if y = x then pc_refcount c \<noteq> 0 \<and> pc_refcount c \<noteq> 1 else holds h y)"
        "current_usecase h \<noteq> 0 \<or> \<not> (\<exists>y. if y = x then pc_refcount c \<noteq> 0 \<and> pc_refcount c \<noteq> 1 else holds h y) \<longrightarrow> votes_ok h'"
        "\<forall>p. trace_sum (clk_weight p) w' = trace_sum (clk_weight p) w -
          (if (current_usecase h \<noteq> 0) \<noteq> (\<exists>y. if y = x then pc_refcount c \<noteq> 0 \<and> pc_refcount c \<noteq> 1 else holds h y) then clk_load p (mp_clks h) else 0)"
        "\<forall>r. trace_sum (vreg_weight r) w' = trace_sum (vreg_weight r) w -
          (if (current_usecase h \<noteq> 0) \<noteq> (\<exists>y. if y = x then pc_refcount c \<noteq> 0 \<and> pc_refcount c \<noteq> 1 else holds h y) then vreg_load env r (mp_vregs h) else 0)"
      by blast
    define left where "left \<longleftrightarrow> (\<exists>y. if y = x then pc_refcount c \<noteq> 0 \<and> pc_refcount c \<noteq> 1 else holds h y)"
    have sub: "left \<Longrightarrow> current_usecase h \<noteq> 0" using on c by (auto simp: left_def holds_def split: if_splits)
    have ex: "(\<exists>y. holds h' y) \<longleftrightarrow> left" using r(4) by (simp add: left_def)
    note r' = r(5-8) [folded left_def]
    have "power_inv env (h', w')"
      unfolding power_inv_def fst_conv snd_conv ex r(2,3)
      using r(1) r' sub s by (cases left) auto
    then show ?thesis using e Some False by simp
  qed
qed

lemma scale_inv:
  assumes inv: "power_inv env (h, w)" and pre: "power_pre (h, w) (Pw_scale a uc)"
  shows "\<exists>rc h' w'. sde_power_scale_reg_bus env h a uc False w = Some (rc, h', w') \<and> power_inv env (h', w')"
proof -
  have h: "handle_ok h" "votes_ok h" using inv by (simp_all add: power_inv_def)
  have a: "a \<in> set (clist h)" "uc \<in> {1, 2, 3}" using pre by (simp_all add: power_pre_def)
  then obtain c where c: "pheap h a = Some c" using h(1) by (auto simp: handle_ok_def)
  show ?thesis
  proof (cases "pc_refcount c = 0")
    case True
    then show ?thesis using c inv by (simp add: sde_power_scale_reg_bus_def)
  next
    case False
    obtain rc h' w' where s: "sde_power_scale_reg_bus env h a uc True w = Some (rc, h', w')" "touched a uc h h'" "current_usecase h' = current_usecase h"
      using scale_touched [OF h(1) a(1)] by blast
    have eq: "sde_power_scale_reg_bus env h a uc False w = Some (rc, h', w')"
      using s(1) c False by (simp add: sde_power_scale_reg_bus_def)
    have m: "uc \<le> 3" "uc \<noteq> 0 \<longleftrightarrow> holds h a" using a c False by (auto simp: holds_def)
    note t = touched_ok [OF s(2) h(1)] and v = touched_votes [OF s(2) h m a(1)]
    have "power_inv env (h', w')"
      by (rule power_inv_frame [OF inv t(1) v(1) v(2) s(3) _ t(3) clk_refs.scale_sum [OF eq] vreg_refs.scale_sum [OF eq]]) (simp add: t(2))
    then show ?thesis using eq by blast
  qed
qed

lemma quota_inv:
  assumes inv: "power_inv env (h, w)" and pre: "power_pre (h, w) (Pw_quota a bc bid ab ib)"
  shows "\<exists>rc h' w'. sde_power_data_bus_set_quota env h a bc bid ab ib w = Some (rc, h', w') \<and> power_inv env (h', w')"
proof (cases "a = None \<or> bc \<ge> int DATA_BUS_CLIENT_MAX \<or> unat bid \<ge> DBUS_ID_MAX")
  case True
  then show ?thesis using inv by (auto simp: sde_power_data_bus_set_quota_def split: option.split)
next
  case False
  then obtain x where x: "a = Some x" by auto
  have h: "handle_ok h" "votes_ok h" using inv by (simp_all add: power_inv_def)
  have bc: "\<not> bc < 0" "x \<in> set (clist h)" using pre x by (simp_all add: power_pre_def client_of_def)
  then obtain c where c: "pheap h x = Some c" using h(1) by (auto simp: handle_ok_def)
  define h1 where "h1 = h\<lparr>pheap := (pheap h)(x \<mapsto> c\<lparr>pc_ab := (pc_ab c)[nat bc := ab], pc_ib := (pc_ib c)[nat bc := ib]\<rparr>)\<rparr>"
  have h1: "handle_ok h1" "votes_ok h1" "\<And>y. holds h1 y \<longleftrightarrow> holds h y"
    using h c bc(2) by (auto simp: handle_ok_def votes_ok_def holds_def h1_def split: if_splits)
  have cl: "power_clients h1 = Some (map (\<lambda>a. the (pheap h1 a)) (clist h1))"
    by (rule clients_result) (use h1(1) in \<open>auto simp: handle_ok_def\<close>)
  have bid: "unat bid < length (data_bus_handle h1)" using False h1(1) by (simp add: handle_ok_def)
  define b where "b = data_bus_handle h1 ! unat bid"
  have b: "nth_opt (data_bus_handle h1) (unat bid) = Some b" "bus_ok b"
    using bid h1(1) by (simp_all add: nth_opt_def b_def handle_ok_def)
  obtain tab tib where t: "total_quotas (map (\<lambda>a. the (pheap h1 a)) (clist h1)) = (tab, tib)" by (cases "total_quotas (map (\<lambda>a. the (pheap h1 a)) (clist h1))")
  have run: "sde_power_data_bus_set_quota env h a bc bid ab ib w =
      (if data_bus_hdl b \<noteq> 0 then do {
         (rc, b, w) \<leftarrow> sde_power_data_bus_set_quota_locked env b tab tib w;
         Some (rc, h1\<lparr>data_bus_handle := (data_bus_handle h1)[unat bid := b]\<rparr>, w) } else Some (0, h1, w))"
    using False x bc(1) c cl b(1) t
    unfolding sde_power_data_bus_set_quota_def Let_def by (simp only: option.case if_False bind.bind_lunit h1_def [symmetric] prod.case de_Morgan_disj not_le) simp
  obtain rc b' w' where l: "sde_power_data_bus_set_quota_locked env b tab tib w = Some (rc, b', w')" "bus_ok b'"
    using set_quota_defined [OF b(2)] by blast
  define h2 where "h2 = h1\<lparr>data_bus_handle := (data_bus_handle h1)[unat bid := b']\<rparr>"
  have h2: "handle_ok h2" "votes_ok h2" "\<And>y. holds h2 y \<longleftrightarrow> holds h y"
    using h1 l(2) by (auto simp: handle_ok_def votes_ok_def holds_def h2_def dest!: set_update_subset_insert [THEN subsetD])
  have i1: "power_inv env (h1, w)" by (rule power_inv_frame [OF inv h1]) (simp_all add: h1_def)
  have i2: "power_inv env (h2, w')"
    by (rule power_inv_frame [OF inv h2]) (simp_all add: h2_def h1_def clk_refs.quota_sum [OF l(1)] vreg_refs.quota_sum [OF l(1)])
  show ?thesis using run l(1) i1 i2 by (cases "data_bus_hdl b = 0") (simp_all add: h2_def)
qed

lemma set_rate_clks:
  assumes "sde_power_clk_set_rate env h name rate w = (rc, h', w')"
  shows "\<exists>i r. h' = h\<lparr>mp_clks := (mp_clks h)[i := (mp_clks h ! i)\<lparr>clk_rate := r\<rparr>]\<rparr> \<or> h' = h"
  using assms by (auto simp: sde_power_clk_set_rate_def Let_def split: option.splits prod.splits)

lemma clk_load_update: "clk c = clk (cs ! i) \<Longrightarrow> clk_load p (cs[i := c]) = clk_load p cs"
  by (cases "i < length cs") (auto simp: clk_load_def nth_list_update intro!: arg_cong [where f = sum_list] nth_equalityI split: if_splits)

lemma set_rate_inv:
  assumes inv: "power_inv env (h, w)"
  shows "\<exists>rc h' w'. sde_power_clk_set_rate env h name rate w = (rc, h', w') \<and> power_inv env (h', w')"
proof -
  obtain rc h' w' where s: "sde_power_clk_set_rate env h name rate w = (rc, h', w')" by (metis prod.exhaust)
  obtain i r where i: "h' = h\<lparr>mp_clks := (mp_clks h)[i := (mp_clks h ! i)\<lparr>clk_rate := r\<rparr>]\<rparr> \<or> h' = h" using set_rate_clks [OF s] by blast
  have "power_inv env (h', w')"
  proof (rule power_inv_frame [OF inv])
    show "handle_ok h'" "votes_ok h'" using i inv by (auto simp: power_inv_def handle_ok_def votes_ok_def)
    show "holds h' x \<longleftrightarrow> holds h x" "current_usecase h' = current_usecase h" "mp_vregs h' = mp_vregs h" for x using i by (auto simp: holds_def)
    show "clk_load p (mp_clks h') = clk_load p (mp_clks h)" for p using i by (auto simp: clk_load_update)
  qed (use clk_refs.set_rate_sum [OF s] vreg_refs.set_rate_sum [OF s] in auto)
  then show ?thesis using s by blast
qed

text \<open>One step, and a run.\<close>

lemma step_inv:
  assumes inv: "power_inv env s" and reg: "power_regular env s p" and env: "regulators_ok env"
  shows "\<exists>ret s'. power_step env s p = Some (ret, s') \<and> power_inv env s'"
proof -
  obtain h w where s: "s = (h, w)" by (cases s)
  have pre: "power_pre (h, w) p" using reg s by (simp add: power_regular_def)
  have keep: "power_inv env (h', w)" if "clist h' = clist h" "pheap h' = pheap h" "current_usecase h' = current_usecase h" "mp_clks h' = mp_clks h"
    "mp_vregs h' = mp_vregs h" "length (data_bus_handle h') = DBUS_ID_MAX" "\<forall>b \<in> set (data_bus_handle h'). bus_ok b" for h'
    by (rule power_inv_frame [OF inv [unfolded s]]) (use inv that in \<open>auto simp: s power_inv_def handle_ok_def votes_ok_def holds_def\<close>)
  have ok: "length (data_bus_handle h) = DBUS_ID_MAX" "\<forall>b \<in> set (data_bus_handle h). bus_ok b" using inv by (simp_all add: s power_inv_def handle_ok_def)
  show ?thesis
  proof (cases p)
    case (Pw_create name alloc)
    then show ?thesis using create_inv [of env h w name alloc] inv pre by (auto simp: s power_step_def split: prod.split)
  next
    case (Pw_destroy a)
    then show ?thesis using destroy_inv [of env h w a] inv pre by (auto simp: s power_step_def)
  next
    case (Pw_enable a b)
    then show ?thesis using enable_inv [of env h w a b] inv reg env by (auto simp: s power_step_def)
  next
    case (Pw_scale a uc)
    then show ?thesis using scale_inv [of env h w a uc] inv pre by (auto simp: s power_step_def)
  next
    case (Pw_quota a bc bid ab ib)
    then show ?thesis using quota_inv [of env h w a bc bid ab ib] inv pre by (auto simp: s power_step_def)
  next
    case (Pw_set_rate name rate)
    then show ?thesis using set_rate_inv [of env h w name rate] inv by (auto simp: s power_step_def)
  next
    case (Pw_bus_state b)
    then show ?thesis using ok by (auto simp: s power_step_def sde_power_data_bus_state_update_def bus_ok_def intro!: keep)
  next
    case (Pw_register t cb usr alloc)
    then show ?thesis using ok by (auto simp: s power_step_def sde_power_handle_register_event_def intro!: keep split: option.split)
  next
    case (Pw_unregister ev)
    then show ?thesis using ok by (auto simp: s power_step_def sde_power_handle_unregister_event_def intro!: keep split: option.split)
  qed
qed

end
