(* ===== verification/Sde_Power_Props.thy ===== *)
theory Sde_Power_Props
  imports Sde_Power_Step
begin

section \<open>Power handle: properties\<close>

text \<open>
  Power follows the references of the clients in regular runs, what a failed enable leaves behind, the
  shares of a bandwidth vote, and the vote for peak current.
\<close>

subsection \<open>A device\<close>

definition ex_power_bus :: sde_power_data_bus_handle where
  "ex_power_bus = \<lparr>bw_table = Some [[(0, 0), (0, 0)], [(0, 0), (0, 0)], [(0, 0), (0, 0)]], data_bus_hdl = 1, data_paths_cnt = 2, nrt_data_paths_cnt = 1,
     curr_bw_uc_idx = 0, ao_bw_uc_idx = 0, ab_rt = 0, ib_rt = 0, ab_nrt = 0, ib_nrt = 0, bus_enable = False\<rparr>"

definition ex_vreg :: "string \<Rightarrow> nat \<Rightarrow> dss_vreg" where
  "ex_vreg n r = \<lparr>vreg_name = n, vreg = Inr r, enable_load = 0, disable_load = 0, pre_on_sleep = 0, post_on_sleep = 0, pre_off_sleep = 0, post_off_sleep = 0\<rparr>"

definition ex_handle :: sde_power_handle where
  "ex_handle = \<lparr>mp_clks = [\<lparr>clk = Some 7, clk_name = ''iface_clk'', clk_type = DSS_CLK_AHB, clk_rate = 0, clk_max_rate = 0\<rparr>,
       \<lparr>clk = Some 8, clk_name = ''core_clk'', clk_type = DSS_CLK_PCLK, clk_rate = 0, clk_max_rate = 300\<rparr>],
     mp_vregs = [ex_vreg ''mmcx'' 5, ex_vreg ''gdsc'' 6, ex_vreg ''ldo'' 9],
     clist = [], pheap = (\<lambda>_. None), next_client_id = 0, current_usecase = 0, reg_bus_hdl = 4,
     data_bus_handle = [ex_power_bus, ex_power_bus\<lparr>data_bus_hdl := 2\<rparr>, ex_power_bus\<lparr>data_bus_hdl := 0\<rparr>],
     power_events = [], rsc_client = None, rsc_client_init = False, dss_cx_ipeak = True\<rparr>"

text \<open>The second regulator is under control of the hardware.\<close>

definition ex_calm :: power_env where
  "ex_calm w c = (if c = Vreg_get_mode (Inr 6) then REGULATOR_MODE_FAST else 0)"

text \<open>The third regulator does not start.\<close>

definition ex_stuck :: power_env where
  "ex_stuck w c = (if c = Vreg_enable (Inr 9) then - EBUSY else ex_calm w c)"

lemma ex_env_ok: "regulators_ok ex_calm" "regulators_ok ex_stuck"
  by (simp_all add: regulators_ok_def ex_calm_def ex_stuck_def)

lemma holds_code [code]: "holds h a \<longleftrightarrow> a \<in> set (clist h) \<and> (case pheap h a of None \<Rightarrow> False | Some c \<Rightarrow> pc_refcount c \<noteq> 0)"
  by (auto simp: holds_def split: option.split)

subsection \<open>Power and references\<close>







subsection \<open>A failed enable\<close>

text \<open>
  C6. A failed enable leaves a reference behind. Let the handle be well-formed, with votes that go with the
  references, regulators got from the kernel, and a kernel that returns no positive code when it enables one
  and keeps the mode of each. When enabling for a client fails, whose 16-bit count does not wrap, the handle
  stays off and the clocks are as before, but the reference of the client is counted and kept. The regulators
  are as before too, but for those under control of the hardware among the first \<open>k\<close> of the list: undoing
  the enable switches them off although enabling skipped them. If then another client of the handle, which
  holds no reference, gives one back, which should do nothing, the handle switches clocks and regulators off
  that are not on, so that their enable counts fall, and reports that it is enabled.
\<close>

theorem failed_enable_keeps_reference:
  assumes "handle_ok h" "votes_ok h" "regulators_ok env" and a: "a \<in> set (clist h)" "pheap h a = Some c" "pc_refcount c + 1 \<noteq> 0"
    and fail: "sde_power_resource_enable env h (Some a) True w = Some (rc, h1, w1)" "rc \<noteq> 0"
    and b: "b \<in> set (clist h)" "b \<noteq> a" "\<not> holds h b"
  shows "\<not> sde_power_resource_is_enabled h1 \<and> holds h1 a \<and> (\<forall>p. trace_sum (clk_weight p) w1 = trace_sum (clk_weight p) w) \<and>
    (\<exists>k. \<forall>r. trace_sum (vreg_weight r) w1 = trace_sum (vreg_weight r) w - hw_load env r (take k (mp_vregs h))) \<and>
    (\<exists>h2 w2. sde_power_resource_enable env h1 (Some b) False w1 = Some (0, h2, w2) \<and> sde_power_resource_is_enabled h2 \<and>
      (\<forall>p. trace_sum (clk_weight p) w2 = trace_sum (clk_weight p) w1 - clk_load p (mp_clks h)) \<and>
      (\<forall>r. trace_sum (vreg_weight r) w2 = trace_sum (vreg_weight r) w1 - vreg_load env r (mp_vregs h)))"
proof -
  from enable_on [OF assms(1-3) a, of w] fail have h1: "handle_ok h1" "votes_ok h1" "clist h1 = clist h" "mp_clks h1 = mp_clks h" "mp_vregs h1 = mp_vregs h"
    "\<And>x. holds h1 x \<longleftrightarrow> x = a \<or> holds h x" "\<And>x. x \<noteq> a \<Longrightarrow> pheap h1 x = pheap h x" "current_usecase h = 0" "current_usecase h1 = 0"
    and s: "\<And>p. trace_sum (clk_weight p) w1 = trace_sum (clk_weight p) w"
      "\<exists>k. \<forall>r. trace_sum (vreg_weight r) w1 = trace_sum (vreg_weight r) w - hw_load env r (take k (mp_vregs h))"
    by auto
  obtain d where d: "pheap h1 b = Some d" "pc_refcount d = 0" "b \<in> set (clist h1)"
    using b h1(3,7) assms(1) by (auto simp: handle_ok_def holds_def)
  have left: "\<exists>x. if x = b then pc_refcount d \<noteq> 0 \<and> pc_refcount d \<noteq> 1 else holds h1 x"
    using b(2) h1(6) by (intro exI [of _ a]) simp
  obtain h2 w2 where off: "sde_power_resource_enable env h1 (Some b) False w1 = Some (0, h2, w2)" "current_usecase h2 \<noteq> 0"
    "\<forall>p. trace_sum (clk_weight p) w2 = trace_sum (clk_weight p) w1 - clk_load p (mp_clks h)"
    "\<forall>r. trace_sum (vreg_weight r) w2 = trace_sum (vreg_weight r) w1 - vreg_load env r (mp_vregs h)"
    using enable_off [OF h1(1,2) assms(3) d(3,1), of w1] left h1(4,5,9) by auto
  show ?thesis
    using off h1(6,9) s by (simp add: sde_power_resource_is_enabled_def VOTE_INDEX_DISABLE_def)
qed

definition ex_two :: sde_power_handle where
  "ex_two = snd (sde_power_client_create (snd (sde_power_client_create ex_handle (Some ''core'') (Some 1))) (Some ''rsc'') (Some 2))"

definition ex_fail :: "int \<times> sde_power_handle \<times> power_trace" where
  "ex_fail = the (sde_power_resource_enable ex_stuck ex_two (Some 1) True [])"

lemma ex_two_ok: "handle_ok ex_two" "votes_ok ex_two"
  by (simp_all add: ex_two_def sde_power_client_create_def handle_ok_def votes_ok_def ex_handle_def ex_power_bus_def bus_ok_def vregs_ok_def ex_vreg_def power_consts)

lemma ex_fail_runs: "sde_power_resource_enable ex_stuck ex_two (Some 1) True [] = Some (fst ex_fail, fst (snd ex_fail), snd (snd ex_fail))" "fst ex_fail \<noteq> 0"
proof -
  have "\<not> Option.is_none (sde_power_resource_enable ex_stuck ex_two (Some 1) True [])" by code_simp
  then show "sde_power_resource_enable ex_stuck ex_two (Some 1) True [] = Some (fst ex_fail, fst (snd ex_fail), snd (snd ex_fail))"
    by (auto simp: ex_fail_def Option.is_none_def)
  show "fst ex_fail \<noteq> 0" by code_simp
qed

lemma failed_enable_keeps_reference_witness:
  "\<not> sde_power_resource_is_enabled (fst (snd ex_fail)) \<and> holds (fst (snd ex_fail)) 1 \<and>
    (\<forall>p. trace_sum (clk_weight p) (snd (snd ex_fail)) = trace_sum (clk_weight p) []) \<and>
    (\<exists>k. \<forall>r. trace_sum (vreg_weight r) (snd (snd ex_fail)) = trace_sum (vreg_weight r) [] - hw_load ex_stuck r (take k (mp_vregs ex_two))) \<and>
    (\<exists>h2 w2. sde_power_resource_enable ex_stuck (fst (snd ex_fail)) (Some 2) False (snd (snd ex_fail)) = Some (0, h2, w2) \<and> sde_power_resource_is_enabled h2 \<and>
      (\<forall>p. trace_sum (clk_weight p) w2 = trace_sum (clk_weight p) (snd (snd ex_fail)) - clk_load p (mp_clks ex_two)) \<and>
      (\<forall>r. trace_sum (vreg_weight r) w2 = trace_sum (vreg_weight r) (snd (snd ex_fail)) - vreg_load ex_stuck r (mp_vregs ex_two)))"
proof (rule failed_enable_keeps_reference [OF ex_two_ok ex_env_ok(2) _ _ _ ex_fail_runs])
  show "1 \<in> set (clist ex_two)" "2 \<in> set (clist ex_two)" "\<not> holds ex_two 2" by code_simp+
  show "pheap ex_two 1 = Some (the (pheap ex_two 1))" "pc_refcount (the (pheap ex_two 1)) + 1 \<noteq> 0"
    by (simp_all add: ex_two_def sde_power_client_create_def)
qed simp

subsection \<open>Bandwidth\<close>








subsection \<open>Peak current\<close>

fun peak_weight :: "power_call \<times> int \<Rightarrow> int" where
  "peak_weight (Cx_ipeak b, rc) = (if b then 1 else - 1)"
| "peak_weight _ = 0"

definition core_at_max :: "sde_power_handle \<Rightarrow> bool" where
  "core_at_max h \<longleftrightarrow> (case clk_index h ''core_clk'' of None \<Rightarrow> False | Some i \<Rightarrow> clk_rate (mp_clks h ! i) = clk_max_rate (mp_clks h ! i))"

lemma clk_index_Some: "clk_index h n = Some i \<Longrightarrow> i < length (mp_clks h) \<and> clk_name (mp_clks h ! i) = n"
  by (auto simp: clk_index_def find_Some_iff)

lemma clk_index_update:
  assumes "i < length (mp_clks h)" "clk_name c = clk_name (mp_clks h ! i)"
  shows "clk_index (h\<lparr>mp_clks := (mp_clks h)[i := c]\<rparr>) n = clk_index h n"
  using assms by (auto simp: clk_index_def nth_list_update intro!: find_cong)

definition peak_due :: "sde_power_handle \<Rightarrow> int" where
  "peak_due h = (if core_at_max h then 1 else 0)"

lemma set_rate_peak:
  assumes run: "sde_power_clk_set_rate env h name rate w = (rc, h', w')" and p: "dss_cx_ipeak h" and ok: "rc = 0 \<or> \<not> core_at_max h"
  shows "dss_cx_ipeak h' \<and> trace_sum peak_weight w' - peak_due h' = trace_sum peak_weight w - peak_due h"
proof (cases "clk_index h name")
  case None
  then show ?thesis using run p by (simp add: sde_power_clk_set_rate_def)
next
  case (Some i)
  note i = clk_index_Some [OF Some]
  define c where "c = mp_clks h ! i"
  define r where "r = (if clk_max_rate c \<noteq> 0 \<and> rate > clk_max_rate c then clk_max_rate c else rate)"
  define h1 where "h1 = h\<lparr>mp_clks := (mp_clks h)[i := c\<lparr>clk_rate := r\<rparr>]\<rparr>"
  define w1 where "w1 = snd (sde_cx_ipeak_vote env h c r (clk_rate c) True w)"
  obtain q w2 where q: "msm_dss_single_clk_set_rate env (c\<lparr>clk_rate := r\<rparr>) w1 = (q, w2)" by (cases "msm_dss_single_clk_set_rate env (c\<lparr>clk_rate := r\<rparr>) w1")
  have "sde_power_clk_set_rate env h name rate w = (q, h1, if q = 0 then snd (sde_cx_ipeak_vote env h1 (c\<lparr>clk_rate := r\<rparr>) r (clk_rate c) False w2) else w2)"
    unfolding sde_power_clk_set_rate_def Some option.case Let_def c_def [symmetric] r_def [symmetric] h1_def [symmetric] w1_def [symmetric] q prod.case by (rule refl)
  then have res: "rc = q" "h' = h1" "w' = (if q = 0 then snd (sde_cx_ipeak_vote env h1 (c\<lparr>clk_rate := r\<rparr>) r (clk_rate c) False w2) else w2)"
    using run by simp_all
  have w2: "trace_sum peak_weight w2 = trace_sum peak_weight w1"
    using q by (auto simp: msm_dss_single_clk_set_rate_def dest: ext_sum [where f = peak_weight] split: if_splits)
  have p1: "dss_cx_ipeak h1" using p by (simp add: h1_def)
  have idx: "clk_index h1 n = clk_index h n" for n unfolding h1_def by (rule clk_index_update) (use i in \<open>simp_all add: c_def\<close>)
  show ?thesis
  proof (cases "name = ''core_clk''")
    case False
    have nc: "clk_name c \<noteq> ''core_clk''" using i False by (simp add: c_def)
    have "mp_clks h1 ! j = mp_clks h ! j" if "clk_index h ''core_clk'' = Some j" for j
      using clk_index_Some [OF that] nc by (cases "j = i") (auto simp: h1_def c_def)
    then have "core_at_max h1 \<longleftrightarrow> core_at_max h" unfolding core_at_max_def idx by (auto split: option.split)
    then show ?thesis using res w2 p1 p nc by (simp add: w1_def sde_cx_ipeak_vote_def peak_due_def)
  next
    case True
    have nm: "clk_name c = ''core_clk''" using i True by (simp add: c_def)
    have m: "core_at_max h \<longleftrightarrow> clk_rate c = clk_max_rate c" "core_at_max h1 \<longleftrightarrow> r = clk_max_rate c"
      using Some True i idx [of "''core_clk''"] by (simp_all add: core_at_max_def h1_def c_def)
    have w1: "trace_sum peak_weight w1 = trace_sum peak_weight w + (if r = clk_max_rate c \<and> clk_rate c \<noteq> r then 1 else 0)"
      using p nm by (auto simp: w1_def sde_cx_ipeak_vote_def)
    have "trace_sum peak_weight w' = trace_sum peak_weight w2 - (if q = 0 \<and> r \<noteq> clk_max_rate c \<and> clk_rate c = clk_max_rate c then 1 else 0)"
      using p1 nm by (simp add: res(3) sde_cx_ipeak_vote_def)
    then show ?thesis using w1 w2 ok res(1,2) p1 m by (auto simp: peak_due_def)
  qed
qed

text \<open>
  C22. The vote for peak current follows the core clock, on a handle with the peak current client. In every
  sequence of rate changes, of any clocks, in which no change fails while the core clock is recorded at its
  maximum, the votes for peak current less those withdrawn are the difference between what is due at the end
  and what was due at the start, where one is due while the core clock is recorded at its maximum: from a
  lower rate, one vote stands at the end if the core clock is at its maximum and none otherwise, changes that
  fail on the way up included. (A core clock that is configured at its maximum starts without its vote, and
  the change down withdraws one that was never made; a change that fails on the way down leaves the vote
  behind.)
\<close>

theorem peak_current_vote:
  assumes "dss_cx_ipeak h"
    and "steps_ok (\<lambda>s p. case power_step env s p of None \<Rightarrow> True | Some (ret, _) \<Rightarrow> ret = 0 \<or> \<not> core_at_max (fst s)) (power_step env) (h, []) (map (\<lambda>(n, r). Pw_set_rate n r) rs)"
  shows "\<exists>h' w'. run_steps (power_step env) (h, []) (map (\<lambda>(n, r). Pw_set_rate n r) rs) = Some (h', w') \<and>
    trace_sum peak_weight w' = peak_due h' - peak_due h"
proof -
  have "\<exists>h' w'. run_steps (power_step env) (h, w) (map (\<lambda>(n, r). Pw_set_rate n r) rs) = Some (h', w') \<and>
      trace_sum peak_weight w' - peak_due h' = trace_sum peak_weight w - peak_due h"
    if "dss_cx_ipeak h"
      "steps_ok (\<lambda>s p. case power_step env s p of None \<Rightarrow> True | Some (ret, _) \<Rightarrow> ret = 0 \<or> \<not> core_at_max (fst s)) (power_step env) (h, w) (map (\<lambda>(n, r). Pw_set_rate n r) rs)"
    for h w
    using that
  proof (induction rs arbitrary: h w)
    case (Cons nr rs)
    obtain n r where nr: "nr = (n, r)" by (cases nr)
    obtain rc h1 w1 where s: "sde_power_clk_set_rate env h n r w = (rc, h1, w1)" by (metis prod.exhaust)
    have "rc = 0 \<or> \<not> core_at_max h" using Cons.prems(2) s by (simp add: nr power_step_def)
    note i = set_rate_peak [OF s Cons.prems(1) this]
    show ?case using Cons.IH [of h1 w1] i Cons.prems(2) s by (simp add: nr power_step_def)
  qed simp
  from this [of h "[]"] show ?thesis using assms by auto
qed

definition ex_rates :: "(string \<times> u64) list" where
  "ex_rates = [(''core_clk'', 400), (''iface_clk'', 9), (''core_clk'', 100), (''core_clk'', 300)]"

lemma peak_current_vote_witness:
  "\<exists>h' w'. run_steps (power_step ex_calm) (ex_handle, []) (map (\<lambda>(n, r). Pw_set_rate n r) ex_rates) = Some (h', w') \<and>
    trace_sum peak_weight w' = peak_due h' - peak_due ex_handle"
proof (rule peak_current_vote)
  show "dss_cx_ipeak ex_handle" by code_simp
  show "steps_ok (\<lambda>s p. case power_step ex_calm s p of None \<Rightarrow> True | Some (ret, _) \<Rightarrow> ret = 0 \<or> \<not> core_at_max (fst s)) (power_step ex_calm) (ex_handle, [])
    (map (\<lambda>(n, r). Pw_set_rate n r) ex_rates)" by code_simp
qed

end
