(* ===== verification/Sde_Hdcp.thy ===== *)
theory Sde_Hdcp
  imports Sde_Prelude
begin

section \<open>Content protection (HDCP 2.x): model\<close>

text \<open>
  \<^verbatim>\<open>msm/sde_hdcp_2x.c\<close>: the state machine between the display transport, which talks to the sink, and the
  library in the trusted zone, which computes the messages. Commands of the transport queue work items, and
  a worker thread runs the items one after the other.

  A work item is one step of the model; a command that comes while an item runs is a command before or after
  it, and the wait of \<^verbatim>\<open>sde_hdcp_2x_wait_for_response_work\<close> ends as the environment says. The library is a
  parameter: it returns a code and the new contents of the buffers. A buffer pointer may be null (\<open>None\<close>);
  reading or writing a byte that is not there is undefined. Log messages have no counterpart.
\<close>

subsection \<open>Messages\<close>

abbreviation INVALID_MESSAGE :: int where "INVALID_MESSAGE \<equiv> 0"
abbreviation AKE_INIT :: int where "AKE_INIT \<equiv> 2"
abbreviation AKE_SEND_CERT :: int where "AKE_SEND_CERT \<equiv> 3"
abbreviation AKE_NO_STORED_KM :: int where "AKE_NO_STORED_KM \<equiv> 4"
abbreviation AKE_STORED_KM :: int where "AKE_STORED_KM \<equiv> 5"
abbreviation AKE_SEND_H_PRIME :: int where "AKE_SEND_H_PRIME \<equiv> 7"
abbreviation AKE_SEND_PAIRING_INFO :: int where "AKE_SEND_PAIRING_INFO \<equiv> 8"
abbreviation LC_INIT :: int where "LC_INIT \<equiv> 9"
abbreviation LC_SEND_L_PRIME :: int where "LC_SEND_L_PRIME \<equiv> 10"
abbreviation SKE_SEND_EKS :: int where "SKE_SEND_EKS \<equiv> 11"
abbreviation REP_SEND_RECV_ID_LIST :: int where "REP_SEND_RECV_ID_LIST \<equiv> 12"
abbreviation REP_SEND_ACK :: int where "REP_SEND_ACK \<equiv> 15"
abbreviation REP_STREAM_MANAGE :: int where "REP_STREAM_MANAGE \<equiv> 16"
abbreviation REP_STREAM_READY :: int where "REP_STREAM_READY \<equiv> 17"
abbreviation SKE_SEND_TYPE_ID :: int where "SKE_SEND_TYPE_ID \<equiv> 18"

type_synonym sde_hdcp_2x_msg_part = "string \<times> u32 \<times> u32"

record sde_hdcp_2x_msg_data =
  messages :: "sde_hdcp_2x_msg_part list"
  rx_status :: u8

definition no_msg :: sde_hdcp_2x_msg_data where "no_msg = \<lparr>messages = [], rx_status = 0\<rparr>"

text \<open>The table by message number, with empty entries for the numbers that are no messages.\<close>

definition hdcp_msg_lookup :: "sde_hdcp_2x_msg_data list" where
  "hdcp_msg_lookup = [no_msg, no_msg,
     \<lparr>messages = [(''rtx'', 0x69000, 8), (''TxCaps'', 0x69008, 3)], rx_status = 0\<rparr>,
     \<lparr>messages = [(''cert-rx'', 0x6900B, 522), (''rrx'', 0x69215, 8), (''RxCaps'', 0x6921D, 3)], rx_status = 0\<rparr>,
     \<lparr>messages = [(''Ekpub_km'', 0x69220, 128)], rx_status = 0\<rparr>,
     \<lparr>messages = [(''Ekh_km'', 0x692A0, 16), (''m'', 0x692B0, 16)], rx_status = 0\<rparr>,
     no_msg,
     \<lparr>messages = [(''H'' @ [CHR 0x27], 0x692C0, 32)], rx_status = 2\<rparr>,
     \<lparr>messages = [(''Ekh_km'', 0x692E0, 16)], rx_status = 4\<rparr>,
     \<lparr>messages = [(''rn'', 0x692F0, 8)], rx_status = 0\<rparr>,
     \<lparr>messages = [(''L'' @ [CHR 0x27], 0x692F8, 32)], rx_status = 0\<rparr>,
     \<lparr>messages = [(''Edkey_ks'', 0x69318, 16), (''riv'', 0x69328, 8)], rx_status = 0\<rparr>,
     \<lparr>messages = [(''RxInfo'', 0x69330, 2), (''seq_num_V'', 0x69332, 3), (''V'' @ [CHR 0x27], 0x69335, 16), (''ridlist'', 0x69345, 155)], rx_status = 1\<rparr>,
     no_msg, no_msg,
     \<lparr>messages = [(''V'', 0x693E0, 16)], rx_status = 0\<rparr>,
     \<lparr>messages = [(''seq_num_M'', 0x693F0, 3), (''k'', 0x693F3, 2), (''streamID_Type'', 0x693F5, 126)], rx_status = 0\<rparr>,
     \<lparr>messages = [(''M'' @ [CHR 0x27], 0x69473, 32)], rx_status = 0\<rparr>,
     \<lparr>messages = [(''type'', 0x69494, 1)], rx_status = 0\<rparr>]"

subsection \<open>State\<close>

datatype hdcp_transport_wakeup_cmd =
    HDCP_TRANSPORT_CMD_INVALID
  | HDCP_TRANSPORT_CMD_SEND_MESSAGE
  | HDCP_TRANSPORT_CMD_RECV_MESSAGE
  | HDCP_TRANSPORT_CMD_STATUS_SUCCESS
  | HDCP_TRANSPORT_CMD_STATUS_FAILED
  | HDCP_TRANSPORT_CMD_LINK_POLL
  | HDCP_TRANSPORT_CMD_AUTHENTICATE

datatype sde_hdcp_2x_device_type = HDCP_TXMTR_HDMI | HDCP_TXMTR_DP | HDCP_TXMTR_DP_MST

text \<open>Where the data of a message is: after the first byte of the request or of the response buffer.\<close>

datatype hdcp_buf = Buf_null | Buf_request | Buf_response

record hdcp_transport_wakeup_data =
  tw_cmd :: hdcp_transport_wakeup_cmd
  tw_buf :: hdcp_buf
  tw_buf_len :: u32
  tw_timeout :: u32
  tw_abort_mask :: u8
  tw_message_data :: "sde_hdcp_2x_msg_data option"

datatype hdcp2_cmd =
    HDCP2_CMD_START
  | HDCP2_CMD_START_AUTH
  | HDCP2_CMD_STOP
  | HDCP2_CMD_PROCESS_MSG
  | HDCP2_CMD_TIMEOUT
  | HDCP2_CMD_SET_HW_KEY
  | HDCP2_CMD_QUERY_STREAM

record hdcp2_app_data =
  ad_request :: "u8 list option"
  ad_request_length :: u32
  ad_response :: "u8 list option"
  ad_response_length :: u32
  ad_timeout :: u32
  ad_repeater_flag :: bool

datatype hdcp_call =
    App_comm hdcp2_cmd
  | Transport hdcp_transport_wakeup_data
  | Close_stream u32
  | Open_stream u8 u8
  | Force_encryption
  | Feature_supported
  | Hdcp2_init sde_hdcp_2x_device_type
  | Hdcp2_deinit "nat option"
  | Wait_completion u32
  | Kzalloc

type_synonym hdcp_trace = "hdcp_call trace"

text \<open>
  The environment: the codes of the calls, the answer of the library, the handle that opening a stream
  writes, and the number of timer ticks in a second.
\<close>

record hdcp_env =
  codes :: "hdcp_call env"
  answer :: "hdcp_trace \<Rightarrow> hdcp2_cmd \<Rightarrow> hdcp2_app_data \<Rightarrow> int \<times> hdcp2_app_data"
  opened :: "hdcp_trace \<Rightarrow> u32"
  HZ :: u32

text \<open>The work items of the worker.\<close>

datatype hdcp_work =
    Wk_enable
  | Wk_disable
  | Wk_init
  | Wk_start_auth
  | Wk_msg_sent
  | Wk_msg_recvd
  | Wk_timeout
  | Wk_clean
  | Wk_stream
  | Wk_wait
  | Wk_send_type
  | Wk_manage_stream

record sde_hdcp_stream =
  stream_handle :: u32
  stream_id :: u8
  virtual_channel :: u8
  st_active :: bool

text \<open>\<open>work_list\<close> is the queue of the worker; \<open>client_wakeup\<close> tells whether the transport gave its callback.\<close>

record sde_hdcp_2x_ctrl =
  app_data :: hdcp2_app_data
  timeout_left :: u32
  wait_timeout_ms :: u32
  total_message_length :: u32
  no_stored_km :: bool
  force_encryption :: bool
  authenticated :: bool
  resend_lc_init :: bool
  resend_stream_manage :: bool
  hdcp2_ctx :: "nat option"
  client_wakeup :: bool
  repeater_flag :: bool
  update_stream :: bool
  last_msg :: int
  hdcp_off :: bool
  device_type :: sde_hdcp_2x_device_type
  min_enc_level :: u8
  stream_handles :: "sde_hdcp_stream list"
  stream_count :: u8
  work_list :: "hdcp_work list"

text \<open>Queueing does nothing for an item that is in the queue; cancelling takes it out.\<close>

definition HDCP_2X_EXECUTE :: "hdcp_work \<Rightarrow> sde_hdcp_2x_ctrl \<Rightarrow> sde_hdcp_2x_ctrl" where
  "HDCP_2X_EXECUTE k h = (if k \<in> set (work_list h) then h else h\<lparr>work_list := work_list h @ [k]\<rparr>)"

definition cancel_work :: "hdcp_work \<Rightarrow> sde_hdcp_2x_ctrl \<Rightarrow> sde_hdcp_2x_ctrl" where
  "cancel_work k h = h\<lparr>work_list := filter (\<lambda>x. x \<noteq> k) (work_list h)\<rparr>"

definition hdcp2_app_comm :: "hdcp_env \<Rightarrow> hdcp2_cmd \<Rightarrow> sde_hdcp_2x_ctrl \<Rightarrow> hdcp_trace \<Rightarrow> int \<times> sde_hdcp_2x_ctrl \<times> hdcp_trace" where
  "hdcp2_app_comm env c h w = (let (rc, d) = answer env w c (app_data h) in (rc, h\<lparr>app_data := d\<rparr>, w @ [(App_comm c, rc)]))"

definition byte0 :: "u8 list option \<Rightarrow> u8 option" where
  "byte0 b = (case b of Some (x # xs) \<Rightarrow> Some x | _ \<Rightarrow> None)"

definition put_byte :: "u8 list option \<Rightarrow> nat \<Rightarrow> u8 \<Rightarrow> u8 list option" where
  "put_byte b i x = (case b of Some xs \<Rightarrow> if i < length xs then Some (xs[i := x]) else None | None \<Rightarrow> None)"

subsection \<open>Messages to the transport\<close>

text \<open>The next message; asking after a sent list of streams clears the request to send it again.\<close>

definition sde_hdcp_2x_get_next_message :: "sde_hdcp_2x_ctrl \<Rightarrow> hdcp_transport_wakeup_cmd \<Rightarrow> int \<times> sde_hdcp_2x_ctrl" where
  "sde_hdcp_2x_get_next_message h cmd =
     (let m = last_msg h;
          rep = (if \<not> repeater_flag h then INVALID_MESSAGE
                 else if cmd = HDCP_TRANSPORT_CMD_SEND_MESSAGE then REP_STREAM_MANAGE else REP_SEND_RECV_ID_LIST) in
      if m = INVALID_MESSAGE then (AKE_INIT, h)
      else if m = AKE_INIT then (AKE_SEND_CERT, h)
      else if m = AKE_SEND_CERT then (if no_stored_km h then AKE_NO_STORED_KM else AKE_STORED_KM, h)
      else if m = AKE_STORED_KM \<or> m = AKE_NO_STORED_KM then (AKE_SEND_H_PRIME, h)
      else if m = AKE_SEND_H_PRIME then (if no_stored_km h then AKE_SEND_PAIRING_INFO else LC_INIT, h)
      else if m = AKE_SEND_PAIRING_INFO then (LC_INIT, h)
      else if m = LC_INIT then (LC_SEND_L_PRIME, h)
      else if m = LC_SEND_L_PRIME then (if resend_lc_init h then LC_INIT else SKE_SEND_EKS, h)
      else if m = SKE_SEND_EKS \<or> m = SKE_SEND_TYPE_ID then (if \<not> repeater_flag h then SKE_SEND_TYPE_ID else rep, h)
      else if m = REP_STREAM_READY \<or> m = REP_SEND_ACK then (rep, h)
      else if m = REP_SEND_RECV_ID_LIST then (REP_SEND_ACK, h)
      else if m = REP_STREAM_MANAGE then (REP_STREAM_READY, h\<lparr>resend_stream_manage := False\<rparr>)
      else (- EINVAL, h))"

definition sde_hdcp_2x_wait_for_response :: "hdcp_env \<Rightarrow> sde_hdcp_2x_ctrl \<Rightarrow> sde_hdcp_2x_ctrl" where
  "sde_hdcp_2x_wait_for_response env h =
     (let t = (if last_msg h = AKE_SEND_H_PRIME then (if no_stored_km h then HZ env else HZ env div 4)
               else if last_msg h = AKE_SEND_PAIRING_INFO then HZ env div 4
               else if last_msg h = REP_SEND_RECV_ID_LIST then (if \<not> authenticated h then HZ env * 3 else 0)
               else 0);
          h = h\<lparr>wait_timeout_ms := t\<rparr> in
      if t \<noteq> 0 then HDCP_2X_EXECUTE Wk_wait h else h)"

definition sends_message :: "hdcp_transport_wakeup_cmd \<Rightarrow> bool" where
  "sends_message c \<longleftrightarrow> c \<in> {HDCP_TRANSPORT_CMD_SEND_MESSAGE, HDCP_TRANSPORT_CMD_RECV_MESSAGE, HDCP_TRANSPORT_CMD_LINK_POLL}"

definition sde_hdcp_2x_wakeup_client ::
    "hdcp_env \<Rightarrow> sde_hdcp_2x_ctrl \<Rightarrow> hdcp_transport_wakeup_data \<Rightarrow> hdcp_trace \<Rightarrow> sde_hdcp_2x_ctrl \<times> hdcp_trace" where
  "sde_hdcp_2x_wakeup_client env h d w =
     (if \<not> client_wakeup h \<or> tw_cmd d = HDCP_TRANSPORT_CMD_INVALID then (h, w)
      else let d = d\<lparr>tw_abort_mask := 24\<rparr> in
           if sends_message (tw_cmd d)
           then let (m, h) = sde_hdcp_2x_get_next_message h (tw_cmd d) in
                if m \<le> INVALID_MESSAGE then (h\<lparr>last_msg := INVALID_MESSAGE\<rparr>, w)
                else let h = h\<lparr>last_msg := m\<rparr>;
                         d = d\<lparr>tw_message_data := Some (hdcp_msg_lookup ! nat m)\<rparr>;
                         w = snd (ext (codes env) (Transport d) w) in
                     (sde_hdcp_2x_wait_for_response env h, w)
           else (sde_hdcp_2x_wait_for_response env h, snd (ext (codes env) (Transport d) w)))"

definition wakeup_data :: "hdcp_transport_wakeup_cmd \<Rightarrow> hdcp_transport_wakeup_data" where
  "wakeup_data c = \<lparr>tw_cmd = c, tw_buf = Buf_null, tw_buf_len = 0, tw_timeout = 0, tw_abort_mask = 0, tw_message_data = None\<rparr>"

definition sde_hdcp_2x_send_message :: "hdcp_env \<Rightarrow> sde_hdcp_2x_ctrl \<Rightarrow> hdcp_trace \<Rightarrow> sde_hdcp_2x_ctrl \<times> hdcp_trace" where
  "sde_hdcp_2x_send_message env h w =
     sde_hdcp_2x_wakeup_client env h ((wakeup_data HDCP_TRANSPORT_CMD_SEND_MESSAGE)
       \<lparr>tw_timeout := ad_timeout (app_data h), tw_buf_len := ad_response_length (app_data h), tw_buf := Buf_response\<rparr>) w"

subsection \<open>Work items\<close>

type_synonym hdcp_state = "sde_hdcp_2x_ctrl \<times> hdcp_trace"

definition sde_hdcp_2x_initialize_command :: "sde_hdcp_2x_ctrl \<Rightarrow> hdcp_transport_wakeup_cmd \<Rightarrow> hdcp_transport_wakeup_data" where
  "sde_hdcp_2x_initialize_command h c = (wakeup_data c)\<lparr>tw_timeout := timeout_left h, tw_buf := Buf_request\<rparr>"

definition sde_hdcp_2x_stream_type :: "u8 \<Rightarrow> u8" where
  "sde_hdcp_2x_stream_type l = (if l = 2 then 1 else 0)"

text \<open>Closing all streams, from the head of the list.\<close>

fun close_all :: "hdcp_env \<Rightarrow> sde_hdcp_stream list \<Rightarrow> sde_hdcp_2x_ctrl \<Rightarrow> hdcp_trace \<Rightarrow> hdcp_state" where
  "close_all env [] h w = (h\<lparr>stream_handles := []\<rparr>, w)"
| "close_all env (s # ss) h w =
     close_all env ss (h\<lparr>stream_count := stream_count h - 1\<rparr>) (snd (ext (codes env) (Close_stream (stream_handle s)) w))"

definition sde_hdcp_2x_clean :: "hdcp_env \<Rightarrow> sde_hdcp_2x_ctrl \<Rightarrow> hdcp_trace \<Rightarrow> hdcp_state" where
  "sde_hdcp_2x_clean env h w =
     (let h = h\<lparr>authenticated := False\<rparr>;
          (h, w) = close_all env (stream_handles h) h w;
          off = hdcp_off h;
          h = h\<lparr>hdcp_off := True\<rparr>;
          (h, w) = (if \<not> off then sde_hdcp_2x_wakeup_client env h (wakeup_data HDCP_TRANSPORT_CMD_STATUS_FAILED) w else (h, w));
          (rc, h, w) = hdcp2_app_comm env HDCP2_CMD_STOP h w in
      (h, w))"

text \<open>The message with the type of the stream, which the driver builds itself in the buffer of the library.\<close>

definition put_type :: "sde_hdcp_2x_ctrl \<Rightarrow> sde_hdcp_2x_ctrl option" where
  "put_type h = do {
     b \<leftarrow> put_byte (ad_response (app_data h)) 0 (word_of_int SKE_SEND_TYPE_ID);
     b \<leftarrow> put_byte (Some b) 1 (sde_hdcp_2x_stream_type (min_enc_level h));
     Some (h\<lparr>app_data := (app_data h)\<lparr>ad_response := Some b, ad_response_length := 1, ad_timeout := 100\<rparr>\<rparr>)
   }"

definition sde_hdcp_2x_send_type :: "hdcp_env \<Rightarrow> sde_hdcp_2x_ctrl \<Rightarrow> hdcp_trace \<Rightarrow> hdcp_state option" where
  "sde_hdcp_2x_send_type env h w =
     (if hdcp_off h \<or> repeater_flag h then Some (h, w)
      else do { h \<leftarrow> put_type h; Some (if \<not> hdcp_off h then sde_hdcp_2x_send_message env h w else (h, w)) })"

definition sde_hdcp_2x_stream :: "hdcp_env \<Rightarrow> sde_hdcp_2x_ctrl \<Rightarrow> hdcp_trace \<Rightarrow> hdcp_state option" where
  "sde_hdcp_2x_stream env h w =
     (if hdcp_off h \<or> \<not> repeater_flag h then Some (h, w)
      else do {
        unready \<leftarrow> (if authenticated h then Some False else map_option (\<lambda>b. uint b \<noteq> REP_SEND_ACK) (byte0 (ad_response (app_data h))));
        if unready then Some (h, w)
        else let (rc, h, w) = hdcp2_app_comm env HDCP2_CMD_QUERY_STREAM h w;
                 rc = (if rc = 0 \<and> (ad_response (app_data h) = None \<or> ad_request (app_data h) = None) then - EINVAL else rc) in
             Some (if rc = 0 \<and> \<not> hdcp_off h then sde_hdcp_2x_send_message env (h\<lparr>last_msg := REP_SEND_ACK\<rparr>) w else (h, w))
      })"

definition sde_hdcp_2x_set_hw_key :: "hdcp_env \<Rightarrow> sde_hdcp_2x_ctrl \<Rightarrow> hdcp_trace \<Rightarrow> hdcp_state" where
  "sde_hdcp_2x_set_hw_key env h w =
     (if authenticated h then (h, w)
      else let (rc, h, w) = hdcp2_app_comm env HDCP2_CMD_SET_HW_KEY h w in
           if rc \<noteq> 0 then (h, w)
           else let h = h\<lparr>authenticated := True\<rparr>;
                    w = (if force_encryption h then vcall Force_encryption w else w) in
                sde_hdcp_2x_wakeup_client env h (wakeup_data HDCP_TRANSPORT_CMD_STATUS_SUCCESS) w)"

definition sde_hdcp_2x_msg_sent :: "hdcp_env \<Rightarrow> sde_hdcp_2x_ctrl \<Rightarrow> hdcp_trace \<Rightarrow> hdcp_state option" where
  "sde_hdcp_2x_msg_sent env h w = do {
     b \<leftarrow> byte0 (ad_response (app_data h));
     (h, d, w) \<leftarrow>
       (if uint b = SKE_SEND_TYPE_ID
        then let (h, w) = sde_hdcp_2x_set_hw_key env h w in Some (h, sde_hdcp_2x_initialize_command h HDCP_TRANSPORT_CMD_LINK_POLL, w)
        else if uint b = SKE_SEND_EKS
        then (if repeater_flag h \<and> \<not> hdcp_off h then Some (h, sde_hdcp_2x_initialize_command h HDCP_TRANSPORT_CMD_LINK_POLL, w)
              else do { h \<leftarrow> put_type h; let (h, w) = sde_hdcp_2x_send_message env h w; Some (h, wakeup_data HDCP_TRANSPORT_CMD_INVALID, w) })
        else if uint b = REP_SEND_ACK
        then (if update_stream h then Some ((HDCP_2X_EXECUTE Wk_stream h)\<lparr>update_stream := False\<rparr>, wakeup_data HDCP_TRANSPORT_CMD_INVALID, w)
              else Some (h, sde_hdcp_2x_initialize_command h HDCP_TRANSPORT_CMD_LINK_POLL, w))
        else Some (h, sde_hdcp_2x_initialize_command h HDCP_TRANSPORT_CMD_RECV_MESSAGE, w));
     Some (sde_hdcp_2x_wakeup_client env h d w)
   }"

definition sde_hdcp_2x_init :: "hdcp_env \<Rightarrow> sde_hdcp_2x_ctrl \<Rightarrow> hdcp_trace \<Rightarrow> hdcp_state" where
  "sde_hdcp_2x_init env h w =
     (let (rc, h, w) = hdcp2_app_comm env HDCP2_CMD_START h w in (if rc \<noteq> 0 then HDCP_2X_EXECUTE Wk_clean h else h, w))"

definition sde_hdcp_2x_start_auth :: "hdcp_env \<Rightarrow> sde_hdcp_2x_ctrl \<Rightarrow> hdcp_trace \<Rightarrow> hdcp_state" where
  "sde_hdcp_2x_start_auth env h w =
     (let (rc, h, w) = hdcp2_app_comm env HDCP2_CMD_START_AUTH h w in
      if rc \<noteq> 0 then (HDCP_2X_EXECUTE Wk_clean h, w) else sde_hdcp_2x_send_message env h w)"

definition sde_hdcp_2x_timeout :: "hdcp_env \<Rightarrow> sde_hdcp_2x_ctrl \<Rightarrow> hdcp_trace \<Rightarrow> hdcp_state option" where
  "sde_hdcp_2x_timeout env h w =
     (if hdcp_off h then Some (h, w)
      else let (rc, h, w) = hdcp2_app_comm env HDCP2_CMD_TIMEOUT h w in
           if rc \<noteq> 0 then Some (if \<not> hdcp_off h then HDCP_2X_EXECUTE Wk_clean h else h, w)
           else do {
             b \<leftarrow> byte0 (ad_response (app_data h));
             Some (if uint b = LC_INIT \<and> \<not> hdcp_off h then sde_hdcp_2x_send_message env h w else (h, w))
           })"

text \<open>
  A message of the sink. For DisplayPort its number is not transmitted, and the driver writes the number of
  the message that it asked for. The function that has the library process the message gives the code, the
  command for the transport and the state at the label \<^verbatim>\<open>exit\<close>. The first byte is read again after the
  library has processed the message, which leaves the buffer where it is.
\<close>

definition recvd_answer :: "hdcp_env \<Rightarrow> sde_hdcp_2x_ctrl \<Rightarrow> hdcp_trace \<Rightarrow> (int \<times> hdcp_transport_wakeup_data \<times> hdcp_state) option" where
  "recvd_answer env h w = do {
     msg \<leftarrow> map_option uint (byte0 (ad_request (app_data h)));
     if msg = AKE_SEND_H_PRIME \<and> no_stored_km h
     then Some (0, (wakeup_data HDCP_TRANSPORT_CMD_RECV_MESSAGE)\<lparr>tw_timeout := ad_timeout (app_data h), tw_buf := Buf_request\<rparr>, h, w)
     else do {
       out \<leftarrow> (if ad_response_length (app_data h) = 0 then Some INVALID_MESSAGE else map_option uint (byte0 (ad_response (app_data h))));
       if msg = REP_STREAM_READY \<and> out \<noteq> REP_STREAM_MANAGE
       then (if resend_stream_manage h
             then let (rc, h, w) = hdcp2_app_comm env HDCP2_CMD_QUERY_STREAM h w;
                      (h, w) = (if rc = 0 then sde_hdcp_2x_send_message env h w else (h, w)) in
                  Some (rc, wakeup_data HDCP_TRANSPORT_CMD_INVALID, h, w)
             else let (h, w) = sde_hdcp_2x_set_hw_key env h w in
                  Some (0, sde_hdcp_2x_initialize_command h HDCP_TRANSPORT_CMD_LINK_POLL, h, w))
       else
         let h = h\<lparr>resend_lc_init := (msg = LC_SEND_L_PRIME \<and> out = LC_INIT), no_stored_km := (out = AKE_NO_STORED_KM)\<rparr>;
             h = (if out = SKE_SEND_EKS then h\<lparr>repeater_flag := ad_repeater_flag (app_data h), update_stream := True\<rparr> else h);
             d = (if \<not> hdcp_off h
                  then (wakeup_data HDCP_TRANSPORT_CMD_SEND_MESSAGE)\<lparr>tw_buf := Buf_response, tw_buf_len := ad_response_length (app_data h), tw_timeout := ad_timeout (app_data h)\<rparr>
                  else wakeup_data HDCP_TRANSPORT_CMD_INVALID) in
         Some (0, d, h, w)
     }
   }"

definition recvd_process :: "hdcp_env \<Rightarrow> sde_hdcp_2x_ctrl \<Rightarrow> hdcp_trace \<Rightarrow> (int \<times> hdcp_transport_wakeup_data \<times> hdcp_state) option" where
  "recvd_process env h w =
     (if total_message_length h = 0 then Some (0, wakeup_data HDCP_TRANSPORT_CMD_INVALID, h, w)
      else let dp = device_type h \<in> {HDCP_TXMTR_DP, HDCP_TXMTR_DP_MST} in do {
        req \<leftarrow> (if dp then map_option Some (put_byte (ad_request (app_data h)) 0 (word_of_int (last_msg h))) else Some (ad_request (app_data h)));
        let h = h\<lparr>app_data := (app_data h)\<lparr>ad_request := req, ad_request_length := total_message_length h + (if dp then 1 else 0)\<rparr>\<rparr>;
        let (rc, h, w) = hdcp2_app_comm env HDCP2_CMD_PROCESS_MSG h w;
        if rc \<noteq> 0 then Some (- EINVAL, wakeup_data HDCP_TRANSPORT_CMD_INVALID, h, w) else recvd_answer env h w
      })"

definition sde_hdcp_2x_msg_recvd :: "hdcp_env \<Rightarrow> sde_hdcp_2x_ctrl \<Rightarrow> hdcp_trace \<Rightarrow> hdcp_state option" where
  "sde_hdcp_2x_msg_recvd env h w =
     (if hdcp_off h then Some (h, w)
      else do {
        (rc, d, h, w) \<leftarrow> recvd_process env h w;
        let (h, w) = sde_hdcp_2x_wakeup_client env h d w;
        Some (if rc \<noteq> 0 \<and> \<not> hdcp_off h then HDCP_2X_EXECUTE Wk_clean h else h, w)
      })"

text \<open>
  Waiting for the next command: the environment gives the ticks that are left, 0 if the time is over. The item
  counts at its end, so a command that ends the wait is a step before it; that the wait forgets a command that
  came before it began is left to the environment, which may give 0 then.
\<close>

definition sde_hdcp_2x_wait_for_response_work :: "hdcp_env \<Rightarrow> sde_hdcp_2x_ctrl \<Rightarrow> hdcp_trace \<Rightarrow> hdcp_state" where
  "sde_hdcp_2x_wait_for_response_work env h w =
     (if hdcp_off h then (h, w)
      else let (left, w) = ext (codes env) (Wait_completion (wait_timeout_ms h)) w;
               h = (if left = 0 \<and> \<not> hdcp_off h then HDCP_2X_EXECUTE Wk_clean h else h) in
           (h\<lparr>wait_timeout_ms := 0\<rparr>, w))"

subsection \<open>Streams\<close>

definition sde_hdcp_2x_stream_present :: "sde_hdcp_2x_ctrl \<Rightarrow> u8 \<Rightarrow> u8 \<Rightarrow> nat option" where
  "sde_hdcp_2x_stream_present h i vc =
     List.find (\<lambda>k. virtual_channel (stream_handles h ! k) = vc \<and> stream_id (stream_handles h ! k) = i) [0..<length (stream_handles h)]"

text \<open>The loop over the streams; \<open>acc\<close> are the entries that stay.\<close>

fun manage_loop :: "hdcp_env \<Rightarrow> sde_hdcp_stream list \<Rightarrow> sde_hdcp_stream list \<Rightarrow> u8 \<Rightarrow> bool \<Rightarrow> hdcp_trace \<Rightarrow>
    sde_hdcp_stream list \<times> u8 \<times> bool \<times> hdcp_trace" where
  "manage_loop env acc [] n q w = (acc, n, q, w)"
| "manage_loop env acc (s # ss) n q w =
     (if \<not> st_active s
      then manage_loop env acc ss (n - 1) True (snd (ext (codes env) (Close_stream (stream_handle s)) w))
      else if stream_handle s = 0
      then let (rc, w') = ext (codes env) (Open_stream (virtual_channel s) (stream_id s)) w in
           manage_loop env (acc @ [s\<lparr>stream_handle := opened env w\<rparr>]) ss n (q \<or> rc = 0) w'
      else manage_loop env (acc @ [s]) ss n q w)"

definition sde_hdcp_2x_manage_stream_work :: "hdcp_env \<Rightarrow> sde_hdcp_2x_ctrl \<Rightarrow> hdcp_trace \<Rightarrow> hdcp_state" where
  "sde_hdcp_2x_manage_stream_work env h w =
     (let (ss, n, query, w) = manage_loop env [] (stream_handles h) (stream_count h) False w;
          h = h\<lparr>stream_handles := ss, stream_count := n\<rparr> in
      (if \<not> query then h
       else if authenticated h then HDCP_2X_EXECUTE Wk_stream h
       else if last_msg h = REP_STREAM_MANAGE \<or> last_msg h = REP_STREAM_READY then h\<lparr>resend_stream_manage := True\<rparr>
       else h, w))"

fun sde_remove_streams :: "sde_hdcp_2x_ctrl \<Rightarrow> (u8 \<times> u8) list \<Rightarrow> bool \<times> sde_hdcp_2x_ctrl" where
  "sde_remove_streams h [] = (False, h)"
| "sde_remove_streams h ((i, vc) # xs) =
     (case sde_hdcp_2x_stream_present h i vc of
        None \<Rightarrow> sde_remove_streams h xs
      | Some k \<Rightarrow>
          let s = stream_handles h ! k;
              h = (if stream_handle s = 0
                   then h\<lparr>stream_count := stream_count h - 1, stream_handles := take k (stream_handles h) @ drop (k + 1) (stream_handles h)\<rparr>
                   else h\<lparr>stream_handles := (stream_handles h)[k := s\<lparr>st_active := False\<rparr>]\<rparr>);
              (_, h) = sde_remove_streams h xs in
          (True, h))"

fun sde_add_streams :: "hdcp_env \<Rightarrow> sde_hdcp_2x_ctrl \<Rightarrow> (u8 \<times> u8) list \<Rightarrow> hdcp_trace \<Rightarrow> bool \<times> hdcp_state" where
  "sde_add_streams env h [] w = (False, h, w)"
| "sde_add_streams env h ((i, vc) # xs) w =
     (if sde_hdcp_2x_stream_present h i vc \<noteq> None then sde_add_streams env h xs w
      else let (p, w) = ext (codes env) Kzalloc w in
           if p = 0 then sde_add_streams env h xs w
           else let h = h\<lparr>stream_handles := \<lparr>stream_handle = 0, stream_id = i, virtual_channel = vc, st_active = True\<rparr> # stream_handles h,
                        stream_count := stream_count h + 1\<rparr>;
                    (_, h, w) = sde_add_streams env h xs w in
                (True, h, w))"

subsection \<open>The worker\<close>

definition sde_hdcp_2x_enable_work :: "hdcp_env \<Rightarrow> sde_hdcp_2x_ctrl \<Rightarrow> hdcp_trace \<Rightarrow> hdcp_state" where
  "sde_hdcp_2x_enable_work env h w =
     (if hdcp2_ctx h \<noteq> None then (h, w)
      else let (p, w) = ext (codes env) (Hdcp2_init (device_type h)) w in (h\<lparr>hdcp2_ctx := (if p = 0 then None else Some (nat p))\<rparr>, w))"

definition sde_hdcp_2x_disable_work :: "hdcp_env \<Rightarrow> sde_hdcp_2x_ctrl \<Rightarrow> hdcp_trace \<Rightarrow> hdcp_state" where
  "sde_hdcp_2x_disable_work env h w =
     (if hdcp2_ctx h = None then (h, w) else (h\<lparr>hdcp2_ctx := None\<rparr>, vcall (Hdcp2_deinit (hdcp2_ctx h)) w))"

definition run_item :: "hdcp_env \<Rightarrow> hdcp_work \<Rightarrow> sde_hdcp_2x_ctrl \<Rightarrow> hdcp_trace \<Rightarrow> hdcp_state option" where
  "run_item env k h w =
     (case k of
        Wk_enable \<Rightarrow> Some (sde_hdcp_2x_enable_work env h w)
      | Wk_disable \<Rightarrow> Some (sde_hdcp_2x_disable_work env h w)
      | Wk_init \<Rightarrow> Some (sde_hdcp_2x_init env h w)
      | Wk_start_auth \<Rightarrow> Some (sde_hdcp_2x_start_auth env h w)
      | Wk_msg_sent \<Rightarrow> sde_hdcp_2x_msg_sent env h w
      | Wk_msg_recvd \<Rightarrow> sde_hdcp_2x_msg_recvd env h w
      | Wk_timeout \<Rightarrow> sde_hdcp_2x_timeout env h w
      | Wk_clean \<Rightarrow> Some (sde_hdcp_2x_clean env h w)
      | Wk_stream \<Rightarrow> sde_hdcp_2x_stream env h w
      | Wk_wait \<Rightarrow> Some (sde_hdcp_2x_wait_for_response_work env h w)
      | Wk_send_type \<Rightarrow> sde_hdcp_2x_send_type env h w
      | Wk_manage_stream \<Rightarrow> Some (sde_hdcp_2x_manage_stream_work env h w))"

definition run_work :: "hdcp_env \<Rightarrow> sde_hdcp_2x_ctrl \<Rightarrow> hdcp_trace \<Rightarrow> hdcp_state option" where
  "run_work env h w = (case work_list h of [] \<Rightarrow> Some (h, w) | k # ks \<Rightarrow> run_item env k (h\<lparr>work_list := ks\<rparr>) w)"

fun run_works :: "hdcp_env \<Rightarrow> nat \<Rightarrow> sde_hdcp_2x_ctrl \<Rightarrow> hdcp_trace \<Rightarrow> hdcp_state option" where
  "run_works env 0 h w = Some (h, w)"
| "run_works env (Suc n) h w = do { (h, w) \<leftarrow> run_work env h w; run_works env n h w }"

text \<open>Flushing lets the worker run until the item is done; items that are queued meanwhile come later.\<close>

definition flush_work :: "hdcp_env \<Rightarrow> hdcp_work \<Rightarrow> sde_hdcp_2x_ctrl \<Rightarrow> hdcp_trace \<Rightarrow> hdcp_state option" where
  "flush_work env k h w =
     (if k \<in> set (work_list h) then run_works env (length (takeWhile (\<lambda>x. x \<noteq> k) (work_list h)) + 1) h w else Some (h, w))"

subsection \<open>Commands\<close>

datatype sde_hdcp_2x_wakeup_cmd =
    HDCP_2X_CMD_INVALID
  | HDCP_2X_CMD_ENABLE sde_hdcp_2x_device_type
  | HDCP_2X_CMD_DISABLE
  | HDCP_2X_CMD_START
  | HDCP_2X_CMD_START_AUTH
  | HDCP_2X_CMD_STOP
  | HDCP_2X_CMD_MSG_SEND_SUCCESS
  | HDCP_2X_CMD_MSG_SEND_FAILED
  | HDCP_2X_CMD_MSG_SEND_TIMEOUT
  | HDCP_2X_CMD_MSG_RECV_SUCCESS
  | HDCP_2X_CMD_MSG_RECV_FAILED
  | HDCP_2X_CMD_MSG_RECV_TIMEOUT
  | HDCP_2X_CMD_QUERY_STREAM_TYPE
  | HDCP_2X_CMD_LINK_FAILED
  | HDCP_2X_CMD_MIN_ENC_LEVEL u8
  | HDCP_2X_CMD_OPEN_STREAMS "(u8 \<times> u8) list"
  | HDCP_2X_CMD_CLOSE_STREAMS "(u8 \<times> u8) list"

definition is_enable :: "sde_hdcp_2x_wakeup_cmd \<Rightarrow> bool" where
  "is_enable c = (case c of HDCP_2X_CMD_ENABLE _ \<Rightarrow> True | _ \<Rightarrow> False)"

definition sde_hdcp_2x_check_valid_state ::
    "hdcp_env \<Rightarrow> sde_hdcp_2x_wakeup_cmd \<Rightarrow> sde_hdcp_2x_ctrl \<Rightarrow> hdcp_trace \<Rightarrow> (int \<times> hdcp_state) option" where
  "sde_hdcp_2x_check_valid_state env c h w = do {
     (h, w) \<leftarrow> (if hdcp2_ctx h = None then flush_work env Wk_enable h w else Some (h, w));
     Some (if \<not> is_enable c \<and> hdcp2_ctx h = None then - EINVAL else 0, h, w)
   }"

definition restart_work :: "hdcp_work \<Rightarrow> sde_hdcp_2x_ctrl \<Rightarrow> sde_hdcp_2x_ctrl" where
  "restart_work k h = HDCP_2X_EXECUTE k (cancel_work k h)"

definition dispatch_cmd :: "hdcp_env \<Rightarrow> sde_hdcp_2x_wakeup_cmd \<Rightarrow> sde_hdcp_2x_ctrl \<Rightarrow> hdcp_trace \<Rightarrow> hdcp_state" where
  "dispatch_cmd env c h w =
     (case c of
        HDCP_2X_CMD_ENABLE t \<Rightarrow> (HDCP_2X_EXECUTE Wk_enable ((cancel_work Wk_enable h)\<lparr>device_type := t\<rparr>), w)
      | HDCP_2X_CMD_DISABLE \<Rightarrow>
          (HDCP_2X_EXECUTE Wk_disable (if \<not> hdcp_off h then HDCP_2X_EXECUTE Wk_clean (h\<lparr>hdcp_off := True\<rparr>) else h), w)
      | HDCP_2X_CMD_START \<Rightarrow>
          (HDCP_2X_EXECUTE Wk_init ((cancel_work Wk_init h)
             \<lparr>no_stored_km := False, repeater_flag := False, update_stream := False, last_msg := INVALID_MESSAGE, timeout_left := 0, hdcp_off := False\<rparr>), w)
      | HDCP_2X_CMD_START_AUTH \<Rightarrow> (restart_work Wk_start_auth h, w)
      | HDCP_2X_CMD_STOP \<Rightarrow> (HDCP_2X_EXECUTE Wk_clean (h\<lparr>hdcp_off := True\<rparr>), w)
      | HDCP_2X_CMD_MSG_SEND_SUCCESS \<Rightarrow> (restart_work Wk_msg_sent h, w)
      | HDCP_2X_CMD_MSG_SEND_FAILED \<Rightarrow> (HDCP_2X_EXECUTE Wk_clean h, w)
      | HDCP_2X_CMD_MSG_RECV_FAILED \<Rightarrow> (HDCP_2X_EXECUTE Wk_clean h, w)
      | HDCP_2X_CMD_LINK_FAILED \<Rightarrow> (HDCP_2X_EXECUTE Wk_clean h, w)
      | HDCP_2X_CMD_MSG_RECV_SUCCESS \<Rightarrow> (restart_work Wk_msg_recvd h, w)
      | HDCP_2X_CMD_MSG_RECV_TIMEOUT \<Rightarrow> (restart_work Wk_timeout h, w)
      | HDCP_2X_CMD_QUERY_STREAM_TYPE \<Rightarrow> (restart_work Wk_stream h, w)
      | HDCP_2X_CMD_MIN_ENC_LEVEL l \<Rightarrow>
          let h = (cancel_work Wk_send_type h)\<lparr>min_enc_level := l\<rparr> in
          (if \<not> repeater_flag h then HDCP_2X_EXECUTE Wk_send_type h else restart_work Wk_stream h, w)
      | HDCP_2X_CMD_OPEN_STREAMS xs \<Rightarrow>
          let (changed, h, w) = sde_add_streams env (cancel_work Wk_manage_stream h) xs w in
          (if changed then HDCP_2X_EXECUTE Wk_manage_stream h else h, w)
      | HDCP_2X_CMD_CLOSE_STREAMS xs \<Rightarrow>
          let (changed, h) = sde_remove_streams (cancel_work Wk_manage_stream h) xs in
          (if changed then HDCP_2X_EXECUTE Wk_manage_stream h else h, w)
      | _ \<Rightarrow> (h, w))"

definition sde_hdcp_2x_wakeup ::
    "hdcp_env \<Rightarrow> sde_hdcp_2x_wakeup_cmd \<Rightarrow> u32 \<Rightarrow> u32 \<Rightarrow> sde_hdcp_2x_ctrl \<Rightarrow> hdcp_trace \<Rightarrow> (int \<times> hdcp_state) option" where
  "sde_hdcp_2x_wakeup env c timeout len h w = do {
     (rc, h, w) \<leftarrow> sde_hdcp_2x_check_valid_state env c (h\<lparr>timeout_left := timeout, total_message_length := len\<rparr>) w;
     Some (rc, if rc \<noteq> 0 then (h, w) else dispatch_cmd env c h w)
   }"

definition sde_hdcp_2x_client_feature_supported :: "hdcp_env \<Rightarrow> sde_hdcp_2x_ctrl \<Rightarrow> hdcp_trace \<Rightarrow> (int \<times> hdcp_state) option" where
  "sde_hdcp_2x_client_feature_supported env h w = do {
     (h, w) \<leftarrow> flush_work env Wk_enable h w;
     let (r, w) = ext (codes env) Feature_supported w;
     Some (r, h, w)
   }"

definition sde_hdcp_2x_force_encryption :: "bool \<Rightarrow> sde_hdcp_2x_ctrl \<Rightarrow> sde_hdcp_2x_ctrl" where
  "sde_hdcp_2x_force_encryption b h = h\<lparr>force_encryption := b\<rparr>"

text \<open>
  A registered instance; memory for it was zeroed. The buffers are null until the library gives some. The type
  of the device is the number 0 until the client enables the instance; HDMI stands for it, which the code
  treats alike. The wrong-argument returns of registering and the failure to start the thread leave no instance.
\<close>

definition sde_hdcp_2x_register :: "bool \<Rightarrow> sde_hdcp_2x_ctrl" where
  "sde_hdcp_2x_register wakeup = \<lparr>
     app_data = \<lparr>ad_request = None, ad_request_length = 0, ad_response = None, ad_response_length = 0, ad_timeout = 0, ad_repeater_flag = False\<rparr>,
     timeout_left = 0, wait_timeout_ms = 0, total_message_length = 0, no_stored_km = False, force_encryption = False, authenticated = False,
     resend_lc_init = False, resend_stream_manage = False, hdcp2_ctx = None, client_wakeup = wakeup, repeater_flag = False, update_stream = False,
     last_msg = INVALID_MESSAGE, hdcp_off = True, device_type = HDCP_TXMTR_HDMI, min_enc_level = 0, stream_handles = [], stream_count = 0, work_list = []\<rparr>"

end
