(* ===== verification/Sde_Hdcp_Inv.thy ===== *)
theory Sde_Hdcp_Inv
  imports Sde_Hdcp "HOL-Library.Multiset"
begin

section \<open>Content protection: invariant\<close>

text \<open>
  The operations of the instance as steps, and what every step keeps: authentication follows the keys that
  the library set, the transport only gets messages of the table, and the streams are counted.
\<close>

subsection \<open>What a trace says\<close>

text \<open>Whether a key is set: since the last time that the library was stopped, setting one succeeded.\<close>

fun key_step :: "hdcp_call \<times> int \<Rightarrow> bool \<Rightarrow> bool" where
  "key_step (App_comm HDCP2_CMD_SET_HW_KEY, rc) b = (rc = 0 \<or> b)"
| "key_step (App_comm HDCP2_CMD_STOP, rc) b = False"
| "key_step _ b = b"

definition keyed :: "hdcp_trace \<Rightarrow> bool" where
  "keyed w = fold key_step w False"

lemma keyed_snoc [simp]: "keyed [] = False" "keyed (w @ [x]) = key_step x (keyed w)"
  by (simp_all add: keyed_def)

text \<open>The numbers of messages, with the parts that a message of the table has.\<close>

definition msg_ids :: "int set" where
  "msg_ids = {2, 3, 4, 5, 7, 8, 9, 10, 11, 12, 15, 16, 17, 18}"

definition in_table :: "sde_hdcp_2x_msg_data option \<Rightarrow> bool" where
  "in_table m \<longleftrightarrow> (\<exists>i \<in> msg_ids. m = Some (hdcp_msg_lookup ! nat i))"

text \<open>A call that is in order: success is only told with a key, and every message is one of the table.\<close>

fun call_ok :: "bool \<Rightarrow> hdcp_call \<times> int \<Rightarrow> bool" where
  "call_ok k (Transport d, rc) = ((tw_cmd d = HDCP_TRANSPORT_CMD_STATUS_SUCCESS \<longrightarrow> k) \<and> (sends_message (tw_cmd d) \<longrightarrow> in_table (tw_message_data d)))"
| "call_ok k _ = True"

definition calls_ok :: "hdcp_trace \<Rightarrow> bool" where
  "calls_ok w \<longleftrightarrow> (\<forall>i < length w. call_ok (keyed (take i w)) (w ! i))"

lemma calls_ok_snoc [simp]: "calls_ok []" "calls_ok (w @ [x]) \<longleftrightarrow> calls_ok w \<and> call_ok (keyed w) x"
  by (auto simp: calls_ok_def less_Suc_eq nth_append all_conj_distrib imp_conjR)

lemma calls_ok_at: "calls_ok (p @ x # q) \<Longrightarrow> call_ok (keyed p) x"
  unfolding calls_ok_def by (drule spec [of _ "length p"]) simp

text \<open>
  The messages that the transport was told about, in order, and the orders that the protocol knows: a session
  begins with the first message, and a repeater may be told of its streams at any time.
\<close>

fun sent_of :: "hdcp_call \<times> int \<Rightarrow> sde_hdcp_2x_msg_data option list" where
  "sent_of (Transport d, rc) = (if sends_message (tw_cmd d) then [tw_message_data d] else [])"
| "sent_of _ = []"

definition sent_msgs :: "hdcp_trace \<Rightarrow> sde_hdcp_2x_msg_data option list" where
  "sent_msgs w = concat (map sent_of w)"

lemma sent_msgs_simps [simp]: "sent_msgs [] = []" "sent_msgs (w @ v) = sent_msgs w @ sent_msgs v" "sent_msgs (x # w) = sent_of x @ sent_msgs w"
  by (simp_all add: sent_msgs_def)

definition msg_next :: "int \<Rightarrow> int set" where
  "msg_next i = {AKE_INIT, REP_STREAM_MANAGE} \<union>
     (if i = AKE_INIT then {AKE_SEND_CERT}
      else if i = AKE_SEND_CERT then {AKE_NO_STORED_KM, AKE_STORED_KM}
      else if i = AKE_NO_STORED_KM \<or> i = AKE_STORED_KM then {AKE_SEND_H_PRIME}
      else if i = AKE_SEND_H_PRIME then {AKE_SEND_PAIRING_INFO, LC_INIT}
      else if i = AKE_SEND_PAIRING_INFO then {LC_INIT}
      else if i = LC_INIT then {LC_SEND_L_PRIME}
      else if i = LC_SEND_L_PRIME then {LC_INIT, SKE_SEND_EKS}
      else if i = SKE_SEND_EKS \<or> i = SKE_SEND_TYPE_ID then {SKE_SEND_TYPE_ID, REP_SEND_RECV_ID_LIST}
      else if i = REP_STREAM_READY \<or> i = REP_SEND_ACK then {REP_SEND_RECV_ID_LIST}
      else if i = REP_SEND_RECV_ID_LIST then {REP_SEND_ACK}
      else if i = REP_STREAM_MANAGE then {REP_STREAM_READY}
      else {})"

definition msg_path :: "int list \<Rightarrow> bool" where
  "msg_path ids \<longleftrightarrow> set ids \<subseteq> msg_ids \<and> successively (\<lambda>i j. j \<in> msg_next i) ids \<and> (ids \<noteq> [] \<longrightarrow> hd ids \<in> {AKE_INIT, REP_STREAM_MANAGE})"

definition msg_entry :: "int \<Rightarrow> sde_hdcp_2x_msg_data option" where
  "msg_entry i = Some (hdcp_msg_lookup ! nat i)"

lemma msg_path_snoc: "msg_path (ids @ [m]) \<longleftrightarrow> msg_path ids \<and> m \<in> msg_ids \<and> (if ids = [] then m \<in> {AKE_INIT, REP_STREAM_MANAGE} else m \<in> msg_next (last ids))"
  by (cases "ids = []") (auto simp: msg_path_def successively_append_iff)

text \<open>The messages are those of a path that ends with the last one, if there is a transport and a session.\<close>

definition flow :: "bool \<Rightarrow> int \<Rightarrow> hdcp_trace \<Rightarrow> bool" where
  "flow c m w \<longleftrightarrow> (\<exists>ids. sent_msgs w = map msg_entry ids \<and> msg_path ids \<and> (c \<and> m \<noteq> INVALID_MESSAGE \<longrightarrow> ids \<noteq> [] \<and> last ids = m))"

lemma flow_start [simp]: "flow c INVALID_MESSAGE []"
  unfolding flow_def by (rule exI [of _ "[]"]) (simp add: msg_path_def)

lemma flow_silent [simp]: "sent_of x = [] \<Longrightarrow> flow c m (w @ [x]) \<longleftrightarrow> flow c m w"
  by (simp add: flow_def)

lemma flow_weaken: "flow c m w \<Longrightarrow> flow c INVALID_MESSAGE w" "flow c m w \<Longrightarrow> flow False n w"
  by (auto simp: flow_def)

lemma flow_send:
  assumes "flow c m w" "c" "n \<in> msg_ids" "n \<in> msg_next m \<and> m \<noteq> INVALID_MESSAGE \<or> n \<in> {AKE_INIT, REP_STREAM_MANAGE}"
    "sent_of x = [msg_entry n]"
  shows "flow c n (w @ [x])"
proof -
  obtain ids where i: "sent_msgs w = map msg_entry ids" "msg_path ids" "m \<noteq> INVALID_MESSAGE \<longrightarrow> ids \<noteq> [] \<and> last ids = m"
    using assms(1,2) by (auto simp: flow_def)
  have "n \<in> {AKE_INIT, REP_STREAM_MANAGE} \<Longrightarrow> n \<in> msg_next j" for j by (auto simp: msg_next_def)
  then have "msg_path (ids @ [n])" using i assms(3,4) by (auto simp: msg_path_snoc)
  moreover have "sent_msgs (w @ [x]) = map msg_entry (ids @ [n])" using i(1) assms(5) by simp
  ultimately show ?thesis unfolding flow_def by (intro exI [of _ "ids @ [n]"]) simp
qed

text \<open>
  The handles of the streams that are open: opening adds the handle that the library gives, closing takes one
  away. The handle 0 is that of a stream that was never opened; closing it does nothing.
\<close>

fun open_step :: "hdcp_env \<Rightarrow> hdcp_trace \<Rightarrow> hdcp_call \<times> int \<Rightarrow> u32 multiset \<Rightarrow> u32 multiset" where
  "open_step env w (Open_stream vc i, rc) m = (if rc = 0 then add_mset (opened env w) m else m)"
| "open_step env w (Close_stream k, rc) m = m - {#k#}"
| "open_step env w _ m = m"

definition open_handles :: "hdcp_env \<Rightarrow> hdcp_trace \<Rightarrow> u32 multiset" where
  "open_handles env w = fold (\<lambda>i. open_step env (take i w) (w ! i)) [0..<length w] {#}"

lemma open_handles_snoc [simp]: "open_handles env [] = {#}" "open_handles env (w @ [x]) = open_step env w x (open_handles env w)"
proof -
  have "fold (\<lambda>i. open_step env (take i (w @ [x])) ((w @ [x]) ! i)) [0..<length w] {#} = fold (\<lambda>i. open_step env (take i w) (w ! i)) [0..<length w] {#}"
    by (rule fold_cong) (simp_all add: nth_append)
  then show "open_handles env (w @ [x]) = open_step env w x (open_handles env w)" by (simp add: open_handles_def)
qed (simp add: open_handles_def)

text \<open>The handles of the streams that the driver lists.\<close>

definition listed :: "sde_hdcp_stream list \<Rightarrow> u32 multiset" where
  "listed ss = mset (filter (\<lambda>k. k \<noteq> 0) (map stream_handle ss))"

lemma listed_simps [simp]:
  "listed [] = {#}" "listed (s # ss) = (if stream_handle s \<noteq> 0 then add_mset (stream_handle s) (listed ss) else listed ss)"
  "listed (ss @ ss') = listed ss + listed ss'"
  by (simp_all add: listed_def)

lemma listed_no_zero [simp]: "0 \<notin># listed ss"
  by (simp add: listed_def)

definition stream_key :: "sde_hdcp_stream \<Rightarrow> u8 \<times> u8" where
  "stream_key s = (virtual_channel s, stream_id s)"

text \<open>The library gives a handle exactly if opening succeeds.\<close>

definition open_ok :: "hdcp_env \<Rightarrow> bool" where
  "open_ok env \<longleftrightarrow> (\<forall>w vc i. codes env w (Open_stream vc i) = 0 \<longleftrightarrow> opened env w \<noteq> 0)"

subsection \<open>The invariant\<close>

definition hdcp_base :: "hdcp_env \<Rightarrow> sde_hdcp_2x_ctrl \<Rightarrow> hdcp_trace \<Rightarrow> bool" where
  "hdcp_base env h w \<longleftrightarrow> calls_ok w \<and> last_msg h \<in> insert INVALID_MESSAGE msg_ids \<and>
     stream_count h = word_of_nat (length (stream_handles h)) \<and> distinct (map stream_key (stream_handles h)) \<and>
     (\<forall>s \<in> set (stream_handles h). stream_handle s = 0 \<longrightarrow> st_active s) \<and>
     open_handles env w = listed (stream_handles h) \<and> flow (client_wakeup h) (last_msg h) w"

text \<open>The library gives buffers for a message number and one more byte, and keeps them.\<close>

definition buffers_ok :: "hdcp2_app_data \<Rightarrow> bool" where
  "buffers_ok d \<longleftrightarrow> (\<exists>x xs. ad_request d = Some (x # xs)) \<and> (\<exists>x y xs. ad_response d = Some (x # y # xs))"

lemma buffers_ok_code [code]:
  "buffers_ok d = ((case ad_request d of Some (x # xs) \<Rightarrow> True | _ \<Rightarrow> False) \<and> (case ad_response d of Some (x # y # xs) \<Rightarrow> True | _ \<Rightarrow> False))"
  by (auto simp: buffers_ok_def split: option.split list.split)

definition library_ok :: "hdcp_env \<Rightarrow> bool" where
  "library_ok env \<longleftrightarrow> (\<forall>w c d. buffers_ok d \<longrightarrow> buffers_ok (snd (answer env w c d)))"

text \<open>The flag tells whether the library has given its buffers.\<close>

definition hdcp_inv :: "hdcp_env \<Rightarrow> bool \<Rightarrow> hdcp_state \<Rightarrow> bool" where
  "hdcp_inv env g s \<longleftrightarrow> hdcp_base env (fst s) (snd s) \<and> (authenticated (fst s) \<longleftrightarrow> keyed (snd s)) \<and> (g \<longrightarrow> buffers_ok (app_data (fst s)))"

text \<open>What the parts of a handler keep: all but the fields of the message exchange.\<close>

definition same_core :: "sde_hdcp_2x_ctrl \<Rightarrow> sde_hdcp_2x_ctrl \<Rightarrow> bool" where
  "same_core h h' \<longleftrightarrow> stream_handles h' = stream_handles h \<and> stream_count h' = stream_count h \<and>
     authenticated h' = authenticated h \<and> app_data h' = app_data h \<and> hdcp_off h' = hdcp_off h \<and> client_wakeup h' = client_wakeup h"

lemma same_core_refl [simp]: "same_core h h"
  by (simp add: same_core_def)

lemma EXECUTE_core [simp]:
  "same_core h (HDCP_2X_EXECUTE k h)" "last_msg (HDCP_2X_EXECUTE k h) = last_msg h" "hdcp_base env (HDCP_2X_EXECUTE k h) w \<longleftrightarrow> hdcp_base env h w"
  "authenticated (HDCP_2X_EXECUTE k h) = authenticated h" "app_data (HDCP_2X_EXECUTE k h) = app_data h" "hdcp_off (HDCP_2X_EXECUTE k h) = hdcp_off h"
  by (simp_all add: HDCP_2X_EXECUTE_def same_core_def hdcp_base_def)

lemma cancel_core [simp]:
  "same_core h (cancel_work k h)" "last_msg (cancel_work k h) = last_msg h" "hdcp_base env (cancel_work k h) w \<longleftrightarrow> hdcp_base env h w"
  "authenticated (cancel_work k h) = authenticated h" "app_data (cancel_work k h) = app_data h"
  by (simp_all add: cancel_work_def same_core_def hdcp_base_def)

lemma wait_core [simp]:
  "same_core h (sde_hdcp_2x_wait_for_response env h)" "last_msg (sde_hdcp_2x_wait_for_response env h) = last_msg h"
  "hdcp_base env (sde_hdcp_2x_wait_for_response env h) w \<longleftrightarrow> hdcp_base env h w"
  by (simp_all add: sde_hdcp_2x_wait_for_response_def Let_def HDCP_2X_EXECUTE_def same_core_def hdcp_base_def)

text \<open>The next message is one of the table, or none; the code for an unknown message is never reached.\<close>

lemma next_message:
  assumes "last_msg h \<in> insert INVALID_MESSAGE msg_ids" "sde_hdcp_2x_get_next_message h c = (m, h')"
  shows "m \<in> insert INVALID_MESSAGE msg_ids" "same_core h h'"
  using assms unfolding sde_hdcp_2x_get_next_message_def
  by (auto simp: msg_ids_def Let_def same_core_def split: if_splits)

lemma next_message_follows:
  assumes "last_msg h \<in> insert INVALID_MESSAGE msg_ids" "sde_hdcp_2x_get_next_message h c = (m, h')" "m \<noteq> INVALID_MESSAGE"
  shows "m \<in> msg_next (last_msg h) \<and> last_msg h \<noteq> INVALID_MESSAGE \<or> m \<in> {AKE_INIT, REP_STREAM_MANAGE}"
  using assms(1) unfolding msg_ids_def insert_iff empty_iff simp_thms
  by (elim disjE) (use assms(2,3) in \<open>simp_all add: sde_hdcp_2x_get_next_message_def msg_next_def Let_def split: if_splits\<close>)

lemma wakeup_client_cases:
  assumes "sde_hdcp_2x_wakeup_client env h d w = (h', w')"
  obtains "\<not> client_wakeup h \<or> tw_cmd d = HDCP_TRANSPORT_CMD_INVALID" "h' = h" "w' = w"
  | m h1 where "sends_message (tw_cmd d)" "sde_hdcp_2x_get_next_message h (tw_cmd d) = (m, h1)" "m \<le> 0" "h' = h1\<lparr>last_msg := 0\<rparr>" "w' = w"
  | m h1 rc where "sends_message (tw_cmd d)" "sde_hdcp_2x_get_next_message h (tw_cmd d) = (m, h1)" "m > 0" "client_wakeup h"
      "h' = sde_hdcp_2x_wait_for_response env (h1\<lparr>last_msg := m\<rparr>)"
      "w' = w @ [(Transport (d\<lparr>tw_abort_mask := 24, tw_message_data := Some (hdcp_msg_lookup ! nat m)\<rparr>), rc)]"
  | rc where "\<not> sends_message (tw_cmd d)" "h' = sde_hdcp_2x_wait_for_response env h" "w' = w @ [(Transport (d\<lparr>tw_abort_mask := 24\<rparr>), rc)]"
proof -
  obtain m h1 where m: "sde_hdcp_2x_get_next_message h (tw_cmd d) = (m, h1)" by (cases "sde_hdcp_2x_get_next_message h (tw_cmd d)")
  consider "\<not> client_wakeup h \<or> tw_cmd d = HDCP_TRANSPORT_CMD_INVALID"
    | "client_wakeup h" "tw_cmd d \<noteq> HDCP_TRANSPORT_CMD_INVALID" "sends_message (tw_cmd d)" "m \<le> 0"
    | "client_wakeup h" "tw_cmd d \<noteq> HDCP_TRANSPORT_CMD_INVALID" "sends_message (tw_cmd d)" "m > 0"
    | "client_wakeup h" "tw_cmd d \<noteq> HDCP_TRANSPORT_CMD_INVALID" "\<not> sends_message (tw_cmd d)" by linarith
  then show ?thesis
  proof cases
    case 1
    then have "h' = h" "w' = w" using assms by (simp_all add: sde_hdcp_2x_wakeup_client_def)
    then show ?thesis by (rule that(1) [OF 1])
  next
    case 2
    then show ?thesis using assms m that(2) by (simp add: sde_hdcp_2x_wakeup_client_def Let_def)
  next
    case 3
    define t where "t = Transport (d\<lparr>tw_abort_mask := 24, tw_message_data := Some (hdcp_msg_lookup ! nat m)\<rparr>)"
    have "h' = sde_hdcp_2x_wait_for_response env (h1\<lparr>last_msg := m\<rparr>)" "w' = w @ [(t, codes env w t)]"
      using 3 assms m by (simp_all add: sde_hdcp_2x_wakeup_client_def Let_def ext_def t_def)
    then show ?thesis unfolding t_def by (rule that(3) [OF 3(3) m 3(4,1)])
  next
    case 4
    define t where "t = Transport (d\<lparr>tw_abort_mask := 24\<rparr>)"
    have "h' = sde_hdcp_2x_wait_for_response env h" "w' = w @ [(t, codes env w t)]"
      using 4 assms by (simp_all add: sde_hdcp_2x_wakeup_client_def Let_def ext_def t_def)
    then show ?thesis unfolding t_def by (rule that(4) [OF 4(3)])
  qed
qed

lemma base_same:
  "hdcp_base env h w \<Longrightarrow> same_core h h' \<Longrightarrow> last_msg h' = last_msg h \<or> last_msg h' = INVALID_MESSAGE \<Longrightarrow> hdcp_base env h' w"
  using flow_weaken by (auto simp: hdcp_base_def same_core_def)

lemma base_transport:
  "hdcp_base env h w \<Longrightarrow> call_ok (keyed w) (Transport d, rc) \<Longrightarrow> \<not> sends_message (tw_cmd d) \<Longrightarrow> hdcp_base env h (w @ [(Transport d, rc)])"
  by (simp add: hdcp_base_def)

text \<open>Telling the transport a message, from the last message or, for the streams of a repeater, from any.\<close>

lemma base_message:
  assumes b: "hdcp_base env h w" and s: "same_core h h'" "last_msg h' = m" and m: "m \<in> msg_ids" "client_wakeup h" "sends_message (tw_cmd d)" "tw_message_data d = msg_entry m"
    and n: "m \<in> msg_next (last_msg h) \<and> last_msg h \<noteq> INVALID_MESSAGE \<or> m \<in> {AKE_INIT, REP_STREAM_MANAGE}"
  shows "hdcp_base env h' (w @ [(Transport d, rc)])"
proof -
  have c: "call_ok (keyed w) (Transport d, rc)" using m by (auto simp: sends_message_def in_table_def msg_entry_def)
  have "flow True m (w @ [(Transport d, rc)])"
    by (rule flow_send [of _ "last_msg h"]) (use b m n in \<open>simp_all add: hdcp_base_def\<close>)
  then show ?thesis using b s m(1,2) c by (simp add: hdcp_base_def same_core_def)
qed

lemma wakeup_client_core:
  assumes b: "hdcp_base env h w" and k: "tw_cmd d = HDCP_TRANSPORT_CMD_STATUS_SUCCESS \<longrightarrow> keyed w"
    and run: "sde_hdcp_2x_wakeup_client env h d w = (h', w')"
  shows "hdcp_base env h' w' \<and> same_core h h' \<and> keyed w' = keyed w"
proof -
  have l: "last_msg h \<in> insert INVALID_MESSAGE msg_ids" using b by (simp add: hdcp_base_def)
  from run show ?thesis
  proof (cases rule: wakeup_client_cases)
    case (2 m h1)
    note n = next_message [OF l 2(2)]
    have "same_core h h'" using n(2) 2(4) by (simp add: same_core_def)
    then show ?thesis using base_same [OF b] 2(4,5) by simp
  next
    case (3 m h1 rc)
    note n = next_message [OF l 3(2)]
    have "same_core h (h1\<lparr>last_msg := m\<rparr>)" using n(2) by (simp add: same_core_def)
    then have s: "same_core h h'" using wait_core(1) [of "h1\<lparr>last_msg := m\<rparr>" env] unfolding 3(5) by (simp add: same_core_def)
    have "hdcp_base env h' w'"
      unfolding 3(6) by (rule base_message [OF b s, where m = m]) (use n next_message_follows [OF l 3(2)] 3 in \<open>auto simp: msg_entry_def\<close>)
    then show ?thesis using s 3(6) by simp
  next
    case (4 rc)
    then show ?thesis using b k by (simp add: base_transport)
  qed (use b in simp)
qed

subsection \<open>Parts of handlers\<close>

lemma inv_fields [simp]:
  "hdcp_inv env g (h\<lparr>no_stored_km := a\<rparr>, w) \<longleftrightarrow> hdcp_inv env g (h, w)" "hdcp_inv env g (h\<lparr>resend_lc_init := a\<rparr>, w) \<longleftrightarrow> hdcp_inv env g (h, w)"
  "hdcp_inv env g (h\<lparr>repeater_flag := a\<rparr>, w) \<longleftrightarrow> hdcp_inv env g (h, w)" "hdcp_inv env g (h\<lparr>update_stream := a\<rparr>, w) \<longleftrightarrow> hdcp_inv env g (h, w)"
  "hdcp_inv env g (h\<lparr>wait_timeout_ms := n\<rparr>, w) \<longleftrightarrow> hdcp_inv env g (h, w)" "hdcp_inv env g (h\<lparr>resend_stream_manage := a\<rparr>, w) \<longleftrightarrow> hdcp_inv env g (h, w)"
  "hdcp_inv env g (h\<lparr>hdcp_off := a\<rparr>, w) \<longleftrightarrow> hdcp_inv env g (h, w)" "hdcp_inv env g (h\<lparr>hdcp2_ctx := c\<rparr>, w) \<longleftrightarrow> hdcp_inv env g (h, w)"
  "hdcp_inv env g (h\<lparr>timeout_left := n\<rparr>, w) \<longleftrightarrow> hdcp_inv env g (h, w)" "hdcp_inv env g (h\<lparr>total_message_length := n\<rparr>, w) \<longleftrightarrow> hdcp_inv env g (h, w)"
  "hdcp_inv env g (h\<lparr>device_type := t\<rparr>, w) \<longleftrightarrow> hdcp_inv env g (h, w)" "hdcp_inv env g (h\<lparr>min_enc_level := l\<rparr>, w) \<longleftrightarrow> hdcp_inv env g (h, w)"
  "hdcp_inv env g (h\<lparr>force_encryption := a\<rparr>, w) \<longleftrightarrow> hdcp_inv env g (h, w)" "hdcp_inv env g (h\<lparr>work_list := ks\<rparr>, w) \<longleftrightarrow> hdcp_inv env g (h, w)"
  "hdcp_inv env g (HDCP_2X_EXECUTE k h, w) \<longleftrightarrow> hdcp_inv env g (h, w)" "hdcp_inv env g (cancel_work k h, w) \<longleftrightarrow> hdcp_inv env g (h, w)"
  by (simp_all add: hdcp_inv_def) (simp_all add: hdcp_base_def)

lemma inv_no_msg: "hdcp_inv env g (h, w) \<Longrightarrow> hdcp_inv env g (h\<lparr>last_msg := INVALID_MESSAGE\<rparr>, w)"
  using flow_weaken by (auto simp: hdcp_inv_def hdcp_base_def)

lemma inv_app_data: "hdcp_inv env g (h, w) \<Longrightarrow> g \<longrightarrow> buffers_ok d \<Longrightarrow> hdcp_inv env g (h\<lparr>app_data := d\<rparr>, w)"
  by (simp add: hdcp_inv_def hdcp_base_def)

lemma inv_buffers: "hdcp_inv env True (h, w) \<Longrightarrow> buffers_ok (app_data h)"
  by (simp add: hdcp_inv_def)

lemma lib_buffers: "library_ok env \<Longrightarrow> buffers_ok d \<Longrightarrow> answer env w c d = (rc, d') \<Longrightarrow> buffers_ok d'"
  unfolding library_ok_def by (metis snd_conv)

lemma inv_app_comm:
  assumes "hdcp_inv env g (h, w)" "library_ok env" "c \<noteq> HDCP2_CMD_SET_HW_KEY" "c \<noteq> HDCP2_CMD_STOP" "hdcp2_app_comm env c h w = (rc, h', w')"
  shows "hdcp_inv env g (h', w')"
proof -
  obtain r d where a: "answer env w c (app_data h) = (r, d)" by (cases "answer env w c (app_data h)")
  have "g \<longrightarrow> buffers_ok d" using lib_buffers [OF assms(2) _ a] assms(1) by (simp add: hdcp_inv_def)
  moreover have "h' = h\<lparr>app_data := d\<rparr>" "w' = w @ [(App_comm c, r)]" using assms(5) a by (auto simp: hdcp2_app_comm_def)
  moreover have "key_step (App_comm c, r) b = b" for b using assms(3,4) by (cases c) simp_all
  ultimately show ?thesis using assms(1) by (simp add: hdcp_inv_def hdcp_base_def)
qed

lemma inv_wakeup:
  assumes "hdcp_inv env g (h, w)" "tw_cmd d \<noteq> HDCP_TRANSPORT_CMD_STATUS_SUCCESS" "sde_hdcp_2x_wakeup_client env h d w = (h', w')"
  shows "hdcp_inv env g (h', w')"
  using wakeup_client_core [OF _ _ assms(3)] assms(1,2) by (simp add: hdcp_inv_def same_core_def)

lemma inv_send: "hdcp_inv env g (h, w) \<Longrightarrow> sde_hdcp_2x_send_message env h w = (h', w') \<Longrightarrow> hdcp_inv env g (h', w')"
  unfolding sde_hdcp_2x_send_message_def by (erule inv_wakeup) (simp_all add: wakeup_data_def)

lemma inv_set_hw_key:
  assumes inv: "hdcp_inv env True (h, w)" and lib: "library_ok env" and run: "sde_hdcp_2x_set_hw_key env h w = (h', w')"
  shows "hdcp_inv env True (h', w')"
proof (cases "authenticated h")
  case True
  then show ?thesis using inv run by (simp add: sde_hdcp_2x_set_hw_key_def)
next
  case False
  obtain rc d where a: "answer env w HDCP2_CMD_SET_HW_KEY (app_data h) = (rc, d)" by (cases "answer env w HDCP2_CMD_SET_HW_KEY (app_data h)")
  define w1 where "w1 = w @ [(App_comm HDCP2_CMD_SET_HW_KEY, rc)]"
  have d: "buffers_ok d" by (rule lib_buffers [OF lib inv_buffers [OF inv] a])
  have b: "hdcp_base env h w" "\<not> keyed w" using inv False by (simp_all add: hdcp_inv_def)
  show ?thesis
  proof (cases "rc = 0")
    case rc: True
    define w2 where "w2 = (if force_encryption h then vcall Force_encryption w1 else w1)"
    define h2 where "h2 = h\<lparr>app_data := d, authenticated := True\<rparr>"
    have k1: "keyed w1" "hdcp_base env h w1" using rc b(1) by (simp_all add: w1_def hdcp_base_def)
    have k: "keyed w2" using k1(1) by (simp add: w2_def vcall_def)
    have b2: "hdcp_base env h2 w2" using k1(2) by (simp add: h2_def w2_def vcall_def hdcp_base_def)
    have r: "sde_hdcp_2x_wakeup_client env h2 (wakeup_data HDCP_TRANSPORT_CMD_STATUS_SUCCESS) w2 = (h', w')"
      using run False a rc by (cases "force_encryption h") (simp_all add: sde_hdcp_2x_set_hw_key_def hdcp2_app_comm_def w1_def w2_def h2_def)
    show ?thesis using wakeup_client_core [OF b2 _ r] k d by (simp add: hdcp_inv_def same_core_def h2_def)
  next
    case rc: False
    then have "h' = h\<lparr>app_data := d\<rparr>" "w' = w1"
      using run False a by (simp_all add: sde_hdcp_2x_set_hw_key_def hdcp2_app_comm_def w1_def)
    then show ?thesis using b d False rc by (simp add: hdcp_inv_def hdcp_base_def w1_def)
  qed
qed

text \<open>Closing all streams.\<close>

lemma close_all_result:
  assumes "calls_ok w" "close_all env ss h w = (h', w')"
  shows "calls_ok w' \<and> keyed w' = keyed w \<and> (\<forall>q. open_handles env w = listed ss + q \<longrightarrow> 0 \<notin># q \<longrightarrow> open_handles env w' = q) \<and> sent_msgs w' = sent_msgs w \<and>
    h' = h\<lparr>stream_handles := [], stream_count := stream_count h - word_of_nat (length ss)\<rparr>"
  using assms
proof (induction ss arbitrary: h w)
  case (Cons s ss)
  define w1 where "w1 = snd (ext (codes env) (Close_stream (stream_handle s)) w)"
  have w1: "calls_ok w1" "keyed w1 = keyed w" "open_handles env w1 = open_handles env w - {#stream_handle s#}" "sent_msgs w1 = sent_msgs w"
    using Cons.prems(1) by (simp_all add: w1_def ext_def)
  have "close_all env ss (h\<lparr>stream_count := stream_count h - 1\<rparr>) w1 = (h', w')" using Cons.prems(2) by (simp add: w1_def)
  from Cons.IH [OF w1(1) this] show ?case using w1 by (auto simp: algebra_simps diff_single_trivial)
qed (auto intro: sde_hdcp_2x_ctrl.equality)

lemma inv_clean:
  assumes inv: "hdcp_inv env g (h, w)" and lib: "library_ok env" and run: "sde_hdcp_2x_clean env h w = (h', w')"
  shows "hdcp_inv env g (h', w') \<and> stream_handles h' = [] \<and> hdcp_off h'"
proof -
  define h0 where "h0 = h\<lparr>authenticated := False\<rparr>"
  obtain h1 w1 where c: "close_all env (stream_handles h0) h0 w = (h1, w1)" by (cases "close_all env (stream_handles h0) h0 w")
  have b: "hdcp_base env h w" using inv by (simp add: hdcp_inv_def)
  then have "calls_ok w" by (simp add: hdcp_base_def)
  note r = close_all_result [OF this c]
  define h2 where "h2 = h1\<lparr>hdcp_off := True\<rparr>"
  have b2: "hdcp_base env h2 w1" "\<not> authenticated h2" "app_data h2 = app_data h" "stream_handles h2 = []" "hdcp_off h2" using b r by (simp_all add: hdcp_base_def h2_def h0_def flow_def)
  define off where "off = hdcp_off h1"
  obtain h3 w3 where t: "(if \<not> off then sde_hdcp_2x_wakeup_client env h2 (wakeup_data HDCP_TRANSPORT_CMD_STATUS_FAILED) w1 else (h2, w1)) = (h3, w3)"
    by (cases "if \<not> off then sde_hdcp_2x_wakeup_client env h2 (wakeup_data HDCP_TRANSPORT_CMD_STATUS_FAILED) w1 else (h2, w1)")
  have b3: "hdcp_base env h3 w3 \<and> same_core h2 h3"
    using t b2(1) wakeup_client_core [OF b2(1), of "wakeup_data HDCP_TRANSPORT_CMD_STATUS_FAILED" h3 w3]
    by (cases off) (auto simp: wakeup_data_def)
  obtain rc d where a: "answer env w3 HDCP2_CMD_STOP (app_data h3) = (rc, d)" by (cases "answer env w3 HDCP2_CMD_STOP (app_data h3)")
  have "sde_hdcp_2x_clean env h w = (h3\<lparr>app_data := d\<rparr>, w3 @ [(App_comm HDCP2_CMD_STOP, rc)])"
    unfolding sde_hdcp_2x_clean_def Let_def h0_def [symmetric] c prod.case off_def [symmetric] h2_def [symmetric] t hdcp2_app_comm_def a
    by (rule refl)
  then have res: "h' = h3\<lparr>app_data := d\<rparr>" "w' = w3 @ [(App_comm HDCP2_CMD_STOP, rc)]" using run by simp_all
  have "g \<longrightarrow> buffers_ok (app_data h3)" using b3 b2(3) inv by (simp add: same_core_def hdcp_inv_def)
  then have "g \<longrightarrow> buffers_ok d" using lib_buffers [OF lib _ a] by simp
  then show ?thesis using b3 b2(2,4,5) res by (auto simp: hdcp_inv_def hdcp_base_def same_core_def)
qed

end
