(* ===== verification/Sde_Hdcp_Run.thy ===== *)
theory Sde_Hdcp_Run
  imports Sde_Hdcp_Inv
begin

section \<open>Content protection: runs\<close>

text \<open>Every work item and every command has a value and keeps the invariant, so that runs of them do.\<close>

subsection \<open>Work items\<close>

lemma byte0_response: "buffers_ok d \<Longrightarrow> \<exists>b. byte0 (ad_response d) = Some b"
  by (auto simp: buffers_ok_def byte0_def)

lemma byte0_request: "buffers_ok d \<Longrightarrow> \<exists>b. byte0 (ad_request d) = Some b"
  by (auto simp: buffers_ok_def byte0_def)

lemma put_type_result:
  assumes "buffers_ok (app_data h)"
  shows "\<exists>d. put_type h = Some (h\<lparr>app_data := d\<rparr>) \<and> buffers_ok d"
  using assms by (auto simp: put_type_def put_byte_def buffers_ok_def)

lemma cmd_simps [simp]:
  "tw_cmd (wakeup_data c) = c" "tw_cmd (sde_hdcp_2x_initialize_command h c) = c"
  by (simp_all add: wakeup_data_def sde_hdcp_2x_initialize_command_def)

text \<open>A wakeup at the end of a handler.\<close>

lemma inv_wakeup_pair:
  assumes "hdcp_inv env g (h, w)" "tw_cmd d \<noteq> HDCP_TRANSPORT_CMD_STATUS_SUCCESS"
  shows "hdcp_inv env g (sde_hdcp_2x_wakeup_client env h d w)"
  using inv_wakeup [OF assms] by (metis prod.exhaust)

lemma inv_send_pair: "hdcp_inv env g (h, w) \<Longrightarrow> hdcp_inv env g (sde_hdcp_2x_send_message env h w)"
  unfolding sde_hdcp_2x_send_message_def by (erule inv_wakeup_pair) simp

lemma inv_key_pair: "hdcp_inv env True (h, w) \<Longrightarrow> library_ok env \<Longrightarrow> hdcp_inv env True (sde_hdcp_2x_set_hw_key env h w)"
  using inv_set_hw_key by (metis prod.exhaust)

lemma ex_pair: "hdcp_inv env g (f :: hdcp_state) \<Longrightarrow> \<exists>a b. f = (a, b) \<and> hdcp_inv env g (a, b)"
  by (cases f) simp

lemmas inv_ex = inv_wakeup_pair [THEN ex_pair] inv_send_pair [THEN ex_pair]

lemma send_type_inv:
  assumes "hdcp_inv env True (h, w)"
  shows "\<exists>s. sde_hdcp_2x_send_type env h w = Some s \<and> hdcp_inv env True s"
proof -
  obtain d where d: "put_type h = Some (h\<lparr>app_data := d\<rparr>)" "buffers_ok d" using put_type_result [OF inv_buffers [OF assms]] by blast
  show ?thesis using inv_app_data [OF assms, of d] d(2) assms d(1) by (auto simp: sde_hdcp_2x_send_type_def intro!: inv_ex)
qed

text \<open>A repeater is told of its streams.\<close>

lemma send_streams_inv:
  assumes inv: "hdcp_inv env g (h, w)" and r: "repeater_flag h" and l: "l = REP_SEND_ACK"
    and run: "sde_hdcp_2x_send_message env (h\<lparr>last_msg := l\<rparr>) w = (h', w')"
  shows "hdcp_inv env g (h', w')"
proof -
  have b: "hdcp_base env h w" using inv by (simp add: hdcp_inv_def)
  define d where "d = (wakeup_data HDCP_TRANSPORT_CMD_SEND_MESSAGE)
    \<lparr>tw_timeout := ad_timeout (app_data h), tw_buf_len := ad_response_length (app_data h), tw_buf := Buf_response\<rparr>"
  have c: "tw_cmd d = HDCP_TRANSPORT_CMD_SEND_MESSAGE" by (simp add: d_def wakeup_data_def)
  have nx: "sde_hdcp_2x_get_next_message (h\<lparr>last_msg := l\<rparr>) (tw_cmd d) = (REP_STREAM_MANAGE, h\<lparr>last_msg := l\<rparr>)"
    using r l by (simp add: c sde_hdcp_2x_get_next_message_def Let_def)
  from run have "sde_hdcp_2x_wakeup_client env (h\<lparr>last_msg := l\<rparr>) d w = (h', w')" by (simp add: sde_hdcp_2x_send_message_def d_def)
  then show ?thesis
  proof (cases rule: wakeup_client_cases)
    case 1
    then have n: "\<not> client_wakeup h" by (simp add: c)
    have "flow (client_wakeup h) (last_msg h) w" using b by (simp add: hdcp_base_def)
    then have "flow False l w" by (rule flow_weaken(2))
    then have "hdcp_base env h' w'" using b n 1 l by (simp add: hdcp_base_def msg_ids_def)
    then show ?thesis using inv 1 by (simp add: hdcp_inv_def)
  next
    case (2 m h1)
    then show ?thesis using nx by simp
  next
    case (3 m h1 rc)
    have m: "m = REP_STREAM_MANAGE" "h1 = h\<lparr>last_msg := l\<rparr>" using 3(2) nx by simp_all
    have s: "same_core h h'" using wait_core(1) [of "h1\<lparr>last_msg := m\<rparr>" env] unfolding 3(5) m(2) by (simp add: same_core_def)
    have "hdcp_base env h' w'"
      unfolding 3(6) by (rule base_message [OF b s, where m = m]) (use 3 m in \<open>simp_all add: msg_entry_def msg_ids_def\<close>)
    moreover have "keyed w' = keyed w" using 3(6) by simp
    ultimately show ?thesis using inv s by (simp add: hdcp_inv_def same_core_def)
  next
    case (4 rc)
    then show ?thesis by (simp add: c sends_message_def)
  qed
qed

lemma app_comm_fields:
  "hdcp2_app_comm env c h w = (rc, h', w') \<Longrightarrow> repeater_flag h' = repeater_flag h \<and> hdcp_off h' = hdcp_off h \<and> authenticated h' = authenticated h \<and>
     work_list h' = work_list h \<and> hdcp2_ctx h' = hdcp2_ctx h"
  by (auto simp: hdcp2_app_comm_def split: prod.splits)

lemma stream_inv:
  assumes inv: "hdcp_inv env True (h, w)" and lib: "library_ok env"
  shows "\<exists>s. sde_hdcp_2x_stream env h w = Some s \<and> hdcp_inv env True s"
proof -
  obtain b where b: "byte0 (ad_response (app_data h)) = Some b" using byte0_response [OF inv_buffers [OF inv]] by blast
  obtain rc h1 w1 where a: "hdcp2_app_comm env HDCP2_CMD_QUERY_STREAM h w = (rc, h1, w1)" by (cases "hdcp2_app_comm env HDCP2_CMD_QUERY_STREAM h w") auto
  have i1: "hdcp_inv env True (h1, w1)" by (rule inv_app_comm [OF inv lib _ _ a]) simp_all
  obtain h2 w2 where s: "sde_hdcp_2x_send_message env (h1\<lparr>last_msg := REP_SEND_ACK\<rparr>) w1 = (h2, w2)" by fastforce
  have "repeater_flag h \<Longrightarrow> hdcp_inv env True (h2, w2)" using send_streams_inv [OF i1 _ refl s] app_comm_fields [OF a] by simp
  then show ?thesis using b a inv i1 s by (auto simp: sde_hdcp_2x_stream_def Let_def)
qed

lemma msg_sent_inv:
  assumes inv: "hdcp_inv env True (h, w)" and lib: "library_ok env"
  shows "\<exists>s. sde_hdcp_2x_msg_sent env h w = Some s \<and> hdcp_inv env True s"
proof -
  obtain b where b: "byte0 (ad_response (app_data h)) = Some b" using byte0_response [OF inv_buffers [OF inv]] by blast
  obtain d where d: "put_type h = Some (h\<lparr>app_data := d\<rparr>)" "buffers_ok d" using put_type_result [OF inv_buffers [OF inv]] by blast
  obtain h1 w1 where k: "sde_hdcp_2x_set_hw_key env h w = (h1, w1)" by (cases "sde_hdcp_2x_set_hw_key env h w")
  obtain h2 w2 where s: "sde_hdcp_2x_send_message env (h\<lparr>app_data := d\<rparr>) w = (h2, w2)" by (cases "sde_hdcp_2x_send_message env (h\<lparr>app_data := d\<rparr>) w")
  have i1: "hdcp_inv env True (h1, w1)" by (rule inv_set_hw_key [OF inv lib k])
  have i2: "hdcp_inv env True (h2, w2)" by (rule inv_send [OF inv_app_data [OF inv] s]) (use d(2) in simp)
  consider "uint b = SKE_SEND_TYPE_ID" | "uint b = SKE_SEND_EKS" | "uint b = REP_SEND_ACK" | "uint b \<noteq> SKE_SEND_TYPE_ID" "uint b \<noteq> SKE_SEND_EKS" "uint b \<noteq> REP_SEND_ACK"
    by blast
  then show ?thesis
    by cases (use b d(1) k s inv i1 i2 in \<open>auto simp: sde_hdcp_2x_msg_sent_def intro!: inv_ex inv_wakeup_pair\<close>)
qed

lemma timeout_inv:
  assumes inv: "hdcp_inv env True (h, w)" and lib: "library_ok env"
  shows "\<exists>s. sde_hdcp_2x_timeout env h w = Some s \<and> hdcp_inv env True s"
proof -
  obtain rc h1 w1 where a: "hdcp2_app_comm env HDCP2_CMD_TIMEOUT h w = (rc, h1, w1)" by (cases "hdcp2_app_comm env HDCP2_CMD_TIMEOUT h w") auto
  have i1: "hdcp_inv env True (h1, w1)" by (rule inv_app_comm [OF inv lib _ _ a]) simp_all
  obtain b where b: "byte0 (ad_response (app_data h1)) = Some b" using byte0_response [OF inv_buffers [OF i1]] by blast
  show ?thesis using inv i1 a b by (auto simp: sde_hdcp_2x_timeout_def Let_def intro!: inv_ex)
qed

text \<open>The answer of the library to a message of the sink.\<close>

lemma recvd_answer_inv:
  assumes inv: "hdcp_inv env True (h, w)" and lib: "library_ok env"
  shows "\<exists>rc d s. recvd_answer env h w = Some (rc, d, s) \<and> tw_cmd d \<noteq> HDCP_TRANSPORT_CMD_STATUS_SUCCESS \<and> hdcp_inv env True s"
proof -
  obtain b where b: "byte0 (ad_request (app_data h)) = Some b" using byte0_request [OF inv_buffers [OF inv]] by blast
  obtain o1 where o1: "byte0 (ad_response (app_data h)) = Some o1" using byte0_response [OF inv_buffers [OF inv]] by blast
  define out where "out = (if ad_response_length (app_data h) = 0 then INVALID_MESSAGE else uint o1)"
  obtain rc h1 w1 where a: "hdcp2_app_comm env HDCP2_CMD_QUERY_STREAM h w = (rc, h1, w1)" by (cases "hdcp2_app_comm env HDCP2_CMD_QUERY_STREAM h w") auto
  have i1: "hdcp_inv env True (h1, w1)" by (rule inv_app_comm [OF inv lib _ _ a]) simp_all
  obtain h2 w2 where s: "sde_hdcp_2x_send_message env h1 w1 = (h2, w2)" by (cases "sde_hdcp_2x_send_message env h1 w1")
  have i2: "hdcp_inv env True (h2, w2)" by (rule inv_send [OF i1 s])
  obtain h3 w3 where k: "sde_hdcp_2x_set_hw_key env h w = (h3, w3)" by (cases "sde_hdcp_2x_set_hw_key env h w")
  have i3: "hdcp_inv env True (h3, w3)" by (rule inv_set_hw_key [OF inv lib k])
  have out: "(if ad_response_length (app_data h) = 0 then Some INVALID_MESSAGE else map_option uint (byte0 (ad_response (app_data h)))) = Some out"
    using o1 by (simp add: out_def)
  consider "uint b = AKE_SEND_H_PRIME \<and> no_stored_km h"
    | "\<not> (uint b = AKE_SEND_H_PRIME \<and> no_stored_km h)" "uint b = REP_STREAM_READY \<and> out \<noteq> REP_STREAM_MANAGE"
    | "\<not> (uint b = AKE_SEND_H_PRIME \<and> no_stored_km h)" "\<not> (uint b = REP_STREAM_READY \<and> out \<noteq> REP_STREAM_MANAGE)" by blast
  then show ?thesis
  proof cases
    case 1
    then show ?thesis using inv b by (simp add: recvd_answer_def)
  next
    case 2
    then show ?thesis using b a s k i1 i2 i3 by (auto simp: recvd_answer_def out Let_def)
  next
    case 3
    then show ?thesis using b inv by (auto simp: recvd_answer_def out Let_def)
  qed
qed

lemma msg_recvd_inv:
  assumes inv: "hdcp_inv env True (h, w)" and lib: "library_ok env"
  shows "\<exists>s. sde_hdcp_2x_msg_recvd env h w = Some s \<and> hdcp_inv env True s"
proof -
  define dp where "dp \<longleftrightarrow> device_type h \<in> {HDCP_TXMTR_DP, HDCP_TXMTR_DP_MST}"
  obtain x xs where x: "ad_request (app_data h) = Some (x # xs)" using inv_buffers [OF inv] by (auto simp: buffers_ok_def)
  define req where "req = (if dp then Some (word_of_int (last_msg h) # xs) else Some (x # xs))"
  have req: "(if dp then map_option Some (put_byte (ad_request (app_data h)) 0 (word_of_int (last_msg h))) else Some (ad_request (app_data h))) = Some req"
    using x by (simp add: put_byte_def req_def)
  define h1 where "h1 = h\<lparr>app_data := (app_data h)\<lparr>ad_request := req, ad_request_length := total_message_length h + (if dp then 1 else 0)\<rparr>\<rparr>"
  have i1: "hdcp_inv env True (h1, w)"
    unfolding h1_def by (rule inv_app_data [OF inv]) (use inv_buffers [OF inv] in \<open>auto simp: buffers_ok_def req_def\<close>)
  obtain rc h2 w2 where a: "hdcp2_app_comm env HDCP2_CMD_PROCESS_MSG h1 w = (rc, h2, w2)" by (cases "hdcp2_app_comm env HDCP2_CMD_PROCESS_MSG h1 w") auto
  have i2: "hdcp_inv env True (h2, w2)" by (rule inv_app_comm [OF i1 lib _ _ a]) simp_all
  obtain r d s where ra: "recvd_answer env h2 w2 = Some (r, d, s)" "tw_cmd d \<noteq> HDCP_TRANSPORT_CMD_STATUS_SUCCESS" "hdcp_inv env True s"
    using recvd_answer_inv [OF i2 lib] by blast
  have p: "\<exists>r d s. recvd_process env h w = Some (r, d, s) \<and> tw_cmd d \<noteq> HDCP_TRANSPORT_CMD_STATUS_SUCCESS \<and> hdcp_inv env True s"
    using inv i2 ra a
    by (cases s) (simp add: recvd_process_def Let_def dp_def [symmetric] req h1_def [symmetric] del: insert_iff)
  then obtain r d h3 w3 where p: "recvd_process env h w = Some (r, d, h3, w3)" "tw_cmd d \<noteq> HDCP_TRANSPORT_CMD_STATUS_SUCCESS" "hdcp_inv env True (h3, w3)"
    by auto
  obtain h4 w4 where c: "sde_hdcp_2x_wakeup_client env h3 d w3 = (h4, w4)" by (cases "sde_hdcp_2x_wakeup_client env h3 d w3")
  show ?thesis using inv p(1) c inv_wakeup [OF p(3,2) c] by (auto simp: sde_hdcp_2x_msg_recvd_def Let_def)
qed

subsection \<open>Streams\<close>

text \<open>The stream part of the invariant, over the list, the count and the trace.\<close>

definition streams_ok :: "hdcp_env \<Rightarrow> sde_hdcp_stream list \<Rightarrow> u8 \<Rightarrow> hdcp_trace \<Rightarrow> bool" where
  "streams_ok env ss n w \<longleftrightarrow> n = word_of_nat (length ss) \<and> distinct (map stream_key ss) \<and>
     (\<forall>s \<in> set ss. stream_handle s = 0 \<longrightarrow> st_active s) \<and> open_handles env w = listed ss"

lemma inv_streams:
  "hdcp_inv env g (h, w) \<longleftrightarrow> calls_ok w \<and> last_msg h \<in> insert INVALID_MESSAGE msg_ids \<and> streams_ok env (stream_handles h) (stream_count h) w \<and>
     (authenticated h \<longleftrightarrow> keyed w) \<and> (g \<longrightarrow> buffers_ok (app_data h)) \<and> flow (client_wakeup h) (last_msg h) w"
  by (auto simp: hdcp_inv_def hdcp_base_def streams_ok_def)

lemma manage_loop_result:
  assumes "manage_loop env acc ss n q w = (ss', n', q', w')" "open_ok env" "calls_ok w" "streams_ok env (acc @ ss) n w"
  shows "calls_ok w' \<and> keyed w' = keyed w \<and> sent_msgs w' = sent_msgs w \<and> streams_ok env ss' n' w'"
  using assms
proof (induction ss arbitrary: acc n q w)
  case (Cons s ss)
  note so = Cons.prems(4) [unfolded streams_ok_def]
  consider "\<not> st_active s" | "st_active s" "stream_handle s = 0" | "st_active s" "stream_handle s \<noteq> 0" by blast
  then show ?case
  proof cases
    case 1
    define w1 where "w1 = w @ [(Close_stream (stream_handle s), codes env w (Close_stream (stream_handle s)))]"
    have r: "manage_loop env acc ss (n - 1) True w1 = (ss', n', q', w')" using Cons.prems(1) 1 by (simp add: ext_def w1_def)
    have w1: "calls_ok w1" "keyed w1 = keyed w \<and> sent_msgs w1 = sent_msgs w" using Cons.prems(3) by (simp_all add: w1_def)
    have "streams_ok env (acc @ ss) (n - 1) w1" using so 1 by (auto simp: streams_ok_def w1_def)
    from Cons.IH [OF r Cons.prems(2) w1(1) this] show ?thesis using w1(2) by simp
  next
    case 2
    define rc where "rc = codes env w (Open_stream (virtual_channel s) (stream_id s))"
    define w1 where "w1 = w @ [(Open_stream (virtual_channel s) (stream_id s), rc)]"
    define s1 where "s1 = s\<lparr>stream_handle := opened env w\<rparr>"
    have r: "manage_loop env (acc @ [s1]) ss n (q \<or> rc = 0) w1 = (ss', n', q', w')" using Cons.prems(1) 2 by (simp add: ext_def w1_def rc_def s1_def)
    have w1: "calls_ok w1" "keyed w1 = keyed w \<and> sent_msgs w1 = sent_msgs w" using Cons.prems(3) by (simp_all add: w1_def)
    have "rc = 0 \<longleftrightarrow> stream_handle s1 \<noteq> 0" "stream_handle s1 = opened env w" using Cons.prems(2) by (auto simp: open_ok_def rc_def s1_def)
    moreover have "stream_key s1 = stream_key s" "st_active s1" using 2 by (simp_all add: s1_def stream_key_def)
    ultimately have "streams_ok env ((acc @ [s1]) @ ss) n w1" using so 2 by (auto simp: streams_ok_def w1_def)
    from Cons.IH [OF r Cons.prems(2) w1(1) this] show ?thesis using w1(2) by simp
  next
    case 3
    have r: "manage_loop env (acc @ [s]) ss n q w = (ss', n', q', w')" using Cons.prems(1) 3 by simp
    have "streams_ok env ((acc @ [s]) @ ss) n w" using Cons.prems(4) by simp
    from Cons.IH [OF r Cons.prems(2,3) this] show ?thesis .
  qed
qed simp

lemma manage_inv:
  assumes inv: "hdcp_inv env g (h, w)" and op: "open_ok env"
  shows "hdcp_inv env g (sde_hdcp_2x_manage_stream_work env h w)"
proof -
  obtain ss n q w' where m: "manage_loop env [] (stream_handles h) (stream_count h) False w = (ss, n, q, w')"
    by (cases "manage_loop env [] (stream_handles h) (stream_count h) False w") auto
  have "calls_ok w' \<and> keyed w' = keyed w \<and> sent_msgs w' = sent_msgs w \<and> streams_ok env ss n w'"
    using manage_loop_result [OF m op] inv by (simp add: inv_streams)
  moreover from this have "flow (client_wakeup h) (last_msg h) w'" using inv by (simp add: inv_streams flow_def)
  ultimately have "hdcp_inv env g (h\<lparr>stream_handles := ss, stream_count := n\<rparr>, w')" using inv by (simp add: inv_streams)
  then show ?thesis using m by (simp add: sde_hdcp_2x_manage_stream_work_def Let_def)
qed

lemma stream_present:
  "sde_hdcp_2x_stream_present h i vc = Some k \<Longrightarrow> k < length (stream_handles h)"
  "sde_hdcp_2x_stream_present h i vc = None \<Longrightarrow> (vc, i) \<notin> stream_key ` set (stream_handles h)"
  by (auto simp: sde_hdcp_2x_stream_present_def find_Some_iff find_None_iff stream_key_def in_set_conv_nth)

lemma remove_at_streams:
  assumes so: "streams_ok env ss n w" and k: "k < length ss" "stream_handle (ss ! k) = 0"
  shows "streams_ok env (take k ss @ drop (k + 1) ss) (n - 1) w"
proof -
  have e: "ss = take k ss @ ss ! k # drop (k + 1) ss" using id_take_nth_drop [OF k(1)] by simp
  define a b where "a = take k ss" and "b = drop (k + 1) ss"
  have ss: "ss = a @ ss ! k # b" using e by (simp add: a_def b_def)
  have "streams_ok env (a @ ss ! k # b) n w" using so ss by simp
  then show ?thesis using k(2) unfolding a_def [symmetric] b_def [symmetric] by (auto simp: streams_ok_def)
qed

lemma deactivate_streams:
  assumes so: "streams_ok env ss n w" and k: "k < length ss" "stream_handle (ss ! k) \<noteq> 0"
  shows "streams_ok env (ss[k := (ss ! k)\<lparr>st_active := False\<rparr>]) n w"
proof -
  have e: "ss = take k ss @ ss ! k # drop (k + 1) ss" using id_take_nth_drop [OF k(1)] by simp
  define a b where "a = take k ss" and "b = drop (k + 1) ss"
  have ss: "ss = a @ ss ! k # b" "ss[k := (ss ! k)\<lparr>st_active := False\<rparr>] = a @ (ss ! k)\<lparr>st_active := False\<rparr> # b"
    using e k(1) by (simp_all add: a_def b_def upd_conv_take_nth_drop)
  have "streams_ok env (a @ ss ! k # b) n w" using so ss(1) by simp
  then show ?thesis unfolding ss(2) using k(2) by (auto simp: streams_ok_def stream_key_def)
qed

lemma remove_inv: "hdcp_inv env g (h, w) \<Longrightarrow> hdcp_inv env g (snd (sde_remove_streams h xs), w)"
proof (induction h xs rule: sde_remove_streams.induct)
  case (2 h i vc xs)
  show ?case
  proof (cases "sde_hdcp_2x_stream_present h i vc")
    case None
    then show ?thesis using 2 by simp
  next
    case (Some k)
    define h1 where "h1 = (if stream_handle (stream_handles h ! k) = 0
        then h\<lparr>stream_count := stream_count h - 1, stream_handles := take k (stream_handles h) @ drop (k + 1) (stream_handles h)\<rparr>
        else h\<lparr>stream_handles := (stream_handles h)[k := (stream_handles h ! k)\<lparr>st_active := False\<rparr>]\<rparr>)"
    note k = stream_present(1) [OF Some]
    have i1: "hdcp_inv env g (h1, w)"
      using 2(3) remove_at_streams [OF _ k] deactivate_streams [OF _ k] by (auto simp: h1_def inv_streams)
    have "snd (sde_remove_streams h ((i, vc) # xs)) = snd (sde_remove_streams h1 xs)"
      using Some by (simp add: h1_def [symmetric] Let_def split: prod.split)
    then show ?thesis using 2(2) [OF Some refl h1_def i1] by simp
  qed
qed simp

lemma add_inv: "sde_add_streams env h xs w = (c, h', w') \<Longrightarrow> hdcp_inv env g (h, w) \<Longrightarrow> hdcp_inv env g (h', w')"
proof (induction xs arbitrary: h w c)
  case (Cons x xs)
  obtain i vc where x: "x = (i, vc)" by (cases x)
  define w1 where "w1 = w @ [(Kzalloc, codes env w Kzalloc)]"
  have i1: "hdcp_inv env g (h, w1)" using Cons.prems(2) by (simp add: inv_streams streams_ok_def w1_def)
  define h1 where "h1 = h\<lparr>stream_handles := \<lparr>stream_handle = 0, stream_id = i, virtual_channel = vc, st_active = True\<rparr> # stream_handles h,
     stream_count := stream_count h + 1\<rparr>"
  consider "sde_hdcp_2x_stream_present h i vc \<noteq> None" | "sde_hdcp_2x_stream_present h i vc = None" "codes env w Kzalloc = 0"
    | "sde_hdcp_2x_stream_present h i vc = None" "codes env w Kzalloc \<noteq> 0" by blast
  then show ?case
  proof cases
    case 1
    then show ?thesis using Cons.IH [OF _ Cons.prems(2)] Cons.prems(1) x by auto
  next
    case 2
    then show ?thesis using Cons.IH [OF _ i1] Cons.prems(1) x by (auto simp: ext_def w1_def)
  next
    case 3
    have new: "(vc, i) \<notin> stream_key ` set (stream_handles h)" by (rule stream_present(2) [OF 3(1)])
    have "hdcp_inv env g (h1, w1)" using i1 new by (auto simp: inv_streams streams_ok_def h1_def stream_key_def)
    moreover obtain c1 where "sde_add_streams env h1 xs w1 = (c1, h', w')"
      using Cons.prems(1) x 3 by (cases "sde_add_streams env h1 xs w1") (simp add: ext_def w1_def h1_def)
    ultimately show ?thesis using Cons.IH by blast
  qed
qed simp

subsection \<open>Work items without the buffers\<close>

text \<open>
  Until the library has given its buffers, no item that reads them may be queued, and the instance is not
  authenticated (an authenticated one would queue the query of the streams by itself).
\<close>

definition reads_buffers :: "hdcp_work \<Rightarrow> bool" where
  "reads_buffers k \<longleftrightarrow> k \<in> {Wk_msg_sent, Wk_msg_recvd, Wk_timeout, Wk_stream, Wk_send_type}"

definition quiet :: "sde_hdcp_2x_ctrl \<Rightarrow> bool" where
  "quiet h \<longleftrightarrow> \<not> authenticated h \<and> (\<forall>k \<in> set (work_list h). \<not> reads_buffers k)"

lemma quiet_simps [simp]:
  "quiet (h\<lparr>last_msg := m\<rparr>) = quiet h" "quiet (h\<lparr>wait_timeout_ms := n\<rparr>) = quiet h" "quiet (h\<lparr>hdcp_off := a\<rparr>) = quiet h"
  "quiet (h\<lparr>app_data := d\<rparr>) = quiet h" "quiet (h\<lparr>stream_handles := ss\<rparr>) = quiet h" "quiet (h\<lparr>stream_count := c\<rparr>) = quiet h"
  "quiet (h\<lparr>hdcp2_ctx := x\<rparr>) = quiet h" "quiet (h\<lparr>resend_stream_manage := a\<rparr>) = quiet h" "quiet (h\<lparr>no_stored_km := a\<rparr>) = quiet h"
  "quiet (h\<lparr>repeater_flag := a\<rparr>) = quiet h" "quiet (h\<lparr>update_stream := a\<rparr>) = quiet h" "quiet (h\<lparr>timeout_left := n\<rparr>) = quiet h"
  "quiet (h\<lparr>total_message_length := n\<rparr>) = quiet h" "quiet (h\<lparr>device_type := t\<rparr>) = quiet h" "quiet (h\<lparr>force_encryption := a\<rparr>) = quiet h"
  "quiet (h\<lparr>min_enc_level := l\<rparr>) = quiet h"
  by (simp_all add: quiet_def)

lemma quiet_EXECUTE: "quiet h \<Longrightarrow> \<not> reads_buffers k \<Longrightarrow> quiet (HDCP_2X_EXECUTE k h)"
  by (simp add: quiet_def HDCP_2X_EXECUTE_def)

lemma quiet_cancel: "quiet h \<Longrightarrow> quiet (cancel_work k h)"
  by (simp add: quiet_def cancel_work_def)

lemma quiet_items [simp]:
  "\<not> reads_buffers Wk_clean" "\<not> reads_buffers Wk_wait" "\<not> reads_buffers Wk_enable" "\<not> reads_buffers Wk_disable" "\<not> reads_buffers Wk_init"
  "\<not> reads_buffers Wk_start_auth" "\<not> reads_buffers Wk_manage_stream"
  by (simp_all add: reads_buffers_def)

lemma quiet_wait: "quiet h \<Longrightarrow> quiet (sde_hdcp_2x_wait_for_response env h)"
  by (simp add: sde_hdcp_2x_wait_for_response_def Let_def quiet_EXECUTE)

lemma quiet_next: "sde_hdcp_2x_get_next_message h c = (m, h') \<Longrightarrow> quiet h' = quiet h"
  unfolding sde_hdcp_2x_get_next_message_def by (auto simp: Let_def split: if_splits)

lemma quiet_wakeup:
  assumes run: "sde_hdcp_2x_wakeup_client env h d w = (h', w')" and q: "quiet h"
  shows "quiet h'"
  using run
proof (cases rule: wakeup_client_cases)
  case (2 m h1)
  then show ?thesis using quiet_next [OF 2(2)] q by simp
next
  case (3 m h1 rc)
  then show ?thesis using quiet_next [OF 3(2)] quiet_wait [of "h1\<lparr>last_msg := m\<rparr>"] q by simp
qed (use q in \<open>simp_all add: quiet_wait\<close>)

lemma quiet_send: "quiet h \<Longrightarrow> quiet (fst (sde_hdcp_2x_send_message env h w))"
  unfolding sde_hdcp_2x_send_message_def by (rule quiet_wakeup [OF prod.collapse [symmetric]])

lemma quiet_close_all: "close_all env ss h w = (h', w') \<Longrightarrow> quiet h \<Longrightarrow> quiet h'"
  by (induction ss arbitrary: h w) (auto simp: ext_def)

lemma quiet_clean:
  assumes "quiet h"
  shows "quiet (fst (sde_hdcp_2x_clean env h w))"
proof -
  define h0 where "h0 = h\<lparr>authenticated := False\<rparr>"
  have q0: "quiet h0" using assms by (simp add: h0_def quiet_def)
  obtain h1 w1 where c: "close_all env (stream_handles h0) h0 w = (h1, w1)" by fastforce
  have q1: "quiet h1" by (rule quiet_close_all [OF c q0])
  define off where "off = hdcp_off h1"
  define h2 where "h2 = h1\<lparr>hdcp_off := True\<rparr>"
  obtain h3 w3 where t: "(if \<not> off then sde_hdcp_2x_wakeup_client env h2 (wakeup_data HDCP_TRANSPORT_CMD_STATUS_FAILED) w1 else (h2, w1)) = (h3, w3)"
    by fastforce
  have "quiet h3" using t q1 quiet_wakeup [of env h2 _ w1 h3 w3] by (auto simp: h2_def split: if_splits)
  then show ?thesis
    unfolding sde_hdcp_2x_clean_def Let_def h0_def [symmetric] c prod.case off_def [symmetric] h2_def [symmetric] t hdcp2_app_comm_def
    by (simp split: prod.split)
qed

lemma quiet_app_comm: "hdcp2_app_comm env c h w = (rc, h', w') \<Longrightarrow> quiet h' = quiet h"
  by (auto simp: hdcp2_app_comm_def split: prod.splits)

lemma quiet_add: "sde_add_streams env h xs w = (c, h', w') \<Longrightarrow> quiet h \<Longrightarrow> quiet h'"
proof (induction xs arbitrary: h w c)
  case (Cons x xs)
  obtain i vc where x: "x = (i, vc)" by (cases x)
  define w1 where "w1 = w @ [(Kzalloc, codes env w Kzalloc)]"
  define h1 where "h1 = h\<lparr>stream_handles := \<lparr>stream_handle = 0, stream_id = i, virtual_channel = vc, st_active = True\<rparr> # stream_handles h,
     stream_count := stream_count h + 1\<rparr>"
  consider "sde_hdcp_2x_stream_present h i vc \<noteq> None" | "sde_hdcp_2x_stream_present h i vc = None" "codes env w Kzalloc = 0"
    | "sde_hdcp_2x_stream_present h i vc = None" "codes env w Kzalloc \<noteq> 0" by blast
  then show ?case
  proof cases
    case 1
    then show ?thesis using Cons.IH [OF _ Cons.prems(2)] Cons.prems(1) x by auto
  next
    case 2
    then show ?thesis using Cons.IH [OF _ Cons.prems(2)] Cons.prems(1) x by (auto simp: ext_def)
  next
    case 3
    have "quiet h1" using Cons.prems(2) by (simp add: h1_def)
    moreover obtain c1 where "sde_add_streams env h1 xs w1 = (c1, h', w')"
      using Cons.prems(1) x 3 by (cases "sde_add_streams env h1 xs w1") (simp add: ext_def w1_def h1_def)
    ultimately show ?thesis using Cons.IH by blast
  qed
qed simp

lemma quiet_remove: "quiet h \<Longrightarrow> quiet (snd (sde_remove_streams h xs))"
proof (induction h xs rule: sde_remove_streams.induct)
  case (2 h i vc xs)
  show ?case
  proof (cases "sde_hdcp_2x_stream_present h i vc")
    case (Some k)
    define h1 where "h1 = (if stream_handle (stream_handles h ! k) = 0
        then h\<lparr>stream_count := stream_count h - 1, stream_handles := take k (stream_handles h) @ drop (k + 1) (stream_handles h)\<rparr>
        else h\<lparr>stream_handles := (stream_handles h)[k := (stream_handles h ! k)\<lparr>st_active := False\<rparr>]\<rparr>)"
    have "quiet h1" using 2(3) by (simp add: h1_def)
    then have "quiet (snd (sde_remove_streams h1 xs))" using 2(2) [OF Some refl h1_def] by blast
    moreover obtain c h2 where "sde_remove_streams h1 xs = (c, h2)" by fastforce
    ultimately show ?thesis using Some by (simp add: h1_def [symmetric] Let_def)
  qed (use 2 in simp)
qed simp

lemma quiet_manage: "quiet h \<Longrightarrow> quiet (fst (sde_hdcp_2x_manage_stream_work env h w))"
proof -
  assume q: "quiet h"
  then have "\<not> authenticated h" by (simp add: quiet_def)
  then show ?thesis using q by (simp add: sde_hdcp_2x_manage_stream_work_def Let_def split: prod.split)
qed

subsection \<open>Commands and steps\<close>

text \<open>The invariant of runs; \<open>g\<close> as before.\<close>

definition hdcp_ok :: "hdcp_env \<Rightarrow> bool \<Rightarrow> hdcp_state \<Rightarrow> bool" where
  "hdcp_ok env g s \<longleftrightarrow> hdcp_inv env g s \<and> (\<not> g \<longrightarrow> quiet (fst s))"

lemma run_item_inv:
  assumes inv: "hdcp_inv env g (h, w)" and lib: "library_ok env" "open_ok env" and k: "\<not> g \<longrightarrow> \<not> reads_buffers k"
  shows "\<exists>s. run_item env k h w = Some s \<and> hdcp_inv env g s"
proof (cases k)
  case Wk_enable
  then show ?thesis using inv by (auto simp: run_item_def sde_hdcp_2x_enable_work_def ext_def inv_streams streams_ok_def)
next
  case Wk_disable
  then show ?thesis using inv by (auto simp: run_item_def sde_hdcp_2x_disable_work_def vcall_def inv_streams streams_ok_def)
next
  case Wk_init
  obtain rc h1 w1 where a: "hdcp2_app_comm env HDCP2_CMD_START h w = (rc, h1, w1)" by (cases "hdcp2_app_comm env HDCP2_CMD_START h w") auto
  have "hdcp_inv env g (h1, w1)" by (rule inv_app_comm [OF inv lib(1) _ _ a]) simp_all
  then show ?thesis using a Wk_init by (simp add: run_item_def sde_hdcp_2x_init_def)
next
  case Wk_start_auth
  obtain rc h1 w1 where a: "hdcp2_app_comm env HDCP2_CMD_START_AUTH h w = (rc, h1, w1)" by (cases "hdcp2_app_comm env HDCP2_CMD_START_AUTH h w") auto
  have "hdcp_inv env g (h1, w1)" by (rule inv_app_comm [OF inv lib(1) _ _ a]) simp_all
  then show ?thesis using a Wk_start_auth inv_send_pair [of env g h1 w1] by (simp add: run_item_def sde_hdcp_2x_start_auth_def)
next
  case Wk_clean
  obtain h1 w1 where c: "sde_hdcp_2x_clean env h w = (h1, w1)" by (cases "sde_hdcp_2x_clean env h w")
  then show ?thesis using Wk_clean inv_clean [OF inv lib(1) c] by (simp add: run_item_def)
next
  case Wk_wait
  then show ?thesis using inv by (auto simp: run_item_def sde_hdcp_2x_wait_for_response_work_def ext_def inv_streams streams_ok_def Let_def HDCP_2X_EXECUTE_def)
next
  case Wk_manage_stream
  then show ?thesis using manage_inv [OF inv lib(2)] by (simp add: run_item_def)
qed (cases g; use k inv msg_sent_inv [OF _ lib(1)] msg_recvd_inv [OF _ lib(1)] timeout_inv [OF _ lib(1)] stream_inv [OF _ lib(1)] send_type_inv
    in \<open>simp add: run_item_def reads_buffers_def\<close>)+

lemma run_item_quiet:
  assumes "quiet h" "\<not> reads_buffers k" "run_item env k h w = Some (h', w')"
  shows "quiet h'"
proof -
  have i: "quiet h1" if "hdcp2_app_comm env c h w = (rc, h1, w1)" for c rc h1 w1 using quiet_app_comm [OF that] assms(1) by simp
  show ?thesis
  proof (cases k)
    case Wk_init
    then show ?thesis using assms(3) i by (auto simp: run_item_def sde_hdcp_2x_init_def quiet_EXECUTE split: prod.splits if_splits)
  next
    case Wk_start_auth
    obtain rc h1 w1 where a: "hdcp2_app_comm env HDCP2_CMD_START_AUTH h w = (rc, h1, w1)" by (cases "hdcp2_app_comm env HDCP2_CMD_START_AUTH h w") auto
    show ?thesis using assms(3) Wk_start_auth a quiet_send [OF i [OF a], of env w1] i [OF a]
      by (auto simp: run_item_def sde_hdcp_2x_start_auth_def quiet_EXECUTE split: if_splits)
  next
    case Wk_clean
    then show ?thesis using assms(3) quiet_clean [OF assms(1), of env w] by (simp add: run_item_def)
  next
    case Wk_manage_stream
    then show ?thesis using assms(3) quiet_manage [OF assms(1), of env w] by (simp add: run_item_def)
  next
    case Wk_wait
    then show ?thesis using assms(1,3) by (auto simp: run_item_def sde_hdcp_2x_wait_for_response_work_def ext_def Let_def quiet_EXECUTE split: if_splits)
  next
    case Wk_enable
    then show ?thesis using assms(1,3) by (auto simp: run_item_def sde_hdcp_2x_enable_work_def ext_def split: if_splits)
  next
    case Wk_disable
    then show ?thesis using assms(1,3) by (auto simp: run_item_def sde_hdcp_2x_disable_work_def split: if_splits)
  qed (use assms(2) in \<open>simp_all add: reads_buffers_def\<close>)
qed

lemma run_work_inv:
  assumes "hdcp_ok env g (h, w)" "library_ok env" "open_ok env"
  shows "\<exists>s. run_work env h w = Some s \<and> hdcp_ok env g s"
proof (cases "work_list h")
  case Nil
  then show ?thesis using assms(1) by (simp add: run_work_def)
next
  case (Cons k ks)
  have q: "\<not> g \<Longrightarrow> quiet (h\<lparr>work_list := ks\<rparr>) \<and> \<not> reads_buffers k" using assms(1) Cons by (simp add: hdcp_ok_def quiet_def)
  have "hdcp_inv env g (h\<lparr>work_list := ks\<rparr>, w)" using assms(1) by (simp add: hdcp_ok_def)
  then obtain h1 w1 where r: "run_item env k (h\<lparr>work_list := ks\<rparr>) w = Some (h1, w1)" "hdcp_inv env g (h1, w1)"
    using run_item_inv [OF _ assms(2,3)] q by (metis prod.exhaust)
  have "\<not> g \<Longrightarrow> quiet h1" using run_item_quiet [OF _ _ r(1)] q by blast
  then show ?thesis using r Cons by (simp add: run_work_def hdcp_ok_def)
qed

lemma run_works_inv:
  "hdcp_ok env g (h, w) \<Longrightarrow> library_ok env \<Longrightarrow> open_ok env \<Longrightarrow> \<exists>s. run_works env n h w = Some s \<and> hdcp_ok env g s"
proof (induction n arbitrary: h w)
  case (Suc n)
  obtain h1 w1 where "run_work env h w = Some (h1, w1)" "hdcp_ok env g (h1, w1)" using run_work_inv [OF Suc.prems] by auto
  then show ?case using Suc.IH [of h1 w1] Suc.prems(2,3) by simp
qed simp

lemma flush_inv: "hdcp_ok env g (h, w) \<Longrightarrow> library_ok env \<Longrightarrow> open_ok env \<Longrightarrow> \<exists>s. flush_work env k h w = Some s \<and> hdcp_ok env g s"
  using run_works_inv by (simp add: flush_work_def del: run_works.simps)

text \<open>The commands that lead to items that read the buffers.\<close>

definition reports :: "sde_hdcp_2x_wakeup_cmd \<Rightarrow> bool" where
  "reports c = (case c of HDCP_2X_CMD_MSG_SEND_SUCCESS \<Rightarrow> True | HDCP_2X_CMD_MSG_RECV_SUCCESS \<Rightarrow> True | HDCP_2X_CMD_MSG_RECV_TIMEOUT \<Rightarrow> True
     | HDCP_2X_CMD_QUERY_STREAM_TYPE \<Rightarrow> True | HDCP_2X_CMD_MIN_ENC_LEVEL _ \<Rightarrow> True | _ \<Rightarrow> False)"

lemma dispatch_inv:
  assumes inv: "hdcp_inv env g (h, w)"
  shows "hdcp_inv env g (dispatch_cmd env c h w)"
proof (cases c)
  case (HDCP_2X_CMD_OPEN_STREAMS xs)
  obtain b h1 w1 where a: "sde_add_streams env (cancel_work Wk_manage_stream h) xs w = (b, h1, w1)"
    by (cases "sde_add_streams env (cancel_work Wk_manage_stream h) xs w") auto
  then show ?thesis using add_inv [OF a] inv HDCP_2X_CMD_OPEN_STREAMS by (simp add: dispatch_cmd_def)
next
  case (HDCP_2X_CMD_CLOSE_STREAMS xs)
  obtain b h1 where a: "sde_remove_streams (cancel_work Wk_manage_stream h) xs = (b, h1)"
    by (cases "sde_remove_streams (cancel_work Wk_manage_stream h) xs") auto
  then show ?thesis using remove_inv [of env g "cancel_work Wk_manage_stream h" w xs] inv HDCP_2X_CMD_CLOSE_STREAMS by (simp add: dispatch_cmd_def)
next
  case HDCP_2X_CMD_START
  have "hdcp_inv env g ((cancel_work Wk_init h)\<lparr>last_msg := INVALID_MESSAGE\<rparr>, w)" by (rule inv_no_msg) (use inv in simp)
  then have "hdcp_inv env g ((cancel_work Wk_init h)\<lparr>no_stored_km := False, repeater_flag := False, update_stream := False, last_msg := INVALID_MESSAGE, timeout_left := 0, hdcp_off := False\<rparr>, w)"
    by (simp add: inv_streams)
  then show ?thesis using HDCP_2X_CMD_START by (simp add: dispatch_cmd_def)
qed (use inv in \<open>simp_all add: dispatch_cmd_def restart_work_def Let_def\<close>)

lemma dispatch_quiet:
  assumes "quiet h" "\<not> reports c"
  shows "quiet (fst (dispatch_cmd env c h w))"
proof (cases c)
  case (HDCP_2X_CMD_OPEN_STREAMS xs)
  obtain b h1 w1 where a: "sde_add_streams env (cancel_work Wk_manage_stream h) xs w = (b, h1, w1)"
    by (cases "sde_add_streams env (cancel_work Wk_manage_stream h) xs w") auto
  then show ?thesis using quiet_add [OF a quiet_cancel [OF assms(1)]] HDCP_2X_CMD_OPEN_STREAMS by (simp add: dispatch_cmd_def quiet_EXECUTE)
next
  case (HDCP_2X_CMD_CLOSE_STREAMS xs)
  obtain b h1 where a: "sde_remove_streams (cancel_work Wk_manage_stream h) xs = (b, h1)"
    by (cases "sde_remove_streams (cancel_work Wk_manage_stream h) xs") auto
  then show ?thesis using quiet_remove [OF quiet_cancel [OF assms(1)], of Wk_manage_stream xs] HDCP_2X_CMD_CLOSE_STREAMS by (simp add: dispatch_cmd_def quiet_EXECUTE)
qed (use assms in \<open>simp_all add: dispatch_cmd_def restart_work_def reports_def quiet_EXECUTE quiet_cancel Let_def\<close>)

datatype hdcp_op =
    Hd_cmd sde_hdcp_2x_wakeup_cmd u32 u32
  | Hd_work
  | Hd_receive "u8 list"
  | Hd_force bool
  | Hd_supported

text \<open>The transport writes the bytes that it receives after the first byte of the request buffer.\<close>

definition receive_bytes :: "u8 list \<Rightarrow> hdcp2_app_data \<Rightarrow> hdcp2_app_data option" where
  "receive_bytes bs d =
     (case ad_request d of
        Some (x # xs) \<Rightarrow> if length bs \<le> length xs then Some (d\<lparr>ad_request := Some (x # bs @ drop (length bs) xs)\<rparr>) else None
      | _ \<Rightarrow> None)"

definition hdcp_step :: "hdcp_env \<Rightarrow> hdcp_state \<Rightarrow> hdcp_op \<Rightarrow> (int \<times> hdcp_state) option" where
  "hdcp_step env s p = (case s of (h, w) \<Rightarrow>
     case p of
       Hd_cmd c timeout len \<Rightarrow> sde_hdcp_2x_wakeup env c timeout len h w
     | Hd_work \<Rightarrow> map_option (\<lambda>s. (0, s)) (run_work env h w)
     | Hd_receive bs \<Rightarrow> map_option (\<lambda>d. (0, h\<lparr>app_data := d\<rparr>, w)) (receive_bytes bs (app_data h))
     | Hd_force b \<Rightarrow> Some (0, sde_hdcp_2x_force_encryption b h, w)
     | Hd_supported \<Rightarrow> sde_hdcp_2x_client_feature_supported env h w)"

text \<open>
  What the transport sees to: it reports on messages, asks for the streams and sets the encryption level only
  when the library has given its buffers, and receives no more bytes than the buffer has room for.
\<close>

definition hdcp_op_ok :: "hdcp_state \<Rightarrow> hdcp_op \<Rightarrow> bool" where
  "hdcp_op_ok s p = (case p of
     Hd_receive bs \<Rightarrow> buffers_ok (app_data (fst s)) \<and> length bs < length (the (ad_request (app_data (fst s))))
   | Hd_cmd c _ _ \<Rightarrow> reports c \<longrightarrow> buffers_ok (app_data (fst s))
   | _ \<Rightarrow> True)"

lemma hdcp_step_ok:
  assumes inv: "hdcp_ok env g s" and env: "library_ok env" "open_ok env"
    and p: "\<And>bs. p = Hd_receive bs \<Longrightarrow> g \<and> length bs < length (the (ad_request (app_data (fst s))))" "\<And>c n l. p = Hd_cmd c n l \<Longrightarrow> reports c \<Longrightarrow> g"
  shows "\<exists>ret s'. hdcp_step env s p = Some (ret, s') \<and> hdcp_ok env g s'"
proof -
  obtain h w where s: "s = (h, w)" by (cases s)
  show ?thesis
  proof (cases p)
    case (Hd_cmd c timeout len)
    define h1 where "h1 = h\<lparr>timeout_left := timeout, total_message_length := len\<rparr>"
    have i1: "hdcp_ok env g (h1, w)" using inv by (simp add: s h1_def hdcp_ok_def)
    obtain h2 w2 where f: "(if hdcp2_ctx h1 = None then flush_work env Wk_enable h1 w else Some (h1, w)) = Some (h2, w2)" "hdcp_ok env g (h2, w2)"
      using flush_inv [OF i1 env, of Wk_enable] i1 by (cases "hdcp2_ctx h1 = None") auto
    define rc where "rc = (if \<not> is_enable c \<and> hdcp2_ctx h2 = None then - EINVAL else 0)"
    have chk: "sde_hdcp_2x_check_valid_state env c h1 w = Some (rc, h2, w2)"
      unfolding sde_hdcp_2x_check_valid_state_def f(1) by (simp add: rc_def)
    obtain h3 w3 where d: "dispatch_cmd env c h2 w2 = (h3, w3)" by (cases "dispatch_cmd env c h2 w2")
    have "hdcp_step env s p = Some (rc, if rc \<noteq> 0 then (h2, w2) else (h3, w3))"
      using chk d by (simp add: s Hd_cmd hdcp_step_def sde_hdcp_2x_wakeup_def h1_def [symmetric])
    moreover have "hdcp_inv env g (h3, w3)" using dispatch_inv [of env g h2 w2 c] f(2) d by (simp add: hdcp_ok_def)
    moreover have "\<not> g \<Longrightarrow> quiet h3" using dispatch_quiet [of h2 c env w2] f(2) d p(2) [OF Hd_cmd] by (auto simp: hdcp_ok_def)
    ultimately show ?thesis using f(2) by (auto simp: hdcp_ok_def)
  next
    case Hd_work
    then show ?thesis using run_work_inv [OF _ env] inv by (auto simp: s hdcp_step_def)
  next
    case (Hd_receive bs)
    have g: g using p(1) [OF Hd_receive] by simp
    then have b: "buffers_ok (app_data h)" using inv by (simp add: s hdcp_ok_def hdcp_inv_def)
    then obtain x xs where x: "ad_request (app_data h) = Some (x # xs)" "length bs \<le> length xs"
      using p(1) [OF Hd_receive] by (auto simp: s buffers_ok_def)
    have "buffers_ok ((app_data h)\<lparr>ad_request := Some (x # bs @ drop (length bs) xs)\<rparr>)" using b by (simp add: buffers_ok_def)
    then show ?thesis using x g inv inv_app_data [of env g h w] by (simp add: s Hd_receive hdcp_step_def receive_bytes_def hdcp_ok_def)
  next
    case (Hd_force b)
    then show ?thesis using inv by (simp add: s hdcp_step_def sde_hdcp_2x_force_encryption_def hdcp_ok_def)
  next
    case Hd_supported
    obtain h2 w2 where f: "flush_work env Wk_enable h w = Some (h2, w2)" "hdcp_ok env g (h2, w2)" using flush_inv [of env g h w Wk_enable] inv env by (auto simp: s)
    then show ?thesis using Hd_supported by (auto simp: s hdcp_step_def sde_hdcp_2x_client_feature_supported_def ext_def hdcp_ok_def inv_streams streams_ok_def)
  qed
qed

text \<open>Once the library has given its buffers, the flag may be set.\<close>

lemma hdcp_step_inv:
  assumes inv: "\<exists>g. hdcp_ok env g s" and ok: "hdcp_op_ok s p" and env: "library_ok env" "open_ok env"
  shows "\<exists>ret s'. hdcp_step env s p = Some (ret, s') \<and> (\<exists>g. hdcp_ok env g s')"
proof -
  obtain g where g: "hdcp_ok env g s" using inv by blast
  define g' where "g' = (g \<or> buffers_ok (app_data (fst s)))"
  have "hdcp_ok env g' s" using g by (auto simp: g'_def hdcp_ok_def hdcp_inv_def)
  then have "\<exists>ret s'. hdcp_step env s p = Some (ret, s') \<and> hdcp_ok env g' s'"
    by (rule hdcp_step_ok [OF _ env]) (use ok in \<open>auto simp: g'_def hdcp_op_ok_def\<close>)
  then show ?thesis by blast
qed

end
