(* ===== verification/Sde_Hdcp_Session.thy ===== *)
theory Sde_Hdcp_Session
  imports Sde_Hdcp_Run
begin

section \<open>Content protection: a session\<close>

text \<open>
  A session with a receiver, step by step: the state between two answers of the transport, what the library
  and the sink do, and what each answer leads to.
\<close>

subsection \<open>The library and the sink\<close>

text \<open>The answer of the library to the messages of a receiver, which it knows or not.\<close>

definition receiver_reply :: "bool \<Rightarrow> int \<Rightarrow> int option" where
  "receiver_reply km m =
     (if m = AKE_SEND_CERT then Some (if km then AKE_NO_STORED_KM else AKE_STORED_KM)
      else if m = AKE_SEND_H_PRIME \<and> \<not> km then Some LC_INIT
      else if m = AKE_SEND_PAIRING_INFO then Some LC_INIT
      else if m = LC_SEND_L_PRIME then Some SKE_SEND_EKS
      else None)"

definition says :: "hdcp2_app_data \<Rightarrow> int \<Rightarrow> bool" where
  "says d m \<longleftrightarrow> buffers_ok d \<and> byte0 (ad_response d) = Some (word_of_int m) \<and> ad_response_length d \<noteq> 0"

text \<open>
  \<open>km\<close> tells that the receiver is new. The library answers without error, leaves the request where it is,
  and the receiver is no repeater; every response of the receiver comes in time.
\<close>

definition receiver_env :: "hdcp_env \<Rightarrow> bool \<Rightarrow> bool" where
  "receiver_env env km \<longleftrightarrow> unat (HZ env) \<ge> 4 \<and> (\<forall>w n. codes env w (Wait_completion n) \<noteq> 0) \<and>
     (\<forall>w d. buffers_ok d \<longrightarrow>
       (case answer env w HDCP2_CMD_START d of (rc, d') \<Rightarrow> rc = 0 \<and> buffers_ok d') \<and>
       (case answer env w HDCP2_CMD_START_AUTH d of (rc, d') \<Rightarrow> rc = 0 \<and> says d' AKE_INIT) \<and>
       (case answer env w HDCP2_CMD_SET_HW_KEY d of (rc, d') \<Rightarrow> rc = 0 \<and> buffers_ok d') \<and>
       (case answer env w HDCP2_CMD_PROCESS_MSG d of (rc, d') \<Rightarrow> rc = 0 \<and> buffers_ok d' \<and> byte0 (ad_request d') = byte0 (ad_request d) \<and>
         \<not> ad_repeater_flag d' \<and>
         (case byte0 (ad_request d) of None \<Rightarrow> True | Some m \<Rightarrow> (case receiver_reply km (uint m) of None \<Rightarrow> True | Some r \<Rightarrow> says d' r))))"

subsection \<open>States of the session\<close>

text \<open>The messages that were given to the transport.\<close>

definition transcript :: "hdcp_trace \<Rightarrow> (hdcp_transport_wakeup_cmd \<times> sde_hdcp_2x_msg_data option) list" where
  "transcript w = concat (map (\<lambda>(c, rc). case c of Transport d \<Rightarrow> if sends_message (tw_cmd d) then [(tw_cmd d, tw_message_data d)] else [] | _ \<Rightarrow> []) w)"

lemma transcript_snoc [simp]:
  "transcript [] = []"
  "transcript (w @ [(c, rc)]) = transcript w @ (case c of Transport d \<Rightarrow> if sends_message (tw_cmd d) then [(tw_cmd d, tw_message_data d)] else [] | _ \<Rightarrow> [])"
  by (simp_all add: transcript_def)

definition msg :: "int \<Rightarrow> sde_hdcp_2x_msg_data option" where
  "msg m = Some (hdcp_msg_lookup ! nat m)"

text \<open>Between two answers: last message \<open>m\<close>, new receiver \<open>km\<close>, queue \<open>ws\<close>, message \<open>b\<close> of the library.\<close>

definition in_session :: "int \<Rightarrow> bool \<Rightarrow> hdcp_work list \<Rightarrow> int \<Rightarrow> (hdcp_transport_wakeup_cmd \<times> sde_hdcp_2x_msg_data option) list \<Rightarrow> hdcp_state \<Rightarrow> bool" where
  "in_session m km ws b T s \<longleftrightarrow> (case s of (h, w) \<Rightarrow>
     client_wakeup h \<and> hdcp2_ctx h \<noteq> None \<and> \<not> hdcp_off h \<and> work_list h = ws \<and> device_type h = HDCP_TXMTR_DP \<and> \<not> authenticated h \<and>
     \<not> repeater_flag h \<and> last_msg h = m \<and> no_stored_km h = km \<and> \<not> resend_lc_init h \<and>
     buffers_ok (app_data h) \<and> byte0 (ad_response (app_data h)) = Some (word_of_int b) \<and> transcript w = T)"

definition receiver_next :: "bool \<Rightarrow> int \<Rightarrow> int" where
  "receiver_next km m =
     (if m = INVALID_MESSAGE then AKE_INIT
      else if m = AKE_INIT then AKE_SEND_CERT
      else if m = AKE_SEND_CERT then (if km then AKE_NO_STORED_KM else AKE_STORED_KM)
      else if m = AKE_STORED_KM \<or> m = AKE_NO_STORED_KM then AKE_SEND_H_PRIME
      else if m = AKE_SEND_H_PRIME then (if km then AKE_SEND_PAIRING_INFO else LC_INIT)
      else if m = AKE_SEND_PAIRING_INFO then LC_INIT
      else if m = LC_INIT then LC_SEND_L_PRIME
      else if m = LC_SEND_L_PRIME then SKE_SEND_EKS
      else SKE_SEND_TYPE_ID)"

definition receiver_msgs :: "int set" where
  "receiver_msgs = {0, 2, 3, 4, 5, 7, 8, 9, 10, 11, 18}"

lemma receiver_msg_cases:
  assumes "m \<in> receiver_msgs"
  shows "m = 0 \<or> m = 2 \<or> m = 3 \<or> m = 4 \<or> m = 5 \<or> m = 7 \<or> m = 8 \<or> m = 9 \<or> m = 10 \<or> m = 11 \<or> m = 18"
  using assms by (simp add: receiver_msgs_def)

lemma receiver_next:
  assumes "\<not> repeater_flag h" "\<not> resend_lc_init h" "last_msg h = m" "m \<in> receiver_msgs"
  shows "sde_hdcp_2x_get_next_message h c = (receiver_next (no_stored_km h) m, h)"
  using receiver_msg_cases [OF assms(4)] assms(1-3)
  by (elim disjE) (simp_all add: sde_hdcp_2x_get_next_message_def receiver_next_def Let_def)

lemma receiver_next_msg:
  assumes "m \<in> receiver_msgs"
  shows "0 < receiver_next km m" "receiver_next km m \<in> receiver_msgs"
  using receiver_msg_cases [OF assms] by (elim disjE; simp add: receiver_next_def receiver_msgs_def)+

text \<open>After asking for the proof or the pairing of the receiver, the driver waits.\<close>

definition wait_items :: "int \<Rightarrow> hdcp_work list" where
  "wait_items m = (if m = AKE_SEND_H_PRIME \<or> m = AKE_SEND_PAIRING_INFO then [Wk_wait] else [])"

lemma waits:
  assumes "unat (HZ env) \<ge> 4" "m \<in> receiver_msgs" "in_session m km [] b T (h, w)"
  shows "in_session m km (wait_items m) b T (sde_hdcp_2x_wait_for_response env h, w)"
proof -
  have "unat (HZ env div 4) = unat (HZ env) div 4" by (simp add: unat_div_distrib)
  then have n: "HZ env div 4 \<noteq> 0" "HZ env \<noteq> 0" using assms(1) by (auto simp: unat_eq_0 [symmetric])
  have l: "last_msg h = m" "work_list h = []" using assms(3) by (simp_all add: in_session_def)
  have "m \<noteq> REP_SEND_RECV_ID_LIST" using assms(2) by (auto simp: receiver_msgs_def)
  then have "\<exists>t. sde_hdcp_2x_wait_for_response env h = h\<lparr>wait_timeout_ms := t\<rparr> \<and> wait_items m = [] \<or>
      sde_hdcp_2x_wait_for_response env h = h\<lparr>wait_timeout_ms := t, work_list := [Wk_wait]\<rparr> \<and> wait_items m = [Wk_wait]"
    using l n by (auto simp: sde_hdcp_2x_wait_for_response_def wait_items_def HDCP_2X_EXECUTE_def Let_def)
  then show ?thesis using assms(3) by (auto simp: in_session_def)
qed

lemma session_wakeup:
  assumes s: "in_session m km [] b T (h, w)" and m: "m \<in> receiver_msgs" and env: "unat (HZ env) \<ge> 4" and c: "sends_message (tw_cmd d)"
  shows "in_session (receiver_next km m) km (wait_items (receiver_next km m)) b (T @ [(tw_cmd d, msg (receiver_next km m))])
    (sde_hdcp_2x_wakeup_client env h d w)"
proof -
  define m' where "m' = receiver_next km m"
  have h: "client_wakeup h" "\<not> repeater_flag h" "\<not> resend_lc_init h" "last_msg h = m" "no_stored_km h = km"
    using s by (simp_all add: in_session_def)
  note n = receiver_next [OF h(2-4) m, unfolded h(5), folded m'_def] and n' = receiver_next_msg [OF m, of km, folded m'_def]
  define t where "t = Transport (d\<lparr>tw_abort_mask := 24, tw_message_data := Some (hdcp_msg_lookup ! nat m')\<rparr>)"
  have "tw_cmd d \<noteq> HDCP_TRANSPORT_CMD_INVALID" using c by (auto simp: sends_message_def)
  then have e: "sde_hdcp_2x_wakeup_client env h d w = (sde_hdcp_2x_wait_for_response env (h\<lparr>last_msg := m'\<rparr>), w @ [(t, codes env w t)])"
    using h(1) c n n'(1) by (simp add: sde_hdcp_2x_wakeup_client_def Let_def ext_def t_def)
  have "in_session m' km [] b (T @ [(tw_cmd d, msg m')]) (h\<lparr>last_msg := m'\<rparr>, w @ [(t, codes env w t)])"
    using s c by (simp add: in_session_def t_def msg_def)
  from waits [OF env n'(2) this] show ?thesis unfolding e m'_def [symmetric] .
qed

lemma session_send:
  assumes "in_session m km [] b T (h, w)" "m \<in> receiver_msgs" "unat (HZ env) \<ge> 4"
  shows "in_session (receiver_next km m) km (wait_items (receiver_next km m)) b (T @ [(HDCP_TRANSPORT_CMD_SEND_MESSAGE, msg (receiver_next km m))])
    (sde_hdcp_2x_send_message env h w)"
proof -
  have "tw_cmd ((wakeup_data HDCP_TRANSPORT_CMD_SEND_MESSAGE)\<lparr>tw_timeout := ad_timeout (app_data h), tw_buf_len := ad_response_length (app_data h), tw_buf := Buf_response\<rparr>)
      = HDCP_TRANSPORT_CMD_SEND_MESSAGE" by (simp add: wakeup_data_def)
  from session_wakeup [OF assms, of "(wakeup_data HDCP_TRANSPORT_CMD_SEND_MESSAGE)
      \<lparr>tw_timeout := ad_timeout (app_data h), tw_buf_len := ad_response_length (app_data h), tw_buf := Buf_response\<rparr>", unfolded this]
  show ?thesis by (simp add: sde_hdcp_2x_send_message_def sends_message_def)
qed

subsection \<open>Steps of the session\<close>

lemma command_dispatch:
  assumes "hdcp2_ctx h \<noteq> None"
  shows "hdcp_step env (h, w) (Hd_cmd c t l) = Some (0, dispatch_cmd env c (h\<lparr>timeout_left := t, total_message_length := l\<rparr>) w)"
  using assms by (auto simp: hdcp_step_def sde_hdcp_2x_wakeup_def sde_hdcp_2x_check_valid_state_def)

lemma work_step: "work_list h = k # ks \<Longrightarrow> run_item env k (h\<lparr>work_list := ks\<rparr>) w = Some s \<Longrightarrow> hdcp_step env (h, w) Hd_work = Some (0, s)"
  by (simp add: hdcp_step_def run_work_def)

lemma idle_step: "work_list h = [] \<Longrightarrow> hdcp_step env (h, w) Hd_work = Some (0, h, w)"
  by (simp add: hdcp_step_def run_work_def)

text \<open>\<open>ops\<close> lead from every state of one kind to one of another.\<close>

definition leads :: "hdcp_env \<Rightarrow> (hdcp_state \<Rightarrow> bool) \<Rightarrow> hdcp_op list \<Rightarrow> (hdcp_state \<Rightarrow> bool) \<Rightarrow> bool" where
  "leads env P ops Q \<longleftrightarrow> (\<forall>s. P s \<longrightarrow> (\<exists>s'. run_steps (hdcp_step env) s ops = Some s' \<and> Q s'))"

lemma leads_append:
  assumes "leads env P xs Q" "leads env Q ys R"
  shows "leads env P (xs @ ys) R"
proof -
  have "run_steps (hdcp_step env) s (xs @ ys) = do { s' \<leftarrow> run_steps (hdcp_step env) s xs; run_steps (hdcp_step env) s' ys }" for s
    by (induction xs arbitrary: s) (auto split: bind_splits)
  then show ?thesis using assms by (fastforce simp: leads_def)
qed

abbreviation send_ops :: "hdcp_op list" where
  "send_ops \<equiv> [Hd_cmd HDCP_2X_CMD_MSG_SEND_SUCCESS 0 0, Hd_work]"

abbreviation recv_ops :: "hdcp_op list" where
  "recv_ops \<equiv> [Hd_cmd HDCP_2X_CMD_MSG_RECV_SUCCESS 0 1, Hd_work, Hd_work]"

text \<open>The command only records its arguments and queues the item.\<close>

definition noted :: "u32 \<Rightarrow> hdcp_work list \<Rightarrow> sde_hdcp_2x_ctrl \<Rightarrow> sde_hdcp_2x_ctrl" where
  "noted l ws h = h\<lparr>timeout_left := 0, total_message_length := l, work_list := ws\<rparr>"

lemma noted_session [simp]: "in_session m nk ws b T (noted l ws' h, w) \<longleftrightarrow> ws' = ws \<and> in_session m nk (work_list h) b T (h, w)"
  by (auto simp: in_session_def noted_def)

lemma command_noted:
  assumes "in_session m nk ws b T (h, w)"
  shows "hdcp_step env (h, w) (Hd_cmd HDCP_2X_CMD_START_AUTH 0 0) = Some (0, noted 0 (filter (\<lambda>k. k \<noteq> Wk_start_auth) ws @ [Wk_start_auth]) h, w)"
    "hdcp_step env (h, w) (Hd_cmd HDCP_2X_CMD_MSG_SEND_SUCCESS 0 0) = Some (0, noted 0 (filter (\<lambda>k. k \<noteq> Wk_msg_sent) ws @ [Wk_msg_sent]) h, w)"
    "hdcp_step env (h, w) (Hd_cmd HDCP_2X_CMD_MSG_RECV_SUCCESS 0 1) = Some (0, noted 1 (filter (\<lambda>k. k \<noteq> Wk_msg_recvd) ws @ [Wk_msg_recvd]) h, w)"
proof -
  have "hdcp2_ctx h \<noteq> None" "work_list h = ws" using assms by (simp_all add: in_session_def)
  then show "hdcp_step env (h, w) (Hd_cmd HDCP_2X_CMD_START_AUTH 0 0) = Some (0, noted 0 (filter (\<lambda>k. k \<noteq> Wk_start_auth) ws @ [Wk_start_auth]) h, w)"
    "hdcp_step env (h, w) (Hd_cmd HDCP_2X_CMD_MSG_SEND_SUCCESS 0 0) = Some (0, noted 0 (filter (\<lambda>k. k \<noteq> Wk_msg_sent) ws @ [Wk_msg_sent]) h, w)"
    "hdcp_step env (h, w) (Hd_cmd HDCP_2X_CMD_MSG_RECV_SUCCESS 0 1) = Some (0, noted 1 (filter (\<lambda>k. k \<noteq> Wk_msg_recvd) ws @ [Wk_msg_recvd]) h, w)"
    by (simp_all add: command_dispatch dispatch_cmd_def restart_work_def cancel_work_def HDCP_2X_EXECUTE_def noted_def)
qed

lemma uint_msg: "b \<in> receiver_msgs \<Longrightarrow> uint (word_of_int b :: u8) = b"
  by (drule receiver_msg_cases) (elim disjE; simp)

lemma sent_leads:
  assumes env: "unat (HZ env) \<ge> 4" and m: "m \<in> receiver_msgs" and b: "b \<in> receiver_msgs" "b \<noteq> SKE_SEND_EKS" "b \<noteq> SKE_SEND_TYPE_ID"
  shows "leads env (in_session m nk [] b T) send_ops
    (in_session (receiver_next nk m) nk (wait_items (receiver_next nk m)) b (T @ [(HDCP_TRANSPORT_CMD_RECV_MESSAGE, msg (receiver_next nk m))]))"
  unfolding leads_def
proof (intro allI impI)
  fix s assume s: "in_session m nk [] b T s"
  obtain h w where hw: "s = (h, w)" by (cases s)
  define h1 where "h1 = noted 0 [] h"
  have h1: "in_session m nk [] b T (h1, w)" using s by (simp add: hw h1_def) (simp add: in_session_def)
  have "b \<noteq> REP_SEND_ACK" using b(1) by (auto simp: receiver_msgs_def)
  moreover have "byte0 (ad_response (app_data h1)) = Some (word_of_int b)" using h1 by (simp add: in_session_def)
  ultimately have i: "sde_hdcp_2x_msg_sent env h1 w = Some (sde_hdcp_2x_wakeup_client env h1 (sde_hdcp_2x_initialize_command h1 HDCP_TRANSPORT_CMD_RECV_MESSAGE) w)"
    using b(2,3) uint_msg [OF b(1)] by (simp add: sde_hdcp_2x_msg_sent_def)
  define s' where "s' = sde_hdcp_2x_wakeup_client env h1 (sde_hdcp_2x_initialize_command h1 HDCP_TRANSPORT_CMD_RECV_MESSAGE) w"
  have "hdcp_step env (noted 0 [Wk_msg_sent] h, w) Hd_work = Some (0, s')"
    by (rule work_step [where k = Wk_msg_sent and ks = "[]"]) (use i in \<open>simp_all add: run_item_def s'_def h1_def noted_def\<close>)
  then have "run_steps (hdcp_step env) s send_ops = Some s'" using command_noted(2) [OF s [unfolded hw], of env] by (simp add: hw)
  moreover have "in_session (receiver_next nk m) nk (wait_items (receiver_next nk m)) b (T @ [(HDCP_TRANSPORT_CMD_RECV_MESSAGE, msg (receiver_next nk m))]) s'"
    using session_wakeup [OF h1 m env, of "sde_hdcp_2x_initialize_command h1 HDCP_TRANSPORT_CMD_RECV_MESSAGE"]
    by (simp add: s'_def sends_message_def)
  ultimately show "\<exists>s'. run_steps (hdcp_step env) s send_ops = Some s' \<and>
      in_session (receiver_next nk m) nk (wait_items (receiver_next nk m)) b (T @ [(HDCP_TRANSPORT_CMD_RECV_MESSAGE, msg (receiver_next nk m))]) s'" by blast
qed

text \<open>Waiting ends in time, before the item of the message runs.\<close>

lemma wait_step:
  assumes env: "receiver_env env km" and s: "in_session m nk (Wk_wait # ks) b T (h, w)"
  shows "\<exists>h' w'. hdcp_step env (h, w) Hd_work = Some (0, h', w') \<and> in_session m nk ks b T (h', w') \<and> total_message_length h' = total_message_length h"
proof -
  have "codes env w (Wait_completion (wait_timeout_ms h)) \<noteq> 0" using env by (simp add: receiver_env_def)
  moreover have "work_list h = Wk_wait # ks" "\<not> hdcp_off h" using s by (simp_all add: in_session_def)
  ultimately have "hdcp_step env (h, w) Hd_work = Some (0, h\<lparr>work_list := ks, wait_timeout_ms := 0\<rparr>,
      w @ [(Wait_completion (wait_timeout_ms h), codes env w (Wait_completion (wait_timeout_ms h)))])"
    by (simp add: hdcp_step_def run_work_def run_item_def sde_hdcp_2x_wait_for_response_work_def ext_def)
  then show ?thesis using s by (simp add: in_session_def)
qed

text \<open>The library processes a message of the receiver.\<close>

lemma process_msg:
  assumes env: "receiver_env env km" and s: "in_session m nk [] b T (h, w)" and m: "m \<in> receiver_msgs" and l: "total_message_length h \<noteq> 0"
  shows "\<exists>h1 w1 b1. in_session m nk [] b1 T (h1, w1) \<and> byte0 (ad_request (app_data h1)) = Some (word_of_int m) \<and> \<not> ad_repeater_flag (app_data h1) \<and>
    (\<forall>r. receiver_reply km m = Some r \<longrightarrow> b1 = r \<and> ad_response_length (app_data h1) \<noteq> 0) \<and> recvd_process env h w = recvd_answer env h1 w1"
proof -
  have bo: "buffers_ok (app_data h)" "device_type h = HDCP_TXMTR_DP" "last_msg h = m" using s by (simp_all add: in_session_def)
  obtain x xs where x: "ad_request (app_data h) = Some (x # xs)" using bo(1) by (auto simp: buffers_ok_def)
  define d where "d = (app_data h)\<lparr>ad_request := Some (word_of_int m # xs), ad_request_length := total_message_length h + 1\<rparr>"
  obtain rc d' where a: "answer env w HDCP2_CMD_PROCESS_MSG d = (rc, d')" by (cases "answer env w HDCP2_CMD_PROCESS_MSG d")
  have d: "buffers_ok d" "byte0 (ad_request d) = Some (word_of_int m)" using bo(1) by (auto simp: buffers_ok_def byte0_def d_def)
  then have d': "rc = 0" "buffers_ok d'" "byte0 (ad_request d') = Some (word_of_int m)" "\<not> ad_repeater_flag d'"
    "\<And>r. receiver_reply km m = Some r \<Longrightarrow> says d' r"
    using env [unfolded receiver_env_def, THEN conjunct2, THEN conjunct2, rule_format, OF d(1), of w] a d(2) uint_msg [OF m] by simp_all
  obtain y where y: "byte0 (ad_response d') = Some y" using byte0_response [OF d'(2)] by blast
  define b1 where "b1 = (case receiver_reply km m of Some r \<Rightarrow> r | None \<Rightarrow> uint y)"
  have b1: "byte0 (ad_response d') = Some (word_of_int b1)" "\<forall>r. receiver_reply km m = Some r \<longrightarrow> b1 = r \<and> ad_response_length d' \<noteq> 0"
    using y d'(5) by (auto simp: b1_def says_def split: option.split)
  define h1 where "h1 = h\<lparr>app_data := d'\<rparr>"
  define w1 where "w1 = w @ [(App_comm HDCP2_CMD_PROCESS_MSG, rc)]"
  have "recvd_process env h w = recvd_answer env h1 w1"
    using l x bo(2,3) a d'(1) by (simp add: recvd_process_def put_byte_def hdcp2_app_comm_def d_def [symmetric] h1_def w1_def)
  moreover have "in_session m nk [] b1 T (h1, w1)" using s d' b1(1) by (simp add: in_session_def h1_def w1_def)
  ultimately show ?thesis using d'(3,4) b1(2) by (intro exI [of _ h1] exI [of _ w1] exI [of _ b1]) (simp add: h1_def)
qed

text \<open>Running the item of a received message, for a reply of the library and for the pairing of a new receiver.\<close>

lemma recvd_reply:
  assumes env: "receiver_env env km" and s: "in_session m nk [] b T (h, w)" and m: "m \<in> receiver_msgs" and l: "total_message_length h \<noteq> 0"
    and r: "receiver_reply km m = Some r" "r \<in> receiver_msgs" "\<not> (m = AKE_SEND_H_PRIME \<and> nk)" "\<not> (m = LC_SEND_L_PRIME \<and> r = LC_INIT)"
  defines "k \<equiv> r = AKE_NO_STORED_KM"
  shows "\<exists>s'. sde_hdcp_2x_msg_recvd env h w = Some s' \<and>
    in_session (receiver_next k m) k (wait_items (receiver_next k m)) r (T @ [(HDCP_TRANSPORT_CMD_SEND_MESSAGE, msg (receiver_next k m))]) s'"
proof -
  obtain h1 w1 where p: "in_session m nk [] r T (h1, w1)" "byte0 (ad_request (app_data h1)) = Some (word_of_int m)" "\<not> ad_repeater_flag (app_data h1)"
    "ad_response_length (app_data h1) \<noteq> 0" "recvd_process env h w = recvd_answer env h1 w1"
    using process_msg [OF env s m l] r(1) by auto
  have b1: "byte0 (ad_response (app_data h1)) = Some (word_of_int r)" "\<not> hdcp_off h1" "no_stored_km h1 = nk" using p(1) by (simp_all add: in_session_def)
  have m17: "m \<noteq> REP_STREAM_READY" using m by (auto simp: receiver_msgs_def)
  define h2 where "h2 = (let h = h1\<lparr>resend_lc_init := (m = LC_SEND_L_PRIME \<and> r = LC_INIT), no_stored_km := (r = AKE_NO_STORED_KM)\<rparr> in
    if r = SKE_SEND_EKS then h\<lparr>repeater_flag := ad_repeater_flag (app_data h), update_stream := True\<rparr> else h)"
  define d where "d = (wakeup_data HDCP_TRANSPORT_CMD_SEND_MESSAGE)\<lparr>tw_buf := Buf_response, tw_buf_len := ad_response_length (app_data h2), tw_timeout := ad_timeout (app_data h2)\<rparr>"
  have off: "\<not> hdcp_off h2" using b1(2) by (simp add: h2_def Let_def)
  have "recvd_answer env h1 w1 = Some (0, d, h2, w1)"
    using p(2,4) b1 uint_msg [OF m] uint_msg [OF r(2)] r(3) m17 off
    by (auto simp: recvd_answer_def Let_def h2_def d_def)
  then have "sde_hdcp_2x_msg_recvd env h w = Some (sde_hdcp_2x_wakeup_client env h2 d w1)"
    using p(5) s by (simp add: sde_hdcp_2x_msg_recvd_def in_session_def split: prod.split)
  moreover have i2: "in_session m k [] r T (h2, w1)" using p(1,3) r(4) by (auto simp: in_session_def h2_def Let_def k_def)
  moreover have "unat (HZ env) \<ge> 4" using env by (simp add: receiver_env_def)
  ultimately show ?thesis using session_wakeup [OF i2 m, of env d] by (simp add: d_def wakeup_data_def sends_message_def)
qed

lemma recvd_pairing:
  assumes env: "receiver_env env km" and s: "in_session AKE_SEND_H_PRIME True [] b T (h, w)" and l: "total_message_length h \<noteq> 0"
  shows "\<exists>s' b'. sde_hdcp_2x_msg_recvd env h w = Some s' \<and>
    in_session AKE_SEND_PAIRING_INFO True [Wk_wait] b' (T @ [(HDCP_TRANSPORT_CMD_RECV_MESSAGE, msg AKE_SEND_PAIRING_INFO)]) s'"
proof -
  have m: "AKE_SEND_H_PRIME \<in> receiver_msgs" by (simp add: receiver_msgs_def)
  obtain h1 w1 b1 where p: "in_session AKE_SEND_H_PRIME True [] b1 T (h1, w1)" "byte0 (ad_request (app_data h1)) = Some (word_of_int AKE_SEND_H_PRIME)"
    "recvd_process env h w = recvd_answer env h1 w1"
    using process_msg [OF env s m l] by blast
  define d where "d = (wakeup_data HDCP_TRANSPORT_CMD_RECV_MESSAGE)\<lparr>tw_timeout := ad_timeout (app_data h1), tw_buf := Buf_request\<rparr>"
  have "recvd_answer env h1 w1 = Some (0, d, h1, w1)" using p(1,2) by (simp add: recvd_answer_def in_session_def d_def)
  then have "sde_hdcp_2x_msg_recvd env h w = Some (sde_hdcp_2x_wakeup_client env h1 d w1)"
    using p(3) s by (simp add: sde_hdcp_2x_msg_recvd_def in_session_def split: prod.split)
  moreover have "unat (HZ env) \<ge> 4" using env by (simp add: receiver_env_def)
  ultimately show ?thesis using session_wakeup [OF p(1) m, of env d]
    by (auto simp: d_def wakeup_data_def sends_message_def receiver_next_def wait_items_def)
qed

text \<open>A received message: the command, perhaps the wait, and the item of the message.\<close>

lemma recv_run:
  assumes env: "receiver_env env km" and s: "in_session m nk (wait_items m) b T s"
    and item: "\<And>h w. in_session m nk [] b T (h, w) \<Longrightarrow> total_message_length h \<noteq> 0 \<Longrightarrow> \<exists>s'. sde_hdcp_2x_msg_recvd env h w = Some s' \<and> Q s'"
    and q: "wait_items m = [] \<Longrightarrow> \<forall>h w. Q (h, w) \<longrightarrow> work_list h = []"
  shows "\<exists>s'. run_steps (hdcp_step env) s recv_ops = Some s' \<and> Q s'"
proof -
  obtain h w where hw: "s = (h, w)" by (cases s)
  note c = command_noted(3) [OF s [unfolded hw], of env]
  have run: "\<exists>s'. hdcp_step env (h1, w1) Hd_work = Some (0, s') \<and> Q s'"
    if mem: "in_session m nk [Wk_msg_recvd] b T (h1, w1)" "total_message_length h1 \<noteq> 0" for h1 w1
  proof -
    have "in_session m nk [] b T (h1\<lparr>work_list := []\<rparr>, w1)" using mem(1) by (simp add: in_session_def)
    then obtain s' where "sde_hdcp_2x_msg_recvd env (h1\<lparr>work_list := []\<rparr>) w1 = Some s'" "Q s'"
      using item [of "h1\<lparr>work_list := []\<rparr>" w1] mem(2) by auto
    moreover have "work_list h1 = [Wk_msg_recvd]" using mem(1) by (simp add: in_session_def)
    ultimately show ?thesis by (simp add: hdcp_step_def run_work_def run_item_def)
  qed
  show ?thesis
  proof (cases "wait_items m = []")
    case True
    have "in_session m nk [Wk_msg_recvd] b T (noted 1 [Wk_msg_recvd] h, w)" using s True by (simp add: hw) (simp add: in_session_def)
    from run [OF this] obtain h2 w2 where s': "hdcp_step env (noted 1 [Wk_msg_recvd] h, w) Hd_work = Some (0, h2, w2)" "Q (h2, w2)"
      by (auto simp: noted_def)
    have "work_list h2 = []" using q [OF True] s'(2) by blast
    then have "hdcp_step env (h2, w2) Hd_work = Some (0, h2, w2)" by (rule idle_step)
    then show ?thesis using c s' True by (simp add: hw)
  next
    case False
    then have w: "wait_items m = [Wk_wait]" by (simp add: wait_items_def split: if_splits)
    have n: "in_session m nk (Wk_wait # [Wk_msg_recvd]) b T (noted 1 [Wk_wait, Wk_msg_recvd] h, w)" using s w by (simp add: hw) (simp add: in_session_def)
    obtain h1 w1 where 1: "hdcp_step env (noted 1 [Wk_wait, Wk_msg_recvd] h, w) Hd_work = Some (0, h1, w1)" "in_session m nk [Wk_msg_recvd] b T (h1, w1)"
      "total_message_length h1 = 1"
      using wait_step [OF env n] by (auto simp: noted_def)
    obtain s' where "hdcp_step env (h1, w1) Hd_work = Some (0, s')" "Q s'" using run [OF 1(2)] 1(3) by auto
    then show ?thesis using c 1(1) w by (simp add: hw)
  qed
qed

lemma recv_leads:
  assumes env: "receiver_env env km" and m: "m \<in> receiver_msgs" and r: "receiver_reply km m = Some r" "r \<in> receiver_msgs" "\<not> (m = AKE_SEND_H_PRIME \<and> nk)"
    "\<not> (m = LC_SEND_L_PRIME \<and> r = LC_INIT)"
  defines "k \<equiv> r = AKE_NO_STORED_KM"
  assumes idle: "wait_items (receiver_next k m) = []"
  shows "leads env (in_session m nk (wait_items m) b T) recv_ops
    (in_session (receiver_next k m) k [] r (T @ [(HDCP_TRANSPORT_CMD_SEND_MESSAGE, msg (receiver_next k m))]))"
  unfolding leads_def
proof (intro allI impI)
  fix s assume s: "in_session m nk (wait_items m) b T s"
  show "\<exists>s'. run_steps (hdcp_step env) s recv_ops = Some s' \<and>
      in_session (receiver_next k m) k [] r (T @ [(HDCP_TRANSPORT_CMD_SEND_MESSAGE, msg (receiver_next k m))]) s'"
    by (rule recv_run [OF env s])
       (use recvd_reply [OF env _ m _ r, folded k_def] idle in \<open>auto simp: in_session_def\<close>)
qed

lemma pairing_leads:
  assumes env: "receiver_env env km"
  shows "leads env (in_session AKE_SEND_H_PRIME True (wait_items AKE_SEND_H_PRIME) b T) recv_ops
    (\<lambda>s. \<exists>b. in_session AKE_SEND_PAIRING_INFO True (wait_items AKE_SEND_PAIRING_INFO) b (T @ [(HDCP_TRANSPORT_CMD_RECV_MESSAGE, msg AKE_SEND_PAIRING_INFO)]) s)"
  unfolding leads_def
proof (intro allI impI)
  fix s assume s: "in_session AKE_SEND_H_PRIME True (wait_items AKE_SEND_H_PRIME) b T s"
  show "\<exists>s'. run_steps (hdcp_step env) s recv_ops = Some s' \<and>
      (\<exists>b. in_session AKE_SEND_PAIRING_INFO True (wait_items AKE_SEND_PAIRING_INFO) b (T @ [(HDCP_TRANSPORT_CMD_RECV_MESSAGE, msg AKE_SEND_PAIRING_INFO)]) s')"
    by (rule recv_run [OF env s]) (use recvd_pairing [OF env] in \<open>auto simp: wait_items_def\<close>)
qed

lemma leads_ex: "(\<And>b. leads env (P b) ops Q) \<Longrightarrow> leads env (\<lambda>s. \<exists>b. P b s) ops Q"
  by (auto simp: leads_def)

text \<open>The first message, the type of the stream and the key.\<close>

lemma start_leads:
  assumes env: "receiver_env env km"
  shows "leads env (in_session INVALID_MESSAGE nk [] b T) [Hd_cmd HDCP_2X_CMD_START_AUTH 0 0, Hd_work]
    (in_session AKE_INIT nk [] AKE_INIT (T @ [(HDCP_TRANSPORT_CMD_SEND_MESSAGE, msg AKE_INIT)]))"
  unfolding leads_def
proof (intro allI impI)
  fix s assume s: "in_session INVALID_MESSAGE nk [] b T s"
  obtain h w where hw: "s = (h, w)" by (cases s)
  define h1 where "h1 = noted 0 [] h"
  have h1: "in_session INVALID_MESSAGE nk [] b T (h1, w)" using s by (simp add: hw h1_def) (simp add: in_session_def)
  obtain rc d where a: "answer env w HDCP2_CMD_START_AUTH (app_data h1) = (rc, d)" by (cases "answer env w HDCP2_CMD_START_AUTH (app_data h1)")
  have "buffers_ok (app_data h1)" using h1 by (simp add: in_session_def)
  then have d: "rc = 0" "says d AKE_INIT"
    using env [unfolded receiver_env_def, THEN conjunct2, THEN conjunct2, rule_format, of "app_data h1" w] a by simp_all
  define h2 where "h2 = h1\<lparr>app_data := d\<rparr>"
  define w2 where "w2 = w @ [(App_comm HDCP2_CMD_START_AUTH, rc)]"
  have h2: "in_session INVALID_MESSAGE nk [] AKE_INIT T (h2, w2)" using h1 d by (simp add: in_session_def h2_def w2_def says_def)
  define s' where "s' = sde_hdcp_2x_send_message env h2 w2"
  have "hdcp_step env (noted 0 [Wk_start_auth] h, w) Hd_work = Some (0, s')"
    using a d(1) by (simp add: hdcp_step_def run_work_def run_item_def sde_hdcp_2x_start_auth_def hdcp2_app_comm_def noted_def h1_def s'_def h2_def w2_def)
  then have "run_steps (hdcp_step env) s [Hd_cmd HDCP_2X_CMD_START_AUTH 0 0, Hd_work] = Some s'"
    using command_noted(1) [OF s [unfolded hw], of env] by (simp add: hw)
  moreover have "unat (HZ env) \<ge> 4" using env by (simp add: receiver_env_def)
  then have "in_session AKE_INIT nk [] AKE_INIT (T @ [(HDCP_TRANSPORT_CMD_SEND_MESSAGE, msg AKE_INIT)]) s'"
    using session_send [OF h2, of env] by (simp add: s'_def receiver_msgs_def receiver_next_def wait_items_def)
  ultimately show "\<exists>s'. run_steps (hdcp_step env) s [Hd_cmd HDCP_2X_CMD_START_AUTH 0 0, Hd_work] = Some s' \<and>
      in_session AKE_INIT nk [] AKE_INIT (T @ [(HDCP_TRANSPORT_CMD_SEND_MESSAGE, msg AKE_INIT)]) s'" by blast
qed

lemma type_leads:
  assumes env: "receiver_env env km"
  shows "leads env (in_session SKE_SEND_EKS nk [] SKE_SEND_EKS T) send_ops
    (in_session SKE_SEND_TYPE_ID nk [] SKE_SEND_TYPE_ID (T @ [(HDCP_TRANSPORT_CMD_SEND_MESSAGE, msg SKE_SEND_TYPE_ID)]))"
  unfolding leads_def
proof (intro allI impI)
  fix s assume s: "in_session SKE_SEND_EKS nk [] SKE_SEND_EKS T s"
  obtain h w where hw: "s = (h, w)" by (cases s)
  define h1 where "h1 = noted 0 [] h"
  have h1: "in_session SKE_SEND_EKS nk [] SKE_SEND_EKS T (h1, w)" using s by (simp add: hw h1_def) (simp add: in_session_def)
  then have b: "byte0 (ad_response (app_data h1)) = Some (word_of_int SKE_SEND_EKS)" "buffers_ok (app_data h1)" "\<not> repeater_flag h1" by (simp_all add: in_session_def)
  obtain x y xs where x: "ad_response (app_data h1) = Some (x # y # xs)" using b(2) by (auto simp: buffers_ok_def)
  define d where "d = (app_data h1)\<lparr>ad_response := Some (word_of_int SKE_SEND_TYPE_ID # sde_hdcp_2x_stream_type (min_enc_level h1) # xs), ad_response_length := 1, ad_timeout := 100\<rparr>"
  define h2 where "h2 = h1\<lparr>app_data := d\<rparr>"
  have p: "put_type h1 = Some h2" using x by (simp add: put_type_def put_byte_def d_def h2_def)
  have h2: "in_session SKE_SEND_EKS nk [] SKE_SEND_TYPE_ID T (h2, w)" using h1 b(2) by (simp add: in_session_def h2_def d_def buffers_ok_def byte0_def)
  define s' where "s' = sde_hdcp_2x_send_message env h2 w"
  have "sde_hdcp_2x_msg_sent env h1 w = Some s'"
    using b(1,3) p by (simp add: sde_hdcp_2x_msg_sent_def s'_def sde_hdcp_2x_wakeup_client_def case_prod_beta)
  then have "hdcp_step env (noted 0 [Wk_msg_sent] h, w) Hd_work = Some (0, s')"
    by (simp add: hdcp_step_def run_work_def run_item_def noted_def h1_def)
  then have "run_steps (hdcp_step env) s send_ops = Some s'" using command_noted(2) [OF s [unfolded hw], of env] by (simp add: hw)
  moreover have "unat (HZ env) \<ge> 4" using env by (simp add: receiver_env_def)
  then have "in_session SKE_SEND_TYPE_ID nk [] SKE_SEND_TYPE_ID (T @ [(HDCP_TRANSPORT_CMD_SEND_MESSAGE, msg SKE_SEND_TYPE_ID)]) s'"
    using session_send [OF h2, of env] by (simp add: s'_def receiver_msgs_def receiver_next_def wait_items_def)
  ultimately show "\<exists>s'. run_steps (hdcp_step env) s send_ops = Some s' \<and>
      in_session SKE_SEND_TYPE_ID nk [] SKE_SEND_TYPE_ID (T @ [(HDCP_TRANSPORT_CMD_SEND_MESSAGE, msg SKE_SEND_TYPE_ID)]) s'" by blast
qed

text \<open>The end: authenticated, the transport told of success, and polling.\<close>

definition session_done :: "(hdcp_transport_wakeup_cmd \<times> sde_hdcp_2x_msg_data option) list \<Rightarrow> hdcp_state \<Rightarrow> bool" where
  "session_done T s \<longleftrightarrow> authenticated (fst s) \<and> keyed (snd s) \<and> transcript (snd s) = T \<and>
     (\<exists>t rc. (Transport t, rc) \<in> set (snd s) \<and> tw_cmd t = HDCP_TRANSPORT_CMD_STATUS_SUCCESS)"

lemma key_leads:
  assumes env: "receiver_env env km"
  shows "leads env (in_session SKE_SEND_TYPE_ID nk [] SKE_SEND_TYPE_ID T) send_ops
    (session_done (T @ [(HDCP_TRANSPORT_CMD_LINK_POLL, msg SKE_SEND_TYPE_ID)]))"
  unfolding leads_def
proof (intro allI impI)
  fix s assume s: "in_session SKE_SEND_TYPE_ID nk [] SKE_SEND_TYPE_ID T s"
  obtain h w where hw: "s = (h, w)" by (cases s)
  define h1 where "h1 = noted 0 [] h"
  have h1: "client_wakeup h1" "\<not> repeater_flag h1" "\<not> resend_lc_init h1" "last_msg h1 = SKE_SEND_TYPE_ID" "\<not> authenticated h1" "buffers_ok (app_data h1)"
    "byte0 (ad_response (app_data h1)) = Some (word_of_int SKE_SEND_TYPE_ID)" "transcript w = T"
    using s by (simp_all add: hw h1_def noted_def in_session_def)
  obtain rc d where a: "answer env w HDCP2_CMD_SET_HW_KEY (app_data h1) = (rc, d)" by (cases "answer env w HDCP2_CMD_SET_HW_KEY (app_data h1)")
  have rc: "rc = 0" using env [unfolded receiver_env_def, THEN conjunct2, THEN conjunct2, rule_format, OF h1(6), of w] a by simp
  define w1 where "w1 = w @ [(App_comm HDCP2_CMD_SET_HW_KEY, rc)]"
  define w2 where "w2 = (if force_encryption h1 then vcall Force_encryption w1 else w1)"
  have k1: "keyed w1" "transcript w1 = T" using rc h1(8) by (simp_all add: w1_def)
  have w2: "keyed w2" "transcript w2 = T" using k1 by (simp_all add: w2_def vcall_def)
  define h2 where "h2 = h1\<lparr>app_data := d, authenticated := True\<rparr>"
  define t where "t = (wakeup_data HDCP_TRANSPORT_CMD_STATUS_SUCCESS)\<lparr>tw_abort_mask := 24\<rparr>"
  define h3 where "h3 = sde_hdcp_2x_wait_for_response env h2"
  define w3 where "w3 = w2 @ [(Transport t, codes env w2 (Transport t))]"
  have e3: "sde_hdcp_2x_set_hw_key env h1 w = (h3, w3)"
  proof -
    have "sde_hdcp_2x_set_hw_key env h1 w = sde_hdcp_2x_wakeup_client env h2 (wakeup_data HDCP_TRANSPORT_CMD_STATUS_SUCCESS) w2"
      using h1(5) a rc by (cases "force_encryption h1") (simp_all add: sde_hdcp_2x_set_hw_key_def hdcp2_app_comm_def h2_def w2_def w1_def)
    also have "\<dots> = (h3, w3)"
      using h1(1) by (simp add: sde_hdcp_2x_wakeup_client_def h2_def wakeup_data_def sends_message_def ext_def t_def h3_def w3_def Let_def)
    finally show ?thesis .
  qed
  have h3: "client_wakeup h3" "\<not> repeater_flag h3" "\<not> resend_lc_init h3" "last_msg h3 = SKE_SEND_TYPE_ID" "authenticated h3"
    using h1(1-4) by (simp_all add: h3_def h2_def sde_hdcp_2x_wait_for_response_def HDCP_2X_EXECUTE_def Let_def)
  define dp where "dp = sde_hdcp_2x_initialize_command h3 HDCP_TRANSPORT_CMD_LINK_POLL"
  obtain h4 w4 where e4: "sde_hdcp_2x_wakeup_client env h3 dp w3 = (h4, w4)" by (cases "sde_hdcp_2x_wakeup_client env h3 dp w3")
  have nx: "sde_hdcp_2x_get_next_message h3 HDCP_TRANSPORT_CMD_LINK_POLL = (SKE_SEND_TYPE_ID, h3)"
    using h3(2,4) by (simp add: sde_hdcp_2x_get_next_message_def Let_def)
  have r4: "authenticated h4" "\<exists>u rc. w4 = w3 @ [(Transport u, rc)] \<and> tw_cmd u = HDCP_TRANSPORT_CMD_LINK_POLL \<and> tw_message_data u = msg SKE_SEND_TYPE_ID"
    using e4 h3(1,4,5) nx
    by (auto simp: sde_hdcp_2x_wakeup_client_def dp_def sends_message_def ext_def Let_def msg_def sde_hdcp_2x_wait_for_response_def HDCP_2X_EXECUTE_def sde_hdcp_2x_initialize_command_def wakeup_data_def)
  obtain u c where u: "w4 = w3 @ [(Transport u, c)]" "tw_cmd u = HDCP_TRANSPORT_CMD_LINK_POLL" "tw_message_data u = msg SKE_SEND_TYPE_ID"
    using r4(2) by blast
  have t: "tw_cmd t = HDCP_TRANSPORT_CMD_STATUS_SUCCESS" by (simp add: t_def wakeup_data_def)
  have "keyed w3" "transcript w3 = T" using w2 t by (simp_all add: w3_def sends_message_def)
  then have "keyed w4" "transcript w4 = T @ [(HDCP_TRANSPORT_CMD_LINK_POLL, msg SKE_SEND_TYPE_ID)]"
    using u(2,3) by (simp_all add: u(1) sends_message_def)
  moreover have "(Transport t, codes env w2 (Transport t)) \<in> set w4" by (simp add: u(1) w3_def)
  ultimately have "session_done (T @ [(HDCP_TRANSPORT_CMD_LINK_POLL, msg SKE_SEND_TYPE_ID)]) (h4, w4)"
    using r4(1) t unfolding session_done_def by auto
  moreover have "sde_hdcp_2x_msg_sent env h1 w = Some (h4, w4)"
    using h1(7) e3 e4 by (simp add: sde_hdcp_2x_msg_sent_def dp_def)
  then have "hdcp_step env (noted 0 [Wk_msg_sent] h, w) Hd_work = Some (0, h4, w4)"
    by (simp add: hdcp_step_def run_work_def run_item_def noted_def h1_def)
  then have "run_steps (hdcp_step env) s send_ops = Some (h4, w4)" using command_noted(2) [OF s [unfolded hw], of env] by (simp add: hw)
  ultimately show "\<exists>s'. run_steps (hdcp_step env) s send_ops = Some s' \<and> session_done (T @ [(HDCP_TRANSPORT_CMD_LINK_POLL, msg SKE_SEND_TYPE_ID)]) s'" by blast
qed

subsection \<open>The whole session\<close>

text \<open>An instance that may be started: enabled for DisplayPort, idle, with nothing of an earlier session pending.\<close>

definition startable :: "(hdcp_transport_wakeup_cmd \<times> sde_hdcp_2x_msg_data option) list \<Rightarrow> hdcp_state \<Rightarrow> bool" where
  "startable T s \<longleftrightarrow> (case s of (h, w) \<Rightarrow> client_wakeup h \<and> hdcp2_ctx h \<noteq> None \<and> work_list h = [] \<and> device_type h = HDCP_TXMTR_DP \<and>
     \<not> authenticated h \<and> \<not> resend_lc_init h \<and> buffers_ok (app_data h) \<and> transcript w = T)"

abbreviation start_ops :: "hdcp_op list" where
  "start_ops \<equiv> [Hd_cmd HDCP_2X_CMD_START 0 0, Hd_work]"

lemma startable_leads:
  assumes env: "receiver_env env km"
  shows "leads env (startable T) start_ops (\<lambda>s. \<exists>b. in_session INVALID_MESSAGE False [] b T s)"
  unfolding leads_def
proof (intro allI impI)
  fix s assume s: "startable T s"
  obtain h w where hw: "s = (h, w)" by (cases s)
  have h: "client_wakeup h" "hdcp2_ctx h \<noteq> None" "work_list h = []" "device_type h = HDCP_TXMTR_DP" "\<not> authenticated h" "\<not> resend_lc_init h"
    "buffers_ok (app_data h)" "transcript w = T" using s by (simp_all add: startable_def hw)
  define h1 where "h1 = h\<lparr>timeout_left := 0, total_message_length := 0, no_stored_km := False, repeater_flag := False, update_stream := False,
    last_msg := INVALID_MESSAGE, timeout_left := 0, hdcp_off := False\<rparr>"
  have c: "hdcp_step env (h, w) (Hd_cmd HDCP_2X_CMD_START 0 0) = Some (0, h1\<lparr>work_list := [Wk_init]\<rparr>, w)"
    unfolding command_dispatch [OF h(2)] using h(3) by (simp add: dispatch_cmd_def cancel_work_def HDCP_2X_EXECUTE_def h1_def)
  obtain rc d where a: "answer env w HDCP2_CMD_START (app_data h1) = (rc, d)" by (cases "answer env w HDCP2_CMD_START (app_data h1)")
  have "buffers_ok (app_data h1)" using h(7) by (simp add: h1_def)
  then have d: "rc = 0" "buffers_ok d"
    using env [unfolded receiver_env_def, THEN conjunct2, THEN conjunct2, rule_format, of "app_data h1" w] a by simp_all
  obtain y where y: "byte0 (ad_response d) = Some y" using byte0_response [OF d(2)] by blast
  define s' where "s' = (h1\<lparr>work_list := [], app_data := d\<rparr>, w @ [(App_comm HDCP2_CMD_START, rc)])"
  have "hdcp_step env (h1\<lparr>work_list := [Wk_init]\<rparr>, w) Hd_work = Some (0, s')"
    by (rule work_step [where k = Wk_init and ks = "[]"])
       (use a d(1) in \<open>simp_all add: run_item_def sde_hdcp_2x_init_def hdcp2_app_comm_def s'_def h1_def\<close>)
  then have "run_steps (hdcp_step env) s start_ops = Some s'" using c by (simp add: hw)
  moreover have "in_session INVALID_MESSAGE False [] (uint y) T s'"
    using h(1,2,4-6,8) d(2) y by (simp add: in_session_def s'_def h1_def)
  ultimately show "\<exists>s'. run_steps (hdcp_step env) s start_ops = Some s' \<and> (\<exists>b. in_session INVALID_MESSAGE False [] b T s')" by blast
qed

text \<open>What the client and the worker do, and what is sent, for a receiver that is known or new (\<open>km\<close>).\<close>

definition session_ops :: "bool \<Rightarrow> hdcp_op list" where
  "session_ops km = start_ops @ [Hd_cmd HDCP_2X_CMD_START_AUTH 0 0, Hd_work] @ send_ops @ recv_ops @ send_ops @
     ((if km then recv_ops else []) @ recv_ops) @ send_ops @ recv_ops @ send_ops @ send_ops"

definition session_transcript :: "bool \<Rightarrow> (hdcp_transport_wakeup_cmd \<times> sde_hdcp_2x_msg_data option) list" where
  "session_transcript km =
     [(HDCP_TRANSPORT_CMD_SEND_MESSAGE, msg AKE_INIT), (HDCP_TRANSPORT_CMD_RECV_MESSAGE, msg AKE_SEND_CERT),
      (HDCP_TRANSPORT_CMD_SEND_MESSAGE, msg (if km then AKE_NO_STORED_KM else AKE_STORED_KM)), (HDCP_TRANSPORT_CMD_RECV_MESSAGE, msg AKE_SEND_H_PRIME)] @
     (if km then [(HDCP_TRANSPORT_CMD_RECV_MESSAGE, msg AKE_SEND_PAIRING_INFO)] else []) @
     [(HDCP_TRANSPORT_CMD_SEND_MESSAGE, msg LC_INIT), (HDCP_TRANSPORT_CMD_RECV_MESSAGE, msg LC_SEND_L_PRIME),
      (HDCP_TRANSPORT_CMD_SEND_MESSAGE, msg SKE_SEND_EKS), (HDCP_TRANSPORT_CMD_SEND_MESSAGE, msg SKE_SEND_TYPE_ID),
      (HDCP_TRANSPORT_CMD_LINK_POLL, msg SKE_SEND_TYPE_ID)]"

lemma pairing_or_reply_leads:
  assumes env: "receiver_env env km"
  shows "leads env (in_session AKE_SEND_H_PRIME km (wait_items AKE_SEND_H_PRIME) b T) ((if km then recv_ops else []) @ recv_ops)
    (in_session LC_INIT False [] LC_INIT (T @ (if km then [(HDCP_TRANSPORT_CMD_RECV_MESSAGE, msg AKE_SEND_PAIRING_INFO)] else []) @
      [(HDCP_TRANSPORT_CMD_SEND_MESSAGE, msg LC_INIT)]))"
proof (cases km)
  case True
  note e = env [unfolded True]
  have "leads env (in_session AKE_SEND_PAIRING_INFO True (wait_items AKE_SEND_PAIRING_INFO) c (T @ [(HDCP_TRANSPORT_CMD_RECV_MESSAGE, msg AKE_SEND_PAIRING_INFO)])) recv_ops
      (in_session LC_INIT False [] LC_INIT ((T @ [(HDCP_TRANSPORT_CMD_RECV_MESSAGE, msg AKE_SEND_PAIRING_INFO)]) @ [(HDCP_TRANSPORT_CMD_SEND_MESSAGE, msg LC_INIT)]))" for c
    using recv_leads [OF e, of AKE_SEND_PAIRING_INFO LC_INIT True c "T @ [(HDCP_TRANSPORT_CMD_RECV_MESSAGE, msg AKE_SEND_PAIRING_INFO)]"]
    by (simp add: receiver_msgs_def receiver_reply_def receiver_next_def wait_items_def)
  from leads_append [OF pairing_leads [OF e, of b T] leads_ex [OF this]] True show ?thesis by simp
next
  case False
  then show ?thesis using recv_leads [OF env, of AKE_SEND_H_PRIME LC_INIT False]
    by (simp add: receiver_msgs_def receiver_reply_def receiver_next_def wait_items_def)
qed

lemma session_leads:
  assumes env: "receiver_env env km"
  shows "leads env (startable T) (session_ops km) (session_done (T @ session_transcript km))"
proof -
  have hz: "unat (HZ env) \<ge> 4" using env by (simp add: receiver_env_def)
  note sends = receiver_msgs_def receiver_reply_def receiver_next_def wait_items_def
  have a: "leads env (\<lambda>s. \<exists>b. in_session INVALID_MESSAGE False [] b T s) [Hd_cmd HDCP_2X_CMD_START_AUTH 0 0, Hd_work]
      (in_session AKE_INIT False [] AKE_INIT (T @ [(HDCP_TRANSPORT_CMD_SEND_MESSAGE, msg AKE_INIT)]))"
    by (rule leads_ex) (rule start_leads [OF env])
  have b: "leads env (in_session AKE_INIT False [] AKE_INIT T) send_ops (in_session AKE_SEND_CERT False [] AKE_INIT (T @ [(HDCP_TRANSPORT_CMD_RECV_MESSAGE, msg AKE_SEND_CERT)]))" for T
    using sent_leads [OF hz, of AKE_INIT AKE_INIT False T] by (simp add: sends)
  have c: "leads env (in_session AKE_SEND_CERT False [] AKE_INIT T) recv_ops (in_session (if km then AKE_NO_STORED_KM else AKE_STORED_KM) km []
      (if km then AKE_NO_STORED_KM else AKE_STORED_KM) (T @ [(HDCP_TRANSPORT_CMD_SEND_MESSAGE, msg (if km then AKE_NO_STORED_KM else AKE_STORED_KM))]))" for T
    using recv_leads [OF env, of AKE_SEND_CERT "if km then AKE_NO_STORED_KM else AKE_STORED_KM" False AKE_INIT T] by (cases km) (simp_all add: sends)
  have d: "leads env (in_session (if km then AKE_NO_STORED_KM else AKE_STORED_KM) km [] (if km then AKE_NO_STORED_KM else AKE_STORED_KM) T) send_ops
      (in_session AKE_SEND_H_PRIME km (wait_items AKE_SEND_H_PRIME) (if km then AKE_NO_STORED_KM else AKE_STORED_KM) (T @ [(HDCP_TRANSPORT_CMD_RECV_MESSAGE, msg AKE_SEND_H_PRIME)]))" for T
    using sent_leads [OF hz, of "if km then AKE_NO_STORED_KM else AKE_STORED_KM" "if km then AKE_NO_STORED_KM else AKE_STORED_KM" km T] by (cases km) (simp_all add: sends)
  have e: "leads env (in_session LC_INIT False [] LC_INIT T) send_ops (in_session LC_SEND_L_PRIME False [] LC_INIT (T @ [(HDCP_TRANSPORT_CMD_RECV_MESSAGE, msg LC_SEND_L_PRIME)]))" for T
    using sent_leads [OF hz, of LC_INIT LC_INIT False T] by (simp add: sends)
  have f: "leads env (in_session LC_SEND_L_PRIME False [] LC_INIT T) recv_ops (in_session SKE_SEND_EKS False [] SKE_SEND_EKS (T @ [(HDCP_TRANSPORT_CMD_SEND_MESSAGE, msg SKE_SEND_EKS)]))" for T
    using recv_leads [OF env, of LC_SEND_L_PRIME SKE_SEND_EKS False LC_INIT T] by (simp add: sends)
  note keys = leads_append [OF type_leads [OF env] key_leads [OF env]]
  note locality = leads_append [OF e leads_append [OF f keys]]
  note prime = leads_append [OF d leads_append [OF pairing_or_reply_leads [OF env] locality]]
  note exchange = leads_append [OF a leads_append [OF b leads_append [OF c prime]]]
  from leads_append [OF startable_leads [OF env] exchange] show ?thesis
    by (simp add: session_ops_def session_transcript_def)
qed

end
