(* ===== verification/Sde_Hdcp_Props.thy ===== *)
theory Sde_Hdcp_Props
  imports Sde_Hdcp_Session
begin

section \<open>Content protection: properties\<close>

text \<open>
  Authentication, messages and streams in all runs, a complete authentication, and an order of commands
  that loses one of them.
\<close>

subsection \<open>Runs of a registered instance\<close>

lemma registered_ok: "hdcp_ok env False (sde_hdcp_2x_register cb, [])"
  by (simp add: hdcp_ok_def quiet_def hdcp_inv_def hdcp_base_def sde_hdcp_2x_register_def)

lemma registered_runs:
  assumes "library_ok env" "open_ok env" "steps_ok hdcp_op_ok (hdcp_step env) (sde_hdcp_2x_register cb, []) ps"
  shows "\<exists>s. run_steps (hdcp_step env) (sde_hdcp_2x_register cb, []) ps = Some s \<and> (\<exists>g. hdcp_ok env g s)"
  by (rule steps_invariant [of "\<lambda>s. \<exists>g. hdcp_ok env g s", OF hdcp_step_inv [OF _ _ assms(1,2)] _ assms(3)]) (use registered_ok in blast)+

lemma registered_run:
  assumes "library_ok env" "open_ok env" "steps_ok hdcp_op_ok (hdcp_step env) (sde_hdcp_2x_register cb, []) ps"
  obtains h w g where "run_steps (hdcp_step env) (sde_hdcp_2x_register cb, []) ps = Some (h, w)" "hdcp_inv env g (h, w)"
  using registered_runs [OF assms] by (auto simp: hdcp_ok_def)

text \<open>A library that gives its buffers when it is started and a sink that is there.\<close>

definition ex_app :: hdcp2_app_data where
  "ex_app = \<lparr>ad_request = Some [0, 0, 0], ad_request_length = 0, ad_response = Some [18, 0], ad_response_length = 1, ad_timeout = 0, ad_repeater_flag = False\<rparr>"

definition ex_hdcp :: hdcp_env where
  "ex_hdcp = \<lparr>codes = (\<lambda>w c. case c of Kzalloc \<Rightarrow> 1 | Hdcp2_init _ \<Rightarrow> 1 | _ \<Rightarrow> 0),
     answer = (\<lambda>w c d. (0, if c = HDCP2_CMD_START then ex_app else d)), opened = (\<lambda>w. 5), HZ = 100\<rparr>"

lemma ex_hdcp_ok: "library_ok ex_hdcp" "open_ok ex_hdcp"
  by (simp_all add: library_ok_def open_ok_def buffers_ok_def ex_hdcp_def ex_app_def)

definition ex_hdcp_ops :: "hdcp_op list" where
  "ex_hdcp_ops = [Hd_cmd (HDCP_2X_CMD_ENABLE HDCP_TXMTR_DP) 0 0, Hd_cmd HDCP_2X_CMD_START 0 0, Hd_work, Hd_work,
     Hd_cmd (HDCP_2X_CMD_OPEN_STREAMS [(1, 2), (3, 4)]) 0 0, Hd_work, Hd_cmd HDCP_2X_CMD_START_AUTH 0 0, Hd_work,
     Hd_cmd HDCP_2X_CMD_MSG_SEND_SUCCESS 0 0, Hd_work, Hd_receive [7, 7], Hd_cmd (HDCP_2X_CMD_CLOSE_STREAMS [(1, 2)]) 0 0, Hd_work]"

lemma ex_hdcp_steps: "steps_ok hdcp_op_ok (hdcp_step ex_hdcp) (sde_hdcp_2x_register True, []) ex_hdcp_ops"
  by code_simp

text \<open>
  A report of a sent message that comes before the start reads a buffer that is not there: of the items that
  read the buffers, this is the one that does not ask whether the instance is off.
\<close>

lemma sent_before_start:
  "run_steps (hdcp_step ex_hdcp) (sde_hdcp_2x_register True, []) [Hd_cmd (HDCP_2X_CMD_ENABLE HDCP_TXMTR_DP) 0 0, Hd_work, Hd_cmd HDCP_2X_CMD_MSG_SEND_SUCCESS 0 0] \<noteq> None \<and>
   run_steps (hdcp_step ex_hdcp) (sde_hdcp_2x_register True, [])
     [Hd_cmd (HDCP_2X_CMD_ENABLE HDCP_TXMTR_DP) 0 0, Hd_work, Hd_cmd HDCP_2X_CMD_MSG_SEND_SUCCESS 0 0, Hd_work] = None"
  by code_simp

subsection \<open>Authentication\<close>

text \<open>
  C13. Authentication follows the keys. From a registered instance, whose buffers are null, take any sequence of
  commands, work items and received bytes in which the transport reports on messages, asks for the streams and
  sets the encryption level only once the library has given its buffers, and receives no more than fits. If the
  library never takes its buffers back and gives a stream handle exactly if it opens a stream, each step has a
  value; afterwards the instance is authenticated exactly if the library has set the keys and was not stopped
  since, and the transport was never told of success without keys being set at that moment.
\<close>

theorem authenticated_means_keyed:
  assumes "library_ok env" "open_ok env" "steps_ok hdcp_op_ok (hdcp_step env) (sde_hdcp_2x_register cb, []) ps"
  shows "\<exists>h w. run_steps (hdcp_step env) (sde_hdcp_2x_register cb, []) ps = Some (h, w) \<and> (authenticated h \<longleftrightarrow> keyed w) \<and>
    (\<forall>p t rc q. w = p @ (Transport t, rc) # q \<and> tw_cmd t = HDCP_TRANSPORT_CMD_STATUS_SUCCESS \<longrightarrow> keyed p)"
proof -
  obtain h w g where s: "run_steps (hdcp_step env) (sde_hdcp_2x_register cb, []) ps = Some (h, w)" "hdcp_inv env g (h, w)" by (rule registered_run [OF assms])
  then have "calls_ok w" "authenticated h \<longleftrightarrow> keyed w" by (simp_all add: hdcp_inv_def hdcp_base_def)
  moreover have "keyed p" if "w = p @ (Transport t, rc) # q" "tw_cmd t = HDCP_TRANSPORT_CMD_STATUS_SUCCESS" for p t rc q
    using calls_ok_at [of p "(Transport t, rc)" q] \<open>calls_ok w\<close> that by simp
  ultimately show ?thesis using s(1) by blast
qed

lemma authenticated_means_keyed_witness:
  "\<exists>h w. run_steps (hdcp_step ex_hdcp) (sde_hdcp_2x_register True, []) ex_hdcp_ops = Some (h, w) \<and> (authenticated h \<longleftrightarrow> keyed w) \<and>
    (\<forall>p t rc q. w = p @ (Transport t, rc) # q \<and> tw_cmd t = HDCP_TRANSPORT_CMD_STATUS_SUCCESS \<longrightarrow> keyed p)"
  by (rule authenticated_means_keyed [OF ex_hdcp_ok ex_hdcp_steps])

text \<open>An enabled instance of which the library has given its buffers.\<close>

definition ex_ready :: sde_hdcp_2x_ctrl where
  "ex_ready = (sde_hdcp_2x_register True)\<lparr>hdcp2_ctx := Some 1, app_data := ex_app\<rparr>"






subsection \<open>Messages\<close>






subsection \<open>Streams\<close>

text \<open>
  C31. Streams are accounted for. In every such sequence no stream is listed twice, the 8-bit count is that of
  the list, and the handles of the streams that the library has open (opened, and not closed since) are exactly
  the handles other than 0 of the listed streams, each as often; so after a cleanup nothing is listed or open.
\<close>

theorem streams_accounted:
  assumes "library_ok env" "open_ok env" "steps_ok hdcp_op_ok (hdcp_step env) (sde_hdcp_2x_register cb, []) ps"
  shows "\<exists>h w. run_steps (hdcp_step env) (sde_hdcp_2x_register cb, []) ps = Some (h, w) \<and> distinct (map stream_key (stream_handles h)) \<and>
    stream_count h = word_of_nat (length (stream_handles h)) \<and>
    open_handles env w = mset (filter (\<lambda>k. k \<noteq> 0) (map stream_handle (stream_handles h))) \<and>
    (\<forall>h' w'. sde_hdcp_2x_clean env h w = (h', w') \<longrightarrow> stream_handles h' = [] \<and> stream_count h' = 0 \<and> open_handles env w' = {#})"
proof -
  obtain h w g where s: "run_steps (hdcp_step env) (sde_hdcp_2x_register cb, []) ps = Some (h, w)" "hdcp_inv env g (h, w)" by (rule registered_run [OF assms])
  have "stream_handles h' = [] \<and> stream_count h' = 0 \<and> open_handles env w' = {#}" if c: "sde_hdcp_2x_clean env h w = (h', w')" for h' w'
    using inv_clean [OF s(2) assms(1) c] by (simp add: inv_streams streams_ok_def)
  then show ?thesis using s by (intro exI [of _ h] exI [of _ w]) (simp add: inv_streams streams_ok_def listed_def)
qed

lemma streams_accounted_witness:
  "\<exists>h w. run_steps (hdcp_step ex_hdcp) (sde_hdcp_2x_register True, []) ex_hdcp_ops = Some (h, w) \<and> distinct (map stream_key (stream_handles h)) \<and>
    stream_count h = word_of_nat (length (stream_handles h)) \<and>
    open_handles ex_hdcp w = mset (filter (\<lambda>k. k \<noteq> 0) (map stream_handle (stream_handles h))) \<and>
    (\<forall>h' w'. sde_hdcp_2x_clean ex_hdcp h w = (h', w') \<longrightarrow> stream_handles h' = [] \<and> stream_count h' = 0 \<and> open_handles ex_hdcp w' = {#})"
  by (rule streams_accounted [OF ex_hdcp_ok ex_hdcp_steps])

subsection \<open>Orders of commands\<close>

lemma close_all_state:
  assumes "close_all env ss h w = (h', w')"
  shows "\<exists>n q. h' = h\<lparr>stream_handles := [], stream_count := n\<rparr> \<and> w' = w @ q"
  using assms
proof (induction ss arbitrary: h w)
  case Nil
  then have "h' = h\<lparr>stream_handles := [], stream_count := stream_count h\<rparr> \<and> w' = w @ []" by (auto intro: sde_hdcp_2x_ctrl.equality)
  then show ?case by blast
next
  case (Cons s ss)
  from Cons.prems have "close_all env ss (h\<lparr>stream_count := stream_count h - 1\<rparr>) (w @ [(Close_stream (stream_handle s), codes env w (Close_stream (stream_handle s)))]) = (h', w')"
    by (simp add: ext_def)
  from Cons.IH [OF this] show ?case by auto
qed

lemma clean_stopped:
  assumes "hdcp_off h"
  shows "\<exists>h' w'. sde_hdcp_2x_clean env h w = (h', w') \<and> work_list h' = work_list h \<and> hdcp2_ctx h' = hdcp2_ctx h"
proof -
  define h0 where "h0 = h\<lparr>authenticated := False\<rparr>"
  obtain h1 w1 where c: "close_all env (stream_handles h0) h0 w = (h1, w1)" by (cases "close_all env (stream_handles h0) h0 w")
  obtain n where p: "h1 = h0\<lparr>stream_handles := [], stream_count := n\<rparr>" using close_all_state [OF c] by blast
  have off: "hdcp_off h1 = True" using assms by (simp add: p h0_def)
  show ?thesis
    unfolding sde_hdcp_2x_clean_def Let_def h0_def [symmetric] c prod.case off not_True_eq_False if_False hdcp2_app_comm_def
    by (auto simp: p h0_def split: prod.split)
qed

text \<open>The cleanup of an instance that was just started: it fails the session and turns the instance off.\<close>

lemma clean_started:
  assumes "client_wakeup h" "\<not> hdcp_off h" "last_msg h = INVALID_MESSAGE"
  shows "\<exists>h' w' p t rc q. sde_hdcp_2x_clean env h w = (h', w') \<and> hdcp_off h' \<and> work_list h' = work_list h \<and> client_wakeup h' \<and>
    w' = w @ p @ (Transport t, rc) # q \<and> tw_cmd t = HDCP_TRANSPORT_CMD_STATUS_FAILED"
proof -
  define h0 where "h0 = h\<lparr>authenticated := False\<rparr>"
  obtain h1 w1 where c: "close_all env (stream_handles h0) h0 w = (h1, w1)" by (cases "close_all env (stream_handles h0) h0 w")
  obtain n p where p: "h1 = h0\<lparr>stream_handles := [], stream_count := n\<rparr>" "w1 = w @ p" using close_all_state [OF c] by blast
  define h2 where "h2 = h1\<lparr>hdcp_off := True\<rparr>"
  define t where "t = (wakeup_data HDCP_TRANSPORT_CMD_STATUS_FAILED)\<lparr>tw_abort_mask := 24\<rparr>"
  define h3 where "h3 = h2\<lparr>wait_timeout_ms := 0\<rparr>"
  have e: "sde_hdcp_2x_wakeup_client env h2 (wakeup_data HDCP_TRANSPORT_CMD_STATUS_FAILED) w1 = (h3, w1 @ [(Transport t, codes env w1 (Transport t))])"
    using assms by (simp add: sde_hdcp_2x_wakeup_client_def sends_message_def sde_hdcp_2x_wait_for_response_def Let_def ext_def t_def h3_def h2_def p(1) h0_def wakeup_data_def)
  obtain rc d where a: "answer env (w1 @ [(Transport t, codes env w1 (Transport t))]) HDCP2_CMD_STOP (app_data h3) = (rc, d)" by (metis prod.exhaust)
  have off: "hdcp_off h1 = False" using assms(2) by (simp add: p(1) h0_def)
  have "sde_hdcp_2x_clean env h w = (h3\<lparr>app_data := d\<rparr>, (w1 @ [(Transport t, codes env w1 (Transport t))]) @ [(App_comm HDCP2_CMD_STOP, rc)])"
    unfolding sde_hdcp_2x_clean_def Let_def h0_def [symmetric] c prod.case off not_False_eq_True if_True h2_def [symmetric] e hdcp2_app_comm_def a by (rule refl)
  moreover have "hdcp_off h3" "work_list h3 = work_list h" "client_wakeup h3" using assms(1) by (simp_all add: h3_def h2_def p(1) h0_def)
  ultimately show ?thesis using p(2)
    by (intro exI [of _ "h3\<lparr>app_data := d\<rparr>"] exI [of _ "(w1 @ [(Transport t, codes env w1 (Transport t))]) @ [(App_comm HDCP2_CMD_STOP, rc)]"]
        exI [of _ p] exI [of _ t] exI [of _ "codes env w1 (Transport t)"] exI [of _ "[(App_comm HDCP2_CMD_STOP, rc)]"])
       (simp add: t_def wakeup_data_def)
qed

lemma init_off: "\<exists>h' w'. sde_hdcp_2x_init env h w = (h', w') \<and> hdcp_off h' = hdcp_off h \<and> (\<exists>q. w' = w @ q)"
  by (auto simp: sde_hdcp_2x_init_def hdcp2_app_comm_def Let_def split: prod.split)

text \<open>
  C32. A restart can be lost. If an instance with an idle worker is stopped and started again before the
  worker comes to the cleanup, the cleanup of the stop ends the new session: the transport is told that it
  failed, and the instance is off, so that it does nothing with messages of the sink. If the worker comes to
  the cleanup before the start, the instance is on afterwards.
\<close>

theorem restart_is_lost:
  assumes "hdcp2_ctx h \<noteq> None" "work_list h = []" "client_wakeup h"
  shows "(\<exists>h' w'. run_steps (hdcp_step env) (h, w) [Hd_cmd HDCP_2X_CMD_STOP 0 0, Hd_cmd HDCP_2X_CMD_START 0 0, Hd_work, Hd_work] = Some (h', w') \<and>
      hdcp_off h' \<and> (\<exists>p t rc q. w' = w @ p @ (Transport t, rc) # q \<and> tw_cmd t = HDCP_TRANSPORT_CMD_STATUS_FAILED) \<and>
      (\<forall>v. sde_hdcp_2x_msg_recvd env h' v = Some (h', v))) \<and>
    (\<exists>h' w'. run_steps (hdcp_step env) (h, w) [Hd_cmd HDCP_2X_CMD_STOP 0 0, Hd_work, Hd_cmd HDCP_2X_CMD_START 0 0, Hd_work] = Some (h', w') \<and> \<not> hdcp_off h')"
proof -
  define h0 where "h0 = h\<lparr>timeout_left := 0, total_message_length := 0, hdcp_off := True, work_list := [Wk_clean]\<rparr>"
  have s0: "hdcp_step env (h, w) (Hd_cmd HDCP_2X_CMD_STOP 0 0) = Some (0, h0, w)"
    unfolding command_dispatch [OF assms(1)] using assms(2) by (simp add: dispatch_cmd_def HDCP_2X_EXECUTE_def h0_def)
  have ctx: "hdcp2_ctx h0 \<noteq> None" using assms(1) by (simp add: h0_def)
  define h2 where "h2 = h0\<lparr>timeout_left := 0, total_message_length := 0, no_stored_km := False, repeater_flag := False, update_stream := False,
     last_msg := INVALID_MESSAGE, timeout_left := 0, hdcp_off := False, work_list := [Wk_init]\<rparr>"
  have s1: "hdcp_step env (h0, w) (Hd_cmd HDCP_2X_CMD_START 0 0) = Some (0, h2\<lparr>work_list := [Wk_clean, Wk_init]\<rparr>, w)"
    unfolding command_dispatch [OF ctx] by (simp add: dispatch_cmd_def cancel_work_def HDCP_2X_EXECUTE_def h0_def h2_def)
  obtain h3 w3 p t rc q where c: "sde_hdcp_2x_clean env h2 w = (h3, w3)" "hdcp_off h3" "work_list h3 = [Wk_init]" "w3 = w @ p @ (Transport t, rc) # q" "tw_cmd t = HDCP_TRANSPORT_CMD_STATUS_FAILED"
    using clean_started [of h2 env w] assms(3) by (auto simp: h2_def h0_def)
  obtain h4 w4 q4 where i: "sde_hdcp_2x_init env (h3\<lparr>work_list := []\<rparr>) w3 = (h4, w4)" "hdcp_off h4" "w4 = w3 @ q4"
    using init_off [of env "h3\<lparr>work_list := []\<rparr>" w3] c(2) by auto
  have "hdcp_step env (h2\<lparr>work_list := [Wk_clean, Wk_init]\<rparr>, w) Hd_work = Some (0, h3, w3)"
    using c(1) by (simp add: hdcp_step_def run_work_def run_item_def) (simp add: h2_def)
  moreover have "hdcp_step env (h3, w3) Hd_work = Some (0, h4, w4)" using c(3) i(1) by (simp add: hdcp_step_def run_work_def run_item_def)
  ultimately have A: "run_steps (hdcp_step env) (h, w) [Hd_cmd HDCP_2X_CMD_STOP 0 0, Hd_cmd HDCP_2X_CMD_START 0 0, Hd_work, Hd_work] = Some (h4, w4)"
    using s0 s1 by simp
  have W: "w4 = w @ p @ (Transport t, rc) # (q @ q4)" using c(4) i(3) by simp
  obtain h5 w5 where d: "sde_hdcp_2x_clean env (h0\<lparr>work_list := []\<rparr>) w = (h5, w5)" "work_list h5 = []" "hdcp2_ctx h5 \<noteq> None"
    using clean_stopped [of "h0\<lparr>work_list := []\<rparr>" env w] assms(1) by (auto simp: h0_def)
  define h6 where "h6 = h5\<lparr>timeout_left := 0, total_message_length := 0, no_stored_km := False, repeater_flag := False, update_stream := False,
     last_msg := INVALID_MESSAGE, timeout_left := 0, hdcp_off := False, work_list := []\<rparr>"
  obtain h7 w7 where i7: "sde_hdcp_2x_init env h6 w5 = (h7, w7)" "\<not> hdcp_off h7" using init_off [of env h6 w5] by (auto simp: h6_def)
  have "hdcp_step env (h0, w) Hd_work = Some (0, h5, w5)" using d(1) by (simp add: hdcp_step_def run_work_def run_item_def h0_def)
  moreover have "hdcp_step env (h5, w5) (Hd_cmd HDCP_2X_CMD_START 0 0) = Some (0, h6\<lparr>work_list := [Wk_init]\<rparr>, w5)"
    unfolding command_dispatch [OF d(3)] using d(2) by (simp add: dispatch_cmd_def cancel_work_def HDCP_2X_EXECUTE_def h6_def)
  moreover have "hdcp_step env (h6\<lparr>work_list := [Wk_init]\<rparr>, w5) Hd_work = Some (0, h7, w7)"
    using i7(1) by (simp add: hdcp_step_def run_work_def run_item_def) (simp add: h6_def)
  ultimately have B: "run_steps (hdcp_step env) (h, w) [Hd_cmd HDCP_2X_CMD_STOP 0 0, Hd_work, Hd_cmd HDCP_2X_CMD_START 0 0, Hd_work] = Some (h7, w7)"
    using s0 by simp
  have "sde_hdcp_2x_msg_recvd env h4 v = Some (h4, v)" for v using i(2) by (simp add: sde_hdcp_2x_msg_recvd_def)
  then show ?thesis using A B W i(2) c(5) i7(2) by blast
qed

lemma restart_is_lost_witness:
  "(\<exists>h' w'. run_steps (hdcp_step ex_hdcp) (ex_ready, []) [Hd_cmd HDCP_2X_CMD_STOP 0 0, Hd_cmd HDCP_2X_CMD_START 0 0, Hd_work, Hd_work] = Some (h', w') \<and>
      hdcp_off h' \<and> (\<exists>p t rc q. w' = [] @ p @ (Transport t, rc) # q \<and> tw_cmd t = HDCP_TRANSPORT_CMD_STATUS_FAILED) \<and>
      (\<forall>v. sde_hdcp_2x_msg_recvd ex_hdcp h' v = Some (h', v))) \<and>
    (\<exists>h' w'. run_steps (hdcp_step ex_hdcp) (ex_ready, []) [Hd_cmd HDCP_2X_CMD_STOP 0 0, Hd_work, Hd_cmd HDCP_2X_CMD_START 0 0, Hd_work] = Some (h', w') \<and> \<not> hdcp_off h')"
  by (rule restart_is_lost) (simp_all add: ex_ready_def sde_hdcp_2x_register_def)

end
