(* ===== verification/Sde_Format_Map.thy ===== *)
theory Sde_Format_Map
  imports Sde_Prelude
begin

section \<open>Pixel formats: tables\<close>

text \<open>
  The tables of \<^verbatim>\<open>msm/sde/sde_formats.c\<close>: what the display hardware has to know of a pixel format, for every
  format of the DRM core that it can fetch, linear, tiled or compressed. The numbers of the DRM formats
  (four characters) are the constructors of a datatype; a format that no table names is \<open>DRM_FORMAT_other\<close>.
  Each macro of the source is a function with the arguments in the same order.
\<close>

datatype drm_format =
    DRM_FORMAT_ABGR1555 | DRM_FORMAT_ABGR2101010 | DRM_FORMAT_ABGR4444 | DRM_FORMAT_ABGR8888 | DRM_FORMAT_ARGB1555
  | DRM_FORMAT_ARGB2101010 | DRM_FORMAT_ARGB4444 | DRM_FORMAT_ARGB8888 | DRM_FORMAT_BGR565 | DRM_FORMAT_BGR888
  | DRM_FORMAT_BGRA1010102 | DRM_FORMAT_BGRA4444 | DRM_FORMAT_BGRA5551 | DRM_FORMAT_BGRA8888 | DRM_FORMAT_BGRX1010102
  | DRM_FORMAT_BGRX4444 | DRM_FORMAT_BGRX5551 | DRM_FORMAT_BGRX8888 | DRM_FORMAT_NV12 | DRM_FORMAT_NV16
  | DRM_FORMAT_NV21 | DRM_FORMAT_NV61 | DRM_FORMAT_RGB565 | DRM_FORMAT_RGB888 | DRM_FORMAT_RGBA1010102
  | DRM_FORMAT_RGBA4444 | DRM_FORMAT_RGBA5551 | DRM_FORMAT_RGBA8888 | DRM_FORMAT_RGBX1010102 | DRM_FORMAT_RGBX4444
  | DRM_FORMAT_RGBX5551 | DRM_FORMAT_RGBX8888 | DRM_FORMAT_UYVY | DRM_FORMAT_VYUY | DRM_FORMAT_XBGR1555
  | DRM_FORMAT_XBGR2101010 | DRM_FORMAT_XBGR4444 | DRM_FORMAT_XBGR8888 | DRM_FORMAT_XRGB1555 | DRM_FORMAT_XRGB2101010
  | DRM_FORMAT_XRGB4444 | DRM_FORMAT_XRGB8888 | DRM_FORMAT_YUV420 | DRM_FORMAT_YUYV | DRM_FORMAT_YVU420
  | DRM_FORMAT_YVYU
  | DRM_FORMAT_other u32

datatype sde_plane_type = SDE_PLANE_INTERLEAVED | SDE_PLANE_PLANAR | SDE_PLANE_PSEUDO_PLANAR

datatype sde_chroma_samp_type = SDE_CHROMA_RGB | SDE_CHROMA_H2V1 | SDE_CHROMA_H1V2 | SDE_CHROMA_420

datatype sde_fetch_type = SDE_FETCH_LINEAR | SDE_FETCH_TILE | SDE_FETCH_UBWC

abbreviation C0_G_Y :: u8 where "C0_G_Y \<equiv> 0"
abbreviation C1_B_Cb :: u8 where "C1_B_Cb \<equiv> 1"
abbreviation C2_R_Cr :: u8 where "C2_R_Cr \<equiv> 2"
abbreviation C3_ALPHA :: u8 where "C3_ALPHA \<equiv> 3"

abbreviation COLOR_ALPHA_1BIT :: u8 where "COLOR_ALPHA_1BIT \<equiv> 0"
abbreviation COLOR_ALPHA_4BIT :: u8 where "COLOR_ALPHA_4BIT \<equiv> 1"
abbreviation COLOR_4BIT :: u8 where "COLOR_4BIT \<equiv> 0"
abbreviation COLOR_5BIT :: u8 where "COLOR_5BIT \<equiv> 1"
abbreviation COLOR_6BIT :: u8 where "COLOR_6BIT \<equiv> 2"
abbreviation COLOR_8BIT :: u8 where "COLOR_8BIT \<equiv> 3"

abbreviation SDE_FORMAT_FLAG_YUV :: u32 where "SDE_FORMAT_FLAG_YUV \<equiv> 1"
abbreviation SDE_FORMAT_FLAG_DX :: u32 where "SDE_FORMAT_FLAG_DX \<equiv> 2"
abbreviation SDE_FORMAT_FLAG_COMPRESSED :: u32 where "SDE_FORMAT_FLAG_COMPRESSED \<equiv> 4"

abbreviation SDE_TILE_HEIGHT_DEFAULT :: u16 where "SDE_TILE_HEIGHT_DEFAULT \<equiv> 1"
abbreviation SDE_TILE_HEIGHT_TILED :: u16 where "SDE_TILE_HEIGHT_TILED \<equiv> 4"
abbreviation SDE_TILE_HEIGHT_UBWC :: u16 where "SDE_TILE_HEIGHT_UBWC \<equiv> 4"
abbreviation SDE_TILE_HEIGHT_NV12 :: u16 where "SDE_TILE_HEIGHT_NV12 \<equiv> 8"

text \<open>\<open>fmt_planes\<close> and \<open>fmt_bits\<close> are \<^verbatim>\<open>num_planes\<close> and \<^verbatim>\<open>bits\<close>; the width of a tile is never set.\<close>

record sde_format =
  pixel_format :: drm_format
  fetch_planes :: sde_plane_type
  element :: "u8 list"
  fmt_bits :: "u8 list"
  chroma_sample :: sde_chroma_samp_type
  unpack_align_msb :: u8
  unpack_tight :: u8
  unpack_count :: u8
  bpp :: u8
  alpha_enable :: bool
  fmt_planes :: u8
  fetch_mode :: sde_fetch_type
  flag :: u32
  tile_height :: u16

definition SDE_FORMAT_IS_YUV :: "sde_format \<Rightarrow> bool" where "SDE_FORMAT_IS_YUV f = bit (flag f) 0"
definition SDE_FORMAT_IS_DX :: "sde_format \<Rightarrow> bool" where "SDE_FORMAT_IS_DX f = bit (flag f) 1"
definition SDE_FORMAT_IS_LINEAR :: "sde_format \<Rightarrow> bool" where "SDE_FORMAT_IS_LINEAR f = (fetch_mode f = SDE_FETCH_LINEAR)"
definition SDE_FORMAT_IS_TILE :: "sde_format \<Rightarrow> bool" where "SDE_FORMAT_IS_TILE f = (fetch_mode f = SDE_FETCH_UBWC \<and> \<not> bit (flag f) 2)"
definition SDE_FORMAT_IS_UBWC :: "sde_format \<Rightarrow> bool" where "SDE_FORMAT_IS_UBWC f = (fetch_mode f = SDE_FETCH_UBWC \<and> bit (flag f) 2)"

subsection \<open>The macros\<close>

definition INTERLEAVED_RGB_FMT :: "drm_format \<Rightarrow> u8 \<Rightarrow> u8 \<Rightarrow> u8 \<Rightarrow> u8 \<Rightarrow> u8 \<Rightarrow> u8 \<Rightarrow> u8 \<Rightarrow> u8 \<Rightarrow> u8 \<Rightarrow> bool \<Rightarrow> u8 \<Rightarrow> u32 \<Rightarrow> sde_fetch_type \<Rightarrow> u8 \<Rightarrow> sde_format" where
  "INTERLEAVED_RGB_FMT fmt a r g b e0 e1 e2 e3 uc alpha bp flg fm np =
     \<lparr>pixel_format = fmt, fetch_planes = SDE_PLANE_INTERLEAVED, element = [e0, e1, e2, e3], fmt_bits = [g, b, r, a], chroma_sample = SDE_CHROMA_RGB,
      unpack_align_msb = 0, unpack_tight = 1, unpack_count = uc, bpp = bp, alpha_enable = alpha, fmt_planes = np, fetch_mode = fm, flag = flg, tile_height = SDE_TILE_HEIGHT_DEFAULT\<rparr>"

definition INTERLEAVED_RGB_FMT_TILED :: "drm_format \<Rightarrow> u8 \<Rightarrow> u8 \<Rightarrow> u8 \<Rightarrow> u8 \<Rightarrow> u8 \<Rightarrow> u8 \<Rightarrow> u8 \<Rightarrow> u8 \<Rightarrow> u8 \<Rightarrow> bool \<Rightarrow> u8 \<Rightarrow> u32 \<Rightarrow> sde_fetch_type \<Rightarrow> u8 \<Rightarrow> u16 \<Rightarrow> sde_format" where
  "INTERLEAVED_RGB_FMT_TILED fmt a r g b e0 e1 e2 e3 uc alpha bp flg fm np th =
     \<lparr>pixel_format = fmt, fetch_planes = SDE_PLANE_INTERLEAVED, element = [e0, e1, e2, e3], fmt_bits = [g, b, r, a], chroma_sample = SDE_CHROMA_RGB,
      unpack_align_msb = 0, unpack_tight = 1, unpack_count = uc, bpp = bp, alpha_enable = alpha, fmt_planes = np, fetch_mode = fm, flag = flg, tile_height = th\<rparr>"

definition INTERLEAVED_YUV_FMT :: "drm_format \<Rightarrow> u8 \<Rightarrow> u8 \<Rightarrow> u8 \<Rightarrow> u8 \<Rightarrow> u8 \<Rightarrow> u8 \<Rightarrow> u8 \<Rightarrow> u8 \<Rightarrow> bool \<Rightarrow> sde_chroma_samp_type \<Rightarrow> u8 \<Rightarrow> u8 \<Rightarrow> u32 \<Rightarrow> sde_fetch_type \<Rightarrow> u8 \<Rightarrow> sde_format" where
  "INTERLEAVED_YUV_FMT fmt a r g b e0 e1 e2 e3 alpha chroma count bp flg fm np =
     \<lparr>pixel_format = fmt, fetch_planes = SDE_PLANE_INTERLEAVED, element = [e0, e1, e2, e3], fmt_bits = [g, b, r, a], chroma_sample = chroma,
      unpack_align_msb = 0, unpack_tight = 1, unpack_count = count, bpp = bp, alpha_enable = alpha, fmt_planes = np, fetch_mode = fm, flag = flg, tile_height = SDE_TILE_HEIGHT_DEFAULT\<rparr>"

definition PSEUDO_YUV_FMT :: "drm_format \<Rightarrow> u8 \<Rightarrow> u8 \<Rightarrow> u8 \<Rightarrow> u8 \<Rightarrow> u8 \<Rightarrow> u8 \<Rightarrow> sde_chroma_samp_type \<Rightarrow> u32 \<Rightarrow> sde_fetch_type \<Rightarrow> u8 \<Rightarrow> sde_format" where
  "PSEUDO_YUV_FMT fmt a r g b e0 e1 chroma flg fm np =
     \<lparr>pixel_format = fmt, fetch_planes = SDE_PLANE_PSEUDO_PLANAR, element = [e0, e1, 0, 0], fmt_bits = [g, b, r, a], chroma_sample = chroma,
      unpack_align_msb = 0, unpack_tight = 1, unpack_count = 2, bpp = 2, alpha_enable = False, fmt_planes = np, fetch_mode = fm, flag = flg, tile_height = SDE_TILE_HEIGHT_DEFAULT\<rparr>"

definition PSEUDO_YUV_FMT_TILED :: "drm_format \<Rightarrow> u8 \<Rightarrow> u8 \<Rightarrow> u8 \<Rightarrow> u8 \<Rightarrow> u8 \<Rightarrow> u8 \<Rightarrow> sde_chroma_samp_type \<Rightarrow> u32 \<Rightarrow> sde_fetch_type \<Rightarrow> u8 \<Rightarrow> u16 \<Rightarrow> sde_format" where
  "PSEUDO_YUV_FMT_TILED fmt a r g b e0 e1 chroma flg fm np th =
     \<lparr>pixel_format = fmt, fetch_planes = SDE_PLANE_PSEUDO_PLANAR, element = [e0, e1, 0, 0], fmt_bits = [g, b, r, a], chroma_sample = chroma,
      unpack_align_msb = 0, unpack_tight = 1, unpack_count = 2, bpp = 2, alpha_enable = False, fmt_planes = np, fetch_mode = fm, flag = flg, tile_height = th\<rparr>"

definition PSEUDO_YUV_FMT_LOOSE :: "drm_format \<Rightarrow> u8 \<Rightarrow> u8 \<Rightarrow> u8 \<Rightarrow> u8 \<Rightarrow> u8 \<Rightarrow> u8 \<Rightarrow> sde_chroma_samp_type \<Rightarrow> u32 \<Rightarrow> sde_fetch_type \<Rightarrow> u8 \<Rightarrow> sde_format" where
  "PSEUDO_YUV_FMT_LOOSE fmt a r g b e0 e1 chroma flg fm np =
     \<lparr>pixel_format = fmt, fetch_planes = SDE_PLANE_PSEUDO_PLANAR, element = [e0, e1, 0, 0], fmt_bits = [g, b, r, a], chroma_sample = chroma,
      unpack_align_msb = 1, unpack_tight = 0, unpack_count = 2, bpp = 2, alpha_enable = False, fmt_planes = np, fetch_mode = fm, flag = flg, tile_height = SDE_TILE_HEIGHT_DEFAULT\<rparr>"

definition PSEUDO_YUV_FMT_LOOSE_TILED :: "drm_format \<Rightarrow> u8 \<Rightarrow> u8 \<Rightarrow> u8 \<Rightarrow> u8 \<Rightarrow> u8 \<Rightarrow> u8 \<Rightarrow> sde_chroma_samp_type \<Rightarrow> u32 \<Rightarrow> sde_fetch_type \<Rightarrow> u8 \<Rightarrow> u16 \<Rightarrow> sde_format" where
  "PSEUDO_YUV_FMT_LOOSE_TILED fmt a r g b e0 e1 chroma flg fm np th =
     \<lparr>pixel_format = fmt, fetch_planes = SDE_PLANE_PSEUDO_PLANAR, element = [e0, e1, 0, 0], fmt_bits = [g, b, r, a], chroma_sample = chroma,
      unpack_align_msb = 1, unpack_tight = 0, unpack_count = 2, bpp = 2, alpha_enable = False, fmt_planes = np, fetch_mode = fm, flag = flg, tile_height = th\<rparr>"

definition PLANAR_YUV_FMT :: "drm_format \<Rightarrow> u8 \<Rightarrow> u8 \<Rightarrow> u8 \<Rightarrow> u8 \<Rightarrow> u8 \<Rightarrow> u8 \<Rightarrow> u8 \<Rightarrow> bool \<Rightarrow> sde_chroma_samp_type \<Rightarrow> u8 \<Rightarrow> u32 \<Rightarrow> sde_fetch_type \<Rightarrow> u8 \<Rightarrow> sde_format" where
  "PLANAR_YUV_FMT fmt a r g b e0 e1 e2 alpha chroma bp flg fm np =
     \<lparr>pixel_format = fmt, fetch_planes = SDE_PLANE_PLANAR, element = [e0, e1, e2, 0], fmt_bits = [g, b, r, a], chroma_sample = chroma,
      unpack_align_msb = 0, unpack_tight = 1, unpack_count = 1, bpp = bp, alpha_enable = alpha, fmt_planes = np, fetch_mode = fm, flag = flg, tile_height = SDE_TILE_HEIGHT_DEFAULT\<rparr>"

subsection \<open>The tables\<close>

text \<open>The formats without modifier.\<close>

definition sde_format_map :: "sde_format list" where
  "sde_format_map = [
     INTERLEAVED_RGB_FMT DRM_FORMAT_ARGB8888 COLOR_8BIT COLOR_8BIT COLOR_8BIT COLOR_8BIT C1_B_Cb C0_G_Y C2_R_Cr C3_ALPHA 4 True 4 0 SDE_FETCH_LINEAR 1,
     INTERLEAVED_RGB_FMT DRM_FORMAT_ABGR8888 COLOR_8BIT COLOR_8BIT COLOR_8BIT COLOR_8BIT C2_R_Cr C0_G_Y C1_B_Cb C3_ALPHA 4 True 4 0 SDE_FETCH_LINEAR 1,
     INTERLEAVED_RGB_FMT DRM_FORMAT_XBGR8888 COLOR_8BIT COLOR_8BIT COLOR_8BIT COLOR_8BIT C2_R_Cr C0_G_Y C1_B_Cb C3_ALPHA 4 True 4 0 SDE_FETCH_LINEAR 1,
     INTERLEAVED_RGB_FMT DRM_FORMAT_RGBA8888 COLOR_8BIT COLOR_8BIT COLOR_8BIT COLOR_8BIT C3_ALPHA C1_B_Cb C0_G_Y C2_R_Cr 4 True 4 0 SDE_FETCH_LINEAR 1,
     INTERLEAVED_RGB_FMT DRM_FORMAT_BGRA8888 COLOR_8BIT COLOR_8BIT COLOR_8BIT COLOR_8BIT C3_ALPHA C2_R_Cr C0_G_Y C1_B_Cb 4 True 4 0 SDE_FETCH_LINEAR 1,
     INTERLEAVED_RGB_FMT DRM_FORMAT_BGRX8888 COLOR_8BIT COLOR_8BIT COLOR_8BIT COLOR_8BIT C3_ALPHA C2_R_Cr C0_G_Y C1_B_Cb 4 False 4 0 SDE_FETCH_LINEAR 1,
     INTERLEAVED_RGB_FMT DRM_FORMAT_XRGB8888 COLOR_8BIT COLOR_8BIT COLOR_8BIT COLOR_8BIT C1_B_Cb C0_G_Y C2_R_Cr C3_ALPHA 4 False 4 0 SDE_FETCH_LINEAR 1,
     INTERLEAVED_RGB_FMT DRM_FORMAT_RGBX8888 COLOR_8BIT COLOR_8BIT COLOR_8BIT COLOR_8BIT C3_ALPHA C1_B_Cb C0_G_Y C2_R_Cr 4 False 4 0 SDE_FETCH_LINEAR 1,
     INTERLEAVED_RGB_FMT DRM_FORMAT_RGB888 0 COLOR_8BIT COLOR_8BIT COLOR_8BIT C1_B_Cb C0_G_Y C2_R_Cr 0 3 False 3 0 SDE_FETCH_LINEAR 1,
     INTERLEAVED_RGB_FMT DRM_FORMAT_BGR888 0 COLOR_8BIT COLOR_8BIT COLOR_8BIT C2_R_Cr C0_G_Y C1_B_Cb 0 3 False 3 0 SDE_FETCH_LINEAR 1,
     INTERLEAVED_RGB_FMT DRM_FORMAT_RGB565 0 COLOR_5BIT COLOR_6BIT COLOR_5BIT C2_R_Cr C0_G_Y C1_B_Cb 0 3 False 2 0 SDE_FETCH_LINEAR 1,
     INTERLEAVED_RGB_FMT DRM_FORMAT_BGR565 0 COLOR_5BIT COLOR_6BIT COLOR_5BIT C1_B_Cb C0_G_Y C2_R_Cr 0 3 False 2 0 SDE_FETCH_LINEAR 1,
     INTERLEAVED_RGB_FMT DRM_FORMAT_ARGB1555 COLOR_ALPHA_1BIT COLOR_5BIT COLOR_5BIT COLOR_5BIT C3_ALPHA C2_R_Cr C0_G_Y C1_B_Cb 4 True 2 0 SDE_FETCH_LINEAR 1,
     INTERLEAVED_RGB_FMT DRM_FORMAT_ABGR1555 COLOR_ALPHA_1BIT COLOR_5BIT COLOR_5BIT COLOR_5BIT C3_ALPHA C1_B_Cb C0_G_Y C2_R_Cr 4 True 2 0 SDE_FETCH_LINEAR 1,
     INTERLEAVED_RGB_FMT DRM_FORMAT_RGBA5551 COLOR_ALPHA_1BIT COLOR_5BIT COLOR_5BIT COLOR_5BIT C2_R_Cr C0_G_Y C1_B_Cb C3_ALPHA 4 True 2 0 SDE_FETCH_LINEAR 1,
     INTERLEAVED_RGB_FMT DRM_FORMAT_BGRA5551 COLOR_ALPHA_1BIT COLOR_5BIT COLOR_5BIT COLOR_5BIT C1_B_Cb C0_G_Y C2_R_Cr C3_ALPHA 4 True 2 0 SDE_FETCH_LINEAR 1,
     INTERLEAVED_RGB_FMT DRM_FORMAT_XRGB1555 COLOR_ALPHA_1BIT COLOR_5BIT COLOR_5BIT COLOR_5BIT C3_ALPHA C2_R_Cr C0_G_Y C1_B_Cb 4 False 2 0 SDE_FETCH_LINEAR 1,
     INTERLEAVED_RGB_FMT DRM_FORMAT_XBGR1555 COLOR_ALPHA_1BIT COLOR_5BIT COLOR_5BIT COLOR_5BIT C3_ALPHA C1_B_Cb C0_G_Y C2_R_Cr 4 False 2 0 SDE_FETCH_LINEAR 1,
     INTERLEAVED_RGB_FMT DRM_FORMAT_RGBX5551 COLOR_ALPHA_1BIT COLOR_5BIT COLOR_5BIT COLOR_5BIT C2_R_Cr C0_G_Y C1_B_Cb C3_ALPHA 4 False 2 0 SDE_FETCH_LINEAR 1,
     INTERLEAVED_RGB_FMT DRM_FORMAT_BGRX5551 COLOR_ALPHA_1BIT COLOR_5BIT COLOR_5BIT COLOR_5BIT C1_B_Cb C0_G_Y C2_R_Cr C3_ALPHA 4 False 2 0 SDE_FETCH_LINEAR 1,
     INTERLEAVED_RGB_FMT DRM_FORMAT_ARGB4444 COLOR_ALPHA_4BIT COLOR_4BIT COLOR_4BIT COLOR_4BIT C3_ALPHA C2_R_Cr C0_G_Y C1_B_Cb 4 True 2 0 SDE_FETCH_LINEAR 1,
     INTERLEAVED_RGB_FMT DRM_FORMAT_ABGR4444 COLOR_ALPHA_4BIT COLOR_4BIT COLOR_4BIT COLOR_4BIT C3_ALPHA C1_B_Cb C0_G_Y C2_R_Cr 4 True 2 0 SDE_FETCH_LINEAR 1,
     INTERLEAVED_RGB_FMT DRM_FORMAT_RGBA4444 COLOR_ALPHA_4BIT COLOR_4BIT COLOR_4BIT COLOR_4BIT C2_R_Cr C0_G_Y C1_B_Cb C3_ALPHA 4 True 2 0 SDE_FETCH_LINEAR 1,
     INTERLEAVED_RGB_FMT DRM_FORMAT_BGRA4444 COLOR_ALPHA_4BIT COLOR_4BIT COLOR_4BIT COLOR_4BIT C1_B_Cb C0_G_Y C2_R_Cr C3_ALPHA 4 True 2 0 SDE_FETCH_LINEAR 1,
     INTERLEAVED_RGB_FMT DRM_FORMAT_XRGB4444 COLOR_ALPHA_4BIT COLOR_4BIT COLOR_4BIT COLOR_4BIT C3_ALPHA C2_R_Cr C0_G_Y C1_B_Cb 4 False 2 0 SDE_FETCH_LINEAR 1,
     INTERLEAVED_RGB_FMT DRM_FORMAT_XBGR4444 COLOR_ALPHA_4BIT COLOR_4BIT COLOR_4BIT COLOR_4BIT C3_ALPHA C1_B_Cb C0_G_Y C2_R_Cr 4 False 2 0 SDE_FETCH_LINEAR 1,
     INTERLEAVED_RGB_FMT DRM_FORMAT_RGBX4444 COLOR_ALPHA_4BIT COLOR_4BIT COLOR_4BIT COLOR_4BIT C2_R_Cr C0_G_Y C1_B_Cb C3_ALPHA 4 False 2 0 SDE_FETCH_LINEAR 1,
     INTERLEAVED_RGB_FMT DRM_FORMAT_BGRX4444 COLOR_ALPHA_4BIT COLOR_4BIT COLOR_4BIT COLOR_4BIT C1_B_Cb C0_G_Y C2_R_Cr C3_ALPHA 4 False 2 0 SDE_FETCH_LINEAR 1,
     INTERLEAVED_RGB_FMT DRM_FORMAT_BGRA1010102 COLOR_8BIT COLOR_8BIT COLOR_8BIT COLOR_8BIT C3_ALPHA C2_R_Cr C0_G_Y C1_B_Cb 4 True 4 SDE_FORMAT_FLAG_DX SDE_FETCH_LINEAR 1,
     INTERLEAVED_RGB_FMT DRM_FORMAT_RGBA1010102 COLOR_8BIT COLOR_8BIT COLOR_8BIT COLOR_8BIT C3_ALPHA C1_B_Cb C0_G_Y C2_R_Cr 4 True 4 SDE_FORMAT_FLAG_DX SDE_FETCH_LINEAR 1,
     INTERLEAVED_RGB_FMT DRM_FORMAT_ABGR2101010 COLOR_8BIT COLOR_8BIT COLOR_8BIT COLOR_8BIT C2_R_Cr C0_G_Y C1_B_Cb C3_ALPHA 4 True 4 SDE_FORMAT_FLAG_DX SDE_FETCH_LINEAR 1,
     INTERLEAVED_RGB_FMT DRM_FORMAT_ARGB2101010 COLOR_8BIT COLOR_8BIT COLOR_8BIT COLOR_8BIT C1_B_Cb C0_G_Y C2_R_Cr C3_ALPHA 4 True 4 SDE_FORMAT_FLAG_DX SDE_FETCH_LINEAR 1,
     INTERLEAVED_RGB_FMT DRM_FORMAT_XRGB2101010 COLOR_8BIT COLOR_8BIT COLOR_8BIT COLOR_8BIT C1_B_Cb C0_G_Y C2_R_Cr C3_ALPHA 4 False 4 SDE_FORMAT_FLAG_DX SDE_FETCH_LINEAR 1,
     INTERLEAVED_RGB_FMT DRM_FORMAT_BGRX1010102 COLOR_8BIT COLOR_8BIT COLOR_8BIT COLOR_8BIT C3_ALPHA C2_R_Cr C0_G_Y C1_B_Cb 4 False 4 SDE_FORMAT_FLAG_DX SDE_FETCH_LINEAR 1,
     INTERLEAVED_RGB_FMT DRM_FORMAT_XBGR2101010 COLOR_8BIT COLOR_8BIT COLOR_8BIT COLOR_8BIT C2_R_Cr C0_G_Y C1_B_Cb C3_ALPHA 4 False 4 SDE_FORMAT_FLAG_DX SDE_FETCH_LINEAR 1,
     INTERLEAVED_RGB_FMT DRM_FORMAT_RGBX1010102 COLOR_8BIT COLOR_8BIT COLOR_8BIT COLOR_8BIT C3_ALPHA C1_B_Cb C0_G_Y C2_R_Cr 4 False 4 SDE_FORMAT_FLAG_DX SDE_FETCH_LINEAR 1,
     PSEUDO_YUV_FMT DRM_FORMAT_NV12 0 COLOR_8BIT COLOR_8BIT COLOR_8BIT C1_B_Cb C2_R_Cr SDE_CHROMA_420 SDE_FORMAT_FLAG_YUV SDE_FETCH_LINEAR 2,
     PSEUDO_YUV_FMT DRM_FORMAT_NV21 0 COLOR_8BIT COLOR_8BIT COLOR_8BIT C2_R_Cr C1_B_Cb SDE_CHROMA_420 SDE_FORMAT_FLAG_YUV SDE_FETCH_LINEAR 2,
     PSEUDO_YUV_FMT DRM_FORMAT_NV16 0 COLOR_8BIT COLOR_8BIT COLOR_8BIT C1_B_Cb C2_R_Cr SDE_CHROMA_H2V1 SDE_FORMAT_FLAG_YUV SDE_FETCH_LINEAR 2,
     PSEUDO_YUV_FMT DRM_FORMAT_NV61 0 COLOR_8BIT COLOR_8BIT COLOR_8BIT C2_R_Cr C1_B_Cb SDE_CHROMA_H2V1 SDE_FORMAT_FLAG_YUV SDE_FETCH_LINEAR 2,
     INTERLEAVED_YUV_FMT DRM_FORMAT_VYUY 0 COLOR_8BIT COLOR_8BIT COLOR_8BIT C2_R_Cr C0_G_Y C1_B_Cb C0_G_Y False SDE_CHROMA_H2V1 4 2 SDE_FORMAT_FLAG_YUV SDE_FETCH_LINEAR 2,
     INTERLEAVED_YUV_FMT DRM_FORMAT_UYVY 0 COLOR_8BIT COLOR_8BIT COLOR_8BIT C1_B_Cb C0_G_Y C2_R_Cr C0_G_Y False SDE_CHROMA_H2V1 4 2 SDE_FORMAT_FLAG_YUV SDE_FETCH_LINEAR 2,
     INTERLEAVED_YUV_FMT DRM_FORMAT_YUYV 0 COLOR_8BIT COLOR_8BIT COLOR_8BIT C0_G_Y C1_B_Cb C0_G_Y C2_R_Cr False SDE_CHROMA_H2V1 4 2 SDE_FORMAT_FLAG_YUV SDE_FETCH_LINEAR 2,
     INTERLEAVED_YUV_FMT DRM_FORMAT_YVYU 0 COLOR_8BIT COLOR_8BIT COLOR_8BIT C0_G_Y C2_R_Cr C0_G_Y C1_B_Cb False SDE_CHROMA_H2V1 4 2 SDE_FORMAT_FLAG_YUV SDE_FETCH_LINEAR 2,
     PLANAR_YUV_FMT DRM_FORMAT_YUV420 0 COLOR_8BIT COLOR_8BIT COLOR_8BIT C2_R_Cr C1_B_Cb C0_G_Y False SDE_CHROMA_420 1 SDE_FORMAT_FLAG_YUV SDE_FETCH_LINEAR 3,
     PLANAR_YUV_FMT DRM_FORMAT_YVU420 0 COLOR_8BIT COLOR_8BIT COLOR_8BIT C1_B_Cb C2_R_Cr C0_G_Y False SDE_CHROMA_420 1 SDE_FORMAT_FLAG_YUV SDE_FETCH_LINEAR 3]"

text \<open>Tiled formats.\<close>

definition sde_format_map_tile :: "sde_format list" where
  "sde_format_map_tile = [
     INTERLEAVED_RGB_FMT_TILED DRM_FORMAT_BGR565 0 COLOR_5BIT COLOR_6BIT COLOR_5BIT C2_R_Cr C0_G_Y C1_B_Cb 0 3 False 2 0 SDE_FETCH_UBWC 1 SDE_TILE_HEIGHT_TILED,
     INTERLEAVED_RGB_FMT_TILED DRM_FORMAT_ARGB8888 COLOR_8BIT COLOR_8BIT COLOR_8BIT COLOR_8BIT C3_ALPHA C2_R_Cr C0_G_Y C1_B_Cb 4 True 4 0 SDE_FETCH_UBWC 1 SDE_TILE_HEIGHT_TILED,
     INTERLEAVED_RGB_FMT_TILED DRM_FORMAT_ABGR8888 COLOR_8BIT COLOR_8BIT COLOR_8BIT COLOR_8BIT C3_ALPHA C1_B_Cb C0_G_Y C2_R_Cr 4 True 4 0 SDE_FETCH_UBWC 1 SDE_TILE_HEIGHT_TILED,
     INTERLEAVED_RGB_FMT_TILED DRM_FORMAT_XBGR8888 COLOR_8BIT COLOR_8BIT COLOR_8BIT COLOR_8BIT C2_R_Cr C0_G_Y C1_B_Cb C3_ALPHA 4 False 4 0 SDE_FETCH_UBWC 1 SDE_TILE_HEIGHT_TILED,
     INTERLEAVED_RGB_FMT_TILED DRM_FORMAT_RGBA8888 COLOR_8BIT COLOR_8BIT COLOR_8BIT COLOR_8BIT C2_R_Cr C0_G_Y C1_B_Cb C3_ALPHA 4 True 4 0 SDE_FETCH_UBWC 1 SDE_TILE_HEIGHT_TILED,
     INTERLEAVED_RGB_FMT_TILED DRM_FORMAT_BGRA8888 COLOR_8BIT COLOR_8BIT COLOR_8BIT COLOR_8BIT C1_B_Cb C0_G_Y C2_R_Cr C3_ALPHA 4 True 4 0 SDE_FETCH_UBWC 1 SDE_TILE_HEIGHT_TILED,
     INTERLEAVED_RGB_FMT_TILED DRM_FORMAT_BGRX8888 COLOR_8BIT COLOR_8BIT COLOR_8BIT COLOR_8BIT C1_B_Cb C0_G_Y C2_R_Cr C3_ALPHA 4 False 4 0 SDE_FETCH_UBWC 1 SDE_TILE_HEIGHT_TILED,
     INTERLEAVED_RGB_FMT_TILED DRM_FORMAT_XRGB8888 COLOR_8BIT COLOR_8BIT COLOR_8BIT COLOR_8BIT C3_ALPHA C2_R_Cr C0_G_Y C1_B_Cb 4 False 4 0 SDE_FETCH_UBWC 1 SDE_TILE_HEIGHT_TILED,
     INTERLEAVED_RGB_FMT_TILED DRM_FORMAT_RGBX8888 COLOR_8BIT COLOR_8BIT COLOR_8BIT COLOR_8BIT C2_R_Cr C0_G_Y C1_B_Cb C3_ALPHA 4 False 4 0 SDE_FETCH_UBWC 1 SDE_TILE_HEIGHT_TILED,
     INTERLEAVED_RGB_FMT_TILED DRM_FORMAT_ABGR2101010 COLOR_8BIT COLOR_8BIT COLOR_8BIT COLOR_8BIT C2_R_Cr C0_G_Y C1_B_Cb C3_ALPHA 4 True 4 SDE_FORMAT_FLAG_DX SDE_FETCH_UBWC 1 SDE_TILE_HEIGHT_TILED,
     INTERLEAVED_RGB_FMT_TILED DRM_FORMAT_XBGR2101010 COLOR_8BIT COLOR_8BIT COLOR_8BIT COLOR_8BIT C2_R_Cr C0_G_Y C1_B_Cb C3_ALPHA 4 True 4 SDE_FORMAT_FLAG_DX SDE_FETCH_UBWC 1 SDE_TILE_HEIGHT_TILED,
     PSEUDO_YUV_FMT_TILED DRM_FORMAT_NV12 0 COLOR_8BIT COLOR_8BIT COLOR_8BIT C1_B_Cb C2_R_Cr SDE_CHROMA_420 SDE_FORMAT_FLAG_YUV SDE_FETCH_UBWC 2 SDE_TILE_HEIGHT_NV12,
     PSEUDO_YUV_FMT_TILED DRM_FORMAT_NV21 0 COLOR_8BIT COLOR_8BIT COLOR_8BIT C2_R_Cr C1_B_Cb SDE_CHROMA_420 SDE_FORMAT_FLAG_YUV SDE_FETCH_UBWC 2 SDE_TILE_HEIGHT_NV12]"

definition sde_format_map_p010_tile :: "sde_format list" where
  "sde_format_map_p010_tile = [
     PSEUDO_YUV_FMT_LOOSE_TILED DRM_FORMAT_NV12 0 COLOR_8BIT COLOR_8BIT COLOR_8BIT C1_B_Cb C2_R_Cr SDE_CHROMA_420 (SDE_FORMAT_FLAG_YUV OR SDE_FORMAT_FLAG_DX) SDE_FETCH_UBWC 2 SDE_TILE_HEIGHT_NV12]"

definition sde_format_map_tp10_tile :: "sde_format list" where
  "sde_format_map_tp10_tile = [
     PSEUDO_YUV_FMT_TILED DRM_FORMAT_NV12 0 COLOR_8BIT COLOR_8BIT COLOR_8BIT C1_B_Cb C2_R_Cr SDE_CHROMA_420 (SDE_FORMAT_FLAG_YUV OR SDE_FORMAT_FLAG_DX) SDE_FETCH_UBWC 2 SDE_TILE_HEIGHT_NV12]"

text \<open>Compressed formats.\<close>

definition sde_format_map_ubwc :: "sde_format list" where
  "sde_format_map_ubwc = [
     INTERLEAVED_RGB_FMT_TILED DRM_FORMAT_BGR565 0 COLOR_5BIT COLOR_6BIT COLOR_5BIT C2_R_Cr C0_G_Y C1_B_Cb 0 3 False 2 SDE_FORMAT_FLAG_COMPRESSED SDE_FETCH_UBWC 2 SDE_TILE_HEIGHT_UBWC,
     INTERLEAVED_RGB_FMT_TILED DRM_FORMAT_ABGR8888 COLOR_8BIT COLOR_8BIT COLOR_8BIT COLOR_8BIT C2_R_Cr C0_G_Y C1_B_Cb C3_ALPHA 4 True 4 SDE_FORMAT_FLAG_COMPRESSED SDE_FETCH_UBWC 2 SDE_TILE_HEIGHT_UBWC,
     INTERLEAVED_RGB_FMT_TILED DRM_FORMAT_XBGR8888 COLOR_8BIT COLOR_8BIT COLOR_8BIT COLOR_8BIT C2_R_Cr C0_G_Y C1_B_Cb C3_ALPHA 4 False 4 SDE_FORMAT_FLAG_COMPRESSED SDE_FETCH_UBWC 2 SDE_TILE_HEIGHT_UBWC,
     INTERLEAVED_RGB_FMT_TILED DRM_FORMAT_ABGR2101010 COLOR_8BIT COLOR_8BIT COLOR_8BIT COLOR_8BIT C2_R_Cr C0_G_Y C1_B_Cb C3_ALPHA 4 True 4 (SDE_FORMAT_FLAG_DX OR SDE_FORMAT_FLAG_COMPRESSED) SDE_FETCH_UBWC 2 SDE_TILE_HEIGHT_UBWC,
     INTERLEAVED_RGB_FMT_TILED DRM_FORMAT_XBGR2101010 COLOR_8BIT COLOR_8BIT COLOR_8BIT COLOR_8BIT C2_R_Cr C0_G_Y C1_B_Cb C3_ALPHA 4 True 4 (SDE_FORMAT_FLAG_DX OR SDE_FORMAT_FLAG_COMPRESSED) SDE_FETCH_UBWC 2 SDE_TILE_HEIGHT_UBWC,
     PSEUDO_YUV_FMT_TILED DRM_FORMAT_NV12 0 COLOR_8BIT COLOR_8BIT COLOR_8BIT C1_B_Cb C2_R_Cr SDE_CHROMA_420 (SDE_FORMAT_FLAG_YUV OR SDE_FORMAT_FLAG_COMPRESSED) SDE_FETCH_UBWC 4 SDE_TILE_HEIGHT_NV12]"

definition sde_format_map_p010 :: "sde_format list" where
  "sde_format_map_p010 = [
     PSEUDO_YUV_FMT_LOOSE DRM_FORMAT_NV12 0 COLOR_8BIT COLOR_8BIT COLOR_8BIT C1_B_Cb C2_R_Cr SDE_CHROMA_420 (SDE_FORMAT_FLAG_YUV OR SDE_FORMAT_FLAG_DX) SDE_FETCH_LINEAR 2]"

definition sde_format_map_p010_ubwc :: "sde_format list" where
  "sde_format_map_p010_ubwc = [
     PSEUDO_YUV_FMT_LOOSE_TILED DRM_FORMAT_NV12 0 COLOR_8BIT COLOR_8BIT COLOR_8BIT C1_B_Cb C2_R_Cr SDE_CHROMA_420 (SDE_FORMAT_FLAG_YUV OR SDE_FORMAT_FLAG_DX OR SDE_FORMAT_FLAG_COMPRESSED) SDE_FETCH_UBWC 4 SDE_TILE_HEIGHT_NV12]"

definition sde_format_map_tp10_ubwc :: "sde_format list" where
  "sde_format_map_tp10_ubwc = [
     PSEUDO_YUV_FMT_TILED DRM_FORMAT_NV12 0 COLOR_8BIT COLOR_8BIT COLOR_8BIT C1_B_Cb C2_R_Cr SDE_CHROMA_420 (SDE_FORMAT_FLAG_YUV OR SDE_FORMAT_FLAG_DX OR SDE_FORMAT_FLAG_COMPRESSED) SDE_FETCH_UBWC 4 SDE_TILE_HEIGHT_NV12]"


subsection \<open>Lookup\<close>

text \<open>
  The modifiers of the vendor are sets of flags: compressed, ten bits, tightly packed and tiled. A modifier that
  is none of these is \<open>MOD_other\<close>.
\<close>

datatype drm_modifier = MOD_none | MOD_qcom bool bool bool bool | MOD_other u64

definition modifier_map :: "drm_modifier \<Rightarrow> sde_format list option" where
  "modifier_map m =
     (case m of
        MOD_none \<Rightarrow> Some sde_format_map
      | MOD_qcom compressed dx tight tile \<Rightarrow>
          (if compressed \<and> \<not> dx \<and> \<not> tight then Some sde_format_map_ubwc
           else if \<not> compressed \<and> dx \<and> \<not> tight \<and> \<not> tile then Some sde_format_map_p010
           else if compressed \<and> dx \<and> \<not> tight then Some sde_format_map_p010_ubwc
           else if compressed \<and> dx \<and> tight then Some sde_format_map_tp10_ubwc
           else if \<not> compressed \<and> \<not> dx \<and> \<not> tight \<and> tile then Some sde_format_map_tile
           else if \<not> compressed \<and> dx \<and> \<not> tight \<and> tile then Some sde_format_map_p010_tile
           else if \<not> compressed \<and> dx \<and> tight \<and> tile then Some sde_format_map_tp10_tile
           else None)
      | MOD_other _ \<Rightarrow> None)"

definition sde_get_sde_format_ext :: "drm_format \<Rightarrow> drm_modifier \<Rightarrow> sde_format option" where
  "sde_get_sde_format_ext format m = do { tbl \<leftarrow> modifier_map m; List.find (\<lambda>f. format = pixel_format f) tbl }"

text \<open>The base of a format stands for the format.\<close>

definition sde_get_msm_format :: "drm_format \<Rightarrow> drm_modifier \<Rightarrow> sde_format option" where
  "sde_get_msm_format format m = (case sde_get_sde_format_ext format m of Some f \<Rightarrow> Some f | None \<Rightarrow> None)"

definition sde_format_is_tp10_ubwc :: "sde_format \<Rightarrow> bool" where
  "sde_format_is_tp10_ubwc f \<longleftrightarrow> SDE_FORMAT_IS_YUV f \<and> SDE_FORMAT_IS_DX f \<and> SDE_FORMAT_IS_UBWC f \<and> fmt_planes f = 4 \<and> unpack_tight f \<noteq> 0"

text \<open>
  A list of formats with modifiers, which the source ends with a zero format. The result is the number of
  entries written and the entries: all of them with their modifiers if there is an array for those, and
  otherwise each format where it differs from the one before.
\<close>

fun populate_loop :: "(drm_format \<times> drm_modifier) list \<Rightarrow> bool \<Rightarrow> nat \<Rightarrow> drm_format option \<Rightarrow> nat \<Rightarrow> (drm_format \<times> drm_modifier option) list" where
  "populate_loop [] modifiers limit prev i = []"
| "populate_loop ((f, m) # fs) modifiers limit prev i =
     (if i \<ge> limit then []
      else if modifiers then (f, Some m) # populate_loop fs modifiers limit prev (i + 1)
      else if prev \<noteq> Some f then (f, None) # populate_loop fs modifiers limit (Some f) (i + 1)
      else populate_loop fs modifiers limit prev i)"

definition sde_populate_formats :: "(drm_format \<times> drm_modifier) list \<Rightarrow> bool \<Rightarrow> nat \<Rightarrow> (drm_format \<times> drm_modifier option) list" where
  "sde_populate_formats fs modifiers limit = populate_loop fs modifiers limit None 0"

fun validate_loop :: "sde_format \<Rightarrow> (drm_format \<times> drm_modifier) list \<Rightarrow> bool" where
  "validate_loop f [] = False"
| "validate_loop f ((g, m) # fs) =
     (case sde_get_sde_format_ext g m of
        Some t \<Rightarrow> if pixel_format t = pixel_format f \<and> fetch_mode t = fetch_mode f then True else validate_loop f fs
      | None \<Rightarrow> validate_loop f fs)"

definition sde_format_validate_fmt :: "sde_format \<Rightarrow> (drm_format \<times> drm_modifier) list \<Rightarrow> int" where
  "sde_format_validate_fmt f fs = (if validate_loop f fs then 0 else - EINVAL)"

end
