(* ===== verification/Sde_Format.thy ===== *)
theory Sde_Format
  imports Sde_Format_Map
begin

section \<open>Pixel formats: layouts\<close>

text \<open>
  The rest of \<^verbatim>\<open>msm/sde/sde_formats.c\<close>: where the planes of an image are in memory, for the whole image and
  for a part of it, and whether the buffers of a frame buffer are large enough. The strides and line counts of
  tiled and compressed images come from a header of the media driver that is not part of the repository: they
  are arguments, and so are the addresses of buffers.
\<close>

definition SDE_MAX_IMG_WIDTH :: u32 where "SDE_MAX_IMG_WIDTH = 0x3FFF"
definition SDE_MAX_IMG_HEIGHT :: u32 where "SDE_MAX_IMG_HEIGHT = 0x3FFF"
definition SDE_UBWC_PLANE_SIZE_ALIGNMENT :: u32 where "SDE_UBWC_PLANE_SIZE_ALIGNMENT = 4096"
definition SDE_MAX_PLANES :: nat where "SDE_MAX_PLANES = 6"

datatype color_fmts =
    COLOR_FMT_NV12_UBWC
  | COLOR_FMT_NV12_BPP10_UBWC
  | COLOR_FMT_P010_UBWC
  | COLOR_FMT_RGBA8888_UBWC
  | COLOR_FMT_RGBA1010102_UBWC
  | COLOR_FMT_RGB565_UBWC

text \<open>Macros of the media header, the planes of a DRM format, and the addresses of buffers for devices.\<close>

record format_env =
  VENUS_Y_STRIDE :: "color_fmts \<Rightarrow> u32 \<Rightarrow> u32"
  VENUS_Y_SCANLINES :: "color_fmts \<Rightarrow> u32 \<Rightarrow> u32"
  VENUS_UV_STRIDE :: "color_fmts \<Rightarrow> u32 \<Rightarrow> u32"
  VENUS_UV_SCANLINES :: "color_fmts \<Rightarrow> u32 \<Rightarrow> u32"
  VENUS_Y_META_STRIDE :: "color_fmts \<Rightarrow> u32 \<Rightarrow> u32"
  VENUS_Y_META_SCANLINES :: "color_fmts \<Rightarrow> u32 \<Rightarrow> u32"
  VENUS_UV_META_STRIDE :: "color_fmts \<Rightarrow> u32 \<Rightarrow> u32"
  VENUS_UV_META_SCANLINES :: "color_fmts \<Rightarrow> u32 \<Rightarrow> u32"
  VENUS_RGB_STRIDE :: "color_fmts \<Rightarrow> u32 \<Rightarrow> u32"
  VENUS_RGB_SCANLINES :: "color_fmts \<Rightarrow> u32 \<Rightarrow> u32"
  VENUS_RGB_META_STRIDE :: "color_fmts \<Rightarrow> u32 \<Rightarrow> u32"
  VENUS_RGB_META_SCANLINES :: "color_fmts \<Rightarrow> u32 \<Rightarrow> u32"
  MSM_MEDIA_ALIGN :: "u32 \<Rightarrow> u32 \<Rightarrow> u32"
  drm_format_num_planes :: "drm_format \<Rightarrow> nat"
  msm_gem_iova :: "nat \<Rightarrow> nat \<Rightarrow> u64"
  msm_gem_get_dma_addr :: "nat \<Rightarrow> u64"

text \<open>The arrays of a layout have \<open>SDE_MAX_PLANES\<close> elements.\<close>

record sde_hw_fmt_layout =
  ly_format :: sde_format
  num_planes :: u32
  ly_width :: u32
  ly_height :: u32
  total_size :: u32
  plane_addr :: "u32 list"
  plane_size :: "u32 list"
  plane_pitch :: "u32 list"

definition layout_init :: "sde_format \<Rightarrow> u32 \<Rightarrow> u32 \<Rightarrow> sde_hw_fmt_layout" where
  "layout_init fmt w h =
     \<lparr>ly_format = fmt, num_planes = ucast (fmt_planes fmt), ly_width = w, ly_height = h, total_size = 0,
      plane_addr = replicate SDE_MAX_PLANES 0, plane_size = replicate SDE_MAX_PLANES 0, plane_pitch = replicate SDE_MAX_PLANES 0\<rparr>"

definition set_plane :: "nat \<Rightarrow> u32 \<Rightarrow> u32 \<Rightarrow> sde_hw_fmt_layout \<Rightarrow> sde_hw_fmt_layout" where
  "set_plane i pitch len L = L\<lparr>plane_pitch := (plane_pitch L)[i := pitch], plane_size := (plane_size L)[i := len]\<rparr>"

definition sum_sizes :: "sde_hw_fmt_layout \<Rightarrow> sde_hw_fmt_layout" where
  "sum_sizes L = L\<lparr>total_size := fold (\<lambda>s t. t + s) (plane_size L) (total_size L)\<rparr>"

subsection \<open>Sizes\<close>

definition get_v_h_subsample_rate :: "sde_chroma_samp_type \<Rightarrow> u32 \<times> u32" where
  "get_v_h_subsample_rate c =
     (case c of SDE_CHROMA_H2V1 \<Rightarrow> (1, 2) | SDE_CHROMA_H1V2 \<Rightarrow> (2, 1) | SDE_CHROMA_420 \<Rightarrow> (2, 2) | _ \<Rightarrow> (1, 1))"

definition sde_media_ubwc_map :: "(drm_format \<times> color_fmts) list" where
  "sde_media_ubwc_map =
     [(DRM_FORMAT_ABGR8888, COLOR_FMT_RGBA8888_UBWC), (DRM_FORMAT_XBGR8888, COLOR_FMT_RGBA8888_UBWC),
      (DRM_FORMAT_ABGR2101010, COLOR_FMT_RGBA1010102_UBWC), (DRM_FORMAT_XBGR2101010, COLOR_FMT_RGBA1010102_UBWC),
      (DRM_FORMAT_BGR565, COLOR_FMT_RGB565_UBWC)]"

definition format_get_media_color_ubwc :: "sde_format \<Rightarrow> color_fmts option" where
  "format_get_media_color_ubwc fmt =
     (if pixel_format fmt = DRM_FORMAT_NV12
      then Some (if SDE_FORMAT_IS_DX fmt
                 then (if unpack_tight fmt \<noteq> 0 then COLOR_FMT_NV12_BPP10_UBWC else COLOR_FMT_P010_UBWC)
                 else COLOR_FMT_NV12_UBWC)
      else map_of sde_media_ubwc_map (pixel_format fmt))"

definition media_plane :: "format_env \<Rightarrow> nat \<Rightarrow> u32 \<Rightarrow> u32 \<Rightarrow> sde_hw_fmt_layout \<Rightarrow> sde_hw_fmt_layout" where
  "media_plane env i pitch lines L = set_plane i pitch (MSM_MEDIA_ALIGN env (pitch * lines) SDE_UBWC_PLANE_SIZE_ALIGNMENT) L"

definition format_get_plane_sizes_ubwc :: "format_env \<Rightarrow> sde_format \<Rightarrow> u32 \<Rightarrow> u32 \<Rightarrow> int \<times> sde_hw_fmt_layout" where
  "format_get_plane_sizes_ubwc env fmt w h =
     (let L = layout_init fmt w h; meta = SDE_FORMAT_IS_UBWC fmt in
      case format_get_media_color_ubwc fmt of
        None \<Rightarrow> (- EINVAL, L)
      | Some c \<Rightarrow>
          (0, sum_sizes
            (if SDE_FORMAT_IS_YUV fmt then
               let L = L\<lparr>num_planes := 2\<rparr>;
                   L = media_plane env 0 (VENUS_Y_STRIDE env c w) (VENUS_Y_SCANLINES env c h) L;
                   L = media_plane env 1 (VENUS_UV_STRIDE env c w) (VENUS_UV_SCANLINES env c h) L in
               if \<not> meta then L
               else let L = L\<lparr>num_planes := num_planes L + 2\<rparr>;
                        L = media_plane env 2 (VENUS_Y_META_STRIDE env c w) (VENUS_Y_META_SCANLINES env c h) L in
                    media_plane env 3 (VENUS_UV_META_STRIDE env c w) (VENUS_UV_META_SCANLINES env c h) L
             else
               let L = L\<lparr>num_planes := 1\<rparr>;
                   L = media_plane env 0 (VENUS_RGB_STRIDE env c w) (VENUS_RGB_SCANLINES env c h) L in
               if \<not> meta then L
               else let L = L\<lparr>num_planes := num_planes L + 2\<rparr> in
                    media_plane env 2 (VENUS_RGB_META_STRIDE env c w) (VENUS_RGB_META_SCANLINES env c h) L)))"

text \<open>The pitches that user space asks for, if they are larger; only planes of the image are looked at.\<close>

definition user_pitches :: "u32 list option \<Rightarrow> sde_hw_fmt_layout \<Rightarrow> sde_hw_fmt_layout" where
  "user_pitches pitches L =
     (case pitches of
        None \<Rightarrow> L
      | Some ps \<Rightarrow> L\<lparr>plane_pitch :=
          map (\<lambda>i. if i < unat (num_planes L) \<and> plane_pitch L ! i < ps ! i then ps ! i else plane_pitch L ! i) [0..<SDE_MAX_PLANES]\<rparr>)"

definition format_get_plane_sizes_linear :: "sde_format \<Rightarrow> u32 \<Rightarrow> u32 \<Rightarrow> u32 list option \<Rightarrow> int \<times> sde_hw_fmt_layout" where
  "format_get_plane_sizes_linear fmt w h pitches =
     (let L = layout_init fmt w h in
      if fetch_planes fmt = SDE_PLANE_INTERLEAVED
      then (0, sum_sizes (user_pitches pitches (set_plane 0 (w * ucast (bpp fmt)) (w * h * ucast (bpp fmt)) (L\<lparr>num_planes := 1\<rparr>))))
      else
        let (v_subsample, h_subsample) = get_v_h_subsample_rate (chroma_sample fmt) in
        if w mod h_subsample \<noteq> 0 \<or> h mod v_subsample \<noteq> 0 then (- EINVAL, L)
        else
          let bpp = (if pixel_format fmt = DRM_FORMAT_NV12 \<and> SDE_FORMAT_IS_DX fmt then 2 else 1);
              pitch0 = w * bpp;
              pitch1 = pitch0 div h_subsample;
              size1 = pitch1 * (h div v_subsample);
              L = set_plane 0 pitch0 (pitch0 * h) L;
              L = (if fetch_planes fmt = SDE_PLANE_PSEUDO_PLANAR
                   then set_plane 1 (pitch1 * 2) (size1 * 2) (L\<lparr>num_planes := 2\<rparr>)
                   else set_plane 2 pitch1 size1 (set_plane 1 pitch1 size1 (L\<lparr>num_planes := 3\<rparr>))) in
          (0, sum_sizes (user_pitches pitches L)))"

definition sde_format_get_plane_sizes ::
    "format_env \<Rightarrow> sde_format \<Rightarrow> u32 \<Rightarrow> u32 \<Rightarrow> u32 list option \<Rightarrow> sde_hw_fmt_layout \<Rightarrow> int \<times> sde_hw_fmt_layout" where
  "sde_format_get_plane_sizes env fmt w h pitches L =
     (if w > SDE_MAX_IMG_WIDTH \<or> h > SDE_MAX_IMG_HEIGHT then (- ERANGE, L)
      else if SDE_FORMAT_IS_UBWC fmt \<or> SDE_FORMAT_IS_TILE fmt then format_get_plane_sizes_ubwc env fmt w h
      else format_get_plane_sizes_linear fmt w h pitches)"

definition sde_format_get_block_size :: "sde_format \<Rightarrow> u32 \<times> u32" where
  "sde_format_get_block_size fmt =
     (if SDE_FORMAT_IS_YUV fmt \<and> SDE_FORMAT_IS_DX fmt \<and> fmt_planes fmt = 2 \<and> unpack_tight fmt \<noteq> 0 then (96, 96) else (128, 128))"

definition sde_format_get_framebuffer_size ::
    "format_env \<Rightarrow> drm_format \<Rightarrow> u32 \<Rightarrow> u32 \<Rightarrow> u32 list option \<Rightarrow> drm_modifier \<Rightarrow> sde_hw_fmt_layout \<Rightarrow> u32" where
  "sde_format_get_framebuffer_size env format w h pitches m L =
     (case sde_get_sde_format_ext format m of
        None \<Rightarrow> 0
      | Some fmt \<Rightarrow>
          if pitches = None then word_of_int (- EINVAL)
          else case sde_format_get_plane_sizes env fmt w h pitches L of (ret, L) \<Rightarrow> if ret \<noteq> 0 then 0 else total_size L)"

subsection \<open>Addresses\<close>

text \<open>
  A frame buffer of \<^verbatim>\<open>msm/msm_fb.c\<close>: buffers of its planes are numbers, the arrays have four elements, and the
  addresses are truncated to 32 bits.
\<close>

record msm_framebuffer =
  fb_width :: u32
  fb_height :: u32
  fb_pitches :: "u32 list"
  fb_offsets :: "u32 list"
  fb_format :: sde_format
  fb_bos :: "nat option list"

definition msm_framebuffer_iova :: "format_env \<Rightarrow> msm_framebuffer \<Rightarrow> nat \<Rightarrow> nat \<Rightarrow> u32" where
  "msm_framebuffer_iova env fb aspace i =
     (case fb_bos fb ! i of None \<Rightarrow> 0 | Some bo \<Rightarrow> ucast (msm_gem_iova env bo aspace + ucast (fb_offsets fb ! i)))"

definition msm_framebuffer_phys :: "format_env \<Rightarrow> msm_framebuffer \<Rightarrow> nat \<Rightarrow> u32" where
  "msm_framebuffer_phys env fb i =
     (case fb_bos fb ! i of
        None \<Rightarrow> 0
      | Some bo \<Rightarrow> if msm_gem_get_dma_addr env bo = 0 then 0 else ucast (msm_gem_get_dma_addr env bo + ucast (fb_offsets fb ! i)))"

definition fb_addr :: "format_env \<Rightarrow> nat option \<Rightarrow> msm_framebuffer \<Rightarrow> nat \<Rightarrow> u32" where
  "fb_addr env aspace fb i = (case aspace of Some a \<Rightarrow> msm_framebuffer_iova env fb a i | None \<Rightarrow> msm_framebuffer_phys env fb i)"

definition format_populate_addrs_ubwc :: "format_env \<Rightarrow> nat option \<Rightarrow> msm_framebuffer \<Rightarrow> sde_hw_fmt_layout \<Rightarrow> int \<times> sde_hw_fmt_layout" where
  "format_populate_addrs_ubwc env aspace fb L =
     (let base_addr = fb_addr env aspace fb 0; meta = SDE_FORMAT_IS_UBWC (ly_format L); sz = (!) (plane_size L); addr = plane_addr L in
      if base_addr = 0 then (- EFAULT, L)
      else if SDE_FORMAT_IS_YUV (ly_format L)
      then let addr = addr[0 := base_addr + sz 2, 1 := base_addr + sz 0 + sz 2 + sz 3] in
           if \<not> meta then (0, L\<lparr>plane_addr := addr\<rparr>)
           else (0, L\<lparr>plane_addr := addr[2 := base_addr, 3 := base_addr + sz 0 + sz 2]\<rparr>)
      else let addr = addr[0 := base_addr + sz 2, 1 := 0] in
           if \<not> meta then (0, L\<lparr>plane_addr := addr\<rparr>)
           else (0, L\<lparr>plane_addr := addr[2 := base_addr, 3 := 0]\<rparr>))"

fun addr_loop :: "format_env \<Rightarrow> nat option \<Rightarrow> msm_framebuffer \<Rightarrow> nat list \<Rightarrow> sde_hw_fmt_layout \<Rightarrow> int \<times> sde_hw_fmt_layout" where
  "addr_loop env aspace fb [] L = (0, L)"
| "addr_loop env aspace fb (i # is) L =
     (let a = fb_addr env aspace fb i; L = L\<lparr>plane_addr := (plane_addr L)[i := a]\<rparr> in
      if a = 0 then (- EFAULT, L) else addr_loop env aspace fb is L)"

definition format_populate_addrs_linear :: "format_env \<Rightarrow> nat option \<Rightarrow> msm_framebuffer \<Rightarrow> sde_hw_fmt_layout \<Rightarrow> int \<times> sde_hw_fmt_layout" where
  "format_populate_addrs_linear env aspace fb L =
     (let planes = [0..<unat (num_planes L)] in
      if \<exists>i \<in> set planes. plane_pitch L ! i > fb_pitches fb ! i then (- EINVAL, L)
      else addr_loop env aspace fb planes L)"

text \<open>
  The addresses before the frame buffer's are read after the sizes were computed, which sets them to zero.
\<close>

definition sde_format_populate_layout :: "format_env \<Rightarrow> nat option \<Rightarrow> msm_framebuffer \<Rightarrow> sde_hw_fmt_layout \<Rightarrow> int \<times> sde_hw_fmt_layout" where
  "sde_format_populate_layout env aspace fb L =
     (if fb_width fb > SDE_MAX_IMG_WIDTH \<or> fb_height fb > SDE_MAX_IMG_HEIGHT then (- ERANGE, L)
      else
        let L = L\<lparr>ly_format := fb_format fb\<rparr>;
            (ret, L) = sde_format_get_plane_sizes env (ly_format L) (fb_width fb) (fb_height fb) (Some (fb_pitches fb)) L in
        if ret \<noteq> 0 then (ret, L)
        else
          let addr = plane_addr L;
              (ret, L) = (if SDE_FORMAT_IS_UBWC (ly_format L) \<or> SDE_FORMAT_IS_TILE (ly_format L)
                          then format_populate_addrs_ubwc env aspace fb L
                          else format_populate_addrs_linear env aspace fb L) in
          (if ret = 0 \<and> addr = plane_addr L then - EAGAIN else ret, L))"

subsection \<open>A part of the image\<close>

record sde_rect =
  rc_x :: u16
  rc_y :: u16
  rc_w :: u16
  rc_h :: u16

definition add_addr :: "nat \<Rightarrow> u32 \<Rightarrow> sde_hw_fmt_layout \<Rightarrow> sde_hw_fmt_layout" where
  "add_addr i d L = L\<lparr>plane_addr := (plane_addr L)[i := plane_addr L ! i + d]\<rparr>"

definition format_calc_offset_linear :: "sde_hw_fmt_layout \<Rightarrow> u32 \<Rightarrow> u32 \<Rightarrow> sde_hw_fmt_layout" where
  "format_calc_offset_linear L x y =
     (if x = 0 \<and> y = 0 then L
      else
        let L = add_addr 0 (y * plane_pitch L ! 0) L in
        if num_planes L = 1 then add_addr 0 (x * ucast (bpp (ly_format L))) L
        else
          let (v_subsample, h_subsample) = get_v_h_subsample_rate (chroma_sample (ly_format L));
              xoff = x div h_subsample;
              yoff = y div v_subsample;
              L = add_addr 1 (xoff + yoff * plane_pitch L ! 1) (add_addr 0 x L) in
          if num_planes L = 2 then add_addr 1 xoff L else add_addr 2 (xoff + yoff * plane_pitch L ! 2) L)"

definition sde_format_populate_layout_with_roi ::
    "format_env \<Rightarrow> nat option \<Rightarrow> msm_framebuffer \<Rightarrow> sde_rect option \<Rightarrow> sde_hw_fmt_layout \<Rightarrow> int \<times> sde_hw_fmt_layout" where
  "sde_format_populate_layout_with_roi env aspace fb roi L =
     (case sde_format_populate_layout env aspace fb L of (ret, L) \<Rightarrow>
        if ret \<noteq> 0 then (ret, L)
        else case roi of
          None \<Rightarrow> (ret, L)
        | Some r \<Rightarrow>
            let x = ucast (rc_x r); y = ucast (rc_y r); w = ucast (rc_w r); h = ucast (rc_h r) in
            if w = 0 \<or> h = 0 \<or> x + w > fb_width fb \<or> y + h > fb_height fb then (- EINVAL, L)
            else if SDE_FORMAT_IS_LINEAR (ly_format L)
            then (ret, (format_calc_offset_linear L x y)\<lparr>ly_width := w, ly_height := h\<rparr>)
            else if x \<noteq> 0 \<or> y \<noteq> 0 \<or> w \<noteq> fb_width fb \<or> h \<noteq> fb_height fb then (- EINVAL, L)
            else (ret, L))"

subsection \<open>The check of a new frame buffer\<close>

text \<open>A buffer of a plane: its number and its size. The sum has 32 bits.\<close>

fun bos_total :: "(nat \<times> u64) option list \<Rightarrow> nat list \<Rightarrow> u32 \<Rightarrow> u32 option" where
  "bos_total bos [] acc = Some acc"
| "bos_total bos (i # is) acc =
     (case bos ! i of
        None \<Rightarrow> None
      | Some (bo, len) \<Rightarrow> bos_total bos is (if i = 0 \<or> map_option fst (bos ! i) \<noteq> map_option fst (bos ! 0) then acc + ucast len else acc))"

definition sde_format_check_modified_format ::
    "format_env \<Rightarrow> sde_format \<Rightarrow> u32 \<Rightarrow> u32 \<Rightarrow> u32 list \<Rightarrow> (nat \<times> u64) option list \<Rightarrow> sde_hw_fmt_layout \<Rightarrow> int" where
  "sde_format_check_modified_format env fmt w h pitches bos L =
     (case sde_format_get_plane_sizes env fmt w h (Some pitches) L of (ret, L) \<Rightarrow>
        if ret \<noteq> 0 then ret
        else case bos_total bos [0..<drm_format_num_planes env (pixel_format fmt)] 0 of
          None \<Rightarrow> - EINVAL
        | Some acc \<Rightarrow> if acc < total_size L then - EINVAL else 0)"

end
