(* ===== verification/Sde_Format_Inv.thy ===== *)
theory Sde_Format_Inv
  imports Sde_Format
begin

section \<open>Pixel formats: what the layouts are to be\<close>

text \<open>
  Planes, lines and bytes of a line of a linear image in natural numbers, and what the tables say of the
  formats that can be found in them.
\<close>

subsection \<open>The tables\<close>

definition linear_ok :: "sde_format \<Rightarrow> bool" where
  "linear_ok f \<longleftrightarrow>
     (fetch_planes f = SDE_PLANE_INTERLEAVED \<longrightarrow> bpp f \<in> {2, 3, 4}) \<and>
     (fetch_planes f = SDE_PLANE_PSEUDO_PLANAR \<longrightarrow> chroma_sample f \<in> {SDE_CHROMA_H2V1, SDE_CHROMA_420}) \<and>
     (fetch_planes f = SDE_PLANE_PLANAR \<longrightarrow> chroma_sample f = SDE_CHROMA_420 \<and> pixel_format f \<noteq> DRM_FORMAT_NV12)"

lemma linear_tables: "list_all (\<lambda>f. SDE_FORMAT_IS_LINEAR f \<and> linear_ok f) (sde_format_map @ sde_format_map_p010)"
  by code_simp

lemma other_tables:
  "list_all (\<lambda>f. fetch_mode f = SDE_FETCH_UBWC)
     (sde_format_map_tile @ sde_format_map_p010_tile @ sde_format_map_tp10_tile @ sde_format_map_ubwc @ sde_format_map_p010_ubwc @ sde_format_map_tp10_ubwc)"
  by code_simp

lemma lookup_cases:
  assumes "sde_get_sde_format_ext format m = Some f"
  shows "pixel_format f = format \<and>
    (f \<in> set (sde_format_map @ sde_format_map_p010) \<or>
     f \<in> set (sde_format_map_tile @ sde_format_map_p010_tile @ sde_format_map_tp10_tile @ sde_format_map_ubwc @ sde_format_map_p010_ubwc @ sde_format_map_tp10_ubwc))"
proof -
  obtain tbl where t: "modifier_map m = Some tbl" "List.find (\<lambda>f. format = pixel_format f) tbl = Some f"
    using assms by (auto simp: sde_get_sde_format_ext_def split: bind_splits)
  have "f \<in> set tbl" "pixel_format f = format" using t(2) by (auto simp: find_Some_iff)
  then show ?thesis using t(1) by (auto simp: modifier_map_def split: drm_modifier.splits if_splits)
qed

lemma lookup_linear:
  assumes "sde_get_sde_format_ext format m = Some f" "SDE_FORMAT_IS_LINEAR f"
  shows "linear_ok f"
proof -
  have "fetch_mode f \<noteq> SDE_FETCH_UBWC" using assms(2) by (simp add: SDE_FORMAT_IS_LINEAR_def)
  then have "f \<in> set (sde_format_map @ sde_format_map_p010)" using lookup_cases [OF assms(1)] other_tables by (auto simp: list_all_iff)
  then show ?thesis using linear_tables by (auto simp: list_all_iff)
qed

subsection \<open>Planes of a linear image\<close>

definition comp_bytes :: "sde_format \<Rightarrow> nat" where
  "comp_bytes f = (if pixel_format f = DRM_FORMAT_NV12 \<and> SDE_FORMAT_IS_DX f then 2 else 1)"

definition v_rate :: "sde_format \<Rightarrow> nat" where "v_rate f = unat (fst (get_v_h_subsample_rate (chroma_sample f)))"
definition h_rate :: "sde_format \<Rightarrow> nat" where "h_rate f = unat (snd (get_v_h_subsample_rate (chroma_sample f)))"

definition planes :: "sde_format \<Rightarrow> nat" where
  "planes f = (case fetch_planes f of SDE_PLANE_INTERLEAVED \<Rightarrow> 1 | SDE_PLANE_PSEUDO_PLANAR \<Rightarrow> 2 | SDE_PLANE_PLANAR \<Rightarrow> 3)"

text \<open>Bytes of one sample of a plane, samples of a line and lines.\<close>

definition sample_bytes :: "sde_format \<Rightarrow> nat \<Rightarrow> nat" where
  "sample_bytes f p =
     (if fetch_planes f = SDE_PLANE_INTERLEAVED then unat (bpp f)
      else if p = 0 \<or> fetch_planes f = SDE_PLANE_PLANAR then comp_bytes f else 2 * comp_bytes f)"

definition h_div :: "sde_format \<Rightarrow> nat \<Rightarrow> nat" where
  "h_div f p = (if p = 0 then 1 else h_rate f)"

definition v_div :: "sde_format \<Rightarrow> nat \<Rightarrow> nat" where
  "v_div f p = (if p = 0 then 1 else v_rate f)"

definition line_bytes :: "sde_format \<Rightarrow> nat \<Rightarrow> nat \<Rightarrow> nat" where
  "line_bytes f w p = w div h_div f p * sample_bytes f p"

definition plane_lines :: "sde_format \<Rightarrow> nat \<Rightarrow> nat \<Rightarrow> nat" where
  "plane_lines f h p = h div v_div f p"

definition fits_rate :: "sde_format \<Rightarrow> nat \<Rightarrow> nat \<Rightarrow> bool" where
  "fits_rate f w h \<longleftrightarrow> fetch_planes f = SDE_PLANE_INTERLEAVED \<or> (h_rate f dvd w \<and> v_rate f dvd h)"

lemma rates: "h_rate f \<in> {1, 2}" "v_rate f \<in> {1, 2}"
  by (auto simp: h_rate_def v_rate_def get_v_h_subsample_rate_def split: sde_chroma_samp_type.split)

subsection \<open>Sizes of a linear image\<close>

lemma unat_prod: "unat a * unat b < 2 ^ 32 \<Longrightarrow> unat ((a :: u32) * b) = unat a * unat b"
  using unat_mult_lem [of a b] by simp

lemma unat_sum: "unat a + unat b < 2 ^ 32 \<Longrightarrow> unat ((a :: u32) + b) = unat a + unat b"
  using unat_add_lem [of a b] by simp

lemma sum_sizes_six:
  assumes "plane_size L = [a, b, c, 0, 0, 0]" "total_size L = 0" "unat a + unat b + unat c < 2 ^ 32"
  shows "unat (total_size (sum_sizes L)) = unat a + unat b + unat c"
proof -
  have "total_size (sum_sizes L) = a + b + c" using assms(1,2) by (simp add: sum_sizes_def ac_simps)
  moreover have "unat (a + b) = unat a + unat b" using assms(3) by (intro unat_sum) simp
  ultimately show ?thesis using assms(3) unat_sum [of "a + b" c] by simp
qed

text \<open>Raising the pitches leaves the sizes.\<close>

lemma user_pitches_simps [simp]:
  "plane_size (user_pitches ps L) = plane_size L" "total_size (user_pitches ps L) = total_size L" "num_planes (user_pitches ps L) = num_planes L"
  "plane_addr (user_pitches ps L) = plane_addr L" "ly_format (user_pitches ps L) = ly_format L"
  "ly_width (user_pitches ps L) = ly_width L" "ly_height (user_pitches ps L) = ly_height L"
  by (simp_all add: user_pitches_def split: option.split)

lemma user_pitches_nth:
  assumes "p < unat (num_planes L)" "p < SDE_MAX_PLANES"
  shows "plane_pitch (user_pitches (Some ps) L) ! p = max (plane_pitch L ! p) (ps ! p)"
  using assms by (auto simp: user_pitches_def max_def)

lemma sum_sizes_simps [simp]:
  "plane_size (sum_sizes L) = plane_size L" "plane_pitch (sum_sizes L) = plane_pitch L" "num_planes (sum_sizes L) = num_planes L"
  "plane_addr (sum_sizes L) = plane_addr L" "ly_format (sum_sizes L) = ly_format L"
  "ly_width (sum_sizes L) = ly_width L" "ly_height (sum_sizes L) = ly_height L"
  by (simp_all add: sum_sizes_def)

definition exact_layout :: "sde_format \<Rightarrow> nat \<Rightarrow> nat \<Rightarrow> u32 list \<Rightarrow> sde_hw_fmt_layout \<Rightarrow> bool" where
  "exact_layout f w h ps L \<longleftrightarrow>
     ly_format L = f \<and> unat (num_planes L) = planes f \<and> plane_addr L = replicate SDE_MAX_PLANES 0 \<and>
     unat (ly_width L) = w \<and> unat (ly_height L) = h \<and>
     (\<forall>p < SDE_MAX_PLANES. unat (plane_size L ! p) = (if p < planes f then line_bytes f w p * plane_lines f h p else 0)) \<and>
     (\<forall>p < planes f. unat (plane_pitch L ! p) = max (line_bytes f w p) (unat (ps ! p))) \<and>
     unat (total_size L) = (\<Sum>p < planes f. line_bytes f w p * plane_lines f h p)"

lemma less_three: "(p :: nat) < 3 \<longleftrightarrow> p = 0 \<or> p = 1 \<or> p = 2" by auto
lemma less_six: "(p :: nat) < 6 \<longleftrightarrow> p = 0 \<or> p = 1 \<or> p = 2 \<or> p = 3 \<or> p = 4 \<or> p = 5" by auto

lemma unat_max: "unat (max a b :: u32) = max (unat a) (unat b)"
  by (simp add: max_def word_le_nat_alt)

lemma exact_interleaved:
  assumes f: "fetch_planes f = SDE_PLANE_INTERLEAVED" "bpp f \<in> {2, 3, 4}" and b: "unat w \<le> 0x3FFF" "unat h \<le> 0x3FFF"
  shows "\<exists>L. format_get_plane_sizes_linear f w h (Some ps) = (0, L) \<and> exact_layout f (unat w) (unat h) ps L"
proof -
  define c :: u32 where "c = ucast (bpp f)"
  have c: "unat c = unat (bpp f)" "unat c \<le> 4" using f(2) by (auto simp: c_def)
  have wc: "unat w * unat c \<le> 0x3FFF * 4" using b(1) c(2) by (rule mult_le_mono)
  then have u1: "unat (w * c) = unat w * unat c" by (intro unat_prod) simp
  have "unat w * unat h \<le> 0x3FFF * 0x3FFF" using b by (rule mult_le_mono)
  then have u2: "unat (w * h) = unat w * unat h" by (intro unat_prod) simp
  have "unat w * unat h * unat c \<le> 0x3FFF * 0x3FFF * 4" using b c(2) by (intro mult_le_mono)
  then have u3: "unat (w * h * c) = unat w * unat h * unat c" using u2 by (subst unat_prod) simp_all
  define L0 where "L0 = set_plane 0 (w * c) (w * h * c) ((layout_init f w h)\<lparr>num_planes := 1\<rparr>)"
  define L where "L = sum_sizes (user_pitches (Some ps) L0)"
  have sz: "plane_size L = [w * h * c, 0, 0, 0, 0, 0]" by (simp add: L_def L0_def set_plane_def layout_init_def SDE_MAX_PLANES_def numeral_eq_Suc)
  have n: "num_planes L = 1" "num_planes L0 = 1" by (simp_all add: L_def L0_def set_plane_def)
  have t: "unat (total_size L) = unat (w * h * c)"
    using sum_sizes_six [of "user_pitches (Some ps) L0" "w * h * c" 0 0] sz u3 \<open>unat w * unat h * unat c \<le> _\<close>
    by (simp add: L_def) (simp add: L0_def set_plane_def layout_init_def)
  have p: "plane_pitch L ! 0 = max (w * c) (ps ! 0)"
    using user_pitches_nth [of 0 L0 ps] n(2) by (simp add: L_def SDE_MAX_PLANES_def) (simp add: L0_def set_plane_def layout_init_def SDE_MAX_PLANES_def)
  have lb: "line_bytes f (unat w) 0 = unat w * unat c" "plane_lines f (unat h) 0 = unat h" "planes f = 1"
    using f(1) c(1) by (simp_all add: line_bytes_def plane_lines_def h_div_def v_div_def sample_bytes_def planes_def)
  have "exact_layout f (unat w) (unat h) ps L"
    unfolding exact_layout_def using sz n(1) t p lb u1 u3
    by (auto simp: SDE_MAX_PLANES_def less_six unat_max L_def L0_def set_plane_def layout_init_def ac_simps)
  moreover have "format_get_plane_sizes_linear f w h (Some ps) = (0, L)"
    using f(1) by (simp add: format_get_plane_sizes_linear_def L_def L0_def c_def Let_def)
  ultimately show ?thesis by blast
qed

text \<open>Formats with separate chroma: pitches and sizes of the planes as words.\<close>

lemma chroma_exact:
  assumes d: "h_rate f dvd unat w" "v_rate f dvd unat h" and b: "unat w \<le> 0x3FFF" "unat h \<le> 0x3FFF"
  defines "hs \<equiv> snd (get_v_h_subsample_rate (chroma_sample f))" and "vs \<equiv> fst (get_v_h_subsample_rate (chroma_sample f))"
    and "c \<equiv> (if pixel_format f = DRM_FORMAT_NV12 \<and> SDE_FORMAT_IS_DX f then 2 else 1 :: u32)"
  shows "unat (w * c) = unat w * comp_bytes f" "unat (w * c) \<le> 0x7FFE" "unat (w * c * h) = unat w * comp_bytes f * unat h"
    "unat (w * c div hs) = unat w div h_rate f * comp_bytes f" "unat (w * c div hs * 2) = unat w div h_rate f * (2 * comp_bytes f)"
    "unat (w * c div hs * (h div vs)) = unat w div h_rate f * comp_bytes f * (unat h div v_rate f)"
    "unat (w * c div hs * (h div vs) * 2) = unat w div h_rate f * (2 * comp_bytes f) * (unat h div v_rate f)"
proof -
  have c: "unat c = comp_bytes f" "comp_bytes f \<le> 2" by (simp_all add: c_def comp_bytes_def)
  have r: "unat hs = h_rate f" "unat vs = v_rate f" by (simp_all add: hs_def vs_def h_rate_def v_rate_def)
  have le1: "unat w * comp_bytes f \<le> 0x3FFF * 2" using b(1) c(2) by (rule mult_le_mono)
  then show w: "unat (w * c) = unat w * comp_bytes f" using c(1) by (subst unat_prod) simp_all
  then show "unat (w * c) \<le> 0x7FFE" using le1 by simp
  have "unat w * comp_bytes f * unat h \<le> 0x3FFF * 2 * 0x3FFF" using le1 b(2) by (rule mult_le_mono)
  then show "unat (w * c * h) = unat w * comp_bytes f * unat h" using w by (subst unat_prod) simp_all
  show p: "unat (w * c div hs) = unat w div h_rate f * comp_bytes f"
    using d(1) w r(1) by (simp add: unat_div_distrib div_mult_swap mult.commute)
  have lep: "unat w div h_rate f * comp_bytes f \<le> 0x3FFF * 2"
    using le1 mult_le_mono1 [OF div_le_dividend [of "unat w" "h_rate f"], of "comp_bytes f"] by linarith
  then show "unat (w * c div hs * 2) = unat w div h_rate f * (2 * comp_bytes f)"
    using p by (subst unat_prod) (simp_all add: mult.commute)
  have hv: "unat (h div vs) = unat h div v_rate f" using r(2) by (simp add: unat_div_distrib)
  have "unat h div v_rate f \<le> 0x3FFF" using b(2) div_le_dividend [of "unat h" "v_rate f"] by linarith
  with lep have le2: "unat w div h_rate f * comp_bytes f * (unat h div v_rate f) \<le> 0x3FFF * 2 * 0x3FFF" by (rule mult_le_mono)
  then show s: "unat (w * c div hs * (h div vs)) = unat w div h_rate f * comp_bytes f * (unat h div v_rate f)"
    using p hv by (subst unat_prod) simp_all
  have "unat (w * c div hs * (h div vs)) < 2 ^ 31" using s le2 by simp
  then have "unat (w * c div hs * (h div vs) * 2) = unat (w * c div hs * (h div vs)) * 2" by (subst unat_prod) simp_all
  then show "unat (w * c div hs * (h div vs) * 2) = unat w div h_rate f * (2 * comp_bytes f) * (unat h div v_rate f)"
    using s by simp
qed

lemma exact_pseudo:
  assumes f: "fetch_planes f = SDE_PLANE_PSEUDO_PLANAR" and d: "h_rate f dvd unat w" "v_rate f dvd unat h" and b: "unat w \<le> 0x3FFF" "unat h \<le> 0x3FFF"
  shows "\<exists>L. format_get_plane_sizes_linear f w h (Some ps) = (0, L) \<and> exact_layout f (unat w) (unat h) ps L"
proof -
  obtain vs hs where r: "get_v_h_subsample_rate (chroma_sample f) = (vs, hs)" by (cases "get_v_h_subsample_rate (chroma_sample f)")
  define c :: u32 where "c = (if pixel_format f = DRM_FORMAT_NV12 \<and> SDE_FORMAT_IS_DX f then 2 else 1)"
  note e = chroma_exact [OF d b, unfolded r fst_conv snd_conv, folded c_def]
  have dv: "w mod hs = 0" "h mod vs = 0"
    using d r by (simp_all add: h_rate_def v_rate_def unat_eq_0 [symmetric] unat_mod_distrib mod_eq_0_iff_dvd)
  define L0 where "L0 = set_plane 1 (w * c div hs * 2) (w * c div hs * (h div vs) * 2)
    ((set_plane 0 (w * c) (w * c * h) (layout_init f w h))\<lparr>num_planes := 2\<rparr>)"
  define L where "L = sum_sizes (user_pitches (Some ps) L0)"
  have sz: "plane_size L = [w * c * h, w * c div hs * (h div vs) * 2, 0, 0, 0, 0]"
    by (simp add: L_def L0_def set_plane_def layout_init_def SDE_MAX_PLANES_def numeral_eq_Suc)
  have n: "num_planes L = 2" "num_planes L0 = 2" by (simp_all add: L_def L0_def set_plane_def)
  have le: "unat (w * c * h) + unat (w * c div hs * (h div vs) * 2) < 2 ^ 32"
  proof -
    have "unat w * comp_bytes f * unat h \<le> 0x3FFF * 2 * 0x3FFF" using b by (intro mult_le_mono) (auto simp: comp_bytes_def)
    moreover have "unat w div h_rate f * (2 * comp_bytes f) * (unat h div v_rate f) \<le> 0x3FFF * (2 * 2) * 0x3FFF"
      using le_trans [OF div_le_dividend b(1)] le_trans [OF div_le_dividend b(2)] by (intro mult_le_mono) (auto simp: comp_bytes_def)
    ultimately show ?thesis using e(3,7) by (simp add: ac_simps)
  qed
  have t: "unat (total_size L) = unat (w * c * h) + unat (w * c div hs * (h div vs) * 2)"
    using sum_sizes_six [of "user_pitches (Some ps) L0" "w * c * h" "w * c div hs * (h div vs) * 2" 0] sz le
    by (simp add: L_def) (simp add: L0_def set_plane_def layout_init_def)
  have p: "plane_pitch L ! 0 = max (w * c) (ps ! 0)" "plane_pitch L ! 1 = max (w * c div hs * 2) (ps ! 1)"
    using user_pitches_nth [of 0 L0 ps] user_pitches_nth [of 1 L0 ps] n(2)
    by (simp_all add: L_def SDE_MAX_PLANES_def) (simp_all add: L0_def set_plane_def layout_init_def SDE_MAX_PLANES_def)
  have lb: "line_bytes f (unat w) 0 = unat w * comp_bytes f" "plane_lines f (unat h) 0 = unat h" "planes f = 2"
    "line_bytes f (unat w) 1 = unat w div h_rate f * (2 * comp_bytes f)" "plane_lines f (unat h) 1 = unat h div v_rate f"
    using f by (simp_all add: line_bytes_def plane_lines_def h_div_def v_div_def sample_bytes_def planes_def)
  have two: "{..<2 :: nat} = {0, 1}" by auto
  have "exact_layout f (unat w) (unat h) ps L"
    unfolding exact_layout_def using sz n(1) t p lb e
    by (auto simp: SDE_MAX_PLANES_def less_six less_2_cases_iff unat_max two L_def L0_def set_plane_def layout_init_def)
  moreover have "format_get_plane_sizes_linear f w h (Some ps) = (0, L)"
    using f r dv by (simp add: format_get_plane_sizes_linear_def L_def L0_def c_def Let_def)
  ultimately show ?thesis by blast
qed

lemma exact_planar:
  assumes f: "fetch_planes f = SDE_PLANE_PLANAR" "pixel_format f \<noteq> DRM_FORMAT_NV12" and d: "h_rate f dvd unat w" "v_rate f dvd unat h"
    and b: "unat w \<le> 0x3FFF" "unat h \<le> 0x3FFF"
  shows "\<exists>L. format_get_plane_sizes_linear f w h (Some ps) = (0, L) \<and> exact_layout f (unat w) (unat h) ps L"
proof -
  obtain vs hs where r: "get_v_h_subsample_rate (chroma_sample f) = (vs, hs)" by (cases "get_v_h_subsample_rate (chroma_sample f)")
  have cb: "comp_bytes f = 1" using f(2) by (simp add: comp_bytes_def)
  note e = chroma_exact [OF d b, unfolded r fst_conv snd_conv cb, simplified f(2) simp_thms if_False mult_1_right]
  have dv: "w mod hs = 0" "h mod vs = 0"
    using d r by (simp_all add: h_rate_def v_rate_def unat_eq_0 [symmetric] unat_mod_distrib mod_eq_0_iff_dvd)
  define s1 where "s1 = w div hs * (h div vs)"
  define L0 where "L0 = set_plane 2 (w div hs) s1 (set_plane 1 (w div hs) s1 ((set_plane 0 w (w * h) (layout_init f w h))\<lparr>num_planes := 3\<rparr>))"
  define L where "L = sum_sizes (user_pitches (Some ps) L0)"
  have sz: "plane_size L = [w * h, s1, s1, 0, 0, 0]"
    by (simp add: L_def L0_def set_plane_def layout_init_def SDE_MAX_PLANES_def numeral_eq_Suc)
  have n: "num_planes L = 3" "num_planes L0 = 3" by (simp_all add: L_def L0_def set_plane_def)
  have s1: "unat s1 = unat w div h_rate f * (unat h div v_rate f)" "unat (w * h) = unat w * unat h" "unat (w div hs) = unat w div h_rate f"
    using e by (simp_all add: s1_def)
  have le: "unat (w * h) + unat s1 + unat s1 < 2 ^ 32"
  proof -
    have "unat w * unat h \<le> 0x3FFF * 0x3FFF" using b by (rule mult_le_mono)
    moreover have "unat w div h_rate f * (unat h div v_rate f) \<le> 0x3FFF * 0x3FFF"
      using le_trans [OF div_le_dividend b(1)] le_trans [OF div_le_dividend b(2)] by (rule mult_le_mono)
    ultimately show ?thesis using s1 by simp
  qed
  have t: "unat (total_size L) = unat (w * h) + unat s1 + unat s1"
    using sum_sizes_six [of "user_pitches (Some ps) L0" "w * h" s1 s1] sz le
    by (simp add: L_def) (simp add: L0_def set_plane_def layout_init_def)
  have p: "plane_pitch L ! 0 = max w (ps ! 0)" "plane_pitch L ! 1 = max (w div hs) (ps ! 1)" "plane_pitch L ! 2 = max (w div hs) (ps ! 2)"
    using user_pitches_nth [of 0 L0 ps] user_pitches_nth [of 1 L0 ps] user_pitches_nth [of 2 L0 ps] n(2)
    by (simp_all add: L_def SDE_MAX_PLANES_def) (simp_all add: L0_def set_plane_def layout_init_def SDE_MAX_PLANES_def)
  have lb: "line_bytes f (unat w) 0 = unat w" "plane_lines f (unat h) 0 = unat h" "planes f = 3"
    "line_bytes f (unat w) 1 = unat w div h_rate f" "plane_lines f (unat h) 1 = unat h div v_rate f"
    "line_bytes f (unat w) 2 = unat w div h_rate f" "plane_lines f (unat h) 2 = unat h div v_rate f"
    using f(1) cb by (simp_all add: line_bytes_def plane_lines_def h_div_def v_div_def sample_bytes_def planes_def)
  have three: "{..<3 :: nat} = {0, 1, 2}" by auto
  have "exact_layout f (unat w) (unat h) ps L"
    unfolding exact_layout_def using sz n(1) t p lb s1
    by (auto simp: SDE_MAX_PLANES_def less_six less_three unat_max three L_def L0_def set_plane_def layout_init_def)
  moreover have "format_get_plane_sizes_linear f w h (Some ps) = (0, L)"
    using f r dv by (simp add: format_get_plane_sizes_linear_def L_def L0_def s1_def Let_def)
  ultimately show ?thesis by blast
qed

text \<open>All linear formats of the tables.\<close>

lemma exact_linear:
  assumes f: "SDE_FORMAT_IS_LINEAR f" "linear_ok f" and b: "unat w \<le> 0x3FFF" "unat h \<le> 0x3FFF"
  shows "\<exists>ret L'. sde_format_get_plane_sizes env f w h (Some ps) L = (ret, L') \<and> (ret = 0 \<longleftrightarrow> fits_rate f (unat w) (unat h)) \<and>
    (ret \<noteq> 0 \<longrightarrow> ret = - EINVAL) \<and> (ret = 0 \<longrightarrow> exact_layout f (unat w) (unat h) ps L')"
proof -
  have "\<not> w > SDE_MAX_IMG_WIDTH" "\<not> h > SDE_MAX_IMG_HEIGHT" using b by (simp_all add: SDE_MAX_IMG_WIDTH_def SDE_MAX_IMG_HEIGHT_def word_less_nat_alt)
  then have e: "sde_format_get_plane_sizes env f w h (Some ps) L = format_get_plane_sizes_linear f w h (Some ps)"
    using f(1) by (simp add: sde_format_get_plane_sizes_def SDE_FORMAT_IS_LINEAR_def SDE_FORMAT_IS_UBWC_def SDE_FORMAT_IS_TILE_def)
  show ?thesis
  proof (cases "fits_rate f (unat w) (unat h)")
    case True
    have "\<exists>L'. format_get_plane_sizes_linear f w h (Some ps) = (0, L') \<and> exact_layout f (unat w) (unat h) ps L'"
    proof (cases "fetch_planes f")
      case SDE_PLANE_INTERLEAVED
      then show ?thesis using exact_interleaved [OF _ _ b] f(2) by (simp add: linear_ok_def)
    next
      case SDE_PLANE_PLANAR
      then show ?thesis using exact_planar [OF _ _ _ _ b] f(2) True by (simp add: linear_ok_def fits_rate_def)
    next
      case SDE_PLANE_PSEUDO_PLANAR
      then show ?thesis using exact_pseudo [OF _ _ _ b] True by (simp add: fits_rate_def)
    qed
    then show ?thesis using e True by auto
  next
    case False
    obtain vs hs where r: "get_v_h_subsample_rate (chroma_sample f) = (vs, hs)" by (cases "get_v_h_subsample_rate (chroma_sample f)")
    have "w mod hs \<noteq> 0 \<or> h mod vs \<noteq> 0"
      using False r by (auto simp: fits_rate_def h_rate_def v_rate_def unat_eq_0 [symmetric] unat_mod_distrib mod_eq_0_iff_dvd)
    then show ?thesis using e False r by (auto simp: format_get_plane_sizes_linear_def Let_def fits_rate_def)
  qed
qed

end
