(* ===== verification/Sde_Format_Props.thy ===== *)
theory Sde_Format_Props
  imports Sde_Format_Inv
begin

section \<open>Pixel formats: properties\<close>

text \<open>
  Sizes of linear images, the planes of tiled and compressed images in their buffer, parts of linear images, and
  the check of new frame buffers.
\<close>

subsection \<open>Sizes\<close>


text \<open>An environment whose buffers have addresses; strides are in steps of 128 bytes and lines of 32.\<close>

definition ex_up :: "u32 \<Rightarrow> u32 \<Rightarrow> u32" where "ex_up x a = (x + a - 1) div a * a"

definition ex_fmt :: format_env where
  "ex_fmt = \<lparr>VENUS_Y_STRIDE = (\<lambda>c w. ex_up w 128), VENUS_Y_SCANLINES = (\<lambda>c h. ex_up h 32), VENUS_UV_STRIDE = (\<lambda>c w. ex_up w 128),
     VENUS_UV_SCANLINES = (\<lambda>c h. ex_up (h div 2) 32), VENUS_Y_META_STRIDE = (\<lambda>c w. ex_up (w div 32) 64), VENUS_Y_META_SCANLINES = (\<lambda>c h. ex_up (h div 8) 16),
     VENUS_UV_META_STRIDE = (\<lambda>c w. ex_up (w div 32) 64), VENUS_UV_META_SCANLINES = (\<lambda>c h. ex_up (h div 16) 16),
     VENUS_RGB_STRIDE = (\<lambda>c w. ex_up (4 * w) 256), VENUS_RGB_SCANLINES = (\<lambda>c h. ex_up h 16), VENUS_RGB_META_STRIDE = (\<lambda>c w. ex_up (w div 16) 64),
     VENUS_RGB_META_SCANLINES = (\<lambda>c h. ex_up (h div 4) 16), MSM_MEDIA_ALIGN = ex_up, drm_format_num_planes = (\<lambda>f. 2),
     msm_gem_iova = (\<lambda>bo a. 0x10000), msm_gem_get_dma_addr = (\<lambda>bo. 0x10000)\<rparr>"

definition ex_nv12 :: sde_format where
  "ex_nv12 = the (sde_get_sde_format_ext DRM_FORMAT_NV12 MOD_none)"



subsection \<open>Tiled and compressed images\<close>

text \<open>The sizes of the planes, and where their addresses are put.\<close>

lemma media_sizes:
  assumes "format_get_plane_sizes_ubwc env f w h = (0, L)"
  shows "\<exists>a b c d. plane_size L = [a, b, c, d, 0, 0] \<and> (\<not> SDE_FORMAT_IS_YUV f \<longrightarrow> b = 0 \<and> d = 0) \<and> (\<not> SDE_FORMAT_IS_UBWC f \<longrightarrow> c = 0 \<and> d = 0) \<and>
    total_size L = a + b + c + d \<and> ly_format L = f \<and> plane_addr L = replicate SDE_MAX_PLANES 0"
  using assms
  by (auto simp: format_get_plane_sizes_ubwc_def Let_def sum_sizes_def media_plane_def set_plane_def layout_init_def SDE_MAX_PLANES_def
    numeral_eq_Suc ac_simps split: option.splits if_splits)

lemma media_addrs:
  assumes "format_populate_addrs_ubwc env aspace fb L = (0, L')" "plane_size L = [a, b, c, d, 0, 0]" "plane_addr L = replicate SDE_MAX_PLANES 0"
    "\<not> SDE_FORMAT_IS_YUV (ly_format L) \<longrightarrow> b = 0 \<and> d = 0" "\<not> SDE_FORMAT_IS_UBWC (ly_format L) \<longrightarrow> c = 0 \<and> d = 0"
  defines "base \<equiv> fb_addr env aspace fb 0"
  shows "plane_size L' = [a, b, c, d, 0, 0] \<and> total_size L' = total_size L \<and> plane_addr L' ! 0 = base + c \<and>
    (b \<noteq> 0 \<longrightarrow> plane_addr L' ! 1 = base + a + c + d) \<and> (c \<noteq> 0 \<longrightarrow> plane_addr L' ! 2 = base) \<and> (d \<noteq> 0 \<longrightarrow> plane_addr L' ! 3 = base + a + c)"
  using assms
  by (auto simp: format_populate_addrs_ubwc_def Let_def SDE_MAX_PLANES_def numeral_eq_Suc split: if_splits)

lemma six_set: "{..<6 :: nat} = {0, 1, 2, 3, 4, 5}"
  by auto

text \<open>Every byte of the buffer belongs to exactly one plane.\<close>

lemma one_plane:
  fixes A S :: "nat \<Rightarrow> nat"
  assumes z: "S 4 = 0" "S 5 = 0" and a: "A 0 = B + S 2" "S 1 \<noteq> 0 \<longrightarrow> A 1 = B + S 0 + S 2 + S 3" "S 2 \<noteq> 0 \<longrightarrow> A 2 = B" "S 3 \<noteq> 0 \<longrightarrow> A 3 = B + S 0 + S 2"
    and x: "B \<le> x" "x < B + (S 0 + S 1 + S 2 + S 3)"
  shows "\<exists>!p. p < 6 \<and> A p \<le> x \<and> x < A p + S p"
proof -
  define q :: nat where "q = (if x < B + S 2 then 2 else if x < B + S 2 + S 0 then 0 else if x < B + S 2 + S 0 + S 3 then 3 else 1)"
  have "q < 6 \<and> A q \<le> x \<and> x < A q + S q" using x a by (auto simp: q_def)
  moreover have "p = q" if p: "p < 6 \<and> A p \<le> x \<and> x < A p + S p" for p
  proof -
    have "p = 0 \<or> p = 1 \<or> p = 2 \<or> p = 3 \<or> p = 4 \<or> p = 5" using p less_six by blast
    then show ?thesis using p a z by (elim disjE) (auto simp: q_def)
  qed
  ultimately show ?thesis by blast
qed

text \<open>
  C21. The planes fill the buffer. For every tiled or compressed format that can be found, every frame buffer for
  which a layout is made and that does not reach past the end of the address space, the total size is the sum of
  the sizes of the planes, and each byte from the address of the buffer up to the total belongs to exactly one
  plane: the planes of pixels and of meta data neither overlap nor leave gaps.
\<close>

theorem planes_fill_buffer:
  assumes "sde_get_sde_format_ext format m = Some (fb_format fb)" "\<not> SDE_FORMAT_IS_LINEAR (fb_format fb)"
    "sde_format_populate_layout env aspace fb L = (0, L')"
    "unat (fb_addr env aspace fb 0) + (\<Sum>p < SDE_MAX_PLANES. unat (plane_size L' ! p)) < 2 ^ 32"
  shows "unat (total_size L') = (\<Sum>p < SDE_MAX_PLANES. unat (plane_size L' ! p)) \<and>
    (\<forall>x. unat (fb_addr env aspace fb 0) \<le> x \<and> x < unat (fb_addr env aspace fb 0) + unat (total_size L') \<longrightarrow>
      (\<exists>!p. p < SDE_MAX_PLANES \<and> unat (plane_addr L' ! p) \<le> x \<and> x < unat (plane_addr L' ! p) + unat (plane_size L' ! p)))"
proof -
  define f where "f = fb_format fb"
  define base where "base = fb_addr env aspace fb 0"
  have u: "fetch_mode f = SDE_FETCH_UBWC" using lookup_cases [OF assms(1)] linear_tables other_tables assms(2) by (auto simp: list_all_iff f_def)
  then have t: "SDE_FORMAT_IS_UBWC f \<or> SDE_FORMAT_IS_TILE f" by (auto simp: SDE_FORMAT_IS_UBWC_def SDE_FORMAT_IS_TILE_def)
  obtain L1 where 1: "format_get_plane_sizes_ubwc env f (fb_width fb) (fb_height fb) = (0, L1)" and
      2: "ly_format L1 = f \<Longrightarrow> format_populate_addrs_ubwc env aspace fb L1 = (0, L')"
    using assms(3) t by (auto simp: sde_format_populate_layout_def sde_format_get_plane_sizes_def f_def [symmetric] Let_def split: if_splits prod.splits)
  obtain a b c d where s: "plane_size L1 = [a, b, c, d, 0, 0]" "\<not> SDE_FORMAT_IS_YUV f \<longrightarrow> b = 0 \<and> d = 0" "\<not> SDE_FORMAT_IS_UBWC f \<longrightarrow> c = 0 \<and> d = 0"
      "total_size L1 = a + b + c + d" "ly_format L1 = f" "plane_addr L1 = replicate SDE_MAX_PLANES 0"
    using media_sizes [OF 1] by blast
  have r: "plane_size L' = [a, b, c, d, 0, 0]" "total_size L' = a + b + c + d" "plane_addr L' ! 0 = base + c"
      "b \<noteq> 0 \<longrightarrow> plane_addr L' ! 1 = base + a + c + d" "c \<noteq> 0 \<longrightarrow> plane_addr L' ! 2 = base" "d \<noteq> 0 \<longrightarrow> plane_addr L' ! 3 = base + a + c"
    using media_addrs [OF 2 [OF s(5)] s(1,6)] s(2-5) by (simp_all add: base_def)
  have sum: "(\<Sum>p < SDE_MAX_PLANES. unat (plane_size L' ! p)) = unat a + unat b + unat c + unat d"
    using r(1) by (simp add: SDE_MAX_PLANES_def six_set)
  have bound: "unat base + (unat a + unat b + unat c + unat d) < 2 ^ 32" using assms(4) sum by (simp add: base_def)
  have tot: "unat (total_size L') = unat a + unat b + unat c + unat d"
    using bound unat_sum [of a b] unat_sum [of "a + b" c] unat_sum [of "a + b + c" d] by (simp add: r(2))
  have ad: "unat (base + c) = unat base + unat c" "unat (base + a + c) = unat base + unat a + unat c" "unat (base + a + c + d) = unat base + unat a + unat c + unat d"
    using bound unat_sum [of base c] unat_sum [of base a] unat_sum [of "base + a" c] unat_sum [of "base + a + c" d] by simp_all
  have "\<exists>!p. p < 6 \<and> unat (plane_addr L' ! p) \<le> x \<and> x < unat (plane_addr L' ! p) + unat (plane_size L' ! p)"
    if x: "unat base \<le> x" "x < unat base + (unat a + unat b + unat c + unat d)" for x
    by (rule one_plane [where B = "unat base"])
       (use x r ad in \<open>auto simp: unat_eq_0\<close>)
  then show ?thesis using sum tot by (simp add: SDE_MAX_PLANES_def base_def)
qed

definition ex_ubwc_fmt :: sde_format where
  "ex_ubwc_fmt = PSEUDO_YUV_FMT_TILED DRM_FORMAT_NV12 0 COLOR_8BIT COLOR_8BIT COLOR_8BIT C1_B_Cb C2_R_Cr SDE_CHROMA_420
     (SDE_FORMAT_FLAG_YUV OR SDE_FORMAT_FLAG_COMPRESSED) SDE_FETCH_UBWC 4 SDE_TILE_HEIGHT_NV12"

definition ex_ubwc_fb :: msm_framebuffer where
  "ex_ubwc_fb = \<lparr>fb_width = 100, fb_height = 50, fb_pitches = [128, 128, 0, 0], fb_offsets = [0, 0, 0, 0],
     fb_format = ex_ubwc_fmt, fb_bos = [Some 1, Some 1, None, None]\<rparr>"

definition ex_ubwc_layout :: sde_hw_fmt_layout where
  "ex_ubwc_layout = \<lparr>ly_format = ex_ubwc_fmt, num_planes = 4, ly_width = 100, ly_height = 50, total_size = 0x5000,
     plane_addr = [0x11000, 0x14000, 0x10000, 0x13000, 0, 0], plane_size = [0x2000, 0x1000, 0x1000, 0x1000, 0, 0], plane_pitch = [128, 128, 64, 64, 0, 0]\<rparr>"

lemma ex_ubwc_found: "sde_get_sde_format_ext DRM_FORMAT_NV12 (MOD_qcom True False False False) = Some ex_ubwc_fmt"
  by code_simp

lemma ex_ubwc_flags: "\<not> SDE_FORMAT_IS_LINEAR ex_ubwc_fmt" "SDE_FORMAT_IS_YUV ex_ubwc_fmt" "SDE_FORMAT_IS_UBWC ex_ubwc_fmt" "\<not> SDE_FORMAT_IS_DX ex_ubwc_fmt"
  "pixel_format ex_ubwc_fmt = DRM_FORMAT_NV12" "fmt_planes ex_ubwc_fmt = 4"
  by code_simp+

lemma six_zeros: "replicate SDE_MAX_PLANES 0 = [0, 0, 0, 0, 0, 0]"
  by (simp add: SDE_MAX_PLANES_def numeral_eq_Suc)

lemma six_update: "[a, b, c, d, e, g][1 := x] = [a, x, c, d, e, g]" "[a, b, c, d, e, g][2 := x] = [a, b, x, d, e, g]" "[a, b, c, d, e, g][3 := x] = [a, b, c, x, e, g]"
  by (simp_all add: numeral_eq_Suc)

lemma ex_ubwc_made: "sde_format_populate_layout ex_fmt (Some 1) ex_ubwc_fb (layout_init ex_nv12 0 0) = (0, ex_ubwc_layout)"
  by (simp add: sde_format_populate_layout_def sde_format_get_plane_sizes_def format_get_plane_sizes_ubwc_def format_get_media_color_ubwc_def
      format_populate_addrs_ubwc_def ex_ubwc_flags ex_ubwc_fb_def ex_fmt_def ex_up_def layout_init_def media_plane_def set_plane_def sum_sizes_def
      SDE_MAX_IMG_WIDTH_def SDE_MAX_IMG_HEIGHT_def SDE_UBWC_PLANE_SIZE_ALIGNMENT_def fb_addr_def msm_framebuffer_iova_def
      ex_ubwc_layout_def six_zeros six_update)

lemma planes_fill_buffer_witness:
  "unat (total_size ex_ubwc_layout) = (\<Sum>p < SDE_MAX_PLANES. unat (plane_size ex_ubwc_layout ! p)) \<and>
    (\<exists>!p. p < SDE_MAX_PLANES \<and> unat (plane_addr ex_ubwc_layout ! p) \<le> 0x13800 \<and> 0x13800 < unat (plane_addr ex_ubwc_layout ! p) + unat (plane_size ex_ubwc_layout ! p))"
proof -
  have sizes: "unat (fb_addr ex_fmt (Some 1) ex_ubwc_fb 0) = 0x10000" "(\<Sum>p < SDE_MAX_PLANES. unat (plane_size ex_ubwc_layout ! p)) = 0x5000"
    by (simp_all add: ex_ubwc_fb_def fb_addr_def msm_framebuffer_iova_def ex_fmt_def ex_ubwc_layout_def SDE_MAX_PLANES_def six_set)
  have "sde_get_sde_format_ext DRM_FORMAT_NV12 (MOD_qcom True False False False) = Some (fb_format ex_ubwc_fb)" "\<not> SDE_FORMAT_IS_LINEAR (fb_format ex_ubwc_fb)"
    by (simp_all add: ex_ubwc_found ex_ubwc_flags ex_ubwc_fb_def)
  from planes_fill_buffer [OF this ex_ubwc_made] sizes show ?thesis by simp
qed

subsection \<open>A part of the image\<close>

text \<open>The address of the sample of a plane that holds the pixel in column \<open>i\<close> and line \<open>j\<close>.\<close>

definition sample_addr :: "sde_format \<Rightarrow> sde_hw_fmt_layout \<Rightarrow> nat \<Rightarrow> nat \<Rightarrow> nat \<Rightarrow> u32" where
  "sample_addr f L p i j = plane_addr L ! p + of_nat (j div v_div f p) * plane_pitch L ! p + of_nat (i div h_div f p * sample_bytes f p)"














text \<open>An image with ten bits, 16 by 16 pixels, of which the lower right quarter is taken.\<close>

definition ex_p010_fmt :: sde_format where
  "ex_p010_fmt = PSEUDO_YUV_FMT_LOOSE DRM_FORMAT_NV12 0 COLOR_8BIT COLOR_8BIT COLOR_8BIT C1_B_Cb C2_R_Cr SDE_CHROMA_420
     (SDE_FORMAT_FLAG_YUV OR SDE_FORMAT_FLAG_DX) SDE_FETCH_LINEAR 2"


lemma ex_p010_flags: "SDE_FORMAT_IS_LINEAR ex_p010_fmt" "\<not> SDE_FORMAT_IS_UBWC ex_p010_fmt" "\<not> SDE_FORMAT_IS_TILE ex_p010_fmt" "SDE_FORMAT_IS_DX ex_p010_fmt"
  "pixel_format ex_p010_fmt = DRM_FORMAT_NV12" "fetch_planes ex_p010_fmt = SDE_PLANE_PSEUDO_PLANAR" "chroma_sample ex_p010_fmt = SDE_CHROMA_420"
  "fmt_planes ex_p010_fmt = 2"
  by code_simp+


definition ex_p010_layout :: "u32 \<Rightarrow> u32 \<Rightarrow> u32 \<Rightarrow> sde_hw_fmt_layout" where
  "ex_p010_layout s a b = \<lparr>ly_format = ex_p010_fmt, num_planes = 2, ly_width = s, ly_height = s, total_size = 768,
     plane_addr = [a, b, 0, 0, 0, 0], plane_size = [512, 256, 0, 0, 0, 0], plane_pitch = [64, 64, 0, 0, 0, 0]\<rparr>"

lemma six_range: "[0..<SDE_MAX_PLANES] = [0, 1, 2, 3, 4, 5]" "[0..<2] = [0, 1]"
  by code_simp+




subsection \<open>The check of new frame buffers\<close>

text \<open>
  The check compares the sizes of the buffers with a total that does not know the pitches: an image of ten bits
  with 64 bytes per line passes with a buffer of 768 bytes, and its last line of pixels starts at byte 960.
\<close>

lemma check_ignores_pitches:
  "sde_format_check_modified_format ex_fmt ex_p010_fmt 16 16 [64, 64, 0, 0] [Some (1, 768), Some (1, 768)] (layout_init ex_nv12 0 0) = 0"
  "sample_addr ex_p010_fmt (ex_p010_layout 16 0x10000 0x10400) 0 0 15 = 0x10000 + 960"
  by (simp_all add: sde_format_check_modified_format_def sde_format_get_plane_sizes_def format_get_plane_sizes_linear_def get_v_h_subsample_rate_def
      user_pitches_def six_range ex_p010_flags ex_fmt_def layout_init_def set_plane_def sum_sizes_def SDE_MAX_IMG_WIDTH_def SDE_MAX_IMG_HEIGHT_def
      six_zeros six_update Let_def sample_addr_def v_div_def h_div_def ex_p010_layout_def)

end
