(* ===== verification/Spec2Isabelle.thy ===== *)
theory Spec2Isabelle
  imports Dsi_Clk_Props Msm_Prop_Props Sde_Rsc_Props Sde_Fence_Props Sde_Irq_Props Sde_Encoder_Props Sde_Rm_Props Sde_Power_Props Sde_Hdcp_Props Sde_Format_Props
begin

text \<open>
  Verification of the MSM display drivers: the Linux drivers of the display subsystem of Qualcomm SoCs, under
  \<^verbatim>\<open>src/msm\<close>. The library models the parts of the driver that keep state of their own and decide when power,
  clocks, interrupts, fences and hardware blocks are taken and given back. This theory imports the theories
  with the properties of every component and holds no definitions.

  \<^bold>\<open>The parts of the program and how they interact.\<close> A display is an encoder of the display controller (SDE)
  with a mixer pipeline, an interface and a panel. An atomic commit sets custom properties of DRM objects
  (\<^verbatim>\<open>msm_prop\<close>), lays out the frame buffers (\<^verbatim>\<open>sde_formats\<close>), reserves hardware blocks for the encoder (\<^verbatim>\<open>sde_rm\<close>), creates release and retire fences on the
  timelines of the display (\<^verbatim>\<open>sde_fence\<close>) and raises a kickoff event of the encoder. The resource control of the
  encoder (\<^verbatim>\<open>sde_encoder\<close>) then switches power (\<^verbatim>\<open>sde_power_handle\<close>, which drives regulators, clocks and buses
  through \<^verbatim>\<open>sde_io_util\<close>), the clocks of the panel link (\<^verbatim>\<open>dsi_clk_manager\<close>), the interrupts of the physical
  encoders (\<^verbatim>\<open>sde_core_irq\<close> on \<^verbatim>\<open>sde_hw_interrupts\<close>) and the state of the resource coordinator (\<^verbatim>\<open>sde_rsc\<close>), which
  lets the display keep refreshing while the processor sleeps. The interrupt handler dispatches to callbacks
  that signal the fences. For a protected DisplayPort link \<^verbatim>\<open>sde_hdcp_2x\<close> authenticates the sink.

  \<^bold>\<open>How calls that leave a component are modelled.\<close> \<open>Sde_Prelude\<close> has the C integer types as words, the errno
  values, and the trace: a component that calls the kernel, the hardware or another component takes an
  environment, a function from the calls made so far and the call to its result, and returns the trace extended
  by the calls it made. Theorems hold for every environment, or for those that satisfy a condition that is
  named (clocks that always start, hardware that agrees, a library that keeps the buffers it gave). Each
  property lists its conditions in the text before it, with the part of the code that fails without them. Reference counts kept by
  others are sums over the trace. Undefined behaviour of C (null, wild and freed pointers, indices out of
  bounds, division by zero, signed overflow) is the value \<open>None\<close>. Locks, log messages, tracing and debugfs
  have no counterpart: the operations that a lock makes atomic are steps, and a run is a list of steps. The
  prelude also has the interfaces that components share, as locales: \<open>vote_arbiter\<close> (the strongest of several
  votes; the DSI clock manager and the coordinator), \<open>ref_switch\<close> (a reference counted switch; the clocks of
  the coordinator) and \<open>switch_bank\<close> (many of them; the interrupts).

  \<^bold>\<open>DSI clock manager\<close> (\<^verbatim>\<open>msm/dsi/dsi_clk_manager.c\<close>, \<^verbatim>\<open>dsi_clk.h\<close>). \<open>Dsi_Clk_Hw\<close>: rates and source clocks, start
  and stop of the core and link clock sets with their error labels, and the loops over the controllers of a
  display. \<open>Dsi_Clk_Mngr\<close>: clients and their votes, \<open>dsi_update_clk_state\<close> cut into its branches, arbitration,
  requests, forced update, registration. \<open>Dsi_Clk_Balance\<close>: the locales \<open>clk_start\<close> and \<open>clk_switch\<close>, what a
  start and a stop promise about one count of the clock framework, interpreted on the core, high speed and low
  power sets. \<open>Dsi_Clk_Counts\<close>, \<open>Dsi_Clk_Inv\<close>, \<open>Dsi_Clk_Refs\<close>: the counts that the state demands, runs, and client
  counts against outstanding requests. C1 to C3 are about runs whose calls succeed as far as each says: a
  deregistration that fails leaves a client that votes off with its counts. \<open>Dsi_Clk_Props\<close>: C1 to C3, C5, C7.

  \<^bold>\<open>Properties\<close> (\<^verbatim>\<open>msm/msm_prop.c\<close>, \<^verbatim>\<open>msm_prop.h\<close>). \<open>Msm_Prop\<close>: installation, the search from a moving start,
  setting and getting, blobs, the dirty list, state objects and their cache. \<open>Msm_Prop_Inv\<close>: the dirty list as
  an instance of the locale \<open>uniq_queue\<close>, and the references to blobs. \<open>Msm_Prop_Props\<close>: C9 to C12.

  \<^bold>\<open>Resource state coordinator\<close> (\<^verbatim>\<open>msm/sde_rsc.c\<close>). \<open>Sde_Rsc\<close>: clients, the clock vote, timers, the four state
  switches of both hardware versions, state updates and bandwidth votes. \<open>Sde_Rsc_Inv\<close>: the vote as a
  \<open>ref_switch\<close>, and runs of a world of coordinators. \<open>Sde_Rsc_Arb\<close>: the abstract arbitration that an idle request
  refines. \<open>Sde_Rsc_Props\<close>: C16 to C18, C23.

  \<^bold>\<open>Fences\<close> (\<^verbatim>\<open>msm/sde/sde_fence.c\<close>). \<open>Sde_Fence\<close>: timelines, fences and their references, signalling by counters that
  wrap at 32 bits. \<open>Sde_Fence_Inv\<close> and \<open>Sde_Fence_Sim\<close>: memory safety, and the simulation by a timeline with
  unbounded counters, which holds while fewer than $2^{31}$ commits separate the counters. That no fence leaks is an
  equation between the live fences and the allocations, last puts and closes of a run. \<open>Sde_Fence_Props\<close>:
  C25 to C28.

  \<^bold>\<open>Interrupts\<close> (\<^verbatim>\<open>msm/sde/sde_hw_interrupts.c\<close>, \<^verbatim>\<open>sde_core_irq.c\<close>). \<open>Sde_Irq_Map\<close>: the table of 576 interrupts, entry for
  entry. \<open>Sde_Hw_Intr\<close>: the registers, the cached masks and the dispatch loop. \<open>Sde_Core_Irq\<close>: counted requests,
  callbacks, the handler. \<open>Sde_Irq_Boot\<close>: what initialisation makes of the table. \<open>Sde_Irq_Inv\<close>: the driver's copy of
  the masks, the counters as a \<open>switch_bank\<close>. \<open>Sde_Irq_Reach\<close>: reachable states. \<open>Sde_Irq_Dispatch\<close>: the search
  of the handler equals a list of indices. Pending interrupts are defined from the answers of the status and
  enable registers alone. \<open>Sde_Irq_Props\<close>: C29, C30, C34.

  \<^bold>\<open>Encoder resource control\<close> (\<^verbatim>\<open>msm/sde/sde_encoder.c\<close>, \<open>sde_encoder_resource_control\<close> and what it calls). \<open>Sde_Encoder_Rc\<close>:
  the states and events, one definition per event, the helpers for power, interrupts, latency requests and the
  coordinator, and the callers. \<open>Sde_Encoder_Inv\<close>: what a trace leaves held; enables that failed, whose reference
  nobody gives back, are counted apart. \<open>Sde_Encoder_Run\<close>: the resources that
  belong to each state. \<open>Sde_Encoder_Props\<close>: C35 to C38.

  \<^bold>\<open>Resource manager\<close> (\<^verbatim>\<open>msm/sde/sde_rm.c\<close>). \<open>Sde_Rm\<close>: blocks, tags, topologies and the iterator. \<open>Sde_Rm_Reserve\<close>:
  the choice of blocks. \<open>Sde_Rm_Ops\<close>: reserve, test, commit, release, set up and tear down. \<open>Sde_Rm_Inv\<close>,
  \<open>Sde_Rm_Search\<close>, \<open>Sde_Rm_Propose\<close>, \<open>Sde_Rm_Runs\<close>, \<open>Sde_Rm_Safe\<close>, \<open>Sde_Rm_Step\<close>: the invariant of the tags, what a
  search finds, what a proposal tags, the outcomes of a reservation, and that displays do not touch each other's
  blocks (the locale \<open>isolated_pool\<close>). \<open>Sde_Rm_Props\<close>: C4, C15, C39, C40.

  \<^bold>\<open>Power handle\<close> (\<^verbatim>\<open>msm/sde_power_handle.c\<close>, \<^verbatim>\<open>msm/sde_io_util.c\<close>). \<open>Sde_Power\<close>: clients, their counts and votes, the
  enable path with its error labels, bandwidth votes over the paths of a bus, clock rates, and the regulator and
  clock loops. \<open>Sde_Power_Inv\<close>: references of clocks and regulators as sums over the trace, and the locale
  \<open>power_refs\<close> for them; regulators under control of the hardware, which the handle skips but the error path does
  not, have a weight of their own. \<open>Sde_Power_Run\<close>, \<open>Sde_Power_Step\<close>: every operation has a value, and the invariant of
  regular runs. \<open>Sde_Power_Props\<close>: C6, C19, C22, C24.

  \<^bold>\<open>Content protection\<close> (\<^verbatim>\<open>msm/sde_hdcp_2x.c\<close>). \<open>Sde_Hdcp\<close>: the messages and their table, the work items and their
  queue, commands, streams; runs start from the registration, where the buffers of the library are null.
  \<open>Sde_Hdcp_Inv\<close>, \<open>Sde_Hdcp_Run\<close>: the invariant of authentication, messages and streams.
  \<open>Sde_Hdcp_Session\<close>: a session with a receiver from start to success, as a chain of steps. \<open>Sde_Hdcp_Props\<close>: C8,
  C13, C14, C31, C32.

  \<^bold>\<open>Pixel formats\<close> (\<^verbatim>\<open>msm/sde/sde_formats.c\<close>). \<open>Sde_Format_Map\<close>: the tables, with each macro as a function, and the
  lookup. \<open>Sde_Format\<close>: sizes and addresses of the planes of an image, parts of an image, the check of new frame
  buffers; the strides of tiled and compressed images come from a header that is not in the repository and are
  arguments. \<open>Sde_Format_Inv\<close>: lines and bytes of a plane in natural numbers, and that the word arithmetic gives them.
  \<open>Sde_Format_Props\<close>: C20, C21, C33.

  \<^bold>\<open>Bounds and termination.\<close> Loops recurse over the lists or arrays they visit or over the counter that the code
  counts down; none has a bound that the code does not have. \<open>run_works\<close> of the content protection runs the items
  before the flushed one, whose number is known when it starts; the questions whether the coordinator is ready are
  at most five, as in the code, which C38 states; the choice of mixers has at most three rounds, because every
  round allows one more kind of mixer.
  Counters are words of the width of the code; where a property holds only without a wrap it has a bound on the
  length of the run as a hypothesis.

  \<^bold>\<open>What the model showed.\<close> Properties of kind error state what the code does where it does not do what it means
  to: a reservation without control path (C4), a failed enable that keeps its reference (C6), a restart that is
  lost (C32), and the second reference of an idle video mode display (C36). The surplus of C35, the regulators
  of C6, the shared bit of C29 and C30, and the short addresses of C33 are of this kind too.
  Other lemmas of this kind, which are not in the list of properties, are in the same theories: a refused transition
  of the coordinator that is recorded, the double release of gated link clocks, the lost reference of a failed blob
  lookup, the interrupt 40 that is never dispatched, the indices for which enabling an interrupt is defined, and a
  frame buffer that is accepted with a buffer that is too small.

  \<^bold>\<open>Not modelled.\<close> The DRM core of the driver (\<^verbatim>\<open>sde_kms.c\<close>, \<^verbatim>\<open>sde_crtc.c\<close>, \<^verbatim>\<open>sde_plane.c\<close>, \<^verbatim>\<open>sde_connector.c\<close>,
  \<^verbatim>\<open>msm_drv.c\<close>, \<^verbatim>\<open>msm_atomic.c\<close>), which turns DRM state into register values through the kernel's atomic helpers; the
  physical encoders and the register access objects (\<^verbatim>\<open>sde_hw_*.c\<close>), whose meaning is in the hardware manual; the
  hardware catalog and device tree parsers; color processing and register DMA; bandwidth calculation (\<^verbatim>\<open>sde_core_perf.c\<close>),
  bus shaping (\<^verbatim>\<open>sde_vbif.c\<close>); the register dump and event log; buffer objects and address spaces, which are thin layers
  over the kernel's memory management; DSI displays, panels and controllers apart from their clocks; DisplayPort and
  the EDID parser; HDCP 1.x; shared displays and leases; the rotator; and the phase locked loops. Of the
  modelled files: the probe, bind and debugfs functions of \<^verbatim>\<open>sde_rsc.c\<close>, reading the device tree and freeing
  everything in \<^verbatim>\<open>sde_power_handle.c\<close>, the gpio and I2C helpers of \<^verbatim>\<open>sde_io_util.c\<close>, printing of fences, and what
  \<^verbatim>\<open>sde_rm_cont_splash_res_init\<close> reads back from the bootloader, which is an input.
\<close>

end
